(* ===== verification/Prelude.thy ===== *)
theory Prelude
  imports Main "HOL-Library.AList" "HOL-Library.Multiset" "HOL-Library.List_Lexorder"
    "HOL-Library.Char_ord"
begin

text \<open>
  Shared vocabulary of the development: results of operations that can throw, JavaScript's
  stable \<^verbatim>\<open>Array.prototype.sort\<close> with a comparison function, its insertion-ordered
  \<^verbatim>\<open>Map\<close>, safe integers, and the string tests the sources write as regular expressions.
\<close>

named_theorems result_simps \<open>inversion and evaluation of results of throwing operations\<close>
named_theorems money_simps \<open>unfolding of the money and currency tests\<close>

section \<open>Results of operations that throw\<close>

text \<open>\<open>Inl e\<close> is a thrown error, \<open>Inr x\<close> a normal return.\<close>

definition rbind :: "'e + 'a \<Rightarrow> ('a \<Rightarrow> 'e + 'b) \<Rightarrow> 'e + 'b" where
  "rbind m f = (case m of Inl e \<Rightarrow> Inl e | Inr x \<Rightarrow> f x)"

definition throw_if :: "bool \<Rightarrow> 'e \<Rightarrow> 'e + unit" where
  "throw_if b e = (if b then Inl e else Inr ())"

primrec rmap :: "('a \<Rightarrow> 'e + 'b) \<Rightarrow> 'a list \<Rightarrow> 'e + 'b list" where
  "rmap f [] = Inr []"
| "rmap f (x # xs) = rbind (f x) (\<lambda>y. rbind (rmap f xs) (\<lambda>ys. Inr (y # ys)))"

primrec rfold :: "('a \<Rightarrow> 's \<Rightarrow> 'e + 's) \<Rightarrow> 'a list \<Rightarrow> 's \<Rightarrow> 'e + 's" where
  "rfold f [] s = Inr s"
| "rfold f (x # xs) s = rbind (f x s) (rfold f xs)"

primrec rall :: "('a \<Rightarrow> 'e + unit) \<Rightarrow> 'a list \<Rightarrow> 'e + unit" where
  "rall f [] = Inr ()"
| "rall f (x # xs) = rbind (f x) (\<lambda>_. rall f xs)"

lemma rbind_Inl [simp]: "rbind (Inl e) f = Inl e"
  by (simp add: rbind_def)

lemma rbind_Inr [simp]: "rbind (Inr x) f = f x"
  by (simp add: rbind_def)

lemma rbind_eq_Inr [result_simps]: "rbind m f = Inr y \<longleftrightarrow> (\<exists>x. m = Inr x \<and> f x = Inr y)"
  by (cases m) auto

lemma rbind_eq_Inl [result_simps]:
  "rbind m f = Inl e \<longleftrightarrow> m = Inl e \<or> (\<exists>x. m = Inr x \<and> f x = Inl e)"
  by (cases m) auto

lemma throw_if_eq_Inr [simp]: "throw_if b e = Inr u \<longleftrightarrow> \<not> b"
  by (simp add: throw_if_def)

lemma throw_if_eq_Inl [simp]: "throw_if b e = Inl e' \<longleftrightarrow> b \<and> e' = e"
  by (auto simp: throw_if_def)

lemma throw_if_False [simp]: "throw_if False e = Inr ()"
  by (simp add: throw_if_def)

lemma throw_if_True [simp]: "throw_if True e = Inl e"
  by (simp add: throw_if_def)

lemma rbind_throw_if [simp]: "rbind (throw_if b e) f = (if b then Inl e else f ())"
  by (simp add: throw_if_def)

lemma rall_eq_Inr [result_simps]: "rall f xs = Inr u \<longleftrightarrow> (\<forall>x \<in> set xs. f x = Inr ())"
  by (induction xs) (auto simp: rbind_eq_Inr)

lemma rmap_eq_Inr [result_simps]:
  "rmap f xs = Inr ys \<longleftrightarrow> list_all2 (\<lambda>x y. f x = Inr y) xs ys"
  by (induction xs arbitrary: ys) (auto simp: rbind_eq_Inr list_all2_Cons1)

lemma rmap_total: "(\<And>x. x \<in> set xs \<Longrightarrow> f x = Inr (g x)) \<Longrightarrow> rmap f xs = Inr (map g xs)"
  by (induction xs) auto

lemma rmap_InrD:
  "rmap f xs = Inr ys \<Longrightarrow> map g ys = map h xs"
  if "\<And>x y. x \<in> set xs \<Longrightarrow> f x = Inr y \<Longrightarrow> g y = h x"
  using that by (induction xs arbitrary: ys) (auto simp: rbind_eq_Inr)

lemma rmap_set:
  "rmap f xs = Inr ys \<Longrightarrow> y \<in> set ys \<Longrightarrow> \<exists>x \<in> set xs. f x = Inr y"
  by (induction xs arbitrary: ys) (auto simp: rbind_eq_Inr)

lemma rfold_append: "rfold f (xs @ ys) s = rbind (rfold f xs s) (rfold f ys)"
  by (induction xs arbitrary: s) (auto simp: rbind_def split: sum.splits)

text \<open>The invariant rule for a loop that may throw.\<close>

lemma rfold_invariant:
  assumes "rfold f xs s = Inr t" and "P s"
    and "\<And>x s t. x \<in> set xs \<Longrightarrow> P s \<Longrightarrow> f x s = Inr t \<Longrightarrow> P t"
  shows "P t"
  using assms by (induction xs arbitrary: s) (auto simp: rbind_eq_Inr)

section \<open>Stable sorting with a comparison function\<close>

primrec js_insert :: "('a \<Rightarrow> 'a \<Rightarrow> int) \<Rightarrow> 'a \<Rightarrow> 'a list \<Rightarrow> 'a list" where
  "js_insert cmp x [] = [x]"
| "js_insert cmp x (y # ys) = (if cmp x y \<le> 0 then x # y # ys else y # js_insert cmp x ys)"

primrec js_sort :: "('a \<Rightarrow> 'a \<Rightarrow> int) \<Rightarrow> 'a list \<Rightarrow> 'a list" where
  "js_sort cmp [] = []"
| "js_sort cmp (x # xs) = js_insert cmp x (js_sort cmp xs)"

lemma mset_js_insert [simp]: "mset (js_insert cmp x xs) = add_mset x (mset xs)"
  by (induction xs) auto

lemma mset_js_sort [simp]: "mset (js_sort cmp xs) = mset xs"
  by (induction xs) auto

lemma set_js_sort [simp]: "set (js_sort cmp xs) = set xs"
  by (metis mset_js_sort set_mset_mset)

lemma length_js_sort [simp]: "length (js_sort cmp xs) = length xs"
  by (metis mset_js_sort size_mset)

lemma distinct_map_js_sort [simp]: "distinct (map f (js_sort cmp xs)) \<longleftrightarrow> distinct (map f xs)"
  by (metis mset_js_sort mset_map mset_eq_imp_distinct_iff)

lemma sum_list_map_js_sort [simp]:
  "sum_list (map f (js_sort cmp xs)) = sum_list (map (f :: 'a \<Rightarrow> 'b :: comm_monoid_add) xs)"
  by (metis mset_js_sort mset_map sum_mset_sum_list)

text \<open>
  The contract of a comparison function: what a caller of \<^verbatim>\<open>sort\<close> must provide, and what
  it gets back. The specification of ECMAScript promises a sorted, stable result exactly for
  comparison functions that satisfy it.
\<close>

locale js_comparator =
  fixes cmp :: "'a \<Rightarrow> 'a \<Rightarrow> int"
  assumes cmp_total: "cmp x y \<le> 0 \<or> cmp y x \<le> 0"
    and cmp_trans: "cmp x y \<le> 0 \<Longrightarrow> cmp y z \<le> 0 \<Longrightarrow> cmp x z \<le> 0"
begin

lemma cmp_refl: "cmp x x \<le> 0"
  using cmp_total [of x x] by simp

lemma sorted_js_insert:
  "sorted_wrt (\<lambda>x y. cmp x y \<le> 0) xs \<Longrightarrow> sorted_wrt (\<lambda>x y. cmp x y \<le> 0) (js_insert cmp x xs)"
proof (induction xs)
  case Nil
  then show ?case by simp
next
  case (Cons y ys)
  have set_ins: "set (js_insert cmp x ys) = insert x (set ys)"
    by (metis mset_js_insert set_mset_add_mset_insert set_mset_mset)
  show ?case
  proof (cases "cmp x y \<le> 0")
    case True
    with Cons.prems show ?thesis by (auto intro: cmp_trans)
  next
    case False
    then have "cmp y x \<le> 0" using cmp_total by blast
    with False Cons set_ins show ?thesis by auto
  qed
qed

lemma sorted_js_sort: "sorted_wrt (\<lambda>x y. cmp x y \<le> 0) (js_sort cmp xs)"
  by (induction xs) (auto intro: sorted_js_insert)

text \<open>Where only equal elements compare as equal, the result depends on the elements alone.\<close>

lemma sorted_wrt_unique:
  assumes "mset xs = mset ys"
    and "sorted_wrt (\<lambda>x y. cmp x y \<le> 0) xs" and "sorted_wrt (\<lambda>x y. cmp x y \<le> 0) ys"
    and "\<And>x y. x \<in> set xs \<Longrightarrow> y \<in> set xs \<Longrightarrow> cmp x y \<le> 0 \<Longrightarrow> cmp y x \<le> 0 \<Longrightarrow> x = y"
  shows "xs = ys"
  using assms
proof (induction xs arbitrary: ys)
  case Nil
  then show ?case by simp
next
  case (Cons x xs)
  then obtain y zs where ys: "ys = y # zs" by (cases ys) auto
  have sets: "set (x # xs) = set ys" by (metis Cons.prems(1) set_mset_mset)
  have "y \<in> set (x # xs)" and "x \<in> set (y # zs)" using sets ys by auto
  then have "cmp x y \<le> 0" and "cmp y x \<le> 0"
    using Cons.prems(2,3) ys cmp_refl by auto
  then have "x = y" using Cons.prems(4) sets ys by auto
  with Cons.prems ys Cons.IH [of zs] show ?case by auto
qed

lemma js_sort_mset_cong:
  assumes "mset xs = mset ys"
    and "\<And>x y. x \<in> set xs \<Longrightarrow> y \<in> set xs \<Longrightarrow> cmp x y \<le> 0 \<Longrightarrow> cmp y x \<le> 0 \<Longrightarrow> x = y"
  shows "js_sort cmp xs = js_sort cmp ys"
  by (rule sorted_wrt_unique) (use assms sorted_js_sort in auto)

end

section \<open>Order of strings\<close>

text \<open>
  A string is a list of characters, each with its code point; all identifiers, currencies and
  component names of the sources are plain ASCII. The comparison by code points that several
  sources write out as a loop returns the sign at the first difference, and the difference of
  the lengths when one string is a prefix of the other.
\<close>

fun compare_code_points :: "string \<Rightarrow> string \<Rightarrow> int" where
  "compare_code_points (l # ls) (r # rs) =
     (if l \<noteq> r then (if (of_char l :: nat) < of_char r then - 1 else 1)
      else compare_code_points ls rs)"
| "compare_code_points ls rs = int (length ls) - int (length rs)"

text \<open>The \<^verbatim>\<open>left < right ? -1 : left > right ? 1 : 0\<close> form.\<close>

definition compare_text :: "string \<Rightarrow> string \<Rightarrow> int" where
  "compare_text l r = (if l < r then - 1 else if r < l then 1 else 0)"

lemma compare_code_points_less_iff: "compare_code_points l r < 0 \<longleftrightarrow> l < r"
proof (induction l arbitrary: r)
  case Nil
  then show ?case by (cases r) auto
next
  case (Cons c l)
  then show ?case by (cases r) (auto simp: less_char_def)
qed

lemma compare_code_points_eq_iff [simp]: "compare_code_points l r = 0 \<longleftrightarrow> l = r"
  by (induction l r rule: compare_code_points.induct) auto

lemma compare_code_points_le_iff: "compare_code_points l r \<le> 0 \<longleftrightarrow> l \<le> r"
  using compare_code_points_less_iff [of l r] compare_code_points_eq_iff [of l r]
  by (metis order_le_less)

lemma compare_text_le_iff: "compare_text l r \<le> 0 \<longleftrightarrow> l \<le> r"
  by (auto simp: compare_text_def)

lemma compare_text_eq_iff [simp]: "compare_text l r = 0 \<longleftrightarrow> l = r"
  by (auto simp: compare_text_def)

interpretation code_points: js_comparator compare_code_points
  by unfold_locales (auto simp: compare_code_points_le_iff)

interpretation text_order: js_comparator compare_text
  by unfold_locales (auto simp: compare_text_le_iff)

text \<open>Sorting strings with either comparison is the library's \<^const>\<open>sort\<close>.\<close>

lemma map_js_insert:
  "map f (js_insert (\<lambda>l r. cmp (f l) (f r)) x xs) = js_insert cmp (f x) (map f xs)"
  by (induction xs) auto

lemma map_js_sort: "map f (js_sort (\<lambda>l r. cmp (f l) (f r)) xs) = js_sort cmp (map f xs)"
  by (induction xs) (auto simp: map_js_insert)

lemma js_sort_code_points: "js_sort compare_code_points xs = sort xs"
proof (rule properties_for_sort [symmetric])
  show "mset (js_sort compare_code_points xs) = mset xs" by simp
  show "sorted (js_sort compare_code_points xs)"
    using code_points.sorted_js_sort [of xs] by (simp add: compare_code_points_le_iff)
qed

lemma js_sort_compare_text: "js_sort compare_text xs = sort xs"
proof (rule properties_for_sort [symmetric])
  show "mset (js_sort compare_text xs) = mset xs" by simp
  show "sorted (js_sort compare_text xs)"
    using text_order.sorted_js_sort [of xs] by (simp add: compare_text_le_iff)
qed

section \<open>Insertion-ordered maps\<close>

text \<open>
  A JavaScript \<^verbatim>\<open>Map\<close> iterates in insertion order, and \<^verbatim>\<open>set\<close> on a present key keeps its
  place: \<^const>\<open>AList.update\<close>. The contract is stated once; \<open>accumulate\<close> is the
  \<^verbatim>\<open>map.set(k, (map.get(k) ?? 0) + a)\<close> that the sources use to add up amounts by key.
\<close>

definition accumulate :: "'k \<Rightarrow> int \<Rightarrow> ('k \<times> int) list \<Rightarrow> ('k \<times> int) list" where
  "accumulate k a m = AList.update k ((case map_of m k of None \<Rightarrow> 0 | Some v \<Rightarrow> v) + a) m"

locale ordered_map =
  fixes get :: "'m \<Rightarrow> 'k \<Rightarrow> int option" and put :: "'k \<Rightarrow> int \<Rightarrow> 'm \<Rightarrow> 'm"
    and entries :: "'m \<Rightarrow> ('k \<times> int) list"
  assumes get_put: "get (put k v m) k' = (if k' = k then Some v else get m k')"
    and entries_get: "distinct (map fst (entries m)) \<Longrightarrow> map_of (entries m) = get m"
    and entries_put_distinct:
      "distinct (map fst (entries m)) \<Longrightarrow> distinct (map fst (entries (put k v m)))"
    and entries_put_dom: "fst ` set (entries (put k v m)) = insert k (fst ` set (entries m))"
begin

definition total :: "'m \<Rightarrow> int" where
  "total m = sum_list (map snd (entries m))"

lemma total_eq_sum:
  assumes "distinct (map fst (entries m))"
  shows "total m = (\<Sum>k \<in> fst ` set (entries m). the (get m k))"
proof -
  have "total m = sum_list (map (\<lambda>k. the (get m k)) (map fst (entries m)))"
    unfolding total_def
    using assms by (auto intro!: arg_cong [where f = sum_list] simp: entries_get [symmetric])
  also have "\<dots> = (\<Sum>k \<in> set (map fst (entries m)). the (get m k))"
    using assms by (rule sum_list_distinct_conv_sum_set)
  finally show ?thesis by simp
qed

lemma total_put_add:
  assumes d: "distinct (map fst (entries m))"
  shows "total (put k ((case get m k of None \<Rightarrow> 0 | Some v \<Rightarrow> v) + a) m) = total m + a"
proof -
  let ?K = "fst ` set (entries m)" and ?m = "put k ((case get m k of None \<Rightarrow> 0 | Some v \<Rightarrow> v) + a) m"
  have rest: "(\<Sum>j \<in> ?K - {k}. the (get ?m j)) = (\<Sum>j \<in> ?K - {k}. the (get m j))"
    by (rule sum.cong) (auto simp: get_put)
  have "total ?m = (\<Sum>j \<in> insert k ?K. the (get ?m j))"
    using total_eq_sum [OF entries_put_distinct [OF d]] by (simp add: entries_put_dom)
  also have "\<dots> = the (get ?m k) + (\<Sum>j \<in> ?K - {k}. the (get m j))"
    by (simp add: sum.insert_remove rest)
  finally have new: "total ?m = the (get ?m k) + (\<Sum>j \<in> ?K - {k}. the (get m j))" .
  show ?thesis
  proof (cases "get m k")
    case None
    then have "k \<notin> ?K" using d by (metis entries_get map_of_eq_None_iff)
    with None new total_eq_sum [OF d] show ?thesis by (simp add: get_put)
  next
    case (Some v)
    then have "k \<in> ?K" using d by (metis entries_get map_of_eq_None_iff option.distinct(1))
    then have "total m = the (get m k) + (\<Sum>j \<in> ?K - {k}. the (get m j))"
      using total_eq_sum [OF d] by (simp add: sum.remove)
    with Some new show ?thesis by (simp add: get_put)
  qed
qed

end

interpretation alist_map: ordered_map map_of AList.update "\<lambda>m. m"
  by unfold_locales (auto simp: update_conv' AList.distinct_update dom_update
      simp del: map_of_eq_None_iff)

lemma total_alist [simp]: "alist_map.total m = sum_list (map snd m)"
  by (simp add: alist_map.total_def)

lemma distinct_accumulate [simp]:
  "distinct (map fst m) \<Longrightarrow> distinct (map fst (accumulate k a m))"
  by (simp add: accumulate_def AList.distinct_update)

lemma sum_accumulate:
  "distinct (map fst m) \<Longrightarrow> sum_list (map snd (accumulate k a m)) = sum_list (map snd m) + a"
  using alist_map.total_put_add [of m k a] by (simp add: accumulate_def)

lemma map_of_accumulate:
  "map_of (accumulate k a m) =
    (map_of m)(k \<mapsto> (case map_of m k of None \<Rightarrow> 0 | Some v \<Rightarrow> v) + a)"
  by (simp add: accumulate_def update_conv')

lemma keys_accumulate: "fst ` set (accumulate k a m) = insert k (fst ` set m)"
  by (simp add: accumulate_def dom_update)

lemma map_of_rev_distinct: "distinct (map fst m) \<Longrightarrow> map_of (rev m) = map_of m"
  by (rule map_of_eqI) (auto simp: dom_map_of_conv_image_fst rev_map [symmetric] map_of_eq_Some_iff)

lemma sum_lookup:
  assumes "distinct ks" and "distinct (map fst m)" and "fst ` set m \<subseteq> set ks"
  shows "sum_list (map (\<lambda>k. case map_of m k of None \<Rightarrow> 0 | Some v \<Rightarrow> (f v :: int)) ks) =
    sum_list (map (\<lambda>(k, v). f v) m)"
proof -
  let ?g = "\<lambda>k. case map_of m k of None \<Rightarrow> 0 | Some v \<Rightarrow> f v"
  have "sum_list (map ?g ks) = (\<Sum>k \<in> set ks. ?g k)"
    using assms(1) by (rule sum_list_distinct_conv_sum_set)
  also have "\<dots> = (\<Sum>k \<in> fst ` set m. ?g k)"
    using assms(3) by (intro sum.mono_neutral_right) (auto simp: map_of_eq_None_iff split: option.splits
        dest!: map_of_SomeD intro: rev_image_eqI)
  also have "\<dots> = sum_list (map ?g (map fst m))"
    using sum_list_distinct_conv_sum_set [OF assms(2), of ?g] by simp
  also have "map ?g (map fst m) = map (\<lambda>(k, v). f v) m"
    using assms(2) by auto
  finally show ?thesis .
qed

text \<open>The map a loop of \<open>accumulate\<close> builds.\<close>

lemma fold_accumulate_lookup:
  "map_of (fold (\<lambda>x. accumulate (k x) (f x)) xs m) g =
    (if g \<in> k ` set xs \<or> map_of m g \<noteq> None
     then Some ((case map_of m g of None \<Rightarrow> 0 | Some v \<Rightarrow> v) +
       sum_list (map f (filter (\<lambda>x. k x = g) xs)))
     else None)"
proof (induction xs arbitrary: m)
  case (Cons x xs)
  show ?case by (simp add: Cons.IH map_of_accumulate split: option.splits)
qed (auto split: option.splits)

lemma fold_accumulate_distinct:
  "distinct (map fst m) \<Longrightarrow> distinct (map fst (fold (\<lambda>x. accumulate (k x) (f x)) xs m))"
  by (induction xs arbitrary: m) auto

lemma fold_accumulate_sum:
  "distinct (map fst m) \<Longrightarrow> sum_list (map snd (fold (\<lambda>x. accumulate (k x) (f x)) xs m)) =
     sum_list (map snd m) + sum_list (map f xs)"
  by (induction xs arbitrary: m) (auto simp: sum_accumulate)

section \<open>Safe integers and string tests\<close>

text \<open>\<^verbatim>\<open>Number.isSafeInteger\<close> on an integral number.\<close>

definition safe_integer :: "int \<Rightarrow> bool" where
  "safe_integer n \<longleftrightarrow> \<bar>n\<bar> \<le> 9007199254740991"

definition upper_letter :: "char \<Rightarrow> bool" where
  "upper_letter c \<longleftrightarrow> CHR ''A'' \<le> c \<and> c \<le> CHR ''Z''"

definition decimal_digit :: "char \<Rightarrow> bool" where
  "decimal_digit c \<longleftrightarrow> CHR ''0'' \<le> c \<and> c \<le> CHR ''9''"

definition hex_digit :: "char \<Rightarrow> bool" where
  "hex_digit c \<longleftrightarrow> decimal_digit c \<or> (CHR ''a'' \<le> c \<and> c \<le> CHR ''f'')"

text \<open>\<^verbatim>\<open>/^[A-Z]{3}$/u\<close>, \<^verbatim>\<open>/^[a-f0-9]{64}$/u\<close> and the UUID pattern.\<close>

definition currency_code :: "string \<Rightarrow> bool" where
  "currency_code s \<longleftrightarrow> length s = 3 \<and> list_all upper_letter s"

definition sha256_hex :: "string \<Rightarrow> bool" where
  "sha256_hex s \<longleftrightarrow> length s = 64 \<and> list_all hex_digit s"

definition uuid_text :: "string \<Rightarrow> bool" where
  "uuid_text s \<longleftrightarrow> length s = 36 \<and>
    list_all (\<lambda>(i, c). if i \<in> {8, 13, 18, 23} then c = CHR ''-'' else hex_digit c)
      (zip [0 ..< 36] s)"

lemma safe_integer_0 [simp]: "safe_integer 0"
  by (simp add: safe_integer_def)

lemma safe_integer_uminus [simp]: "safe_integer (- n) \<longleftrightarrow> safe_integer n"
  by (simp add: safe_integer_def)

lemma safe_integer_between:
  "safe_integer b \<Longrightarrow> 0 \<le> a \<Longrightarrow> a \<le> b \<Longrightarrow> safe_integer a"
  by (simp add: safe_integer_def)

lemma list_all2_member: "list_all2 R xs ys \<Longrightarrow> x \<in> set xs \<Longrightarrow> \<exists>y \<in> set ys. R x y"
  by (induction rule: list_all2_induct) auto

text \<open>A suffix that does not contain the separator determines where the separator is.\<close>

lemma append_sep_eq:
  assumes "xs @ c # ys = xs' @ c # ys'" and "c \<notin> set ys" and "c \<notin> set ys'"
  shows "xs = xs' \<and> ys = ys'"
proof -
  from assms(1) consider us where "xs = xs' @ us" "us @ c # ys = c # ys'"
    | us where "xs' = xs @ us" "c # ys = us @ c # ys'"
    by (auto simp: append_eq_append_conv2)
  then show ?thesis
    using assms(2,3) by cases (auto simp: Cons_eq_append_conv append_eq_Cons_conv)
qed

section \<open>Decimal text\<close>

text \<open>\<^verbatim>\<open>String(n)\<close> of an integer, and the number such a text of digits stands for.\<close>

definition digit_char :: "nat \<Rightarrow> char" where
  "digit_char d = char_of (48 + d)"

fun decimal :: "nat \<Rightarrow> string" where
  "decimal n = (if n < 10 then [digit_char n] else decimal (n div 10) @ [digit_char (n mod 10)])"

declare decimal.simps [simp del]

definition parse_decimal :: "string \<Rightarrow> nat" where
  "parse_decimal s = foldl (\<lambda>n c. 10 * n + (of_char c - 48)) 0 s"

definition int_text :: "int \<Rightarrow> string" where
  "int_text n = (if n < 0 then CHR ''-'' # decimal (nat (- n)) else decimal (nat n))"

text \<open>The same text computed on binary numerals, for evaluation.\<close>

function int_decimal :: "int \<Rightarrow> string" where
  "int_decimal n = (if n < 10 then [digit_char (nat n)] else int_decimal (n div 10) @ [digit_char (nat (n mod 10))])"
  by pat_completeness auto
termination by (relation "measure nat") auto

declare int_decimal.simps [simp del]

lemma int_decimal_eq: "0 \<le> n \<Longrightarrow> int_decimal n = decimal (nat n)"
proof (induction n rule: int_decimal.induct)
  case (1 n)
  then show ?case
    by (subst int_decimal.simps, subst decimal.simps)
      (auto simp: nat_div_distrib nat_mod_distrib)
qed

lemma int_text_code [code]: "int_text n = (if n < 0 then CHR ''-'' # int_decimal (- n) else int_decimal n)"
  by (simp add: int_text_def int_decimal_eq)

lemma of_char_digit: "d < 10 \<Longrightarrow> (of_char (digit_char d) :: nat) = 48 + d"
  by (simp add: digit_char_def)

lemma parse_decimal_decimal: "parse_decimal (decimal n) = n"
proof (induction n rule: decimal.induct)
  case (1 n)
  show ?case
  proof (cases "n < 10")
    case True
    then show ?thesis by (simp add: parse_decimal_def decimal.simps [of n] of_char_digit)
  next
    case False
    then show ?thesis using 1 by (simp add: parse_decimal_def decimal.simps [of n] of_char_digit)
  qed
qed

lemma decimal_inj: "decimal m = decimal n \<longleftrightarrow> m = n"
  by (metis parse_decimal_decimal)

section \<open>Rows of a table\<close>

text \<open>\<^verbatim>\<open>update ... where key = k\<close>.\<close>

definition update_rows :: "('a \<Rightarrow> string) \<Rightarrow> string \<Rightarrow> ('a \<Rightarrow> 'a) \<Rightarrow> 'a list \<Rightarrow> 'a list" where
  "update_rows key k f rows = map (\<lambda>row. if key row = k then f row else row) rows"

lemma set_update_rows: "set (update_rows key k f rows) = (\<lambda>r. if key r = k then f r else r) ` set rows"
  by (simp add: update_rows_def)

lemma map_update_rows:
  "(\<And>r. h (f r) = h r) \<Longrightarrow> map h (update_rows key k f rows) = map h rows"
  by (simp add: update_rows_def)

lemma update_rows_ball:
  "(\<forall>r \<in> set (update_rows key k f rows). P r) \<longleftrightarrow>
     (\<forall>r \<in> set rows. P (if key r = k then f r else r))"
  unfolding update_rows_def by auto

lemma update_rows_bex:
  "(\<exists>r \<in> set (update_rows key k f rows). P r) \<longleftrightarrow>
     (\<exists>r \<in> set rows. P (if key r = k then f r else r))"
  unfolding update_rows_def by auto

lemma list_all_update_rows:
  "list_all P (update_rows key k f rows) \<longleftrightarrow> list_all (\<lambda>r. P (if key r = k then f r else r)) rows"
  by (simp add: list_all_iff update_rows_ball)

lemma find_row_member: "find p xs = Some x \<Longrightarrow> x \<in> set xs \<and> p x"
  by (auto simp: find_Some_iff)

lemma find_append_row: "find p (xs @ ys) = (case find p xs of None \<Rightarrow> find p ys | Some x \<Rightarrow> Some x)"
  by (induction xs) auto

lemma find_row_key:
  "distinct (map f xs) \<Longrightarrow> x \<in> set xs \<Longrightarrow> find (\<lambda>y. f y = f x) xs = Some x"
  by (induction xs) auto

section \<open>Sorting by a key\<close>

text \<open>A comparison that follows a key without ties sorts by the key, whatever it does on equal keys.\<close>

definition follows_key :: "('a \<Rightarrow> 'a \<Rightarrow> int) \<Rightarrow> ('a \<Rightarrow> 'k :: linorder) \<Rightarrow> bool" where
  "follows_key cmp key \<longleftrightarrow> (\<forall>x y. key x \<noteq> key y \<longrightarrow> (cmp x y \<le> 0 \<longleftrightarrow> key x < key y))"

lemma js_insert_by_key:
  assumes "follows_key cmp key"
  shows "sorted_wrt (\<lambda>x y. key x < key y) xs \<Longrightarrow> key x \<notin> key ` set xs \<Longrightarrow>
    sorted_wrt (\<lambda>x y. key x < key y) (js_insert cmp x xs)"
proof (induction xs)
  case (Cons y ys)
  have set_ins: "set (js_insert cmp x ys) = insert x (set ys)"
    by (metis mset_js_insert set_mset_add_mset_insert set_mset_mset)
  have cmp: "cmp x y \<le> 0 \<longleftrightarrow> key x < key y" using assms Cons.prems(2) unfolding follows_key_def by auto
  show ?case
  proof (cases "key x < key y")
    case True
    then show ?thesis using cmp Cons.prems(1) by auto
  next
    case False
    then have "key y < key x" using Cons.prems(2) by auto
    then show ?thesis using False cmp Cons set_ins by auto
  qed
qed simp

lemma js_sort_by_key:
  "follows_key cmp key \<Longrightarrow> distinct (map key xs) \<Longrightarrow> sorted_wrt (\<lambda>x y. key x < key y) (js_sort cmp xs)"
  by (induction xs) (auto intro!: js_insert_by_key)

end
