(* ===== verification/FinancialTypes.thy ===== *)
theory FinancialTypes
  imports Prelude
begin

text \<open>
  The data of \<^verbatim>\<open>commerce/financial/types.ts\<close>, \<^verbatim>\<open>errors.ts\<close> and
  \<^verbatim>\<open>allocations/types.ts\<close>: safe error codes, components, allocation plans. An amount in
  minor units is an \<open>int\<close>; the tests for safe integers are kept. Every operation returns a
  permanent error's safe code or a value.
\<close>

datatype fin_code =
    Allocation_mismatch | Classification_fork | Correction_rebase_required | Currency_mismatch
  | Generation_exhausted | Immutable_mismatch | Invalid_job_payload
  | Payout_membership_conflict | Source_linkage_mismatch | Unsupported_provider_evidence

type_synonym 'a fin = "fin_code + 'a"

datatype fin_component =
    Sale_subtotal | Sale_tax | Processing_fee | Refund_subtotal | Refund_tax | Refund_fee
  | Refund_failure_reversal | Dispute_subtotal | Dispute_tax | Dispute_fee
  | Dispute_reinstatement | Provider_fee_tax | Fee_credit | Other_component

fun component_name :: "fin_component \<Rightarrow> string" where
  "component_name Sale_subtotal = ''sale_subtotal''"
| "component_name Sale_tax = ''sale_tax''"
| "component_name Processing_fee = ''processing_fee''"
| "component_name Refund_subtotal = ''refund_subtotal''"
| "component_name Refund_tax = ''refund_tax''"
| "component_name Refund_fee = ''refund_fee''"
| "component_name Refund_failure_reversal = ''refund_failure_reversal''"
| "component_name Dispute_subtotal = ''dispute_subtotal''"
| "component_name Dispute_tax = ''dispute_tax''"
| "component_name Dispute_fee = ''dispute_fee''"
| "component_name Dispute_reinstatement = ''dispute_reinstatement''"
| "component_name Provider_fee_tax = ''provider_fee_tax''"
| "component_name Fee_credit = ''fee_credit''"
| "component_name Other_component = ''other''"

datatype allocation_basis = Gross_amount | Fee_basis

datatype allocation_scope = Title_scope | Account_scope | Unresolved_scope

datatype allocation_source_kind =
  Payment_source | Refund_source | Dispute_source | Payout_source | Adjustment_source

record allocation_item =
  ai_orderItemId :: string
  ai_component :: fin_component
  ai_effectMinor :: int
  ai_currency :: string
  ai_tieBreakKey :: string

record allocation_plan =
  ap_allocationIdentity :: string
  ap_balanceTransactionId :: string
  ap_basis :: allocation_basis
  ap_scope :: allocation_scope
  ap_currency :: string
  ap_expectedEffectMinor :: int
  ap_algorithmVersion :: int
  ap_sourceFingerprint :: string
  ap_supersedesSetId :: "string option"
  ap_reversalOfSetId :: "string option"
  ap_items :: "allocation_item list"

record allocation_metadata =
  am_sourceKind :: allocation_source_kind
  am_sourceId :: string
  am_balanceTransactionId :: string
  am_allocationIdentityPrefix :: string
  am_settlementCurrency :: string
  am_amountMinor :: int
  am_feeMinor :: int
  am_netMinor :: int
  am_sourceFingerprint :: string
  am_algorithmVersion :: int
  am_supersedesGrossSetId :: "string option"
  am_supersedesFeeSetId :: "string option"

record fee_detail =
  fd_amountMinor :: int
  fd_component :: fin_component

record fee_weight =
  fw_orderItemId :: string
  fw_subtotalMinor :: int
  fw_currency :: string

text \<open>The pair of plans of a bundle: gross amount first, then fee.\<close>

type_synonym plan_bundle = "allocation_plan \<times> allocation_plan"

definition items_total :: "allocation_item list \<Rightarrow> int" where
  "items_total xs = sum_list (map ai_effectMinor xs)"

lemma items_total_Nil [simp]: "items_total [] = 0"
  by (simp add: items_total_def)

lemma items_total_Cons [simp]: "items_total (x # xs) = ai_effectMinor x + items_total xs"
  by (simp add: items_total_def)

lemma items_total_append [simp]: "items_total (xs @ ys) = items_total xs + items_total ys"
  by (simp add: items_total_def)

lemma component_name_inj [simp]: "component_name c = component_name d \<longleftrightarrow> c = d"
  by (cases c; cases d) simp_all

lemma component_name_plain [simp]:
  "CHR '':'' \<notin> set (component_name c)" "CHR 0x00 \<notin> set (component_name c)"
  by (cases c; simp)+

text \<open>Keys of the form \<^verbatim>\<open>id:component\<close> determine both parts.\<close>

lemma component_key_eq [simp]:
  "a @ '':'' @ component_name c = b @ '':'' @ component_name d \<longleftrightarrow> a = b \<and> c = d"
  using append_sep_eq [of a "CHR '':''" "component_name c" b "component_name d"] by auto

lemma component_nul_key_eq [simp]:
  "a @ [CHR 0x00] @ component_name c = b @ [CHR 0x00] @ component_name d \<longleftrightarrow> a = b \<and> c = d"
  using append_sep_eq [of a "CHR 0x00" "component_name c" b "component_name d"] by auto

end
