(* ===== verification/LargestRemainder.thy ===== *)
theory LargestRemainder
  imports FinancialTypes
begin

text \<open>
  \<^verbatim>\<open>allocations/largest-remainder.ts\<close>: splitting a signed amount over weights so that the
  parts add up exactly. \<^verbatim>\<open>BigInt\<close> values are \<open>int\<close>; all divisions are between non-negative
  numbers. The rows the source mutates through \<open>remainderOrder\<close> are the elements of
  \<open>rows\<close>; a row is identified by its tie key, which validation makes unique.
\<close>

record lr_weight =
  lw_tieKey :: string
  lw_weightMinor :: int

record lr_share =
  ls_tieKey :: string
  ls_amountMinor :: int

record lr_row =
  lr_tieKey :: string
  lr_allocated :: int
  lr_remainder :: int

section \<open>The algorithm\<close>

definition compareTieKey :: "string \<Rightarrow> string \<Rightarrow> int" where
  "compareTieKey left right = compare_code_points left right"

fun lr_validate :: "string set \<Rightarrow> lr_weight list \<Rightarrow> lr_weight list fin" where
  "lr_validate seen [] = Inr []"
| "lr_validate seen (w # ws) =
     (if lw_tieKey w = [] \<or> lw_tieKey w \<in> seen \<or> \<not> safe_integer (lw_weightMinor w) \<or>
         lw_weightMinor w < 0
      then Inl Allocation_mismatch
      else rbind (lr_validate (insert (lw_tieKey w) seen) ws) (\<lambda>rest. Inr (w # rest)))"

definition lr_row_of :: "int \<Rightarrow> int \<Rightarrow> lr_weight \<Rightarrow> lr_row" where
  "lr_row_of absoluteAmount totalWeight w =
     (let numerator = absoluteAmount * lw_weightMinor w in
      \<lparr>lr_tieKey = lw_tieKey w, lr_allocated = numerator div totalWeight,
       lr_remainder = numerator mod totalWeight\<rparr>)"

definition lr_compareRemainder :: "lr_row \<Rightarrow> lr_row \<Rightarrow> int" where
  "lr_compareRemainder left right =
     (if lr_remainder left \<noteq> lr_remainder right
      then (if lr_remainder left > lr_remainder right then - 1 else 1)
      else compareTieKey (lr_tieKey left) (lr_tieKey right))"

fun lr_distribute :: "lr_row list \<Rightarrow> int \<Rightarrow> lr_row list \<Rightarrow> lr_row list" where
  "lr_distribute [] undistributed rows = rows"
| "lr_distribute (r # order) undistributed rows =
     (if undistributed = 0 then rows
      else lr_distribute order (undistributed - 1)
        (map (\<lambda>row. if lr_tieKey row = lr_tieKey r
                    then row\<lparr>lr_allocated := lr_allocated row + 1\<rparr> else row) rows))"

definition lr_sign :: "int \<Rightarrow> lr_row \<Rightarrow> lr_share fin" where
  "lr_sign sign row =
     (let amountMinor = lr_allocated row * sign in
      if \<not> safe_integer amountMinor then Inl Allocation_mismatch
      else Inr \<lparr>ls_tieKey = lr_tieKey row, ls_amountMinor = amountMinor\<rparr>)"

definition allocateSignedLargestRemainder :: "int \<Rightarrow> lr_weight list \<Rightarrow> lr_share list fin" where
  "allocateSignedLargestRemainder amountMinor inputWeights =
     rbind (throw_if (\<not> safe_integer amountMinor) Allocation_mismatch) (\<lambda>_.
     rbind (lr_validate {} inputWeights) (\<lambda>validated.
       let weights = filter (\<lambda>w. lw_weightMinor w > 0) validated in
       if weights = [] then (if amountMinor \<noteq> 0 then Inl Allocation_mismatch else Inr [])
       else
         let totalWeight = sum_list (map lw_weightMinor weights);
             absoluteAmount = (if amountMinor < 0 then - amountMinor else amountMinor);
             sign = (if amountMinor < 0 then - 1 else 1);
             rows = map (lr_row_of absoluteAmount totalWeight) weights;
             undistributed = absoluteAmount - sum_list (map lr_allocated rows);
             remainderOrder = js_sort lr_compareRemainder rows;
             bumped = lr_distribute remainderOrder undistributed rows
         in rbind (rmap (lr_sign sign)
                     (js_sort (\<lambda>l r. compareTieKey (lr_tieKey l) (lr_tieKey r)) bumped))
              (\<lambda>result.
                if sum_list (map ls_amountMinor result) \<noteq> amountMinor
                then Inl Allocation_mismatch else Inr result)))"

section \<open>Validation\<close>

definition valid_weights :: "lr_weight list \<Rightarrow> bool" where
  "valid_weights ws \<longleftrightarrow> distinct (map lw_tieKey ws) \<and>
     (\<forall>w \<in> set ws. lw_tieKey w \<noteq> [] \<and> safe_integer (lw_weightMinor w) \<and> 0 \<le> lw_weightMinor w)"

definition total_weight :: "lr_weight list \<Rightarrow> int" where
  "total_weight ws = sum_list (map lw_weightMinor ws)"

definition shares_total :: "lr_share list \<Rightarrow> int" where
  "shares_total ss = sum_list (map ls_amountMinor ss)"

lemma lr_validate_eq:
  "lr_validate seen ws =
     (if valid_weights ws \<and> lw_tieKey ` set ws \<inter> seen = {} then Inr ws
      else Inl Allocation_mismatch)"
  by (induction seen ws rule: lr_validate.induct) (auto simp: valid_weights_def)

lemma lr_validate_empty:
  "lr_validate {} ws = (if valid_weights ws then Inr ws else Inl Allocation_mismatch)"
  by (simp add: lr_validate_eq)

lemma valid_weights_mset: "mset ws = mset ws' \<Longrightarrow> valid_weights ws = valid_weights ws'"
  unfolding valid_weights_def by (metis mset_eq_imp_distinct_iff mset_map set_mset_mset)

lemma total_weight_filter:
  "(\<forall>w \<in> set ws. 0 \<le> lw_weightMinor w) \<Longrightarrow>
     total_weight (filter (\<lambda>w. lw_weightMinor w > 0) ws) = total_weight ws"
  unfolding total_weight_def by (induction ws) auto

interpretation remainder_order: js_comparator lr_compareRemainder
  by unfold_locales
    (auto simp: lr_compareRemainder_def compareTieKey_def compare_code_points_le_iff
      split: if_splits)

interpretation tie_key_order:
  js_comparator "\<lambda>l r. compareTieKey (lr_tieKey l) (lr_tieKey r)"
  by unfold_locales (auto simp: compareTieKey_def compare_code_points_le_iff)

section \<open>Distribution of the remainder\<close>

definition lr_bump :: "string set \<Rightarrow> lr_row \<Rightarrow> lr_row" where
  "lr_bump K row = (if lr_tieKey row \<in> K then row\<lparr>lr_allocated := lr_allocated row + 1\<rparr> else row)"

lemma lr_bump_simps [simp]:
  "lr_tieKey (lr_bump K row) = lr_tieKey row" "lr_remainder (lr_bump K row) = lr_remainder row"
  "lr_allocated (lr_bump K row) = lr_allocated row + (if lr_tieKey row \<in> K then 1 else 0)"
  by (auto simp: lr_bump_def)

lemma lr_bump_single:
  "(\<lambda>row. if lr_tieKey row = k then row\<lparr>lr_allocated := lr_allocated row + 1\<rparr> else row)
     = lr_bump {k}"
  by (auto simp: lr_bump_def)

lemma lr_bump_bump: "k \<notin> K \<Longrightarrow> lr_bump K (lr_bump {k} row) = lr_bump (insert k K) row"
  by (auto simp: lr_bump_def)

lemma lr_distribute_eq:
  "distinct (map lr_tieKey order) \<Longrightarrow> 0 \<le> u \<Longrightarrow>
     lr_distribute order u rows = map (lr_bump (lr_tieKey ` set (take (nat u) order))) rows"
proof (induction order u rows rule: lr_distribute.induct)
  case (1 u rows)
  then show ?case by (simp add: lr_bump_def cong: map_cong)
next
  case (2 r order u rows)
  show ?case
  proof (cases "u = 0")
    case True
    then show ?thesis by (simp add: lr_bump_def)
  next
    case False
    let ?K = "lr_tieKey ` set (take (nat (u - 1)) order)"
    have n: "nat u = Suc (nat (u - 1))" using False 2 by simp
    have fresh: "lr_tieKey r \<notin> ?K" using 2 by (auto dest: in_set_takeD)
    have "lr_distribute (r # order) u rows
        = lr_distribute order (u - 1) (map (lr_bump {lr_tieKey r}) rows)"
      using False by (simp add: lr_bump_single)
    also have "\<dots> = map (lr_bump ?K) (map (lr_bump {lr_tieKey r}) rows)"
      using 2 False by (simp add: lr_bump_single)
    also have "\<dots> = map (lr_bump (insert (lr_tieKey r) ?K)) rows"
      using fresh by (simp add: lr_bump_bump)
    finally show ?thesis by (simp add: n)
  qed
qed

lemma sum_lr_bump:
  "sum_list (map lr_allocated (map (lr_bump K) rows)) =
     sum_list (map lr_allocated rows) + int (length (filter (\<lambda>r. lr_tieKey r \<in> K) rows))"
  by (induction rows) auto

lemma count_taken_keys:
  assumes "distinct (map f ys)" and "mset ys = mset xs" and "n \<le> length ys"
  shows "length (filter (\<lambda>x. f x \<in> f ` set (take n ys)) xs) = n"
proof -
  let ?P = "\<lambda>x. f x \<in> f ` set (take n ys)"
  have inj: "inj_on f (set ys)" using assms(1) by (simp add: distinct_map)
  have disj: "\<not> ?P x" if "x \<in> set (drop n ys)" for x
  proof
    assume "?P x"
    then obtain y where "y \<in> set (take n ys)" "f x = f y" by blast
    moreover have "x \<in> set ys" "y \<in> set ys"
      using that \<open>y \<in> set (take n ys)\<close> by (auto dest: in_set_dropD in_set_takeD)
    ultimately have "x \<in> set (take n ys)" using inj by (metis inj_onD)
    with that assms(1) show False
      by (metis Int_iff append_take_drop_id distinct_append distinct_map empty_iff)
  qed
  have "filter ?P ys = filter ?P (take n ys) @ filter ?P (drop n ys)"
    by (metis append_take_drop_id filter_append)
  also have "\<dots> = take n ys" using disj by (simp add: filter_empty_conv filter_id_conv)
  finally have "length (filter ?P ys) = n" using assms(3) by simp
  moreover have "length (filter ?P xs) = length (filter ?P ys)"
    by (metis assms(2) mset_filter size_mset)
  ultimately show ?thesis by simp
qed

section \<open>The quota of each row\<close>

definition lr_rows :: "int \<Rightarrow> lr_weight list \<Rightarrow> lr_row list" where
  "lr_rows A ws = map (lr_row_of A (total_weight ws)) ws"

definition lr_left :: "int \<Rightarrow> lr_weight list \<Rightarrow> int" where
  "lr_left A ws = A - sum_list (map lr_allocated (lr_rows A ws))"

definition lr_bumped_keys :: "int \<Rightarrow> lr_weight list \<Rightarrow> string set" where
  "lr_bumped_keys A ws =
     lr_tieKey ` set (take (nat (lr_left A ws)) (js_sort lr_compareRemainder (lr_rows A ws)))"

definition lr_final :: "int \<Rightarrow> lr_weight list \<Rightarrow> lr_row list" where
  "lr_final A ws = map (lr_bump (lr_bumped_keys A ws)) (lr_rows A ws)"

definition positive_weights :: "lr_weight list \<Rightarrow> bool" where
  "positive_weights ws \<longleftrightarrow> ws \<noteq> [] \<and> valid_weights ws \<and> (\<forall>w \<in> set ws. 0 < lw_weightMinor w)"

lemma total_weight_pos: "positive_weights ws \<Longrightarrow> 0 < total_weight ws"
proof -
  have "(\<forall>w \<in> set ws. 0 < lw_weightMinor w) \<Longrightarrow> ws \<noteq> [] \<Longrightarrow> 0 < sum_list (map lw_weightMinor ws)"
    by (induction ws) (auto, case_tac ws, auto)
  then show "positive_weights ws \<Longrightarrow> 0 < total_weight ws"
    by (simp add: positive_weights_def total_weight_def)
qed

lemma lr_row_of_simps [simp]:
  "lr_tieKey (lr_row_of A W w) = lw_tieKey w"
  "lr_allocated (lr_row_of A W w) = A * lw_weightMinor w div W"
  "lr_remainder (lr_row_of A W w) = A * lw_weightMinor w mod W"
  by (simp_all add: lr_row_of_def Let_def)

lemma lr_rows_keys [simp]: "map lr_tieKey (lr_rows A ws) = map lw_tieKey ws"
  by (simp add: lr_rows_def)

lemma lr_left_times_total:
  "lr_left A ws * total_weight ws = sum_list (map lr_remainder (lr_rows A ws))"
proof -
  let ?W = "total_weight ws"
  have "sum_list (map (\<lambda>w. A * lw_weightMinor w) ws)
      = sum_list (map (\<lambda>w. (A * lw_weightMinor w div ?W) * ?W + A * lw_weightMinor w mod ?W) ws)"
    by simp
  also have "\<dots> = sum_list (map (\<lambda>w. A * lw_weightMinor w div ?W) ws) * ?W
      + sum_list (map (\<lambda>w. A * lw_weightMinor w mod ?W) ws)"
    by (simp only: sum_list_addf sum_list_mult_const)
  finally have "A * ?W = sum_list (map (\<lambda>w. A * lw_weightMinor w div ?W) ws) * ?W
      + sum_list (map (\<lambda>w. A * lw_weightMinor w mod ?W) ws)"
    by (simp add: sum_list_const_mult total_weight_def)
  then show ?thesis
    by (simp add: lr_left_def lr_rows_def comp_def left_diff_distrib)
qed

lemma sum_list_less_bound:
  assumes "\<And>x. x \<in> set xs \<Longrightarrow> f x < (W :: int)" and "xs \<noteq> []"
  shows "sum_list (map f xs) < int (length xs) * W"
  using assms
proof (induction xs)
  case (Cons x xs)
  have "sum_list (map f xs) \<le> int (length xs) * W"
    using Cons by (cases "xs = []") auto
  moreover have "f x < W" using Cons.prems by simp
  ultimately show ?case by (simp add: algebra_simps)
qed simp

lemma lr_left_bounds:
  assumes "positive_weights ws"
  shows "0 \<le> lr_left A ws \<and> lr_left A ws < int (length ws)"
proof -
  have W: "0 < total_weight ws" using assms by (rule total_weight_pos)
  have "0 \<le> lr_left A ws * total_weight ws"
    unfolding lr_left_times_total using W
    by (intro sum_list_nonneg) (auto simp: lr_rows_def)
  moreover have "lr_left A ws * total_weight ws < int (length ws) * total_weight ws"
    unfolding lr_left_times_total
  proof -
    have "lr_rows A ws \<noteq> []" and "length (lr_rows A ws) = length ws"
      using assms by (simp_all add: lr_rows_def positive_weights_def)
    moreover have "\<And>x. x \<in> set (lr_rows A ws) \<Longrightarrow> lr_remainder x < total_weight ws"
      using W by (auto simp: lr_rows_def)
    ultimately show "sum_list (map lr_remainder (lr_rows A ws)) < int (length ws) * total_weight ws"
      by (metis sum_list_less_bound)
  qed
  ultimately show ?thesis using W by (simp add: zero_le_mult_iff)
qed

lemma lr_final_keys [simp]: "map lr_tieKey (lr_final A ws) = map lw_tieKey ws"
  by (simp add: lr_final_def lr_rows_def)

lemma lr_distribute_final:
  assumes "positive_weights ws"
  shows "lr_distribute (js_sort lr_compareRemainder (lr_rows A ws)) (lr_left A ws) (lr_rows A ws)
    = lr_final A ws"
  using assms lr_left_bounds [OF assms, of A]
  by (simp add: lr_distribute_eq lr_final_def lr_bumped_keys_def positive_weights_def
      valid_weights_def)

lemma lr_final_sum:
  assumes "positive_weights ws"
  shows "sum_list (map lr_allocated (lr_final A ws)) = A"
proof -
  have "length (filter (\<lambda>r. lr_tieKey r \<in> lr_bumped_keys A ws) (lr_rows A ws))
      = nat (lr_left A ws)"
    unfolding lr_bumped_keys_def
    using assms lr_left_bounds [OF assms, of A]
    by (intro count_taken_keys)
      (auto simp: positive_weights_def valid_weights_def lr_rows_def comp_def)
  moreover have "0 \<le> lr_left A ws" using lr_left_bounds [OF assms] by blast
  ultimately show ?thesis
    unfolding lr_final_def sum_lr_bump by (simp add: lr_left_def)
qed

text \<open>A bumped row has a positive remainder, so no row moves by a whole unit.\<close>

lemma lr_bumped_positive:
  assumes ws: "positive_weights ws" and r: "r \<in> set (lr_rows A ws)"
    and key: "lr_tieKey r \<in> lr_bumped_keys A ws"
  shows "0 < lr_remainder r"
proof (rule ccontr)
  let ?W = "total_weight ws" and ?u = "nat (lr_left A ws)"
  let ?order = "js_sort lr_compareRemainder (lr_rows A ws)"
  assume "\<not> 0 < lr_remainder r"
  have W: "0 < ?W" using ws by (rule total_weight_pos)
  have nonneg: "0 \<le> lr_remainder x \<and> lr_remainder x < ?W" if "x \<in> set (lr_rows A ws)" for x
    using that W by (auto simp: lr_rows_def)
  have dist: "inj_on lr_tieKey (set (lr_rows A ws))"
    using ws by (metis distinct_map lr_rows_keys positive_weights_def valid_weights_def)
  have "r \<in> set (take ?u ?order)"
  proof -
    obtain x where x: "x \<in> set (take ?u ?order)" and "lr_tieKey r = lr_tieKey x"
      using key unfolding lr_bumped_keys_def by blast
    moreover have "x \<in> set (lr_rows A ws)" using x by (metis in_set_takeD set_js_sort)
    ultimately show ?thesis using dist r by (metis inj_onD)
  qed
  then obtain i where i: "i < ?u" "i < length ?order" "?order ! i = r"
    by (auto simp: in_set_conv_nth)
  have zero: "lr_remainder (?order ! j) \<le> 0" if "i < j" "j < length ?order" for j
  proof -
    have "lr_compareRemainder r (?order ! j) \<le> 0"
      using remainder_order.sorted_js_sort [of "lr_rows A ws"] that i
      by (auto simp: sorted_wrt_iff_nth_less)
    with \<open>\<not> 0 < lr_remainder r\<close> show ?thesis
      by (auto simp: lr_compareRemainder_def split: if_splits)
  qed
  have drop0: "sum_list (map lr_remainder (drop i ?order)) \<le> 0"
  proof (rule sum_list_nonpos)
    fix x assume "x \<in> set (map lr_remainder (drop i ?order))"
    then obtain j where "i \<le> j" "j < length ?order" "x = lr_remainder (?order ! j)"
      by (auto simp: in_set_conv_nth) (metis add.commute le_add1 less_diff_conv)
    with zero [of j] i(3) \<open>\<not> 0 < lr_remainder r\<close> show "x \<le> 0"
      by (cases "i = j") auto
  qed
  have take_le: "sum_list (map lr_remainder (take i ?order)) \<le> int i * ?W"
  proof (cases "take i ?order = []")
    case True
    then show ?thesis using W by auto
  next
    case False
    have "\<And>x. x \<in> set (take i ?order) \<Longrightarrow> lr_remainder x < ?W"
      using nonneg by (metis in_set_takeD set_js_sort)
    from sum_list_less_bound [where f = lr_remainder, OF this False] i(2)
    show ?thesis by simp
  qed
  have "sum_list (map lr_remainder ?order)
      = sum_list (map lr_remainder (take i ?order)) + sum_list (map lr_remainder (drop i ?order))"
    by (metis append_take_drop_id map_append sum_list_append)
  then have "lr_left A ws * ?W \<le> int i * ?W"
    using drop0 take_le by (simp add: lr_left_times_total)
  then have "lr_left A ws \<le> int i" using W by simp
  with i(1) show False by simp
qed

lemma lr_final_row:
  assumes "r \<in> set (lr_final A ws)"
  obtains w where "w \<in> set ws" and "lr_tieKey r = lw_tieKey w"
    and "lr_allocated r = A * lw_weightMinor w div total_weight ws
      + (if lw_tieKey w \<in> lr_bumped_keys A ws then 1 else 0)"
    and "lw_tieKey w \<in> lr_bumped_keys A ws \<Longrightarrow> positive_weights ws \<Longrightarrow>
      0 < A * lw_weightMinor w mod total_weight ws"
proof -
  from assms obtain w where w: "w \<in> set ws"
    and r: "r = lr_bump (lr_bumped_keys A ws) (lr_row_of A (total_weight ws) w)"
    by (auto simp: lr_final_def lr_rows_def)
  have "lr_row_of A (total_weight ws) w \<in> set (lr_rows A ws)"
    using w by (simp add: lr_rows_def)
  with w r that show ?thesis using lr_bumped_positive by fastforce
qed

lemma lr_final_quota:
  assumes "positive_weights ws" and "r \<in> set (lr_final A ws)"
  obtains w where "w \<in> set ws" and "lr_tieKey r = lw_tieKey w"
    and "\<bar>lr_allocated r * total_weight ws - A * lw_weightMinor w\<bar> < total_weight ws"
proof -
  let ?W = "total_weight ws"
  have W: "0 < ?W" using assms(1) by (rule total_weight_pos)
  from assms(2) obtain w where w: "w \<in> set ws" "lr_tieKey r = lw_tieKey w"
    and al: "lr_allocated r = A * lw_weightMinor w div ?W
      + (if lw_tieKey w \<in> lr_bumped_keys A ws then 1 else 0)"
    and pos: "lw_tieKey w \<in> lr_bumped_keys A ws \<Longrightarrow> 0 < A * lw_weightMinor w mod ?W"
    by (rule lr_final_row) (use assms(1) in blast)
  define q m where "q = A * lw_weightMinor w div ?W" and "m = A * lw_weightMinor w mod ?W"
  have split: "A * lw_weightMinor w = q * ?W + m" by (simp add: q_def m_def)
  have "0 \<le> m" "m < ?W" using W by (auto simp: m_def)
  with al pos have "\<bar>lr_allocated r * ?W - A * lw_weightMinor w\<bar> < ?W"
    unfolding split q_def [symmetric] m_def [symmetric]
    by (cases "lw_tieKey w \<in> lr_bumped_keys A ws") (auto simp: distrib_right)
  with w show ?thesis by (rule that)
qed

section \<open>Functional characterisation\<close>

text \<open>What the algorithm returns on valid weights: no internal check can fail.\<close>

definition lr_positive :: "lr_weight list \<Rightarrow> lr_weight list" where
  "lr_positive ws = filter (\<lambda>w. 0 < lw_weightMinor w) ws"

definition lr_result :: "int \<Rightarrow> lr_weight list \<Rightarrow> lr_share list" where
  "lr_result amount ws =
     map (\<lambda>row. \<lparr>ls_tieKey = lr_tieKey row,
                ls_amountMinor = lr_allocated row * (if amount < 0 then - 1 else 1)\<rparr>)
       (js_sort (\<lambda>l r. compareTieKey (lr_tieKey l) (lr_tieKey r)) (lr_final \<bar>amount\<bar> ws))"

lemma lr_positive_weights:
  "valid_weights ws \<Longrightarrow> lr_positive ws \<noteq> [] \<Longrightarrow> positive_weights (lr_positive ws)"
  by (auto simp: positive_weights_def valid_weights_def lr_positive_def distinct_map inj_on_def)

lemma lr_final_nonneg:
  assumes "positive_weights ws" and "0 \<le> A" and "r \<in> set (lr_final A ws)"
  shows "0 \<le> lr_allocated r"
proof -
  have W: "0 < total_weight ws" using assms(1) by (rule total_weight_pos)
  from assms(3) obtain w where "w \<in> set ws"
    and al: "lr_allocated r = A * lw_weightMinor w div total_weight ws
      + (if lw_tieKey w \<in> lr_bumped_keys A ws then 1 else 0)"
    by (rule lr_final_row) blast
  then have "0 \<le> A * lw_weightMinor w" using assms(1,2) by (auto simp: positive_weights_def)
  then have "0 \<le> A * lw_weightMinor w div total_weight ws"
    using W by (simp add: pos_imp_zdiv_nonneg_iff)
  with al show ?thesis by simp
qed

lemma lr_final_le:
  assumes "positive_weights ws" and "0 \<le> A" and "r \<in> set (lr_final A ws)"
  shows "lr_allocated r \<le> A"
proof -
  have "lr_allocated r \<le> sum_list (map lr_allocated (lr_final A ws))"
    using assms lr_final_nonneg by (intro member_le_sum_list) auto
  with lr_final_sum [OF assms(1)] show ?thesis by simp
qed

lemma shares_total_lr_result:
  assumes "positive_weights ws"
  shows "shares_total (lr_result amount ws) = amount"
proof -
  let ?s = "if amount < 0 then - 1 else 1 :: int"
  have "shares_total (lr_result amount ws)
      = sum_list (map lr_allocated (lr_final \<bar>amount\<bar> ws)) * ?s"
    unfolding shares_total_def lr_result_def map_map comp_def
    by (simp add: sum_list_mult_const [symmetric] del: sum_list_mult_const)
  also have "\<dots> = amount" by (simp add: lr_final_sum [OF assms])
  finally show ?thesis .
qed

lemma allocate_eq:
  "allocateSignedLargestRemainder amount ws =
     (if safe_integer amount \<and> valid_weights ws \<and> (lr_positive ws = [] \<longrightarrow> amount = 0)
      then Inr (if lr_positive ws = [] then [] else lr_result amount (lr_positive ws))
      else Inl Allocation_mismatch)"
proof (cases "safe_integer amount \<and> valid_weights ws \<and> lr_positive ws \<noteq> []")
  case False
  then show ?thesis
    by (auto simp: allocateSignedLargestRemainder_def lr_validate_empty lr_positive_def)
next
  case True
  let ?P = "lr_positive ws" and ?A = "\<bar>amount\<bar>" and ?s = "if amount < 0 then - 1 else 1 :: int"
  let ?sorted = "js_sort (\<lambda>l r. compareTieKey (lr_tieKey l) (lr_tieKey r)) (lr_final ?A ?P)"
  have P: "positive_weights ?P" using True lr_positive_weights by blast
  have signed: "rmap (lr_sign ?s) ?sorted = Inr (lr_result amount ?P)"
    unfolding lr_result_def
  proof (rule rmap_total)
    fix r assume "r \<in> set ?sorted"
    then have r: "r \<in> set (lr_final ?A ?P)" by simp
    have "0 \<le> lr_allocated r" and "lr_allocated r \<le> ?A"
      using lr_final_nonneg [OF P _ r] lr_final_le [OF P _ r] by auto
    then have "safe_integer (lr_allocated r * ?s)" using True by (auto simp: safe_integer_def)
    then show "lr_sign ?s r = Inr \<lparr>ls_tieKey = lr_tieKey r, ls_amountMinor = lr_allocated r * ?s\<rparr>"
      by (simp add: lr_sign_def)
  qed
  have abs: "(if amount < 0 then - amount else amount) = ?A" by simp
  have filt: "filter (\<lambda>w. lw_weightMinor w > 0) ws = ?P" by (simp add: lr_positive_def)
  have rows: "map (lr_row_of ?A (sum_list (map lw_weightMinor ?P))) ?P = lr_rows ?A ?P"
    by (simp add: lr_rows_def total_weight_def)
  have left: "?A - sum_list (map lr_allocated (lr_rows ?A ?P)) = lr_left ?A ?P"
    by (simp add: lr_left_def)
  have total: "sum_list (map ls_amountMinor (lr_result amount ?P)) = amount"
    using shares_total_lr_result [OF P] by (simp add: shares_total_def)
  show ?thesis
    using True
    unfolding allocateSignedLargestRemainder_def lr_validate_empty Let_def
    by (simp only: if_True rbind_Inr throw_if_False simp_thms filt if_False abs rows left
        lr_distribute_final [OF P] signed total)
qed

lemmas allocate_simps = allocate_eq lr_positive_def

lemma allocate_InrD:
  assumes "allocateSignedLargestRemainder amount ws = Inr shares"
  shows "safe_integer amount" "valid_weights ws"
    "shares = (if lr_positive ws = [] then [] else lr_result amount (lr_positive ws))"
    "lr_positive ws = [] \<Longrightarrow> amount = 0"
  using assms by (auto simp: allocate_eq split: if_splits)

lemma lr_result_keys: "map ls_tieKey (lr_result amount ws) = sort (map lw_tieKey ws)"
proof -
  have "map ls_tieKey (lr_result amount ws) = map lr_tieKey
      (js_sort (\<lambda>l r. compare_code_points (lr_tieKey l) (lr_tieKey r)) (lr_final \<bar>amount\<bar> ws))"
    by (simp add: lr_result_def compareTieKey_def comp_def)
  then show ?thesis by (simp add: map_js_sort js_sort_code_points)
qed

lemma lr_result_row:
  assumes "s \<in> set (lr_result amount ws)"
  obtains r where "r \<in> set (lr_final \<bar>amount\<bar> ws)" and "ls_tieKey s = lr_tieKey r"
    and "ls_amountMinor s = (if amount < 0 then - lr_allocated r else lr_allocated r)"
  using assms unfolding lr_result_def by auto

lemma lr_result_quota:
  assumes "positive_weights ws" and "s \<in> set (lr_result amount ws)"
  obtains w where "w \<in> set ws" and "ls_tieKey s = lw_tieKey w"
    and "\<bar>ls_amountMinor s * total_weight ws - amount * lw_weightMinor w\<bar> < total_weight ws"
proof -
  from assms(2) obtain r where r: "r \<in> set (lr_final \<bar>amount\<bar> ws)" "ls_tieKey s = lr_tieKey r"
    and a: "ls_amountMinor s = (if amount < 0 then - lr_allocated r else lr_allocated r)"
    by (rule lr_result_row)
  obtain w where w: "w \<in> set ws" "lr_tieKey r = lw_tieKey w"
    and q: "\<bar>lr_allocated r * total_weight ws - \<bar>amount\<bar> * lw_weightMinor w\<bar> < total_weight ws"
    by (rule lr_final_quota [OF assms(1) r(1)])
  from q a have "\<bar>ls_amountMinor s * total_weight ws - amount * lw_weightMinor w\<bar> < total_weight ws"
    by (auto split: if_splits)
  with w r(2) that show ?thesis by simp
qed

lemma lr_result_sign:
  assumes "positive_weights ws" and "s \<in> set (lr_result amount ws)"
  shows "0 \<le> amount \<Longrightarrow> 0 \<le> ls_amountMinor s" "amount \<le> 0 \<Longrightarrow> ls_amountMinor s \<le> 0"
    "\<bar>ls_amountMinor s\<bar> \<le> \<bar>amount\<bar>"
proof -
  from assms(2) obtain r where r: "r \<in> set (lr_final \<bar>amount\<bar> ws)"
    and a: "ls_amountMinor s = (if amount < 0 then - lr_allocated r else lr_allocated r)"
    by (rule lr_result_row)
  have b: "0 \<le> lr_allocated r" "lr_allocated r \<le> \<bar>amount\<bar>"
    using lr_final_nonneg [OF assms(1) _ r] lr_final_le [OF assms(1) _ r] by auto
  show "0 \<le> amount \<Longrightarrow> 0 \<le> ls_amountMinor s" using a b by auto
  show "amount \<le> 0 \<Longrightarrow> ls_amountMinor s \<le> 0" using a b by (cases "amount = 0") auto
  show "\<bar>ls_amountMinor s\<bar> \<le> \<bar>amount\<bar>" using a b by auto
qed

text \<open>When the weights are capacities that cover the amount, no share exceeds its capacity.\<close>

lemma lr_result_capacity:
  assumes ws: "positive_weights ws" and s: "s \<in> set (lr_result amount ws)"
    and cover: "\<bar>amount\<bar> \<le> total_weight ws"
  obtains w where "w \<in> set ws" and "ls_tieKey s = lw_tieKey w"
    and "\<bar>ls_amountMinor s\<bar> \<le> lw_weightMinor w"
proof -
  let ?W = "total_weight ws"
  have W: "0 < ?W" using ws by (rule total_weight_pos)
  from lr_result_quota [OF ws s] obtain w where w: "w \<in> set ws" "ls_tieKey s = lw_tieKey w"
    and q: "\<bar>ls_amountMinor s * ?W - amount * lw_weightMinor w\<bar> < ?W" .
  have nn: "0 \<le> lw_weightMinor w" using ws w(1) by (auto simp: positive_weights_def)
  have "\<bar>amount * lw_weightMinor w\<bar> \<le> ?W * lw_weightMinor w"
    using cover nn by (simp add: abs_mult mult_right_mono)
  moreover have "\<bar>ls_amountMinor s\<bar> * ?W = \<bar>ls_amountMinor s * ?W\<bar>"
    using W by (simp add: abs_mult)
  ultimately have "\<bar>ls_amountMinor s\<bar> * ?W < (lw_weightMinor w + 1) * ?W"
    using q by (simp add: algebra_simps)
  then have "\<bar>ls_amountMinor s\<bar> < lw_weightMinor w + 1"
    using W by (simp only: mult_less_cancel_right)
  with w that show ?thesis by simp
qed

text \<open>Splitting the sum of the weights gives the weights back, with the sign of the amount.\<close>

lemma lr_result_identity:
  assumes ws: "positive_weights ws" and s: "s \<in> set (lr_result amount ws)"
    and total_amount: "\<bar>amount\<bar> = total_weight ws"
  obtains w where "w \<in> set ws" and "ls_tieKey s = lw_tieKey w"
    and "ls_amountMinor s = (if amount < 0 then - lw_weightMinor w else lw_weightMinor w)"
proof -
  let ?W = "total_weight ws"
  have W: "0 < ?W" using ws by (rule total_weight_pos)
  from lr_result_quota [OF ws s] obtain w where w: "w \<in> set ws" "ls_tieKey s = lw_tieKey w"
    and q: "\<bar>ls_amountMinor s * ?W - amount * lw_weightMinor w\<bar> < ?W" .
  let ?v = "if amount < 0 then - lw_weightMinor w else lw_weightMinor w"
  have "amount * lw_weightMinor w = ?v * ?W"
    unfolding total_amount [symmetric] by (simp add: abs_if)
  then have "\<bar>(ls_amountMinor s - ?v) * ?W\<bar> < 1 * ?W"
    using q by (simp only: left_diff_distrib mult_1)
  then have "\<bar>ls_amountMinor s - ?v\<bar> * ?W < 1 * ?W"
    using W by (simp only: abs_mult abs_of_pos)
  then have "\<bar>ls_amountMinor s - ?v\<bar> < 1"
    using W by (simp only: mult_less_cancel_right)
  with w that [of w] show ?thesis by simp
qed

lemma mset_lr_rows: "mset ws = mset ws' \<Longrightarrow> mset (lr_rows A ws) = mset (lr_rows A ws')"
  unfolding lr_rows_def total_weight_def by (metis mset_map sum_mset_sum_list)

lemma lr_final_mset:
  assumes "mset ws = mset ws'" and "positive_weights ws"
  shows "mset (lr_final A ws) = mset (lr_final A ws')"
proof -
  have inj: "inj_on lr_tieKey (set (lr_rows A ws))"
    using assms(2) by (metis distinct_map lr_rows_keys positive_weights_def valid_weights_def)
  have order: "js_sort lr_compareRemainder (lr_rows A ws)
      = js_sort lr_compareRemainder (lr_rows A ws')"
  proof (rule remainder_order.js_sort_mset_cong [OF mset_lr_rows [OF assms(1)]])
    fix x y
    assume "x \<in> set (lr_rows A ws)" "y \<in> set (lr_rows A ws)"
      and "lr_compareRemainder x y \<le> 0" "lr_compareRemainder y x \<le> 0"
    moreover from this(3,4) have "lr_tieKey x = lr_tieKey y"
      by (auto simp: lr_compareRemainder_def compareTieKey_def compare_code_points_le_iff
          split: if_splits)
    ultimately show "x = y" using inj by (metis inj_onD)
  qed
  have "sum_list (map lr_allocated (lr_rows A ws)) = sum_list (map lr_allocated (lr_rows A ws'))"
    using mset_lr_rows [OF assms(1), of A] by (metis mset_map sum_mset_sum_list)
  then have "lr_bumped_keys A ws = lr_bumped_keys A ws'"
    by (simp add: lr_bumped_keys_def lr_left_def order)
  then show ?thesis
    using mset_lr_rows [OF assms(1), of A] by (simp add: lr_final_def)
qed

lemma lr_result_mset:
  assumes "mset ws = mset ws'" and ws: "positive_weights ws"
  shows "lr_result amount ws = lr_result amount ws'"
proof -
  have inj: "inj_on lr_tieKey (set (lr_final \<bar>amount\<bar> ws))"
    using ws by (metis distinct_map lr_final_keys positive_weights_def valid_weights_def)
  have "js_sort (\<lambda>l r. compareTieKey (lr_tieKey l) (lr_tieKey r)) (lr_final \<bar>amount\<bar> ws)
      = js_sort (\<lambda>l r. compareTieKey (lr_tieKey l) (lr_tieKey r)) (lr_final \<bar>amount\<bar> ws')"
  proof (rule tie_key_order.js_sort_mset_cong [OF lr_final_mset [OF assms]])
    fix x y
    assume "x \<in> set (lr_final \<bar>amount\<bar> ws)" "y \<in> set (lr_final \<bar>amount\<bar> ws)"
      and "compareTieKey (lr_tieKey x) (lr_tieKey y) \<le> 0"
        "compareTieKey (lr_tieKey y) (lr_tieKey x) \<le> 0"
    moreover from this(3,4) have "lr_tieKey x = lr_tieKey y"
      by (simp add: compareTieKey_def compare_code_points_le_iff)
    ultimately show "x = y" using inj by (metis inj_onD)
  qed
  then show ?thesis by (simp add: lr_result_def)
qed

section \<open>Properties\<close>

text \<open>
  C11. On a safe amount and valid weights of which one is positive, the allocation always
  succeeds - neither the safe-integer check of a share nor the final sum check can fail -
  the shares add up to exactly the amount, and there is one share for each positive weight,
  in code-point order of the tie keys.
\<close>

theorem largest_remainder_exact:
  assumes "safe_integer amount" and "valid_weights ws" and "\<exists>w \<in> set ws. 0 < lw_weightMinor w"
  shows "\<exists>shares. allocateSignedLargestRemainder amount ws = Inr shares \<and>
    shares_total shares = amount \<and>
    map ls_tieKey shares = sort (map lw_tieKey (filter (\<lambda>w. 0 < lw_weightMinor w) ws))"
proof -
  have ne: "lr_positive ws \<noteq> []" using assms(3) by (auto simp: lr_positive_def filter_empty_conv)
  then have "positive_weights (lr_positive ws)" using assms(2) by (simp add: lr_positive_weights)
  from shares_total_lr_result [OF this] ne assms show ?thesis
    by (simp add: allocate_eq lr_result_keys) (simp add: lr_positive_def)
qed

theorem largest_remainder_exact_witness:
  "\<exists>shares. allocateSignedLargestRemainder (- 100)
      [\<lparr>lw_tieKey = ''b'', lw_weightMinor = 1\<rparr>, \<lparr>lw_tieKey = ''a'', lw_weightMinor = 2\<rparr>]
    = Inr shares \<and> shares_total shares = - 100"
  using largest_remainder_exact [of "- 100"
      "[\<lparr>lw_tieKey = ''b'', lw_weightMinor = 1\<rparr>, \<lparr>lw_tieKey = ''a'', lw_weightMinor = 2\<rparr>]"]
  by (auto simp: valid_weights_def safe_integer_def)

text \<open>
  Every share stays strictly within one minor unit of the exact proportional quota
  \<open>amount * weight / total\<close> (stated without division), has the sign of the amount, and is
  never larger in absolute value than the amount.
\<close>

theorem largest_remainder_quota:
  assumes "allocateSignedLargestRemainder amount ws = Inr shares" and "s \<in> set shares"
  shows "(\<exists>w \<in> set ws. ls_tieKey s = lw_tieKey w \<and> 0 < lw_weightMinor w \<and>
      \<bar>ls_amountMinor s * total_weight ws - amount * lw_weightMinor w\<bar> < total_weight ws) \<and>
    0 \<le> ls_amountMinor s * sgn amount \<and> \<bar>ls_amountMinor s\<bar> \<le> \<bar>amount\<bar>"
proof -
  note d = allocate_InrD [OF assms(1)]
  let ?P = "lr_positive ws"
  have "?P \<noteq> []" and s: "s \<in> set (lr_result amount ?P)"
    using assms(2) d(3) by (auto split: if_splits)
  then have P: "positive_weights ?P" using d(2) by (simp add: lr_positive_weights)
  have tw: "total_weight ?P = total_weight ws"
    using d(2) by (simp add: lr_positive_def total_weight_filter valid_weights_def)
  from lr_result_quota [OF P s] obtain w where w: "w \<in> set ?P" "ls_tieKey s = lw_tieKey w"
    "\<bar>ls_amountMinor s * total_weight ws - amount * lw_weightMinor w\<bar> < total_weight ws"
    by (metis tw)
  moreover have "0 \<le> ls_amountMinor s * sgn amount"
    using lr_result_sign(1,2) [OF P s] by (cases "amount = 0") (auto simp: sgn_if)
  ultimately show ?thesis
    using lr_result_sign(3) [OF P s] by (auto simp: lr_positive_def)
qed

theorem largest_remainder_quota_witness:
  "0 \<le> ls_amountMinor \<lparr>ls_tieKey = ''a'', ls_amountMinor = - 67\<rparr> * sgn (- 100)"
proof -
  let ?ws = "[\<lparr>lw_tieKey = ''b'', lw_weightMinor = 1\<rparr>, \<lparr>lw_tieKey = ''a'', lw_weightMinor = 2\<rparr>]"
  have run: "allocateSignedLargestRemainder (- 100) ?ws
      = Inr [\<lparr>ls_tieKey = ''a'', ls_amountMinor = - 67\<rparr>, \<lparr>ls_tieKey = ''b'', ls_amountMinor = - 33\<rparr>]"
    by code_simp
  show ?thesis using largest_remainder_quota [OF run] by simp
qed

text \<open>
  C12. The allocation is a function of the collection of weights: permuting the input, which
  is what a database without an \<^verbatim>\<open>ORDER BY\<close> may do, changes neither the shares nor their order
  nor whether the call throws.
\<close>

theorem largest_remainder_order_independent:
  assumes "mset ws = mset ws'"
  shows "allocateSignedLargestRemainder amount ws = allocateSignedLargestRemainder amount ws'"
proof -
  have P: "mset (lr_positive ws) = mset (lr_positive ws')"
    using assms by (metis lr_positive_def mset_filter)
  then have "lr_positive ws = [] \<longleftrightarrow> lr_positive ws' = []" by (metis mset_zero_iff_right)
  moreover have "lr_positive ws \<noteq> [] \<Longrightarrow> valid_weights ws \<Longrightarrow>
      lr_result amount (lr_positive ws) = lr_result amount (lr_positive ws')"
    by (rule lr_result_mset [OF P]) (simp add: lr_positive_weights)
  ultimately show ?thesis
    using valid_weights_mset [OF assms] by (auto simp: allocate_eq)
qed

theorem largest_remainder_order_independent_witness:
  "allocateSignedLargestRemainder 10
      [\<lparr>lw_tieKey = ''b'', lw_weightMinor = 1\<rparr>, \<lparr>lw_tieKey = ''a'', lw_weightMinor = 1\<rparr>]
   = allocateSignedLargestRemainder 10
      [\<lparr>lw_tieKey = ''a'', lw_weightMinor = 1\<rparr>, \<lparr>lw_tieKey = ''b'', lw_weightMinor = 1\<rparr>]"
  by (rule largest_remainder_order_independent) simp

text \<open>
  When the weights are remaining capacities and the amount does not exceed their sum, no
  share exceeds the capacity of its key: the extra units never push a row over its limit.
\<close>

theorem largest_remainder_within_capacity:
  assumes "allocateSignedLargestRemainder amount ws = Inr shares"
    and "\<bar>amount\<bar> \<le> total_weight ws" and "s \<in> set shares"
  shows "\<exists>w \<in> set ws. ls_tieKey s = lw_tieKey w \<and> \<bar>ls_amountMinor s\<bar> \<le> lw_weightMinor w"
proof -
  note d = allocate_InrD [OF assms(1)]
  let ?P = "lr_positive ws"
  have "?P \<noteq> []" and s: "s \<in> set (lr_result amount ?P)"
    using assms(3) d(3) by (auto split: if_splits)
  then have P: "positive_weights ?P" using d(2) by (simp add: lr_positive_weights)
  have "total_weight ?P = total_weight ws"
    using d(2) by (simp add: lr_positive_def total_weight_filter valid_weights_def)
  with lr_result_capacity [OF P s] assms(2) show ?thesis
    by (auto simp: lr_positive_def)
qed

theorem largest_remainder_within_capacity_witness:
  "\<exists>w \<in> set [\<lparr>lw_tieKey = ''b'', lw_weightMinor = 1\<rparr>, \<lparr>lw_tieKey = ''a'', lw_weightMinor = 2\<rparr>].
     ''a'' = lw_tieKey w \<and> \<bar>2 :: int\<bar> \<le> lw_weightMinor w"
proof -
  let ?ws = "[\<lparr>lw_tieKey = ''b'', lw_weightMinor = 1\<rparr>, \<lparr>lw_tieKey = ''a'', lw_weightMinor = 2\<rparr>]"
  have run: "allocateSignedLargestRemainder 3 ?ws
      = Inr [\<lparr>ls_tieKey = ''a'', ls_amountMinor = 2\<rparr>, \<lparr>ls_tieKey = ''b'', ls_amountMinor = 1\<rparr>]"
    by code_simp
  have cover: "\<bar>3 :: int\<bar> \<le> total_weight ?ws" by (simp add: total_weight_def)
  show ?thesis
    using largest_remainder_within_capacity
      [OF run cover, of "\<lparr>ls_tieKey = ''a'', ls_amountMinor = 2\<rparr>"] by simp
qed

end
