(* ===== verification/AllocCommon.thy ===== *)
theory AllocCommon
  imports LargestRemainder
begin

text \<open>
  \<^verbatim>\<open>allocations/common.ts\<close>: the checks on money, currency and metadata, the conservation check
  of a plan, plan construction, and the allocation of an amount over order-item components and
  of provider fees over order items. The splitting algorithm is used through the contract of
  the locale \<open>exact_allocator\<close>, which \<open>LargestRemainder\<close> provides.
\<close>

record alloc_component =
  ac_orderItemId :: string
  ac_component :: fin_component
  ac_weightMinor :: int
  ac_tieBreakKey :: string

section \<open>Checks\<close>

definition assertSafeMoney :: "int \<Rightarrow> unit fin" where
  "assertSafeMoney v = throw_if (\<not> safe_integer v) Allocation_mismatch"

definition assertCurrency :: "string \<Rightarrow> unit fin" where
  "assertCurrency v = throw_if (\<not> currency_code v) Currency_mismatch"

definition assertMetadata :: "allocation_metadata \<Rightarrow> unit fin" where
  "assertMetadata input =
     rbind (assertCurrency (am_settlementCurrency input)) (\<lambda>_.
     rbind (assertSafeMoney (am_amountMinor input)) (\<lambda>_.
     rbind (assertSafeMoney (am_feeMinor input)) (\<lambda>_.
     rbind (assertSafeMoney (am_netMinor input)) (\<lambda>_.
     rbind (throw_if (am_feeMinor input < 0 \<or>
         am_amountMinor input - am_feeMinor input \<noteq> am_netMinor input) Allocation_mismatch) (\<lambda>_.
     throw_if (am_allocationIdentityPrefix input = [] \<or> am_balanceTransactionId input = [] \<or>
         am_sourceId input = [] \<or> length (am_sourceFingerprint input) \<noteq> 64 \<or>
         \<not> sha256_hex (am_sourceFingerprint input) \<or>
         \<not> safe_integer (am_algorithmVersion input) \<or> am_algorithmVersion input < 1)
       Source_linkage_mismatch)))))"

definition component_key :: "string \<times> fin_component \<Rightarrow> string" where
  "component_key p = fst p @ [CHR 0x00] @ component_name (snd p)"

fun conserve_items ::
  "string \<Rightarrow> string set \<Rightarrow> string set \<Rightarrow> int \<Rightarrow> allocation_item list \<Rightarrow> int fin" where
  "conserve_items currency seenTieKeys seenComponents acc [] = Inr acc"
| "conserve_items currency seenTieKeys seenComponents acc (item # items) =
     rbind (assertCurrency (ai_currency item)) (\<lambda>_.
     rbind (throw_if (ai_currency item \<noteq> currency \<or> ai_orderItemId item = [] \<or>
         ai_tieBreakKey item = [] \<or> ai_tieBreakKey item \<in> seenTieKeys) Allocation_mismatch) (\<lambda>_.
     let componentKey = component_key (ai_orderItemId item, ai_component item) in
     rbind (throw_if (componentKey \<in> seenComponents) Allocation_mismatch) (\<lambda>_.
     rbind (assertSafeMoney (ai_effectMinor item)) (\<lambda>_.
     conserve_items currency (insert (ai_tieBreakKey item) seenTieKeys)
       (insert componentKey seenComponents) (acc + ai_effectMinor item) items))))"

definition assertAllocationPlanConserves :: "allocation_plan \<Rightarrow> unit fin" where
  "assertAllocationPlanConserves plan =
     rbind (assertCurrency (ap_currency plan)) (\<lambda>_.
     rbind (assertSafeMoney (ap_expectedEffectMinor plan)) (\<lambda>_.
     if ap_scope plan \<noteq> Title_scope
     then throw_if (ap_items plan \<noteq> []) Allocation_mismatch
     else rbind (conserve_items (ap_currency plan) {} {} 0 (ap_items plan)) (\<lambda>acc.
       throw_if (acc \<noteq> ap_expectedEffectMinor plan) Allocation_mismatch)))"

definition basePlan ::
  "allocation_metadata \<Rightarrow> allocation_basis \<Rightarrow> allocation_scope \<Rightarrow> int \<Rightarrow>
   allocation_item list \<Rightarrow> string option \<Rightarrow> allocation_plan fin" where
  "basePlan input basis scope expectedEffectMinor items reversalOfSetId =
     rbind (assertMetadata input) (\<lambda>_.
     rbind (assertSafeMoney expectedEffectMinor) (\<lambda>_.
     let plan = \<lparr>ap_allocationIdentity = am_allocationIdentityPrefix input @ '':'' @
                   (if basis = Gross_amount then ''gross'' else ''fee''),
                 ap_balanceTransactionId = am_balanceTransactionId input,
                 ap_basis = basis, ap_scope = scope,
                 ap_currency = am_settlementCurrency input,
                 ap_expectedEffectMinor = expectedEffectMinor,
                 ap_algorithmVersion = am_algorithmVersion input,
                 ap_sourceFingerprint = am_sourceFingerprint input,
                 ap_supersedesSetId = (if basis = Gross_amount then am_supersedesGrossSetId input
                                       else am_supersedesFeeSetId input),
                 ap_reversalOfSetId = reversalOfSetId,
                 ap_items = items\<rparr>
     in rbind (assertAllocationPlanConserves plan) (\<lambda>_. Inr plan)))"

section \<open>Allocation over components and of fees\<close>

definition allocateComponents ::
  "int \<Rightarrow> string \<Rightarrow> alloc_component list \<Rightarrow> allocation_item list fin" where
  "allocateComponents amountMinor currency components =
     (let componentByKey = map_of (rev (map (\<lambda>c. (ac_tieBreakKey c, c)) components)) in
      rbind (allocateSignedLargestRemainder amountMinor
          (map (\<lambda>c. \<lparr>lw_tieKey = ac_tieBreakKey c, lw_weightMinor = ac_weightMinor c\<rparr>) components))
        (rmap (\<lambda>allocation. case componentByKey (ls_tieKey allocation) of
            None \<Rightarrow> Inl Allocation_mismatch
          | Some c \<Rightarrow> Inr \<lparr>ai_orderItemId = ac_orderItemId c, ai_component = ac_component c,
              ai_effectMinor = ls_amountMinor allocation, ai_currency = currency,
              ai_tieBreakKey = ac_tieBreakKey c\<rparr>)))"

definition fee_amounts :: "fee_detail list \<Rightarrow> (fin_component \<times> int) list fin" where
  "fee_amounts feeDetails =
     rfold (\<lambda>detail amounts. rbind (assertSafeMoney (fd_amountMinor detail)) (\<lambda>_.
       Inr (accumulate (fd_component detail) (fd_amountMinor detail) amounts))) feeDetails []"

definition fee_weight_check :: "string \<Rightarrow> fee_weight \<Rightarrow> unit fin" where
  "fee_weight_check currency weight =
     rbind (assertSafeMoney (fw_subtotalMinor weight)) (\<lambda>_.
     rbind (assertCurrency (fw_currency weight)) (\<lambda>_.
     throw_if (fw_subtotalMinor weight < 0 \<or> fw_currency weight \<noteq> currency \<or>
       fw_orderItemId weight = []) Allocation_mismatch))"

definition effective_fee_weights :: "fee_weight list \<Rightarrow> fee_weight list" where
  "effective_fee_weights weights =
     (let positiveWeights = filter (\<lambda>w. fw_subtotalMinor w > 0) weights in
      if positiveWeights \<noteq> [] then positiveWeights
      else (case weights of [w] \<Rightarrow> [w\<lparr>fw_subtotalMinor := 1\<rparr>] | _ \<Rightarrow> []))"

definition fee_component_items ::
  "string \<Rightarrow> fee_weight list \<Rightarrow> fin_component \<times> int \<Rightarrow> allocation_item list fin" where
  "fee_component_items currency effectiveWeights entry =
     (case entry of (component, amount) \<Rightarrow>
      rbind (throw_if (\<not> safe_integer amount) Allocation_mismatch) (\<lambda>_.
      rbind (allocateSignedLargestRemainder amount
          (map (\<lambda>w. \<lparr>lw_tieKey = fw_orderItemId w, lw_weightMinor = fw_subtotalMinor w\<rparr>)
            effectiveWeights)) (\<lambda>allocations.
      Inr (map (\<lambda>a. \<lparr>ai_orderItemId = ls_tieKey a, ai_component = component,
          ai_effectMinor = ls_amountMinor a, ai_currency = currency,
          ai_tieBreakKey = ls_tieKey a @ '':'' @ component_name component\<rparr>) allocations))))"

definition allocateFeeDetails ::
  "int \<Rightarrow> string \<Rightarrow> fee_weight list \<Rightarrow> fee_detail list \<Rightarrow> allocation_item list fin" where
  "allocateFeeDetails feeMinor currency weights feeDetails =
     rbind (assertSafeMoney feeMinor) (\<lambda>_.
     rbind (assertCurrency currency) (\<lambda>_.
     rbind (throw_if (feeMinor < 0) Allocation_mismatch) (\<lambda>_.
     rbind (fee_amounts feeDetails) (\<lambda>amountsByComponent.
     rbind (throw_if (sum_list (map snd amountsByComponent) \<noteq> - feeMinor) Allocation_mismatch) (\<lambda>_.
     if feeMinor = 0 then Inr []
     else
       rbind (rall (fee_weight_check currency) weights) (\<lambda>_.
       let effectiveWeights = effective_fee_weights weights in
       rbind (throw_if (effectiveWeights = []) Allocation_mismatch) (\<lambda>_.
       rbind (rmap (fee_component_items currency effectiveWeights) amountsByComponent) (\<lambda>parts.
       Inr (concat parts)))))))))"

definition planWeights :: "allocation_plan \<Rightarrow> alloc_component list fin" where
  "planWeights plan =
     rfold (\<lambda>item rows.
       if ai_tieBreakKey item \<in> ac_tieBreakKey ` set rows then Inl Allocation_mismatch
       else Inr (rows @ [\<lparr>ac_orderItemId = ai_orderItemId item, ac_component = ai_component item,
              ac_weightMinor = \<bar>ai_effectMinor item\<bar>, ac_tieBreakKey = ai_tieBreakKey item\<rparr>]))
     (ap_items plan) []"

section \<open>The checks as predicates\<close>

lemma assertSafeMoney_Inr [simp]: "assertSafeMoney v = Inr u \<longleftrightarrow> safe_integer v"
  by (simp add: assertSafeMoney_def)

lemma assertCurrency_Inr [simp]: "assertCurrency v = Inr u \<longleftrightarrow> currency_code v"
  by (simp add: assertCurrency_def)

lemma assertSafeMoney_ok: "safe_integer v \<Longrightarrow> assertSafeMoney v = Inr ()"
  by simp

lemma assertCurrency_ok: "currency_code v \<Longrightarrow> assertCurrency v = Inr ()"
  by simp

definition valid_metadata :: "allocation_metadata \<Rightarrow> bool" where
  "valid_metadata m \<longleftrightarrow> currency_code (am_settlementCurrency m) \<and> safe_integer (am_amountMinor m) \<and>
     safe_integer (am_feeMinor m) \<and> safe_integer (am_netMinor m) \<and> 0 \<le> am_feeMinor m \<and>
     am_netMinor m = am_amountMinor m - am_feeMinor m \<and> am_allocationIdentityPrefix m \<noteq> [] \<and>
     am_balanceTransactionId m \<noteq> [] \<and> am_sourceId m \<noteq> [] \<and> sha256_hex (am_sourceFingerprint m) \<and>
     safe_integer (am_algorithmVersion m) \<and> 1 \<le> am_algorithmVersion m"

lemma assertMetadata_Inr [simp]: "assertMetadata m = Inr u \<longleftrightarrow> valid_metadata m"
  by (auto simp: assertMetadata_def valid_metadata_def sha256_hex_def result_simps)

lemma assertMetadata_ok: "valid_metadata m \<Longrightarrow> assertMetadata m = Inr ()"
  by simp

definition wf_items :: "string \<Rightarrow> allocation_item list \<Rightarrow> bool" where
  "wf_items currency items \<longleftrightarrow> currency_code currency \<and>
     (\<forall>i \<in> set items. ai_currency i = currency \<and> ai_orderItemId i \<noteq> [] \<and> ai_tieBreakKey i \<noteq> [] \<and>
        safe_integer (ai_effectMinor i)) \<and>
     distinct (map ai_tieBreakKey items) \<and>
     distinct (map (\<lambda>i. (ai_orderItemId i, ai_component i)) items)"

lemma component_key_inj: "component_key p = component_key q \<longleftrightarrow> p = q"
  unfolding component_key_def component_nul_key_eq by (simp add: prod_eq_iff)

lemma wf_items_append:
  assumes "wf_items cur p" and "wf_items cur q"
    and "\<And>i j. i \<in> set p \<Longrightarrow> j \<in> set q \<Longrightarrow> ai_tieBreakKey i \<noteq> ai_tieBreakKey j"
    and "\<And>i j. i \<in> set p \<Longrightarrow> j \<in> set q \<Longrightarrow> ai_component i \<noteq> ai_component j"
  shows "wf_items cur (p @ q)"
proof -
  have "ai_tieBreakKey ` set p \<inter> ai_tieBreakKey ` set q = {}" using assms(3) by blast
  moreover have "(\<lambda>i. (ai_orderItemId i, ai_component i)) ` set p \<inter>
      (\<lambda>i. (ai_orderItemId i, ai_component i)) ` set q = {}" using assms(4) by blast
  ultimately show ?thesis using assms(1,2) by (auto simp: wf_items_def)
qed

lemma conserve_items_Inr:
  "conserve_items c T K s items = Inr t \<longleftrightarrow>
     (\<forall>i \<in> set items. currency_code c \<and> ai_currency i = c \<and> ai_orderItemId i \<noteq> [] \<and> ai_tieBreakKey i \<noteq> [] \<and>
        safe_integer (ai_effectMinor i)) \<and>
     distinct (map ai_tieBreakKey items) \<and> ai_tieBreakKey ` set items \<inter> T = {} \<and>
     distinct (map (\<lambda>i. component_key (ai_orderItemId i, ai_component i)) items) \<and>
     (\<lambda>i. component_key (ai_orderItemId i, ai_component i)) ` set items \<inter> K = {} \<and>
     t = s + items_total items"
proof (induction c T K s items rule: conserve_items.induct)
  case (1 c T K s)
  then show ?case by auto
next
  case (2 c T K s i items)
  show ?case
    by (simp add: result_simps Let_def "2.IH" algebra_simps) blast
qed

lemma distinct_component_key:
  "distinct (map (\<lambda>i. component_key (ai_orderItemId i, ai_component i)) items) \<longleftrightarrow>
   distinct (map (\<lambda>i. (ai_orderItemId i, ai_component i)) items)"
  by (auto simp: distinct_map inj_on_def component_key_inj)

lemma conserves_Inr:
  "assertAllocationPlanConserves plan = Inr u \<longleftrightarrow>
     currency_code (ap_currency plan) \<and> safe_integer (ap_expectedEffectMinor plan) \<and>
     (if ap_scope plan = Title_scope
      then wf_items (ap_currency plan) (ap_items plan) \<and>
           items_total (ap_items plan) = ap_expectedEffectMinor plan
      else ap_items plan = [])"
  by (auto simp: assertAllocationPlanConserves_def result_simps conserve_items_Inr wf_items_def
      distinct_component_key)

section \<open>The contract of the splitting algorithm\<close>

text \<open>
  What the plan builders rely on: exact sum, one share per positive key, bounded and signed
  shares, capacities respected, and success on every valid input. The lemmas inside turn shares
  into labelled allocation items.
\<close>

locale exact_allocator =
  fixes alloc :: "int \<Rightarrow> lr_weight list \<Rightarrow> lr_share list fin"
  assumes alloc_exact: "alloc a ws = Inr ss \<Longrightarrow> shares_total ss = a"
    and alloc_valid: "alloc a ws = Inr ss \<Longrightarrow> safe_integer a \<and> valid_weights ws"
    and alloc_distinct: "alloc a ws = Inr ss \<Longrightarrow> distinct (map ls_tieKey ss)"
    and alloc_origin: "alloc a ws = Inr ss \<Longrightarrow> s \<in> set ss \<Longrightarrow>
      \<exists>w \<in> set ws. ls_tieKey s = lw_tieKey w \<and> 0 < lw_weightMinor w"
    and alloc_bound: "alloc a ws = Inr ss \<Longrightarrow> s \<in> set ss \<Longrightarrow>
      \<bar>ls_amountMinor s\<bar> \<le> \<bar>a\<bar> \<and> 0 \<le> ls_amountMinor s * sgn a"
    and alloc_capacity: "alloc a ws = Inr ss \<Longrightarrow> s \<in> set ss \<Longrightarrow> \<bar>a\<bar> \<le> total_weight ws \<Longrightarrow>
      \<exists>w \<in> set ws. ls_tieKey s = lw_tieKey w \<and> \<bar>ls_amountMinor s\<bar> \<le> lw_weightMinor w"
    and alloc_identity: "alloc a ws = Inr ss \<Longrightarrow> s \<in> set ss \<Longrightarrow> \<bar>a\<bar> = total_weight ws \<Longrightarrow>
      \<exists>w \<in> set ws. ls_tieKey s = lw_tieKey w \<and>
        ls_amountMinor s = (if a < 0 then - lw_weightMinor w else lw_weightMinor w)"
    and alloc_complete: "alloc a ws = Inr ss \<Longrightarrow> w \<in> set ws \<Longrightarrow> 0 < lw_weightMinor w \<Longrightarrow>
      lw_tieKey w \<in> ls_tieKey ` set ss"
    and alloc_succeeds: "safe_integer a \<Longrightarrow> valid_weights ws \<Longrightarrow>
      a = 0 \<or> (\<exists>w \<in> set ws. 0 < lw_weightMinor w) \<Longrightarrow> \<exists>ss. alloc a ws = Inr ss"
begin

lemma items_total_labelled:
  assumes "alloc a ws = Inr ss" and "\<And>s. s \<in> set ss \<Longrightarrow> ai_effectMinor (mk s) = ls_amountMinor s"
  shows "items_total (map mk ss) = a"
proof -
  have "items_total (map mk ss) = shares_total ss"
    using assms(2) unfolding items_total_def shares_total_def
    by (auto intro!: arg_cong [where f = sum_list])
  with alloc_exact [OF assms(1)] show ?thesis by simp
qed

lemma alloc_safe:
  assumes "alloc a ws = Inr ss" and "s \<in> set ss"
  shows "safe_integer (ls_amountMinor s)"
  using alloc_valid [OF assms(1)] alloc_bound [OF assms] by (simp add: safe_integer_def)

lemma wf_items_labelled:
  assumes a: "alloc a ws = Inr ss" and "currency_code cur"
    and lab: "\<And>s. s \<in> set ss \<Longrightarrow> ai_effectMinor (mk s) = ls_amountMinor s \<and>
      ai_currency (mk s) = cur \<and> ai_orderItemId (mk s) \<noteq> [] \<and> ai_tieBreakKey (mk s) \<noteq> []"
    and key: "\<And>s t. s \<in> set ss \<Longrightarrow> t \<in> set ss \<Longrightarrow>
      ai_tieBreakKey (mk s) = ai_tieBreakKey (mk t) \<Longrightarrow> ls_tieKey s = ls_tieKey t"
    and comp: "\<And>s t. s \<in> set ss \<Longrightarrow> t \<in> set ss \<Longrightarrow> ai_orderItemId (mk s) = ai_orderItemId (mk t) \<Longrightarrow>
      ai_component (mk s) = ai_component (mk t) \<Longrightarrow> ls_tieKey s = ls_tieKey t"
  shows "wf_items cur (map mk ss)"
proof -
  have d: "distinct ss" and inj: "inj_on ls_tieKey (set ss)"
    using alloc_distinct [OF a] by (auto simp: distinct_map)
  have "inj_on (\<lambda>s. ai_tieBreakKey (mk s)) (set ss)"
    by (rule inj_onI) (meson key inj inj_onD)
  moreover have "inj_on (\<lambda>s. (ai_orderItemId (mk s), ai_component (mk s))) (set ss)"
    by (rule inj_onI) (metis comp inj inj_onD prod.inject)
  moreover have "\<forall>i \<in> set (map mk ss). ai_currency i = cur \<and> ai_orderItemId i \<noteq> [] \<and>
      ai_tieBreakKey i \<noteq> [] \<and> safe_integer (ai_effectMinor i)"
    using lab alloc_safe [OF a] by simp
  ultimately show ?thesis
    using assms(2) d unfolding wf_items_def distinct_map map_map comp_def by simp
qed

end

interpretation lr: exact_allocator allocateSignedLargestRemainder
proof unfold_locales
  fix a :: int and ws ss s
  assume run: "allocateSignedLargestRemainder a ws = Inr ss"
  note d = allocate_InrD [OF run]
  have P: "positive_weights (lr_positive ws)" if "lr_positive ws \<noteq> []"
    using that d(2) lr_positive_weights by blast
  have tw: "total_weight (lr_positive ws) = total_weight ws"
    using d(2) by (simp add: lr_positive_def total_weight_filter valid_weights_def)
  show "shares_total ss = a"
    using d P shares_total_lr_result by (auto simp: shares_total_def)
  show "safe_integer a \<and> valid_weights ws" using d by simp
  show "distinct (map ls_tieKey ss)"
    using d P by (auto simp: lr_result_keys positive_weights_def valid_weights_def)
  assume s: "s \<in> set ss"
  then have ne: "lr_positive ws \<noteq> []" and s': "s \<in> set (lr_result a (lr_positive ws))"
    using d(3) by (auto split: if_splits)
  show "\<exists>w \<in> set ws. ls_tieKey s = lw_tieKey w \<and> 0 < lw_weightMinor w"
    by (rule lr_result_quota [OF P [OF ne] s']) (auto simp: lr_positive_def)
  show "\<bar>ls_amountMinor s\<bar> \<le> \<bar>a\<bar> \<and> 0 \<le> ls_amountMinor s * sgn a"
    using lr_result_sign [OF P [OF ne] s'] by (auto simp: sgn_if)
  show "\<exists>w \<in> set ws. ls_tieKey s = lw_tieKey w \<and>
      ls_amountMinor s = (if a < 0 then - lw_weightMinor w else lw_weightMinor w)"
    if a: "\<bar>a\<bar> = total_weight ws"
  proof (rule lr_result_identity [OF P [OF ne] s'])
    show "\<bar>a\<bar> = total_weight (lr_positive ws)" by (simp only: a tw)
  next
    fix w
    assume "w \<in> set (lr_positive ws)" "ls_tieKey s = lw_tieKey w"
      "ls_amountMinor s = (if a < 0 then - lw_weightMinor w else lw_weightMinor w)"
    then show ?thesis by (auto simp: lr_positive_def)
  qed
  assume "\<bar>a\<bar> \<le> total_weight ws"
  then have "\<bar>a\<bar> \<le> total_weight (lr_positive ws)" by (simp add: tw)
  then show "\<exists>w \<in> set ws. ls_tieKey s = lw_tieKey w \<and> \<bar>ls_amountMinor s\<bar> \<le> lw_weightMinor w"
    by (rule lr_result_capacity [OF P [OF ne] s']) (auto simp: lr_positive_def)
next
  fix a :: int and ws ss w
  assume run: "allocateSignedLargestRemainder a ws = Inr ss" and w: "w \<in> set ws" "0 < lw_weightMinor w"
  then have mem: "w \<in> set (lr_positive ws)" by (simp add: lr_positive_def)
  then have "ss = lr_result a (lr_positive ws)" using allocate_InrD [OF run] by auto
  then have "set (map ls_tieKey ss) = lw_tieKey ` set (lr_positive ws)" by (simp add: lr_result_keys)
  with mem show "lw_tieKey w \<in> ls_tieKey ` set ss" by auto
next
  fix a :: int and ws
  assume "safe_integer a" "valid_weights ws" "a = 0 \<or> (\<exists>w \<in> set ws. 0 < lw_weightMinor w)"
  then show "\<exists>ss. allocateSignedLargestRemainder a ws = Inr ss"
    by (auto simp: allocate_eq lr_positive_def filter_empty_conv)
qed

section \<open>Allocation over components\<close>

definition component_weights :: "alloc_component list \<Rightarrow> lr_weight list" where
  "component_weights cs =
     map (\<lambda>c. \<lparr>lw_tieKey = ac_tieBreakKey c, lw_weightMinor = ac_weightMinor c\<rparr>) cs"

definition component_item :: "string \<Rightarrow> alloc_component \<Rightarrow> int \<Rightarrow> allocation_item" where
  "component_item currency c amount =
     \<lparr>ai_orderItemId = ac_orderItemId c, ai_component = ac_component c, ai_effectMinor = amount,
      ai_currency = currency, ai_tieBreakKey = ac_tieBreakKey c\<rparr>"

definition component_for :: "alloc_component list \<Rightarrow> string \<Rightarrow> alloc_component" where
  "component_for cs k = the (map_of (rev (map (\<lambda>c. (ac_tieBreakKey c, c)) cs)) k)"

lemma component_weights_keys: "map lw_tieKey (component_weights cs) = map ac_tieBreakKey cs"
  by (simp add: component_weights_def)

lemma component_lookup:
  assumes "distinct (map ac_tieBreakKey cs)" and "c \<in> set cs"
  shows "map_of (rev (map (\<lambda>c. (ac_tieBreakKey c, c)) cs)) (ac_tieBreakKey c) = Some c"
proof (rule map_of_is_SomeI)
  show "distinct (map fst (rev (map (\<lambda>c. (ac_tieBreakKey c, c)) cs)))"
    using assms(1) by (simp add: rev_map [symmetric] comp_def)
  show "(ac_tieBreakKey c, c) \<in> set (rev (map (\<lambda>c. (ac_tieBreakKey c, c)) cs))"
    using assms(2) by auto
qed

lemma component_for_key:
  "distinct (map ac_tieBreakKey cs) \<Longrightarrow> c \<in> set cs \<Longrightarrow> component_for cs (ac_tieBreakKey c) = c"
  by (simp add: component_for_def component_lookup)

lemma allocateComponents_eq:
  "allocateComponents a cur cs =
     rbind (allocateSignedLargestRemainder a (component_weights cs)) (\<lambda>ss.
       Inr (map (\<lambda>s. component_item cur (component_for cs (ls_tieKey s)) (ls_amountMinor s)) ss))"
proof (cases "allocateSignedLargestRemainder a (component_weights cs)")
  case (Inl e)
  then show ?thesis by (simp add: allocateComponents_def component_weights_def Let_def)
next
  case (Inr ss)
  have d: "distinct (map ac_tieBreakKey cs)"
    using lr.alloc_valid [OF Inr] by (simp add: valid_weights_def component_weights_keys)
  have "\<exists>c \<in> set cs. ls_tieKey s = ac_tieBreakKey c" if "s \<in> set ss" for s
    using lr.alloc_origin [OF Inr that] by (auto simp: component_weights_def)
  then have "rmap (\<lambda>allocation. case map_of (rev (map (\<lambda>c. (ac_tieBreakKey c, c)) cs)) (ls_tieKey allocation) of
            None \<Rightarrow> Inl Allocation_mismatch
          | Some c \<Rightarrow> Inr (component_item cur c (ls_amountMinor allocation))) ss
    = Inr (map (\<lambda>s. component_item cur (component_for cs (ls_tieKey s)) (ls_amountMinor s)) ss)"
    using d by (intro rmap_total) (force simp: component_lookup component_for_key)
  with Inr show ?thesis
    unfolding allocateComponents_def component_weights_def Let_def component_item_def [symmetric]
    by simp
qed

lemma component_item_simps [simp]:
  "ai_orderItemId (component_item cur c a) = ac_orderItemId c"
  "ai_component (component_item cur c a) = ac_component c"
  "ai_effectMinor (component_item cur c a) = a"
  "ai_currency (component_item cur c a) = cur"
  "ai_tieBreakKey (component_item cur c a) = ac_tieBreakKey c"
  by (simp_all add: component_item_def)

lemma allocateComponents_Inr_ex:
  assumes "allocateComponents a cur cs = Inr items"
  shows "\<exists>ss. allocateSignedLargestRemainder a (component_weights cs) = Inr ss \<and>
    items = map (\<lambda>s. component_item cur (component_for cs (ls_tieKey s)) (ls_amountMinor s)) ss \<and>
    distinct (map ac_tieBreakKey cs) \<and>
    (\<forall>s \<in> set ss. component_for cs (ls_tieKey s) \<in> set cs \<and>
      ac_tieBreakKey (component_for cs (ls_tieKey s)) = ls_tieKey s \<and>
      0 < ac_weightMinor (component_for cs (ls_tieKey s)))"
proof -
  from assms obtain ss where run: "allocateSignedLargestRemainder a (component_weights cs) = Inr ss"
    and items: "items = map (\<lambda>s. component_item cur (component_for cs (ls_tieKey s)) (ls_amountMinor s)) ss"
    by (auto simp: allocateComponents_eq result_simps)
  have d: "distinct (map ac_tieBreakKey cs)"
    using lr.alloc_valid [OF run] by (simp add: valid_weights_def component_weights_keys)
  have "component_for cs (ls_tieKey s) \<in> set cs \<and>
      ac_tieBreakKey (component_for cs (ls_tieKey s)) = ls_tieKey s \<and>
      0 < ac_weightMinor (component_for cs (ls_tieKey s))" if "s \<in> set ss" for s
    using lr.alloc_origin [OF run that] d
    by (auto simp: component_weights_def component_for_key)
  with run items d show ?thesis by blast
qed

lemma allocateComponents_total_effect:
  "allocateComponents a cur cs = Inr items \<Longrightarrow> items_total items = a"
  using allocateComponents_Inr_ex [of a cur cs items] by (auto simp: lr.items_total_labelled)

lemma allocateComponents_item:
  assumes "allocateComponents a cur cs = Inr items" and "i \<in> set items"
  obtains c where "c \<in> set cs" and "ai_orderItemId i = ac_orderItemId c"
    and "ai_component i = ac_component c" and "ai_tieBreakKey i = ac_tieBreakKey c"
    and "ai_currency i = cur" and "0 < ac_weightMinor c"
    and "\<bar>ai_effectMinor i\<bar> \<le> \<bar>a\<bar>" and "0 \<le> ai_effectMinor i * sgn a"
    and "\<bar>a\<bar> \<le> sum_list (map ac_weightMinor cs) \<Longrightarrow> \<bar>ai_effectMinor i\<bar> \<le> ac_weightMinor c"
    and "\<bar>a\<bar> = sum_list (map ac_weightMinor cs) \<Longrightarrow>
      ai_effectMinor i = (if a < 0 then - ac_weightMinor c else ac_weightMinor c)"
proof -
  from assms(1) obtain ss where run: "allocateSignedLargestRemainder a (component_weights cs) = Inr ss"
    and items: "items = map (\<lambda>s. component_item cur (component_for cs (ls_tieKey s)) (ls_amountMinor s)) ss"
    and d: "distinct (map ac_tieBreakKey cs)"
    and cf: "\<And>s. s \<in> set ss \<Longrightarrow> component_for cs (ls_tieKey s) \<in> set cs \<and>
      ac_tieBreakKey (component_for cs (ls_tieKey s)) = ls_tieKey s \<and>
      0 < ac_weightMinor (component_for cs (ls_tieKey s))"
    using allocateComponents_Inr_ex by blast
  from assms(2) items obtain s where s: "s \<in> set ss"
    and i: "i = component_item cur (component_for cs (ls_tieKey s)) (ls_amountMinor s)" by auto
  have tw: "total_weight (component_weights cs) = sum_list (map ac_weightMinor cs)"
    by (simp add: total_weight_def component_weights_def comp_def)
  have cap: "\<bar>a\<bar> \<le> sum_list (map ac_weightMinor cs) \<Longrightarrow>
      \<bar>ls_amountMinor s\<bar> \<le> ac_weightMinor (component_for cs (ls_tieKey s))"
    using lr.alloc_capacity [OF run s] d unfolding tw
    by (auto simp: component_weights_def component_for_key)
  have ident: "\<bar>a\<bar> = sum_list (map ac_weightMinor cs) \<Longrightarrow>
      ls_amountMinor s = (if a < 0 then - ac_weightMinor (component_for cs (ls_tieKey s))
        else ac_weightMinor (component_for cs (ls_tieKey s)))"
    using lr.alloc_identity [OF run s] d unfolding tw
    by (auto simp: component_weights_def component_for_key)
  show ?thesis
    using that [of "component_for cs (ls_tieKey s)"] cf [OF s] lr.alloc_bound [OF run s] cap ident i
    by simp
qed

lemma allocateComponents_complete:
  assumes "allocateComponents a cur cs = Inr items" and "\<exists>c \<in> set cs. ac_tieBreakKey c = k \<and> 0 < ac_weightMinor c"
  shows "\<exists>i \<in> set items. ai_tieBreakKey i = k"
proof -
  from assms(1) obtain ss where run: "allocateSignedLargestRemainder a (component_weights cs) = Inr ss"
    and items: "items = map (\<lambda>s. component_item cur (component_for cs (ls_tieKey s)) (ls_amountMinor s)) ss"
    and cf: "\<forall>s \<in> set ss. ac_tieBreakKey (component_for cs (ls_tieKey s)) = ls_tieKey s"
    using allocateComponents_Inr_ex by blast
  have "\<exists>w \<in> set (component_weights cs). lw_tieKey w = k \<and> 0 < lw_weightMinor w"
    using assms(2) by (auto simp: component_weights_def)
  then have "k \<in> ls_tieKey ` set ss" using lr.alloc_complete [OF run] by blast
  with cf items show ?thesis by force
qed

lemma allocateComponents_wf:
  assumes "allocateComponents a cur cs = Inr items" and "currency_code cur"
    and ids: "\<And>c. c \<in> set cs \<Longrightarrow> 0 < ac_weightMinor c \<Longrightarrow> ac_orderItemId c \<noteq> []"
    and inj: "inj_on (\<lambda>c. (ac_orderItemId c, ac_component c)) (set cs)"
  shows "wf_items cur items"
proof -
  from assms(1) obtain ss where run: "allocateSignedLargestRemainder a (component_weights cs) = Inr ss"
    and items: "items = map (\<lambda>s. component_item cur (component_for cs (ls_tieKey s)) (ls_amountMinor s)) ss"
    and cf: "\<And>s. s \<in> set ss \<Longrightarrow> component_for cs (ls_tieKey s) \<in> set cs \<and>
      ac_tieBreakKey (component_for cs (ls_tieKey s)) = ls_tieKey s \<and>
      0 < ac_weightMinor (component_for cs (ls_tieKey s))"
    using allocateComponents_Inr_ex by blast
  have keys: "ls_tieKey s \<noteq> []" if "s \<in> set ss" for s
    using lr.alloc_origin [OF run that] lr.alloc_valid [OF run] by (auto simp: valid_weights_def)
  show ?thesis
    unfolding items
  proof (rule lr.wf_items_labelled [OF run assms(2)])
    fix s assume s: "s \<in> set ss"
    show "ai_effectMinor (component_item cur (component_for cs (ls_tieKey s)) (ls_amountMinor s))
        = ls_amountMinor s \<and>
      ai_currency (component_item cur (component_for cs (ls_tieKey s)) (ls_amountMinor s)) = cur \<and>
      ai_orderItemId (component_item cur (component_for cs (ls_tieKey s)) (ls_amountMinor s)) \<noteq> [] \<and>
      ai_tieBreakKey (component_item cur (component_for cs (ls_tieKey s)) (ls_amountMinor s)) \<noteq> []"
      using cf [OF s] ids [of "component_for cs (ls_tieKey s)"] keys [OF s] by simp
  next
    fix s t assume st: "s \<in> set ss" "t \<in> set ss"
    show "ls_tieKey s = ls_tieKey t"
      if "ai_tieBreakKey (component_item cur (component_for cs (ls_tieKey s)) (ls_amountMinor s)) =
          ai_tieBreakKey (component_item cur (component_for cs (ls_tieKey t)) (ls_amountMinor t))"
      using that cf [OF st(1)] cf [OF st(2)] by simp
    show "ls_tieKey s = ls_tieKey t"
      if "ai_orderItemId (component_item cur (component_for cs (ls_tieKey s)) (ls_amountMinor s)) =
          ai_orderItemId (component_item cur (component_for cs (ls_tieKey t)) (ls_amountMinor t))"
        and "ai_component (component_item cur (component_for cs (ls_tieKey s)) (ls_amountMinor s)) =
          ai_component (component_item cur (component_for cs (ls_tieKey t)) (ls_amountMinor t))"
    proof -
      have "component_for cs (ls_tieKey s) = component_for cs (ls_tieKey t)"
        using that cf [OF st(1)] cf [OF st(2)] by (intro inj_onD [OF inj]) simp_all
      then show ?thesis using cf [OF st(1)] cf [OF st(2)] by metis
    qed
  qed
qed

lemma allocateComponents_succeeds:
  assumes "safe_integer a" and "distinct (map ac_tieBreakKey cs)"
    and "\<And>c. c \<in> set cs \<Longrightarrow> ac_tieBreakKey c \<noteq> [] \<and> safe_integer (ac_weightMinor c) \<and> 0 \<le> ac_weightMinor c"
    and "a = 0 \<or> (\<exists>c \<in> set cs. 0 < ac_weightMinor c)"
  shows "\<exists>items. allocateComponents a cur cs = Inr items"
proof -
  have "valid_weights (component_weights cs)"
    using assms(2,3) by (auto simp: valid_weights_def component_weights_def comp_def)
  moreover have "a = 0 \<or> (\<exists>w \<in> set (component_weights cs). 0 < lw_weightMinor w)"
    using assms(4) by (auto simp: component_weights_def)
  ultimately obtain ss where "allocateSignedLargestRemainder a (component_weights cs) = Inr ss"
    using lr.alloc_succeeds [OF assms(1)] by blast
  then show ?thesis by (simp add: allocateComponents_eq)
qed

section \<open>Allocation of fees\<close>

definition fee_component_totals :: "fee_detail list \<Rightarrow> (fin_component \<times> int) list" where
  "fee_component_totals ds = fold (\<lambda>d. accumulate (fd_component d) (fd_amountMinor d)) ds []"

definition fees_total :: "fee_detail list \<Rightarrow> int" where
  "fees_total ds = sum_list (map fd_amountMinor ds)"

lemma fee_amounts_from:
  "rfold (\<lambda>detail amounts. rbind (assertSafeMoney (fd_amountMinor detail)) (\<lambda>_.
       Inr (accumulate (fd_component detail) (fd_amountMinor detail) amounts))) ds m0 = Inr m \<longleftrightarrow>
   (\<forall>d \<in> set ds. safe_integer (fd_amountMinor d)) \<and>
   m = fold (\<lambda>d. accumulate (fd_component d) (fd_amountMinor d)) ds m0"
  by (induction ds arbitrary: m0) (auto simp: result_simps)

lemma fee_amounts_Inr:
  "fee_amounts ds = Inr m \<longleftrightarrow>
     (\<forall>d \<in> set ds. safe_integer (fd_amountMinor d)) \<and> m = fee_component_totals ds"
  unfolding fee_amounts_def fee_component_totals_def by (rule fee_amounts_from)

lemma fold_accumulate:
  "distinct (map fst m) \<Longrightarrow>
     distinct (map fst (fold (\<lambda>d. accumulate (fd_component d) (fd_amountMinor d)) ds m)) \<and>
     sum_list (map snd (fold (\<lambda>d. accumulate (fd_component d) (fd_amountMinor d)) ds m)) =
       sum_list (map snd m) + fees_total ds"
  by (induction ds arbitrary: m) (auto simp: sum_accumulate fees_total_def)

lemma fee_component_totals_simps [simp]:
  "distinct (map fst (fee_component_totals ds))"
  "sum_list (map snd (fee_component_totals ds)) = fees_total ds"
  using fold_accumulate [of "[]" ds] by (auto simp: fee_component_totals_def)

lemma fee_component_items_Inr:
  assumes "fee_component_items cur ew (c, a) = Inr p" and "currency_code cur"
  shows "wf_items cur p \<and> items_total p = a \<and>
    (\<forall>i \<in> set p. ai_component i = c \<and> ai_orderItemId i \<in> fw_orderItemId ` set ew \<and>
       ai_tieBreakKey i = ai_orderItemId i @ '':'' @ component_name c \<and> 0 \<le> ai_effectMinor i * sgn a)"
proof -
  let ?ws = "map (\<lambda>w. \<lparr>lw_tieKey = fw_orderItemId w, lw_weightMinor = fw_subtotalMinor w\<rparr>) ew"
  let ?mk = "\<lambda>s. \<lparr>ai_orderItemId = ls_tieKey s, ai_component = c, ai_effectMinor = ls_amountMinor s,
    ai_currency = cur, ai_tieBreakKey = ls_tieKey s @ '':'' @ component_name c\<rparr>"
  from assms(1) obtain ss where run: "allocateSignedLargestRemainder a ?ws = Inr ss"
    and p: "p = map ?mk ss"
    by (auto simp: fee_component_items_def result_simps split: if_splits)
  have origin: "ls_tieKey s \<in> fw_orderItemId ` set ew \<and> ls_tieKey s \<noteq> []" if "s \<in> set ss" for s
    using lr.alloc_origin [OF run that] lr.alloc_valid [OF run] by (auto simp: valid_weights_def)
  have "wf_items cur (map ?mk ss)"
    by (rule lr.wf_items_labelled [OF run assms(2)]) (use origin in auto)
  moreover have "items_total (map ?mk ss) = a"
    by (rule lr.items_total_labelled [OF run]) simp
  ultimately show ?thesis
    unfolding p using origin lr.alloc_bound [OF run] by auto
qed

lemma fee_parts_Inr:
  assumes "rmap (fee_component_items cur ew) m = Inr parts" and "distinct (map fst m)"
    and "currency_code cur"
  shows "wf_items cur (concat parts) \<and> items_total (concat parts) = sum_list (map snd m) \<and>
    (\<forall>i \<in> set (concat parts). ai_component i \<in> fst ` set m \<and>
       ai_orderItemId i \<in> fw_orderItemId ` set ew \<and>
       ai_tieBreakKey i = ai_orderItemId i @ '':'' @ component_name (ai_component i))"
  using assms(1,2)
proof (induction m arbitrary: parts)
  case Nil
  then show ?case using assms(3) by (simp add: wf_items_def)
next
  case (Cons e m)
  obtain c a where e: "e = (c, a)" by (cases e)
  from Cons.prems(1) e obtain p ps where p: "fee_component_items cur ew (c, a) = Inr p"
    and ps: "rmap (fee_component_items cur ew) m = Inr ps" and parts: "parts = p # ps"
    by (auto simp: rbind_eq_Inr)
  note hd = fee_component_items_Inr [OF p assms(3)]
  have tl: "wf_items cur (concat ps) \<and> items_total (concat ps) = sum_list (map snd m) \<and>
    (\<forall>i \<in> set (concat ps). ai_component i \<in> fst ` set m \<and>
       ai_orderItemId i \<in> fw_orderItemId ` set ew \<and>
       ai_tieBreakKey i = ai_orderItemId i @ '':'' @ component_name (ai_component i))"
    using Cons.IH [OF ps] Cons.prems(2) by simp
  have "c \<notin> fst ` set m" using Cons.prems(2) e by simp
  then have ne: "ai_component i \<noteq> ai_component j" if "i \<in> set p" "j \<in> set (concat ps)" for i j
    using hd tl that by metis
  have key: "ai_tieBreakKey i \<noteq> ai_tieBreakKey j" if "i \<in> set p" "j \<in> set (concat ps)" for i j
    using hd tl ne [OF that] that by (metis component_key_eq)
  have "wf_items cur (p @ concat ps)"
    by (rule wf_items_append) (use hd tl in blast, use hd tl in blast, rule key, assumption+,
      rule ne, assumption+)
  with hd tl show ?case by (auto simp: parts e)
qed

lemma allocateFeeDetails_Inr:
  assumes "allocateFeeDetails fee cur ws ds = Inr items"
  shows "wf_items cur items" and "items_total items = - fee" and "fees_total ds = - fee"
    and "0 \<le> fee"
    and "\<forall>i \<in> set items. ai_orderItemId i \<in> fw_orderItemId ` set ws"
proof -
  have cur: "currency_code cur" and nn: "0 \<le> fee" and tot: "fees_total ds = - fee"
    using assms by (auto simp: allocateFeeDetails_def result_simps fee_amounts_Inr split: if_splits)
  show "fees_total ds = - fee" "0 \<le> fee" by fact+
  have "wf_items cur items \<and> items_total items = - fee \<and>
    (\<forall>i \<in> set items. ai_orderItemId i \<in> fw_orderItemId ` set ws)"
  proof (cases "fee = 0")
    case True
    with assms cur show ?thesis
      by (auto simp: allocateFeeDetails_def result_simps wf_items_def split: if_splits)
  next
    case False
    with assms obtain parts where parts:
      "rmap (fee_component_items cur (effective_fee_weights ws)) (fee_component_totals ds) = Inr parts"
      "items = concat parts"
      by (auto simp: allocateFeeDetails_def rbind_eq_Inr fee_amounts_Inr Let_def split: if_splits)
    have "fw_orderItemId ` set (effective_fee_weights ws) \<subseteq> fw_orderItemId ` set ws"
      by (auto simp: effective_fee_weights_def Let_def split: list.splits if_splits)
    with fee_parts_Inr [OF parts(1) _ cur] parts(2) tot show ?thesis by auto
  qed
  then show "wf_items cur items" "items_total items = - fee"
    "\<forall>i \<in> set items. ai_orderItemId i \<in> fw_orderItemId ` set ws" by auto
qed

text \<open>Fees of a single component never raise the balance of an item.\<close>

lemma allocateFeeDetails_single:
  assumes run: "allocateFeeDetails fee cur ws ds = Inr items" and ds: "\<forall>d \<in> set ds. fd_component d = c"
  shows "\<forall>i \<in> set items. ai_component i = c \<and> ai_effectMinor i \<le> 0"
proof (cases "fee = 0")
  case True
  with run show ?thesis by (auto simp: allocateFeeDetails_def result_simps split: if_splits)
next
  case False
  let ?m = "fee_component_totals ds"
  have keys: "fst ` set ?m \<subseteq> {c}"
  proof
    fix k assume "k \<in> fst ` set ?m"
    then have "map_of ?m k \<noteq> None" by (simp add: map_of_eq_None_iff)
    then have "k \<in> fd_component ` set ds"
      unfolding fee_component_totals_def fold_accumulate_lookup by (auto split: if_splits)
    with ds show "k \<in> {c}" by auto
  qed
  have cur: "currency_code cur" and nn: "0 \<le> fee" and tot: "sum_list (map snd ?m) = - fee"
    using run by (auto simp: allocateFeeDetails_def result_simps fee_amounts_Inr split: if_splits)
  from run False obtain parts where parts: "rmap (fee_component_items cur (effective_fee_weights ws)) ?m = Inr parts"
    and items: "items = concat parts"
    by (auto simp: allocateFeeDetails_def result_simps fee_amounts_Inr Let_def split: if_splits)
  have d: "distinct (map fst ?m)" by simp
  have m: "?m = [] \<or> (\<exists>a. ?m = [(c, a)])"
  proof (cases ?m)
    case (Cons e es)
    have "fst e = c" using keys Cons by auto
    moreover have "es = []"
      using keys d Cons by (cases es) auto
    ultimately show ?thesis using Cons by (metis prod.collapse)
  qed simp
  then show ?thesis
  proof
    assume "\<exists>a. ?m = [(c, a)]"
    then obtain a where a: "?m = [(c, a)]" by blast
    then have "a \<le> 0" using tot nn by simp
    from parts a items have "fee_component_items cur (effective_fee_weights ws) (c, a) = Inr items"
      by (auto simp: rbind_eq_Inr)
    from fee_component_items_Inr [OF this cur] \<open>a \<le> 0\<close> show ?thesis
      using tot False a by (auto simp: sgn_if split: if_splits)
  qed (use parts items in simp)
qed

definition valid_fee_weights :: "string \<Rightarrow> fee_weight list \<Rightarrow> bool" where
  "valid_fee_weights cur ws \<longleftrightarrow> distinct (map fw_orderItemId ws) \<and>
     (\<forall>w \<in> set ws. safe_integer (fw_subtotalMinor w) \<and> 0 \<le> fw_subtotalMinor w \<and>
        fw_currency w = cur \<and> fw_orderItemId w \<noteq> []) \<and>
     ((\<exists>w \<in> set ws. 0 < fw_subtotalMinor w) \<or> length ws = 1)"

definition valid_fee_details :: "int \<Rightarrow> fee_detail list \<Rightarrow> bool" where
  "valid_fee_details fee ds \<longleftrightarrow> (\<forall>d \<in> set ds. safe_integer (fd_amountMinor d)) \<and>
     fees_total ds = - fee \<and> (\<forall>e \<in> set (fee_component_totals ds). safe_integer (snd e))"

lemma effective_fee_weights_valid:
  assumes "valid_fee_weights cur ws"
  shows "effective_fee_weights ws \<noteq> []"
    and "distinct (map fw_orderItemId (effective_fee_weights ws))"
    and "\<forall>w \<in> set (effective_fee_weights ws). safe_integer (fw_subtotalMinor w) \<and>
      0 < fw_subtotalMinor w \<and> fw_orderItemId w \<noteq> []"
proof -
  show "effective_fee_weights ws \<noteq> []"
    using assms
    by (auto simp: valid_fee_weights_def effective_fee_weights_def Let_def filter_empty_conv
        length_Suc_conv split: list.splits)
  show "distinct (map fw_orderItemId (effective_fee_weights ws))"
    using assms
    by (auto simp: valid_fee_weights_def effective_fee_weights_def Let_def distinct_map inj_on_def
        split: list.splits)
  show "\<forall>w \<in> set (effective_fee_weights ws). safe_integer (fw_subtotalMinor w) \<and>
      0 < fw_subtotalMinor w \<and> fw_orderItemId w \<noteq> []"
    using assms
    by (auto simp: valid_fee_weights_def effective_fee_weights_def Let_def safe_integer_def
        split: list.splits if_splits)
qed

lemma fee_component_items_succeeds:
  assumes "valid_fee_weights cur ws" and "safe_integer a"
  shows "\<exists>p. fee_component_items cur (effective_fee_weights ws) (c, a) = Inr p"
proof -
  let ?ws = "map (\<lambda>w. \<lparr>lw_tieKey = fw_orderItemId w, lw_weightMinor = fw_subtotalMinor w\<rparr>)
    (effective_fee_weights ws)"
  note e = effective_fee_weights_valid [OF assms(1)]
  have "valid_weights ?ws" using e by (auto simp: valid_weights_def comp_def)
  moreover have "\<exists>w \<in> set ?ws. 0 < lw_weightMinor w"
    using e by (cases "effective_fee_weights ws") auto
  ultimately obtain ss where "allocateSignedLargestRemainder a ?ws = Inr ss"
    using lr.alloc_succeeds [OF assms(2)] by blast
  then show ?thesis using assms(2) by (simp add: fee_component_items_def)
qed

lemma rmap_succeeds: "(\<And>x. x \<in> set xs \<Longrightarrow> \<exists>y. f x = Inr y) \<Longrightarrow> \<exists>ys. rmap f xs = Inr ys"
  by (induction xs) (auto, metis list.set_intros rbind_Inr)

lemma allocateFeeDetails_succeeds:
  assumes "safe_integer fee" and "currency_code cur" and "0 \<le> fee"
    and "valid_fee_details fee ds" and fw: "fee \<noteq> 0 \<Longrightarrow> valid_fee_weights cur ws"
  shows "\<exists>items. allocateFeeDetails fee cur ws ds = Inr items"
proof -
  have am: "fee_amounts ds = Inr (fee_component_totals ds)"
    using assms(4) by (simp add: fee_amounts_Inr valid_fee_details_def)
  have tot: "sum_list (map snd (fee_component_totals ds)) = - fee"
    using assms(4) by (simp add: valid_fee_details_def)
  show ?thesis
  proof (cases "fee = 0")
    case True
    with assms(1,2) am tot show ?thesis
      by (auto simp: allocateFeeDetails_def assertSafeMoney_ok assertCurrency_ok)
  next
    case False
    note ws = fw [OF False]
    have chk: "rall (fee_weight_check cur) ws = Inr ()"
      using assms(2) ws by (auto simp: rall_eq_Inr fee_weight_check_def valid_fee_weights_def
          assertSafeMoney_def assertCurrency_def)
    have "\<exists>parts. rmap (fee_component_items cur (effective_fee_weights ws)) (fee_component_totals ds)
        = Inr parts"
    proof (rule rmap_succeeds)
      fix e assume "e \<in> set (fee_component_totals ds)"
      then have "safe_integer (snd e)" using assms(4) by (simp add: valid_fee_details_def)
      then show "\<exists>p. fee_component_items cur (effective_fee_weights ws) e = Inr p"
        using fee_component_items_succeeds [OF ws, of "snd e" "fst e"] by simp
    qed
    then show ?thesis
      using assms(1,2,3) am chk tot effective_fee_weights_valid(1) [OF ws]
      by (auto simp: allocateFeeDetails_def assertSafeMoney_ok assertCurrency_ok Let_def)
  qed
qed

section \<open>Plans\<close>

lemma basePlan_Inr:
  assumes "basePlan input basis scope e items rv = Inr plan"
  shows "valid_metadata input" "ap_items plan = items" "ap_scope plan = scope" "ap_basis plan = basis"
    "ap_expectedEffectMinor plan = e" "ap_currency plan = am_settlementCurrency input"
    "ap_reversalOfSetId plan = rv" "ap_balanceTransactionId plan = am_balanceTransactionId input"
    "ap_algorithmVersion plan = am_algorithmVersion input"
    "assertAllocationPlanConserves plan = Inr ()"
  using assms by (auto simp: basePlan_def Let_def rbind_eq_Inr)

lemma basePlan_title_Inr:
  assumes "basePlan input basis Title_scope e items rv = Inr plan"
  shows "items_total items = e" and "wf_items (am_settlementCurrency input) items"
  using basePlan_Inr [OF assms] by (auto simp: conserves_Inr)

lemma basePlan_title_succeeds:
  assumes "valid_metadata input" and "safe_integer e"
    and "wf_items (am_settlementCurrency input) items" and "items_total items = e"
  shows "\<exists>plan. basePlan input basis Title_scope e items rv = Inr plan"
proof -
  have "assertAllocationPlanConserves p = Inr ()"
    if "ap_currency p = am_settlementCurrency input" "ap_expectedEffectMinor p = e"
      "ap_scope p = Title_scope" "ap_items p = items" for p
    using assms that by (simp add: conserves_Inr valid_metadata_def)
  then show ?thesis
    using assms(1,2) by (simp add: basePlan_def Let_def assertSafeMoney_ok assertMetadata_ok)
qed

lemma planWeights_from:
  "rfold (\<lambda>item rows.
       if ai_tieBreakKey item \<in> ac_tieBreakKey ` set rows then Inl Allocation_mismatch
       else Inr (rows @ [\<lparr>ac_orderItemId = ai_orderItemId item, ac_component = ai_component item,
              ac_weightMinor = \<bar>ai_effectMinor item\<bar>, ac_tieBreakKey = ai_tieBreakKey item\<rparr>]))
     items rows0 =
   (if distinct (map ai_tieBreakKey items) \<and>
       ai_tieBreakKey ` set items \<inter> ac_tieBreakKey ` set rows0 = {}
    then Inr (rows0 @ map (\<lambda>item. \<lparr>ac_orderItemId = ai_orderItemId item,
      ac_component = ai_component item, ac_weightMinor = \<bar>ai_effectMinor item\<bar>,
      ac_tieBreakKey = ai_tieBreakKey item\<rparr>) items)
    else Inl Allocation_mismatch)"
  by (induction items arbitrary: rows0) auto

definition plan_weights :: "allocation_item list \<Rightarrow> alloc_component list" where
  "plan_weights items = map (\<lambda>item. \<lparr>ac_orderItemId = ai_orderItemId item,
      ac_component = ai_component item, ac_weightMinor = \<bar>ai_effectMinor item\<bar>,
      ac_tieBreakKey = ai_tieBreakKey item\<rparr>) items"

lemma planWeights_eq:
  "planWeights plan = (if distinct (map ai_tieBreakKey (ap_items plan))
     then Inr (plan_weights (ap_items plan)) else Inl Allocation_mismatch)"
  unfolding planWeights_def planWeights_from plan_weights_def by simp

section \<open>Subtotal and tax rows of order items\<close>

text \<open>
  The pair of components the builders make of an order item: a row for a non-zero subtotal and
  one for a non-zero tax, keyed \<^verbatim>\<open>id:subtotal\<close> and \<^verbatim>\<open>id:tax\<close>.
\<close>

definition component_pair ::
  "fin_component \<Rightarrow> fin_component \<Rightarrow> string \<Rightarrow> int \<Rightarrow> int \<Rightarrow> alloc_component list" where
  "component_pair subtotalComponent taxComponent orderItemId subtotalMinor taxMinor =
     (if subtotalMinor = 0 then []
      else [\<lparr>ac_orderItemId = orderItemId, ac_component = subtotalComponent,
             ac_weightMinor = subtotalMinor, ac_tieBreakKey = orderItemId @ '':subtotal''\<rparr>]) @
     (if taxMinor = 0 then []
      else [\<lparr>ac_orderItemId = orderItemId, ac_component = taxComponent,
             ac_weightMinor = taxMinor, ac_tieBreakKey = orderItemId @ '':tax''\<rparr>])"

definition component_rows ::
  "fin_component \<Rightarrow> fin_component \<Rightarrow> (string \<times> int \<times> int) list \<Rightarrow> alloc_component list" where
  "component_rows sc tc rows = concat (map (\<lambda>(i, s, t). component_pair sc tc i s t) rows)"

lemma tie_suffix_eq [simp]:
  "a @ '':subtotal'' = b @ '':subtotal'' \<longleftrightarrow> a = b" "a @ '':tax'' = b @ '':tax'' \<longleftrightarrow> a = b"
  "a @ '':subtotal'' \<noteq> b @ '':tax''" "b @ '':tax'' \<noteq> a @ '':subtotal''"
proof -
  show "a @ '':subtotal'' \<noteq> b @ '':tax''"
    using append_sep_eq [of a "CHR '':''" "''subtotal''" b "''tax''"] by auto
  then show "b @ '':tax'' \<noteq> a @ '':subtotal''" by metis
qed simp_all

lemma component_rows_simps [simp]:
  "component_rows sc tc [] = []"
  "component_rows sc tc ((i, s, t) # rows) = component_pair sc tc i s t @ component_rows sc tc rows"
  by (simp_all add: component_rows_def)

lemma component_pair_member:
  "c \<in> set (component_pair sc tc i s t) \<longleftrightarrow> ac_orderItemId c = i \<and>
     (s \<noteq> 0 \<and> ac_component c = sc \<and> ac_weightMinor c = s \<and> ac_tieBreakKey c = i @ '':subtotal'' \<or>
      t \<noteq> 0 \<and> ac_component c = tc \<and> ac_weightMinor c = t \<and> ac_tieBreakKey c = i @ '':tax'')"
  by (auto simp: component_pair_def)

lemma component_rows_member:
  "c \<in> set (component_rows sc tc rows) \<longleftrightarrow> (\<exists>(i, s, t) \<in> set rows. ac_orderItemId c = i \<and>
     (s \<noteq> 0 \<and> ac_component c = sc \<and> ac_weightMinor c = s \<and> ac_tieBreakKey c = i @ '':subtotal'' \<or>
      t \<noteq> 0 \<and> ac_component c = tc \<and> ac_weightMinor c = t \<and> ac_tieBreakKey c = i @ '':tax''))"
  unfolding component_rows_def by (auto simp: component_pair_member)

lemma component_rows_total:
  "sum_list (map ac_weightMinor (component_rows sc tc rows)) = sum_list (map (\<lambda>(i, s, t). s + t) rows)"
  by (induction rows) (auto simp: component_pair_def)

lemma component_rows_distinct:
  assumes "distinct (map fst rows)"
  shows "distinct (map ac_tieBreakKey (component_rows sc tc rows))"
  using assms
proof (induction rows)
  case (Cons r rows)
  obtain i s t where r: "r = (i, s, t)" by (cases r)
  have "ac_tieBreakKey c \<noteq> ac_tieBreakKey d"
    if c: "c \<in> set (component_pair sc tc i s t)" and d: "d \<in> set (component_rows sc tc rows)" for c d
  proof -
    from d have "ac_orderItemId d \<in> fst ` set rows" by (force simp: component_rows_member)
    then have "ac_orderItemId d \<noteq> i" using Cons.prems r by auto
    moreover from d have "ac_tieBreakKey d = ac_orderItemId d @ '':subtotal'' \<or>
        ac_tieBreakKey d = ac_orderItemId d @ '':tax''"
      by (auto simp: component_rows_member)
    ultimately show ?thesis using c by (auto simp: component_pair_member)
  qed
  then have "ac_tieBreakKey ` set (component_pair sc tc i s t) \<inter>
      ac_tieBreakKey ` set (component_rows sc tc rows) = {}" by blast
  moreover have "distinct (map ac_tieBreakKey (component_pair sc tc i s t))"
    by (simp add: component_pair_def)
  ultimately show ?case using Cons by (simp add: r)
qed simp

lemma component_rows_inj:
  assumes "distinct (map fst rows)" and "sc \<noteq> tc"
  shows "inj_on (\<lambda>c. (ac_orderItemId c, ac_component c)) (set (component_rows sc tc rows))"
proof (rule inj_onI)
  fix c d
  assume c: "c \<in> set (component_rows sc tc rows)" and d: "d \<in> set (component_rows sc tc rows)"
    and eq: "(ac_orderItemId c, ac_component c) = (ac_orderItemId d, ac_component d)"
  from c obtain i s t where 1: "(i, s, t) \<in> set rows" "ac_orderItemId c = i"
    "s \<noteq> 0 \<and> ac_component c = sc \<and> ac_weightMinor c = s \<and> ac_tieBreakKey c = i @ '':subtotal'' \<or>
      t \<noteq> 0 \<and> ac_component c = tc \<and> ac_weightMinor c = t \<and> ac_tieBreakKey c = i @ '':tax''"
    by (auto simp: component_rows_member)
  from d obtain i' s' t' where 2: "(i', s', t') \<in> set rows" "ac_orderItemId d = i'"
    "s' \<noteq> 0 \<and> ac_component d = sc \<and> ac_weightMinor d = s' \<and> ac_tieBreakKey d = i' @ '':subtotal'' \<or>
      t' \<noteq> 0 \<and> ac_component d = tc \<and> ac_weightMinor d = t' \<and> ac_tieBreakKey d = i' @ '':tax''"
    by (auto simp: component_rows_member)
  have "(s, t) = (s', t')"
    using 1(1,2) 2(1,2) eq assms(1) by (metis Pair_inject eq_key_imp_eq_value)
  with 1 2 eq assms(2) show "c = d" by (auto intro: alloc_component.equality)
qed

definition valid_rows :: "(string \<times> int \<times> int) list \<Rightarrow> bool" where
  "valid_rows rows \<longleftrightarrow> distinct (map fst rows) \<and>
     (\<forall>(i, s, t) \<in> set rows. i \<noteq> [] \<and> 0 \<le> s \<and> 0 \<le> t \<and> safe_integer s \<and> safe_integer t)"

lemma component_rows_positive:
  "valid_rows rows \<Longrightarrow> c \<in> set (component_rows sc tc rows) \<Longrightarrow>
     0 < ac_weightMinor c \<and> safe_integer (ac_weightMinor c) \<and> ac_orderItemId c \<noteq> [] \<and>
     ac_tieBreakKey c \<noteq> []"
  by (auto simp: component_rows_member valid_rows_def order_less_le)

text \<open>Splitting over such rows succeeds, and the items conserve and are well formed.\<close>

lemma allocate_rows_succeeds:
  assumes "safe_integer a" and "valid_rows rows" and "a = 0 \<or> component_rows sc tc rows \<noteq> []"
  shows "\<exists>items. allocateComponents a cur (component_rows sc tc rows) = Inr items"
proof (rule allocateComponents_succeeds [OF assms(1)])
  show "distinct (map ac_tieBreakKey (component_rows sc tc rows))"
    using assms(2) by (simp add: valid_rows_def component_rows_distinct)
  show "a = 0 \<or> (\<exists>c \<in> set (component_rows sc tc rows). 0 < ac_weightMinor c)"
    using assms(2,3) component_rows_positive
    by (cases "component_rows sc tc rows") (auto, metis list.set_intros(1))
qed (use component_rows_positive [OF assms(2)] in \<open>auto simp: order_less_imp_le\<close>)

lemma allocate_rows_wf:
  assumes "allocateComponents a cur (component_rows sc tc rows) = Inr items"
    and "currency_code cur" and "valid_rows rows" and "sc \<noteq> tc"
  shows "wf_items cur items"
  using assms component_rows_positive [OF assms(3)]
  by (intro allocateComponents_wf [OF assms(1,2)] component_rows_inj) (auto simp: valid_rows_def)

end
