(* ===== verification/ChargePlan.thy ===== *)
theory ChargePlan
  imports AllocCommon
begin

text \<open>
  \<^verbatim>\<open>allocations/charge.ts\<close>: the plans of a payment. The gross amount goes to the subtotal and
  tax of every order item, the provider fee to the items by subtotal.
\<close>

record charge_item =
  ci_orderItemId :: string
  ci_subtotalMinor :: int
  ci_taxMinor :: int
  ci_presentmentCurrency :: string

record charge_input =
  ch_metadata :: allocation_metadata
  ch_items :: "charge_item list"
  ch_feeDetails :: "fee_detail list"

definition charge_item_components :: "charge_item \<Rightarrow> alloc_component list fin" where
  "charge_item_components item =
     rbind (assertCurrency (ci_presentmentCurrency item)) (\<lambda>_.
     rbind (throw_if (ci_orderItemId item = [] \<or> ci_subtotalMinor item < 0 \<or> ci_taxMinor item < 0)
       Allocation_mismatch) (\<lambda>_.
     rbind (assertSafeMoney (ci_subtotalMinor item)) (\<lambda>_.
     rbind (assertSafeMoney (ci_taxMinor item)) (\<lambda>_.
     Inr (component_pair Sale_subtotal Sale_tax (ci_orderItemId item) (ci_subtotalMinor item)
       (ci_taxMinor item))))))"

definition charge_fee_weights :: "charge_input \<Rightarrow> fee_weight list" where
  "charge_fee_weights inp = map (\<lambda>item. \<lparr>fw_orderItemId = ci_orderItemId item,
     fw_subtotalMinor = ci_subtotalMinor item,
     fw_currency = am_settlementCurrency (ch_metadata inp)\<rparr>) (ch_items inp)"

definition buildChargeAllocationPlan :: "charge_input \<Rightarrow> plan_bundle fin" where
  "buildChargeAllocationPlan input =
     (let m = ch_metadata input; items = ch_items input in
      rbind (assertCurrency (am_settlementCurrency m)) (\<lambda>_.
      rbind (assertSafeMoney (am_amountMinor m)) (\<lambda>_.
      rbind (assertSafeMoney (am_feeMinor m)) (\<lambda>_.
      rbind (assertSafeMoney (am_netMinor m)) (\<lambda>_.
      rbind (throw_if (am_amountMinor m < 0 \<or> am_feeMinor m < 0 \<or> items = [])
        Allocation_mismatch) (\<lambda>_.
      rbind (throw_if (am_amountMinor m - am_feeMinor m \<noteq> am_netMinor m)
        Allocation_mismatch) (\<lambda>_.
      rbind (rmap charge_item_components items) (\<lambda>components.
      let grossComponents = concat components;
          presentmentCurrencies = remdups (map ci_presentmentCurrency items) in
      rbind (throw_if (length presentmentCurrencies \<noteq> 1) Currency_mismatch) (\<lambda>_.
      rbind (throw_if (hd presentmentCurrencies = am_settlementCurrency m \<and>
          sum_list (map ac_weightMinor grossComponents) \<noteq> am_amountMinor m)
        Allocation_mismatch) (\<lambda>_.
      rbind (if am_amountMinor m = 0 then Inr []
             else allocateComponents (am_amountMinor m) (am_settlementCurrency m) grossComponents)
        (\<lambda>grossItems.
      rbind (allocateFeeDetails (am_feeMinor m) (am_settlementCurrency m)
          (charge_fee_weights input)
          (ch_feeDetails input)) (\<lambda>feeItems.
      rbind (basePlan m Gross_amount Title_scope (am_amountMinor m) grossItems None) (\<lambda>gross.
      rbind (basePlan m Fee_basis Title_scope
          (if am_feeMinor m = 0 then 0 else - am_feeMinor m) feeItems None) (\<lambda>fee.
      Inr (gross, fee)))))))))))))))"

section \<open>Components of the items\<close>

definition charge_rows :: "charge_item list \<Rightarrow> (string \<times> int \<times> int) list" where
  "charge_rows items =
     map (\<lambda>i. (ci_orderItemId i, ci_subtotalMinor i, ci_taxMinor i)) items"

definition valid_charge_items :: "charge_item list \<Rightarrow> bool" where
  "valid_charge_items items \<longleftrightarrow>
     (\<forall>i \<in> set items. currency_code (ci_presentmentCurrency i) \<and> ci_orderItemId i \<noteq> [] \<and>
        0 \<le> ci_subtotalMinor i \<and> 0 \<le> ci_taxMinor i \<and>
        safe_integer (ci_subtotalMinor i) \<and> safe_integer (ci_taxMinor i))"

lemma charge_components_Inr:
  "rmap charge_item_components items = Inr cs \<Longrightarrow>
     valid_charge_items items \<and> concat cs = component_rows Sale_subtotal Sale_tax (charge_rows items)"
  by (induction items arbitrary: cs)
    (auto simp: rbind_eq_Inr charge_item_components_def charge_rows_def valid_charge_items_def
      split: if_splits)

lemma charge_components_ok:
  "valid_charge_items items \<Longrightarrow> \<exists>cs. rmap charge_item_components items = Inr cs \<and>
     concat cs = component_rows Sale_subtotal Sale_tax (charge_rows items)"
  by (induction items)
    (auto simp: charge_item_components_def charge_rows_def valid_charge_items_def
      assertSafeMoney_ok assertCurrency_ok)

lemma charge_rows_valid:
  "valid_charge_items items \<Longrightarrow> distinct (map ci_orderItemId items) \<Longrightarrow> valid_rows (charge_rows items)"
  by (auto simp: valid_charge_items_def valid_rows_def charge_rows_def comp_def)

lemma charge_rows_keys [simp]: "map fst (charge_rows items) = map ci_orderItemId items"
  by (simp add: charge_rows_def comp_def)

section \<open>What a successful call has checked\<close>

lemma remdups_single:
  "length (remdups xs) = 1 \<longleftrightarrow> xs \<noteq> [] \<and> (\<forall>x \<in> set xs. x = hd xs)"
proof
  assume "length (remdups xs) = 1"
  then obtain y where "remdups xs = [y]" by (auto simp: length_Suc_conv)
  then have "set xs = {y}" by (metis list.simps(15) set_empty2 set_remdups empty_set)
  then show "xs \<noteq> [] \<and> (\<forall>x \<in> set xs. x = hd xs)"
    by (metis empty_iff hd_in_set list.set(1) singletonD insertI1)
next
  assume "xs \<noteq> [] \<and> (\<forall>x \<in> set xs. x = hd xs)"
  then have "set xs = {hd xs}" by (metis hd_in_set subset_singletonD subsetI singletonI empty_iff
    set_empty)
  then show "length (remdups xs) = 1" by (simp add: length_remdups_card_conv)
qed

lemma hd_remdups_single: "length (remdups xs) = 1 \<Longrightarrow> hd (remdups xs) = hd xs"
  by (metis remdups_single hd_in_set length_0_conv set_remdups zero_neq_one)

lemma charge_Inr:
  assumes "buildChargeAllocationPlan inp = Inr (gross, fee)"
  shows "0 \<le> am_amountMinor (ch_metadata inp)" and "valid_charge_items (ch_items inp)"
    and "ci_presentmentCurrency (hd (ch_items inp)) = am_settlementCurrency (ch_metadata inp) \<Longrightarrow>
      sum_list (map ac_weightMinor (component_rows Sale_subtotal Sale_tax (charge_rows (ch_items inp))))
        = am_amountMinor (ch_metadata inp)"
    and "am_amountMinor (ch_metadata inp) = 0 \<and> ap_items gross = [] \<or>
      allocateComponents (am_amountMinor (ch_metadata inp)) (am_settlementCurrency (ch_metadata inp))
        (component_rows Sale_subtotal Sale_tax (charge_rows (ch_items inp))) = Inr (ap_items gross)"
  using assms charge_components_Inr [of "ch_items inp"] hd_remdups_single
    [of "map ci_presentmentCurrency (ch_items inp)"]
  by (auto simp: buildChargeAllocationPlan_def Let_def rbind_eq_Inr hd_map
      dest!: basePlan_Inr(2) split: if_splits)

definition valid_charge :: "charge_input \<Rightarrow> bool" where
  "valid_charge inp \<longleftrightarrow>
     (let m = ch_metadata inp; items = ch_items inp in
      valid_metadata m \<and> 0 \<le> am_amountMinor m \<and> items \<noteq> [] \<and> valid_charge_items items \<and>
      distinct (map ci_orderItemId items) \<and>
      (\<forall>i \<in> set items. ci_presentmentCurrency i = ci_presentmentCurrency (hd items)) \<and>
      (ci_presentmentCurrency (hd items) = am_settlementCurrency m \<longrightarrow>
        sum_list (map (\<lambda>i. ci_subtotalMinor i + ci_taxMinor i) items) = am_amountMinor m) \<and>
      (am_amountMinor m = 0 \<or> (\<exists>i \<in> set items. ci_subtotalMinor i \<noteq> 0 \<or> ci_taxMinor i \<noteq> 0)) \<and>
      valid_fee_details (am_feeMinor m) (ch_feeDetails inp) \<and>
      (am_feeMinor m = 0 \<or> length items = 1 \<or> (\<exists>i \<in> set items. 0 < ci_subtotalMinor i)))"

lemma charge_succeeds:
  assumes v: "valid_charge inp"
  shows "\<exists>gross fee. buildChargeAllocationPlan inp = Inr (gross, fee) \<and>
    items_total (ap_items gross) = am_amountMinor (ch_metadata inp) \<and>
    items_total (ap_items fee) = - am_feeMinor (ch_metadata inp)"
proof -
  define m items where "m = ch_metadata inp" and "items = ch_items inp"
  let ?rows = "component_rows Sale_subtotal Sale_tax (charge_rows items)"
  note v = v [unfolded valid_charge_def Let_def, folded m_def items_def]
  have md: "valid_metadata m" and ne: "items \<noteq> []" and vi: "valid_charge_items items"
    and dist: "distinct (map ci_orderItemId items)" and nn: "0 \<le> am_amountMinor m"
    and exact: "ci_presentmentCurrency (hd items) = am_settlementCurrency m \<longrightarrow>
      sum_list (map (\<lambda>i. ci_subtotalMinor i + ci_taxMinor i) items) = am_amountMinor m"
    and some: "am_amountMinor m = 0 \<or> (\<exists>i \<in> set items. ci_subtotalMinor i \<noteq> 0 \<or> ci_taxMinor i \<noteq> 0)"
    and fd: "valid_fee_details (am_feeMinor m) (ch_feeDetails inp)"
    and fw: "am_feeMinor m = 0 \<or> length items = 1 \<or> (\<exists>i \<in> set items. 0 < ci_subtotalMinor i)"
    using v by blast+
  obtain cs where cs: "rmap charge_item_components items = Inr cs" "concat cs = ?rows"
    using charge_components_ok [OF vi] by blast
  have rows: "valid_rows (charge_rows items)" using vi dist by (rule charge_rows_valid)
  have single: "length (remdups (map ci_presentmentCurrency items)) = 1"
    unfolding remdups_single
  proof (intro conjI ballI)
    fix x assume "x \<in> set (map ci_presentmentCurrency items)"
    then obtain i where "i \<in> set items" "x = ci_presentmentCurrency i" by auto
    then show "x = hd (map ci_presentmentCurrency items)" using v ne by (metis hd_map)
  qed (use ne in simp)
  have hd1: "hd (remdups (map ci_presentmentCurrency items)) = ci_presentmentCurrency (hd items)"
    using hd_remdups_single [OF single] ne by (simp add: hd_map)
  have sumr: "sum_list (map ac_weightMinor ?rows) = sum_list (map (\<lambda>i. ci_subtotalMinor i + ci_taxMinor i) items)"
    by (simp add: component_rows_total charge_rows_def comp_def)
  have nonempty: "am_amountMinor m = 0 \<or> ?rows \<noteq> []"
    using some by (auto simp: charge_rows_def component_rows_def component_pair_def)
  have "\<exists>gi. (if am_amountMinor m = 0 then Inr []
      else allocateComponents (am_amountMinor m) (am_settlementCurrency m) ?rows) = Inr gi \<and>
      items_total gi = am_amountMinor m \<and> wf_items (am_settlementCurrency m) gi"
  proof (cases "am_amountMinor m = 0")
    case True
    then show ?thesis using md by (simp add: wf_items_def valid_metadata_def)
  next
    case False
    then obtain gi where "allocateComponents (am_amountMinor m) (am_settlementCurrency m) ?rows = Inr gi"
      using allocate_rows_succeeds [OF _ rows] nonempty md by (metis valid_metadata_def)
    with False show ?thesis
      using allocateComponents_total_effect allocate_rows_wf [OF _ _ rows] md
      by (auto simp: valid_metadata_def)
  qed
  then obtain gi where gi: "(if am_amountMinor m = 0 then Inr []
      else allocateComponents (am_amountMinor m) (am_settlementCurrency m) ?rows) = Inr gi"
    "items_total gi = am_amountMinor m" "wf_items (am_settlementCurrency m) gi" by blast
  have "valid_fee_weights (am_settlementCurrency m) (charge_fee_weights inp)" if "am_feeMinor m \<noteq> 0"
    using fw vi dist that
    by (auto simp: valid_fee_weights_def charge_fee_weights_def valid_charge_items_def comp_def
        m_def items_def)
  then obtain fi where fi: "allocateFeeDetails (am_feeMinor m) (am_settlementCurrency m)
      (charge_fee_weights inp) (ch_feeDetails inp) = Inr fi"
    using allocateFeeDetails_succeeds [of "am_feeMinor m", OF _ _ _ fd] md by (metis valid_metadata_def)
  obtain gross where gross: "basePlan m Gross_amount Title_scope (am_amountMinor m) gi None = Inr gross"
    using basePlan_title_succeeds [OF md _ gi(3,2)] md by (auto simp: valid_metadata_def)
  obtain fee where fee: "basePlan m Fee_basis Title_scope (- am_feeMinor m) fi None = Inr fee"
    using basePlan_title_succeeds [OF md _ allocateFeeDetails_Inr(1,2) [OF fi]] md
    by (auto simp: valid_metadata_def)
  have neg: "(if am_feeMinor m = 0 then 0 else - am_feeMinor m) = - am_feeMinor m" by simp
  have net: "am_amountMinor m - am_feeMinor m = am_netMinor m"
    and safe: "currency_code (am_settlementCurrency m)" "safe_integer (am_amountMinor m)"
      "safe_integer (am_feeMinor m)" "safe_integer (am_netMinor m)" "\<not> am_feeMinor m < 0"
    using md by (auto simp: valid_metadata_def)
  have "\<not> (ci_presentmentCurrency (hd items) = am_settlementCurrency m \<and>
      sum_list (map ac_weightMinor ?rows) \<noteq> am_amountMinor m)" using exact sumr by simp
  then have "buildChargeAllocationPlan inp = Inr (gross, fee)"
    unfolding buildChargeAllocationPlan_def Let_def m_def [symmetric] items_def [symmetric]
    using safe nn ne
    by (simp only: assertSafeMoney_ok assertCurrency_ok rbind_Inr rbind_throw_if if_False if_True
        simp_thms not_less [symmetric] cs single hd1 neg net gi(1) fi gross fee)
  then show ?thesis
    using basePlan_Inr(2) [OF gross] basePlan_Inr(2) [OF fee] gi(2) allocateFeeDetails_Inr(2) [OF fi]
    by (auto simp: m_def)
qed

section \<open>Properties\<close>

text \<open>
  A well-formed charge is always planned: no assertion inside the builder, and none of the
  conservation checks of the two finished plans, can reject it; the title-level effects of the
  gross plan add up to the amount, those of the fee plan to minus the fee, and together they are
  the net amount of the balance transaction.
\<close>

theorem charge_plan_total:
  assumes "valid_charge inp"
  shows "\<exists>gross fee. buildChargeAllocationPlan inp = Inr (gross, fee) \<and>
    items_total (ap_items gross) = am_amountMinor (ch_metadata inp) \<and>
    items_total (ap_items fee) = - am_feeMinor (ch_metadata inp) \<and>
    items_total (ap_items gross) + items_total (ap_items fee) = am_netMinor (ch_metadata inp)"
proof -
  have "am_netMinor (ch_metadata inp) = am_amountMinor (ch_metadata inp) - am_feeMinor (ch_metadata inp)"
    using assms by (simp add: valid_charge_def Let_def valid_metadata_def)
  with charge_succeeds [OF assms] show ?thesis by auto
qed

definition sample_metadata :: allocation_metadata where
  "sample_metadata = \<lparr>am_sourceKind = Payment_source, am_sourceId = ''src'',
     am_balanceTransactionId = ''txn'', am_allocationIdentityPrefix = ''alloc'',
     am_settlementCurrency = ''USD'', am_amountMinor = 1000, am_feeMinor = 59, am_netMinor = 941,
     am_sourceFingerprint = replicate 64 (CHR ''a''), am_algorithmVersion = 2,
     am_supersedesGrossSetId = None, am_supersedesFeeSetId = None\<rparr>"

definition sample_charge :: charge_input where
  "sample_charge = \<lparr>ch_metadata = sample_metadata,
     ch_items = [\<lparr>ci_orderItemId = ''b'', ci_subtotalMinor = 600, ci_taxMinor = 50,
                   ci_presentmentCurrency = ''USD''\<rparr>,
                 \<lparr>ci_orderItemId = ''a'', ci_subtotalMinor = 350, ci_taxMinor = 0,
                   ci_presentmentCurrency = ''USD''\<rparr>],
     ch_feeDetails = [\<lparr>fd_amountMinor = - 55, fd_component = Processing_fee\<rparr>,
                      \<lparr>fd_amountMinor = - 4, fd_component = Provider_fee_tax\<rparr>]\<rparr>"

lemma sample_charge_valid: "valid_charge sample_charge"
  by code_simp

theorem charge_plan_total_witness:
  "\<exists>gross fee. buildChargeAllocationPlan sample_charge = Inr (gross, fee) \<and>
     items_total (ap_items gross) + items_total (ap_items fee) = 941"
  using charge_plan_total [OF sample_charge_valid]
  by (auto simp: sample_charge_def sample_metadata_def)

text \<open>
  When the buyer paid in the settlement currency, the gross plan of a charge attributes to
  every order item exactly its own subtotal and its own tax: no rounding takes place.
\<close>

theorem charge_plan_same_currency_exact:
  assumes "buildChargeAllocationPlan inp = Inr (gross, fee)"
    and "ci_presentmentCurrency (hd (ch_items inp)) = am_settlementCurrency (ch_metadata inp)"
    and "i \<in> set (ap_items gross)"
  shows "\<exists>item \<in> set (ch_items inp). ai_orderItemId i = ci_orderItemId item \<and>
    (ai_component i = Sale_subtotal \<and> ai_effectMinor i = ci_subtotalMinor item \<or>
     ai_component i = Sale_tax \<and> ai_effectMinor i = ci_taxMinor item)"
proof -
  let ?rows = "component_rows Sale_subtotal Sale_tax (charge_rows (ch_items inp))"
  note d = charge_Inr [OF assms(1)]
  have run: "allocateComponents (am_amountMinor (ch_metadata inp))
      (am_settlementCurrency (ch_metadata inp)) ?rows = Inr (ap_items gross)"
    using d(4) assms(3) by auto
  obtain c where "c \<in> set ?rows" "ai_orderItemId i = ac_orderItemId c" "ai_component i = ac_component c"
    "ai_effectMinor i = ac_weightMinor c"
    by (rule allocateComponents_item [OF run assms(3)]) (use d(1) d(3) [OF assms(2)] in simp)
  then show ?thesis by (auto simp: component_rows_member charge_rows_def)
qed

theorem charge_plan_same_currency_exact_witness:
  "\<exists>item \<in> set (ch_items sample_charge). ''b'' = ci_orderItemId item \<and>
     (Sale_tax = Sale_subtotal \<and> 50 = ci_subtotalMinor item \<or>
      Sale_tax = Sale_tax \<and> 50 = ci_taxMinor item)"
proof -
  let ?i = "\<lparr>ai_orderItemId = ''b'', ai_component = Sale_tax, ai_effectMinor = 50,
    ai_currency = ''USD'', ai_tieBreakKey = ''b:tax''\<rparr>"
  obtain gross fee where run: "buildChargeAllocationPlan sample_charge = Inr (gross, fee)"
    using charge_succeeds [OF sample_charge_valid] by blast
  have "(case buildChargeAllocationPlan sample_charge of Inl _ \<Rightarrow> False
      | Inr (g, f) \<Rightarrow> ?i \<in> set (ap_items g))" by code_simp
  with run have i: "?i \<in> set (ap_items gross)" by simp
  have cur: "ci_presentmentCurrency (hd (ch_items sample_charge)) =
      am_settlementCurrency (ch_metadata sample_charge)" by code_simp
  show ?thesis using charge_plan_same_currency_exact [OF run cur i] by simp
qed

end
