(* ===== verification/Exposure.thy ===== *)
theory Exposure
  imports AllocCommon
begin

text \<open>
  \<^verbatim>\<open>allocations/exposure.ts\<close>: replaying the refunds and disputes of a payment in provider
  chronology to find what is left of each order item. The capacities the source mutates in
  place are the values of an insertion-ordered map. \<^verbatim>\<open>Date.parse\<close>, whose result outside the ISO
  format is left to the implementation, is the argument \<open>parseDate\<close> (\<open>None\<close> is \<^verbatim>\<open>NaN\<close>); every
  statement holds for every such function. Composite string keys with a NUL separator are tuples.
\<close>

record dispute_payment_item =
  dp_orderItemId :: string
  dp_subtotalMinor :: int
  dp_taxMinor :: int
  dp_presentmentCurrency :: string

record finalized_refund =
  fr_refundId :: string
  fr_providerRefundId :: string
  fr_providerCreatedAt :: string
  fr_componentId :: string
  fr_orderItemId :: string
  fr_subtotalMinor :: int
  fr_taxMinor :: int
  fr_presentmentCurrency :: string

datatype presentment_kind = Withdrawal | Reinstatement

text \<open>An effect not yet bound to a gross set has no \<open>pe_withdrawalSetId\<close>.\<close>

record presentment_effect =
  pe_allocationId :: string
  pe_withdrawalSetId :: "string option"
  pe_disputeId :: string
  pe_providerCreatedAt :: string
  pe_providerTransactionId :: string
  pe_orderItemId :: string
  pe_subtotalMinor :: int
  pe_taxMinor :: int
  pe_presentmentCurrency :: string
  pe_effect :: presentment_kind
  pe_reversalOfAllocationId :: "string option"

record chronology_key =
  ck_providerCreatedAtMs :: int
  ck_providerId :: string
  ck_sourceId :: string
  ck_rowId :: string

record exposure_input =
  ex_presentmentCurrency :: string
  ex_currentCreatedAt :: string
  ex_currentProviderId :: string
  ex_currentSourceId :: string
  ex_paymentItems :: "dispute_payment_item list"
  ex_finalizedRefunds :: "finalized_refund list"
  ex_priorPresentmentEffects :: "presentment_effect list"

type_synonym capacity_map = "(string \<times> int \<times> int) list"

record exposure_result =
  xr_capacity :: capacity_map
  xr_withdrawals :: "(string \<times> presentment_effect) list"
  xr_reversedWithdrawalIds :: "string set"

datatype exposure_event =
    Refund_event chronology_key finalized_refund
  | Dispute_event chronology_key presentment_effect

section \<open>Chronology\<close>

definition assertId :: "string \<Rightarrow> unit fin" where
  "assertId v = throw_if (v = []) Source_linkage_mismatch"

definition parseInstant :: "(string \<Rightarrow> int option) \<Rightarrow> string \<Rightarrow> int fin" where
  "parseInstant parseDate v =
     (case parseDate v of None \<Rightarrow> Inl Source_linkage_mismatch | Some instant \<Rightarrow> Inr instant)"

definition compareFinancialExposureChronology :: "chronology_key \<Rightarrow> chronology_key \<Rightarrow> int" where
  "compareFinancialExposureChronology left right =
     (if ck_providerCreatedAtMs left \<noteq> ck_providerCreatedAtMs right
      then (if ck_providerCreatedAtMs left < ck_providerCreatedAtMs right then - 1 else 1)
      else
        let providerOrder = compare_code_points (ck_providerId left) (ck_providerId right) in
        if providerOrder \<noteq> 0 then providerOrder
        else
          let sourceOrder = compare_code_points (ck_sourceId left) (ck_sourceId right) in
          if sourceOrder = 0 then compare_code_points (ck_rowId left) (ck_rowId right)
          else sourceOrder)"

fun event_chronology :: "exposure_event \<Rightarrow> chronology_key" where
  "event_chronology (Refund_event k r) = k"
| "event_chronology (Dispute_event k e) = k"

interpretation chronology: js_comparator compareFinancialExposureChronology
  by unfold_locales
    (auto simp: compareFinancialExposureChronology_def Let_def compare_code_points_le_iff
      split: if_splits)

interpretation event_order:
  js_comparator "\<lambda>l r. compareFinancialExposureChronology (event_chronology l) (event_chronology r)"
  by unfold_locales (use chronology.cmp_total chronology.cmp_trans in blast)+

section \<open>Validation\<close>

definition paymentCapacity :: "exposure_input \<Rightarrow> capacity_map fin" where
  "paymentCapacity input =
     rbind (rfold (\<lambda>item capacity.
       rbind (assertId (dp_orderItemId item)) (\<lambda>_.
       rbind (assertCurrency (dp_presentmentCurrency item)) (\<lambda>_.
       rbind (assertSafeMoney (dp_subtotalMinor item)) (\<lambda>_.
       rbind (assertSafeMoney (dp_taxMinor item)) (\<lambda>_.
       rbind (throw_if (dp_presentmentCurrency item \<noteq> ex_presentmentCurrency input \<or>
           dp_subtotalMinor item < 0 \<or> dp_taxMinor item < 0 \<or>
           map_of capacity (dp_orderItemId item) \<noteq> None) Allocation_mismatch) (\<lambda>_.
       Inr (AList.update (dp_orderItemId item) (dp_subtotalMinor item, dp_taxMinor item)
         capacity)))))))
       (ex_paymentItems input) []) (\<lambda>capacity.
     rbind (throw_if (capacity = []) Allocation_mismatch) (\<lambda>_. Inr capacity))"

definition refundKey ::
  "(string \<Rightarrow> int option) \<Rightarrow> finalized_refund \<Rightarrow> string \<Rightarrow> chronology_key fin" where
  "refundKey parseDate refund currency =
     rbind (assertId (fr_refundId refund)) (\<lambda>_.
     rbind (assertId (fr_providerRefundId refund)) (\<lambda>_.
     rbind (assertId (fr_componentId refund)) (\<lambda>_.
     rbind (assertId (fr_orderItemId refund)) (\<lambda>_.
     rbind (assertCurrency (fr_presentmentCurrency refund)) (\<lambda>_.
     rbind (assertSafeMoney (fr_subtotalMinor refund)) (\<lambda>_.
     rbind (assertSafeMoney (fr_taxMinor refund)) (\<lambda>_.
     rbind (throw_if (fr_presentmentCurrency refund \<noteq> currency \<or>
         fr_subtotalMinor refund < 0 \<or> fr_taxMinor refund < 0) Allocation_mismatch) (\<lambda>_.
     rbind (parseInstant parseDate (fr_providerCreatedAt refund)) (\<lambda>instant.
     Inr \<lparr>ck_providerCreatedAtMs = instant, ck_providerId = fr_providerRefundId refund,
          ck_sourceId = fr_refundId refund, ck_rowId = fr_componentId refund\<rparr>)))))))))"

definition disputeKey ::
  "(string \<Rightarrow> int option) \<Rightarrow> presentment_effect \<Rightarrow> string \<Rightarrow> chronology_key fin" where
  "disputeKey parseDate effect currency =
     rbind (assertId (pe_allocationId effect)) (\<lambda>_.
     rbind (case pe_withdrawalSetId effect of None \<Rightarrow> Inl Source_linkage_mismatch
            | Some s \<Rightarrow> assertId s) (\<lambda>_.
     rbind (assertId (pe_disputeId effect)) (\<lambda>_.
     rbind (assertId (pe_providerTransactionId effect)) (\<lambda>_.
     rbind (assertId (pe_orderItemId effect)) (\<lambda>_.
     rbind (assertCurrency (pe_presentmentCurrency effect)) (\<lambda>_.
     rbind (assertSafeMoney (pe_subtotalMinor effect)) (\<lambda>_.
     rbind (assertSafeMoney (pe_taxMinor effect)) (\<lambda>_.
     rbind (throw_if (pe_presentmentCurrency effect \<noteq> currency \<or>
         (pe_effect effect = Withdrawal \<and> (pe_subtotalMinor effect > 0 \<or> pe_taxMinor effect > 0 \<or>
            pe_reversalOfAllocationId effect \<noteq> None)) \<or>
         (pe_effect effect = Reinstatement \<and> (pe_subtotalMinor effect < 0 \<or> pe_taxMinor effect < 0 \<or>
            pe_reversalOfAllocationId effect \<in> {None, Some []})) \<or>
         pe_subtotalMinor effect + pe_taxMinor effect = 0) Allocation_mismatch) (\<lambda>_.
     rbind (parseInstant parseDate (pe_providerCreatedAt effect)) (\<lambda>instant.
     Inr \<lparr>ck_providerCreatedAtMs = instant, ck_providerId = pe_providerTransactionId effect,
          ck_sourceId = pe_disputeId effect, ck_rowId = pe_allocationId effect\<rparr>))))))))))"

section \<open>Replay\<close>

record refund_index =
  rx_componentIds :: "string set"
  rx_identityById :: "string \<rightharpoonup> int \<times> string"
  rx_sourceByProviderId :: "string \<rightharpoonup> string"
  rx_events :: "exposure_event list"

record dispute_index =
  dx_allocationIds :: "string set"
  dx_transactionKinds :: "string \<times> int \<times> string \<rightharpoonup> presentment_kind"
  dx_events :: "exposure_event list"

definition collectRefund ::
  "(string \<Rightarrow> int option) \<Rightarrow> string \<Rightarrow> chronology_key \<Rightarrow> finalized_refund \<Rightarrow>
   refund_index \<Rightarrow> refund_index fin" where
  "collectRefund parseDate currency current refund s =
     rbind (refundKey parseDate refund currency) (\<lambda>chronology.
     rbind (throw_if (compareFinancialExposureChronology chronology current \<ge> 0)
       Allocation_mismatch) (\<lambda>_.
     rbind (throw_if (fr_componentId refund \<in> rx_componentIds s) Allocation_mismatch) (\<lambda>_.
     let identity = (ck_providerCreatedAtMs chronology, fr_providerRefundId refund) in
     rbind (throw_if (rx_identityById s (fr_refundId refund) \<notin> {None, Some identity})
       Source_linkage_mismatch) (\<lambda>_.
     rbind (throw_if (rx_sourceByProviderId s (fr_providerRefundId refund)
         \<notin> {None, Some (fr_refundId refund)}) Source_linkage_mismatch) (\<lambda>_.
     Inr \<lparr>rx_componentIds = insert (fr_componentId refund) (rx_componentIds s),
          rx_identityById = (rx_identityById s)(fr_refundId refund \<mapsto> identity),
          rx_sourceByProviderId =
            (rx_sourceByProviderId s)(fr_providerRefundId refund \<mapsto> fr_refundId refund),
          rx_events = rx_events s @ [Refund_event chronology refund]\<rparr>)))))"

definition collectDispute ::
  "(string \<Rightarrow> int option) \<Rightarrow> string \<Rightarrow> chronology_key \<Rightarrow> presentment_effect \<Rightarrow>
   dispute_index \<Rightarrow> dispute_index fin" where
  "collectDispute parseDate currency current effect s =
     rbind (disputeKey parseDate effect currency) (\<lambda>chronology.
     rbind (throw_if (compareFinancialExposureChronology chronology current \<ge> 0)
       Source_linkage_mismatch) (\<lambda>_.
     rbind (throw_if (pe_allocationId effect \<in> dx_allocationIds s) Source_linkage_mismatch) (\<lambda>_.
     let transactionKey = (pe_disputeId effect, ck_providerCreatedAtMs chronology,
           pe_providerTransactionId effect) in
     rbind (throw_if (dx_transactionKinds s transactionKey \<notin> {None, Some (pe_effect effect)})
       Source_linkage_mismatch) (\<lambda>_.
     Inr \<lparr>dx_allocationIds = insert (pe_allocationId effect) (dx_allocationIds s),
          dx_transactionKinds = (dx_transactionKinds s)(transactionKey \<mapsto> pe_effect effect),
          dx_events = dx_events s @ [Dispute_event chronology effect]\<rparr>))))"

fun replayEvent :: "exposure_event \<Rightarrow> exposure_result \<Rightarrow> exposure_result fin" where
  "replayEvent (Refund_event k row) s =
     (case map_of (xr_capacity s) (fr_orderItemId row) of
        None \<Rightarrow> Inl Source_linkage_mismatch
      | Some (remainingSubtotal, remainingTax) \<Rightarrow>
          if fr_subtotalMinor row > remainingSubtotal \<or> fr_taxMinor row > remainingTax
          then Inl Allocation_mismatch
          else Inr (s\<lparr>xr_capacity := AList.update (fr_orderItemId row)
                 (remainingSubtotal - fr_subtotalMinor row, remainingTax - fr_taxMinor row)
                 (xr_capacity s)\<rparr>))"
| "replayEvent (Dispute_event k effect) s =
     (case map_of (xr_capacity s) (pe_orderItemId effect) of
        None \<Rightarrow> Inl Source_linkage_mismatch
      | Some (remainingSubtotal, remainingTax) \<Rightarrow>
          let moved = AList.update (pe_orderItemId effect)
                (remainingSubtotal + pe_subtotalMinor effect, remainingTax + pe_taxMinor effect)
                (xr_capacity s) in
          if pe_effect effect = Withdrawal then
            if pe_subtotalMinor effect < - remainingSubtotal \<or> pe_taxMinor effect < - remainingTax
            then Inl Allocation_mismatch
            else Inr (s\<lparr>xr_capacity := moved,
                   xr_withdrawals :=
                     AList.update (pe_allocationId effect) effect (xr_withdrawals s)\<rparr>)
          else
            (case map_of (xr_withdrawals s) (case pe_reversalOfAllocationId effect of
                 None \<Rightarrow> [] | Some a \<Rightarrow> a) of
               None \<Rightarrow> Inl Source_linkage_mismatch
             | Some original \<Rightarrow>
                 if pe_allocationId original \<in> xr_reversedWithdrawalIds s \<or>
                    pe_disputeId original \<noteq> pe_disputeId effect \<or>
                    pe_withdrawalSetId original \<noteq> pe_withdrawalSetId effect \<or>
                    pe_orderItemId original \<noteq> pe_orderItemId effect \<or>
                    pe_subtotalMinor effect > - pe_subtotalMinor original \<or>
                    pe_taxMinor effect > - pe_taxMinor original
                 then Inl Source_linkage_mismatch
                 else Inr (s\<lparr>xr_capacity := moved,
                        xr_reversedWithdrawalIds :=
                          insert (pe_allocationId original) (xr_reversedWithdrawalIds s)\<rparr>)))"

definition replayFinancialExposure ::
  "(string \<Rightarrow> int option) \<Rightarrow> exposure_input \<Rightarrow> exposure_result fin" where
  "replayFinancialExposure parseDate input =
     rbind (assertCurrency (ex_presentmentCurrency input)) (\<lambda>_.
     rbind (assertId (ex_currentProviderId input)) (\<lambda>_.
     rbind (assertId (ex_currentSourceId input)) (\<lambda>_.
     rbind (parseInstant parseDate (ex_currentCreatedAt input)) (\<lambda>currentMs.
     let current = \<lparr>ck_providerCreatedAtMs = currentMs, ck_providerId = ex_currentProviderId input,
           ck_sourceId = ex_currentSourceId input, ck_rowId = []\<rparr> in
     rbind (paymentCapacity input) (\<lambda>capacity.
     rbind (rfold (collectRefund parseDate (ex_presentmentCurrency input) current)
         (ex_finalizedRefunds input)
         \<lparr>rx_componentIds = {}, rx_identityById = Map.empty, rx_sourceByProviderId = Map.empty,
          rx_events = []\<rparr>) (\<lambda>refunds.
     rbind (rfold (collectDispute parseDate (ex_presentmentCurrency input) current)
         (ex_priorPresentmentEffects input)
         \<lparr>dx_allocationIds = {}, dx_transactionKinds = Map.empty, dx_events = []\<rparr>) (\<lambda>disputes.
     rfold replayEvent
       (js_sort (\<lambda>l r. compareFinancialExposureChronology (event_chronology l) (event_chronology r))
         (rx_events refunds @ dx_events disputes))
       \<lparr>xr_capacity = capacity, xr_withdrawals = [], xr_reversedWithdrawalIds = {}\<rparr>)))))))"

section \<open>What validation establishes\<close>

fun event_amounts :: "exposure_event \<Rightarrow> int \<times> int" where
  "event_amounts (Refund_event k r) = (- fr_subtotalMinor r, - fr_taxMinor r)"
| "event_amounts (Dispute_event k e) = (pe_subtotalMinor e, pe_taxMinor e)"

fun event_item :: "exposure_event \<Rightarrow> string" where
  "event_item (Refund_event k r) = fr_orderItemId r"
| "event_item (Dispute_event k e) = pe_orderItemId e"

fun event_source :: "exposure_event \<Rightarrow> finalized_refund + presentment_effect" where
  "event_source (Refund_event k r) = Inl r"
| "event_source (Dispute_event k e) = Inr e"

fun valid_event :: "exposure_event \<Rightarrow> bool" where
  "valid_event (Refund_event k r) \<longleftrightarrow> 0 \<le> fr_subtotalMinor r \<and> 0 \<le> fr_taxMinor r"
| "valid_event (Dispute_event k e) \<longleftrightarrow>
     (if pe_effect e = Withdrawal then pe_subtotalMinor e \<le> 0 \<and> pe_taxMinor e \<le> 0
      else 0 \<le> pe_subtotalMinor e \<and> 0 \<le> pe_taxMinor e \<and> pe_reversalOfAllocationId e \<noteq> None)"

definition paid_capacity :: "dispute_payment_item list \<Rightarrow> capacity_map" where
  "paid_capacity items = map (\<lambda>i. (dp_orderItemId i, dp_subtotalMinor i, dp_taxMinor i)) items"

lemma update_fresh: "map_of m k = None \<Longrightarrow> AList.update k v m = m @ [(k, v)]"
  by (induction m) (auto split: if_splits)

lemma paymentCapacity_from:
  assumes "rfold (\<lambda>item capacity.
       rbind (assertId (dp_orderItemId item)) (\<lambda>_.
       rbind (assertCurrency (dp_presentmentCurrency item)) (\<lambda>_.
       rbind (assertSafeMoney (dp_subtotalMinor item)) (\<lambda>_.
       rbind (assertSafeMoney (dp_taxMinor item)) (\<lambda>_.
       rbind (throw_if (dp_presentmentCurrency item \<noteq> cur \<or>
           dp_subtotalMinor item < 0 \<or> dp_taxMinor item < 0 \<or>
           map_of capacity (dp_orderItemId item) \<noteq> None) Allocation_mismatch) (\<lambda>_.
       Inr (AList.update (dp_orderItemId item) (dp_subtotalMinor item, dp_taxMinor item)
         capacity))))))) items m = Inr m'" and "distinct (map fst m)"
  shows "m' = m @ paid_capacity items \<and> distinct (map fst m') \<and>
    (\<forall>i \<in> set items. dp_orderItemId i \<noteq> [] \<and> 0 \<le> dp_subtotalMinor i \<and> 0 \<le> dp_taxMinor i \<and>
      safe_integer (dp_subtotalMinor i) \<and> safe_integer (dp_taxMinor i))"
  using assms
proof (induction items arbitrary: m)
  case Nil
  then show ?case by (simp add: paid_capacity_def)
next
  case (Cons i items)
  from Cons.prems(1) have fresh: "map_of m (dp_orderItemId i) = None"
    by (cases "map_of m (dp_orderItemId i)") (auto simp: rbind_eq_Inr split: if_splits)
  from Cons.prems(1) have ok: "dp_orderItemId i \<noteq> []" "0 \<le> dp_subtotalMinor i" "0 \<le> dp_taxMinor i"
      "safe_integer (dp_subtotalMinor i)" "safe_integer (dp_taxMinor i)"
    by (auto simp: rbind_eq_Inr assertId_def split: if_splits)
  have d: "distinct (map fst (m @ [(dp_orderItemId i, dp_subtotalMinor i, dp_taxMinor i)]))"
    using Cons.prems(2) fresh by (auto simp: map_of_eq_None_iff)
  from Cons.prems(1) Cons.IH [OF _ d] ok show ?case
    by (auto simp: rbind_eq_Inr update_fresh [OF fresh] paid_capacity_def split: if_splits) force
qed

lemma paymentCapacity_Inr:
  assumes "paymentCapacity inp = Inr cap"
  shows "cap = paid_capacity (ex_paymentItems inp)" and "distinct (map fst cap)" and "cap \<noteq> []"
    and "\<forall>i \<in> set (ex_paymentItems inp). dp_orderItemId i \<noteq> [] \<and> 0 \<le> dp_subtotalMinor i \<and>
      0 \<le> dp_taxMinor i \<and> safe_integer (dp_subtotalMinor i) \<and> safe_integer (dp_taxMinor i)"
  using assms paymentCapacity_from [where items = "ex_paymentItems inp" and m = "[]" and m' = cap]
  by (auto simp: paymentCapacity_def rbind_eq_Inr split: if_splits)

lemma collectRefund_Inr:
  assumes "collectRefund pd cur now r s = Inr s'"
  obtains k where "rx_events s' = rx_events s @ [Refund_event k r]"
    and "valid_event (Refund_event k r)"
    and "compareFinancialExposureChronology k now < 0"
    and "fr_componentId r \<notin> rx_componentIds s"
    and "rx_componentIds s' = insert (fr_componentId r) (rx_componentIds s)"
  using assms
  by (auto simp: collectRefund_def refundKey_def rbind_eq_Inr Let_def split: if_splits)

lemma collectRefunds_Inr:
  assumes "rfold (collectRefund pd cur now) rs s = Inr s'"
  shows "map event_source (rx_events s') = map event_source (rx_events s) @ map Inl rs \<and>
    ((\<forall>e \<in> set (rx_events s). valid_event e) \<longrightarrow> (\<forall>e \<in> set (rx_events s'). valid_event e)) \<and>
    distinct (map fr_componentId rs) \<and> fr_componentId ` set rs \<inter> rx_componentIds s = {}"
  using assms
proof (induction rs arbitrary: s)
  case (Cons r rs)
  then obtain s1 where s1: "collectRefund pd cur now r s = Inr s1"
    and rest: "rfold (collectRefund pd cur now) rs s1 = Inr s'" by (auto simp: rbind_eq_Inr)
  from s1 show ?case
    by (rule collectRefund_Inr) (use Cons.IH [OF rest] in auto)
qed simp

lemma collectDispute_Inr:
  assumes "collectDispute pd cur now e s = Inr s'"
  obtains k where "dx_events s' = dx_events s @ [Dispute_event k e]"
    and "valid_event (Dispute_event k e)"
    and "compareFinancialExposureChronology k now < 0"
    and "pe_allocationId e \<notin> dx_allocationIds s"
    and "dx_allocationIds s' = insert (pe_allocationId e) (dx_allocationIds s)"
proof -
  from assms obtain k where k: "disputeKey pd e cur = Inr k"
    and s': "dx_events s' = dx_events s @ [Dispute_event k e]"
      "compareFinancialExposureChronology k now < 0"
      "pe_allocationId e \<notin> dx_allocationIds s"
      "dx_allocationIds s' = insert (pe_allocationId e) (dx_allocationIds s)"
    by (auto simp: collectDispute_def rbind_eq_Inr Let_def split: if_splits)
  have "valid_event (Dispute_event k e)"
    using k by (cases "pe_effect e") (auto simp: disputeKey_def rbind_eq_Inr split: if_splits)
  with s' that show ?thesis by blast
qed

lemma collectDisputes_Inr:
  assumes "rfold (collectDispute pd cur now) es s = Inr s'"
  shows "map event_source (dx_events s') = map event_source (dx_events s) @ map Inr es \<and>
    ((\<forall>e \<in> set (dx_events s). valid_event e) \<longrightarrow> (\<forall>e \<in> set (dx_events s'). valid_event e)) \<and>
    distinct (map pe_allocationId es) \<and> pe_allocationId ` set es \<inter> dx_allocationIds s = {}"
  using assms
proof (induction es arbitrary: s)
  case (Cons e es)
  then obtain s1 where s1: "collectDispute pd cur now e s = Inr s1"
    and rest: "rfold (collectDispute pd cur now) es s1 = Inr s'" by (auto simp: rbind_eq_Inr)
  from s1 show ?case
    by (rule collectDispute_Inr) (use Cons.IH [OF rest] in auto)
qed simp

text \<open>A successful replay is a run of its events, which are those of the input.\<close>

lemma replay_run:
  assumes "replayFinancialExposure pd inp = Inr res"
  obtains events where
    "rfold replayEvent events \<lparr>xr_capacity = paid_capacity (ex_paymentItems inp),
       xr_withdrawals = [], xr_reversedWithdrawalIds = {}\<rparr> = Inr res"
    and "mset (map event_source events) =
      mset (map Inl (ex_finalizedRefunds inp) @ map Inr (ex_priorPresentmentEffects inp))"
    and "\<forall>e \<in> set events. valid_event e"
    and "sorted_wrt (\<lambda>l r. compareFinancialExposureChronology (event_chronology l)
           (event_chronology r) \<le> 0) events"
    and "distinct (map fst (paid_capacity (ex_paymentItems inp)))"
    and "\<forall>i \<in> set (ex_paymentItems inp). dp_orderItemId i \<noteq> [] \<and> 0 \<le> dp_subtotalMinor i \<and>
      0 \<le> dp_taxMinor i \<and> safe_integer (dp_subtotalMinor i) \<and> safe_integer (dp_taxMinor i)"
    and "ex_paymentItems inp \<noteq> []"
proof -
  let ?cmp = "\<lambda>l r. compareFinancialExposureChronology (event_chronology l) (event_chronology r)"
  from assms obtain now cap rf df where cap: "paymentCapacity inp = Inr cap"
    and rf: "rfold (collectRefund pd (ex_presentmentCurrency inp) now) (ex_finalizedRefunds inp)
       \<lparr>rx_componentIds = {}, rx_identityById = Map.empty, rx_sourceByProviderId = Map.empty,
        rx_events = []\<rparr> = Inr rf"
    and df: "rfold (collectDispute pd (ex_presentmentCurrency inp) now)
       (ex_priorPresentmentEffects inp)
       \<lparr>dx_allocationIds = {}, dx_transactionKinds = Map.empty, dx_events = []\<rparr> = Inr df"
    and run: "rfold replayEvent (js_sort ?cmp (rx_events rf @ dx_events df))
       \<lparr>xr_capacity = cap, xr_withdrawals = [], xr_reversedWithdrawalIds = {}\<rparr> = Inr res"
    by (auto simp: replayFinancialExposure_def rbind_eq_Inr Let_def)
  have srt: "sorted_wrt (\<lambda>l r. ?cmp l r \<le> 0) (js_sort ?cmp (rx_events rf @ dx_events df))"
    by (rule event_order.sorted_js_sort)
  note r = collectRefunds_Inr [OF rf] and d = collectDisputes_Inr [OF df]
  note c = paymentCapacity_Inr [OF cap]
  show ?thesis
  proof (rule that [of "js_sort ?cmp (rx_events rf @ dx_events df)"])
    show "mset (map event_source (js_sort ?cmp (rx_events rf @ dx_events df))) =
        mset (map Inl (ex_finalizedRefunds inp) @ map Inr (ex_priorPresentmentEffects inp))"
      using r d by (simp only: mset_map mset_js_sort) (simp flip: mset_map)
  qed (use run c r d srt in \<open>auto simp: paid_capacity_def\<close>)
qed

section \<open>One event\<close>

fun_cases replayEvent_refundE: "replayEvent (Refund_event k r) s = Inr s'"
fun_cases replayEvent_disputeE: "replayEvent (Dispute_event k e) s = Inr s'"

lemma replayEvent_capacity:
  assumes "replayEvent e s = Inr s'"
  shows "\<exists>a b. map_of (xr_capacity s) (event_item e) = Some (a, b) \<and>
    map_of (xr_capacity s') = (map_of (xr_capacity s))
      (event_item e \<mapsto> (a + fst (event_amounts e), b + snd (event_amounts e)))"
  using assms by (cases e) (auto simp: Let_def update_conv' split: option.splits if_splits)

lemma replayEvent_nonneg:
  assumes "replayEvent e s = Inr s'" and "valid_event e"
    and "map_of (xr_capacity s) (event_item e) = Some (a, b)" and "0 \<le> a" and "0 \<le> b"
  shows "0 \<le> a + fst (event_amounts e) \<and> 0 \<le> b + snd (event_amounts e)"
  using assms by (cases e) (auto simp: Let_def split: option.splits if_splits)

text \<open>How an event changes what is known of withdrawals and reversals.\<close>

fun event_withdrawal :: "exposure_event \<Rightarrow> presentment_effect option" where
  "event_withdrawal (Refund_event k r) = None"
| "event_withdrawal (Dispute_event k e) = (if pe_effect e = Withdrawal then Some e else None)"

fun event_reinstatement :: "exposure_event \<Rightarrow> presentment_effect option" where
  "event_reinstatement (Refund_event k r) = None"
| "event_reinstatement (Dispute_event k e) = (if pe_effect e = Withdrawal then None else Some e)"

definition reversal_key :: "presentment_effect \<Rightarrow> string" where
  "reversal_key e = (case pe_reversalOfAllocationId e of None \<Rightarrow> [] | Some a \<Rightarrow> a)"

definition reverses :: "presentment_effect \<Rightarrow> presentment_effect \<Rightarrow> bool" where
  "reverses e w \<longleftrightarrow> pe_disputeId w = pe_disputeId e \<and> pe_withdrawalSetId w = pe_withdrawalSetId e \<and>
     pe_orderItemId w = pe_orderItemId e \<and> pe_subtotalMinor e \<le> - pe_subtotalMinor w \<and>
     pe_taxMinor e \<le> - pe_taxMinor w"

lemma replayEvent_refund:
  assumes "replayEvent (Refund_event k r) s = Inr s'"
  shows "xr_withdrawals s' = xr_withdrawals s \<and>
    xr_reversedWithdrawalIds s' = xr_reversedWithdrawalIds s"
  using assms by (auto split: option.splits if_splits)

lemma replayEvent_withdrawal:
  assumes "replayEvent (Dispute_event k e) s = Inr s'" and "pe_effect e = Withdrawal"
  shows "xr_withdrawals s' = AList.update (pe_allocationId e) e (xr_withdrawals s) \<and>
    xr_reversedWithdrawalIds s' = xr_reversedWithdrawalIds s"
  using assms by (auto simp: Let_def split: option.splits if_splits)

lemma replayEvent_reinstatement:
  assumes "replayEvent (Dispute_event k e) s = Inr s'" and "pe_effect e \<noteq> Withdrawal"
  shows "xr_withdrawals s' = xr_withdrawals s \<and>
    (\<exists>w. map_of (xr_withdrawals s) (reversal_key e) = Some w \<and>
      pe_allocationId w \<notin> xr_reversedWithdrawalIds s \<and> reverses e w \<and>
      xr_reversedWithdrawalIds s' = insert (pe_allocationId w) (xr_reversedWithdrawalIds s))"
  using assms by (auto simp: Let_def reverses_def reversal_key_def split: option.splits if_splits)

section \<open>A run of events\<close>

definition events_on :: "(int \<times> int \<Rightarrow> int) \<Rightarrow> string \<Rightarrow> exposure_event list \<Rightarrow> int" where
  "events_on part item events =
     sum_list (map (\<lambda>e. if event_item e = item then part (event_amounts e) else 0) events)"

lemma events_on_simps [simp]:
  "events_on part item [] = 0"
  "events_on part item (e # es) =
     (if event_item e = item then part (event_amounts e) else 0) + events_on part item es"
  by (simp_all add: events_on_def)

lemma run_capacity:
  assumes "rfold replayEvent events s = Inr s'" and "map_of (xr_capacity s) item = Some (a, b)"
  shows "map_of (xr_capacity s') item =
    Some (a + events_on fst item events, b + events_on snd item events)"
  using assms
proof (induction events arbitrary: s a b)
  case (Cons e events)
  then obtain s1 where s1: "replayEvent e s = Inr s1" and rest: "rfold replayEvent events s1 = Inr s'"
    by (auto simp: rbind_eq_Inr)
  show ?case
  proof (cases "event_item e = item")
    case True
    then have "map_of (xr_capacity s1) item =
        Some (a + fst (event_amounts e), b + snd (event_amounts e))"
      using replayEvent_capacity [OF s1] Cons.prems(2) by auto
    from Cons.IH [OF rest this] True show ?thesis by simp
  next
    case False
    then have "map_of (xr_capacity s1) item = Some (a, b)"
      using replayEvent_capacity [OF s1] Cons.prems(2) by auto
    from Cons.IH [OF rest this] False show ?thesis by simp
  qed
qed simp

lemma run_keys:
  "rfold replayEvent events s = Inr s' \<Longrightarrow> dom (map_of (xr_capacity s')) = dom (map_of (xr_capacity s))"
proof (induction events arbitrary: s)
  case (Cons e events)
  then obtain s1 where s1: "replayEvent e s = Inr s1" and rest: "rfold replayEvent events s1 = Inr s'"
    by (auto simp: rbind_eq_Inr)
  show ?case using Cons.IH [OF rest] replayEvent_capacity [OF s1] by (auto split: if_splits)
qed simp

text \<open>
  The amount a withdrawal still keeps away from an item: counted over the withdrawals not yet
  reversed. With it the upper bound is inductive.
\<close>

definition outstanding ::
  "(presentment_effect \<Rightarrow> int) \<Rightarrow> string \<Rightarrow> exposure_result \<Rightarrow> int" where
  "outstanding amount item s = sum_list (map (\<lambda>(k, w).
     if k \<notin> xr_reversedWithdrawalIds s \<and> pe_orderItemId w = item then - amount w else 0)
     (xr_withdrawals s))"

definition wf_exposure :: "exposure_event list \<Rightarrow> exposure_result \<Rightarrow> bool" where
  "wf_exposure pending s \<longleftrightarrow>
     distinct (map fst (xr_withdrawals s) @
       map pe_allocationId (List.map_filter event_withdrawal pending)) \<and>
     (\<forall>(k, w) \<in> set (xr_withdrawals s). pe_allocationId w = k \<and> pe_subtotalMinor w \<le> 0 \<and>
        pe_taxMinor w \<le> 0) \<and>
     xr_reversedWithdrawalIds s \<subseteq> fst ` set (xr_withdrawals s) \<and> (\<forall>e \<in> set pending. valid_event e)"

lemma wf_exposure_step:
  assumes "wf_exposure (e # pending) s" and "replayEvent e s = Inr s'"
  shows "wf_exposure pending s'"
proof (cases e)
  case (Refund_event k r)
  with assms replayEvent_refund [of k r s s'] show ?thesis
    by (simp add: wf_exposure_def List.map_filter_simps)
next
  case (Dispute_event k d)
  show ?thesis
  proof (cases "pe_effect d = Withdrawal")
    case True
    then have fresh: "map_of (xr_withdrawals s) (pe_allocationId d) = None"
      using assms(1) Dispute_event
      by (auto simp: wf_exposure_def List.map_filter_simps map_of_eq_None_iff)
    from True have "xr_withdrawals s' = xr_withdrawals s @ [(pe_allocationId d, d)]"
      "xr_reversedWithdrawalIds s' = xr_reversedWithdrawalIds s"
      using replayEvent_withdrawal [of k d s s'] assms(2) Dispute_event update_fresh [OF fresh] by auto
    with assms(1) Dispute_event True show ?thesis
      by (auto simp: wf_exposure_def List.map_filter_simps)
  next
    case False
    then obtain w where "map_of (xr_withdrawals s) (reversal_key d) = Some w"
      "xr_withdrawals s' = xr_withdrawals s"
      "xr_reversedWithdrawalIds s' = insert (pe_allocationId w) (xr_reversedWithdrawalIds s)"
      using replayEvent_reinstatement [of k d s s'] assms(2) Dispute_event by auto
    moreover from this(1) have "(reversal_key d, w) \<in> set (xr_withdrawals s)" by (rule map_of_SomeD)
    moreover from this have "pe_allocationId w = reversal_key d"
      using assms(1) by (auto simp: wf_exposure_def)
    moreover have "reversal_key d \<in> fst ` set (xr_withdrawals s)"
      using \<open>(reversal_key d, w) \<in> set (xr_withdrawals s)\<close> by (rule rev_image_eqI) simp
    ultimately show ?thesis
      using assms(1) Dispute_event False by (simp add: wf_exposure_def List.map_filter_simps)
  qed
qed

lemma outstanding_insert:
  assumes "distinct (map fst ws)" and "(k, w) \<in> set ws" and "k \<notin> R"
  shows "sum_list (map (\<lambda>(k', w'). if k' \<notin> insert k R \<and> pe_orderItemId w' = item then - amount w' else 0) ws)
    = sum_list (map (\<lambda>(k', w'). if k' \<notin> R \<and> pe_orderItemId w' = item then - amount w' else 0) ws) +
      (if pe_orderItemId w = item then amount w else (0 :: int))"
  using assms
proof (induction ws)
  case (Cons p ws)
  obtain k' w' where p: "p = (k', w')" by (cases p)
  show ?case
  proof (cases "k' = k")
    case True
    with Cons.prems p have "w' = w" and nin: "k \<notin> fst ` set ws" by (auto simp: rev_image_eqI)
    have "map (\<lambda>(k', w'). if k' \<notin> insert k R \<and> pe_orderItemId w' = item then - amount w' else 0) ws =
        map (\<lambda>(k', w'). if k' \<notin> R \<and> pe_orderItemId w' = item then - amount w' else 0) ws"
      using nin by (intro map_cong) (auto simp: rev_image_eqI)
    then show ?thesis using True p \<open>w' = w\<close> Cons.prems(3)
      by (simp del: map_eq_conv)
  next
    case False
    with Cons p show ?thesis by auto
  qed
qed simp

lemma outstanding_step:
  assumes wf: "wf_exposure (e # pending) s" and run: "replayEvent e s = Inr s'"
    and refund: "\<And>k r. e = Refund_event k r \<Longrightarrow> part (event_amounts e) \<le> 0"
    and dispute: "\<And>k d. e = Dispute_event k d \<Longrightarrow> part (event_amounts e) = amount d"
    and bound: "\<And>d w. reverses d w \<Longrightarrow> amount d \<le> - amount w"
  shows "(if event_item e = item then part (event_amounts e) else 0) + outstanding amount item s'
    \<le> outstanding amount item s"
proof (cases e)
  case (Refund_event k r)
  with run replayEvent_refund [of k r s s'] refund show ?thesis by (auto simp: outstanding_def)
next
  case (Dispute_event k d)
  show ?thesis
  proof (cases "pe_effect d = Withdrawal")
    case True
    then have fresh: "map_of (xr_withdrawals s) (pe_allocationId d) = None"
      using wf Dispute_event by (auto simp: wf_exposure_def List.map_filter_simps map_of_eq_None_iff)
    moreover have "pe_allocationId d \<notin> xr_reversedWithdrawalIds s"
      using fresh wf by (auto simp: wf_exposure_def map_of_eq_None_iff)
    ultimately show ?thesis
      using replayEvent_withdrawal [of k d s s'] run Dispute_event True dispute
      by (auto simp: outstanding_def update_fresh)
  next
    case False
    then obtain w where w: "map_of (xr_withdrawals s) (reversal_key d) = Some w" "reverses d w"
      "pe_allocationId w \<notin> xr_reversedWithdrawalIds s"
      "xr_withdrawals s' = xr_withdrawals s"
      "xr_reversedWithdrawalIds s' = insert (pe_allocationId w) (xr_reversedWithdrawalIds s)"
      using replayEvent_reinstatement [of k d s s'] run Dispute_event by auto
    have "(pe_allocationId w, w) \<in> set (xr_withdrawals s)" and "distinct (map fst (xr_withdrawals s))"
      using wf w(1) by (auto simp: wf_exposure_def dest: map_of_SomeD)
    then have "outstanding amount item s' = outstanding amount item s +
        (if pe_orderItemId w = item then amount w else 0)"
      using outstanding_insert [OF _ _ w(3)] unfolding outstanding_def w(4,5) by blast
    moreover have "pe_orderItemId w = pe_orderItemId d" using w(2) by (simp add: reverses_def)
    ultimately show ?thesis using bound [OF w(2)] dispute Dispute_event by simp
  qed
qed

lemma run_outstanding:
  assumes "rfold replayEvent events s = Inr s'" and "wf_exposure events s"
    and part: "\<And>k r. valid_event (Refund_event k r) \<Longrightarrow> part (event_amounts (Refund_event k r)) \<le> 0"
      "\<And>k d. part (event_amounts (Dispute_event k d)) = amount d"
      "\<And>d w. reverses d w \<Longrightarrow> amount d \<le> - amount w"
  shows "events_on part item events + outstanding amount item s' \<le> outstanding amount item s"
  using assms(1,2)
proof (induction events arbitrary: s)
  case (Cons e events)
  then obtain s1 where s1: "replayEvent e s = Inr s1" and rest: "rfold replayEvent events s1 = Inr s'"
    by (auto simp: rbind_eq_Inr)
  have "valid_event e" using Cons.prems(2) by (simp add: wf_exposure_def)
  then have "(if event_item e = item then part (event_amounts e) else 0) + outstanding amount item s1
      \<le> outstanding amount item s"
    using part by (intro outstanding_step [OF Cons.prems(2) s1]) auto
  with Cons.IH [OF rest wf_exposure_step [OF Cons.prems(2) s1]] show ?case by simp
qed simp

lemma outstanding_nonneg:
  assumes "wf_exposure pending s" and "\<And>w. w \<in> snd ` set (xr_withdrawals s) \<Longrightarrow> amount w \<le> 0"
  shows "0 \<le> outstanding amount item s"
  unfolding outstanding_def using assms(2) by (intro sum_list_nonneg) force

lemma run_wf: "rfold replayEvent events s = Inr s' \<Longrightarrow> wf_exposure events s \<Longrightarrow> wf_exposure [] s'"
  by (induction events arbitrary: s) (auto simp: rbind_eq_Inr dest: wf_exposure_step)

lemma run_nonneg:
  assumes "rfold replayEvent events s = Inr s'" and "\<forall>e \<in> set events. valid_event e"
    and "\<And>item a b. map_of (xr_capacity s) item = Some (a, b) \<Longrightarrow> 0 \<le> a \<and> 0 \<le> b"
    and "map_of (xr_capacity s') item = Some (c, d)"
  shows "0 \<le> c \<and> 0 \<le> d"
  using assms
proof (induction events arbitrary: s)
  case (Cons e events)
  then obtain s1 where s1: "replayEvent e s = Inr s1" and rest: "rfold replayEvent events s1 = Inr s'"
    by (auto simp: rbind_eq_Inr)
  have "0 \<le> a \<and> 0 \<le> b" if "map_of (xr_capacity s1) i = Some (a, b)" for i a b
    using that replayEvent_capacity [OF s1] replayEvent_nonneg [OF s1] Cons.prems(2,3)
    by (fastforce split: if_splits)
  with Cons.IH [OF rest] Cons.prems(2,4) show ?case by auto
qed simp

section \<open>What a replay establishes\<close>

definition refunded :: "(finalized_refund \<Rightarrow> int) \<Rightarrow> string \<Rightarrow> exposure_input \<Rightarrow> int" where
  "refunded amount item inp =
     sum_list (map amount (filter (\<lambda>r. fr_orderItemId r = item) (ex_finalizedRefunds inp)))"

definition disputed :: "(presentment_effect \<Rightarrow> int) \<Rightarrow> string \<Rightarrow> exposure_input \<Rightarrow> int" where
  "disputed amount item inp =
     sum_list (map amount (filter (\<lambda>e. pe_orderItemId e = item) (ex_priorPresentmentEffects inp)))"

definition source_amount ::
  "(int \<times> int \<Rightarrow> int) \<Rightarrow> string \<Rightarrow> finalized_refund + presentment_effect \<Rightarrow> int" where
  "source_amount part item src = (case src of
     Inl r \<Rightarrow> if fr_orderItemId r = item then part (- fr_subtotalMinor r, - fr_taxMinor r) else 0
   | Inr e \<Rightarrow> if pe_orderItemId e = item then part (pe_subtotalMinor e, pe_taxMinor e) else 0)"

lemma events_on_sources:
  assumes "mset (map event_source events) = mset (map Inl rs @ map Inr es)"
  shows "events_on part item events =
    sum_list (map (\<lambda>r. source_amount part item (Inl r)) rs) +
    sum_list (map (\<lambda>e. source_amount part item (Inr e)) es)"
proof -
  have "(\<lambda>e. if event_item e = item then part (event_amounts e) else 0) =
      source_amount part item \<circ> event_source"
  proof
    fix e show "(if event_item e = item then part (event_amounts e) else 0) =
        (source_amount part item \<circ> event_source) e"
      by (cases e) (simp_all add: source_amount_def)
  qed
  then have "events_on part item events =
      sum_list (map (source_amount part item) (map event_source events))"
    by (simp add: events_on_def)
  also have "\<dots> = sum_list (map (source_amount part item) (map Inl rs @ map Inr es))"
    using assms by (metis mset_map sum_mset_sum_list)
  finally show ?thesis by (simp add: comp_def)
qed

definition event_effects :: "exposure_event list \<Rightarrow> presentment_effect list" where
  "event_effects events = map projr (filter (\<lambda>s. \<not> isl s) (map event_source events))"

lemma event_effects_mset:
  assumes "mset (map event_source events) = mset (map Inl rs @ map Inr es)"
  shows "mset (event_effects events) = mset es"
proof -
  have "filter (\<lambda>s. \<not> isl s) (map Inl rs) = []" and "filter (\<lambda>s. \<not> isl s) (map Inr es) = map Inr es"
    by (simp_all add: filter_empty_conv filter_id_conv)
  then have "map projr (filter (\<lambda>s. \<not> isl s) (map Inl rs @ map Inr es)) = es"
    by (simp add: comp_def)
  moreover have "mset (event_effects events) =
      mset (map projr (filter (\<lambda>s. \<not> isl s) (map Inl rs @ map Inr es)))"
    unfolding event_effects_def mset_map mset_filter using assms by (simp del: mset_append)
  ultimately show ?thesis by simp
qed

lemma event_effects_simps [simp]:
  "event_effects [] = []"
  "event_effects (Refund_event k r # es) = event_effects es"
  "event_effects (Dispute_event k d # es) = d # event_effects es"
  by (simp_all add: event_effects_def)

lemma withdrawals_of_effects:
  "List.map_filter event_withdrawal events =
     filter (\<lambda>e. pe_effect e = Withdrawal) (event_effects events)"
proof (induction events)
  case (Cons e events)
  then show ?case by (cases e) (simp_all add: List.map_filter_simps)
qed (simp add: List.map_filter_simps)

definition initial_exposure :: "exposure_input \<Rightarrow> exposure_result" where
  "initial_exposure inp = \<lparr>xr_capacity = paid_capacity (ex_paymentItems inp), xr_withdrawals = [],
     xr_reversedWithdrawalIds = {}\<rparr>"

lemma replay_run_wf:
  assumes "replayFinancialExposure pd inp = Inr res"
  obtains events where "rfold replayEvent events (initial_exposure inp) = Inr res"
    and "wf_exposure events (initial_exposure inp)"
    and "mset (map event_source events) =
      mset (map Inl (ex_finalizedRefunds inp) @ map Inr (ex_priorPresentmentEffects inp))"
    and "distinct (map fst (paid_capacity (ex_paymentItems inp)))"
    and "\<forall>i \<in> set (ex_paymentItems inp). 0 \<le> dp_subtotalMinor i \<and> 0 \<le> dp_taxMinor i"
proof -
  from assms obtain now df where
    "rfold (collectDispute pd (ex_presentmentCurrency inp) now) (ex_priorPresentmentEffects inp)
       \<lparr>dx_allocationIds = {}, dx_transactionKinds = Map.empty, dx_events = []\<rparr> = Inr df"
    by (auto simp: replayFinancialExposure_def rbind_eq_Inr Let_def)
  from collectDisputes_Inr [OF this]
  have ids: "distinct (map pe_allocationId (ex_priorPresentmentEffects inp))" by simp
  from assms obtain events where run: "rfold replayEvent events (initial_exposure inp) = Inr res"
    and ms: "mset (map event_source events) =
      mset (map Inl (ex_finalizedRefunds inp) @ map Inr (ex_priorPresentmentEffects inp))"
    and ok: "\<forall>e \<in> set events. valid_event e"
    and d: "distinct (map fst (paid_capacity (ex_paymentItems inp)))"
    and nn: "\<forall>i \<in> set (ex_paymentItems inp). 0 \<le> dp_subtotalMinor i \<and> 0 \<le> dp_taxMinor i"
    unfolding initial_exposure_def by (rule replay_run) blast
  have "distinct (map pe_allocationId (event_effects events))"
    using ids event_effects_mset [OF ms] by (metis mset_eq_imp_distinct_iff mset_map)
  then have "distinct (map pe_allocationId (List.map_filter event_withdrawal events))"
    unfolding withdrawals_of_effects by (rule distinct_map_filter)
  with ok have "wf_exposure events (initial_exposure inp)"
    by (simp add: wf_exposure_def initial_exposure_def)
  with that run ms d nn show ?thesis by blast
qed

lemma initial_capacity:
  assumes "distinct (map fst (paid_capacity items))" and "i \<in> set items"
  shows "map_of (paid_capacity items) (dp_orderItemId i) = Some (dp_subtotalMinor i, dp_taxMinor i)"
  using assms by (intro map_of_is_SomeI) (auto simp: paid_capacity_def)

lemma sum_if_filter:
  "sum_list (map (\<lambda>x. if P x then f x else 0) xs) = sum_list (map (f :: 'a \<Rightarrow> int) (filter P xs))"
  by (induction xs) auto

lemma sum_list_uminus: "sum_list (map (\<lambda>x. - f x) xs) = - sum_list (map (f :: 'a \<Rightarrow> int) xs)"
  by (induction xs) auto

definition reinstatements :: "presentment_effect list \<Rightarrow> presentment_effect list" where
  "reinstatements es = filter (\<lambda>e. pe_effect e \<noteq> Withdrawal) es"

lemma run_reversals:
  assumes "rfold replayEvent events s = Inr s'" and "wf_exposure events s"
  shows "distinct (map reversal_key (reinstatements (event_effects events))) \<and>
    reversal_key ` set (reinstatements (event_effects events)) \<inter> xr_reversedWithdrawalIds s = {} \<and>
    (\<forall>e \<in> set (reinstatements (event_effects events)). pe_reversalOfAllocationId e \<noteq> None \<and>
      (\<exists>w \<in> snd ` set (xr_withdrawals s) \<union>
        set (filter (\<lambda>w. pe_effect w = Withdrawal) (event_effects events)).
        pe_allocationId w = reversal_key e \<and> reverses e w))"
  using assms
proof (induction events arbitrary: s)
  case (Cons e events)
  then obtain s1 where s1: "replayEvent e s = Inr s1" and rest: "rfold replayEvent events s1 = Inr s'"
    by (auto simp: rbind_eq_Inr)
  note IH = Cons.IH [OF rest wf_exposure_step [OF Cons.prems(2) s1]]
  show ?case
  proof (cases e)
    case (Refund_event k r)
    with IH replayEvent_refund [of k r s s1] s1 show ?thesis by simp
  next
    case (Dispute_event k d)
    show ?thesis
    proof (cases "pe_effect d = Withdrawal")
      case True
      then have "map_of (xr_withdrawals s) (pe_allocationId d) = None"
        using Cons.prems(2) Dispute_event
        by (auto simp: wf_exposure_def List.map_filter_simps map_of_eq_None_iff)
      from update_fresh [OF this] have "snd ` set (xr_withdrawals s1) = insert d (snd ` set (xr_withdrawals s))"
        "xr_reversedWithdrawalIds s1 = xr_reversedWithdrawalIds s"
        using replayEvent_withdrawal [of k d s s1] s1 Dispute_event True by auto
      with IH True Dispute_event show ?thesis by (simp add: reinstatements_def)
    next
      case False
      then obtain w where w: "map_of (xr_withdrawals s) (reversal_key d) = Some w" "reverses d w"
        "pe_allocationId w \<notin> xr_reversedWithdrawalIds s" "xr_withdrawals s1 = xr_withdrawals s"
        "xr_reversedWithdrawalIds s1 = insert (pe_allocationId w) (xr_reversedWithdrawalIds s)"
        using replayEvent_reinstatement [of k d s s1] s1 Dispute_event by auto
      have mem: "(reversal_key d, w) \<in> set (xr_withdrawals s)" using w(1) by (rule map_of_SomeD)
      then have id: "pe_allocationId w = reversal_key d"
        using Cons.prems(2) by (auto simp: wf_exposure_def)
      have "w \<in> snd ` set (xr_withdrawals s)" using mem by force
      moreover have "pe_reversalOfAllocationId d \<noteq> None"
        using Cons.prems(2) Dispute_event False by (simp add: wf_exposure_def)
      ultimately show ?thesis
        using IH w id Dispute_event False by (auto simp: reinstatements_def)
    qed
  qed
qed (simp add: reinstatements_def)

text \<open>The withdrawals and reversals a run ends with are those of its events.\<close>

lemma run_final:
  assumes "rfold replayEvent events s = Inr s'" and "wf_exposure events s"
  shows "xr_reversedWithdrawalIds s' = xr_reversedWithdrawalIds s \<union>
      reversal_key ` set (reinstatements (event_effects events)) \<and>
    snd ` set (xr_withdrawals s') = snd ` set (xr_withdrawals s) \<union>
      {w \<in> set (event_effects events). pe_effect w = Withdrawal}"
  using assms
proof (induction events arbitrary: s)
  case (Cons e events)
  then obtain s1 where s1: "replayEvent e s = Inr s1" and rest: "rfold replayEvent events s1 = Inr s'"
    by (auto simp: rbind_eq_Inr)
  note IH = Cons.IH [OF rest wf_exposure_step [OF Cons.prems(2) s1]]
  show ?case
  proof (cases e)
    case (Refund_event k r)
    with IH replayEvent_refund [of k r s s1] s1 show ?thesis by simp
  next
    case (Dispute_event k d)
    show ?thesis
    proof (cases "pe_effect d = Withdrawal")
      case True
      then have "map_of (xr_withdrawals s) (pe_allocationId d) = None"
        using Cons.prems(2) Dispute_event
        by (auto simp: wf_exposure_def List.map_filter_simps map_of_eq_None_iff)
      from update_fresh [OF this] have "snd ` set (xr_withdrawals s1) = insert d (snd ` set (xr_withdrawals s))"
        "xr_reversedWithdrawalIds s1 = xr_reversedWithdrawalIds s"
        using replayEvent_withdrawal [of k d s s1] s1 Dispute_event True by auto
      with IH True Dispute_event show ?thesis by (auto simp: reinstatements_def)
    next
      case False
      then obtain w where w: "map_of (xr_withdrawals s) (reversal_key d) = Some w"
        "xr_withdrawals s1 = xr_withdrawals s"
        "xr_reversedWithdrawalIds s1 = insert (pe_allocationId w) (xr_reversedWithdrawalIds s)"
        using replayEvent_reinstatement [of k d s s1] s1 Dispute_event by auto
      have "(reversal_key d, w) \<in> set (xr_withdrawals s)" using w(1) by (rule map_of_SomeD)
      then have "pe_allocationId w = reversal_key d"
        using Cons.prems(2) by (auto simp: wf_exposure_def)
      with IH w(2,3) Dispute_event False show ?thesis by (auto simp: reinstatements_def)
    qed
  qed
qed (simp add: reinstatements_def)

lemma replay_result:
  assumes "replayFinancialExposure pd inp = Inr res"
  shows "wf_exposure [] res"
    and "xr_reversedWithdrawalIds res =
      reversal_key ` set (reinstatements (ex_priorPresentmentEffects inp))"
    and "snd ` set (xr_withdrawals res) =
      {w \<in> set (ex_priorPresentmentEffects inp). pe_effect w = Withdrawal}"
proof -
  obtain events where run: "rfold replayEvent events (initial_exposure inp) = Inr res"
    and wf: "wf_exposure events (initial_exposure inp)"
    and ms: "mset (map event_source events) =
      mset (map Inl (ex_finalizedRefunds inp) @ map Inr (ex_priorPresentmentEffects inp))"
    using assms by (rule replay_run_wf)
  have "set (event_effects events) = set (ex_priorPresentmentEffects inp)"
    using event_effects_mset [OF ms] by (metis set_mset_mset)
  then have "set (reinstatements (event_effects events)) =
      set (reinstatements (ex_priorPresentmentEffects inp))"
    and "{w \<in> set (event_effects events). pe_effect w = Withdrawal} =
      {w \<in> set (ex_priorPresentmentEffects inp). pe_effect w = Withdrawal}"
    by (auto simp: reinstatements_def)
  with run_final [OF run wf] run_wf [OF run wf]
  show "wf_exposure [] res"
    "xr_reversedWithdrawalIds res = reversal_key ` set (reinstatements (ex_priorPresentmentEffects inp))"
    "snd ` set (xr_withdrawals res) = {w \<in> set (ex_priorPresentmentEffects inp). pe_effect w = Withdrawal}"
    by (auto simp: initial_exposure_def)
qed

lemma replay_capacity:
  assumes "replayFinancialExposure pd inp = Inr res" and "i \<in> set (ex_paymentItems inp)"
  shows "map_of (xr_capacity res) (dp_orderItemId i) =
    Some (dp_subtotalMinor i - refunded fr_subtotalMinor (dp_orderItemId i) inp +
            disputed pe_subtotalMinor (dp_orderItemId i) inp,
          dp_taxMinor i - refunded fr_taxMinor (dp_orderItemId i) inp +
            disputed pe_taxMinor (dp_orderItemId i) inp)"
proof -
  obtain events where run: "rfold replayEvent events (initial_exposure inp) = Inr res"
    and ms: "mset (map event_source events) =
      mset (map Inl (ex_finalizedRefunds inp) @ map Inr (ex_priorPresentmentEffects inp))"
    and d: "distinct (map fst (paid_capacity (ex_paymentItems inp)))"
    using assms(1) by (rule replay_run_wf)
  have "map_of (xr_capacity (initial_exposure inp)) (dp_orderItemId i) =
      Some (dp_subtotalMinor i, dp_taxMinor i)"
    using initial_capacity [OF d assms(2)] by (simp add: initial_exposure_def)
  from run_capacity [OF run this] show ?thesis
    by (simp add: events_on_sources [OF ms] source_amount_def refunded_def disputed_def
        sum_if_filter sum_list_uminus)
qed

lemma replay_within:
  assumes "replayFinancialExposure pd inp = Inr res"
  shows "dom (map_of (xr_capacity res)) = dp_orderItemId ` set (ex_paymentItems inp) \<and>
    (\<forall>i \<in> set (ex_paymentItems inp). \<exists>s t. map_of (xr_capacity res) (dp_orderItemId i) = Some (s, t) \<and>
      0 \<le> s \<and> s \<le> dp_subtotalMinor i \<and> 0 \<le> t \<and> t \<le> dp_taxMinor i)"
proof -
  obtain events where run: "rfold replayEvent events (initial_exposure inp) = Inr res"
    and wf: "wf_exposure events (initial_exposure inp)"
    and d: "distinct (map fst (paid_capacity (ex_paymentItems inp)))"
    and nn: "\<forall>i \<in> set (ex_paymentItems inp). 0 \<le> dp_subtotalMinor i \<and> 0 \<le> dp_taxMinor i"
    using assms(1) by (rule replay_run_wf)
  have ev: "\<forall>e \<in> set events. valid_event e" using wf by (simp add: wf_exposure_def)
  have wf': "wf_exposure [] res" using run_wf [OF run wf] .
  have init: "0 \<le> a \<and> 0 \<le> b"
    if "map_of (xr_capacity (initial_exposure inp)) item = Some (a, b)" for item a b
    using map_of_SomeD [OF that] nn by (auto simp: initial_exposure_def paid_capacity_def)
  have "\<exists>s t. map_of (xr_capacity res) (dp_orderItemId i) = Some (s, t) \<and>
      0 \<le> s \<and> s \<le> dp_subtotalMinor i \<and> 0 \<le> t \<and> t \<le> dp_taxMinor i"
    if i: "i \<in> set (ex_paymentItems inp)" for i
  proof -
    have "map_of (xr_capacity (initial_exposure inp)) (dp_orderItemId i) =
        Some (dp_subtotalMinor i, dp_taxMinor i)"
      using initial_capacity [OF d i] by (simp add: initial_exposure_def)
    note cap = run_capacity [OF run this]
    have "events_on fst (dp_orderItemId i) events + outstanding pe_subtotalMinor (dp_orderItemId i) res
        \<le> outstanding pe_subtotalMinor (dp_orderItemId i) (initial_exposure inp)"
      by (rule run_outstanding [OF run wf]) (auto simp: reverses_def)
    moreover have "0 \<le> outstanding pe_subtotalMinor (dp_orderItemId i) res"
      by (rule outstanding_nonneg [OF wf']) (use wf' in \<open>auto simp: wf_exposure_def\<close>)
    moreover have "events_on snd (dp_orderItemId i) events + outstanding pe_taxMinor (dp_orderItemId i) res
        \<le> outstanding pe_taxMinor (dp_orderItemId i) (initial_exposure inp)"
      by (rule run_outstanding [OF run wf]) (auto simp: reverses_def)
    moreover have "0 \<le> outstanding pe_taxMinor (dp_orderItemId i) res"
      by (rule outstanding_nonneg [OF wf']) (use wf' in \<open>auto simp: wf_exposure_def\<close>)
    ultimately show ?thesis
      using cap run_nonneg [OF run ev init cap]
      by (auto simp: outstanding_def initial_exposure_def)
  qed
  moreover have "dom (map_of (xr_capacity res)) = dp_orderItemId ` set (ex_paymentItems inp)"
    using run_keys [OF run] by (simp add: initial_exposure_def paid_capacity_def dom_map_of_conv_image_fst
        image_image)
  ultimately show ?thesis by blast
qed

lemma update_present_keys: "map_of m k \<noteq> None \<Longrightarrow> map fst (AList.update k v m) = map fst m"
  by (induction m) auto

lemma replayEvent_keys:
  assumes "replayEvent e s = Inr s'"
  shows "map fst (xr_capacity s') = map fst (xr_capacity s)"
  using assms by (cases e) (auto simp: Let_def update_present_keys split: option.splits if_splits)

lemma run_key_order:
  "rfold replayEvent events s = Inr s' \<Longrightarrow> map fst (xr_capacity s') = map fst (xr_capacity s)"
proof (induction events arbitrary: s)
  case (Cons e events)
  then obtain s1 where s1: "replayEvent e s = Inr s1" and rest: "rfold replayEvent events s1 = Inr s'"
    by (auto simp: rbind_eq_Inr)
  show ?case using Cons.IH [OF rest] replayEvent_keys [OF s1] by simp
qed simp

text \<open>What is left after a replay can be split over: it has the shape of item rows.\<close>

lemma replay_rows_valid:
  assumes "replayFinancialExposure pd inp = Inr res"
  shows "valid_rows (xr_capacity res)"
proof -
  obtain events where run: "rfold replayEvent events (initial_exposure inp) = Inr res"
    and d: "distinct (map fst (paid_capacity (ex_paymentItems inp)))"
    using assms by (rule replay_run_wf)
  have ok: "\<forall>i \<in> set (ex_paymentItems inp). dp_orderItemId i \<noteq> [] \<and>
      safe_integer (dp_subtotalMinor i) \<and> safe_integer (dp_taxMinor i)"
    using assms by (rule replay_run) blast
  have dist: "distinct (map fst (xr_capacity res))"
    using run_key_order [OF run] d by (simp add: initial_exposure_def)
  have "k \<noteq> [] \<and> 0 \<le> a \<and> 0 \<le> b \<and> safe_integer a \<and> safe_integer b"
    if mem: "(k, a, b) \<in> set (xr_capacity res)" for k a b
  proof -
    have get: "map_of (xr_capacity res) k = Some (a, b)" using dist mem by simp
    then have "k \<in> dom (map_of (xr_capacity res))" by (rule domI)
    then obtain i where i: "i \<in> set (ex_paymentItems inp)" "k = dp_orderItemId i"
      using replay_within [OF assms] by auto
    with replay_within [OF assms] get
    have "0 \<le> a \<and> a \<le> dp_subtotalMinor i \<and> 0 \<le> b \<and> b \<le> dp_taxMinor i" by fastforce
    with ok i show ?thesis by (metis safe_integer_between)
  qed
  with dist show ?thesis by (auto simp: valid_rows_def)
qed

lemma replay_reversed:
  assumes "replayFinancialExposure pd inp = Inr res"
  shows "distinct (map pe_reversalOfAllocationId (reinstatements (ex_priorPresentmentEffects inp))) \<and>
    (\<forall>e \<in> set (reinstatements (ex_priorPresentmentEffects inp)).
      \<exists>w \<in> set (ex_priorPresentmentEffects inp). pe_effect w = Withdrawal \<and>
        pe_reversalOfAllocationId e = Some (pe_allocationId w) \<and> reverses e w)"
proof -
  let ?es = "ex_priorPresentmentEffects inp"
  obtain events where run: "rfold replayEvent events (initial_exposure inp) = Inr res"
    and wf: "wf_exposure events (initial_exposure inp)"
    and ms: "mset (map event_source events) = mset (map Inl (ex_finalizedRefunds inp) @ map Inr ?es)"
    using assms by (rule replay_run_wf)
  note ms = event_effects_mset [OF ms]
  have sets: "set (event_effects events) = set ?es" using ms by (metis set_mset_mset)
  have rs: "mset (reinstatements (event_effects events)) = mset (reinstatements ?es)"
    using ms by (simp add: reinstatements_def)
  note r = run_reversals [OF run wf]
  have "set (reinstatements (event_effects events)) = set (reinstatements ?es)"
    using rs by (metis set_mset_mset)
  then have each: "\<forall>e \<in> set (reinstatements ?es). pe_reversalOfAllocationId e \<noteq> None \<and>
      (\<exists>w \<in> set ?es. pe_effect w = Withdrawal \<and> pe_allocationId w = reversal_key e \<and> reverses e w)"
    using r by (auto simp: initial_exposure_def sets)
  have "distinct (map reversal_key (reinstatements ?es))"
    using r rs by (metis mset_eq_imp_distinct_iff mset_map)
  then have "distinct (map pe_reversalOfAllocationId (reinstatements ?es))"
    by (auto simp: distinct_map inj_on_def reversal_key_def)
  moreover have "pe_reversalOfAllocationId e = Some (reversal_key e)" if "e \<in> set (reinstatements ?es)" for e
    using each that by (auto simp: reversal_key_def)
  ultimately show ?thesis using each by metis
qed


lemmas replay_reversed_once = replay_reversed [THEN conjunct1]
lemmas replay_each_reversal = replay_reversed [THEN conjunct2]

section \<open>Properties\<close>

definition sample_clock :: "string \<Rightarrow> int option" where
  "sample_clock s = (if s = [] then None else Some (int (length s)))"

definition sample_effect :: presentment_effect where
  "sample_effect = \<lparr>pe_allocationId = ''w1'', pe_withdrawalSetId = Some ''set'',
     pe_disputeId = ''dp'', pe_providerCreatedAt = ''tt'', pe_providerTransactionId = ''txn1'',
     pe_orderItemId = ''a'', pe_subtotalMinor = - 300, pe_taxMinor = - 20,
     pe_presentmentCurrency = ''USD'', pe_effect = Withdrawal, pe_reversalOfAllocationId = None\<rparr>"

definition sample_exposure :: exposure_input where
  "sample_exposure = \<lparr>ex_presentmentCurrency = ''USD'', ex_currentCreatedAt = ''ttttt'',
     ex_currentProviderId = ''re_2'', ex_currentSourceId = ''r2'',
     ex_paymentItems =
       [\<lparr>dp_orderItemId = ''b'', dp_subtotalMinor = 350, dp_taxMinor = 0,
         dp_presentmentCurrency = ''USD''\<rparr>,
        \<lparr>dp_orderItemId = ''a'', dp_subtotalMinor = 600, dp_taxMinor = 50,
         dp_presentmentCurrency = ''USD''\<rparr>],
     ex_finalizedRefunds =
       [\<lparr>fr_refundId = ''r1'', fr_providerRefundId = ''re_1'', fr_providerCreatedAt = ''t'',
         fr_componentId = ''c1'', fr_orderItemId = ''a'', fr_subtotalMinor = 100, fr_taxMinor = 0,
         fr_presentmentCurrency = ''USD''\<rparr>],
     ex_priorPresentmentEffects =
       [sample_effect,
        sample_effect\<lparr>pe_allocationId := ''r1'', pe_providerCreatedAt := ''ttt'',
          pe_providerTransactionId := ''txn2'', pe_subtotalMinor := 200, pe_taxMinor := 20,
          pe_effect := Reinstatement, pe_reversalOfAllocationId := Some ''w1''\<rparr>]\<rparr>"

lemma sample_exposure_replays:
  "\<exists>res. replayFinancialExposure sample_clock sample_exposure = Inr res"
proof -
  have "\<not> isl (replayFinancialExposure sample_clock sample_exposure)" by code_simp
  then show ?thesis by (cases "replayFinancialExposure sample_clock sample_exposure") auto
qed

text \<open>
  A successful replay is a balance: what it reports as left of an order item is what was paid
  for it, less every finalized refund, plus the signed effect of every prior withdrawal and
  reinstatement, separately for subtotal and tax.
\<close>

theorem replay_balance:
  assumes "replayFinancialExposure pd inp = Inr res" and "i \<in> set (ex_paymentItems inp)"
  shows "map_of (xr_capacity res) (dp_orderItemId i) =
    Some (dp_subtotalMinor i - refunded fr_subtotalMinor (dp_orderItemId i) inp +
            disputed pe_subtotalMinor (dp_orderItemId i) inp,
          dp_taxMinor i - refunded fr_taxMinor (dp_orderItemId i) inp +
            disputed pe_taxMinor (dp_orderItemId i) inp)"
  by (rule replay_capacity [OF assms])

theorem replay_balance_witness:
  "\<exists>res. replayFinancialExposure sample_clock sample_exposure = Inr res \<and>
     map_of (xr_capacity res) ''a'' = Some (400, 50)"
proof -
  obtain res where run: "replayFinancialExposure sample_clock sample_exposure = Inr res"
    using sample_exposure_replays by blast
  have "ex_paymentItems sample_exposure ! 1 \<in> set (ex_paymentItems sample_exposure)" by code_simp
  from replay_balance [OF run this] have "map_of (xr_capacity res) ''a'' = Some (400, 50)"
    by (simp add: sample_exposure_def sample_effect_def refunded_def disputed_def)
  with run show ?thesis by blast
qed

text \<open>
  Replay never leaves an item overdrawn and never restores more than was paid: the remaining
  subtotal and tax of every item lie between zero and the paid amounts, and no item is invented
  or lost.
\<close>

theorem replay_bounds:
  assumes "replayFinancialExposure pd inp = Inr res"
  shows "dom (map_of (xr_capacity res)) = dp_orderItemId ` set (ex_paymentItems inp) \<and>
    (\<forall>i \<in> set (ex_paymentItems inp). \<exists>s t. map_of (xr_capacity res) (dp_orderItemId i) = Some (s, t) \<and>
      0 \<le> s \<and> s \<le> dp_subtotalMinor i \<and> 0 \<le> t \<and> t \<le> dp_taxMinor i)"
  by (rule replay_within [OF assms])

theorem replay_bounds_witness:
  "\<exists>res. replayFinancialExposure sample_clock sample_exposure = Inr res \<and>
     dom (map_of (xr_capacity res)) = {''a'', ''b''} \<and>
     (\<exists>s t. map_of (xr_capacity res) ''a'' = Some (s, t) \<and> 0 \<le> s \<and> s \<le> 600 \<and> 0 \<le> t \<and> t \<le> 50)"
proof -
  obtain res where run: "replayFinancialExposure sample_clock sample_exposure = Inr res"
    using sample_exposure_replays by blast
  from replay_bounds [OF run] run show ?thesis by (auto simp: sample_exposure_def)
qed

text \<open>
  In a history that replays, every reinstatement restores one earlier withdrawal: of the same
  dispute, the same gross set and the same item, by at most the amounts withdrawn; and no
  withdrawal is restored twice.
\<close>

theorem replay_reversals:
  assumes "replayFinancialExposure pd inp = Inr res"
  shows "distinct (map pe_reversalOfAllocationId (reinstatements (ex_priorPresentmentEffects inp))) \<and>
    (\<forall>e \<in> set (reinstatements (ex_priorPresentmentEffects inp)).
      \<exists>w \<in> set (ex_priorPresentmentEffects inp). pe_effect w = Withdrawal \<and>
        pe_reversalOfAllocationId e = Some (pe_allocationId w) \<and> reverses e w)"
  using replay_reversed_once [OF assms] replay_each_reversal [OF assms] by blast

theorem replay_reversals_witness:
  "\<exists>w \<in> set (ex_priorPresentmentEffects sample_exposure). pe_effect w = Withdrawal \<and>
     Some ''w1'' = Some (pe_allocationId w)"
proof -
  let ?e = "ex_priorPresentmentEffects sample_exposure ! 1"
  obtain res where run: "replayFinancialExposure sample_clock sample_exposure = Inr res"
    using sample_exposure_replays by blast
  have "?e \<in> set (reinstatements (ex_priorPresentmentEffects sample_exposure))" by code_simp
  moreover have "pe_reversalOfAllocationId ?e = Some ''w1''" by code_simp
  ultimately show ?thesis using replay_reversals [OF run] by metis
qed

end
