(* ===== verification/RefundPlan.thy ===== *)
theory RefundPlan
  imports Exposure
begin

text \<open>
  \<^verbatim>\<open>allocations/refund.ts\<close>: the plans of a refund, whose finalized components must fit in
  what the payment history leaves of each item, and of a failed refund, which restores what the
  original plan took. Fields the source declares optional are \<open>option\<close> values.
\<close>

record refund_component =
  rc_orderItemId :: string
  rc_subtotalMinor :: int
  rc_taxMinor :: int
  rc_remainingSubtotalCapacityMinor :: int
  rc_remainingTaxCapacityMinor :: int
  rc_presentmentCurrency :: string

datatype refund_attribution = Finalized "refund_component list" | Unresolved_attribution

record refund_input =
  ri_metadata :: allocation_metadata
  ri_providerRefundId :: "string option"
  ri_providerCreatedAt :: "string option"
  ri_presentmentAmountMinor :: int
  ri_presentmentCurrency :: string
  ri_attribution :: refund_attribution
  ri_paymentItems :: "fee_weight list"
  ri_paymentItemCapacities :: "dispute_payment_item list option"
  ri_earlierFinalized :: "finalized_refund list option"
  ri_priorPresentmentEffects :: "presentment_effect list option"
  ri_feeDetails :: "fee_detail list"

record failed_refund_input =
  fi_metadata :: allocation_metadata
  fi_originalGrossSetId :: string
  fi_originalGrossPlan :: allocation_plan
  fi_originalFeeSetId :: "string option"
  fi_originalFeePlan :: "allocation_plan option"
  fi_paymentItems :: "fee_weight list"
  fi_feeDetails :: "fee_detail list"

section \<open>Refunds\<close>

definition assertRefundBoundary :: "refund_input \<Rightarrow> unit fin" where
  "assertRefundBoundary input =
     (let m = ri_metadata input in
      rbind (assertCurrency (am_settlementCurrency m)) (\<lambda>_.
      rbind (assertCurrency (ri_presentmentCurrency input)) (\<lambda>_.
      rbind (assertSafeMoney (ri_presentmentAmountMinor input)) (\<lambda>_.
      rbind (assertSafeMoney (am_amountMinor m)) (\<lambda>_.
      rbind (assertSafeMoney (am_feeMinor m)) (\<lambda>_.
      rbind (assertSafeMoney (am_netMinor m)) (\<lambda>_.
      rbind (throw_if (ri_presentmentAmountMinor input \<le> 0 \<or> am_amountMinor m \<ge> 0 \<or>
        am_feeMinor m < 0) Allocation_mismatch) (\<lambda>_.
      throw_if (am_amountMinor m - am_feeMinor m \<noteq> am_netMinor m) Allocation_mismatch))))))))"

definition refundComponentRows :: "refund_component list \<Rightarrow> alloc_component list" where
  "refundComponentRows components =
     concat (map (\<lambda>c. component_pair Refund_subtotal Refund_tax (rc_orderItemId c)
       (rc_subtotalMinor c) (rc_taxMinor c)) components)"

fun finalized_total ::
  "string \<Rightarrow> string set \<Rightarrow> int \<Rightarrow> refund_component list \<Rightarrow> int fin" where
  "finalized_total currency ids acc [] = Inr acc"
| "finalized_total currency ids acc (c # cs) =
     rbind (assertId (rc_orderItemId c)) (\<lambda>_.
     rbind (assertCurrency (rc_presentmentCurrency c)) (\<lambda>_.
     rbind (assertSafeMoney (rc_subtotalMinor c)) (\<lambda>_.
     rbind (assertSafeMoney (rc_taxMinor c)) (\<lambda>_.
     rbind (assertSafeMoney (rc_remainingSubtotalCapacityMinor c)) (\<lambda>_.
     rbind (assertSafeMoney (rc_remainingTaxCapacityMinor c)) (\<lambda>_.
     rbind (throw_if (rc_orderItemId c \<in> ids \<or> rc_presentmentCurrency c \<noteq> currency \<or>
         rc_subtotalMinor c < 0 \<or> rc_taxMinor c < 0 \<or>
         rc_remainingSubtotalCapacityMinor c < 0 \<or> rc_remainingTaxCapacityMinor c < 0)
       Allocation_mismatch) (\<lambda>_.
     finalized_total currency (insert (rc_orderItemId c) ids)
       (acc + (rc_subtotalMinor c + rc_taxMinor c)) cs)))))))"

definition assertFinalizedComponents :: "refund_input \<Rightarrow> refund_component list \<Rightarrow> unit fin" where
  "assertFinalizedComponents input components =
     rbind (finalized_total (ri_presentmentCurrency input) {} 0 components) (\<lambda>acc.
     throw_if (acc \<noteq> ri_presentmentAmountMinor input) Allocation_mismatch)"

text \<open>The history of a refund, when every part of it is supplied and non-empty.\<close>

definition refund_history :: "refund_input \<Rightarrow> exposure_input option" where
  "refund_history input =
     (case (ri_providerRefundId input, ri_providerCreatedAt input, ri_paymentItemCapacities input,
        ri_earlierFinalized input, ri_priorPresentmentEffects input) of
        (Some providerId, Some createdAt, Some items, Some refunds, Some effects) \<Rightarrow>
          if providerId = [] \<or> createdAt = [] then None
          else Some \<lparr>ex_presentmentCurrency = ri_presentmentCurrency input,
            ex_currentCreatedAt = createdAt, ex_currentProviderId = providerId,
            ex_currentSourceId = am_sourceId (ri_metadata input), ex_paymentItems = items,
            ex_finalizedRefunds = refunds, ex_priorPresentmentEffects = effects\<rparr>
      | _ \<Rightarrow> None)"

definition computedCapacity ::
  "(string \<Rightarrow> int option) \<Rightarrow> refund_input \<Rightarrow> refund_component list \<Rightarrow> capacity_map option fin" where
  "computedCapacity parseDate input components =
     (if ri_providerRefundId input = None \<and> ri_providerCreatedAt input = None \<and>
         ri_paymentItemCapacities input = None \<and> ri_earlierFinalized input = None \<and>
         ri_priorPresentmentEffects input = None
      then Inr None
      else (case refund_history input of
        None \<Rightarrow> Inl Source_linkage_mismatch
      | Some history \<Rightarrow>
          rbind (replayFinancialExposure parseDate history) (\<lambda>replayed.
          rbind (rall (\<lambda>c. case map_of (xr_capacity replayed) (rc_orderItemId c) of
              None \<Rightarrow> Inl Allocation_mismatch
            | Some (s, t) \<Rightarrow>
                throw_if (rc_subtotalMinor c > s \<or> rc_taxMinor c > t) Allocation_mismatch) components)
            (\<lambda>_. Inr (Some (xr_capacity replayed))))))"

definition validateFeeEffects :: "refund_input \<Rightarrow> fee_weight list \<Rightarrow> unit fin" where
  "validateFeeEffects input weights =
     rbind (allocateFeeDetails (am_feeMinor (ri_metadata input))
       (am_settlementCurrency (ri_metadata input)) weights (ri_feeDetails input)) (\<lambda>_. Inr ())"

text \<open>
  The weights of the fee: the subtotals, and the single item itself when its subtotal is zero.
  Dispute withdrawals choose them in the same way.
\<close>

definition subtotal_fee_weights :: "fee_weight list \<Rightarrow> fee_weight list" where
  "subtotal_fee_weights weights =
     (if \<exists>w \<in> set weights. fw_subtotalMinor w > 0 then weights
      else if length weights = 1 then [(weights ! 0)\<lparr>fw_subtotalMinor := 1\<rparr>]
      else weights)"

definition refund_fee_weights :: "refund_input \<Rightarrow> refund_component list \<Rightarrow> fee_weight list" where
  "refund_fee_weights input components =
     subtotal_fee_weights (map (\<lambda>c. \<lparr>fw_orderItemId = rc_orderItemId c,
       fw_subtotalMinor = rc_subtotalMinor c,
       fw_currency = am_settlementCurrency (ri_metadata input)\<rparr>) components)"

definition buildRefundAllocationPlan ::
  "(string \<Rightarrow> int option) \<Rightarrow> refund_input \<Rightarrow> plan_bundle fin" where
  "buildRefundAllocationPlan parseDate input =
     (let m = ri_metadata input; fee = am_feeMinor m; feeEffect = (if fee = 0 then 0 else - fee) in
      rbind (assertRefundBoundary input) (\<lambda>_.
      case ri_attribution input of
        Unresolved_attribution \<Rightarrow>
          rbind (validateFeeEffects input (if fee = 0 then ri_paymentItems input
            else [\<lparr>fw_orderItemId = ''unresolved-fee-validation'', fw_subtotalMinor = 1,
                   fw_currency = am_settlementCurrency m\<rparr>])) (\<lambda>_.
          rbind (basePlan m Gross_amount Unresolved_scope (am_amountMinor m) [] None) (\<lambda>gross.
          rbind (basePlan m Fee_basis Unresolved_scope feeEffect [] None) (\<lambda>feePlan.
          Inr (gross, feePlan))))
      | Finalized components \<Rightarrow>
          rbind (assertFinalizedComponents input components) (\<lambda>_.
          rbind (computedCapacity parseDate input components) (\<lambda>historyCapacity.
          rbind (if historyCapacity \<noteq> None then Inr ()
                 else rall (\<lambda>c. throw_if
                     (rc_subtotalMinor c > rc_remainingSubtotalCapacityMinor c \<or>
                      rc_taxMinor c > rc_remainingTaxCapacityMinor c) Allocation_mismatch) components)
            (\<lambda>_.
          rbind (throw_if (ri_presentmentCurrency input = am_settlementCurrency m \<and>
              - am_amountMinor m \<noteq> ri_presentmentAmountMinor input) Allocation_mismatch) (\<lambda>_.
          rbind (allocateComponents (am_amountMinor m) (am_settlementCurrency m)
              (refundComponentRows components)) (\<lambda>grossItems.
          rbind (allocateFeeDetails fee (am_settlementCurrency m)
              (refund_fee_weights input components) (ri_feeDetails input)) (\<lambda>feeItems.
          rbind (basePlan m Gross_amount Title_scope (am_amountMinor m) grossItems None) (\<lambda>gross.
          rbind (basePlan m Fee_basis Title_scope feeEffect feeItems None) (\<lambda>feePlan.
          Inr (gross, feePlan)))))))))))"

section \<open>Failed refunds\<close>

definition assertFailedRefundBoundary :: "failed_refund_input \<Rightarrow> unit fin" where
  "assertFailedRefundBoundary input =
     (let m = fi_metadata input in
      rbind (assertCurrency (am_settlementCurrency m)) (\<lambda>_.
      rbind (assertSafeMoney (am_amountMinor m)) (\<lambda>_.
      rbind (assertSafeMoney (am_feeMinor m)) (\<lambda>_.
      rbind (assertSafeMoney (am_netMinor m)) (\<lambda>_.
      throw_if (am_amountMinor m \<le> 0 \<or> am_feeMinor m < 0 \<or>
        am_amountMinor m - am_feeMinor m \<noteq> am_netMinor m) Allocation_mismatch)))))"

text \<open>A set that supersedes another names it, and not itself.\<close>

definition assertSupersedes :: "allocation_plan \<Rightarrow> string \<Rightarrow> unit fin" where
  "assertSupersedes plan setId =
     (case ap_supersedesSetId plan of
        None \<Rightarrow> Inr ()
      | Some superseded \<Rightarrow>
          rbind (assertId superseded) (\<lambda>_.
          throw_if (superseded = setId) Source_linkage_mismatch))"

definition assertOriginalPlan :: "allocation_plan \<Rightarrow> string \<Rightarrow> failed_refund_input \<Rightarrow> unit fin" where
  "assertOriginalPlan plan setId input =
     rbind (assertId setId) (\<lambda>_.
     rbind (assertSupersedes plan setId) (\<lambda>_.
     rbind (assertAllocationPlanConserves plan) (\<lambda>_.
     rbind (throw_if (ap_currency plan \<noteq> am_settlementCurrency (fi_metadata input))
       Currency_mismatch) (\<lambda>_.
     throw_if (ap_basis plan \<noteq> Gross_amount \<or> ap_reversalOfSetId plan \<noteq> None \<or>
       ap_balanceTransactionId plan = am_balanceTransactionId (fi_metadata input))
       Source_linkage_mismatch))))"

definition assertOriginalFeeEvidence :: "failed_refund_input \<Rightarrow> unit fin" where
  "assertOriginalFeeEvidence input =
     (case (fi_originalFeeSetId input, fi_originalFeePlan input) of
        (None, None) \<Rightarrow> Inr ()
      | (Some setId, Some plan) \<Rightarrow>
          rbind (assertId setId) (\<lambda>_.
          rbind (assertSupersedes plan setId) (\<lambda>_.
          rbind (assertAllocationPlanConserves plan) (\<lambda>_.
          rbind (throw_if (ap_currency plan \<noteq> am_settlementCurrency (fi_metadata input))
            Currency_mismatch) (\<lambda>_.
          let original = fi_originalGrossPlan input in
          throw_if (ap_basis plan \<noteq> Fee_basis \<or> ap_scope plan \<noteq> Title_scope \<or>
            ap_reversalOfSetId plan \<noteq> None \<or>
            ap_balanceTransactionId plan \<noteq> ap_balanceTransactionId original \<or>
            ap_sourceFingerprint plan \<noteq> ap_sourceFingerprint original \<or>
            ap_algorithmVersion plan \<noteq> ap_algorithmVersion original) Source_linkage_mismatch))))
      | _ \<Rightarrow> Inl Source_linkage_mismatch)"

definition failed_refund_gross ::
  "failed_refund_input \<Rightarrow> (allocation_scope \<times> allocation_item list) fin" where
  "failed_refund_gross input =
     (let m = fi_metadata input; original = fi_originalGrossPlan input in
      case ap_scope original of
        Unresolved_scope \<Rightarrow> Inl Allocation_mismatch
      | Account_scope \<Rightarrow>
          if ap_items original \<noteq> [] \<or> ap_expectedEffectMinor original + am_amountMinor m \<noteq> 0
          then Inl Allocation_mismatch else Inr (Account_scope, [])
      | Title_scope \<Rightarrow>
          if ap_items original = [] \<or> ap_expectedEffectMinor original \<ge> 0 \<or>
             am_amountMinor m > - ap_expectedEffectMinor original
          then Inl Allocation_mismatch
          else rbind (planWeights original) (\<lambda>weights.
            rbind (allocateComponents (am_amountMinor m) (am_settlementCurrency m) weights)
              (\<lambda>grossItems. Inr (Title_scope, grossItems))))"

definition buildFailedRefundAllocationPlan :: "failed_refund_input \<Rightarrow> plan_bundle fin" where
  "buildFailedRefundAllocationPlan input =
     (let m = fi_metadata input; fee = am_feeMinor m in
      rbind (assertFailedRefundBoundary input) (\<lambda>_.
      rbind (assertOriginalPlan (fi_originalGrossPlan input) (fi_originalGrossSetId input) input) (\<lambda>_.
      rbind (assertOriginalFeeEvidence input) (\<lambda>_.
      rbind (failed_refund_gross input) (\<lambda>(grossScope, grossItems).
      rbind (allocateFeeDetails fee (am_settlementCurrency m) (fi_paymentItems input)
        (fi_feeDetails input)) (\<lambda>feeItems.
      rbind (basePlan m Gross_amount grossScope (am_amountMinor m) grossItems
        (Some (fi_originalGrossSetId input))) (\<lambda>gross.
      rbind (basePlan m Fee_basis Title_scope (if fee = 0 then 0 else - fee) feeItems None) (\<lambda>feePlan.
      Inr (gross, feePlan)))))))))"

section \<open>Components\<close>

definition refund_rows :: "refund_component list \<Rightarrow> (string \<times> int \<times> int) list" where
  "refund_rows cs = map (\<lambda>c. (rc_orderItemId c, rc_subtotalMinor c, rc_taxMinor c)) cs"

definition valid_refund_components :: "string \<Rightarrow> refund_component list \<Rightarrow> bool" where
  "valid_refund_components currency cs \<longleftrightarrow> distinct (map rc_orderItemId cs) \<and>
     (\<forall>c \<in> set cs. rc_orderItemId c \<noteq> [] \<and> currency_code currency \<and>
        rc_presentmentCurrency c = currency \<and>
        safe_integer (rc_subtotalMinor c) \<and> safe_integer (rc_taxMinor c) \<and>
        safe_integer (rc_remainingSubtotalCapacityMinor c) \<and>
        safe_integer (rc_remainingTaxCapacityMinor c) \<and>
        0 \<le> rc_subtotalMinor c \<and> 0 \<le> rc_taxMinor c \<and>
        0 \<le> rc_remainingSubtotalCapacityMinor c \<and> 0 \<le> rc_remainingTaxCapacityMinor c)"

definition refund_components_total :: "refund_component list \<Rightarrow> int" where
  "refund_components_total cs = sum_list (map (\<lambda>c. rc_subtotalMinor c + rc_taxMinor c) cs)"

lemma assertId_Inr [simp]: "assertId v = Inr u \<longleftrightarrow> v \<noteq> []"
  by (simp add: assertId_def)

lemma assertId_ok: "v \<noteq> [] \<Longrightarrow> assertId v = Inr ()"
  by simp

lemma refundComponentRows_eq:
  "refundComponentRows cs = component_rows Refund_subtotal Refund_tax (refund_rows cs)"
  by (induction cs) (auto simp: refundComponentRows_def refund_rows_def)

lemma finalized_total_Inr:
  "finalized_total cur ids acc cs = Inr t \<longleftrightarrow>
     valid_refund_components cur cs \<and> rc_orderItemId ` set cs \<inter> ids = {} \<and>
     t = acc + refund_components_total cs"
proof (induction cur ids acc cs rule: finalized_total.induct)
  case (1 cur ids acc)
  then show ?case by (auto simp: valid_refund_components_def refund_components_total_def)
next
  case (2 cur ids acc c cs)
  show ?case
    by (simp add: rbind_eq_Inr "2.IH" valid_refund_components_def refund_components_total_def
        not_less) auto
qed

lemma assertFinalizedComponents_Inr:
  "assertFinalizedComponents input cs = Inr u \<longleftrightarrow>
     valid_refund_components (ri_presentmentCurrency input) cs \<and>
     refund_components_total cs = ri_presentmentAmountMinor input"
  by (auto simp: assertFinalizedComponents_def rbind_eq_Inr finalized_total_Inr)

lemma refund_rows_valid: "valid_refund_components cur cs \<Longrightarrow> valid_rows (refund_rows cs)"
  by (auto simp: valid_refund_components_def valid_rows_def refund_rows_def comp_def)

lemma refund_rows_total:
  "sum_list (map ac_weightMinor (refundComponentRows cs)) = refund_components_total cs"
  by (simp add: refundComponentRows_eq component_rows_total refund_rows_def
      refund_components_total_def comp_def)

text \<open>What each component may take: by its own statement, or by the replayed history.\<close>

definition refund_fits :: "(string \<Rightarrow> int option) \<Rightarrow> refund_input \<Rightarrow> refund_component list \<Rightarrow> bool" where
  "refund_fits pd input cs \<longleftrightarrow> (case computedCapacity pd input cs of
     Inl _ \<Rightarrow> False
   | Inr None \<Rightarrow> (\<forall>c \<in> set cs. rc_subtotalMinor c \<le> rc_remainingSubtotalCapacityMinor c \<and>
       rc_taxMinor c \<le> rc_remainingTaxCapacityMinor c)
   | Inr (Some _) \<Rightarrow> True)"

lemma refund_fits_eq:
  "refund_fits pd input cs \<longleftrightarrow> (\<exists>h. computedCapacity pd input cs = Inr h \<and>
     (if h \<noteq> None then Inr () else rall (\<lambda>c. throw_if
        (rc_subtotalMinor c > rc_remainingSubtotalCapacityMinor c \<or>
         rc_taxMinor c > rc_remainingTaxCapacityMinor c) Allocation_mismatch) cs) = Inr ())"
  by (auto simp: refund_fits_def rall_eq_Inr not_less split: sum.splits option.splits)

lemma computedCapacity_history:
  assumes "computedCapacity pd input cs = Inr h" and "refund_history input = Some hist"
  obtains res where "replayFinancialExposure pd hist = Inr res" and "h = Some (xr_capacity res)"
    and "\<forall>c \<in> set cs. \<exists>s t. map_of (xr_capacity res) (rc_orderItemId c) = Some (s, t) \<and>
      rc_subtotalMinor c \<le> s \<and> rc_taxMinor c \<le> t"
proof -
  have "\<not> (ri_providerRefundId input = None \<and> ri_providerCreatedAt input = None \<and>
         ri_paymentItemCapacities input = None \<and> ri_earlierFinalized input = None \<and>
         ri_priorPresentmentEffects input = None)"
    using assms(2) by (auto simp: refund_history_def)
  with assms obtain res where r: "replayFinancialExposure pd hist = Inr res" "h = Some (xr_capacity res)"
    and all: "rall (\<lambda>c. case map_of (xr_capacity res) (rc_orderItemId c) of
              None \<Rightarrow> Inl Allocation_mismatch
            | Some (s, t) \<Rightarrow>
                throw_if (rc_subtotalMinor c > s \<or> rc_taxMinor c > t) Allocation_mismatch) cs = Inr ()"
    unfolding computedCapacity_def by (simp only: if_False option.case) (auto simp: rbind_eq_Inr)
  have "\<exists>s t. map_of (xr_capacity res) (rc_orderItemId c) = Some (s, t) \<and>
      rc_subtotalMinor c \<le> s \<and> rc_taxMinor c \<le> t" if "c \<in> set cs" for c
    using all that by (fastforce simp: rall_eq_Inr not_less split: option.splits)
  with r that show ?thesis by blast
qed

section \<open>What a planned refund has checked\<close>

definition refund_boundary :: "refund_input \<Rightarrow> bool" where
  "refund_boundary input \<longleftrightarrow> (let m = ri_metadata input in
     currency_code (am_settlementCurrency m) \<and> currency_code (ri_presentmentCurrency input) \<and>
     safe_integer (ri_presentmentAmountMinor input) \<and> safe_integer (am_amountMinor m) \<and>
     safe_integer (am_feeMinor m) \<and> safe_integer (am_netMinor m) \<and>
     0 < ri_presentmentAmountMinor input \<and> am_amountMinor m < 0 \<and> 0 \<le> am_feeMinor m \<and>
     am_netMinor m = am_amountMinor m - am_feeMinor m)"

lemma assertRefundBoundary_Inr: "assertRefundBoundary input = Inr u \<longleftrightarrow> refund_boundary input"
  by (auto simp: assertRefundBoundary_def refund_boundary_def Let_def rbind_eq_Inr not_le not_less)

lemma neg_fee_if: "(if fee = 0 then 0 else - fee) = - (fee :: int)"
  by simp

lemma refund_finalized_Inr:
  assumes "ri_attribution input = Finalized cs"
  shows "buildRefundAllocationPlan pd input = Inr (gross, feePlan) \<longleftrightarrow>
    refund_boundary input \<and> valid_refund_components (ri_presentmentCurrency input) cs \<and>
    refund_components_total cs = ri_presentmentAmountMinor input \<and> refund_fits pd input cs \<and>
    (ri_presentmentCurrency input = am_settlementCurrency (ri_metadata input) \<longrightarrow>
      - am_amountMinor (ri_metadata input) = ri_presentmentAmountMinor input) \<and>
    (\<exists>gi fi. allocateComponents (am_amountMinor (ri_metadata input))
        (am_settlementCurrency (ri_metadata input)) (refundComponentRows cs) = Inr gi \<and>
      allocateFeeDetails (am_feeMinor (ri_metadata input))
        (am_settlementCurrency (ri_metadata input)) (refund_fee_weights input cs)
        (ri_feeDetails input) = Inr fi \<and>
      basePlan (ri_metadata input) Gross_amount Title_scope (am_amountMinor (ri_metadata input)) gi None
        = Inr gross \<and>
      basePlan (ri_metadata input) Fee_basis Title_scope (- am_feeMinor (ri_metadata input)) fi None
        = Inr feePlan)"
  unfolding buildRefundAllocationPlan_def Let_def assms refund_fits_eq neg_fee_if
  by (simp add: rbind_eq_Inr assertRefundBoundary_Inr assertFinalizedComponents_Inr) blast

lemma subtotal_fee_weights_valid:
  assumes "distinct (map fw_orderItemId ws)"
    and "\<forall>w \<in> set ws. safe_integer (fw_subtotalMinor w) \<and> 0 \<le> fw_subtotalMinor w \<and>
      fw_currency w = cur \<and> fw_orderItemId w \<noteq> []"
    and "length ws = 1 \<or> (\<exists>w \<in> set ws. 0 < fw_subtotalMinor w)"
  shows "valid_fee_weights cur (subtotal_fee_weights ws)"
  using assms
  by (auto simp: valid_fee_weights_def subtotal_fee_weights_def length_Suc_conv safe_integer_def)

definition valid_refund :: "(string \<Rightarrow> int option) \<Rightarrow> refund_input \<Rightarrow> refund_component list \<Rightarrow> bool" where
  "valid_refund pd input cs \<longleftrightarrow> (let m = ri_metadata input in
     ri_attribution input = Finalized cs \<and> refund_boundary input \<and> valid_metadata m \<and>
     valid_refund_components (ri_presentmentCurrency input) cs \<and>
     refund_components_total cs = ri_presentmentAmountMinor input \<and> refund_fits pd input cs \<and>
     (ri_presentmentCurrency input = am_settlementCurrency m \<longrightarrow>
        - am_amountMinor m = ri_presentmentAmountMinor input) \<and>
     valid_fee_details (am_feeMinor m) (ri_feeDetails input) \<and>
     (am_feeMinor m = 0 \<or> length cs = 1 \<or> (\<exists>c \<in> set cs. 0 < rc_subtotalMinor c)))"

lemma refund_rows_nonempty:
  "refund_components_total cs \<noteq> 0 \<Longrightarrow> refundComponentRows cs \<noteq> []"
  by (metis list.simps(8) refund_rows_total sum_list.Nil)

lemma refund_succeeds:
  assumes v: "valid_refund pd input cs"
  shows "\<exists>gross feePlan. buildRefundAllocationPlan pd input = Inr (gross, feePlan) \<and>
    items_total (ap_items gross) = am_amountMinor (ri_metadata input) \<and>
    items_total (ap_items feePlan) = - am_feeMinor (ri_metadata input)"
proof -
  let ?m = "ri_metadata input" and ?rows = "refund_rows cs"
  have att: "ri_attribution input = Finalized cs" and md: "valid_metadata ?m"
    and vc: "valid_refund_components (ri_presentmentCurrency input) cs"
    and b: "refund_boundary input"
    using v by (auto simp: valid_refund_def Let_def)
  note rows = refund_rows_valid [OF vc]
  have "refund_components_total cs \<noteq> 0"
    using v by (auto simp: valid_refund_def Let_def refund_boundary_def)
  then obtain gi where gi: "allocateComponents (am_amountMinor ?m) (am_settlementCurrency ?m)
      (refundComponentRows cs) = Inr gi"
    using allocate_rows_succeeds [OF _ rows] refund_rows_nonempty md
    unfolding refundComponentRows_eq valid_metadata_def by metis
  have wf: "wf_items (am_settlementCurrency ?m) gi"
    using allocate_rows_wf [OF gi [unfolded refundComponentRows_eq] _ rows] md
    by (simp add: valid_metadata_def)
  have "valid_fee_weights (am_settlementCurrency ?m) (refund_fee_weights input cs)"
    if "am_feeMinor ?m \<noteq> 0"
    unfolding refund_fee_weights_def using v that
    by (intro subtotal_fee_weights_valid)
      (auto simp: valid_refund_def Let_def valid_refund_components_def comp_def)
  then obtain fi where fi: "allocateFeeDetails (am_feeMinor ?m) (am_settlementCurrency ?m)
      (refund_fee_weights input cs) (ri_feeDetails input) = Inr fi"
    using allocateFeeDetails_succeeds [of "am_feeMinor ?m"] v md
    unfolding valid_metadata_def valid_refund_def Let_def by metis
  obtain gross where gross: "basePlan ?m Gross_amount Title_scope (am_amountMinor ?m) gi None = Inr gross"
    using basePlan_title_succeeds [OF md _ wf allocateComponents_total_effect [OF gi]] md
    by (auto simp: valid_metadata_def)
  obtain feePlan where fee: "basePlan ?m Fee_basis Title_scope (- am_feeMinor ?m) fi None = Inr feePlan"
    using basePlan_title_succeeds [OF md _ allocateFeeDetails_Inr(1,2) [OF fi]] md
    by (auto simp: valid_metadata_def)
  have "buildRefundAllocationPlan pd input = Inr (gross, feePlan)"
    unfolding refund_finalized_Inr [OF att]
    using v gi fi gross fee unfolding valid_refund_def Let_def by blast
  then show ?thesis
    using basePlan_Inr(2) [OF gross] basePlan_Inr(2) [OF fee]
      allocateComponents_total_effect [OF gi] allocateFeeDetails_Inr(2) [OF fi] by auto
qed

section \<open>What a planned reversal of a failed refund has checked\<close>

lemma failed_refund_Inr:
  assumes "buildFailedRefundAllocationPlan input = Inr (gross, feePlan)"
  shows "0 < am_amountMinor (fi_metadata input)"
    and "assertAllocationPlanConserves (fi_originalGrossPlan input) = Inr ()"
    and "failed_refund_gross input = Inr (ap_scope gross, ap_items gross)"
    and "ap_reversalOfSetId gross = Some (fi_originalGrossSetId input)"
    and "fi_originalGrossSetId input \<noteq> []"
    and "ap_basis (fi_originalGrossPlan input) = Gross_amount"
    and "ap_reversalOfSetId (fi_originalGrossPlan input) = None"
    and "items_total (ap_items feePlan) = - am_feeMinor (fi_metadata input)"
    and "ap_currency (fi_originalGrossPlan input) = ap_currency gross"
proof -
  let ?m = "fi_metadata input"
  from assms obtain sc gi fi where b: "assertFailedRefundBoundary input = Inr ()"
    and o: "assertOriginalPlan (fi_originalGrossPlan input) (fi_originalGrossSetId input) input = Inr ()"
    and g: "failed_refund_gross input = Inr (sc, gi)"
    and f: "allocateFeeDetails (am_feeMinor ?m) (am_settlementCurrency ?m) (fi_paymentItems input)
      (fi_feeDetails input) = Inr fi"
    and gp: "basePlan ?m Gross_amount sc (am_amountMinor ?m) gi (Some (fi_originalGrossSetId input))
      = Inr gross"
    and fp: "basePlan ?m Fee_basis Title_scope (- am_feeMinor ?m) fi None = Inr feePlan"
    by (auto simp: buildFailedRefundAllocationPlan_def Let_def rbind_eq_Inr neg_fee_if
        split: prod.splits)
  note gp = basePlan_Inr [OF gp]
  show "0 < am_amountMinor ?m"
    using b by (auto simp: assertFailedRefundBoundary_def Let_def rbind_eq_Inr)
  show "assertAllocationPlanConserves (fi_originalGrossPlan input) = Inr ()"
    "fi_originalGrossSetId input \<noteq> []" "ap_basis (fi_originalGrossPlan input) = Gross_amount"
    "ap_reversalOfSetId (fi_originalGrossPlan input) = None"
    "ap_currency (fi_originalGrossPlan input) = ap_currency gross"
    using o gp by (auto simp: assertOriginalPlan_def rbind_eq_Inr split: if_splits)
  show "failed_refund_gross input = Inr (ap_scope gross, ap_items gross)"
    "ap_reversalOfSetId gross = Some (fi_originalGrossSetId input)" using g gp by auto
  show "items_total (ap_items feePlan) = - am_feeMinor ?m"
    using basePlan_Inr(2) [OF fp] allocateFeeDetails_Inr(2) [OF f] by simp
qed

lemma conserved_negative_total:
  assumes "wf_items cur items" and "\<And>i. i \<in> set items \<Longrightarrow> ai_effectMinor i \<le> 0"
  shows "sum_list (map ac_weightMinor (plan_weights items)) = - items_total items"
  using assms(2) unfolding plan_weights_def items_total_def by (induction items) auto

lemma abs_items_total:
  "\<bar>items_total items\<bar> \<le> sum_list (map ac_weightMinor (plan_weights items))"
  unfolding plan_weights_def items_total_def by (induction items) auto

section \<open>Sample inputs\<close>

definition sample_refund_metadata :: allocation_metadata where
  "sample_refund_metadata = \<lparr>am_sourceKind = Refund_source, am_sourceId = ''r2'',
     am_balanceTransactionId = ''txn2'', am_allocationIdentityPrefix = ''alloc'',
     am_settlementCurrency = ''USD'', am_amountMinor = - 620, am_feeMinor = 7, am_netMinor = - 627,
     am_sourceFingerprint = replicate 64 (CHR ''a''), am_algorithmVersion = 2,
     am_supersedesGrossSetId = None, am_supersedesFeeSetId = None\<rparr>"

definition sample_refund_components :: "refund_component list" where
  "sample_refund_components =
     [\<lparr>rc_orderItemId = ''b'', rc_subtotalMinor = 200, rc_taxMinor = 0,
       rc_remainingSubtotalCapacityMinor = 350, rc_remainingTaxCapacityMinor = 0,
       rc_presentmentCurrency = ''USD''\<rparr>,
      \<lparr>rc_orderItemId = ''a'', rc_subtotalMinor = 380, rc_taxMinor = 40,
       rc_remainingSubtotalCapacityMinor = 0, rc_remainingTaxCapacityMinor = 0,
       rc_presentmentCurrency = ''USD''\<rparr>]"

text \<open>The second component is within the replayed history only.\<close>

definition sample_refund :: refund_input where
  "sample_refund = \<lparr>ri_metadata = sample_refund_metadata, ri_providerRefundId = Some ''re_2'',
     ri_providerCreatedAt = Some ''ttttt'', ri_presentmentAmountMinor = 620,
     ri_presentmentCurrency = ''USD'', ri_attribution = Finalized sample_refund_components,
     ri_paymentItems = [], ri_paymentItemCapacities = Some (ex_paymentItems sample_exposure),
     ri_earlierFinalized = Some (ex_finalizedRefunds sample_exposure),
     ri_priorPresentmentEffects = Some (ex_priorPresentmentEffects sample_exposure),
     ri_feeDetails = [\<lparr>fd_amountMinor = - 7, fd_component = Refund_fee\<rparr>]\<rparr>"

definition sample_failed_refund :: failed_refund_input where
  "sample_failed_refund = \<lparr>fi_metadata = sample_refund_metadata\<lparr>am_balanceTransactionId := ''txn3'',
       am_amountMinor := 500, am_feeMinor := 0, am_netMinor := 500\<rparr>,
     fi_originalGrossSetId = ''gross1'',
     fi_originalGrossPlan = (case buildRefundAllocationPlan sample_clock sample_refund of
       Inr (g, f) \<Rightarrow> g),
     fi_originalFeeSetId = None, fi_originalFeePlan = None, fi_paymentItems = [], fi_feeDetails = []\<rparr>"

lemma sample_refund_valid: "valid_refund sample_clock sample_refund sample_refund_components"
  by code_simp

lemma sample_refund_plans:
  "\<exists>g f. buildRefundAllocationPlan sample_clock sample_refund = Inr (g, f)"
  using refund_succeeds [OF sample_refund_valid] by blast

lemma sample_failed_refund_plans:
  "\<exists>g f. buildFailedRefundAllocationPlan sample_failed_refund = Inr (g, f)"
proof -
  have "\<not> isl (buildFailedRefundAllocationPlan sample_failed_refund)" by code_simp
  then show ?thesis by (cases "buildFailedRefundAllocationPlan sample_failed_refund") auto
qed

section \<open>Properties\<close>

text \<open>
  A refund whose components are consistent and fit in their capacities is always planned:
  the title-level effects add up to the (negative) amount and to minus the fee, and together to
  the net amount of the balance transaction.
\<close>

theorem refund_plan_total:
  assumes "valid_refund pd input cs"
  shows "\<exists>gross feePlan. buildRefundAllocationPlan pd input = Inr (gross, feePlan) \<and>
    items_total (ap_items gross) = am_amountMinor (ri_metadata input) \<and>
    items_total (ap_items feePlan) = - am_feeMinor (ri_metadata input) \<and>
    items_total (ap_items gross) + items_total (ap_items feePlan) = am_netMinor (ri_metadata input)"
proof -
  have "am_netMinor (ri_metadata input) = am_amountMinor (ri_metadata input) - am_feeMinor (ri_metadata input)"
    using assms by (simp add: valid_refund_def Let_def valid_metadata_def)
  with refund_succeeds [OF assms] show ?thesis by auto
qed

theorem refund_plan_total_witness:
  "\<exists>gross feePlan. buildRefundAllocationPlan sample_clock sample_refund = Inr (gross, feePlan) \<and>
     items_total (ap_items gross) + items_total (ap_items feePlan) = - 627"
  using refund_plan_total [OF sample_refund_valid]
  by (auto simp: sample_refund_def sample_refund_metadata_def)

text \<open>
  C13. No refund beyond the payment: if a refund with a supplied history is planned, then every
  component names a paid order item, and all that was refunded before, plus this component, less
  what disputes hold or gave back, is within what was paid for the item, in subtotal and in tax.
\<close>

theorem refund_within_payment:
  assumes "buildRefundAllocationPlan pd input = Inr (gross, feePlan)"
    and "ri_attribution input = Finalized cs" and "refund_history input = Some hist"
    and "c \<in> set cs"
  shows "\<exists>i \<in> set (ex_paymentItems hist). dp_orderItemId i = rc_orderItemId c \<and>
    refunded fr_subtotalMinor (rc_orderItemId c) hist + rc_subtotalMinor c \<le>
      dp_subtotalMinor i + disputed pe_subtotalMinor (rc_orderItemId c) hist \<and>
    refunded fr_taxMinor (rc_orderItemId c) hist + rc_taxMinor c \<le>
      dp_taxMinor i + disputed pe_taxMinor (rc_orderItemId c) hist"
proof -
  from assms(1) have "refund_fits pd input cs" by (simp add: refund_finalized_Inr [OF assms(2)])
  then obtain h where "computedCapacity pd input cs = Inr h" by (auto simp: refund_fits_eq)
  then obtain res where run: "replayFinancialExposure pd hist = Inr res"
    and fit: "\<forall>c \<in> set cs. \<exists>s t. map_of (xr_capacity res) (rc_orderItemId c) = Some (s, t) \<and>
      rc_subtotalMinor c \<le> s \<and> rc_taxMinor c \<le> t"
    using assms(3) by (rule computedCapacity_history)
  from fit assms(4) obtain s t where cap: "map_of (xr_capacity res) (rc_orderItemId c) = Some (s, t)"
    and le: "rc_subtotalMinor c \<le> s" "rc_taxMinor c \<le> t" by blast
  then obtain i where i: "i \<in> set (ex_paymentItems hist)" "dp_orderItemId i = rc_orderItemId c"
    using replay_within [OF run] by (metis domI imageE)
  with replay_capacity [OF run i(1)] cap le show ?thesis by (intro bexI [OF _ i(1)]) simp
qed

theorem refund_within_payment_witness:
  "\<exists>i \<in> set (ex_paymentItems sample_exposure). dp_orderItemId i = ''a'' \<and> 100 + 380 \<le> dp_subtotalMinor i - 100"
proof -
  obtain g f where run: "buildRefundAllocationPlan sample_clock sample_refund = Inr (g, f)"
    using sample_refund_plans by blast
  have h: "refund_history sample_refund = Some (sample_exposure\<lparr>ex_currentProviderId := ''re_2''\<rparr>)"
    by (simp add: refund_history_def sample_refund_def sample_refund_metadata_def sample_exposure_def)
  have att: "ri_attribution sample_refund = Finalized sample_refund_components"
    by (simp add: sample_refund_def)
  have "sample_refund_components ! 1 \<in> set sample_refund_components" by code_simp
  from refund_within_payment [OF run att h this] show ?thesis
    by (simp add: sample_refund_components_def sample_exposure_def refunded_def disputed_def
        sample_effect_def)
qed

text \<open>
  A refund in the settlement currency is attributed without rounding: every title-level
  effect is exactly minus the subtotal or minus the tax of one of the finalized components.
\<close>

theorem refund_plan_same_currency_exact:
  assumes "buildRefundAllocationPlan pd input = Inr (gross, feePlan)"
    and "ri_attribution input = Finalized cs"
    and "ri_presentmentCurrency input = am_settlementCurrency (ri_metadata input)"
    and "i \<in> set (ap_items gross)"
  shows "\<exists>c \<in> set cs. ai_orderItemId i = rc_orderItemId c \<and>
    (ai_component i = Refund_subtotal \<and> ai_effectMinor i = - rc_subtotalMinor c \<or>
     ai_component i = Refund_tax \<and> ai_effectMinor i = - rc_taxMinor c)"
proof -
  let ?m = "ri_metadata input"
  note d = assms(1) [unfolded refund_finalized_Inr [OF assms(2)]]
  have gi: "allocateComponents (am_amountMinor ?m) (am_settlementCurrency ?m)
      (refundComponentRows cs) = Inr (ap_items gross)"
    using d basePlan_Inr(2) by metis
  have neg: "am_amountMinor ?m < 0" and whole: "\<bar>am_amountMinor ?m\<bar> = refund_components_total cs"
    using d assms(3) by (auto simp: refund_boundary_def Let_def)
  obtain a where "a \<in> set (refundComponentRows cs)" "ai_orderItemId i = ac_orderItemId a"
    "ai_component i = ac_component a" "ai_effectMinor i = - ac_weightMinor a"
    by (rule allocateComponents_item [OF gi assms(4)]) (use neg whole in \<open>simp add: refund_rows_total\<close>)
  then show ?thesis
    unfolding refundComponentRows_eq by (auto simp: component_rows_member refund_rows_def)
qed

theorem refund_plan_same_currency_exact_witness:
  "\<exists>c \<in> set sample_refund_components. ''a'' = rc_orderItemId c \<and>
     (Refund_tax = Refund_subtotal \<and> - 40 = - rc_subtotalMinor c \<or>
      Refund_tax = Refund_tax \<and> - 40 = - rc_taxMinor c)"
proof -
  let ?i = "\<lparr>ai_orderItemId = ''a'', ai_component = Refund_tax, ai_effectMinor = - 40,
    ai_currency = ''USD'', ai_tieBreakKey = ''a:tax''\<rparr>"
  obtain g f where run: "buildRefundAllocationPlan sample_clock sample_refund = Inr (g, f)"
    using sample_refund_plans by blast
  have "(case buildRefundAllocationPlan sample_clock sample_refund of Inl _ \<Rightarrow> False
      | Inr (g, f) \<Rightarrow> ?i \<in> set (ap_items g))" by code_simp
  with run have i: "?i \<in> set (ap_items g)" by simp
  have att: "ri_attribution sample_refund = Finalized sample_refund_components"
    and cur: "ri_presentmentCurrency sample_refund = am_settlementCurrency (ri_metadata sample_refund)"
    by (simp_all add: sample_refund_def sample_refund_metadata_def)
  show ?thesis using refund_plan_same_currency_exact [OF run att cur i] by simp
qed

text \<open>
  A failed refund gives back at most what the refund took: the plan restores exactly the
  amount of the balance transaction, every title-level effect is non-negative and belongs to an
  item of the original plan, under the same component, and does not exceed what that item lost.
\<close>

theorem failed_refund_restores_within_original:
  assumes "buildFailedRefundAllocationPlan input = Inr (gross, feePlan)"
    and "ap_scope (fi_originalGrossPlan input) = Title_scope"
  shows "items_total (ap_items gross) = am_amountMinor (fi_metadata input) \<and>
    (\<forall>i \<in> set (ap_items gross). \<exists>orig \<in> set (ap_items (fi_originalGrossPlan input)).
       ai_orderItemId i = ai_orderItemId orig \<and> ai_component i = ai_component orig \<and>
       0 \<le> ai_effectMinor i \<and> ai_effectMinor i \<le> \<bar>ai_effectMinor orig\<bar>)"
proof -
  let ?m = "fi_metadata input" and ?o = "fi_originalGrossPlan input"
  note d = failed_refund_Inr [OF assms(1)]
  have d': "distinct (map ai_tieBreakKey (ap_items ?o))" "items_total (ap_items ?o) = ap_expectedEffectMinor ?o"
    using d(2) assms(2) by (auto simp: conserves_Inr wf_items_def)
  have run: "allocateComponents (am_amountMinor ?m) (am_settlementCurrency ?m)
      (plan_weights (ap_items ?o)) = Inr (ap_items gross)"
    and le: "am_amountMinor ?m \<le> - ap_expectedEffectMinor ?o"
    using d(3) assms(2) d'(1)
    by (auto simp: failed_refund_gross_def Let_def planWeights_eq rbind_eq_Inr split: if_splits)
  have cover: "\<bar>am_amountMinor ?m\<bar> \<le> sum_list (map ac_weightMinor (plan_weights (ap_items ?o)))"
    using le d(1) d'(2) abs_items_total [of "ap_items ?o"] by simp
  have "\<exists>orig \<in> set (ap_items ?o). ai_orderItemId i = ai_orderItemId orig \<and>
      ai_component i = ai_component orig \<and> 0 \<le> ai_effectMinor i \<and>
      ai_effectMinor i \<le> \<bar>ai_effectMinor orig\<bar>" if i: "i \<in> set (ap_items gross)" for i
  proof -
    obtain c where "c \<in> set (plan_weights (ap_items ?o))" "ai_orderItemId i = ac_orderItemId c"
      "ai_component i = ac_component c" "0 \<le> ai_effectMinor i * sgn (am_amountMinor ?m)"
      "\<bar>ai_effectMinor i\<bar> \<le> ac_weightMinor c"
      by (rule allocateComponents_item [OF run i]) (use cover in blast)
    then show ?thesis using d(1) by (auto simp: plan_weights_def)
  qed
  with allocateComponents_total_effect [OF run] show ?thesis by blast
qed


theorem failed_refund_restores_within_original_witness:
  "\<exists>g f. buildFailedRefundAllocationPlan sample_failed_refund = Inr (g, f) \<and>
     items_total (ap_items g) = 500"
proof -
  obtain g f where run: "buildFailedRefundAllocationPlan sample_failed_refund = Inr (g, f)"
    using sample_failed_refund_plans by blast
  have sc: "ap_scope (fi_originalGrossPlan sample_failed_refund) = Title_scope" by code_simp
  have "am_amountMinor (fi_metadata sample_failed_refund) = 500"
    by (simp add: sample_failed_refund_def)
  with failed_refund_restores_within_original [OF run sc] run show ?thesis by auto
qed

end
