(* ===== verification/DisputePlan.thy ===== *)
theory DisputePlan
  imports RefundPlan
begin

text \<open>
  \<^verbatim>\<open>allocations/dispute.ts\<close>: the plans of a dispute movement. A withdrawal is spread over what
  the replayed history leaves of every item, a reinstatement over the withdrawals of the gross
  set it reverses, a fee credit over the fees of the withdrawal. The keys the source builds by
  joining strings with NUL are pairs.
\<close>

datatype dispute_effect = Withdrawal_effect | Reinstatement_effect | Fee_credit_effect

record dispute_input =
  di_metadata :: allocation_metadata
  di_effect :: dispute_effect
  di_disputeId :: string
  di_providerCreatedAt :: string
  di_providerTransactionId :: string
  di_presentmentAmountMinor :: int
  di_presentmentCurrency :: string
  di_paymentItems :: "dispute_payment_item list"
  di_finalizedRefunds :: "finalized_refund list"
  di_priorPresentmentEffects :: "presentment_effect list"
  di_withdrawalSetId :: "string option"
  di_reversesSetId :: "string option"
  di_reversesFeeSetId :: "string option"
  di_withdrawalGrossPlan :: "allocation_plan option"
  di_withdrawalFeePlan :: "allocation_plan option"
  di_feeDetails :: "fee_detail list"

type_synonym dispute_bundle = "plan_bundle \<times> presentment_effect list"

section \<open>Boundary\<close>

definition assertDisputeBoundary :: "(string \<Rightarrow> int option) \<Rightarrow> dispute_input \<Rightarrow> int fin" where
  "assertDisputeBoundary parseDate input =
     (let m = di_metadata input; effect = di_effect input in
      rbind (assertCurrency (am_settlementCurrency m)) (\<lambda>_.
      rbind (assertCurrency (di_presentmentCurrency input)) (\<lambda>_.
      rbind (assertSafeMoney (am_amountMinor m)) (\<lambda>_.
      rbind (assertSafeMoney (am_feeMinor m)) (\<lambda>_.
      rbind (assertSafeMoney (am_netMinor m)) (\<lambda>_.
      rbind (assertSafeMoney (di_presentmentAmountMinor input)) (\<lambda>_.
      rbind (assertId (di_disputeId input)) (\<lambda>_.
      rbind (assertId (di_providerTransactionId input)) (\<lambda>_.
      rbind (throw_if (am_algorithmVersion m \<noteq> 1 \<and> am_algorithmVersion m \<noteq> 2)
        Source_linkage_mismatch) (\<lambda>_.
      rbind (parseInstant parseDate (di_providerCreatedAt input)) (\<lambda>providerCreatedAtMs.
      rbind (throw_if (am_sourceKind m \<noteq> Dispute_source \<or> di_presentmentAmountMinor input \<le> 0 \<or>
          am_feeMinor m < 0 \<or> am_amountMinor m - am_feeMinor m \<noteq> am_netMinor m)
        Allocation_mismatch) (\<lambda>_.
      rbind (throw_if ((effect = Withdrawal_effect \<and> am_amountMinor m \<ge> 0) \<or>
          (effect \<noteq> Withdrawal_effect \<and> am_amountMinor m \<le> 0)) Allocation_mismatch) (\<lambda>_.
      rbind (throw_if (di_presentmentCurrency input = am_settlementCurrency m \<and>
          \<bar>am_amountMinor m\<bar> \<noteq> di_presentmentAmountMinor input) Allocation_mismatch) (\<lambda>_.
      Inr providerCreatedAtMs))))))))))))))"

section \<open>Withdrawals\<close>

definition remainingWeights :: "capacity_map \<Rightarrow> alloc_component list" where
  "remainingWeights capacity =
     concat (map (\<lambda>(orderItemId, s, t). component_pair Dispute_subtotal Dispute_tax orderItemId s t)
       capacity)"

definition effect_rows :: "allocation_item list \<Rightarrow> capacity_map" where
  "effect_rows presentmentItems = fold (\<lambda>item rows.
     let (s, t) = (case map_of rows (ai_orderItemId item) of None \<Rightarrow> (0, 0) | Some row \<Rightarrow> row) in
     AList.update (ai_orderItemId item)
       (if ai_component item = Dispute_subtotal then (s + ai_effectMinor item, t)
        else (s, t + ai_effectMinor item)) rows) presentmentItems []"

definition withdrawalEffects :: "dispute_input \<Rightarrow> allocation_item list \<Rightarrow> presentment_effect list" where
  "withdrawalEffects input presentmentItems =
     map (\<lambda>(orderItemId, s, t).
       \<lparr>pe_allocationId = am_allocationIdentityPrefix (di_metadata input) @ '':presentment:'' @ orderItemId,
        pe_withdrawalSetId = None, pe_disputeId = di_disputeId input,
        pe_providerCreatedAt = di_providerCreatedAt input,
        pe_providerTransactionId = di_providerTransactionId input,
        pe_orderItemId = orderItemId, pe_subtotalMinor = s, pe_taxMinor = t,
        pe_presentmentCurrency = di_presentmentCurrency input,
        pe_effect = Withdrawal, pe_reversalOfAllocationId = None\<rparr>)
     (filter (\<lambda>(_, s, t). s + t \<noteq> 0) (effect_rows presentmentItems))"

definition assertWithdrawalShape :: "dispute_input \<Rightarrow> unit fin" where
  "assertWithdrawalShape input =
     throw_if (di_withdrawalSetId input \<noteq> None \<or> di_reversesSetId input \<noteq> None \<or>
       di_reversesFeeSetId input \<noteq> None \<or> di_withdrawalGrossPlan input \<noteq> None \<or>
       di_withdrawalFeePlan input \<noteq> None) Source_linkage_mismatch"

definition dispute_history :: "dispute_input \<Rightarrow> exposure_input" where
  "dispute_history input =
     \<lparr>ex_presentmentCurrency = di_presentmentCurrency input,
      ex_currentCreatedAt = di_providerCreatedAt input,
      ex_currentProviderId = di_providerTransactionId input,
      ex_currentSourceId = di_disputeId input, ex_paymentItems = di_paymentItems input,
      ex_finalizedRefunds = di_finalizedRefunds input,
      ex_priorPresentmentEffects = di_priorPresentmentEffects input\<rparr>"

definition dispute_plans ::
  "dispute_input \<Rightarrow> allocation_item list \<Rightarrow> string option \<Rightarrow> allocation_item list \<Rightarrow> int \<Rightarrow>
   presentment_effect list \<Rightarrow> dispute_bundle fin" where
  "dispute_plans input grossItems reversalOf feeItems feeEffect effects =
     (let m = di_metadata input in
      rbind (basePlan m Gross_amount Title_scope (am_amountMinor m) grossItems reversalOf) (\<lambda>gross.
      rbind (basePlan m Fee_basis Title_scope feeEffect feeItems None) (\<lambda>feePlan.
      Inr ((gross, feePlan), effects))))"

definition buildWithdrawalPlan :: "dispute_input \<Rightarrow> capacity_map \<Rightarrow> dispute_bundle fin" where
  "buildWithdrawalPlan input capacity =
     (let m = di_metadata input; fee = am_feeMinor m in
      rbind (assertWithdrawalShape input) (\<lambda>_.
      let weights = remainingWeights capacity;
          available = sum_list (map ac_weightMinor weights) in
      rbind (throw_if (available = 0 \<or> di_presentmentAmountMinor input > available)
        Allocation_mismatch) (\<lambda>_.
      rbind (allocateComponents (- di_presentmentAmountMinor input) (di_presentmentCurrency input)
        weights) (\<lambda>presentmentItems.
      rbind (allocateComponents (am_amountMinor m) (am_settlementCurrency m)
          (map (\<lambda>item. \<lparr>ac_orderItemId = ai_orderItemId item, ac_component = ai_component item,
            ac_weightMinor = - ai_effectMinor item, ac_tieBreakKey = ai_tieBreakKey item\<rparr>)
            presentmentItems)) (\<lambda>grossItems.
      let presentmentEffects = withdrawalEffects input presentmentItems;
          feeWeights = subtotal_fee_weights (map (\<lambda>effect.
            \<lparr>fw_orderItemId = pe_orderItemId effect, fw_subtotalMinor = - pe_subtotalMinor effect,
             fw_currency = am_settlementCurrency m\<rparr>) presentmentEffects) in
      rbind (allocateFeeDetails fee (am_settlementCurrency m) feeWeights (di_feeDetails input))
        (\<lambda>feeItems.
      dispute_plans input grossItems None feeItems (if fee = 0 then 0 else - fee)
        presentmentEffects))))))"

section \<open>Reinstatements\<close>

definition bad_superseded :: "allocation_plan \<Rightarrow> bool" where
  "bad_superseded plan \<longleftrightarrow> ap_supersedesSetId plan = Some []"

definition assertWithdrawalPlan :: "allocation_plan \<Rightarrow> dispute_input \<Rightarrow> unit fin" where
  "assertWithdrawalPlan plan input =
     (let m = di_metadata input in
      rbind (assertAllocationPlanConserves plan) (\<lambda>_.
      rbind (throw_if (ap_currency plan \<noteq> am_settlementCurrency m) Currency_mismatch) (\<lambda>_.
      rbind (throw_if (bad_superseded plan) Source_linkage_mismatch) (\<lambda>_.
      rbind (throw_if (ap_basis plan \<noteq> Gross_amount \<or> ap_scope plan \<noteq> Title_scope \<or>
          ap_expectedEffectMinor plan \<ge> 0 \<or> ap_algorithmVersion plan \<noteq> am_algorithmVersion m \<or>
          ap_reversalOfSetId plan \<noteq> None \<or>
          ap_balanceTransactionId plan = am_balanceTransactionId m) Source_linkage_mismatch) (\<lambda>_.
      throw_if (\<exists>item \<in> set (ap_items plan). ai_effectMinor item > 0 \<or>
          ai_component item \<notin> {Dispute_subtotal, Dispute_tax} \<or>
          ai_tieBreakKey item \<noteq> ai_orderItemId item @
            (if ai_component item = Dispute_subtotal then '':subtotal'' else '':tax''))
        Source_linkage_mismatch)))))"

definition withdrawal_components ::
  "presentment_effect list \<Rightarrow> ((string \<times> fin_component) \<times> int) list" where
  "withdrawal_components exact = concat (map (\<lambda>effect.
     filter (\<lambda>(_, effectMinor). effectMinor \<noteq> 0)
       [((pe_orderItemId effect, Dispute_subtotal), pe_subtotalMinor effect),
        ((pe_orderItemId effect, Dispute_tax), pe_taxMinor effect)]) exact)"

definition plan_components :: "allocation_plan \<Rightarrow> ((string \<times> fin_component) \<times> int) list" where
  "plan_components plan =
     map (\<lambda>item. ((ai_orderItemId item, ai_component item), ai_effectMinor item)) (ap_items plan)"

text \<open>The version-2 comparison of the gross plan with the presentment history.\<close>

definition assertWithdrawalComponents ::
  "dispute_input \<Rightarrow> allocation_plan \<Rightarrow> presentment_effect list \<Rightarrow> unit fin" where
  "assertWithdrawalComponents input plan exact =
     (let expectedComponents = withdrawal_components exact;
          actualComponents = map_of (rev (plan_components plan)) in
      rbind (throw_if (\<not> distinct (map fst expectedComponents)) Source_linkage_mismatch) (\<lambda>_.
      throw_if (length (remdups (map fst (plan_components plan))) \<noteq> length expectedComponents \<or>
        (\<exists>(key, effectMinor) \<in> set expectedComponents. actualComponents key = None \<or>
          (di_presentmentCurrency input = am_settlementCurrency (di_metadata input) \<and>
           actualComponents key \<noteq> Some effectMinor))) Source_linkage_mismatch))"

definition effects_total :: "presentment_effect list \<Rightarrow> int" where
  "effects_total es = sum_list (map (\<lambda>e. pe_subtotalMinor e + pe_taxMinor e) es)"

definition assertReinstatementShape ::
  "dispute_input \<Rightarrow> (string \<times> presentment_effect) list \<Rightarrow> string set \<Rightarrow>
   presentment_effect list fin" where
  "assertReinstatementShape input withdrawals reversedWithdrawalIds =
     (let m = di_metadata input;
          same = (di_presentmentCurrency input = am_settlementCurrency m) in
      case di_withdrawalGrossPlan input of
        None \<Rightarrow> Inl Source_linkage_mismatch
      | Some plan \<Rightarrow>
          rbind (throw_if (di_withdrawalSetId input \<noteq> None \<or> di_reversesSetId input \<in> {None, Some []} \<or>
            di_reversesFeeSetId input \<noteq> None \<or> di_withdrawalFeePlan input \<noteq> None)
            Source_linkage_mismatch) (\<lambda>_.
          rbind (assertWithdrawalPlan plan input) (\<lambda>_.
          let exact = filter (\<lambda>effect. pe_disputeId effect = di_disputeId input \<and>
                pe_withdrawalSetId effect = di_reversesSetId input) (map snd withdrawals);
              expected = effects_total exact in
          rbind (throw_if (exact = []) Source_linkage_mismatch) (\<lambda>_.
          rbind (throw_if (\<exists>effect \<in> set exact. pe_allocationId effect \<in> reversedWithdrawalIds)
            Source_linkage_mismatch) (\<lambda>_.
          rbind (throw_if (same \<and> expected \<noteq> ap_expectedEffectMinor plan)
            Source_linkage_mismatch) (\<lambda>_.
          rbind (throw_if (\<not> same \<and> (am_amountMinor m \<noteq> - ap_expectedEffectMinor plan \<or>
            di_presentmentAmountMinor input \<noteq> - expected)) Allocation_mismatch) (\<lambda>_.
          rbind (throw_if (di_presentmentAmountMinor input > - expected) Allocation_mismatch) (\<lambda>_.
          rbind (if am_algorithmVersion m = 2 then assertWithdrawalComponents input plan exact
                 else Inr ()) (\<lambda>_.
          Inr exact)))))))))"

text \<open>The weights of the gross plan, each of which must be a dispute subtotal or tax.\<close>

definition dispute_plan_weights ::
  "(fin_component \<Rightarrow> fin_component) \<Rightarrow> allocation_plan \<Rightarrow> alloc_component list fin" where
  "dispute_plan_weights relabel plan =
     rbind (planWeights plan) (\<lambda>weights.
     rbind (rall (\<lambda>w. throw_if (ac_component w \<noteq> Dispute_subtotal \<and> ac_component w \<noteq> Dispute_tax)
       Source_linkage_mismatch) weights) (\<lambda>_.
     Inr (map (\<lambda>w. w\<lparr>ac_component := relabel (ac_component w)\<rparr>) weights)))"

definition reinstatement_of ::
  "dispute_input \<Rightarrow> presentment_effect \<Rightarrow> int \<times> int \<Rightarrow> presentment_effect" where
  "reinstatement_of input withdrawal row =
     \<lparr>pe_allocationId = am_allocationIdentityPrefix (di_metadata input) @ '':presentment:'' @
        pe_allocationId withdrawal,
      pe_withdrawalSetId = pe_withdrawalSetId withdrawal, pe_disputeId = di_disputeId input,
      pe_providerCreatedAt = di_providerCreatedAt input,
      pe_providerTransactionId = di_providerTransactionId input,
      pe_orderItemId = pe_orderItemId withdrawal, pe_subtotalMinor = fst row,
      pe_taxMinor = snd row, pe_presentmentCurrency = di_presentmentCurrency input,
      pe_effect = Reinstatement, pe_reversalOfAllocationId = Some (pe_allocationId withdrawal)\<rparr>"

definition allocated_rows :: "allocation_item list \<Rightarrow> capacity_map" where
  "allocated_rows allocations = fold (\<lambda>item rows.
     let (s, t) = (case map_of rows (ai_orderItemId item) of None \<Rightarrow> (0, 0) | Some row \<Rightarrow> row) in
     AList.update (ai_orderItemId item)
       (if ai_component item = Dispute_subtotal then (ai_effectMinor item, t)
        else (s, ai_effectMinor item)) rows) allocations []"

definition reinstatementEffects_by_plan ::
  "dispute_input \<Rightarrow> allocation_plan \<Rightarrow> presentment_effect list \<Rightarrow> presentment_effect list fin" where
  "reinstatementEffects_by_plan input plan original =
     rbind (throw_if (\<not> distinct (map pe_orderItemId original)) Source_linkage_mismatch) (\<lambda>_.
     rbind (dispute_plan_weights id plan) (\<lambda>weights.
     rbind (allocateComponents (di_presentmentAmountMinor input) (di_presentmentCurrency input)
       weights) (\<lambda>allocations.
     let effectsByOrderItem = allocated_rows allocations in
     Inr (concat (map (\<lambda>withdrawal.
       case map_of effectsByOrderItem (pe_orderItemId withdrawal) of
         None \<Rightarrow> []
       | Some row \<Rightarrow> if fst row + snd row = 0 then []
                     else [reinstatement_of input withdrawal row]) original)))))"

definition component_amount :: "fin_component \<Rightarrow> allocation_item list \<Rightarrow> int" where
  "component_amount component items =
     (case find (\<lambda>item. ai_component item = component) items of
        None \<Rightarrow> 0 | Some item \<Rightarrow> ai_effectMinor item)"

definition reinstate_withdrawal ::
  "dispute_input \<Rightarrow> presentment_effect list \<Rightarrow> allocation_item \<Rightarrow> presentment_effect fin" where
  "reinstate_withdrawal input original allocation =
     (case find (\<lambda>effect. pe_allocationId effect = ai_orderItemId allocation) original of
        None \<Rightarrow> Inl Source_linkage_mismatch
      | Some withdrawal \<Rightarrow>
          rbind (allocateComponents (ai_effectMinor allocation) (di_presentmentCurrency input)
            ((if pe_subtotalMinor withdrawal = 0 then [] else
               [\<lparr>ac_orderItemId = pe_orderItemId withdrawal, ac_component = Dispute_subtotal,
                 ac_weightMinor = - pe_subtotalMinor withdrawal, ac_tieBreakKey = ''subtotal''\<rparr>]) @
             (if pe_taxMinor withdrawal = 0 then [] else
               [\<lparr>ac_orderItemId = pe_orderItemId withdrawal, ac_component = Dispute_tax,
                 ac_weightMinor = - pe_taxMinor withdrawal, ac_tieBreakKey = ''tax''\<rparr>]))) (\<lambda>split.
          Inr (reinstatement_of input withdrawal
            (component_amount Dispute_subtotal split, component_amount Dispute_tax split))))"

definition reinstatementEffects_by_history ::
  "dispute_input \<Rightarrow> presentment_effect list \<Rightarrow> presentment_effect list fin" where
  "reinstatementEffects_by_history input original =
     rbind (allocateComponents (di_presentmentAmountMinor input) (di_presentmentCurrency input)
       (map (\<lambda>effect. \<lparr>ac_orderItemId = pe_allocationId effect, ac_component = Dispute_reinstatement,
          ac_weightMinor = - pe_subtotalMinor effect - pe_taxMinor effect,
          ac_tieBreakKey = pe_allocationId effect\<rparr>) original)) (\<lambda>allocations.
     rmap (reinstate_withdrawal input original)
       (filter (\<lambda>allocation. ai_effectMinor allocation \<noteq> 0) allocations))"

definition reinstatementEffects ::
  "dispute_input \<Rightarrow> presentment_effect list \<Rightarrow> presentment_effect list fin" where
  "reinstatementEffects input original =
     (if am_algorithmVersion (di_metadata input) = 2 \<and>
         di_presentmentCurrency input = am_settlementCurrency (di_metadata input)
      then (case di_withdrawalGrossPlan input of
          None \<Rightarrow> Inl Source_linkage_mismatch
        | Some plan \<Rightarrow> reinstatementEffects_by_plan input plan original)
      else reinstatementEffects_by_history input original)"

definition reinstatementSettlementItems ::
  "dispute_input \<Rightarrow> presentment_effect list \<Rightarrow> allocation_item list fin" where
  "reinstatementSettlementItems input presentmentEffects =
     (let m = di_metadata input in
      if am_algorithmVersion m = 1 then
        allocateComponents (am_amountMinor m) (am_settlementCurrency m)
          (map (\<lambda>effect. \<lparr>ac_orderItemId = pe_orderItemId effect, ac_component = Dispute_reinstatement,
             ac_weightMinor = pe_subtotalMinor effect + pe_taxMinor effect,
             ac_tieBreakKey = the (pe_reversalOfAllocationId effect)\<rparr>) presentmentEffects)
      else if am_algorithmVersion m \<noteq> 2 then Inl Source_linkage_mismatch
      else (case di_withdrawalGrossPlan input of
          None \<Rightarrow> Inl Source_linkage_mismatch
        | Some plan \<Rightarrow>
            rbind (dispute_plan_weights (\<lambda>c. if c = Dispute_subtotal then Dispute_reinstatement
              else Dispute_tax) plan) (\<lambda>weights.
            allocateComponents (am_amountMinor m) (am_settlementCurrency m) weights)))"

definition buildReinstatementPlan :: "dispute_input \<Rightarrow> exposure_result \<Rightarrow> dispute_bundle fin" where
  "buildReinstatementPlan input replayed =
     rbind (assertReinstatementShape input (xr_withdrawals replayed)
       (xr_reversedWithdrawalIds replayed)) (\<lambda>original.
     rbind (reinstatementEffects input original) (\<lambda>presentmentEffects.
     rbind (reinstatementSettlementItems input presentmentEffects) (\<lambda>grossItems.
     dispute_plans input grossItems (di_reversesSetId input) [] 0 presentmentEffects)))"

section \<open>Fee credits\<close>

definition feeCreditItems :: "dispute_input \<Rightarrow> allocation_item list fin" where
  "feeCreditItems input =
     (let m = di_metadata input in
      case di_withdrawalFeePlan input of
        None \<Rightarrow> Inl Source_linkage_mismatch
      | Some plan \<Rightarrow>
          rbind (throw_if (di_withdrawalSetId input \<noteq> None \<or> di_reversesSetId input \<noteq> None \<or>
            di_reversesFeeSetId input \<in> {None, Some []} \<or> am_feeMinor m \<noteq> 0 \<or>
            di_feeDetails input \<noteq> []) Source_linkage_mismatch) (\<lambda>_.
          rbind (assertAllocationPlanConserves plan) (\<lambda>_.
          rbind (throw_if (ap_currency plan \<noteq> am_settlementCurrency m) Currency_mismatch) (\<lambda>_.
          rbind (throw_if (bad_superseded plan) Source_linkage_mismatch) (\<lambda>_.
          rbind (throw_if (ap_basis plan \<noteq> Fee_basis \<or> ap_scope plan \<noteq> Title_scope \<or>
              ap_expectedEffectMinor plan \<ge> 0 \<or> ap_algorithmVersion plan \<noteq> am_algorithmVersion m \<or>
              ap_reversalOfSetId plan \<noteq> None \<or>
              ap_balanceTransactionId plan = am_balanceTransactionId m \<or>
              am_amountMinor m > - ap_expectedEffectMinor plan) Source_linkage_mismatch) (\<lambda>_.
          rbind (throw_if (\<exists>item \<in> set (ap_items plan). ai_effectMinor item > 0 \<or>
              ai_component item \<notin> {Dispute_fee, Provider_fee_tax, Fee_credit, Other_component} \<or>
              ai_tieBreakKey item \<noteq> ai_orderItemId item @ '':'' @ component_name (ai_component item))
            Source_linkage_mismatch) (\<lambda>_.
          rbind (planWeights plan) (\<lambda>weights.
          rbind (allocateComponents (am_amountMinor m) (am_settlementCurrency m)
            (map (\<lambda>w. w\<lparr>ac_component := Fee_credit\<rparr>) weights)) (\<lambda>items.
          Inr (map (\<lambda>item. item\<lparr>ai_component := Fee_credit\<rparr>) items))))))))))"

definition buildDisputeAllocationPlan ::
  "(string \<Rightarrow> int option) \<Rightarrow> dispute_input \<Rightarrow> dispute_bundle fin" where
  "buildDisputeAllocationPlan parseDate input =
     rbind (assertDisputeBoundary parseDate input) (\<lambda>_.
     if di_effect input = Fee_credit_effect then
       rbind (feeCreditItems input) (\<lambda>grossItems. dispute_plans input grossItems None [] 0 [])
     else
       rbind (replayFinancialExposure parseDate (dispute_history input)) (\<lambda>replayed.
       if di_effect input = Withdrawal_effect
       then buildWithdrawalPlan input (xr_capacity replayed)
       else buildReinstatementPlan input replayed))"

section \<open>Rows of presentment effects\<close>

definition item_sum :: "(fin_component \<Rightarrow> bool) \<Rightarrow> string \<Rightarrow> allocation_item list \<Rightarrow> int" where
  "item_sum P k items =
     sum_list (map ai_effectMinor (filter (\<lambda>i. ai_orderItemId i = k \<and> P (ai_component i)) items))"

lemma item_sum_simps [simp]:
  "item_sum P k [] = 0"
  "item_sum P k (i # items) =
     (if ai_orderItemId i = k \<and> P (ai_component i) then ai_effectMinor i else 0) + item_sum P k items"
  by (simp_all add: item_sum_def)

lemma remainingWeights_eq:
  "remainingWeights capacity = component_rows Dispute_subtotal Dispute_tax capacity"
  by (simp add: remainingWeights_def component_rows_def)

abbreviation add_row :: "allocation_item \<Rightarrow> capacity_map \<Rightarrow> capacity_map" where
  "add_row item rows \<equiv>
     let (s, t) = (case map_of rows (ai_orderItemId item) of None \<Rightarrow> (0, 0) | Some row \<Rightarrow> row) in
     AList.update (ai_orderItemId item)
       (if ai_component item = Dispute_subtotal then (s + ai_effectMinor item, t)
        else (s, t + ai_effectMinor item)) rows"

definition row_or_zero :: "capacity_map \<Rightarrow> string \<Rightarrow> int \<times> int" where
  "row_or_zero rows k = (case map_of rows k of None \<Rightarrow> (0, 0) | Some row \<Rightarrow> row)"

lemma add_row_eq:
  "add_row item rows = AList.update (ai_orderItemId item)
     (fst (row_or_zero rows (ai_orderItemId item)) +
        (if ai_component item = Dispute_subtotal then ai_effectMinor item else 0),
      snd (row_or_zero rows (ai_orderItemId item)) +
        (if ai_component item \<noteq> Dispute_subtotal then ai_effectMinor item else 0)) rows"
  by (cases "row_or_zero rows (ai_orderItemId item)") (simp add: row_or_zero_def)

lemma effect_rows_from:
  "distinct (map fst rows) \<Longrightarrow> distinct (map fst (fold add_row items rows)) \<and>
   map_of (fold add_row items rows) k =
     (if k \<in> ai_orderItemId ` set items \<or> k \<in> fst ` set rows
      then Some (fst (row_or_zero rows k) + item_sum (\<lambda>c. c = Dispute_subtotal) k items,
                 snd (row_or_zero rows k) + item_sum (\<lambda>c. c \<noteq> Dispute_subtotal) k items)
      else None)"
proof (induction items arbitrary: rows)
  case Nil
  then show ?case
    by (cases "map_of rows k") (auto simp: row_or_zero_def map_of_eq_None_iff
        dest: map_of_SomeD intro: rev_image_eqI)
next
  case (Cons i items)
  let ?rows = "add_row i rows"
  have dom: "fst ` set ?rows = insert (ai_orderItemId i) (fst ` set rows)"
    unfolding add_row_eq dom_update by simp
  have dist: "distinct (map fst ?rows)"
    using Cons.prems unfolding add_row_eq by (rule AList.distinct_update)
  have row: "row_or_zero ?rows k =
      (fst (row_or_zero rows k) + (if ai_orderItemId i = k \<and> ai_component i = Dispute_subtotal
          then ai_effectMinor i else 0),
       snd (row_or_zero rows k) + (if ai_orderItemId i = k \<and> ai_component i \<noteq> Dispute_subtotal
          then ai_effectMinor i else 0))"
    unfolding add_row_eq by (auto simp: row_or_zero_def update_conv')
  have "k \<in> ai_orderItemId ` set items \<or> k \<in> fst ` set ?rows \<longleftrightarrow>
      k \<in> ai_orderItemId ` set (i # items) \<or> k \<in> fst ` set rows" unfolding dom by auto
  with Cons.IH [OF dist] show ?case
    unfolding fold.simps comp_apply row item_sum_simps by (auto simp: add.assoc)
qed

lemma effect_rows_get:
  shows "distinct (map fst (effect_rows items))"
    and "map_of (effect_rows items) k =
     (if k \<in> ai_orderItemId ` set items
      then Some (item_sum (\<lambda>c. c = Dispute_subtotal) k items,
                 item_sum (\<lambda>c. c \<noteq> Dispute_subtotal) k items)
      else None)"
  using effect_rows_from [of "[]" items k] by (simp_all add: effect_rows_def row_or_zero_def)

lemma filter_distinct_key:
  assumes "distinct (map f xs)"
  shows "filter (\<lambda>x. f x = k) xs = [] \<or> (\<exists>x \<in> set xs. f x = k \<and> filter (\<lambda>x. f x = k) xs = [x])"
  using assms by (induction xs) (auto simp: filter_empty_conv image_iff)

lemma item_sum_member:
  assumes "wf_items cur items"
  shows "item_sum (\<lambda>c. c = d) k items = 0 \<or> (\<exists>i \<in> set items. ai_orderItemId i = k \<and>
    ai_component i = d \<and> item_sum (\<lambda>c. c = d) k items = ai_effectMinor i)"
proof -
  have "distinct (map (\<lambda>i. (ai_orderItemId i, ai_component i)) items)"
    using assms by (simp add: wf_items_def)
  from filter_distinct_key [OF this, of "(k, d)"] show ?thesis
    unfolding item_sum_def by auto
qed

lemma sum_update:
  assumes "distinct (map fst m)"
  shows "sum_list (map (\<lambda>(k, v). f v) (AList.update k v m)) =
    sum_list (map (\<lambda>(k, v). f v) m) + (f v :: int) - (case map_of m k of None \<Rightarrow> 0 | Some w \<Rightarrow> f w)"
  using assms by (induction m) (auto simp: map_of_eq_None_iff split: option.splits dest: map_of_SomeD)

lemma effect_rows_total:
  "sum_list (map (\<lambda>(k, s, t). s + t) (effect_rows items)) = items_total items"
proof -
  have "distinct (map fst rows) \<Longrightarrow> sum_list (map (\<lambda>(k, s, t). s + t) (fold add_row items rows)) =
      sum_list (map (\<lambda>(k, s, t). s + t) rows) + items_total items" for rows
  proof (induction items arbitrary: rows)
    case (Cons i items)
    have d: "distinct (map fst (add_row i rows))"
      using Cons.prems unfolding add_row_eq by (rule AList.distinct_update)
    have "sum_list (map (\<lambda>(k, s, t). s + t) (add_row i rows)) =
        sum_list (map (\<lambda>(k, s, t). s + t) rows) + ai_effectMinor i"
      unfolding add_row_eq using sum_update [OF Cons.prems, of "\<lambda>(s, t). s + t"]
      by (auto simp: row_or_zero_def split: option.splits)
    with Cons.IH [OF d] show ?case unfolding fold.simps comp_apply by simp
  qed simp
  from this [of "[]"] show ?thesis by (simp add: effect_rows_def)
qed

lemma withdrawalEffects_total: "effects_total (withdrawalEffects input items) = items_total items"
proof -
  have "sum_list (map (\<lambda>(k, s, t). s + t) (filter (\<lambda>(_, s, t). s + t \<noteq> 0) rows)) =
      sum_list (map (\<lambda>(k, s, t). s + t :: int) rows)" for rows :: capacity_map
    by (induction rows) auto
  moreover have "effects_total (withdrawalEffects input items) =
      sum_list (map (\<lambda>(k, s, t). s + t) (filter (\<lambda>(_, s, t). s + t \<noteq> 0) (effect_rows items)))"
    by (auto simp: effects_total_def withdrawalEffects_def comp_def intro!: arg_cong [where f = sum_list])
  ultimately show ?thesis by (simp add: effect_rows_total)
qed

text \<open>A split over what is left of the items gives rows that fit in it.\<close>

lemma withdrawn_rows_fit:
  assumes run: "allocateComponents (- p) cur (remainingWeights cap) = Inr items" and "0 < p"
    and cap: "valid_rows cap" and cur: "currency_code cur"
    and cover: "p \<le> sum_list (map ac_weightMinor (remainingWeights cap))"
    and mem: "(k, s, t) \<in> set (effect_rows items)"
  shows "\<exists>a b. map_of cap k = Some (a, b) \<and> - a \<le> s \<and> s \<le> 0 \<and> - b \<le> t \<and> t \<le> 0"
proof -
  note run' = run [unfolded remainingWeights_eq]
  have wf: "wf_items cur items" using allocate_rows_wf [OF run' cur cap] by simp
  have item: "\<exists>a b. map_of cap (ai_orderItemId i) = Some (a, b) \<and> ai_effectMinor i \<le> 0 \<and>
      (ai_component i = Dispute_subtotal \<and> - a \<le> ai_effectMinor i \<or>
       ai_component i = Dispute_tax \<and> - b \<le> ai_effectMinor i)" if i: "i \<in> set items" for i
  proof -
    obtain c where c: "c \<in> set (component_rows Dispute_subtotal Dispute_tax cap)"
      "ai_orderItemId i = ac_orderItemId c" "ai_component i = ac_component c"
      "0 \<le> ai_effectMinor i * sgn (- p)" "\<bar>ai_effectMinor i\<bar> \<le> ac_weightMinor c"
      by (rule allocateComponents_item [OF run' i])
        (use cover \<open>0 < p\<close> in \<open>simp add: remainingWeights_eq\<close>)
    then obtain a b where "(ai_orderItemId i, a, b) \<in> set cap"
      "ac_component c = Dispute_subtotal \<and> ac_weightMinor c = a \<or>
       ac_component c = Dispute_tax \<and> ac_weightMinor c = b"
      by (auto simp: component_rows_member)
    with c cap \<open>0 < p\<close> show ?thesis by (auto simp: valid_rows_def)
  qed
  have "map_of (effect_rows items) k = Some (s, t)"
    using mem effect_rows_get(1) by simp
  then have st: "s = item_sum (\<lambda>c. c = Dispute_subtotal) k items"
      "t = item_sum (\<lambda>c. c \<noteq> Dispute_subtotal) k items"
    and k: "k \<in> ai_orderItemId ` set items"
    by (auto simp: effect_rows_get(2) split: if_splits)
  have "item_sum (\<lambda>c. c \<noteq> Dispute_subtotal) k items = item_sum (\<lambda>c. c = Dispute_tax) k items"
    unfolding item_sum_def using item
    by (intro arg_cong [where f = "\<lambda>xs. sum_list (map ai_effectMinor xs)"] filter_cong) fastforce+
  with st have t: "t = item_sum (\<lambda>c. c = Dispute_tax) k items" by simp
  from k obtain i a b where cap_k: "map_of cap k = Some (a, b)" using item by blast
  then have nn: "0 \<le> a" "0 \<le> b" using cap by (auto simp: valid_rows_def dest!: map_of_SomeD)
  have "- a \<le> s \<and> s \<le> 0"
    using item_sum_member [OF wf, of Dispute_subtotal k] st(1) item cap_k nn by fastforce
  moreover have "- b \<le> t \<and> t \<le> 0"
    using item_sum_member [OF wf, of Dispute_tax k] t item cap_k nn by fastforce
  ultimately show ?thesis using cap_k by blast
qed

lemma dispute_plans_Inr:
  assumes "dispute_plans input gi rv fi fe es = Inr ((gross, feePlan), es')"
  shows "es' = es" and "ap_items gross = gi" and "ap_items feePlan = fi"
    and "items_total gi = am_amountMinor (di_metadata input)" and "items_total fi = fe"
    and "wf_items (am_settlementCurrency (di_metadata input)) gi"
    and "ap_reversalOfSetId gross = rv"
proof -
  from assms have es: "es' = es"
    and g: "basePlan (di_metadata input) Gross_amount Title_scope (am_amountMinor (di_metadata input))
      gi rv = Inr gross"
    and f: "basePlan (di_metadata input) Fee_basis Title_scope fe fi None = Inr feePlan"
    by (auto simp: dispute_plans_def Let_def rbind_eq_Inr)
  show "es' = es" "ap_items gross = gi" "ap_items feePlan = fi" "ap_reversalOfSetId gross = rv"
    "items_total gi = am_amountMinor (di_metadata input)" "items_total fi = fe"
    "wf_items (am_settlementCurrency (di_metadata input)) gi"
    using es basePlan_Inr(2,7) [OF g] basePlan_Inr(2) [OF f] basePlan_title_Inr [OF g]
      basePlan_title_Inr(1) [OF f] by simp_all
qed

lemma boundary_Inr:
  assumes "assertDisputeBoundary pd input = Inr ms"
  shows "0 < di_presentmentAmountMinor input" and "currency_code (di_presentmentCurrency input)"
    and "currency_code (am_settlementCurrency (di_metadata input))"
    and "safe_integer (di_presentmentAmountMinor input)"
    and "pd (di_providerCreatedAt input) = Some ms"
    and "am_algorithmVersion (di_metadata input) \<in> {1, 2}"
    and "di_effect input = Withdrawal_effect \<longleftrightarrow> am_amountMinor (di_metadata input) < 0"
    and "di_presentmentCurrency input = am_settlementCurrency (di_metadata input) \<Longrightarrow>
      \<bar>am_amountMinor (di_metadata input)\<bar> = di_presentmentAmountMinor input"
  using assms
  by (auto simp: assertDisputeBoundary_def Let_def rbind_eq_Inr parseInstant_def
      split: if_splits option.splits)

section \<open>What the original withdrawals are\<close>

text \<open>What a list of withdrawals selected from a replay satisfies.\<close>

definition withdrawal_set :: "presentment_effect list \<Rightarrow> bool" where
  "withdrawal_set es \<longleftrightarrow> distinct (map pe_allocationId es) \<and>
     (\<forall>w \<in> set es. pe_subtotalMinor w \<le> 0 \<and> pe_taxMinor w \<le> 0)"

lemma shape_Inr:
  assumes "assertReinstatementShape input ws R = Inr original"
  obtains plan where "di_withdrawalGrossPlan input = Some plan"
    and "original = filter (\<lambda>e. pe_disputeId e = di_disputeId input \<and>
      pe_withdrawalSetId e = di_reversesSetId input) (map snd ws)"
    and "assertWithdrawalPlan plan input = Inr ()"
    and "\<forall>w \<in> set original. pe_allocationId w \<notin> R"
    and "di_presentmentAmountMinor input \<le> - effects_total original"
    and "di_presentmentCurrency input = am_settlementCurrency (di_metadata input) \<longrightarrow>
      effects_total original = ap_expectedEffectMinor plan"
    and "am_algorithmVersion (di_metadata input) = 2 \<longrightarrow>
      assertWithdrawalComponents input plan original = Inr ()"
proof -
  from assms obtain plan where p: "di_withdrawalGrossPlan input = Some plan"
    by (auto simp: assertReinstatementShape_def Let_def split: option.splits)
  with assms that [of plan] show ?thesis
    by (auto simp: assertReinstatementShape_def Let_def rbind_eq_Inr not_less split: if_splits)
qed

lemma original_withdrawal_set:
  assumes "wf_exposure [] res"
  shows "withdrawal_set (filter P (map snd (xr_withdrawals res)))"
proof -
  have "map fst (xr_withdrawals res) = map pe_allocationId (map snd (xr_withdrawals res))"
    using assms by (auto simp: wf_exposure_def)
  moreover have "distinct (map fst (xr_withdrawals res))"
    using assms by (simp add: wf_exposure_def List.map_filter_simps)
  ultimately have "distinct (map pe_allocationId (map snd (xr_withdrawals res)))" by (simp only:)
  then have "distinct (map pe_allocationId (filter P (map snd (xr_withdrawals res))))"
    by (rule distinct_map_filter)
  moreover have "\<forall>w \<in> set (map snd (xr_withdrawals res)). pe_subtotalMinor w \<le> 0 \<and> pe_taxMinor w \<le> 0"
    using assms by (auto simp: wf_exposure_def)
  ultimately show ?thesis by (auto simp: withdrawal_set_def)
qed

text \<open>The specification of a list of reinstatements: what a later replay demands of them.\<close>

definition restores ::
  "dispute_input \<Rightarrow> presentment_effect list \<Rightarrow> presentment_effect list \<Rightarrow> bool" where
  "restores input original es \<longleftrightarrow> distinct (map pe_reversalOfAllocationId es) \<and>
     (\<forall>e \<in> set es. pe_effect e = Reinstatement \<and> 0 \<le> pe_subtotalMinor e \<and> 0 \<le> pe_taxMinor e \<and>
       (\<exists>w \<in> set original. pe_reversalOfAllocationId e = Some (pe_allocationId w) \<and>
         pe_withdrawalSetId e = pe_withdrawalSetId w \<and> pe_disputeId e = di_disputeId input \<and>
         pe_orderItemId e = pe_orderItemId w \<and>
         pe_subtotalMinor e \<le> - pe_subtotalMinor w \<and> pe_taxMinor e \<le> - pe_taxMinor w))"

section \<open>Restoring by the presentment history\<close>

lemma allocateComponents_keys_distinct:
  assumes "allocateComponents a cur cs = Inr items"
  shows "distinct (map ai_tieBreakKey items)"
proof -
  obtain ss where run: "allocateSignedLargestRemainder a (component_weights cs) = Inr ss"
    and items: "items = map (\<lambda>s. component_item cur (component_for cs (ls_tieKey s)) (ls_amountMinor s)) ss"
    and cf: "\<forall>s \<in> set ss. ac_tieBreakKey (component_for cs (ls_tieKey s)) = ls_tieKey s"
    using allocateComponents_Inr_ex [OF assms] by blast
  have "map ai_tieBreakKey items = map ls_tieKey ss" unfolding items using cf by simp
  with lr.alloc_distinct [OF run] show ?thesis by simp
qed

lemma component_amount_simps [simp]:
  "component_amount c [] = 0"
  "component_amount c (i # is) = (if ai_component i = c then ai_effectMinor i else component_amount c is)"
  by (simp_all add: component_amount_def)

lemma component_amount_absent: "c \<notin> ai_component ` set items \<Longrightarrow> component_amount c items = 0"
  by (induction items) auto

lemma component_amount_member:
  "component_amount c items = 0 \<or> (\<exists>i \<in> set items. ai_component i = c \<and> component_amount c items = ai_effectMinor i)"
  by (induction items) auto

lemma component_amount_total:
  assumes "distinct (map ai_component items)" and "ai_component ` set items \<subseteq> {c, d}" and "c \<noteq> d"
  shows "component_amount c items + component_amount d items = items_total items"
  using assms by (induction items) (auto simp: component_amount_absent)

definition withdrawal_parts :: "presentment_effect \<Rightarrow> alloc_component list" where
  "withdrawal_parts w =
     (if pe_subtotalMinor w = 0 then [] else
        [\<lparr>ac_orderItemId = pe_orderItemId w, ac_component = Dispute_subtotal,
          ac_weightMinor = - pe_subtotalMinor w, ac_tieBreakKey = ''subtotal''\<rparr>]) @
     (if pe_taxMinor w = 0 then [] else
        [\<lparr>ac_orderItemId = pe_orderItemId w, ac_component = Dispute_tax,
          ac_weightMinor = - pe_taxMinor w, ac_tieBreakKey = ''tax''\<rparr>])"

lemma withdrawal_parts_split:
  assumes run: "allocateComponents a cur (withdrawal_parts w) = Inr items" and "0 < a"
    and "a \<le> - pe_subtotalMinor w - pe_taxMinor w"
    and "pe_subtotalMinor w \<le> 0" and "pe_taxMinor w \<le> 0"
  shows "component_amount Dispute_subtotal items + component_amount Dispute_tax items = a"
    and "0 \<le> component_amount Dispute_subtotal items"
    and "component_amount Dispute_subtotal items \<le> - pe_subtotalMinor w"
    and "0 \<le> component_amount Dispute_tax items"
    and "component_amount Dispute_tax items \<le> - pe_taxMinor w"
proof -
  have item: "0 \<le> ai_effectMinor i \<and>
      (ai_component i = Dispute_subtotal \<and> ai_tieBreakKey i = ''subtotal'' \<and>
         ai_effectMinor i \<le> - pe_subtotalMinor w \<or>
       ai_component i = Dispute_tax \<and> ai_tieBreakKey i = ''tax'' \<and>
         ai_effectMinor i \<le> - pe_taxMinor w)" if i: "i \<in> set items" for i
  proof -
    obtain c where "c \<in> set (withdrawal_parts w)" "ai_component i = ac_component c"
      "ai_tieBreakKey i = ac_tieBreakKey c" "0 \<le> ai_effectMinor i * sgn a"
      "\<bar>ai_effectMinor i\<bar> \<le> ac_weightMinor c"
      by (rule allocateComponents_item [OF run i])
        (use assms(2,3) in \<open>auto simp: withdrawal_parts_def split: if_splits\<close>)
    with assms(2) show ?thesis by (auto simp: withdrawal_parts_def split: if_splits)
  qed
  have inj: "inj_on ai_component (set items)"
  proof (rule inj_onI)
    fix i j assume ij: "i \<in> set items" "j \<in> set items" "ai_component i = ai_component j"
    then have "ai_tieBreakKey i = ai_tieBreakKey j" using item [OF ij(1)] item [OF ij(2)] by auto
    with ij allocateComponents_keys_distinct [OF run] show "i = j"
      by (auto simp: distinct_map dest: inj_onD)
  qed
  then have "distinct (map ai_component items)"
    using allocateComponents_keys_distinct [OF run] by (simp add: distinct_map)
  moreover have "ai_component ` set items \<subseteq> {Dispute_subtotal, Dispute_tax}" using item by auto
  ultimately show "component_amount Dispute_subtotal items + component_amount Dispute_tax items = a"
    using component_amount_total allocateComponents_total_effect [OF run] by simp
  show "0 \<le> component_amount Dispute_subtotal items" "0 \<le> component_amount Dispute_tax items"
    "component_amount Dispute_subtotal items \<le> - pe_subtotalMinor w"
    "component_amount Dispute_tax items \<le> - pe_taxMinor w"
    using component_amount_member [of Dispute_subtotal items]
      component_amount_member [of Dispute_tax items] item assms(4,5) by fastforce+
qed

lemma reinstate_withdrawal_Inr:
  assumes "reinstate_withdrawal input original alloc = Inr e" and "withdrawal_set original"
    and "0 < ai_effectMinor alloc"
    and fits: "\<exists>w \<in> set original. pe_allocationId w = ai_orderItemId alloc \<and>
      ai_effectMinor alloc \<le> - pe_subtotalMinor w - pe_taxMinor w"
  shows "pe_subtotalMinor e + pe_taxMinor e = ai_effectMinor alloc \<and>
    pe_reversalOfAllocationId e = Some (ai_orderItemId alloc) \<and> restores input original [e]"
proof -
  from assms(1) obtain w items where w: "find (\<lambda>effect. pe_allocationId effect = ai_orderItemId alloc) original = Some w"
    and run: "allocateComponents (ai_effectMinor alloc) (di_presentmentCurrency input) (withdrawal_parts w)
      = Inr items"
    and e: "e = reinstatement_of input w
      (component_amount Dispute_subtotal items, component_amount Dispute_tax items)"
    by (auto simp: reinstate_withdrawal_def withdrawal_parts_def rbind_eq_Inr split: option.splits)
  from w have mem: "w \<in> set original" "pe_allocationId w = ai_orderItemId alloc"
    by (auto simp: find_Some_iff)
  have "ai_effectMinor alloc \<le> - pe_subtotalMinor w - pe_taxMinor w"
    using fits mem assms(2) unfolding withdrawal_set_def distinct_map by (metis inj_onD)
  moreover have "pe_subtotalMinor w \<le> 0" "pe_taxMinor w \<le> 0"
    using assms(2) mem by (auto simp: withdrawal_set_def)
  ultimately show ?thesis
    using withdrawal_parts_split [OF run assms(3)] mem e
    by (auto simp: restores_def reinstatement_of_def intro!: bexI [of _ w])
qed

lemma restores_Cons:
  "restores input original [e] \<Longrightarrow> restores input original es \<Longrightarrow>
     pe_reversalOfAllocationId e \<notin> pe_reversalOfAllocationId ` set es \<Longrightarrow>
     restores input original (e # es)"
  by (auto simp: restores_def)

lemma effects_total_simps [simp]:
  "effects_total [] = 0"
  "effects_total (e # es) = pe_subtotalMinor e + pe_taxMinor e + effects_total es"
  by (simp_all add: effects_total_def)

lemma reinstate_all_Inr:
  assumes "rmap (reinstate_withdrawal input original) allocs = Inr es"
    and "withdrawal_set original" and "distinct (map ai_orderItemId allocs)"
    and "\<And>a. a \<in> set allocs \<Longrightarrow> 0 < ai_effectMinor a \<and> (\<exists>w \<in> set original.
      pe_allocationId w = ai_orderItemId a \<and> ai_effectMinor a \<le> - pe_subtotalMinor w - pe_taxMinor w)"
  shows "restores input original es \<and> effects_total es = items_total allocs \<and>
    map pe_reversalOfAllocationId es = map (\<lambda>a. Some (ai_orderItemId a)) allocs"
  using assms(1,3,4)
proof (induction allocs arbitrary: es)
  case Nil
  then show ?case by (simp add: restores_def)
next
  case (Cons a allocs)
  then obtain e es' where e: "reinstate_withdrawal input original a = Inr e"
    and es': "rmap (reinstate_withdrawal input original) allocs = Inr es'" and es: "es = e # es'"
    by (auto simp: rbind_eq_Inr)
  have hd: "pe_subtotalMinor e + pe_taxMinor e = ai_effectMinor a \<and>
    pe_reversalOfAllocationId e = Some (ai_orderItemId a) \<and> restores input original [e]"
    using Cons.prems(3) [of a] by (intro reinstate_withdrawal_Inr [OF e assms(2)]) auto
  have tl: "restores input original es' \<and> effects_total es' = items_total allocs \<and>
    map pe_reversalOfAllocationId es' = map (\<lambda>a. Some (ai_orderItemId a)) allocs"
    using Cons.prems(2,3) by (intro Cons.IH [OF es']) auto
  then have "pe_reversalOfAllocationId ` set es' = (\<lambda>a. Some (ai_orderItemId a)) ` set allocs"
    by (metis list.set_map)
  with hd Cons.prems(2) have "pe_reversalOfAllocationId e \<notin> pe_reversalOfAllocationId ` set es'" by auto
  with hd tl es restores_Cons show ?case by auto
qed

lemma items_total_nonzero: "items_total (filter (\<lambda>a. ai_effectMinor a \<noteq> 0) items) = items_total items"
  by (induction items) auto

lemma by_history_Inr:
  assumes "reinstatementEffects_by_history input original = Inr es"
    and ws: "withdrawal_set original" and "0 < di_presentmentAmountMinor input"
    and le: "di_presentmentAmountMinor input \<le> - effects_total original"
  shows "restores input original es \<and> effects_total es = di_presentmentAmountMinor input"
proof -
  let ?cs = "map (\<lambda>effect. \<lparr>ac_orderItemId = pe_allocationId effect, ac_component = Dispute_reinstatement,
          ac_weightMinor = - pe_subtotalMinor effect - pe_taxMinor effect,
          ac_tieBreakKey = pe_allocationId effect\<rparr>) original"
  from assms(1) obtain allocs where
    run: "allocateComponents (di_presentmentAmountMinor input) (di_presentmentCurrency input) ?cs = Inr allocs"
    and es: "rmap (reinstate_withdrawal input original)
      (filter (\<lambda>allocation. ai_effectMinor allocation \<noteq> 0) allocs) = Inr es"
    by (auto simp: reinstatementEffects_by_history_def rbind_eq_Inr)
  have cover: "sum_list (map ac_weightMinor ?cs) = - effects_total original"
    by (induction original) auto
  have item: "ai_tieBreakKey a = ai_orderItemId a \<and> 0 \<le> ai_effectMinor a \<and> (\<exists>w \<in> set original.
      pe_allocationId w = ai_orderItemId a \<and> ai_effectMinor a \<le> - pe_subtotalMinor w - pe_taxMinor w)"
    if a: "a \<in> set allocs" for a
  proof -
    obtain c where "c \<in> set ?cs" "ai_orderItemId a = ac_orderItemId c" "ai_tieBreakKey a = ac_tieBreakKey c"
      "0 \<le> ai_effectMinor a * sgn (di_presentmentAmountMinor input)" "\<bar>ai_effectMinor a\<bar> \<le> ac_weightMinor c"
      by (rule allocateComponents_item [OF run a]) (use le assms(3) cover in simp)
    with assms(3) show ?thesis by auto
  qed
  have "map ai_orderItemId allocs = map ai_tieBreakKey allocs" using item by simp
  then have "distinct (map ai_orderItemId allocs)"
    using allocateComponents_keys_distinct [OF run] by (simp only:)
  then have "distinct (map ai_orderItemId (filter (\<lambda>a. ai_effectMinor a \<noteq> 0) allocs))"
    by (rule distinct_map_filter)
  moreover have "0 < ai_effectMinor a" if "a \<in> set (filter (\<lambda>a. ai_effectMinor a \<noteq> 0) allocs)" for a
    using item [of a] that by auto
  ultimately show ?thesis
    using reinstate_all_Inr [OF es ws] item allocateComponents_total_effect [OF run] items_total_nonzero
    by auto
qed

section \<open>Restoring by the gross plan\<close>

lemma dispute_plan_weights_Inr:
  assumes "dispute_plan_weights f plan = Inr ws"
  shows "distinct (map ai_tieBreakKey (ap_items plan))"
    and "ws = map (\<lambda>i. \<lparr>ac_orderItemId = ai_orderItemId i, ac_component = f (ai_component i),
      ac_weightMinor = \<bar>ai_effectMinor i\<bar>, ac_tieBreakKey = ai_tieBreakKey i\<rparr>) (ap_items plan)"
    and "\<forall>i \<in> set (ap_items plan). ai_component i \<in> {Dispute_subtotal, Dispute_tax}"
  using assms
  by (auto simp: dispute_plan_weights_def planWeights_eq rbind_eq_Inr rall_eq_Inr plan_weights_def
      split: if_splits)

definition component_of :: "fin_component \<Rightarrow> presentment_effect \<Rightarrow> int" where
  "component_of c w = (if c = Dispute_subtotal then pe_subtotalMinor w else pe_taxMinor w)"

lemma withdrawal_components_member:
  "((k, c), v) \<in> set (withdrawal_components exact) \<longleftrightarrow>
     (\<exists>w \<in> set exact. k = pe_orderItemId w \<and> v \<noteq> 0 \<and> c \<in> {Dispute_subtotal, Dispute_tax} \<and>
        v = component_of c w)"
  by (force simp: withdrawal_components_def component_of_def)

text \<open>After the version-2 check every item of the gross plan is a component of a withdrawal.\<close>

lemma components_match:
  assumes ok: "assertWithdrawalComponents input plan exact = Inr ()"
    and same: "di_presentmentCurrency input = am_settlementCurrency (di_metadata input)"
    and d: "distinct (map (\<lambda>i. (ai_orderItemId i, ai_component i)) (ap_items plan))"
    and i: "i \<in> set (ap_items plan)"
  shows "\<exists>w \<in> set exact. pe_orderItemId w = ai_orderItemId i \<and>
    ai_effectMinor i = component_of (ai_component i) w"
proof -
  let ?E = "withdrawal_components exact" and ?A = "plan_components plan"
  have keys: "map fst ?A = map (\<lambda>i. (ai_orderItemId i, ai_component i)) (ap_items plan)"
    by (simp add: plan_components_def comp_def)
  then have dA: "distinct (map fst ?A)" using d by simp
  then have get: "map_of (rev ?A) = map_of ?A" by (simp add: map_of_rev_distinct)
  from ok have dE: "distinct (map fst ?E)" and len: "length (remdups (map fst ?A)) = length ?E"
    and each: "\<forall>(key, v) \<in> set ?E. map_of (rev ?A) key = Some v"
    using same by (auto simp: assertWithdrawalComponents_def Let_def split: if_splits)
  have "fst ` set ?E \<subseteq> fst ` set ?A"
    using each unfolding get by (force dest: map_of_SomeD)
  moreover have "card (fst ` set ?E) = card (fst ` set ?A)"
    using len distinct_card [OF dE] distinct_card [OF dA] dA by (simp add: distinct_remdups_id)
  ultimately have sets: "fst ` set ?E = fst ` set ?A" by (simp add: card_subset_eq)
  have mem: "((ai_orderItemId i, ai_component i), ai_effectMinor i) \<in> set ?A"
    using i by (auto simp: plan_components_def)
  then have "(ai_orderItemId i, ai_component i) \<in> fst ` set ?E" using sets by force
  then obtain v where v: "((ai_orderItemId i, ai_component i), v) \<in> set ?E" by auto
  then have "map_of ?A (ai_orderItemId i, ai_component i) = Some v" using each unfolding get by blast
  with mem dA have "v = ai_effectMinor i" by (simp add: map_of_eq_Some_iff)
  with v show ?thesis by (auto simp: withdrawal_components_member)
qed

abbreviation set_row :: "allocation_item \<Rightarrow> capacity_map \<Rightarrow> capacity_map" where
  "set_row item rows \<equiv>
     let (s, t) = (case map_of rows (ai_orderItemId item) of None \<Rightarrow> (0, 0) | Some row \<Rightarrow> row) in
     AList.update (ai_orderItemId item)
       (if ai_component item = Dispute_subtotal then (ai_effectMinor item, t)
        else (s, ai_effectMinor item)) rows"

definition slot_empty :: "capacity_map \<Rightarrow> allocation_item \<Rightarrow> bool" where
  "slot_empty rows i \<longleftrightarrow> (if ai_component i = Dispute_subtotal
     then fst (row_or_zero rows (ai_orderItemId i)) = 0
     else snd (row_or_zero rows (ai_orderItemId i)) = 0)"

lemma set_row_eq: "slot_empty rows i \<Longrightarrow> set_row i rows = add_row i rows"
  by (cases "row_or_zero rows (ai_orderItemId i)") (auto simp: slot_empty_def row_or_zero_def)

text \<open>Each slot is written once, so writing and adding agree.\<close>

lemma allocated_rows_eq:
  assumes "distinct (map (\<lambda>i. (ai_orderItemId i, ai_component i)) items)"
    and "\<forall>i \<in> set items. ai_component i \<in> {Dispute_subtotal, Dispute_tax}"
  shows "allocated_rows items = effect_rows items"
proof -
  have "\<forall>i \<in> set items. slot_empty rows i \<Longrightarrow> fold set_row items rows = fold add_row items rows" for rows
    using assms
  proof (induction items arbitrary: rows)
    case (Cons i items)
    have "slot_empty (add_row i rows) j" if j: "j \<in> set items" for j
    proof -
      have "slot_empty rows j" and ne: "(ai_orderItemId i, ai_component i) \<noteq> (ai_orderItemId j, ai_component j)"
        using Cons.prems j by (auto simp: image_iff)
      moreover have "ai_component i \<in> {Dispute_subtotal, Dispute_tax}"
        "ai_component j \<in> {Dispute_subtotal, Dispute_tax}" using Cons.prems(3) j by auto
      ultimately show ?thesis
        unfolding add_row_eq by (auto simp: slot_empty_def row_or_zero_def update_conv' split: if_splits)
    qed
    moreover have "set_row i rows = add_row i rows" using Cons.prems(1) by (intro set_row_eq) simp
    ultimately show ?case using Cons.IH [of "add_row i rows"] Cons.prems by simp
  qed simp
  moreover have "slot_empty [] i" for i by (simp add: slot_empty_def row_or_zero_def)
  ultimately show ?thesis unfolding allocated_rows_def effect_rows_def by blast
qed

lemma assertWithdrawalPlan_Inr:
  assumes "assertWithdrawalPlan plan input = Inr u"
  shows "wf_items (ap_currency plan) (ap_items plan)"
    and "items_total (ap_items plan) = ap_expectedEffectMinor plan"
    and "ap_currency plan = am_settlementCurrency (di_metadata input)"
    and "\<forall>i \<in> set (ap_items plan). ai_effectMinor i \<le> 0"
  using assms
  by (auto simp: assertWithdrawalPlan_def Let_def rbind_eq_Inr conserves_Inr not_less split: if_splits)

definition restored_by_plan ::
  "dispute_input \<Rightarrow> capacity_map \<Rightarrow> presentment_effect list \<Rightarrow> presentment_effect list" where
  "restored_by_plan input rows original =
     map (\<lambda>w. reinstatement_of input w (row_or_zero rows (pe_orderItemId w)))
       (filter (\<lambda>w. fst (row_or_zero rows (pe_orderItemId w)) +
          snd (row_or_zero rows (pe_orderItemId w)) \<noteq> 0) original)"

lemma restored_by_plan_eq:
  "concat (map (\<lambda>withdrawal. case map_of rows (pe_orderItemId withdrawal) of
       None \<Rightarrow> []
     | Some row \<Rightarrow> if fst row + snd row = 0 then [] else [reinstatement_of input withdrawal row]) original)
   = restored_by_plan input rows original"
  by (induction original) (auto simp: restored_by_plan_def row_or_zero_def split: option.splits)

lemma restored_by_plan_total:
  "effects_total (restored_by_plan input rows original) = sum_list (map (\<lambda>k. case map_of rows k of
     None \<Rightarrow> 0 | Some (s, t) \<Rightarrow> s + t) (map pe_orderItemId original))"
  by (induction original)
    (auto simp: restored_by_plan_def row_or_zero_def reinstatement_of_def split: option.splits)

lemma by_plan_Inr:
  assumes run: "reinstatementEffects_by_plan input plan original = Inr es"
    and ws: "withdrawal_set original" and pos: "0 < di_presentmentAmountMinor input"
    and le: "di_presentmentAmountMinor input \<le> - effects_total original"
    and plan: "assertWithdrawalPlan plan input = Inr ()"
    and comps: "assertWithdrawalComponents input plan original = Inr ()"
    and same: "di_presentmentCurrency input = am_settlementCurrency (di_metadata input)"
    and expected: "effects_total original = ap_expectedEffectMinor plan"
    and cur: "currency_code (di_presentmentCurrency input)"
  shows "restores input original es \<and> effects_total es = di_presentmentAmountMinor input"
proof -
  let ?p = "di_presentmentAmountMinor input"
  from run obtain cs allocs where dist: "distinct (map pe_orderItemId original)"
    and cs: "dispute_plan_weights id plan = Inr cs"
    and al: "allocateComponents ?p (di_presentmentCurrency input) cs = Inr allocs"
    and es: "es = restored_by_plan input (allocated_rows allocs) original"
    by (auto simp: reinstatementEffects_by_plan_def rbind_eq_Inr Let_def restored_by_plan_eq split: if_splits)
  note pl = assertWithdrawalPlan_Inr [OF plan] and w = dispute_plan_weights_Inr [OF cs]
  have dp: "distinct (map (\<lambda>i. (ai_orderItemId i, ai_component i)) (ap_items plan))"
    using pl(1) by (simp add: wf_items_def)
  have "sum_list (map ac_weightMinor cs) = sum_list (map ac_weightMinor (plan_weights (ap_items plan)))"
    unfolding w(2) plan_weights_def by (simp add: comp_def)
  then have cover: "\<bar>?p\<bar> \<le> sum_list (map ac_weightMinor cs)"
    using abs_items_total [of "ap_items plan"] pl(2) le pos expected by simp
  have item: "ai_component a \<in> {Dispute_subtotal, Dispute_tax} \<and> 0 \<le> ai_effectMinor a \<and>
      (\<exists>v \<in> set original. pe_orderItemId v = ai_orderItemId a \<and>
        ai_effectMinor a \<le> - component_of (ai_component a) v)" if a: "a \<in> set allocs" for a
  proof -
    obtain c where c: "c \<in> set cs" "ai_orderItemId a = ac_orderItemId c"
      "ai_component a = ac_component c" "0 \<le> ai_effectMinor a * sgn ?p"
      "\<bar>ai_effectMinor a\<bar> \<le> ac_weightMinor c"
      by (rule allocateComponents_item [OF al a]) (use cover in blast)
    then obtain i where i: "i \<in> set (ap_items plan)" "ai_orderItemId a = ai_orderItemId i"
      "ai_component a = ai_component i" "\<bar>ai_effectMinor a\<bar> \<le> \<bar>ai_effectMinor i\<bar>"
      unfolding w(2) by auto
    from components_match [OF comps same dp i(1)] obtain v where "v \<in> set original"
      "pe_orderItemId v = ai_orderItemId i" "ai_effectMinor i = component_of (ai_component i) v" by blast
    moreover have "ai_effectMinor i \<le> 0" using pl(4) i(1) by blast
    ultimately show ?thesis using i w(3) c(4) pos by auto
  qed
  have inj: "inj_on (\<lambda>c. (ac_orderItemId c, ac_component c)) (set cs)"
    using dp unfolding w(2) by (auto simp: distinct_map inj_on_def)
  have wf: "wf_items (di_presentmentCurrency input) allocs"
    by (rule allocateComponents_wf [OF al cur _ inj]) (use pl(1) w(2) in \<open>auto simp: wf_items_def\<close>)
  have rows: "allocated_rows allocs = effect_rows allocs"
    using wf item by (intro allocated_rows_eq) (auto simp: wf_items_def)
  have bound: "0 \<le> item_sum (\<lambda>c. c = d) (pe_orderItemId v) allocs \<and>
      item_sum (\<lambda>c. c = d) (pe_orderItemId v) allocs \<le> - component_of d v"
    if v: "v \<in> set original" for d v
  proof -
    have neg: "component_of d v \<le> 0" using ws v by (auto simp: withdrawal_set_def component_of_def)
    from item_sum_member [OF wf, of d "pe_orderItemId v"] show ?thesis
    proof
      assume "\<exists>i \<in> set allocs. ai_orderItemId i = pe_orderItemId v \<and> ai_component i = d \<and>
        item_sum (\<lambda>c. c = d) (pe_orderItemId v) allocs = ai_effectMinor i"
      then obtain i where i: "i \<in> set allocs" "ai_orderItemId i = pe_orderItemId v" "ai_component i = d"
        "item_sum (\<lambda>c. c = d) (pe_orderItemId v) allocs = ai_effectMinor i" by blast
      from item [OF i(1)] obtain u where "u \<in> set original" "pe_orderItemId u = pe_orderItemId v"
        "ai_effectMinor i \<le> - component_of d u" "0 \<le> ai_effectMinor i" using i by auto
      with dist v i(4) show ?thesis by (auto simp: distinct_map dest: inj_onD)
    qed (use neg in simp)
  qed
  have tax: "item_sum (\<lambda>c. c \<noteq> Dispute_subtotal) k allocs = item_sum (\<lambda>c. c = Dispute_tax) k allocs" for k
    unfolding item_sum_def using item
    by (intro arg_cong [where f = "\<lambda>xs. sum_list (map ai_effectMinor xs)"] filter_cong) fastforce+
  have row: "0 \<le> fst (row_or_zero (effect_rows allocs) (pe_orderItemId v)) \<and>
      0 \<le> snd (row_or_zero (effect_rows allocs) (pe_orderItemId v)) \<and>
      fst (row_or_zero (effect_rows allocs) (pe_orderItemId v)) \<le> - pe_subtotalMinor v \<and>
      snd (row_or_zero (effect_rows allocs) (pe_orderItemId v)) \<le> - pe_taxMinor v"
    if v: "v \<in> set original" for v
    using bound [OF v, of Dispute_subtotal] bound [OF v, of Dispute_tax] ws v
    by (auto simp: row_or_zero_def effect_rows_get(2) tax component_of_def withdrawal_set_def)
  have "restores input original es"
  proof -
    let ?sel = "filter (\<lambda>w. fst (row_or_zero (effect_rows allocs) (pe_orderItemId w)) +
        snd (row_or_zero (effect_rows allocs) (pe_orderItemId w)) \<noteq> 0) original"
    have revs: "map pe_reversalOfAllocationId es = map Some (map pe_allocationId ?sel)"
      unfolding es rows restored_by_plan_def by (simp add: reinstatement_of_def)
    have "distinct (map pe_allocationId ?sel)"
      by (rule distinct_map_filter) (use ws in \<open>simp add: withdrawal_set_def\<close>)
    then have "distinct (map pe_reversalOfAllocationId es)"
      unfolding revs distinct_map [of Some] by (simp only: inj_Some conj_ac simp_thms)
    with row show ?thesis
      unfolding restores_def es rows restored_by_plan_def by (auto simp: reinstatement_of_def)
  qed
  moreover have "fst ` set (effect_rows allocs) \<subseteq> set (map pe_orderItemId original)"
  proof
    fix k assume "k \<in> fst ` set (effect_rows allocs)"
    then have "map_of (effect_rows allocs) k \<noteq> None" by (simp add: map_of_eq_None_iff)
    then have "k \<in> ai_orderItemId ` set allocs" by (metis effect_rows_get(2))
    with item show "k \<in> set (map pe_orderItemId original)" by force
  qed
  then have "effects_total es = ?p"
    unfolding es rows restored_by_plan_total
    using sum_lookup [OF dist effect_rows_get(1), of allocs "\<lambda>(s, t). s + t"]
      allocateComponents_total_effect [OF al] effect_rows_total [of allocs]
    by (simp add: case_prod_beta')
  ultimately show ?thesis by blast
qed

lemma reinstatementEffects_Inr:
  assumes "reinstatementEffects input original = Inr es"
    and shape: "assertReinstatementShape input ws R = Inr original"
    and "withdrawal_set original" and "assertDisputeBoundary pd input = Inr ms"
  shows "restores input original es \<and> effects_total es = di_presentmentAmountMinor input"
proof -
  note b = boundary_Inr [OF assms(4)]
  obtain plan where p: "di_withdrawalGrossPlan input = Some plan"
    and pl: "assertWithdrawalPlan plan input = Inr ()"
    and le: "di_presentmentAmountMinor input \<le> - effects_total original"
    and ex: "di_presentmentCurrency input = am_settlementCurrency (di_metadata input) \<longrightarrow>
      effects_total original = ap_expectedEffectMinor plan"
    and v2: "am_algorithmVersion (di_metadata input) = 2 \<longrightarrow>
      assertWithdrawalComponents input plan original = Inr ()"
    using shape by (rule shape_Inr) blast
  show ?thesis
  proof (cases "am_algorithmVersion (di_metadata input) = 2 \<and>
      di_presentmentCurrency input = am_settlementCurrency (di_metadata input)")
    case True
    then have "reinstatementEffects_by_plan input plan original = Inr es"
      using assms(1) p by (simp add: reinstatementEffects_def)
    with True show ?thesis
      using by_plan_Inr [OF _ assms(3) b(1) le pl _ _ _ b(2)] ex v2 by blast
  next
    case False
    then have "reinstatementEffects_by_history input original = Inr es"
      using assms(1) by (auto simp: reinstatementEffects_def split: if_splits)
    from by_history_Inr [OF this assms(3) b(1) le] show ?thesis .
  qed
qed

lemma withdrawal_plan_Inr:
  assumes "buildDisputeAllocationPlan pd input = Inr ((gross, feePlan), es)"
    and "di_effect input = Withdrawal_effect"
  obtains res items fi fe ms where "replayFinancialExposure pd (dispute_history input) = Inr res"
    and "assertDisputeBoundary pd input = Inr ms"
    and "allocateComponents (- di_presentmentAmountMinor input) (di_presentmentCurrency input)
      (remainingWeights (xr_capacity res)) = Inr items"
    and "di_presentmentAmountMinor input \<le>
      sum_list (map ac_weightMinor (remainingWeights (xr_capacity res)))"
    and "es = withdrawalEffects input items"
    and "items_total (ap_items gross) = am_amountMinor (di_metadata input)"
    and "items_total (ap_items feePlan) = - am_feeMinor (di_metadata input)"
proof -
  from assms obtain res items gi fi ms where d: "replayFinancialExposure pd (dispute_history input) = Inr res"
    "assertDisputeBoundary pd input = Inr ms"
    "allocateComponents (- di_presentmentAmountMinor input) (di_presentmentCurrency input)
      (remainingWeights (xr_capacity res)) = Inr items"
    "di_presentmentAmountMinor input \<le>
      sum_list (map ac_weightMinor (remainingWeights (xr_capacity res)))"
    and plans: "dispute_plans input gi None fi (- am_feeMinor (di_metadata input))
      (withdrawalEffects input items) = Inr ((gross, feePlan), es)"
    by (auto simp: buildDisputeAllocationPlan_def buildWithdrawalPlan_def rbind_eq_Inr Let_def
        neg_fee_if not_less split: if_splits)
  from dispute_plans_Inr [OF plans] that [OF d] show ?thesis by auto
qed

section \<open>Sample inputs\<close>

text \<open>A withdrawal with a taxed fee, its partial reinstatement, and a credit of its fee.\<close>

definition sample_withdrawal :: dispute_input where
  "sample_withdrawal = \<lparr>di_metadata = \<lparr>am_sourceKind = Dispute_source, am_sourceId = ''dp'',
       am_balanceTransactionId = ''txn5'', am_allocationIdentityPrefix = ''dispute:dp'',
       am_settlementCurrency = ''USD'', am_amountMinor = - 500, am_feeMinor = 15,
       am_netMinor = - 515, am_sourceFingerprint = replicate 64 (CHR ''b''),
       am_algorithmVersion = 2, am_supersedesGrossSetId = None, am_supersedesFeeSetId = None\<rparr>,
     di_effect = Withdrawal_effect, di_disputeId = ''dp'', di_providerCreatedAt = ''tttt'',
     di_providerTransactionId = ''txn_p'', di_presentmentAmountMinor = 500,
     di_presentmentCurrency = ''USD'', di_paymentItems = ex_paymentItems sample_exposure,
     di_finalizedRefunds = ex_finalizedRefunds sample_exposure, di_priorPresentmentEffects = [],
     di_withdrawalSetId = None, di_reversesSetId = None, di_reversesFeeSetId = None,
     di_withdrawalGrossPlan = None, di_withdrawalFeePlan = None,
     di_feeDetails = [\<lparr>fd_amountMinor = - 12, fd_component = Dispute_fee\<rparr>,
                      \<lparr>fd_amountMinor = - 3, fd_component = Provider_fee_tax\<rparr>]\<rparr>"

definition sample_withdrawal_plan :: dispute_bundle where
  "sample_withdrawal_plan = projr (buildDisputeAllocationPlan sample_clock sample_withdrawal)"

definition sample_reinstatement :: dispute_input where
  "sample_reinstatement = sample_withdrawal\<lparr>
     di_metadata := (di_metadata sample_withdrawal)\<lparr>am_balanceTransactionId := ''txn6'',
       am_amountMinor := 200, am_feeMinor := 0, am_netMinor := 200\<rparr>,
     di_effect := Reinstatement_effect, di_providerCreatedAt := ''tttttt'',
     di_providerTransactionId := ''txn_q'', di_presentmentAmountMinor := 200,
     di_priorPresentmentEffects :=
       map (\<lambda>e. e\<lparr>pe_withdrawalSetId := Some ''set''\<rparr>) (snd sample_withdrawal_plan),
     di_reversesSetId := Some ''set'',
     di_withdrawalGrossPlan := Some (fst (fst sample_withdrawal_plan)), di_feeDetails := []\<rparr>"

definition sample_fee_credit :: dispute_input where
  "sample_fee_credit = sample_reinstatement\<lparr>
     di_metadata := (di_metadata sample_reinstatement)\<lparr>am_amountMinor := 15, am_netMinor := 15\<rparr>,
     di_effect := Fee_credit_effect, di_presentmentAmountMinor := 15, di_reversesSetId := None,
     di_withdrawalGrossPlan := None, di_reversesFeeSetId := Some ''fee_set'',
     di_withdrawalFeePlan := Some (snd (fst sample_withdrawal_plan))\<rparr>"

lemma sample_withdrawal_plans:
  "\<exists>g f es. buildDisputeAllocationPlan sample_clock sample_withdrawal = Inr ((g, f), es)"
proof -
  have "\<not> isl (buildDisputeAllocationPlan sample_clock sample_withdrawal)" by code_simp
  then show ?thesis by (cases "buildDisputeAllocationPlan sample_clock sample_withdrawal") auto
qed

lemma sample_reinstatement_plans:
  "\<exists>g f es. buildDisputeAllocationPlan sample_clock sample_reinstatement = Inr ((g, f), es)"
proof -
  have "\<not> isl (buildDisputeAllocationPlan sample_clock sample_reinstatement)" by code_simp
  then show ?thesis by (cases "buildDisputeAllocationPlan sample_clock sample_reinstatement") auto
qed

lemma sample_fee_credit_mismatch:
  "buildDisputeAllocationPlan sample_clock sample_fee_credit = Inl Allocation_mismatch"
proof -
  have "(case buildDisputeAllocationPlan sample_clock sample_fee_credit of
    Inl e \<Rightarrow> e = Allocation_mismatch | Inr b \<Rightarrow> False)" by code_simp
  then show ?thesis by (auto split: sum.splits)
qed

section \<open>Properties\<close>

text \<open>
  C14. A planned dispute withdrawal takes exactly the disputed amount and never more than the
  history leaves: its presentment effects add up to minus the presentment amount, each belongs
  to a different paid item and its subtotal and tax lie between zero and minus what replay leaves
  of that item; the settlement effects add up to the amount and to minus the fee.
\<close>

theorem dispute_withdrawal_within_remaining:
  assumes "buildDisputeAllocationPlan pd input = Inr ((gross, feePlan), es)"
    and "di_effect input = Withdrawal_effect"
  shows "\<exists>res. replayFinancialExposure pd (dispute_history input) = Inr res \<and>
    effects_total es = - di_presentmentAmountMinor input \<and> distinct (map pe_orderItemId es) \<and>
    (\<forall>e \<in> set es. pe_effect e = Withdrawal \<and>
      (\<exists>s t. map_of (xr_capacity res) (pe_orderItemId e) = Some (s, t) \<and>
        - s \<le> pe_subtotalMinor e \<and> pe_subtotalMinor e \<le> 0 \<and>
        - t \<le> pe_taxMinor e \<and> pe_taxMinor e \<le> 0)) \<and>
    items_total (ap_items gross) = am_amountMinor (di_metadata input) \<and>
    items_total (ap_items feePlan) = - am_feeMinor (di_metadata input)"
proof -
  obtain res items fi fe ms where run: "replayFinancialExposure pd (dispute_history input) = Inr res"
    and b: "assertDisputeBoundary pd input = Inr ms"
    and al: "allocateComponents (- di_presentmentAmountMinor input) (di_presentmentCurrency input)
      (remainingWeights (xr_capacity res)) = Inr items"
    and cover: "di_presentmentAmountMinor input \<le>
      sum_list (map ac_weightMinor (remainingWeights (xr_capacity res)))"
    and es: "es = withdrawalEffects input items"
    and totals: "items_total (ap_items gross) = am_amountMinor (di_metadata input)"
      "items_total (ap_items feePlan) = - am_feeMinor (di_metadata input)"
    using assms by (rule withdrawal_plan_Inr)
  note fit = withdrawn_rows_fit [OF al boundary_Inr(1) [OF b] replay_rows_valid [OF run]
      boundary_Inr(2) [OF b] cover]
  have "map pe_orderItemId es = map fst (filter (\<lambda>(_, s, t). s + t \<noteq> 0) (effect_rows items))"
    unfolding es withdrawalEffects_def by auto
  then have "distinct (map pe_orderItemId es)"
    using distinct_map_filter [OF effect_rows_get(1)] by simp
  moreover have "effects_total es = - di_presentmentAmountMinor input"
    unfolding es withdrawalEffects_total using allocateComponents_total_effect [OF al] .
  ultimately show ?thesis
    using run totals fit unfolding es withdrawalEffects_def by auto
qed

theorem dispute_withdrawal_within_remaining_witness:
  "\<exists>g f es. buildDisputeAllocationPlan sample_clock sample_withdrawal = Inr ((g, f), es) \<and>
     effects_total es = - 500 \<and> items_total (ap_items f) = - 15"
proof -
  obtain g f es where run: "buildDisputeAllocationPlan sample_clock sample_withdrawal = Inr ((g, f), es)"
    using sample_withdrawal_plans by blast
  have e: "di_effect sample_withdrawal = Withdrawal_effect" by (simp add: sample_withdrawal_def)
  have "di_presentmentAmountMinor sample_withdrawal = 500"
    "am_feeMinor (di_metadata sample_withdrawal) = 15" by (simp_all add: sample_withdrawal_def)
  with dispute_withdrawal_within_remaining [OF run e] run show ?thesis by auto
qed

text \<open>
  C15. A planned reinstatement restores exactly the presentment amount, and nothing twice: every
  effect restores a withdrawal of the reversed gross set and of the same dispute and item, by
  amounts between zero and what was withdrawn, that no effect of the history and no other effect
  of the plan restores; the settlement effects add up to the amount.
\<close>

theorem dispute_reinstatement_restores:
  assumes "buildDisputeAllocationPlan pd input = Inr ((gross, feePlan), es)"
    and "di_effect input = Reinstatement_effect"
  shows "effects_total es = di_presentmentAmountMinor input \<and>
    items_total (ap_items gross) = am_amountMinor (di_metadata input) \<and>
    distinct (map pe_reversalOfAllocationId
      (es @ reinstatements (di_priorPresentmentEffects input))) \<and>
    (\<forall>e \<in> set es. pe_effect e = Reinstatement \<and> 0 \<le> pe_subtotalMinor e \<and> 0 \<le> pe_taxMinor e \<and>
      (\<exists>w \<in> set (di_priorPresentmentEffects input). pe_effect w = Withdrawal \<and>
        pe_withdrawalSetId w = di_reversesSetId input \<and>
        pe_reversalOfAllocationId e = Some (pe_allocationId w) \<and> reverses e w))"
proof -
  from assms obtain res ms original gi es' where run: "replayFinancialExposure pd (dispute_history input) = Inr res"
    and b: "assertDisputeBoundary pd input = Inr ms"
    and shape: "assertReinstatementShape input (xr_withdrawals res) (xr_reversedWithdrawalIds res)
      = Inr original"
    and es': "reinstatementEffects input original = Inr es'"
    and plans: "dispute_plans input gi (di_reversesSetId input) [] 0 es' = Inr ((gross, feePlan), es)"
    by (auto simp: buildDisputeAllocationPlan_def buildReinstatementPlan_def rbind_eq_Inr)
  have es: "reinstatementEffects input original = Inr es" using es' dispute_plans_Inr(1) [OF plans] by simp
  note res = replay_result [OF run]
  from shape have original: "original = filter (\<lambda>e. pe_disputeId e = di_disputeId input \<and>
      pe_withdrawalSetId e = di_reversesSetId input) (map snd (xr_withdrawals res))"
    and free: "\<forall>w \<in> set original. pe_allocationId w \<notin> xr_reversedWithdrawalIds res"
    by (auto elim: shape_Inr)
  have "withdrawal_set original" unfolding original by (rule original_withdrawal_set [OF res(1)])
  with reinstatementEffects_Inr [OF es shape _ b]
  have r: "restores input original es" "effects_total es = di_presentmentAmountMinor input" by auto
  have prior: "w \<in> set (di_priorPresentmentEffects input) \<and> pe_effect w = Withdrawal \<and>
      pe_disputeId w = di_disputeId input \<and> pe_withdrawalSetId w = di_reversesSetId input"
    if "w \<in> set original" for w
    using that res(3) unfolding original by (auto simp: dispute_history_def)
  have each: "pe_effect e = Reinstatement \<and> 0 \<le> pe_subtotalMinor e \<and> 0 \<le> pe_taxMinor e \<and>
      (\<exists>w \<in> set original. pe_reversalOfAllocationId e = Some (pe_allocationId w) \<and> reverses e w)"
    if "e \<in> set es" for e
    using r(1) that prior by (fastforce simp: restores_def reverses_def)
  have "pe_reversalOfAllocationId e \<noteq> pe_reversalOfAllocationId q"
    if e: "e \<in> set es" and q: "q \<in> set (reinstatements (di_priorPresentmentEffects input))" for e q
  proof
    assume eq: "pe_reversalOfAllocationId e = pe_reversalOfAllocationId q"
    from each [OF e] obtain w where "w \<in> set original" "pe_reversalOfAllocationId e = Some (pe_allocationId w)"
      by blast
    with eq have "pe_reversalOfAllocationId q = Some (pe_allocationId w)" by simp
    then have "reversal_key q = pe_allocationId w" by (simp add: reversal_key_def)
    with free \<open>w \<in> set original\<close> have "reversal_key q \<notin> xr_reversedWithdrawalIds res" by simp
    with res(2) q show False by (simp add: dispute_history_def)
  qed
  moreover have "distinct (map pe_reversalOfAllocationId (reinstatements (di_priorPresentmentEffects input)))"
    using replay_reversed_once [OF run] by (simp add: dispute_history_def)
  ultimately have "distinct (map pe_reversalOfAllocationId
      (es @ reinstatements (di_priorPresentmentEffects input)))"
    using r(1) by (auto simp: restores_def)
  with r(2) each prior dispute_plans_Inr(2,4) [OF plans] show ?thesis by metis
qed

theorem dispute_reinstatement_restores_witness:
  "\<exists>g f es. buildDisputeAllocationPlan sample_clock sample_reinstatement = Inr ((g, f), es) \<and>
     effects_total es = 200 \<and> items_total (ap_items g) = 200"
proof -
  obtain g f es where run: "buildDisputeAllocationPlan sample_clock sample_reinstatement = Inr ((g, f), es)"
    using sample_reinstatement_plans by blast
  have e: "di_effect sample_reinstatement = Reinstatement_effect" by (simp add: sample_reinstatement_def)
  have "di_presentmentAmountMinor sample_reinstatement = 200"
    "am_amountMinor (di_metadata sample_reinstatement) = 200"
    by (simp_all add: sample_reinstatement_def)
  with dispute_reinstatement_restores [OF run e] run show ?thesis by auto
qed

text \<open>
  C16. A fee credit is never planned when the fees of the withdrawal gave one order item two
  components, for instance a dispute fee and the tax on it: the items of the credit all become
  \<^verbatim>\<open>fee_credit\<close> items, and the plan then has two items with the same order item and component,
  which the conservation check rejects.
\<close>

theorem fee_credit_rejects_mixed_fees:
  assumes "di_effect input = Fee_credit_effect" and "di_withdrawalFeePlan input = Some plan"
    and "i \<in> set (ap_items plan)" and "j \<in> set (ap_items plan)"
    and "ai_orderItemId i = ai_orderItemId j" and "ai_component i \<noteq> ai_component j"
    and "ai_effectMinor i \<noteq> 0" and "ai_effectMinor j \<noteq> 0"
  shows "isl (buildDisputeAllocationPlan pd input)"
proof (rule ccontr)
  let ?m = "di_metadata input"
  assume "\<not> isl (buildDisputeAllocationPlan pd input)"
  then obtain gross feePlan es where
    ok: "buildDisputeAllocationPlan pd input = Inr ((gross, feePlan), es)"
    by (cases "buildDisputeAllocationPlan pd input") auto
  then obtain gi where gi: "feeCreditItems input = Inr gi"
    and plans: "dispute_plans input gi None [] 0 [] = Inr ((gross, feePlan), es)"
    using assms(1) by (auto simp: buildDisputeAllocationPlan_def rbind_eq_Inr)
  from gi assms(2) obtain ws items where ws: "planWeights plan = Inr ws"
    and al: "allocateComponents (am_amountMinor ?m) (am_settlementCurrency ?m)
      (map (\<lambda>w. w\<lparr>ac_component := Fee_credit\<rparr>) ws) = Inr items"
    and gi': "gi = map (\<lambda>item. item\<lparr>ai_component := Fee_credit\<rparr>) items"
    by (auto simp: feeCreditItems_def Let_def rbind_eq_Inr split: if_splits)
  let ?cs = "map (\<lambda>w. w\<lparr>ac_component := Fee_credit\<rparr>) (plan_weights (ap_items plan))"
  have keys: "distinct (map ai_tieBreakKey (ap_items plan))" and ws: "ws = plan_weights (ap_items plan)"
    using ws by (auto simp: planWeights_eq split: if_splits)
  have present: "\<exists>a \<in> set gi. ai_orderItemId a = ai_orderItemId x \<and> ai_tieBreakKey a = ai_tieBreakKey x"
    if x: "x \<in> set (ap_items plan)" "ai_effectMinor x \<noteq> 0" for x
  proof -
    have "\<exists>c \<in> set ?cs. ac_tieBreakKey c = ai_tieBreakKey x \<and> 0 < ac_weightMinor c"
      using x by (auto simp: plan_weights_def)
    then obtain a where a: "a \<in> set items" "ai_tieBreakKey a = ai_tieBreakKey x"
      using allocateComponents_complete [OF al [unfolded ws]] by blast
    from allocateComponents_item [OF al [unfolded ws] a(1)] obtain c where
      "c \<in> set ?cs" "ai_orderItemId a = ac_orderItemId c" "ai_tieBreakKey a = ac_tieBreakKey c" by metis
    then obtain y where "y \<in> set (ap_items plan)" "ai_orderItemId a = ai_orderItemId y"
      "ai_tieBreakKey y = ai_tieBreakKey x" using a(2) by (auto simp: plan_weights_def)
    then have "ai_orderItemId a = ai_orderItemId x"
      using keys x(1) by (auto simp: distinct_map dest: inj_onD)
    with a show ?thesis unfolding gi' by force
  qed
  have "ai_tieBreakKey i \<noteq> ai_tieBreakKey j"
    using keys assms(3,4,6) by (auto simp: distinct_map dest: inj_onD)
  moreover obtain a b where "a \<in> set gi" "b \<in> set gi" "ai_orderItemId a = ai_orderItemId b"
    "ai_tieBreakKey a = ai_tieBreakKey i" "ai_tieBreakKey b = ai_tieBreakKey j"
    using present [OF assms(3,7)] present [OF assms(4,8)] assms(5) by metis
  moreover have "ai_component a = Fee_credit" if "a \<in> set gi" for a
    using that unfolding gi' by auto
  moreover have "inj_on (\<lambda>i. (ai_orderItemId i, ai_component i)) (set gi)"
    using dispute_plans_Inr(6) [OF plans] by (simp add: wf_items_def distinct_map)
  ultimately show False by (metis (mono_tags, lifting) inj_onD)
qed

theorem fee_credit_rejects_mixed_fees_witness:
  "isl (buildDisputeAllocationPlan sample_clock sample_fee_credit)"
proof -
  let ?items = "ap_items (snd (fst sample_withdrawal_plan))"
  have e: "di_effect sample_fee_credit = Fee_credit_effect"
    and p: "di_withdrawalFeePlan sample_fee_credit = Some (snd (fst sample_withdrawal_plan))"
    by (simp_all add: sample_fee_credit_def)
  have "length ?items = 4 \<and> ai_orderItemId (?items ! 0) = ai_orderItemId (?items ! 2) \<and>
    ai_component (?items ! 0) \<noteq> ai_component (?items ! 2) \<and>
    ai_effectMinor (?items ! 0) \<noteq> 0 \<and> ai_effectMinor (?items ! 2) \<noteq> 0" by code_simp
  then show ?thesis
    using fee_credit_rejects_mixed_fees [OF e p, of "?items ! 0" "?items ! 2"] by simp
qed

end
