(* ===== verification/CorrectionPlan.thy ===== *)
theory CorrectionPlan
  imports AllocCommon
begin

text \<open>
  \<^verbatim>\<open>refund-review/correction-plan.ts\<close>: planning the correction of how a finalized refund is
  reported. An administrator requests a new total for every order item; the planner splits it
  into subtotal and tax, spreads the settled gross amount and the fee in proportion, and writes
  the rows to persist as absolute amounts with deltas. Amounts that may be \<^verbatim>\<open>null\<close> are options.
  The SHA-256 fingerprint of the canonical document is the argument \<open>canonicalHash\<close>. A
  \<^verbatim>\<open>TypeError\<close> (a rejected request, or \<^verbatim>\<open>BigInt(null)\<close>), the private \<^verbatim>\<open>EvidenceConflict\<close> and a
  permanent error of the allocation routines are the three kinds of thrown error.
\<close>

datatype evidence_reason = Provider_evidence_pending | Immutable_conflict

datatype correction_error = Type_error | Evidence_conflict evidence_reason | Permanent fin_code

type_synonym 'a corr = "correction_error + 'a"

datatype baseline_kind = Immutable_base | Compatible_correction

datatype ineligible_reason = Ineligible_evidence evidence_reason | Not_finalized | No_change

datatype correction_domain = Presentment_domain | Settlement_domain

section \<open>Data\<close>

record correction_facts =
  cf_orderItemId :: string
  cf_titleId :: string
  cf_soldAsTitle :: string
  cf_paidSubtotalMinor :: int
  cf_paidTaxMinor :: int
  cf_paidTotalMinor :: int
  cf_effectiveSiblingSubtotalMinor :: int
  cf_effectiveSiblingTaxMinor :: int
  cf_immutablePresentmentSubtotalMinor :: int
  cf_immutablePresentmentTaxMinor :: int
  cf_immutableSettlementSubtotalMinor :: "int option"
  cf_immutableSettlementTaxMinor :: "int option"
  cf_immutableRefundFeeImpactMinor :: "int option"
  cf_compatiblePresentmentSubtotalMinor :: "int option"
  cf_compatiblePresentmentTaxMinor :: "int option"
  cf_compatibleSettlementSubtotalMinor :: "int option"
  cf_compatibleSettlementTaxMinor :: "int option"
  cf_compatibleRefundFeeImpactMinor :: "int option"

text \<open>A requested item: its order item and the new presentment total.\<close>

type_synonym correction_item_request = "string \<times> int"

record correction_request =
  cq_refundId :: string
  cq_reason :: string
  cq_expectedBaseAllocationSetId :: string
  cq_expectedSourceFingerprint :: string
  cq_expectedNextCorrectionVersion :: int
  cq_items :: "correction_item_request list"

record active_projection =
  pj_classifierVersion :: int
  pj_allocationAlgorithmVersion :: int
  pj_replayId :: string

record raw_tip =
  rt_id :: string
  rt_correctionVersion :: int
  rt_baseAllocationSetId :: string
  rt_sourceFingerprint :: string

record compatible_tip =
  ct_id :: string
  ct_correctionVersion :: int

record immutable_base =
  ib_grossAllocationSetId :: string
  ib_feeAllocationSetId :: "string option"
  ib_sourceFingerprint :: string
  ib_currency :: string
  ib_settlementCurrency :: "string option"
  ib_totalPresentmentMinor :: int

record active_fee_component =
  fc_component :: fin_component
  fc_amountMinor :: int
  fc_currency :: string

record correction_input =
  cp_request :: correction_request
  cp_activeProjection :: active_projection
  cp_currentReportingComplete :: bool
  cp_rawTip :: "raw_tip option"
  cp_compatibleTip :: "compatible_tip option"
  cp_immutableBase :: immutable_base
  cp_activeFeeComponents :: "active_fee_component list"
  cp_items :: "correction_facts list"

record persistable_item =
  pr_domain :: correction_domain
  pr_sourceAllocationSetId :: "string option"
  pr_orderItemId :: string
  pr_component :: fin_component
  pr_currency :: string
  pr_approvedAbsoluteMinor :: int
  pr_deltaMinor :: int
  pr_stableTieBreakKey :: string

record planned_item =
  pi_facts :: correction_facts
  pi_requestedTotalMinor :: int
  pi_baselineSubtotalMinor :: int
  pi_baselineTaxMinor :: int
  pi_baselineSettlementSubtotalMinor :: "int option"
  pi_baselineSettlementTaxMinor :: "int option"
  pi_baselineRefundFeeImpactMinor :: "int option"
  pi_proposedSubtotalMinor :: int
  pi_proposedTaxMinor :: int
  pi_proposedSettlementSubtotalMinor :: "int option"
  pi_proposedSettlementTaxMinor :: "int option"
  pi_proposedRefundFeeImpactMinor :: "int option"

record preview_item =
  pv_orderItemId :: string
  pv_titleId :: string
  pv_soldAsTitle :: string
  pv_baselineTotalMinor :: int
  pv_baselineSubtotalMinor :: int
  pv_baselineTaxMinor :: int
  pv_proposedTotalMinor :: int
  pv_proposedSubtotalMinor :: int
  pv_proposedTaxMinor :: int
  pv_subtotalDisplayDeltaMinor :: int
  pv_taxDisplayDeltaMinor :: int
  pv_baselineSettlementGrossMinor :: "int option"
  pv_proposedSettlementGrossMinor :: "int option"
  pv_settlementGrossDisplayDeltaMinor :: "int option"
  pv_baselineRefundFeeImpactMinor :: "int option"
  pv_proposedRefundFeeImpactMinor :: "int option"
  pv_refundFeeImpactDisplayDeltaMinor :: "int option"

record correction_preview =
  cv_refundId :: string
  cv_expectedBaseAllocationSetId :: string
  cv_rawPredecessorCorrectionSetId :: "string option"
  cv_compatibleCorrectionSetId :: "string option"
  cv_expectedNextCorrectionVersion :: int
  cv_expectedSourceFingerprint :: string
  cv_previewFingerprint :: "string option"
  cv_baselineKind :: baseline_kind
  cv_currentReportingComplete :: bool
  cv_proposedReportingComplete :: bool
  cv_compatibilityRepair :: bool
  cv_currency :: string
  cv_settlementCurrency :: "string option"
  cv_baselineTotalMinor :: int
  cv_proposedTotalMinor :: int
  cv_eligible :: bool
  cv_ineligibleReason :: "ineligible_reason option"
  cv_items :: "preview_item list"

record fingerprint_document =
  fg_refundId :: string
  fg_activeProjection :: active_projection
  fg_expectedBaseAllocationSetId :: string
  fg_rawPredecessorCorrectionSetId :: "string option"
  fg_compatibleCorrectionSetId :: "string option"
  fg_expectedNextCorrectionVersion :: int
  fg_expectedSourceFingerprint :: string
  fg_baselineKind :: baseline_kind
  fg_currentReportingComplete :: bool
  fg_proposedReportingComplete :: bool
  fg_compatibilityRepair :: bool
  fg_requestedItems :: "correction_item_request list"
  fg_previewItems :: "preview_item list"
  fg_persistableItems :: "persistable_item list"

datatype correction_result =
    Ineligible correction_preview
  | Ready correction_preview fingerprint_document "persistable_item list"

section \<open>Checks\<close>

definition safe_money_max :: int where
  "safe_money_max = 99999999"

definition safeMoney :: "int \<Rightarrow> bool" where
  "safeMoney v \<longleftrightarrow> safe_integer v \<and> v \<ge> - safe_money_max \<and> v \<le> safe_money_max"

definition safeUnsignedMoney :: "int \<Rightarrow> bool" where
  "safeUnsignedMoney v \<longleftrightarrow> safeMoney v \<and> v \<ge> 0"

definition positiveInt32 :: "int \<Rightarrow> bool" where
  "positiveInt32 v \<longleftrightarrow> safe_integer v \<and> v \<ge> 1 \<and> v \<le> 2147483647"

abbreviation evidence_conflict :: "bool \<Rightarrow> unit corr" where
  "evidence_conflict b \<equiv> throw_if b (Evidence_conflict Immutable_conflict)"

definition safe_sum :: "int list \<Rightarrow> int corr" where
  "safe_sum values =
     (let acc = sum_list values in
      rbind (evidence_conflict (acc < - safe_money_max \<or> acc > safe_money_max)) (\<lambda>_. Inr acc))"

text \<open>\<^verbatim>\<open>sum\<close> of values asserted to be present: \<^verbatim>\<open>BigInt(null)\<close> is a \<^verbatim>\<open>TypeError\<close>.\<close>

definition safe_sum_present :: "int option list \<Rightarrow> int corr" where
  "safe_sum_present values =
     (if None \<in> set values then Inl Type_error else safe_sum (map the values))"

definition lift_fin :: "'a fin \<Rightarrow> 'a corr" where
  "lift_fin r = (case r of Inl code \<Rightarrow> Inl (Permanent code) | Inr x \<Rightarrow> Inr x)"

fun decimal_of_nat :: "nat \<Rightarrow> string" where
  "decimal_of_nat n = (if n < 10 then [char_of (48 + n)]
     else decimal_of_nat (n div 10) @ [char_of (48 + n mod 10)])"

definition replay_id :: "int \<Rightarrow> int \<Rightarrow> string" where
  "replay_id classifier algorithm =
     ''c'' @ decimal_of_nat (nat classifier) @ ''-a'' @ decimal_of_nat (nat algorithm)"

definition validateRequest ::
  "correction_input \<Rightarrow> (correction_facts list \<times> correction_item_request list \<times> int) corr" where
  "validateRequest input =
     (let request = cp_request input; base = cp_immutableBase input;
          projection = cp_activeProjection input in
      rbind (throw_if (\<not> uuid_text (cq_refundId request) \<or>
          cq_reason request \<noteq> ''allocation_attribution_correction'' \<or>
          \<not> uuid_text (cq_expectedBaseAllocationSetId request) \<or>
          \<not> sha256_hex (cq_expectedSourceFingerprint request) \<or>
          length (cq_items request) < 1 \<or> length (cq_items request) > 25 \<or>
          \<not> uuid_text (ib_grossAllocationSetId base) \<or>
          (case ib_feeAllocationSetId base of None \<Rightarrow> False | Some s \<Rightarrow> \<not> uuid_text s) \<or>
          \<not> sha256_hex (ib_sourceFingerprint base) \<or>
          \<not> currency_code (ib_currency base) \<or>
          (case ib_settlementCurrency base of None \<Rightarrow> False | Some c \<Rightarrow> \<not> currency_code c) \<or>
          \<not> safeUnsignedMoney (ib_totalPresentmentMinor base) \<or>
          ib_totalPresentmentMinor base = 0 \<or>
          cq_expectedBaseAllocationSetId request \<noteq> ib_grossAllocationSetId base \<or>
          cq_expectedSourceFingerprint request \<noteq> ib_sourceFingerprint base) Type_error) (\<lambda>_.
      let expectedNext = (case cp_rawTip input of None \<Rightarrow> 1 | Some t \<Rightarrow> rt_correctionVersion t + 1) in
      rbind (throw_if ((case cp_rawTip input of None \<Rightarrow> False | Some t \<Rightarrow>
            \<not> uuid_text (rt_id t) \<or> \<not> positiveInt32 (rt_correctionVersion t) \<or>
            \<not> uuid_text (rt_baseAllocationSetId t) \<or> \<not> sha256_hex (rt_sourceFingerprint t)) \<or>
          \<not> positiveInt32 expectedNext \<or>
          cq_expectedNextCorrectionVersion request \<noteq> expectedNext) Type_error) (\<lambda>_.
      rbind (throw_if (\<not> positiveInt32 (pj_classifierVersion projection) \<or>
          \<not> positiveInt32 (pj_allocationAlgorithmVersion projection) \<or>
          pj_replayId projection \<noteq>
            replay_id (pj_classifierVersion projection) (pj_allocationAlgorithmVersion projection) \<or>
          length (cp_items input) < 1 \<or> length (cp_items input) > 25) Type_error) (\<lambda>_.
      let requests = js_sort (\<lambda>l r. compare_text (fst l) (fst r)) (cq_items request) in
      rbind (throw_if ((\<exists>(orderItemId, amount) \<in> set requests. \<not> uuid_text orderItemId \<or>
          \<not> safeUnsignedMoney amount) \<or> \<not> distinct (map fst requests)) Type_error) (\<lambda>_.
      let facts = js_sort (\<lambda>l r. compare_text (cf_orderItemId l) (cf_orderItemId r)) (cp_items input) in
      rbind (throw_if ((\<exists>f \<in> set facts. \<not> uuid_text (cf_orderItemId f)) \<or>
          \<not> distinct (map cf_orderItemId facts)) Type_error) (\<lambda>_.
      rbind (throw_if (map cf_orderItemId facts \<noteq> map fst requests) Type_error) (\<lambda>_.
      Inr (facts, requests, expectedNext))))))))"

section \<open>Baseline and preview\<close>

definition baselineFor :: "correction_facts \<Rightarrow> bool \<Rightarrow> planned_item" where
  "baselineFor item useCompatible =
     (let blank = \<lparr>pi_facts = item, pi_requestedTotalMinor = 0,
        pi_baselineSubtotalMinor = cf_immutablePresentmentSubtotalMinor item,
        pi_baselineTaxMinor = cf_immutablePresentmentTaxMinor item,
        pi_baselineSettlementSubtotalMinor = cf_immutableSettlementSubtotalMinor item,
        pi_baselineSettlementTaxMinor = cf_immutableSettlementTaxMinor item,
        pi_baselineRefundFeeImpactMinor = cf_immutableRefundFeeImpactMinor item,
        pi_proposedSubtotalMinor = 0, pi_proposedTaxMinor = 0,
        pi_proposedSettlementSubtotalMinor = None, pi_proposedSettlementTaxMinor = None,
        pi_proposedRefundFeeImpactMinor = None\<rparr> in
      if useCompatible then blank\<lparr>
        pi_baselineSubtotalMinor :=
          (case cf_compatiblePresentmentSubtotalMinor item of None \<Rightarrow> 0 | Some v \<Rightarrow> v),
        pi_baselineTaxMinor :=
          (case cf_compatiblePresentmentTaxMinor item of None \<Rightarrow> 0 | Some v \<Rightarrow> v),
        pi_baselineSettlementSubtotalMinor := cf_compatibleSettlementSubtotalMinor item,
        pi_baselineSettlementTaxMinor := cf_compatibleSettlementTaxMinor item,
        pi_baselineRefundFeeImpactMinor := cf_compatibleRefundFeeImpactMinor item\<rparr>
      else blank)"

definition fallbackPlannedItems ::
  "correction_facts list \<Rightarrow> correction_item_request list \<Rightarrow> bool \<Rightarrow> planned_item list" where
  "fallbackPlannedItems facts requests useCompatible =
     map (\<lambda>item. let baseline = baselineFor item useCompatible in
       baseline\<lparr>
         pi_requestedTotalMinor := (case map_of requests (cf_orderItemId item) of
             None \<Rightarrow> pi_baselineSubtotalMinor baseline + pi_baselineTaxMinor baseline
           | Some amount \<Rightarrow> amount),
         pi_proposedSubtotalMinor := pi_baselineSubtotalMinor baseline,
         pi_proposedTaxMinor := pi_baselineTaxMinor baseline,
         pi_proposedSettlementSubtotalMinor := pi_baselineSettlementSubtotalMinor baseline,
         pi_proposedSettlementTaxMinor := pi_baselineSettlementTaxMinor baseline,
         pi_proposedRefundFeeImpactMinor := pi_baselineRefundFeeImpactMinor baseline\<rparr>) facts"

definition plus_present :: "int option \<Rightarrow> int option \<Rightarrow> int option" where
  "plus_present a b = (case (a, b) of (Some x, Some y) \<Rightarrow> Some (x + y) | _ \<Rightarrow> None)"

definition minus_present :: "int option \<Rightarrow> int option \<Rightarrow> int option" where
  "minus_present a b = (case (a, b) of (Some x, Some y) \<Rightarrow> Some (x - y) | _ \<Rightarrow> None)"

definition previewItem :: "planned_item \<Rightarrow> preview_item" where
  "previewItem item =
     (let baselineSettlementGrossMinor = plus_present (pi_baselineSettlementSubtotalMinor item)
            (pi_baselineSettlementTaxMinor item);
          proposedSettlementGrossMinor = plus_present (pi_proposedSettlementSubtotalMinor item)
            (pi_proposedSettlementTaxMinor item) in
      \<lparr>pv_orderItemId = cf_orderItemId (pi_facts item), pv_titleId = cf_titleId (pi_facts item),
       pv_soldAsTitle = cf_soldAsTitle (pi_facts item),
       pv_baselineTotalMinor = pi_baselineSubtotalMinor item + pi_baselineTaxMinor item,
       pv_baselineSubtotalMinor = pi_baselineSubtotalMinor item,
       pv_baselineTaxMinor = pi_baselineTaxMinor item,
       pv_proposedTotalMinor = pi_proposedSubtotalMinor item + pi_proposedTaxMinor item,
       pv_proposedSubtotalMinor = pi_proposedSubtotalMinor item,
       pv_proposedTaxMinor = pi_proposedTaxMinor item,
       pv_subtotalDisplayDeltaMinor = pi_proposedSubtotalMinor item - pi_baselineSubtotalMinor item,
       pv_taxDisplayDeltaMinor = pi_proposedTaxMinor item - pi_baselineTaxMinor item,
       pv_baselineSettlementGrossMinor = baselineSettlementGrossMinor,
       pv_proposedSettlementGrossMinor = proposedSettlementGrossMinor,
       pv_settlementGrossDisplayDeltaMinor =
         minus_present proposedSettlementGrossMinor baselineSettlementGrossMinor,
       pv_baselineRefundFeeImpactMinor = pi_baselineRefundFeeImpactMinor item,
       pv_proposedRefundFeeImpactMinor = pi_proposedRefundFeeImpactMinor item,
       pv_refundFeeImpactDisplayDeltaMinor = minus_present (pi_proposedRefundFeeImpactMinor item)
         (pi_baselineRefundFeeImpactMinor item)\<rparr>)"

definition previewItems :: "planned_item list \<Rightarrow> preview_item list" where
  "previewItems items = map previewItem items"

definition makePreview ::
  "correction_input \<Rightarrow> int \<Rightarrow> baseline_kind \<Rightarrow> planned_item list \<Rightarrow> bool \<Rightarrow> bool \<Rightarrow>
   ineligible_reason option \<Rightarrow> string option \<Rightarrow> correction_preview corr" where
  "makePreview input expectedNext baselineKind plannedItems proposedComplete eligible reason
     fingerprint =
     (let rows = previewItems plannedItems; base = cp_immutableBase input in
      rbind (safe_sum (map pv_baselineTotalMinor rows)) (\<lambda>baselineTotal.
      rbind (safe_sum (map pv_proposedTotalMinor rows)) (\<lambda>proposedTotal.
      Inr \<lparr>cv_refundId = cq_refundId (cp_request input),
           cv_expectedBaseAllocationSetId = ib_grossAllocationSetId base,
           cv_rawPredecessorCorrectionSetId = map_option rt_id (cp_rawTip input),
           cv_compatibleCorrectionSetId = map_option ct_id (cp_compatibleTip input),
           cv_expectedNextCorrectionVersion = expectedNext,
           cv_expectedSourceFingerprint = ib_sourceFingerprint base,
           cv_previewFingerprint = fingerprint, cv_baselineKind = baselineKind,
           cv_currentReportingComplete = cp_currentReportingComplete input,
           cv_proposedReportingComplete = proposedComplete,
           cv_compatibilityRepair = (\<not> cp_currentReportingComplete input \<and> proposedComplete),
           cv_currency = ib_currency base, cv_settlementCurrency = ib_settlementCurrency base,
           cv_baselineTotalMinor = baselineTotal, cv_proposedTotalMinor = proposedTotal,
           cv_eligible = eligible, cv_ineligibleReason = reason, cv_items = rows\<rparr>)))"

definition ineligible ::
  "correction_input \<Rightarrow> correction_facts list \<Rightarrow> correction_item_request list \<Rightarrow> int \<Rightarrow>
   baseline_kind \<Rightarrow> evidence_reason \<Rightarrow> planned_item list option \<Rightarrow> correction_result corr" where
  "ineligible input facts requests expectedNext baselineKind reason plannedItems =
     rbind (makePreview input expectedNext baselineKind
       (case plannedItems of
          None \<Rightarrow> fallbackPlannedItems facts requests (baselineKind = Compatible_correction)
        | Some items \<Rightarrow> items)
       False False (Some (Ineligible_evidence reason)) None) (\<lambda>preview. Inr (Ineligible preview))"

section \<open>Planning\<close>

definition amount_for :: "string \<Rightarrow> lr_share list \<Rightarrow> int" where
  "amount_for key allocations =
     (case map_of (rev (map (\<lambda>a. (ls_tieKey a, ls_amountMinor a)) allocations)) key of
        None \<Rightarrow> 0 | Some v \<Rightarrow> v)"

definition subtotal_key :: "string \<Rightarrow> string" where
  "subtotal_key orderItemId = orderItemId @ '':'' @ ''refund_subtotal''"

definition tax_key :: "string \<Rightarrow> string" where
  "tax_key orderItemId = orderItemId @ '':'' @ ''refund_tax''"

definition allocatePresentmentItem ::
  "correction_item_request list \<Rightarrow> bool \<Rightarrow> correction_facts \<Rightarrow> planned_item corr" where
  "allocatePresentmentItem requests useCompatible item =
     rbind (evidence_conflict (\<not> uuid_text (cf_titleId item) \<or>
         length (cf_soldAsTitle item) < 1 \<or> length (cf_soldAsTitle item) > 300 \<or>
         \<not> safeUnsignedMoney (cf_paidSubtotalMinor item) \<or>
         \<not> safeUnsignedMoney (cf_paidTaxMinor item) \<or>
         \<not> safeUnsignedMoney (cf_paidTotalMinor item) \<or>
         cf_paidSubtotalMinor item + cf_paidTaxMinor item \<noteq> cf_paidTotalMinor item \<or>
         \<not> safeUnsignedMoney (cf_effectiveSiblingSubtotalMinor item) \<or>
         \<not> safeUnsignedMoney (cf_effectiveSiblingTaxMinor item) \<or>
         \<not> safeUnsignedMoney (cf_immutablePresentmentSubtotalMinor item) \<or>
         \<not> safeUnsignedMoney (cf_immutablePresentmentTaxMinor item))) (\<lambda>_.
     let remainingSubtotal = cf_paidSubtotalMinor item - cf_effectiveSiblingSubtotalMinor item;
         remainingTax = cf_paidTaxMinor item - cf_effectiveSiblingTaxMinor item in
     rbind (evidence_conflict (remainingSubtotal < 0 \<or> remainingTax < 0 \<or>
         cf_immutablePresentmentSubtotalMinor item > remainingSubtotal \<or>
         cf_immutablePresentmentTaxMinor item > remainingTax)) (\<lambda>_.
     case map_of requests (cf_orderItemId item) of
       None \<Rightarrow> Inl Type_error
     | Some requestedTotal \<Rightarrow>
         rbind (evidence_conflict (requestedTotal > remainingSubtotal + remainingTax)) (\<lambda>_.
         rbind (lift_fin (allocateSignedLargestRemainder requestedTotal
           [\<lparr>lw_tieKey = subtotal_key (cf_orderItemId item), lw_weightMinor = remainingSubtotal\<rparr>,
            \<lparr>lw_tieKey = tax_key (cf_orderItemId item), lw_weightMinor = remainingTax\<rparr>]))
           (\<lambda>allocations.
         let proposedSubtotal = amount_for (subtotal_key (cf_orderItemId item)) allocations;
             proposedTax = amount_for (tax_key (cf_orderItemId item)) allocations;
             baseline = baselineFor item useCompatible in
         rbind (evidence_conflict (proposedSubtotal > remainingSubtotal \<or>
             proposedTax > remainingTax \<or> proposedSubtotal + proposedTax \<noteq> requestedTotal)) (\<lambda>_.
         rbind (evidence_conflict (pi_baselineSubtotalMinor baseline > remainingSubtotal \<or>
             pi_baselineTaxMinor baseline > remainingTax)) (\<lambda>_.
         Inr (baseline\<lparr>pi_requestedTotalMinor := requestedTotal,
           pi_proposedSubtotalMinor := proposedSubtotal, pi_proposedTaxMinor := proposedTax\<rparr>)))))))"

definition allocatePresentment ::
  "correction_facts list \<Rightarrow> correction_item_request list \<Rightarrow> bool \<Rightarrow> planned_item list corr" where
  "allocatePresentment facts requests useCompatible =
     rmap (allocatePresentmentItem requests useCompatible) facts"

definition settled_pair :: "planned_item \<Rightarrow> int list corr" where
  "settled_pair item =
     (case (cf_immutableSettlementSubtotalMinor (pi_facts item),
            cf_immutableSettlementTaxMinor (pi_facts item)) of
        (Some s, Some t) \<Rightarrow>
          rbind (evidence_conflict (\<not> safeMoney s \<or> \<not> safeMoney t \<or> s > 0 \<or> t > 0)) (\<lambda>_. Inr [s, t])
      | _ \<Rightarrow> Inl (Evidence_conflict Immutable_conflict))"

definition settlement_weights :: "planned_item list \<Rightarrow> lr_weight list" where
  "settlement_weights items = concat (map (\<lambda>item.
     [\<lparr>lw_tieKey = subtotal_key (cf_orderItemId (pi_facts item)),
       lw_weightMinor = pi_proposedSubtotalMinor item\<rparr>,
      \<lparr>lw_tieKey = tax_key (cf_orderItemId (pi_facts item)),
       lw_weightMinor = pi_proposedTaxMinor item\<rparr>]) items)"

definition applySettlementGross ::
  "correction_input \<Rightarrow> planned_item list \<Rightarrow> planned_item list corr" where
  "applySettlementGross input items =
     rbind (throw_if (ib_settlementCurrency (cp_immutableBase input) = None)
       (Evidence_conflict Provider_evidence_pending)) (\<lambda>_.
     rbind (rmap settled_pair items) (\<lambda>pairs.
     rbind (safe_sum (concat pairs)) (\<lambda>grossTotalMinor.
     rbind (evidence_conflict (grossTotalMinor \<ge> 0)) (\<lambda>_.
     rbind (lift_fin (allocateSignedLargestRemainder grossTotalMinor (settlement_weights items)))
       (\<lambda>allocations.
     Inr (map (\<lambda>item. item\<lparr>
       pi_proposedSettlementSubtotalMinor :=
         Some (amount_for (subtotal_key (cf_orderItemId (pi_facts item))) allocations),
       pi_proposedSettlementTaxMinor :=
         Some (amount_for (tax_key (cf_orderItemId (pi_facts item))) allocations)\<rparr>) items))))))"

definition immutable_fee :: "planned_item \<Rightarrow> int corr" where
  "immutable_fee item =
     (case cf_immutableRefundFeeImpactMinor (pi_facts item) of
        None \<Rightarrow> Inl (Evidence_conflict Immutable_conflict)
      | Some v \<Rightarrow> rbind (evidence_conflict (\<not> safeMoney v \<or> v > 0)) (\<lambda>_. Inr v))"

definition fee_by_item :: "allocation_item list \<Rightarrow> (string \<times> int) list" where
  "fee_by_item allocations =
     fold (\<lambda>a. accumulate (ai_orderItemId a) (ai_effectMinor a)) allocations []"

definition applyFee :: "correction_input \<Rightarrow> planned_item list \<Rightarrow> planned_item list corr" where
  "applyFee input items =
     (let base = cp_immutableBase input; components = cp_activeFeeComponents input;
          nonzeroComponents = filter (\<lambda>c. fc_amountMinor c \<noteq> 0) components in
      rbind (evidence_conflict (\<exists>c \<in> set components. \<not> safeMoney (fc_amountMinor c) \<or>
        ib_settlementCurrency base \<noteq> Some (fc_currency c))) (\<lambda>_.
      rbind (evidence_conflict (\<exists>c \<in> set nonzeroComponents. fc_component c \<noteq> Refund_fee)) (\<lambda>_.
      if ib_feeAllocationSetId base = None then
        rbind (evidence_conflict (nonzeroComponents \<noteq> [] \<or>
          (\<exists>item \<in> set items. cf_immutableRefundFeeImpactMinor (pi_facts item) \<noteq> None \<or>
             pi_baselineRefundFeeImpactMinor item \<noteq> None))) (\<lambda>_. Inr items)
      else (case ib_settlementCurrency base of
        None \<Rightarrow> Inl (Evidence_conflict Provider_evidence_pending)
      | Some settlementCurrency \<Rightarrow>
          rbind (rmap immutable_fee items) (\<lambda>fees.
          rbind (safe_sum fees) (\<lambda>immutableTotal.
          rbind (safe_sum (map fc_amountMinor components)) (\<lambda>activeTotal.
          rbind (evidence_conflict (activeTotal > 0 \<or> activeTotal \<noteq> immutableTotal)) (\<lambda>_.
          rbind (lift_fin (allocateFeeDetails (- activeTotal) settlementCurrency
            (map (\<lambda>item. \<lparr>fw_orderItemId = cf_orderItemId (pi_facts item),
               fw_subtotalMinor = pi_proposedSubtotalMinor item,
               fw_currency = settlementCurrency\<rparr>) items)
            (map (\<lambda>c. \<lparr>fd_amountMinor = fc_amountMinor c, fd_component = Refund_fee\<rparr>)
               nonzeroComponents))) (\<lambda>allocations.
          rbind (evidence_conflict (\<exists>a \<in> set allocations. ai_component a \<noteq> Refund_fee)) (\<lambda>_.
          let proposedById = fee_by_item allocations in
          Inr (map (\<lambda>item. item\<lparr>pi_proposedRefundFeeImpactMinor :=
            Some (case map_of proposedById (cf_orderItemId (pi_facts item)) of
              None \<Rightarrow> 0 | Some v \<Rightarrow> v)\<rparr>) items)))))))))))"

definition validateBaseline :: "correction_input \<Rightarrow> planned_item list \<Rightarrow> bool \<Rightarrow> unit corr" where
  "validateBaseline input items useCompatible =
     (let base = cp_immutableBase input in
      rbind (safe_sum (concat (map (\<lambda>i. [pi_baselineSubtotalMinor i, pi_baselineTaxMinor i]) items)))
        (\<lambda>baselinePresentment.
      rbind (safe_sum (concat (map (\<lambda>i. [cf_immutablePresentmentSubtotalMinor (pi_facts i),
          cf_immutablePresentmentTaxMinor (pi_facts i)]) items))) (\<lambda>immutablePresentment.
      rbind (evidence_conflict (baselinePresentment \<noteq> ib_totalPresentmentMinor base \<or>
          immutablePresentment \<noteq> ib_totalPresentmentMinor base \<or>
          (\<exists>i \<in> set items. \<not> safeUnsignedMoney (pi_baselineSubtotalMinor i) \<or>
             \<not> safeUnsignedMoney (pi_baselineTaxMinor i)))) (\<lambda>_.
      rbind (evidence_conflict (useCompatible \<and> (\<exists>i \<in> set items.
          cf_compatiblePresentmentSubtotalMinor (pi_facts i) = None \<or>
          cf_compatiblePresentmentTaxMinor (pi_facts i) = None))) (\<lambda>_.
      rbind (if ib_settlementCurrency base = None then Inr ()
        else
          rbind (evidence_conflict (\<exists>i \<in> set items. pi_baselineSettlementSubtotalMinor i = None \<or>
            pi_baselineSettlementTaxMinor i = None)) (\<lambda>_.
          rbind (safe_sum_present (concat (map (\<lambda>i. [cf_immutableSettlementSubtotalMinor (pi_facts i),
            cf_immutableSettlementTaxMinor (pi_facts i)]) items))) (\<lambda>immutableGross.
          rbind (safe_sum_present (concat (map (\<lambda>i. [pi_baselineSettlementSubtotalMinor i,
            pi_baselineSettlementTaxMinor i]) items))) (\<lambda>baselineGross.
          evidence_conflict (immutableGross \<noteq> baselineGross))))) (\<lambda>_.
      if ib_feeAllocationSetId base = None then Inr ()
      else
        rbind (evidence_conflict (\<exists>i \<in> set items. pi_baselineRefundFeeImpactMinor i = None)) (\<lambda>_.
        rbind (safe_sum_present (map (\<lambda>i. cf_immutableRefundFeeImpactMinor (pi_facts i)) items))
          (\<lambda>immutableFee.
        rbind (safe_sum_present (map pi_baselineRefundFeeImpactMinor items)) (\<lambda>baselineFee.
        evidence_conflict (immutableFee \<noteq> baselineFee))))))))))"

section \<open>Rows to persist\<close>

definition persistable_row ::
  "correction_domain \<Rightarrow> string option \<Rightarrow> string \<Rightarrow> fin_component \<Rightarrow> string \<Rightarrow> int \<Rightarrow> string \<Rightarrow> int \<Rightarrow>
   persistable_item list corr" where
  "persistable_row domain setId orderItemId component currency approved key immutableMinor =
     (if approved = 0 \<and> immutableMinor = 0 then Inr []
      else
        let delta = approved - immutableMinor in
        rbind (evidence_conflict (\<not> safeMoney approved \<or> \<not> safeMoney delta)) (\<lambda>_.
        Inr [\<lparr>pr_domain = domain, pr_sourceAllocationSetId = setId, pr_orderItemId = orderItemId,
              pr_component = component, pr_currency = currency, pr_approvedAbsoluteMinor = approved,
              pr_deltaMinor = delta, pr_stableTieBreakKey = key\<rparr>]))"

text \<open>A settlement row is written when both amounts and the settlement currency are known.\<close>

definition settlement_row ::
  "correction_input \<Rightarrow> string option \<Rightarrow> string \<Rightarrow> fin_component \<Rightarrow> string \<Rightarrow> int option \<Rightarrow> int option \<Rightarrow>
   persistable_item list corr" where
  "settlement_row input setId orderItemId component key approved immutableMinor =
     (case (approved, immutableMinor, ib_settlementCurrency (cp_immutableBase input)) of
        (Some a, Some i, Some currency) \<Rightarrow>
          persistable_row Settlement_domain setId orderItemId component currency a key i
      | _ \<Rightarrow> Inr [])"

definition item_rows :: "correction_input \<Rightarrow> planned_item \<Rightarrow> persistable_item list corr" where
  "item_rows input item =
     (let base = cp_immutableBase input; facts = pi_facts item; oid = cf_orderItemId facts;
          grossSet = Some (ib_grossAllocationSetId base) in
      rbind (persistable_row Presentment_domain None oid Refund_subtotal (ib_currency base)
        (pi_proposedSubtotalMinor item) (''presentment:'' @ oid @ '':refund_subtotal'')
        (cf_immutablePresentmentSubtotalMinor facts)) (\<lambda>r1.
      rbind (persistable_row Presentment_domain None oid Refund_tax (ib_currency base)
        (pi_proposedTaxMinor item) (''presentment:'' @ oid @ '':refund_tax'')
        (cf_immutablePresentmentTaxMinor facts)) (\<lambda>r2.
      rbind (settlement_row input grossSet oid Refund_subtotal
        (''settlement:gross:'' @ oid @ '':refund_subtotal'')
        (pi_proposedSettlementSubtotalMinor item) (cf_immutableSettlementSubtotalMinor facts)) (\<lambda>r3.
      rbind (settlement_row input grossSet oid Refund_tax
        (''settlement:gross:'' @ oid @ '':refund_tax'')
        (pi_proposedSettlementTaxMinor item) (cf_immutableSettlementTaxMinor facts)) (\<lambda>r4.
      rbind (if ib_feeAllocationSetId base = None then Inr []
             else settlement_row input (ib_feeAllocationSetId base) oid Refund_fee
               (''settlement:fee:'' @ oid @ '':refund_fee'')
               (pi_proposedRefundFeeImpactMinor item) (cf_immutableRefundFeeImpactMinor facts)) (\<lambda>r5.
      Inr (r1 @ r2 @ r3 @ r4 @ r5)))))))"

type_synonym delta_group = "correction_domain \<times> string \<times> string"

definition group_key :: "persistable_item \<Rightarrow> delta_group" where
  "group_key row = (pr_domain row,
     (case pr_sourceAllocationSetId row of None \<Rightarrow> [] | Some s \<Rightarrow> s), pr_currency row)"

definition delta_groups :: "persistable_item list \<Rightarrow> (delta_group \<times> int) list" where
  "delta_groups rows = fold (\<lambda>row. accumulate (group_key row) (pr_deltaMinor row)) rows []"

definition persistableItems ::
  "correction_input \<Rightarrow> planned_item list \<Rightarrow> persistable_item list corr" where
  "persistableItems input items =
     rbind (rmap (item_rows input) items) (\<lambda>parts.
     let rows = js_sort (\<lambda>l r. compare_text (pr_stableTieBreakKey l) (pr_stableTieBreakKey r))
           (concat parts) in
     rbind (evidence_conflict (\<exists>(_, v) \<in> set (delta_groups rows). v \<noteq> 0)) (\<lambda>_. Inr rows))"

definition distributionChanged :: "planned_item list \<Rightarrow> bool" where
  "distributionChanged items \<longleftrightarrow> (\<exists>item \<in> set items.
     pi_proposedSubtotalMinor item \<noteq> pi_baselineSubtotalMinor item \<or>
     pi_proposedTaxMinor item \<noteq> pi_baselineTaxMinor item \<or>
     pi_proposedSettlementSubtotalMinor item \<noteq> pi_baselineSettlementSubtotalMinor item \<or>
     pi_proposedSettlementTaxMinor item \<noteq> pi_baselineSettlementTaxMinor item \<or>
     pi_proposedRefundFeeImpactMinor item \<noteq> pi_baselineRefundFeeImpactMinor item)"

section \<open>The planner\<close>

text \<open>The body of the first \<^verbatim>\<open>try\<close>.\<close>

definition plan_items ::
  "correction_input \<Rightarrow> correction_facts list \<Rightarrow> correction_item_request list \<Rightarrow> bool \<Rightarrow>
   planned_item list corr" where
  "plan_items input facts requests useCompatible =
     rbind (allocatePresentment facts requests useCompatible) (\<lambda>presented.
     rbind (validateBaseline input presented useCompatible) (\<lambda>_.
     rbind (safe_sum (map snd requests)) (\<lambda>requestedTotal.
     rbind (evidence_conflict (requestedTotal \<noteq> ib_totalPresentmentMinor (cp_immutableBase input)))
       (\<lambda>_.
     rbind (applySettlementGross input presented) (\<lambda>settled.
     rbind (applyFee input settled) (\<lambda>planned.
     rbind (validateBaseline input planned useCompatible) (\<lambda>_. Inr planned)))))))"

definition tips_conflict :: "correction_input \<Rightarrow> bool" where
  "tips_conflict input \<longleftrightarrow>
     (let base = cp_immutableBase input in
      case cp_compatibleTip input of
        Some c \<Rightarrow>
          (case cp_rawTip input of
             None \<Rightarrow> True
           | Some t \<Rightarrow> \<not> uuid_text (ct_id c) \<or> \<not> positiveInt32 (ct_correctionVersion c) \<or>
               ct_id c \<noteq> rt_id t \<or> ct_correctionVersion c \<noteq> rt_correctionVersion t \<or>
               rt_baseAllocationSetId t \<noteq> ib_grossAllocationSetId base \<or>
               rt_sourceFingerprint t \<noteq> ib_sourceFingerprint base \<or>
               \<not> cp_currentReportingComplete input)
      | None \<Rightarrow> cp_rawTip input \<noteq> None \<and> cp_currentReportingComplete input)"

definition correction_document ::
  "correction_input \<Rightarrow> correction_item_request list \<Rightarrow> int \<Rightarrow> baseline_kind \<Rightarrow> planned_item list \<Rightarrow>
   persistable_item list \<Rightarrow> fingerprint_document" where
  "correction_document input requests expectedNext baselineKind planned persistable =
     (let base = cp_immutableBase input in
      \<lparr>fg_refundId = cq_refundId (cp_request input),
       fg_activeProjection = cp_activeProjection input,
       fg_expectedBaseAllocationSetId = ib_grossAllocationSetId base,
       fg_rawPredecessorCorrectionSetId = map_option rt_id (cp_rawTip input),
       fg_compatibleCorrectionSetId = map_option ct_id (cp_compatibleTip input),
       fg_expectedNextCorrectionVersion = expectedNext,
       fg_expectedSourceFingerprint = ib_sourceFingerprint base, fg_baselineKind = baselineKind,
       fg_currentReportingComplete = cp_currentReportingComplete input,
       fg_proposedReportingComplete = True,
       fg_compatibilityRepair = (\<not> cp_currentReportingComplete input),
       fg_requestedItems = requests, fg_previewItems = previewItems planned,
       fg_persistableItems = persistable\<rparr>)"

definition planRefundReportingCorrection ::
  "(fingerprint_document \<Rightarrow> string) \<Rightarrow> correction_input \<Rightarrow> correction_result corr" where
  "planRefundReportingCorrection canonicalHash input =
     rbind (validateRequest input) (\<lambda>(facts, requests, expectedNext).
     let useCompatible = (cp_compatibleTip input \<noteq> None);
         baselineKind = (if useCompatible then Compatible_correction else Immutable_base);
         fail = ineligible input facts requests expectedNext baselineKind in
     if tips_conflict input then fail Immutable_conflict None
     else if cp_compatibleTip input = None \<and> cp_rawTip input = None \<and>
       \<not> cp_currentReportingComplete input
     then fail (if ib_settlementCurrency (cp_immutableBase input) = None
                then Provider_evidence_pending else Immutable_conflict) None
     else
       case plan_items input facts requests useCompatible of
         Inl (Evidence_conflict reason) \<Rightarrow> fail reason None
       | Inl (Permanent code) \<Rightarrow> fail Immutable_conflict None
       | Inl Type_error \<Rightarrow> Inl Type_error
       | Inr planned \<Rightarrow>
           (case persistableItems input planned of
              Inl (Evidence_conflict reason) \<Rightarrow> fail reason (Some planned)
            | Inl error \<Rightarrow> Inl error
            | Inr persistable \<Rightarrow>
                if \<not> distributionChanged planned \<and> cp_currentReportingComplete input then
                  rbind (makePreview input expectedNext baselineKind planned True False
                    (Some No_change) None) (\<lambda>preview. Inr (Ineligible preview))
                else
                  let document = correction_document input requests expectedNext baselineKind
                        planned persistable in
                  rbind (makePreview input expectedNext baselineKind planned True True None
                    (Some (canonicalHash document))) (\<lambda>preview.
                  Inr (Ready preview document persistable))))"

section \<open>Sums and lookups\<close>

lemma safe_sum_Inr [simp]:
  "safe_sum vs = Inr t \<longleftrightarrow> t = sum_list vs \<and> \<bar>sum_list vs\<bar> \<le> safe_money_max"
  by (auto simp: safe_sum_def Let_def rbind_eq_Inr)

lemma safe_sum_present_Inr [simp]:
  "safe_sum_present vs = Inr t \<longleftrightarrow> None \<notin> set vs \<and> t = sum_list (map the vs) \<and>
     \<bar>sum_list (map the vs)\<bar> \<le> safe_money_max"
  by (auto simp: safe_sum_present_def)

lemma lift_fin_Inr [simp]: "lift_fin r = Inr x \<longleftrightarrow> r = Inr x"
  by (cases r) (auto simp: lift_fin_def)

lemma concat_pair_sum:
  "sum_list (concat (map (\<lambda>i. [f i, g i]) xs)) = sum_list (map (\<lambda>i. f i + (g i :: int)) xs)"
  by (induction xs) auto

lemma amount_for_eq:
  assumes "distinct (map ls_tieKey ss)"
  shows "amount_for k ss = (case map_of (map (\<lambda>a. (ls_tieKey a, ls_amountMinor a)) ss) k of
    None \<Rightarrow> 0 | Some v \<Rightarrow> v)"
  using assms unfolding amount_for_def by (subst map_of_rev_distinct) (simp_all add: comp_def)

lemma amount_for_member:
  assumes "distinct (map ls_tieKey ss)"
  shows "amount_for k ss = 0 \<or> (\<exists>s \<in> set ss. ls_tieKey s = k \<and> amount_for k ss = ls_amountMinor s)"
  unfolding amount_for_eq [OF assms] by (auto split: option.splits dest!: map_of_SomeD)

text \<open>Looking up the share of every weight gives back the whole amount.\<close>

lemma amount_for_total:
  assumes run: "allocateSignedLargestRemainder a ws = Inr ss"
  shows "sum_list (map (\<lambda>w. amount_for (lw_tieKey w) ss) ws) = a"
proof -
  note d = lr.alloc_distinct [OF run]
  have ws: "distinct (map lw_tieKey ws)" using lr.alloc_valid [OF run] by (simp add: valid_weights_def)
  let ?m = "map (\<lambda>a. (ls_tieKey a, ls_amountMinor a)) ss"
  have "sum_list (map (\<lambda>k. case map_of ?m k of None \<Rightarrow> 0 | Some v \<Rightarrow> v) (map lw_tieKey ws)) =
      sum_list (map (\<lambda>(k, v). v) ?m)"
    by (rule sum_lookup [OF ws, where f = "\<lambda>v. v"]) (use d lr.alloc_origin [OF run] in \<open>force simp: comp_def\<close>)+
  moreover have "sum_list (map (\<lambda>(k, v). v) ?m) = a"
    using lr.alloc_exact [OF run] by (simp add: shares_total_def comp_def)
  ultimately show ?thesis by (simp add: amount_for_eq [OF d] comp_def)
qed

lemma amount_for_sign:
  assumes run: "allocateSignedLargestRemainder a ws = Inr ss"
  shows "0 \<le> a \<Longrightarrow> 0 \<le> amount_for k ss \<and> amount_for k ss \<le> a"
    and "a \<le> 0 \<Longrightarrow> a \<le> amount_for k ss \<and> amount_for k ss \<le> 0"
  using amount_for_member [OF lr.alloc_distinct [OF run], of k] lr.alloc_bound [OF run]
  by (fastforce simp: sgn_if split: if_splits)+

section \<open>What each step establishes\<close>

definition remaining_subtotal :: "correction_facts \<Rightarrow> int" where
  "remaining_subtotal f = cf_paidSubtotalMinor f - cf_effectiveSiblingSubtotalMinor f"

definition remaining_tax :: "correction_facts \<Rightarrow> int" where
  "remaining_tax f = cf_paidTaxMinor f - cf_effectiveSiblingTaxMinor f"

definition within_money :: "int \<Rightarrow> bool" where
  "within_money v \<longleftrightarrow> 0 \<le> v \<and> v \<le> safe_money_max"

lemma safeUnsignedMoney_iff [simp]: "safeUnsignedMoney v \<longleftrightarrow> within_money v"
  by (auto simp: safeUnsignedMoney_def safeMoney_def within_money_def safe_integer_def safe_money_max_def)

lemma safeMoney_iff [simp]: "safeMoney v \<longleftrightarrow> \<bar>v\<bar> \<le> safe_money_max"
  by (auto simp: safeMoney_def safe_integer_def safe_money_max_def)

text \<open>The presentment part of a planned item.\<close>

definition presented ::
  "correction_item_request list \<Rightarrow> bool \<Rightarrow> correction_facts \<Rightarrow> planned_item \<Rightarrow> bool" where
  "presented requests useCompatible f p \<longleftrightarrow>
     pi_facts p = f \<and> map_of requests (cf_orderItemId f) = Some (pi_requestedTotalMinor p) \<and>
     pi_proposedSubtotalMinor p + pi_proposedTaxMinor p = pi_requestedTotalMinor p \<and>
     0 \<le> pi_proposedSubtotalMinor p \<and> pi_proposedSubtotalMinor p \<le> remaining_subtotal f \<and>
     0 \<le> pi_proposedTaxMinor p \<and> pi_proposedTaxMinor p \<le> remaining_tax f \<and>
     remaining_subtotal f \<le> safe_money_max \<and> remaining_tax f \<le> safe_money_max \<and>
     within_money (cf_immutablePresentmentSubtotalMinor f) \<and>
     within_money (cf_immutablePresentmentTaxMinor f)"

lemma baselineFor_facts [simp]: "pi_facts (baselineFor f u) = f"
  by (simp add: baselineFor_def Let_def)

lemma allocatePresentmentItem_Inr:
  assumes "allocatePresentmentItem requests u f = Inr p"
    and req: "\<forall>r \<in> set requests. 0 \<le> snd r"
  shows "presented requests u f p \<and> p = (baselineFor f u)\<lparr>
    pi_requestedTotalMinor := pi_requestedTotalMinor p,
    pi_proposedSubtotalMinor := pi_proposedSubtotalMinor p,
    pi_proposedTaxMinor := pi_proposedTaxMinor p\<rparr>"
proof -
  from assms(1) obtain amount ss where amount: "map_of requests (cf_orderItemId f) = Some amount"
    and run: "allocateSignedLargestRemainder amount
      [\<lparr>lw_tieKey = subtotal_key (cf_orderItemId f), lw_weightMinor = remaining_subtotal f\<rparr>,
       \<lparr>lw_tieKey = tax_key (cf_orderItemId f), lw_weightMinor = remaining_tax f\<rparr>] = Inr ss"
    and le: "amount_for (subtotal_key (cf_orderItemId f)) ss \<le> remaining_subtotal f"
      "amount_for (tax_key (cf_orderItemId f)) ss \<le> remaining_tax f"
      "amount_for (subtotal_key (cf_orderItemId f)) ss + amount_for (tax_key (cf_orderItemId f)) ss = amount"
    and p: "p = (baselineFor f u)\<lparr>pi_requestedTotalMinor := amount,
       pi_proposedSubtotalMinor := amount_for (subtotal_key (cf_orderItemId f)) ss,
       pi_proposedTaxMinor := amount_for (tax_key (cf_orderItemId f)) ss\<rparr>"
    and money: "within_money (cf_paidSubtotalMinor f)" "within_money (cf_paidTaxMinor f)"
      "within_money (cf_effectiveSiblingSubtotalMinor f)" "within_money (cf_effectiveSiblingTaxMinor f)"
      "within_money (cf_immutablePresentmentSubtotalMinor f)"
      "within_money (cf_immutablePresentmentTaxMinor f)"
    unfolding allocatePresentmentItem_def Let_def remaining_subtotal_def remaining_tax_def
    by (auto simp: rbind_eq_Inr not_less split: option.splits if_splits)
  have "0 \<le> amount" using req map_of_SomeD [OF amount] by auto
  with amount_for_sign(1) [OF run] amount le money p show ?thesis
    by (auto simp: presented_def within_money_def remaining_subtotal_def remaining_tax_def)
qed

lemma allocatePresentment_Inr:
  assumes "allocatePresentment facts requests u = Inr ps" and "\<forall>r \<in> set requests. 0 \<le> snd r"
  shows "list_all2 (presented requests u) facts ps"
  using assms(1) allocatePresentmentItem_Inr [OF _ assms(2)]
  unfolding allocatePresentment_def rmap_eq_Inr by (auto elim: list_all2_mono)

lemma applySettlementGross_Inr:
  assumes "applySettlementGross input items = Inr settled"
  obtains gross ss where "ib_settlementCurrency (cp_immutableBase input) \<noteq> None"
    and "gross = sum_list (map (\<lambda>i. the (cf_immutableSettlementSubtotalMinor (pi_facts i)) +
      the (cf_immutableSettlementTaxMinor (pi_facts i))) items)"
    and "gross < 0" and "\<bar>gross\<bar> \<le> safe_money_max"
    and "\<forall>i \<in> set items. \<exists>s t. cf_immutableSettlementSubtotalMinor (pi_facts i) = Some s \<and>
      cf_immutableSettlementTaxMinor (pi_facts i) = Some t \<and> s \<le> 0 \<and> t \<le> 0 \<and>
      \<bar>s\<bar> \<le> safe_money_max \<and> \<bar>t\<bar> \<le> safe_money_max"
    and "allocateSignedLargestRemainder gross (settlement_weights items) = Inr ss"
    and "settled = map (\<lambda>item. item\<lparr>
       pi_proposedSettlementSubtotalMinor :=
         Some (amount_for (subtotal_key (cf_orderItemId (pi_facts item))) ss),
       pi_proposedSettlementTaxMinor :=
         Some (amount_for (tax_key (cf_orderItemId (pi_facts item))) ss)\<rparr>) items"
proof -
  from assms obtain pairs ss where cur: "ib_settlementCurrency (cp_immutableBase input) \<noteq> None"
    and pairs: "rmap settled_pair items = Inr pairs" and bound: "\<bar>sum_list (concat pairs)\<bar> \<le> safe_money_max"
    and neg: "sum_list (concat pairs) < 0"
    and run: "allocateSignedLargestRemainder (sum_list (concat pairs)) (settlement_weights items) = Inr ss"
    and settled: "settled = map (\<lambda>item. item\<lparr>
       pi_proposedSettlementSubtotalMinor :=
         Some (amount_for (subtotal_key (cf_orderItemId (pi_facts item))) ss),
       pi_proposedSettlementTaxMinor :=
         Some (amount_for (tax_key (cf_orderItemId (pi_facts item))) ss)\<rparr>) items"
    by (auto simp: applySettlementGross_def rbind_eq_Inr split: if_splits)
  have one: "\<exists>s t. cf_immutableSettlementSubtotalMinor (pi_facts i) = Some s \<and>
      cf_immutableSettlementTaxMinor (pi_facts i) = Some t \<and> s \<le> 0 \<and> t \<le> 0 \<and>
      \<bar>s\<bar> \<le> safe_money_max \<and> \<bar>t\<bar> \<le> safe_money_max \<and> p = [s, t]" if "settled_pair i = Inr p" for i p
    using that by (auto simp: settled_pair_def rbind_eq_Inr not_less split: option.splits if_splits)
  have "sum_list (concat pairs) = sum_list (map (\<lambda>i. the (cf_immutableSettlementSubtotalMinor (pi_facts i)) +
      the (cf_immutableSettlementTaxMinor (pi_facts i))) items)"
    using pairs by (induction items arbitrary: pairs) (auto simp: rbind_eq_Inr dest!: one)
  moreover have "\<forall>i \<in> set items. \<exists>s t. cf_immutableSettlementSubtotalMinor (pi_facts i) = Some s \<and>
      cf_immutableSettlementTaxMinor (pi_facts i) = Some t \<and> s \<le> 0 \<and> t \<le> 0 \<and>
      \<bar>s\<bar> \<le> safe_money_max \<and> \<bar>t\<bar> \<le> safe_money_max"
    using pairs by (induction items arbitrary: pairs) (auto simp: rbind_eq_Inr dest!: one)
  ultimately show ?thesis using that cur bound neg run settled by blast
qed

lemma sum_nonpos_bound:
  assumes "\<forall>x \<in> set xs. f x \<le> (0 :: int)" and "x \<in> set xs"
  shows "sum_list (map f xs) \<le> f x"
  using assms
proof (induction xs)
  case (Cons y ys)
  have "sum_list (map f ys) \<le> 0" using Cons.prems(1) by (intro sum_list_nonpos) auto
  with Cons show ?case by fastforce
qed simp

text \<open>
  The fee part: either there is no fee set and nothing changes, or the proposed fees of the items
  are non-positive and add up to the recorded ones.
\<close>

definition fees_proposed :: "planned_item list \<Rightarrow> planned_item list \<Rightarrow> bool" where
  "fees_proposed items planned \<longleftrightarrow>
     (\<exists>fee. (\<forall>i. fee i \<le> 0) \<and>
        planned = map (\<lambda>i. i\<lparr>pi_proposedRefundFeeImpactMinor := Some (fee (cf_orderItemId (pi_facts i)))\<rparr>) items \<and>
        sum_list (map (\<lambda>i. fee (cf_orderItemId (pi_facts i))) items) =
          sum_list (map (\<lambda>i. the (cf_immutableRefundFeeImpactMinor (pi_facts i))) items) \<and>
        (\<forall>i \<in> set items. \<exists>v. cf_immutableRefundFeeImpactMinor (pi_facts i) = Some v \<and> v \<le> 0 \<and>
           \<bar>v\<bar> \<le> safe_money_max) \<and>
        \<bar>sum_list (map (\<lambda>i. the (cf_immutableRefundFeeImpactMinor (pi_facts i))) items)\<bar> \<le> safe_money_max)"

lemma applyFee_Inr:
  assumes run: "applyFee input items = Inr planned"
    and ids: "distinct (map (\<lambda>i. cf_orderItemId (pi_facts i)) items)"
  shows "(if ib_feeAllocationSetId (cp_immutableBase input) = None then planned = items
    else fees_proposed items planned)"
proof (cases "ib_feeAllocationSetId (cp_immutableBase input) = None")
  case True
  with run show ?thesis by (auto simp: applyFee_def Let_def rbind_eq_Inr split: if_splits)
next
  case False
  let ?nz = "filter (\<lambda>c. fc_amountMinor c \<noteq> 0) (cp_activeFeeComponents input)"
  let ?id = "\<lambda>i. cf_orderItemId (pi_facts i)"
  from run False obtain cur fees allocs where fees: "rmap immutable_fee items = Inr fees"
    and bound: "\<bar>sum_list fees\<bar> \<le> safe_money_max"
    and al: "allocateFeeDetails (- sum_list fees) cur
      (map (\<lambda>i. \<lparr>fw_orderItemId = ?id i, fw_subtotalMinor = pi_proposedSubtotalMinor i,
         fw_currency = cur\<rparr>) items)
      (map (\<lambda>c. \<lparr>fd_amountMinor = fc_amountMinor c, fd_component = Refund_fee\<rparr>) ?nz) = Inr allocs"
    and planned: "planned = map (\<lambda>i. i\<lparr>pi_proposedRefundFeeImpactMinor :=
       Some (case map_of (fee_by_item allocs) (?id i) of None \<Rightarrow> 0 | Some v \<Rightarrow> v)\<rparr>) items"
    by (auto simp: applyFee_def Let_def rbind_eq_Inr split: if_splits option.splits)
  let ?fee = "\<lambda>k. case map_of (fee_by_item allocs) k of None \<Rightarrow> 0 | Some v \<Rightarrow> v"
  have single: "\<forall>a \<in> set allocs. ai_effectMinor a \<le> 0"
    using allocateFeeDetails_single [OF al, of Refund_fee] by simp
  have "?fee k \<le> 0" for k
    unfolding fee_by_item_def fold_accumulate_lookup using single by (auto intro!: sum_list_nonpos)
  moreover have "sum_list (map (\<lambda>i. ?fee (?id i)) items) = sum_list fees"
  proof -
    have "sum_list (map ?fee (map ?id items)) = sum_list (map (\<lambda>(k, v). v) (fee_by_item allocs))"
    proof (rule sum_lookup [OF ids, where f = "\<lambda>v. v"])
      show "distinct (map fst (fee_by_item allocs))"
        unfolding fee_by_item_def by (rule fold_accumulate_distinct) simp
      show "fst ` set (fee_by_item allocs) \<subseteq> set (map ?id items)"
      proof
        fix k assume "k \<in> fst ` set (fee_by_item allocs)"
        then have "map_of (fee_by_item allocs) k \<noteq> None" by (simp add: map_of_eq_None_iff)
        then have "k \<in> ai_orderItemId ` set allocs"
          unfolding fee_by_item_def fold_accumulate_lookup by (auto split: if_splits)
        with allocateFeeDetails_Inr(5) [OF al] show "k \<in> set (map ?id items)" by auto
      qed
    qed
    also have "(\<lambda>(k, v). v) = (snd :: string \<times> int \<Rightarrow> int)" by auto
    also have "sum_list (map snd (fee_by_item allocs)) = items_total allocs"
      unfolding fee_by_item_def items_total_def
      using fold_accumulate_sum [of "[]" ai_orderItemId ai_effectMinor allocs] by simp
    finally show ?thesis using allocateFeeDetails_Inr(2) [OF al] by (simp add: comp_def)
  qed
  moreover have one: "\<exists>v. cf_immutableRefundFeeImpactMinor (pi_facts i) = Some v \<and> v \<le> 0 \<and>
      \<bar>v\<bar> \<le> safe_money_max \<and> f = v" if "immutable_fee i = Inr f" for i f
    using that by (auto simp: immutable_fee_def rbind_eq_Inr not_less split: option.splits if_splits)
  have "fees = map (\<lambda>i. the (cf_immutableRefundFeeImpactMinor (pi_facts i))) items"
    using fees by (induction items arbitrary: fees) (auto simp: rbind_eq_Inr dest!: one)
  moreover have "\<forall>i \<in> set items. \<exists>v. cf_immutableRefundFeeImpactMinor (pi_facts i) = Some v \<and>
      v \<le> 0 \<and> \<bar>v\<bar> \<le> safe_money_max"
    using fees by (induction items arbitrary: fees) (auto simp: rbind_eq_Inr dest!: one)
  ultimately show ?thesis
    using False bound planned unfolding fees_proposed_def by (intro if_not_P [THEN iffD2] exI [of _ ?fee]) auto
qed

lemma validateRequest_Inr:
  assumes "validateRequest input = Inr (facts, requests, n)"
  shows "distinct (map cf_orderItemId facts)" and "map cf_orderItemId facts = map fst requests"
    and "\<forall>r \<in> set requests. 0 \<le> snd r" and "mset facts = mset (cp_items input)"
    and "mset requests = mset (cq_items (cp_request input))"
  using assms
  by (auto simp: validateRequest_def Let_def rbind_eq_Inr within_money_def split: if_splits)

definition nonpos_money :: "int \<Rightarrow> bool" where
  "nonpos_money v \<longleftrightarrow> - safe_money_max \<le> v \<and> v \<le> 0"

text \<open>What a list of items that reached the end of planning satisfies.\<close>

definition settled_ok :: "planned_item \<Rightarrow> bool" where
  "settled_ok i \<longleftrightarrow> (\<exists>s t s' t'. cf_immutableSettlementSubtotalMinor (pi_facts i) = Some s \<and>
     cf_immutableSettlementTaxMinor (pi_facts i) = Some t \<and>
     pi_proposedSettlementSubtotalMinor i = Some s' \<and> pi_proposedSettlementTaxMinor i = Some t' \<and>
     nonpos_money s \<and> nonpos_money t \<and> nonpos_money s' \<and> nonpos_money t')"

definition fee_ok :: "planned_item \<Rightarrow> bool" where
  "fee_ok i \<longleftrightarrow> (\<exists>v v'. cf_immutableRefundFeeImpactMinor (pi_facts i) = Some v \<and>
     pi_proposedRefundFeeImpactMinor i = Some v' \<and> nonpos_money v \<and> nonpos_money v')"

definition proposed_settlement :: "planned_item \<Rightarrow> int" where
  "proposed_settlement i = the (pi_proposedSettlementSubtotalMinor i) +
     the (pi_proposedSettlementTaxMinor i)"

definition immutable_settlement :: "planned_item \<Rightarrow> int" where
  "immutable_settlement i = the (cf_immutableSettlementSubtotalMinor (pi_facts i)) +
     the (cf_immutableSettlementTaxMinor (pi_facts i))"

definition correction_planned ::
  "correction_input \<Rightarrow> correction_facts list \<Rightarrow> correction_item_request list \<Rightarrow> bool \<Rightarrow>
   planned_item list \<Rightarrow> bool" where
  "correction_planned input facts requests u planned \<longleftrightarrow>
     (let base = cp_immutableBase input in
      list_all2 (presented requests u) facts planned \<and>
      sum_list (map (\<lambda>i. pi_proposedSubtotalMinor i + pi_proposedTaxMinor i) planned) =
        ib_totalPresentmentMinor base \<and>
      sum_list (map (\<lambda>i. cf_immutablePresentmentSubtotalMinor (pi_facts i) +
        cf_immutablePresentmentTaxMinor (pi_facts i)) planned) = ib_totalPresentmentMinor base \<and>
      ib_settlementCurrency base \<noteq> None \<and> (\<forall>i \<in> set planned. settled_ok i) \<and>
      sum_list (map proposed_settlement planned) = sum_list (map immutable_settlement planned) \<and>
      (ib_feeAllocationSetId base \<noteq> None \<longrightarrow> (\<forall>i \<in> set planned. fee_ok i) \<and>
         sum_list (map (\<lambda>i. the (pi_proposedRefundFeeImpactMinor i)) planned) =
         sum_list (map (\<lambda>i. the (cf_immutableRefundFeeImpactMinor (pi_facts i))) planned)))"

lemma list_all2_sum:
  assumes "list_all2 (\<lambda>x y. f x = g y) xs ys"
  shows "sum_list (map f xs) = sum_list (map g ys)"
  using assms by (induction rule: list_all2_induct) auto

lemma presented_requests_sum:
  assumes "list_all2 (presented requests u) facts ps" and "map cf_orderItemId facts = map fst requests"
    and "distinct (map fst requests)"
  shows "sum_list (map (\<lambda>i. pi_proposedSubtotalMinor i + pi_proposedTaxMinor i) ps) =
    sum_list (map snd requests)"
proof -
  have "list_all2 (\<lambda>f p. the (map_of requests (cf_orderItemId f)) =
      pi_proposedSubtotalMinor p + pi_proposedTaxMinor p) facts ps"
    using assms(1) by (rule list_all2_mono) (auto simp: presented_def)
  then have "sum_list (map (\<lambda>f. the (map_of requests (cf_orderItemId f))) facts) =
      sum_list (map (\<lambda>i. pi_proposedSubtotalMinor i + pi_proposedTaxMinor i) ps)"
    by (rule list_all2_sum)
  moreover have "map (\<lambda>f. the (map_of requests (cf_orderItemId f))) facts =
      map (\<lambda>k. the (map_of requests k)) (map fst requests)"
    unfolding assms(2) [symmetric] by simp
  moreover have "map (\<lambda>k. the (map_of requests k)) (map fst requests) = map snd requests"
    using assms(3) by auto
  ultimately show ?thesis by metis
qed

lemma presented_update [simp]:
  "presented r u f (p\<lparr>pi_proposedSettlementSubtotalMinor := a, pi_proposedSettlementTaxMinor := b\<rparr>)
     \<longleftrightarrow> presented r u f p"
  "presented r u f (p\<lparr>pi_proposedRefundFeeImpactMinor := c\<rparr>) \<longleftrightarrow> presented r u f p"
  by (simp_all add: presented_def)

lemma settlement_update [simp]:
  "proposed_settlement (p\<lparr>pi_proposedRefundFeeImpactMinor := c\<rparr>) = proposed_settlement p"
  "immutable_settlement (p\<lparr>pi_proposedRefundFeeImpactMinor := c\<rparr>) = immutable_settlement p"
  by (simp_all add: proposed_settlement_def immutable_settlement_def)

lemma settlement_sum:
  assumes "allocateSignedLargestRemainder gross (settlement_weights items) = Inr ss"
  shows "sum_list (map (\<lambda>i. amount_for (subtotal_key (cf_orderItemId (pi_facts i))) ss +
    amount_for (tax_key (cf_orderItemId (pi_facts i))) ss) items) = gross"
proof -
  have "sum_list (map (\<lambda>w. amount_for (lw_tieKey w) ss) (settlement_weights items)) =
      sum_list (map (\<lambda>i. amount_for (subtotal_key (cf_orderItemId (pi_facts i))) ss +
        amount_for (tax_key (cf_orderItemId (pi_facts i))) ss) items)"
    by (induction items) (auto simp: settlement_weights_def)
  with amount_for_total [OF assms] show ?thesis by simp
qed

lemma plan_items_Inr:
  assumes v: "validateRequest input = Inr (facts, requests, n)"
    and run: "plan_items input facts requests u = Inr planned"
  shows "correction_planned input facts requests u planned"
proof -
  let ?base = "cp_immutableBase input" and ?id = "\<lambda>i. cf_orderItemId (pi_facts i)"
  note req = validateRequest_Inr [OF v]
  from run obtain ps settled where ps: "allocatePresentment facts requests u = Inr ps"
    and base: "validateBaseline input ps u = Inr ()"
    and total_requested: "sum_list (map snd requests) = ib_totalPresentmentMinor ?base"
    and st: "applySettlementGross input ps = Inr settled" and fee: "applyFee input settled = Inr planned"
    by (auto simp: plan_items_def rbind_eq_Inr split: if_splits)
  have pres: "list_all2 (presented requests u) facts ps"
    using allocatePresentment_Inr [OF ps req(3)] .
  then have "list_all2 (\<lambda>f p. cf_orderItemId f = ?id p) facts ps"
    by (rule list_all2_mono) (auto simp: presented_def)
  then have ids: "map ?id ps = map cf_orderItemId facts"
    by (induction rule: list_all2_induct) auto
  obtain gross ss where cur: "ib_settlementCurrency ?base \<noteq> None"
    and gross: "gross = sum_list (map (\<lambda>i. the (cf_immutableSettlementSubtotalMinor (pi_facts i)) +
      the (cf_immutableSettlementTaxMinor (pi_facts i))) ps)"
    and neg: "gross < 0" "\<bar>gross\<bar> \<le> safe_money_max"
    and imm: "\<forall>i \<in> set ps. \<exists>s t. cf_immutableSettlementSubtotalMinor (pi_facts i) = Some s \<and>
      cf_immutableSettlementTaxMinor (pi_facts i) = Some t \<and> s \<le> 0 \<and> t \<le> 0 \<and>
      \<bar>s\<bar> \<le> safe_money_max \<and> \<bar>t\<bar> \<le> safe_money_max"
    and lr: "allocateSignedLargestRemainder gross (settlement_weights ps) = Inr ss"
    and settled: "settled = map (\<lambda>item. item\<lparr>
       pi_proposedSettlementSubtotalMinor := Some (amount_for (subtotal_key (?id item)) ss),
       pi_proposedSettlementTaxMinor := Some (amount_for (tax_key (?id item)) ss)\<rparr>) ps"
    using st by (rule applySettlementGross_Inr)
  have bounds: "nonpos_money (amount_for k ss)" for k
    using amount_for_sign(2) [OF lr, of k] neg by (auto simp: nonpos_money_def)
  have settled_ok: "\<forall>i \<in> set settled. settled_ok i"
    using imm bounds unfolding settled settled_ok_def by (fastforce simp: nonpos_money_def)
  have settled_sum: "sum_list (map proposed_settlement settled) = sum_list (map immutable_settlement settled)"
    using settlement_sum [OF lr] unfolding settled proposed_settlement_def immutable_settlement_def gross
    by (simp add: comp_def)
  have imm_total: "sum_list (map (\<lambda>i. cf_immutablePresentmentSubtotalMinor (pi_facts i) +
      cf_immutablePresentmentTaxMinor (pi_facts i)) ps) = ib_totalPresentmentMinor ?base"
    using base by (auto simp: validateBaseline_def Let_def rbind_eq_Inr concat_pair_sum split: if_splits)
  have prop_total: "sum_list (map (\<lambda>i. pi_proposedSubtotalMinor i + pi_proposedTaxMinor i) ps) =
      ib_totalPresentmentMinor ?base"
    using presented_requests_sum [OF pres req(2)] req(1,2) total_requested by simp
  have ids': "distinct (map (\<lambda>i. cf_orderItemId (pi_facts i)) settled)"
    using req(1) ids unfolding settled by (simp add: comp_def)
  note fee' = applyFee_Inr [OF fee ids']
  have pres': "list_all2 (presented requests u) facts settled"
    using pres unfolding settled by (simp add: list_all2_map2)
  show ?thesis
  proof (cases "ib_feeAllocationSetId ?base = None")
    case True
    with fee' pres' imm_total prop_total cur settled_ok settled_sum show ?thesis
      unfolding correction_planned_def by (simp add: settled comp_def)
  next
    case False
    with fee' obtain f where f: "\<forall>i. f i \<le> 0"
      "planned = map (\<lambda>i. i\<lparr>pi_proposedRefundFeeImpactMinor := Some (f (?id i))\<rparr>) settled"
      "sum_list (map (\<lambda>i. f (?id i)) settled) =
        sum_list (map (\<lambda>i. the (cf_immutableRefundFeeImpactMinor (pi_facts i))) settled)"
      "\<forall>i \<in> set settled. \<exists>v. cf_immutableRefundFeeImpactMinor (pi_facts i) = Some v \<and> v \<le> 0 \<and>
        \<bar>v\<bar> \<le> safe_money_max"
      "\<bar>sum_list (map (\<lambda>i. the (cf_immutableRefundFeeImpactMinor (pi_facts i))) settled)\<bar> \<le> safe_money_max"
      unfolding fees_proposed_def by auto
    have "nonpos_money (f (?id i))" if "i \<in> set settled" for i
      using sum_nonpos_bound [of settled "\<lambda>i. f (?id i)" i] f(1,3,5) that by (auto simp: nonpos_money_def)
    then have "\<forall>i \<in> set planned. fee_ok i"
      unfolding f(2) fee_ok_def using f(4) by (fastforce simp: nonpos_money_def)
    moreover have "\<forall>i \<in> set planned. settled_ok i"
      using settled_ok unfolding f(2) by (auto simp: settled_ok_def)
    moreover have "list_all2 (presented requests u) facts planned"
      using pres' unfolding f(2) by (simp add: list_all2_map2)
    moreover have "sum_list (map proposed_settlement planned) = sum_list (map immutable_settlement planned)"
      using settled_sum unfolding f(2) by (simp add: comp_def)
    ultimately show ?thesis
      using imm_total prop_total cur f(3) unfolding correction_planned_def f(2)
      by (simp add: settled comp_def)
  qed
qed

section \<open>The rows balance\<close>

definition group_total :: "delta_group \<Rightarrow> persistable_item list \<Rightarrow> int" where
  "group_total g rows = sum_list (map pr_deltaMinor (filter (\<lambda>r. group_key r = g) rows))"

lemma group_total_simps [simp]:
  "group_total g [] = 0"
  "group_total g (r # rs) = (if group_key r = g then pr_deltaMinor r else 0) + group_total g rs"
  "group_total g (rs @ qs) = group_total g rs + group_total g qs"
  by (simp_all add: group_total_def)

lemma delta_groups_member:
  assumes "(g, v) \<in> set (delta_groups rows)"
  shows "v = group_total g rows"
proof -
  have "distinct (map fst (delta_groups rows))"
    unfolding delta_groups_def by (rule fold_accumulate_distinct) simp
  with assms have "map_of (delta_groups rows) g = Some v" by simp
  then show ?thesis
    unfolding delta_groups_def fold_accumulate_lookup group_total_def by (auto split: if_splits)
qed

lemma persistable_row_ok:
  assumes "\<bar>a\<bar> \<le> safe_money_max" and "\<bar>a - im\<bar> \<le> safe_money_max"
  shows "\<exists>rs. persistable_row d s oid c cur a k im = Inr rs \<and>
    (\<forall>g. group_total g rs = (if g = (d, (case s of None \<Rightarrow> [] | Some x \<Rightarrow> x), cur) then a - im else 0))"
  using assms by (auto simp: persistable_row_def Let_def group_key_def)

lemma nonpos_money_delta:
  "nonpos_money a \<Longrightarrow> nonpos_money b \<Longrightarrow> \<bar>a\<bar> \<le> safe_money_max \<and> \<bar>a - b\<bar> \<le> safe_money_max"
  by (auto simp: nonpos_money_def)

definition presentment_delta :: "planned_item \<Rightarrow> int" where
  "presentment_delta i = pi_proposedSubtotalMinor i + pi_proposedTaxMinor i -
     (cf_immutablePresentmentSubtotalMinor (pi_facts i) + cf_immutablePresentmentTaxMinor (pi_facts i))"

definition fee_delta :: "planned_item \<Rightarrow> int" where
  "fee_delta i = the (pi_proposedRefundFeeImpactMinor i) -
     the (cf_immutableRefundFeeImpactMinor (pi_facts i))"

definition group_share :: "immutable_base \<Rightarrow> delta_group \<Rightarrow> planned_item \<Rightarrow> int" where
  "group_share base g i =
     (if g = (Presentment_domain, [], ib_currency base) then presentment_delta i else 0) +
     (if g = (Settlement_domain, ib_grossAllocationSetId base, the (ib_settlementCurrency base))
      then proposed_settlement i - immutable_settlement i else 0) +
     (if ib_feeAllocationSetId base \<noteq> None \<and>
         g = (Settlement_domain, the (ib_feeAllocationSetId base), the (ib_settlementCurrency base))
      then fee_delta i else 0)"

lemma item_rows_ok:
  assumes pres: "presented r u f i" and st: "settled_ok i"
    and cur: "ib_settlementCurrency (cp_immutableBase input) = Some cur"
    and fee: "ib_feeAllocationSetId (cp_immutableBase input) \<noteq> None \<longrightarrow> fee_ok i"
  shows "\<exists>rs. item_rows input i = Inr rs \<and>
    (\<forall>g. group_total g rs = group_share (cp_immutableBase input) g i)"
proof -
  let ?base = "cp_immutableBase input" and ?f = "pi_facts i" and ?oid = "cf_orderItemId (pi_facts i)"
  have f: "?f = f" using pres by (simp add: presented_def)
  obtain r1 where r1: "persistable_row Presentment_domain None ?oid Refund_subtotal (ib_currency ?base)
      (pi_proposedSubtotalMinor i) (''presentment:'' @ ?oid @ '':refund_subtotal'')
      (cf_immutablePresentmentSubtotalMinor ?f) = Inr r1"
    "\<forall>g. group_total g r1 = (if g = (Presentment_domain, [], ib_currency ?base)
      then pi_proposedSubtotalMinor i - cf_immutablePresentmentSubtotalMinor ?f else 0)"
    using persistable_row_ok [of "pi_proposedSubtotalMinor i" "cf_immutablePresentmentSubtotalMinor ?f"
      Presentment_domain None] pres f by (fastforce simp: presented_def within_money_def)
  obtain r2 where r2: "persistable_row Presentment_domain None ?oid Refund_tax (ib_currency ?base)
      (pi_proposedTaxMinor i) (''presentment:'' @ ?oid @ '':refund_tax'')
      (cf_immutablePresentmentTaxMinor ?f) = Inr r2"
    "\<forall>g. group_total g r2 = (if g = (Presentment_domain, [], ib_currency ?base)
      then pi_proposedTaxMinor i - cf_immutablePresentmentTaxMinor ?f else 0)"
    using persistable_row_ok [of "pi_proposedTaxMinor i" "cf_immutablePresentmentTaxMinor ?f"
      Presentment_domain None] pres f by (fastforce simp: presented_def within_money_def)
  obtain s t s' t' where settled: "cf_immutableSettlementSubtotalMinor ?f = Some s"
    "cf_immutableSettlementTaxMinor ?f = Some t" "pi_proposedSettlementSubtotalMinor i = Some s'"
    "pi_proposedSettlementTaxMinor i = Some t'" "nonpos_money s" "nonpos_money t" "nonpos_money s'"
    "nonpos_money t'" using st by (auto simp: settled_ok_def)
  let ?gs = "Some (ib_grossAllocationSetId ?base)"
  obtain r3 where r3: "settlement_row input ?gs ?oid Refund_subtotal
      (''settlement:gross:'' @ ?oid @ '':refund_subtotal'')
      (pi_proposedSettlementSubtotalMinor i) (cf_immutableSettlementSubtotalMinor ?f) = Inr r3"
    "\<forall>g. group_total g r3 = (if g = (Settlement_domain, ib_grossAllocationSetId ?base, cur)
      then s' - s else 0)"
    using persistable_row_ok [of s' s Settlement_domain ?gs] nonpos_money_delta [of s' s] settled cur
    by (fastforce simp: settlement_row_def)
  obtain r4 where r4: "settlement_row input ?gs ?oid Refund_tax
      (''settlement:gross:'' @ ?oid @ '':refund_tax'')
      (pi_proposedSettlementTaxMinor i) (cf_immutableSettlementTaxMinor ?f) = Inr r4"
    "\<forall>g. group_total g r4 = (if g = (Settlement_domain, ib_grossAllocationSetId ?base, cur)
      then t' - t else 0)"
    using persistable_row_ok [of t' t Settlement_domain ?gs] nonpos_money_delta [of t' t] settled cur
    by (fastforce simp: settlement_row_def)
  have "\<exists>r5. (if ib_feeAllocationSetId ?base = None then Inr []
        else settlement_row input (ib_feeAllocationSetId ?base) ?oid Refund_fee
          (''settlement:fee:'' @ ?oid @ '':refund_fee'')
          (pi_proposedRefundFeeImpactMinor i) (cf_immutableRefundFeeImpactMinor ?f)) = Inr r5 \<and>
      (\<forall>g. group_total g r5 = (if ib_feeAllocationSetId ?base \<noteq> None \<and>
         g = (Settlement_domain, the (ib_feeAllocationSetId ?base), cur) then fee_delta i else 0))"
  proof (cases "ib_feeAllocationSetId ?base")
    case (Some fs)
    then obtain v v' where v: "cf_immutableRefundFeeImpactMinor ?f = Some v"
      "pi_proposedRefundFeeImpactMinor i = Some v'" "nonpos_money v" "nonpos_money v'"
      using fee by (auto simp: fee_ok_def)
    let ?row = "persistable_row Settlement_domain (Some fs) ?oid Refund_fee cur v'
      (''settlement:fee:'' @ ?oid @ '':refund_fee'') v"
    obtain rs where rs: "?row = Inr rs" "\<forall>g. group_total g rs =
        (if g = (Settlement_domain, fs, cur) then v' - v else 0)"
      using persistable_row_ok [of v' v Settlement_domain "Some fs"] nonpos_money_delta [OF v(4,3)]
      by fastforce
    have "settlement_row input (Some fs) ?oid Refund_fee (''settlement:fee:'' @ ?oid @ '':refund_fee'')
        (pi_proposedRefundFeeImpactMinor i) (cf_immutableRefundFeeImpactMinor ?f) = ?row"
      by (simp add: settlement_row_def cur v)
    with rs show ?thesis by (intro exI [of _ rs]) (simp only: Some fee_delta_def v option.sel, simp)
  qed simp
  then obtain r5 where r5: "(if ib_feeAllocationSetId ?base = None then Inr []
        else settlement_row input (ib_feeAllocationSetId ?base) ?oid Refund_fee
          (''settlement:fee:'' @ ?oid @ '':refund_fee'')
          (pi_proposedRefundFeeImpactMinor i) (cf_immutableRefundFeeImpactMinor ?f)) = Inr r5"
      "\<forall>g. group_total g r5 = (if ib_feeAllocationSetId ?base \<noteq> None \<and>
         g = (Settlement_domain, the (ib_feeAllocationSetId ?base), cur) then fee_delta i else 0)"
    by blast
  have "item_rows input i = Inr (r1 @ r2 @ r3 @ r4 @ r5)"
    unfolding item_rows_def Let_def by (simp only: r1(1) r2(1) r3(1) r4(1) r5(1) rbind_Inr)
  moreover have "group_total g (r1 @ r2 @ r3 @ r4 @ r5) = group_share ?base g i" for g
    unfolding group_total_simps r1(2) [rule_format] r2(2) [rule_format] r3(2) [rule_format]
      r4(2) [rule_format] r5(2) [rule_format]
    by (simp add: group_share_def presentment_delta_def proposed_settlement_def
        immutable_settlement_def settled cur)
  ultimately show ?thesis by blast
qed

lemma sum_const_if:
  "sum_list (map (\<lambda>x. if b then f x else (0 :: int)) xs) = (if b then sum_list (map f xs) else 0)"
  by (cases b) simp_all

lemma persistable_total:
  assumes "correction_planned input facts requests u planned"
  shows "\<exists>rows. persistableItems input planned = Inr rows \<and> (\<forall>g. group_total g rows = 0)"
proof -
  let ?base = "cp_immutableBase input"
  note c = assms [unfolded correction_planned_def Let_def]
  obtain cur where cur: "ib_settlementCurrency ?base = Some cur" using c by blast
  have each: "\<exists>f. presented requests u f i" if "i \<in> set planned" for i
    using c that by (metis list_all2_iff in_set_zip in_set_conv_nth list_all2_nthD2 list_all2_lengthD)
  have "\<exists>parts. rmap (item_rows input) is = Inr parts \<and>
      (\<forall>g. group_total g (concat parts) = sum_list (map (group_share ?base g) is))"
    if "set is \<subseteq> set planned" for "is"
    using that
  proof (induction "is")
    case (Cons i "is")
    then obtain parts where parts: "rmap (item_rows input) is = Inr parts"
      "\<forall>g. group_total g (concat parts) = sum_list (map (group_share ?base g) is)" by auto
    have i: "i \<in> set planned" using Cons.prems by simp
    obtain f where "presented requests u f i" using each i by blast
    moreover have "settled_ok i" and "ib_feeAllocationSetId ?base \<noteq> None \<longrightarrow> fee_ok i"
      using c i by blast+
    ultimately obtain rs where "item_rows input i = Inr rs" "\<forall>g. group_total g rs = group_share ?base g i"
      using item_rows_ok cur by blast
    with parts show ?case by auto
  qed simp
  then obtain parts where parts: "rmap (item_rows input) planned = Inr parts"
    "\<forall>g. group_total g (concat parts) = sum_list (map (group_share ?base g) planned)" by blast
  have "sum_list (map presentment_delta planned) = 0"
    using c by (simp add: presentment_delta_def [abs_def] sum_list_subtractf)
  moreover have "sum_list (map (\<lambda>i. proposed_settlement i - immutable_settlement i) planned) = 0"
    using c by (simp add: sum_list_subtractf)
  moreover have "ib_feeAllocationSetId ?base \<noteq> None \<Longrightarrow> sum_list (map fee_delta planned) = 0"
    using c by (simp add: fee_delta_def [abs_def] sum_list_subtractf)
  ultimately have zero: "sum_list (map (group_share ?base g) planned) = 0" for g
    unfolding group_share_def [abs_def] by (simp only: sum_list_addf sum_const_if) simp
  define rows where "rows = js_sort (\<lambda>l r. compare_text (pr_stableTieBreakKey l) (pr_stableTieBreakKey r))
    (concat parts)"
  have "group_total g rows = group_total g (concat parts)" for g
  proof -
    have "mset (map pr_deltaMinor (filter (\<lambda>r. group_key r = g) rows)) =
        mset (map pr_deltaMinor (filter (\<lambda>r. group_key r = g) (concat parts)))"
      unfolding rows_def mset_map mset_filter mset_js_sort ..
    then show ?thesis unfolding group_total_def by (metis sum_mset_sum_list)
  qed
  with parts(2) zero have total0: "group_total g rows = 0" for g by metis
  then have "\<not> (\<exists>(_, v) \<in> set (delta_groups rows). v \<noteq> 0)" using delta_groups_member by fastforce
  then have "persistableItems input planned = Inr rows"
    unfolding persistableItems_def Let_def rows_def parts(1) by simp
  with total0 show ?thesis by blast
qed

section \<open>A ready plan\<close>

lemma ready_Inr:
  assumes "planRefundReportingCorrection h input = Inr (Ready preview doc rows)"
  obtains facts requests n planned u where "validateRequest input = Inr (facts, requests, n)"
    and "plan_items input facts requests u = Inr planned"
    and "persistableItems input planned = Inr rows"
    and "distributionChanged planned \<or> \<not> cp_currentReportingComplete input"
    and "cv_items preview = previewItems planned"
    and "cv_baselineTotalMinor preview = sum_list (map pv_baselineTotalMinor (previewItems planned))"
    and "cv_proposedTotalMinor preview = sum_list (map pv_proposedTotalMinor (previewItems planned))"
    and "cv_previewFingerprint preview = Some (h doc)" and "fg_persistableItems doc = rows"
proof -
  from assms obtain facts requests n where v: "validateRequest input = Inr (facts, requests, n)"
    by (auto simp: planRefundReportingCorrection_def rbind_eq_Inr)
  let ?u = "cp_compatibleTip input \<noteq> None"
  let ?k = "if ?u then Compatible_correction else Immutable_base"
  have ne: "ineligible input facts requests n k e pl \<noteq> Inr (Ready preview doc rows)" for k e pl
    by (simp add: ineligible_def rbind_eq_Inr)
  obtain planned where pl: "plan_items input facts requests ?u = Inr planned"
    using assms ne unfolding planRefundReportingCorrection_def v Let_def
    by (cases "plan_items input facts requests ?u")
      (auto split: if_splits correction_error.splits)
  obtain persistable where ps: "persistableItems input planned = Inr persistable"
    using assms ne unfolding planRefundReportingCorrection_def v Let_def rbind_Inr prod.case pl sum.case
    by (cases "persistableItems input planned") (auto split: if_splits correction_error.splits)
  have ch: "distributionChanged planned \<or> \<not> cp_currentReportingComplete input"
    using assms ne unfolding planRefundReportingCorrection_def v Let_def rbind_Inr prod.case pl sum.case ps
    by (auto simp: rbind_eq_Inr split: if_splits)
  let ?doc = "correction_document input requests n ?k planned persistable"
  have "makePreview input n ?k planned True True None (Some (h ?doc)) = Inr preview \<and> doc = ?doc \<and>
      rows = persistable"
    using assms ne ch unfolding planRefundReportingCorrection_def v Let_def rbind_Inr prod.case pl sum.case ps
    by (auto simp: rbind_eq_Inr split: if_splits)
  then show ?thesis
    using that [OF v pl] ps ch by (auto simp: makePreview_def Let_def rbind_eq_Inr correction_document_def)
qed

lemma plan_items_baseline:
  assumes "plan_items input facts requests u = Inr planned"
  shows "sum_list (map (\<lambda>i. pi_baselineSubtotalMinor i + pi_baselineTaxMinor i) planned) =
    ib_totalPresentmentMinor (cp_immutableBase input)"
proof -
  have "validateBaseline input planned u = Inr ()"
    using assms by (auto simp: plan_items_def rbind_eq_Inr split: if_splits)
  then show ?thesis
    by (auto simp: validateBaseline_def Let_def rbind_eq_Inr concat_pair_sum split: if_splits)
qed

lemma planned_member:
  assumes "list_all2 (presented requests u) facts planned" and "i \<in> set planned"
  obtains f where "f \<in> set facts" and "presented requests u f i"
  using assms by (metis in_set_conv_nth list_all2_conv_all_nth)

lemma planned_facts: "list_all2 (presented requests u) facts planned \<Longrightarrow> map pi_facts planned = facts"
  by (induction rule: list_all2_induct) (auto simp: presented_def)

section \<open>Sample input\<close>

definition sample_uuid :: "char \<Rightarrow> string" where
  "sample_uuid c = replicate 8 c @ ''-'' @ replicate 4 c @ ''-'' @ replicate 4 c @ ''-'' @
     replicate 4 c @ ''-'' @ replicate 12 c"

definition sample_facts :: "char \<Rightarrow> int \<Rightarrow> int \<Rightarrow> correction_facts" where
  "sample_facts c s t = \<lparr>cf_orderItemId = sample_uuid c, cf_titleId = sample_uuid c,
     cf_soldAsTitle = ''Title'', cf_paidSubtotalMinor = 1000, cf_paidTaxMinor = 100,
     cf_paidTotalMinor = 1100, cf_effectiveSiblingSubtotalMinor = 200,
     cf_effectiveSiblingTaxMinor = 0, cf_immutablePresentmentSubtotalMinor = s,
     cf_immutablePresentmentTaxMinor = t, cf_immutableSettlementSubtotalMinor = Some (- s),
     cf_immutableSettlementTaxMinor = Some (- t), cf_immutableRefundFeeImpactMinor = Some (- 5),
     cf_compatiblePresentmentSubtotalMinor = None, cf_compatiblePresentmentTaxMinor = None,
     cf_compatibleSettlementSubtotalMinor = None, cf_compatibleSettlementTaxMinor = None,
     cf_compatibleRefundFeeImpactMinor = None\<rparr>"

definition sample_correction :: correction_input where
  "sample_correction = \<lparr>
     cp_request = \<lparr>cq_refundId = sample_uuid (CHR ''1''),
       cq_reason = ''allocation_attribution_correction'',
       cq_expectedBaseAllocationSetId = sample_uuid (CHR ''2''),
       cq_expectedSourceFingerprint = replicate 64 (CHR ''f''),
       cq_expectedNextCorrectionVersion = 1,
       cq_items = [(sample_uuid (CHR ''b''), 700), (sample_uuid (CHR ''a''), 50)]\<rparr>,
     cp_activeProjection = \<lparr>pj_classifierVersion = 2, pj_allocationAlgorithmVersion = 12,
       pj_replayId = ''c2-a12''\<rparr>,
     cp_currentReportingComplete = True, cp_rawTip = None, cp_compatibleTip = None,
     cp_immutableBase = \<lparr>ib_grossAllocationSetId = sample_uuid (CHR ''2''),
       ib_feeAllocationSetId = Some (sample_uuid (CHR ''3'')),
       ib_sourceFingerprint = replicate 64 (CHR ''f''), ib_currency = ''USD'',
       ib_settlementCurrency = Some ''USD'', ib_totalPresentmentMinor = 750\<rparr>,
     cp_activeFeeComponents = [\<lparr>fc_component = Refund_fee, fc_amountMinor = - 10, fc_currency = ''USD''\<rparr>],
     cp_items = [sample_facts (CHR ''a'') 300 50, sample_facts (CHR ''b'') 400 0]\<rparr>"

definition ready_result :: "correction_result corr \<Rightarrow> bool" where
  "ready_result r \<longleftrightarrow> (case r of Inr (Ready p d rows) \<Rightarrow> True | _ \<Rightarrow> False)"

lemma sample_correction_ready:
  "\<exists>p d rows. planRefundReportingCorrection (\<lambda>_. ''hash'') sample_correction = Inr (Ready p d rows)"
proof -
  have "ready_result (planRefundReportingCorrection (\<lambda>_. ''hash'') sample_correction)" by code_simp
  then show ?thesis by (auto simp: ready_result_def split: sum.splits correction_result.splits)
qed

section \<open>Errors that escape the planner\<close>

text \<open>
  Contradictory evidence is meant to give an ineligible preview. Two inputs for which the planner
  throws instead: building the ineligible preview itself sums unchecked amounts, and a compatible
  correction does not imply that the immutable settlement amounts are present, which
  \<^verbatim>\<open>validateBaseline\<close> converts with \<^verbatim>\<open>BigInt\<close> before \<^verbatim>\<open>applySettlementGross\<close> tests them.
\<close>

definition sample_unsummable :: correction_input where
  "sample_unsummable = sample_correction\<lparr>cp_currentReportingComplete := False,
     cp_items := [sample_facts (CHR ''a'') 60000000 0, sample_facts (CHR ''b'') 60000000 0]\<rparr>"

lemma unsummable_preview_throws:
  "planRefundReportingCorrection h sample_unsummable = Inl (Evidence_conflict Immutable_conflict)"
proof -
  have "(case validateRequest sample_unsummable of Inl _ \<Rightarrow> False
      | Inr (facts, requests, n) \<Rightarrow>
          ineligible sample_unsummable facts requests n Immutable_base Immutable_conflict None =
            Inl (Evidence_conflict Immutable_conflict))" by code_simp
  moreover have "\<not> tips_conflict sample_unsummable" "cp_compatibleTip sample_unsummable = None"
    "cp_rawTip sample_unsummable = None" "\<not> cp_currentReportingComplete sample_unsummable"
    "ib_settlementCurrency (cp_immutableBase sample_unsummable) \<noteq> None"
    by (simp_all add: tips_conflict_def sample_unsummable_def sample_correction_def)
  ultimately show ?thesis
    by (auto simp: planRefundReportingCorrection_def Let_def split: sum.splits prod.splits)
qed

definition sample_missing_settlement :: correction_input where
  "sample_missing_settlement = sample_correction\<lparr>
     cp_request := (cp_request sample_correction)\<lparr>cq_expectedNextCorrectionVersion := 2\<rparr>,
     cp_rawTip := Some \<lparr>rt_id = sample_uuid (CHR ''4''), rt_correctionVersion = 1,
       rt_baseAllocationSetId = sample_uuid (CHR ''2''),
       rt_sourceFingerprint = replicate 64 (CHR ''f'')\<rparr>,
     cp_compatibleTip := Some \<lparr>ct_id = sample_uuid (CHR ''4''), ct_correctionVersion = 1\<rparr>,
     cp_items := map (\<lambda>f. f\<lparr>cf_immutableSettlementTaxMinor := None,
       cf_compatiblePresentmentSubtotalMinor := Some (cf_immutablePresentmentSubtotalMinor f),
       cf_compatiblePresentmentTaxMinor := Some (cf_immutablePresentmentTaxMinor f),
       cf_compatibleSettlementSubtotalMinor := cf_immutableSettlementSubtotalMinor f,
       cf_compatibleSettlementTaxMinor := cf_immutableSettlementTaxMinor f,
       cf_compatibleRefundFeeImpactMinor := cf_immutableRefundFeeImpactMinor f\<rparr>)
       (cp_items sample_correction)\<rparr>"

lemma missing_settlement_throws:
  "planRefundReportingCorrection h sample_missing_settlement = Inl Type_error"
proof -
  have "(case validateRequest sample_missing_settlement of Inl _ \<Rightarrow> False
      | Inr (facts, requests, n) \<Rightarrow>
          plan_items sample_missing_settlement facts requests True = Inl Type_error)" by code_simp
  moreover have "\<not> tips_conflict sample_missing_settlement" by code_simp
  moreover have "cp_compatibleTip sample_missing_settlement \<noteq> None"
    by (simp add: sample_missing_settlement_def)
  ultimately show ?thesis
    by (auto simp: planRefundReportingCorrection_def Let_def split: sum.splits prod.splits)
qed

section \<open>Properties\<close>

text \<open>
  C17. The last check of the planner never fires: whatever was planned can be written as rows, in
  which the deltas of every group of domain, allocation set and currency add up to zero.
\<close>

theorem correction_rows_balance:
  assumes "validateRequest input = Inr (facts, requests, n)"
    and "plan_items input facts requests u = Inr planned"
  shows "\<exists>rows. persistableItems input planned = Inr rows \<and> (\<forall>g. group_total g rows = 0)"
  using persistable_total [OF plan_items_Inr [OF assms]] .

theorem correction_rows_balance_witness:
  "\<exists>rows. (\<exists>planned. persistableItems sample_correction planned = Inr rows) \<and>
     (\<forall>g. group_total g rows = 0)"
proof -
  obtain p d rows where "planRefundReportingCorrection (\<lambda>_. ''hash'') sample_correction = Inr (Ready p d rows)"
    using sample_correction_ready by blast
  then obtain facts requests n planned u where "validateRequest sample_correction = Inr (facts, requests, n)"
    "plan_items sample_correction facts requests u = Inr planned" by (rule ready_Inr)
  from correction_rows_balance [OF this] show ?thesis by blast
qed

text \<open>
  A ready correction moves a refund between order items without changing it: the proposed
  and the baseline totals are the refunded total; every previewed item proposes exactly what was
  requested for it, split into a subtotal and a tax that fit in what the item was paid less what
  other refunds took; the rows balance and the fingerprint covers exactly the returned rows.
\<close>

theorem correction_ready_within_paid:
  assumes "planRefundReportingCorrection h input = Inr (Ready preview doc rows)"
  shows "cv_proposedTotalMinor preview = ib_totalPresentmentMinor (cp_immutableBase input) \<and>
    cv_baselineTotalMinor preview = ib_totalPresentmentMinor (cp_immutableBase input) \<and>
    (\<forall>v \<in> set (cv_items preview). \<exists>f \<in> set (cp_items input).
       pv_orderItemId v = cf_orderItemId f \<and>
       (cf_orderItemId f, pv_proposedTotalMinor v) \<in> set (cq_items (cp_request input)) \<and>
       0 \<le> pv_proposedSubtotalMinor v \<and>
       pv_proposedSubtotalMinor v \<le> cf_paidSubtotalMinor f - cf_effectiveSiblingSubtotalMinor f \<and>
       0 \<le> pv_proposedTaxMinor v \<and>
       pv_proposedTaxMinor v \<le> cf_paidTaxMinor f - cf_effectiveSiblingTaxMinor f) \<and>
    (\<forall>g. group_total g rows = 0) \<and> cv_previewFingerprint preview = Some (h doc) \<and>
    fg_persistableItems doc = rows"
proof -
  obtain facts requests n planned u where v: "validateRequest input = Inr (facts, requests, n)"
    and run: "plan_items input facts requests u = Inr planned"
    and rows: "persistableItems input planned = Inr rows"
    and items: "cv_items preview = previewItems planned"
    and totals: "cv_baselineTotalMinor preview = sum_list (map pv_baselineTotalMinor (previewItems planned))"
      "cv_proposedTotalMinor preview = sum_list (map pv_proposedTotalMinor (previewItems planned))"
    and doc: "cv_previewFingerprint preview = Some (h doc)" "fg_persistableItems doc = rows"
    using assms by (rule ready_Inr)
  note c = plan_items_Inr [OF v run, unfolded correction_planned_def Let_def]
  have sets: "set facts = set (cp_items input)" "set requests = set (cq_items (cp_request input))"
    using validateRequest_Inr(4,5) [OF v] by (metis set_mset_mset)+
  have "\<exists>f \<in> set (cp_items input). cf_orderItemId (pi_facts i) = cf_orderItemId f \<and>
      (cf_orderItemId f, pi_proposedSubtotalMinor i + pi_proposedTaxMinor i) \<in> set (cq_items (cp_request input)) \<and>
      0 \<le> pi_proposedSubtotalMinor i \<and> pi_proposedSubtotalMinor i \<le> remaining_subtotal f \<and>
      0 \<le> pi_proposedTaxMinor i \<and> pi_proposedTaxMinor i \<le> remaining_tax f" if i: "i \<in> set planned" for i
  proof -
    obtain f where "f \<in> set facts" "presented requests u f i" using planned_member c i by metis
    with sets show ?thesis by (auto simp: presented_def dest: map_of_SomeD)
  qed
  then show ?thesis
    using rows persistable_total [OF plan_items_Inr [OF v run]] doc c plan_items_baseline [OF run]
    unfolding items totals previewItems_def
    by (simp add: previewItem_def Let_def comp_def remaining_subtotal_def remaining_tax_def)
qed

theorem correction_ready_within_paid_witness:
  "\<exists>p d rows. planRefundReportingCorrection (\<lambda>_. ''hash'') sample_correction = Inr (Ready p d rows) \<and>
     cv_proposedTotalMinor p = 750"
proof -
  obtain p d rows where run: "planRefundReportingCorrection (\<lambda>_. ''hash'') sample_correction = Inr (Ready p d rows)"
    using sample_correction_ready by blast
  have "ib_totalPresentmentMinor (cp_immutableBase sample_correction) = 750"
    by (simp add: sample_correction_def)
  with correction_ready_within_paid [OF run] run show ?thesis by auto
qed

text \<open>
  A ready correction redistributes what was settled and keeps its total: over all items, the
  proposed settlement gross amounts add up to the settled refund, and, where the refund has a fee
  allocation, the proposed fee impacts add up to the recorded ones.
\<close>

theorem correction_settlement_conserved:
  assumes "planRefundReportingCorrection h input = Inr (Ready preview doc rows)"
  shows "sum_list (map (\<lambda>v. the (pv_proposedSettlementGrossMinor v)) (cv_items preview)) =
      sum_list (map (\<lambda>f. the (cf_immutableSettlementSubtotalMinor f) +
        the (cf_immutableSettlementTaxMinor f)) (cp_items input)) \<and>
    (ib_feeAllocationSetId (cp_immutableBase input) \<noteq> None \<longrightarrow>
      sum_list (map (\<lambda>v. the (pv_proposedRefundFeeImpactMinor v)) (cv_items preview)) =
      sum_list (map (\<lambda>f. the (cf_immutableRefundFeeImpactMinor f)) (cp_items input)))"
proof -
  obtain facts requests n planned u where v: "validateRequest input = Inr (facts, requests, n)"
    and run: "plan_items input facts requests u = Inr planned"
    and items: "cv_items preview = previewItems planned"
    using assms by (rule ready_Inr)
  note c = plan_items_Inr [OF v run, unfolded correction_planned_def Let_def]
  have facts: "map pi_facts planned = facts" using c planned_facts by blast
  have ms: "mset facts = mset (cp_items input)" using validateRequest_Inr(4) [OF v] .
  have on_input: "sum_list (map (\<lambda>i. F (pi_facts i)) planned) = sum_list (map F (cp_items input))"
    for F :: "correction_facts \<Rightarrow> int"
  proof -
    have "map (\<lambda>i. F (pi_facts i)) planned = map F facts" unfolding facts [symmetric] by simp
    with ms show ?thesis by (metis mset_map sum_mset_sum_list)
  qed
  have "map (\<lambda>v. the (pv_proposedSettlementGrossMinor v)) (cv_items preview) = map proposed_settlement planned"
    using c unfolding items previewItems_def
    by (auto simp: previewItem_def Let_def plus_present_def proposed_settlement_def settled_ok_def)
  moreover have "map (\<lambda>v. the (pv_proposedRefundFeeImpactMinor v)) (cv_items preview) =
      map (\<lambda>i. the (pi_proposedRefundFeeImpactMinor i)) planned"
    unfolding items previewItems_def by (simp add: previewItem_def Let_def)
  ultimately show ?thesis
    using c on_input [of "\<lambda>f. the (cf_immutableSettlementSubtotalMinor f) + the (cf_immutableSettlementTaxMinor f)"]
      on_input [of "\<lambda>f. the (cf_immutableRefundFeeImpactMinor f)"]
    by (simp add: immutable_settlement_def [abs_def])
qed

theorem correction_settlement_conserved_witness:
  "\<exists>p d rows. planRefundReportingCorrection (\<lambda>_. ''hash'') sample_correction = Inr (Ready p d rows) \<and>
     sum_list (map (\<lambda>v. the (pv_proposedSettlementGrossMinor v)) (cv_items p)) = - 750 \<and>
     sum_list (map (\<lambda>v. the (pv_proposedRefundFeeImpactMinor v)) (cv_items p)) = - 10"
proof -
  obtain p d rows where run: "planRefundReportingCorrection (\<lambda>_. ''hash'') sample_correction = Inr (Ready p d rows)"
    using sample_correction_ready by blast
  have "sum_list (map (\<lambda>f. the (cf_immutableSettlementSubtotalMinor f) +
        the (cf_immutableSettlementTaxMinor f)) (cp_items sample_correction)) = - 750"
    "sum_list (map (\<lambda>f. the (cf_immutableRefundFeeImpactMinor f)) (cp_items sample_correction)) = - 10"
    "ib_feeAllocationSetId (cp_immutableBase sample_correction) \<noteq> None"
    by (simp_all add: sample_correction_def sample_facts_def)
  with correction_settlement_conserved [OF run] run show ?thesis by auto
qed

end
