(* ===== verification/CommerceTypes.thy ===== *)
theory CommerceTypes
  imports Prelude
begin

text \<open>
  The errors of \<^verbatim>\<open>commerce/errors.ts\<close> and the rows of \<^verbatim>\<open>db/schema/commerce.ts\<close>,
  \<^verbatim>\<open>financial-allocation.ts\<close> and \<^verbatim>\<open>library.ts\<close> that the refund and access code works on: the
  columns that code reads or writes. A nullable column is an option; a timestamp is its number of
  milliseconds; integer columns are \<open>int\<close>.
\<close>

datatype conflict_code =
    Grant_permanently_revoked | Preserved_grant_immutable | Checkout_attempt_conflict
  | Claim_authorization_required | Identity_already_claimed | Stale_commerce_state

datatype commerce_error = Permanent_commerce | Commerce_conflict conflict_code

type_synonym 'a commerce = "commerce_error + 'a"

definition permanentReconciliationFailure :: commerce_error where
  "permanentReconciliationFailure = Permanent_commerce"

datatype refund_status = Refund_pending | Refund_succeeded | Refund_failed | Refund_canceled

datatype grant_source = Purchase | Preserved | Administrative

datatype grant_state = Unclaimed | Active | Suspended | Revoked

record order_item_row =
  oi_id :: string
  oi_titleId :: string
  oi_currency :: string
  oi_unitSubtotalMinor :: int
  oi_taxMinor :: "int option"
  oi_totalMinor :: "int option"

record refund_row =
  rf_id :: string
  rf_stripeRefundId :: string
  rf_status :: refund_status
  rf_currency :: string
  rf_providerCreatedAt :: int

record refund_allocation_row =
  ra_id :: string
  ra_refundId :: string
  ra_orderItemId :: string
  ra_amountMinor :: int

record refund_allocation_component_row =
  rk_refundAllocationId :: string
  rk_refundId :: string
  rk_orderItemId :: string
  rk_subtotalMinor :: int
  rk_taxMinor :: int
  rk_totalMinor :: int
  rk_currency :: string

record entitlement_grant_row =
  eg_id :: string
  eg_titleId :: string
  eg_userId :: "string option"
  eg_source :: grant_source
  eg_orderItemId :: "string option"
  eg_recoveryRefundAllocationId :: "string option"
  eg_state :: grant_state
  eg_stateReason :: string
  eg_grantedAt :: int
  eg_suspendedAt :: "int option"
  eg_revokedAt :: "int option"
  eg_createdAt :: int
  eg_updatedAt :: int

record entitlement_row =
  en_id :: string
  en_userId :: string
  en_titleId :: string
  en_grantedAt :: int
  en_revokedAt :: "int option"
  en_createdAt :: int
  en_updatedAt :: int

section \<open>Maps built from rows\<close>

text \<open>
  \<^verbatim>\<open>new Map(rows.map((row) => [row.id, row]))\<close>: the last row with a key wins.
\<close>

definition index_by :: "('a \<Rightarrow> 'k) \<Rightarrow> 'a list \<Rightarrow> 'k \<Rightarrow> 'a option" where
  "index_by key xs = map_of (rev (map (\<lambda>x. (key x, x)) xs))"

lemma index_by_SomeD: "index_by key xs k = Some x \<Longrightarrow> x \<in> set xs \<and> key x = k"
  unfolding index_by_def by (auto dest!: map_of_SomeD)

lemma index_by_None: "index_by key xs k = None \<longleftrightarrow> k \<notin> key ` set xs"
  unfolding index_by_def by (auto simp: map_of_eq_None_iff image_iff rev_map)

lemma index_by_distinct:
  "distinct (map key xs) \<Longrightarrow> x \<in> set xs \<Longrightarrow> index_by key xs (key x) = Some x"
  unfolding index_by_def
  by (subst map_of_rev_distinct) (auto simp: comp_def map_of_eq_Some_iff)

lemma index_by_Nil [simp]: "index_by key [] k = None"
  by (simp add: index_by_def)

lemma index_by_Cons:
  "index_by key (x # xs) k =
    (case index_by key xs k of None \<Rightarrow> if key x = k then Some x else None | Some y \<Rightarrow> Some y)"
  by (simp add: index_by_def map_add_def split: option.splits)

end
