(* ===== verification/RefundComponents.thy ===== *)
theory RefundComponents
  imports CommerceTypes LargestRemainder
begin

text \<open>
  \<^verbatim>\<open>commerce/refund-allocation-components.ts\<close>: splitting each newly allocated refund amount into
  the subtotal and the tax of its order item, after what earlier allocations took. The remaining
  amounts the source mutates in place are the values of an insertion-ordered map. Every failure is
  \<open>permanentReconciliationFailure\<close>.
\<close>

record refund_component_allocation =
  rn_refundId :: string
  rn_orderItemId :: string
  rn_amountMinor :: int

record refund_component_write =
  rw_refundId :: string
  rw_orderItemId :: string
  rw_subtotalMinor :: int
  rw_taxMinor :: int
  rw_totalMinor :: int
  rw_currency :: string
  rw_createdAt :: int

record refund_components_input =
  rx_items :: "order_item_row list"
  rx_refunds :: "refund_row list"
  rx_existingAllocations :: "refund_allocation_row list"
  rx_existingComponents :: "refund_allocation_component_row list"
  rx_newAllocations :: "refund_component_allocation list"
  rx_createdAt :: int

type_synonym remaining_map = "(string \<times> int \<times> int) list"

section \<open>What is left of each item\<close>

definition initial_remaining :: "order_item_row list \<Rightarrow> remaining_map commerce" where
  "initial_remaining items =
     rfold (\<lambda>item remaining.
       case (oi_taxMinor item, oi_totalMinor item) of
         (Some tax, Some totalMinor) \<Rightarrow>
           if \<not> safe_integer (oi_unitSubtotalMinor item) \<or> \<not> safe_integer tax \<or>
              \<not> safe_integer totalMinor \<or> oi_unitSubtotalMinor item < 0 \<or> tax < 0 \<or>
              oi_unitSubtotalMinor item + tax \<noteq> totalMinor
           then Inl permanentReconciliationFailure
           else Inr (AList.update (oi_id item) (oi_unitSubtotalMinor item, tax) remaining)
       | _ \<Rightarrow> Inl permanentReconciliationFailure)
     items []"

definition components_by_allocation ::
  "refund_allocation_component_row list \<Rightarrow>
   (string \<times> refund_allocation_component_row) list commerce" where
  "components_by_allocation cs =
     rfold (\<lambda>c m.
       if map_of m (rk_refundAllocationId c) \<noteq> None then Inl permanentReconciliationFailure
       else Inr (AList.update (rk_refundAllocationId c) c m)) cs []"

definition take_existing ::
  "refund_components_input \<Rightarrow> (string \<times> refund_allocation_component_row) list \<Rightarrow>
   refund_allocation_row \<Rightarrow> remaining_map \<Rightarrow> remaining_map commerce" where
  "take_existing input componentByAllocationId allocation remainingByItem =
     (case (map_of componentByAllocationId (ra_id allocation),
            index_by oi_id (rx_items input) (ra_orderItemId allocation),
            index_by rf_id (rx_refunds input) (ra_refundId allocation),
            map_of remainingByItem (ra_orderItemId allocation)) of
        (Some component, Some item, Some refund, Some (subtotal, tax)) \<Rightarrow>
          if rk_refundId component \<noteq> ra_refundId allocation \<or>
             rk_orderItemId component \<noteq> ra_orderItemId allocation \<or>
             rk_currency component \<noteq> oi_currency item \<or>
             rk_currency component \<noteq> rf_currency refund \<or>
             rk_totalMinor component \<noteq> ra_amountMinor allocation \<or>
             rk_subtotalMinor component + rk_taxMinor component \<noteq> rk_totalMinor component \<or>
             rk_subtotalMinor component < 0 \<or> rk_taxMinor component < 0 \<or>
             rk_subtotalMinor component > subtotal \<or> rk_taxMinor component > tax
          then Inl permanentReconciliationFailure
          else Inr (AList.update (ra_orderItemId allocation)
                 (subtotal - rk_subtotalMinor component, tax - rk_taxMinor component)
                 remainingByItem)
      | _ \<Rightarrow> Inl permanentReconciliationFailure)"

section \<open>Order of the new allocations\<close>

text \<open>
  The comparison function throws when it meets an allocation without a refund row; sorting at
  least two allocations compares each of them.
\<close>

definition compare_allocations ::
  "(string \<Rightarrow> refund_row option) \<Rightarrow> refund_component_allocation \<Rightarrow>
   refund_component_allocation \<Rightarrow> int" where
  "compare_allocations refundsById left right =
     (let leftRefund = the (refundsById (rn_refundId left));
          rightRefund = the (refundsById (rn_refundId right));
          byItem = compare_text (rn_orderItemId left) (rn_orderItemId right);
          byTime = rf_providerCreatedAt leftRefund - rf_providerCreatedAt rightRefund;
          byProvider = compare_text (rf_stripeRefundId leftRefund) (rf_stripeRefundId rightRefund);
          byRow = compare_text (rf_id leftRefund) (rf_id rightRefund) in
      if byItem \<noteq> 0 then byItem else if byTime \<noteq> 0 then byTime
      else if byProvider \<noteq> 0 then byProvider else if byRow \<noteq> 0 then byRow
      else compare_text (rn_refundId left) (rn_refundId right))"

definition sort_allocations ::
  "(string \<Rightarrow> refund_row option) \<Rightarrow> refund_component_allocation list \<Rightarrow>
   refund_component_allocation list commerce" where
  "sort_allocations refundsById xs =
     (if 2 \<le> length xs \<and> (\<exists>a \<in> set xs. refundsById (rn_refundId a) = None)
      then Inl permanentReconciliationFailure
      else Inr (js_sort (compare_allocations refundsById) xs))"

section \<open>Splitting one allocation\<close>

definition split_component :: "string \<Rightarrow> int \<Rightarrow> int \<Rightarrow> int \<Rightarrow> (int \<times> int) commerce" where
  "split_component itemId amountMinor remainingSubtotal remainingTax =
     (let remainingTotal = remainingSubtotal + remainingTax in
      if remainingTotal \<le> 0 \<or> amountMinor > remainingTotal
      then Inl permanentReconciliationFailure
      else
        let subtotal0 = amountMinor * remainingSubtotal div remainingTotal;
            tax0 = amountMinor * remainingTax div remainingTotal;
            subtotalRemainder = amountMinor * remainingSubtotal mod remainingTotal;
            taxRemainder = amountMinor * remainingTax mod remainingTotal;
            leftover = amountMinor - subtotal0 - tax0 in
        if leftover < 0 \<or> leftover > 1 then Inl permanentReconciliationFailure
        else
          let toSubtotal = leftover = 1 \<and> (subtotalRemainder > taxRemainder \<or>
                (subtotalRemainder = taxRemainder \<and>
                 compare_text (itemId @ '':subtotal'') (itemId @ '':tax'') < 0));
              subtotalMinor = (if toSubtotal then subtotal0 + 1 else subtotal0);
              taxMinor = (if leftover = 1 \<and> \<not> toSubtotal then tax0 + 1 else tax0) in
          if subtotalMinor > remainingSubtotal \<or> taxMinor > remainingTax \<or>
             subtotalMinor + taxMinor \<noteq> amountMinor
          then Inl permanentReconciliationFailure
          else Inr (subtotalMinor, taxMinor))"

fun plan_allocations ::
  "refund_components_input \<Rightarrow> (string \<times> string) set \<Rightarrow> remaining_map \<Rightarrow>
   refund_component_allocation list \<Rightarrow>
   (refund_component_allocation \<times> refund_component_write) list commerce" where
  "plan_allocations input seen remainingByItem [] = Inr []"
| "plan_allocations input seen remainingByItem (allocation # rest) =
     (let key = (rn_refundId allocation, rn_orderItemId allocation) in
      case (index_by oi_id (rx_items input) (rn_orderItemId allocation),
            index_by rf_id (rx_refunds input) (rn_refundId allocation),
            map_of remainingByItem (rn_orderItemId allocation)) of
        (Some item, Some refund, Some (subtotal, tax)) \<Rightarrow>
          if key \<in> seen \<or> rf_status refund \<noteq> Refund_succeeded \<or>
             rf_currency refund \<noteq> oi_currency item \<or>
             \<not> safe_integer (rn_amountMinor allocation) \<or> rn_amountMinor allocation < 1
          then Inl permanentReconciliationFailure
          else
            rbind (split_component (oi_id item) (rn_amountMinor allocation) subtotal tax)
              (\<lambda>(subtotalMinor, taxMinor).
            rbind (plan_allocations input (insert key seen)
                (AList.update (rn_orderItemId allocation)
                  (subtotal - subtotalMinor, tax - taxMinor) remainingByItem) rest) (\<lambda>planned.
            Inr ((allocation,
              \<lparr>rw_refundId = rn_refundId allocation, rw_orderItemId = rn_orderItemId allocation,
               rw_subtotalMinor = subtotalMinor, rw_taxMinor = taxMinor,
               rw_totalMinor = rn_amountMinor allocation, rw_currency = oi_currency item,
               rw_createdAt = rx_createdAt input\<rparr>) # planned)))
      | _ \<Rightarrow> Inl permanentReconciliationFailure)"

definition planRefundAllocationComponents ::
  "refund_components_input \<Rightarrow>
   (refund_component_allocation \<times> refund_component_write) list commerce" where
  "planRefundAllocationComponents input =
     rbind (initial_remaining (rx_items input)) (\<lambda>initial.
     rbind (components_by_allocation (rx_existingComponents input)) (\<lambda>byAllocation.
     rbind (throw_if (length byAllocation \<noteq> length (rx_existingAllocations input))
       permanentReconciliationFailure) (\<lambda>_.
     rbind (rfold (take_existing input byAllocation) (rx_existingAllocations input) initial)
       (\<lambda>remaining.
     rbind (sort_allocations (index_by rf_id (rx_refunds input)) (rx_newAllocations input))
       (\<lambda>sorted.
     plan_allocations input {} remaining sorted)))))"

section \<open>Splitting\<close>

text \<open>
  The two floors leave at most one unit, and then both remainders are positive, so that neither
  part can pass its limit: none of the three checks after the division can fail.
\<close>

lemma split_arith:
  fixes a s t :: int
  assumes "0 \<le> s" "0 \<le> t" "0 < s + t" "0 \<le> a" "a \<le> s + t"
  defines "x \<equiv> a * s div (s + t)" and "y \<equiv> a * t div (s + t)"
  shows "0 \<le> x" "x \<le> s" "0 \<le> y" "y \<le> t" "a - x - y = 0 \<or> a - x - y = 1"
    "a - x - y = 1 \<Longrightarrow> x < s \<and> y < t \<and>
       a * s mod (s + t) + a * t mod (s + t) = s + t"
proof -
  let ?T = "s + t"
  have le: "a * v div ?T \<le> v" if "0 \<le> v" for v
  proof -
    have "a * v div ?T \<le> ?T * v div ?T"
      using assms that by (intro zdiv_mono1) (auto intro: mult_right_mono)
    then show ?thesis using assms by simp
  qed
  show "0 \<le> x" "0 \<le> y" using assms by (auto simp: x_def y_def pos_imp_zdiv_nonneg_iff)
  show "x \<le> s" "y \<le> t" using le assms by (auto simp: x_def y_def)
  let ?r = "a * s mod ?T" and ?q = "a * t mod ?T"
  have r: "0 \<le> ?r" "?r < ?T" and q: "0 \<le> ?q" "?q < ?T" using assms by auto
  have xs: "x * ?T + ?r = a * s" "y * ?T + ?q = a * t" unfolding x_def y_def by (rule div_mult_mod_eq)+
  then have left: "(a - x - y) * ?T = ?r + ?q" by (simp add: algebra_simps)
  have "0 \<le> (a - x - y) * ?T" "(a - x - y) * ?T < 2 * ?T"
    unfolding left mult_2
    using add_nonneg_nonneg [OF r(1) q(1)] add_strict_mono [OF r(2) q(2)] by auto
  then have "0 \<le> a - x - y" "a - x - y < 2"
    using mult_less_cancel_right_pos [of ?T "a - x - y" 2] mult_le_cancel_right_pos [of ?T 0 "a - x - y"]
      assms(3) by (simp_all only: mult_zero_left)
  then show "a - x - y = 0 \<or> a - x - y = 1" by linarith
  assume one: "a - x - y = 1"
  then have sum: "?r + ?q = ?T" using left by simp
  then have pos: "0 < ?r" "0 < ?q" using r(2) q(2) by linarith+
  have "a * s \<le> s * ?T" "a * t \<le> t * ?T"
    using assms mult_right_mono [of a ?T s] mult_right_mono [of a ?T t]
    by (simp_all only: mult.commute)
  then have "x * ?T < s * ?T" "y * ?T < t * ?T" using xs pos by linarith+
  then have "x < s" "y < t"
    using mult_less_cancel_right_pos [of ?T x s] mult_less_cancel_right_pos [of ?T y t] assms(3)
    by blast+
  then show "x < s \<and> y < t \<and> ?r + ?q = ?T" using sum by simp
qed

lemma split_component_succeeds:
  assumes "0 \<le> s" "0 \<le> t" "0 < s + t" "0 \<le> a" "a \<le> s + t"
  shows "\<exists>x y. split_component k a s t = Inr (x, y) \<and> 0 \<le> x \<and> x \<le> s \<and> 0 \<le> y \<and> y \<le> t \<and> x + y = a"
  using split_arith [OF assms] assms(3,5) by (auto simp: split_component_def Let_def)

lemma split_component_Inr:
  assumes "split_component k a s t = Inr (x, y)" "0 \<le> s" "0 \<le> t" "0 \<le> a"
  shows "0 \<le> x \<and> x \<le> s \<and> 0 \<le> y \<and> y \<le> t \<and> x + y = a"
proof -
  have "0 < s + t" "a \<le> s + t"
    using assms(1) by (auto simp: split_component_def Let_def split: if_splits)
  with split_component_succeeds [of s t a k] assms show ?thesis by auto
qed

text \<open>
  The split is the general largest-remainder allocation, for the two tie keys of the item: the
  subtotal comes first and wins ties.
\<close>

lemma subtotal_before_tax:
  "compare_text (k @ '':subtotal'') (k @ '':tax'') = - 1"
  "compare_code_points (k @ '':subtotal'') (k @ '':tax'') = - 1"
  "compare_code_points (k @ '':tax'') (k @ '':subtotal'') = 1"
proof -
  show c: "compare_code_points (k @ '':subtotal'') (k @ '':tax'') = - 1"
    by (induction k) simp_all
  show "compare_code_points (k @ '':tax'') (k @ '':subtotal'') = 1" by (induction k) simp_all
  show "compare_text (k @ '':subtotal'') (k @ '':tax'') = - 1"
    using c compare_code_points_less_iff [of "k @ '':subtotal''" "k @ '':tax''"]
    by (simp add: compare_text_def)
qed

lemma split_component_largest_remainder:
  assumes run: "split_component k a s t = Inr (x, y)" and nonneg: "0 \<le> s" "0 \<le> t"
    and pos: "0 < a" and safe: "safe_integer a" "safe_integer s" "safe_integer t"
  shows "allocateSignedLargestRemainder a
      [\<lparr>lw_tieKey = k @ '':subtotal'', lw_weightMinor = s\<rparr>,
       \<lparr>lw_tieKey = k @ '':tax'', lw_weightMinor = t\<rparr>] =
    Inr ((if 0 < s then [\<lparr>ls_tieKey = k @ '':subtotal'', ls_amountMinor = x\<rparr>] else []) @
         (if 0 < t then [\<lparr>ls_tieKey = k @ '':tax'', ls_amountMinor = y\<rparr>] else []))"
proof -
  let ?ws = "[\<lparr>lw_tieKey = k @ '':subtotal'', lw_weightMinor = s\<rparr>,
    \<lparr>lw_tieKey = k @ '':tax'', lw_weightMinor = t\<rparr>]"
  have T: "0 < s + t" "a \<le> s + t"
    using run by (auto simp: split_component_def Let_def split: if_splits)
  note arith = split_arith [OF nonneg T(1) _ T(2)]
  have valid: "valid_weights ?ws" using nonneg safe by (simp add: valid_weights_def)
  consider "s = 0" "0 < t" | "t = 0" "0 < s" | "0 < s" "0 < t" using nonneg T by linarith
  then show ?thesis
  proof cases
    case 1
    with split_component_Inr [OF run nonneg] pos have "x + y = a" "x = 0" by auto
    with 1 valid safe show ?thesis
      by (simp add: allocate_eq lr_positive_def lr_result_def lr_final_def lr_rows_def
          lr_row_of_def total_weight_def lr_bumped_keys_def lr_left_def)
  next
    case 2
    with split_component_Inr [OF run nonneg] pos have "x + y = a" "y = 0" by auto
    with 2 valid safe show ?thesis
      by (simp add: allocate_eq lr_positive_def lr_result_def lr_final_def lr_rows_def
          lr_row_of_def total_weight_def lr_bumped_keys_def lr_left_def)
  next
    case 3
    define X Y P Q where defs: "X = a * s div (s + t)" "Y = a * t div (s + t)"
      "P = a * s mod (s + t)" "Q = a * t mod (s + t)"
    have rows: "lr_rows a ?ws = [\<lparr>lr_tieKey = k @ '':subtotal'', lr_allocated = X, lr_remainder = P\<rparr>,
        \<lparr>lr_tieKey = k @ '':tax'', lr_allocated = Y, lr_remainder = Q\<rparr>]"
      by (simp add: lr_rows_def lr_row_of_def total_weight_def defs Let_def)
    have left: "lr_left a ?ws = a - X - Y" by (simp add: lr_left_def rows)
    have one: "a - X - Y = 0 \<or> a - X - Y = 1" using arith(5) pos by (simp add: defs)
    have split: "(x, y) = (if a - X - Y = 1 then if Q \<le> P then (X + 1, Y) else (X, Y + 1) else (X, Y))"
      using run by (auto simp: split_component_def Let_def defs [symmetric] subtotal_before_tax
          split: if_splits)
    have pw: "lr_positive ?ws = ?ws" using 3 by (simp add: lr_positive_def)
    have result: "allocateSignedLargestRemainder a ?ws = Inr (lr_result a ?ws)"
      using valid safe by (simp add: allocate_eq pw)
    define U V where keys: "U = k @ '':subtotal''" "V = k @ '':tax''"
    have cmp: "U \<noteq> V" "compare_code_points U V = - 1" "compare_code_points V U = 1"
      "compare_code_points U U = 0" "compare_code_points V V = 0"
      using subtotal_before_tax [of k] by (auto simp: keys)
    note rows = rows [folded keys] and left = left [folded keys]
    have "lr_result a (?ws) = [\<lparr>ls_tieKey = U, ls_amountMinor = x\<rparr>, \<lparr>ls_tieKey = V, ls_amountMinor = y\<rparr>]"
      unfolding keys [symmetric]
      using one split pos cmp
      by (auto simp: lr_result_def lr_final_def lr_bumped_keys_def left rows lr_bump_def
          lr_compareRemainder_def compareTieKey_def)
    with result 3 show ?thesis by (simp add: keys)
  qed
qed

section \<open>The state of the planner\<close>

definition valid_order_item :: "order_item_row \<Rightarrow> bool" where
  "valid_order_item item \<longleftrightarrow> (\<exists>tax all. oi_taxMinor item = Some tax \<and> oi_totalMinor item = Some all \<and>
     safe_integer (oi_unitSubtotalMinor item) \<and> safe_integer tax \<and> safe_integer all \<and>
     0 \<le> oi_unitSubtotalMinor item \<and> 0 \<le> tax \<and> oi_unitSubtotalMinor item + tax = all)"

text \<open>
  The planner's map, as a function of what was taken so far: \<open>f\<close> and \<open>g\<close> are the subtotals and
  taxes already attributed to refunds of an item.
\<close>

definition remaining_after ::
  "order_item_row list \<Rightarrow> (string \<Rightarrow> int) \<Rightarrow> (string \<Rightarrow> int) \<Rightarrow> remaining_map \<Rightarrow> bool" where
  "remaining_after items f g m \<longleftrightarrow> (\<forall>k. map_of m k =
     (case index_by oi_id items k of None \<Rightarrow> None
      | Some item \<Rightarrow> Some (oi_unitSubtotalMinor item - f k, the (oi_taxMinor item) - g k)) \<and>
     (\<forall>item. index_by oi_id items k = Some item \<longrightarrow>
       0 \<le> f k \<and> f k \<le> oi_unitSubtotalMinor item \<and> 0 \<le> g k \<and> g k \<le> the (oi_taxMinor item)))"

lemma initial_step:
  "(case (oi_taxMinor item, oi_totalMinor item) of
      (Some tax, Some all) \<Rightarrow>
        if \<not> safe_integer (oi_unitSubtotalMinor item) \<or> \<not> safe_integer tax \<or> \<not> safe_integer all \<or>
           oi_unitSubtotalMinor item < 0 \<or> tax < 0 \<or> oi_unitSubtotalMinor item + tax \<noteq> all
        then Inl permanentReconciliationFailure
        else Inr (AList.update (oi_id item) (oi_unitSubtotalMinor item, tax) m)
    | _ \<Rightarrow> Inl permanentReconciliationFailure) =
   (if valid_order_item item
    then Inr (AList.update (oi_id item) (oi_unitSubtotalMinor item, the (oi_taxMinor item)) m)
    else Inl permanentReconciliationFailure)"
  by (auto simp: valid_order_item_def split: option.splits)

lemma initial_from:
  "rfold (\<lambda>item m. if valid_order_item item
      then Inr (AList.update (oi_id item) (oi_unitSubtotalMinor item, the (oi_taxMinor item)) m)
      else Inl permanentReconciliationFailure) items m = Inr m' \<longleftrightarrow>
   (\<forall>item \<in> set items. valid_order_item item) \<and>
   m' = fold (\<lambda>item. AList.update (oi_id item) (oi_unitSubtotalMinor item, the (oi_taxMinor item)))
     items m"
  by (induction items arbitrary: m) auto

lemma initial_lookup:
  "map_of (fold (\<lambda>item. AList.update (oi_id item) (oi_unitSubtotalMinor item, the (oi_taxMinor item)))
     items m) k =
   (case index_by oi_id items k of None \<Rightarrow> map_of m k
    | Some item \<Rightarrow> Some (oi_unitSubtotalMinor item, the (oi_taxMinor item)))"
  by (induction items arbitrary: m) (auto simp: index_by_Cons update_conv' split: option.splits)

lemma initial_remaining_Inr:
  "initial_remaining items = Inr m \<longleftrightarrow>
     (\<forall>item \<in> set items. valid_order_item item) \<and>
     m = fold (\<lambda>item. AList.update (oi_id item) (oi_unitSubtotalMinor item, the (oi_taxMinor item)))
       items []"
  unfolding initial_remaining_def initial_step by (rule initial_from)

lemma initial_remaining_after:
  assumes "initial_remaining items = Inr m"
  shows "remaining_after items (\<lambda>_. 0) (\<lambda>_. 0) m"
  using assms index_by_SomeD [of oi_id items]
  by (force simp: initial_remaining_Inr remaining_after_def initial_lookup valid_order_item_def
      split: option.splits)

text \<open>One attribution to item \<open>k\<close>.\<close>

lemma remaining_after_update:
  assumes "remaining_after items f g m" and "map_of m k = Some (s, t)"
    and "0 \<le> x" "x \<le> s" "0 \<le> y" "y \<le> t"
  shows "remaining_after items (f(k := f k + x)) (g(k := g k + y)) (AList.update k (s - x, t - y) m)"
  using assms by (auto simp: remaining_after_def update_conv' split: option.splits if_splits)

lemma remaining_after_nonneg:
  assumes "remaining_after items f g m" and "map_of m k = Some (s, t)"
  shows "0 \<le> s \<and> 0 \<le> t \<and> (\<exists>item. index_by oi_id items k = Some item \<and>
    s = oi_unitSubtotalMinor item - f k \<and> t = the (oi_taxMinor item) - g k)"
proof -
  from assms obtain item where "index_by oi_id items k = Some item"
    "s = oi_unitSubtotalMinor item - f k" "t = the (oi_taxMinor item) - g k"
    by (fastforce simp: remaining_after_def split: option.splits)
  with assms(1) show ?thesis by (auto simp: remaining_after_def)
qed

text \<open>What existing components and new writes take of an item.\<close>

definition component_of_allocation ::
  "refund_components_input \<Rightarrow> refund_allocation_row \<Rightarrow> refund_allocation_component_row" where
  "component_of_allocation input a =
     the (index_by rk_refundAllocationId (rx_existingComponents input) (ra_id a))"

definition existing_taken ::
  "(refund_allocation_component_row \<Rightarrow> int) \<Rightarrow> refund_components_input \<Rightarrow>
   refund_allocation_row list \<Rightarrow> string \<Rightarrow> int" where
  "existing_taken f input as k =
     sum_list (map (\<lambda>a. f (component_of_allocation input a)) (filter (\<lambda>a. ra_orderItemId a = k) as))"

definition newly_taken ::
  "(refund_component_write \<Rightarrow> int) \<Rightarrow> (refund_component_allocation \<times> refund_component_write) list \<Rightarrow>
   string \<Rightarrow> int" where
  "newly_taken f planned k = sum_list (map (f \<circ> snd) (filter (\<lambda>p. rw_orderItemId (snd p) = k) planned))"

lemma existing_taken_simps [simp]:
  "existing_taken f input [] k = 0"
  "existing_taken f input (a # as) k =
     (if ra_orderItemId a = k then f (component_of_allocation input a) else 0) +
     existing_taken f input as k"
  by (simp_all add: existing_taken_def)

lemma newly_taken_simps [simp]:
  "newly_taken f [] k = 0"
  "newly_taken f (p # ps) k = (if rw_orderItemId (snd p) = k then f (snd p) else 0) + newly_taken f ps k"
  by (simp_all add: newly_taken_def)

lemma components_by_allocation_from:
  "rfold (\<lambda>c m. if map_of m (rk_refundAllocationId c) \<noteq> None then Inl permanentReconciliationFailure
      else Inr (AList.update (rk_refundAllocationId c) c m)) cs m = Inr m' \<Longrightarrow>
   map_of m' k = (case index_by rk_refundAllocationId cs k of None \<Rightarrow> map_of m k | Some c \<Rightarrow> Some c)"
  by (induction cs arbitrary: m)
    (auto simp: rbind_eq_Inr index_by_Cons update_conv' split: option.splits if_splits)

lemma components_by_allocation_Inr:
  "components_by_allocation cs = Inr m \<Longrightarrow> map_of m k = index_by rk_refundAllocationId cs k"
  using components_by_allocation_from [of cs "[]" m k]
  by (simp add: components_by_allocation_def split: option.splits)

section \<open>The two loops\<close>

definition recorded_allocation :: "refund_components_input \<Rightarrow> refund_allocation_row \<Rightarrow> bool" where
  "recorded_allocation input a \<longleftrightarrow> (\<exists>c item refund.
     index_by rk_refundAllocationId (rx_existingComponents input) (ra_id a) = Some c \<and>
     index_by oi_id (rx_items input) (ra_orderItemId a) = Some item \<and>
     index_by rf_id (rx_refunds input) (ra_refundId a) = Some refund \<and>
     rk_refundId c = ra_refundId a \<and> rk_orderItemId c = ra_orderItemId a \<and>
     rk_currency c = oi_currency item \<and> rk_currency c = rf_currency refund \<and>
     rk_totalMinor c = ra_amountMinor a \<and> rk_subtotalMinor c + rk_taxMinor c = rk_totalMinor c \<and>
     0 \<le> rk_subtotalMinor c \<and> 0 \<le> rk_taxMinor c)"

lemma take_existing_Inr:
  assumes "take_existing input byA a r = Inr r'" and "remaining_after (rx_items input) f g r"
    and "\<And>k. map_of byA k = index_by rk_refundAllocationId (rx_existingComponents input) k"
  shows "recorded_allocation input a"
    "remaining_after (rx_items input)
       (f(ra_orderItemId a := f (ra_orderItemId a) + rk_subtotalMinor (component_of_allocation input a)))
       (g(ra_orderItemId a := g (ra_orderItemId a) + rk_taxMinor (component_of_allocation input a))) r'"
  using assms(1,3) remaining_after_update [OF assms(2)]
  by (auto simp: take_existing_def recorded_allocation_def component_of_allocation_def
      split: option.splits if_splits)

lemma take_existing_all:
  assumes "rfold (take_existing input byA) as r = Inr r'" and "remaining_after (rx_items input) f g r"
    and byA: "\<And>k. map_of byA k = index_by rk_refundAllocationId (rx_existingComponents input) k"
  shows "(\<forall>a \<in> set as. recorded_allocation input a) \<and>
    remaining_after (rx_items input) (\<lambda>k. f k + existing_taken rk_subtotalMinor input as k)
      (\<lambda>k. g k + existing_taken rk_taxMinor input as k) r'"
  using assms(1,2)
proof (induction as arbitrary: r f g)
  case (Cons a as)
  then obtain r1 where r1: "take_existing input byA a r = Inr r1"
    "rfold (take_existing input byA) as r1 = Inr r'" by (auto simp: rbind_eq_Inr)
  note step = take_existing_Inr [OF r1(1) Cons.prems(2) byA]
  have "(\<lambda>k. (f(ra_orderItemId a := f (ra_orderItemId a) + x)) k + h k) =
      (\<lambda>k. f k + ((if ra_orderItemId a = k then x else 0) + h k))" for f h :: "string \<Rightarrow> int" and x
    by auto
  then show ?case using step(1) Cons.IH [OF r1(2) step(2)] by simp
qed simp

definition write_of ::
  "refund_components_input \<Rightarrow> refund_component_allocation \<Rightarrow> refund_component_write \<Rightarrow> bool" where
  "write_of input a w \<longleftrightarrow> (\<exists>item refund.
     index_by oi_id (rx_items input) (rn_orderItemId a) = Some item \<and>
     index_by rf_id (rx_refunds input) (rn_refundId a) = Some refund \<and>
     rf_status refund = Refund_succeeded \<and> rf_currency refund = rw_currency w \<and>
     rw_refundId w = rn_refundId a \<and> rw_orderItemId w = rn_orderItemId a \<and>
     rw_currency w = oi_currency item \<and> rw_totalMinor w = rn_amountMinor a \<and>
     rw_subtotalMinor w + rw_taxMinor w = rw_totalMinor w \<and> 1 \<le> rw_totalMinor w \<and>
     0 \<le> rw_subtotalMinor w \<and> 0 \<le> rw_taxMinor w \<and> rw_createdAt w = rx_createdAt input)"

lemma plan_allocations_Inr:
  assumes "plan_allocations input seen r xs = Inr planned" and "remaining_after (rx_items input) f g r"
  shows "map fst planned = xs \<and> (\<forall>(a, w) \<in> set planned. write_of input a w) \<and>
    distinct (map (\<lambda>a. (rn_refundId a, rn_orderItemId a)) xs) \<and>
    (\<forall>k item. index_by oi_id (rx_items input) k = Some item \<longrightarrow>
      f k + newly_taken rw_subtotalMinor planned k \<le> oi_unitSubtotalMinor item \<and>
      g k + newly_taken rw_taxMinor planned k \<le> the (oi_taxMinor item)) \<and>
    (\<lambda>a. (rn_refundId a, rn_orderItemId a)) ` set xs \<inter> seen = {}"
  using assms
proof (induction xs arbitrary: seen r planned f g)
  case Nil
  then show ?case by (auto simp: remaining_after_def)
next
  case (Cons a xs)
  let ?k = "rn_orderItemId a" and ?key = "(rn_refundId a, rn_orderItemId a)"
  from Cons.prems(1) obtain item refund s t x y rest where
    look: "index_by oi_id (rx_items input) ?k = Some item"
      "index_by rf_id (rx_refunds input) (rn_refundId a) = Some refund" "map_of r ?k = Some (s, t)"
    and ok: "?key \<notin> seen" "rf_status refund = Refund_succeeded" "rf_currency refund = oi_currency item"
      "safe_integer (rn_amountMinor a)" "1 \<le> rn_amountMinor a"
    and sp: "split_component (oi_id item) (rn_amountMinor a) s t = Inr (x, y)"
    and run: "plan_allocations input (insert ?key seen) (AList.update ?k (s - x, t - y) r) xs = Inr rest"
    and planned: "planned = (a, \<lparr>rw_refundId = rn_refundId a, rw_orderItemId = ?k,
        rw_subtotalMinor = x, rw_taxMinor = y, rw_totalMinor = rn_amountMinor a,
        rw_currency = oi_currency item, rw_createdAt = rx_createdAt input\<rparr>) # rest"
    by (auto simp: Let_def rbind_eq_Inr split: option.splits if_splits)
  have st: "0 \<le> s" "0 \<le> t" using remaining_after_nonneg [OF Cons.prems(2) look(3)] by auto
  have xy: "0 \<le> x" "x \<le> s" "0 \<le> y" "y \<le> t" "x + y = rn_amountMinor a"
    using split_component_Inr [OF sp st] ok(5) by auto
  note IH = Cons.IH [OF run remaining_after_update [OF Cons.prems(2) look(3) xy(1-4)]]
  have wr: "write_of input a (snd (hd planned))"
    using look ok xy by (simp add: write_of_def planned)
  have fresh: "?key \<notin> (\<lambda>a. (rn_refundId a, rn_orderItemId a)) ` set xs" using IH by auto
  have bounds: "f k + newly_taken rw_subtotalMinor planned k \<le> oi_unitSubtotalMinor item' \<and>
      g k + newly_taken rw_taxMinor planned k \<le> the (oi_taxMinor item')"
    if "index_by oi_id (rx_items input) k = Some item'" for k item'
  proof -
    from IH that have "(f(?k := f ?k + x)) k + newly_taken rw_subtotalMinor rest k \<le> oi_unitSubtotalMinor item'"
      "(g(?k := g ?k + y)) k + newly_taken rw_taxMinor rest k \<le> the (oi_taxMinor item')" by blast+
    then show ?thesis by (auto simp: planned split: if_splits)
  qed
  show ?case using IH wr fresh bounds ok(1) by (auto simp: planned)
qed

section \<open>When the planner succeeds\<close>

definition newly_allocated :: "refund_component_allocation list \<Rightarrow> string \<Rightarrow> int" where
  "newly_allocated xs k = sum_list (map rn_amountMinor (filter (\<lambda>a. rn_orderItemId a = k) xs))"

definition allocatable :: "refund_components_input \<Rightarrow> refund_component_allocation \<Rightarrow> bool" where
  "allocatable input a \<longleftrightarrow> (\<exists>item refund.
     index_by oi_id (rx_items input) (rn_orderItemId a) = Some item \<and>
     index_by rf_id (rx_refunds input) (rn_refundId a) = Some refund \<and>
     rf_status refund = Refund_succeeded \<and> rf_currency refund = oi_currency item \<and>
     safe_integer (rn_amountMinor a) \<and> 1 \<le> rn_amountMinor a)"

lemma newly_allocated_simps [simp]:
  "newly_allocated [] k = 0"
  "newly_allocated (a # xs) k = (if rn_orderItemId a = k then rn_amountMinor a else 0) + newly_allocated xs k"
  by (simp_all add: newly_allocated_def)

lemma newly_allocated_mset: "mset xs = mset ys \<Longrightarrow> newly_allocated xs = newly_allocated ys"
  unfolding newly_allocated_def by (intro ext, simp flip: sum_mset_sum_list)

lemma newly_allocated_nonneg: "\<forall>a \<in> set xs. 0 \<le> rn_amountMinor a \<Longrightarrow> 0 \<le> newly_allocated xs k"
  by (induction xs) auto

lemma newly_taken_amounts:
  "\<forall>(a, w) \<in> set planned. write_of input a w \<Longrightarrow>
     newly_taken rw_subtotalMinor planned k + newly_taken rw_taxMinor planned k =
     newly_allocated (map fst planned) k"
  by (induction planned) (auto simp: write_of_def split_beta)

lemma recorded_component:
  assumes "recorded_allocation input a"
  shows "0 \<le> rk_subtotalMinor (component_of_allocation input a)"
    "0 \<le> rk_taxMinor (component_of_allocation input a)"
  using assms by (auto simp: recorded_allocation_def component_of_allocation_def)

lemma existing_taken_nonneg:
  "\<forall>a \<in> set as. recorded_allocation input a \<Longrightarrow>
     0 \<le> existing_taken rk_subtotalMinor input as k \<and> 0 \<le> existing_taken rk_taxMinor input as k"
  by (induction as) (simp_all add: recorded_component)

lemma take_existing_succeeds:
  assumes "\<forall>a \<in> set as. recorded_allocation input a" and "remaining_after (rx_items input) f g r"
    and byA: "\<And>k. map_of byA k = index_by rk_refundAllocationId (rx_existingComponents input) k"
    and "\<And>k item. index_by oi_id (rx_items input) k = Some item \<Longrightarrow>
      f k + existing_taken rk_subtotalMinor input as k \<le> oi_unitSubtotalMinor item \<and>
      g k + existing_taken rk_taxMinor input as k \<le> the (oi_taxMinor item)"
  shows "\<exists>r'. rfold (take_existing input byA) as r = Inr r'"
  using assms(1,2,4)
proof (induction as arbitrary: r f g)
  case (Cons a as)
  let ?k = "ra_orderItemId a"
  from Cons.prems(1) obtain c item refund where rec:
    "index_by rk_refundAllocationId (rx_existingComponents input) (ra_id a) = Some c"
    "index_by oi_id (rx_items input) ?k = Some item"
    "index_by rf_id (rx_refunds input) (ra_refundId a) = Some refund"
    "rk_refundId c = ra_refundId a" "rk_orderItemId c = ra_orderItemId a"
    "rk_currency c = oi_currency item" "rk_currency c = rf_currency refund"
    "rk_totalMinor c = ra_amountMinor a" "rk_subtotalMinor c + rk_taxMinor c = rk_totalMinor c"
    "0 \<le> rk_subtotalMinor c" "0 \<le> rk_taxMinor c"
    by (auto simp: recorded_allocation_def)
  then have c: "component_of_allocation input a = c" by (simp add: component_of_allocation_def)
  have look: "map_of r ?k = Some (oi_unitSubtotalMinor item - f ?k, the (oi_taxMinor item) - g ?k)"
    using Cons.prems(2) rec(2) by (simp add: remaining_after_def)
  have nn: "0 \<le> existing_taken rk_subtotalMinor input as ?k"
    "0 \<le> existing_taken rk_taxMinor input as ?k"
    using existing_taken_nonneg [of as input ?k] Cons.prems(1) by auto
  have fit: "rk_subtotalMinor c \<le> oi_unitSubtotalMinor item - f ?k"
    "rk_taxMinor c \<le> the (oi_taxMinor item) - g ?k"
    using Cons.prems(3) [OF rec(2)] nn c by auto
  obtain r1 where r1: "take_existing input byA a r = Inr r1"
    using rec look fit byA by (auto simp: take_existing_def)
  have "\<exists>r'. rfold (take_existing input byA) as r1 = Inr r'"
    using Cons.IH [OF _ take_existing_Inr(2) [OF r1 Cons.prems(2) byA]] Cons.prems(1,3)
    by (fastforce simp: c add.assoc)
  then show ?case using r1 by simp
qed simp

lemma plan_allocations_succeeds:
  assumes "\<forall>a \<in> set xs. allocatable input a"
    and "distinct (map (\<lambda>a. (rn_refundId a, rn_orderItemId a)) xs)"
    and "(\<lambda>a. (rn_refundId a, rn_orderItemId a)) ` set xs \<inter> seen = {}"
    and "remaining_after (rx_items input) f g r"
    and "\<And>k item. index_by oi_id (rx_items input) k = Some item \<Longrightarrow>
      f k + g k + newly_allocated xs k \<le> oi_unitSubtotalMinor item + the (oi_taxMinor item)"
  shows "\<exists>planned. plan_allocations input seen r xs = Inr planned"
  using assms
proof (induction xs arbitrary: seen r f g)
  case (Cons a xs)
  let ?k = "rn_orderItemId a" and ?key = "(rn_refundId a, rn_orderItemId a)"
  from Cons.prems(1) obtain item refund where al:
    "index_by oi_id (rx_items input) ?k = Some item"
    "index_by rf_id (rx_refunds input) (rn_refundId a) = Some refund"
    "rf_status refund = Refund_succeeded" "rf_currency refund = oi_currency item"
    "safe_integer (rn_amountMinor a)" "1 \<le> rn_amountMinor a"
    by (auto simp: allocatable_def)
  let ?s = "oi_unitSubtotalMinor item - f ?k" and ?t = "the (oi_taxMinor item) - g ?k"
  have look: "map_of r ?k = Some (?s, ?t)"
    using Cons.prems(4) al(1) by (simp add: remaining_after_def)
  have st: "0 \<le> ?s" "0 \<le> ?t" using remaining_after_nonneg [OF Cons.prems(4) look] by auto
  have "\<forall>a \<in> set xs. 0 \<le> rn_amountMinor a" using Cons.prems(1) by (auto simp: allocatable_def)
  then have "rn_amountMinor a \<le> ?s + ?t"
    using Cons.prems(5) [OF al(1)] newly_allocated_nonneg [of xs ?k] by simp
  then obtain x y where sp: "split_component (oi_id item) (rn_amountMinor a) ?s ?t = Inr (x, y)"
    and xy: "0 \<le> x" "x \<le> ?s" "0 \<le> y" "y \<le> ?t" "x + y = rn_amountMinor a"
    using split_component_succeeds [OF st, of "rn_amountMinor a" "oi_id item"] al(6) by auto
  have "\<exists>planned. plan_allocations input (insert ?key seen)
      (AList.update ?k (?s - x, ?t - y) r) xs = Inr planned"
  proof (rule Cons.IH [OF _ _ _ remaining_after_update [OF Cons.prems(4) look xy(1-4)]])
    show "(f(?k := f ?k + x)) k + (g(?k := g ?k + y)) k + newly_allocated xs k \<le>
        oi_unitSubtotalMinor item' + the (oi_taxMinor item')"
      if "index_by oi_id (rx_items input) k = Some item'" for k item'
      using Cons.prems(5) [OF that] xy(5) by auto
  qed (use Cons.prems(1-3) in auto)
  then show ?case using al look sp Cons.prems(3) by (auto simp: Let_def)
qed simp

lemma components_by_allocation_succeeds:
  "(\<exists>m. components_by_allocation cs = Inr m \<and> length m = length cs) \<longleftrightarrow>
     distinct (map rk_refundAllocationId cs)"
  "components_by_allocation cs = Inr m \<Longrightarrow>
     length m = length cs \<and> distinct (map rk_refundAllocationId cs)"
proof -
  let ?step = "\<lambda>c m. if map_of m (rk_refundAllocationId c) \<noteq> None then Inl permanentReconciliationFailure
      else Inr (AList.update (rk_refundAllocationId c) c m)"
  have upd: "AList.update k v m = m @ [(k, v)]" if "map_of m k = None"
    for k and v :: refund_allocation_component_row and m
    using that by (induction m) (auto split: if_splits)
  have gen: "rfold ?step cs m = (if distinct (map fst m @ map rk_refundAllocationId cs)
      then Inr (m @ map (\<lambda>c. (rk_refundAllocationId c, c)) cs)
      else Inl permanentReconciliationFailure)" if "distinct (map fst m)" for m
    using that
  proof (induction cs arbitrary: m)
    case (Cons c cs)
    show ?case
    proof (cases "map_of m (rk_refundAllocationId c)")
      case None
      then have "rk_refundAllocationId c \<notin> set (map fst m)" by (simp add: map_of_eq_None_iff)
      with None Cons.prems Cons.IH [of "m @ [(rk_refundAllocationId c, c)]"] show ?thesis
        by (auto simp: upd)
    next
      case (Some v)
      then have "rk_refundAllocationId c \<in> set (map fst m)"
        by (metis map_of_eq_None_iff option.distinct(1) set_map)
      with Some show ?thesis by auto
    qed
  qed simp
  from gen [of "[]"] show
    "(\<exists>m. components_by_allocation cs = Inr m \<and> length m = length cs) \<longleftrightarrow>
       distinct (map rk_refundAllocationId cs)"
    "components_by_allocation cs = Inr m \<Longrightarrow>
       length m = length cs \<and> distinct (map rk_refundAllocationId cs)"
    by (auto simp: components_by_allocation_def split: if_splits)
qed

text \<open>Exactly what an input must satisfy to be planned.\<close>

definition plannable :: "refund_components_input \<Rightarrow> bool" where
  "plannable input \<longleftrightarrow>
     (\<forall>item \<in> set (rx_items input). valid_order_item item) \<and>
     distinct (map rk_refundAllocationId (rx_existingComponents input)) \<and>
     length (rx_existingComponents input) = length (rx_existingAllocations input) \<and>
     (\<forall>a \<in> set (rx_existingAllocations input). recorded_allocation input a) \<and>
     (\<forall>a \<in> set (rx_newAllocations input). allocatable input a) \<and>
     distinct (map (\<lambda>a. (rn_refundId a, rn_orderItemId a)) (rx_newAllocations input)) \<and>
     (\<forall>k item. index_by oi_id (rx_items input) k = Some item \<longrightarrow>
        existing_taken rk_subtotalMinor input (rx_existingAllocations input) k
          \<le> oi_unitSubtotalMinor item \<and>
        existing_taken rk_taxMinor input (rx_existingAllocations input) k
          \<le> the (oi_taxMinor item) \<and>
        existing_taken rk_subtotalMinor input (rx_existingAllocations input) k +
        existing_taken rk_taxMinor input (rx_existingAllocations input) k +
        newly_allocated (rx_newAllocations input) k
          \<le> oi_unitSubtotalMinor item + the (oi_taxMinor item))"

lemma plan_components_Inr:
  assumes "planRefundAllocationComponents input = Inr planned"
  defines "f \<equiv> existing_taken rk_subtotalMinor input (rx_existingAllocations input)"
    and "g \<equiv> existing_taken rk_taxMinor input (rx_existingAllocations input)"
  obtains r sorted byA where "\<forall>item \<in> set (rx_items input). valid_order_item item"
    and "components_by_allocation (rx_existingComponents input) = Inr byA"
    and "length byA = length (rx_existingAllocations input)"
    and "\<forall>a \<in> set (rx_existingAllocations input). recorded_allocation input a"
    and "sort_allocations (index_by rf_id (rx_refunds input)) (rx_newAllocations input) = Inr sorted"
    and "remaining_after (rx_items input) f g r"
    and "plan_allocations input {} r sorted = Inr planned"
proof -
  from assms(1) obtain initial byA r sorted where
    i: "initial_remaining (rx_items input) = Inr initial"
    and b: "components_by_allocation (rx_existingComponents input) = Inr byA"
    and l: "length byA = length (rx_existingAllocations input)"
    and t: "rfold (take_existing input byA) (rx_existingAllocations input) initial = Inr r"
    and so: "sort_allocations (index_by rf_id (rx_refunds input)) (rx_newAllocations input) = Inr sorted"
    and p: "plan_allocations input {} r sorted = Inr planned"
    by (auto simp: planRefundAllocationComponents_def rbind_eq_Inr split: if_splits)
  note take = take_existing_all [OF t initial_remaining_after [OF i] components_by_allocation_Inr [OF b]]
  show ?thesis
    by (rule that [OF _ b l _ so _ p]) (use i take in \<open>auto simp: initial_remaining_Inr f_def g_def\<close>)
qed

lemma sort_allocations_Inr:
  assumes "sort_allocations look xs = Inr ys"
  shows "mset ys = mset xs"
  using assms by (auto simp: sort_allocations_def split: if_splits)

lemma write_of_allocatable:
  assumes "plan_allocations input seen r xs = Inr planned" and "a \<in> set xs"
  shows "allocatable input a"
  using assms
  by (induction xs arbitrary: seen r planned)
    (auto simp: allocatable_def Let_def rbind_eq_Inr split: option.splits if_splits)

lemma plan_components_plannable:
  assumes "planRefundAllocationComponents input = Inr planned"
  shows "plannable input"
proof (rule plan_components_Inr [OF assms])
  fix r sorted byA
  let ?f = "existing_taken rk_subtotalMinor input (rx_existingAllocations input)"
  let ?g = "existing_taken rk_taxMinor input (rx_existingAllocations input)"
  assume h: "\<forall>item \<in> set (rx_items input). valid_order_item item"
    "components_by_allocation (rx_existingComponents input) = Inr byA"
    "length byA = length (rx_existingAllocations input)"
    "\<forall>a \<in> set (rx_existingAllocations input). recorded_allocation input a"
    "sort_allocations (index_by rf_id (rx_refunds input)) (rx_newAllocations input) = Inr sorted"
    "remaining_after (rx_items input) ?f ?g r"
    "plan_allocations input {} r sorted = Inr planned"
  note p = plan_allocations_Inr [OF h(7,6)]
  have m: "mset sorted = mset (rx_newAllocations input)" by (rule sort_allocations_Inr [OF h(5)])
  have dist: "distinct (map (\<lambda>a. (rn_refundId a, rn_orderItemId a)) (rx_newAllocations input))"
    using p m by (metis mset_map mset_eq_imp_distinct_iff)
  have al: "\<forall>a \<in> set (rx_newAllocations input). allocatable input a"
    using write_of_allocatable [OF h(7)] m by (metis set_mset_mset)
  have sum_eq: "newly_allocated (rx_newAllocations input) k =
      newly_taken rw_subtotalMinor planned k + newly_taken rw_taxMinor planned k" for k
    using newly_taken_amounts [of planned input k] p newly_allocated_mset [OF m] by simp
  have bounds: "?f k \<le> oi_unitSubtotalMinor item \<and> ?g k \<le> the (oi_taxMinor item) \<and>
      ?f k + ?g k + newly_allocated (rx_newAllocations input) k
        \<le> oi_unitSubtotalMinor item + the (oi_taxMinor item)"
    if look: "index_by oi_id (rx_items input) k = Some item" for k item
  proof -
    from p look have "?f k + newly_taken rw_subtotalMinor planned k \<le> oi_unitSubtotalMinor item"
      "?g k + newly_taken rw_taxMinor planned k \<le> the (oi_taxMinor item)" by blast+
    moreover from h(6) look have "?f k \<le> oi_unitSubtotalMinor item" "?g k \<le> the (oi_taxMinor item)"
      by (auto simp: remaining_after_def)
    ultimately show ?thesis by (simp add: sum_eq)
  qed
  show ?thesis
    unfolding plannable_def
    using h(1,3,4) components_by_allocation_succeeds(2) [OF h(2)] dist al bounds by auto
qed

lemma plannable_succeeds:
  assumes "plannable input"
  shows "\<exists>planned. planRefundAllocationComponents input = Inr planned"
proof -
  let ?f = "existing_taken rk_subtotalMinor input (rx_existingAllocations input)"
  let ?g = "existing_taken rk_taxMinor input (rx_existingAllocations input)"
  let ?cmp = "compare_allocations (index_by rf_id (rx_refunds input))"
  let ?sorted = "js_sort ?cmp (rx_newAllocations input)"
  note p = assms [unfolded plannable_def]
  obtain initial where i: "initial_remaining (rx_items input) = Inr initial"
    using p by (auto simp: initial_remaining_Inr)
  obtain byA where b: "components_by_allocation (rx_existingComponents input) = Inr byA"
    "length byA = length (rx_existingAllocations input)"
    using p components_by_allocation_succeeds(1) [of "rx_existingComponents input"] by auto
  note look = components_by_allocation_Inr [OF b(1)]
  obtain r where t: "rfold (take_existing input byA) (rx_existingAllocations input) initial = Inr r"
    using take_existing_succeeds [OF _ initial_remaining_after [OF i] look,
        of "rx_existingAllocations input"] p by auto
  have after: "remaining_after (rx_items input) ?f ?g r"
    using take_existing_all [OF t initial_remaining_after [OF i] look] by simp
  have "\<forall>a \<in> set (rx_newAllocations input). index_by rf_id (rx_refunds input) (rn_refundId a) \<noteq> None"
    using p by (auto simp: allocatable_def)
  then have so: "sort_allocations (index_by rf_id (rx_refunds input)) (rx_newAllocations input) = Inr ?sorted"
    by (auto simp: sort_allocations_def)
  have m: "mset ?sorted = mset (rx_newAllocations input)" by simp
  have "\<exists>planned. plan_allocations input {} r ?sorted = Inr planned"
    by (rule plan_allocations_succeeds [OF _ _ _ after])
      (use p newly_allocated_mset [OF m] in auto)
  then show ?thesis using i b t so by (auto simp: planRefundAllocationComponents_def)
qed

section \<open>Order of the new allocations\<close>

interpretation allocation_order: js_comparator "compare_allocations look" for look
  by unfold_locales
    (auto simp: compare_allocations_def Let_def compare_text_le_iff split: if_splits)

lemma compare_allocations_same:
  assumes "compare_allocations look x y \<le> 0" and "compare_allocations look y x \<le> 0"
  shows "rn_refundId x = rn_refundId y \<and> rn_orderItemId x = rn_orderItemId y"
  using assms
  by (auto simp: compare_allocations_def Let_def compare_text_le_iff split: if_splits)

lemma plannable_reorder:
  assumes "mset xs = mset (rx_newAllocations input)"
  shows "plannable (input\<lparr>rx_newAllocations := xs\<rparr>) = plannable input"
proof -
  have "set xs = set (rx_newAllocations input)" using assms by (metis set_mset_mset)
  moreover have "distinct (map (\<lambda>a. (rn_refundId a, rn_orderItemId a)) xs) =
      distinct (map (\<lambda>a. (rn_refundId a, rn_orderItemId a)) (rx_newAllocations input))"
    using assms by (metis mset_map mset_eq_imp_distinct_iff)
  ultimately show ?thesis
    using newly_allocated_mset [OF assms]
    by (simp add: plannable_def recorded_allocation_def allocatable_def existing_taken_def
        component_of_allocation_def)
qed

lemma plan_allocations_input:
  "plan_allocations (input\<lparr>rx_newAllocations := ys\<rparr>) seen r xs = plan_allocations input seen r xs"
  by (induction xs arbitrary: seen r) (auto simp: Let_def split: option.splits)

text \<open>There is only one error.\<close>

lemma rfold_error:
  "rfold f xs s = Inl e \<Longrightarrow> (\<And>x s e. f x s = Inl e \<Longrightarrow> e = E) \<Longrightarrow> e = E"
  by (induction xs arbitrary: s) (auto simp: rbind_eq_Inl)

lemma split_component_error: "split_component k a s t = Inl e \<Longrightarrow> e = Permanent_commerce"
  by (auto simp: split_component_def Let_def permanentReconciliationFailure_def split: if_splits)

lemma plan_allocations_error: "plan_allocations input seen r xs = Inl e \<Longrightarrow> e = Permanent_commerce"
  by (induction xs arbitrary: seen r)
    (auto simp: Let_def rbind_eq_Inl permanentReconciliationFailure_def
      split: option.splits if_splits dest: split_component_error)

lemma take_existing_error: "take_existing input m a r = Inl e \<Longrightarrow> e = Permanent_commerce"
  by (auto simp: take_existing_def permanentReconciliationFailure_def split: option.splits if_splits)

lemma initial_remaining_error: "initial_remaining items = Inl e \<Longrightarrow> e = Permanent_commerce"
  unfolding initial_remaining_def initial_step
  by (erule rfold_error) (auto simp: permanentReconciliationFailure_def split: if_splits)

lemma components_by_allocation_error: "components_by_allocation cs = Inl e \<Longrightarrow> e = Permanent_commerce"
  unfolding components_by_allocation_def
  by (erule rfold_error) (auto simp: permanentReconciliationFailure_def split: if_splits)

lemma planner_error:
  assumes "planRefundAllocationComponents input = Inl e"
  shows "e = Permanent_commerce"
proof -
  from assms consider "initial_remaining (rx_items input) = Inl e"
    | "components_by_allocation (rx_existingComponents input) = Inl e"
    | "e = permanentReconciliationFailure"
    | r byA where "rfold (take_existing input byA) (rx_existingAllocations input) r = Inl e"
    | r sorted where "plan_allocations input {} r sorted = Inl e"
    unfolding planRefundAllocationComponents_def sort_allocations_def rbind_throw_if rbind_eq_Inl
    by (auto simp: rbind_eq_Inl split: if_splits)
  then show ?thesis
  proof cases
    case 1 then show ?thesis by (rule initial_remaining_error)
  next
    case 2 then show ?thesis by (rule components_by_allocation_error)
  next
    case 3 then show ?thesis by (simp add: permanentReconciliationFailure_def)
  next
    case 4 then show ?thesis by (rule rfold_error) (rule take_existing_error)
  next
    case 5 then show ?thesis by (rule plan_allocations_error)
  qed
qed

lemma planner_reorder:
  assumes m: "mset xs = mset (rx_newAllocations input)" and p: "plannable input"
  shows "planRefundAllocationComponents (input\<lparr>rx_newAllocations := xs\<rparr>) =
    planRefundAllocationComponents input"
proof -
  let ?look = "index_by rf_id (rx_refunds input)" and ?ys = "rx_newAllocations input"
  have sets: "set xs = set ?ys" using m by (metis set_mset_mset)
  have inj: "inj_on (\<lambda>a. (rn_refundId a, rn_orderItemId a)) (set ?ys)"
    using p by (simp add: plannable_def distinct_map)
  have "js_sort (compare_allocations ?look) xs = js_sort (compare_allocations ?look) ?ys"
  proof (rule allocation_order.js_sort_mset_cong [OF m])
    fix x y
    assume "x \<in> set xs" "y \<in> set xs"
      and c: "compare_allocations ?look x y \<le> 0" "compare_allocations ?look y x \<le> 0"
    then have "x \<in> set ?ys" "y \<in> set ?ys" by (simp_all add: sets)
    from inj_onD [OF inj _ this] compare_allocations_same [OF c] show "x = y" by blast
  qed
  moreover have "length xs = length ?ys" using m by (rule mset_eq_length)
  ultimately have so: "sort_allocations ?look xs = sort_allocations ?look ?ys"
    by (simp add: sort_allocations_def sets)
  have "take_existing (input\<lparr>rx_newAllocations := xs\<rparr>) = take_existing input"
    by (intro ext) (simp add: take_existing_def)
  then show ?thesis by (simp add: planRefundAllocationComponents_def so plan_allocations_input)
qed

section \<open>Sample input\<close>

definition sample_components :: refund_components_input where
  "sample_components = \<lparr>
     rx_items = [
       \<lparr>oi_id = ''i1'', oi_titleId = ''t1'', oi_currency = ''USD'', oi_unitSubtotalMinor = 1000,
        oi_taxMinor = Some 77, oi_totalMinor = Some 1077\<rparr>,
       \<lparr>oi_id = ''i2'', oi_titleId = ''t2'', oi_currency = ''USD'', oi_unitSubtotalMinor = 500,
        oi_taxMinor = Some 0, oi_totalMinor = Some 500\<rparr>],
     rx_refunds = [
       \<lparr>rf_id = ''r1'', rf_stripeRefundId = ''re_1'', rf_status = Refund_succeeded,
        rf_currency = ''USD'', rf_providerCreatedAt = 100\<rparr>,
       \<lparr>rf_id = ''r2'', rf_stripeRefundId = ''re_2'', rf_status = Refund_succeeded,
        rf_currency = ''USD'', rf_providerCreatedAt = 200\<rparr>],
     rx_existingAllocations = [
       \<lparr>ra_id = ''a1'', ra_refundId = ''r1'', ra_orderItemId = ''i1'', ra_amountMinor = 100\<rparr>],
     rx_existingComponents = [
       \<lparr>rk_refundAllocationId = ''a1'', rk_refundId = ''r1'', rk_orderItemId = ''i1'',
        rk_subtotalMinor = 93, rk_taxMinor = 7, rk_totalMinor = 100, rk_currency = ''USD''\<rparr>],
     rx_newAllocations = [
       \<lparr>rn_refundId = ''r2'', rn_orderItemId = ''i2'', rn_amountMinor = 500\<rparr>,
       \<lparr>rn_refundId = ''r2'', rn_orderItemId = ''i1'', rn_amountMinor = 977\<rparr>],
     rx_createdAt = 300\<rparr>"

lemma sample_components_planned:
  "\<exists>planned. planRefundAllocationComponents sample_components = Inr planned \<and>
     map (rw_subtotalMinor \<circ> snd) planned = [907, 500]"
proof -
  have "(case planRefundAllocationComponents sample_components of Inl _ \<Rightarrow> False
    | Inr planned \<Rightarrow> map (rw_subtotalMinor \<circ> snd) planned = [907, 500])" by code_simp
  then show ?thesis by (cases "planRefundAllocationComponents sample_components") auto
qed

section \<open>Properties\<close>

text \<open>
  Planned refund components split exactly what was allocated and never exceed the order item:
  there is one component for each new allocation, whose subtotal and tax are non-negative and add
  up to the allocated amount in the currency of item and refund; and what earlier and new
  components take of an item stays within its subtotal and within its tax.
\<close>

theorem refund_components_within_item:
  assumes "planRefundAllocationComponents input = Inr planned"
  shows "mset (map fst planned) = mset (rx_newAllocations input) \<and>
    (\<forall>(a, w) \<in> set planned. write_of input a w) \<and>
    (\<forall>k item. index_by oi_id (rx_items input) k = Some item \<longrightarrow>
      existing_taken rk_subtotalMinor input (rx_existingAllocations input) k +
        newly_taken rw_subtotalMinor planned k \<le> oi_unitSubtotalMinor item \<and>
      existing_taken rk_taxMinor input (rx_existingAllocations input) k +
        newly_taken rw_taxMinor planned k \<le> the (oi_taxMinor item))"
proof (rule plan_components_Inr [OF assms])
  fix r sorted byA
  assume "sort_allocations (index_by rf_id (rx_refunds input)) (rx_newAllocations input) = Inr sorted"
    and after: "remaining_after (rx_items input)
      (existing_taken rk_subtotalMinor input (rx_existingAllocations input))
      (existing_taken rk_taxMinor input (rx_existingAllocations input)) r"
    and run: "plan_allocations input {} r sorted = Inr planned"
  then have "mset sorted = mset (rx_newAllocations input)" by (simp add: sort_allocations_Inr)
  with plan_allocations_Inr [OF run after] show ?thesis by simp
qed

theorem refund_components_within_item_witness:
  "\<exists>planned. planRefundAllocationComponents sample_components = Inr planned \<and>
     mset (map fst planned) = mset (rx_newAllocations sample_components)"
  using sample_components_planned refund_components_within_item [of sample_components] by blast

text \<open>
  The planner accepts exactly the inputs that fit: it returns a plan if and only if the items
  are valid, every existing allocation has its own consistent component, every new allocation names
  a known item and a succeeded refund of the same currency with a positive amount, no pair of
  refund and item occurs twice, and for every item the existing components and the new amounts fit
  in what was paid. None of its internal arithmetic checks can reject an input on its own.
\<close>

theorem refund_components_iff_plannable:
  "(\<exists>planned. planRefundAllocationComponents input = Inr planned) \<longleftrightarrow> plannable input"
  using plan_components_plannable plannable_succeeds by blast

text \<open>
  The plan does not depend on the order in which the new allocations are supplied: permuting
  them neither changes the components, nor their order, nor whether the call fails.
\<close>

theorem refund_components_order_independent:
  assumes "mset xs = mset (rx_newAllocations input)"
  shows "planRefundAllocationComponents (input\<lparr>rx_newAllocations := xs\<rparr>) =
    planRefundAllocationComponents input"
proof (cases "plannable input")
  case True
  with assms show ?thesis by (rule planner_reorder)
next
  case False
  with plan_components_plannable plannable_reorder [OF assms] planner_error show ?thesis
    by (metis sum.exhaust)
qed

theorem refund_components_order_independent_witness:
  "planRefundAllocationComponents (sample_components\<lparr>rx_newAllocations :=
      rev (rx_newAllocations sample_components)\<rparr>) = planRefundAllocationComponents sample_components"
  by (rule refund_components_order_independent) simp

text \<open>
  The split of one allocation into subtotal and tax is the general signed largest-remainder
  allocation over the two remaining amounts, with the tie keys of the item; an empty part gets no
  share.
\<close>

theorem refund_split_is_largest_remainder:
  assumes "split_component k a s t = Inr (x, y)" and "0 \<le> s" "0 \<le> t" "0 < a"
    and "safe_integer a" "safe_integer s" "safe_integer t"
  shows "allocateSignedLargestRemainder a
      [\<lparr>lw_tieKey = k @ '':subtotal'', lw_weightMinor = s\<rparr>,
       \<lparr>lw_tieKey = k @ '':tax'', lw_weightMinor = t\<rparr>] =
    Inr ((if 0 < s then [\<lparr>ls_tieKey = k @ '':subtotal'', ls_amountMinor = x\<rparr>] else []) @
         (if 0 < t then [\<lparr>ls_tieKey = k @ '':tax'', ls_amountMinor = y\<rparr>] else []))"
  by (rule split_component_largest_remainder [OF assms])

theorem refund_split_is_largest_remainder_witness:
  "allocateSignedLargestRemainder 501
      [\<lparr>lw_tieKey = ''i:subtotal'', lw_weightMinor = 999\<rparr>,
       \<lparr>lw_tieKey = ''i:tax'', lw_weightMinor = 3\<rparr>] =
    Inr [\<lparr>ls_tieKey = ''i:subtotal'', ls_amountMinor = 500\<rparr>,
         \<lparr>ls_tieKey = ''i:tax'', ls_amountMinor = 1\<rparr>]"
proof -
  have "split_component ''i'' 501 999 3 = Inr (500, 1)" by code_simp
  from refund_split_is_largest_remainder [OF this] show ?thesis by (simp add: safe_integer_def)
qed

end
