(* ===== verification/RefundAllocation.thy ===== *)
theory RefundAllocation
  imports CommerceTypes
begin

text \<open>
  The allocation of \<^verbatim>\<open>commerce/refunds.ts\<close>: \<^verbatim>\<open>allocateDeterministicRefunds\<close> attributes the
  succeeded refunds of a payment to its order items when that is possible without a decision of an
  administrator. Every \<^verbatim>\<open>return exception()\<close> of the validation is \<open>Inl ()\<close>. The collation of
  \<^verbatim>\<open>localeCompare\<close> is an argument; the tests for arrays and finite dates hold by typing.
\<close>

record allocation_item_fact =
  ia_orderItemId :: string
  ia_totalMinor :: int
  ia_currency :: string

record allocation_refund_fact =
  fa_refundId :: string
  fa_providerRefundId :: string
  fa_status :: refund_status
  fa_amountMinor :: int
  fa_currency :: string
  fa_providerCreatedAt :: int

record refund_allocation =
  na_refundId :: string
  na_orderItemId :: string
  na_amountMinor :: int

record allocation_facts =
  xa_items :: "allocation_item_fact list"
  xa_refunds :: "allocation_refund_fact list"
  xa_existingAllocations :: "refund_allocation list"

datatype allocation_result =
    Allocated "refund_allocation list" | Noop | Needs_review | Exception

type_synonym 'a checked = "unit + 'a"

definition compareRefundChronology ::
  "int \<Rightarrow> string \<Rightarrow> string \<Rightarrow> int \<Rightarrow> string \<Rightarrow> string \<Rightarrow> int" where
  "compareRefundChronology leftCreatedAt leftProviderId leftInternalId
     rightCreatedAt rightProviderId rightInternalId =
     (let byTime = leftCreatedAt - rightCreatedAt;
          byProvider = compare_text leftProviderId rightProviderId in
      if byTime \<noteq> 0 then byTime else if byProvider \<noteq> 0 then byProvider
      else compare_text leftInternalId rightInternalId)"

definition compareRefunds :: "allocation_refund_fact \<Rightarrow> allocation_refund_fact \<Rightarrow> int" where
  "compareRefunds left right =
     compareRefundChronology
       (fa_providerCreatedAt left) (fa_providerRefundId left) (fa_refundId left)
       (fa_providerCreatedAt right) (fa_providerRefundId right) (fa_refundId right)"

fun safeMoneyTotal_from :: "int \<Rightarrow> int list \<Rightarrow> int option" where
  "safeMoneyTotal_from sofar [] = Some sofar"
| "safeMoneyTotal_from sofar (v # vs) =
     (if \<not> safe_integer (sofar + v) then None else safeMoneyTotal_from (sofar + v) vs)"

definition safeMoneyTotal :: "int list \<Rightarrow> int option" where
  "safeMoneyTotal values = safeMoneyTotal_from 0 values"

section \<open>Validation\<close>

definition check_item :: "string \<Rightarrow> allocation_item_fact \<Rightarrow> string set \<Rightarrow> string set checked" where
  "check_item currency item itemIds =
     (if ia_orderItemId item = [] \<or> ia_orderItemId item \<in> itemIds \<or>
         \<not> safe_integer (ia_totalMinor item) \<or> ia_totalMinor item < 1 \<or>
         \<not> currency_code (ia_currency item) \<or> ia_currency item \<noteq> currency
      then Inl () else Inr (insert (ia_orderItemId item) itemIds))"

definition check_items :: "allocation_item_fact list \<Rightarrow> string set checked" where
  "check_items items = rfold (check_item (ia_currency (hd items))) items {}"

type_synonym refund_lookup = "string set \<times> string set \<times> (string \<times> allocation_refund_fact) list"

fun check_refund :: "string \<Rightarrow> allocation_refund_fact \<Rightarrow> refund_lookup \<Rightarrow> refund_lookup checked" where
  "check_refund currency refund (refundIds, providerRefundIds, refundsById) =
     (if fa_refundId refund = [] \<or> fa_providerRefundId refund = [] \<or>
         fa_refundId refund \<in> refundIds \<or> fa_providerRefundId refund \<in> providerRefundIds \<or>
         \<not> safe_integer (fa_amountMinor refund) \<or> fa_amountMinor refund < 1 \<or>
         fa_currency refund \<noteq> currency
      then Inl ()
      else Inr (insert (fa_refundId refund) refundIds,
        insert (fa_providerRefundId refund) providerRefundIds,
        AList.update (fa_refundId refund) refund refundsById))"

definition check_refunds :: "string \<Rightarrow> allocation_refund_fact list \<Rightarrow> refund_lookup checked" where
  "check_refunds currency refunds = rfold (check_refund currency) refunds ({}, {}, [])"

definition amount_or_zero :: "('k \<times> int) list \<Rightarrow> 'k \<Rightarrow> int" where
  "amount_or_zero m k = (case map_of m k of None \<Rightarrow> 0 | Some v \<Rightarrow> v)"

text \<open>The key of an allocation joins the two ids by a NUL character.\<close>

definition allocation_key :: "refund_allocation \<Rightarrow> string" where
  "allocation_key a = na_refundId a @ CHR 0x00 # na_orderItemId a"

type_synonym allocated_totals = "string set \<times> (string \<times> int) list \<times> (string \<times> int) list"

fun check_allocation ::
  "string set \<Rightarrow> (string \<times> allocation_refund_fact) list \<Rightarrow> refund_allocation \<Rightarrow> allocated_totals \<Rightarrow>
   allocated_totals checked" where
  "check_allocation itemIds refundsById allocation (keys, byRefund, byItem) =
     (let refundTotal = amount_or_zero byRefund (na_refundId allocation) + na_amountMinor allocation;
          itemTotal = amount_or_zero byItem (na_orderItemId allocation) + na_amountMinor allocation in
      if (case map_of refundsById (na_refundId allocation) of
            None \<Rightarrow> True | Some refund \<Rightarrow> fa_status refund \<noteq> Refund_succeeded) \<or>
         na_orderItemId allocation \<notin> itemIds \<or> allocation_key allocation \<in> keys \<or>
         \<not> safe_integer (na_amountMinor allocation) \<or> na_amountMinor allocation < 1
      then Inl ()
      else if \<not> safe_integer refundTotal \<or> \<not> safe_integer itemTotal then Inl ()
      else Inr (insert (allocation_key allocation) keys,
        AList.update (na_refundId allocation) refundTotal byRefund,
        AList.update (na_orderItemId allocation) itemTotal byItem))"

definition check_existing ::
  "string set \<Rightarrow> (string \<times> allocation_refund_fact) list \<Rightarrow> refund_allocation list \<Rightarrow>
   allocated_totals checked" where
  "check_existing itemIds refundsById existing =
     rfold (check_allocation itemIds refundsById) existing ({}, [], [])"

section \<open>Allocation\<close>

text \<open>Filling one refund from the items in order, as far as each item has something left.\<close>

fun fill_refund ::
  "string \<Rightarrow> string list \<Rightarrow> int \<Rightarrow> (string \<times> int) list \<Rightarrow>
   refund_allocation list \<times> int \<times> (string \<times> int) list" where
  "fill_refund refundId [] refundRemaining remainingByItem = ([], refundRemaining, remainingByItem)"
| "fill_refund refundId (item # items) refundRemaining remainingByItem =
     (let itemRemaining = amount_or_zero remainingByItem item;
          amountMinor = min refundRemaining itemRemaining in
      if amountMinor = 0 then fill_refund refundId items refundRemaining remainingByItem
      else
        let (rest, left, m) = fill_refund refundId items (refundRemaining - amountMinor)
              (AList.update item (itemRemaining - amountMinor) remainingByItem)
        in (\<lparr>na_refundId = refundId, na_orderItemId = item, na_amountMinor = amountMinor\<rparr> # rest,
            left, m))"

fun fill_refunds ::
  "string list \<Rightarrow> (string \<times> int) list \<Rightarrow> allocation_refund_fact list \<Rightarrow> (string \<times> int) list \<Rightarrow>
   (refund_allocation list \<times> (string \<times> int) list) checked" where
  "fill_refunds items remainingByRefund [] remainingByItem = Inr ([], remainingByItem)"
| "fill_refunds items remainingByRefund (refund # refunds) remainingByItem =
     (let (allocations, left, m) = fill_refund (fa_refundId refund) items
            (amount_or_zero remainingByRefund (fa_refundId refund)) remainingByItem in
      if left \<noteq> 0 then Inl ()
      else rbind (fill_refunds items remainingByRefund refunds m) (\<lambda>(rest, m').
        Inr (allocations @ rest, m')))"

definition allocate_single ::
  "allocation_item_fact \<Rightarrow> allocation_refund_fact list \<Rightarrow> (string \<times> int) list \<Rightarrow> allocation_result" where
  "allocate_single target succeeded allocatedByRefund =
     (let allocations = concat (map (\<lambda>refund.
           let amountMinor = fa_amountMinor refund - amount_or_zero allocatedByRefund (fa_refundId refund) in
           if amountMinor = 0 then []
           else [\<lparr>na_refundId = fa_refundId refund, na_orderItemId = ia_orderItemId target,
                  na_amountMinor = amountMinor\<rparr>]) succeeded)
      in if allocations = [] then Noop else Allocated allocations)"

definition allocate_several ::
  "allocation_item_fact list \<Rightarrow> allocation_refund_fact list \<Rightarrow> (string \<times> int) list \<Rightarrow>
   (string \<times> int) list \<Rightarrow> allocation_result" where
  "allocate_several items succeeded allocatedByRefund allocatedByItem =
     (let remainingByItem = map (\<lambda>item. (ia_orderItemId item,
            ia_totalMinor item - amount_or_zero allocatedByItem (ia_orderItemId item))) items;
          remainingByRefund = map (\<lambda>refund. (fa_refundId refund,
            fa_amountMinor refund - amount_or_zero allocatedByRefund (fa_refundId refund))) succeeded;
          remainingRefunds = filter (\<lambda>refund.
            amount_or_zero remainingByRefund (fa_refundId refund) > 0) succeeded in
      if remainingRefunds = [] then Noop
      else case (safeMoneyTotal (map snd remainingByItem), safeMoneyTotal (map snd remainingByRefund)) of
        (Some remainingItemTotal, Some remainingRefundTotal) \<Rightarrow>
          if remainingRefundTotal \<noteq> remainingItemTotal
          then (if remainingRefundTotal < remainingItemTotal then Needs_review else Exception)
          else
            (case fill_refunds (map ia_orderItemId items) remainingByRefund remainingRefunds
                remainingByItem of
               Inl _ \<Rightarrow> Exception
             | Inr (allocations, left) \<Rightarrow>
                 if \<exists>(k, v) \<in> set left. v \<noteq> 0 then Exception else Allocated allocations)
      | _ \<Rightarrow> Exception)"

text \<open>The totals both paths share.\<close>

definition check_totals ::
  "allocation_item_fact list \<Rightarrow> allocation_refund_fact list \<Rightarrow> (string \<times> int) list \<Rightarrow>
   (string \<times> int) list \<Rightarrow> unit checked" where
  "check_totals items succeeded allocatedByRefund allocatedByItem =
     (case (safeMoneyTotal (map ia_totalMinor items), safeMoneyTotal (map fa_amountMinor succeeded)) of
        (Some itemTotal, Some refundedTotal) \<Rightarrow>
          if refundedTotal > itemTotal then Inl ()
          else if \<exists>refund \<in> set succeeded.
              amount_or_zero allocatedByRefund (fa_refundId refund) > fa_amountMinor refund
          then Inl ()
          else if \<exists>item \<in> set items.
              amount_or_zero allocatedByItem (ia_orderItemId item) > ia_totalMinor item
          then Inl () else Inr ()
      | _ \<Rightarrow> Inl ())"

definition allocation_checks ::
  "(string \<Rightarrow> string \<Rightarrow> int) \<Rightarrow> allocation_facts \<Rightarrow>
   (allocation_item_fact list \<times> allocation_refund_fact list \<times> (string \<times> int) list \<times>
    (string \<times> int) list) checked" where
  "allocation_checks localeCompare facts =
     (if xa_items facts = [] then Inl ()
      else
        let items = js_sort (\<lambda>l r. localeCompare (ia_orderItemId l) (ia_orderItemId r)) (xa_items facts) in
        rbind (check_items items) (\<lambda>itemIds.
        rbind (check_refunds (ia_currency (hd items)) (xa_refunds facts)) (\<lambda>(_, _, refundsById).
        rbind (check_existing itemIds refundsById (xa_existingAllocations facts))
          (\<lambda>(_, byRefund, byItem).
        let succeeded = js_sort compareRefunds
              (filter (\<lambda>refund. fa_status refund = Refund_succeeded) (xa_refunds facts)) in
        rbind (check_totals items succeeded byRefund byItem) (\<lambda>_.
        Inr (items, succeeded, byRefund, byItem))))))"

definition allocateDeterministicRefunds ::
  "(string \<Rightarrow> string \<Rightarrow> int) \<Rightarrow> allocation_facts \<Rightarrow> allocation_result" where
  "allocateDeterministicRefunds localeCompare facts =
     (case allocation_checks localeCompare facts of
        Inl _ \<Rightarrow> Exception
      | Inr (items, succeeded, byRefund, byItem) \<Rightarrow>
          if length items = 1 then allocate_single (hd items) succeeded byRefund
          else allocate_several items succeeded byRefund byItem)"

section \<open>Sums\<close>

definition allocated_sum :: "(refund_allocation \<Rightarrow> string) \<Rightarrow> refund_allocation list \<Rightarrow> string \<Rightarrow> int" where
  "allocated_sum key xs k = sum_list (map na_amountMinor (filter (\<lambda>a. key a = k) xs))"

lemma allocated_sum_simps [simp]:
  "allocated_sum key [] k = 0"
  "allocated_sum key (a # xs) k = (if key a = k then na_amountMinor a else 0) + allocated_sum key xs k"
  "allocated_sum key (xs @ ys) k = allocated_sum key xs k + allocated_sum key ys k"
  by (simp_all add: allocated_sum_def)

lemma allocated_sum_nonneg: "\<forall>a \<in> set xs. 0 \<le> na_amountMinor a \<Longrightarrow> 0 \<le> allocated_sum key xs k"
  by (induction xs) auto

text \<open>Grouping by a key that only takes values of a list without duplicates loses nothing.\<close>

lemma allocated_sum_groups:
  "distinct ks \<Longrightarrow> key ` set xs \<subseteq> set ks \<Longrightarrow>
     sum_list (map (allocated_sum key xs) ks) = sum_list (map na_amountMinor xs)"
proof (induction xs)
  case Nil
  then show ?case by (induction ks) simp_all
next
  case (Cons a xs)
  have "sum_list (map (\<lambda>k. if key a = k then na_amountMinor a else 0) ks) = na_amountMinor a"
    using Cons.prems by (simp add: sum_list_distinct_conv_sum_set sum.delta)
  with Cons show ?case by (simp add: sum_list_addf)
qed

lemma amount_or_zero_Nil [simp]: "amount_or_zero [] k = 0"
  by (simp add: amount_or_zero_def)

lemma amount_or_zero_update [simp]:
  "amount_or_zero (AList.update k v m) k' = (if k' = k then v else amount_or_zero m k')"
  by (simp add: amount_or_zero_def update_conv')

lemma amount_or_zero_map:
  assumes "distinct (map f xs)" and "x \<in> set xs"
  shows "amount_or_zero (map (\<lambda>x. (f x, g x)) xs) (f x) = g x"
proof -
  have "map_of (map (\<lambda>x. (f x, g x)) xs) (f x) = Some (g x)"
    using assms by (intro map_of_is_SomeI) (auto simp: comp_def)
  then show ?thesis by (simp add: amount_or_zero_def)
qed

lemma safeMoneyTotal_from_Some:
  "safeMoneyTotal_from t vs = Some s \<Longrightarrow> s = t + sum_list vs \<and> (safe_integer t \<longrightarrow> safe_integer s)"
proof (induction vs arbitrary: t)
  case (Cons v vs)
  from Cons.prems have "safe_integer (t + v)" "safeMoneyTotal_from (t + v) vs = Some s"
    by (simp_all split: if_splits)
  with Cons.IH [of "t + v"] show ?case by auto
qed simp

lemma safeMoneyTotal_Some: "safeMoneyTotal vs = Some s \<Longrightarrow> s = sum_list vs \<and> safe_integer s"
  using safeMoneyTotal_from_Some [of 0 vs s] by (auto simp: safeMoneyTotal_def)

lemma safeMoneyTotal_from_total:
  "\<forall>v \<in> set vs. 0 \<le> v \<Longrightarrow> 0 \<le> t \<Longrightarrow> safe_integer (t + sum_list vs) \<Longrightarrow>
     safeMoneyTotal_from t vs = Some (t + sum_list vs)"
proof (induction vs arbitrary: t)
  case (Cons v vs)
  have v: "0 \<le> v" and nn: "0 \<le> sum_list vs"
    using Cons.prems(1) by (simp_all add: sum_list_nonneg)
  have "safe_integer (t + v)"
    using Cons.prems(2,3) v nn by (simp add: safe_integer_def)
  moreover have "safeMoneyTotal_from (t + v) vs = Some (t + v + sum_list vs)"
    by (rule Cons.IH) (use Cons.prems v in \<open>simp_all add: add.assoc\<close>)
  ultimately show ?case by (simp add: add.assoc)
qed simp

lemma safeMoneyTotal_total:
  "\<forall>v \<in> set vs. 0 \<le> v \<Longrightarrow> safe_integer (sum_list vs) \<Longrightarrow> safeMoneyTotal vs = Some (sum_list vs)"
  using safeMoneyTotal_from_total [of vs 0] by (simp add: safeMoneyTotal_def)

section \<open>What validation establishes\<close>

definition item_ok :: "string \<Rightarrow> allocation_item_fact \<Rightarrow> bool" where
  "item_ok currency item \<longleftrightarrow> ia_orderItemId item \<noteq> [] \<and> 1 \<le> ia_totalMinor item \<and>
     safe_integer (ia_totalMinor item) \<and> currency_code (ia_currency item) \<and> ia_currency item = currency"

definition refund_ok :: "string \<Rightarrow> allocation_refund_fact \<Rightarrow> bool" where
  "refund_ok currency refund \<longleftrightarrow> fa_refundId refund \<noteq> [] \<and> fa_providerRefundId refund \<noteq> [] \<and>
     1 \<le> fa_amountMinor refund \<and> safe_integer (fa_amountMinor refund) \<and> fa_currency refund = currency"

lemma check_item_Inr:
  "check_item currency item ids = Inr ids' \<longleftrightarrow>
     item_ok currency item \<and> ia_orderItemId item \<notin> ids \<and> ids' = insert (ia_orderItemId item) ids"
  by (auto simp: check_item_def item_ok_def not_less)

lemma check_refund_Inr:
  "check_refund currency refund (ids, pids, m) = Inr s \<longleftrightarrow>
     refund_ok currency refund \<and> fa_refundId refund \<notin> ids \<and> fa_providerRefundId refund \<notin> pids \<and>
     s = (insert (fa_refundId refund) ids, insert (fa_providerRefundId refund) pids,
          AList.update (fa_refundId refund) refund m)"
  by (auto simp: refund_ok_def not_less)

lemma check_items_from:
  "rfold (check_item currency) items ids = Inr ids' \<longleftrightarrow>
     list_all (item_ok currency) items \<and> distinct (map ia_orderItemId items) \<and>
     ia_orderItemId ` set items \<inter> ids = {} \<and> ids' = ids \<union> ia_orderItemId ` set items"
proof (induction items arbitrary: ids)
  case (Cons item items)
  have "rfold (check_item currency) (item # items) ids = Inr ids' \<longleftrightarrow>
      item_ok currency item \<and> ia_orderItemId item \<notin> ids \<and>
      rfold (check_item currency) items (insert (ia_orderItemId item) ids) = Inr ids'"
    by (auto simp: rbind_eq_Inr check_item_Inr)
  then show ?case unfolding Cons.IH by auto
qed auto

lemma check_items_Inr:
  "check_items items = Inr ids \<longleftrightarrow> list_all (item_ok (ia_currency (hd items))) items \<and>
     distinct (map ia_orderItemId items) \<and> ids = ia_orderItemId ` set items"
  unfolding check_items_def check_items_from by auto

lemma check_refunds_from:
  "rfold (check_refund currency) refunds (ids, pids, m) = Inr (ids', pids', m') \<Longrightarrow>
     list_all (refund_ok currency) refunds \<and> distinct (map fa_refundId refunds) \<and>
     distinct (map fa_providerRefundId refunds) \<and>
     fa_refundId ` set refunds \<inter> ids = {} \<and> fa_providerRefundId ` set refunds \<inter> pids = {} \<and>
     map_of m' = map_of m ++ index_by fa_refundId refunds"
proof (induction refunds arbitrary: ids pids m)
  case (Cons r refunds)
  from Cons.prems have r: "refund_ok currency r" "fa_refundId r \<notin> ids" "fa_providerRefundId r \<notin> pids"
    and rest: "rfold (check_refund currency) refunds (insert (fa_refundId r) ids,
      insert (fa_providerRefundId r) pids, AList.update (fa_refundId r) r m) = Inr (ids', pids', m')"
    by (auto simp: rbind_eq_Inr check_refund_Inr simp del: check_refund.simps)
  have "map_of (AList.update (fa_refundId r) r m) ++ index_by fa_refundId refunds =
      map_of m ++ index_by fa_refundId (r # refunds)"
    by (auto simp: fun_eq_iff update_conv' map_add_def index_by_Cons split: option.splits)
  with Cons.IH [OF rest] r show ?case by auto
qed (auto simp: fun_eq_iff map_add_def)

lemma check_refunds_Inr:
  assumes "check_refunds currency refunds = Inr (ids, pids, m)"
  shows "list_all (refund_ok currency) refunds" "distinct (map fa_refundId refunds)"
    "distinct (map fa_providerRefundId refunds)" "map_of m = index_by fa_refundId refunds"
  using check_refunds_from [of currency refunds "{}" "{}" "[]" ids pids m] assms
  by (auto simp: check_refunds_def fun_eq_iff map_add_def split: option.splits)

definition allocation_ok ::
  "string set \<Rightarrow> (string \<Rightarrow> allocation_refund_fact option) \<Rightarrow> refund_allocation \<Rightarrow> bool" where
  "allocation_ok itemIds byId a \<longleftrightarrow> na_orderItemId a \<in> itemIds \<and> 1 \<le> na_amountMinor a \<and>
     (case byId (na_refundId a) of None \<Rightarrow> False | Some refund \<Rightarrow> fa_status refund = Refund_succeeded)"

lemma check_allocation_Inr:
  assumes "check_allocation itemIds byId a (K, R, I) = Inr s"
  shows "allocation_ok itemIds (map_of byId) a \<and> allocation_key a \<notin> K \<and>
    s = (insert (allocation_key a) K,
      AList.update (na_refundId a) (amount_or_zero R (na_refundId a) + na_amountMinor a) R,
      AList.update (na_orderItemId a) (amount_or_zero I (na_orderItemId a) + na_amountMinor a) I)"
  using assms by (simp add: Let_def allocation_ok_def split: if_splits option.splits)

lemma check_existing_from:
  "rfold (check_allocation itemIds byId) xs (K, R, I) = Inr (K', R', I') \<Longrightarrow>
     list_all (allocation_ok itemIds (map_of byId)) xs \<and> distinct (map allocation_key xs) \<and>
     allocation_key ` set xs \<inter> K = {} \<and>
     (\<forall>k. amount_or_zero R' k = amount_or_zero R k + allocated_sum na_refundId xs k) \<and>
     (\<forall>k. amount_or_zero I' k = amount_or_zero I k + allocated_sum na_orderItemId xs k)"
proof (induction xs arbitrary: K R I)
  case (Cons a xs)
  from Cons.prems obtain s where s: "check_allocation itemIds byId a (K, R, I) = Inr s"
    and rest: "rfold (check_allocation itemIds byId) xs s = Inr (K', R', I')"
    by (auto simp only: rfold.simps rbind_eq_Inr)
  note a = check_allocation_Inr [OF s]
  show ?case using Cons.IH [OF rest [unfolded a [THEN conjunct2, THEN conjunct2]]] a by auto
qed simp

lemma check_existing_Inr:
  assumes "check_existing itemIds byId xs = Inr (K, R, I)"
  shows "list_all (allocation_ok itemIds (map_of byId)) xs" "distinct (map allocation_key xs)"
    "amount_or_zero R = allocated_sum na_refundId xs"
    "amount_or_zero I = allocated_sum na_orderItemId xs"
  using check_existing_from [of itemIds byId xs "{}" "[]" "[]" K R I] assms
  by (auto simp: check_existing_def fun_eq_iff)

section \<open>The greedy allocation\<close>

definition amounts :: "refund_allocation list \<Rightarrow> int" where
  "amounts xs = sum_list (map na_amountMinor xs)"

lemma amounts_simps [simp]:
  "amounts [] = 0" "amounts (a # xs) = na_amountMinor a + amounts xs"
  "amounts (xs @ ys) = amounts xs + amounts ys"
  by (simp_all add: amounts_def)

lemma amounts_nonneg: "\<forall>a \<in> set xs. 1 \<le> na_amountMinor a \<Longrightarrow> 0 \<le> amounts xs"
  by (induction xs) auto

text \<open>What one filled refund satisfies.\<close>

definition filled ::
  "string \<Rightarrow> string list \<Rightarrow> int \<Rightarrow> (string \<times> int) list \<Rightarrow> refund_allocation list \<Rightarrow> int \<Rightarrow>
   (string \<times> int) list \<Rightarrow> bool" where
  "filled rid items r m xs left m' \<longleftrightarrow>
     (\<forall>a \<in> set xs. na_refundId a = rid \<and> na_orderItemId a \<in> set items \<and> 1 \<le> na_amountMinor a) \<and>
     distinct (map na_orderItemId xs) \<and>
     (\<forall>k. amount_or_zero m' k = amount_or_zero m k - allocated_sum na_orderItemId xs k) \<and>
     (\<forall>k. 0 \<le> amount_or_zero m' k) \<and>
     left = r - amounts xs \<and> 0 \<le> left \<and> (left = 0 \<or> (\<forall>k \<in> set items. amount_or_zero m' k = 0))"

lemma allocated_sum_other: "k \<notin> key ` set xs \<Longrightarrow> allocated_sum key xs k = 0"
  by (induction xs) auto

lemma fill_refund_filled:
  "fill_refund rid items r m = (xs, left, m') \<Longrightarrow> distinct items \<Longrightarrow> 0 \<le> r \<Longrightarrow>
     \<forall>k. 0 \<le> amount_or_zero m k \<Longrightarrow> filled rid items r m xs left m'"
proof (induction items arbitrary: r m xs)
  case Nil
  then show ?case by (simp add: filled_def)
next
  case (Cons item items)
  define q where "q = min r (amount_or_zero m item)"
  show ?case
  proof (cases "q = 0")
    case True
    then have "fill_refund rid items r m = (xs, left, m')"
      using Cons.prems(1) by (simp add: q_def)
    then have f: "filled rid items r m xs left m'"
      using Cons.prems by (intro Cons.IH) auto
    then have "allocated_sum na_orderItemId xs item = 0"
      using Cons.prems(2) by (intro allocated_sum_other) (auto simp: filled_def)
    moreover have "r = 0 \<or> amount_or_zero m item = 0" using True by (auto simp: q_def min_def split: if_splits)
    moreover have "0 \<le> amounts xs" using f by (intro amounts_nonneg) (simp add: filled_def)
    ultimately show ?thesis using f by (auto simp: filled_def)
  next
    case False
    then have q: "1 \<le> q" "q \<le> r" "q \<le> amount_or_zero m item" "q = r \<or> q = amount_or_zero m item"
      using Cons.prems(3) Cons.prems(4) [rule_format, of item] by (auto simp: q_def min_def split: if_splits)
    obtain ys where ys: "fill_refund rid items (r - q)
        (AList.update item (amount_or_zero m item - q) m) = (ys, left, m')"
      and xs: "xs = \<lparr>na_refundId = rid, na_orderItemId = item, na_amountMinor = q\<rparr> # ys"
      using Cons.prems(1) False by (auto simp: q_def Let_def split: prod.splits)
    have f: "filled rid items (r - q) (AList.update item (amount_or_zero m item - q) m) ys left m'"
      using ys Cons.prems q by (intro Cons.IH) auto
    have item: "allocated_sum na_orderItemId ys item = 0"
      using Cons.prems(2) f by (intro allocated_sum_other) (auto simp: filled_def)
    have "item \<notin> na_orderItemId ` set ys" using Cons.prems(2) f by (auto simp: filled_def)
    moreover have "0 \<le> amounts ys" using f by (intro amounts_nonneg) (simp add: filled_def)
    moreover have "\<forall>k. 0 \<le> amount_or_zero m' k" using f unfolding filled_def by blast
    moreover have "\<forall>k. amount_or_zero m' k = amount_or_zero m k - allocated_sum na_orderItemId xs k"
      using f by (auto simp: filled_def xs)
    moreover have "left = r - amounts xs" "0 \<le> left" using f by (simp_all add: filled_def xs)
    moreover have "left = 0 \<or> (\<forall>k \<in> set (item # items). amount_or_zero m' k = 0)"
      using f q item \<open>0 \<le> amounts ys\<close> by (auto simp: filled_def)
    moreover have "\<forall>a \<in> set ys. na_refundId a = rid \<and> na_orderItemId a \<in> set items \<and> 1 \<le> na_amountMinor a"
      "distinct (map na_orderItemId ys)" using f unfolding filled_def by blast+
    ultimately show ?thesis using q unfolding filled_def
      by (intro conjI) (simp_all add: xs)
  qed
qed

lemma fill_refund_keys:
  "fill_refund rid items r m = (xs, left, m') \<Longrightarrow> distinct (map fst m) \<Longrightarrow>
     distinct (map fst m') \<and> fst ` set m' \<subseteq> fst ` set m \<union> set items"
proof (induction items arbitrary: r m xs)
  case (Cons item items)
  show ?case
  proof (cases "min r (amount_or_zero m item) = 0")
    case True
    with Cons.prems Cons.IH [of r m xs] show ?thesis by auto
  next
    case False
    let ?q = "min r (amount_or_zero m item)" let ?m = "AList.update item (amount_or_zero m item - ?q) m"
    obtain ys where "fill_refund rid items (r - ?q) ?m = (ys, left, m')"
      using Cons.prems(1) False by (auto simp: Let_def split: prod.splits)
    then have "distinct (map fst m') \<and> fst ` set m' \<subseteq> fst ` set ?m \<union> set items"
      using Cons.prems(2) by (intro Cons.IH) (auto intro: distinct_update)
    moreover have "fst ` set ?m = insert item (fst ` set m)" by (simp add: dom_update)
    ultimately show ?thesis by auto
  qed
qed simp

text \<open>What a run over the refunds that still have something to allocate satisfies.\<close>

definition all_filled ::
  "string list \<Rightarrow> (string \<times> int) list \<Rightarrow> string list \<Rightarrow> (string \<times> int) list \<Rightarrow> refund_allocation list \<Rightarrow>
   (string \<times> int) list \<Rightarrow> bool" where
  "all_filled items R rids m xs m' \<longleftrightarrow>
     (\<forall>a \<in> set xs. na_refundId a \<in> set rids \<and> na_orderItemId a \<in> set items \<and> 1 \<le> na_amountMinor a) \<and>
     distinct (map (\<lambda>a. (na_refundId a, na_orderItemId a)) xs) \<and>
     (\<forall>k. amount_or_zero m' k = amount_or_zero m k - allocated_sum na_orderItemId xs k) \<and>
     (\<forall>k. 0 \<le> amount_or_zero m' k) \<and>
     (\<forall>k \<in> set rids. allocated_sum na_refundId xs k = amount_or_zero R k) \<and>
     distinct (map fst m') \<and> fst ` set m' \<subseteq> fst ` set m \<union> set items"

lemma allocated_sum_const: "\<forall>a \<in> set xs. key a = k \<Longrightarrow> allocated_sum key xs k = amounts xs"
  by (induction xs) auto

lemma filled_allocated:
  "filled rid items r m xs 0 m' \<Longrightarrow> allocated_sum na_refundId xs rid = r"
  using allocated_sum_const [of xs na_refundId rid] by (auto simp: filled_def)

lemma all_filled_Cons:
  assumes f: "filled rid items (amount_or_zero R rid) m xs 0 m1"
    and k1: "fst ` set m1 \<subseteq> fst ` set m \<union> set items"
    and g: "all_filled items R rids m1 ys m'" and "rid \<notin> set rids"
  shows "all_filled items R (rid # rids) m (xs @ ys) m'"
proof -
  have xs: "\<forall>a \<in> set xs. na_refundId a = rid \<and> na_orderItemId a \<in> set items \<and> 1 \<le> na_amountMinor a"
    and ys: "\<forall>a \<in> set ys. na_refundId a \<in> set rids \<and> na_orderItemId a \<in> set items \<and> 1 \<le> na_amountMinor a"
    using f g by (auto simp: filled_def all_filled_def)
  have "distinct (map (\<lambda>a. (na_refundId a, na_orderItemId a)) xs)"
    using f by (auto simp: filled_def distinct_map inj_on_def)
  then have "distinct (map (\<lambda>a. (na_refundId a, na_orderItemId a)) (xs @ ys))"
    using g xs ys assms(4) by (fastforce simp: all_filled_def)
  moreover have "allocated_sum na_refundId ys rid = 0"
    using ys assms(4) by (intro allocated_sum_other) auto
  moreover have "allocated_sum na_refundId xs k = 0" if "k \<in> set rids" for k
    using xs assms(4) that by (intro allocated_sum_other) auto
  moreover have "fst ` set m' \<subseteq> fst ` set m \<union> set items"
    using g k1 unfolding all_filled_def by blast
  ultimately show ?thesis
    using f g xs ys filled_allocated [OF f] unfolding all_filled_def filled_def by auto
qed

lemma fill_refunds_filled:
  "distinct items \<Longrightarrow> distinct (map fa_refundId refunds) \<Longrightarrow> distinct (map fst m) \<Longrightarrow>
     \<forall>k. 0 \<le> amount_or_zero m k \<Longrightarrow> \<forall>k. 0 \<le> amount_or_zero R k \<Longrightarrow>
     sum_list (map (\<lambda>r. amount_or_zero R (fa_refundId r)) refunds) \<le>
       sum_list (map (amount_or_zero m) items) \<Longrightarrow>
     \<exists>xs m'. fill_refunds items R refunds m = Inr (xs, m') \<and>
       all_filled items R (map fa_refundId refunds) m xs m'"
proof (induction refunds arbitrary: m)
  case Nil
  then show ?case by (simp add: all_filled_def)
next
  case (Cons r refunds)
  let ?rid = "fa_refundId r" and ?rest = "\<lambda>r. amount_or_zero R (fa_refundId r)"
  obtain xs left m1 where fill: "fill_refund ?rid items (amount_or_zero R ?rid) m = (xs, left, m1)"
    by (cases "fill_refund ?rid items (amount_or_zero R ?rid) m") auto
  have f: "filled ?rid items (amount_or_zero R ?rid) m xs left m1"
    using fill Cons.prems by (intro fill_refund_filled) auto
  have keys: "distinct (map fst m1)" "fst ` set m1 \<subseteq> fst ` set m \<union> set items"
    using fill_refund_keys [OF fill Cons.prems(3)] by auto
  have "sum_list (map (amount_or_zero m1) items) =
      sum_list (map (amount_or_zero m) items) - sum_list (map (allocated_sum na_orderItemId xs) items)"
    using f by (simp add: filled_def sum_list_subtractf [symmetric] cong: map_cong)
  also have "sum_list (map (allocated_sum na_orderItemId xs) items) = amounts xs"
    using f Cons.prems(1) by (subst allocated_sum_groups) (auto simp: filled_def amounts_def)
  finally have sums: "sum_list (map (amount_or_zero m1) items) =
      sum_list (map (amount_or_zero m) items) - amounts xs" .
  have rest: "0 \<le> sum_list (map ?rest refunds)"
    using Cons.prems(5) by (intro sum_list_nonneg) auto
  have left: "left = 0"
  proof (rule ccontr)
    assume "left \<noteq> 0"
    then have "\<forall>k \<in> set items. amount_or_zero m1 k = 0" and "0 < left" and "left = ?rest r - amounts xs"
      using f by (auto simp: filled_def)
    then have "sum_list (map (amount_or_zero m1) items) = 0" by (simp cong: map_cong)
    with sums rest Cons.prems(6) \<open>0 < left\<close> \<open>left = ?rest r - amounts xs\<close> show False by simp
  qed
  have "\<exists>ys m'. fill_refunds items R refunds m1 = Inr (ys, m') \<and>
      all_filled items R (map fa_refundId refunds) m1 ys m'"
  proof (rule Cons.IH)
    show "sum_list (map ?rest refunds) \<le> sum_list (map (amount_or_zero m1) items)"
      using sums f left Cons.prems(6) by (simp add: filled_def)
  qed (use Cons.prems keys f in \<open>auto simp: filled_def\<close>)
  then obtain ys m' where ys: "fill_refunds items R refunds m1 = Inr (ys, m')"
    and g: "all_filled items R (map fa_refundId refunds) m1 ys m'" by blast
  have "all_filled items R (?rid # map fa_refundId refunds) m (xs @ ys) m'"
    using all_filled_Cons [OF f [unfolded left] keys(2) g] Cons.prems(2) by simp
  with fill ys left show ?case by simp
qed

section \<open>Checked facts\<close>

definition succeeded_refunds :: "allocation_facts \<Rightarrow> allocation_refund_fact list" where
  "succeeded_refunds facts = filter (\<lambda>refund. fa_status refund = Refund_succeeded) (xa_refunds facts)"

definition paid_total :: "allocation_facts \<Rightarrow> int" where
  "paid_total facts = sum_list (map ia_totalMinor (xa_items facts))"

definition refunded_total :: "allocation_facts \<Rightarrow> int" where
  "refunded_total facts = sum_list (map fa_amountMinor (succeeded_refunds facts))"

text \<open>What the checks establish, with the totals per refund and per item as functions.\<close>

definition checked_facts ::
  "allocation_facts \<Rightarrow> allocation_item_fact list \<Rightarrow> allocation_refund_fact list \<Rightarrow> bool" where
  "checked_facts facts items succeeded \<longleftrightarrow>
     items \<noteq> [] \<and> mset items = mset (xa_items facts) \<and> mset succeeded = mset (succeeded_refunds facts) \<and>
     distinct (map ia_orderItemId items) \<and> distinct (map fa_refundId succeeded) \<and>
     (\<forall>item \<in> set items. 1 \<le> ia_totalMinor item) \<and> (\<forall>r \<in> set succeeded. 1 \<le> fa_amountMinor r) \<and>
     (\<forall>a \<in> set (xa_existingAllocations facts). 1 \<le> na_amountMinor a \<and>
        na_orderItemId a \<in> ia_orderItemId ` set items \<and> na_refundId a \<in> fa_refundId ` set succeeded) \<and>
     safe_integer (paid_total facts) \<and> refunded_total facts \<le> paid_total facts \<and>
     (\<forall>r \<in> set succeeded.
        allocated_sum na_refundId (xa_existingAllocations facts) (fa_refundId r) \<le> fa_amountMinor r) \<and>
     (\<forall>item \<in> set items.
        allocated_sum na_orderItemId (xa_existingAllocations facts) (ia_orderItemId item) \<le> ia_totalMinor item)"

lemma distinct_map_filterI: "distinct (map f xs) \<Longrightarrow> distinct (map f (filter P xs))"
  by (induction xs) auto

lemma check_totals_Inr:
  assumes "check_totals items succeeded R I = Inr u"
  shows "safe_integer (sum_list (map ia_totalMinor items))"
    "sum_list (map fa_amountMinor succeeded) \<le> sum_list (map ia_totalMinor items)"
    "\<forall>r \<in> set succeeded. amount_or_zero R (fa_refundId r) \<le> fa_amountMinor r"
    "\<forall>item \<in> set items. amount_or_zero I (ia_orderItemId item) \<le> ia_totalMinor item"
  using assms by (auto simp: check_totals_def not_less dest!: safeMoneyTotal_Some
    split: option.splits if_splits)

lemma allocation_checks_checked:
  assumes "allocation_checks lc facts = Inr (items, succeeded, R, I)"
  shows "checked_facts facts items succeeded"
    "amount_or_zero R = allocated_sum na_refundId (xa_existingAllocations facts)"
    "amount_or_zero I = allocated_sum na_orderItemId (xa_existingAllocations facts)"
proof -
  have items: "items = js_sort (\<lambda>l r. lc (ia_orderItemId l) (ia_orderItemId r)) (xa_items facts)"
    and succeeded: "succeeded = js_sort compareRefunds (succeeded_refunds facts)"
    and ne: "xa_items facts \<noteq> []"
    using assms by (auto simp: allocation_checks_def Let_def rbind_eq_Inr succeeded_refunds_def
      split: if_splits)
  obtain ids rids pids m K where ci: "check_items items = Inr ids"
    and cr: "check_refunds (ia_currency (hd items)) (xa_refunds facts) = Inr (rids, pids, m)"
    and ce: "check_existing ids m (xa_existingAllocations facts) = Inr (K, R, I)"
    and ct: "check_totals items succeeded R I = Inr ()"
    using assms unfolding items succeeded
    by (auto simp: allocation_checks_def Let_def rbind_eq_Inr succeeded_refunds_def split: if_splits)
  note e = check_existing_Inr [OF ce] and r = check_refunds_Inr [OF cr] and i = ci [unfolded check_items_Inr]
  note tot = check_totals_Inr [OF ct]
  show "amount_or_zero R = allocated_sum na_refundId (xa_existingAllocations facts)"
    "amount_or_zero I = allocated_sum na_orderItemId (xa_existingAllocations facts)"
    by (fact e)+
  have "items \<noteq> []" using ne length_js_sort [of _ "xa_items facts"] items by (metis length_0_conv)
  moreover have "mset items = mset (xa_items facts)" "mset succeeded = mset (succeeded_refunds facts)"
    by (simp_all add: items succeeded)
  moreover have "distinct (map fa_refundId succeeded)"
    by (simp add: succeeded succeeded_refunds_def r(2) distinct_map_filterI)
  moreover have "\<forall>a \<in> set (xa_existingAllocations facts). 1 \<le> na_amountMinor a \<and>
      na_orderItemId a \<in> ia_orderItemId ` set items \<and> na_refundId a \<in> fa_refundId ` set succeeded"
  proof
    fix a assume a: "a \<in> set (xa_existingAllocations facts)"
    then have ok: "allocation_ok ids (map_of m) a" using e(1) by (simp add: list_all_iff)
    then obtain refund where "index_by fa_refundId (xa_refunds facts) (na_refundId a) = Some refund"
      and st: "fa_status refund = Refund_succeeded"
      by (auto simp: allocation_ok_def r(4) split: option.splits)
    then have "refund \<in> set succeeded" "fa_refundId refund = na_refundId a"
      by (auto dest: index_by_SomeD simp: succeeded succeeded_refunds_def)
    then have "na_refundId a \<in> fa_refundId ` set succeeded" by (metis image_eqI)
    then show "1 \<le> na_amountMinor a \<and>
        na_orderItemId a \<in> ia_orderItemId ` set items \<and> na_refundId a \<in> fa_refundId ` set succeeded"
      using ok i by (simp add: allocation_ok_def)
  qed
  moreover have "paid_total facts = sum_list (map ia_totalMinor items)"
    "refunded_total facts = sum_list (map fa_amountMinor succeeded)"
    by (simp_all add: paid_total_def refunded_total_def items succeeded)
  moreover have "\<forall>r \<in> set succeeded. 1 \<le> fa_amountMinor r"
    using r(1) by (auto simp: succeeded succeeded_refunds_def list_all_iff refund_ok_def)
  moreover have "\<forall>item \<in> set items. 1 \<le> ia_totalMinor item" "distinct (map ia_orderItemId items)"
    using i by (auto simp: list_all_iff item_ok_def)
  ultimately show "checked_facts facts items succeeded"
    using tot e(3,4) unfolding checked_facts_def by simp
qed

text \<open>The existing allocations, counted by item and by refund.\<close>

lemma checked_existing_sums:
  assumes "checked_facts facts items succeeded"
  shows "sum_list (map (\<lambda>i. allocated_sum na_orderItemId (xa_existingAllocations facts) (ia_orderItemId i)) items)
      = amounts (xa_existingAllocations facts)"
    "sum_list (map (\<lambda>r. allocated_sum na_refundId (xa_existingAllocations facts) (fa_refundId r)) succeeded)
      = amounts (xa_existingAllocations facts)"
proof -
  let ?E = "xa_existingAllocations facts"
  have "sum_list (map (allocated_sum na_orderItemId ?E) (map ia_orderItemId items)) = amounts ?E"
    using assms unfolding amounts_def by (intro allocated_sum_groups) (auto simp: checked_facts_def)
  then show "sum_list (map (\<lambda>i. allocated_sum na_orderItemId ?E (ia_orderItemId i)) items) = amounts ?E"
    by (simp add: comp_def)
  have "sum_list (map (allocated_sum na_refundId ?E) (map fa_refundId succeeded)) = amounts ?E"
    using assms unfolding amounts_def by (intro allocated_sum_groups) (auto simp: checked_facts_def)
  then show "sum_list (map (\<lambda>r. allocated_sum na_refundId ?E (fa_refundId r)) succeeded) = amounts ?E"
    by (simp add: comp_def)
qed

section \<open>Both paths\<close>

definition new_allocations_ok :: "allocation_facts \<Rightarrow> refund_allocation list \<Rightarrow> bool" where
  "new_allocations_ok facts new \<longleftrightarrow> new \<noteq> [] \<and>
     (\<forall>a \<in> set new. 1 \<le> na_amountMinor a \<and> na_orderItemId a \<in> ia_orderItemId ` set (xa_items facts) \<and>
        na_refundId a \<in> fa_refundId ` set (succeeded_refunds facts)) \<and>
     distinct (map (\<lambda>a. (na_refundId a, na_orderItemId a)) new) \<and>
     (\<forall>r \<in> set (succeeded_refunds facts).
        allocated_sum na_refundId (xa_existingAllocations facts @ new) (fa_refundId r) = fa_amountMinor r) \<and>
     (\<forall>item \<in> set (xa_items facts).
        allocated_sum na_orderItemId (xa_existingAllocations facts @ new) (ia_orderItemId item)
          \<le> ia_totalMinor item)"

lemma checked_factsD:
  assumes "checked_facts facts items succeeded"
  shows "set items = set (xa_items facts)" "set succeeded = set (succeeded_refunds facts)"
    "sum_list (map ia_totalMinor items) = paid_total facts"
    "sum_list (map fa_amountMinor succeeded) = refunded_total facts"
  using assms by (auto simp: checked_facts_def paid_total_def refunded_total_def sum_mset_sum_list [symmetric]
    dest: mset_eq_setD)

lemma allocated_sum_map_filter:
  "distinct (map fa_refundId xs) \<Longrightarrow> x \<in> set xs \<Longrightarrow>
     allocated_sum na_refundId (map (\<lambda>r. \<lparr>na_refundId = fa_refundId r, na_orderItemId = i, na_amountMinor = g r\<rparr>)
       (filter (\<lambda>r. g r \<noteq> 0) xs)) (fa_refundId x) = g x"
  by (induction xs) (auto intro!: allocated_sum_other)

lemma amounts_map_filter:
  "amounts (map (\<lambda>r. \<lparr>na_refundId = fa_refundId r, na_orderItemId = i, na_amountMinor = g r\<rparr>)
     (filter (\<lambda>r. g r \<noteq> 0) xs)) = sum_list (map g xs)"
  by (induction xs) auto

lemma concat_map_singleton: "concat (map (\<lambda>r. if P r then [] else [f r]) xs) = map f (filter (\<lambda>r. \<not> P r) xs)"
  by (induction xs) auto

text \<open>What is left of a refund.\<close>

definition refund_left :: "allocation_facts \<Rightarrow> allocation_refund_fact \<Rightarrow> int" where
  "refund_left facts r = fa_amountMinor r -
     allocated_sum na_refundId (xa_existingAllocations facts) (fa_refundId r)"

lemma refund_left_sum:
  assumes "checked_facts facts items succeeded"
  shows "sum_list (map (refund_left facts) succeeded) = refunded_total facts - amounts (xa_existingAllocations facts)"
    and "\<forall>r \<in> set succeeded. 0 \<le> refund_left facts r"
    and "(\<forall>r \<in> set succeeded. refund_left facts r = 0) \<longleftrightarrow> refunded_total facts = amounts (xa_existingAllocations facts)"
proof -
  show sum: "sum_list (map (refund_left facts) succeeded) = refunded_total facts - amounts (xa_existingAllocations facts)"
    using checked_factsD(4) [OF assms] checked_existing_sums(2) [OF assms]
    by (simp add: refund_left_def [abs_def] sum_list_subtractf)
  show nn: "\<forall>r \<in> set succeeded. 0 \<le> refund_left facts r"
    using assms by (simp add: checked_facts_def refund_left_def)
  show "(\<forall>r \<in> set succeeded. refund_left facts r = 0) \<longleftrightarrow> refunded_total facts = amounts (xa_existingAllocations facts)"
    using sum_list_nonneg_eq_0_iff [of "map (refund_left facts) succeeded"] sum nn by auto
qed

lemma allocate_single_result:
  assumes c: "checked_facts facts [target] succeeded"
    and R: "amount_or_zero R = allocated_sum na_refundId (xa_existingAllocations facts)"
  shows "if refunded_total facts = amounts (xa_existingAllocations facts)
    then allocate_single target succeeded R = Noop
    else \<exists>new. allocate_single target succeeded R = Allocated new \<and> new_allocations_ok facts new"
proof -
  let ?E = "xa_existingAllocations facts" and ?g = "refund_left facts"
  let ?mk = "\<lambda>r. \<lparr>na_refundId = fa_refundId r, na_orderItemId = ia_orderItemId target, na_amountMinor = ?g r\<rparr>"
  define new where "new = map ?mk (filter (\<lambda>r. ?g r \<noteq> 0) succeeded)"
  note left = refund_left_sum [OF c] and D = checked_factsD [OF c]
  have res: "allocate_single target succeeded R = (if new = [] then Noop else Allocated new)"
    by (simp add: allocate_single_def R new_def Let_def concat_map_singleton refund_left_def)
  have empty: "new = [] \<longleftrightarrow> refunded_total facts = amounts ?E"
    using left(3) by (auto simp: new_def filter_empty_conv)
  have "new_allocations_ok facts new" if "new \<noteq> []"
  proof -
    have pos: "\<forall>a \<in> set new. 1 \<le> na_amountMinor a \<and> na_orderItemId a = ia_orderItemId target \<and>
        na_refundId a \<in> fa_refundId ` set succeeded"
      using left(2) by (force simp: new_def)
    moreover have "distinct (map na_refundId new)"
      using c by (simp add: new_def comp_def checked_facts_def distinct_map_filterI)
    then have "distinct (map (\<lambda>a. (na_refundId a, na_orderItemId a)) new)"
      by (auto simp: distinct_map inj_on_def)
    moreover have "\<forall>r \<in> set succeeded. allocated_sum na_refundId new (fa_refundId r) = ?g r"
      using c unfolding new_def by (auto simp: checked_facts_def intro!: allocated_sum_map_filter)
    moreover have "allocated_sum na_orderItemId new (ia_orderItemId target) = refunded_total facts - amounts ?E"
      using allocated_sum_const [of new na_orderItemId "ia_orderItemId target"] pos
      unfolding new_def by (simp add: amounts_map_filter left(1))
    moreover have "allocated_sum na_orderItemId ?E (ia_orderItemId target) = amounts ?E"
      using checked_existing_sums(1) [OF c] by simp
    moreover have "refunded_total facts \<le> ia_totalMinor target"
      using c D(3) by (simp add: checked_facts_def)
    ultimately show ?thesis
      using that D(1,2) [symmetric] by (simp add: new_allocations_ok_def refund_left_def)
  qed
  then show ?thesis using res empty by auto
qed

lemma amount_or_zero_map_nonneg:
  "\<forall>x \<in> set xs. 0 \<le> g x \<Longrightarrow> 0 \<le> amount_or_zero (map (\<lambda>x. (f x, g x)) xs) k"
  by (induction xs) (auto simp: amount_or_zero_def)

lemma sum_list_filter_zero:
  fixes g :: "'a \<Rightarrow> int"
  shows "\<forall>x \<in> set xs. 0 \<le> g x \<Longrightarrow> sum_list (map g (filter (\<lambda>x. 0 < g x) xs)) = sum_list (map g xs)"
  by (induction xs) auto

definition item_left :: "allocation_facts \<Rightarrow> allocation_item_fact \<Rightarrow> int" where
  "item_left facts item = ia_totalMinor item -
     allocated_sum na_orderItemId (xa_existingAllocations facts) (ia_orderItemId item)"

lemma item_left_sum:
  assumes "checked_facts facts items succeeded"
  shows "sum_list (map (item_left facts) items) = paid_total facts - amounts (xa_existingAllocations facts)"
    and "\<forall>item \<in> set items. 0 \<le> item_left facts item"
proof -
  show "sum_list (map (item_left facts) items) = paid_total facts - amounts (xa_existingAllocations facts)"
    using checked_factsD(3) [OF assms] checked_existing_sums(1) [OF assms]
    by (simp add: item_left_def [abs_def] sum_list_subtractf)
  show "\<forall>item \<in> set items. 0 \<le> item_left facts item"
    using assms by (simp add: checked_facts_def item_left_def)
qed

lemma left_totals:
  assumes c: "checked_facts facts items succeeded"
  shows "safeMoneyTotal (map (item_left facts) items) = Some (paid_total facts - amounts (xa_existingAllocations facts))"
    "safeMoneyTotal (map (refund_left facts) succeeded) =
      Some (refunded_total facts - amounts (xa_existingAllocations facts))"
proof -
  note r = refund_left_sum [OF c] and i = item_left_sum [OF c]
  have E: "0 \<le> amounts (xa_existingAllocations facts)"
    using c by (intro amounts_nonneg) (simp add: checked_facts_def)
  have "0 \<le> sum_list (map (refund_left facts) succeeded)" using r(2) by (intro sum_list_nonneg) auto
  moreover have "refunded_total facts \<le> paid_total facts" "safe_integer (paid_total facts)"
    using c by (simp_all add: checked_facts_def)
  ultimately have "safe_integer (paid_total facts - amounts (xa_existingAllocations facts))"
    "safe_integer (refunded_total facts - amounts (xa_existingAllocations facts))"
    using r(1) E by (auto intro: safe_integer_between [of "paid_total facts"])
  then show "safeMoneyTotal (map (item_left facts) items) =
      Some (paid_total facts - amounts (xa_existingAllocations facts))"
    "safeMoneyTotal (map (refund_left facts) succeeded) =
      Some (refunded_total facts - amounts (xa_existingAllocations facts))"
    using r i safeMoneyTotal_total [of "map (item_left facts) items"]
      safeMoneyTotal_total [of "map (refund_left facts) succeeded"] by auto
qed

text \<open>In the greedy path the result of filling is acceptable and leaves nothing.\<close>

lemma fill_complete:
  assumes c: "checked_facts facts items succeeded" and eq: "refunded_total facts = paid_total facts"
    and xs: "all_filled (map ia_orderItemId items) R
      (map fa_refundId (filter (\<lambda>r. 0 < refund_left facts r) succeeded))
      (map (\<lambda>i. (ia_orderItemId i, item_left facts i)) items) xs m'"
    and R: "\<forall>r \<in> set succeeded. amount_or_zero R (fa_refundId r) = refund_left facts r"
    and ne: "refunded_total facts \<noteq> amounts (xa_existingAllocations facts)"
  shows "new_allocations_ok facts xs" "\<forall>(k, v) \<in> set m'. v = 0"
proof -
  let ?E = "xa_existingAllocations facts"
  let ?m = "map (\<lambda>i. (ia_orderItemId i, item_left facts i)) items"
  let ?rest = "filter (\<lambda>r. 0 < refund_left facts r) succeeded"
  note D = checked_factsD [OF c] and r = refund_left_sum [OF c] and i = item_left_sum [OF c]
  have dist: "distinct (map ia_orderItemId items)" "distinct (map fa_refundId succeeded)"
    using c by (simp_all add: checked_facts_def)
  have m: "amount_or_zero ?m (ia_orderItemId item) = item_left facts item" if "item \<in> set items" for item
    using dist that by (intro amount_or_zero_map)
  have mem: "\<forall>a \<in> set xs. na_refundId a \<in> fa_refundId ` set ?rest \<and>
      na_orderItemId a \<in> ia_orderItemId ` set items \<and> 1 \<le> na_amountMinor a"
    using xs by (simp add: all_filled_def)
  have by_refund: "allocated_sum na_refundId xs (fa_refundId x) = refund_left facts x" if "x \<in> set succeeded" for x
  proof (cases "0 < refund_left facts x")
    case True
    then show ?thesis using xs R that by (auto simp: all_filled_def)
  next
    case False
    then have "fa_refundId x \<notin> fa_refundId ` set ?rest"
      using dist(2) that by (auto simp: distinct_map dest: inj_onD)
    then have "fa_refundId x \<notin> na_refundId ` set xs" using mem by auto
    then show ?thesis using False r(2) that by (force simp: allocated_sum_other)
  qed
  have left: "amount_or_zero m' (ia_orderItemId item) =
      item_left facts item - allocated_sum na_orderItemId xs (ia_orderItemId item)"
    if "item \<in> set items" for item
    using xs m [OF that] by (simp add: all_filled_def)
  have nn: "0 \<le> amount_or_zero m' k" for k using xs unfolding all_filled_def by blast
  have "amounts xs = sum_list (map (allocated_sum na_refundId xs) (map fa_refundId succeeded))"
    unfolding amounts_def using mem dist by (intro allocated_sum_groups [symmetric]) auto
  also have "\<dots> = sum_list (map (refund_left facts) succeeded)"
    using by_refund by (simp add: comp_def cong: map_cong)
  finally have total: "amounts xs = paid_total facts - amounts ?E" using r(1) eq by simp
  have "sum_list (map (allocated_sum na_orderItemId xs) (map ia_orderItemId items)) = amounts xs"
    unfolding amounts_def using mem dist by (intro allocated_sum_groups) auto
  then have "sum_list (map (\<lambda>item. amount_or_zero m' (ia_orderItemId item)) items) = 0"
    using left i(1) total by (simp add: comp_def sum_list_subtractf cong: map_cong)
  then have zero: "\<forall>item \<in> set items. amount_or_zero m' (ia_orderItemId item) = 0"
    using nn sum_list_nonneg_eq_0_iff [of "map (\<lambda>item. amount_or_zero m' (ia_orderItemId item)) items"]
    by auto
  show "\<forall>(k, v) \<in> set m'. v = 0"
  proof clarify
    fix k v assume kv: "(k, v) \<in> set m'"
    have "k \<in> ia_orderItemId ` set items" using xs kv unfolding all_filled_def by force
    moreover have "amount_or_zero m' k = v"
      using xs kv by (simp add: all_filled_def amount_or_zero_def)
    ultimately show "v = 0" using zero by auto
  qed
  have "xs \<noteq> []" using total ne eq by auto
  moreover have "distinct (map (\<lambda>a. (na_refundId a, na_orderItemId a)) xs)"
    using xs by (simp add: all_filled_def)
  moreover have "\<forall>a \<in> set xs. na_refundId a \<in> fa_refundId ` set succeeded" using mem by auto
  moreover have "allocated_sum na_orderItemId ?E (ia_orderItemId item) +
      allocated_sum na_orderItemId xs (ia_orderItemId item) \<le> ia_totalMinor item"
    if "item \<in> set items" for item
    using left [OF that] zero that by (simp add: item_left_def)
  ultimately show "new_allocations_ok facts xs"
    using mem by_refund D(1,2) [symmetric]
    by (simp add: new_allocations_ok_def refund_left_def)
qed

lemma allocate_several_result:
  assumes c: "checked_facts facts items succeeded"
    and R: "amount_or_zero R = allocated_sum na_refundId (xa_existingAllocations facts)"
    and I: "amount_or_zero I = allocated_sum na_orderItemId (xa_existingAllocations facts)"
  shows "if refunded_total facts = amounts (xa_existingAllocations facts)
    then allocate_several items succeeded R I = Noop
    else if refunded_total facts < paid_total facts then allocate_several items succeeded R I = Needs_review
    else \<exists>new. allocate_several items succeeded R I = Allocated new \<and> new_allocations_ok facts new"
proof -
  let ?E = "xa_existingAllocations facts"
  let ?m = "map (\<lambda>i. (ia_orderItemId i, item_left facts i)) items"
  let ?R = "map (\<lambda>r. (fa_refundId r, refund_left facts r)) succeeded"
  let ?rest = "filter (\<lambda>r. 0 < refund_left facts r) succeeded"
  note r = refund_left_sum [OF c] and i = item_left_sum [OF c]
  have le: "refunded_total facts \<le> paid_total facts" and dist: "distinct (map ia_orderItemId items)"
    "distinct (map fa_refundId succeeded)"
    using c by (simp_all add: checked_facts_def)
  have aR: "\<forall>x \<in> set succeeded. amount_or_zero ?R (fa_refundId x) = refund_left facts x"
    using dist by (simp add: amount_or_zero_map)
  then have rest: "filter (\<lambda>x. 0 < amount_or_zero ?R (fa_refundId x)) succeeded = ?rest"
    by (simp cong: filter_cong)
  have res: "allocate_several items succeeded R I =
      (if ?rest = [] then Noop
       else if refunded_total facts \<noteq> paid_total facts then (if refunded_total facts < paid_total facts then Needs_review else Exception)
       else (case fill_refunds (map ia_orderItemId items) ?R ?rest ?m of
               Inl _ \<Rightarrow> Exception
             | Inr (allocations, left) \<Rightarrow>
                 if \<exists>(k, v) \<in> set left. v \<noteq> 0 then Exception else Allocated allocations))"
    using rest left_totals [OF c]
    by (simp add: allocate_several_def R I Let_def comp_def item_left_def [symmetric] refund_left_def [symmetric])
  have empty: "?rest = [] \<longleftrightarrow> refunded_total facts = amounts ?E"
    using r(2,3) by (force simp: filter_empty_conv)
  have "\<exists>xs m'. fill_refunds (map ia_orderItemId items) ?R ?rest ?m = Inr (xs, m') \<and>
      all_filled (map ia_orderItemId items) ?R (map fa_refundId ?rest) ?m xs m'"
    if "refunded_total facts = paid_total facts"
  proof (rule fill_refunds_filled)
    have "sum_list (map (\<lambda>x. amount_or_zero ?R (fa_refundId x)) ?rest) =
        sum_list (map (refund_left facts) ?rest)"
      using aR by (intro arg_cong [where f = sum_list] map_cong) auto
    also have "\<dots> = sum_list (map (refund_left facts) succeeded)"
      using r(2) by (rule sum_list_filter_zero)
    also have "\<dots> = sum_list (map (item_left facts) items)" using r(1) i(1) that by simp
    also have "\<dots> = sum_list (map (amount_or_zero ?m) (map ia_orderItemId items))"
      using dist(1) by (auto simp: comp_def amount_or_zero_map intro!: arg_cong [where f = sum_list] map_cong)
    finally show "sum_list (map (\<lambda>x. amount_or_zero ?R (fa_refundId x)) ?rest) \<le>
      sum_list (map (amount_or_zero ?m) (map ia_orderItemId items))" by simp
  qed (use dist r(2) i(2) in \<open>auto simp: comp_def distinct_map_filterI intro!: amount_or_zero_map_nonneg\<close>)
  then show ?thesis
    using fill_complete [OF c _ _ aR] res empty le by fastforce
qed

text \<open>The result by the totals, on every input.\<close>

lemma allocation_outcome:
  assumes "allocation_checks lc facts = Inr (items, succeeded, R, I)"
  shows "if refunded_total facts = amounts (xa_existingAllocations facts)
    then allocateDeterministicRefunds lc facts = Noop
    else if 1 < length (xa_items facts) \<and> refunded_total facts < paid_total facts
    then allocateDeterministicRefunds lc facts = Needs_review
    else \<exists>new. allocateDeterministicRefunds lc facts = Allocated new \<and> new_allocations_ok facts new"
proof -
  note c = allocation_checks_checked [OF assms]
  have len: "length items = length (xa_items facts)" "0 < length items"
    using c(1) by (auto simp: checked_facts_def dest: mset_eq_length)
  show ?thesis
  proof (cases "length items = 1")
    case True
    then obtain target where t: "items = [target]" by (auto simp: length_Suc_conv)
    then show ?thesis using allocate_single_result [OF c(1) [unfolded t] c(2)] assms len
      by (simp add: allocateDeterministicRefunds_def)
  next
    case False
    then have "1 < length (xa_items facts)" using len by linarith
    then show ?thesis using allocate_several_result [OF c] assms False
      by (simp add: allocateDeterministicRefunds_def)
  qed
qed

section \<open>Which facts are rejected\<close>

text \<open>Consistent facts, stated without the order of the lists and without running totals.\<close>

definition valid_facts :: "allocation_facts \<Rightarrow> bool" where
  "valid_facts facts \<longleftrightarrow>
     (let cur = ia_currency (hd (xa_items facts)); E = xa_existingAllocations facts in
      xa_items facts \<noteq> [] \<and> list_all (item_ok cur) (xa_items facts) \<and>
      distinct (map ia_orderItemId (xa_items facts)) \<and>
      list_all (refund_ok cur) (xa_refunds facts) \<and> distinct (map fa_refundId (xa_refunds facts)) \<and>
      distinct (map fa_providerRefundId (xa_refunds facts)) \<and>
      list_all (\<lambda>a. 1 \<le> na_amountMinor a \<and> na_orderItemId a \<in> ia_orderItemId ` set (xa_items facts) \<and>
        na_refundId a \<in> fa_refundId ` set (succeeded_refunds facts)) E \<and>
      distinct (map allocation_key E) \<and>
      safe_integer (paid_total facts) \<and> refunded_total facts \<le> paid_total facts \<and>
      list_all (\<lambda>r. allocated_sum na_refundId E (fa_refundId r) \<le> fa_amountMinor r) (succeeded_refunds facts) \<and>
      list_all (\<lambda>i. allocated_sum na_orderItemId E (ia_orderItemId i) \<le> ia_totalMinor i) (xa_items facts))"

lemma check_refunds_ok:
  "list_all (refund_ok currency) refunds \<Longrightarrow> distinct (map fa_refundId refunds) \<Longrightarrow>
     distinct (map fa_providerRefundId refunds) \<Longrightarrow> fa_refundId ` set refunds \<inter> ids = {} \<Longrightarrow>
     fa_providerRefundId ` set refunds \<inter> pids = {} \<Longrightarrow>
     \<exists>s. rfold (check_refund currency) refunds (ids, pids, m) = Inr s"
proof (induction refunds arbitrary: ids pids m)
  case (Cons r refunds)
  let ?ids = "insert (fa_refundId r) ids" and ?pids = "insert (fa_providerRefundId r) pids"
    and ?m = "AList.update (fa_refundId r) r m"
  have "check_refund currency r (ids, pids, m) = Inr (?ids, ?pids, ?m)"
    using Cons.prems by (subst check_refund_Inr) auto
  moreover have "\<exists>s. rfold (check_refund currency) refunds (?ids, ?pids, ?m) = Inr s"
    using Cons.prems by (intro Cons.IH) auto
  ultimately show ?case by (auto simp: rbind_def simp del: check_refund.simps)
qed simp

definition running_ok :: "(refund_allocation \<Rightarrow> string) \<Rightarrow> refund_allocation list \<Rightarrow> (string \<times> int) list \<Rightarrow> bool" where
  "running_ok key xs m \<longleftrightarrow> (\<forall>k. 0 \<le> amount_or_zero m k \<and> safe_integer (amount_or_zero m k + allocated_sum key xs k))"

lemma running_ok_step:
  assumes "running_ok key (a # xs) m" and "\<forall>b \<in> set (a # xs). 1 \<le> na_amountMinor b"
  shows "safe_integer (amount_or_zero m (key a) + na_amountMinor a)"
    "running_ok key xs (AList.update (key a) (amount_or_zero m (key a) + na_amountMinor a) m)"
    "safe_integer (na_amountMinor a)"
proof -
  have nn: "0 \<le> allocated_sum key xs k" for k
    using assms(2) by (intro allocated_sum_nonneg) auto
  have a: "0 \<le> amount_or_zero m (key a)"
    and s: "safe_integer (amount_or_zero m (key a) + (na_amountMinor a + allocated_sum key xs (key a)))"
    using assms(1) [unfolded running_ok_def, rule_format, of "key a"] by simp_all
  show "safe_integer (amount_or_zero m (key a) + na_amountMinor a)"
    using s a nn [of "key a"] assms(2) by (intro safe_integer_between [OF s]) auto
  show "safe_integer (na_amountMinor a)"
    using s a nn [of "key a"] assms(2) by (intro safe_integer_between [OF s]) auto
  show "running_ok key xs (AList.update (key a) (amount_or_zero m (key a) + na_amountMinor a) m)"
    unfolding running_ok_def
  proof
    fix k
    show "0 \<le> amount_or_zero (AList.update (key a) (amount_or_zero m (key a) + na_amountMinor a) m) k \<and>
      safe_integer (amount_or_zero (AList.update (key a) (amount_or_zero m (key a) + na_amountMinor a) m) k +
        allocated_sum key xs k)"
      using assms(1) [unfolded running_ok_def, rule_format, of k] assms(2) a s
      by (cases "k = key a") (simp_all add: add.assoc)
  qed
qed

lemma check_existing_ok:
  "list_all (allocation_ok itemIds (map_of byId)) xs \<Longrightarrow> distinct (map allocation_key xs) \<Longrightarrow>
     allocation_key ` set xs \<inter> K = {} \<Longrightarrow> running_ok na_refundId xs R \<Longrightarrow>
     running_ok na_orderItemId xs I \<Longrightarrow>
     \<exists>s. rfold (check_allocation itemIds byId) xs (K, R, I) = Inr s"
proof (induction xs arbitrary: K R I)
  case (Cons a xs)
  let ?R = "AList.update (na_refundId a) (amount_or_zero R (na_refundId a) + na_amountMinor a) R"
    and ?I = "AList.update (na_orderItemId a) (amount_or_zero I (na_orderItemId a) + na_amountMinor a) I"
  have pos: "\<forall>b \<in> set (a # xs). 1 \<le> na_amountMinor b"
    using Cons.prems(1) by (auto simp: list_all_iff allocation_ok_def)
  note r = running_ok_step [OF Cons.prems(4) pos] and i = running_ok_step [OF Cons.prems(5) pos]
  have "check_allocation itemIds byId a (K, R, I) = Inr (insert (allocation_key a) K, ?R, ?I)"
  proof -
    obtain refund where "map_of byId (na_refundId a) = Some refund" "fa_status refund = Refund_succeeded"
      using Cons.prems(1) by (auto simp: allocation_ok_def split: option.splits)
    moreover have "na_orderItemId a \<in> itemIds" "allocation_key a \<notin> K" "\<not> na_amountMinor a < 1"
      using Cons.prems(1,3) by (auto simp: allocation_ok_def)
    ultimately show ?thesis using r(1,3) i(1) by (simp add: Let_def)
  qed
  moreover have "\<exists>s. rfold (check_allocation itemIds byId) xs (insert (allocation_key a) K, ?R, ?I) = Inr s"
    using Cons.prems r(2) i(2) by (intro Cons.IH) auto
  ultimately show ?case by (auto simp: rbind_def simp del: check_allocation.simps)
qed simp

lemma running_ok_Nil:
  assumes "\<forall>a \<in> set xs. key a \<in> f ` set ys" and "\<forall>y \<in> set ys. allocated_sum key xs (f y) \<le> g y"
    and "\<forall>y \<in> set ys. safe_integer (g y)" and "\<forall>a \<in> set xs. 1 \<le> na_amountMinor a"
  shows "running_ok key xs []"
  unfolding running_ok_def
proof
  fix k
  have nn: "0 \<le> allocated_sum key xs k" using assms(4) by (intro allocated_sum_nonneg) auto
  have "safe_integer (allocated_sum key xs k)"
  proof (cases "k \<in> f ` set ys")
    case True
    then obtain y where y: "y \<in> set ys" and k: "k = f y" by blast
    have "allocated_sum key xs k \<le> g y" "safe_integer (g y)" using y assms(2,3) unfolding k by blast+
    then show ?thesis using nn by (blast intro: safe_integer_between)
  next
    case False
    then have "allocated_sum key xs k = 0" using assms(1) by (intro allocated_sum_other) auto
    then show ?thesis by simp
  qed
  then show "0 \<le> amount_or_zero [] k \<and> safe_integer (amount_or_zero [] k + allocated_sum key xs k)" by simp
qed

lemma valid_facts_checks:
  assumes "valid_facts facts"
  shows "\<not> isl (allocation_checks lc facts)"
proof -
  let ?cur = "ia_currency (hd (xa_items facts))" and ?E = "xa_existingAllocations facts"
  define items where "items = js_sort (\<lambda>l r. lc (ia_orderItemId l) (ia_orderItemId r)) (xa_items facts)"
  define succeeded where "succeeded = js_sort compareRefunds (succeeded_refunds facts)"
  have ne: "xa_items facts \<noteq> []" and item: "list_all (item_ok ?cur) (xa_items facts)"
    and refund: "list_all (refund_ok ?cur) (xa_refunds facts)"
    and dist: "distinct (map ia_orderItemId (xa_items facts))" "distinct (map fa_refundId (xa_refunds facts))"
      "distinct (map fa_providerRefundId (xa_refunds facts))" "distinct (map allocation_key ?E)"
    and E: "\<forall>a \<in> set ?E. 1 \<le> na_amountMinor a \<and> na_orderItemId a \<in> ia_orderItemId ` set (xa_items facts) \<and>
      na_refundId a \<in> fa_refundId ` set (succeeded_refunds facts)"
    and tot: "safe_integer (paid_total facts)" "refunded_total facts \<le> paid_total facts"
    and by_refund: "\<forall>r \<in> set (succeeded_refunds facts). allocated_sum na_refundId ?E (fa_refundId r) \<le> fa_amountMinor r"
    and by_item: "\<forall>i \<in> set (xa_items facts). allocated_sum na_orderItemId ?E (ia_orderItemId i) \<le> ia_totalMinor i"
    using assms by (simp_all add: valid_facts_def Let_def list_all_iff)
  have item_amount: "\<forall>i \<in> set (xa_items facts). 1 \<le> ia_totalMinor i \<and> safe_integer (ia_totalMinor i)"
    using item unfolding list_all_iff item_ok_def by blast
  have refund_amount: "\<forall>r \<in> set (succeeded_refunds facts). 1 \<le> fa_amountMinor r \<and> safe_integer (fa_amountMinor r)"
    using refund unfolding list_all_iff refund_ok_def succeeded_refunds_def by auto
  have set_items: "set items = set (xa_items facts)"
    and set_succeeded: "set succeeded = set (succeeded_refunds facts)"
    by (simp_all add: items_def succeeded_def)
  have "items \<noteq> []" using ne length_js_sort [of _ "xa_items facts"] items_def by (metis length_0_conv)
  then have "hd items \<in> set (xa_items facts)" using set_items by (metis hd_in_set)
  then have cur: "ia_currency (hd items) = ?cur" using item unfolding list_all_iff item_ok_def by blast
  have ids: "check_items items = Inr (ia_orderItemId ` set items)"
    unfolding check_items_Inr cur using item dist(1) by (simp add: items_def list_all_iff)
  obtain s where "check_refunds ?cur (xa_refunds facts) = Inr s"
    unfolding check_refunds_def using check_refunds_ok [OF refund dist(2,3), of "{}" "{}" "[]"] by auto
  then obtain rids pids m where refunds: "check_refunds ?cur (xa_refunds facts) = Inr (rids, pids, m)"
    by (metis prod_cases3)
  note byId = check_refunds_Inr(4) [OF refunds]
  have aok: "list_all (allocation_ok (ia_orderItemId ` set items) (map_of m)) ?E"
  proof (unfold list_all_iff, rule ballI)
    fix a assume a: "a \<in> set ?E"
    then obtain r where r: "r \<in> set (succeeded_refunds facts)" "fa_refundId r = na_refundId a"
      using E by force
    then have "map_of m (na_refundId a) = Some r"
      using dist(2) index_by_distinct [of fa_refundId "xa_refunds facts" r]
      by (simp add: byId succeeded_refunds_def)
    then show "allocation_ok (ia_orderItemId ` set items) (map_of m) a"
      using r a E by (simp add: allocation_ok_def set_items succeeded_refunds_def)
  qed
  have "running_ok na_refundId ?E []"
    by (rule running_ok_Nil [OF _ by_refund]) (use E refund_amount in blast)+
  moreover have "running_ok na_orderItemId ?E []"
    by (rule running_ok_Nil [OF _ by_item]) (use E item_amount in blast)+
  ultimately obtain s where "check_existing (ia_orderItemId ` set items) m ?E = Inr s"
    using check_existing_ok [OF aok dist(4), of "{}" "[]" "[]"] by (auto simp: check_existing_def)
  then obtain K R I where existing: "check_existing (ia_orderItemId ` set items) m ?E = Inr (K, R, I)"
    by (metis prod_cases3)
  note agg = check_existing_Inr(3,4) [OF existing]
  have "0 \<le> refunded_total facts" unfolding refunded_total_def using refund_amount by (intro sum_list_nonneg) force
  then have "safe_integer (refunded_total facts)" using tot safe_integer_between by blast
  moreover have "\<forall>v \<in> set (map ia_totalMinor items). 0 \<le> v" "\<forall>v \<in> set (map fa_amountMinor succeeded). 0 \<le> v"
    using item_amount refund_amount by (force simp: set_items set_succeeded)+
  ultimately have "safeMoneyTotal (map ia_totalMinor items) = Some (paid_total facts)"
    "safeMoneyTotal (map fa_amountMinor succeeded) = Some (refunded_total facts)"
    using tot safeMoneyTotal_total [of "map ia_totalMinor items"] safeMoneyTotal_total [of "map fa_amountMinor succeeded"]
    by (simp_all add: items_def succeeded_def paid_total_def refunded_total_def)
  then have "check_totals items succeeded R I = Inr ()"
    using tot by_refund by_item agg by (auto simp: check_totals_def set_items set_succeeded not_less)
  then show ?thesis
    using ne ids refunds existing
    by (simp add: allocation_checks_def Let_def items_def [symmetric] cur succeeded_def succeeded_refunds_def)
qed

lemma checks_valid_facts:
  assumes "allocation_checks lc facts = Inr (items, succeeded, R, I)"
  shows "valid_facts facts"
proof -
  note c = allocation_checks_checked [OF assms]
  note D = checked_factsD [OF c(1)]
  have items: "items = js_sort (\<lambda>l r. lc (ia_orderItemId l) (ia_orderItemId r)) (xa_items facts)"
    and ne: "xa_items facts \<noteq> []"
    using assms by (auto simp: allocation_checks_def Let_def rbind_eq_Inr split: if_splits)
  obtain ids rids pids m K where ci: "check_items items = Inr ids"
    and cr: "check_refunds (ia_currency (hd items)) (xa_refunds facts) = Inr (rids, pids, m)"
    and ce: "check_existing ids m (xa_existingAllocations facts) = Inr (K, R, I)"
    using assms unfolding items
    by (auto simp: allocation_checks_def Let_def rbind_eq_Inr split: if_splits)
  have ok: "list_all (item_ok (ia_currency (hd items))) (xa_items facts)"
    using ci by (simp add: check_items_Inr list_all_iff D(1))
  moreover have "hd (xa_items facts) \<in> set (xa_items facts)" using ne by simp
  ultimately have cur: "ia_currency (hd items) = ia_currency (hd (xa_items facts))"
    by (auto simp: list_all_iff item_ok_def)
  have "distinct (map ia_orderItemId (xa_items facts))"
    using ci by (simp add: check_items_Inr items)
  then show ?thesis
    using ok ne c(1) check_refunds_Inr [OF cr] check_existing_Inr(2) [OF ce]
    unfolding valid_facts_def Let_def cur by (simp add: checked_facts_def list_all_iff D(1,2))
qed

lemma allocation_checks_iff: "isl (allocation_checks lc facts) \<longleftrightarrow> \<not> valid_facts facts"
proof (cases "allocation_checks lc facts")
  case (Inl e)
  then show ?thesis using valid_facts_checks [of facts lc] by auto
next
  case (Inr s)
  then show ?thesis using checks_valid_facts [of lc facts] by (cases s) auto
qed

section \<open>Properties\<close>

text \<open>
  C20. When the refunds of a payment are allocated without review, there is something new to
  allocate, every new amount is positive and names an item and a succeeded refund of the payment, no
  pair of a refund and an item occurs twice among the new allocations, every succeeded refund is
  allocated completely, and no item gets more than its total.
\<close>
theorem refund_allocation_complete:
  assumes "allocateDeterministicRefunds lc facts = Allocated new"
  shows "new \<noteq> [] \<and> (\<forall>a \<in> set new. 1 \<le> na_amountMinor a) \<and>
    distinct (map (\<lambda>a. (na_refundId a, na_orderItemId a)) new) \<and>
    (\<forall>a \<in> set new. na_orderItemId a \<in> ia_orderItemId ` set (xa_items facts) \<and>
       na_refundId a \<in> fa_refundId ` set (succeeded_refunds facts)) \<and>
    (\<forall>r \<in> set (succeeded_refunds facts).
       allocated_sum na_refundId (xa_existingAllocations facts @ new) (fa_refundId r) = fa_amountMinor r) \<and>
    (\<forall>item \<in> set (xa_items facts).
       allocated_sum na_orderItemId (xa_existingAllocations facts @ new) (ia_orderItemId item)
         \<le> ia_totalMinor item)"
proof -
  obtain items succeeded R I where "allocation_checks lc facts = Inr (items, succeeded, R, I)"
    using assms by (auto simp: allocateDeterministicRefunds_def split: sum.splits)
  then have "new_allocations_ok facts new"
    using allocation_outcome [of lc facts items succeeded R I] assms by (auto split: if_splits)
  then show ?thesis unfolding new_allocations_ok_def by blast
qed

definition sample_allocation_facts :: allocation_facts where
  "sample_allocation_facts = \<lparr>
     xa_items = [\<lparr>ia_orderItemId = ''b'', ia_totalMinor = 500, ia_currency = ''EUR''\<rparr>,
       \<lparr>ia_orderItemId = ''a'', ia_totalMinor = 300, ia_currency = ''EUR''\<rparr>],
     xa_refunds = [\<lparr>fa_refundId = ''r2'', fa_providerRefundId = ''p2'', fa_status = Refund_succeeded,
         fa_amountMinor = 600, fa_currency = ''EUR'', fa_providerCreatedAt = 2\<rparr>,
       \<lparr>fa_refundId = ''r1'', fa_providerRefundId = ''p1'', fa_status = Refund_succeeded,
         fa_amountMinor = 200, fa_currency = ''EUR'', fa_providerCreatedAt = 1\<rparr>,
       \<lparr>fa_refundId = ''r3'', fa_providerRefundId = ''p3'', fa_status = Refund_failed,
         fa_amountMinor = 700, fa_currency = ''EUR'', fa_providerCreatedAt = 3\<rparr>],
     xa_existingAllocations = [\<lparr>na_refundId = ''r1'', na_orderItemId = ''a'', na_amountMinor = 100\<rparr>]\<rparr>"

definition sample_new :: "refund_allocation list" where
  "sample_new = [\<lparr>na_refundId = ''r1'', na_orderItemId = ''a'', na_amountMinor = 100\<rparr>,
     \<lparr>na_refundId = ''r2'', na_orderItemId = ''a'', na_amountMinor = 100\<rparr>,
     \<lparr>na_refundId = ''r2'', na_orderItemId = ''b'', na_amountMinor = 500\<rparr>]"

lemma sample_allocated: "allocateDeterministicRefunds compare_text sample_allocation_facts = Allocated sample_new"
  by code_simp

theorem refund_allocation_complete_witness:
  "sample_new \<noteq> [] \<and> distinct (map (\<lambda>a. (na_refundId a, na_orderItemId a)) sample_new) \<and>
   list_all (\<lambda>r. allocated_sum na_refundId (xa_existingAllocations sample_allocation_facts @ sample_new)
     (fa_refundId r) = fa_amountMinor r) (succeeded_refunds sample_allocation_facts) \<and>
   map fa_refundId (succeeded_refunds sample_allocation_facts) = [''r2'', ''r1'']"
proof -
  have "map fa_refundId (succeeded_refunds sample_allocation_facts) = [''r2'', ''r1'']" by code_simp
  then show ?thesis using refund_allocation_complete [OF sample_allocated] by (simp add: list_all_iff)
qed

text \<open>
  The allocator reports an exception exactly for the facts that are inconsistent: none of the
  exceptions it raises after its validation can happen. Inconsistent is stated without the order in
  which the rows come and without the collation: an empty order, malformed or repeated rows,
  currencies that differ, allocations without a succeeded refund or item of the payment, totals
  beyond a safe integer, refunds beyond what was paid, or rows allocated beyond their amount.
\<close>
theorem refund_allocation_exception_iff:
  "allocateDeterministicRefunds lc facts = Exception \<longleftrightarrow> \<not> valid_facts facts"
proof (cases "allocation_checks lc facts")
  case (Inl e)
  then show ?thesis using allocation_checks_iff [of lc facts]
    by (simp add: allocateDeterministicRefunds_def)
next
  case (Inr s)
  obtain items succeeded R I where s: "s = (items, succeeded, R, I)" by (metis prod_cases4)
  show ?thesis using allocation_outcome [OF Inr [unfolded s]] allocation_checks_iff [of lc facts] Inr
    by (auto split: if_splits)
qed

text \<open>
  For consistent facts the totals alone decide what happens. Nothing is new when all refunded
  money is already allocated. An order of several items that was refunded in part goes to review. An
  order refunded in full, or with a single item, is allocated. The collation does not matter for it.
\<close>
theorem refund_allocation_by_totals:
  assumes "valid_facts facts"
  shows "(allocateDeterministicRefunds lc facts = Noop \<longleftrightarrow>
      refunded_total facts = amounts (xa_existingAllocations facts)) \<and>
    (allocateDeterministicRefunds lc facts = Needs_review \<longleftrightarrow>
      refunded_total facts \<noteq> amounts (xa_existingAllocations facts) \<and>
      1 < length (xa_items facts) \<and> refunded_total facts < paid_total facts) \<and>
    ((\<exists>new. allocateDeterministicRefunds lc facts = Allocated new) \<longleftrightarrow>
      refunded_total facts \<noteq> amounts (xa_existingAllocations facts) \<and>
      (length (xa_items facts) = 1 \<or> refunded_total facts = paid_total facts))"
proof -
  obtain s where "allocation_checks lc facts = Inr s"
    using allocation_checks_iff [of lc facts] assms by (cases "allocation_checks lc facts") auto
  moreover obtain items succeeded R I where "s = (items, succeeded, R, I)" by (metis prod_cases4)
  ultimately have s: "allocation_checks lc facts = Inr (items, succeeded, R, I)" by simp
  have "xa_items facts \<noteq> []" "refunded_total facts \<le> paid_total facts"
    using assms by (simp_all add: valid_facts_def Let_def)
  then have "length (xa_items facts) = 1 \<or> 1 < length (xa_items facts)" by (cases "xa_items facts") auto
  then show ?thesis using allocation_outcome [OF s] \<open>refunded_total facts \<le> paid_total facts\<close>
    by (auto split: if_splits)
qed

theorem refund_allocation_by_totals_witness:
  "valid_facts sample_allocation_facts \<and> (\<exists>new. allocateDeterministicRefunds compare_text sample_allocation_facts = Allocated new) \<and>
   refunded_total sample_allocation_facts = 800 \<and> amounts (xa_existingAllocations sample_allocation_facts) = 100"
proof -
  have v: "valid_facts sample_allocation_facts" by code_simp
  have t: "refunded_total sample_allocation_facts = 800" "paid_total sample_allocation_facts = 800"
    "amounts (xa_existingAllocations sample_allocation_facts) = 100"
    by code_simp+
  show ?thesis using refund_allocation_by_totals [OF v, of compare_text] v t by simp
qed

end
