(* ===== verification/ReaderPages.thy ===== *)
theory ReaderPages
  imports Complex_Main Prelude "HOL-Library.Word"
begin

text \<open>
  The pages of a publication and the reading positions in it: \<^verbatim>\<open>lib/reader/locations.ts\<close>,
  \<^verbatim>\<open>publication-pagination.ts\<close> and the types of \<^verbatim>\<open>lib/types/publication.ts\<close>,
  \<^verbatim>\<open>reader.ts\<close> and \<^verbatim>\<open>library.ts\<close> they use, with the fields they read. The text of a
  publication is a list of UTF-16 code units, so that lengths and offsets are those of the code. The
  numbers of the page geometry are rationals; the rounding of the machine after each operation is the
  parameter \<open>rnd\<close>. The loop that splits a paragraph is \<open>partial_function (option)\<close>: \<open>None\<close> would be
  a loop that does not end.
\<close>

section \<open>Publications\<close>

type_synonym utf16 = "16 word list"

datatype inline_mark = Strong | Emphasis | Code | Subscript | Superscript

record inline_fragment =
  if_text :: utf16
  if_marks :: "inline_mark list"
  if_href :: "string option"

datatype prose_block_data =
    Heading int "inline_fragment list"
  | Paragraph "inline_fragment list"
  | Quote "inline_fragment list"
  | Listing bool "inline_fragment list list"
  | Image string utf16
  | Break

record prose_block_dto =
  pb_id :: string
  pb_content :: prose_block_data

record prose_section_dto =
  ps_ordinal :: int
  ps_blocks :: "prose_block_dto list"

record prose_image_dto =
  pi_id :: string
  pi_url :: string

record panel_region =
  pn_id :: string
  pn_ordinal :: int
  pn_x :: rat
  pn_y :: rat
  pn_width :: rat
  pn_height :: rat

record comic_page_dto =
  cp_id :: string
  cp_ordinal :: int
  cp_url :: string
  cp_width :: int
  cp_height :: int
  cp_panels :: "panel_region list"

datatype reader_document =
    Prose_document "prose_section_dto list" "prose_image_dto list"
  | Comic_document bool "comic_page_dto list"

datatype reader_location =
    Prose_location string int
  | Comic_location string "int option"

datatype comic_mode = Page_mode | Guided_mode

section \<open>Pages\<close>

record rendered_prose_block =
  rn_sourceBlockId :: string
  rn_sourceStartOffset :: int
  rn_sourceEndOffset :: int
  rn_content :: prose_block_data
  rn_imageUrl :: "string option"

record text_reader_page =
  tx_chapter :: int
  tx_at :: int
  tx_heading :: "utf16 option"
  tx_paras :: "utf16 list"
  tx_blocks :: "rendered_prose_block list option"
  tx_folio :: string

record comic_reader_page =
  cx_sourcePageId :: string
  cx_chapter :: int
  cx_at :: int
  cx_folio :: string
  cx_layout :: "(int \<times> int \<times> string) list"
  cx_imageUrl :: "string option"
  cx_imageWidth :: "int option"
  cx_imageHeight :: "int option"
  cx_panels :: "panel_region list option"

datatype reader_page = Text_page text_reader_page | Comic_page comic_reader_page | Scan_page string

definition fragmentLength :: "inline_fragment list \<Rightarrow> int" where
  "fragmentLength fragments = fold (\<lambda>fragment total. total + int (length (if_text fragment))) fragments 0"

fun proseBlockVisibleLength :: "prose_block_data \<Rightarrow> int" where
  "proseBlockVisibleLength (Heading _ fragments) = fragmentLength fragments"
| "proseBlockVisibleLength (Paragraph fragments) = fragmentLength fragments"
| "proseBlockVisibleLength (Quote fragments) = fragmentLength fragments"
| "proseBlockVisibleLength (Listing _ items) = fold (\<lambda>item total. total + fragmentLength item) items 0"
| "proseBlockVisibleLength (Image _ _) = 0"
| "proseBlockVisibleLength Break = 0"

text \<open>\<^verbatim>\<open>blockLength\<close> differs from it in the image, which counts as one.\<close>

fun blockLength :: "prose_block_data \<Rightarrow> int" where
  "blockLength (Heading _ fragments) = fragmentLength fragments"
| "blockLength (Paragraph fragments) = fragmentLength fragments"
| "blockLength (Quote fragments) = fragmentLength fragments"
| "blockLength (Listing _ items) = fold (\<lambda>item total. total + fragmentLength item) items 0"
| "blockLength (Image _ _) = 1"
| "blockLength Break = 0"

definition utf16_of :: "string \<Rightarrow> utf16" where
  "utf16_of s = map of_char s"

definition fragments_text :: "inline_fragment list \<Rightarrow> utf16" where
  "fragments_text fragments = concat (map if_text fragments)"

fun join_lines :: "utf16 list \<Rightarrow> utf16" where
  "join_lines [] = []"
| "join_lines [l] = l"
| "join_lines (l # ls) = l @ utf16_of [CHR 0x0A] @ join_lines ls"

fun plainText :: "prose_block_data \<Rightarrow> utf16" where
  "plainText (Heading _ fragments) = fragments_text fragments"
| "plainText (Paragraph fragments) = fragments_text fragments"
| "plainText (Quote fragments) = fragments_text fragments"
| "plainText (Listing ordered items) = join_lines (map (\<lambda>(index, item).
     (if ordered then utf16_of (int_text (int index + 1) @ ''.'') else [0x2022]) @
       utf16_of '' '' @ fragments_text item) (enumerate 0 items))"
| "plainText (Image _ _) = []"
| "plainText Break = []"

section \<open>Splitting a paragraph\<close>

record split_state =
  sp_chunks :: "inline_fragment list list"
  sp_current :: "inline_fragment list"
  sp_currentLength :: int

definition push_chunk :: "split_state \<Rightarrow> split_state" where
  "push_chunk st = \<lparr>sp_chunks = sp_chunks st @ [sp_current st], sp_current = [], sp_currentLength = 0\<rparr>"

definition push_piece :: "inline_fragment \<Rightarrow> utf16 \<Rightarrow> split_state \<Rightarrow> split_state" where
  "push_piece fragment piece st = st\<lparr>sp_current := sp_current st @
     [\<lparr>if_text = piece, if_marks = if_marks fragment,
       if_href = (if if_href fragment = Some [] then None else if_href fragment)\<rparr>],
     sp_currentLength := sp_currentLength st + int (length piece)\<rparr>"

partial_function (option) split_fragment ::
    "int \<Rightarrow> inline_fragment \<Rightarrow> nat \<Rightarrow> split_state \<Rightarrow> split_state option" where
  "split_fragment maximumCharacters fragment offset st =
     (if \<not> offset < length (if_text fragment) then Some st
      else let available = maximumCharacters - sp_currentLength st in
        if available \<le> 0 then split_fragment maximumCharacters fragment offset (push_chunk st)
        else let piece = take (nat available) (drop offset (if_text fragment));
            st' = push_piece fragment piece st in
          split_fragment maximumCharacters fragment (offset + length piece)
            (if sp_currentLength st' \<ge> maximumCharacters then push_chunk st' else st'))"

declare split_fragment.simps [code]

fun split_all :: "int \<Rightarrow> inline_fragment list \<Rightarrow> split_state \<Rightarrow> split_state option" where
  "split_all maximumCharacters [] st = Some st"
| "split_all maximumCharacters (fragment # fragments) st =
     Option.bind (split_fragment maximumCharacters fragment 0 st) (split_all maximumCharacters fragments)"

definition splitFragments :: "inline_fragment list \<Rightarrow> int \<Rightarrow> inline_fragment list list option" where
  "splitFragments fragments maximumCharacters =
     map_option (\<lambda>st. if sp_current st \<noteq> [] then sp_chunks st @ [sp_current st] else sp_chunks st)
       (split_all maximumCharacters fragments \<lparr>sp_chunks = [], sp_current = [], sp_currentLength = 0\<rparr>)"

section \<open>Pagination\<close>

record page_box =
  bx_pw :: rat
  bx_ph :: rat
  bx_pad :: rat
  bx_fs :: rat

record page_metrics =
  mt_columns :: int
  mt_budget :: rat
  mt_paragraphCapacity :: int

definition page_metrics_of :: "(rat \<Rightarrow> rat) \<Rightarrow> page_box \<Rightarrow> page_metrics" where
  "page_metrics_of rnd box =
     (let columns = max 16 \<lfloor>rnd (rnd (rnd (bx_pw box - rnd (bx_pad box * 2)) - 6) /
            rnd (bx_fs box * rnd (505 / 1000)))\<rfloor>;
          rows = max 6 \<lfloor>rnd (rnd (rnd (bx_ph box - rnd (bx_pad box * 2)) - 26) /
            rnd (bx_fs box * rnd (172 / 100)))\<rfloor>;
          budget = rnd (of_int columns * of_int rows)
      in \<lparr>mt_columns = columns, mt_budget = budget,
          mt_paragraphCapacity =
            max columns \<lfloor>rnd (budget - rnd (of_int columns * rnd (65 / 100)))\<rfloor>\<rparr>)"

definition blockCost :: "(rat \<Rightarrow> rat) \<Rightarrow> page_metrics \<Rightarrow> prose_block_data \<Rightarrow> rat" where
  "blockCost rnd metrics content =
     (let columns = of_int (mt_columns metrics); len = of_int (blockLength content) in
      case content of
        Heading _ _ \<Rightarrow> rnd (len + rnd (columns * (5 / 2)))
      | Paragraph _ \<Rightarrow> rnd (len + rnd (columns * rnd (65 / 100)))
      | Quote _ \<Rightarrow> rnd (len + rnd (columns * rnd (12 / 10)))
      | Listing _ items \<Rightarrow>
          rnd (len + rnd (columns * rnd (1 + rnd (of_nat (length items) * rnd (65 / 100)))))
      | Image _ _ \<Rightarrow> max (rnd (columns * 6)) (rnd (mt_budget metrics * rnd (48 / 100)))
      | Break \<Rightarrow> rnd (columns * (3 / 2)))"

text \<open>The variables of the loop over the sections.\<close>

record paging =
  pg_output :: "text_reader_page list"
  pg_pageBlocks :: "rendered_prose_block list"
  pg_pageCost :: rat
  pg_sectionOffset :: int
  pg_pageOffset :: int

fun is_heading :: "prose_block_data \<Rightarrow> bool" where
  "is_heading (Heading _ _) = True"
| "is_heading _ = False"

definition pushPage :: "int \<Rightarrow> paging \<Rightarrow> paging" where
  "pushPage chapter st =
     (if pg_pageBlocks st = [] then st
      else st\<lparr>pg_output := pg_output st @ [
           \<lparr>tx_chapter = chapter, tx_at = pg_pageOffset st,
            tx_heading = map_option (plainText \<circ> rn_content)
              (find (is_heading \<circ> rn_content) (pg_pageBlocks st)),
            tx_paras = filter (\<lambda>para. para \<noteq> []) (map (plainText \<circ> rn_content) (pg_pageBlocks st)),
            tx_blocks = Some (pg_pageBlocks st),
            tx_folio = int_text (int (length (pg_output st)) + 1)\<rparr>],
         pg_pageBlocks := [], pg_pageCost := 0\<rparr>)"

fun place_chunks ::
    "(rat \<Rightarrow> rat) \<Rightarrow> page_metrics \<Rightarrow> int \<Rightarrow> string \<Rightarrow> inline_fragment list list \<Rightarrow> int \<Rightarrow> paging \<Rightarrow> paging" where
  "place_chunks rnd metrics chapter blockId [] consumed st = st"
| "place_chunks rnd metrics chapter blockId (fragments # chunks) consumed st =
     (let chunkLength = fragmentLength fragments; chunkContent = Paragraph fragments in
      place_chunks rnd metrics chapter blockId chunks (consumed + chunkLength)
        (pushPage chapter (st\<lparr>pg_pageOffset := pg_sectionOffset st + consumed,
           pg_pageBlocks := [\<lparr>rn_sourceBlockId = blockId, rn_sourceStartOffset = consumed,
             rn_sourceEndOffset = consumed + chunkLength, rn_content = chunkContent, rn_imageUrl = None\<rparr>],
           pg_pageCost := blockCost rnd metrics chunkContent\<rparr>)))"

definition image_url :: "prose_image_dto list \<Rightarrow> prose_block_data \<Rightarrow> string option" where
  "image_url images content = (case content of
     Image imageId _ \<Rightarrow> map_of (rev (map (\<lambda>image. (pi_id image, pi_url image)) images)) imageId
   | _ \<Rightarrow> None)"

definition place_block ::
    "(rat \<Rightarrow> rat) \<Rightarrow> page_metrics \<Rightarrow> prose_image_dto list \<Rightarrow> int \<Rightarrow> prose_block_dto \<Rightarrow> paging \<Rightarrow> paging" where
  "place_block rnd metrics images chapter block st =
     (let content = pb_content block; cost = blockCost rnd metrics content;
          st1 = (if pg_pageBlocks st \<noteq> [] \<and> rnd (pg_pageCost st + cost) > mt_budget metrics
            then (pushPage chapter st)\<lparr>pg_pageOffset := pg_sectionOffset st\<rparr> else st);
          st2 = (if pg_pageBlocks st1 = [] then st1\<lparr>pg_pageOffset := pg_sectionOffset st1\<rparr> else st1);
          imageUrl = image_url images content
      in st2\<lparr>pg_pageBlocks := pg_pageBlocks st2 @
           [\<lparr>rn_sourceBlockId = pb_id block, rn_sourceStartOffset = 0,
             rn_sourceEndOffset = proseBlockVisibleLength content, rn_content = content,
             rn_imageUrl = (if imageUrl = Some [] then None else imageUrl)\<rparr>],
         pg_pageCost := rnd (pg_pageCost st2 + cost),
         pg_sectionOffset := pg_sectionOffset st2 + blockLength content\<rparr>)"

definition too_long :: "(rat \<Rightarrow> rat) \<Rightarrow> page_metrics \<Rightarrow> prose_block_data \<Rightarrow> bool" where
  "too_long rnd metrics content \<longleftrightarrow>
     (case content of Paragraph _ \<Rightarrow> True | _ \<Rightarrow> False) \<and> blockCost rnd metrics content > mt_budget metrics"

fun paragraph_fragments :: "prose_block_data \<Rightarrow> inline_fragment list" where
  "paragraph_fragments (Paragraph fragments) = fragments"
| "paragraph_fragments _ = []"

fun page_blocks ::
    "(rat \<Rightarrow> rat) \<Rightarrow> page_metrics \<Rightarrow> prose_image_dto list \<Rightarrow> int \<Rightarrow> prose_block_dto list \<Rightarrow> paging \<Rightarrow> paging option" where
  "page_blocks rnd metrics images chapter [] st = Some st"
| "page_blocks rnd metrics images chapter (block # blocks) st =
     Option.bind
       (if too_long rnd metrics (pb_content block) then
          map_option (\<lambda>chunks.
              let st1 = place_chunks rnd metrics chapter (pb_id block) chunks 0
                    (if pg_pageBlocks st \<noteq> [] then pushPage chapter st else st);
                  sectionOffset = pg_sectionOffset st1 + blockLength (pb_content block)
              in st1\<lparr>pg_sectionOffset := sectionOffset, pg_pageOffset := sectionOffset\<rparr>)
            (splitFragments (paragraph_fragments (pb_content block)) (mt_paragraphCapacity metrics))
        else Some (place_block rnd metrics images chapter block st))
       (page_blocks rnd metrics images chapter blocks)"

fun page_sections ::
    "(rat \<Rightarrow> rat) \<Rightarrow> page_metrics \<Rightarrow> prose_image_dto list \<Rightarrow> prose_section_dto list \<Rightarrow>
      text_reader_page list \<Rightarrow> text_reader_page list option" where
  "page_sections rnd metrics images [] output = Some output"
| "page_sections rnd metrics images (sec # secs) output =
     Option.bind
       (page_blocks rnd metrics images (ps_ordinal sec) (ps_blocks sec)
         \<lparr>pg_output = output, pg_pageBlocks = [], pg_pageCost = 0, pg_sectionOffset = 0, pg_pageOffset = 0\<rparr>)
       (\<lambda>st. page_sections rnd metrics images secs (pg_output (pushPage (ps_ordinal sec) st)))"

definition prosePages ::
    "(rat \<Rightarrow> rat) \<Rightarrow> prose_section_dto list \<Rightarrow> prose_image_dto list \<Rightarrow> page_box \<Rightarrow> reader_page list option" where
  "prosePages rnd sections images box =
     map_option (map Text_page) (page_sections rnd (page_metrics_of rnd box) images sections [])"

definition comicPages :: "comic_page_dto list \<Rightarrow> reader_page list" where
  "comicPages pages = map (\<lambda>(index, page). Comic_page
     \<lparr>cx_sourcePageId = cp_id page, cx_chapter = 0, cx_at = int index,
      cx_folio = int_text (int index + 1),
      cx_layout = [(2, 2, ''Page '' @ int_text (cp_ordinal page))],
      cx_imageUrl = Some (cp_url page), cx_imageWidth = Some (cp_width page),
      cx_imageHeight = Some (cp_height page), cx_panels = Some (cp_panels page)\<rparr>) (enumerate 0 pages)"

fun paginatePublication :: "(rat \<Rightarrow> rat) \<Rightarrow> reader_document \<Rightarrow> page_box \<Rightarrow> reader_page list option" where
  "paginatePublication rnd (Prose_document sections images) box = prosePages rnd sections images box"
| "paginatePublication rnd (Comic_document _ pages) box = Some (comicPages pages)"

section \<open>Positions\<close>

definition documentBlock :: "prose_section_dto list \<Rightarrow> string \<Rightarrow> prose_block_dto option" where
  "documentBlock sections blockId =
     find (\<lambda>block. pb_id block = blockId) (concat (map ps_blocks sections))"

definition validRenderedBlock :: "rendered_prose_block \<Rightarrow> int \<Rightarrow> bool" where
  "validRenderedBlock block maximumOffset \<longleftrightarrow>
     rn_sourceStartOffset block \<ge> 0 \<and>
     rn_sourceEndOffset block \<ge> rn_sourceStartOffset block \<and>
     rn_sourceEndOffset block \<le> maximumOffset"

definition holds_offset :: "string \<Rightarrow> int \<Rightarrow> int \<Rightarrow> rendered_prose_block \<Rightarrow> bool" where
  "holds_offset blockId maximumOffset targetOffset rendered \<longleftrightarrow>
     rn_sourceBlockId rendered = blockId \<and> validRenderedBlock rendered maximumOffset \<and>
     (if maximumOffset = 0 then rn_sourceStartOffset rendered = 0 \<and> rn_sourceEndOffset rendered = 0
      else if targetOffset = maximumOffset
        then rn_sourceStartOffset rendered \<le> targetOffset \<and> targetOffset \<le> rn_sourceEndOffset rendered
      else rn_sourceStartOffset rendered \<le> targetOffset \<and> targetOffset < rn_sourceEndOffset rendered)"

definition find_page :: "('p \<Rightarrow> bool) \<Rightarrow> 'p list \<Rightarrow> nat option" where
  "find_page p pages = find (\<lambda>i. p (pages ! i)) [0..<length pages]"

fun text_blocks :: "reader_page \<Rightarrow> rendered_prose_block list" where
  "text_blocks (Text_page page) = (case tx_blocks page of None \<Rightarrow> [] | Some blocks \<Rightarrow> blocks)"
| "text_blocks _ = []"

fun shows_page :: "string \<Rightarrow> reader_page \<Rightarrow> bool" where
  "shows_page pageId (Comic_page page) = (cx_sourcePageId page = pageId)"
| "shows_page pageId _ = False"

fun pageIndexForLocation ::
    "reader_document \<Rightarrow> reader_page list \<Rightarrow> reader_location \<Rightarrow> nat option" where
  "pageIndexForLocation (Prose_document sections images) pages (Prose_location blockId offset) =
     (if offset < 0 then None
      else case documentBlock sections blockId of
        None \<Rightarrow> None
      | Some block \<Rightarrow>
          (let maximumOffset = proseBlockVisibleLength (pb_content block);
               targetOffset = min offset maximumOffset
           in find_page (\<lambda>page. list_ex (holds_offset (pb_id block) maximumOffset targetOffset)
                (text_blocks page)) pages))"
| "pageIndexForLocation (Prose_document sections images) pages (Comic_location _ _) = None"
| "pageIndexForLocation (Comic_document guided source) pages (Prose_location _ _) = None"
| "pageIndexForLocation (Comic_document guided source) pages (Comic_location pageId panelOrdinal) =
     (case find (\<lambda>page. cp_id page = pageId) source of
        None \<Rightarrow> None
      | Some sourcePage \<Rightarrow>
          if (case panelOrdinal of None \<Rightarrow> False | Some ordinal \<Rightarrow>
               \<not> guided \<or> \<not> list_ex (\<lambda>panel. pn_ordinal panel = ordinal) (cp_panels sourcePage))
          then None
          else find_page (shows_page (cp_id sourcePage)) pages)"

definition usable_block :: "prose_section_dto list \<Rightarrow> rendered_prose_block \<Rightarrow> bool" where
  "usable_block sections rendered = (case documentBlock sections (rn_sourceBlockId rendered) of
     None \<Rightarrow> False
   | Some block \<Rightarrow> validRenderedBlock rendered (proseBlockVisibleLength (pb_content block)))"

text \<open>\<^verbatim>\<open>localeCompare\<close> on the identifiers of panels is the parameter \<open>locale_compare\<close>.\<close>

definition compare_panels :: "(string \<Rightarrow> string \<Rightarrow> int) \<Rightarrow> panel_region \<Rightarrow> panel_region \<Rightarrow> int" where
  "compare_panels locale_compare left right =
     (if pn_ordinal left - pn_ordinal right \<noteq> 0 then pn_ordinal left - pn_ordinal right
      else locale_compare (pn_id left) (pn_id right))"

definition locationForPage ::
    "(string \<Rightarrow> string \<Rightarrow> int) \<Rightarrow> reader_document \<Rightarrow> reader_page list \<Rightarrow> int \<Rightarrow> comic_mode \<Rightarrow>
      reader_location option" where
  "locationForPage locale_compare doc pages pageIndex comicMode =
     (if pageIndex < 0 \<or> pageIndex \<ge> int (length pages) then None
      else case doc of
        Prose_document sections images \<Rightarrow>
          map_option (\<lambda>rendered. Prose_location (rn_sourceBlockId rendered) (rn_sourceStartOffset rendered))
            (find (usable_block sections) (text_blocks (pages ! nat pageIndex)))
      | Comic_document guided source \<Rightarrow>
          (case pages ! nat pageIndex of
             Comic_page page \<Rightarrow>
               (case find (\<lambda>candidate. cp_id candidate = cx_sourcePageId page) source of
                  None \<Rightarrow> None
                | Some sourcePage \<Rightarrow>
                    if comicMode = Page_mode then Some (Comic_location (cp_id sourcePage) None)
                    else if \<not> guided then None
                    else (case js_sort (compare_panels locale_compare) (cp_panels sourcePage) of
                        [] \<Rightarrow> None
                      | firstPanel # _ \<Rightarrow>
                          Some (Comic_location (cp_id sourcePage) (Some (pn_ordinal firstPanel)))))
           | _ \<Rightarrow> None))"


section \<open>Splitting keeps the text\<close>

lemma fold_add_lengths: "fold (\<lambda>x total. total + f x) xs (a :: int) = a + sum_list (map f xs)"
  by (induction xs arbitrary: a) auto

lemma fragmentLength_text: "fragmentLength fragments = int (length (fragments_text fragments))"
  by (induction fragments) (simp_all add: fragmentLength_def fragments_text_def fold_add_lengths)

lemma fragments_text_simps [simp]:
  "fragments_text [] = []" "fragments_text (f # fs) = if_text f @ fragments_text fs"
  "fragments_text (fs @ gs) = fragments_text fs @ fragments_text gs"
  by (simp_all add: fragments_text_def)

definition split_text :: "split_state \<Rightarrow> utf16" where
  "split_text st = concat (map fragments_text (sp_chunks st)) @ fragments_text (sp_current st)"

definition split_ok :: "int \<Rightarrow> split_state \<Rightarrow> bool" where
  "split_ok maximum st \<longleftrightarrow>
     sp_currentLength st = int (length (fragments_text (sp_current st))) \<and>
     sp_currentLength st < maximum \<and>
     list_all (\<lambda>chunk. fragments_text chunk \<noteq> []) (sp_chunks st) \<and>
     (sp_current st \<noteq> [] \<longrightarrow> fragments_text (sp_current st) \<noteq> [])"

lemma push_piece_simps [simp]:
  "sp_chunks (push_piece f piece st) = sp_chunks st"
  "sp_currentLength (push_piece f piece st) = sp_currentLength st + int (length piece)"
  "fragments_text (sp_current (push_piece f piece st)) = fragments_text (sp_current st) @ piece"
  by (simp_all add: push_piece_def)

lemma split_text_push_chunk [simp]: "split_text (push_chunk st) = split_text st"
  by (simp add: split_text_def push_chunk_def)

lemma split_step:
  fixes f :: inline_fragment
  assumes "split_ok maximum st" and "piece \<noteq> []"
    and "length piece \<le> nat (maximum - sp_currentLength st)"
  defines "st' \<equiv> push_piece f piece st"
  shows "split_ok maximum (if sp_currentLength st' \<ge> maximum then push_chunk st' else st')"
    and "split_text (if sp_currentLength st' \<ge> maximum then push_chunk st' else st') = split_text st @ piece"
proof -
  have txts: "fragments_text (sp_current st') = fragments_text (sp_current st) @ piece"
    and chunks: "sp_chunks st' = sp_chunks st"
    and len: "sp_currentLength st' = int (length (fragments_text (sp_current st')))"
    using assms(1) by (simp_all add: st'_def split_ok_def)
  have "split_ok maximum (push_chunk st')"
    using assms(1,2) txts chunks len unfolding split_ok_def push_chunk_def by auto
  moreover have "split_ok maximum st'" if "\<not> sp_currentLength st' \<ge> maximum"
    using assms(1,2) txts chunks len that unfolding split_ok_def by auto
  ultimately show "split_ok maximum (if sp_currentLength st' \<ge> maximum then push_chunk st' else st')" by simp
  have "split_text st' = split_text st @ piece" by (simp add: split_text_def txts chunks)
  then show "split_text (if sp_currentLength st' \<ge> maximum then push_chunk st' else st') = split_text st @ piece"
    by simp
qed

lemma split_fragment_returns:
  "split_ok maximum st \<Longrightarrow> \<exists>st'. split_fragment maximum f offset st = Some st' \<and> split_ok maximum st' \<and>
     split_text st' = split_text st @ drop offset (if_text f)"
proof (induction "length (if_text f) - offset" arbitrary: offset st rule: less_induct)
  case less
  show ?case
  proof (cases "offset < length (if_text f)")
    case False
    then show ?thesis using less.prems by (subst split_fragment.simps) simp
  next
    case True
    let ?available = "maximum - sp_currentLength st"
    define piece where "piece = take (nat ?available) (drop offset (if_text f))"
    have available: "?available > 0" using less.prems by (simp add: split_ok_def)
    then have piece: "piece \<noteq> []" "length piece \<le> nat ?available" using True by (auto simp: piece_def)
    define st1 where "st1 = (if sp_currentLength (push_piece f piece st) \<ge> maximum
      then push_chunk (push_piece f piece st) else push_piece f piece st)"
    note step = split_step [OF less.prems piece, of f, folded st1_def]
    have "length (if_text f) - (offset + length piece) < length (if_text f) - offset"
      using True piece by (simp add: diff_less_mono2)
    from less.hyps [OF this step(1)] obtain st2 where st2:
      "split_fragment maximum f (offset + length piece) st1 = Some st2" "split_ok maximum st2"
      "split_text st2 = split_text st1 @ drop (offset + length piece) (if_text f)" by blast
    have "split_fragment maximum f offset st = split_fragment maximum f (offset + length piece) st1"
      using True available by (subst split_fragment.simps) (simp add: Let_def piece_def st1_def)
    moreover have "piece @ drop (offset + length piece) (if_text f) = drop offset (if_text f)"
    proof -
      have "piece @ drop (length piece) (drop offset (if_text f)) = drop offset (if_text f)"
        by (simp add: piece_def min_def del: drop_drop)
      then show ?thesis by (simp add: add.commute)
    qed
    ultimately show ?thesis using st2 step(2) by simp
  qed
qed

lemma split_all_returns:
  "split_ok maximum st \<Longrightarrow> \<exists>st'. split_all maximum fragments st = Some st' \<and> split_ok maximum st' \<and>
     split_text st' = split_text st @ fragments_text fragments"
proof (induction fragments arbitrary: st)
  case (Cons f fragments)
  from split_fragment_returns [OF Cons.prems, of f 0] obtain st1 where st1:
    "split_fragment maximum f 0 st = Some st1" "split_ok maximum st1"
    "split_text st1 = split_text st @ if_text f" by auto
  from Cons.IH [OF st1(2)] st1 show ?case by simp
qed simp

lemma splitFragments_returns:
  assumes "maximum > 0"
  obtains chunks where "splitFragments fragments maximum = Some chunks"
    and "concat (map fragments_text chunks) = fragments_text fragments"
    and "list_all (\<lambda>chunk. fragments_text chunk \<noteq> []) chunks"
proof -
  have "split_ok maximum \<lparr>sp_chunks = [], sp_current = [], sp_currentLength = 0\<rparr>"
    using assms by (simp add: split_ok_def)
  from split_all_returns [OF this, of fragments] obtain st where st:
    "split_all maximum fragments \<lparr>sp_chunks = [], sp_current = [], sp_currentLength = 0\<rparr> = Some st"
    "split_ok maximum st" "split_text st = fragments_text fragments" by (auto simp: split_text_def)
  show ?thesis
    by (rule that [of "if sp_current st \<noteq> [] then sp_chunks st @ [sp_current st] else sp_chunks st"])
      (use st in \<open>auto simp: splitFragments_def split_ok_def split_text_def\<close>)
qed

section \<open>The pieces of a block\<close>

text \<open>The text positions count in: \<^const>\<open>plainText\<close> without the marks of a list.\<close>

fun block_text :: "prose_block_data \<Rightarrow> utf16" where
  "block_text (Heading _ fragments) = fragments_text fragments"
| "block_text (Paragraph fragments) = fragments_text fragments"
| "block_text (Quote fragments) = fragments_text fragments"
| "block_text (Listing _ items) = concat (map fragments_text items)"
| "block_text (Image _ _) = []"
| "block_text Break = []"

lemma sum_list_lengths: "sum_list (map (\<lambda>x. int (length (f x))) xs) = int (length (concat (map f xs)))"
  by (induction xs) auto

lemma visible_length: "proseBlockVisibleLength content = int (length (block_text content))"
  by (cases content) (simp_all add: fragmentLength_text fold_add_lengths sum_list_lengths)

fun chunk_pieces :: "string \<Rightarrow> inline_fragment list list \<Rightarrow> int \<Rightarrow> rendered_prose_block list" where
  "chunk_pieces blockId [] consumed = []"
| "chunk_pieces blockId (fragments # chunks) consumed =
     \<lparr>rn_sourceBlockId = blockId, rn_sourceStartOffset = consumed,
       rn_sourceEndOffset = consumed + fragmentLength fragments, rn_content = Paragraph fragments,
       rn_imageUrl = None\<rparr> # chunk_pieces blockId chunks (consumed + fragmentLength fragments)"

definition whole_piece :: "prose_image_dto list \<Rightarrow> prose_block_dto \<Rightarrow> rendered_prose_block" where
  "whole_piece images block = \<lparr>rn_sourceBlockId = pb_id block, rn_sourceStartOffset = 0,
     rn_sourceEndOffset = proseBlockVisibleLength (pb_content block), rn_content = pb_content block,
     rn_imageUrl = (if image_url images (pb_content block) = Some [] then None
       else image_url images (pb_content block))\<rparr>"

definition pieces ::
    "(rat \<Rightarrow> rat) \<Rightarrow> page_metrics \<Rightarrow> prose_image_dto list \<Rightarrow> prose_block_dto \<Rightarrow> rendered_prose_block list" where
  "pieces rnd metrics images block =
     (if too_long rnd metrics (pb_content block) then
        chunk_pieces (pb_id block)
          (the (splitFragments (paragraph_fragments (pb_content block)) (mt_paragraphCapacity metrics))) 0
      else [whole_piece images block])"

text \<open>What the pages so far show, in order, and that no page is empty.\<close>

definition page_content :: "text_reader_page list \<Rightarrow> rendered_prose_block list" where
  "page_content pages = concat (map (text_blocks \<circ> Text_page) pages)"

definition pages_filled :: "text_reader_page list \<Rightarrow> bool" where
  "pages_filled pages \<longleftrightarrow> list_all (\<lambda>page. text_blocks (Text_page page) \<noteq> []) pages"

definition shown :: "paging \<Rightarrow> rendered_prose_block list" where
  "shown st = page_content (pg_output st) @ pg_pageBlocks st"

lemma push_page [simp]:
  "shown (pushPage chapter st) = shown st"
  "pg_pageBlocks (pushPage chapter st) = []"
  "pages_filled (pg_output st) \<Longrightarrow> pages_filled (pg_output (pushPage chapter st))"
  "pg_sectionOffset (pushPage chapter st) = pg_sectionOffset st"
  by (auto simp: pushPage_def shown_def pages_filled_def page_content_def)

lemma page_content_push: "page_content (pg_output (pushPage chapter st)) = shown st"
  using push_page(1,2) [of "chapter" st] by (simp add: shown_def)

lemma shown_update [simp]:
  "shown (st\<lparr>pg_pageCost := c\<rparr>) = shown st" "shown (st\<lparr>pg_sectionOffset := a\<rparr>) = shown st"
  "shown (st\<lparr>pg_pageOffset := b\<rparr>) = shown st"
  by (simp_all add: shown_def)

lemma place_chunks_shown:
  "pg_pageBlocks st = [] \<Longrightarrow> pages_filled (pg_output st) \<Longrightarrow>
     shown (place_chunks rnd metrics chapter blockId chunks consumed st) =
       shown st @ chunk_pieces blockId chunks consumed \<and>
     pages_filled (pg_output (place_chunks rnd metrics chapter blockId chunks consumed st))"
proof (induction chunks arbitrary: consumed st)
  case (Cons fragments chunks)
  let ?st = "st\<lparr>pg_pageOffset := pg_sectionOffset st + consumed,
      pg_pageBlocks := [\<lparr>rn_sourceBlockId = blockId, rn_sourceStartOffset = consumed,
        rn_sourceEndOffset = consumed + fragmentLength fragments, rn_content = Paragraph fragments,
        rn_imageUrl = None\<rparr>], pg_pageCost := blockCost rnd metrics (Paragraph fragments)\<rparr>"
  have "shown ?st = shown st @ [\<lparr>rn_sourceBlockId = blockId, rn_sourceStartOffset = consumed,
        rn_sourceEndOffset = consumed + fragmentLength fragments, rn_content = Paragraph fragments,
        rn_imageUrl = None\<rparr>]"
    using Cons.prems(1) by (simp add: shown_def)
  moreover have "pages_filled (pg_output (pushPage chapter ?st))" using Cons.prems(2) by simp
  ultimately show ?case using Cons.IH [of "pushPage chapter ?st" "consumed + fragmentLength fragments"]
    by (simp add: Let_def)
qed simp

lemma place_block_shown:
  assumes "pages_filled (pg_output st)"
  shows "shown (place_block rnd metrics images chapter block st) = shown st @ [whole_piece images block] \<and>
    pages_filled (pg_output (place_block rnd metrics images chapter block st))"
proof -
  define st1 where "st1 = (if pg_pageBlocks st \<noteq> [] \<and>
      rnd (pg_pageCost st + blockCost rnd metrics (pb_content block)) > mt_budget metrics
    then (pushPage chapter st)\<lparr>pg_pageOffset := pg_sectionOffset st\<rparr> else st)"
  define st2 where "st2 = (if pg_pageBlocks st1 = [] then st1\<lparr>pg_pageOffset := pg_sectionOffset st1\<rparr> else st1)"
  have "shown st2 = shown st" "pages_filled (pg_output st2)"
    using assms by (auto simp: st1_def st2_def)
  then show ?thesis
    unfolding place_block_def Let_def st1_def [symmetric] st2_def [symmetric]
    by (simp add: shown_def whole_piece_def)
qed

lemma page_blocks_shown:
  "mt_paragraphCapacity metrics > 0 \<Longrightarrow> pages_filled (pg_output st) \<Longrightarrow>
     \<exists>st'. page_blocks rnd metrics images chapter blocks st = Some st' \<and>
       shown st' = shown st @ concat (map (pieces rnd metrics images) blocks) \<and> pages_filled (pg_output st')"
proof (induction blocks arbitrary: st)
  case (Cons block blocks)
  show ?case
  proof (cases "too_long rnd metrics (pb_content block)")
    case False
    then show ?thesis
      using Cons.IH [OF Cons.prems(1), of "place_block rnd metrics images chapter block st"]
        place_block_shown [OF Cons.prems(2), of rnd metrics images "chapter" block]
      by (auto simp: pieces_def)
  next
    case True
    obtain chunks where chunks: "splitFragments (paragraph_fragments (pb_content block))
        (mt_paragraphCapacity metrics) = Some chunks"
      by (rule splitFragments_returns [OF Cons.prems(1)])
    define st0 where "st0 = (if pg_pageBlocks st \<noteq> [] then pushPage chapter st else st)"
    have "pg_pageBlocks st0 = []" "pages_filled (pg_output st0)" "shown st0 = shown st"
      using Cons.prems(2) by (auto simp: st0_def)
    with place_chunks_shown [of st0 rnd metrics "chapter" "pb_id block" chunks 0]
    show ?thesis using True chunks
        Cons.IH [OF Cons.prems(1), of "place_chunks rnd metrics chapter (pb_id block) chunks 0 st0
          \<lparr>pg_sectionOffset := pg_sectionOffset (place_chunks rnd metrics chapter (pb_id block) chunks 0 st0) +
             blockLength (pb_content block),
           pg_pageOffset := pg_sectionOffset (place_chunks rnd metrics chapter (pb_id block) chunks 0 st0) +
             blockLength (pb_content block)\<rparr>"]
      by (simp add: pieces_def Let_def st0_def)
  qed
qed simp

lemma capacity_positive: "mt_paragraphCapacity (page_metrics_of rnd box) > 0"
  by (simp add: page_metrics_of_def Let_def less_max_iff_disj)

lemma page_sections_shown:
  "pages_filled pages \<Longrightarrow>
     \<exists>pages'. page_sections rnd (page_metrics_of rnd box) images secs pages = Some pages' \<and>
       page_content pages' = page_content pages @
         concat (map (pieces rnd (page_metrics_of rnd box) images) (concat (map ps_blocks secs))) \<and>
       pages_filled pages'"
proof (induction secs arbitrary: pages)
  case (Cons sec secs)
  let ?st = "\<lparr>pg_output = pages, pg_pageBlocks = [], pg_pageCost = 0, pg_sectionOffset = 0, pg_pageOffset = 0\<rparr>"
  from page_blocks_shown [OF capacity_positive [of rnd box], of ?st rnd images "ps_ordinal sec" "ps_blocks sec"]
    Cons.prems obtain st where st:
    "page_blocks rnd (page_metrics_of rnd box) images (ps_ordinal sec) (ps_blocks sec) ?st = Some st"
    "shown st = shown ?st @ concat (map (pieces rnd (page_metrics_of rnd box) images) (ps_blocks sec))"
    "pages_filled (pg_output st)" by auto
  from Cons.IH [of "pg_output (pushPage (ps_ordinal sec) st)"] st show ?case
    by (auto simp: page_content_push shown_def [of ?st])
qed simp

section \<open>What a piece shows\<close>

definition shows_slice :: "prose_block_dto \<Rightarrow> rendered_prose_block \<Rightarrow> bool" where
  "shows_slice block r \<longleftrightarrow>
     rn_sourceBlockId r = pb_id block \<and>
     validRenderedBlock r (proseBlockVisibleLength (pb_content block)) \<and>
     block_text (rn_content r) =
       take (nat (rn_sourceEndOffset r - rn_sourceStartOffset r))
         (drop (nat (rn_sourceStartOffset r)) (block_text (pb_content block)))"

definition piece_before :: "rendered_prose_block \<Rightarrow> rendered_prose_block \<Rightarrow> bool" where
  "piece_before r r' \<longleftrightarrow> rn_sourceEndOffset r \<le> rn_sourceStartOffset r'"

lemma chunk_pieces_slice:
  "r \<in> set (chunk_pieces blockId chunks consumed) \<Longrightarrow>
     rn_sourceBlockId r = blockId \<and> consumed \<le> rn_sourceStartOffset r \<and>
     rn_sourceEndOffset r = rn_sourceStartOffset r + int (length (block_text (rn_content r))) \<and>
     rn_sourceEndOffset r \<le> consumed + int (length (concat (map fragments_text chunks))) \<and>
     block_text (rn_content r) =
       take (nat (rn_sourceEndOffset r - rn_sourceStartOffset r))
         (drop (nat (rn_sourceStartOffset r - consumed)) (concat (map fragments_text chunks)))"
proof (induction chunks arbitrary: consumed)
  case (Cons fragments chunks)
  show ?case
  proof (cases "r \<in> set (chunk_pieces blockId chunks (consumed + fragmentLength fragments))")
    case True
    from Cons.IH [OF this] have ih: "rn_sourceBlockId r = blockId"
      "consumed + fragmentLength fragments \<le> rn_sourceStartOffset r"
      "rn_sourceEndOffset r = rn_sourceStartOffset r + int (length (block_text (rn_content r)))"
      "rn_sourceEndOffset r \<le> consumed + fragmentLength fragments + int (length (concat (map fragments_text chunks)))"
      "block_text (rn_content r) = take (nat (rn_sourceEndOffset r - rn_sourceStartOffset r))
         (drop (nat (rn_sourceStartOffset r - (consumed + fragmentLength fragments))) (concat (map fragments_text chunks)))"
      by blast+
    have "nat (rn_sourceStartOffset r - consumed) = length (fragments_text fragments) +
        nat (rn_sourceStartOffset r - (consumed + fragmentLength fragments))"
      using ih(2) by (simp add: fragmentLength_text)
    then have "drop (nat (rn_sourceStartOffset r - consumed)) (concat (map fragments_text (fragments # chunks))) =
        drop (nat (rn_sourceStartOffset r - (consumed + fragmentLength fragments))) (concat (map fragments_text chunks))"
      by simp
    with ih show ?thesis by (simp add: fragmentLength_text)
  next
    case False
    then show ?thesis using Cons.prems by (auto simp: fragmentLength_text)
  qed
qed simp

lemma chunk_pieces_sorted: "sorted_wrt piece_before (chunk_pieces blockId chunks consumed)"
  by (induction chunks arbitrary: consumed) (auto simp: piece_before_def dest!: chunk_pieces_slice)

lemma chunk_pieces_text:
  "concat (map (block_text \<circ> rn_content) (chunk_pieces blockId chunks consumed)) = concat (map fragments_text chunks)"
  by (induction chunks arbitrary: consumed) auto

lemma chunk_pieces_nonempty:
  "list_all (\<lambda>chunk. fragments_text chunk \<noteq> []) chunks \<Longrightarrow>
     r \<in> set (chunk_pieces blockId chunks consumed) \<Longrightarrow> rn_sourceStartOffset r < rn_sourceEndOffset r"
  by (induction chunks arbitrary: consumed) (auto simp: fragmentLength_text)

lemma chunk_pieces_cover:
  "consumed \<le> offset \<Longrightarrow> offset < consumed + int (length (concat (map fragments_text chunks))) \<Longrightarrow>
     \<exists>r \<in> set (chunk_pieces blockId chunks consumed).
       rn_sourceStartOffset r \<le> offset \<and> offset < rn_sourceEndOffset r"
proof (induction chunks arbitrary: consumed)
  case (Cons fragments chunks)
  show ?case
  proof (cases "offset < consumed + fragmentLength fragments")
    case True
    then show ?thesis using Cons.prems by auto
  next
    case False
    then show ?thesis
      using Cons.IH [of "consumed + fragmentLength fragments"] Cons.prems by (auto simp: fragmentLength_text)
  qed
qed simp

text \<open>
  The pieces of a block: slices of its text, in order, that add up to the text; a block in several
  pieces has no empty one.
\<close>

lemma pieces_split:
  assumes "mt_paragraphCapacity metrics > 0" and "too_long rnd metrics (pb_content block)"
  obtains chunks where "pieces rnd metrics images block = chunk_pieces (pb_id block) chunks 0"
    and "concat (map fragments_text chunks) = block_text (pb_content block)"
    and "list_all (\<lambda>chunk. fragments_text chunk \<noteq> []) chunks"
proof -
  have "fragments_text (paragraph_fragments (pb_content block)) = block_text (pb_content block)"
    using assms(2) by (cases "pb_content block") (auto simp: too_long_def)
  then show ?thesis
    using that assms(2) splitFragments_returns [OF assms(1), of "paragraph_fragments (pb_content block)"]
    by (metis option.sel pieces_def)
qed

lemma pieces_text:
  assumes "mt_paragraphCapacity metrics > 0"
  shows "concat (map (block_text \<circ> rn_content) (pieces rnd metrics images block)) = block_text (pb_content block)"
proof (cases "too_long rnd metrics (pb_content block)")
  case True
  from pieces_split [OF assms True, of images] obtain chunks where
    "pieces rnd metrics images block = chunk_pieces (pb_id block) chunks 0"
    "concat (map fragments_text chunks) = block_text (pb_content block)" by metis
  then show ?thesis by (simp add: chunk_pieces_text)
qed (simp add: pieces_def whole_piece_def)

lemma whole_slice: "shows_slice block (whole_piece images block)"
  by (simp add: shows_slice_def whole_piece_def validRenderedBlock_def visible_length)

lemma pieces_slice:
  assumes "mt_paragraphCapacity metrics > 0" and "r \<in> set (pieces rnd metrics images block)"
  shows "shows_slice block r"
proof (cases "too_long rnd metrics (pb_content block)")
  case True
  from pieces_split [OF assms(1) True, of images] obtain chunks where chunks:
    "pieces rnd metrics images block = chunk_pieces (pb_id block) chunks 0"
    "concat (map fragments_text chunks) = block_text (pb_content block)" by metis
  then have r: "r \<in> set (chunk_pieces (pb_id block) chunks 0)" using assms(2) by simp
  note facts = chunk_pieces_slice [OF r, unfolded chunks(2) add_0 diff_zero]
  have "rn_sourceEndOffset r \<ge> rn_sourceStartOffset r" using facts by linarith
  with facts show ?thesis
    unfolding shows_slice_def validRenderedBlock_def visible_length by blast
next
  case False
  then show ?thesis using assms(2) by (simp add: pieces_def whole_slice)
qed

lemma pieces_ordered:
  assumes "mt_paragraphCapacity metrics > 0"
  shows "sorted_wrt piece_before (pieces rnd metrics images block)"
    and "length (pieces rnd metrics images block) = 1 \<or>
      list_all (\<lambda>r. rn_sourceStartOffset r < rn_sourceEndOffset r) (pieces rnd metrics images block)"
proof -
  have "sorted_wrt piece_before (pieces rnd metrics images block) \<and>
    (length (pieces rnd metrics images block) = 1 \<or>
      list_all (\<lambda>r. rn_sourceStartOffset r < rn_sourceEndOffset r) (pieces rnd metrics images block))"
  proof (cases "too_long rnd metrics (pb_content block)")
    case True
    from pieces_split [OF assms True, of images] obtain chunks where
      "pieces rnd metrics images block = chunk_pieces (pb_id block) chunks 0"
      "list_all (\<lambda>chunk. fragments_text chunk \<noteq> []) chunks" by metis
    then show ?thesis by (auto simp: chunk_pieces_sorted list_all_iff intro: chunk_pieces_nonempty)
  qed (simp add: pieces_def)
  then show "sorted_wrt piece_before (pieces rnd metrics images block)"
    "length (pieces rnd metrics images block) = 1 \<or>
      list_all (\<lambda>r. rn_sourceStartOffset r < rn_sourceEndOffset r) (pieces rnd metrics images block)" by blast+
qed

section \<open>Where a position is shown\<close>

lemma sorted_wrt_pair:
  "sorted_wrt R xs \<Longrightarrow> x \<in> set xs \<Longrightarrow> y \<in> set xs \<Longrightarrow> x \<noteq> y \<Longrightarrow> R x y \<or> R y x"
  by (induction xs) auto

lemma pieces_distinct:
  assumes "mt_paragraphCapacity metrics > 0"
  shows "distinct (pieces rnd metrics images block)"
proof -
  have "distinct rs" if "sorted_wrt piece_before rs"
    "list_all (\<lambda>r. rn_sourceStartOffset r < rn_sourceEndOffset r) rs" for rs
    using that by (induction rs) (fastforce simp: piece_before_def list_all_iff)+
  then show ?thesis using pieces_ordered [OF assms, of rnd images block]
    by (metis card_length distinct_card length_Suc_conv One_nat_def length_0_conv distinct_singleton)
qed

lemma pieces_hold_once:
  assumes cap: "mt_paragraphCapacity metrics > 0"
    and r: "r \<in> set (pieces rnd metrics images block)" and r': "r' \<in> set (pieces rnd metrics images block)"
    and holds: "holds_offset (pb_id block) (proseBlockVisibleLength (pb_content block)) offset r"
      "holds_offset (pb_id block) (proseBlockVisibleLength (pb_content block)) offset r'"
  shows "r = r'"
proof (cases "length (pieces rnd metrics images block) = 1")
  case True
  then show ?thesis using r r' by (auto simp: length_Suc_conv)
next
  case False
  then have nonempty: "list_all (\<lambda>r. rn_sourceStartOffset r < rn_sourceEndOffset r) (pieces rnd metrics images block)"
    using pieces_ordered(2) [OF cap] by blast
  then have "rn_sourceStartOffset r < rn_sourceEndOffset r" "rn_sourceStartOffset r' < rn_sourceEndOffset r'"
    using r r' by (auto simp: list_all_iff)
  then have "\<not> piece_before r r' \<and> \<not> piece_before r' r"
    using holds by (auto simp: holds_offset_def piece_before_def validRenderedBlock_def split: if_splits)
  then show ?thesis using sorted_wrt_pair [OF pieces_ordered(1) [OF cap] r r'] by blast
qed

lemma pieces_hold_start:
  assumes cap: "mt_paragraphCapacity metrics > 0" and r: "r \<in> set (pieces rnd metrics images block)"
  shows "holds_offset (pb_id block) (proseBlockVisibleLength (pb_content block))
    (min (rn_sourceStartOffset r) (proseBlockVisibleLength (pb_content block))) r"
proof (cases "rn_sourceStartOffset r < rn_sourceEndOffset r")
  case True
  then show ?thesis using pieces_slice [OF cap r]
    by (auto simp: holds_offset_def shows_slice_def validRenderedBlock_def)
next
  case False
  then have "length (pieces rnd metrics images block) = 1"
    using pieces_ordered(2) [OF cap, of rnd images block] r by (auto simp: list_all_iff)
  then have "r = whole_piece images block \<or> too_long rnd metrics (pb_content block)"
    using r by (auto simp: pieces_def)
  moreover have "rn_sourceStartOffset r < rn_sourceEndOffset r" if "too_long rnd metrics (pb_content block)"
    using pieces_split [OF cap that, of images] r chunk_pieces_nonempty by metis
  ultimately show ?thesis using False pieces_slice [OF cap r]
    by (auto simp: holds_offset_def shows_slice_def validRenderedBlock_def whole_piece_def)
qed

text \<open>
  Rounding: monotone, idempotent, and exact on one. A paragraph without text is then never too long
  for a page.
\<close>

definition rounding :: "(rat \<Rightarrow> rat) \<Rightarrow> bool" where
  "rounding rnd \<longleftrightarrow> mono rnd \<and> (\<forall>x. rnd (rnd x) = rnd x) \<and> rnd 1 = 1"

lemma empty_not_too_long:
  assumes "rounding rnd" and "proseBlockVisibleLength content = 0"
  shows "\<not> too_long rnd (page_metrics_of rnd box) content"
proof
  assume long: "too_long rnd (page_metrics_of rnd box) content"
  let ?c = "of_int (mt_columns (page_metrics_of rnd box)) :: rat"
  have c: "?c \<ge> 0" by (simp add: page_metrics_of_def Let_def)
  obtain rows :: int where rows: "rows \<ge> 6" "mt_budget (page_metrics_of rnd box) = rnd (?c * of_int rows)"
    by (rule that [of "max 6 \<lfloor>rnd (rnd (rnd (bx_ph box - rnd (bx_pad box * 2)) - 26) /
        rnd (bx_fs box * rnd (172 / 100)))\<rfloor>"]) (simp_all only: page_metrics_of_def Let_def
        page_metrics.simps max.cobounded1)
  have mono: "\<And>x y. x \<le> y \<Longrightarrow> rnd x \<le> rnd y" using assms(1) by (simp add: rounding_def monoD)
  have "rnd (65 / 100) \<le> 1" using mono [of "65 / 100" 1] assms(1) by (simp add: rounding_def)
  then have "?c * rnd (65 / 100) \<le> ?c" using c by (simp add: mult_left_le)
  also have "?c \<le> ?c * of_int rows" using c rows(1) by (simp add: mult_le_cancel_left1)
  finally have "rnd (?c * rnd (65 / 100)) \<le> rnd (?c * of_int rows)" by (rule mono)
  moreover have "blockCost rnd (page_metrics_of rnd box) content = rnd (?c * rnd (65 / 100))"
    using long assms by (cases content) (auto simp: too_long_def blockCost_def rounding_def Let_def)
  ultimately show False using long rows(2) by (simp add: too_long_def)
qed

lemma pieces_cover:
  fixes box :: page_box
  assumes "rounding rnd" and "offset \<ge> 0"
  defines "metrics \<equiv> page_metrics_of rnd box"
  shows "\<exists>r \<in> set (pieces rnd metrics images block).
    holds_offset (pb_id block) (proseBlockVisibleLength (pb_content block))
      (min offset (proseBlockVisibleLength (pb_content block))) r"
proof (cases "too_long rnd metrics (pb_content block)")
  case False
  then show ?thesis using assms(2)
    by (auto simp: pieces_def whole_piece_def holds_offset_def validRenderedBlock_def visible_length)
next
  case True
  let ?max = "proseBlockVisibleLength (pb_content block)"
  let ?target = "if offset \<ge> ?max then ?max - 1 else offset"
  have cap: "mt_paragraphCapacity metrics > 0" by (simp add: metrics_def capacity_positive)
  have max: "?max > 0"
    using empty_not_too_long [OF assms(1), of "pb_content block" box] True
    by (cases "?max = 0") (auto simp: metrics_def visible_length)
  from pieces_split [OF cap True, of images] obtain chunks where chunks:
    "pieces rnd metrics images block = chunk_pieces (pb_id block) chunks 0"
    "concat (map fragments_text chunks) = block_text (pb_content block)" by metis
  have "0 \<le> ?target" "?target < 0 + int (length (concat (map fragments_text chunks)))"
    using max assms(2) chunks(2) by (auto simp: visible_length)
  from chunk_pieces_cover [OF this, of "pb_id block"] obtain r where
    r: "r \<in> set (pieces rnd metrics images block)"
      "rn_sourceStartOffset r \<le> ?target" "?target < rn_sourceEndOffset r" using chunks(1) by auto
  moreover have "shows_slice block r" using pieces_slice [OF cap r(1)] .
  ultimately show ?thesis using max
    by (intro bexI [of _ r]) (auto simp: holds_offset_def shows_slice_def validRenderedBlock_def split: if_splits)
qed

section \<open>Positions and pages\<close>

definition document_blocks :: "prose_section_dto list \<Rightarrow> prose_block_dto list" where
  "document_blocks sections = concat (map ps_blocks sections)"

fun distinct_ids :: "reader_document \<Rightarrow> bool" where
  "distinct_ids (Prose_document sections images) = distinct (map pb_id (document_blocks sections))"
| "distinct_ids (Comic_document guided pages) = distinct (map cp_id pages)"

text \<open>The positions of a document, as the server checks them when it stores one.\<close>

fun position_in :: "reader_document \<Rightarrow> reader_location \<Rightarrow> bool" where
  "position_in (Prose_document sections images) (Prose_location blockId offset) =
     (case documentBlock sections blockId of None \<Rightarrow> False
      | Some block \<Rightarrow> 0 \<le> offset \<and> offset \<le> proseBlockVisibleLength (pb_content block))"
| "position_in (Comic_document guided pages) (Comic_location pageId panelOrdinal) =
     (case find (\<lambda>page. cp_id page = pageId) pages of None \<Rightarrow> False
      | Some page \<Rightarrow> (case panelOrdinal of None \<Rightarrow> True
          | Some ordinal \<Rightarrow> guided \<and> list_ex (\<lambda>panel. pn_ordinal panel = ordinal) (cp_panels page)))"
| "position_in _ _ = False"

lemma find_page_Some:
  "find_page p pages = Some i \<longleftrightarrow> i < length pages \<and> p (pages ! i) \<and> (\<forall>j < i. \<not> p (pages ! j))"
  by (auto simp: find_page_def find_Some_iff)

lemma find_page_first:
  assumes "i < length pages" and "p (pages ! i)" and "\<And>j. j < length pages \<Longrightarrow> p (pages ! j) \<Longrightarrow> j = i"
  shows "find_page p pages = Some i"
  unfolding find_page_Some using assms by (metis less_trans nat_neq_iff)

lemma find_page_total:
  assumes "page \<in> set pages" and "p page"
  shows "\<exists>i. find_page p pages = Some i \<and> i < length pages"
proof -
  obtain j where "j < length pages" "p (pages ! j)" using assms by (metis in_set_conv_nth)
  then have "find_page p pages \<noteq> None" by (auto simp: find_page_def find_None_iff)
  then show ?thesis by (auto simp: find_page_Some)
qed

lemma distinct_concat_nth:
  "distinct (concat xss) \<Longrightarrow> i < length xss \<Longrightarrow> j < length xss \<Longrightarrow> x \<in> set (xss ! i) \<Longrightarrow> x \<in> set (xss ! j) \<Longrightarrow> i = j"
proof (induction xss arbitrary: i j)
  case (Cons xs xss)
  then show ?case by (cases i; cases j) (fastforce dest: nth_mem)+
qed simp

lemma prosePages_shown:
  obtains tps where "prosePages rnd sections images box = Some (map Text_page tps)"
    and "page_content tps = concat (map (pieces rnd (page_metrics_of rnd box) images) (document_blocks sections))"
    and "pages_filled tps"
  using page_sections_shown [of "[]" rnd box images sections] that
  by (fastforce simp: prosePages_def page_content_def pages_filled_def document_blocks_def)

lemma pieces_block: "mt_paragraphCapacity metrics > 0 \<Longrightarrow> r \<in> set (pieces rnd metrics images block) \<Longrightarrow>
    rn_sourceBlockId r = pb_id block"
  using pieces_slice by (auto simp: shows_slice_def)

lemma distinct_rendered:
  "mt_paragraphCapacity metrics > 0 \<Longrightarrow> distinct (map pb_id blocks) \<Longrightarrow>
     distinct (concat (map (pieces rnd metrics images) blocks))"
proof (induction blocks)
  case (Cons block blocks)
  have "set (pieces rnd metrics images block) \<inter> set (concat (map (pieces rnd metrics images) blocks)) = {}"
  proof (rule ccontr)
    assume "\<not> ?thesis"
    then obtain r b where "r \<in> set (pieces rnd metrics images block)" "b \<in> set blocks"
      "r \<in> set (pieces rnd metrics images b)" by auto
    then have "pb_id block \<in> pb_id ` set blocks" using pieces_block [OF Cons.prems(1)] by (metis imageI)
    then show False using Cons.prems(2) by simp
  qed
  then show ?case using Cons pieces_distinct by simp
qed simp

lemma rendered_hold_once:
  assumes cap: "mt_paragraphCapacity metrics > 0" and ids: "distinct (map pb_id blocks)" and block: "block \<in> set blocks"
    and r: "r \<in> set (concat (map (pieces rnd metrics images) blocks))"
      "r' \<in> set (concat (map (pieces rnd metrics images) blocks))"
    and holds: "holds_offset (pb_id block) (proseBlockVisibleLength (pb_content block)) offset r"
      "holds_offset (pb_id block) (proseBlockVisibleLength (pb_content block)) offset r'"
  shows "r = r'"
proof -
  have own: "r \<in> set (pieces rnd metrics images block)"
    if "r \<in> set (concat (map (pieces rnd metrics images) blocks))" "rn_sourceBlockId r = pb_id block" for r
  proof -
    from that(1) obtain b where b: "b \<in> set blocks" "r \<in> set (pieces rnd metrics images b)" by auto
    then have "pb_id b = pb_id block" using pieces_block [OF cap b(2)] that(2) by simp
    then have "b = block" using ids b(1) block by (auto simp: distinct_map dest: inj_onD)
    then show ?thesis using b(2) by simp
  qed
  show ?thesis using pieces_hold_once [OF cap own own holds] r holds by (auto simp: holds_offset_def)
qed

lemma documentBlock_own:
  "distinct (map pb_id (document_blocks sections)) \<Longrightarrow> block \<in> set (document_blocks sections) \<Longrightarrow>
     documentBlock sections (pb_id block) = Some block"
  unfolding documentBlock_def document_blocks_def by (rule find_row_key)

lemma prose_position_roundtrip:
  assumes ids: "distinct (map pb_id (document_blocks sections))"
    and pages: "prosePages rnd sections images box = Some pages" and i: "i < length pages"
  shows "\<exists>l. locationForPage lc (Prose_document sections images) pages (int i) mode = Some l \<and>
    pageIndexForLocation (Prose_document sections images) pages l = Some i"
proof -
  let ?metrics = "page_metrics_of rnd box" and ?doc = "Prose_document sections images"
  let ?R = "concat (map (pieces rnd ?metrics images) (document_blocks sections))"
  note cap = capacity_positive [of rnd box]
  obtain tps where tps: "pages = map Text_page tps" "page_content tps = ?R" "pages_filled tps"
    using pages prosePages_shown [of rnd sections images box] by (metis option.inject)
  have content: "?R = concat (map text_blocks pages)" by (simp add: tps(1) tps(2) [symmetric] page_content_def)
  obtain r rs where page: "text_blocks (pages ! i) = r # rs"
    using tps i by (cases "text_blocks (pages ! i)") (auto simp: pages_filled_def list_all_length)
  have r: "r \<in> set ?R" using page i unfolding content by (auto intro!: bexI [of _ "pages ! i"])
  then obtain block where block: "block \<in> set (document_blocks sections)"
    "r \<in> set (pieces rnd ?metrics images block)" by auto
  have slice: "shows_slice block r" using pieces_slice [OF cap block(2)] .
  then have own: "documentBlock sections (rn_sourceBlockId r) = Some block"
    using documentBlock_own [OF ids block(1)] by (simp add: shows_slice_def)
  let ?l = "Prose_location (rn_sourceBlockId r) (rn_sourceStartOffset r)"
  have loc: "locationForPage lc ?doc pages (int i) mode = Some ?l"
    using i page own slice by (simp add: locationForPage_def usable_block_def shows_slice_def)
  let ?holds = "holds_offset (pb_id block) (proseBlockVisibleLength (pb_content block))
      (min (rn_sourceStartOffset r) (proseBlockVisibleLength (pb_content block)))"
  have hold: "?holds r" by (rule pieces_hold_start [OF cap block(2)])
  have "find_page (\<lambda>page. list_ex ?holds (text_blocks page)) pages = Some i"
  proof (rule find_page_first [OF i])
    show "list_ex ?holds (text_blocks (pages ! i))" using page hold by simp
  next
    fix j assume j: "j < length pages" "list_ex ?holds (text_blocks (pages ! j))"
    then obtain r' where r': "r' \<in> set (text_blocks (pages ! j))" "?holds r'" by (auto simp: list_ex_iff)
    then have "r' \<in> set ?R" using j(1) unfolding content by (auto intro!: bexI [of _ "pages ! j"])
    then have "r' = r" using rendered_hold_once [OF cap ids block(1) _ r r'(2) hold] by blast
    moreover have "distinct (concat (map text_blocks pages))"
      using distinct_rendered [OF cap ids] unfolding content [symmetric] .
    ultimately show "j = i"
      using distinct_concat_nth [of "map text_blocks pages" j i r] j(1) i r'(1) page by simp
  qed
  then have "pageIndexForLocation ?doc pages ?l = Some i"
    using slice own by (simp add: shows_slice_def validRenderedBlock_def Let_def)
  then show ?thesis using loc by blast
qed

lemma prose_position_shown:
  assumes "rounding rnd" and "position_in (Prose_document sections images) l"
    and pages: "prosePages rnd sections images box = Some pages"
  shows "\<exists>i. pageIndexForLocation (Prose_document sections images) pages l = Some i \<and> i < length pages"
proof -
  let ?metrics = "page_metrics_of rnd box"
  obtain tps where tps: "pages = map Text_page tps"
    "page_content tps = concat (map (pieces rnd ?metrics images) (document_blocks sections))"
    using pages prosePages_shown [of rnd sections images box] by (metis option.inject)
  obtain blockId offset block where l: "l = Prose_location blockId offset" "0 \<le> offset"
    and own: "documentBlock sections blockId = Some block"
    using assms(2) by (cases l) (auto split: option.splits)
  then have block: "block \<in> set (document_blocks sections)" "pb_id block = blockId"
    unfolding documentBlock_def document_blocks_def by (auto dest: find_row_member)
  let ?holds = "holds_offset (pb_id block) (proseBlockVisibleLength (pb_content block))
      (min offset (proseBlockVisibleLength (pb_content block)))"
  obtain r where r: "r \<in> set (pieces rnd ?metrics images block)" "?holds r"
    using pieces_cover [OF assms(1) l(2), of box images block] by auto
  then have "r \<in> set (concat (map text_blocks pages))"
    using block(1) tps by (auto simp: page_content_def comp_def)
  then obtain page where "page \<in> set pages" "r \<in> set (text_blocks page)" by auto
  with r(2) find_page_total [of page pages "\<lambda>page. list_ex ?holds (text_blocks page)"]
  show ?thesis using l own by (auto simp: list_ex_iff Let_def)
qed

lemma comicPages_nth:
  "i < length source \<Longrightarrow> \<exists>page. comicPages source ! i = Comic_page page \<and> cx_sourcePageId page = cp_id (source ! i)"
  by (simp add: comicPages_def nth_enumerate_eq)

lemma length_comicPages [simp]: "length (comicPages source) = length source"
  by (simp add: comicPages_def)

lemma find_comic_page:
  assumes "distinct (map cp_id source)" and "i < length source"
  shows "find_page (shows_page (cp_id (source ! i))) (comicPages source) = Some i"
proof (rule find_page_first)
  show "shows_page (cp_id (source ! i)) (comicPages source ! i)"
    using comicPages_nth [OF assms(2)] by auto
next
  fix j assume j: "j < length (comicPages source)" "shows_page (cp_id (source ! i)) (comicPages source ! j)"
  then have "cp_id (source ! j) = cp_id (source ! i)" using comicPages_nth [of j source] by auto
  then show "j = i" using assms j(1) by (simp add: distinct_conv_nth) metis
qed (use assms in simp)

text \<open>A comic page has no guided position when the guided view is off or it has no panels.\<close>

fun without_panels :: "reader_document \<Rightarrow> nat \<Rightarrow> bool" where
  "without_panels (Prose_document sections images) i = False"
| "without_panels (Comic_document guided source) i = (\<not> guided \<or> cp_panels (source ! i) = [])"

definition returns_to :: "reader_document \<Rightarrow> reader_page list \<Rightarrow> nat \<Rightarrow> comic_mode \<Rightarrow> reader_location option \<Rightarrow> bool" where
  "returns_to doc pages i mode location \<longleftrightarrow>
     (case location of
        None \<Rightarrow> mode = Guided_mode \<and> without_panels doc i
      | Some l \<Rightarrow> pageIndexForLocation doc pages l = Some i)"

lemma comic_position_roundtrip:
  assumes ids: "distinct (map cp_id source)" and i: "i < length source"
  shows "returns_to (Comic_document guided source) (comicPages source) i mode
    (locationForPage lc (Comic_document guided source) (comicPages source) (int i) mode)"
proof -
  let ?page = "source ! i"
  have found: "find (\<lambda>candidate. cp_id candidate = cp_id ?page) source = Some ?page"
    using find_row_key [OF ids] i by simp
  obtain page where page: "comicPages source ! i = Comic_page page" "cx_sourcePageId page = cp_id ?page"
    using comicPages_nth [OF i] by blast
  have first: "list_ex (\<lambda>panel. pn_ordinal panel = pn_ordinal p) (cp_panels ?page)"
    if "js_sort (compare_panels lc) (cp_panels ?page) = p # ps" for p ps
    using that by (metis (mono_tags, lifting) list.set_intros(1) list_ex_iff set_js_sort)
  have none: "cp_panels ?page = []" if "js_sort (compare_panels lc) (cp_panels ?page) = []"
    using that by (metis length_js_sort length_0_conv)
  show ?thesis
    using i page found find_comic_page [OF ids i] first none
    by (cases mode; cases "js_sort (compare_panels lc) (cp_panels ?page)")
      (simp_all add: returns_to_def locationForPage_def)
qed

lemma comic_position_shown:
  assumes "position_in (Comic_document guided source) l"
  shows "\<exists>i. pageIndexForLocation (Comic_document guided source) (comicPages source) l = Some i \<and>
    i < length (comicPages source)"
proof -
  obtain pageId panelOrdinal page where l: "l = Comic_location pageId panelOrdinal"
    and page: "find (\<lambda>page. cp_id page = pageId) source = Some page"
    using assms by (cases l) (auto split: option.splits)
  have "page \<in> set source" "cp_id page = pageId" using find_row_member [OF page] by auto
  then obtain j where j: "j < length source" "cp_id (source ! j) = pageId" by (metis in_set_conv_nth)
  then have "comicPages source ! j \<in> set (comicPages source)" "shows_page pageId (comicPages source ! j)"
    using comicPages_nth [OF j(1)] by auto
  from find_page_total [of _ _ "shows_page pageId", OF this]
  show ?thesis using assms l page \<open>cp_id page = pageId\<close> by (auto split: option.splits)
qed

lemma pagination_total: "\<exists>pages. paginatePublication rnd doc box = Some pages"
proof (cases doc)
  case (Prose_document sections images)
  then show ?thesis using prosePages_shown [of rnd sections images box] by (metis paginatePublication.simps(1))
qed simp

section \<open>Properties\<close>

text \<open>
  C35. Pagination always ends, and loses or repeats nothing: for any page size and any rounding, the
  loop that splits long paragraphs ends, the pieces on the pages, one after the other, spell exactly
  the text of the document, every piece shows the characters of its block that its offsets name, and
  no page is empty.
\<close>
theorem pagination_keeps_text:
  "\<exists>pages. paginatePublication rnd (Prose_document sections images) box = Some pages \<and>
     concat (map (block_text \<circ> rn_content) (concat (map text_blocks pages))) =
       concat (map (block_text \<circ> pb_content) (document_blocks sections)) \<and>
     list_all (\<lambda>r. list_ex (\<lambda>block. shows_slice block r) (document_blocks sections))
       (concat (map text_blocks pages)) \<and>
     list_all (\<lambda>page. text_blocks page \<noteq> []) pages"
proof -
  obtain tps where tps: "prosePages rnd sections images box = Some (map Text_page tps)"
    "page_content tps = concat (map (pieces rnd (page_metrics_of rnd box) images) (document_blocks sections))"
    "pages_filled tps" by (rule prosePages_shown)
  have content: "concat (map text_blocks (map Text_page tps)) = page_content tps"
    by (simp add: page_content_def)
  have "concat (map (block_text \<circ> rn_content) (concat (map (pieces rnd (page_metrics_of rnd box) images) blocks))) =
      concat (map (block_text \<circ> pb_content) blocks)" for blocks
    using pieces_text [OF capacity_positive] by (induction blocks) auto
  moreover have "list_all (\<lambda>r. list_ex (\<lambda>block. shows_slice block r) blocks)
      (concat (map (pieces rnd (page_metrics_of rnd box) images) blocks))" for blocks
    using pieces_slice [OF capacity_positive] by (force simp: list_all_iff list_ex_iff)
  ultimately show ?thesis
    using tps by (intro exI [of _ "map Text_page tps"])
      (auto simp: content pages_filled_def list_all_iff simp del: map_map)
qed

text \<open>
  A page's reading position leads back to the page: in a document with distinct identifiers, the
  position the reader records for a page is found again on exactly that page. Every page has one,
  except a comic page read panel by panel that has no panels.
\<close>
theorem position_roundtrip:
  assumes "distinct_ids doc" and "paginatePublication rnd doc box = Some pages" and "i < length pages"
  shows "returns_to doc pages i mode (locationForPage locale_compare doc pages (int i) mode)"
proof (cases doc)
  case (Prose_document sections images)
  then show ?thesis
    using prose_position_roundtrip [of sections rnd images box pages i locale_compare mode] assms
    by (auto simp: returns_to_def)
next
  case (Comic_document guided source)
  then show ?thesis using comic_position_roundtrip [of source i guided mode locale_compare] assms by auto
qed

definition sample_text :: "nat \<Rightarrow> utf16" where
  "sample_text n = replicate n 0x61"

definition sample_prose :: reader_document where
  "sample_prose = Prose_document
     [\<lparr>ps_ordinal = 1, ps_blocks =
        [\<lparr>pb_id = ''h'', pb_content = Heading 1 [\<lparr>if_text = sample_text 5, if_marks = [], if_href = None\<rparr>]\<rparr>,
         \<lparr>pb_id = ''p'', pb_content = Paragraph [\<lparr>if_text = sample_text 60, if_marks = [], if_href = None\<rparr>,
            \<lparr>if_text = sample_text 80, if_marks = [Emphasis], if_href = None\<rparr>]\<rparr>,
         \<lparr>pb_id = ''e'', pb_content = Paragraph []\<rparr>]\<rparr>] []"

definition small_box :: page_box where
  "small_box = \<lparr>bx_pw = 100, bx_ph = 100, bx_pad = 4, bx_fs = 16\<rparr>"

text \<open>Rounding to multiples of 1/1024, towards minus infinity.\<close>

definition chop :: "rat \<Rightarrow> rat" where
  "chop x = of_int \<lfloor>x * 1024\<rfloor> / 1024"

lemma sample_pages:
  "map_option (map (map rn_sourceStartOffset \<circ> text_blocks)) (paginatePublication chop sample_prose small_box) =
     Some [[0], [0], [85], [0]]"
  by code_simp

theorem position_roundtrip_witness:
  "Option.bind (paginatePublication chop sample_prose small_box) (\<lambda>pages.
     Option.bind (locationForPage compare_text sample_prose pages 2 Page_mode)
       (pageIndexForLocation sample_prose pages)) = Some 2"
proof -
  obtain pages where pages: "paginatePublication chop sample_prose small_box = Some pages"
    and len: "map (map rn_sourceStartOffset \<circ> text_blocks) pages = [[0], [0], [85], [0]]"
    using sample_pages by auto
  have "length pages = 4" using arg_cong [OF len, of length] by simp
  moreover have "distinct_ids sample_prose" by (simp add: sample_prose_def document_blocks_def)
  ultimately have "returns_to sample_prose pages 2 Page_mode
      (locationForPage compare_text sample_prose pages (int 2) Page_mode)"
    using position_roundtrip [OF _ pages, of 2 Page_mode compare_text] by simp
  then show ?thesis using pages by (auto simp: returns_to_def split: option.splits)
qed

text \<open>
  A position in the document, checked as the server checks it, is shown on some page, whatever the page
  size.
\<close>

lemma position_shown:
  assumes "rounding rnd" and "position_in doc l" and "paginatePublication rnd doc box = Some pages"
  shows "\<exists>i. pageIndexForLocation doc pages l = Some i \<and> i < length pages"
proof (cases doc)
  case (Prose_document sections images)
  then show ?thesis using prose_position_shown [of rnd sections images l box pages] assms by simp
next
  case (Comic_document guided source)
  then show ?thesis using comic_position_shown [of guided source l] assms by auto
qed

lemma rounding_chop: "rounding chop"
  unfolding rounding_def chop_def
  by (auto intro!: monoI floor_mono divide_right_mono simp: of_int_floor_cancel)

end
