(* ===== verification/Catalog.thy ===== *)
theory Catalog
  imports ReaderPages
begin

text \<open>
  The catalog: the rows of \<^verbatim>\<open>db/schema/catalog.ts\<close> the reader and the publication code work on,
  the capabilities of \<^verbatim>\<open>auth/admin-policy.ts\<close>, and the operations of \<^verbatim>\<open>catalog/publication.ts\<close>
  and \<^verbatim>\<open>catalog/presentations.ts\<close>. A transaction either returns an error or its result and the new
  tables; locks and isolation are those of the database. Text and uuid columns are strings, uuids in
  their canonical form; timestamps are milliseconds.
\<close>

section \<open>Actors\<close>

datatype application_role = Customer | Administrator

datatype admin_capability =
    Admin_access | Catalog_manage | Roles_manage | Audit_read | Jobs_retry | Sales_read | Sales_export
  | Reconciliation_manage

datatype actor = Anonymous | Guest string | System_actor string | User string "application_role list"

fun capabilities_by_role :: "application_role \<Rightarrow> admin_capability list" where
  "capabilities_by_role Customer = []"
| "capabilities_by_role Administrator = [Admin_access, Catalog_manage, Roles_manage, Audit_read, Jobs_retry,
     Sales_read, Sales_export, Reconciliation_manage]"

definition capabilitiesForRoles :: "application_role list \<Rightarrow> admin_capability list" where
  "capabilitiesForRoles roles = concat (map capabilities_by_role roles)"

datatype catalog_error =
    Unauthenticated | Forbidden | Title_not_found | Revision_not_editable | Presentation_not_found
  | Stale_presentation | Invalid_preview_boundary | Invalid_panel_page | Incomplete_guided_view
  | Publication_precondition | Invalid_input | No_row_returned

type_synonym 'a catalog_result = "catalog_error + 'a"

definition requireCapability :: "actor \<Rightarrow> admin_capability \<Rightarrow> unit catalog_result" where
  "requireCapability actor capability =
     (case actor of
        Anonymous \<Rightarrow> Inl Unauthenticated
      | User _ roles \<Rightarrow> throw_if (\<not> List.member (capabilitiesForRoles roles) capability) Forbidden
      | _ \<Rightarrow> Inl Forbidden)"

section \<open>Rows\<close>

datatype publication_format = Prose | Comic

datatype title_visibility = Private_title | Public_title | Archived_title

datatype revision_state =
  Uploaded | Processing | Ready_for_review | Failed_revision | Active_revision | Retired_revision

datatype presentation_state = Draft_settings | Published_settings | Superseded_settings

datatype reading_direction = Left_to_right | Right_to_left

record title_row =
  ti_id :: string
  ti_format :: publication_format
  ti_visibility :: title_visibility
  ti_priceMinor :: int
  ti_currency :: string
  ti_activeRevisionId :: "string option"
  ti_updatedAt :: int

record revision_row =
  tr_id :: string
  tr_titleId :: string
  tr_state :: revision_state
  tr_activatedAt :: "int option"
  tr_retiredAt :: "int option"

record presentation_row =
  rp_id :: string
  rp_revisionId :: string
  rp_state :: presentation_state
  rp_readingDirection :: reading_direction
  rp_guidedViewEnabled :: bool
  rp_previewProseSectionId :: "string option"
  rp_previewProseBlockId :: "string option"
  rp_previewComicPageId :: "string option"
  rp_createdAt :: int
  rp_updatedAt :: int

record prose_section_row =
  pz_id :: string
  pz_revisionId :: string
  pz_ordinal :: int

record prose_block_row =
  bk_id :: string
  bk_revisionId :: string
  bk_sectionId :: string
  bk_ordinal :: int
  bk_content :: prose_block_data
  bk_imageId :: "string option"
  bk_fingerprint :: "string option"
  bk_fingerprintVersion :: "int option"

record prose_image_row =
  im_id :: string
  im_revisionId :: string
  im_checksumSha256 :: string

record comic_page_row =
  cq_id :: string
  cq_revisionId :: string
  cq_ordinal :: int
  cq_checksumSha256 :: string
  cq_width :: int
  cq_height :: int
  cq_fingerprint :: "string option"
  cq_fingerprintVersion :: "int option"

record panel_row =
  pq_id :: string
  pq_revisionId :: string
  pq_presentationId :: string
  pq_pageId :: string
  pq_ordinal :: int
  pq_x :: rat
  pq_y :: rat
  pq_width :: rat
  pq_height :: rat

record catalog_audit =
  ca_actorId :: string
  ca_action :: string
  ca_titleId :: string
  ca_revisionId :: "string option"

record catalog =
  cg_roles :: "(string \<times> application_role) list"
  cg_titles :: "title_row list"
  cg_revisions :: "revision_row list"
  cg_presentations :: "presentation_row list"
  cg_sections :: "prose_section_row list"
  cg_blocks :: "prose_block_row list"
  cg_images :: "prose_image_row list"
  cg_pages :: "comic_page_row list"
  cg_panels :: "panel_row list"
  cg_audit :: "catalog_audit list"

section \<open>Publication\<close>

definition MAX_CATALOG_PRICE_MINOR :: int where "MAX_CATALOG_PRICE_MINOR = 49999999"

text \<open>\<^verbatim>\<open>isSupportedCommerceCurrency\<close> asks the runtime for its currencies: a parameter.\<close>

definition requireStorefrontMoney :: "(string \<Rightarrow> bool) \<Rightarrow> title_row \<Rightarrow> unit catalog_result" where
  "requireStorefrontMoney supported title =
     throw_if (ti_priceMinor title \<le> 0 \<or> ti_priceMinor title > MAX_CATALOG_PRICE_MINOR \<or>
       \<not> supported (ti_currency title)) Publication_precondition"

definition withLockedAdminTitle ::
    "actor \<Rightarrow> string \<Rightarrow> (string \<Rightarrow> title_row \<Rightarrow> 'a catalog_result) \<Rightarrow> catalog \<Rightarrow> 'a catalog_result" where
  "withLockedAdminTitle actorSnapshot titleId work c =
     rbind (requireCapability actorSnapshot Catalog_manage) (\<lambda>_.
       case actorSnapshot of
         User userId _ \<Rightarrow>
           rbind (requireCapability
               (User userId (map snd (filter (\<lambda>(u, _). u = userId) (cg_roles c)))) Catalog_manage) (\<lambda>_.
             case find (\<lambda>title. ti_id title = titleId) (cg_titles c) of
               None \<Rightarrow> Inl Title_not_found
             | Some title \<Rightarrow> work userId title)
       | _ \<Rightarrow> Inl Forbidden)"

definition lockRevision :: "catalog \<Rightarrow> string \<Rightarrow> string \<Rightarrow> revision_row catalog_result" where
  "lockRevision c titleId revisionId =
     (case find (\<lambda>r. tr_id r = revisionId \<and> tr_titleId r = titleId) (cg_revisions c) of
        None \<Rightarrow> Inl Publication_precondition
      | Some revision \<Rightarrow> Inr revision)"

definition published_settings :: "catalog \<Rightarrow> string \<Rightarrow> presentation_row option" where
  "published_settings c revisionId =
     find (\<lambda>p. rp_revisionId p = revisionId \<and> rp_state p = Published_settings) (cg_presentations c)"

definition requirePublishedSettings :: "catalog \<Rightarrow> string \<Rightarrow> unit catalog_result" where
  "requirePublishedSettings c revisionId =
     throw_if (published_settings c revisionId = None) Publication_precondition"

definition retire_revision :: "int \<Rightarrow> revision_row \<Rightarrow> revision_row" where
  "retire_revision now r = r\<lparr>tr_state := Retired_revision, tr_retiredAt := Some now\<rparr>"

definition activate_revision :: "int \<Rightarrow> revision_row \<Rightarrow> revision_row" where
  "activate_revision now r = r\<lparr>tr_state := Active_revision, tr_activatedAt := Some now, tr_retiredAt := None\<rparr>"

definition setActiveRevision ::
    "title_row \<Rightarrow> revision_row \<Rightarrow> int \<Rightarrow> catalog \<Rightarrow> (title_row \<times> catalog) catalog_result" where
  "setActiveRevision title revision now c =
     rbind (case ti_activeRevisionId title of
         None \<Rightarrow> Inr (cg_revisions c)
       | Some activeRevisionId \<Rightarrow>
           rbind (lockRevision c (ti_id title) activeRevisionId) (\<lambda>current.
             if tr_state current \<noteq> Active_revision \<or> tr_id current = tr_id revision
             then Inl Publication_precondition
             else Inr (update_rows tr_id (tr_id current) (retire_revision now) (cg_revisions c))))
       (\<lambda>revisions.
         let c' = c\<lparr>cg_revisions := update_rows tr_id (tr_id revision) (activate_revision now) revisions,
             cg_titles := update_rows ti_id (ti_id title)
               (\<lambda>t. t\<lparr>ti_activeRevisionId := Some (tr_id revision), ti_updatedAt := now\<rparr>) (cg_titles c)\<rparr>
         in case find (\<lambda>t. ti_id t = ti_id title) (cg_titles c') of
              None \<Rightarrow> Inl No_row_returned
            | Some updated \<Rightarrow> Inr (updated, c'))"

definition auditLifecycle :: "string \<Rightarrow> string \<Rightarrow> string \<Rightarrow> string option \<Rightarrow> catalog \<Rightarrow> catalog" where
  "auditLifecycle actorId titleId action revisionId c =
     c\<lparr>cg_audit := cg_audit c @
       [\<lparr>ca_actorId = actorId, ca_action = action, ca_titleId = titleId, ca_revisionId = revisionId\<rparr>]\<rparr>"

definition activatePrivateRevision ::
    "actor \<Rightarrow> string \<Rightarrow> string \<Rightarrow> int \<Rightarrow> catalog \<Rightarrow> (title_row \<times> catalog) catalog_result" where
  "activatePrivateRevision actor titleId revisionId now c =
     rbind (requireCapability actor Catalog_manage) (\<lambda>_.
       withLockedAdminTitle actor titleId (\<lambda>actorId title.
         rbind (throw_if (ti_visibility title \<noteq> Private_title) Publication_precondition) (\<lambda>_.
         rbind (lockRevision c titleId revisionId) (\<lambda>candidate.
         rbind (throw_if (tr_state candidate \<noteq> Ready_for_review) Publication_precondition) (\<lambda>_.
         rbind (requirePublishedSettings c (tr_id candidate)) (\<lambda>_.
         rbind (setActiveRevision title candidate now c) (\<lambda>(updated, c').
           Inr (updated, auditLifecycle actorId (ti_id title) ''catalog.revision.activate_private''
             (Some (tr_id candidate)) c'))))))) c)"

definition publishTitleToStorefront ::
    "(string \<Rightarrow> bool) \<Rightarrow> actor \<Rightarrow> string \<Rightarrow> int \<Rightarrow> catalog \<Rightarrow> (title_row \<times> catalog) catalog_result" where
  "publishTitleToStorefront supported actor titleId now c =
     rbind (requireCapability actor Catalog_manage) (\<lambda>_.
       withLockedAdminTitle actor titleId (\<lambda>actorId title.
         case ti_activeRevisionId title of
           None \<Rightarrow> Inl Publication_precondition
         | Some activeRevisionId \<Rightarrow>
             rbind (throw_if (ti_visibility title \<noteq> Private_title) Publication_precondition) (\<lambda>_.
             rbind (requireStorefrontMoney supported title) (\<lambda>_.
             rbind (lockRevision c titleId activeRevisionId) (\<lambda>active.
             rbind (throw_if (tr_state active \<noteq> Active_revision) Publication_precondition) (\<lambda>_.
             rbind (requirePublishedSettings c (tr_id active)) (\<lambda>_.
               let c' = c\<lparr>cg_titles := update_rows ti_id titleId
                   (\<lambda>t. t\<lparr>ti_visibility := Public_title, ti_updatedAt := now\<rparr>) (cg_titles c)\<rparr>
               in case find (\<lambda>t. ti_id t = titleId) (cg_titles c') of
                    None \<Rightarrow> Inl No_row_returned
                  | Some updated \<Rightarrow> Inr (updated,
                      auditLifecycle actorId (ti_id title) ''catalog.title.publish'' None c'))))))) c)"

definition publishReplacementRevision ::
    "actor \<Rightarrow> string \<Rightarrow> string \<Rightarrow> int \<Rightarrow> catalog \<Rightarrow> (title_row \<times> catalog) catalog_result" where
  "publishReplacementRevision actor titleId revisionId now c =
     rbind (requireCapability actor Catalog_manage) (\<lambda>_.
       withLockedAdminTitle actor titleId (\<lambda>actorId title.
         rbind (throw_if (ti_visibility title \<noteq> Public_title \<or> ti_activeRevisionId title = None \<or>
             ti_activeRevisionId title = Some revisionId) Publication_precondition) (\<lambda>_.
         rbind (lockRevision c titleId revisionId) (\<lambda>candidate.
         rbind (throw_if (tr_state candidate \<noteq> Ready_for_review) Publication_precondition) (\<lambda>_.
         rbind (requirePublishedSettings c (tr_id candidate)) (\<lambda>_.
         rbind (setActiveRevision title candidate now c) (\<lambda>(updated, c').
           Inr (updated, auditLifecycle actorId (ti_id title) ''catalog.revision.publish_replacement''
             (Some (tr_id candidate)) c'))))))) c)"

definition rollbackRevision ::
    "actor \<Rightarrow> string \<Rightarrow> string \<Rightarrow> int \<Rightarrow> catalog \<Rightarrow> (title_row \<times> catalog) catalog_result" where
  "rollbackRevision actor titleId revisionId now c =
     rbind (requireCapability actor Catalog_manage) (\<lambda>_.
       withLockedAdminTitle actor titleId (\<lambda>actorId title.
         rbind (throw_if (ti_activeRevisionId title = None \<or>
             ti_activeRevisionId title = Some revisionId) Publication_precondition) (\<lambda>_.
         rbind (lockRevision c titleId revisionId) (\<lambda>candidate.
         rbind (throw_if (tr_state candidate \<noteq> Retired_revision) Publication_precondition) (\<lambda>_.
         rbind (requirePublishedSettings c (tr_id candidate)) (\<lambda>_.
         rbind (setActiveRevision title candidate now c) (\<lambda>(updated, c').
           Inr (updated, auditLifecycle actorId (ti_id title) ''catalog.revision.rollback''
             (Some (tr_id candidate)) c'))))))) c)"

definition withdrawTitle :: "actor \<Rightarrow> string \<Rightarrow> int \<Rightarrow> catalog \<Rightarrow> (title_row \<times> catalog) catalog_result" where
  "withdrawTitle actor titleId now c =
     rbind (requireCapability actor Catalog_manage) (\<lambda>_.
       withLockedAdminTitle actor titleId (\<lambda>actorId title.
         rbind (throw_if (ti_visibility title \<noteq> Public_title \<or> ti_activeRevisionId title = None)
           Publication_precondition) (\<lambda>_.
         let c' = c\<lparr>cg_titles := update_rows ti_id titleId
             (\<lambda>t. t\<lparr>ti_visibility := Private_title, ti_updatedAt := now\<rparr>) (cg_titles c)\<rparr>
         in case find (\<lambda>t. ti_id t = titleId) (cg_titles c') of
              None \<Rightarrow> Inl No_row_returned
            | Some updated \<Rightarrow> Inr (updated,
                auditLifecycle actorId (ti_id title) ''catalog.title.withdraw'' None c'))) c)"

section \<open>Reader settings\<close>

definition editable :: "revision_state \<Rightarrow> bool" where
  "editable state \<longleftrightarrow> state \<in> {Ready_for_review, Active_revision, Retired_revision}"

definition nextUpdatedAt :: "int \<Rightarrow> int \<Rightarrow> int" where
  "nextUpdatedAt now previous = max now (previous + 1)"

definition requireEditableRevision :: "catalog \<Rightarrow> string \<Rightarrow> string \<Rightarrow> unit catalog_result" where
  "requireEditableRevision c titleId revisionId =
     (case find (\<lambda>r. tr_id r = revisionId \<and> tr_titleId r = titleId) (cg_revisions c) of
        None \<Rightarrow> Inl Revision_not_editable
      | Some revision \<Rightarrow> throw_if (\<not> editable (tr_state revision)) Revision_not_editable)"

text \<open>The blocks of a revision with their sections, and the order of the text.\<close>

definition revision_blocks :: "catalog \<Rightarrow> string \<Rightarrow> (prose_section_row \<times> prose_block_row) list" where
  "revision_blocks c revisionId =
     concat (map (\<lambda>b. map (\<lambda>s. (s, b)) (filter (\<lambda>s. pz_id s = bk_sectionId b \<and> pz_revisionId s = bk_revisionId b)
       (cg_sections c))) (filter (\<lambda>b. bk_revisionId b = revisionId) (cg_blocks c)))"

definition block_position :: "prose_section_row \<times> prose_block_row \<Rightarrow> int \<times> int" where
  "block_position sb = (pz_ordinal (fst sb), bk_ordinal (snd sb))"

definition after_position :: "int \<times> int \<Rightarrow> int \<times> int \<Rightarrow> bool" where
  "after_position p q \<longleftrightarrow> fst q < fst p \<or> (fst q = fst p \<and> snd q \<le> snd p)"

text \<open>\<^verbatim>\<open>order by section.ordinal desc, block.ordinal desc limit 1\<close>\<close>

definition latest_first :: "prose_section_row \<times> prose_block_row \<Rightarrow> prose_section_row \<times> prose_block_row \<Rightarrow> int" where
  "latest_first x y = (if after_position (block_position x) (block_position y) then 0 else 1)"

definition final_block :: "catalog \<Rightarrow> string \<Rightarrow> (prose_section_row \<times> prose_block_row) option" where
  "final_block c revisionId =
     (case js_sort latest_first (revision_blocks c revisionId) of
        [] \<Rightarrow> None
      | x # _ \<Rightarrow> Some x)"

definition validateProseBoundary :: "catalog \<Rightarrow> string \<Rightarrow> string \<Rightarrow> string \<Rightarrow> unit catalog_result" where
  "validateProseBoundary c revisionId sectionId blockId =
     (case (find (\<lambda>(s, b). bk_id b = blockId \<and> pz_id s = sectionId) (revision_blocks c revisionId),
            final_block c revisionId) of
        (Some (_, boundary), Some (_, finalBlock)) \<Rightarrow>
          throw_if (bk_id boundary = bk_id finalBlock) Invalid_preview_boundary
      | _ \<Rightarrow> Inl Invalid_preview_boundary)"

definition revision_pages :: "catalog \<Rightarrow> string \<Rightarrow> comic_page_row list" where
  "revision_pages c revisionId = filter (\<lambda>p. cq_revisionId p = revisionId) (cg_pages c)"

definition last_page_first :: "comic_page_row \<Rightarrow> comic_page_row \<Rightarrow> int" where
  "last_page_first x y = cq_ordinal y - cq_ordinal x"

definition final_page_ordinal :: "catalog \<Rightarrow> string \<Rightarrow> int option" where
  "final_page_ordinal c revisionId =
     (case js_sort last_page_first (revision_pages c revisionId) of
        [] \<Rightarrow> None
      | page # _ \<Rightarrow> Some (cq_ordinal page))"

definition validateComicBoundary :: "catalog \<Rightarrow> string \<Rightarrow> string \<Rightarrow> unit catalog_result" where
  "validateComicBoundary c revisionId pageId =
     (case (find (\<lambda>p. cq_id p = pageId) (revision_pages c revisionId), final_page_ordinal c revisionId) of
        (Some boundary, Some finalOrdinal) \<Rightarrow>
          throw_if (cq_ordinal boundary \<ge> finalOrdinal) Invalid_preview_boundary
      | _ \<Rightarrow> Inl Invalid_preview_boundary)"

interpretation latest_block: js_comparator latest_first
  by unfold_locales (auto simp: latest_first_def after_position_def split: if_splits)

interpretation latest_page: js_comparator last_page_first
  by unfold_locales (auto simp: last_page_first_def)

record draft_panel =
  dp_pageId :: string
  dp_ordinal :: int
  dp_x :: rat
  dp_y :: rat
  dp_width :: rat
  dp_height :: rat

datatype draft_boundary = Prose_boundary string string | Comic_boundary string

record save_draft_input =
  sd_titleId :: string
  sd_revisionId :: string
  sd_presentationId :: string
  sd_expectedUpdatedAt :: int
  sd_readingDirection :: reading_direction
  sd_guidedViewEnabled :: bool
  sd_boundary :: draft_boundary
  sd_panels :: "draft_panel list"

record publish_settings_input =
  px_titleId :: string
  px_revisionId :: string
  px_presentationId :: string
  px_expectedUpdatedAt :: int

definition boundary_format :: "draft_boundary \<Rightarrow> publication_format" where
  "boundary_format b = (case b of Prose_boundary _ _ \<Rightarrow> Prose | Comic_boundary _ \<Rightarrow> Comic)"

text \<open>
  The part of \<^verbatim>\<open>parseSaveDraftPresentationInput\<close> about panels: none in prose, which has no guided view
  either, and no two with the same page and ordinal.
\<close>

definition parseSaveDraftPresentationInput :: "save_draft_input \<Rightarrow> unit catalog_result" where
  "parseSaveDraftPresentationInput input =
     throw_if ((boundary_format (sd_boundary input) = Prose \<and>
         (sd_guidedViewEnabled input \<or> sd_panels input \<noteq> [])) \<or>
       \<not> distinct (map (\<lambda>panel. (dp_pageId panel, dp_ordinal panel)) (sd_panels input))) Invalid_input"

definition validatePresentationBoundary ::
    "catalog \<Rightarrow> save_draft_input \<Rightarrow> publication_format \<Rightarrow> unit catalog_result" where
  "validatePresentationBoundary c input titleFormat =
     (if boundary_format (sd_boundary input) \<noteq> titleFormat then Inl Invalid_preview_boundary
      else case sd_boundary input of
        Prose_boundary sectionId blockId \<Rightarrow> validateProseBoundary c (sd_revisionId input) sectionId blockId
      | Comic_boundary pageId \<Rightarrow>
          rbind (validateComicBoundary c (sd_revisionId input) pageId) (\<lambda>_.
            if sd_panels input = [] then Inr ()
            else let pageIds = remdups (map dp_pageId (sd_panels input));
                pages = filter (\<lambda>p. List.member pageIds (cq_id p)) (revision_pages c (sd_revisionId input))
              in throw_if (length pages \<noteq> length pageIds) Invalid_panel_page))"

definition lockDraft :: "catalog \<Rightarrow> string \<Rightarrow> string \<Rightarrow> int \<Rightarrow> presentation_row catalog_result" where
  "lockDraft c revisionId presentationId expectedUpdatedAt =
     (case find (\<lambda>p. rp_id p = presentationId \<and> rp_revisionId p = revisionId \<and> rp_state p = Draft_settings)
         (cg_presentations c) of
        None \<Rightarrow> Inl Presentation_not_found
      | Some draft \<Rightarrow>
          if rp_updatedAt draft \<noteq> expectedUpdatedAt then Inl Stale_presentation else Inr draft)"

definition set_draft :: "save_draft_input \<Rightarrow> int \<Rightarrow> presentation_row \<Rightarrow> presentation_row" where
  "set_draft input updatedAt p = p\<lparr>
     rp_readingDirection := sd_readingDirection input,
     rp_guidedViewEnabled := sd_guidedViewEnabled input,
     rp_previewProseSectionId := (case sd_boundary input of Prose_boundary s _ \<Rightarrow> Some s | _ \<Rightarrow> None),
     rp_previewProseBlockId := (case sd_boundary input of Prose_boundary _ b \<Rightarrow> Some b | _ \<Rightarrow> None),
     rp_previewComicPageId := (case sd_boundary input of Comic_boundary p \<Rightarrow> Some p | _ \<Rightarrow> None),
     rp_updatedAt := updatedAt\<rparr>"

text \<open>The uuids the database generates for new rows are the argument \<open>newIds\<close>.\<close>

definition draft_panels :: "(nat \<Rightarrow> string) \<Rightarrow> save_draft_input \<Rightarrow> presentation_row \<Rightarrow> panel_row list" where
  "draft_panels newIds input draft =
     (if boundary_format (sd_boundary input) = Comic then
        map (\<lambda>(i, panel). \<lparr>pq_id = newIds i, pq_revisionId = sd_revisionId input,
          pq_presentationId = rp_id draft, pq_pageId = dp_pageId panel, pq_ordinal = dp_ordinal panel,
          pq_x = dp_x panel, pq_y = dp_y panel, pq_width = dp_width panel,
          pq_height = dp_height panel\<rparr>) (enumerate 0 (sd_panels input))
      else [])"

definition save_draft :: "(nat \<Rightarrow> string) \<Rightarrow> int \<Rightarrow> save_draft_input \<Rightarrow> presentation_row \<Rightarrow> catalog \<Rightarrow> catalog" where
  "save_draft newIds now input draft c = c\<lparr>
     cg_panels := filter (\<lambda>panel. pq_presentationId panel \<noteq> rp_id draft) (cg_panels c) @
       draft_panels newIds input draft,
     cg_presentations := update_rows rp_id (rp_id draft)
       (set_draft input (nextUpdatedAt now (rp_updatedAt draft))) (cg_presentations c)\<rparr>"

definition saveDraftPresentation ::
    "(nat \<Rightarrow> string) \<Rightarrow> actor \<Rightarrow> save_draft_input \<Rightarrow> int \<Rightarrow> catalog \<Rightarrow> (presentation_row \<times> catalog) catalog_result" where
  "saveDraftPresentation newIds actor input now c =
     rbind (requireCapability actor Catalog_manage) (\<lambda>_.
     rbind (parseSaveDraftPresentationInput input) (\<lambda>_.
       case find (\<lambda>t. ti_id t = sd_titleId input) (cg_titles c) of
         None \<Rightarrow> Inl Title_not_found
       | Some title \<Rightarrow>
           rbind (requireEditableRevision c (sd_titleId input) (sd_revisionId input)) (\<lambda>_.
           rbind (lockDraft c (sd_revisionId input) (sd_presentationId input) (sd_expectedUpdatedAt input)) (\<lambda>draft.
           rbind (validatePresentationBoundary c input (ti_format title)) (\<lambda>_.
             let c' = save_draft newIds now input draft c
             in case find (\<lambda>p. rp_id p = rp_id draft) (cg_presentations c') of
                  None \<Rightarrow> Inl No_row_returned
                | Some updated \<Rightarrow> Inr (updated,
                    auditLifecycle (case actor of User userId _ \<Rightarrow> userId | _ \<Rightarrow> [])
                      (sd_titleId input) ''catalog.reader_settings.draft.save'' (Some (sd_revisionId input)) c'))))))"

definition page_ordinals :: "catalog \<Rightarrow> string \<Rightarrow> string \<Rightarrow> string \<Rightarrow> int list" where
  "page_ordinals c revisionId presentationId pageId =
     sort (map pq_ordinal (filter (\<lambda>panel. pq_revisionId panel = revisionId \<and>
       pq_presentationId panel = presentationId \<and> pq_pageId panel = pageId) (cg_panels c)))"

definition requireCompleteGuidedView :: "catalog \<Rightarrow> string \<Rightarrow> string \<Rightarrow> unit catalog_result" where
  "requireCompleteGuidedView c revisionId presentationId =
     rall (\<lambda>page. let ordinals = page_ordinals c revisionId presentationId (cq_id page) in
         throw_if (ordinals = [] \<or> list_ex (\<lambda>(index, ordinal). ordinal \<noteq> int index + 1) (enumerate 0 ordinals))
           Incomplete_guided_view)
       (revision_pages c revisionId)"

definition require_boundary :: "catalog \<Rightarrow> publication_format \<Rightarrow> presentation_row \<Rightarrow> unit catalog_result" where
  "require_boundary c format draft =
     (case format of
        Prose \<Rightarrow>
          (case (rp_previewProseSectionId draft, rp_previewProseBlockId draft) of
             (Some sectionId, Some blockId) \<Rightarrow> validateProseBoundary c (rp_revisionId draft) sectionId blockId
           | _ \<Rightarrow> Inl Invalid_preview_boundary)
      | Comic \<Rightarrow>
          (case rp_previewComicPageId draft of
             None \<Rightarrow> Inl Invalid_preview_boundary
           | Some pageId \<Rightarrow>
               rbind (validateComicBoundary c (rp_revisionId draft) pageId) (\<lambda>_.
                 if rp_guidedViewEnabled draft
                 then requireCompleteGuidedView c (rp_revisionId draft) (rp_id draft) else Inr ())))"

definition publish_draft :: "(nat \<Rightarrow> string) \<Rightarrow> string \<Rightarrow> int \<Rightarrow> presentation_row \<Rightarrow> catalog \<Rightarrow> presentation_row \<times> catalog" where
  "publish_draft newIds newDraftId now draft c =
     (let changedAt = nextUpdatedAt now (rp_updatedAt draft);
          superseded = (case published_settings c (rp_revisionId draft) of
            None \<Rightarrow> cg_presentations c
          | Some current \<Rightarrow> update_rows rp_id (rp_id current)
              (\<lambda>p. p\<lparr>rp_state := Superseded_settings, rp_updatedAt := changedAt\<rparr>) (cg_presentations c));
          published = draft\<lparr>rp_state := Published_settings, rp_updatedAt := changedAt\<rparr>;
          newDraft = published\<lparr>rp_id := newDraftId, rp_state := Draft_settings, rp_createdAt := now,
            rp_updatedAt := now\<rparr>;
          panels = filter (\<lambda>panel. pq_presentationId panel = rp_id published) (cg_panels c)
      in (published, c\<lparr>
        cg_presentations := update_rows rp_id (rp_id draft)
          (\<lambda>p. p\<lparr>rp_state := Published_settings, rp_updatedAt := changedAt\<rparr>) superseded @ [newDraft],
        cg_panels := cg_panels c @ map (\<lambda>(i, panel). panel\<lparr>pq_id := newIds i, pq_presentationId := newDraftId\<rparr>)
          (enumerate 0 panels)\<rparr>))"

definition publishReaderSettings ::
    "(nat \<Rightarrow> string) \<Rightarrow> string \<Rightarrow> actor \<Rightarrow> publish_settings_input \<Rightarrow> int \<Rightarrow> catalog \<Rightarrow>
      (presentation_row \<times> catalog) catalog_result" where
  "publishReaderSettings newIds newDraftId actor input now c =
     rbind (requireCapability actor Catalog_manage) (\<lambda>_.
       withLockedAdminTitle actor (px_titleId input) (\<lambda>actorId title.
         rbind (requireEditableRevision c (px_titleId input) (px_revisionId input)) (\<lambda>_.
         rbind (lockDraft c (px_revisionId input) (px_presentationId input) (px_expectedUpdatedAt input)) (\<lambda>draft.
         rbind (require_boundary c (ti_format title) draft) (\<lambda>_.
           let (published, c') = publish_draft newIds newDraftId now draft c in
           Inr (published, auditLifecycle actorId (px_titleId input) ''catalog.reader_settings.publish''
             (Some (px_revisionId input)) c'))))) c)"

end
