(* ===== verification/CatalogRuns.thy ===== *)
theory CatalogRuns
  imports Catalog
begin

text \<open>
  The catalog over time: what its operations keep, whatever the ingestion of uploads does to revisions
  that are not yet ready for review.
\<close>

section \<open>The invariant\<close>

definition active_ok :: "catalog \<Rightarrow> title_row \<Rightarrow> bool" where
  "active_ok c t \<longleftrightarrow>
     (case ti_activeRevisionId t of
        None \<Rightarrow> ti_visibility t \<noteq> Public_title
      | Some k \<Rightarrow>
          (\<exists>r \<in> set (cg_revisions c). tr_id r = k \<and> tr_titleId r = ti_id t \<and> tr_state r = Active_revision) \<and>
          published_settings c k \<noteq> None)"

definition active_owned :: "catalog \<Rightarrow> revision_row \<Rightarrow> bool" where
  "active_owned c r \<longleftrightarrow> (tr_state r = Active_revision \<longrightarrow>
     (\<exists>t \<in> set (cg_titles c). ti_id t = tr_titleId r \<and> ti_activeRevisionId t = Some (tr_id r)))"

text \<open>Published settings belong to an editable revision and passed every check of publishing.\<close>

definition published_ok :: "catalog \<Rightarrow> presentation_row \<Rightarrow> bool" where
  "published_ok c p \<longleftrightarrow> (rp_state p = Published_settings \<longrightarrow>
     (\<exists>r \<in> set (cg_revisions c). \<exists>t \<in> set (cg_titles c).
        tr_id r = rp_revisionId p \<and> tr_titleId r = ti_id t \<and> editable (tr_state r) \<and>
        require_boundary c (ti_format t) p = Inr ()))"

definition catalog_ids :: "catalog \<Rightarrow> bool" where
  "catalog_ids c \<longleftrightarrow> distinct (map ti_id (cg_titles c)) \<and> distinct (map tr_id (cg_revisions c)) \<and>
     distinct (map rp_id (cg_presentations c))"

definition one_of_each :: "catalog \<Rightarrow> bool" where
  "one_of_each c \<longleftrightarrow> (\<forall>p \<in> set (cg_presentations c). \<forall>q \<in> set (cg_presentations c).
     rp_revisionId p = rp_revisionId q \<and> rp_state p = rp_state q \<and> rp_state p \<noteq> Superseded_settings \<longrightarrow> p = q)"

definition catalog_ok :: "catalog \<Rightarrow> bool" where
  "catalog_ok c \<longleftrightarrow> catalog_ids c \<and> one_of_each c \<and>
     (\<forall>t \<in> set (cg_titles c). active_ok c t) \<and> (\<forall>r \<in> set (cg_revisions c). active_owned c r) \<and>
     (\<forall>p \<in> set (cg_presentations c). published_ok c p)"

lemma catalog_okI [intro?]:
  assumes "catalog_ids c" "one_of_each c" "\<And>t. t \<in> set (cg_titles c) \<Longrightarrow> active_ok c t"
    and "\<And>r. r \<in> set (cg_revisions c) \<Longrightarrow> active_owned c r"
    and "\<And>p. p \<in> set (cg_presentations c) \<Longrightarrow> published_ok c p"
  shows "catalog_ok c"
  using assms by (simp add: catalog_ok_def)

lemma catalog_okD:
  assumes "catalog_ok c"
  shows "catalog_ids c" "one_of_each c" "t \<in> set (cg_titles c) \<Longrightarrow> active_ok c t"
    "r \<in> set (cg_revisions c) \<Longrightarrow> active_owned c r" "p \<in> set (cg_presentations c) \<Longrightarrow> published_ok c p"
  using assms by (simp_all add: catalog_ok_def)

lemma same_id: "distinct (map f xs) \<Longrightarrow> x \<in> set xs \<Longrightarrow> y \<in> set xs \<Longrightarrow> f x = f y \<Longrightarrow> x = y"
  by (auto simp: distinct_map dest: inj_onD)

lemma same_title: "catalog_ids c \<Longrightarrow> t \<in> set (cg_titles c) \<Longrightarrow> t' \<in> set (cg_titles c) \<Longrightarrow> ti_id t = ti_id t' \<Longrightarrow> t = t'"
  unfolding catalog_ids_def by (blast intro: same_id)

lemma same_revision:
  "catalog_ids c \<Longrightarrow> r \<in> set (cg_revisions c) \<Longrightarrow> r' \<in> set (cg_revisions c) \<Longrightarrow> tr_id r = tr_id r' \<Longrightarrow> r = r'"
  unfolding catalog_ids_def by (blast intro: same_id)

lemma same_presentation:
  "catalog_ids c \<Longrightarrow> p \<in> set (cg_presentations c) \<Longrightarrow> q \<in> set (cg_presentations c) \<Longrightarrow> rp_id p = rp_id q \<Longrightarrow> p = q"
  unfolding catalog_ids_def by (blast intro: same_id)

lemma published_settings_Some:
  "published_settings c k = Some p \<Longrightarrow>
     p \<in> set (cg_presentations c) \<and> rp_revisionId p = k \<and> rp_state p = Published_settings"
  by (auto simp: published_settings_def find_Some_iff)

lemma published_settings_iff:
  "published_settings c k \<noteq> None \<longleftrightarrow>
     (\<exists>p \<in> set (cg_presentations c). rp_revisionId p = k \<and> rp_state p = Published_settings)"
  by (auto simp: published_settings_def find_None_iff)

section \<open>What the checks of publishing read\<close>

definition same_content :: "string \<Rightarrow> catalog \<Rightarrow> catalog \<Rightarrow> bool" where
  "same_content k c c' \<longleftrightarrow> revision_blocks c' k = revision_blocks c k \<and> revision_pages c' k = revision_pages c k"

definition settings_panels :: "catalog \<Rightarrow> string \<Rightarrow> panel_row list" where
  "settings_panels c presentationId = filter (\<lambda>panel. pq_presentationId panel = presentationId) (cg_panels c)"

lemma page_ordinals_settings:
  "page_ordinals c k p pageId =
     sort (map pq_ordinal (filter (\<lambda>panel. pq_revisionId panel = k \<and> pq_pageId panel = pageId) (settings_panels c p)))"
  unfolding page_ordinals_def settings_panels_def filter_filter
  by (rule arg_cong [where f = "\<lambda>xs. sort (map pq_ordinal xs)"], rule filter_cong) auto

lemma prose_boundary_same: "same_content k c c' \<Longrightarrow> validateProseBoundary c' k = validateProseBoundary c k"
  by (intro ext) (simp add: validateProseBoundary_def final_block_def same_content_def)

lemma comic_boundary_same: "same_content k c c' \<Longrightarrow> validateComicBoundary c' k = validateComicBoundary c k"
  by (intro ext) (simp add: validateComicBoundary_def final_page_ordinal_def same_content_def)

lemma guided_same:
  "same_content k c c' \<Longrightarrow> settings_panels c' p = settings_panels c p \<Longrightarrow>
     requireCompleteGuidedView c' k p = requireCompleteGuidedView c k p"
  by (simp add: requireCompleteGuidedView_def same_content_def page_ordinals_settings)

lemma require_boundary_same:
  "same_content (rp_revisionId p) c c' \<Longrightarrow> settings_panels c' (rp_id p) = settings_panels c (rp_id p) \<Longrightarrow>
     require_boundary c' f p = require_boundary c f p"
  by (simp add: require_boundary_def prose_boundary_same comic_boundary_same guided_same
      split: publication_format.splits option.splits)

lemma same_content_refl [simp]: "same_content k c c"
  by (simp add: same_content_def)

lemma same_content_eq:
  "cg_sections c' = cg_sections c \<Longrightarrow> cg_blocks c' = cg_blocks c \<Longrightarrow> cg_pages c' = cg_pages c \<Longrightarrow> same_content k c c'"
  by (simp add: same_content_def revision_blocks_def revision_pages_def)

section \<open>Activating a revision\<close>

definition audited :: "catalog \<Rightarrow> catalog \<Rightarrow> bool" where
  "audited c c' \<longleftrightarrow> c' = c\<lparr>cg_audit := cg_audit c'\<rparr>"

lemma auditLifecycle_audited [simp]: "audited c (auditLifecycle a t s r c)"
  by (simp add: audited_def auditLifecycle_def)

lemma audited_fields:
  assumes "audited c c'"
  shows "cg_titles c' = cg_titles c" "cg_revisions c' = cg_revisions c"
    "cg_presentations c' = cg_presentations c" "cg_sections c' = cg_sections c" "cg_blocks c' = cg_blocks c"
    "cg_pages c' = cg_pages c" "cg_panels c' = cg_panels c" "cg_images c' = cg_images c"
proof -
  have "c' = c\<lparr>cg_audit := cg_audit c'\<rparr>" using assms unfolding audited_def .
  then obtain a where "c' = c\<lparr>cg_audit := a\<rparr>" by blast
  then show "cg_titles c' = cg_titles c" "cg_revisions c' = cg_revisions c"
    "cg_presentations c' = cg_presentations c" "cg_sections c' = cg_sections c" "cg_blocks c' = cg_blocks c"
    "cg_pages c' = cg_pages c" "cg_panels c' = cg_panels c" "cg_images c' = cg_images c" by simp_all
qed

lemma same_tables_ok:
  assumes "catalog_ok c" and "cg_titles c' = cg_titles c" "cg_revisions c' = cg_revisions c"
    "cg_presentations c' = cg_presentations c" "cg_sections c' = cg_sections c" "cg_blocks c' = cg_blocks c"
    "cg_pages c' = cg_pages c" "cg_panels c' = cg_panels c"
  shows "catalog_ok c'"
proof -
  have "require_boundary c' f p = require_boundary c f p" for f p
    by (rule require_boundary_same) (use assms in \<open>simp_all add: same_content_eq settings_panels_def\<close>)
  then have "published_ok c' = published_ok c" "active_ok c' = active_ok c" "active_owned c' = active_owned c"
    using assms by (auto simp: fun_eq_iff published_ok_def active_ok_def active_owned_def published_settings_def
        split: option.splits)
  moreover have "one_of_each c' = one_of_each c" "catalog_ids c' = catalog_ids c"
    using assms(2-4) by (simp_all add: one_of_each_def catalog_ids_def)
  ultimately show ?thesis using assms(1-4) unfolding catalog_ok_def by simp
qed

lemma audited_ok: "catalog_ok c \<Longrightarrow> audited c c' \<Longrightarrow> catalog_ok c'"
  by (rule same_tables_ok) (simp_all add: audited_fields)

text \<open>Tables in which revisions only change between editable states and titles keep their format.\<close>

lemma published_ok_transfer:
  assumes ok: "published_ok c p"
    and revs: "\<And>r. r \<in> set (cg_revisions c) \<Longrightarrow> editable (tr_state r) \<Longrightarrow>
      \<exists>r' \<in> set (cg_revisions c'). tr_id r' = tr_id r \<and> tr_titleId r' = tr_titleId r \<and> editable (tr_state r')"
    and titles: "\<And>t. t \<in> set (cg_titles c) \<Longrightarrow>
      \<exists>t' \<in> set (cg_titles c'). ti_id t' = ti_id t \<and> ti_format t' = ti_format t"
    and same: "\<And>r. r \<in> set (cg_revisions c) \<Longrightarrow> editable (tr_state r) \<Longrightarrow> tr_id r = rp_revisionId p \<Longrightarrow>
      same_content (tr_id r) c c'"
    and panels: "rp_state p = Published_settings \<Longrightarrow> settings_panels c' (rp_id p) = settings_panels c (rp_id p)"
  shows "published_ok c' p"
  unfolding published_ok_def
proof
  assume pub: "rp_state p = Published_settings"
  with ok obtain r t where r: "r \<in> set (cg_revisions c)" "tr_id r = rp_revisionId p" "editable (tr_state r)"
    and t: "t \<in> set (cg_titles c)" "tr_titleId r = ti_id t" and b: "require_boundary c (ti_format t) p = Inr ()"
    unfolding published_ok_def by blast
  obtain r' where r': "r' \<in> set (cg_revisions c')" "tr_id r' = tr_id r" "tr_titleId r' = tr_titleId r"
    "editable (tr_state r')" using revs [OF r(1,3)] by blast
  obtain t' where t': "t' \<in> set (cg_titles c')" "ti_id t' = ti_id t" "ti_format t' = ti_format t"
    using titles [OF t(1)] by blast
  have "require_boundary c' (ti_format t) p = Inr ()"
    using require_boundary_same [of p c c'] same [OF r(1,3,2)] r(2) panels [OF pub] b by simp
  then show "\<exists>r\<in>set (cg_revisions c'). \<exists>t\<in>set (cg_titles c'). tr_id r = rp_revisionId p \<and>
      tr_titleId r = ti_id t \<and> editable (tr_state r) \<and> require_boundary c' (ti_format t) p = Inr ()"
    using r r' t t' by metis
qed

lemma lockRevision_Inr:
  "lockRevision c titleId k = Inr r \<Longrightarrow> r \<in> set (cg_revisions c) \<and> tr_id r = k \<and> tr_titleId r = titleId"
  by (auto simp: lockRevision_def dest: find_row_member split: option.splits)

lemma withLockedAdminTitle_Inr:
  assumes "withLockedAdminTitle actor titleId work c = Inr res"
  obtains userId title where "title \<in> set (cg_titles c)" "ti_id title = titleId" "work userId title = Inr res"
proof -
  obtain userId title where "find (\<lambda>title. ti_id title = titleId) (cg_titles c) = Some title"
    "work userId title = Inr res"
    using assms by (auto simp: withLockedAdminTitle_def rbind_eq_Inr split: actor.splits option.splits)
  then show ?thesis using that [of title userId] find_row_member [of "\<lambda>title. ti_id title = titleId" "cg_titles c" title] by simp
qed

text \<open>A revision's new state under \<^const>\<open>setActiveRevision\<close>.\<close>

definition switch_revision :: "string option \<Rightarrow> string \<Rightarrow> int \<Rightarrow> revision_row \<Rightarrow> revision_row" where
  "switch_revision current k now r =
     (if tr_id r = k then activate_revision now r
      else if Some (tr_id r) = current then retire_revision now r else r)"

lemma switch_revision_simps [simp]:
  "tr_id (switch_revision cur k now r) = tr_id r" "tr_titleId (switch_revision cur k now r) = tr_titleId r"
  "tr_state (switch_revision cur k now r) = (if tr_id r = k then Active_revision
     else if Some (tr_id r) = cur then Retired_revision else tr_state r)"
  by (simp_all add: switch_revision_def activate_revision_def retire_revision_def)

definition switch_title :: "string \<Rightarrow> string \<Rightarrow> int \<Rightarrow> title_row \<Rightarrow> title_row" where
  "switch_title titleId k now t =
     (if ti_id t = titleId then t\<lparr>ti_activeRevisionId := Some k, ti_updatedAt := now\<rparr> else t)"

lemma switch_title_simps [simp]:
  "ti_id (switch_title titleId k now t) = ti_id t" "ti_format (switch_title titleId k now t) = ti_format t"
  "ti_visibility (switch_title titleId k now t) = ti_visibility t"
  "ti_activeRevisionId (switch_title titleId k now t) = (if ti_id t = titleId then Some k else ti_activeRevisionId t)"
  by (simp_all add: switch_title_def)

definition switched :: "title_row \<Rightarrow> revision_row \<Rightarrow> int \<Rightarrow> catalog \<Rightarrow> catalog" where
  "switched title revision now c = c\<lparr>
     cg_revisions := map (switch_revision (ti_activeRevisionId title) (tr_id revision) now) (cg_revisions c),
     cg_titles := map (switch_title (ti_id title) (tr_id revision) now) (cg_titles c)\<rparr>"

lemma setActiveRevision_switched:
  assumes "setActiveRevision title revision now c = Inr (updated, c')"
  shows "c' = switched title revision now c \<and> ti_activeRevisionId title \<noteq> Some (tr_id revision)"
proof (cases "ti_activeRevisionId title")
  case None
  have "update_rows tr_id (tr_id revision) (activate_revision now) rs =
      map (switch_revision None (tr_id revision) now) rs" for rs
    by (simp add: update_rows_def switch_revision_def)
  moreover have "update_rows ti_id (ti_id title)
      (\<lambda>t. t\<lparr>ti_activeRevisionId := Some (tr_id revision), ti_updatedAt := now\<rparr>) ts =
      map (switch_title (ti_id title) (tr_id revision) now) ts" for ts
    by (simp add: update_rows_def switch_title_def)
  moreover have "c' = c\<lparr>cg_revisions := update_rows tr_id (tr_id revision) (activate_revision now) (cg_revisions c),
      cg_titles := update_rows ti_id (ti_id title)
        (\<lambda>t. t\<lparr>ti_activeRevisionId := Some (tr_id revision), ti_updatedAt := now\<rparr>) (cg_titles c)\<rparr>"
    using assms None by (simp add: setActiveRevision_def Let_def split: option.splits)
  ultimately show ?thesis using None by (simp add: switched_def)
next
  case (Some k)
  with assms obtain current where cur: "lockRevision c (ti_id title) k = Inr current"
    "tr_id current \<noteq> tr_id revision"
    and rest: "c' = c\<lparr>cg_revisions := update_rows tr_id (tr_id revision) (activate_revision now)
        (update_rows tr_id (tr_id current) (retire_revision now) (cg_revisions c)),
      cg_titles := update_rows ti_id (ti_id title)
        (\<lambda>t. t\<lparr>ti_activeRevisionId := Some (tr_id revision), ti_updatedAt := now\<rparr>) (cg_titles c)\<rparr>"
    by (auto simp: setActiveRevision_def rbind_eq_Inr Let_def split: option.splits if_splits)
  have k: "tr_id current = k" using lockRevision_Inr [OF cur(1)] by simp
  have "update_rows tr_id (tr_id revision) (activate_revision now)
      (update_rows tr_id k (retire_revision now) rs) = map (switch_revision (Some k) (tr_id revision) now) rs" for rs
    using cur(2) k by (induction rs) (auto simp: update_rows_def switch_revision_def retire_revision_def)
  moreover have "update_rows ti_id (ti_id title)
      (\<lambda>t. t\<lparr>ti_activeRevisionId := Some (tr_id revision), ti_updatedAt := now\<rparr>) ts =
      map (switch_title (ti_id title) (tr_id revision) now) ts" for ts
    by (simp add: update_rows_def switch_title_def)
  ultimately show ?thesis using rest k cur(2) Some by (simp add: switched_def)
qed

lemma switched_fields [simp]:
  "cg_presentations (switched title revision now c) = cg_presentations c"
  "cg_sections (switched title revision now c) = cg_sections c"
  "cg_blocks (switched title revision now c) = cg_blocks c"
  "cg_pages (switched title revision now c) = cg_pages c"
  "cg_panels (switched title revision now c) = cg_panels c"
  "cg_titles (switched title revision now c) = map (switch_title (ti_id title) (tr_id revision) now) (cg_titles c)"
  "cg_revisions (switched title revision now c) =
     map (switch_revision (ti_activeRevisionId title) (tr_id revision) now) (cg_revisions c)"
  by (simp_all add: switched_def)

lemma published_settings_switched [simp]:
  "published_settings (switched title revision now c) k = published_settings c k"
  by (simp add: published_settings_def)

lemma switched_titles:
  assumes ok: "catalog_ok c" and title: "title \<in> set (cg_titles c)" and rev: "revision \<in> set (cg_revisions c)"
    and own: "tr_titleId revision = ti_id title" and pub: "published_settings c (tr_id revision) \<noteq> None"
    and t: "t \<in> set (cg_titles c)"
  shows "active_ok (switched title revision now c) (switch_title (ti_id title) (tr_id revision) now t)"
proof (cases "ti_id t = ti_id title")
  case True
  then show ?thesis using rev own pub by (auto simp: active_ok_def)
next
  case False
  show ?thesis
  proof (cases "ti_activeRevisionId t")
    case None
    then show ?thesis using False catalog_okD(3) [OF ok t] by (simp add: active_ok_def)
  next
    case (Some k)
    with catalog_okD(3) [OF ok t] obtain r where r: "r \<in> set (cg_revisions c)" "tr_id r = k"
      "tr_titleId r = ti_id t" "tr_state r = Active_revision" and p: "published_settings c k \<noteq> None"
      by (auto simp: active_ok_def)
    have "k \<noteq> tr_id revision"
      using same_revision [OF catalog_okD(1) [OF ok] r(1) rev] r own False by auto
    moreover have "Some k \<noteq> ti_activeRevisionId title"
    proof
      assume "Some k = ti_activeRevisionId title"
      with catalog_okD(3) [OF ok title] obtain r' where "r' \<in> set (cg_revisions c)" "tr_id r' = k"
        "tr_titleId r' = ti_id title" by (auto simp: active_ok_def split: option.splits)
      with same_revision [OF catalog_okD(1) [OF ok] r(1), of r'] r False show False by simp
    qed
    ultimately show ?thesis using False Some r p by (auto simp: active_ok_def)
  qed
qed

lemma switched_revisions:
  assumes ok: "catalog_ok c" and title: "title \<in> set (cg_titles c)" and rev: "revision \<in> set (cg_revisions c)"
    and own: "tr_titleId revision = ti_id title"
    and r: "r \<in> set (cg_revisions c)"
  shows "active_owned (switched title revision now c)
    (switch_revision (ti_activeRevisionId title) (tr_id revision) now r)"
proof (cases "tr_id r = tr_id revision")
  case True
  then have "r = revision" using same_revision [OF catalog_okD(1) [OF ok] r rev] by simp
  then show ?thesis using title own by (auto simp: active_owned_def intro!: bexI [of _ title])
next
  case False
  show ?thesis
    unfolding active_owned_def
  proof
    assume "tr_state (switch_revision (ti_activeRevisionId title) (tr_id revision) now r) = Active_revision"
    with False have act: "tr_state r = Active_revision" "Some (tr_id r) \<noteq> ti_activeRevisionId title"
      by (auto split: if_splits)
    with catalog_okD(4) [OF ok r] obtain t where t: "t \<in> set (cg_titles c)" "ti_id t = tr_titleId r"
      "ti_activeRevisionId t = Some (tr_id r)" by (auto simp: active_owned_def)
    have "ti_id t \<noteq> ti_id title"
      using same_title [OF catalog_okD(1) [OF ok] t(1) title] t(3) act(2) by auto
    then show "\<exists>t\<in>set (cg_titles (switched title revision now c)).
        ti_id t = tr_titleId (switch_revision (ti_activeRevisionId title) (tr_id revision) now r) \<and>
        ti_activeRevisionId t = Some (tr_id (switch_revision (ti_activeRevisionId title) (tr_id revision) now r))"
      using t by (auto intro!: bexI [of _ t])
  qed
qed

lemma switched_ok:
  assumes ok: "catalog_ok c" and title: "title \<in> set (cg_titles c)" and rev: "revision \<in> set (cg_revisions c)"
    and own: "tr_titleId revision = ti_id title" and pub: "published_settings c (tr_id revision) \<noteq> None"
  shows "catalog_ok (switched title revision now c)"
proof
  let ?c = "switched title revision now c"
  show "catalog_ids ?c" using catalog_okD(1) [OF ok] by (simp add: catalog_ids_def comp_def)
  show "one_of_each ?c" using catalog_okD(2) [OF ok] unfolding one_of_each_def by simp
  show "active_ok ?c t" if "t \<in> set (cg_titles ?c)" for t
    using that switched_titles [OF ok title rev own pub] by auto
  show "active_owned ?c r" if "r \<in> set (cg_revisions ?c)" for r
    using that switched_revisions [OF ok title rev own] by auto
  show "published_ok ?c p" if p: "p \<in> set (cg_presentations ?c)" for p
  proof (rule published_ok_transfer)
    show "published_ok c p" using catalog_okD(5) [OF ok, of p] p by simp
    show "\<exists>r'\<in>set (cg_revisions ?c). tr_id r' = tr_id r \<and> tr_titleId r' = tr_titleId r \<and> editable (tr_state r')"
      if "r \<in> set (cg_revisions c)" "editable (tr_state r)" for r
      using that by (intro bexI [of _ "switch_revision (ti_activeRevisionId title) (tr_id revision) now r"])
        (simp_all add: editable_def)
    show "\<exists>t'\<in>set (cg_titles ?c). ti_id t' = ti_id t \<and> ti_format t' = ti_format t" if "t \<in> set (cg_titles c)" for t
      using that by auto
  qed (simp_all add: same_content_eq settings_panels_def)
qed

section \<open>The operations keep the invariant\<close>

definition new_revision :: "catalog \<Rightarrow> title_row \<Rightarrow> revision_row \<Rightarrow> bool" where
  "new_revision c title revision \<longleftrightarrow> revision \<in> set (cg_revisions c) \<and> tr_titleId revision = ti_id title \<and>
     published_settings c (tr_id revision) \<noteq> None"

lemma activation_ok:
  assumes ok: "catalog_ok c" and title: "title \<in> set (cg_titles c)"
    and rev: "lockRevision c (ti_id title) revisionId = Inr candidate"
    and pub: "requirePublishedSettings c (tr_id candidate) = Inr ()"
    and set: "setActiveRevision title candidate now c = Inr (updated, c1)"
  shows "catalog_ok (auditLifecycle a b s k c1)"
proof -
  have "catalog_ok (switched title candidate now c)"
    using switched_ok [OF ok title] lockRevision_Inr [OF rev] pub by (simp add: requirePublishedSettings_def)
  then have "catalog_ok c1" using setActiveRevision_switched [OF set] by simp
  then show ?thesis by (rule audited_ok) simp
qed

lemma activatePrivateRevision_ok:
  assumes "activatePrivateRevision actor titleId revisionId now c = Inr (t, c')" and ok: "catalog_ok c"
  shows "catalog_ok c'"
proof -
  obtain actorId title candidate updated c1 where "title \<in> set (cg_titles c)" "ti_id title = titleId"
    "lockRevision c titleId revisionId = Inr candidate" "requirePublishedSettings c (tr_id candidate) = Inr ()"
    "setActiveRevision title candidate now c = Inr (updated, c1)"
    "c' = auditLifecycle actorId (ti_id title) ''catalog.revision.activate_private'' (Some (tr_id candidate)) c1"
    using assms(1) unfolding activatePrivateRevision_def
    by (auto simp: rbind_eq_Inr elim!: withLockedAdminTitle_Inr split: if_splits)
  then show ?thesis using activation_ok [OF ok] by blast
qed

lemma publishReplacementRevision_ok:
  assumes "publishReplacementRevision actor titleId revisionId now c = Inr (t, c')" and ok: "catalog_ok c"
  shows "catalog_ok c'"
proof -
  obtain actorId title candidate updated c1 where "title \<in> set (cg_titles c)" "ti_id title = titleId"
    "lockRevision c titleId revisionId = Inr candidate" "requirePublishedSettings c (tr_id candidate) = Inr ()"
    "setActiveRevision title candidate now c = Inr (updated, c1)"
    "c' = auditLifecycle actorId (ti_id title) ''catalog.revision.publish_replacement'' (Some (tr_id candidate)) c1"
    using assms(1) unfolding publishReplacementRevision_def
    by (auto simp: rbind_eq_Inr elim!: withLockedAdminTitle_Inr split: if_splits)
  then show ?thesis using activation_ok [OF ok] by blast
qed

lemma rollbackRevision_ok:
  assumes "rollbackRevision actor titleId revisionId now c = Inr (t, c')" and ok: "catalog_ok c"
  shows "catalog_ok c'"
proof -
  obtain actorId title candidate updated c1 where "title \<in> set (cg_titles c)" "ti_id title = titleId"
    "lockRevision c titleId revisionId = Inr candidate" "requirePublishedSettings c (tr_id candidate) = Inr ()"
    "setActiveRevision title candidate now c = Inr (updated, c1)"
    "c' = auditLifecycle actorId (ti_id title) ''catalog.revision.rollback'' (Some (tr_id candidate)) c1"
    using assms(1) unfolding rollbackRevision_def
    by (auto simp: rbind_eq_Inr elim!: withLockedAdminTitle_Inr split: if_splits)
  then show ?thesis using activation_ok [OF ok] by blast
qed

text \<open>A change of the visibility alone.\<close>

definition shown_title :: "string \<Rightarrow> title_visibility \<Rightarrow> int \<Rightarrow> catalog \<Rightarrow> catalog" where
  "shown_title titleId v now c = c\<lparr>cg_titles := update_rows ti_id titleId
     (\<lambda>t. t\<lparr>ti_visibility := v, ti_updatedAt := now\<rparr>) (cg_titles c)\<rparr>"

lemma shown_title_ok:
  assumes ok: "catalog_ok c" and act: "\<And>t. t \<in> set (cg_titles c) \<Longrightarrow> ti_id t = titleId \<Longrightarrow> ti_activeRevisionId t \<noteq> None"
  shows "catalog_ok (shown_title titleId v now c)"
proof
  let ?c = "shown_title titleId v now c"
  have fields [simp]: "cg_revisions ?c = cg_revisions c" "cg_presentations ?c = cg_presentations c"
    "published_settings ?c = published_settings c" "same_content k c ?c" "settings_panels ?c p = settings_panels c p" for k p
    by (simp_all add: shown_title_def published_settings_def fun_eq_iff same_content_eq settings_panels_def)
  show "catalog_ids ?c"
    using catalog_okD(1) [OF ok] by (simp add: catalog_ids_def shown_title_def map_update_rows)
  show "one_of_each ?c" using catalog_okD(2) [OF ok] unfolding one_of_each_def by simp
  show "active_ok ?c t'" if "t' \<in> set (cg_titles ?c)" for t'
  proof -
    from that obtain t where t: "t \<in> set (cg_titles c)"
      "t' = (if ti_id t = titleId then t\<lparr>ti_visibility := v, ti_updatedAt := now\<rparr> else t)"
      by (auto simp: shown_title_def set_update_rows)
    then show ?thesis using catalog_okD(3) [OF ok t(1)] act [OF t(1)] by (auto simp: active_ok_def split: option.splits)
  qed
  have kept: "\<exists>t'\<in>set (cg_titles ?c). ti_id t' = ti_id t \<and> ti_format t' = ti_format t \<and>
      ti_activeRevisionId t' = ti_activeRevisionId t" if "t \<in> set (cg_titles c)" for t
    using that by (simp add: shown_title_def update_rows_bex) (rule bexI [of _ t], auto)
  show "active_owned ?c r" if "r \<in> set (cg_revisions ?c)" for r
    using that catalog_okD(4) [OF ok, of r] kept unfolding active_owned_def fields by (metis (no_types, lifting))
  show "published_ok ?c p" if "p \<in> set (cg_presentations ?c)" for p
    by (rule published_ok_transfer [of c]) (use that catalog_okD(5) [OF ok, of p] kept in auto)
qed

lemma publishTitleToStorefront_ok:
  assumes "publishTitleToStorefront supported actor titleId now c = Inr (t, c')" and ok: "catalog_ok c"
  shows "catalog_ok c'"
proof -
  obtain actorId title k updated where title: "title \<in> set (cg_titles c)" "ti_id title = titleId"
    "ti_activeRevisionId title = Some k"
    and c': "c' = auditLifecycle actorId (ti_id title) ''catalog.title.publish'' None (shown_title titleId Public_title now c)"
    using assms(1) unfolding publishTitleToStorefront_def
    by (auto simp: rbind_eq_Inr Let_def shown_title_def elim!: withLockedAdminTitle_Inr split: option.splits if_splits)
  have "catalog_ok (shown_title titleId Public_title now c)"
    by (rule shown_title_ok [OF ok]) (use title same_title [OF catalog_okD(1) [OF ok] title(1)] in auto)
  then show ?thesis unfolding c' by (rule audited_ok) simp
qed

lemma withdrawTitle_ok:
  assumes "withdrawTitle actor titleId now c = Inr (t, c')" and ok: "catalog_ok c"
  shows "catalog_ok c'"
proof -
  obtain actorId title updated where title: "title \<in> set (cg_titles c)" "ti_id title = titleId"
    "ti_activeRevisionId title \<noteq> None"
    and c': "c' = auditLifecycle actorId (ti_id title) ''catalog.title.withdraw'' None (shown_title titleId Private_title now c)"
    using assms(1) unfolding withdrawTitle_def
    by (auto simp: rbind_eq_Inr Let_def shown_title_def elim!: withLockedAdminTitle_Inr split: option.splits if_splits)
  have "catalog_ok (shown_title titleId Private_title now c)"
    by (rule shown_title_ok [OF ok]) (use title same_title [OF catalog_okD(1) [OF ok] title(1)] in auto)
  then show ?thesis unfolding c' by (rule audited_ok) simp
qed

text \<open>Reader settings: a change of the rows that keeps what the invariant reads of each published row.\<close>

lemma settings_change_ok:
  assumes ok: "catalog_ok c"
    and titles: "cg_titles c' = cg_titles c" and revs: "cg_revisions c' = cg_revisions c"
    and content: "\<And>k. same_content k c c'"
    and ids: "distinct (map rp_id (cg_presentations c'))" and each: "one_of_each c'"
    and kept: "\<And>k. published_settings c k \<noteq> None \<Longrightarrow> published_settings c' k \<noteq> None"
    and new: "\<And>p. p \<in> set (cg_presentations c') \<Longrightarrow> rp_state p = Published_settings \<Longrightarrow>
      (p \<in> set (cg_presentations c) \<and> settings_panels c' (rp_id p) = settings_panels c (rp_id p)) \<or> published_ok c' p"
  shows "catalog_ok c'"
proof
  show "catalog_ids c'" using catalog_okD(1) [OF ok] titles revs ids by (simp add: catalog_ids_def)
  show "one_of_each c'" by (fact each)
  show "active_ok c' t" if "t \<in> set (cg_titles c')" for t
    using catalog_okD(3) [OF ok, of t] that kept titles revs by (auto simp: active_ok_def split: option.splits)
  show "active_owned c' r" if "r \<in> set (cg_revisions c')" for r
    using catalog_okD(4) [OF ok, of r] that titles revs by (simp add: active_owned_def)
  show "published_ok c' p" if p: "p \<in> set (cg_presentations c')" for p
  proof (cases "rp_state p = Published_settings \<and> \<not> published_ok c' p")
    case True
    with new [OF p] have "p \<in> set (cg_presentations c)" "settings_panels c' (rp_id p) = settings_panels c (rp_id p)"
      by blast+
    then show ?thesis
      by (intro published_ok_transfer [of c, OF catalog_okD(5) [OF ok]]) (use titles revs content in auto)
  qed (auto simp: published_ok_def)
qed

lemma lockDraft_Inr:
  "lockDraft c k p now = Inr draft \<Longrightarrow> draft \<in> set (cg_presentations c) \<and> rp_id draft = p \<and>
     rp_revisionId draft = k \<and> rp_state draft = Draft_settings"
  by (auto simp: lockDraft_def dest!: find_row_member split: option.splits if_splits)

lemma requireEditableRevision_Inr:
  "requireEditableRevision c titleId k = Inr u \<Longrightarrow>
     \<exists>r \<in> set (cg_revisions c). tr_id r = k \<and> tr_titleId r = titleId \<and> editable (tr_state r)"
  by (auto simp: requireEditableRevision_def dest!: find_row_member split: option.splits)

lemma set_draft_simps [simp]:
  "rp_id (set_draft i u p) = rp_id p" "rp_revisionId (set_draft i u p) = rp_revisionId p"
  "rp_state (set_draft i u p) = rp_state p"
  by (simp_all add: set_draft_def)

lemma saveDraftPresentation_ok:
  assumes "saveDraftPresentation newIds actor input now c = Inr (p, c')" and ok: "catalog_ok c"
  shows "catalog_ok c'"
proof -
  obtain draft a where
    draft: "lockDraft c (sd_revisionId input) (sd_presentationId input) (sd_expectedUpdatedAt input) = Inr draft"
    and c': "c' = auditLifecycle a (sd_titleId input) ''catalog.reader_settings.draft.save''
      (Some (sd_revisionId input)) (save_draft newIds now input draft c)"
    using assms(1) unfolding saveDraftPresentation_def
    by (auto simp: rbind_eq_Inr Let_def split: option.splits if_splits)
  let ?added = "draft_panels newIds input draft" and ?u = "nextUpdatedAt now (rp_updatedAt draft)"
  define c1 where "c1 = save_draft newIds now input draft c"
  have added: "\<forall>panel \<in> set ?added. pq_presentationId panel = rp_id draft"
    by (auto simp: draft_panels_def)
  note c1 = c1_def [unfolded save_draft_def]
  have d: "draft \<in> set (cg_presentations c)" "rp_state draft = Draft_settings" using lockDraft_Inr [OF draft] by blast+
  have rows: "q' \<in> set (cg_presentations c1) \<longleftrightarrow>
      (\<exists>q \<in> set (cg_presentations c). q' = (if rp_id q = rp_id draft then set_draft input ?u q else q))" for q'
    by (auto simp: c1 set_update_rows)
  have "catalog_ok c1"
  proof (rule settings_change_ok [OF ok])
    show "distinct (map rp_id (cg_presentations c1))"
      using catalog_okD(1) [OF ok] by (simp add: c1 catalog_ids_def map_update_rows)
    show "one_of_each c1"
      unfolding one_of_each_def
    proof (intro ballI impI)
      fix p' q' assume "p' \<in> set (cg_presentations c1)" "q' \<in> set (cg_presentations c1)"
        and same: "rp_revisionId p' = rp_revisionId q' \<and> rp_state p' = rp_state q' \<and> rp_state p' \<noteq> Superseded_settings"
      then obtain p q where p: "p \<in> set (cg_presentations c)" "p' = (if rp_id p = rp_id draft then set_draft input ?u p else p)"
        and q: "q \<in> set (cg_presentations c)" "q' = (if rp_id q = rp_id draft then set_draft input ?u q else q)"
        unfolding rows by blast
      with same have "rp_revisionId p = rp_revisionId q \<and> rp_state p = rp_state q \<and> rp_state p \<noteq> Superseded_settings"
        by (auto split: if_splits)
      then have "p = q" using catalog_okD(2) [OF ok] p(1) q(1) unfolding one_of_each_def by blast
      then show "p' = q'" using p(2) q(2) by simp
    qed
    show "published_settings c1 k \<noteq> None" if pub: "published_settings c k \<noteq> None" for k
    proof -
      obtain p where "p \<in> set (cg_presentations c)" "rp_revisionId p = k" "rp_state p = Published_settings"
        using pub unfolding published_settings_iff by blast
      then show ?thesis unfolding published_settings_iff
        by (intro bexI [of _ "if rp_id p = rp_id draft then set_draft input ?u p else p"]) (auto simp: rows)
    qed
    show "(p' \<in> set (cg_presentations c) \<and> settings_panels c1 (rp_id p') = settings_panels c (rp_id p')) \<or> published_ok c1 p'"
      if p': "p' \<in> set (cg_presentations c1)" "rp_state p' = Published_settings" for p'
    proof (rule disjI1)
      from p'(1) obtain p where p: "p \<in> set (cg_presentations c)" "p' = (if rp_id p = rp_id draft then set_draft input ?u p else p)"
        unfolding rows by blast
      with p'(2) have "rp_state p = Published_settings" by (auto split: if_splits)
      then have "rp_id p \<noteq> rp_id draft" using same_presentation [OF catalog_okD(1) [OF ok] p(1) d(1)] d(2) by auto
      moreover from this have "filter (\<lambda>panel. pq_presentationId panel = rp_id p) ?added = []"
        using added by (auto simp: filter_empty_conv)
      moreover have "filter (\<lambda>panel. pq_presentationId panel = rp_id p)
          (filter (\<lambda>panel. pq_presentationId panel \<noteq> rp_id draft) (cg_panels c)) =
          filter (\<lambda>panel. pq_presentationId panel = rp_id p) (cg_panels c)"
        using \<open>rp_id p \<noteq> rp_id draft\<close> by (auto intro: filter_cong simp: filter_filter)
      ultimately show "p' \<in> set (cg_presentations c) \<and> settings_panels c1 (rp_id p') = settings_panels c (rp_id p')"
        using p by (simp add: settings_panels_def c1)
    qed
  qed (simp_all add: c1 same_content_eq)
  then show ?thesis unfolding c' c1_def by (rule audited_ok) simp
qed

text \<open>The rows after publishing: the draft published, the settings before it superseded, a new draft.\<close>

definition published_row :: "presentation_row option \<Rightarrow> presentation_row \<Rightarrow> int \<Rightarrow> presentation_row \<Rightarrow> presentation_row" where
  "published_row current draft u p =
     (if rp_id p = rp_id draft then p\<lparr>rp_state := Published_settings, rp_updatedAt := u\<rparr>
      else if Some (rp_id p) = map_option rp_id current then p\<lparr>rp_state := Superseded_settings, rp_updatedAt := u\<rparr>
      else p)"

lemma published_row_simps [simp]:
  "rp_id (published_row current draft u p) = rp_id p"
  "rp_revisionId (published_row current draft u p) = rp_revisionId p"
  "rp_state (published_row current draft u p) = (if rp_id p = rp_id draft then Published_settings
     else if Some (rp_id p) = map_option rp_id current then Superseded_settings else rp_state p)"
  by (simp_all add: published_row_def)

lemma publish_draft_rows:
  assumes ids: "catalog_ids c" and draft: "draft \<in> set (cg_presentations c)" "rp_state draft = Draft_settings"
    and pub: "publish_draft newIds newDraftId now draft c = (p, c')"
  shows "cg_presentations c' =
      map (published_row (published_settings c (rp_revisionId draft)) draft (nextUpdatedAt now (rp_updatedAt draft)))
        (cg_presentations c) @
      [draft\<lparr>rp_id := newDraftId, rp_createdAt := now, rp_updatedAt := now\<rparr>]"
    and "cg_titles c' = cg_titles c" "cg_revisions c' = cg_revisions c" "same_content k c c'"
    and "q \<noteq> newDraftId \<Longrightarrow> settings_panels c' q = settings_panels c q"
proof -
  let ?current = "published_settings c (rp_revisionId draft)" and ?u = "nextUpdatedAt now (rp_updatedAt draft)"
  have "update_rows rp_id (rp_id draft) (\<lambda>p. p\<lparr>rp_state := Published_settings, rp_updatedAt := ?u\<rparr>)
      (case ?current of None \<Rightarrow> cg_presentations c
        | Some current \<Rightarrow> update_rows rp_id (rp_id current)
            (\<lambda>p. p\<lparr>rp_state := Superseded_settings, rp_updatedAt := ?u\<rparr>) (cg_presentations c)) =
      map (published_row ?current draft ?u) (cg_presentations c)"
  proof (cases ?current)
    case None
    then show ?thesis by (simp add: update_rows_def published_row_def)
  next
    case (Some current)
    have "rp_id current \<noteq> rp_id draft"
      using published_settings_Some [OF Some] same_presentation [OF ids draft(1)] draft(2) by fastforce
    then show ?thesis using Some by (simp add: update_rows_def published_row_def)
  qed
  moreover have "draft\<lparr>rp_state := Published_settings, rp_updatedAt := ?u, rp_id := newDraftId,
      rp_state := Draft_settings, rp_createdAt := now, rp_updatedAt := now\<rparr> =
      draft\<lparr>rp_id := newDraftId, rp_createdAt := now, rp_updatedAt := now\<rparr>"
    using draft(2) by simp
  ultimately show "cg_presentations c' = map (published_row ?current draft ?u) (cg_presentations c) @
      [draft\<lparr>rp_id := newDraftId, rp_createdAt := now, rp_updatedAt := now\<rparr>]"
    using pub by (auto simp: publish_draft_def Let_def)
  show "cg_titles c' = cg_titles c" "cg_revisions c' = cg_revisions c" "same_content k c c'"
    using pub by (auto simp: publish_draft_def Let_def same_content_eq)
  show "settings_panels c' q = settings_panels c q" if "q \<noteq> newDraftId"
    using pub that by (auto simp: publish_draft_def Let_def settings_panels_def filter_empty_conv in_set_enumerate_eq)
qed

lemma published_each:
  assumes ok: "catalog_ok c" and draft: "draft \<in> set (cg_presentations c)" "rp_state draft = Draft_settings"
    and p: "p \<in> set (cg_presentations c)" and q: "q \<in> set (cg_presentations c)"
    and same: "rp_revisionId p = rp_revisionId q" "p' = published_row (published_settings c (rp_revisionId draft)) draft u p"
      "q' = published_row (published_settings c (rp_revisionId draft)) draft u q"
      "rp_state p' = rp_state q'" "rp_state p' \<noteq> Superseded_settings"
  shows "p = q"
proof -
  have each: "x = y" if "x \<in> set (cg_presentations c)" "y \<in> set (cg_presentations c)"
    "rp_revisionId x = rp_revisionId y" "rp_state x = rp_state y" "rp_state x \<noteq> Superseded_settings" for x y
    using catalog_okD(2) [OF ok] that unfolding one_of_each_def by blast
  have current: "Some (rp_id x) = map_option rp_id (published_settings c (rp_revisionId draft))"
    if x: "x \<in> set (cg_presentations c)" "rp_revisionId x = rp_revisionId draft" "rp_state x = Published_settings" for x
  proof -
    obtain y where y: "published_settings c (rp_revisionId draft) = Some y"
      using x published_settings_iff [of c "rp_revisionId draft"] by blast
    then have "x = y" using each [OF x(1), of y] published_settings_Some [OF y] x by simp
    then show ?thesis using y by simp
  qed
  have row: "x = draft" if "x \<in> set (cg_presentations c)" "rp_id x = rp_id draft" for x
    using same_presentation [OF catalog_okD(1) [OF ok] that(1) draft(1) that(2)] .
  have single: "x = draft" if "x \<in> set (cg_presentations c)" "rp_revisionId x = rp_revisionId draft"
    "rp_state (published_row (published_settings c (rp_revisionId draft)) draft u x) = Published_settings" for x
    using row [OF that(1)] current [OF that(1,2)] that(3) by (auto split: if_splits)
  show ?thesis
  proof (cases "rp_id p = rp_id draft \<or> rp_id q = rp_id draft")
    case True
    then have "rp_revisionId p = rp_revisionId draft" "rp_revisionId q = rp_revisionId draft"
      using row [OF p] row [OF q] same(1) by auto
    moreover have "rp_state p' = Published_settings"
      using True same(2-4) by (metis published_row_simps(3))
    ultimately show ?thesis using single [OF p] single [OF q] same(2-4) by simp
  next
    case False
    then have "rp_state p' = rp_state p" "rp_state q' = rp_state q" using same(2-5) by (simp_all split: if_splits)
    then show ?thesis using each [OF p q same(1)] same(4,5) by simp
  qed
qed

lemma published_new_draft:
  assumes ok: "catalog_ok c" and draft: "draft \<in> set (cg_presentations c)" "rp_state draft = Draft_settings"
    and p: "p \<in> set (cg_presentations c)"
    and "rp_revisionId p = rp_revisionId draft" "rp_state (published_row current draft u p) = Draft_settings"
  shows False
proof -
  have "rp_state p = Draft_settings" "rp_id p \<noteq> rp_id draft" using assms(6) by (auto split: if_splits)
  then have "p = draft" using catalog_okD(2) [OF ok] p draft assms(5) unfolding one_of_each_def by simp
  then show False using \<open>rp_id p \<noteq> rp_id draft\<close> by simp
qed

lemma publish_draft_ok:
  assumes ok: "catalog_ok c" and draft: "draft \<in> set (cg_presentations c)" "rp_state draft = Draft_settings"
    and r: "r \<in> set (cg_revisions c)" "tr_id r = rp_revisionId draft" "editable (tr_state r)"
    and t: "t \<in> set (cg_titles c)" "tr_titleId r = ti_id t" and checked: "require_boundary c (ti_format t) draft = Inr ()"
    and pub: "publish_draft newIds newDraftId now draft c = (p, c')" and fresh: "newDraftId \<notin> rp_id ` set (cg_presentations c)"
  shows "catalog_ok c'"
proof (rule settings_change_ok [OF ok])
  let ?row = "published_row (published_settings c (rp_revisionId draft)) draft (nextUpdatedAt now (rp_updatedAt draft))"
  let ?new = "draft\<lparr>rp_id := newDraftId, rp_createdAt := now, rp_updatedAt := now\<rparr>"
  note rows = publish_draft_rows [OF catalog_okD(1) [OF ok] draft pub]
  show "cg_titles c' = cg_titles c" "cg_revisions c' = cg_revisions c" "\<And>k. same_content k c c'" by (fact rows)+
  show "distinct (map rp_id (cg_presentations c'))"
    using catalog_okD(1) [OF ok] fresh by (auto simp: rows(1) catalog_ids_def comp_def)
  show "one_of_each c'"
    unfolding one_of_each_def
  proof (intro ballI impI)
    fix p' q' assume mem: "p' \<in> set (cg_presentations c')" "q' \<in> set (cg_presentations c')"
      and same: "rp_revisionId p' = rp_revisionId q' \<and> rp_state p' = rp_state q' \<and> rp_state p' \<noteq> Superseded_settings"
    have new: "rp_revisionId ?new = rp_revisionId draft" "rp_state ?new = Draft_settings" using draft(2) by simp_all
    consider (old) p q where "p \<in> set (cg_presentations c)" "q \<in> set (cg_presentations c)" "p' = ?row p" "q' = ?row q"
      | (left) q where "p' = ?new" "q \<in> set (cg_presentations c)" "q' = ?row q"
      | (right) p where "p \<in> set (cg_presentations c)" "p' = ?row p" "q' = ?new"
      | (both) "p' = ?new" "q' = ?new"
      using mem unfolding rows(1) by auto
    then show "p' = q'"
    proof cases
      case old
      have "rp_revisionId p = rp_revisionId q" using same old(3,4) by simp
      then have "p = q" using published_each [OF ok draft old(1,2) _ old(3,4)] same by blast
      then show ?thesis using old by simp
    next
      case left
      then show ?thesis using published_new_draft [OF ok draft left(2)] same new by (metis published_row_simps(2))
    next
      case right
      then show ?thesis using published_new_draft [OF ok draft right(1)] same new by (metis published_row_simps(2))
    qed simp
  qed
  show "published_settings c' k \<noteq> None" if k: "published_settings c k \<noteq> None" for k
  proof -
    obtain q where q: "q \<in> set (cg_presentations c)" "rp_revisionId q = k" "rp_state q = Published_settings"
      using k unfolding published_settings_iff by blast
    have "\<exists>q \<in> set (cg_presentations c). rp_revisionId q = k \<and> rp_state (?row q) = Published_settings"
    proof (cases "Some (rp_id q) = map_option rp_id (published_settings c (rp_revisionId draft))")
      case True
      then obtain y where y: "published_settings c (rp_revisionId draft) = Some y" "rp_id y = rp_id q"
        by (cases "published_settings c (rp_revisionId draft)") simp_all
      then have "y = q" using same_presentation [OF catalog_okD(1) [OF ok] _ q(1)] published_settings_Some [OF y(1)] by simp
      then have "rp_revisionId draft = k" using published_settings_Some [OF y(1)] q(2) by simp
      then show ?thesis using draft(1) by (intro bexI [of _ draft]) simp_all
    qed (use q in \<open>auto intro!: bexI [of _ q]\<close>)
    then show ?thesis unfolding published_settings_iff rows(1) by force
  qed
  show "(q' \<in> set (cg_presentations c) \<and> settings_panels c' (rp_id q') = settings_panels c (rp_id q')) \<or> published_ok c' q'"
    if q': "q' \<in> set (cg_presentations c')" "rp_state q' = Published_settings" for q'
  proof -
    have "q' \<noteq> ?new" using q'(2) draft(2) by auto
    then obtain q where q: "q \<in> set (cg_presentations c)" "q' = ?row q" using q'(1) unfolding rows(1) by auto
    have panels: "settings_panels c' (rp_id q) = settings_panels c (rp_id q)"
      using rows(5) fresh q(1) by (metis imageI)
    show ?thesis
    proof (cases "rp_id q = rp_id draft")
      case True
      then have "q = draft" using same_presentation [OF catalog_okD(1) [OF ok] q(1) draft(1)] by simp
      then have q': "q' = draft\<lparr>rp_state := Published_settings, rp_updatedAt := nextUpdatedAt now (rp_updatedAt draft)\<rparr>"
        using q(2) by (simp add: published_row_def)
      have "require_boundary c' f q' = require_boundary c' f draft" for f
        by (cases f) (simp_all add: require_boundary_def q' split: option.splits)
      then have "require_boundary c' f q' = require_boundary c f draft" for f
        using require_boundary_same [OF rows(4)] panels \<open>q = draft\<close> by simp
      then show ?thesis using r t checked q(2) \<open>q = draft\<close> rows(2,3) unfolding published_ok_def
        by (intro disjI2 impI bexI [of _ r] bexI [of _ t]) simp_all
    next
      case False
      then have "q' = q" using q(2) q'(2) by (auto simp: published_row_def split: if_splits)
      then show ?thesis using q(1) panels by simp
    qed
  qed
qed

lemma publishReaderSettings_ok:
  assumes "publishReaderSettings newIds newDraftId actor input now c = Inr (p, c')" and ok: "catalog_ok c"
    and fresh: "newDraftId \<notin> rp_id ` set (cg_presentations c)"
  shows "catalog_ok c'"
proof -
  obtain actorId title draft u where title: "title \<in> set (cg_titles c)" "ti_id title = px_titleId input"
    and edit: "requireEditableRevision c (px_titleId input) (px_revisionId input) = Inr u"
    and draft: "lockDraft c (px_revisionId input) (px_presentationId input) (px_expectedUpdatedAt input) = Inr draft"
    and checked: "require_boundary c (ti_format title) draft = Inr ()"
    and p: "p = fst (publish_draft newIds newDraftId now draft c)"
    and c': "c' = auditLifecycle actorId (px_titleId input) ''catalog.reader_settings.publish''
      (Some (px_revisionId input)) (snd (publish_draft newIds newDraftId now draft c))"
    using assms(1) unfolding publishReaderSettings_def
    by (auto simp: rbind_eq_Inr Let_def case_prod_beta elim!: withLockedAdminTitle_Inr)
  have pub: "publish_draft newIds newDraftId now draft c = (p, snd (publish_draft newIds newDraftId now draft c))"
    using p by simp
  have d: "draft \<in> set (cg_presentations c)" "rp_state draft = Draft_settings" "rp_revisionId draft = px_revisionId input"
    using lockDraft_Inr [OF draft] by blast+
  obtain r where "r \<in> set (cg_revisions c)" "tr_id r = rp_revisionId draft" "editable (tr_state r)"
    "tr_titleId r = ti_id title" using requireEditableRevision_Inr [OF edit] d(3) title(2) by auto
  from publish_draft_ok [OF ok d(1,2) this(1,2,3) title(1) this(4) checked pub fresh]
  show ?thesis unfolding c' by (rule audited_ok) simp
qed

section \<open>Runs\<close>

text \<open>
  What the ingestion of uploads, the administration of titles and their removal of roles may change:
  metadata and new private titles, revisions that are not ready for review yet, with their content
  and first draft settings.
\<close>

definition same_title_state :: "title_row \<Rightarrow> title_row \<Rightarrow> bool" where
  "same_title_state t t' \<longleftrightarrow> ti_id t' = ti_id t \<and> ti_format t' = ti_format t \<and>
     ti_visibility t' = ti_visibility t \<and> ti_activeRevisionId t' = ti_activeRevisionId t"

definition ingestion_step :: "catalog \<Rightarrow> catalog \<Rightarrow> bool" where
  "ingestion_step c c' \<longleftrightarrow> catalog_ids c' \<and> one_of_each c' \<and>
     (\<forall>t \<in> set (cg_titles c). \<exists>t' \<in> set (cg_titles c'). same_title_state t t') \<and>
     (\<forall>t' \<in> set (cg_titles c'). (\<exists>t \<in> set (cg_titles c). same_title_state t t') \<or>
        ti_visibility t' = Private_title \<and> ti_activeRevisionId t' = None) \<and>
     (\<forall>r \<in> set (cg_revisions c). editable (tr_state r) \<longrightarrow> r \<in> set (cg_revisions c')) \<and>
     (\<forall>r' \<in> set (cg_revisions c'). tr_state r' \<in> {Active_revision, Retired_revision} \<longrightarrow> r' \<in> set (cg_revisions c)) \<and>
     (\<forall>p \<in> set (cg_presentations c). rp_state p \<noteq> Draft_settings \<longrightarrow> p \<in> set (cg_presentations c')) \<and>
     (\<forall>p' \<in> set (cg_presentations c'). rp_state p' \<noteq> Draft_settings \<longrightarrow> p' \<in> set (cg_presentations c)) \<and>
     (\<forall>p \<in> set (cg_presentations c). rp_state p \<noteq> Draft_settings \<longrightarrow>
        settings_panels c' (rp_id p) = settings_panels c (rp_id p)) \<and>
     (\<forall>r \<in> set (cg_revisions c). editable (tr_state r) \<longrightarrow> same_content (tr_id r) c c')"

lemma ingestion_stepD:
  assumes "ingestion_step c c'"
  shows "catalog_ids c'" "one_of_each c'"
    "t \<in> set (cg_titles c) \<Longrightarrow> \<exists>t' \<in> set (cg_titles c'). same_title_state t t'"
    "t' \<in> set (cg_titles c') \<Longrightarrow> (\<exists>t \<in> set (cg_titles c). same_title_state t t') \<or>
       ti_visibility t' = Private_title \<and> ti_activeRevisionId t' = None"
    "r \<in> set (cg_revisions c) \<Longrightarrow> editable (tr_state r) \<Longrightarrow> r \<in> set (cg_revisions c') \<and> same_content (tr_id r) c c'"
    "r' \<in> set (cg_revisions c') \<Longrightarrow> tr_state r' = Active_revision \<Longrightarrow> r' \<in> set (cg_revisions c)"
    "p \<in> set (cg_presentations c) \<Longrightarrow> rp_state p = Published_settings \<Longrightarrow> p \<in> set (cg_presentations c')"
    "p' \<in> set (cg_presentations c') \<Longrightarrow> rp_state p' = Published_settings \<Longrightarrow>
       p' \<in> set (cg_presentations c) \<and> settings_panels c' (rp_id p') = settings_panels c (rp_id p')"
proof -
  note facts = assms [unfolded ingestion_step_def]
  show "catalog_ids c'" "one_of_each c'" using facts by blast+
  show "\<exists>t' \<in> set (cg_titles c'). same_title_state t t'" if "t \<in> set (cg_titles c)" using facts that by blast
  show "(\<exists>t \<in> set (cg_titles c). same_title_state t t') \<or> ti_visibility t' = Private_title \<and> ti_activeRevisionId t' = None"
    if "t' \<in> set (cg_titles c')" using facts that by blast
  show "r \<in> set (cg_revisions c') \<and> same_content (tr_id r) c c'"
    if "r \<in> set (cg_revisions c)" "editable (tr_state r)" using facts that by blast
  show "r' \<in> set (cg_revisions c)" if "r' \<in> set (cg_revisions c')" "tr_state r' = Active_revision"
    using facts that by blast
  have "Published_settings \<noteq> Draft_settings" by simp
  with facts show "p \<in> set (cg_presentations c')" if "p \<in> set (cg_presentations c)" "rp_state p = Published_settings"
    using that by metis
  with facts \<open>Published_settings \<noteq> Draft_settings\<close>
  show "p' \<in> set (cg_presentations c) \<and> settings_panels c' (rp_id p') = settings_panels c (rp_id p')"
    if "p' \<in> set (cg_presentations c')" "rp_state p' = Published_settings" using that by metis
qed

lemma ingestion_active_ok:
  assumes step: "ingestion_step c c'" and ok: "active_ok c t" and same: "same_title_state t t'"
  shows "active_ok c' t'"
proof (cases "ti_activeRevisionId t")
  case None
  then show ?thesis using ok same by (simp add: active_ok_def same_title_state_def)
next
  case (Some k)
  with ok obtain r p where r: "r \<in> set (cg_revisions c)" "tr_id r = k" "tr_titleId r = ti_id t" "tr_state r = Active_revision"
    and p: "published_settings c k = Some p" by (auto simp: active_ok_def)
  have "r \<in> set (cg_revisions c')" using ingestion_stepD(5) [OF step r(1)] r(4) by (simp add: editable_def)
  moreover have "p \<in> set (cg_presentations c')"
    using ingestion_stepD(7) [OF step, of p] published_settings_Some [OF p] by blast
  then have "published_settings c' k \<noteq> None"
    unfolding published_settings_iff using published_settings_Some [OF p] by blast
  ultimately show ?thesis using Some r same by (auto simp: active_ok_def same_title_state_def)
qed

lemma ingestion_step_ok:
  assumes step: "ingestion_step c c'" and ok: "catalog_ok c"
  shows "catalog_ok c'"
proof
  show "catalog_ids c'" "one_of_each c'" using ingestion_stepD(1,2) [OF step] .
  show "active_ok c' t'" if t': "t' \<in> set (cg_titles c')" for t'
    using ingestion_stepD(4) [OF step t']
  proof
    assume "\<exists>t\<in>set (cg_titles c). same_title_state t t'"
    then show ?thesis using ingestion_active_ok [OF step catalog_okD(3) [OF ok]] by blast
  qed (simp add: active_ok_def)
  show "active_owned c' r" if r: "r \<in> set (cg_revisions c')" for r
    unfolding active_owned_def
  proof
    assume act: "tr_state r = Active_revision"
    have "active_owned c r" using catalog_okD(4) [OF ok] ingestion_stepD(6) [OF step r act] .
    with act obtain t where t: "t \<in> set (cg_titles c)" "ti_id t = tr_titleId r"
      "ti_activeRevisionId t = Some (tr_id r)" unfolding active_owned_def by blast
    obtain t' where "t' \<in> set (cg_titles c')" "same_title_state t t'" using ingestion_stepD(3) [OF step t(1)] by blast
    with t show "\<exists>t\<in>set (cg_titles c'). ti_id t = tr_titleId r \<and> ti_activeRevisionId t = Some (tr_id r)"
      by (auto simp: same_title_state_def intro!: bexI [of _ t'])
  qed
  show "published_ok c' p" if p: "p \<in> set (cg_presentations c')" for p
  proof (cases "rp_state p = Published_settings")
    case True
    have old: "p \<in> set (cg_presentations c)" "settings_panels c' (rp_id p) = settings_panels c (rp_id p)"
      using ingestion_stepD(8) [OF step p True] by blast+
    show ?thesis
      by (rule published_ok_transfer [OF catalog_okD(5) [OF ok old(1)]])
        (use ingestion_stepD(3,5) [OF step] old(2) in \<open>(blast | fastforce simp: same_title_state_def)+\<close>)
  qed (simp add: published_ok_def)
qed

inductive catalog_step :: "catalog \<Rightarrow> catalog \<Rightarrow> bool" where
  activated: "activatePrivateRevision actor titleId revisionId now c = Inr (t, c') \<Longrightarrow> catalog_step c c'"
| published: "publishTitleToStorefront supported actor titleId now c = Inr (t, c') \<Longrightarrow> catalog_step c c'"
| replaced: "publishReplacementRevision actor titleId revisionId now c = Inr (t, c') \<Longrightarrow> catalog_step c c'"
| rolled_back: "rollbackRevision actor titleId revisionId now c = Inr (t, c') \<Longrightarrow> catalog_step c c'"
| withdrawn: "withdrawTitle actor titleId now c = Inr (t, c') \<Longrightarrow> catalog_step c c'"
| draft_saved: "saveDraftPresentation newIds actor input now c = Inr (p, c') \<Longrightarrow> catalog_step c c'"
| settings_published: "publishReaderSettings newIds newDraftId actor px now c = Inr (p, c') \<Longrightarrow>
    newDraftId \<notin> rp_id ` set (cg_presentations c) \<Longrightarrow> catalog_step c c'"
| ingested: "ingestion_step c c' \<Longrightarrow> catalog_step c c'"

inductive_cases catalog_stepE: "catalog_step c c'"

lemma catalog_step_ok: "catalog_step c c' \<Longrightarrow> catalog_ok c \<Longrightarrow> catalog_ok c'"
  by (induction rule: catalog_step.induct)
    (blast intro: activatePrivateRevision_ok publishTitleToStorefront_ok publishReplacementRevision_ok
      rollbackRevision_ok withdrawTitle_ok saveDraftPresentation_ok publishReaderSettings_ok ingestion_step_ok)+

lemma catalog_run_ok: "catalog_step\<^sup>*\<^sup>* c c' \<Longrightarrow> catalog_ok c \<Longrightarrow> catalog_ok c'"
  by (induction rule: rtranclp_induct) (auto intro: catalog_step_ok)

end
