(* ===== verification/ReaderAccess.thy ===== *)
theory ReaderAccess
  imports CatalogRuns CommerceTypes
begin

text \<open>
  Who may read what: the decision of \<^verbatim>\<open>library/access.ts\<close>, the lock of \<^verbatim>\<open>reader-state/lock.ts\<close>, the
  document of \<^verbatim>\<open>catalog/reader.ts\<close> and the check of positions of \<^verbatim>\<open>reader-state/anchors.ts\<close>. The
  comparison \<^verbatim>\<open>localeCompare\<close> is the parameter \<open>lc\<close>. Of a document the fields the reader code uses
  are kept.
\<close>

section \<open>Decisions\<close>

record publication_root =
  pu_title :: title_row
  pu_revisionId :: string
  pu_presentation :: presentation_row

datatype access_level = Admin_level | Entitled_level | Preview_level | Unavailable_level | Denied_level

datatype access_decision =
    Available access_level publication_root | Unavailable string | Denied

datatype access_purpose = For_reader | For_cover | Derived_media | Original_download | Admin_review

fun isAdministrator :: "actor \<Rightarrow> bool" where
  "isAdministrator (User _ roles) = List.member roles Administrator"
| "isAdministrator _ = False"

definition decidePublicationAccess ::
    "actor \<Rightarrow> title_visibility option \<Rightarrow> bool \<Rightarrow> bool \<Rightarrow> access_level" where
  "decidePublicationAccess actor titleVisibility hasActivePublication hasEntitlement =
     (case titleVisibility of
        None \<Rightarrow> Denied_level
      | Some visibility \<Rightarrow>
          if isAdministrator actor then (if hasActivePublication then Admin_level else Unavailable_level)
          else if hasEntitlement then (if hasActivePublication then Entitled_level else Unavailable_level)
          else if visibility = Public_title \<and> hasActivePublication then Preview_level
          else Denied_level)"

definition hasActiveEntitlement :: "entitlement_row list \<Rightarrow> string \<Rightarrow> string \<Rightarrow> bool" where
  "hasActiveEntitlement ents userId titleId \<longleftrightarrow>
     list_ex (\<lambda>e. en_userId e = userId \<and> en_titleId e = titleId \<and> en_revokedAt e = None) ents"

definition getCurrentPublicationRoot :: "catalog \<Rightarrow> title_row \<Rightarrow> publication_root option" where
  "getCurrentPublicationRoot c title =
     (case ti_activeRevisionId title of
        None \<Rightarrow> None
      | Some k \<Rightarrow>
          (case find (\<lambda>r. tr_id r = k \<and> tr_titleId r = ti_id title \<and> tr_state r = Active_revision) (cg_revisions c) of
             None \<Rightarrow> None
           | Some r \<Rightarrow> map_option (\<lambda>p. \<lparr>pu_title = title, pu_revisionId = tr_id r, pu_presentation = p\<rparr>)
               (published_settings c (tr_id r))))"

definition resolveAdminReviewAccess ::
    "catalog \<Rightarrow> actor \<Rightarrow> string \<Rightarrow> presentation_state \<Rightarrow> access_decision catalog_result" where
  "resolveAdminReviewAccess c actor revisionId presentationState =
     rbind (requireCapability actor Catalog_manage) (\<lambda>_.
       Inr (case find (\<lambda>r. tr_id r = revisionId) (cg_revisions c) of
          None \<Rightarrow> Denied
        | Some r \<Rightarrow>
            (case (find (\<lambda>t. ti_id t = tr_titleId r) (cg_titles c),
                find (\<lambda>p. rp_revisionId p = tr_id r \<and> rp_state p = presentationState) (cg_presentations c)) of
               (Some t, Some p) \<Rightarrow> Available Admin_level
                 \<lparr>pu_title = t, pu_revisionId = tr_id r, pu_presentation = p\<rparr>
             | _ \<Rightarrow> Denied)))"

definition resolvePublicationAccess ::
    "catalog \<Rightarrow> entitlement_row list \<Rightarrow> actor \<Rightarrow> string \<Rightarrow> string option \<Rightarrow> presentation_state option \<Rightarrow>
      access_purpose \<Rightarrow> access_decision catalog_result" where
  "resolvePublicationAccess c ents actor titleId requestedRevisionId requestedState purpose =
     (if purpose = Admin_review then
        (case requestedRevisionId of
           None \<Rightarrow> Inr Denied
         | Some k \<Rightarrow> resolveAdminReviewAccess c actor k
             (case requestedState of None \<Rightarrow> Draft_settings | Some s \<Rightarrow> s))
      else
        Inr (case find (\<lambda>t. ti_id t = titleId) (cg_titles c) of
           None \<Rightarrow> Denied
         | Some title \<Rightarrow>
             (let isEntitled = (case actor of
                    User userId _ \<Rightarrow> \<not> isAdministrator actor \<and> hasActiveEntitlement ents userId (ti_id title)
                  | _ \<Rightarrow> False);
                  pub = getCurrentPublicationRoot c title;
                  level = decidePublicationAccess actor (Some (ti_visibility title)) (pub \<noteq> None) isEntitled
              in if level = Denied_level then Denied
                 else if level = Unavailable_level then Unavailable (ti_id title)
                 else case pub of None \<Rightarrow> Denied | Some r \<Rightarrow> Available level r)))"

section \<open>The lock of a reader\<close>

datatype 'v reader_error =
    Reader_unauthenticated | Reader_forbidden | Reader_state_not_found | Invalid_reader_location
  | Active_revision_changed | Stale_reader_state 'v | Migration_conflict | Database_error

definition requireUserActor :: "actor \<Rightarrow> 'v reader_error + string" where
  "requireUserActor actor =
     (case actor of
        Anonymous \<Rightarrow> Inl Reader_unauthenticated
      | User userId _ \<Rightarrow> Inr userId
      | _ \<Rightarrow> Inl Reader_forbidden)"

record locked_reader_title =
  lr_userId :: string
  lr_title :: title_row
  lr_revisionId :: string
  lr_presentation :: presentation_row

text \<open>The persisted users are the argument \<open>users\<close>.\<close>

definition lockReaderTitle ::
    "catalog \<Rightarrow> string list \<Rightarrow> entitlement_row list \<Rightarrow> actor \<Rightarrow> string \<Rightarrow> 'v reader_error + locked_reader_title" where
  "lockReaderTitle c users ents actorSnapshot titleId =
     rbind (requireUserActor actorSnapshot) (\<lambda>userId.
     rbind (throw_if (\<not> List.member users userId) Reader_state_not_found) (\<lambda>_.
       case find (\<lambda>t. ti_id t = titleId) (cg_titles c) of
         None \<Rightarrow> Inl Reader_state_not_found
       | Some title \<Rightarrow>
           if ti_activeRevisionId title = None then Inl Reader_state_not_found
           else if \<not> hasActiveEntitlement ents userId (ti_id title) then Inl Reader_state_not_found
           else case getCurrentPublicationRoot c title of
             None \<Rightarrow> Inl Reader_state_not_found
           | Some pub \<Rightarrow> Inr \<lparr>lr_userId = userId, lr_title = title, lr_revisionId = pu_revisionId pub,
               lr_presentation = pu_presentation pub\<rparr>))"

section \<open>The document\<close>

definition compare_section :: "prose_section_row \<Rightarrow> prose_section_row \<Rightarrow> int" where
  "compare_section x y =
     (if pz_ordinal x - pz_ordinal y \<noteq> 0 then pz_ordinal x - pz_ordinal y else compare_text (pz_id x) (pz_id y))"

definition compare_block :: "(string \<Rightarrow> string \<Rightarrow> int) \<Rightarrow> prose_block_row \<Rightarrow> prose_block_row \<Rightarrow> int" where
  "compare_block lc x y =
     (if bk_ordinal x - bk_ordinal y \<noteq> 0 then bk_ordinal x - bk_ordinal y else lc (bk_id x) (bk_id y))"

definition compare_page :: "comic_page_row \<Rightarrow> comic_page_row \<Rightarrow> int" where
  "compare_page x y =
     (if cq_ordinal x - cq_ordinal y \<noteq> 0 then cq_ordinal x - cq_ordinal y else compare_text (cq_id x) (cq_id y))"

definition compare_panel_rows :: "(string \<Rightarrow> string \<Rightarrow> int) \<Rightarrow> panel_row \<Rightarrow> panel_row \<Rightarrow> int" where
  "compare_panel_rows lc x y =
     (if pq_ordinal x - pq_ordinal y \<noteq> 0 then pq_ordinal x - pq_ordinal y else lc (pq_id x) (pq_id y))"

text \<open>The blocks of a section up to the boundary, and whether it was met.\<close>

fun until_boundary :: "(prose_block_row \<Rightarrow> bool) \<Rightarrow> prose_block_row list \<Rightarrow> prose_block_row list \<times> bool" where
  "until_boundary boundary [] = ([], False)"
| "until_boundary boundary (b # bs) =
     (if boundary b then ([b], True)
      else let (taken, found) = until_boundary boundary bs in (b # taken, found))"

definition section_blocks ::
    "(string \<Rightarrow> string \<Rightarrow> int) \<Rightarrow> prose_block_row list \<Rightarrow> prose_section_row \<Rightarrow> prose_block_row list" where
  "section_blocks lc blocks s = js_sort (compare_block lc) (filter (\<lambda>b. bk_sectionId b = pz_id s) blocks)"

text \<open>The loop over the sections: what is shown of each, and whether the boundary was found.\<close>

fun shown_sections ::
    "(string \<Rightarrow> string \<Rightarrow> int) \<Rightarrow> bool \<Rightarrow> presentation_row \<Rightarrow> prose_block_row list \<Rightarrow> prose_section_row list \<Rightarrow>
      (prose_section_row \<times> prose_block_row list) list \<times> bool" where
  "shown_sections lc preview presentation blocks [] = ([], \<not> preview)"
| "shown_sections lc preview presentation blocks (s # ss) =
     (let (mapped, found) = until_boundary (\<lambda>b. preview \<and>
            Some (pz_id s) = rp_previewProseSectionId presentation \<and>
            Some (bk_id b) = rp_previewProseBlockId presentation) (section_blocks lc blocks s)
      in if found then (if mapped = [] then [] else [(s, mapped)], True)
         else let (rest, found') = shown_sections lc preview presentation blocks ss
           in ((if mapped = [] then rest else (s, mapped) # rest), found'))"

definition imageDto :: "string \<Rightarrow> prose_image_row \<Rightarrow> prose_image_dto" where
  "imageDto revisionId img = \<lparr>pi_id = im_id img,
     pi_url = ''/media/revisions/'' @ revisionId @ ''/images/'' @ im_id img @ ''/'' @ im_checksumSha256 img\<rparr>"

definition sectionDto :: "prose_section_row \<times> prose_block_row list \<Rightarrow> prose_section_dto" where
  "sectionDto sb = \<lparr>ps_ordinal = pz_ordinal (fst sb),
     ps_blocks = map (\<lambda>b. \<lparr>pb_id = bk_id b, pb_content = bk_content b\<rparr>) (snd sb)\<rparr>"

definition sorted_sections :: "catalog \<Rightarrow> string \<Rightarrow> prose_section_row list" where
  "sorted_sections c revisionId =
     js_sort compare_section (filter (\<lambda>s. pz_revisionId s = revisionId) (cg_sections c))"

definition all_blocks :: "catalog \<Rightarrow> string \<Rightarrow> prose_block_row list" where
  "all_blocks c revisionId = filter (\<lambda>b. bk_revisionId b = revisionId) (cg_blocks c)"

definition proseDocument ::
    "(string \<Rightarrow> string \<Rightarrow> int) \<Rightarrow> catalog \<Rightarrow> publication_root \<Rightarrow> access_level \<Rightarrow> reader_document option" where
  "proseDocument lc c pub level =
     (let preview = (level = Preview_level);
          (sections, found) = shown_sections lc preview (pu_presentation pub)
            (all_blocks c (pu_revisionId pub)) (sorted_sections c (pu_revisionId pub));
          included = concat (map (\<lambda>(_, bs). List.map_filter bk_imageId bs) sections);
          images = filter (\<lambda>image. im_revisionId image = pu_revisionId pub) (cg_images c)
      in if \<not> found then None
         else Some (Prose_document (map sectionDto sections)
           (map (imageDto (pu_revisionId pub))
             (filter (\<lambda>image. \<not> preview \<or> List.member included (im_id image)) images))))"

definition comicPageDto ::
    "(string \<Rightarrow> string \<Rightarrow> int) \<Rightarrow> publication_root \<Rightarrow> panel_row list \<Rightarrow> comic_page_row \<Rightarrow> comic_page_dto" where
  "comicPageDto lc pub panels page = \<lparr>cp_id = cq_id page, cp_ordinal = cq_ordinal page,
     cp_url = ''/media/revisions/'' @ pu_revisionId pub @ ''/images/'' @ cq_id page @ ''/'' @ cq_checksumSha256 page,
     cp_width = cq_width page, cp_height = cq_height page,
     cp_panels = map (\<lambda>panel. \<lparr>pn_id = pq_id panel, pn_ordinal = pq_ordinal panel, pn_x = pq_x panel,
         pn_y = pq_y panel, pn_width = pq_width panel, pn_height = pq_height panel\<rparr>)
       (js_sort (compare_panel_rows lc) (filter (\<lambda>panel. pq_pageId panel = cq_id page) panels))\<rparr>"

definition comicDocument ::
    "(string \<Rightarrow> string \<Rightarrow> int) \<Rightarrow> catalog \<Rightarrow> publication_root \<Rightarrow> access_level \<Rightarrow> reader_document option" where
  "comicDocument lc c pub level =
     (let allPages = js_sort compare_page (revision_pages c (pu_revisionId pub));
          panels = filter (\<lambda>panel. pq_revisionId panel = pu_revisionId pub \<and>
            pq_presentationId panel = rp_id (pu_presentation pub)) (cg_panels c)
      in map_option (\<lambda>pages. Comic_document (rp_guidedViewEnabled (pu_presentation pub))
             (map (comicPageDto lc pub panels) pages))
           (if level = Preview_level then
              map_option (\<lambda>boundaryIndex. take (boundaryIndex + 1) allPages)
                (find_page (\<lambda>page. Some (cq_id page) = rp_previewComicPageId (pu_presentation pub)) allPages)
            else Some allPages))"

definition readerDocument ::
    "(string \<Rightarrow> string \<Rightarrow> int) \<Rightarrow> catalog \<Rightarrow> publication_root \<Rightarrow> access_level \<Rightarrow> reader_document option" where
  "readerDocument lc c pub level =
     (if ti_format (pu_title pub) = Prose then proseDocument lc c pub level
      else comicDocument lc c pub level)"

definition getReaderDocumentForAccess ::
    "(string \<Rightarrow> string \<Rightarrow> int) \<Rightarrow> catalog \<Rightarrow> access_decision \<Rightarrow> reader_document option" where
  "getReaderDocumentForAccess lc c decision =
     (case decision of Available level pub \<Rightarrow> readerDocument lc c pub level | _ \<Rightarrow> None)"

section \<open>Positions\<close>

definition validateReaderLocation ::
    "catalog \<Rightarrow> string \<Rightarrow> string \<Rightarrow> publication_format \<Rightarrow> presentation_row \<Rightarrow> reader_location \<Rightarrow>
      'v reader_error + reader_location" where
  "validateReaderLocation c titleId revisionId format presentation location =
     (let ofTitle = list_ex (\<lambda>r. tr_id r = revisionId \<and> tr_titleId r = titleId) (cg_revisions c) in
      if rp_state presentation \<noteq> Published_settings then Inl Invalid_reader_location
      else case format of
        Prose \<Rightarrow>
          (case location of
             Comic_location _ _ \<Rightarrow> Inl Invalid_reader_location
           | Prose_location blockId offset \<Rightarrow>
               if offset < 0 then Inl Invalid_reader_location
               else case find (\<lambda>b. bk_id b = blockId) (all_blocks c revisionId) of
                 None \<Rightarrow> Inl Invalid_reader_location
               | Some block \<Rightarrow>
                   if \<not> ofTitle \<or> offset > proseBlockVisibleLength (bk_content block)
                   then Inl Invalid_reader_location else Inr location)
      | Comic \<Rightarrow>
          (case location of
             Prose_location _ _ \<Rightarrow> Inl Invalid_reader_location
           | Comic_location pageId panelOrdinal \<Rightarrow>
               (case find (\<lambda>p. cq_id p = pageId) (revision_pages c revisionId) of
                  None \<Rightarrow> Inl Invalid_reader_location
                | Some page \<Rightarrow>
                    if \<not> ofTitle then Inl Invalid_reader_location
                    else case panelOrdinal of
                      None \<Rightarrow> Inr location
                    | Some ordinal \<Rightarrow>
                        if \<not> rp_guidedViewEnabled presentation then Inl Invalid_reader_location
                        else if list_ex (\<lambda>panel. pq_revisionId panel = revisionId \<and>
                            pq_presentationId panel = rp_id presentation \<and> pq_pageId panel = cq_id page \<and>
                            pq_ordinal panel = ordinal) (cg_panels c)
                        then Inr location else Inl Invalid_reader_location)))"

end
