(* ===== verification/Grants.thy ===== *)
theory Grants
  imports CommerceTypes
begin

text \<open>
  \<^verbatim>\<open>commerce/grants.ts\<close> and \<^verbatim>\<open>commerce/refund-access.ts\<close>: the states of entitlement grants, the
  transitions each origin may make, the projection of grants to the effective entitlement of a
  reader, and the revocation of purchase grants whose item was refunded in full. A transaction is
  a function on the two tables; it runs under the advisory and row locks of the source, so no other
  transaction interleaves. The identifier the database chooses for an inserted row is an argument.
\<close>

section \<open>Transitions\<close>

datatype effective_state = Effective_active | Effective_revoked

definition effectiveEntitlementState :: "grant_state list \<Rightarrow> effective_state" where
  "effectiveEntitlementState states =
     (if \<exists>s \<in> set states. s = Active then Effective_active else Effective_revoked)"

datatype transition_origin =
    Claim_origin | Payment_origin | Refund_origin | Dispute_origin | Preserved_origin
  | Administrative_recovery

record grant_transition_rule =
  gr_source :: grant_source
  gr_nextStatesByState :: "grant_state \<Rightarrow> grant_state list"

fun reversible_transitions :: "grant_state \<Rightarrow> grant_state list" where
  "reversible_transitions Unclaimed = [Active, Suspended, Revoked]"
| "reversible_transitions Active = [Unclaimed, Suspended, Revoked]"
| "reversible_transitions Suspended = [Unclaimed, Active, Revoked]"
| "reversible_transitions Revoked = [Unclaimed, Active, Suspended]"

definition purchase_transitions :: "grant_state \<Rightarrow> grant_state list" where
  "purchase_transitions = reversible_transitions(Revoked := [])"

fun administrative_transitions :: "grant_state \<Rightarrow> grant_state list" where
  "administrative_transitions Unclaimed = []"
| "administrative_transitions Active = [Revoked]"
| "administrative_transitions Suspended = []"
| "administrative_transitions Revoked = [Active]"

fun grant_transition_matrix :: "transition_origin \<Rightarrow> grant_transition_rule" where
  "grant_transition_matrix Claim_origin =
     \<lparr>gr_source = Purchase, gr_nextStatesByState = purchase_transitions\<rparr>"
| "grant_transition_matrix Payment_origin =
     \<lparr>gr_source = Purchase, gr_nextStatesByState = purchase_transitions\<rparr>"
| "grant_transition_matrix Refund_origin =
     \<lparr>gr_source = Purchase, gr_nextStatesByState = purchase_transitions\<rparr>"
| "grant_transition_matrix Dispute_origin =
     \<lparr>gr_source = Purchase, gr_nextStatesByState = purchase_transitions\<rparr>"
| "grant_transition_matrix Preserved_origin =
     \<lparr>gr_source = Preserved, gr_nextStatesByState = reversible_transitions\<rparr>"
| "grant_transition_matrix Administrative_recovery =
     \<lparr>gr_source = Administrative, gr_nextStatesByState = administrative_transitions\<rparr>"

definition assertGrantTransitionAllowed ::
  "grant_source \<Rightarrow> grant_state \<Rightarrow> grant_state \<Rightarrow> transition_origin \<Rightarrow> unit commerce" where
  "assertGrantTransitionAllowed source state nextState origin =
     (if nextState = state then Inr ()
      else if source = Preserved \<and> (origin = Refund_origin \<or> origin = Dispute_origin)
      then Inl (Commerce_conflict Preserved_grant_immutable)
      else
        let rule = grant_transition_matrix origin in
        if gr_source rule \<noteq> source then Inl Permanent_commerce
        else if source = Purchase \<and> state = Revoked
        then Inl (Commerce_conflict Grant_permanently_revoked)
        else if nextState \<notin> set (gr_nextStatesByState rule state) then Inl Permanent_commerce
        else Inr ())"

section \<open>The tables and the projection\<close>

record access_db =
  ad_grants :: "entitlement_grant_row list"
  ad_entitlements :: "entitlement_row list"

definition scope_grants :: "string \<Rightarrow> string \<Rightarrow> access_db \<Rightarrow> entitlement_grant_row list" where
  "scope_grants userId titleId db =
     filter (\<lambda>g. eg_userId g = Some userId \<and> eg_titleId g = titleId) (ad_grants db)"

definition scope_entitlement :: "string \<Rightarrow> string \<Rightarrow> access_db \<Rightarrow> entitlement_row option" where
  "scope_entitlement userId titleId db =
     find (\<lambda>e. en_userId e = userId \<and> en_titleId e = titleId) (ad_entitlements db)"

definition projectEffectiveEntitlement ::
  "string \<Rightarrow> string \<Rightarrow> string \<Rightarrow> int \<Rightarrow> access_db \<Rightarrow> (bool \<times> bool) \<times> access_db" where
  "projectEffectiveEntitlement newId userId titleId now db =
     (let existing = scope_entitlement userId titleId db;
          beforeActive = (case existing of None \<Rightarrow> False | Some e \<Rightarrow> en_revokedAt e = None);
          afterActive = (effectiveEntitlementState (map eg_state (scope_grants userId titleId db)) =
            Effective_active);
          rows = ad_entitlements db;
          rows' = (case existing of
            None \<Rightarrow>
              if afterActive then rows @ [\<lparr>en_id = newId, en_userId = userId, en_titleId = titleId,
                en_grantedAt = now, en_revokedAt = None, en_createdAt = now, en_updatedAt = now\<rparr>]
              else rows
          | Some e \<Rightarrow>
              if afterActive \<and> en_revokedAt e \<noteq> None then
                update_rows en_id (en_id e)
                  (\<lambda>r. r\<lparr>en_revokedAt := None, en_updatedAt := now\<rparr>) rows
              else if \<not> afterActive \<and> en_revokedAt e = None then
                update_rows en_id (en_id e)
                  (\<lambda>r. r\<lparr>en_revokedAt := Some now, en_updatedAt := now\<rparr>) rows
              else rows)
      in ((beforeActive, afterActive), db\<lparr>ad_entitlements := rows'\<rparr>))"

text \<open>\<^verbatim>\<open>/^[a-z0-9_]{1,100}$/u\<close>\<close>

definition state_reason_text :: "string \<Rightarrow> bool" where
  "state_reason_text s \<longleftrightarrow> s \<noteq> [] \<and> length s \<le> 100 \<and>
     list_all (\<lambda>c. (CHR ''a'' \<le> c \<and> c \<le> CHR ''z'') \<or> decimal_digit c \<or> c = CHR ''_'') s"

record preserved_input =
  pg_userId :: string
  pg_titleId :: string
  pg_active :: bool
  pg_stateReason :: string
  pg_now :: int

definition setPreservedGrantState ::
  "string \<Rightarrow> string \<Rightarrow> preserved_input \<Rightarrow> access_db \<Rightarrow>
   ((bool \<times> bool) \<times> access_db) commerce" where
  "setPreservedGrantState newGrantId newEntitlementId input db =
     (if \<not> state_reason_text (pg_stateReason input) then Inl Permanent_commerce
      else
        let now = pg_now input;
            nextState = (if pg_active input then Active else Revoked);
            project = projectEffectiveEntitlement newEntitlementId (pg_userId input)
              (pg_titleId input) now
        in case find (\<lambda>g. eg_userId g = Some (pg_userId input) \<and> eg_titleId g = pg_titleId input \<and>
              eg_source g = Preserved) (ad_grants db) of
             Some existing \<Rightarrow>
               rbind (assertGrantTransitionAllowed (eg_source existing) (eg_state existing) nextState
                 Preserved_origin) (\<lambda>_.
               Inr (project (db\<lparr>ad_grants := update_rows eg_id (eg_id existing)
                 (\<lambda>g. g\<lparr>eg_state := nextState, eg_stateReason := pg_stateReason input,
                    eg_suspendedAt := None,
                    eg_revokedAt := (if pg_active input then None else Some now),
                    eg_updatedAt := now\<rparr>) (ad_grants db)\<rparr>)))
           | None \<Rightarrow>
               Inr (project (if pg_active input then db\<lparr>ad_grants := ad_grants db @
                 [\<lparr>eg_id = newGrantId, eg_titleId = pg_titleId input,
                   eg_userId = Some (pg_userId input), eg_source = Preserved,
                   eg_orderItemId = None, eg_recoveryRefundAllocationId = None,
                   eg_state = Active, eg_stateReason = pg_stateReason input, eg_grantedAt = now,
                   eg_suspendedAt = None, eg_revokedAt = None, eg_createdAt = now,
                   eg_updatedAt = now\<rparr>]\<rparr> else db)))"

section \<open>Access after refunds\<close>

definition reconciliationTransitionTime :: "int \<Rightarrow> int \<Rightarrow> int" where
  "reconciliationTransitionTime now grantedAt = (if now < grantedAt then grantedAt else now)"

record grant_transition =
  gt_grantId :: string
  gt_orderItemId :: string
  gt_userId :: "string option"
  gt_titleId :: string
  gt_beforeState :: grant_state
  gt_afterState :: grant_state

record projected_scope =
  ps_userId :: string
  ps_titleId :: string
  ps_beforeActive :: bool
  ps_afterActive :: bool

record access_result =
  ar_grantTransitions :: "grant_transition list"
  ar_projectedScopes :: "projected_scope list"

record refund_access_input =
  rs_items :: "order_item_row list"
  rs_allocations :: "(string \<times> int) list"
  rs_grants :: "entitlement_grant_row list"
  rs_now :: int

text \<open>One grant for every item, each a purchase of its title.\<close>

definition check_grants ::
  "order_item_row list \<Rightarrow> entitlement_grant_row list \<Rightarrow> unit commerce" where
  "check_grants items grants =
     rbind (rfold (\<lambda>grant grantItemIds.
       case eg_orderItemId grant of
         None \<Rightarrow> Inl permanentReconciliationFailure
       | Some orderItemId \<Rightarrow>
           (case index_by oi_id items orderItemId of
              None \<Rightarrow> Inl permanentReconciliationFailure
            | Some item \<Rightarrow>
                if eg_source grant \<noteq> Purchase \<or> orderItemId = [] \<or> orderItemId \<in> grantItemIds \<or>
                   eg_titleId grant \<noteq> oi_titleId item
                then Inl permanentReconciliationFailure
                else Inr (insert orderItemId grantItemIds))) grants {}) (\<lambda>grantItemIds.
     throw_if (card grantItemIds \<noteq> length items) permanentReconciliationFailure)"

definition allocated_to :: "(string \<times> int) list \<Rightarrow> string \<Rightarrow> int" where
  "allocated_to allocations itemId =
     sum_list (map snd (filter (\<lambda>row. fst row = itemId) allocations))"

definition fully_allocated :: "order_item_row list \<Rightarrow> (string \<times> int) list \<Rightarrow> string set" where
  "fully_allocated items allocations =
     oi_id ` set (filter (\<lambda>item. Some (allocated_to allocations (oi_id item)) = oi_totalMinor item)
       items)"

fun revoke_grants ::
  "int \<Rightarrow> string set \<Rightarrow> entitlement_grant_row list \<Rightarrow> access_db \<Rightarrow>
   (grant_transition list \<times> (string \<times> string) list \<times> access_db) commerce" where
  "revoke_grants now full [] db = Inr ([], [], db)"
| "revoke_grants now full (grant # grants) db =
     (case eg_orderItemId grant of
        None \<Rightarrow> revoke_grants now full grants db
      | Some orderItemId \<Rightarrow>
          if orderItemId = [] \<or> orderItemId \<notin> full then revoke_grants now full grants db
          else
            rbind (assertGrantTransitionAllowed (eg_source grant) (eg_state grant) Revoked
              Refund_origin) (\<lambda>_.
            let transition = \<lparr>gt_grantId = eg_id grant, gt_orderItemId = orderItemId,
                  gt_userId = eg_userId grant, gt_titleId = eg_titleId grant,
                  gt_beforeState = eg_state grant, gt_afterState = Revoked\<rparr> in
            if eg_state grant = Revoked then
              rbind (revoke_grants now full grants db) (\<lambda>(transitions, scopes, db').
              Inr (transition # transitions, scopes, db'))
            else
              let db1 = db\<lparr>ad_grants := update_rows eg_id (eg_id grant)
                    (\<lambda>g. g\<lparr>eg_state := Revoked, eg_stateReason := ''refund_fully_allocated'',
                       eg_suspendedAt := None,
                       eg_revokedAt := Some (reconciliationTransitionTime now (eg_grantedAt grant)),
                       eg_updatedAt := now\<rparr>) (ad_grants db)\<rparr> in
              rbind (revoke_grants now full grants db1) (\<lambda>(transitions, scopes, db').
              Inr (transition # transitions,
                (case eg_userId grant of
                   None \<Rightarrow> scopes
                 | Some u \<Rightarrow> if u = [] then scopes else (u, eg_titleId grant) # scopes),
                db'))))"

fun project_scopes ::
  "(string \<Rightarrow> string \<Rightarrow> int \<Rightarrow> access_db \<Rightarrow> (bool \<times> bool) \<times> access_db) \<Rightarrow> int \<Rightarrow>
   (string \<times> string) list \<Rightarrow> access_db \<Rightarrow> projected_scope list \<times> access_db" where
  "project_scopes project now [] db = ([], db)"
| "project_scopes project now ((userId, titleId) # scopes) db =
     (let ((before, after), db1) = project userId titleId now db;
          (projected, db2) = project_scopes project now scopes db1
      in (\<lparr>ps_userId = userId, ps_titleId = titleId, ps_beforeActive = before,
           ps_afterActive = after\<rparr> # projected, db2))"

text \<open>
  \<^verbatim>\<open>localeCompare\<close> depends on the collation of the runtime: it is the argument \<open>localeCompare\<close>.
  The keys of the map of scopes join user and title with a NUL; here they are pairs.
\<close>

definition compare_scopes ::
  "(string \<Rightarrow> string \<Rightarrow> int) \<Rightarrow> string \<times> string \<Rightarrow> string \<times> string \<Rightarrow> int" where
  "compare_scopes localeCompare left right =
     (let byUser = localeCompare (fst left) (fst right) in
      if byUser \<noteq> 0 then byUser else localeCompare (snd left) (snd right))"

definition recomputeRefundPurchaseAccess ::
  "(string \<Rightarrow> string \<Rightarrow> int) \<Rightarrow>
   (string \<Rightarrow> string \<Rightarrow> int \<Rightarrow> access_db \<Rightarrow> (bool \<times> bool) \<times> access_db) \<Rightarrow>
   refund_access_input \<Rightarrow> access_db \<Rightarrow> (access_result \<times> access_db) commerce" where
  "recomputeRefundPurchaseAccess localeCompare projectEntitlement input db =
     rbind (check_grants (rs_items input) (rs_grants input)) (\<lambda>_.
     let full = fully_allocated (rs_items input) (rs_allocations input);
         sortedGrants = js_sort (\<lambda>l r. localeCompare (eg_id l) (eg_id r)) (rs_grants input) in
     rbind (revoke_grants (rs_now input) full sortedGrants db) (\<lambda>(transitions, changed, db1).
     let uniqueScopes = js_sort (compare_scopes localeCompare)
           (map fst (fold (\<lambda>s. AList.update s ()) changed []));
         (projected, db2) = project_scopes projectEntitlement (rs_now input) uniqueScopes db1
     in Inr (\<lparr>ar_grantTransitions = transitions, ar_projectedScopes = projected\<rparr>, db2)))"

section \<open>Facts on single transitions\<close>

lemma assert_transition_Inr:
  "assertGrantTransitionAllowed source state next origin = Inr () \<longleftrightarrow>
     next = state \<or>
     (gr_source (grant_transition_matrix origin) = source \<and>
      \<not> (source = Purchase \<and> state = Revoked) \<and>
      next \<in> set (gr_nextStatesByState (grant_transition_matrix origin) state))"
  by (cases origin; cases source) (simp_all add: assertGrantTransitionAllowed_def Let_def)

lemma reversible_complete: "set (reversible_transitions s) = UNIV - {s}"
proof -
  have all: "UNIV = {Unclaimed, Active, Suspended, Revoked}" using grant_state.exhaust by auto
  show ?thesis unfolding all by (cases s) auto
qed

lemma purchase_transition_Inr:
  assumes "gr_source (grant_transition_matrix origin) = Purchase"
  shows "assertGrantTransitionAllowed Purchase state next origin = Inr () \<longleftrightarrow>
     next = state \<or> state \<noteq> Revoked"
proof -
  have "gr_nextStatesByState (grant_transition_matrix origin) = purchase_transitions"
    using assms by (cases origin) simp_all
  then show ?thesis
    unfolding assert_transition_Inr
    using assms reversible_complete [of state] by (auto simp: purchase_transitions_def)
qed

section \<open>Entitlement as a relation\<close>

text \<open>
  The abstract view of the two tables: who holds a title, by the entitlement rows, and who should
  hold it, by the grants.
\<close>

definition entitled :: "access_db \<Rightarrow> string \<Rightarrow> string \<Rightarrow> bool" where
  "entitled db u t \<longleftrightarrow>
     (\<exists>e \<in> set (ad_entitlements db). en_userId e = u \<and> en_titleId e = t \<and> en_revokedAt e = None)"

definition granted :: "access_db \<Rightarrow> string \<Rightarrow> string \<Rightarrow> bool" where
  "granted db u t \<longleftrightarrow>
     (\<exists>g \<in> set (ad_grants db). eg_userId g = Some u \<and> eg_titleId g = t \<and> eg_state g = Active)"

text \<open>What the primary keys and unique indexes of the schema maintain.\<close>

definition access_wf :: "access_db \<Rightarrow> bool" where
  "access_wf db \<longleftrightarrow> distinct (map eg_id (ad_grants db)) \<and> distinct (map en_id (ad_entitlements db)) \<and>
     distinct (map (\<lambda>e. (en_userId e, en_titleId e)) (ad_entitlements db)) \<and>
     (\<forall>g \<in> set (ad_grants db). eg_userId g \<noteq> Some [])"

definition access_consistent :: "access_db \<Rightarrow> bool" where
  "access_consistent db \<longleftrightarrow> (\<forall>u t. entitled db u t \<longleftrightarrow> granted db u t)"

lemma granted_scope: "granted db u t \<longleftrightarrow>
    effectiveEntitlementState (map eg_state (scope_grants u t db)) = Effective_active"
  unfolding granted_def effectiveEntitlementState_def scope_grants_def by (auto intro!: rev_image_eqI)

lemma scope_entitlement_None:
  "scope_entitlement u t db = None \<longleftrightarrow>
     (\<forall>e \<in> set (ad_entitlements db). \<not> (en_userId e = u \<and> en_titleId e = t))"
  by (auto simp: scope_entitlement_def find_None_iff)

lemma scope_entitlement_Some:
  "scope_entitlement u t db = Some e \<Longrightarrow>
     e \<in> set (ad_entitlements db) \<and> en_userId e = u \<and> en_titleId e = t"
  by (auto simp: scope_entitlement_def find_Some_iff)

lemma scope_entitlement_unique:
  assumes "access_wf db" and "scope_entitlement u t db = Some e"
    and "r \<in> set (ad_entitlements db)" and "en_userId r = u" "en_titleId r = t"
  shows "r = e"
proof -
  have "inj_on (\<lambda>e. (en_userId e, en_titleId e)) (set (ad_entitlements db))"
    using assms(1) by (simp add: access_wf_def distinct_map)
  from inj_onD [OF this] show ?thesis using scope_entitlement_Some [OF assms(2)] assms(3-) by simp
qed

lemma entitled_scope:
  assumes "access_wf db"
  shows "entitled db u t \<longleftrightarrow>
    (case scope_entitlement u t db of None \<Rightarrow> False | Some e \<Rightarrow> en_revokedAt e = None)"
proof (cases "scope_entitlement u t db")
  case None
  then have "\<not> entitled db u t" by (auto simp: entitled_def scope_entitlement_None)
  with None show ?thesis by simp
next
  case (Some e)
  with scope_entitlement_Some [OF Some] scope_entitlement_unique [OF assms Some] show ?thesis
    by (auto simp: entitled_def)
qed

lemma same_row:
  assumes "access_wf db" "e \<in> set (ad_entitlements db)" "r \<in> set (ad_entitlements db)"
    and "en_id r = en_id e"
  shows "r = e"
proof -
  have "inj_on en_id (set (ad_entitlements db))" using assms(1) by (simp add: access_wf_def distinct_map)
  from inj_onD [OF this assms(4)] assms(2,3) show ?thesis by simp
qed

section \<open>The projection implements the relation\<close>

lemma project_grants [simp]:
  "ad_grants (snd (projectEffectiveEntitlement n u t now db)) = ad_grants db"
  by (simp add: projectEffectiveEntitlement_def Let_def)

lemma granted_project [simp]:
  "granted (snd (projectEffectiveEntitlement n u t now db)) = granted db"
  by (intro ext) (simp add: granted_def)

lemma project_result:
  assumes "access_wf db"
  shows "fst (projectEffectiveEntitlement n u t now db) = (entitled db u t, granted db u t)"
  by (simp add: projectEffectiveEntitlement_def Let_def entitled_scope [OF assms] granted_scope
      split: option.splits)

lemma project_rows:
  assumes "access_wf db"
  shows "ad_entitlements (snd (projectEffectiveEntitlement n u t now db)) =
    (case scope_entitlement u t db of
       None \<Rightarrow> if granted db u t then ad_entitlements db @ [\<lparr>en_id = n, en_userId = u, en_titleId = t,
         en_grantedAt = now, en_revokedAt = None, en_createdAt = now, en_updatedAt = now\<rparr>]
         else ad_entitlements db
     | Some e \<Rightarrow> if granted db u t \<longleftrightarrow> en_revokedAt e = None then ad_entitlements db
         else update_rows en_id (en_id e) (\<lambda>r. r\<lparr>en_revokedAt :=
           (if granted db u t then None else Some now), en_updatedAt := now\<rparr>) (ad_entitlements db))"
  by (auto simp: projectEffectiveEntitlement_def Let_def granted_scope [symmetric] split: option.splits)

lemma project_wf:
  assumes wf: "access_wf db"
    and fresh: "scope_entitlement u t db = None \<Longrightarrow> granted db u t \<Longrightarrow>
      n \<notin> en_id ` set (ad_entitlements db)"
  shows "access_wf (snd (projectEffectiveEntitlement n u t now db))"
proof (cases "scope_entitlement u t db")
  case None
  have "(u, t) \<notin> (\<lambda>e. (en_userId e, en_titleId e)) ` set (ad_entitlements db)"
    using None by (auto simp: scope_entitlement_None)
  with None wf fresh show ?thesis by (auto simp: access_wf_def project_rows [OF wf])
next
  case (Some e)
  with wf show ?thesis by (simp add: access_wf_def project_rows [OF wf] map_update_rows)
qed

lemma project_entitled:
  assumes wf: "access_wf db"
  shows "entitled (snd (projectEffectiveEntitlement n u t now db)) u' t' \<longleftrightarrow>
    (if u' = u \<and> t' = t then granted db u t else entitled db u' t')"
proof (cases "scope_entitlement u t db")
  case None
  then have "\<not> entitled db u t" by (auto simp: entitled_def scope_entitlement_None)
  with None show ?thesis by (auto simp: entitled_def project_rows [OF wf])
next
  case (Some e)
  note e = scope_entitlement_Some [OF Some] scope_entitlement_unique [OF wf Some]
    same_row [OF wf _ _ , of e]
  have "entitled db u t \<longleftrightarrow> en_revokedAt e = None" by (simp add: entitled_scope [OF wf] Some)
  with Some e show ?thesis
    by (auto simp: entitled_def project_rows [OF wf] update_rows_bex)
qed

lemma project_present:
  assumes "access_wf db" and "scope_entitlement u' t' db \<noteq> None"
  shows "scope_entitlement u' t' (snd (projectEffectiveEntitlement n u t now db)) \<noteq> None"
  using assms(2)
  by (auto simp: scope_entitlement_None project_rows [OF assms(1)] update_rows_bex
      simp del: not_None_eq split: option.splits)

text \<open>
  The projector of the source, and what it relies on: \<^verbatim>\<open>gen_random_uuid\<close> gives a new row an
  identifier that no row has and no other new row gets. Then projecting a list of scopes makes
  exactly these scopes agree with the grants.
\<close>

definition default_projector ::
  "(string \<Rightarrow> string \<Rightarrow> string) \<Rightarrow> string \<Rightarrow> string \<Rightarrow> int \<Rightarrow> access_db \<Rightarrow> (bool \<times> bool) \<times> access_db" where
  "default_projector newId u t now db = projectEffectiveEntitlement (newId u t) u t now db"

definition fresh_ids :: "(string \<Rightarrow> string \<Rightarrow> string) \<Rightarrow> access_db \<Rightarrow> bool" where
  "fresh_ids newId db \<longleftrightarrow> inj (\<lambda>(u, t). newId u t) \<and>
     (\<forall>u t. scope_entitlement u t db = None \<longrightarrow> newId u t \<notin> en_id ` set (ad_entitlements db))"

lemma project_fresh:
  assumes wf: "access_wf db" and f: "fresh_ids newId db"
  shows "fresh_ids newId (snd (projectEffectiveEntitlement (newId u t) u t now db))"
proof -
  let ?db1 = "snd (projectEffectiveEntitlement (newId u t) u t now db)"
  have "newId u' t' \<notin> en_id ` set (ad_entitlements ?db1)" if none: "scope_entitlement u' t' ?db1 = None"
    for u' t'
  proof -
    have old: "scope_entitlement u' t' db = None" using project_present [OF wf] none by blast
    then have n: "newId u' t' \<notin> en_id ` set (ad_entitlements db)" using f by (simp add: fresh_ids_def)
    have "map en_id (ad_entitlements ?db1) = map en_id (ad_entitlements db) @
        (if scope_entitlement u t db = None \<and> granted db u t then [newId u t] else [])"
      by (auto simp: project_rows [OF wf] map_update_rows split: option.splits)
    then have "set (map en_id (ad_entitlements ?db1)) = set (map en_id (ad_entitlements db) @
        (if scope_entitlement u t db = None \<and> granted db u t then [newId u t] else []))"
      by (rule arg_cong)
    then have ids: "en_id ` set (ad_entitlements ?db1) = en_id ` set (ad_entitlements db) \<union>
        (if scope_entitlement u t db = None \<and> granted db u t then {newId u t} else {})"
      by (cases "scope_entitlement u t db = None \<and> granted db u t") auto
    have "(u', t') \<noteq> (u, t)" if "scope_entitlement u t db = None" "granted db u t"
      using none that by (auto simp: scope_entitlement_None project_rows [OF wf])
    moreover have "newId u' t' \<noteq> newId u t" if "(u', t') \<noteq> (u, t)"
      using f that injD [of "\<lambda>(u, t). newId u t" "(u', t')" "(u, t)"] by (auto simp: fresh_ids_def)
    ultimately show ?thesis using n ids by (auto split: if_splits)
  qed
  then show ?thesis using f by (simp add: fresh_ids_def)
qed

lemma project_scopes_effect:
  assumes "access_wf db" and "fresh_ids newId db"
    and "project_scopes (default_projector newId) now scopes db = (ps, db')"
  shows "access_wf db' \<and> ad_grants db' = ad_grants db \<and>
    (\<forall>u t. entitled db' u t \<longleftrightarrow> (if (u, t) \<in> set scopes then granted db u t else entitled db u t))"
  using assms
proof (induction scopes arbitrary: db ps)
  case (Cons scope scopes)
  obtain u t where scope: "scope = (u, t)" by (cases scope)
  let ?db1 = "snd (projectEffectiveEntitlement (newId u t) u t now db)"
  have wf1: "access_wf ?db1"
    by (rule project_wf [OF Cons.prems(1)]) (use Cons.prems(2) in \<open>simp add: fresh_ids_def\<close>)
  obtain qs where rest: "project_scopes (default_projector newId) now scopes ?db1 = (qs, db')"
    using Cons.prems(3) by (auto simp: scope default_projector_def [abs_def] split: prod.splits)
  from Cons.IH [OF wf1 project_fresh [OF Cons.prems(1,2)] rest] project_entitled [OF Cons.prems(1)]
  show ?case by (auto simp: scope)
qed simp

section \<open>The revocation loop\<close>

definition fully_refunded :: "string set \<Rightarrow> entitlement_grant_row \<Rightarrow> bool" where
  "fully_refunded full g \<longleftrightarrow> (\<exists>k. eg_orderItemId g = Some k \<and> k \<noteq> [] \<and> k \<in> full)"

definition revoking :: "string set \<Rightarrow> entitlement_grant_row \<Rightarrow> bool" where
  "revoking full g \<longleftrightarrow> fully_refunded full g \<and> eg_state g \<noteq> Revoked"

text \<open>A row that keeps its identity, and everything else unless its identifier is in \<open>K\<close>.\<close>

definition grant_kept :: "string set \<Rightarrow> entitlement_grant_row \<Rightarrow> entitlement_grant_row \<Rightarrow> bool" where
  "grant_kept K g g' \<longleftrightarrow> eg_id g' = eg_id g \<and> eg_userId g' = eg_userId g \<and>
     eg_titleId g' = eg_titleId g \<and> eg_source g' = eg_source g \<and>
     eg_orderItemId g' = eg_orderItemId g \<and> (eg_id g \<notin> K \<longrightarrow> g' = g)"

definition grant_revoked :: "string set \<Rightarrow> entitlement_grant_row \<Rightarrow> entitlement_grant_row \<Rightarrow> bool" where
  "grant_revoked K g g' \<longleftrightarrow> grant_kept K g g' \<and> (eg_id g \<in> K \<longrightarrow> eg_state g' = Revoked)"

lemma grant_kept_refl [simp]: "grant_kept K g g"
  by (simp add: grant_kept_def)

lemma grant_kept_trans:
  "grant_kept J g g1 \<Longrightarrow> grant_kept K g1 g2 \<Longrightarrow> grant_kept (J \<union> K) g g2"
  by (auto simp: grant_kept_def)

lemma grant_revoked_trans:
  "grant_revoked J g g1 \<Longrightarrow> grant_revoked K g1 g2 \<Longrightarrow> grant_revoked (J \<union> K) g g2"
  by (auto simp: grant_revoked_def grant_kept_def)

lemma all2_kept_trans:
  "list_all2 (grant_kept J) xs ys \<Longrightarrow> list_all2 (grant_kept K) ys zs \<Longrightarrow>
     list_all2 (grant_kept (J \<union> K)) xs zs"
  by (rule list_all2_trans [OF grant_kept_trans])

lemma all2_revoked_trans:
  "list_all2 (grant_revoked J) xs ys \<Longrightarrow> list_all2 (grant_revoked K) ys zs \<Longrightarrow>
     list_all2 (grant_revoked (J \<union> K)) xs zs"
  by (rule list_all2_trans [OF grant_revoked_trans])

lemma all2_revoked_kept: "list_all2 (grant_revoked K) xs ys \<Longrightarrow> list_all2 (grant_kept K) xs ys"
  by (erule list_all2_mono) (simp add: grant_revoked_def)

lemma update_rows_kept:
  assumes "\<And>g. eg_id (f g) = eg_id g \<and> eg_userId (f g) = eg_userId g \<and> eg_titleId (f g) = eg_titleId g \<and>
    eg_source (f g) = eg_source g \<and> eg_orderItemId (f g) = eg_orderItemId g"
  shows "list_all2 (grant_kept {k}) rows (update_rows eg_id k f rows)"
  using assms by (auto simp: update_rows_def list_all2_map2 grant_kept_def list.rel_refl_strong)

lemma update_rows_revoked:
  assumes "\<And>g. eg_id (f g) = eg_id g \<and> eg_userId (f g) = eg_userId g \<and> eg_titleId (f g) = eg_titleId g \<and>
    eg_source (f g) = eg_source g \<and> eg_orderItemId (f g) = eg_orderItemId g \<and> eg_state (f g) = Revoked"
  shows "list_all2 (grant_revoked {k}) rows (update_rows eg_id k f rows)"
  using assms
  by (auto simp: update_rows_def list_all2_map2 grant_revoked_def grant_kept_def list.rel_refl_strong)

text \<open>
  Changing some grants and then projecting every scope a changed grant belongs to keeps the
  entitlements in agreement with the grants.
\<close>

lemma kept_members:
  assumes "list_all2 (grant_kept K) gs gs'"
  shows "map eg_id gs' = map eg_id gs"
    and "\<And>g'. g' \<in> set gs' \<Longrightarrow> \<exists>g \<in> set gs. grant_kept K g g'"
    and "\<And>g. g \<in> set gs \<Longrightarrow> \<exists>g' \<in> set gs'. grant_kept K g g'"
  using assms by (induction rule: list_all2_induct) (auto simp: grant_kept_def)

lemma kept_granted:
  assumes "list_all2 (grant_kept K) (ad_grants db) (ad_grants db1)"
    and "\<forall>g \<in> set (ad_grants db). eg_id g \<in> K \<longrightarrow> eg_userId g = Some u \<longrightarrow> eg_titleId g \<noteq> t"
  shows "granted db1 u t \<longleftrightarrow> granted db u t"
proof
  assume "granted db1 u t"
  then obtain g' where g': "g' \<in> set (ad_grants db1)" "eg_userId g' = Some u" "eg_titleId g' = t"
    "eg_state g' = Active" by (auto simp: granted_def)
  from kept_members(2) [OF assms(1) g'(1)] obtain g where "g \<in> set (ad_grants db)" "grant_kept K g g'"
    by blast
  with g' assms(2) show "granted db u t" by (auto simp: granted_def grant_kept_def)
next
  assume "granted db u t"
  then obtain g where g: "g \<in> set (ad_grants db)" "eg_userId g = Some u" "eg_titleId g = t"
    "eg_state g = Active" by (auto simp: granted_def)
  from kept_members(3) [OF assms(1) g(1)] obtain g' where "g' \<in> set (ad_grants db1)" "grant_kept K g g'"
    by blast
  with g assms(2) show "granted db1 u t" by (auto simp: granted_def grant_kept_def)
qed

lemma kept_wf:
  assumes "list_all2 (grant_kept K) (ad_grants db) (ad_grants db1)" and "access_wf db"
    and "ad_entitlements db1 = ad_entitlements db"
  shows "access_wf db1"
proof -
  have "eg_userId g' \<noteq> Some []" if "g' \<in> set (ad_grants db1)" for g'
    using kept_members(2) [OF assms(1) that] assms(2) by (auto simp: access_wf_def grant_kept_def)
  with assms(2,3) kept_members(1) [OF assms(1)] show ?thesis by (simp add: access_wf_def)
qed

lemma reproject_consistent:
  assumes wf: "access_wf db" and c: "access_consistent db" and f: "fresh_ids newId db"
    and kept: "list_all2 (grant_kept K) (ad_grants db) (ad_grants db1)"
    and same: "ad_entitlements db1 = ad_entitlements db"
    and cover: "\<And>g u. g \<in> set (ad_grants db) \<Longrightarrow> eg_id g \<in> K \<Longrightarrow> eg_userId g = Some u \<Longrightarrow>
      (u, eg_titleId g) \<in> set scopes"
    and run: "project_scopes (default_projector newId) now scopes db1 = (ps, db2)"
  shows "access_wf db2 \<and> access_consistent db2 \<and> ad_grants db2 = ad_grants db1"
proof -
  have f1: "fresh_ids newId db1" using f same by (simp add: fresh_ids_def scope_entitlement_def)
  have e1: "entitled db1 = entitled db" by (intro ext) (simp add: entitled_def same)
  note eff = project_scopes_effect [OF kept_wf [OF kept wf same] f1 run]
  then have g2: "granted db2 = granted db1" by (intro ext) (simp add: granted_def)
  have "entitled db2 u t \<longleftrightarrow> granted db2 u t" for u t
  proof (cases "(u, t) \<in> set scopes")
    case True
    with eff g2 show ?thesis by simp
  next
    case False
    then have "granted db1 u t \<longleftrightarrow> granted db u t" using cover by (intro kept_granted [OF kept]) blast
    with False eff g2 e1 c show ?thesis by (simp add: access_consistent_def)
  qed
  with eff show ?thesis by (simp add: access_consistent_def)
qed

lemma revoke_grants_effect:
  assumes "revoke_grants now full gs db = Inr (trs, scopes, db')"
  shows "ad_entitlements db' = ad_entitlements db \<and>
    list_all2 (grant_revoked (eg_id ` set (filter (revoking full) gs))) (ad_grants db) (ad_grants db') \<and>
    (\<forall>g \<in> set gs. revoking full g \<longrightarrow>
      (\<forall>u. eg_userId g = Some u \<and> u \<noteq> [] \<longrightarrow> (u, eg_titleId g) \<in> set scopes)) \<and>
    (\<forall>(u, t) \<in> set scopes. \<exists>g \<in> set gs. revoking full g \<and> eg_userId g = Some u \<and> eg_titleId g = t) \<and>
    map gt_grantId trs = map eg_id (filter (fully_refunded full) gs)"
  using assms
proof (induction gs arbitrary: db trs scopes)
  case Nil
  then show ?case by (simp add: list.rel_refl grant_revoked_def)
next
  case (Cons g gs)
  show ?case
  proof (cases "fully_refunded full g")
    case False
    then have "revoke_grants now full gs db = Inr (trs, scopes, db')"
      using Cons.prems by (auto simp: fully_refunded_def split: option.splits if_splits)
    from Cons.IH [OF this] False show ?thesis by (simp add: revoking_def)
  next
    case True
    then obtain k where k: "eg_orderItemId g = Some k" "k \<noteq> []" "k \<in> full"
      by (auto simp: fully_refunded_def)
    show ?thesis
    proof (cases "eg_state g = Revoked")
      case rv: True
      then obtain trs' where run: "revoke_grants now full gs db = Inr (trs', scopes, db')"
        and "map gt_grantId trs = eg_id g # map gt_grantId trs'"
        using Cons.prems k by (auto simp: rbind_eq_Inr split: prod.splits)
      with Cons.IH [OF run] rv True show ?thesis by (simp add: revoking_def)
    next
      case act: False
      let ?upd = "\<lambda>r. r\<lparr>eg_state := Revoked, eg_stateReason := ''refund_fully_allocated'',
         eg_suspendedAt := None,
         eg_revokedAt := Some (reconciliationTransitionTime now (eg_grantedAt g)),
         eg_updatedAt := now\<rparr>"
      let ?db1 = "db\<lparr>ad_grants := update_rows eg_id (eg_id g) ?upd (ad_grants db)\<rparr>"
      obtain trs' scopes' where run: "revoke_grants now full gs ?db1 = Inr (trs', scopes', db')"
        and out: "map gt_grantId trs = eg_id g # map gt_grantId trs'"
          "scopes = (case eg_userId g of None \<Rightarrow> scopes' | Some u \<Rightarrow>
             if u = [] then scopes' else (u, eg_titleId g) # scopes')"
        using Cons.prems k act by (auto simp: rbind_eq_Inr Let_def split: prod.splits)
      have r: "revoking full g" using True act by (simp add: revoking_def)
      have "list_all2 (grant_revoked {eg_id g}) (ad_grants db) (ad_grants ?db1)"
        by (simp add: update_rows_revoked)
      from all2_revoked_trans [OF this conjunct1 [OF conjunct2 [OF Cons.IH [OF run]]]]
      have "list_all2 (grant_revoked (eg_id ` set (filter (revoking full) (g # gs))))
          (ad_grants db) (ad_grants db')"
        using r by simp
      with Cons.IH [OF run] out r True show ?thesis by (auto split: option.splits if_splits)
    qed
  qed
qed

section \<open>The operations keep entitlements and grants in agreement\<close>

lemma preserved_update_consistent:
  assumes wf: "access_wf db" and c: "access_consistent db" and f: "fresh_ids newId db"
    and kept: "list_all2 (grant_kept K) (ad_grants db) (ad_grants db1)"
    and same: "ad_entitlements db1 = ad_entitlements db"
    and cover: "\<And>g v. g \<in> set (ad_grants db) \<Longrightarrow> eg_id g \<in> K \<Longrightarrow> eg_userId g = Some v \<Longrightarrow>
      v = u \<and> eg_titleId g = t"
  shows "access_wf (snd (projectEffectiveEntitlement (newId u t) u t now db1)) \<and>
    access_consistent (snd (projectEffectiveEntitlement (newId u t) u t now db1))"
proof -
  let ?db2 = "snd (projectEffectiveEntitlement (newId u t) u t now db1)"
  obtain ps where "project_scopes (default_projector newId) now [(u, t)] db1 = (ps, ?db2)"
    by (cases "projectEffectiveEntitlement (newId u t) u t now db1")
      (auto simp: default_projector_def [abs_def] split: prod.splits)
  from reproject_consistent [OF wf c f kept same _ this] cover show ?thesis by force
qed

lemma project_after_insert:
  assumes wf: "access_wf db" and c: "access_consistent db" and f: "fresh_ids newId db"
    and g: "eg_userId g = Some u" "eg_titleId g = t" "eg_id g \<notin> eg_id ` set (ad_grants db)" "u \<noteq> []"
  defines "db1 \<equiv> db\<lparr>ad_grants := ad_grants db @ [g]\<rparr>"
  shows "access_wf (snd (projectEffectiveEntitlement (newId u t) u t now db1)) \<and>
    access_consistent (snd (projectEffectiveEntitlement (newId u t) u t now db1))"
proof -
  have wf1: "access_wf db1" using wf g by (simp add: access_wf_def db1_def)
  have e1: "entitled db1 = entitled db" by (intro ext) (simp add: entitled_def db1_def)
  have "granted db1 u' t' \<longleftrightarrow> granted db u' t'" if "\<not> (u' = u \<and> t' = t)" for u' t'
    using that g by (auto simp: granted_def db1_def)
  moreover have "access_wf (snd (projectEffectiveEntitlement (newId u t) u t now db1))"
    by (rule project_wf [OF wf1])
      (use f in \<open>simp add: fresh_ids_def scope_entitlement_def db1_def\<close>)
  ultimately show ?thesis using c
    by (auto simp: access_consistent_def project_entitled [OF wf1] e1)
qed

lemma set_preserved_consistent:
  assumes run: "setPreservedGrantState newGrantId (newId (pg_userId input) (pg_titleId input)) input db
      = Inr (r, db')"
    and wf: "access_wf db" and c: "access_consistent db" and f: "fresh_ids newId db"
    and new: "newGrantId \<notin> eg_id ` set (ad_grants db)" "pg_userId input \<noteq> []"
  shows "access_wf db' \<and> access_consistent db'"
proof -
  let ?u = "pg_userId input" and ?t = "pg_titleId input"
  let ?P = "\<lambda>g. eg_userId g = Some ?u \<and> eg_titleId g = ?t \<and> eg_source g = Preserved"
  show ?thesis
  proof (cases "find ?P (ad_grants db)")
    case None
    let ?row = "\<lparr>eg_id = newGrantId, eg_titleId = ?t, eg_userId = Some ?u, eg_source = Preserved,
      eg_orderItemId = None, eg_recoveryRefundAllocationId = None, eg_state = Active,
      eg_stateReason = pg_stateReason input, eg_grantedAt = pg_now input, eg_suspendedAt = None,
      eg_revokedAt = None, eg_createdAt = pg_now input, eg_updatedAt = pg_now input\<rparr>"
    have db': "db' = snd (projectEffectiveEntitlement (newId ?u ?t) ?u ?t (pg_now input)
        (if pg_active input then db\<lparr>ad_grants := ad_grants db @ [?row]\<rparr> else db))"
      using run None by (auto simp: setPreservedGrantState_def Let_def prod_eq_iff split: if_splits)
    have "access_wf (snd (projectEffectiveEntitlement (newId ?u ?t) ?u ?t (pg_now input) db)) \<and>
        access_consistent (snd (projectEffectiveEntitlement (newId ?u ?t) ?u ?t (pg_now input) db))"
      by (rule preserved_update_consistent [OF wf c f, where K = "{}"]) (simp_all add: list.rel_refl)
    with project_after_insert [OF wf c f, of ?row ?u ?t "pg_now input"] new db' show ?thesis
      by (cases "pg_active input") simp_all
  next
    case (Some existing)
    let ?upd = "\<lambda>g. g\<lparr>eg_state := if pg_active input then Active else Revoked,
      eg_stateReason := pg_stateReason input, eg_suspendedAt := None,
      eg_revokedAt := (if pg_active input then None else Some (pg_now input)),
      eg_updatedAt := pg_now input\<rparr>"
    let ?db1 = "db\<lparr>ad_grants := update_rows eg_id (eg_id existing) ?upd (ad_grants db)\<rparr>"
    have ex: "existing \<in> set (ad_grants db)" "?P existing" using Some by (auto simp: find_Some_iff)
    have inj: "inj_on eg_id (set (ad_grants db))" using wf by (simp add: access_wf_def distinct_map)
    have db': "db' = snd (projectEffectiveEntitlement (newId ?u ?t) ?u ?t (pg_now input) ?db1)"
      using run Some
      by (auto simp: setPreservedGrantState_def Let_def rbind_eq_Inr prod_eq_iff split: if_splits)
    show ?thesis
      unfolding db'
      by (rule preserved_update_consistent [OF wf c f, where K = "{eg_id existing}"])
        (use ex inj in \<open>auto simp: inj_on_def intro!: update_rows_kept\<close>)
  qed
qed

lemma unique_scopes: "fst ` set (fold (\<lambda>s. AList.update s ()) xs m) = set xs \<union> fst ` set m"
  by (induction xs arbitrary: m) (auto simp: dom_update)

lemma recompute_Inr:
  assumes "recomputeRefundPurchaseAccess cmp project input db = Inr (res, db')"
  obtains db1 scopes where "check_grants (rs_items input) (rs_grants input) = Inr ()"
    and "revoke_grants (rs_now input) (fully_allocated (rs_items input) (rs_allocations input))
      (js_sort (\<lambda>l r. cmp (eg_id l) (eg_id r)) (rs_grants input)) db =
      Inr (ar_grantTransitions res, scopes, db1)"
    and "project_scopes project (rs_now input)
      (js_sort (compare_scopes cmp) (map fst (fold (\<lambda>s. AList.update s ()) scopes []))) db1 =
      (ar_projectedScopes res, db')"
proof -
  from assms obtain trs scopes db1 where "check_grants (rs_items input) (rs_grants input) = Inr ()"
    and "revoke_grants (rs_now input) (fully_allocated (rs_items input) (rs_allocations input))
      (js_sort (\<lambda>l r. cmp (eg_id l) (eg_id r)) (rs_grants input)) db = Inr (trs, scopes, db1)"
    and "(case project_scopes project (rs_now input)
        (js_sort (compare_scopes cmp) (map fst (fold (\<lambda>s. AList.update s ()) scopes []))) db1 of
      (projected, db2) \<Rightarrow> Inr (\<lparr>ar_grantTransitions = trs, ar_projectedScopes = projected\<rparr>, db2)) =
      (Inr (res, db') :: (access_result \<times> access_db) commerce)"
    by (auto simp: recomputeRefundPurchaseAccess_def rbind_eq_Inr Let_def)
  with that show ?thesis by (auto split: prod.split_asm)
qed

lemma recompute_effect:
  assumes run: "recomputeRefundPurchaseAccess cmp (default_projector newId) input db = Inr (res, db')"
    and wf: "access_wf db" and c: "access_consistent db" and f: "fresh_ids newId db"
    and rows: "set (rs_grants input) \<subseteq> set (ad_grants db)"
  defines "full \<equiv> fully_allocated (rs_items input) (rs_allocations input)"
  shows "access_wf db' \<and> access_consistent db' \<and>
    list_all2 (grant_revoked (eg_id ` {g \<in> set (rs_grants input). revoking full g}))
      (ad_grants db) (ad_grants db')"
proof (rule recompute_Inr [OF run])
  fix db1 scopes
  let ?K = "eg_id ` {g \<in> set (rs_grants input). revoking full g}"
  let ?scopes = "js_sort (compare_scopes cmp) (map fst (fold (\<lambda>s. AList.update s ()) scopes []))"
  assume r: "revoke_grants (rs_now input) (fully_allocated (rs_items input) (rs_allocations input))
      (js_sort (\<lambda>l r. cmp (eg_id l) (eg_id r)) (rs_grants input)) db =
      Inr (ar_grantTransitions res, scopes, db1)"
    and p: "project_scopes (default_projector newId) (rs_now input) ?scopes db1 =
      (ar_projectedScopes res, db')"
  note r' = revoke_grants_effect [OF r, folded full_def, simplified]
  have kept: "list_all2 (grant_kept ?K) (ad_grants db) (ad_grants db1)"
    by (rule all2_revoked_kept [OF conjunct1 [OF conjunct2 [OF r']]])
  have "(u, eg_titleId g) \<in> set ?scopes"
    if g: "g \<in> set (ad_grants db)" "eg_id g \<in> ?K" "eg_userId g = Some u" for g u
  proof -
    have "inj_on eg_id (set (ad_grants db))" using wf by (simp add: access_wf_def distinct_map)
    then have "g \<in> set (rs_grants input)" "revoking full g"
      using g rows by (auto simp: inj_on_def)
    moreover have "u \<noteq> []" using wf g by (auto simp: access_wf_def)
    ultimately show ?thesis using r' g(3) unique_scopes [of scopes "[]"] by simp
  qed
  note cover = this
  have "access_wf db' \<and> access_consistent db' \<and> ad_grants db' = ad_grants db1"
    by (rule reproject_consistent [OF wf c f kept conjunct1 [OF r'] _ p]) (rule cover)
  with conjunct1 [OF conjunct2 [OF r']] show ?thesis by metis
qed

end
