(* ===== verification/DisputeAccess.thy ===== *)
theory DisputeAccess
  imports Grants
begin

text \<open>
  \<^verbatim>\<open>commerce/disputes.ts\<close> and the state derivation of \<^verbatim>\<open>commerce/claims.ts\<close>: recording a
  provider's dispute, deriving the state of every purchase grant of the payment from its refunds
  and disputes, writing the states and projecting the affected entitlements. The provider's
  snapshot, the stored event, the e-mail to the reader, the audit event and the hand-over to the
  financial jobs are outside; the facts read under the locks of the payment are arguments.
\<close>

datatype dispute_status = Dispute_open | Dispute_won | Dispute_lost

datatype evidence_status = Evidence_pending | Fee_reconciled | Evidence_exception

record new_dispute =
  dn_paymentId :: string
  dn_stripeDisputeId :: string
  dn_status :: dispute_status
  dn_amountMinor :: int
  dn_currency :: string
  dn_reason :: "string option"
  dn_providerCreatedAt :: int
  dn_providerUpdatedAt :: int
  dn_financialEvidenceStatus :: evidence_status
  dn_createdAt :: int
  dn_updatedAt :: int

record dispute_row = new_dispute +
  dn_id :: string

section \<open>The state a grant should have\<close>

record disputed_facts =
  df_hasUser :: bool
  df_permanentlyRevoked :: bool
  df_itemTotalMinor :: int
  df_succeededRefundAllocatedMinor :: int
  df_disputeStates :: "dispute_status list"

definition deriveDisputedPurchaseGrantState :: "disputed_facts \<Rightarrow> grant_state commerce" where
  "deriveDisputedPurchaseGrantState facts =
     (let total = df_itemTotalMinor facts; allocated = df_succeededRefundAllocatedMinor facts in
      if \<not> safe_integer total \<or> total < 1 \<or> \<not> safe_integer allocated \<or> allocated < 0 \<or>
         allocated > total
      then Inl Permanent_commerce
      else if df_permanentlyRevoked facts \<or> allocated = total \<or>
         Dispute_lost \<in> set (df_disputeStates facts) then Inr Revoked
      else if Dispute_open \<in> set (df_disputeStates facts) then Inr Suspended
      else Inr (if df_hasUser facts then Active else Unclaimed))"

datatype payment_status = Payment_pending | Payment_succeeded | Payment_failed

record claimed_facts =
  kf_permanentlyRevoked :: bool
  kf_paymentStatus :: payment_status
  kf_itemTotalMinor :: int
  kf_succeededRefundAllocatedMinor :: int
  kf_disputeStates :: "dispute_status list"

definition deriveClaimedPurchaseGrantState :: "claimed_facts \<Rightarrow> grant_state commerce" where
  "deriveClaimedPurchaseGrantState facts =
     (let total = kf_itemTotalMinor facts; allocated = kf_succeededRefundAllocatedMinor facts in
      if \<not> safe_integer total \<or> total < 1 \<or> \<not> safe_integer allocated \<or> allocated < 0 \<or>
         allocated > total
      then Inl Permanent_commerce
      else if kf_permanentlyRevoked facts \<or> allocated = total then Inr Revoked
      else if Dispute_lost \<in> set (kf_disputeStates facts) then Inr Revoked
      else if Dispute_open \<in> set (kf_disputeStates facts) then Inr Suspended
      else Inr (if kf_paymentStatus facts = Payment_succeeded then Active else Unclaimed))"

definition safe_dispute_reasons :: "string set" where
  "safe_dispute_reasons = {''bank_cannot_process'', ''check_returned'', ''credit_not_processed'',
     ''customer_initiated'', ''debit_not_authorized'', ''duplicate'', ''fraudulent'', ''general'',
     ''incorrect_account_details'', ''insufficient_funds'', ''noncompliant'',
     ''product_not_received'', ''product_unacceptable'', ''subscription_canceled'',
     ''unrecognized'', ''other''}"

definition normalizeDisputeReasonCategory :: "string option \<Rightarrow> string option" where
  "normalizeDisputeReasonCategory reason =
     (case reason of None \<Rightarrow> None
      | Some r \<Rightarrow> Some (if r \<in> safe_dispute_reasons then r else ''other''))"

section \<open>Recording a dispute\<close>

definition storeDispute ::
  "string \<Rightarrow> dispute_row option \<Rightarrow> new_dispute \<Rightarrow> int \<Rightarrow> dispute_row list \<Rightarrow>
   (dispute_row \<times> dispute_row list) commerce" where
  "storeDispute newId existing new now rows =
     (case existing of
        None \<Rightarrow>
          let inserted = new_dispute.extend new (dispute_row.fields newId) in
          Inr (inserted, rows @ [inserted])
      | Some e \<Rightarrow>
          if dn_paymentId e \<noteq> dn_paymentId new \<or> dn_stripeDisputeId e \<noteq> dn_stripeDisputeId new \<or>
             dn_amountMinor e \<noteq> dn_amountMinor new \<or> dn_currency e \<noteq> dn_currency new \<or>
             dn_providerCreatedAt e \<noteq> dn_providerCreatedAt new
          then Inl permanentReconciliationFailure
          else if dn_status e \<noteq> dn_status new \<and> dn_status e \<noteq> Dispute_open \<and>
             dn_status new \<noteq> Dispute_open then Inl permanentReconciliationFailure
          else if dn_providerUpdatedAt new < dn_providerUpdatedAt e then Inr (e, rows)
          else if dn_status e \<noteq> Dispute_open \<and> dn_status new = Dispute_open then Inr (e, rows)
          else if dn_providerUpdatedAt new = dn_providerUpdatedAt e \<and> dn_status e = dn_status new \<and>
             dn_reason e \<noteq> dn_reason new then Inl permanentReconciliationFailure
          else
            let rows' = update_rows dn_id (dn_id e)
                  (\<lambda>d. d\<lparr>dn_status := dn_status new, dn_reason := dn_reason new,
                     dn_providerUpdatedAt := dn_providerUpdatedAt new,
                     dn_financialEvidenceStatus := Evidence_pending, dn_updatedAt := now\<rparr>) rows in
            (case find (\<lambda>d. dn_id d = dn_id e) rows' of
               None \<Rightarrow> Inl permanentReconciliationFailure
             | Some updated \<Rightarrow> Inr (updated, rows')))"

text \<open>
  The lookup before it: a dispute of the provider that is stored for another payment is rejected.
\<close>

definition reconcileDispute ::
  "string \<Rightarrow> new_dispute \<Rightarrow> int \<Rightarrow> dispute_row list \<Rightarrow> (dispute_row \<times> dispute_row list) commerce" where
  "reconcileDispute newId new now rows =
     (let same = (\<lambda>d. dn_stripeDisputeId d = dn_stripeDisputeId new);
          collision = find same rows;
          existing = find same (filter (\<lambda>d. dn_paymentId d = dn_paymentId new) rows) in
      if (case collision of None \<Rightarrow> False | Some c \<Rightarrow> dn_paymentId c \<noteq> dn_paymentId new)
      then Inl permanentReconciliationFailure
      else storeDispute newId existing new now rows)"

section \<open>Writing the states of the grants\<close>

definition dispute_stateReason ::
  "entitlement_grant_row \<Rightarrow> grant_state \<Rightarrow> int \<Rightarrow> int \<Rightarrow> dispute_status list \<Rightarrow> string" where
  "dispute_stateReason grant state allocatedMinor itemTotalMinor disputeStates =
     (if eg_state grant = Revoked then eg_stateReason grant
      else if state = Revoked \<and> allocatedMinor = itemTotalMinor then ''refund_fully_allocated''
      else if state = Revoked \<and> Dispute_lost \<in> set disputeStates then ''dispute_lost''
      else if state = Suspended then ''dispute_open''
      else ''payment_succeeded'')"

definition dominantGrantState :: "grant_state list \<Rightarrow> grant_state" where
  "dominantGrantState states =
     (if Revoked \<in> set states then Revoked else if Suspended \<in> set states then Suspended
      else if Active \<in> set states then Active else Unclaimed)"

text \<open>What succeeded refunds took of each item.\<close>

definition allocations_by_item ::
  "refund_row list \<Rightarrow> refund_allocation_row list \<Rightarrow> (string \<times> int) list commerce" where
  "allocations_by_item refunds allocations =
     rfold (\<lambda>a m.
       if (case index_by rf_id refunds (ra_refundId a) of
             None \<Rightarrow> True | Some r \<Rightarrow> rf_status r \<noteq> Refund_succeeded) then Inr m
       else
         let total' = (case map_of m (ra_orderItemId a) of None \<Rightarrow> 0 | Some v \<Rightarrow> v) +
               ra_amountMinor a in
         if \<not> safe_integer total' then Inl permanentReconciliationFailure
         else Inr (AList.update (ra_orderItemId a) total' m)) allocations []"

definition next_grant_state ::
  "order_item_row list \<Rightarrow> (string \<times> int) list \<Rightarrow> dispute_status list \<Rightarrow> entitlement_grant_row \<Rightarrow>
   (order_item_row \<times> int \<times> grant_state) commerce" where
  "next_grant_state items allocated disputeStates grant =
     (case (case eg_orderItemId grant of None \<Rightarrow> None
            | Some k \<Rightarrow> if k = [] then None else index_by oi_id items k) of
        None \<Rightarrow> Inl permanentReconciliationFailure
      | Some item \<Rightarrow>
          (case oi_totalMinor item of
             None \<Rightarrow> Inl permanentReconciliationFailure
           | Some totalMinor \<Rightarrow>
               if totalMinor = 0 then Inl permanentReconciliationFailure
               else
                 let allocatedMinor = (case map_of allocated (oi_id item) of
                       None \<Rightarrow> 0 | Some v \<Rightarrow> v) in
                 rbind (deriveDisputedPurchaseGrantState \<lparr>df_hasUser = (eg_userId grant \<noteq> None),
                   df_permanentlyRevoked = (eg_state grant = Revoked),
                   df_itemTotalMinor = totalMinor,
                   df_succeededRefundAllocatedMinor = allocatedMinor,
                   df_disputeStates = disputeStates\<rparr>) (\<lambda>nextState.
                 Inr (item, allocatedMinor, nextState))))"

definition dispute_grant_update ::
  "int \<Rightarrow> dispute_status list \<Rightarrow> entitlement_grant_row \<Rightarrow> order_item_row \<Rightarrow> int \<Rightarrow> grant_state \<Rightarrow>
   entitlement_grant_row \<Rightarrow> entitlement_grant_row" where
  "dispute_grant_update now disputeStates grant item allocatedMinor nextState g =
     g\<lparr>eg_state := nextState,
       eg_stateReason := dispute_stateReason grant nextState allocatedMinor
         (the (oi_totalMinor item)) disputeStates,
       eg_suspendedAt := (if nextState = Suspended
         then Some (case eg_suspendedAt grant of Some s \<Rightarrow> s
           | None \<Rightarrow> reconciliationTransitionTime now (eg_grantedAt grant)) else None),
       eg_revokedAt := (if nextState = Revoked
         then Some (case eg_revokedAt grant of Some s \<Rightarrow> s
           | None \<Rightarrow> reconciliationTransitionTime now (eg_grantedAt grant)) else None),
       eg_updatedAt := now\<rparr>"

fun apply_dispute ::
  "int \<Rightarrow> order_item_row list \<Rightarrow> (string \<times> int) list \<Rightarrow> dispute_status list \<Rightarrow>
   entitlement_grant_row list \<Rightarrow> access_db \<Rightarrow>
   (grant_state list \<times> (string \<times> string) list \<times> access_db) commerce" where
  "apply_dispute now items allocated disputeStates [] db = Inr ([], [], db)"
| "apply_dispute now items allocated disputeStates (grant # grants) db =
     rbind (next_grant_state items allocated disputeStates grant)
       (\<lambda>(item, allocatedMinor, nextState).
     rbind (assertGrantTransitionAllowed (eg_source grant) (eg_state grant) nextState
       Dispute_origin) (\<lambda>_.
     if nextState = eg_state grant then
       rbind (apply_dispute now items allocated disputeStates grants db)
         (\<lambda>(states, scopes, db'). Inr (nextState # states, scopes, db'))
     else
       rbind (apply_dispute now items allocated disputeStates grants
         (db\<lparr>ad_grants := update_rows eg_id (eg_id grant)
            (dispute_grant_update now disputeStates grant item allocatedMinor nextState)
            (ad_grants db)\<rparr>))
         (\<lambda>(states, scopes, db'). Inr (nextState # states,
            (case eg_userId grant of
               None \<Rightarrow> scopes
             | Some u \<Rightarrow> if u = [] then scopes else (u, eg_titleId grant) # scopes), db'))))"

record dispute_access_facts =
  dx_refunds :: "refund_row list"
  dx_refundAllocations :: "refund_allocation_row list"
  dx_disputes :: "dispute_row list"
  dx_orderItems :: "order_item_row list"
  dx_grants :: "entitlement_grant_row list"

text \<open>The disputes of the payment with the stored one in its place.\<close>

definition all_disputes :: "dispute_access_facts \<Rightarrow> bool \<Rightarrow> dispute_row \<Rightarrow> dispute_row list" where
  "all_disputes facts existed stored =
     (if existed then map (\<lambda>d. if dn_id d = dn_id stored then stored else d) (dx_disputes facts)
      else dx_disputes facts @ [stored])"

text \<open>
  From the stored dispute to the projected scopes. \<open>dx_disputes\<close> are the disputes read before the
  provider's one was stored; the result is the dominant state and the scopes whose access changed.
\<close>

definition reconcileDisputeAccess ::
  "(string \<Rightarrow> string \<Rightarrow> int) \<Rightarrow>
   (string \<Rightarrow> string \<Rightarrow> int \<Rightarrow> access_db \<Rightarrow> (bool \<times> bool) \<times> access_db) \<Rightarrow> int \<Rightarrow>
   dispute_access_facts \<Rightarrow> bool \<Rightarrow> dispute_row \<Rightarrow> access_db \<Rightarrow>
   ((grant_state \<times> projected_scope list) \<times> access_db) commerce" where
  "reconcileDisputeAccess localeCompare project now facts existed stored db =
     rbind (allocations_by_item (dx_refunds facts) (dx_refundAllocations facts)) (\<lambda>allocated.
     let disputeStates = map dn_status (all_disputes facts existed stored) in
     rbind (apply_dispute now (dx_orderItems facts) allocated disputeStates (dx_grants facts) db)
       (\<lambda>(states, changed, db1).
     let uniqueScopes = js_sort (compare_scopes localeCompare)
           (map fst (fold (\<lambda>s. AList.update s ()) changed []));
         (projected, db2) = project_scopes project now uniqueScopes db1
     in Inr ((dominantGrantState states,
          filter (\<lambda>p. ps_beforeActive p \<noteq> ps_afterActive p) projected), db2)))"

section \<open>The derived states respect the transition rules\<close>

lemma derive_disputed_Inr:
  "deriveDisputedPurchaseGrantState facts = Inr s \<longleftrightarrow>
     safe_integer (df_itemTotalMinor facts) \<and> 1 \<le> df_itemTotalMinor facts \<and>
     safe_integer (df_succeededRefundAllocatedMinor facts) \<and>
     0 \<le> df_succeededRefundAllocatedMinor facts \<and>
     df_succeededRefundAllocatedMinor facts \<le> df_itemTotalMinor facts \<and>
     s = (if df_permanentlyRevoked facts \<or>
            df_succeededRefundAllocatedMinor facts = df_itemTotalMinor facts \<or>
            Dispute_lost \<in> set (df_disputeStates facts) then Revoked
          else if Dispute_open \<in> set (df_disputeStates facts) then Suspended
          else if df_hasUser facts then Active else Unclaimed)"
  by (auto simp: deriveDisputedPurchaseGrantState_def Let_def)

lemma next_grant_state_revoked:
  "next_grant_state items allocated ds g = Inr (item, a, s) \<Longrightarrow> eg_state g = Revoked \<Longrightarrow> s = Revoked"
  by (auto simp: next_grant_state_def derive_disputed_Inr rbind_eq_Inr Let_def
      split: option.splits if_splits)

lemma next_grant_state_disputed:
  assumes "next_grant_state items allocated ds g = Inr (item, a, s)"
  shows "Dispute_lost \<in> set ds \<Longrightarrow> s = Revoked" "Dispute_open \<in> set ds \<Longrightarrow> s = Suspended \<or> s = Revoked"
  using assms
  by (auto simp: next_grant_state_def derive_disputed_Inr rbind_eq_Inr Let_def
      split: option.splits if_splits)

lemma next_grant_state_allowed:
  assumes "next_grant_state items allocated ds g = Inr (item, a, s)" and "eg_source g = Purchase"
  shows "assertGrantTransitionAllowed (eg_source g) (eg_state g) s Dispute_origin = Inr ()"
  using next_grant_state_revoked [OF assms(1)] assms(2)
    purchase_transition_Inr [of Dispute_origin "eg_state g" s]
  by (cases "eg_state g = Revoked") auto

section \<open>The loop over the grants\<close>

text \<open>Rows that keep their identity, and take the state that \<open>S\<close> gives their identifier.\<close>

definition grant_moved ::
  "(string \<rightharpoonup> grant_state) \<Rightarrow> entitlement_grant_row \<Rightarrow> entitlement_grant_row \<Rightarrow> bool" where
  "grant_moved S g g' \<longleftrightarrow> grant_kept (dom S) g g' \<and> (\<forall>s. S (eg_id g) = Some s \<longrightarrow> eg_state g' = s)"

lemma grant_moved_refl [simp]: "grant_moved Map.empty g g"
  by (simp add: grant_moved_def)

lemma grant_moved_trans:
  "grant_moved S g g1 \<Longrightarrow> grant_moved T g1 g2 \<Longrightarrow> grant_moved (S ++ T) g g2"
  by (auto simp: grant_moved_def grant_kept_def map_add_def split: option.splits)

lemma all2_moved_trans:
  "list_all2 (grant_moved S) xs ys \<Longrightarrow> list_all2 (grant_moved T) ys zs \<Longrightarrow>
     list_all2 (grant_moved (S ++ T)) xs zs"
  by (rule list_all2_trans [OF grant_moved_trans])

lemma all2_moved_kept: "list_all2 (grant_moved S) xs ys \<Longrightarrow> list_all2 (grant_kept (dom S)) xs ys"
  by (erule list_all2_mono) (simp add: grant_moved_def)

lemma dispute_update_moved:
  "list_all2 (grant_moved [k \<mapsto> s]) rows (update_rows eg_id k (dispute_grant_update now ds g item a s) rows)"
  by (auto simp: update_rows_def list_all2_map2 grant_moved_def grant_kept_def dispute_grant_update_def
      list.rel_refl_strong)

definition target_state ::
  "order_item_row list \<Rightarrow> (string \<times> int) list \<Rightarrow> dispute_status list \<Rightarrow> entitlement_grant_row \<Rightarrow>
   grant_state" where
  "target_state items allocated ds g =
     (case next_grant_state items allocated ds g of Inl _ \<Rightarrow> eg_state g | Inr (_, _, s) \<Rightarrow> s)"

text \<open>The changes the loop makes, as a map from identifiers of grants.\<close>

fun dispute_moves ::
  "(entitlement_grant_row \<Rightarrow> grant_state) \<Rightarrow> entitlement_grant_row list \<Rightarrow> string \<rightharpoonup> grant_state" where
  "dispute_moves f [] = Map.empty"
| "dispute_moves f (g # gs) =
     (if f g = eg_state g then Map.empty else [eg_id g \<mapsto> f g]) ++ dispute_moves f gs"

lemma dispute_moves_dom: "dom (dispute_moves f gs) = eg_id ` {g \<in> set gs. f g \<noteq> eg_state g}"
  by (induction gs) auto

lemma dispute_moves_lookup:
  "distinct (map eg_id gs) \<Longrightarrow> g \<in> set gs \<Longrightarrow>
     dispute_moves f gs (eg_id g) = (if f g = eg_state g then None else Some (f g))"
proof (induction gs)
  case (Cons h gs)
  show ?case
  proof (cases "g = h")
    case True
    then have "eg_id g \<notin> dom (dispute_moves f gs)"
      using Cons.prems(1) by (auto simp: dispute_moves_dom)
    then show ?thesis using True by (auto simp: map_add_dom_app_simps)
  next
    case False
    then have "g \<in> set gs" "eg_id h \<noteq> eg_id g" using Cons.prems by auto
    with Cons show ?thesis by (simp add: map_add_def)
  qed
qed simp

lemma apply_dispute_effect:
  assumes "apply_dispute now items allocated ds gs db = Inr (states, scopes, db')"
  defines "f \<equiv> target_state items allocated ds"
  shows "ad_entitlements db' = ad_entitlements db \<and>
    list_all2 (grant_moved (dispute_moves f gs)) (ad_grants db) (ad_grants db') \<and>
    (\<forall>g \<in> set gs. f g \<noteq> eg_state g \<longrightarrow>
      (\<forall>u. eg_userId g = Some u \<and> u \<noteq> [] \<longrightarrow> (u, eg_titleId g) \<in> set scopes)) \<and>
    states = map f gs \<and>
    (\<forall>g \<in> set gs. (\<exists>item a. next_grant_state items allocated ds g = Inr (item, a, f g)) \<and>
      assertGrantTransitionAllowed (eg_source g) (eg_state g) (f g) Dispute_origin = Inr ())"
  using assms(1)
proof (induction gs arbitrary: db states scopes)
  case Nil
  then show ?case by (simp add: list.rel_refl)
next
  case (Cons g gs)
  from Cons.prems obtain item a s where n: "next_grant_state items allocated ds g = Inr (item, a, s)"
    and allowed: "assertGrantTransitionAllowed (eg_source g) (eg_state g) s Dispute_origin = Inr ()"
    by (auto simp: rbind_eq_Inr)
  have fg: "f g = s" by (simp add: f_def target_state_def n)
  show ?case
  proof (cases "s = eg_state g")
    case True
    obtain states' where run: "apply_dispute now items allocated ds gs db = Inr (states', scopes, db')"
      and st: "states = s # states'"
      using Cons.prems n allowed True by (auto simp: rbind_eq_Inr)
    from Cons.IH [OF run] st fg True n allowed show ?thesis by simp
  next
    case False
    let ?db1 = "db\<lparr>ad_grants := update_rows eg_id (eg_id g)
      (dispute_grant_update now ds g item a s) (ad_grants db)\<rparr>"
    obtain states' scopes' where
      run: "apply_dispute now items allocated ds gs ?db1 = Inr (states', scopes', db')"
      and st: "states = s # states'" and sc: "scopes = (case eg_userId g of None \<Rightarrow> scopes'
        | Some u \<Rightarrow> if u = [] then scopes' else (u, eg_titleId g) # scopes')"
      using Cons.prems n allowed False by (auto simp: rbind_eq_Inr)
    note IH = Cons.IH [OF run]
    have "list_all2 (grant_moved [eg_id g \<mapsto> s]) (ad_grants db) (ad_grants ?db1)"
      by (simp add: dispute_update_moved)
    from all2_moved_trans [OF this conjunct1 [OF conjunct2 [OF IH]]]
    have "list_all2 (grant_moved (dispute_moves f (g # gs))) (ad_grants db) (ad_grants db')"
      by (simp add: fg False)
    moreover have "\<forall>h \<in> set (g # gs). f h \<noteq> eg_state h \<longrightarrow>
        (\<forall>u. eg_userId h = Some u \<and> u \<noteq> [] \<longrightarrow> (u, eg_titleId h) \<in> set scopes)"
      using IH by (auto simp: sc split: option.splits)
    ultimately show ?thesis using IH st fg n allowed by simp
  qed
qed

text \<open>For purchase grants the transition rules never reject what the derivation asks for.\<close>

lemma apply_dispute_succeeds:
  assumes "\<And>g. g \<in> set gs \<Longrightarrow> eg_source g = Purchase \<and>
    (\<exists>r. next_grant_state items allocated ds g = Inr r)"
  shows "\<exists>r. apply_dispute now items allocated ds gs db = Inr r"
  using assms
proof (induction gs arbitrary: db)
  case (Cons g gs)
  from Cons.prems [of g] obtain item a s where n: "next_grant_state items allocated ds g = Inr (item, a, s)"
    and "eg_source g = Purchase" by auto
  note ok = next_grant_state_allowed [OF this]
  obtain r1 r2 where "apply_dispute now items allocated ds gs db = Inr r1"
    "apply_dispute now items allocated ds gs (db\<lparr>ad_grants := update_rows eg_id (eg_id g)
      (dispute_grant_update now ds g item a s) (ad_grants db)\<rparr>) = Inr r2"
    using Cons.IH Cons.prems by (meson list.set_intros(2))
  with n ok show ?case by (auto split: prod.splits)
qed simp

lemma reconcile_dispute_Inr:
  assumes "reconcileDisputeAccess cmp project now facts existed stored db = Inr ((st, changed), db')"
  obtains allocated ds states scopes db1 ps where
    "allocations_by_item (dx_refunds facts) (dx_refundAllocations facts) = Inr allocated"
    "ds = map dn_status (all_disputes facts existed stored)"
    "apply_dispute now (dx_orderItems facts) allocated ds (dx_grants facts) db =
       Inr (states, scopes, db1)"
    "project_scopes project now
      (js_sort (compare_scopes cmp) (map fst (fold (\<lambda>s. AList.update s ()) scopes []))) db1 = (ps, db')"
    "st = dominantGrantState states" "changed = filter (\<lambda>p. ps_beforeActive p \<noteq> ps_afterActive p) ps"
proof -
  from assms obtain allocated states scopes db1 where
    a: "allocations_by_item (dx_refunds facts) (dx_refundAllocations facts) = Inr allocated" and
    b: "apply_dispute now (dx_orderItems facts) allocated (map dn_status (all_disputes facts existed stored)) (dx_grants facts) db = Inr (states, scopes, db1)" and
    c: "(case project_scopes project now
        (js_sort (compare_scopes cmp) (map fst (fold (\<lambda>s. AList.update s ()) scopes []))) db1 of
      (projected, db2) \<Rightarrow> Inr ((dominantGrantState states,
        filter (\<lambda>p. ps_beforeActive p \<noteq> ps_afterActive p) projected), db2)) =
      (Inr ((st, changed), db') :: ((grant_state \<times> projected_scope list) \<times> access_db) commerce)"
    by (auto simp: reconcileDisputeAccess_def rbind_eq_Inr Let_def)
  from c obtain ps where d: "project_scopes project now
      (js_sort (compare_scopes cmp) (map fst (fold (\<lambda>s. AList.update s ()) scopes []))) db1 = (ps, db')"
    and e: "st = dominantGrantState states" "changed = filter (\<lambda>p. ps_beforeActive p \<noteq> ps_afterActive p) ps"
    by (auto split: prod.split_asm)
  show ?thesis by (rule that [OF a refl b d e])
qed

lemma reconcile_dispute_effect:
  assumes run: "reconcileDisputeAccess cmp (default_projector newId) now facts existed stored db =
      Inr ((st, changed), db')"
    and wf: "access_wf db" and c: "access_consistent db" and f: "fresh_ids newId db"
    and rows: "set (dx_grants facts) \<subseteq> set (ad_grants db)"
  obtains allocated ds where
    "allocations_by_item (dx_refunds facts) (dx_refundAllocations facts) = Inr allocated"
    "ds = map dn_status (all_disputes facts existed stored)"
    "access_wf db' \<and> access_consistent db'"
    "list_all2 (grant_moved (dispute_moves (target_state (dx_orderItems facts) allocated ds)
      (dx_grants facts))) (ad_grants db) (ad_grants db')"
    "\<forall>g \<in> set (dx_grants facts). \<exists>item a. next_grant_state (dx_orderItems facts) allocated ds g =
      Inr (item, a, target_state (dx_orderItems facts) allocated ds g)"
proof (rule reconcile_dispute_Inr [OF run])
  fix allocated ds states scopes db1 ps
  let ?f = "target_state (dx_orderItems facts) allocated ds"
  let ?S = "dispute_moves ?f (dx_grants facts)"
  let ?scopes = "js_sort (compare_scopes cmp) (map fst (fold (\<lambda>s. AList.update s ()) scopes []))"
  assume al: "allocations_by_item (dx_refunds facts) (dx_refundAllocations facts) = Inr allocated"
    and ds: "ds = map dn_status (all_disputes facts existed stored)"
    and ap: "apply_dispute now (dx_orderItems facts) allocated ds (dx_grants facts) db =
       Inr (states, scopes, db1)"
    and p: "project_scopes (default_projector newId) now ?scopes db1 = (ps, db')"
  note e = apply_dispute_effect [OF ap]
  have moved: "list_all2 (grant_moved ?S) (ad_grants db) (ad_grants db1)" using e by blast
  have "(u, eg_titleId g) \<in> set ?scopes"
    if g: "g \<in> set (ad_grants db)" "eg_id g \<in> dom ?S" "eg_userId g = Some u" for g u
  proof -
    have "inj_on eg_id (set (ad_grants db))" using wf by (simp add: access_wf_def distinct_map)
    then have "g \<in> set (dx_grants facts)" "?f g \<noteq> eg_state g"
      using g rows by (auto simp: inj_on_def dispute_moves_dom)
    moreover have "u \<noteq> []" using wf g by (auto simp: access_wf_def)
    ultimately show ?thesis using e g(3) unique_scopes [of scopes "[]"] by simp
  qed
  from reproject_consistent [OF wf c f all2_moved_kept [OF moved] conjunct1 [OF e] this p]
  have "access_wf db' \<and> access_consistent db' \<and> ad_grants db' = ad_grants db1" by blast
  with that [OF al ds] moved e show ?thesis by metis
qed

end
