(* ===== verification/AccessSystem.thy ===== *)
theory AccessSystem
  imports DisputeAccess
begin

text \<open>
  The entitlement tables under the three kinds of transactions that move grants: preserved grants,
  refunds and disputes, in any order; and the table of disputes under the provider's reports. Both
  are step relations whose steps are the modelled transactions.
\<close>

section \<open>Disputes only move forward\<close>

definition disputes_wf :: "dispute_row list \<Rightarrow> bool" where
  "disputes_wf rows \<longleftrightarrow> distinct (map dn_id rows) \<and> distinct (map dn_stripeDisputeId rows)"

inductive dispute_step :: "dispute_row list \<Rightarrow> dispute_row list \<Rightarrow> bool" where
  reconciled: "reconcileDispute newId new now rows = Inr (d, rows') \<Longrightarrow>
     newId \<notin> dn_id ` set rows \<Longrightarrow> dispute_step rows rows'"

inductive_cases dispute_stepE: "dispute_step rows rows'"

definition dispute_kept :: "dispute_row \<Rightarrow> dispute_row \<Rightarrow> bool" where
  "dispute_kept d d' \<longleftrightarrow> dn_id d' = dn_id d \<and> dn_paymentId d' = dn_paymentId d \<and>
     dn_stripeDisputeId d' = dn_stripeDisputeId d \<and> dn_amountMinor d' = dn_amountMinor d \<and>
     dn_currency d' = dn_currency d \<and> dn_providerCreatedAt d' = dn_providerCreatedAt d \<and>
     dn_providerUpdatedAt d \<le> dn_providerUpdatedAt d' \<and>
     (dn_status d \<noteq> Dispute_open \<longrightarrow> dn_status d' = dn_status d)"

lemma dispute_kept_refl [simp]: "dispute_kept d d"
  by (simp add: dispute_kept_def)

lemma dispute_kept_trans: "dispute_kept d d' \<Longrightarrow> dispute_kept d' d'' \<Longrightarrow> dispute_kept d d''"
  by (auto simp: dispute_kept_def)

lemma store_dispute_kept:
  assumes run: "storeDispute newId (Some e) new now rows = Inr (r, rows')"
    and e: "e \<in> set rows" and dist: "distinct (map dn_id rows)"
  shows "list_all2 dispute_kept rows rows'"
proof -
  have same: "d = e" if "d \<in> set rows" "dn_id d = dn_id e" for d
    using dist e that by (simp add: distinct_map inj_on_def)
  let ?upd = "\<lambda>d. d\<lparr>dn_status := dn_status new, dn_reason := dn_reason new,
    dn_providerUpdatedAt := dn_providerUpdatedAt new,
    dn_financialEvidenceStatus := Evidence_pending, dn_updatedAt := now\<rparr>"
  from run consider "rows' = rows" | "rows' = update_rows dn_id (dn_id e) ?upd rows"
    "dn_providerUpdatedAt e \<le> dn_providerUpdatedAt new"
    "dn_status e \<noteq> Dispute_open \<longrightarrow> dn_status new = dn_status e"
    by (auto simp: storeDispute_def Let_def split: if_splits option.splits)
  then show ?thesis
  proof cases
    case 1
    then show ?thesis by (simp add: list.rel_refl)
  next
    case 2
    have "dispute_kept d (if dn_id d = dn_id e then ?upd d else d)" if "d \<in> set rows" for d
      using 2 same [OF that] by (auto simp: dispute_kept_def)
    then show ?thesis by (simp add: 2(1) update_rows_def list_all2_map2 list.rel_refl_strong)
  qed
qed

lemma kept_wf_disputes:
  assumes "list_all2 dispute_kept rows rows'" and "disputes_wf rows"
  shows "disputes_wf rows'"
proof -
  have "map dn_id rows' = map dn_id rows" "map dn_stripeDisputeId rows' = map dn_stripeDisputeId rows"
    using assms(1) by (induction rule: list_all2_induct) (auto simp: dispute_kept_def)
  with assms(2) show ?thesis by (simp add: disputes_wf_def)
qed

lemma dispute_step_kept:
  assumes "dispute_step rows rows'" and wf: "disputes_wf rows"
  shows "disputes_wf rows' \<and> (\<forall>d \<in> set rows. \<exists>d' \<in> set rows'. dispute_kept d d')"
proof (rule dispute_stepE [OF assms(1)])
  fix newId new now d
  assume step: "reconcileDispute newId new now rows = Inr (d, rows')" "newId \<notin> dn_id ` set rows"
  let ?same = "\<lambda>d. dn_stripeDisputeId d = dn_stripeDisputeId new"
  let ?existing = "find ?same (filter (\<lambda>d. dn_paymentId d = dn_paymentId new) rows)"
  have store: "storeDispute newId ?existing new now rows = Inr (d, rows')"
    and coll: "\<not> (case find ?same rows of None \<Rightarrow> False | Some c \<Rightarrow> dn_paymentId c \<noteq> dn_paymentId new)"
    using step(1) by (auto simp: reconcileDispute_def Let_def split: if_splits)
  show ?thesis
  proof (cases ?existing)
    case None
    have "find ?same rows = None"
    proof (cases "find ?same rows")
      case (Some c)
      then have "c \<in> set rows" "?same c" by (auto simp: find_Some_iff)
      with None Some coll show ?thesis by (auto simp: find_None_iff)
    qed simp
    then have "dn_stripeDisputeId new \<notin> dn_stripeDisputeId ` set rows" by (auto simp: find_None_iff)
    then have "disputes_wf rows'" using store None wf step(2)
      by (auto simp: storeDispute_def Let_def disputes_wf_def dispute_row.defs new_dispute.defs)
    moreover have "set rows \<subseteq> set rows'" using store None by (auto simp: storeDispute_def Let_def)
    ultimately show ?thesis using dispute_kept_refl by blast
  next
    case (Some e)
    then have "e \<in> set rows" by (auto simp: find_Some_iff dest: nth_mem)
    with store Some wf have k: "list_all2 dispute_kept rows rows'"
      using store_dispute_kept by (simp add: disputes_wf_def)
    then have "\<forall>d \<in> set rows. \<exists>d' \<in> set rows'. dispute_kept d d'"
      by (induction rule: list_all2_induct) auto
    with kept_wf_disputes [OF k wf] show ?thesis by blast
  qed
qed

lemma dispute_run_kept:
  assumes "dispute_step\<^sup>*\<^sup>* rows rows'" and "disputes_wf rows"
  shows "disputes_wf rows' \<and> (\<forall>d \<in> set rows. \<exists>d' \<in> set rows'. dispute_kept d d')"
  using assms
proof (induction rule: rtranclp_induct)
  case base
  then show ?case using dispute_kept_refl by blast
next
  case (step rows1 rows2)
  with dispute_step_kept [OF step.hyps(2)] show ?case by (meson dispute_kept_trans)
qed

section \<open>The entitlement tables\<close>

inductive access_step :: "access_db \<Rightarrow> access_db \<Rightarrow> bool" where
  preserved: "setPreservedGrantState newGrantId (newId (pg_userId input) (pg_titleId input)) input db
      = Inr (r, db') \<Longrightarrow>
    newGrantId \<notin> eg_id ` set (ad_grants db) \<Longrightarrow> pg_userId input \<noteq> [] \<Longrightarrow> fresh_ids newId db \<Longrightarrow>
    access_step db db'"
| refunded: "recomputeRefundPurchaseAccess cmp (default_projector newId) refund db = Inr (res, db') \<Longrightarrow>
    set (rs_grants refund) \<subseteq> set (ad_grants db) \<Longrightarrow> fresh_ids newId db \<Longrightarrow> access_step db db'"
| disputed: "reconcileDisputeAccess cmp (default_projector newId) now facts existed stored db =
      Inr (out, db') \<Longrightarrow>
    set (dx_grants facts) \<subseteq> set (ad_grants db) \<Longrightarrow> distinct (map eg_id (dx_grants facts)) \<Longrightarrow>
    fresh_ids newId db \<Longrightarrow> access_step db db'"

inductive_cases access_stepE: "access_step db db'"

lemma access_step_consistent:
  assumes "access_step db db'" and wf: "access_wf db" and c: "access_consistent db"
  shows "access_wf db' \<and> access_consistent db'"
  using assms(1)
proof (rule access_stepE)
  fix newGrantId newId input r
  assume "setPreservedGrantState newGrantId (newId (pg_userId input) (pg_titleId input)) input db
      = Inr (r, db')" "newGrantId \<notin> eg_id ` set (ad_grants db)" "pg_userId input \<noteq> []" "fresh_ids newId db"
  then show ?thesis using set_preserved_consistent wf c by blast
next
  fix cmp newId refund res
  assume "recomputeRefundPurchaseAccess cmp (default_projector newId) refund db = Inr (res, db')"
    "set (rs_grants refund) \<subseteq> set (ad_grants db)" "fresh_ids newId db"
  then show ?thesis using recompute_effect [OF _ wf c] by blast
next
  fix cmp newId now facts existed stored out
  assume d: "reconcileDisputeAccess cmp (default_projector newId) now facts existed stored db =
      Inr (out, db')" "set (dx_grants facts) \<subseteq> set (ad_grants db)" "fresh_ids newId db"
  obtain st changed where out: "out = (st, changed)" by (cases out)
  show ?thesis by (rule reconcile_dispute_effect [OF d(1) [unfolded out] wf c d(3,2)]) blast
qed

text \<open>A purchase grant that was revoked stays revoked.\<close>

definition revoked_purchase :: "access_db \<Rightarrow> string \<Rightarrow> bool" where
  "revoked_purchase db k \<longleftrightarrow>
     (\<exists>g \<in> set (ad_grants db). eg_id g = k \<and> eg_source g = Purchase \<and> eg_state g = Revoked)"

lemma revoked_purchase_transfer:
  assumes "list_all2 R (ad_grants db) (ad_grants db')" and "revoked_purchase db k"
    and "\<And>g g'. g \<in> set (ad_grants db) \<Longrightarrow> R g g' \<Longrightarrow> eg_source g = Purchase \<Longrightarrow>
      eg_state g = Revoked \<Longrightarrow> eg_id g' = eg_id g \<and> eg_source g' = Purchase \<and> eg_state g' = Revoked"
  shows "revoked_purchase db' k"
proof -
  from assms(2) obtain g where g: "g \<in> set (ad_grants db)" "eg_id g = k" "eg_source g = Purchase"
    "eg_state g = Revoked" by (auto simp: revoked_purchase_def)
  from list_all2_member [OF assms(1) g(1)] obtain g' where "g' \<in> set (ad_grants db')" "R g g'" by blast
  with assms(3) [OF g(1) _ g(3,4)] g(2) show ?thesis by (auto simp: revoked_purchase_def)
qed

lemma set_preserved_grants:
  assumes "setPreservedGrantState n1 n2 input db = Inr (r, db')"
  shows "(\<exists>new. ad_grants db' = ad_grants db @ new) \<or>
    (\<exists>e f. e \<in> set (ad_grants db) \<and> eg_source e = Preserved \<and>
      ad_grants db' = update_rows eg_id (eg_id e) f (ad_grants db))"
proof (cases "find (\<lambda>g. eg_userId g = Some (pg_userId input) \<and> eg_titleId g = pg_titleId input \<and>
    eg_source g = Preserved) (ad_grants db)")
  case None
  with assms obtain d where "db' = snd (projectEffectiveEntitlement n2 (pg_userId input)
      (pg_titleId input) (pg_now input) d)" "\<exists>new. ad_grants d = ad_grants db @ new"
    by (auto simp: setPreservedGrantState_def Let_def prod_eq_iff split: if_splits)
  then show ?thesis by simp
next
  case (Some e)
  then have "e \<in> set (ad_grants db)" "eg_source e = Preserved" by (auto simp: find_Some_iff dest: nth_mem)
  moreover obtain f where "ad_grants db' = update_rows eg_id (eg_id e) f (ad_grants db)"
    using assms Some
    by (auto simp: setPreservedGrantState_def Let_def rbind_eq_Inr prod_eq_iff split: if_splits)
  ultimately show ?thesis by blast
qed

lemma access_step_revoked:
  assumes "access_step db db'" and wf: "access_wf db" and c: "access_consistent db"
    and rv: "revoked_purchase db k"
  shows "revoked_purchase db' k"
  using assms(1)
proof (rule access_stepE)
  fix newGrantId newId input r
  assume run: "setPreservedGrantState newGrantId (newId (pg_userId input) (pg_titleId input)) input db
      = Inr (r, db')"
  have inj: "inj_on eg_id (set (ad_grants db))" using wf by (simp add: access_wf_def distinct_map)
  from set_preserved_grants [OF run]
  have "\<forall>g \<in> set (ad_grants db). eg_source g = Purchase \<longrightarrow> g \<in> set (ad_grants db')"
  proof (elim disjE exE conjE)
    fix e f
    assume e: "e \<in> set (ad_grants db)" "eg_source e = Preserved"
      and db': "ad_grants db' = update_rows eg_id (eg_id e) f (ad_grants db)"
    have "eg_id g \<noteq> eg_id e" if "g \<in> set (ad_grants db)" "eg_source g = Purchase" for g
      using inj e that by (auto simp: inj_on_def)
    then show ?thesis unfolding db' update_rows_def by force
  qed simp
  with rv show ?thesis by (auto simp: revoked_purchase_def)
next
  fix cmp newId refund res
  assume r: "recomputeRefundPurchaseAccess cmp (default_projector newId) refund db = Inr (res, db')"
    "set (rs_grants refund) \<subseteq> set (ad_grants db)" "fresh_ids newId db"
  show ?thesis
    by (rule revoked_purchase_transfer [OF conjunct2 [OF conjunct2 [OF recompute_effect [OF r(1) wf c r(3,2)]]] rv])
      (auto simp: grant_revoked_def grant_kept_def)
next
  fix cmp newId now facts existed stored out
  assume d: "reconcileDisputeAccess cmp (default_projector newId) now facts existed stored db =
      Inr (out, db')" "set (dx_grants facts) \<subseteq> set (ad_grants db)"
      "distinct (map eg_id (dx_grants facts))" "fresh_ids newId db"
  obtain st changed where out: "out = (st, changed)" by (cases out)
  have inj: "inj_on eg_id (set (ad_grants db))" using wf by (simp add: access_wf_def distinct_map)
  show ?thesis
  proof (rule reconcile_dispute_effect [OF d(1) [unfolded out] wf c d(4,2)])
    fix allocated ds
    let ?f = "target_state (dx_orderItems facts) allocated ds"
    assume moved: "list_all2 (grant_moved (dispute_moves ?f (dx_grants facts))) (ad_grants db) (ad_grants db')"
      and next_ok: "\<forall>g \<in> set (dx_grants facts). \<exists>item a.
        next_grant_state (dx_orderItems facts) allocated ds g = Inr (item, a, ?f g)"
    show ?thesis
    proof (rule revoked_purchase_transfer [OF moved rv])
      fix g g'
      assume g: "g \<in> set (ad_grants db)" "grant_moved (dispute_moves ?f (dx_grants facts)) g g'"
        "eg_source g = Purchase" "eg_state g = Revoked"
      have "eg_id g \<notin> dom (dispute_moves ?f (dx_grants facts))"
      proof
        assume "eg_id g \<in> dom (dispute_moves ?f (dx_grants facts))"
        then have "g \<in> set (dx_grants facts)" "?f g \<noteq> eg_state g"
          using g(1) inj d(2) by (auto simp: dispute_moves_dom inj_on_def)
        with next_ok g(4) next_grant_state_revoked show False by fastforce
      qed
      with g show "eg_id g' = eg_id g \<and> eg_source g' = Purchase \<and> eg_state g' = Revoked"
        by (auto simp: grant_moved_def grant_kept_def)
    qed
  qed
qed

lemma access_run_invariant:
  assumes "access_step\<^sup>*\<^sup>* db db'" and "access_wf db" and "access_consistent db"
  shows "access_wf db' \<and> access_consistent db' \<and> (\<forall>k. revoked_purchase db k \<longrightarrow> revoked_purchase db' k)"
  using assms
proof (induction rule: rtranclp_induct)
  case (step db1 db2)
  with access_step_consistent [OF step.hyps(2)] access_step_revoked [OF step.hyps(2)] show ?case by blast
qed simp

section \<open>Sample state\<close>

definition sample_ids :: "string \<Rightarrow> string \<Rightarrow> string" where
  "sample_ids u t = replicate (length u) (CHR ''a'') @ CHR ''-'' # u @ t"

definition sample_grant :: "string \<Rightarrow> string \<Rightarrow> grant_source \<Rightarrow> grant_state \<Rightarrow> entitlement_grant_row" where
  "sample_grant k item source state = \<lparr>eg_id = k, eg_titleId = ''t'' @ item, eg_userId = Some ''u'',
     eg_source = source, eg_orderItemId = Some item, eg_recoveryRefundAllocationId = None,
     eg_state = state, eg_stateReason = ''payment_succeeded'', eg_grantedAt = 10,
     eg_suspendedAt = None, eg_revokedAt = (if state = Revoked then Some 20 else None),
     eg_createdAt = 10, eg_updatedAt = 10\<rparr>"

definition sample_access :: access_db where
  "sample_access = \<lparr>
     ad_grants = [sample_grant ''g1'' ''1'' Purchase Active, sample_grant ''g2'' ''2'' Purchase Active,
       sample_grant ''g3'' ''3'' Purchase Revoked],
     ad_entitlements = [
       \<lparr>en_id = ''E1'', en_userId = ''u'', en_titleId = ''t1'', en_grantedAt = 10, en_revokedAt = None,
        en_createdAt = 10, en_updatedAt = 10\<rparr>,
       \<lparr>en_id = ''E2'', en_userId = ''u'', en_titleId = ''t2'', en_grantedAt = 10, en_revokedAt = None,
        en_createdAt = 10, en_updatedAt = 10\<rparr>]\<rparr>"

definition sample_items :: "order_item_row list" where
  "sample_items = map (\<lambda>k. \<lparr>oi_id = k, oi_titleId = ''t'' @ k, oi_currency = ''USD'',
     oi_unitSubtotalMinor = 900, oi_taxMinor = Some 100, oi_totalMinor = Some 1000\<rparr>) [''1'', ''2'']"

definition sample_refund_access :: refund_access_input where
  "sample_refund_access = \<lparr>rs_items = sample_items, rs_allocations = [(''1'', 600), (''2'', 300), (''1'', 400)],
     rs_grants = [sample_grant ''g1'' ''1'' Purchase Active, sample_grant ''g2'' ''2'' Purchase Active],
     rs_now = 50\<rparr>"

definition sample_dispute :: dispute_row where
  "sample_dispute = \<lparr>dn_paymentId = ''p'', dn_stripeDisputeId = ''dp_1'', dn_status = Dispute_open,
     dn_amountMinor = 500, dn_currency = ''USD'', dn_reason = None, dn_providerCreatedAt = 30,
     dn_providerUpdatedAt = 31, dn_financialEvidenceStatus = Evidence_pending, dn_createdAt = 32,
     dn_updatedAt = 32, dn_id = ''d1''\<rparr>"

definition sample_dispute_facts :: dispute_access_facts where
  "sample_dispute_facts = \<lparr>dx_refunds = [], dx_refundAllocations = [], dx_disputes = [sample_dispute],
     dx_orderItems = sample_items,
     dx_grants = [sample_grant ''g1'' ''1'' Purchase Active, sample_grant ''g2'' ''2'' Purchase Active]\<rparr>"

lemma sample_ids_inj: "inj (\<lambda>(u, t). sample_ids u t)"
proof (rule injI, clarify)
  fix u t u' t'
  assume eq: "sample_ids u t = sample_ids u' t'"
  then have "takeWhile (\<lambda>c. c = CHR ''a'') (sample_ids u t) = takeWhile (\<lambda>c. c = CHR ''a'') (sample_ids u' t')"
    by simp
  then have "length u = length u'" by (simp add: sample_ids_def takeWhile_append)
  with eq show "u = u' \<and> t = t'" by (simp add: sample_ids_def)
qed

lemma sample_ids_fresh: "sample_ids u t \<noteq> ''E'' @ k"
  by (cases u) (simp_all add: sample_ids_def)

lemma sample_access_ok:
  "access_wf sample_access" "access_consistent sample_access" "fresh_ids sample_ids sample_access"
proof -
  show "access_wf sample_access" by (simp add: access_wf_def sample_access_def sample_grant_def)
  show "access_consistent sample_access"
    by (auto simp: access_consistent_def entitled_def granted_def sample_access_def sample_grant_def)
  show "fresh_ids sample_ids sample_access"
    using sample_ids_fresh [of _ _ "''1''"] sample_ids_fresh [of _ _ "''2''"]
    by (simp add: fresh_ids_def sample_ids_inj sample_access_def)
qed

lemma sample_refund_runs:
  "\<exists>res db'. recomputeRefundPurchaseAccess compare_text (default_projector sample_ids)
     sample_refund_access sample_access = Inr (res, db') \<and>
     map eg_state (ad_grants db') = [Revoked, Active, Revoked]"
proof -
  have "(case recomputeRefundPurchaseAccess compare_text (default_projector sample_ids)
      sample_refund_access sample_access of Inl _ \<Rightarrow> False
    | Inr (res, db') \<Rightarrow> map eg_state (ad_grants db') = [Revoked, Active, Revoked])" by code_simp
  then show ?thesis by (auto split: sum.splits prod.splits)
qed

lemma sample_dispute_runs:
  "\<exists>out db'. reconcileDisputeAccess compare_text (default_projector sample_ids) 60
     sample_dispute_facts True (sample_dispute\<lparr>dn_status := Dispute_lost\<rparr>) sample_access = Inr (out, db')"
proof -
  have "\<not> isl (reconcileDisputeAccess compare_text (default_projector sample_ids) 60
     sample_dispute_facts True (sample_dispute\<lparr>dn_status := Dispute_lost\<rparr>) sample_access)" by code_simp
  then show ?thesis
    by (cases "reconcileDisputeAccess compare_text (default_projector sample_ids) 60
      sample_dispute_facts True (sample_dispute\<lparr>dn_status := Dispute_lost\<rparr>) sample_access") auto
qed

lemma sample_rows:
  "set (rs_grants sample_refund_access) \<subseteq> set (ad_grants sample_access)"
  "set (dx_grants sample_dispute_facts) \<subseteq> set (ad_grants sample_access)"
  "distinct (map eg_id (dx_grants sample_dispute_facts))"
  by (simp_all add: sample_refund_access_def sample_access_def sample_dispute_facts_def sample_grant_def)

lemma sample_step: "\<exists>db'. access_step sample_access db'"
  using sample_refund_runs sample_access_ok(3)
  by (metis access_step.refunded [of compare_text sample_ids sample_refund_access sample_access]
      sample_rows)

section \<open>Properties\<close>

text \<open>
  C18. Who may read a title always agrees with the grants: whatever preserved-grant, refund and
  dispute transactions run, in whatever order, from a state in which the unrevoked entitlements
  are exactly the pairs of user and title with an active grant, they stay so.
\<close>

theorem entitlements_follow_grants:
  assumes "access_step\<^sup>*\<^sup>* db db'" and "access_wf db" and "access_consistent db"
  shows "entitled db' u t \<longleftrightarrow> granted db' u t"
  using access_run_invariant [OF assms] by (simp add: access_consistent_def)

theorem entitlements_follow_grants_witness:
  "\<exists>db'. access_step sample_access db' \<and> (\<forall>u t. entitled db' u t \<longleftrightarrow> granted db' u t)"
  using sample_step entitlements_follow_grants [OF r_into_rtranclp [where r = access_step] _ sample_access_ok(2)]
    sample_access_ok(1) by metis

text \<open>
  C19. Revocation of a purchase is permanent: a purchase grant that was revoked is revoked in every
  later state, whatever preserved-grant, refund and dispute transactions run in between.
\<close>

theorem revoked_purchase_is_permanent:
  assumes "access_step\<^sup>*\<^sup>* db db'" and "access_wf db" and "access_consistent db"
    and "revoked_purchase db k"
  shows "revoked_purchase db' k"
  using access_run_invariant [OF assms(1-3)] assms(4) by blast

theorem revoked_purchase_is_permanent_witness:
  "\<exists>db'. access_step sample_access db' \<and> revoked_purchase db' ''g3''"
proof -
  obtain db' where s: "access_step sample_access db'" using sample_step by blast
  have "revoked_purchase sample_access ''g3''"
    by (simp add: revoked_purchase_def sample_access_def sample_grant_def)
  from revoked_purchase_is_permanent [OF r_into_rtranclp [where r = access_step, OF s] sample_access_ok(1,2) this] s
  show ?thesis by blast
qed

text \<open>
  After refunds, access is taken away exactly where an item was refunded in full: every grant
  of an item whose allocations add up to its total is revoked, and every other grant row is left as
  it was.
\<close>

theorem refund_revokes_exactly:
  assumes "recomputeRefundPurchaseAccess cmp (default_projector newId) input db = Inr (res, db')"
    and "access_wf db" and "access_consistent db" and "fresh_ids newId db"
    and "set (rs_grants input) \<subseteq> set (ad_grants db)" and "g \<in> set (ad_grants db)"
  shows "\<exists>g' \<in> set (ad_grants db'). eg_id g' = eg_id g \<and>
    (if g \<in> set (rs_grants input) \<and>
        fully_refunded (fully_allocated (rs_items input) (rs_allocations input)) g
     then eg_state g' = Revoked else g' = g)"
proof -
  let ?full = "fully_allocated (rs_items input) (rs_allocations input)"
  let ?K = "eg_id ` {g \<in> set (rs_grants input). revoking ?full g}"
  have "list_all2 (grant_revoked ?K) (ad_grants db) (ad_grants db')"
    using recompute_effect [OF assms(1-5)] by blast
  from list_all2_member [OF this assms(6)] obtain g' where
    g': "g' \<in> set (ad_grants db')" "grant_revoked ?K g g'" by blast
  have "inj_on eg_id (set (ad_grants db))" using assms(2) by (simp add: access_wf_def distinct_map)
  then have "eg_id g \<in> ?K \<longleftrightarrow> g \<in> set (rs_grants input) \<and> revoking ?full g"
    using assms(5,6) by (auto simp: inj_on_def)
  with g' show ?thesis
    by (intro bexI [OF _ g'(1)]) (auto simp: grant_revoked_def grant_kept_def revoking_def)
qed

theorem refund_revokes_exactly_witness:
  "\<exists>res db' g'. recomputeRefundPurchaseAccess compare_text (default_projector sample_ids)
     sample_refund_access sample_access = Inr (res, db') \<and> g' \<in> set (ad_grants db') \<and>
     eg_id g' = ''g1'' \<and> eg_state g' = Revoked"
proof -
  let ?g = "sample_grant ''g1'' ''1'' Purchase Active"
  obtain res db' where run: "recomputeRefundPurchaseAccess compare_text (default_projector sample_ids)
      sample_refund_access sample_access = Inr (res, db')" using sample_refund_runs by blast
  have g: "?g \<in> set (ad_grants sample_access)" "?g \<in> set (rs_grants sample_refund_access)"
    by (simp_all add: sample_access_def sample_refund_access_def)
  have "''1'' \<in> fully_allocated (rs_items sample_refund_access) (rs_allocations sample_refund_access)"
    by code_simp
  then have "fully_refunded (fully_allocated (rs_items sample_refund_access)
      (rs_allocations sample_refund_access)) ?g"
    by (simp add: fully_refunded_def sample_grant_def)
  with refund_revokes_exactly [OF run sample_access_ok sample_rows(1) g(1)] g(2) run
  show ?thesis by (auto simp: sample_grant_def)
qed

text \<open>
  A reconciled dispute puts every grant of the payment in the state derived from its refunds
  and disputes: with a lost dispute every grant is revoked, and with an open one none is active.
  Grants of other payments are left as they were.
\<close>

theorem dispute_states_derived:
  assumes "reconcileDisputeAccess cmp (default_projector newId) now facts existed stored db =
      Inr ((st, changed), db')"
    and "access_wf db" and "access_consistent db" and "fresh_ids newId db"
    and "set (dx_grants facts) \<subseteq> set (ad_grants db)" and "distinct (map eg_id (dx_grants facts))"
    and "g \<in> set (ad_grants db)"
  defines "ds \<equiv> map dn_status (all_disputes facts existed stored)"
  shows "\<exists>allocated. \<exists>g' \<in> set (ad_grants db'). eg_id g' = eg_id g \<and>
    allocations_by_item (dx_refunds facts) (dx_refundAllocations facts) = Inr allocated \<and>
    (if g \<in> set (dx_grants facts) then
       (\<exists>item a. next_grant_state (dx_orderItems facts) allocated ds g = Inr (item, a, eg_state g')) \<and>
       (Dispute_lost \<in> set ds \<longrightarrow> eg_state g' = Revoked) \<and>
       (Dispute_open \<in> set ds \<longrightarrow> eg_state g' \<in> {Suspended, Revoked})
     else g' = g)"
proof (rule reconcile_dispute_effect [OF assms(1-5)])
  fix allocated ds'
  let ?f = "target_state (dx_orderItems facts) allocated ds"
  assume al: "allocations_by_item (dx_refunds facts) (dx_refundAllocations facts) = Inr allocated"
    and ds': "ds' = map dn_status (all_disputes facts existed stored)"
    and m: "list_all2 (grant_moved (dispute_moves (target_state (dx_orderItems facts) allocated ds')
      (dx_grants facts))) (ad_grants db) (ad_grants db')"
    and n: "\<forall>g \<in> set (dx_grants facts). \<exists>item a. next_grant_state (dx_orderItems facts) allocated ds' g =
      Inr (item, a, target_state (dx_orderItems facts) allocated ds' g)"
  have ds: "ds' = ds" by (simp add: ds' ds_def)
  from list_all2_member [OF m [unfolded ds] assms(7)] obtain g' where g': "g' \<in> set (ad_grants db')"
    "grant_moved (dispute_moves ?f (dx_grants facts)) g g'" by blast
  have inj: "inj_on eg_id (set (ad_grants db))" using assms(2) by (simp add: access_wf_def distinct_map)
  show ?thesis
  proof (intro exI bexI conjI)
    show "eg_id g' = eg_id g" using g'(2) by (simp add: grant_moved_def grant_kept_def)
    show "if g \<in> set (dx_grants facts) then
        (\<exists>item a. next_grant_state (dx_orderItems facts) allocated ds g = Inr (item, a, eg_state g')) \<and>
        (Dispute_lost \<in> set ds \<longrightarrow> eg_state g' = Revoked) \<and>
        (Dispute_open \<in> set ds \<longrightarrow> eg_state g' \<in> {Suspended, Revoked})
      else g' = g"
    proof (cases "g \<in> set (dx_grants facts)")
      case True
      have st: "eg_state g' = ?f g"
        using g'(2) dispute_moves_lookup [OF assms(6) True, of ?f]
        by (auto simp: grant_moved_def grant_kept_def domIff split: if_splits)
      from n True obtain item a where ok: "next_grant_state (dx_orderItems facts) allocated ds g = Inr (item, a, ?f g)"
        unfolding ds by blast
      with True st next_grant_state_disputed [OF ok] show ?thesis by auto
    next
      case False
      then have "eg_id g \<notin> dom (dispute_moves ?f (dx_grants facts))"
        using assms(5,7) inj by (auto simp: dispute_moves_dom inj_on_def)
      with g'(2) False show ?thesis by (simp add: grant_moved_def grant_kept_def)
    qed
  qed (use al g'(1) in auto)
qed

theorem dispute_states_derived_witness:
  "\<exists>out db' g'. reconcileDisputeAccess compare_text (default_projector sample_ids) 60
     sample_dispute_facts True (sample_dispute\<lparr>dn_status := Dispute_lost\<rparr>) sample_access = Inr (out, db') \<and>
     g' \<in> set (ad_grants db') \<and> eg_id g' = ''g2'' \<and> eg_state g' = Revoked"
proof -
  let ?g = "sample_grant ''g2'' ''2'' Purchase Active"
  obtain out db' where run: "reconcileDisputeAccess compare_text (default_projector sample_ids) 60
     sample_dispute_facts True (sample_dispute\<lparr>dn_status := Dispute_lost\<rparr>) sample_access = Inr (out, db')"
    using sample_dispute_runs by blast
  obtain st ch where out: "out = (st, ch)" by (cases out)
  have g: "?g \<in> set (ad_grants sample_access)" "?g \<in> set (dx_grants sample_dispute_facts)"
    by (simp_all add: sample_access_def sample_dispute_facts_def)
  have "Dispute_lost \<in> set (map dn_status (all_disputes sample_dispute_facts True
      (sample_dispute\<lparr>dn_status := Dispute_lost\<rparr>)))" by code_simp
  with dispute_states_derived [OF run [unfolded out] sample_access_ok sample_rows(2,3) g(1)] g(2) run
  show ?thesis by (auto simp: sample_grant_def)
qed

text \<open>
  Disputes only move forward: through any sequence of reports of the provider, a stored
  dispute keeps its payment, amount, currency and creation time, its time of update never goes
  back, and once it is won or lost its status never changes again.
\<close>

theorem dispute_status_final:
  assumes "dispute_step\<^sup>*\<^sup>* rows rows'" and "disputes_wf rows" and "d \<in> set rows"
  shows "\<exists>d' \<in> set rows'. dn_id d' = dn_id d \<and> dn_paymentId d' = dn_paymentId d \<and>
    dn_stripeDisputeId d' = dn_stripeDisputeId d \<and> dn_amountMinor d' = dn_amountMinor d \<and>
    dn_currency d' = dn_currency d \<and> dn_providerCreatedAt d' = dn_providerCreatedAt d \<and>
    dn_providerUpdatedAt d \<le> dn_providerUpdatedAt d' \<and>
    (dn_status d \<noteq> Dispute_open \<longrightarrow> dn_status d' = dn_status d)"
  using dispute_run_kept [OF assms(1,2)] assms(3) by (auto simp: dispute_kept_def)

theorem dispute_status_final_witness:
  "\<exists>rows'. dispute_step [sample_dispute\<lparr>dn_status := Dispute_won\<rparr>] rows' \<and>
     (\<exists>d' \<in> set rows'. dn_status d' = Dispute_won)"
proof -
  let ?rows = "[sample_dispute\<lparr>dn_status := Dispute_won\<rparr>]"
  let ?new = "new_dispute.truncate (sample_dispute\<lparr>dn_providerUpdatedAt := 90\<rparr>)"
  have "reconcileDispute ''d2'' ?new 91 ?rows = Inr (hd ?rows, ?rows)" by code_simp
  then have step: "dispute_step ?rows ?rows"
    by (rule dispute_step.reconciled) (simp add: sample_dispute_def)
  have "disputes_wf ?rows" by (simp add: disputes_wf_def)
  from dispute_status_final [OF r_into_rtranclp [where r = dispute_step, OF step] this, of "hd ?rows"] step
  show ?thesis by auto
qed

text \<open>
  Claiming and disputing agree: for a paid purchase with a known reader, the state that
  claiming derives is the state that dispute reconciliation derives, including which facts are
  rejected.
\<close>

theorem claimed_and_disputed_states_agree:
  "deriveClaimedPurchaseGrantState \<lparr>kf_permanentlyRevoked = r, kf_paymentStatus = Payment_succeeded,
      kf_itemTotalMinor = amount, kf_succeededRefundAllocatedMinor = refunded, kf_disputeStates = ds\<rparr> =
    deriveDisputedPurchaseGrantState \<lparr>df_hasUser = True, df_permanentlyRevoked = r,
      df_itemTotalMinor = amount, df_succeededRefundAllocatedMinor = refunded, df_disputeStates = ds\<rparr>"
  by (simp add: deriveClaimedPurchaseGrantState_def deriveDisputedPurchaseGrantState_def Let_def)

end
