(* ===== verification/Reading.thy ===== *)
theory Reading
  imports ReaderAccess AccessSystem
begin

text \<open>
  What a reader gets: the preview and the document of the active revision, the positions in it, and who
  may have them, across the catalog, the grants and the pages.
\<close>

section \<open>The text in order\<close>

definition doc_pairs ::
    "(string \<Rightarrow> string \<Rightarrow> int) \<Rightarrow> prose_block_row list \<Rightarrow> prose_section_row list \<Rightarrow>
      (prose_section_row \<times> prose_block_row) list" where
  "doc_pairs lc blocks ss = concat (map (\<lambda>s. map (Pair s) (section_blocks lc blocks s)) ss)"

definition pairs_of :: "(prose_section_row \<times> prose_block_row list) list \<Rightarrow> (prose_section_row \<times> prose_block_row) list" where
  "pairs_of xs = concat (map (\<lambda>(s, bs). map (Pair s) bs) xs)"

definition boundary_pair :: "presentation_row \<Rightarrow> prose_section_row \<times> prose_block_row \<Rightarrow> bool" where
  "boundary_pair p sb \<longleftrightarrow> Some (pz_id (fst sb)) = rp_previewProseSectionId p \<and>
     Some (bk_id (snd sb)) = rp_previewProseBlockId p"

lemma until_boundary_found:
  "until_boundary P bs = (taken, True) \<Longrightarrow>
     \<exists>n. 0 < n \<and> n \<le> length bs \<and> taken = take n bs \<and> P (bs ! (n - 1))"
proof (induction bs arbitrary: taken)
  case (Cons b bs)
  show ?case
  proof (cases "P b")
    case True
    then show ?thesis using Cons.prems by (intro exI [of _ 1]) auto
  next
    case False
    then obtain rest where rest: "until_boundary P bs = (rest, True)" "taken = b # rest"
      using Cons.prems by (auto split: prod.splits)
    from Cons.IH [OF rest(1)] obtain n where "0 < n" "n \<le> length bs" "rest = take n bs" "P (bs ! (n - 1))" by blast
    then show ?thesis using rest(2) by (intro exI [of _ "Suc n"]) (auto simp: nth_Cons')
  qed
qed simp

lemma until_boundary_all: "until_boundary P bs = (taken, False) \<Longrightarrow> taken = bs \<and> (\<forall>b \<in> set bs. \<not> P b)"
  by (induction bs arbitrary: taken) (auto split: if_splits prod.splits)

lemma shown_full:
  "\<exists>xs. shown_sections lc False p blocks ss = (xs, True) \<and> pairs_of xs = doc_pairs lc blocks ss"
proof (induction ss)
  case (Cons s ss)
  have "until_boundary (\<lambda>b. False) bs = (bs, False)" for bs :: "prose_block_row list" by (induction bs) auto
  with Cons show ?case by (auto simp: pairs_of_def doc_pairs_def)
qed (simp add: pairs_of_def doc_pairs_def)

lemma shown_preview:
  assumes "\<exists>sb \<in> set (doc_pairs lc blocks ss). boundary_pair p sb"
  shows "\<exists>xs n. shown_sections lc True p blocks ss = (xs, True) \<and> 0 < n \<and> n \<le> length (doc_pairs lc blocks ss) \<and>
    pairs_of xs = take n (doc_pairs lc blocks ss) \<and> boundary_pair p (doc_pairs lc blocks ss ! (n - 1))"
  using assms
proof (induction ss)
  case (Cons s ss)
  let ?P = "\<lambda>b. Some (pz_id s) = rp_previewProseSectionId p \<and> Some (bk_id b) = rp_previewProseBlockId p"
  let ?bs = "section_blocks lc blocks s"
  have pairs: "doc_pairs lc blocks (s # ss) = map (Pair s) ?bs @ doc_pairs lc blocks ss"
    by (simp add: doc_pairs_def)
  obtain taken found where u: "until_boundary ?P ?bs = (taken, found)" by fastforce
  show ?case
  proof (cases found)
    case True
    have "until_boundary ?P ?bs = (taken, True)" using u True by simp
    from until_boundary_found [OF this]
    obtain n where n: "0 < n" "n \<le> length ?bs" "taken = take n ?bs" "?P (?bs ! (n - 1))" by blast
    then have "taken \<noteq> []" by auto
    with n u True show ?thesis
      by (intro exI [of _ "[(s, taken)]"] exI [of _ n])
        (auto simp: pairs pairs_of_def take_map boundary_pair_def nth_append)
  next
    case False
    have "until_boundary ?P ?bs = (taken, False)" using u False by simp
    from until_boundary_all [OF this] have all: "taken = ?bs" "\<forall>b \<in> set ?bs. \<not> ?P b" by blast+
    then have "\<exists>sb \<in> set (doc_pairs lc blocks ss). boundary_pair p sb"
      using Cons.prems unfolding pairs by (auto simp: boundary_pair_def)
    from Cons.IH [OF this] obtain xs n where ih: "shown_sections lc True p blocks ss = (xs, True)" "0 < n"
      "n \<le> length (doc_pairs lc blocks ss)" "pairs_of xs = take n (doc_pairs lc blocks ss)"
      "boundary_pair p (doc_pairs lc blocks ss ! (n - 1))" by blast
    have "shown_sections lc True p blocks (s # ss) = (if ?bs = [] then xs else (s, ?bs) # xs, True)"
      using u False all(1) ih(1) by simp
    moreover have "pairs_of (if ?bs = [] then xs else (s, ?bs) # xs) = take (length ?bs + n) (doc_pairs lc blocks (s # ss))"
      using ih(4) by (simp add: pairs pairs_of_def)
    ultimately show ?thesis using ih(2,3,5)
      by (intro exI [of _ "if ?bs = [] then xs else (s, ?bs) # xs"] exI [of _ "length ?bs + n"])
        (auto simp: pairs nth_append)
  qed
qed (simp add: doc_pairs_def)

text \<open>What the constraints of the schema keep for the content of a revision.\<close>

definition content_ok :: "catalog \<Rightarrow> string \<Rightarrow> bool" where
  "content_ok c k \<longleftrightarrow>
     distinct (map pz_id (filter (\<lambda>s. pz_revisionId s = k) (cg_sections c))) \<and>
     distinct (map pz_ordinal (filter (\<lambda>s. pz_revisionId s = k) (cg_sections c))) \<and>
     distinct (map bk_id (all_blocks c k)) \<and>
     distinct (map (\<lambda>b. (bk_sectionId b, bk_ordinal b)) (all_blocks c k)) \<and>
     (\<forall>b \<in> set (all_blocks c k). bk_sectionId b \<in> pz_id ` set (filter (\<lambda>s. pz_revisionId s = k) (cg_sections c))) \<and>
     distinct (map cq_id (revision_pages c k)) \<and> distinct (map cq_ordinal (revision_pages c k))"

definition text_pairs :: "(string \<Rightarrow> string \<Rightarrow> int) \<Rightarrow> catalog \<Rightarrow> string \<Rightarrow> (prose_section_row \<times> prose_block_row) list" where
  "text_pairs lc c k = doc_pairs lc (all_blocks c k) (sorted_sections c k)"

lemma set_text_pairs: "set (text_pairs lc c k) = set (revision_blocks c k)"
  by (auto simp: text_pairs_def doc_pairs_def section_blocks_def sorted_sections_def all_blocks_def revision_blocks_def)

lemma follows_section: "follows_key compare_section pz_ordinal"
  by (auto simp: follows_key_def compare_section_def)

lemma follows_block: "follows_key (compare_block lc) bk_ordinal"
  by (auto simp: follows_key_def compare_block_def)

lemma follows_page: "follows_key compare_page cq_ordinal"
  by (auto simp: follows_key_def compare_page_def)

lemma sections_sorted:
  "content_ok c k \<Longrightarrow> sorted_wrt (\<lambda>x y. pz_ordinal x < pz_ordinal y) (sorted_sections c k)"
  unfolding sorted_sections_def content_ok_def by (blast intro: js_sort_by_key follows_section)

lemma blocks_sorted:
  assumes "content_ok c k"
  shows "sorted_wrt (\<lambda>x y. bk_ordinal x < bk_ordinal y) (section_blocks lc (all_blocks c k) s)"
proof -
  have "distinct (map (\<lambda>b. (bk_sectionId b, bk_ordinal b)) (all_blocks c k))" using assms by (simp add: content_ok_def)
  then have "distinct (map bk_ordinal (filter (\<lambda>b. bk_sectionId b = pz_id s) (all_blocks c k)))"
    by (auto simp: distinct_map inj_on_def)
  then show ?thesis unfolding section_blocks_def by (rule js_sort_by_key [OF follows_block])
qed

lemma text_sorted:
  assumes "content_ok c k"
  shows "sorted_wrt (\<lambda>x y. after_position (block_position y) (block_position x)) (text_pairs lc c k)"
proof -
  have "sorted_wrt (\<lambda>x y. after_position (block_position y) (block_position x)) (doc_pairs lc (all_blocks c k) ss)"
    if "sorted_wrt (\<lambda>x y. pz_ordinal x < pz_ordinal y) ss" for ss
    using that
  proof (induction ss)
    case (Cons s ss)
    have "sorted_wrt (\<lambda>x y. after_position (block_position y) (block_position x))
        (map (Pair s) (section_blocks lc (all_blocks c k) s))"
      using blocks_sorted [OF assms, of lc s] unfolding sorted_wrt_map
      by (rule sorted_wrt_mono_rel [rotated]) (simp add: after_position_def block_position_def)
    with Cons show ?case
      by (auto simp: doc_pairs_def sorted_wrt_append after_position_def block_position_def)
  qed (simp add: doc_pairs_def)
  then show ?thesis using sections_sorted [OF assms] by (simp add: text_pairs_def)
qed

lemma final_block_last:
  assumes "final_block c k = Some x"
  shows "x \<in> set (revision_blocks c k) \<and>
    (\<forall>y \<in> set (revision_blocks c k). after_position (block_position x) (block_position y))"
proof -
  obtain xs where "js_sort latest_first (revision_blocks c k) = x # xs"
    using assms by (auto simp: final_block_def split: list.splits)
  then have "set (x # xs) = set (revision_blocks c k)" "sorted_wrt (\<lambda>x y. latest_first x y \<le> 0) (x # xs)"
    using latest_block.sorted_js_sort [of "revision_blocks c k"] by (metis set_js_sort)+
  moreover have "after_position (block_position x) (block_position x)" by (simp add: after_position_def)
  ultimately show ?thesis by (fastforce simp: latest_first_def split: if_splits)
qed

lemma final_page_last:
  assumes "final_page_ordinal c k = Some n"
  shows "\<exists>x \<in> set (revision_pages c k). cq_ordinal x = n \<and> (\<forall>y \<in> set (revision_pages c k). cq_ordinal y \<le> n)"
proof -
  obtain x xs where x: "js_sort last_page_first (revision_pages c k) = x # xs" "cq_ordinal x = n"
    using assms by (auto simp: final_page_ordinal_def split: list.splits)
  then have "set (x # xs) = set (revision_pages c k)" "sorted_wrt (\<lambda>x y. last_page_first x y \<le> 0) (x # xs)"
    using latest_page.sorted_js_sort [of "revision_pages c k"] by (metis set_js_sort)+
  with x(2) show ?thesis by (fastforce simp: last_page_first_def)
qed

section \<open>Previews\<close>

definition reading_units :: "reader_document \<Rightarrow> (prose_block_dto + comic_page_dto) list" where
  "reading_units doc = (case doc of
     Prose_document sections images \<Rightarrow> map Inl (document_blocks sections)
   | Comic_document guided pages \<Rightarrow> map Inr pages)"

definition blockDto :: "prose_section_row \<times> prose_block_row \<Rightarrow> prose_block_dto" where
  "blockDto sb = \<lparr>pb_id = bk_id (snd sb), pb_content = bk_content (snd sb)\<rparr>"

lemma document_blocks_sections: "document_blocks (map sectionDto xs) = map blockDto (pairs_of xs)"
  by (induction xs) (auto simp: document_blocks_def sectionDto_def pairs_of_def blockDto_def)

lemma prose_full:
  "level \<noteq> Preview_level \<Longrightarrow> \<exists>sections images. proseDocument lc c pub level = Some (Prose_document sections images) \<and>
     document_blocks sections = map blockDto (text_pairs lc c (pu_revisionId pub))"
  using shown_full [of lc "pu_presentation pub" "all_blocks c (pu_revisionId pub)" "sorted_sections c (pu_revisionId pub)"]
  by (auto simp: proseDocument_def Let_def document_blocks_sections text_pairs_def)

lemma prose_preview:
  assumes ok: "content_ok c k" and k: "pu_revisionId pub = k"
    and boundary: "validateProseBoundary c k sectionId blockId = Inr ()"
    and p: "rp_previewProseSectionId (pu_presentation pub) = Some sectionId"
      "rp_previewProseBlockId (pu_presentation pub) = Some blockId"
  shows "\<exists>sections images n. proseDocument lc c pub Preview_level = Some (Prose_document sections images) \<and>
    document_blocks sections = map blockDto (take n (text_pairs lc c k)) \<and> 0 < n \<and> n < length (text_pairs lc c k)"
proof -
  let ?L = "text_pairs lc c k" and ?p = "pu_presentation pub"
  obtain sb fin where sb: "sb \<in> set (revision_blocks c k)" "bk_id (snd sb) = blockId" "pz_id (fst sb) = sectionId"
    and fin: "final_block c k = Some fin" "bk_id (snd sb) \<noteq> bk_id (snd fin)"
    using boundary by (auto simp: validateProseBoundary_def dest!: find_row_member split: option.splits prod.splits)
  have bk: "bk_id (snd x) = bk_id (snd y) \<Longrightarrow> snd x = snd y"
    if "x \<in> set ?L" "y \<in> set ?L" for x y
  proof -
    have "snd x \<in> set (all_blocks c k)" "snd y \<in> set (all_blocks c k)"
      using that unfolding set_text_pairs by (auto simp: revision_blocks_def all_blocks_def)
    then show "bk_id (snd x) = bk_id (snd y) \<Longrightarrow> snd x = snd y"
      using ok same_id [of bk_id "all_blocks c k"] by (auto simp: content_ok_def)
  qed
  have "\<exists>sb \<in> set ?L. boundary_pair ?p sb"
    using sb p unfolding set_text_pairs boundary_pair_def by (intro bexI [of _ sb]) simp_all
  from shown_preview [OF this [unfolded text_pairs_def]] obtain xs n where
    shown: "shown_sections lc True ?p (all_blocks c k) (sorted_sections c k) = (xs, True)"
    and n: "0 < n" "n \<le> length ?L" "pairs_of xs = take n ?L" "boundary_pair ?p (?L ! (n - 1))"
    unfolding text_pairs_def by blast
  have "n < length ?L"
  proof (rule ccontr)
    assume "\<not> n < length ?L"
    then have last: "?L ! (n - 1) = last ?L" "?L \<noteq> []" using n(1,2) by (auto simp: last_conv_nth)
    let ?b = "last ?L"
    have b: "?b \<in> set ?L" "bk_id (snd ?b) = blockId" using n(4) last p by (auto simp: boundary_pair_def)
    have finL: "fin \<in> set ?L" "\<forall>y \<in> set ?L. after_position (block_position fin) (block_position y)"
      using final_block_last [OF fin(1)] unfolding set_text_pairs by blast+
    have "after_position (block_position ?b) (block_position fin)"
    proof (cases "fin = ?b")
      case False
      then obtain ys where "?L = ys @ [?b]" "fin \<in> set ys" using finL(1) last(2) by (metis append_butlast_last_id
            in_set_conv_decomp_last rotate1.simps(2) set_ConsD set_rotate1)
      then show ?thesis using text_sorted [OF ok, of lc] by (metis list.set_intros(1) sorted_wrt_append)
    qed (simp add: after_position_def)
    then have pos: "block_position ?b = block_position fin"
      using finL(2) b(1) by (auto simp: after_position_def block_position_def)
    have members: "x \<in> set ?L \<Longrightarrow> snd x \<in> set (all_blocks c k) \<and> fst x \<in> set (filter (\<lambda>s. pz_revisionId s = k) (cg_sections c)) \<and>
        bk_sectionId (snd x) = pz_id (fst x)" for x
      unfolding set_text_pairs by (auto simp: revision_blocks_def all_blocks_def)
    have "fst ?b = fst fin"
      using members [OF b(1)] members [OF finL(1)] pos ok
        same_id [of pz_ordinal "filter (\<lambda>s. pz_revisionId s = k) (cg_sections c)"]
      by (auto simp: content_ok_def block_position_def)
    then have "(bk_sectionId (snd ?b), bk_ordinal (snd ?b)) = (bk_sectionId (snd fin), bk_ordinal (snd fin))"
      using members [OF b(1)] members [OF finL(1)] pos by (simp add: block_position_def)
    then have "snd ?b = snd fin"
      using members [OF b(1)] members [OF finL(1)] ok
        same_id [of "\<lambda>b. (bk_sectionId b, bk_ordinal b)" "all_blocks c k"] by (auto simp: content_ok_def)
    then show False using fin(2) sb(2) b(2) by simp
  qed
  then show ?thesis using shown n k
    by (intro exI [of _ "map sectionDto xs"]) (auto simp: proseDocument_def document_blocks_sections)
qed

section \<open>Stored positions\<close>

lemma find_unique:
  assumes "x \<in> set xs" and "p x" and unique: "\<And>y. y \<in> set xs \<Longrightarrow> p y \<Longrightarrow> y = x"
  shows "find p xs = Some x"
proof (cases "find p xs")
  case None
  then show ?thesis using assms(1,2) by (auto simp: find_None_iff)
next
  case (Some y)
  then show ?thesis using unique find_row_member [OF Some] by blast
qed

lemma prose_position_in:
  assumes ok: "content_ok c (pu_revisionId pub)" and level: "level \<noteq> Preview_level"
    and doc: "proseDocument lc c pub level = Some doc"
    and valid: "validateReaderLocation c titleId (pu_revisionId pub) Prose p l = Inr l'"
  shows "position_in doc l"
proof -
  let ?k = "pu_revisionId pub"
  obtain blockId offset block where l: "l = Prose_location blockId offset" "0 \<le> offset"
      "offset \<le> proseBlockVisibleLength (bk_content block)"
    and found: "find (\<lambda>b. bk_id b = blockId) (all_blocks c ?k) = Some block"
    using valid by (cases l) (auto simp: validateReaderLocation_def Let_def not_less split: option.splits if_splits)
  have block: "block \<in> set (all_blocks c ?k)" "bk_id block = blockId" using find_row_member [OF found] by blast+
  obtain sections images where doc': "doc = Prose_document sections images"
      "document_blocks sections = map blockDto (text_pairs lc c ?k)"
    using prose_full [OF level, of lc c pub] doc by auto
  have "bk_sectionId block \<in> pz_id ` set (filter (\<lambda>s. pz_revisionId s = ?k) (cg_sections c))"
    using ok block(1) unfolding content_ok_def by blast
  then obtain s where "(s, block) \<in> set (revision_blocks c ?k)"
    using block(1) unfolding revision_blocks_def all_blocks_def by force
  then have pair: "(s, block) \<in> set (text_pairs lc c ?k)" by (simp add: set_text_pairs)
  have "find (\<lambda>b. pb_id b = blockId) (document_blocks sections) = Some (blockDto (s, block))"
  proof (rule find_unique)
    show "blockDto (s, block) \<in> set (document_blocks sections)" using pair doc'(2) by force
    show "pb_id (blockDto (s, block)) = blockId" using block(2) by (simp add: blockDto_def)
    fix y assume "y \<in> set (document_blocks sections)" "pb_id y = blockId"
    then obtain sb where sb: "sb \<in> set (text_pairs lc c ?k)" "y = blockDto sb" "bk_id (snd sb) = blockId"
      using doc'(2) by (auto simp: blockDto_def)
    then have "snd sb \<in> set (all_blocks c ?k)"
      unfolding set_text_pairs by (auto simp: revision_blocks_def all_blocks_def)
    then have "snd sb = block" using ok block sb(3) same_id [of bk_id "all_blocks c ?k"] by (auto simp: content_ok_def)
    then show "y = blockDto (s, block)" using sb(2) by (simp add: blockDto_def)
  qed
  then show ?thesis using l doc'(1) by (simp add: documentBlock_def document_blocks_def blockDto_def)
qed

lemma comic_position_in:
  assumes ok: "content_ok c (pu_revisionId pub)" and level: "level \<noteq> Preview_level"
    and doc: "comicDocument lc c pub level = Some doc"
    and valid: "validateReaderLocation c titleId (pu_revisionId pub) Comic (pu_presentation pub) l = Inr l'"
  shows "position_in doc l"
proof -
  let ?k = "pu_revisionId pub" and ?p = "pu_presentation pub"
  let ?panels = "filter (\<lambda>panel. pq_revisionId panel = ?k \<and> pq_presentationId panel = rp_id ?p) (cg_panels c)"
  obtain pageId panelOrdinal page where l: "l = Comic_location pageId panelOrdinal"
    and found: "find (\<lambda>p. cq_id p = pageId) (revision_pages c ?k) = Some page"
    and panel: "\<And>n. panelOrdinal = Some n \<Longrightarrow> rp_guidedViewEnabled ?p \<and>
      (\<exists>panel \<in> set ?panels. pq_pageId panel = cq_id page \<and> pq_ordinal panel = n)"
    using valid by (auto simp: validateReaderLocation_def Let_def list_ex_iff
        split: reader_location.splits option.splits if_splits)
  have page: "page \<in> set (revision_pages c ?k)" "cq_id page = pageId" using find_row_member [OF found] by blast+
  have doc': "doc = Comic_document (rp_guidedViewEnabled ?p)
      (map (comicPageDto lc pub ?panels) (js_sort compare_page (revision_pages c ?k)))"
    using doc level by (simp add: comicDocument_def Let_def)
  have "find (\<lambda>y. cp_id y = pageId) (map (comicPageDto lc pub ?panels) (js_sort compare_page (revision_pages c ?k)))
      = Some (comicPageDto lc pub ?panels page)"
  proof (rule find_unique)
    show "comicPageDto lc pub ?panels page \<in> set (map (comicPageDto lc pub ?panels) (js_sort compare_page (revision_pages c ?k)))"
      using page(1) by simp
    show "cp_id (comicPageDto lc pub ?panels page) = pageId" using page(2) by (simp add: comicPageDto_def)
    fix y assume "y \<in> set (map (comicPageDto lc pub ?panels) (js_sort compare_page (revision_pages c ?k)))" "cp_id y = pageId"
    then obtain q where q: "q \<in> set (revision_pages c ?k)" "y = comicPageDto lc pub ?panels q" "cq_id q = pageId"
      by (auto simp: comicPageDto_def)
    then have "q = page" using ok page same_id [of cq_id "revision_pages c ?k"] by (auto simp: content_ok_def)
    then show "y = comicPageDto lc pub ?panels page" using q(2) by simp
  qed
  moreover have "list_ex (\<lambda>panel. pn_ordinal panel = n) (cp_panels (comicPageDto lc pub ?panels page))"
    if "panelOrdinal = Some n" for n
    using panel [OF that] by (auto simp: comicPageDto_def list_ex_iff)
  ultimately show ?thesis using panel by (auto simp: doc' l split: option.splits)
qed

lemma stored_position_in:
  assumes "content_ok c (pu_revisionId pub)" and "level \<noteq> Preview_level"
    and "readerDocument lc c pub level = Some doc"
    and "validateReaderLocation c titleId (pu_revisionId pub) (ti_format (pu_title pub)) (pu_presentation pub) l = Inr l'"
  shows "position_in doc l"
  using assms prose_position_in [of c pub level lc doc titleId _ l l'] comic_position_in [of c pub level lc doc titleId l l']
  by (cases "ti_format (pu_title pub)") (auto simp: readerDocument_def)

lemma comic_full_and_preview:
  assumes ok: "content_ok c k" and k: "pu_revisionId pub = k"
    and boundary: "validateComicBoundary c k pageId = Inr ()"
    and p: "rp_previewComicPageId (pu_presentation pub) = Some pageId"
  shows "\<exists>guided pages n. comicDocument lc c pub Entitled_level = Some (Comic_document guided pages) \<and>
    comicDocument lc c pub Preview_level = Some (Comic_document guided (take n pages)) \<and> 0 < n \<and> n < length pages"
proof -
  let ?L = "js_sort compare_page (revision_pages c k)"
  obtain page final where page: "page \<in> set (revision_pages c k)" "cq_id page = pageId"
    and final: "final_page_ordinal c k = Some final" "cq_ordinal page < final"
    using boundary by (auto simp: validateComicBoundary_def dest!: find_row_member split: option.splits)
  obtain last where last: "last \<in> set (revision_pages c k)" "cq_ordinal last = final"
    using final_page_last [OF final(1)] by blast
  have sorted: "sorted_wrt (\<lambda>x y. cq_ordinal x < cq_ordinal y) ?L"
    by (rule js_sort_by_key [OF follows_page]) (use ok in \<open>simp add: content_ok_def\<close>)
  let ?is = "\<lambda>page. Some (cq_id page) = rp_previewComicPageId (pu_presentation pub)"
  have "\<exists>i. find_page ?is ?L = Some i \<and> i < length ?L"
    by (rule find_page_total [of page]) (use page p in simp_all)
  then obtain i where i: "find_page ?is ?L = Some i" "i < length ?L" "cq_id (?L ! i) = pageId"
    using p by (auto simp: find_page_Some)
  have "?L ! i \<in> set (revision_pages c k)" using i(2) by (metis nth_mem set_js_sort)
  then have at: "?L ! i = page"
    using ok page i(3) same_id [of cq_id "revision_pages c k"] by (auto simp: content_ok_def)
  obtain j where j: "j < length ?L" "?L ! j = last" using last(1) by (metis in_set_conv_nth set_js_sort)
  have "i < j"
  proof (rule ccontr)
    assume "\<not> i < j"
    then have "j = i \<or> j < i" by linarith
    then have "j = i \<or> cq_ordinal (?L ! j) < cq_ordinal (?L ! i)"
      using sorted i(2) unfolding sorted_wrt_iff_nth_less by blast
    then show False using at j(2) final(2) last(2) by auto
  qed
  then have "Suc i < length ?L" using j(1) by simp
  then show ?thesis using i(1) k
    by (intro exI [of _ "rp_guidedViewEnabled (pu_presentation pub)"] exI [of _ "Suc i"] exI)
      (auto simp: comicDocument_def Let_def take_map)
qed

end
