(* ===== verification/Storefront.thy ===== *)
theory Storefront
  imports Reading
begin

text \<open>
  The properties of the storefront and the reader that span the catalog, the grants and the pages, and a
  sample catalog with one title of each format.
\<close>

section \<open>The publication of a title\<close>

definition active_revisions :: "catalog \<Rightarrow> title_row \<Rightarrow> string list" where
  "active_revisions c t =
     map tr_id (filter (\<lambda>r. tr_titleId r = ti_id t \<and> tr_state r = Active_revision) (cg_revisions c))"

definition storefront_ok :: "catalog \<Rightarrow> title_row \<Rightarrow> bool" where
  "storefront_ok c t \<longleftrightarrow>
     (case getCurrentPublicationRoot c t of
        None \<Rightarrow> ti_visibility t \<noteq> Public_title \<and> active_revisions c t = []
      | Some pub \<Rightarrow> active_revisions c t = [pu_revisionId pub] \<and>
          rp_revisionId (pu_presentation pub) = pu_revisionId pub \<and>
          rp_state (pu_presentation pub) = Published_settings \<and>
          require_boundary c (ti_format t) (pu_presentation pub) = Inr ())"

lemma distinct_set_single: "distinct ys \<Longrightarrow> set ys = {a} \<Longrightarrow> ys = [a]"
  by (metis card.empty card_insert_disjoint distinct_card empty_iff finite.emptyI length_0_conv
      length_Suc_conv list.set_intros(1) singletonD)

lemma filter_single:
  assumes dist: "distinct (map f xs)" and x: "x \<in> set xs" "p x"
    and unique: "\<And>y. y \<in> set xs \<Longrightarrow> p y \<Longrightarrow> f y = f x"
  shows "map f (filter p xs) = [f x]"
proof (rule distinct_set_single)
  show "distinct (map f (filter p xs))" using dist by (rule distinct_map_filter)
  show "set (map f (filter p xs)) = {f x}"
  proof
    show "set (map f (filter p xs)) \<subseteq> {f x}" using unique by force
    show "{f x} \<subseteq> set (map f (filter p xs))" using x by simp
  qed
qed

lemma active_revisions_none:
  assumes ok: "catalog_ok c" and t: "t \<in> set (cg_titles c)" and none: "ti_activeRevisionId t = None"
  shows "active_revisions c t = []"
proof -
  have False if r: "r \<in> set (cg_revisions c)" "tr_titleId r = ti_id t" "tr_state r = Active_revision" for r
  proof -
    obtain t' where "t' \<in> set (cg_titles c)" "ti_id t' = ti_id t" "ti_activeRevisionId t' \<noteq> None"
      using catalog_okD(4) [OF ok r(1)] r unfolding active_owned_def by auto
    then show False using none same_title [OF catalog_okD(1) [OF ok] _ t] by metis
  qed
  then show ?thesis by (auto simp: active_revisions_def filter_empty_conv)
qed

lemma active_revisions_one:
  assumes ok: "catalog_ok c" and t: "t \<in> set (cg_titles c)" and r: "r \<in> set (cg_revisions c)"
    and own: "tr_titleId r = ti_id t" and act: "tr_state r = Active_revision"
  shows "active_revisions c t = [tr_id r]"
  unfolding active_revisions_def
proof (rule filter_single)
  show "distinct (map tr_id (cg_revisions c))" using catalog_okD(1) [OF ok] by (simp add: catalog_ids_def)
  show "r \<in> set (cg_revisions c)" by (rule r)
  show "tr_titleId r = ti_id t \<and> tr_state r = Active_revision" using own act by simp
  have active: "ti_activeRevisionId t = Some (tr_id y)"
    if y: "y \<in> set (cg_revisions c)" "tr_titleId y = ti_id t" "tr_state y = Active_revision" for y
  proof -
    obtain t' where "t' \<in> set (cg_titles c)" "ti_id t' = ti_id t" "ti_activeRevisionId t' = Some (tr_id y)"
      using catalog_okD(4) [OF ok y(1)] y unfolding active_owned_def by auto
    then show ?thesis using same_title [OF catalog_okD(1) [OF ok] _ t] by metis
  qed
  show "tr_id y = tr_id r" if "y \<in> set (cg_revisions c)" "tr_titleId y = ti_id t \<and> tr_state y = Active_revision" for y
    using active [OF that(1)] active [OF r own act] that(2) by simp
qed

lemma published_boundary:
  assumes ok: "catalog_ok c" and t: "t \<in> set (cg_titles c)" and r: "r \<in> set (cg_revisions c)"
    and own: "tr_titleId r = ti_id t" and p: "published_settings c (tr_id r) = Some p"
  shows "require_boundary c (ti_format t) p = Inr ()"
proof -
  have mem: "p \<in> set (cg_presentations c)" "rp_revisionId p = tr_id r" "rp_state p = Published_settings"
    using published_settings_Some [OF p] by blast+
  obtain r' t' where r': "r' \<in> set (cg_revisions c)" "tr_id r' = rp_revisionId p"
    and t': "t' \<in> set (cg_titles c)" "tr_titleId r' = ti_id t'"
    and checked: "require_boundary c (ti_format t') p = Inr ()"
    using catalog_okD(5) [OF ok mem(1)] mem(3) unfolding published_ok_def by blast
  have "r' = r" using same_revision [OF catalog_okD(1) [OF ok] r'(1) r] r'(2) mem(2) by simp
  then have "t' = t" using same_title [OF catalog_okD(1) [OF ok] t'(1) t] t'(2) own by simp
  then show ?thesis using checked by simp
qed

lemma catalog_storefront_ok:
  assumes ok: "catalog_ok c" and t: "t \<in> set (cg_titles c)"
  shows "storefront_ok c t"
proof (cases "ti_activeRevisionId t")
  case None
  then show ?thesis using catalog_okD(3) [OF ok t] active_revisions_none [OF ok t None]
    by (simp add: storefront_ok_def getCurrentPublicationRoot_def active_ok_def)
next
  case (Some k)
  then obtain r p where r: "r \<in> set (cg_revisions c)" "tr_id r = k" "tr_titleId r = ti_id t" "tr_state r = Active_revision"
    and p: "published_settings c (tr_id r) = Some p"
    using catalog_okD(3) [OF ok t] by (auto simp: active_ok_def)
  have "find (\<lambda>r. tr_id r = k \<and> tr_titleId r = ti_id t \<and> tr_state r = Active_revision) (cg_revisions c) = Some r"
  proof (rule find_unique)
    show "tr_id r = k \<and> tr_titleId r = ti_id t \<and> tr_state r = Active_revision" using r by simp
    show "y = r" if "y \<in> set (cg_revisions c)" "tr_id y = k \<and> tr_titleId y = ti_id t \<and> tr_state y = Active_revision" for y
      using same_revision [OF catalog_okD(1) [OF ok] that(1) r(1)] that(2) r(2) by simp
  qed (rule r(1))
  then have "getCurrentPublicationRoot c t = Some \<lparr>pu_title = t, pu_revisionId = tr_id r, pu_presentation = p\<rparr>"
    using Some p by (simp add: getCurrentPublicationRoot_def)
  then show ?thesis
    using active_revisions_one [OF ok t r(1,3,4)] published_settings_Some [OF p] published_boundary [OF ok t r(1,3) p]
    by (simp add: storefront_ok_def)
qed

lemma root_facts:
  assumes "getCurrentPublicationRoot c t = Some pub"
  shows "pu_title pub = t" "ti_activeRevisionId t = Some (pu_revisionId pub)"
  using assms by (auto simp: getCurrentPublicationRoot_def dest!: find_row_member split: option.splits)

section \<open>Previews\<close>

definition units_of :: "reader_document option \<Rightarrow> (prose_block_dto + comic_page_dto) list" where
  "units_of doc = (case doc of None \<Rightarrow> [] | Some d \<Rightarrow> reading_units d)"

lemma preview_of_root:
  assumes ok: "catalog_ok c" and t: "t \<in> set (cg_titles c)"
    and root: "getCurrentPublicationRoot c t = Some pub" and content: "content_ok c (pu_revisionId pub)"
  shows "\<exists>n. 0 < n \<and> n < length (units_of (readerDocument lc c pub Entitled_level)) \<and>
    units_of (readerDocument lc c pub Preview_level) = take n (units_of (readerDocument lc c pub Entitled_level))"
proof -
  let ?p = "pu_presentation pub" and ?k = "pu_revisionId pub"
  have checked: "require_boundary c (ti_format t) ?p = Inr ()" and own: "rp_revisionId ?p = ?k"
    using catalog_storefront_ok [OF ok t] root by (simp_all add: storefront_ok_def)
  show ?thesis
  proof (cases "ti_format t")
    case Prose
    then obtain sectionId blockId where b: "rp_previewProseSectionId ?p = Some sectionId"
      "rp_previewProseBlockId ?p = Some blockId" "validateProseBoundary c ?k sectionId blockId = Inr ()"
      using checked own by (auto simp: require_boundary_def split: option.splits)
    obtain full images where full: "proseDocument lc c pub Entitled_level = Some (Prose_document full images)"
      "document_blocks full = map blockDto (text_pairs lc c ?k)"
      using prose_full [of Entitled_level lc c pub] by auto
    obtain sections images' n where
      "proseDocument lc c pub Preview_level = Some (Prose_document sections images')"
      "document_blocks sections = map blockDto (take n (text_pairs lc c ?k))" "0 < n" "n < length (text_pairs lc c ?k)"
      using prose_preview [OF content refl b(3,1,2)] by blast
    with full Prose root_facts(1) [OF root] show ?thesis
      by (auto simp: readerDocument_def units_of_def reading_units_def take_map)
  next
    case Comic
    then obtain pageId where b: "rp_previewComicPageId ?p = Some pageId" "validateComicBoundary c ?k pageId = Inr ()"
      using checked own by (auto simp: require_boundary_def rbind_eq_Inr split: option.splits)
    from comic_full_and_preview [OF content refl b(2,1), of lc] Comic root_facts(1) [OF root] show ?thesis
      by (auto simp: readerDocument_def units_of_def reading_units_def take_map)
  qed
qed

section \<open>Access\<close>

lemma hasActiveEntitlement_entitled: "hasActiveEntitlement (ad_entitlements db) u t \<longleftrightarrow> entitled db u t"
  by (auto simp: hasActiveEntitlement_def entitled_def list_ex_iff)

text \<open>What an access decision gives the actor of a request.\<close>

definition full_access :: "access_decision catalog_result \<Rightarrow> bool" where
  "full_access decision \<longleftrightarrow> (case decision of Inr (Available level _) \<Rightarrow> level \<noteq> Preview_level | _ \<Rightarrow> False)"

lemma full_access_granted:
  assumes "purpose \<noteq> Admin_review" and "\<not> isAdministrator (User u roles)"
  shows "full_access (resolvePublicationAccess c ents (User u roles) titleId k s purpose) \<longleftrightarrow>
    hasActiveEntitlement ents u titleId \<and>
    (\<exists>t pub. find (\<lambda>t. ti_id t = titleId) (cg_titles c) = Some t \<and> getCurrentPublicationRoot c t = Some pub)"
proof (cases "find (\<lambda>t. ti_id t = titleId) (cg_titles c)")
  case None
  then show ?thesis using assms by (simp add: full_access_def resolvePublicationAccess_def)
next
  case (Some t)
  then have "ti_id t = titleId" using find_row_member by fastforce
  with Some assms show ?thesis
    by (auto simp: full_access_def resolvePublicationAccess_def decidePublicationAccess_def Let_def
        split: option.splits if_splits)
qed

section \<open>A sample catalog\<close>

definition sample_title :: "string \<Rightarrow> publication_format \<Rightarrow> title_row" where
  "sample_title k format = \<lparr>ti_id = k, ti_format = format, ti_visibility = Private_title, ti_priceMinor = 900,
     ti_currency = ''USD'', ti_activeRevisionId = None, ti_updatedAt = 1\<rparr>"

definition sample_revision :: "string \<Rightarrow> string \<Rightarrow> revision_row" where
  "sample_revision k titleId = \<lparr>tr_id = k, tr_titleId = titleId, tr_state = Ready_for_review,
     tr_activatedAt = None, tr_retiredAt = None\<rparr>"

definition sample_settings :: "string \<Rightarrow> string \<Rightarrow> presentation_state \<Rightarrow> presentation_row" where
  "sample_settings k revisionId state = \<lparr>rp_id = k, rp_revisionId = revisionId, rp_state = state,
     rp_readingDirection = Left_to_right, rp_guidedViewEnabled = False,
     rp_previewProseSectionId = Some ''s1'', rp_previewProseBlockId = Some ''b2'',
     rp_previewComicPageId = Some ''q1'', rp_createdAt = 1, rp_updatedAt = 1\<rparr>"

definition sample_block :: "string \<Rightarrow> string \<Rightarrow> int \<Rightarrow> prose_block_data \<Rightarrow> prose_block_row" where
  "sample_block k section_id ordinal content = \<lparr>bk_id = k, bk_revisionId = ''r1'', bk_sectionId = section_id,
     bk_ordinal = ordinal, bk_content = content, bk_imageId = None, bk_fingerprint = None,
     bk_fingerprintVersion = None\<rparr>"

definition sample_page :: "string \<Rightarrow> int \<Rightarrow> comic_page_row" where
  "sample_page k ordinal = \<lparr>cq_id = k, cq_revisionId = ''r2'', cq_ordinal = ordinal, cq_checksumSha256 = [],
     cq_width = 800, cq_height = 1200, cq_fingerprint = None, cq_fingerprintVersion = None\<rparr>"

definition plain :: "nat \<Rightarrow> inline_fragment list" where
  "plain n = [\<lparr>if_text = sample_text n, if_marks = [], if_href = None\<rparr>]"

definition sample_catalog :: catalog where
  "sample_catalog = \<lparr>cg_roles = [(''admin'', Administrator)],
     cg_titles = [sample_title ''t1'' Prose, sample_title ''t2'' Comic],
     cg_revisions = [sample_revision ''r1'' ''t1'', sample_revision ''r2'' ''t2''],
     cg_presentations = [sample_settings ''p1'' ''r1'' Published_settings, sample_settings ''d1'' ''r1'' Draft_settings,
       sample_settings ''p2'' ''r2'' Published_settings, sample_settings ''d2'' ''r2'' Draft_settings],
     cg_sections = [\<lparr>pz_id = ''s2'', pz_revisionId = ''r1'', pz_ordinal = 2\<rparr>,
       \<lparr>pz_id = ''s1'', pz_revisionId = ''r1'', pz_ordinal = 1\<rparr>],
     cg_blocks = [sample_block ''b2'' ''s1'' 2 (Paragraph (plain 140)), sample_block ''b1'' ''s1'' 1 (Heading 1 (plain 5)),
       sample_block ''b3'' ''s2'' 1 (Paragraph (plain 20))],
     cg_images = [],
     cg_pages = [sample_page ''q2'' 2, sample_page ''q1'' 1, sample_page ''q3'' 3],
     cg_panels = [], cg_audit = []\<rparr>"

definition sample_admin :: actor where
  "sample_admin = User ''admin'' [Administrator]"

lemmas sample_catalog_defs = sample_catalog_def sample_title_def sample_revision_def sample_settings_def
  sample_block_def sample_page_def

lemma sample_catalog_ok: "catalog_ok sample_catalog"
proof
  show "catalog_ids sample_catalog" by (simp add: catalog_ids_def sample_catalog_defs)
  show "one_of_each sample_catalog" by (simp add: one_of_each_def sample_catalog_defs)
  show "active_ok sample_catalog t" if "t \<in> set (cg_titles sample_catalog)" for t
    using that by (auto simp: active_ok_def sample_catalog_defs)
  show "active_owned sample_catalog r" if "r \<in> set (cg_revisions sample_catalog)" for r
    using that by (auto simp: active_owned_def sample_catalog_defs)
  have "list_all (\<lambda>p. rp_state p = Published_settings \<longrightarrow>
      list_ex (\<lambda>r. list_ex (\<lambda>t. tr_id r = rp_revisionId p \<and> tr_titleId r = ti_id t \<and> editable (tr_state r) \<and>
        require_boundary sample_catalog (ti_format t) p = Inr ()) (cg_titles sample_catalog))
      (cg_revisions sample_catalog)) (cg_presentations sample_catalog)" by code_simp
  then show "published_ok sample_catalog p" if "p \<in> set (cg_presentations sample_catalog)" for p
    using that unfolding published_ok_def list_all_iff list_ex_iff by blast
qed

definition after_steps :: "catalog catalog_result" where
  "after_steps =
     rbind (activatePrivateRevision sample_admin ''t1'' ''r1'' 10 sample_catalog) (\<lambda>(_, c).
     rbind (publishTitleToStorefront (\<lambda>_. True) sample_admin ''t1'' 11 c) (\<lambda>(_, c).
     rbind (activatePrivateRevision sample_admin ''t2'' ''r2'' 12 c) (\<lambda>(_, c). Inr c)))"

definition sample_shop :: catalog where
  "sample_shop = (case after_steps of Inr c \<Rightarrow> c | Inl _ \<Rightarrow> sample_catalog)"

lemma sample_shop_steps: "catalog_step\<^sup>*\<^sup>* sample_catalog sample_shop"
proof -
  have "after_steps = Inr sample_shop \<or> isl after_steps"
    by (auto simp: sample_shop_def isl_def split: sum.split)
  moreover have "\<not> isl after_steps" by code_simp
  ultimately have "after_steps = Inr sample_shop" by blast
  then obtain t1 t2 t3 c1 c2 where
    steps: "activatePrivateRevision sample_admin ''t1'' ''r1'' 10 sample_catalog = Inr (t1, c1)"
    "publishTitleToStorefront (\<lambda>_. True) sample_admin ''t1'' 11 c1 = Inr (t2, c2)"
    "activatePrivateRevision sample_admin ''t2'' ''r2'' 12 c2 = Inr (t3, sample_shop)"
    unfolding after_steps_def by (auto simp: rbind_eq_Inr)
  have "catalog_step\<^sup>*\<^sup>* sample_catalog c1" using steps(1) by (blast intro: catalog_step.activated)
  also have "catalog_step\<^sup>*\<^sup>* c1 c2" using steps(2) by (blast intro: catalog_step.published)
  also have "catalog_step\<^sup>*\<^sup>* c2 sample_shop" using steps(3) by (blast intro: catalog_step.activated)
  finally show ?thesis .
qed

lemma sample_content: "content_ok sample_shop ''r1''" "content_ok sample_shop ''r2''"
proof -
  have "list_all (\<lambda>b. List.member (map pz_id (filter (\<lambda>s. pz_revisionId s = k) (cg_sections sample_shop))) (bk_sectionId b))
      (all_blocks sample_shop k)" if "k \<in> set [''r1'', ''r2'']" for k
  proof -
    have "list_all (\<lambda>k. list_all (\<lambda>b. List.member (map pz_id (filter (\<lambda>s. pz_revisionId s = k)
      (cg_sections sample_shop))) (bk_sectionId b)) (all_blocks sample_shop k)) [''r1'', ''r2'']" by code_simp
    with that show ?thesis unfolding list_all_iff by blast
  qed
  note inside = this
  have "list_all (\<lambda>k. distinct (map pz_id (filter (\<lambda>s. pz_revisionId s = k) (cg_sections sample_shop))) \<and>
     distinct (map pz_ordinal (filter (\<lambda>s. pz_revisionId s = k) (cg_sections sample_shop))) \<and>
     distinct (map bk_id (all_blocks sample_shop k)) \<and>
     distinct (map (\<lambda>b. (bk_sectionId b, bk_ordinal b)) (all_blocks sample_shop k)) \<and>
     distinct (map cq_id (revision_pages sample_shop k)) \<and> distinct (map cq_ordinal (revision_pages sample_shop k)))
    [''r1'', ''r2'']" by code_simp
  with inside show "content_ok sample_shop ''r1''" "content_ok sample_shop ''r2''"
    by (simp_all add: content_ok_def list_all_iff)
qed

lemma sample_shop_titles:
  obtains t t' pub where "cg_titles sample_shop = [t, t']" "ti_id t' = ''t2''" "ti_visibility t' = Private_title"
    "getCurrentPublicationRoot sample_shop t = Some pub" "pu_revisionId pub = ''r1''" "pu_title pub = t" "ti_format t = Prose"
proof -
  have "map (\<lambda>t. (ti_id t, ti_visibility t, ti_format t, map_option pu_revisionId (getCurrentPublicationRoot sample_shop t)))
      (cg_titles sample_shop) = [(''t1'', Public_title, Prose, Some ''r1''), (''t2'', Private_title, Comic, Some ''r2'')]"
    by code_simp
  then obtain t t' pub where "cg_titles sample_shop = [t, t']" "ti_id t' = ''t2''" "ti_visibility t' = Private_title"
    "getCurrentPublicationRoot sample_shop t = Some pub" "pu_revisionId pub = ''r1''" "ti_format t = Prose"
    by (auto simp: map_eq_Cons_conv)
  then show thesis using that root_facts(1) by blast
qed

section \<open>Properties\<close>

text \<open>
  The storefront always has something to sell: in every catalog the operations lead to, whatever
  uploads are ingested in between, a public title has a publication; and a title with a publication has
  exactly one active revision, with published settings that passed the checks of publishing on the
  content as it is now.
\<close>
theorem storefront_has_publication:
  assumes "catalog_step\<^sup>*\<^sup>* c c'" and "catalog_ok c" and "t \<in> set (cg_titles c')"
  shows "storefront_ok c' t"
  using catalog_storefront_ok [OF catalog_run_ok [OF assms(1,2)] assms(3)] .

theorem storefront_has_publication_witness:
  "map (storefront_ok sample_shop) (cg_titles sample_shop) = [True, True] \<and>
     map ti_visibility (cg_titles sample_shop) = [Public_title, Private_title] \<and>
     map (active_revisions sample_shop) (cg_titles sample_shop) = [[''r1''], [''r2'']]"
proof -
  have two: "map ti_visibility (cg_titles sample_shop) = [Public_title, Private_title] \<and>
    map (active_revisions sample_shop) (cg_titles sample_shop) = [[''r1''], [''r2'']]" by code_simp
  then obtain t t' where "cg_titles sample_shop = [t, t']" by (auto simp: map_eq_Cons_conv)
  with two show ?thesis using storefront_has_publication [OF sample_shop_steps sample_catalog_ok] by simp
qed

text \<open>
  C29. A preview is always there and never the whole: for every title with a publication, in prose and
  comics alike, the document of the preview is a beginning of the full document, at least one block or
  page of it, and at least one less than all.
\<close>
theorem preview_is_proper_beginning:
  assumes "catalog_step\<^sup>*\<^sup>* c c'" and "catalog_ok c" and "t \<in> set (cg_titles c')"
    and "getCurrentPublicationRoot c' t = Some pub" and "content_ok c' (pu_revisionId pub)"
  shows "\<exists>n. 0 < n \<and> n < length (units_of (readerDocument lc c' pub Entitled_level)) \<and>
    units_of (readerDocument lc c' pub Preview_level) = take n (units_of (readerDocument lc c' pub Entitled_level))"
  using preview_of_root [OF catalog_run_ok [OF assms(1,2)] assms(3-5)] .

theorem preview_is_proper_beginning_witness:
  "\<exists>t pub n. t \<in> set (cg_titles sample_shop) \<and> getCurrentPublicationRoot sample_shop t = Some pub \<and>
     n < length (units_of (readerDocument compare_text sample_shop pub Entitled_level)) \<and>
     units_of (readerDocument compare_text sample_shop pub Preview_level) =
       take n (units_of (readerDocument compare_text sample_shop pub Entitled_level))"
proof -
  obtain t t' pub where t: "cg_titles sample_shop = [t, t']" "getCurrentPublicationRoot sample_shop t = Some pub"
    "pu_revisionId pub = ''r1''" by (rule sample_shop_titles)
  then have "t \<in> set (cg_titles sample_shop)" "content_ok sample_shop (pu_revisionId pub)"
    using sample_content by simp_all
  from preview_is_proper_beginning [OF sample_shop_steps sample_catalog_ok this(1) t(2) this(2), of compare_text]
  show ?thesis using t \<open>t \<in> set (cg_titles sample_shop)\<close> by blast
qed

text \<open>
  C30. The full text is for owners: a user who is no administrator is given the full document of a title
  exactly when one of their grants of the title is active and the title has a publication, after any
  history of refunds, disputes and preserved grants, for every purpose but the review of administrators.
\<close>
theorem full_text_needs_active_grant:
  assumes "access_step\<^sup>*\<^sup>* db0 db" and "access_wf db0" and "access_consistent db0"
    and "purpose \<noteq> Admin_review" and "\<not> isAdministrator (User u roles)"
  shows "full_access (resolvePublicationAccess c (ad_entitlements db) (User u roles) titleId k s purpose) \<longleftrightarrow>
    granted db u titleId \<and>
    (\<exists>t pub. find (\<lambda>t. ti_id t = titleId) (cg_titles c) = Some t \<and> getCurrentPublicationRoot c t = Some pub)"
  using access_run_invariant [OF assms(1-3)]
  by (simp add: full_access_granted [OF assms(4,5)] hasActiveEntitlement_entitled access_consistent_def)

theorem full_text_needs_active_grant_witness:
  "\<exists>db. access_step sample_access db \<and>
     full_access (resolvePublicationAccess sample_shop (ad_entitlements db) (User ''u'' [Customer]) ''t2'' None None For_reader) =
       granted db ''u'' ''t2''"
proof -
  obtain db where db: "access_step sample_access db" using sample_step by blast
  have "\<not> Option.is_none (Option.bind (find (\<lambda>t. ti_id t = ''t2'') (cg_titles sample_shop)) (getCurrentPublicationRoot sample_shop))"
    by code_simp
  then have pub: "\<exists>t pub. find (\<lambda>t. ti_id t = ''t2'') (cg_titles sample_shop) = Some t \<and>
      getCurrentPublicationRoot sample_shop t = Some pub"
    by (auto simp: Option.is_none_def bind_eq_None_conv)
  have "For_reader \<noteq> Admin_review" "\<not> isAdministrator (User ''u'' [Customer])" by simp_all
  from full_text_needs_active_grant [OF r_into_rtranclp [where r = access_step, OF db] sample_access_ok(1,2) this,
      of sample_shop "''t2''" None None]
  show ?thesis using db pub by blast
qed

text \<open>
  Every stored position opens: a position that the server accepted for the published revision is
  shown on some page of the document of an entitled reader, whatever the size of the page and of the
  font.
\<close>
theorem stored_position_opens:
  assumes "rounding rnd" and "content_ok c (pu_revisionId pub)" and "level \<noteq> Preview_level"
    and "readerDocument lc c pub level = Some doc"
    and "validateReaderLocation c titleId (pu_revisionId pub) (ti_format (pu_title pub)) (pu_presentation pub) l = Inr l'"
    and "paginatePublication rnd doc box = Some pages"
  shows "\<exists>i. pageIndexForLocation doc pages l = Some i \<and> i < length pages"
  using position_shown [OF assms(1) stored_position_in [OF assms(2-5)] assms(6)] .

theorem stored_position_opens_witness:
  "\<exists>pub doc pages i. readerDocument compare_text sample_shop pub Entitled_level = Some doc \<and>
     paginatePublication chop doc small_box = Some pages \<and>
     pageIndexForLocation doc pages (Prose_location ''b2'' 140) = Some i"
proof -
  obtain t t' pub where t: "cg_titles sample_shop = [t, t']" "getCurrentPublicationRoot sample_shop t = Some pub"
    "pu_revisionId pub = ''r1''" "pu_title pub = t" "ti_format t = Prose" by (rule sample_shop_titles)
  obtain sections images where doc: "readerDocument compare_text sample_shop pub Entitled_level = Some (Prose_document sections images)"
    using t prose_full [of Entitled_level compare_text sample_shop pub] by (auto simp: readerDocument_def)
  obtain pages where pages: "paginatePublication chop (Prose_document sections images) small_box = Some pages"
    using pagination_total by blast
  have "list_all (\<lambda>t. case getCurrentPublicationRoot sample_shop t of None \<Rightarrow> False | Some pub \<Rightarrow>
      ti_format t = Comic \<or> \<not> isl (validateReaderLocation sample_shop ''t1'' (pu_revisionId pub) (ti_format t)
        (pu_presentation pub) (Prose_location ''b2'' 140) :: unit reader_error + reader_location))
    (cg_titles sample_shop)" by code_simp
  then obtain l' where valid: "(validateReaderLocation sample_shop ''t1'' (pu_revisionId pub) (ti_format (pu_title pub))
        (pu_presentation pub) (Prose_location ''b2'' 140) :: unit reader_error + reader_location) = Inr l'"
    using t by (auto simp: isl_def) (metis sum.exhaust)
  have "content_ok sample_shop (pu_revisionId pub)" using sample_content t(3) by simp
  from stored_position_opens [OF rounding_chop this _ doc valid pages] doc pages show ?thesis by blast
qed

end
