(* ===== verification/ReaderState.thy ===== *)
theory ReaderState
  imports ReaderAccess
begin

text \<open>
  The state of a reader: progress, bookmarks, preferences and the records of migrations between
  revisions, with the operations of \<^verbatim>\<open>reader-state/service.ts\<close> and \<^verbatim>\<open>reader-state/migration.ts\<close>. The
  tables are those of \<^verbatim>\<open>db/schema/library.ts\<close>; generated identifiers and the clock are arguments. A
  transaction returns an error and leaves the tables, or its result and the new tables.
\<close>

section \<open>Rows\<close>

record location_columns =
  lc_format :: publication_format
  lc_blockId :: "string option"
  lc_proseOffset :: "int option"
  lc_pageId :: "string option"
  lc_panelOrdinal :: "int option"

record progress_row =
  rr_id :: string
  rr_userId :: string
  rr_titleId :: string
  rr_revisionId :: string
  rr_location :: location_columns
  rr_version :: int
  rr_createdAt :: int
  rr_updatedAt :: int

record bookmark_row =
  rm_id :: string
  rm_userId :: string
  rm_titleId :: string
  rm_revisionId :: string
  rm_location :: location_columns
  rm_migratedFrom :: "string option"
  rm_createdAt :: int

datatype typeface = Serif | Sans | Georgia

datatype paper = White | Sepia | Dim

record preferences_row =
  rq_userId :: string
  rq_fontSize :: int
  rq_typeface :: typeface
  rq_paper :: paper
  rq_version :: int

record title_preferences_row =
  tq_userId :: string
  tq_titleId :: string
  tq_comicMode :: comic_mode
  tq_version :: int

datatype migration_progress = Migrated_progress | Reset_progress | Absent_progress

record migration_row =
  mg_id :: string
  mg_userId :: string
  mg_titleId :: string
  mg_sourceRevisionId :: string
  mg_targetRevisionId :: string
  mg_progressResult :: migration_progress
  mg_panelPositionSimplified :: bool
  mg_migratedBookmarkCount :: int
  mg_unmatchedBookmarkCount :: int
  mg_completedAt :: int
  mg_noticeAcknowledgedAt :: "int option"

record reader_db =
  rb_progress :: "progress_row list"
  rb_bookmarks :: "bookmark_row list"
  rb_preferences :: "preferences_row list"
  rb_titlePreferences :: "title_preferences_row list"
  rb_migrations :: "migration_row list"

text \<open>The current row a stale write is answered with.\<close>

datatype stale_value =
    Stale_progress progress_row | Stale_preferences preferences_row | Stale_title_preferences title_preferences_row

definition locationColumns :: "reader_location \<Rightarrow> location_columns" where
  "locationColumns location =
     (case location of
        Prose_location blockId offset \<Rightarrow> \<lparr>lc_format = Prose, lc_blockId = Some blockId,
          lc_proseOffset = Some offset, lc_pageId = None, lc_panelOrdinal = None\<rparr>
      | Comic_location pageId panelOrdinal \<Rightarrow> \<lparr>lc_format = Comic, lc_blockId = None,
          lc_proseOffset = None, lc_pageId = Some pageId, lc_panelOrdinal = panelOrdinal\<rparr>)"

definition progressLocation :: "location_columns \<Rightarrow> reader_location" where
  "progressLocation row =
     (if lc_format row = Prose then Prose_location (the (lc_blockId row)) (the (lc_proseOffset row))
      else Comic_location (the (lc_pageId row)) (lc_panelOrdinal row))"

text \<open>The check \<^verbatim>\<open>location_shape\<close> of both tables.\<close>

definition location_shape :: "location_columns \<Rightarrow> bool" where
  "location_shape row \<longleftrightarrow>
     (lc_format row = Prose \<and> lc_blockId row \<noteq> None \<and> lc_proseOffset row \<noteq> None \<and> the (lc_proseOffset row) \<ge> 0 \<and>
        lc_pageId row = None \<and> lc_panelOrdinal row = None) \<or>
     (lc_format row = Comic \<and> lc_blockId row = None \<and> lc_proseOffset row = None \<and> lc_pageId row \<noteq> None \<and>
        (lc_panelOrdinal row = None \<or> the (lc_panelOrdinal row) \<ge> 0))"

lemma progressLocation_columns [simp]: "progressLocation (locationColumns l) = l"
  by (simp add: progressLocation_def locationColumns_def split: reader_location.splits)

section \<open>Rows with a version\<close>

text \<open>
  The write the three versioned tables share. With the expected version 0 a row is inserted unless the
  key has one; otherwise the row of the key with that version is updated. The row written is returned,
  none if the version is another. A row that violates a check of the table, or whose version leaves its
  32-bit column, is an error of the database.
\<close>

definition MAX_INT4 :: int where "MAX_INT4 = 2147483647"

definition version_column :: "int \<Rightarrow> bool" where
  "version_column v \<longleftrightarrow> 0 < v \<and> v \<le> MAX_INT4"

definition versioned_write ::
    "('r \<Rightarrow> bool) \<Rightarrow> ('r \<Rightarrow> int) \<Rightarrow> ('r \<Rightarrow> bool) \<Rightarrow> 'r \<Rightarrow> ('r \<Rightarrow> 'r) \<Rightarrow> int \<Rightarrow> 'r list \<Rightarrow>
      stale_value reader_error + ('r option \<times> 'r list)" where
  "versioned_write has_key version check new change expected rows =
     (let fits = (\<lambda>r. check r \<and> version_column (version r)); hit = (\<lambda>r. has_key r \<and> version r = expected) in
      if expected = 0 then
        (if \<not> fits new then Inl Database_error
         else if list_ex has_key rows then Inr (None, rows) else Inr (Some new, rows @ [new]))
      else if list_ex (\<lambda>r. hit r \<and> \<not> fits (change r)) rows then Inl Database_error
      else Inr (map_option change (find hit rows), map (\<lambda>r. if hit r then change r else r) rows))"

definition progress_key :: "string \<Rightarrow> string \<Rightarrow> string \<Rightarrow> progress_row \<Rightarrow> bool" where
  "progress_key userId titleId revisionId r \<longleftrightarrow>
     rr_userId r = userId \<and> rr_titleId r = titleId \<and> rr_revisionId r = revisionId"

definition currentProgress :: "reader_db \<Rightarrow> string \<Rightarrow> string \<Rightarrow> string \<Rightarrow> progress_row option" where
  "currentProgress db userId titleId revisionId = find (progress_key userId titleId revisionId) (rb_progress db)"

text \<open>The context of a request: the catalog, the persisted users and the entitlements.\<close>

record reader_world =
  rw_catalog :: catalog
  rw_users :: "string list"
  rw_entitlements :: "entitlement_row list"

definition lock_title :: "reader_world \<Rightarrow> actor \<Rightarrow> string \<Rightarrow> stale_value reader_error + locked_reader_title" where
  "lock_title w actor titleId = lockReaderTitle (rw_catalog w) (rw_users w) (rw_entitlements w) actor titleId"

definition validate_locked ::
    "reader_world \<Rightarrow> locked_reader_title \<Rightarrow> reader_location \<Rightarrow> stale_value reader_error + reader_location" where
  "validate_locked w locked location =
     validateReaderLocation (rw_catalog w) (ti_id (lr_title locked)) (lr_revisionId locked)
       (ti_format (lr_title locked)) (lr_presentation locked) location"

definition saveProgress ::
    "reader_world \<Rightarrow> string \<Rightarrow> int \<Rightarrow> actor \<Rightarrow> string \<Rightarrow> reader_location \<Rightarrow> int \<Rightarrow> reader_db \<Rightarrow>
      stale_value reader_error + (progress_row \<times> reader_db)" where
  "saveProgress w newId now actor titleId location expectedVersion db =
     rbind (lock_title w actor titleId) (\<lambda>locked.
     rbind (validate_locked w locked location) (\<lambda>_.
     rbind (versioned_write (progress_key (lr_userId locked) (ti_id (lr_title locked)) (lr_revisionId locked)) rr_version
         (\<lambda>r. location_shape (rr_location r))
         \<lparr>rr_id = newId, rr_userId = lr_userId locked, rr_titleId = ti_id (lr_title locked),
           rr_revisionId = lr_revisionId locked, rr_location = locationColumns location, rr_version = 1,
           rr_createdAt = now, rr_updatedAt = now\<rparr>
         (\<lambda>r. r\<lparr>rr_location := locationColumns location, rr_version := rr_version r + 1, rr_updatedAt := now\<rparr>)
         expectedVersion (rb_progress db)) (\<lambda>(written, rows).
       case written of
         Some r \<Rightarrow> Inr (r, db\<lparr>rb_progress := rows\<rparr>)
       | None \<Rightarrow>
           (case currentProgress db (lr_userId locked) (ti_id (lr_title locked)) (lr_revisionId locked) of
              None \<Rightarrow> Inl Active_revision_changed
            | Some current \<Rightarrow> Inl (Stale_reader_state (Stale_progress current))))))"

section \<open>Bookmarks\<close>

text \<open>The two unique indexes on locations.\<close>

definition same_location :: "location_columns \<Rightarrow> location_columns \<Rightarrow> bool" where
  "same_location x y \<longleftrightarrow> lc_format x = lc_format y \<and>
     (if lc_format x = Prose then lc_blockId x = lc_blockId y \<and> lc_proseOffset x = lc_proseOffset y
      else lc_pageId x = lc_pageId y \<and>
        (case lc_panelOrdinal x of None \<Rightarrow> - 1 | Some n \<Rightarrow> n) = (case lc_panelOrdinal y of None \<Rightarrow> - 1 | Some n \<Rightarrow> n))"

definition bookmark_scope :: "string \<Rightarrow> string \<Rightarrow> string \<Rightarrow> bookmark_row \<Rightarrow> bool" where
  "bookmark_scope userId titleId revisionId b \<longleftrightarrow>
     rm_userId b = userId \<and> rm_titleId b = titleId \<and> rm_revisionId b = revisionId"

definition insert_bookmark ::
    "bookmark_row \<Rightarrow> bookmark_row list \<Rightarrow> stale_value reader_error + (bool \<times> bookmark_row list)" where
  "insert_bookmark b rows =
     (if \<not> location_shape (rm_location b) then Inl Database_error
      else Inr (if list_ex (\<lambda>r. bookmark_scope (rm_userId b) (rm_titleId b) (rm_revisionId b) r \<and>
         same_location (rm_location r) (rm_location b)) rows
      then (False, rows) else (True, rows @ [b])))"

definition bookmarkWhere :: "string \<Rightarrow> string \<Rightarrow> string \<Rightarrow> reader_location \<Rightarrow> bookmark_row \<Rightarrow> bool" where
  "bookmarkWhere userId titleId revisionId location b \<longleftrightarrow> bookmark_scope userId titleId revisionId b \<and>
     (case location of
        Prose_location blockId offset \<Rightarrow> lc_format (rm_location b) = Prose \<and>
          lc_blockId (rm_location b) = Some blockId \<and> lc_proseOffset (rm_location b) = Some offset
      | Comic_location pageId panelOrdinal \<Rightarrow> lc_format (rm_location b) = Comic \<and>
          lc_pageId (rm_location b) = Some pageId \<and> lc_panelOrdinal (rm_location b) = panelOrdinal)"

definition createBookmark ::
    "reader_world \<Rightarrow> string \<Rightarrow> int \<Rightarrow> actor \<Rightarrow> string \<Rightarrow> reader_location \<Rightarrow> reader_db \<Rightarrow>
      stale_value reader_error + (bookmark_row \<times> reader_db)" where
  "createBookmark w newId now actor titleId location db =
     rbind (lock_title w actor titleId) (\<lambda>locked.
     rbind (validate_locked w locked location) (\<lambda>_.
       let new = \<lparr>rm_id = newId, rm_userId = lr_userId locked, rm_titleId = ti_id (lr_title locked),
             rm_revisionId = lr_revisionId locked, rm_location = locationColumns location,
             rm_migratedFrom = None, rm_createdAt = now\<rparr>
       in rbind (insert_bookmark new (rb_bookmarks db)) (\<lambda>(inserted, rows).
          if inserted then Inr (new, db\<lparr>rb_bookmarks := rows\<rparr>)
          else case find (bookmarkWhere (lr_userId locked) (ti_id (lr_title locked)) (lr_revisionId locked) location)
              (rb_bookmarks db) of
            None \<Rightarrow> Inl Reader_state_not_found
          | Some existing \<Rightarrow> Inr (existing, db))))"

text \<open>The reference of a copy to the bookmark it was migrated from restricts deletion.\<close>

definition deleteBookmark ::
    "reader_world \<Rightarrow> actor \<Rightarrow> string \<Rightarrow> string \<Rightarrow> reader_db \<Rightarrow> stale_value reader_error + (unit \<times> reader_db)" where
  "deleteBookmark w actor titleId bookmarkId db =
     rbind (lock_title w actor titleId) (\<lambda>locked.
       let doomed = (\<lambda>b. rm_id b = bookmarkId \<and>
             bookmark_scope (lr_userId locked) (ti_id (lr_title locked)) (lr_revisionId locked) b);
           referenced = (\<lambda>b. list_ex (\<lambda>copy. rm_migratedFrom copy = Some (rm_id b)) (rb_bookmarks db))
       in if list_ex (\<lambda>b. doomed b \<and> referenced b) (rb_bookmarks db) then Inl Database_error
          else Inr ((), db\<lparr>rb_bookmarks := filter (\<lambda>b. \<not> doomed b) (rb_bookmarks db)\<rparr>))"

section \<open>Preferences\<close>

definition lockReaderAccount :: "string list \<Rightarrow> actor \<Rightarrow> stale_value reader_error + string" where
  "lockReaderAccount users actorSnapshot =
     rbind (requireUserActor actorSnapshot) (\<lambda>userId.
     rbind (throw_if (\<not> List.member users userId) Reader_state_not_found) (\<lambda>_. Inr userId))"

definition currentPreferences :: "reader_db \<Rightarrow> string \<Rightarrow> preferences_row option" where
  "currentPreferences db userId = find (\<lambda>r. rq_userId r = userId) (rb_preferences db)"

definition saveReaderPreferences ::
    "string list \<Rightarrow> actor \<Rightarrow> int \<Rightarrow> typeface \<Rightarrow> paper \<Rightarrow> int \<Rightarrow> reader_db \<Rightarrow>
      stale_value reader_error + (preferences_row \<times> reader_db)" where
  "saveReaderPreferences users actor fontSize typeface paper expectedVersion db =
     rbind (lockReaderAccount users actor) (\<lambda>userId.
     rbind (versioned_write (\<lambda>r. rq_userId r = userId) rq_version
         (\<lambda>r. 14 \<le> rq_fontSize r \<and> rq_fontSize r \<le> 24)
         \<lparr>rq_userId = userId, rq_fontSize = fontSize, rq_typeface = typeface, rq_paper = paper, rq_version = 1\<rparr>
         (\<lambda>r. r\<lparr>rq_fontSize := fontSize, rq_typeface := typeface, rq_paper := paper, rq_version := rq_version r + 1\<rparr>)
         expectedVersion (rb_preferences db)) (\<lambda>(written, rows).
       case written of
         Some r \<Rightarrow> Inr (r, db\<lparr>rb_preferences := rows\<rparr>)
       | None \<Rightarrow> (case currentPreferences db userId of
            None \<Rightarrow> Inl Reader_state_not_found
          | Some current \<Rightarrow> Inl (Stale_reader_state (Stale_preferences current)))))"

definition title_preferences_key :: "string \<Rightarrow> string \<Rightarrow> title_preferences_row \<Rightarrow> bool" where
  "title_preferences_key userId titleId r \<longleftrightarrow> tq_userId r = userId \<and> tq_titleId r = titleId"

definition currentTitlePreferences :: "reader_db \<Rightarrow> string \<Rightarrow> string \<Rightarrow> title_preferences_row option" where
  "currentTitlePreferences db userId titleId = find (title_preferences_key userId titleId) (rb_titlePreferences db)"

definition saveReaderTitlePreferences ::
    "reader_world \<Rightarrow> actor \<Rightarrow> string \<Rightarrow> comic_mode \<Rightarrow> int \<Rightarrow> reader_db \<Rightarrow>
      stale_value reader_error + (title_preferences_row \<times> reader_db)" where
  "saveReaderTitlePreferences w actor titleId comicMode expectedVersion db =
     rbind (lock_title w actor titleId) (\<lambda>locked.
     rbind (throw_if (ti_format (lr_title locked) \<noteq> Comic) Reader_state_not_found) (\<lambda>_.
     rbind (versioned_write (title_preferences_key (lr_userId locked) (ti_id (lr_title locked))) tq_version (\<lambda>_. True)
         \<lparr>tq_userId = lr_userId locked, tq_titleId = ti_id (lr_title locked), tq_comicMode = comicMode, tq_version = 1\<rparr>
         (\<lambda>r. r\<lparr>tq_comicMode := comicMode, tq_version := tq_version r + 1\<rparr>)
         expectedVersion (rb_titlePreferences db)) (\<lambda>(written, rows).
       case written of
         Some r \<Rightarrow> Inr (r, db\<lparr>rb_titlePreferences := rows\<rparr>)
       | None \<Rightarrow> (case currentTitlePreferences db (lr_userId locked) (ti_id (lr_title locked)) of
            None \<Rightarrow> Inl Reader_state_not_found
          | Some current \<Rightarrow> Inl (Stale_reader_state (Stale_title_preferences current))))))"

section \<open>Migration between revisions\<close>

definition uniqueFingerprintTarget ::
    "('t \<Rightarrow> string option \<times> int option) \<Rightarrow> string option \<times> int option \<Rightarrow> 't list \<Rightarrow> 't option" where
  "uniqueFingerprintTarget fingerprint source targets =
     (if fst source = None \<or> snd source = None then None
      else case filter (\<lambda>t. fingerprint t = source) targets of [t] \<Rightarrow> Some t | _ \<Rightarrow> None)"

definition panel_geometry :: "panel_row \<Rightarrow> int \<times> rat \<times> rat \<times> rat \<times> rat" where
  "panel_geometry p = (pq_ordinal p, pq_x p, pq_y p, pq_width p, pq_height p)"

fun panelGeometryListsMatch :: "(int \<times> rat \<times> rat \<times> rat \<times> rat) list \<Rightarrow> (int \<times> rat \<times> rat \<times> rat \<times> rat) list \<Rightarrow> bool" where
  "panelGeometryListsMatch [] [] = True"
| "panelGeometryListsMatch (p # ps) (q # qs) = (p = q \<and> panelGeometryListsMatch ps qs)"
| "panelGeometryListsMatch _ _ = False"

text \<open>The \<^verbatim>\<open>Map\<close> from revisions to their latest activity, in the order of insertion.\<close>

definition note_activity :: "string \<times> int \<Rightarrow> (string \<times> int) list \<Rightarrow> (string \<times> int) list" where
  "note_activity e activity =
     AList.update (fst e) (max (case map_of activity (fst e) of None \<Rightarrow> 0 | Some t \<Rightarrow> t) (snd e)) activity"

definition compare_activity :: "(string \<Rightarrow> string \<Rightarrow> int) \<Rightarrow> string \<times> int \<Rightarrow> string \<times> int \<Rightarrow> int" where
  "compare_activity lc left right =
     (if snd right - snd left \<noteq> 0 then snd right - snd left else lc (fst right) (fst left))"

definition stateRevision ::
    "(string \<Rightarrow> string \<Rightarrow> int) \<Rightarrow> progress_row list \<Rightarrow> bookmark_row list \<Rightarrow> string option" where
  "stateRevision lc progressRows bookmarkRows =
     (case js_sort (compare_activity lc)
         (fold note_activity (map (\<lambda>r. (rr_revisionId r, rr_updatedAt r)) progressRows @
            map (\<lambda>b. (rm_revisionId b, rm_createdAt b)) bookmarkRows) []) of
        [] \<Rightarrow> None
      | (revisionId, _) # _ \<Rightarrow> Some revisionId)"

text \<open>
  \<^verbatim>\<open>MigrationManifest\<close>: the beginning of the target revision and where a location of the source goes,
  with whether the panel is given up.
\<close>

type_synonym manifest = "reader_location \<times> (reader_location \<Rightarrow> (reader_location \<times> bool) option)"

definition compare_target :: "prose_section_row \<times> prose_block_row \<Rightarrow> prose_section_row \<times> prose_block_row \<Rightarrow> int" where
  "compare_target x y =
     (if pz_ordinal (fst x) \<noteq> pz_ordinal (fst y) then pz_ordinal (fst x) - pz_ordinal (fst y)
      else if pz_id (fst x) \<noteq> pz_id (fst y) then compare_text (pz_id (fst x)) (pz_id (fst y))
      else if bk_ordinal (snd x) \<noteq> bk_ordinal (snd y) then bk_ordinal (snd x) - bk_ordinal (snd y)
      else compare_text (bk_id (snd x)) (bk_id (snd y)))"

definition block_fingerprint :: "prose_block_row \<Rightarrow> string option \<times> int option" where
  "block_fingerprint b = (bk_fingerprint b, bk_fingerprintVersion b)"

definition page_fingerprint :: "comic_page_row \<Rightarrow> string option \<times> int option" where
  "page_fingerprint p = (cq_fingerprint p, cq_fingerprintVersion p)"

definition prose_mapLocation ::
    "prose_block_row list \<Rightarrow> prose_block_row list \<Rightarrow> reader_location \<Rightarrow> (reader_location \<times> bool) option" where
  "prose_mapLocation source target location =
     (case location of
        Comic_location _ _ \<Rightarrow> None
      | Prose_location blockId offset \<Rightarrow>
          (case index_by bk_id source blockId of
             None \<Rightarrow> None
           | Some sourceBlock \<Rightarrow> map_option (\<lambda>targetBlock. (Prose_location (bk_id targetBlock) offset, False))
               (uniqueFingerprintTarget block_fingerprint (block_fingerprint sourceBlock) target)))"

definition proseManifest :: "catalog \<Rightarrow> locked_reader_title \<Rightarrow> string \<Rightarrow> stale_value reader_error + manifest" where
  "proseManifest c locked sourceRevisionId =
     (let target = map snd (js_sort compare_target (revision_blocks c (lr_revisionId locked))) in
      case target of
        [] \<Rightarrow> Inl Invalid_reader_location
      | first # _ \<Rightarrow> Inr (Prose_location (bk_id first) 0, prose_mapLocation (all_blocks c sourceRevisionId) target))"

definition compare_panel_order :: "panel_row \<Rightarrow> panel_row \<Rightarrow> int" where
  "compare_panel_order x y =
     (if pq_pageId x \<noteq> pq_pageId y then compare_text (pq_pageId x) (pq_pageId y) else pq_ordinal x - pq_ordinal y)"

definition panelRows :: "catalog \<Rightarrow> string \<Rightarrow> string \<Rightarrow> panel_row list" where
  "panelRows c revisionId presentationId = js_sort compare_panel_order
     (filter (\<lambda>p. pq_revisionId p = revisionId \<and> pq_presentationId p = presentationId) (cg_panels c))"

definition geometryFor :: "panel_row list \<Rightarrow> string \<Rightarrow> (int \<times> rat \<times> rat \<times> rat \<times> rat) list" where
  "geometryFor rows pageId = map panel_geometry (filter (\<lambda>p. pq_pageId p = pageId) rows)"

definition comic_mapLocation ::
    "bool \<Rightarrow> panel_row list \<Rightarrow> panel_row list \<Rightarrow> comic_page_row list \<Rightarrow> comic_page_row list \<Rightarrow> reader_location \<Rightarrow>
      (reader_location \<times> bool) option" where
  "comic_mapLocation guided sourcePanels targetPanels source target location =
     (case location of
        Prose_location _ _ \<Rightarrow> None
      | Comic_location pageId panelOrdinal \<Rightarrow>
          Option.bind (index_by cq_id source pageId) (\<lambda>sourcePage.
          map_option (\<lambda>targetPage.
              (case panelOrdinal of
                 None \<Rightarrow> (Comic_location (cq_id targetPage) None, False)
               | Some ordinal \<Rightarrow>
                   (let sourceGeometry = geometryFor sourcePanels (cq_id sourcePage);
                        targetGeometry = geometryFor targetPanels (cq_id targetPage);
                        samePanels = guided \<and> list_ex (\<lambda>g. fst g = ordinal) sourceGeometry \<and>
                          list_ex (\<lambda>g. fst g = ordinal) targetGeometry \<and>
                          panelGeometryListsMatch sourceGeometry targetGeometry
                    in (Comic_location (cq_id targetPage) (if samePanels then Some ordinal else None), \<not> samePanels))))
            (uniqueFingerprintTarget page_fingerprint (page_fingerprint sourcePage) target)))"

definition latest_settings :: "presentation_row \<Rightarrow> presentation_row \<Rightarrow> int" where
  "latest_settings x y =
     (if rp_createdAt y \<noteq> rp_createdAt x then rp_createdAt y - rp_createdAt x else compare_text (rp_id y) (rp_id x))"

definition comicManifest :: "catalog \<Rightarrow> locked_reader_title \<Rightarrow> string \<Rightarrow> stale_value reader_error + manifest" where
  "comicManifest c locked sourceRevisionId =
     (let target = js_sort compare_page (revision_pages c (lr_revisionId locked)) in
      case target of
        [] \<Rightarrow> Inl Invalid_reader_location
      | first # _ \<Rightarrow>
          (let sourcePanels = (case js_sort latest_settings (filter (\<lambda>p. rp_revisionId p = sourceRevisionId \<and>
                   rp_state p = Published_settings) (cg_presentations c)) of
                 [] \<Rightarrow> []
               | sourcePresentation # _ \<Rightarrow> panelRows c sourceRevisionId (rp_id sourcePresentation));
               targetPanels = panelRows c (lr_revisionId locked) (rp_id (lr_presentation locked))
           in Inr (Comic_location (cq_id first) None,
             comic_mapLocation (rp_guidedViewEnabled (lr_presentation locked)) sourcePanels targetPanels
               (revision_pages c sourceRevisionId) target)))"

text \<open>The only error of \<^verbatim>\<open>validateReaderLocation\<close> is caught.\<close>

definition validatedLocation ::
    "reader_world \<Rightarrow> locked_reader_title \<Rightarrow> reader_location \<Rightarrow> stale_value reader_error + reader_location option" where
  "validatedLocation w locked location =
     (case validate_locked w locked location of
        Inr l \<Rightarrow> Inr (Some l)
      | Inl Invalid_reader_location \<Rightarrow> Inr None
      | Inl e \<Rightarrow> Inl e)"

definition insertMigrationRecord ::
    "migration_row \<Rightarrow> migration_row list \<Rightarrow> stale_value reader_error + (migration_row \<times> migration_row list)" where
  "insertMigrationRecord new rows =
     (let same_title = (\<lambda>r. mg_userId r = mg_userId new \<and> mg_titleId r = mg_titleId new);
          same_target = (\<lambda>r. same_title r \<and> mg_targetRevisionId r = mg_targetRevisionId new);
          check = (mg_sourceRevisionId new \<noteq> mg_targetRevisionId new \<and>
            mg_migratedBookmarkCount new \<ge> 0 \<and> mg_unmatchedBookmarkCount new \<ge> 0 \<and>
            (mg_panelPositionSimplified new \<longrightarrow> mg_progressResult new = Migrated_progress))
      in if \<not> check then Inl Database_error
         else if \<not> list_ex same_target rows then Inr (new, rows @ [new])
         else case find same_target rows of
             None \<Rightarrow> Inl Migration_conflict
           | Some existing \<Rightarrow> Inr (existing, rows))"

text \<open>Newest first; the uuids of the rows break ties.\<close>

definition newest_progress :: "progress_row \<Rightarrow> progress_row \<Rightarrow> int" where
  "newest_progress x y =
     (if rr_updatedAt y \<noteq> rr_updatedAt x then rr_updatedAt y - rr_updatedAt x else compare_text (rr_id y) (rr_id x))"

definition newest_bookmark :: "bookmark_row \<Rightarrow> bookmark_row \<Rightarrow> int" where
  "newest_bookmark x y =
     (if rm_createdAt y \<noteq> rm_createdAt x then rm_createdAt y - rm_createdAt x else compare_text (rm_id y) (rm_id x))"

text \<open>Where a stored location goes: to its image if there is one and it is valid.\<close>

definition migrated_location ::
    "reader_world \<Rightarrow> locked_reader_title \<Rightarrow> manifest \<Rightarrow> location_columns \<Rightarrow>
      stale_value reader_error + (reader_location \<times> bool) option" where
  "migrated_location w locked manifest row =
     (case snd manifest (progressLocation row) of
        None \<Rightarrow> Inr None
      | Some (location, simplified) \<Rightarrow>
          rbind (validatedLocation w locked location) (\<lambda>valid. Inr (map_option (\<lambda>l. (l, simplified)) valid)))"

record bookmark_migration =
  bm_rows :: "bookmark_row list"
  bm_migrated :: int
  bm_unmatched :: int
  bm_next :: nat

definition migrate_bookmark ::
    "reader_world \<Rightarrow> (nat \<Rightarrow> string) \<Rightarrow> int \<Rightarrow> locked_reader_title \<Rightarrow> manifest \<Rightarrow> bookmark_row \<Rightarrow>
      bookmark_migration \<Rightarrow> stale_value reader_error + bookmark_migration" where
  "migrate_bookmark w newIds now locked manifest bookmark st =
     rbind (migrated_location w locked manifest (rm_location bookmark)) (\<lambda>mapped.
       case mapped of
         None \<Rightarrow> Inr (st\<lparr>bm_unmatched := bm_unmatched st + 1\<rparr>)
       | Some (location, _) \<Rightarrow>
           rbind (insert_bookmark \<lparr>rm_id = newIds (bm_next st), rm_userId = lr_userId locked,
               rm_titleId = ti_id (lr_title locked), rm_revisionId = lr_revisionId locked,
               rm_location = locationColumns location, rm_migratedFrom = Some (rm_id bookmark),
               rm_createdAt = now\<rparr> (bm_rows st)) (\<lambda>(inserted, rows).
             Inr (if inserted
               then st\<lparr>bm_rows := rows, bm_migrated := bm_migrated st + 1, bm_next := bm_next st + 1\<rparr>
               else st\<lparr>bm_unmatched := bm_unmatched st + 1\<rparr>)))"

text \<open>The progress: moved to its image, or reset to the beginning.\<close>

definition migrate_progress ::
    "reader_world \<Rightarrow> string \<Rightarrow> int \<Rightarrow> locked_reader_title \<Rightarrow> manifest \<Rightarrow> reader_location \<Rightarrow> progress_row option \<Rightarrow>
      progress_row list \<Rightarrow> stale_value reader_error + (migration_progress \<times> bool \<times> progress_row list)" where
  "migrate_progress w newId now locked manifest beginning sourceProgress rows =
     (case sourceProgress of
        None \<Rightarrow> Inr (Absent_progress, False, rows)
      | Some source \<Rightarrow>
          rbind (migrated_location w locked manifest (rr_location source)) (\<lambda>mapped.
            let effective = (case mapped of Some (location, _) \<Rightarrow> location | None \<Rightarrow> beginning);
                new = \<lparr>rr_id = newId, rr_userId = lr_userId locked, rr_titleId = ti_id (lr_title locked),
                  rr_revisionId = lr_revisionId locked, rr_location = locationColumns effective, rr_version = 1,
                  rr_createdAt = now, rr_updatedAt = now\<rparr>
            in if \<not> location_shape (rr_location new) \<or>
                 list_ex (progress_key (rr_userId new) (rr_titleId new) (rr_revisionId new)) rows
               then Inl Database_error
               else Inr (if mapped \<noteq> None then Migrated_progress else Reset_progress,
                 (case mapped of Some (_, simplified) \<Rightarrow> simplified | None \<Rightarrow> False), rows @ [new])))"

record new_ids =
  ni_progress :: string
  ni_bookmark :: "nat \<Rightarrow> string"
  ni_record :: string

definition migration_record ::
    "string \<Rightarrow> int \<Rightarrow> locked_reader_title \<Rightarrow> string \<Rightarrow> migration_progress \<Rightarrow> bool \<Rightarrow> int \<Rightarrow> int \<Rightarrow> migration_row" where
  "migration_record newId now locked sourceRevisionId progressResult simplified migrated unmatched =
     \<lparr>mg_id = newId, mg_userId = lr_userId locked, mg_titleId = ti_id (lr_title locked),
      mg_sourceRevisionId = sourceRevisionId, mg_targetRevisionId = lr_revisionId locked,
      mg_progressResult = progressResult, mg_panelPositionSimplified = simplified,
      mg_migratedBookmarkCount = migrated, mg_unmatchedBookmarkCount = unmatched,
      mg_completedAt = now, mg_noticeAcknowledgedAt = None\<rparr>"

definition migration_target :: "locked_reader_title \<Rightarrow> migration_row \<Rightarrow> bool" where
  "migration_target locked r \<longleftrightarrow> mg_userId r = lr_userId locked \<and>
     mg_titleId r = ti_id (lr_title locked) \<and> mg_targetRevisionId r = lr_revisionId locked"

definition prior_progress :: "locked_reader_title \<Rightarrow> reader_db \<Rightarrow> progress_row list" where
  "prior_progress locked db = js_sort newest_progress (filter (\<lambda>r. rr_userId r = lr_userId locked \<and>
     rr_titleId r = ti_id (lr_title locked) \<and> rr_revisionId r \<noteq> lr_revisionId locked) (rb_progress db))"

definition prior_bookmarks :: "locked_reader_title \<Rightarrow> reader_db \<Rightarrow> bookmark_row list" where
  "prior_bookmarks locked db = js_sort newest_bookmark (filter (\<lambda>b. rm_userId b = lr_userId locked \<and>
     rm_titleId b = ti_id (lr_title locked) \<and> rm_revisionId b \<noteq> lr_revisionId locked) (rb_bookmarks db))"

definition has_target_state :: "locked_reader_title \<Rightarrow> reader_db \<Rightarrow> bool" where
  "has_target_state locked db \<longleftrightarrow>
     list_ex (progress_key (lr_userId locked) (ti_id (lr_title locked)) (lr_revisionId locked)) (rb_progress db) \<or>
     list_ex (bookmark_scope (lr_userId locked) (ti_id (lr_title locked)) (lr_revisionId locked)) (rb_bookmarks db)"

text \<open>The part of \<^verbatim>\<open>migrateLockedReaderState\<close> that moves the state from one revision to the target.\<close>

definition move_state ::
    "(string \<Rightarrow> string \<Rightarrow> int) \<Rightarrow> reader_world \<Rightarrow> new_ids \<Rightarrow> int \<Rightarrow> locked_reader_title \<Rightarrow> string \<Rightarrow> reader_db \<Rightarrow>
      stale_value reader_error + (migration_row \<times> reader_db)" where
  "move_state lc w ids now locked sourceRevisionId db =
     (let sourceProgress = find (\<lambda>r. rr_revisionId r = sourceRevisionId) (prior_progress locked db);
          sourceBookmarks = filter (\<lambda>b. rm_revisionId b = sourceRevisionId) (prior_bookmarks locked db) in
      rbind (if ti_format (lr_title locked) = Prose then proseManifest (rw_catalog w) locked sourceRevisionId
         else comicManifest (rw_catalog w) locked sourceRevisionId) (\<lambda>manifest.
      rbind (validatedLocation w locked (fst manifest)) (\<lambda>valid.
        case valid of
          None \<Rightarrow> Inl Invalid_reader_location
        | Some beginning \<Rightarrow>
            rbind (migrate_progress w (ni_progress ids) now locked manifest beginning sourceProgress (rb_progress db))
              (\<lambda>(progressResult, simplified, progress).
            rbind (rfold (migrate_bookmark w (ni_bookmark ids) now locked manifest) sourceBookmarks
                \<lparr>bm_rows = rb_bookmarks db, bm_migrated = 0, bm_unmatched = 0, bm_next = 0\<rparr>) (\<lambda>st.
            rbind (insertMigrationRecord (migration_record (ni_record ids) now locked sourceRevisionId
                progressResult simplified (bm_migrated st) (bm_unmatched st)) (rb_migrations db)) (\<lambda>(row, migrations).
              Inr (row, db\<lparr>rb_progress := progress, rb_bookmarks := bm_rows st, rb_migrations := migrations\<rparr>)))))))"

definition migrateLockedReaderState ::
    "(string \<Rightarrow> string \<Rightarrow> int) \<Rightarrow> reader_world \<Rightarrow> new_ids \<Rightarrow> int \<Rightarrow> locked_reader_title \<Rightarrow> reader_db \<Rightarrow>
      stale_value reader_error + (migration_row option \<times> reader_db)" where
  "migrateLockedReaderState lc w ids now locked db =
     (case find (migration_target locked) (rb_migrations db) of
        Some existing \<Rightarrow> Inr (Some existing, db)
      | None \<Rightarrow>
          (case stateRevision lc (prior_progress locked db) (prior_bookmarks locked db) of
             None \<Rightarrow> Inr (None, db)
           | Some sourceRevisionId \<Rightarrow>
               if has_target_state locked db then
                 rbind (insertMigrationRecord (migration_record (ni_record ids) now locked sourceRevisionId
                     Absent_progress False 0
                     (int (length (filter (\<lambda>b. rm_revisionId b = sourceRevisionId) (prior_bookmarks locked db)))))
                   (rb_migrations db)) (\<lambda>(row, migrations). Inr (Some row, db\<lparr>rb_migrations := migrations\<rparr>))
               else rbind (move_state lc w ids now locked sourceRevisionId db) (\<lambda>(row, db'). Inr (Some row, db'))))"

section \<open>The state a reader starts with\<close>

record initial_state =
  in_progress :: "progress_row option"
  in_bookmarks :: "bookmark_row list"
  in_preferences :: "int \<times> typeface \<times> paper \<times> int"
  in_titlePreferences :: "title_preferences_row option"
  in_migrationNotice :: "migration_row option"

definition oldest_bookmark :: "bookmark_row \<Rightarrow> bookmark_row \<Rightarrow> int" where
  "oldest_bookmark x y = newest_bookmark y x"

definition latest_migration :: "migration_row \<Rightarrow> migration_row \<Rightarrow> int" where
  "latest_migration x y = mg_completedAt y - mg_completedAt x"

definition getLockedReaderInitialState ::
    "(string \<Rightarrow> string \<Rightarrow> int) \<Rightarrow> reader_world \<Rightarrow> new_ids \<Rightarrow> int \<Rightarrow> locked_reader_title \<Rightarrow> reader_db \<Rightarrow>
      stale_value reader_error + (initial_state \<times> reader_db)" where
  "getLockedReaderInitialState lc w ids now locked db =
     rbind (migrateLockedReaderState lc w ids now locked db) (\<lambda>(_, db').
       Inr (\<lparr>in_progress = currentProgress db' (lr_userId locked) (ti_id (lr_title locked)) (lr_revisionId locked),
          in_bookmarks = js_sort oldest_bookmark (filter
            (bookmark_scope (lr_userId locked) (ti_id (lr_title locked)) (lr_revisionId locked)) (rb_bookmarks db')),
          in_preferences = (case currentPreferences db' (lr_userId locked) of
              Some r \<Rightarrow> (rq_fontSize r, rq_typeface r, rq_paper r, rq_version r)
            | None \<Rightarrow> (18, Serif, White, 0)),
          in_titlePreferences = currentTitlePreferences db' (lr_userId locked) (ti_id (lr_title locked)),
          in_migrationNotice = (case js_sort latest_migration (filter
              (\<lambda>r. migration_target locked r \<and> mg_noticeAcknowledgedAt r = None) (rb_migrations db')) of
              [] \<Rightarrow> None
            | r # _ \<Rightarrow> Some r)\<rparr>, db'))"

definition getReaderInitialState ::
    "(string \<Rightarrow> string \<Rightarrow> int) \<Rightarrow> reader_world \<Rightarrow> new_ids \<Rightarrow> int \<Rightarrow> actor \<Rightarrow> string \<Rightarrow> reader_db \<Rightarrow>
      stale_value reader_error + (initial_state \<times> reader_db)" where
  "getReaderInitialState lc w ids now actor titleId db =
     rbind (lock_title w actor titleId) (\<lambda>locked. getLockedReaderInitialState lc w ids now locked db)"

definition acknowledgeMigrationNotice ::
    "reader_world \<Rightarrow> int \<Rightarrow> actor \<Rightarrow> string \<Rightarrow> string \<Rightarrow> reader_db \<Rightarrow> stale_value reader_error + (migration_row \<times> reader_db)" where
  "acknowledgeMigrationNotice w now actor titleId targetRevisionId db =
     rbind (lock_title w actor titleId) (\<lambda>locked.
     rbind (throw_if (targetRevisionId \<noteq> lr_revisionId locked) Reader_state_not_found) (\<lambda>_.
       let open = (\<lambda>r. migration_target locked r \<and> mg_noticeAcknowledgedAt r = None);
           acknowledge = (\<lambda>r. r\<lparr>mg_noticeAcknowledgedAt := Some now\<rparr>)
       in if list_ex (\<lambda>r. open r \<and> now < mg_completedAt r) (rb_migrations db) then Inl Database_error
          else case find open (rb_migrations db) of
            Some r \<Rightarrow> Inr (acknowledge r, db\<lparr>rb_migrations :=
              map (\<lambda>r. if open r then acknowledge r else r) (rb_migrations db)\<rparr>)
          | None \<Rightarrow> (case find (migration_target locked) (rb_migrations db) of
              None \<Rightarrow> Inl Reader_state_not_found
            | Some existing \<Rightarrow> Inr (existing, db))))"

end
