(* ===== verification/ReaderRuns.thy ===== *)
theory ReaderRuns
  imports ReaderState
begin

text \<open>
  The state of readers over time: the tables stay well formed, a versioned row is never overwritten
  unseen, and a migration between revisions happens once and accounts for every bookmark.
\<close>

section \<open>Versioned tables\<close>

text \<open>The row a key has later: the same as long as the version is, which never falls.\<close>

definition row_kept :: "('r \<Rightarrow> 'k) \<Rightarrow> ('r \<Rightarrow> int) \<Rightarrow> 'r \<Rightarrow> 'r \<Rightarrow> bool" where
  "row_kept key version r r' \<longleftrightarrow> key r' = key r \<and> version r \<le> version r' \<and> (version r' = version r \<longrightarrow> r' = r)"

definition rows_kept :: "('r \<Rightarrow> 'k) \<Rightarrow> ('r \<Rightarrow> int) \<Rightarrow> 'r list \<Rightarrow> 'r list \<Rightarrow> bool" where
  "rows_kept key version rows rows' \<longleftrightarrow> (\<forall>r \<in> set rows. \<exists>r' \<in> set rows'. row_kept key version r r')"

definition table_ok :: "('r \<Rightarrow> 'k) \<Rightarrow> ('r \<Rightarrow> int) \<Rightarrow> ('r \<Rightarrow> bool) \<Rightarrow> 'r list \<Rightarrow> bool" where
  "table_ok key version check rows \<longleftrightarrow> distinct (map key rows) \<and>
     (\<forall>r \<in> set rows. check r \<and> version_column (version r))"

lemma rows_kept_refl [simp]: "rows_kept key version rows rows"
  by (auto simp: rows_kept_def row_kept_def)

lemma row_kept_trans: "row_kept key version r s \<Longrightarrow> row_kept key version s t \<Longrightarrow> row_kept key version r t"
  by (auto simp: row_kept_def)

lemma rows_kept_trans: "rows_kept key version xs ys \<Longrightarrow> rows_kept key version ys zs \<Longrightarrow> rows_kept key version xs zs"
  unfolding rows_kept_def by (meson row_kept_trans)

lemma rows_kept_append [simp]: "rows_kept key version rows (rows @ new)"
  by (auto simp: rows_kept_def row_kept_def)

lemma rows_kept_map: "(\<And>r. row_kept key version r (f r)) \<Longrightarrow> rows_kept key version rows (map f rows)"
  unfolding rows_kept_def by (auto intro: bexI)

lemma table_ok_append:
  "table_ok key version check (rows @ [r]) \<longleftrightarrow> table_ok key version check rows \<and>
     key r \<notin> key ` set rows \<and> check r \<and> version_column (version r)"
  by (auto simp: table_ok_def)

text \<open>What a table of the schema promises to the operation that writes it.\<close>

locale versioned_table =
  fixes key :: "'r \<Rightarrow> 'k" and version :: "'r \<Rightarrow> int" and check :: "'r \<Rightarrow> bool"
    and change :: "'i \<Rightarrow> 'r \<Rightarrow> 'r"
  assumes change_key: "key (change i r) = key r"
    and change_version: "version (change i r) = version r + 1"
begin

lemma write_inserted:
  assumes "versioned_write (\<lambda>r. key r = k) version check new (change i) 0 rows = Inr (res, rows')"
    and "key new = k" and "table_ok key version check rows"
  shows "table_ok key version check rows' \<and> rows_kept key version rows rows'"
proof -
  have "rows' = rows \<or> rows' = rows @ [new] \<and> key new \<notin> key ` set rows \<and> check new \<and> version_column (version new)"
    using assms(1,2) by (fastforce simp: versioned_write_def Let_def list_ex_iff split: if_splits)
  then show ?thesis using assms(3) by (auto simp: table_ok_append)
qed

lemma write_updated:
  assumes run: "versioned_write (\<lambda>r. key r = k) version check new (change i) expected rows = Inr (res, rows')"
    and "expected \<noteq> 0" and ok: "table_ok key version check rows"
  shows "table_ok key version check rows' \<and> rows_kept key version rows rows'"
proof -
  let ?hit = "\<lambda>r. key r = k \<and> version r = expected"
  have rows': "rows' = map (\<lambda>r. if ?hit r then change i r else r) rows"
    and fits: "\<And>r. r \<in> set rows \<Longrightarrow> ?hit r \<Longrightarrow> check (change i r) \<and> version_column (version (change i r))"
    using run assms(2) by (auto simp: versioned_write_def Let_def list_ex_iff split: if_splits)
  have "map key rows' = map key rows" using change_key unfolding rows' by simp
  moreover have "\<forall>r \<in> set rows'. check r \<and> version_column (version r)"
    using ok fits by (auto simp: table_ok_def rows')
  ultimately have "table_ok key version check rows'" using ok by (simp add: table_ok_def)
  moreover have "row_kept key version r (if ?hit r then change i r else r)" for r
    by (simp add: row_kept_def change_key change_version)
  then have "rows_kept key version rows rows'" unfolding rows' by (rule rows_kept_map)
  ultimately show ?thesis ..
qed

lemma write_ok:
  assumes "versioned_write (\<lambda>r. key r = k) version check new (change i) expected rows = Inr (res, rows')"
    and "key new = k" and "table_ok key version check rows"
  shows "table_ok key version check rows' \<and> rows_kept key version rows rows'"
  using assms write_inserted [of k new i rows res rows'] write_updated [of k new i expected rows res rows']
  by (cases "expected = 0") simp_all

text \<open>A row is written only over the version the writer names.\<close>

lemma write_seen:
  assumes run: "versioned_write (\<lambda>r. key r = k) version check new (change i) (version seen) rows = Inr (Some r, rows')"
    and seen: "key seen = k" "version_column (version seen)" and kept: "rows_kept key version [seen] rows"
    and ok: "table_ok key version check rows"
  shows "seen \<in> set rows \<and> r = change i seen"
proof -
  have "version seen \<noteq> 0" using seen(2) by (simp add: version_column_def)
  then obtain old where old: "find (\<lambda>r. key r = k \<and> version r = version seen) rows = Some old" "r = change i old"
    using run by (auto simp: versioned_write_def Let_def split: if_splits)
  obtain later where later: "later \<in> set rows" "row_kept key version seen later"
    using kept by (auto simp: rows_kept_def)
  have "old \<in> set rows" "key old = k" "version old = version seen" using find_row_member [OF old(1)] by blast+
  moreover have "old = later"
    using ok same_id [of key rows old later] calculation later seen(1) by (simp add: table_ok_def row_kept_def)
  ultimately have "old = seen" using later(2) by (simp add: row_kept_def)
  then show ?thesis using old(2) \<open>old \<in> set rows\<close> by simp
qed

end

definition rr_key :: "progress_row \<Rightarrow> string \<times> string \<times> string" where
  "rr_key r = (rr_userId r, rr_titleId r, rr_revisionId r)"

definition tq_key :: "title_preferences_row \<Rightarrow> string \<times> string" where
  "tq_key r = (tq_userId r, tq_titleId r)"

lemma progress_key_eq: "progress_key u t k = (\<lambda>r. rr_key r = (u, t, k))"
  by (auto simp: progress_key_def rr_key_def)

lemma title_preferences_key_eq: "title_preferences_key u t = (\<lambda>r. tq_key r = (u, t))"
  by (auto simp: title_preferences_key_def tq_key_def)

interpretation progress_table: versioned_table rr_key rr_version "\<lambda>r. location_shape (rr_location r)"
  "\<lambda>(l, now) r. r\<lparr>rr_location := locationColumns l, rr_version := rr_version r + 1, rr_updatedAt := now\<rparr>"
  by unfold_locales (auto simp: rr_key_def split: prod.splits)

interpretation preferences_table: versioned_table rq_userId rq_version "\<lambda>r. 14 \<le> rq_fontSize r \<and> rq_fontSize r \<le> 24"
  "\<lambda>(s, f, p) r. r\<lparr>rq_fontSize := s, rq_typeface := f, rq_paper := p, rq_version := rq_version r + 1\<rparr>"
  by unfold_locales (auto split: prod.splits)

interpretation title_preferences_table: versioned_table tq_key tq_version "\<lambda>_. True"
  "\<lambda>m r. r\<lparr>tq_comicMode := m, tq_version := tq_version r + 1\<rparr>"
  by unfold_locales (auto simp: tq_key_def)

abbreviation "progress_ok \<equiv> table_ok rr_key rr_version (\<lambda>r. location_shape (rr_location r))"
abbreviation "preferences_ok \<equiv> table_ok rq_userId rq_version (\<lambda>r. 14 \<le> rq_fontSize r \<and> rq_fontSize r \<le> 24)"
abbreviation "title_preferences_ok \<equiv> table_ok tq_key tq_version (\<lambda>_. True)"
abbreviation "progress_kept \<equiv> rows_kept rr_key rr_version"
abbreviation "preferences_kept \<equiv> rows_kept rq_userId rq_version"
abbreviation "title_preferences_kept \<equiv> rows_kept tq_key tq_version"

section \<open>Bookmarks and migrations\<close>

definition same_place :: "bookmark_row \<Rightarrow> bookmark_row \<Rightarrow> bool" where
  "same_place x y \<longleftrightarrow> bookmark_scope (rm_userId x) (rm_titleId x) (rm_revisionId x) y \<and>
     same_location (rm_location x) (rm_location y)"

definition bookmarks_ok :: "bookmark_row list \<Rightarrow> bool" where
  "bookmarks_ok rows \<longleftrightarrow> distinct (map rm_id rows) \<and> sorted_wrt (\<lambda>x y. \<not> same_place x y) rows \<and>
     (\<forall>b \<in> set rows. location_shape (rm_location b) \<and>
        (\<forall>k. rm_migratedFrom b = Some k \<longrightarrow> k \<in> rm_id ` set rows))"

definition mg_key :: "migration_row \<Rightarrow> string \<times> string \<times> string" where
  "mg_key r = (mg_userId r, mg_titleId r, mg_targetRevisionId r)"

definition migration_ok :: "migration_row \<Rightarrow> bool" where
  "migration_ok r \<longleftrightarrow> mg_sourceRevisionId r \<noteq> mg_targetRevisionId r \<and>
     mg_migratedBookmarkCount r \<ge> 0 \<and> mg_unmatchedBookmarkCount r \<ge> 0 \<and>
     (mg_panelPositionSimplified r \<longrightarrow> mg_progressResult r = Migrated_progress) \<and>
     (case mg_noticeAcknowledgedAt r of None \<Rightarrow> True | Some t \<Rightarrow> t \<ge> mg_completedAt r)"

definition migrations_ok :: "migration_row list \<Rightarrow> bool" where
  "migrations_ok rows \<longleftrightarrow> distinct (map mg_key rows) \<and> (\<forall>r \<in> set rows. migration_ok r)"

definition reader_ok :: "reader_db \<Rightarrow> bool" where
  "reader_ok db \<longleftrightarrow> progress_ok (rb_progress db) \<and> preferences_ok (rb_preferences db) \<and>
     title_preferences_ok (rb_titlePreferences db) \<and> bookmarks_ok (rb_bookmarks db) \<and> migrations_ok (rb_migrations db)"

text \<open>What every step keeps of the three versioned tables.\<close>

definition reader_kept :: "reader_db \<Rightarrow> reader_db \<Rightarrow> bool" where
  "reader_kept db db' \<longleftrightarrow> progress_kept (rb_progress db) (rb_progress db') \<and>
     preferences_kept (rb_preferences db) (rb_preferences db') \<and>
     title_preferences_kept (rb_titlePreferences db) (rb_titlePreferences db')"

lemma reader_kept_refl [simp]: "reader_kept db db"
  by (simp add: reader_kept_def)

lemma reader_kept_trans: "reader_kept a b \<Longrightarrow> reader_kept b c \<Longrightarrow> reader_kept a c"
  unfolding reader_kept_def by (meson rows_kept_trans)

lemma same_location_sym: "same_location x y \<longleftrightarrow> same_location y x"
  by (auto simp: same_location_def split: if_splits)

lemma same_place_sym: "same_place x y \<longleftrightarrow> same_place y x"
  using same_location_sym [of "rm_location x" "rm_location y"] by (auto simp: same_place_def bookmark_scope_def)

lemma insert_bookmark_ok:
  assumes run: "insert_bookmark b rows = Inr (inserted, rows')" and ok: "bookmarks_ok rows"
    and fresh: "rm_id b \<notin> rm_id ` set rows"
    and source: "\<And>k. rm_migratedFrom b = Some k \<Longrightarrow> k \<in> rm_id ` set rows"
  shows "bookmarks_ok rows' \<and> rows' = (if inserted then rows @ [b] else rows)"
proof (cases inserted)
  case False
  then show ?thesis using run ok by (auto simp: insert_bookmark_def split: if_splits)
next
  case True
  then have rows': "rows' = rows @ [b]" and shape: "location_shape (rm_location b)"
    and free: "\<And>r. r \<in> set rows \<Longrightarrow> \<not> same_place r b"
    using run same_place_sym
    by (auto simp: insert_bookmark_def list_ex_iff same_place_def bookmark_scope_def split: if_splits)
  have "\<And>r k. r \<in> set rows \<Longrightarrow> rm_migratedFrom r = Some k \<Longrightarrow> k \<in> rm_id ` set rows"
    using ok unfolding bookmarks_ok_def by blast
  then show ?thesis using ok shape free fresh source True
    by (auto simp: bookmarks_ok_def rows' sorted_wrt_append)
qed

text \<open>A copy of a bookmark in the target revision, at the image of its place.\<close>

definition copy_of ::
    "reader_world \<Rightarrow> locked_reader_title \<Rightarrow> manifest \<Rightarrow> bookmark_row \<Rightarrow> bookmark_row \<Rightarrow> bool" where
  "copy_of w locked manifest source b \<longleftrightarrow> rm_migratedFrom b = Some (rm_id source) \<and>
     bookmark_scope (lr_userId locked) (ti_id (lr_title locked)) (lr_revisionId locked) b \<and>
     (\<exists>l s. snd manifest (progressLocation (rm_location source)) = Some (l, s) \<and>
        rm_location b = locationColumns l \<and>
        validate_locked w locked l = Inr l)"

lemma validateReaderLocation_Inr:
  "validateReaderLocation c t k f p l = Inr l' \<Longrightarrow>
     l' = l \<and> validateReaderLocation c t k f p l = Inr l"
  by (cases l) (auto simp: validateReaderLocation_def Let_def split: publication_format.splits option.splits if_splits)

lemma validatedLocation_Some:
  assumes "validatedLocation w locked l = Inr (Some l')"
  shows "l' = l \<and> validate_locked w locked l = Inr l"
proof -
  have "validate_locked w locked l = Inr l'"
    using assms unfolding validatedLocation_def by (auto split: sum.splits reader_error.splits)
  then show ?thesis using validateReaderLocation_Inr unfolding validate_locked_def by metis
qed

lemma migrated_location_Some:
  assumes "migrated_location w locked manifest row = Inr (Some (l, s))"
  shows "snd manifest (progressLocation row) = Some (l, s) \<and>
    validate_locked w locked l = Inr l"
  using assms validatedLocation_Some unfolding migrated_location_def
  by (auto simp: rbind_eq_Inr split: option.splits prod.splits)

definition fresh_bookmarks :: "(nat \<Rightarrow> string) \<Rightarrow> nat \<Rightarrow> bookmark_row list \<Rightarrow> bool" where
  "fresh_bookmarks newIds n rows \<longleftrightarrow> inj newIds \<and> (\<forall>m \<ge> n. newIds m \<notin> rm_id ` set rows)"

text \<open>Why a bookmark is not copied: it has no valid image, or its place is taken.\<close>

definition left_out ::
    "reader_world \<Rightarrow> locked_reader_title \<Rightarrow> manifest \<Rightarrow> bookmark_row \<Rightarrow> bookmark_row list \<Rightarrow> bool" where
  "left_out w locked manifest source rows \<longleftrightarrow>
     migrated_location w locked manifest (rm_location source) = Inr None \<or>
     (\<exists>l s. migrated_location w locked manifest (rm_location source) = Inr (Some (l, s)) \<and>
        (\<exists>b \<in> set rows. bookmark_scope (lr_userId locked) (ti_id (lr_title locked)) (lr_revisionId locked) b \<and>
           same_location (rm_location b) (locationColumns l)))"

text \<open>Where the loop over the bookmarks is, after some of them.\<close>

definition migrated_so_far ::
    "reader_world \<Rightarrow> (nat \<Rightarrow> string) \<Rightarrow> locked_reader_title \<Rightarrow> manifest \<Rightarrow> bookmark_row list \<Rightarrow>
      bookmark_row list \<Rightarrow> bookmark_migration \<Rightarrow> bool" where
  "migrated_so_far w newIds locked manifest rows sources st \<longleftrightarrow>
     bookmarks_ok (bm_rows st) \<and> fresh_bookmarks newIds (bm_next st) (bm_rows st) \<and>
     (\<exists>copies. bm_rows st = rows @ copies \<and> bm_migrated st = int (length copies) \<and>
        bm_migrated st + bm_unmatched st = int (length sources) \<and> 0 \<le> bm_unmatched st \<and>
        (\<forall>b \<in> set copies. \<exists>source \<in> set sources. copy_of w locked manifest source b) \<and>
        distinct (map rm_migratedFrom copies) \<and>
        (\<forall>source \<in> set sources. (\<exists>b \<in> set copies. rm_migratedFrom b = Some (rm_id source)) \<or>
           left_out w locked manifest source (bm_rows st)))"

lemma left_out_mono: "left_out w locked manifest source rows \<Longrightarrow> set rows \<subseteq> set rows' \<Longrightarrow> left_out w locked manifest source rows'"
  unfolding left_out_def by blast

lemma migrate_bookmark_step:
  assumes run: "migrate_bookmark w newIds now locked manifest source st = Inr st'"
    and before: "migrated_so_far w newIds locked manifest rows sources st" and source: "source \<in> set rows"
    and another: "rm_id source \<notin> rm_id ` set sources"
  shows "migrated_so_far w newIds locked manifest rows (sources @ [source]) st'"
proof -
  obtain copies where copies: "bm_rows st = rows @ copies" "bm_migrated st = int (length copies)"
    "bm_migrated st + bm_unmatched st = int (length sources)" "0 \<le> bm_unmatched st"
    "\<forall>b \<in> set copies. \<exists>source \<in> set sources. copy_of w locked manifest source b"
    "distinct (map rm_migratedFrom copies)"
    "\<forall>source \<in> set sources. (\<exists>b \<in> set copies. rm_migratedFrom b = Some (rm_id source)) \<or>
       left_out w locked manifest source (bm_rows st)"
    and ok: "bookmarks_ok (bm_rows st)" and fresh: "fresh_bookmarks newIds (bm_next st) (bm_rows st)"
    using before unfolding migrated_so_far_def by blast
  have skip: "migrated_so_far w newIds locked manifest rows (sources @ [source]) (st\<lparr>bm_unmatched := bm_unmatched st + 1\<rparr>)"
    if "left_out w locked manifest source (bm_rows st)"
    using that copies ok fresh unfolding migrated_so_far_def by (intro conjI exI [of _ copies]) auto
  obtain mapped where mapped: "migrated_location w locked manifest (rm_location source) = Inr mapped"
    using run by (auto simp: migrate_bookmark_def rbind_eq_Inr)
  show ?thesis
  proof (cases mapped)
    case None
    then show ?thesis using run mapped skip by (simp add: migrate_bookmark_def left_out_def)
  next
    case (Some p)
    obtain l s where p: "p = (l, s)" by fastforce
    let ?b = "\<lparr>rm_id = newIds (bm_next st), rm_userId = lr_userId locked, rm_titleId = ti_id (lr_title locked),
        rm_revisionId = lr_revisionId locked, rm_location = locationColumns l,
        rm_migratedFrom = Some (rm_id source), rm_createdAt = now\<rparr>"
    obtain inserted rows' where ins: "insert_bookmark ?b (bm_rows st) = Inr (inserted, rows')"
      and st': "st' = (if inserted
          then st\<lparr>bm_rows := rows', bm_migrated := bm_migrated st + 1, bm_next := bm_next st + 1\<rparr>
          else st\<lparr>bm_unmatched := bm_unmatched st + 1\<rparr>)"
      using run mapped Some p by (auto simp: migrate_bookmark_def rbind_eq_Inr)
    have rows': "bookmarks_ok rows' \<and> rows' = (if inserted then bm_rows st @ [?b] else bm_rows st)"
      by (rule insert_bookmark_ok [OF ins ok])
        (use fresh source copies(1) in \<open>auto simp: fresh_bookmarks_def\<close>)
    show ?thesis
    proof (cases inserted)
      case False
      then have "left_out w locked manifest source (bm_rows st)"
        using ins mapped Some p by (auto simp: left_out_def insert_bookmark_def list_ex_iff split: if_splits)
      then show ?thesis using False st' skip by simp
    next
      case True
      have new: "Some (rm_id source) \<notin> rm_migratedFrom ` set copies"
        using copies(5) another by (auto simp: copy_of_def)
      have rest: "left_out w locked manifest x (bm_rows st @ [?b])" if "left_out w locked manifest x (bm_rows st)" for x
        using that by (rule left_out_mono) auto
      have copy: "copy_of w locked manifest source ?b"
        using migrated_location_Some [OF mapped [unfolded Some p]]
        by (simp add: copy_of_def bookmark_scope_def)
      have "fresh_bookmarks newIds (bm_next st + 1) (bm_rows st @ [?b])"
        using fresh by (auto simp: fresh_bookmarks_def inj_eq)
      then show ?thesis using True st' rows' copies copy new rest unfolding migrated_so_far_def
        by (intro conjI exI [of _ "copies @ [?b]"]) auto
    qed
  qed
qed

lemma migrate_bookmarks_run:
  assumes "rfold (migrate_bookmark w newIds now locked manifest) todo st = Inr st'"
    and "migrated_so_far w newIds locked manifest rows sources st" and "set todo \<subseteq> set rows"
    and "distinct (map rm_id (sources @ todo))"
  shows "migrated_so_far w newIds locked manifest rows (sources @ todo) st'"
  using assms
proof (induction todo arbitrary: st sources)
  case (Cons b todo)
  then obtain st1 where "migrate_bookmark w newIds now locked manifest b st = Inr st1"
    "rfold (migrate_bookmark w newIds now locked manifest) todo st1 = Inr st'" by (auto simp: rbind_eq_Inr)
  with Cons.IH [OF this(2), of "sources @ [b]"] migrate_bookmark_step [OF this(1) Cons.prems(2)] Cons.prems(3,4)
  show ?case by simp
qed simp

section \<open>The migration\<close>

definition source_bookmarks :: "locked_reader_title \<Rightarrow> string \<Rightarrow> reader_db \<Rightarrow> bookmark_row list" where
  "source_bookmarks locked k db = filter (\<lambda>b. rm_revisionId b = k) (prior_bookmarks locked db)"

lemma source_bookmarks_member: "b \<in> set (source_bookmarks locked k db) \<Longrightarrow> b \<in> set (rb_bookmarks db)"
  by (auto simp: source_bookmarks_def prior_bookmarks_def)

lemma source_bookmarks_distinct:
  "distinct (map rm_id (rb_bookmarks db)) \<Longrightarrow> distinct (map rm_id (source_bookmarks locked k db))"
  by (simp add: source_bookmarks_def prior_bookmarks_def distinct_map_filter)

lemma insertMigrationRecord_ok:
  assumes run: "insertMigrationRecord new rows = Inr (row, rows')" and ok: "migrations_ok rows"
    and new: "mg_noticeAcknowledgedAt new = None"
  shows "migrations_ok rows' \<and>
    (if mg_key new \<in> mg_key ` set rows then rows' = rows else row = new \<and> rows' = rows @ [new])"
proof -
  have same: "(\<lambda>r. (mg_userId r = mg_userId new \<and> mg_titleId r = mg_titleId new) \<and>
      mg_targetRevisionId r = mg_targetRevisionId new) = (\<lambda>r. mg_key r = mg_key new)"
    by (auto simp: mg_key_def)
  have check: "migration_ok new" using run new
    by (auto simp: insertMigrationRecord_def Let_def migration_ok_def split: if_splits)
  show ?thesis
  proof (cases "mg_key new \<in> mg_key ` set rows")
    case True
    then have "list_ex (\<lambda>r. mg_key r = mg_key new) rows" by (auto simp: list_ex_iff)
    then show ?thesis using run ok True unfolding insertMigrationRecord_def Let_def same
      by (auto split: if_splits option.splits)
  next
    case False
    then have "\<not> list_ex (\<lambda>r. mg_key r = mg_key new) rows" unfolding list_ex_iff by (metis imageI)
    then have "rows' = rows @ [new]" "row = new" using run unfolding insertMigrationRecord_def Let_def same
      by (auto split: if_splits)
    then show ?thesis using ok check False by (auto simp: migrations_ok_def)
  qed
qed

text \<open>What a migration does to the progress table.\<close>

definition started_progress ::
    "reader_world \<Rightarrow> string \<Rightarrow> int \<Rightarrow> locked_reader_title \<Rightarrow> reader_location \<Rightarrow> progress_row" where
  "started_progress w newId now locked l = \<lparr>rr_id = newId, rr_userId = lr_userId locked,
     rr_titleId = ti_id (lr_title locked), rr_revisionId = lr_revisionId locked,
     rr_location = locationColumns l, rr_version = 1, rr_createdAt = now, rr_updatedAt = now\<rparr>"

definition progress_moved ::
    "reader_world \<Rightarrow> string \<Rightarrow> int \<Rightarrow> locked_reader_title \<Rightarrow> manifest \<Rightarrow> reader_location \<Rightarrow> progress_row option \<Rightarrow>
      progress_row list \<Rightarrow> migration_progress \<Rightarrow> progress_row list \<Rightarrow> bool" where
  "progress_moved w newId now locked manifest beginning source rows result rows' \<longleftrightarrow>
     (case source of
        None \<Rightarrow> result = Absent_progress \<and> rows' = rows
      | Some r \<Rightarrow> (\<exists>l s. result = Migrated_progress \<and> snd manifest (progressLocation (rr_location r)) = Some (l, s) \<and>
            validate_locked w locked l = Inr l \<and> rows' = rows @ [started_progress w newId now locked l]) \<or>
          result = Reset_progress \<and> migrated_location w locked manifest (rr_location r) = Inr None \<and>
            rows' = rows @ [started_progress w newId now locked beginning])"

lemma migrate_progress_moved:
  assumes run: "migrate_progress w newId now locked manifest beginning source rows = Inr (result, simplified, rows')"
    and ok: "progress_ok rows"
  shows "progress_moved w newId now locked manifest beginning source rows result rows' \<and>
    progress_ok rows' \<and> progress_kept rows rows' \<and> (simplified \<longrightarrow> result = Migrated_progress)"
proof (cases source)
  case None
  then show ?thesis using run ok by (simp add: migrate_progress_def progress_moved_def)
next
  case (Some r)
  obtain mapped where mapped: "migrated_location w locked manifest (rr_location r) = Inr mapped"
    using run Some by (auto simp: migrate_progress_def rbind_eq_Inr)
  let ?l = "case mapped of Some (location, _) \<Rightarrow> location | None \<Rightarrow> beginning"
  let ?new = "started_progress w newId now locked ?l"
  have fits: "location_shape (rr_location ?new)"
      "\<not> list_ex (progress_key (lr_userId locked) (ti_id (lr_title locked)) (lr_revisionId locked)) rows"
    and rows': "rows' = rows @ [?new]"
    and result: "result = (if mapped \<noteq> None then Migrated_progress else Reset_progress)"
    and simp: "simplified = (case mapped of Some (_, s) \<Rightarrow> s | None \<Rightarrow> False)"
    using run Some mapped by (auto simp: migrate_progress_def Let_def started_progress_def split: if_splits)
  have "rr_key ?new \<notin> rr_key ` set rows"
    using fits(2) by (auto simp: list_ex_iff progress_key_def rr_key_def started_progress_def)
  then have "progress_ok rows'"
    using ok fits(1) by (simp add: rows' table_ok_append started_progress_def version_column_def MAX_INT4_def)
  moreover have "progress_moved w newId now locked manifest beginning source rows result rows'"
    using migrated_location_Some [of w locked manifest "rr_location r"] mapped result rows' Some
    by (cases mapped) (auto simp: progress_moved_def)
  moreover have "simplified \<longrightarrow> result = Migrated_progress" using simp result by (auto split: option.splits)
  ultimately show ?thesis by (simp add: rows')
qed

text \<open>The outcome of a migration that moves the state of one revision to another.\<close>

definition state_moved ::
    "reader_world \<Rightarrow> new_ids \<Rightarrow> int \<Rightarrow> locked_reader_title \<Rightarrow> manifest \<Rightarrow> reader_location \<Rightarrow> string \<Rightarrow>
      reader_db \<Rightarrow> migration_row \<Rightarrow> reader_db \<Rightarrow> bool" where
  "state_moved w ids now locked manifest beginning k db row db' \<longleftrightarrow>
     progress_moved w (ni_progress ids) now locked manifest beginning
       (find (\<lambda>r. rr_revisionId r = k) (prior_progress locked db)) (rb_progress db) (mg_progressResult row) (rb_progress db') \<and>
     (\<exists>copies. rb_bookmarks db' = rb_bookmarks db @ copies \<and> mg_migratedBookmarkCount row = int (length copies) \<and>
        (\<forall>b \<in> set copies. \<exists>source \<in> set (source_bookmarks locked k db). copy_of w locked manifest source b) \<and>
        distinct (map rm_migratedFrom copies) \<and>
        (\<forall>source \<in> set (source_bookmarks locked k db). (\<exists>b \<in> set copies. rm_migratedFrom b = Some (rm_id source)) \<or>
           left_out w locked manifest source (rb_bookmarks db'))) \<and>
     mg_migratedBookmarkCount row + mg_unmatchedBookmarkCount row = int (length (source_bookmarks locked k db)) \<and>
     rb_migrations db' = rb_migrations db @ [row] \<and> migration_target locked row \<and> mg_sourceRevisionId row = k"

lemma move_state_moved:
  assumes run: "move_state lc w ids now locked k db = Inr (row, db')" and ok: "reader_ok db"
    and fresh: "fresh_bookmarks (ni_bookmark ids) 0 (rb_bookmarks db)"
    and none: "find (migration_target locked) (rb_migrations db) = None"
  obtains manifest beginning where "validate_locked w locked beginning = Inr beginning" "fst manifest = beginning"
    "(if ti_format (lr_title locked) = Prose then proseManifest (rw_catalog w) locked k
       else comicManifest (rw_catalog w) locked k) = Inr manifest"
    "state_moved w ids now locked manifest beginning k db row db'" "reader_ok db'" "reader_kept db db'"
proof -
  let ?source = "find (\<lambda>r. rr_revisionId r = k) (prior_progress locked db)"
  obtain manifest beginning result simplified progress st migrations where
    manifest: "(if ti_format (lr_title locked) = Prose then proseManifest (rw_catalog w) locked k
       else comicManifest (rw_catalog w) locked k) = Inr manifest"
    and valid: "validatedLocation w locked (fst manifest) = Inr (Some beginning)"
    and progress: "migrate_progress w (ni_progress ids) now locked manifest beginning ?source (rb_progress db)
      = Inr (result, simplified, progress)"
    and st: "rfold (migrate_bookmark w (ni_bookmark ids) now locked manifest) (source_bookmarks locked k db)
      \<lparr>bm_rows = rb_bookmarks db, bm_migrated = 0, bm_unmatched = 0, bm_next = 0\<rparr> = Inr st"
    and rec: "insertMigrationRecord (migration_record (ni_record ids) now locked k result simplified
      (bm_migrated st) (bm_unmatched st)) (rb_migrations db) = Inr (row, migrations)"
    and db': "db' = db\<lparr>rb_progress := progress, rb_bookmarks := bm_rows st, rb_migrations := migrations\<rparr>"
    using run unfolding move_state_def Let_def source_bookmarks_def
    by (auto simp: rbind_eq_Inr split: option.splits prod.splits)
  have okd: "progress_ok (rb_progress db)" "bookmarks_ok (rb_bookmarks db)" "migrations_ok (rb_migrations db)"
    using ok by (simp_all add: reader_ok_def)
  have beginning: "beginning = fst manifest" "validate_locked w locked beginning = Inr beginning"
    using validatedLocation_Some [OF valid] by auto
  note moved = migrate_progress_moved [OF progress okd(1)]
  have "migrated_so_far w (ni_bookmark ids) locked manifest (rb_bookmarks db) []
      \<lparr>bm_rows = rb_bookmarks db, bm_migrated = 0, bm_unmatched = 0, bm_next = 0\<rparr>"
    using okd(2) fresh by (simp add: migrated_so_far_def)
  from migrate_bookmarks_run [OF st this]
  have all: "migrated_so_far w (ni_bookmark ids) locked manifest (rb_bookmarks db) (source_bookmarks locked k db) st"
    using source_bookmarks_member source_bookmarks_distinct okd(2) by (auto simp: bookmarks_ok_def)
  let ?new = "migration_record (ni_record ids) now locked k result simplified (bm_migrated st) (bm_unmatched st)"
  have "mg_key ?new \<notin> mg_key ` set (rb_migrations db)"
    using none by (auto simp: find_None_iff mg_key_def migration_record_def migration_target_def)
  moreover have "mg_noticeAcknowledgedAt ?new = None" by (simp add: migration_record_def)
  ultimately have row: "row = ?new" "migrations = rb_migrations db @ [?new]" "migrations_ok migrations"
    using insertMigrationRecord_ok [OF rec okd(3)] by (metis (full_types))+
  have "state_moved w ids now locked manifest beginning k db row db'"
    using moved all unfolding state_moved_def migrated_so_far_def
    by (auto simp: row(1,2) db' migration_record_def migration_target_def)
  moreover have "reader_ok db'" using ok moved all row(3) by (simp add: reader_ok_def db' migrated_so_far_def)
  moreover have "reader_kept db db'" using moved by (simp add: reader_kept_def db')
  ultimately show thesis using that beginning manifest by metis
qed

lemma record_absent_ok:
  assumes "insertMigrationRecord (migration_record newId now locked k Absent_progress False 0 (int n)) (rb_migrations db)
      = Inr (row, migrations)" and ok: "reader_ok db"
  shows "reader_ok (db\<lparr>rb_migrations := migrations\<rparr>) \<and> reader_kept db (db\<lparr>rb_migrations := migrations\<rparr>)"
proof -
  have "migrations_ok migrations"
    using insertMigrationRecord_ok [OF assms(1)] ok by (simp add: reader_ok_def migration_record_def)
  then show ?thesis using ok by (simp add: reader_ok_def reader_kept_def)
qed

lemma migrateLockedReaderState_ok:
  assumes run: "migrateLockedReaderState lc w ids now locked db = Inr (row, db')" and ok: "reader_ok db"
    and fresh: "fresh_bookmarks (ni_bookmark ids) 0 (rb_bookmarks db)"
  shows "reader_ok db' \<and> reader_kept db db'"
proof (cases "find (migration_target locked) (rb_migrations db)")
  case (Some r)
  then show ?thesis using run ok by (simp add: migrateLockedReaderState_def)
next
  case None
  show ?thesis
  proof (cases "stateRevision lc (prior_progress locked db) (prior_bookmarks locked db)")
    assume "stateRevision lc (prior_progress locked db) (prior_bookmarks locked db) = None"
    then show ?thesis using run ok None by (simp add: migrateLockedReaderState_def)
  next
    fix k assume k: "stateRevision lc (prior_progress locked db) (prior_bookmarks locked db) = Some k"
    show ?thesis
    proof (cases "has_target_state locked db")
      case True
      then show ?thesis using run None k record_absent_ok [OF _ ok]
        by (auto simp: migrateLockedReaderState_def rbind_eq_Inr)
    next
      case False
      then obtain row' where "move_state lc w ids now locked k db = Inr (row', db')"
        using run None k by (auto simp: migrateLockedReaderState_def rbind_eq_Inr)
      from move_state_moved [OF this ok fresh None] show ?thesis by blast
    qed
  qed
qed

section \<open>Steps\<close>

text \<open>
  The requests of readers, in any order, each in its own world: the catalog, the users and the
  entitlements change between them.
\<close>

inductive reader_step :: "reader_db \<Rightarrow> reader_db \<Rightarrow> bool" where
  progress_saved: "saveProgress w newId now actor titleId location expected db = Inr (r, db') \<Longrightarrow> reader_step db db'"
| bookmark_created: "createBookmark w newId now actor titleId location db = Inr (b, db') \<Longrightarrow>
    newId \<notin> rm_id ` set (rb_bookmarks db) \<Longrightarrow> reader_step db db'"
| bookmark_deleted: "deleteBookmark w actor titleId bookmarkId db = Inr (u, db') \<Longrightarrow> reader_step db db'"
| preferences_saved: "saveReaderPreferences users actor fontSize face page expected db = Inr (p, db') \<Longrightarrow> reader_step db db'"
| title_preferences_saved: "saveReaderTitlePreferences w actor titleId mode expected db = Inr (t, db') \<Longrightarrow> reader_step db db'"
| opened: "getReaderInitialState lc w ids now actor titleId db = Inr (st, db') \<Longrightarrow>
    fresh_bookmarks (ni_bookmark ids) 0 (rb_bookmarks db) \<Longrightarrow> reader_step db db'"
| acknowledged: "acknowledgeMigrationNotice w now actor titleId target db = Inr (m, db') \<Longrightarrow> reader_step db db'"

inductive_cases reader_stepE: "reader_step db db'"

lemma saveProgress_Inr:
  assumes "saveProgress w newId now actor titleId location expected db = Inr (r, db')"
  obtains locked rows where "lock_title w actor titleId = Inr locked" "validate_locked w locked location = Inr location"
    "versioned_write (\<lambda>r. rr_key r = (lr_userId locked, ti_id (lr_title locked), lr_revisionId locked)) rr_version
       (\<lambda>r. location_shape (rr_location r)) (started_progress w newId now locked location)
       ((\<lambda>(l, now) r. r\<lparr>rr_location := locationColumns l, rr_version := rr_version r + 1, rr_updatedAt := now\<rparr>) (location, now))
       expected (rb_progress db) = Inr (Some r, rows)" "db' = db\<lparr>rb_progress := rows\<rparr>"
proof -
  obtain locked l' where l: "lock_title w actor titleId = Inr locked" "validate_locked w locked location = Inr l'"
    using assms by (auto simp: saveProgress_def rbind_eq_Inr)
  then have "l' = location" using validateReaderLocation_Inr unfolding validate_locked_def by metis
  with l that assms show thesis
    by (auto simp: saveProgress_def rbind_eq_Inr started_progress_def progress_key_eq split: option.splits)
qed

lemma saveProgress_ok:
  assumes "saveProgress w newId now actor titleId location expected db = Inr (r, db')" and ok: "reader_ok db"
  shows "reader_ok db' \<and> reader_kept db db'"
proof -
  obtain locked rows where
    wr: "versioned_write (\<lambda>r. rr_key r = (lr_userId locked, ti_id (lr_title locked), lr_revisionId locked)) rr_version
       (\<lambda>r. location_shape (rr_location r)) (started_progress w newId now locked location)
       ((\<lambda>(l, now) r. r\<lparr>rr_location := locationColumns l, rr_version := rr_version r + 1, rr_updatedAt := now\<rparr>) (location, now))
       expected (rb_progress db) = Inr (Some r, rows)" and db': "db' = db\<lparr>rb_progress := rows\<rparr>"
    by (rule saveProgress_Inr [OF assms(1)])
  have "progress_ok rows \<and> progress_kept (rb_progress db) rows"
    by (rule progress_table.write_ok [OF wr]) (use ok in \<open>simp_all add: started_progress_def rr_key_def reader_ok_def\<close>)
  then show ?thesis using ok by (simp add: db' reader_ok_def reader_kept_def)
qed

lemma saveReaderPreferences_ok:
  assumes run: "saveReaderPreferences users actor fontSize face page expected db = Inr (r, db')" and ok: "reader_ok db"
  shows "reader_ok db' \<and> reader_kept db db'"
proof -
  obtain userId rows where
    wr: "versioned_write (\<lambda>r. rq_userId r = userId) rq_version (\<lambda>r. 14 \<le> rq_fontSize r \<and> rq_fontSize r \<le> 24)
       \<lparr>rq_userId = userId, rq_fontSize = fontSize, rq_typeface = face, rq_paper = page, rq_version = 1\<rparr>
       ((\<lambda>(s, f, p) r. r\<lparr>rq_fontSize := s, rq_typeface := f, rq_paper := p, rq_version := rq_version r + 1\<rparr>)
         (fontSize, face, page))
       expected (rb_preferences db) = Inr (Some r, rows)" and db': "db' = db\<lparr>rb_preferences := rows\<rparr>"
    using run by (auto simp: saveReaderPreferences_def rbind_eq_Inr split: option.splits)
  have "preferences_ok rows \<and> preferences_kept (rb_preferences db) rows"
    by (rule preferences_table.write_ok [OF wr]) (use ok in \<open>simp_all add: reader_ok_def\<close>)
  then show ?thesis using ok by (simp add: db' reader_ok_def reader_kept_def)
qed

lemma saveReaderTitlePreferences_ok:
  assumes run: "saveReaderTitlePreferences w actor titleId mode expected db = Inr (r, db')" and ok: "reader_ok db"
  shows "reader_ok db' \<and> reader_kept db db'"
proof -
  obtain locked where locked: "lock_title w actor titleId = Inr locked" "ti_format (lr_title locked) = Comic"
    using run by (auto simp: saveReaderTitlePreferences_def rbind_eq_Inr split: if_splits)
  obtain written rows where
    wr: "versioned_write (\<lambda>r. tq_key r = (lr_userId locked, ti_id (lr_title locked))) tq_version (\<lambda>_. True)
       \<lparr>tq_userId = lr_userId locked, tq_titleId = ti_id (lr_title locked), tq_comicMode = mode, tq_version = 1\<rparr>
       ((\<lambda>m r. r\<lparr>tq_comicMode := m, tq_version := tq_version r + 1\<rparr>) mode)
       expected (rb_titlePreferences db) = Inr (written, rows)"
    using run locked by (auto simp: saveReaderTitlePreferences_def rbind_eq_Inr title_preferences_key_eq)
  with run locked have db': "db' = db\<lparr>rb_titlePreferences := rows\<rparr>"
    by (cases written) (auto simp: saveReaderTitlePreferences_def title_preferences_key_eq split: option.splits)
  have "title_preferences_ok rows \<and> title_preferences_kept (rb_titlePreferences db) rows"
    by (rule title_preferences_table.write_ok [OF wr]) (use ok in \<open>simp_all add: tq_key_def reader_ok_def\<close>)
  then show ?thesis using ok by (simp add: db' reader_ok_def reader_kept_def)
qed

lemma createBookmark_ok:
  assumes run: "createBookmark w newId now actor titleId location db = Inr (b, db')" and ok: "reader_ok db"
    and fresh: "newId \<notin> rm_id ` set (rb_bookmarks db)"
  shows "reader_ok db' \<and> reader_kept db db'"
proof -
  obtain new inserted rows where ins: "insert_bookmark new (rb_bookmarks db) = Inr (inserted, rows)"
    and new: "rm_id new = newId" "rm_migratedFrom new = None"
    and db': "db' = (if inserted then db\<lparr>rb_bookmarks := rows\<rparr> else db)"
    using run by (auto simp: createBookmark_def Let_def rbind_eq_Inr split: if_splits option.splits)
  have "bookmarks_ok rows"
    by (rule insert_bookmark_ok [OF ins, THEN conjunct1]) (use ok fresh new in \<open>simp_all add: reader_ok_def\<close>)
  then show ?thesis using ok by (simp add: db' reader_ok_def reader_kept_def)
qed

lemma deleteBookmark_ok:
  assumes run: "deleteBookmark w actor titleId bookmarkId db = Inr (u, db')" and ok: "reader_ok db"
  shows "reader_ok db' \<and> reader_kept db db'"
proof -
  obtain locked where locked: "lock_title w actor titleId = Inr locked"
    using run by (auto simp: deleteBookmark_def rbind_eq_Inr)
  define doomed where "doomed b \<longleftrightarrow> rm_id b = bookmarkId \<and>
    bookmark_scope (lr_userId locked) (ti_id (lr_title locked)) (lr_revisionId locked) b" for b
  have db': "db' = db\<lparr>rb_bookmarks := filter (\<lambda>b. \<not> doomed b) (rb_bookmarks db)\<rparr>"
    and free: "\<And>b copy. b \<in> set (rb_bookmarks db) \<Longrightarrow> doomed b \<Longrightarrow> copy \<in> set (rb_bookmarks db) \<Longrightarrow>
      rm_migratedFrom copy \<noteq> Some (rm_id b)"
    using run locked unfolding deleteBookmark_def doomed_def
    by (auto simp: Let_def rbind_eq_Inr list_ex_iff split: if_splits)
  let ?rows = "rb_bookmarks db"
  have b: "distinct (map rm_id ?rows)" "sorted_wrt (\<lambda>x y. \<not> same_place x y) ?rows"
    "\<And>b. b \<in> set ?rows \<Longrightarrow> location_shape (rm_location b)"
    "\<And>b k. b \<in> set ?rows \<Longrightarrow> rm_migratedFrom b = Some k \<Longrightarrow> k \<in> rm_id ` set ?rows"
    using ok unfolding reader_ok_def bookmarks_ok_def by blast+
  have "k \<in> rm_id ` set (filter (\<lambda>b. \<not> doomed b) ?rows)" if copy: "b \<in> set ?rows" "rm_migratedFrom b = Some k" for b k
  proof -
    obtain s where "s \<in> set ?rows" "rm_id s = k" using b(4) [OF copy] by blast
    moreover from this have "\<not> doomed s" using free copy by blast
    ultimately show ?thesis by auto
  qed
  then have "bookmarks_ok (filter (\<lambda>b. \<not> doomed b) ?rows)"
    using b(1-3) unfolding bookmarks_ok_def by (auto simp: distinct_map_filter sorted_wrt_filter)
  then show ?thesis using ok by (simp add: db' reader_ok_def reader_kept_def)
qed

lemma acknowledgeMigrationNotice_ok:
  assumes run: "acknowledgeMigrationNotice w now actor titleId target db = Inr (m, db')" and ok: "reader_ok db"
  shows "reader_ok db' \<and> reader_kept db db'"
proof -
  obtain locked where locked: "lock_title w actor titleId = Inr locked"
    using run by (auto simp: acknowledgeMigrationNotice_def rbind_eq_Inr)
  define unread where "unread r \<longleftrightarrow> migration_target locked r \<and> mg_noticeAcknowledgedAt r = None" for r
  have "db' = db \<or> db' = db\<lparr>rb_migrations := map (\<lambda>r. if unread r then r\<lparr>mg_noticeAcknowledgedAt := Some now\<rparr> else r)
      (rb_migrations db)\<rparr> \<and> (\<forall>r \<in> set (rb_migrations db). unread r \<longrightarrow> mg_completedAt r \<le> now)"
    using run locked unfolding acknowledgeMigrationNotice_def unread_def
    by (auto simp: Let_def list_ex_iff not_less split: if_splits option.splits)
  then consider "db' = db" | (acknowledged)
    "db' = db\<lparr>rb_migrations := map (\<lambda>r. if unread r then r\<lparr>mg_noticeAcknowledgedAt := Some now\<rparr> else r) (rb_migrations db)\<rparr>"
    "\<forall>r \<in> set (rb_migrations db). unread r \<longrightarrow> mg_completedAt r \<le> now" by blast
  then show ?thesis
  proof cases
    case 1
    then show ?thesis using ok by simp
  next
    case acknowledged
    have "map mg_key (rb_migrations db') = map mg_key (rb_migrations db)"
      using acknowledged(1) by (auto simp: mg_key_def)
    moreover have "\<forall>r \<in> set (rb_migrations db'). migration_ok r"
      using ok acknowledged by (auto simp: reader_ok_def migrations_ok_def migration_ok_def)
    ultimately have "migrations_ok (rb_migrations db')" using ok by (simp add: reader_ok_def migrations_ok_def)
    then show ?thesis using ok acknowledged by (simp add: reader_ok_def reader_kept_def)
  qed
qed

lemma getReaderInitialState_ok:
  assumes "getReaderInitialState lc w ids now actor titleId db = Inr (st, db')" and ok: "reader_ok db"
    and fresh: "fresh_bookmarks (ni_bookmark ids) 0 (rb_bookmarks db)"
  shows "reader_ok db' \<and> reader_kept db db'"
proof -
  obtain locked row where "migrateLockedReaderState lc w ids now locked db = Inr (row, db')"
    using assms(1) by (auto simp: getReaderInitialState_def getLockedReaderInitialState_def rbind_eq_Inr)
  from migrateLockedReaderState_ok [OF this ok fresh] show ?thesis .
qed

lemma reader_step_ok: "reader_step db db' \<Longrightarrow> reader_ok db \<Longrightarrow> reader_ok db' \<and> reader_kept db db'"
  by (erule reader_stepE) (erule (1) saveProgress_ok | erule (2) createBookmark_ok | erule (1) deleteBookmark_ok |
      erule (1) saveReaderPreferences_ok | erule (1) saveReaderTitlePreferences_ok |
      erule (2) getReaderInitialState_ok | erule (1) acknowledgeMigrationNotice_ok)+

lemma reader_run_ok: "reader_step\<^sup>*\<^sup>* db db' \<Longrightarrow> reader_ok db \<Longrightarrow> reader_ok db' \<and> reader_kept db db'"
proof (induction rule: rtranclp_induct)
  case (step db1 db2)
  then show ?case using reader_step_ok [OF step.hyps(2)] by (blast intro: reader_kept_trans)
qed simp

section \<open>Which edition a migration starts from\<close>

text \<open>What the reader did in other editions of the title, and when.\<close>

definition reader_activity :: "locked_reader_title \<Rightarrow> reader_db \<Rightarrow> (string \<times> int) list" where
  "reader_activity locked db =
     map (\<lambda>r. (rr_revisionId r, rr_updatedAt r)) (filter (\<lambda>r. rr_userId r = lr_userId locked \<and>
       rr_titleId r = ti_id (lr_title locked) \<and> rr_revisionId r \<noteq> lr_revisionId locked) (rb_progress db)) @
     map (\<lambda>b. (rm_revisionId b, rm_createdAt b)) (filter (\<lambda>b. rm_userId b = lr_userId locked \<and>
       rm_titleId b = ti_id (lr_title locked) \<and> rm_revisionId b \<noteq> lr_revisionId locked) (rb_bookmarks db))"

lemma js_sort_coarser:
  assumes "\<And>x y. cmp x y \<le> 0 \<Longrightarrow> key y \<le> (key x :: int)" and "\<And>x y. \<not> cmp x y \<le> 0 \<Longrightarrow> key x \<le> key y"
  shows "sorted_wrt (\<lambda>x y. key y \<le> key x) (js_sort cmp xs)"
proof (induction xs)
  case (Cons x xs)
  have ins: "set (js_insert cmp x ys) = insert x (set ys)" for ys
    by (metis mset_js_insert set_mset_add_mset_insert set_mset_mset)
  have "sorted_wrt (\<lambda>x y. key y \<le> key x) (js_insert cmp x ys)" if "sorted_wrt (\<lambda>x y. key y \<le> key x) ys" for ys
    using that by (induction ys) (use assms ins order_trans in \<open>fastforce+\<close>)
  then show ?case using Cons by simp
qed simp

text \<open>The map has each edition once, with the time of something done there, none of which is later.\<close>

definition latest_times :: "(string \<times> int) list \<Rightarrow> (string \<times> int) list \<Rightarrow> bool" where
  "latest_times acts m \<longleftrightarrow> distinct (map fst m) \<and> fst ` set m = fst ` set acts \<and>
     (\<forall>k v. (k, v) \<in> set m \<longrightarrow> (v = 0 \<or> (k, v) \<in> set acts) \<and> (\<forall>t. (k, t) \<in> set acts \<longrightarrow> t \<le> v))"

lemma note_activity_latest:
  assumes "latest_times acts m"
  shows "latest_times (acts @ [e]) (note_activity e m)"
proof -
  obtain k t where e: "e = (k, t)" by fastforce
  have d: "distinct (map fst m)" using assms by (simp add: latest_times_def)
  let ?m = "note_activity e m"
  have d': "distinct (map fst ?m)" using d unfolding note_activity_def by (rule distinct_update)
  have of: "(j, v) \<in> set xs \<longleftrightarrow> map_of xs j = Some v" if "distinct (map fst xs)" for j v and xs :: "(string \<times> int) list"
    using that by simp
  have new: "map_of ?m = (map_of m)(k \<mapsto> max (case map_of m k of None \<Rightarrow> 0 | Some t \<Rightarrow> t) t)"
    by (simp add: note_activity_def e update_conv')
  have known: "map_of m k = None \<Longrightarrow> (k, x) \<notin> set acts" for x
    using assms unfolding latest_times_def by (metis fst_conv imageI map_of_eq_None_iff)
  have "(v = 0 \<or> (j, v) \<in> set (acts @ [e])) \<and> (\<forall>x. (j, x) \<in> set (acts @ [e]) \<longrightarrow> x \<le> v)"
    if "(j, v) \<in> set ?m" for j v
  proof (cases "j = k")
    case True
    then have v: "v = max (case map_of m k of None \<Rightarrow> 0 | Some t \<Rightarrow> t) t" using that new by (simp add: of [OF d'])
    show ?thesis
    proof (cases "map_of m k")
      case None
      then show ?thesis using v known True e by (auto simp: max_def)
    next
      case (Some u)
      then have "(k, u) \<in> set m" using d by simp
      then have "u = 0 \<or> (k, u) \<in> set acts" "\<forall>x. (k, x) \<in> set acts \<longrightarrow> x \<le> u"
        using assms unfolding latest_times_def by blast+
      then show ?thesis using v Some True e by (auto simp: max_def)
    qed
  next
    case False
    then have "(j, v) \<in> set m" using that new d by (simp add: of [OF d'])
    then show ?thesis using assms False e unfolding latest_times_def by auto
  qed
  moreover have "fst ` set ?m = fst ` set (acts @ [e])"
  proof -
    have "fst ` set ?m = dom (map_of ?m)" by (simp add: dom_map_of_conv_image_fst)
    also have "\<dots> = insert k (fst ` set m)" by (simp add: new dom_map_of_conv_image_fst)
    finally show ?thesis using assms by (simp add: latest_times_def e)
  qed
  ultimately show ?thesis using d' unfolding latest_times_def by blast
qed

lemma noted_activity: "latest_times acts (fold note_activity acts [])"
proof (induction acts rule: rev_induct)
  case (snoc e acts)
  then show ?case using note_activity_latest by simp
qed (simp add: latest_times_def)

text \<open>Times are counted from 1970, so the default of 0 is never later than anything done.\<close>

lemma stateRevision_latest:
  assumes "stateRevision lc (prior_progress locked db) (prior_bookmarks locked db) = Some k"
  shows "(\<exists>t. (k, t) \<in> set (reader_activity locked db)) \<and>
    (\<forall>(k', t') \<in> set (reader_activity locked db). 0 < t' \<longrightarrow> (\<exists>t. (k, t) \<in> set (reader_activity locked db) \<and> t' \<le> t))"
proof -
  define acts where "acts = map (\<lambda>r. (rr_revisionId r, rr_updatedAt r)) (prior_progress locked db) @
    map (\<lambda>b. (rm_revisionId b, rm_createdAt b)) (prior_bookmarks locked db)"
  have same: "set acts = set (reader_activity locked db)"
    by (simp add: acts_def reader_activity_def prior_progress_def prior_bookmarks_def)
  let ?m = "fold note_activity acts []"
  have m: "latest_times acts ?m" by (rule noted_activity)
  obtain v rest where head: "js_sort (compare_activity lc) ?m = (k, v) # rest"
    using assms by (auto simp: stateRevision_def acts_def split: list.splits)
  have sorted: "sorted_wrt (\<lambda>x y. snd y \<le> snd x) (js_sort (compare_activity lc) ?m)"
    by (rule js_sort_coarser) (auto simp: compare_activity_def split: if_splits)
  have "set (js_sort (compare_activity lc) ?m) = set ?m" by simp
  then have set_m: "set ?m = insert (k, v) (set rest)" unfolding head by simp
  have kv: "(k, v) \<in> set ?m" and top: "\<And>k' v'. (k', v') \<in> set ?m \<Longrightarrow> v' \<le> v"
    using sorted unfolding head set_m by auto
  have "k \<in> fst ` set acts" using kv m unfolding latest_times_def by (metis fst_conv imageI)
  moreover have "\<exists>t. (k, t) \<in> set acts \<and> t' \<le> t" if t': "(k', t') \<in> set acts" "0 < t'" for k' t'
  proof -
    have "k' \<in> fst ` set ?m" using m t'(1) unfolding latest_times_def by (metis fst_conv imageI)
    then obtain v' where v': "(k', v') \<in> set ?m" by auto
    then have "t' \<le> v'" using m t'(1) unfolding latest_times_def by blast
    then have "t' \<le> v" using top [OF v'] by simp
    moreover have "v = 0 \<or> (k, v) \<in> set acts" using m kv unfolding latest_times_def by blast
    ultimately show ?thesis using t'(2) by auto
  qed
  ultimately show ?thesis unfolding same by auto
qed

section \<open>Where a migration leads\<close>

text \<open>
  The content decides: a place moves to the only block or page of the target with the fingerprint of
  its own. The offset in a block stays. A panel stays if the guided view shows the same panels on both
  pages and this is one of them, and is given up otherwise.
\<close>

definition sole_image :: "('t \<Rightarrow> string option \<times> int option) \<Rightarrow> ('t \<Rightarrow> string) \<Rightarrow> 't \<Rightarrow> 't list \<Rightarrow> string \<Rightarrow> bool" where
  "sole_image fingerprint id_of x targets k \<longleftrightarrow> fst (fingerprint x) \<noteq> None \<and> snd (fingerprint x) \<noteq> None \<and>
     map id_of (filter (\<lambda>t. fingerprint t = fingerprint x) targets) = [k]"

definition published_panels :: "catalog \<Rightarrow> string \<Rightarrow> panel_row list" where
  "published_panels c k = (case js_sort latest_settings
       (filter (\<lambda>p. rp_revisionId p = k \<and> rp_state p = Published_settings) (cg_presentations c)) of
     [] \<Rightarrow> []
   | settings # _ \<Rightarrow> panelRows c k (rp_id settings))"

definition panel_stays :: "catalog \<Rightarrow> locked_reader_title \<Rightarrow> string \<Rightarrow> string \<Rightarrow> string \<Rightarrow> int \<Rightarrow> bool" where
  "panel_stays c locked k page page' ordinal \<longleftrightarrow> rp_guidedViewEnabled (lr_presentation locked) \<and>
     geometryFor (published_panels c k) page =
       geometryFor (panelRows c (lr_revisionId locked) (rp_id (lr_presentation locked))) page' \<and>
     ordinal \<in> fst ` set (geometryFor (published_panels c k) page)"

definition moved_location :: "catalog \<Rightarrow> locked_reader_title \<Rightarrow> string \<Rightarrow> reader_location \<Rightarrow> reader_location \<Rightarrow> bool" where
  "moved_location c locked k l l' \<longleftrightarrow>
     (case (l, l') of
        (Prose_location b n, Prose_location b' n') \<Rightarrow> ti_format (lr_title locked) = Prose \<and> n' = n \<and>
          (\<exists>x. index_by bk_id (all_blocks c k) b = Some x \<and>
             sole_image block_fingerprint bk_id x (map snd (revision_blocks c (lr_revisionId locked))) b')
      | (Comic_location p n, Comic_location p' n') \<Rightarrow> ti_format (lr_title locked) \<noteq> Prose \<and>
          n' = (case n of None \<Rightarrow> None | Some ordinal \<Rightarrow> if panel_stays c locked k p p' ordinal then n else None) \<and>
          (\<exists>x. index_by cq_id (revision_pages c k) p = Some x \<and>
             sole_image page_fingerprint cq_id x (revision_pages c (lr_revisionId locked)) p')
      | _ \<Rightarrow> False)"

definition edition_manifest :: "catalog \<Rightarrow> locked_reader_title \<Rightarrow> string \<Rightarrow> stale_value reader_error + manifest" where
  "edition_manifest c locked k =
     (if ti_format (lr_title locked) = Prose then proseManifest c locked k else comicManifest c locked k)"

lemma filter_single_mset: "filter P xs = [t] \<Longrightarrow> mset ys = mset xs \<Longrightarrow> filter P ys = [t]"
  by (metis mset_filter mset_single_iff)

lemma single_element: "(case xs of [t] \<Rightarrow> Some t | _ \<Rightarrow> None) = Some t \<longleftrightarrow> xs = [t]"
  by (auto split: list.splits)

lemma uniqueFingerprintTarget_sole:
  assumes "mset targets' = mset targets"
  shows "(\<exists>t. uniqueFingerprintTarget fingerprint (fingerprint x) targets = Some t \<and> id_of t = k) \<longleftrightarrow>
    sole_image fingerprint id_of x targets' k"
proof -
  let ?same = "\<lambda>t. fingerprint t = fingerprint x"
  have both: "filter ?same targets = [t] \<longleftrightarrow> filter ?same targets' = [t]" for t
    using filter_single_mset [of ?same targets t targets'] filter_single_mset [of ?same targets' t targets] assms by auto
  show ?thesis
    unfolding uniqueFingerprintTarget_def sole_image_def
    by (simp add: single_element both) (auto simp: map_eq_Cons_conv)
qed

lemma panelGeometryListsMatch_eq: "panelGeometryListsMatch xs ys \<longleftrightarrow> xs = ys"
  by (induction xs ys rule: panelGeometryListsMatch.induct) auto

text \<open>What the manifest maps is exactly this.\<close>

lemma prose_manifest_moves:
  assumes "proseManifest c locked k = Inr manifest" and "ti_format (lr_title locked) = Prose"
  shows "(\<exists>s. snd manifest l = Some (l', s)) \<longleftrightarrow> moved_location c locked k l l'"
proof -
  let ?target = "map snd (js_sort compare_target (revision_blocks c (lr_revisionId locked)))"
  have m: "snd manifest = prose_mapLocation (all_blocks c k) ?target"
    using assms(1) by (auto simp: proseManifest_def Let_def split: list.splits)
  have sole: "(\<exists>t. uniqueFingerprintTarget block_fingerprint (block_fingerprint x) ?target = Some t \<and> bk_id t = b') \<longleftrightarrow>
      sole_image block_fingerprint bk_id x (map snd (revision_blocks c (lr_revisionId locked))) b'" for x b'
    by (rule uniqueFingerprintTarget_sole) (simp only: mset_map mset_js_sort)
  show ?thesis
    unfolding m moved_location_def using assms(2)
    by (cases l; cases l') (auto simp: prose_mapLocation_def simp flip: sole split: option.splits)
qed

lemma same_panels:
  "list_ex (\<lambda>g. fst g = n) xs \<and> list_ex (\<lambda>g. fst g = n) ys \<and> panelGeometryListsMatch xs ys \<longleftrightarrow> xs = ys \<and> n \<in> fst ` set xs"
  by (auto simp: panelGeometryListsMatch_eq list_ex_iff)

lemma comic_map:
  assumes "index_by cq_id source p = Some x"
  shows "(\<exists>s. comic_mapLocation guided sp tp source target (Comic_location p n) = Some (l', s)) \<longleftrightarrow>
    (\<exists>t. uniqueFingerprintTarget page_fingerprint (page_fingerprint x) target = Some t \<and>
       l' = Comic_location (cq_id t) (case n of None \<Rightarrow> None | Some ordinal \<Rightarrow>
         if guided \<and> geometryFor sp p = geometryFor tp (cq_id t) \<and> ordinal \<in> fst ` set (geometryFor sp p) then n else None))"
proof -
  have "cq_id x = p" using index_by_SomeD [OF assms] by blast
  then show ?thesis
    using assms by (cases n) (auto simp: comic_mapLocation_def Let_def same_panels)
qed

lemma comic_manifest_moves:
  assumes "comicManifest c locked k = Inr manifest" and "ti_format (lr_title locked) \<noteq> Prose"
  shows "(\<exists>s. snd manifest l = Some (l', s)) \<longleftrightarrow> moved_location c locked k l l'"
proof -
  let ?target = "js_sort compare_page (revision_pages c (lr_revisionId locked))"
  have m: "snd manifest = comic_mapLocation (rp_guidedViewEnabled (lr_presentation locked)) (published_panels c k)
      (panelRows c (lr_revisionId locked) (rp_id (lr_presentation locked))) (revision_pages c k) ?target"
    using assms(1) by (auto simp: comicManifest_def published_panels_def Let_def split: list.splits)
  have sole: "(\<exists>t. uniqueFingerprintTarget page_fingerprint (page_fingerprint x) ?target = Some t \<and> cq_id t = p') \<longleftrightarrow>
      sole_image page_fingerprint cq_id x (revision_pages c (lr_revisionId locked)) p'" for x p'
    by (rule uniqueFingerprintTarget_sole) simp
  show ?thesis
  proof (cases l)
    case (Comic_location p n)
    show ?thesis
    proof (cases "index_by cq_id (revision_pages c k) p")
      case None
      then show ?thesis using Comic_location
        by (cases l') (simp_all add: m moved_location_def comic_mapLocation_def)
    next
      case (Some x)
      show ?thesis
        unfolding m Comic_location comic_map [OF Some] using assms(2) Some
        by (cases l'; cases n; cases "uniqueFingerprintTarget page_fingerprint (page_fingerprint x) ?target")
          (auto simp: moved_location_def panel_stays_def simp flip: sole)
    qed
  qed (use assms(2) in \<open>cases l'; simp add: m moved_location_def comic_mapLocation_def\<close>)
qed

lemma manifest_moves:
  assumes "edition_manifest c locked k = Inr manifest"
  shows "(\<exists>s. snd manifest l = Some (l', s)) \<longleftrightarrow> moved_location c locked k l l'"
  using assms prose_manifest_moves [of c locked k manifest] comic_manifest_moves [of c locked k manifest]
  by (auto simp: edition_manifest_def split: if_splits)

text \<open>The beginning of an edition: its first block, or its first page as a whole.\<close>

context js_comparator begin

lemma sorted_head:
  assumes "js_sort cmp xs = x # rest"
  shows "x \<in> set xs \<and> (\<forall>y \<in> set xs. cmp x y \<le> 0)"
proof -
  have "set xs = insert x (set rest)" using set_js_sort [of cmp xs] by (simp add: assms)
  then show ?thesis using sorted_js_sort [of xs] cmp_refl by (auto simp: assms)
qed

end

interpretation target_order: js_comparator compare_target
  by unfold_locales (auto simp: compare_target_def compare_text_le_iff split: if_splits)

interpretation page_order: js_comparator compare_page
  by unfold_locales (auto simp: compare_page_def compare_text_le_iff split: if_splits)

definition first_place :: "catalog \<Rightarrow> locked_reader_title \<Rightarrow> reader_location \<Rightarrow> bool" where
  "first_place c locked l \<longleftrightarrow>
     (if ti_format (lr_title locked) = Prose
      then (\<exists>x \<in> set (revision_blocks c (lr_revisionId locked)). l = Prose_location (bk_id (snd x)) 0 \<and>
        (\<forall>y \<in> set (revision_blocks c (lr_revisionId locked)). compare_target x y \<le> 0))
      else (\<exists>x \<in> set (revision_pages c (lr_revisionId locked)). l = Comic_location (cq_id x) None \<and>
        (\<forall>y \<in> set (revision_pages c (lr_revisionId locked)). compare_page x y \<le> 0)))"


lemma manifest_beginning:
  assumes "edition_manifest c locked k = Inr manifest"
  shows "first_place c locked (fst manifest)"
  using assms target_order.sorted_head [of "revision_blocks c (lr_revisionId locked)"]
    page_order.sorted_head [of "revision_pages c (lr_revisionId locked)"]
  unfolding edition_manifest_def first_place_def proseManifest_def comicManifest_def Let_def
  by (auto split: if_splits list.splits) force

text \<open>The image that counts is the valid one.\<close>

definition valid_image :: "reader_world \<Rightarrow> locked_reader_title \<Rightarrow> string \<Rightarrow> location_columns \<Rightarrow> reader_location \<Rightarrow> bool" where
  "valid_image w locked k row l \<longleftrightarrow> moved_location (rw_catalog w) locked k (progressLocation row) l \<and>
     validate_locked w locked l = Inr l"

lemma migrated_image:
  assumes manifest: "edition_manifest (rw_catalog w) locked k = Inr manifest"
  shows "migrated_location w locked manifest row = Inr (Some (l, s)) \<Longrightarrow> valid_image w locked k row l"
    and "migrated_location w locked manifest row = Inr None \<Longrightarrow> \<not> valid_image w locked k row l"
proof -
  show "valid_image w locked k row l" if "migrated_location w locked manifest row = Inr (Some (l, s))"
    using migrated_location_Some [OF that] manifest_moves [OF manifest] unfolding valid_image_def by blast
  assume none: "migrated_location w locked manifest row = Inr None"
  show "\<not> valid_image w locked k row l"
  proof
    assume v: "valid_image w locked k row l"
    then obtain s where "snd manifest (progressLocation row) = Some (l, s)"
      using manifest_moves [OF manifest] unfolding valid_image_def by blast
    then show False using none v
      by (simp add: migrated_location_def valid_image_def validatedLocation_def rbind_def)
  qed
qed

text \<open>Where reading continues.\<close>

lemma progress_continues:
  assumes manifest: "edition_manifest (rw_catalog w) locked k = Inr manifest"
    and moved: "progress_moved w newId now locked manifest beginning source rows result rows'"
    and first: "first_place (rw_catalog w) locked beginning" and valid: "validate_locked w locked beginning = Inr beginning"
  shows "\<exists>started. rows' = rows @ started \<and>
    (case source of
       None \<Rightarrow> started = [] \<and> result = Absent_progress
     | Some r \<Rightarrow> (\<exists>l. started = [started_progress w newId now locked l] \<and>
         (if \<exists>l'. valid_image w locked k (rr_location r) l'
          then result = Migrated_progress \<and> valid_image w locked k (rr_location r) l
          else result = Reset_progress \<and> first_place (rw_catalog w) locked l \<and> validate_locked w locked l = Inr l)))"
proof (cases source)
  case None
  then show ?thesis using moved by (simp add: progress_moved_def)
next
  case (Some r)
  with moved consider l s where "result = Migrated_progress" "snd manifest (progressLocation (rr_location r)) = Some (l, s)"
      "validate_locked w locked l = Inr l" "rows' = rows @ [started_progress w newId now locked l]"
    | "result = Reset_progress" "migrated_location w locked manifest (rr_location r) = Inr None"
      "rows' = rows @ [started_progress w newId now locked beginning]"
    unfolding progress_moved_def by auto
  then show ?thesis
  proof cases
    case 1
    then have "valid_image w locked k (rr_location r) l"
      using manifest_moves [OF manifest] unfolding valid_image_def by blast
    then show ?thesis using 1 Some by auto
  next
    case 2
    then show ?thesis using migrated_image(2) [OF manifest] first valid Some
      by (intro exI [of _ "[started_progress w newId now locked beginning]"])
        (simp add: exI [of _ beginning])
  qed
qed

text \<open>The state of the reader in the source edition, as the tables have it.\<close>

lemma source_bookmarks_own:
  assumes "k \<noteq> lr_revisionId locked"
  shows "mset (source_bookmarks locked k db) =
    mset (filter (bookmark_scope (lr_userId locked) (ti_id (lr_title locked)) k) (rb_bookmarks db))"
proof -
  have "bookmark_scope (lr_userId locked) (ti_id (lr_title locked)) k = (\<lambda>b. (rm_userId b = lr_userId locked \<and>
      rm_titleId b = ti_id (lr_title locked) \<and> rm_revisionId b \<noteq> lr_revisionId locked) \<and> rm_revisionId b = k)"
    using assms by (auto simp: bookmark_scope_def)
  then show ?thesis
    by (simp add: source_bookmarks_def prior_bookmarks_def filter_filter_mset)
qed

lemma source_progress_own:
  assumes "progress_ok (rb_progress db)" and "k \<noteq> lr_revisionId locked"
  shows "find (\<lambda>r. rr_revisionId r = k) (prior_progress locked db) =
    currentProgress db (lr_userId locked) (ti_id (lr_title locked)) k"
proof -
  let ?own = "progress_key (lr_userId locked) (ti_id (lr_title locked)) k"
  have member: "r \<in> set (prior_progress locked db) \<and> rr_revisionId r = k \<longleftrightarrow> r \<in> set (rb_progress db) \<and> ?own r" for r
    using assms(2) by (auto simp: prior_progress_def progress_key_def)
  have unique: "r = q" if "r \<in> set (rb_progress db)" "q \<in> set (rb_progress db)" "?own r" "?own q" for r q
    using assms(1) that same_id [of rr_key "rb_progress db" r q] by (simp add: table_ok_def progress_key_eq)
  show ?thesis
  proof (cases "currentProgress db (lr_userId locked) (ti_id (lr_title locked)) k")
    case None
    then have "find (\<lambda>r. rr_revisionId r = k) (prior_progress locked db) = None"
      using member by (auto simp: currentProgress_def find_None_iff)
    then show ?thesis using None by simp
  next
    case (Some r)
    then have r: "r \<in> set (rb_progress db)" "?own r"
      using find_row_member unfolding currentProgress_def by fastforce+
    then have "find (\<lambda>r. rr_revisionId r = k) (prior_progress locked db) \<noteq> None"
      using member by (auto simp: find_None_iff)
    then obtain q where q: "find (\<lambda>r. rr_revisionId r = k) (prior_progress locked db) = Some q" by blast
    then have "q \<in> set (prior_progress locked db) \<and> rr_revisionId q = k" by (rule find_row_member)
    then show ?thesis using q Some unique [OF r(1) _ r(2)] member by auto
  qed
qed

end
