(* ===== verification/ReaderHistory.thy ===== *)
theory ReaderHistory
  imports Storefront ReaderRuns
begin

text \<open>
  What readers can rely on when devices, editions and grants change around them, with a title in two
  editions as the sample.
\<close>

section \<open>Two editions\<close>

definition edition_block :: "string \<Rightarrow> string \<Rightarrow> string \<Rightarrow> int \<Rightarrow> string \<Rightarrow> prose_block_row" where
  "edition_block k revisionId sectionId ordinal fingerprint = \<lparr>bk_id = k, bk_revisionId = revisionId,
     bk_sectionId = sectionId, bk_ordinal = ordinal, bk_content = Paragraph (plain 20), bk_imageId = None,
     bk_fingerprint = Some fingerprint, bk_fingerprintVersion = Some 1\<rparr>"

definition editions :: "string \<Rightarrow> reader_world" where
  "editions active = \<lparr>rw_catalog = \<lparr>cg_roles = [],
       cg_titles = [(sample_title ''t1'' Prose)\<lparr>ti_visibility := Public_title, ti_activeRevisionId := Some active\<rparr>],
       cg_revisions = map (\<lambda>k. (sample_revision k ''t1'')\<lparr>tr_state :=
         if k = active then Active_revision else Retired_revision\<rparr>) [''r1'', ''r3''],
       cg_presentations = [sample_settings ''p1'' ''r1'' Published_settings, sample_settings ''p3'' ''r3'' Published_settings],
       cg_sections = [\<lparr>pz_id = ''s1'', pz_revisionId = ''r1'', pz_ordinal = 1\<rparr>,
         \<lparr>pz_id = ''s3'', pz_revisionId = ''r3'', pz_ordinal = 1\<rparr>],
       cg_blocks = [edition_block ''b1'' ''r1'' ''s1'' 1 ''old'', edition_block ''b2'' ''r1'' ''s1'' 2 ''same'',
         edition_block ''c1'' ''r3'' ''s3'' 1 ''same'', edition_block ''c2'' ''r3'' ''s3'' 2 ''new''],
       cg_images = [], cg_pages = [], cg_panels = [], cg_audit = []\<rparr>,
     rw_users = [''u''],
     rw_entitlements = [\<lparr>en_id = ''e'', en_userId = ''u'', en_titleId = ''t1'', en_grantedAt = 1,
       en_revokedAt = None, en_createdAt = 1, en_updatedAt = 1\<rparr>]\<rparr>"

definition empty_db :: reader_db where
  "empty_db = \<lparr>rb_progress = [], rb_bookmarks = [], rb_preferences = [], rb_titlePreferences = [], rb_migrations = []\<rparr>"

definition reader :: actor where "reader = User ''u'' [Customer]"

definition some_ids :: new_ids where
  "some_ids = \<lparr>ni_progress = ''x1'', ni_bookmark = (\<lambda>n. replicate n (CHR ''m'') @ ''n''), ni_record = ''g1''\<rparr>"

definition result_db :: "reader_db \<Rightarrow> stale_value reader_error + ('a \<times> reader_db) \<Rightarrow> reader_db" where
  "result_db db res = (case res of Inr (_, db') \<Rightarrow> db' | Inl _ \<Rightarrow> db)"

definition db_marked :: reader_db where
  "db_marked = result_db empty_db (createBookmark (editions ''r1'') ''k1'' 10 reader ''t1'' (Prose_location ''b2'' 3) empty_db)"

definition db_saved :: reader_db where
  "db_saved = result_db empty_db (saveProgress (editions ''r1'') ''x0'' 11 reader ''t1'' (Prose_location ''b1'' 7) 0 db_marked)"

definition db_moved :: reader_db where
  "db_moved = result_db empty_db (getReaderInitialState compare_text (editions ''r3'') some_ids 20 reader ''t1'' db_saved)"

lemma result_db_step:
  "\<not> isl res \<Longrightarrow> \<exists>x. res = Inr (x, result_db db res)"
  by (cases res) (auto simp: result_db_def split: prod.splits)

lemma fresh_some_ids: "rm_id ` set rows \<subseteq> {''k1''} \<Longrightarrow> fresh_bookmarks (ni_bookmark some_ids) 0 rows"
proof -
  assume rows: "rm_id ` set rows \<subseteq> {''k1''}"
  have "inj (\<lambda>n. replicate n (CHR ''m'') @ ''n'')" by (rule injI) simp
  moreover have "replicate n (CHR ''m'') @ ''n'' \<noteq> ''k1''" for n by (cases n) simp_all
  ultimately show ?thesis using rows by (auto simp: fresh_bookmarks_def some_ids_def)
qed

lemma db_saved_rows: "map rm_id (rb_bookmarks db_saved) = [''k1'']"
  by code_simp

lemma sample_reader_steps: "reader_step empty_db db_marked" "reader_step db_marked db_saved" "reader_step db_saved db_moved"
proof -
  have "\<not> isl (createBookmark (editions ''r1'') ''k1'' 10 reader ''t1'' (Prose_location ''b2'' 3) empty_db)" by code_simp
  from result_db_step [OF this] show "reader_step empty_db db_marked"
    unfolding db_marked_def by (rule exE) (erule reader_step.bookmark_created, simp add: empty_db_def)
  have "\<not> isl (saveProgress (editions ''r1'') ''x0'' 11 reader ''t1'' (Prose_location ''b1'' 7) 0 db_marked)" by code_simp
  from result_db_step [OF this] show "reader_step db_marked db_saved"
    unfolding db_saved_def by (blast intro: reader_step.progress_saved)
  have fresh: "fresh_bookmarks (ni_bookmark some_ids) 0 (rb_bookmarks db_saved)"
    using db_saved_rows by (intro fresh_some_ids) (auto simp flip: set_map)
  have "\<not> isl (getReaderInitialState compare_text (editions ''r3'') some_ids 20 reader ''t1'' db_saved)" by code_simp
  from result_db_step [OF this] fresh show "reader_step db_saved db_moved"
    unfolding db_moved_def by (blast intro: reader_step.opened)
qed

lemma empty_db_ok: "reader_ok empty_db"
  by (simp add: reader_ok_def empty_db_def table_ok_def bookmarks_ok_def migrations_ok_def)

lemma sample_reader_run: "reader_step\<^sup>*\<^sup>* empty_db db_saved" "reader_step\<^sup>*\<^sup>* empty_db db_moved"
  using sample_reader_steps by (meson converse_rtranclp_into_rtranclp rtranclp.rtrancl_refl)+

section \<open>Properties\<close>



text \<open>
  C37. No saved position is overwritten unseen: a reader that saves a position with the version it last
  saw succeeds only when the stored row is still the one it saw, whatever requests of other devices ran
  in between; the new row differs from it in the position, the version and the time alone.
\<close>
theorem progress_never_overwritten_unseen:
  assumes "reader_step\<^sup>*\<^sup>* db db'" and "reader_ok db" and "seen \<in> set (rb_progress db)"
    and "saveProgress w newId now actor titleId location (rr_version seen) db' = Inr (r, db'')"
    and "rr_key r = rr_key seen"
  shows "seen \<in> set (rb_progress db') \<and>
    r = seen\<lparr>rr_location := locationColumns location, rr_version := rr_version seen + 1, rr_updatedAt := now\<rparr>"
proof -
  note run = reader_run_ok [OF assms(1,2)]
  obtain locked rows where
    wr: "versioned_write (\<lambda>r. rr_key r = (lr_userId locked, ti_id (lr_title locked), lr_revisionId locked)) rr_version
       (\<lambda>r. location_shape (rr_location r)) (started_progress w newId now locked location)
       ((\<lambda>(l, now) r. r\<lparr>rr_location := locationColumns l, rr_version := rr_version r + 1, rr_updatedAt := now\<rparr>) (location, now))
       (rr_version seen) (rb_progress db') = Inr (Some r, rows)" by (rule saveProgress_Inr [OF assms(4)])
  have ok: "progress_ok (rb_progress db')" "version_column (rr_version seen)"
    using run assms(2,3) by (auto simp: reader_ok_def table_ok_def)
  have kept: "progress_kept [seen] (rb_progress db')"
    using run assms(3) by (simp add: reader_kept_def rows_kept_def)
  have "rr_version seen \<noteq> 0" using ok(2) by (simp add: version_column_def)
  with wr have "rr_key r = (lr_userId locked, ti_id (lr_title locked), lr_revisionId locked)"
    by (auto simp: versioned_write_def Let_def rr_key_def dest!: find_row_member split: if_splits)
  then have "rr_key seen = (lr_userId locked, ti_id (lr_title locked), lr_revisionId locked)" using assms(5) by simp
  from progress_table.write_seen [OF wr this ok(2) kept ok(1)] show ?thesis by simp
qed

lemma db_saved_progress: "rb_progress db_saved = [\<lparr>rr_id = ''x0'', rr_userId = ''u'', rr_titleId = ''t1'',
    rr_revisionId = ''r1'', rr_location = locationColumns (Prose_location ''b1'' 7), rr_version = 1,
    rr_createdAt = 11, rr_updatedAt = 11\<rparr>]"
  by code_simp

theorem progress_never_overwritten_unseen_witness:
  "\<exists>seen r db. rb_progress db_saved = [seen] \<and> seen \<in> set (rb_progress db_moved) \<and>
     saveProgress (editions ''r1'') ''x2'' 30 reader ''t1'' (Prose_location ''b1'' 9) 1 db_moved = Inr (r, db) \<and>
     r = seen\<lparr>rr_location := locationColumns (Prose_location ''b1'' 9), rr_version := 2, rr_updatedAt := 30\<rparr>"
proof -
  let ?run = "saveProgress (editions ''r1'') ''x2'' 30 reader ''t1'' (Prose_location ''b1'' 9) 1 db_moved"
  let ?seen = "\<lparr>rr_id = ''x0'', rr_userId = ''u'', rr_titleId = ''t1'', rr_revisionId = ''r1'',
    rr_location = locationColumns (Prose_location ''b1'' 7), rr_version = 1, rr_createdAt = 11, rr_updatedAt = 11\<rparr>"
  have "(case ?run of Inl _ \<Rightarrow> None | Inr (r, _) \<Rightarrow> Some (rr_key r)) = Some (''u'', ''t1'', ''r1'')" by code_simp
  then obtain r db where run: "?run = Inr (r, db)" "rr_key r = (''u'', ''t1'', ''r1'')" by (auto split: sum.splits)
  have seen: "rb_progress db_saved = [?seen]" "rr_version ?seen = 1" by (simp_all add: db_saved_progress)
  have "reader_step\<^sup>*\<^sup>* db_saved db_moved" using sample_reader_steps(3) by blast
  moreover have "reader_ok db_saved" using reader_run_ok [OF sample_reader_run(1) empty_db_ok] by blast
  moreover have "?seen \<in> set (rb_progress db_saved)" using seen by simp
  moreover have "saveProgress (editions ''r1'') ''x2'' 30 reader ''t1'' (Prose_location ''b1'' 9) (rr_version ?seen) db_moved
      = Inr (r, db)" using run(1) seen(2) by simp
  moreover have "rr_key r = rr_key ?seen" using run(2) by (simp add: rr_key_def)
  ultimately have "?seen \<in> set (rb_progress db_moved) \<and> r = ?seen\<lparr>rr_location := locationColumns (Prose_location ''b1'' 9),
      rr_version := rr_version ?seen + 1, rr_updatedAt := 30\<rparr>"
    by (rule progress_never_overwritten_unseen)
  then show ?thesis using run(1) seen by (intro exI [of _ ?seen] exI [of _ r] exI [of _ db]) simp
qed

text \<open>
  C40. A change of edition loses nothing silently. When a reader without state in the new edition opens
  it, everything of the old editions stays, and the latest of them, the one where the reader last did
  something, is carried over. If the reader had a position there, reading continues from exactly one
  new position: its image, the only block or page of the same content with the offset or panel kept
  where that is valid, and the beginning of the new edition when there is no valid image. Every
  bookmark of the reader there is copied to its valid image, once and with a reference to the
  original, unless it has none or its place is taken; those are counted as unmatched. Opening the
  edition again, at any time, changes nothing more.
\<close>
theorem migration_accounts_for_everything:
  assumes "migrateLockedReaderState lc w ids now locked db = Inr (Some row, db')" and "reader_ok db"
    and "fresh_bookmarks (ni_bookmark ids) 0 (rb_bookmarks db)"
    and "find (migration_target locked) (rb_migrations db) = None" and "\<not> has_target_state locked db"
  shows "\<exists>copies started k sources. k = mg_sourceRevisionId row \<and> k \<noteq> lr_revisionId locked \<and>
     sources = filter (bookmark_scope (lr_userId locked) (ti_id (lr_title locked)) k) (rb_bookmarks db) \<and>
     (\<exists>t. (k, t) \<in> set (reader_activity locked db)) \<and>
     (\<forall>(k', t') \<in> set (reader_activity locked db). 0 < t' \<longrightarrow> (\<exists>t. (k, t) \<in> set (reader_activity locked db) \<and> t' \<le> t)) \<and>
     rb_progress db' = rb_progress db @ started \<and>
     (case currentProgress db (lr_userId locked) (ti_id (lr_title locked)) k of
        None \<Rightarrow> started = [] \<and> mg_progressResult row = Absent_progress
      | Some r \<Rightarrow> (\<exists>l. started = [started_progress w (ni_progress ids) now locked l] \<and>
          (if \<exists>l'. valid_image w locked k (rr_location r) l'
           then mg_progressResult row = Migrated_progress \<and> valid_image w locked k (rr_location r) l
           else mg_progressResult row = Reset_progress \<and> first_place (rw_catalog w) locked l \<and>
             validate_locked w locked l = Inr l))) \<and>
     rb_bookmarks db' = rb_bookmarks db @ copies \<and> distinct (map rm_migratedFrom copies) \<and>
     mg_migratedBookmarkCount row = int (length copies) \<and>
     mg_migratedBookmarkCount row + mg_unmatchedBookmarkCount row = int (length sources) \<and>
     (\<forall>b \<in> set copies. bookmark_scope (lr_userId locked) (ti_id (lr_title locked)) (lr_revisionId locked) b \<and>
        (\<exists>source \<in> set sources. rm_migratedFrom b = Some (rm_id source) \<and>
           (\<exists>l. rm_location b = locationColumns l \<and> valid_image w locked k (rm_location source) l))) \<and>
     (\<forall>source \<in> set sources. (\<exists>b \<in> set copies. rm_migratedFrom b = Some (rm_id source)) \<or>
        (\<forall>l. \<not> valid_image w locked k (rm_location source) l) \<or>
        (\<exists>l. valid_image w locked k (rm_location source) l \<and> (\<exists>b \<in> set (rb_bookmarks db').
           bookmark_scope (lr_userId locked) (ti_id (lr_title locked)) (lr_revisionId locked) b \<and>
           same_location (rm_location b) (locationColumns l)))) \<and>
     migrateLockedReaderState lc' w' ids' now' locked db' = Inr (Some row, db')"
proof -
  obtain k where state: "stateRevision lc (prior_progress locked db) (prior_bookmarks locked db) = Some k"
    and move: "move_state lc w ids now locked k db = Inr (row, db')"
    using assms(1,4,5) by (auto simp: migrateLockedReaderState_def rbind_eq_Inr split: option.splits)
  note latest = stateRevision_latest [OF state]
  then have other: "k \<noteq> lr_revisionId locked" by (auto simp: reader_activity_def)
  obtain manifest beginning where manifest: "edition_manifest (rw_catalog w) locked k = Inr manifest"
    and beginning: "validate_locked w locked beginning = Inr beginning" "fst manifest = beginning"
    and moved: "state_moved w ids now locked manifest beginning k db row db'"
    using move_state_moved [OF move assms(2-4)] unfolding edition_manifest_def by metis
  obtain copies where copies: "rb_bookmarks db' = rb_bookmarks db @ copies"
      "mg_migratedBookmarkCount row = int (length copies)" "distinct (map rm_migratedFrom copies)"
      "\<And>b. b \<in> set copies \<Longrightarrow> \<exists>source \<in> set (source_bookmarks locked k db). copy_of w locked manifest source b"
      "\<And>source. source \<in> set (source_bookmarks locked k db) \<Longrightarrow>
         (\<exists>b \<in> set copies. rm_migratedFrom b = Some (rm_id source)) \<or> left_out w locked manifest source (rb_bookmarks db')"
    and row: "mg_sourceRevisionId row = k" "migration_target locked row" "rb_migrations db' = rb_migrations db @ [row]"
      "mg_migratedBookmarkCount row + mg_unmatchedBookmarkCount row = int (length (source_bookmarks locked k db))"
    using moved unfolding state_moved_def by blast
  let ?sources = "filter (bookmark_scope (lr_userId locked) (ti_id (lr_title locked)) k) (rb_bookmarks db)"
  note own = source_bookmarks_own [OF other, of db]
  then have same: "set (source_bookmarks locked k db) = set ?sources" and len: "length (source_bookmarks locked k db) = length ?sources"
    by (metis set_mset_mset, metis size_mset)
  note image = migrated_image [OF manifest]
  have progress: "progress_moved w (ni_progress ids) now locked manifest beginning
      (currentProgress db (lr_userId locked) (ti_id (lr_title locked)) k) (rb_progress db) (mg_progressResult row) (rb_progress db')"
    using moved source_progress_own [of db k locked] other assms(2) by (simp add: state_moved_def reader_ok_def)
  have first: "first_place (rw_catalog w) locked beginning" using manifest_beginning [OF manifest] beginning(2) by simp
  obtain started where started: "rb_progress db' = rb_progress db @ started" and
    continued: "case currentProgress db (lr_userId locked) (ti_id (lr_title locked)) k of
        None \<Rightarrow> started = [] \<and> mg_progressResult row = Absent_progress
      | Some r \<Rightarrow> (\<exists>l. started = [started_progress w (ni_progress ids) now locked l] \<and>
          (if \<exists>l'. valid_image w locked k (rr_location r) l'
           then mg_progressResult row = Migrated_progress \<and> valid_image w locked k (rr_location r) l
           else mg_progressResult row = Reset_progress \<and> first_place (rw_catalog w) locked l \<and>
             validate_locked w locked l = Inr l))"
    using progress_continues [OF manifest progress first beginning(1)] by blast
  have left: "(\<forall>l. \<not> valid_image w locked k (rm_location source) l) \<or>
      (\<exists>l. valid_image w locked k (rm_location source) l \<and> (\<exists>b \<in> set (rb_bookmarks db').
         bookmark_scope (lr_userId locked) (ti_id (lr_title locked)) (lr_revisionId locked) b \<and>
         same_location (rm_location b) (locationColumns l)))"
    if "left_out w locked manifest source (rb_bookmarks db')" for source
    using that image unfolding left_out_def by meson
  have copied: "bookmark_scope (lr_userId locked) (ti_id (lr_title locked)) (lr_revisionId locked) b \<and>
      (\<exists>source \<in> set ?sources. rm_migratedFrom b = Some (rm_id source) \<and>
         (\<exists>l. rm_location b = locationColumns l \<and> valid_image w locked k (rm_location source) l))" if "b \<in> set copies" for b
    using copies(4) [OF that] manifest_moves [OF manifest] unfolding same copy_of_def valid_image_def by blast
  have "find (migration_target locked) (rb_migrations db') = Some row"
    using assms(4) row(2,3) by (simp add: find_append_row)
  then have again: "migrateLockedReaderState lc' w' ids' now' locked db' = Inr (Some row, db')"
    by (simp add: migrateLockedReaderState_def)
  have accounted: "\<forall>source \<in> set ?sources. (\<exists>b \<in> set copies. rm_migratedFrom b = Some (rm_id source)) \<or>
        (\<forall>l. \<not> valid_image w locked k (rm_location source) l) \<or>
        (\<exists>l. valid_image w locked k (rm_location source) l \<and> (\<exists>b \<in> set (rb_bookmarks db').
           bookmark_scope (lr_userId locked) (ti_id (lr_title locked)) (lr_revisionId locked) b \<and>
           same_location (rm_location b) (locationColumns l)))"
    using copies(5) left unfolding same [symmetric] by blast
  have counted: "mg_migratedBookmarkCount row + mg_unmatchedBookmarkCount row = int (length ?sources)"
    using row(4) len by simp
  show ?thesis
    by (intro exI [of _ copies] exI [of _ started] exI [of _ k] exI [of _ ?sources] conjI)
      (rule refl row(1) [symmetric] other latest [THEN conjunct1] latest [THEN conjunct2] started continued copies(1-3)
        counted accounted again ballI copied | assumption)+
qed

theorem migration_accounts_for_everything_witness:
  "\<exists>locked row. lock_title (editions ''r3'') reader ''t1'' = Inr locked \<and>
     migrateLockedReaderState compare_text (editions ''r3'') some_ids 20 locked db_saved = Inr (Some row, db_moved) \<and>
     mg_migratedBookmarkCount row = 1 \<and> mg_unmatchedBookmarkCount row = 0 \<and>
     migrateLockedReaderState compare_text (editions ''r3'') some_ids 25 locked db_moved = Inr (Some row, db_moved)"
proof -
  have "\<not> isl (rbind (lock_title (editions ''r3'') reader ''t1'') (\<lambda>locked.
      rbind (migrateLockedReaderState compare_text (editions ''r3'') some_ids 20 locked db_saved) (\<lambda>(row, db').
      throw_if (\<not> (case row of None \<Rightarrow> False | Some r \<Rightarrow> mg_migratedBookmarkCount r = 1 \<and> mg_unmatchedBookmarkCount r = 0) \<or>
        find (migration_target locked) (rb_migrations db_saved) \<noteq> None \<or> has_target_state locked db_saved) Database_error)))"
    by code_simp
  then obtain locked row db' where locked: "lock_title (editions ''r3'') reader ''t1'' = Inr locked"
    and run: "migrateLockedReaderState compare_text (editions ''r3'') some_ids 20 locked db_saved = Inr (Some row, db')"
    and counts: "mg_migratedBookmarkCount row = 1" "mg_unmatchedBookmarkCount row = 0"
    and new: "find (migration_target locked) (rb_migrations db_saved) = None" "\<not> has_target_state locked db_saved"
    unfolding isl_def by (auto simp: rbind_def split: sum.splits option.splits if_splits)
  have "db' = db_moved"
    using locked run by (simp add: db_moved_def result_db_def getReaderInitialState_def getLockedReaderInitialState_def)
  moreover have "reader_ok db_saved" using reader_run_ok [OF sample_reader_run(1) empty_db_ok] by blast
  moreover have "fresh_bookmarks (ni_bookmark some_ids) 0 (rb_bookmarks db_saved)"
    using db_saved_rows by (intro fresh_some_ids) (auto simp flip: set_map)
  ultimately show ?thesis
    using migration_accounts_for_everything [OF run _ _ new, of compare_text "editions ''r3''" some_ids 25]
      locked run counts by blast
qed

text \<open>
  A bookmark cannot be removed once it was copied: after the publication goes back to the old edition
  the reader's own bookmark there is shown again, and every request to delete it ends in an error of the
  database, because the copy in the other edition refers to it.
\<close>
theorem copied_bookmark_cannot_be_deleted:
  assumes "lock_title w actor titleId = Inr locked" and "b \<in> set (rb_bookmarks db)"
    and "bookmark_scope (lr_userId locked) (ti_id (lr_title locked)) (lr_revisionId locked) b"
    and "copy \<in> set (rb_bookmarks db)" and "rm_migratedFrom copy = Some (rm_id b)"
  shows "deleteBookmark w actor titleId (rm_id b) db = Inl Database_error"
  using assms by (auto simp: deleteBookmark_def Let_def list_ex_iff)

theorem copied_bookmark_cannot_be_deleted_witness:
  "deleteBookmark (editions ''r1'') reader ''t1'' ''k1'' db_moved = Inl Database_error \<and>
     map (\<lambda>b. (rm_id b, rm_revisionId b, rm_migratedFrom b)) (rb_bookmarks db_moved) =
       [(''k1'', ''r1'', None), (''n'', ''r3'', Some ''k1'')]"
proof -
  have rows: "map (\<lambda>b. (rm_id b, rm_userId b, rm_titleId b, rm_revisionId b, rm_migratedFrom b)) (rb_bookmarks db_moved) =
      [(''k1'', ''u'', ''t1'', ''r1'', None), (''n'', ''u'', ''t1'', ''r3'', Some ''k1'')]" by code_simp
  then obtain b copy where b: "rb_bookmarks db_moved = [b, copy]" "rm_id b = ''k1''" "rm_migratedFrom copy = Some (rm_id b)"
    "rm_userId b = ''u''" "rm_titleId b = ''t1''" "rm_revisionId b = ''r1''" by (auto simp: map_eq_Cons_conv)
  have "(case lock_title (editions ''r1'') reader ''t1'' of Inl _ \<Rightarrow> None
      | Inr l \<Rightarrow> Some (lr_userId l, ti_id (lr_title l), lr_revisionId l)) = Some (''u'', ''t1'', ''r1'')" by code_simp
  then obtain locked where locked: "lock_title (editions ''r1'') reader ''t1'' = Inr locked"
    "lr_userId locked = ''u''" "ti_id (lr_title locked) = ''t1''" "lr_revisionId locked = ''r1''" by (auto split: sum.splits)
  have "b \<in> set (rb_bookmarks db_moved)" "copy \<in> set (rb_bookmarks db_moved)"
    "bookmark_scope (lr_userId locked) (ti_id (lr_title locked)) (lr_revisionId locked) b"
    using b locked by (simp_all add: bookmark_scope_def)
  from copied_bookmark_cannot_be_deleted [OF locked(1) this(1,3,2) b(3)] rows b show ?thesis
    by (auto simp: map_eq_Cons_conv)
qed

end
