(* ===== verification/JobTable.thy ===== *)
theory JobTable
  imports Prelude
begin

text \<open>
  The tables that the job queue of \<^verbatim>\<open>jobs/repository.ts\<close> reads, and the SQL conditions that
  decide which jobs a worker may claim. SQL conditions have three truth values: \<open>None\<close> is NULL, and
  a \<^verbatim>\<open>where\<close> clause keeps a row only when its condition is \<open>Some True\<close>.
\<close>

section \<open>SQL conditions\<close>

type_synonym truth = "bool option"

definition holds :: "truth \<Rightarrow> bool" where
  "holds t \<longleftrightarrow> t = Some True"

fun not3 :: "truth \<Rightarrow> truth" where
  "not3 None = None"
| "not3 (Some b) = Some (\<not> b)"

fun and3 :: "truth \<Rightarrow> truth \<Rightarrow> truth" where
  "and3 (Some False) t = Some False"
| "and3 (Some True) t = t"
| "and3 None t = (if t = Some False then Some False else None)"

fun or3 :: "truth \<Rightarrow> truth \<Rightarrow> truth" where
  "or3 (Some True) t = Some True"
| "or3 (Some False) t = t"
| "or3 None t = (if t = Some True then Some True else None)"

fun all3 :: "truth list \<Rightarrow> truth" where
  "all3 [] = Some True"
| "all3 (t # ts) = and3 t (all3 ts)"

fun any3 :: "truth list \<Rightarrow> truth" where
  "any3 [] = Some False"
| "any3 (t # ts) = or3 t (any3 ts)"

definition eq3 :: "'a option \<Rightarrow> 'a option \<Rightarrow> truth" where
  "eq3 x y = (case (x, y) of (Some a, Some b) \<Rightarrow> Some (a = b) | _ \<Rightarrow> None)"

definition in3 :: "'a option \<Rightarrow> 'a list \<Rightarrow> truth" where
  "in3 x vs = map_option (\<lambda>a. a \<in> set vs) x"

definition coalesce_false :: "truth \<Rightarrow> truth" where
  "coalesce_false t = (case t of None \<Rightarrow> Some False | Some b \<Rightarrow> Some b)"

lemma holds_simps [simp]:
  "holds (Some b) \<longleftrightarrow> b" "\<not> holds None"
  "holds (and3 s t) \<longleftrightarrow> holds s \<and> holds t" "holds (or3 s t) \<longleftrightarrow> holds s \<or> holds t"
  "holds (not3 t) \<longleftrightarrow> t = Some False"
  "holds (coalesce_false t) \<longleftrightarrow> holds t"
  by (cases "(s, t)" rule: and3.cases; cases "(s, t)" rule: or3.cases; cases t;
      simp add: holds_def coalesce_false_def)+

lemma holds_all3 [simp]: "holds (all3 ts) \<longleftrightarrow> (\<forall>t \<in> set ts. holds t)"
  by (induction ts) auto

lemma holds_any3 [simp]: "holds (any3 ts) \<longleftrightarrow> (\<exists>t \<in> set ts. holds t)"
  by (induction ts) auto

lemma holds_eq3 [simp]: "holds (eq3 x y) \<longleftrightarrow> x = y \<and> x \<noteq> None"
  by (auto simp: eq3_def split: option.splits)

lemma holds_in3 [simp]: "holds (in3 x vs) \<longleftrightarrow> (\<exists>a. x = Some a \<and> a \<in> set vs)"
  by (cases x) (auto simp: in3_def)

lemma false3_simps [simp]:
  "and3 s t = Some False \<longleftrightarrow> s = Some False \<or> t = Some False"
  "or3 s t = Some False \<longleftrightarrow> s = Some False \<and> t = Some False"
  by (cases "(s, t)" rule: and3.cases; cases "(s, t)" rule: or3.cases; simp)+

lemma all3_false [simp]: "all3 ts = Some False \<longleftrightarrow> Some False \<in> set ts"
  by (induction ts) auto

lemma any3_false [simp]: "any3 ts = Some False \<longleftrightarrow> (\<forall>t \<in> set ts. t = Some False)"
  by (induction ts) auto

lemma eq3_false [simp]: "eq3 x y = Some False \<longleftrightarrow> (\<exists>a b. x = Some a \<and> y = Some b \<and> a \<noteq> b)"
  by (auto simp: eq3_def split: option.splits)

section \<open>Versions\<close>

text \<open>\<^verbatim>\<open>'^[1-9][0-9]{0,9}$'\<close>\<close>

definition positive_decimal_text :: "string \<Rightarrow> bool" where
  "positive_decimal_text s \<longleftrightarrow> s \<noteq> [] \<and> length s \<le> 10 \<and> list_all decimal_digit s \<and> hd s \<noteq> CHR ''0''"

section \<open>Rows\<close>

datatype json_value = Json_text string | Json_integer int | Json_null | Json_other string

type_synonym json_object = "(string \<times> json_value) list"

text \<open>
  The operator \<^verbatim>\<open>->>\<close>: the text of a member, NULL when it is missing or null. The payloads of
  jobs hold texts and integers; any other member is given by its text.
\<close>

definition payload_text :: "json_object \<Rightarrow> string \<Rightarrow> string option" where
  "payload_text payload key = (case map_of payload key of
     None \<Rightarrow> None
   | Some Json_null \<Rightarrow> None
   | Some (Json_text s) \<Rightarrow> Some s
   | Some (Json_integer n) \<Rightarrow> Some (int_text n)
   | Some (Json_other s) \<Rightarrow> Some s)"

datatype job_status = Job_pending | Job_running | Job_succeeded | Job_failed

record job_row =
  jb_id :: string
  jb_type :: string
  jb_payload :: json_object
  jb_deduplicationKey :: "string option"
  jb_status :: job_status
  jb_runAt :: int
  jb_attempts :: int
  jb_maxAttempts :: int
  jb_lockedAt :: "int option"
  jb_lockedBy :: "string option"
  jb_lastError :: "string option"
  jb_rerunRequestedAt :: "int option"
  jb_completedAt :: "int option"
  jb_createdAt :: int
  jb_updatedAt :: int

datatype scan_state = Scan_running | Scan_completed | Scan_exception

record scan_run_row =
  sr_id :: string
  sr_kind :: string
  sr_phase :: string
  sr_state :: scan_state
  sr_classifierVersion :: "int option"
  sr_allocationAlgorithmVersion :: "int option"

record projection_version_row =
  pv_classifierVersion :: int
  pv_allocationAlgorithmVersion :: int
  pv_pendingClassifierVersion :: "int option"
  pv_pendingAllocationAlgorithmVersion :: "int option"
  pv_pendingReplayId :: "string option"
  pv_pendingScanRunId :: "string option"

record implementation_version =
  iv_classifierVersion :: int
  iv_allocationAlgorithmVersion :: int

text \<open>The constraints of the table of jobs.\<close>

definition job_constraints :: "job_row \<Rightarrow> bool" where
  "job_constraints job \<longleftrightarrow>
     jb_attempts job \<ge> 0 \<and> jb_maxAttempts job > 0 \<and>
     ((jb_status job = Job_running) = (jb_lockedAt job \<noteq> None \<and> jb_lockedBy job \<noteq> None)) \<and>
     ((jb_status job \<in> {Job_succeeded, Job_failed}) = (jb_completedAt job \<noteq> None)) \<and>
     (jb_rerunRequestedAt job = None \<or> jb_status job = Job_running)"

section \<open>Which jobs a worker may claim\<close>

definition STRIPE_EVENT_JOB :: string where "STRIPE_EVENT_JOB = ''commerce.stripe-event''"
definition FINANCIAL_SOURCE_JOB :: string where "FINANCIAL_SOURCE_JOB = ''commerce.financial-source''"
definition FINANCIAL_PAYOUT_JOB :: string where "FINANCIAL_PAYOUT_JOB = ''commerce.financial-payout''"
definition FINANCIAL_SCAN_JOB :: string where "FINANCIAL_SCAN_JOB = ''commerce.financial-scan''"
definition FINANCIAL_CLASSIFICATION_JOB :: string where
  "FINANCIAL_CLASSIFICATION_JOB = ''commerce.financial-classification''"
definition FINANCIAL_ADMIN_COMMAND_JOB :: string where
  "FINANCIAL_ADMIN_COMMAND_JOB = ''commerce.financial-admin-command''"
definition OPERATIONS_JOB_RETRY_COMMAND_JOB :: string where
  "OPERATIONS_JOB_RETRY_COMMAND_JOB = ''operations.job-retry-command''"

lemmas job_kinds = STRIPE_EVENT_JOB_def FINANCIAL_SOURCE_JOB_def FINANCIAL_PAYOUT_JOB_def
  FINANCIAL_SCAN_JOB_def FINANCIAL_CLASSIFICATION_JOB_def FINANCIAL_ADMIN_COMMAND_JOB_def
  OPERATIONS_JOB_RETRY_COMMAND_JOB_def

text \<open>The tables as one transaction sees them.\<close>

record job_db =
  jd_jobs :: "job_row list"
  jd_scanRuns :: "scan_run_row list"
  jd_projectionVersions :: "projection_version_row list"

abbreviation job_text :: "job_row \<Rightarrow> string \<Rightarrow> string option" where
  "job_text job \<equiv> payload_text (jb_payload job)"

definition replay_page_phases :: "string list" where
  "replay_page_phases = [''classification_replay_page'', ''classification_replay_finalize'']"

text \<open>\<open>is_local_scan\<close> is the part of the conditions that two of them share.\<close>

definition is_local_scan :: "job_row \<Rightarrow> truth" where
  "is_local_scan job =
     any3 [eq3 (job_text job ''kind'') (Some ''composite_replay''),
       all3 [eq3 (job_text job ''kind'') (Some ''continuation''),
         in3 (job_text job ''phase'') replay_page_phases]]"

definition policyAllowsJob :: "bool \<Rightarrow> job_row \<Rightarrow> truth" where
  "policyAllowsJob claimProviderBackedJobs job =
     any3 [Some claimProviderBackedJobs,
       Some (jb_type job \<notin> {STRIPE_EVENT_JOB, FINANCIAL_SOURCE_JOB, FINANCIAL_PAYOUT_JOB,
         FINANCIAL_SCAN_JOB}),
       Some (jb_type job = FINANCIAL_CLASSIFICATION_JOB),
       all3 [Some (jb_type job = FINANCIAL_SCAN_JOB), is_local_scan job]]"

definition replayFinalizerReady :: "job_db \<Rightarrow> job_row \<Rightarrow> truth" where
  "replayFinalizerReady db job =
     any3 [not3 (all3 [Some (jb_type job = FINANCIAL_SCAN_JOB),
         eq3 (job_text job ''kind'') (Some ''continuation''),
         eq3 (job_text job ''phase'') (Some ''classification_replay_finalize'')]),
       Some (\<exists>run \<in> set (jd_scanRuns db).
         holds (all3 [eq3 (Some (sr_id run)) (job_text job ''scanRunId''),
           Some (sr_kind run = ''classification_replay''), Some (sr_state run = Scan_completed)])),
       Some (\<not> (\<exists>child \<in> set (jd_jobs db).
         holds (all3 [Some (jb_type child = FINANCIAL_CLASSIFICATION_JOB),
           eq3 (job_text child ''scanRunId'') (job_text job ''scanRunId''),
           Some (jb_status child \<noteq> Job_succeeded)])))]"

text \<open>Classification jobs of versions below the active ones are claimed to be cleaned up.\<close>

definition stale_versions :: "projection_version_row \<Rightarrow> job_row \<Rightarrow> bool" where
  "stale_versions authority job =
     (case (job_text job ''classifierVersion'', job_text job ''allocationAlgorithmVersion'') of
        (Some c, Some a) \<Rightarrow>
          if positive_decimal_text c \<and> positive_decimal_text a then
            int (parse_decimal c) \<le> pv_classifierVersion authority \<and>
            int (parse_decimal a) \<le> pv_allocationAlgorithmVersion authority \<and>
            (int (parse_decimal c) < pv_classifierVersion authority \<or>
             int (parse_decimal a) < pv_allocationAlgorithmVersion authority)
          else False
      | _ \<Rightarrow> False)"

definition version_text :: "int \<Rightarrow> string" where
  "version_text v = decimal (nat v)"

definition replayImplementationSupported ::
  "implementation_version \<Rightarrow> job_db \<Rightarrow> job_row \<Rightarrow> truth" where
  "replayImplementationSupported impl db job =
     (let c = iv_classifierVersion impl; a = iv_allocationAlgorithmVersion impl;
          kind = job_text job ''kind''; phase = job_text job ''phase'';
          classification = Some (jb_type job = FINANCIAL_CLASSIFICATION_JOB);
          scan = Some (jb_type job = FINANCIAL_SCAN_JOB);
          composite = all3 [scan, eq3 kind (Some ''composite_replay'')];
          page = all3 [scan, eq3 kind (Some ''continuation''), in3 phase replay_page_phases] in
      any3 [
        not3 (any3 [classification, composite, page]),
        all3 [any3 [classification, composite],
          eq3 (job_text job ''classifierVersion'') (Some (version_text c)),
          eq3 (job_text job ''allocationAlgorithmVersion'') (Some (version_text a))],
        all3 [classification,
          Some (\<exists>authority \<in> set (jd_projectionVersions db). stale_versions authority job \<and>
            ((pv_classifierVersion authority = c \<and> pv_allocationAlgorithmVersion authority = a) \<or>
             (pv_pendingClassifierVersion authority = Some c \<and>
              pv_pendingAllocationAlgorithmVersion authority = Some a \<and>
              pv_pendingReplayId authority \<noteq> None \<and> pv_pendingScanRunId authority \<noteq> None)))],
        all3 [page,
          Some (\<exists>run \<in> set (jd_scanRuns db).
            holds (all3 [eq3 (Some (sr_id run)) (job_text job ''scanRunId''),
              Some (sr_kind run = ''classification_replay''),
              eq3 (sr_classifierVersion run) (Some c),
              eq3 (sr_allocationAlgorithmVersion run) (Some a),
              any3 [all3 [Some (sr_state run = Scan_running), eq3 (Some (sr_phase run)) phase],
                all3 [eq3 phase (Some ''classification_replay_page''),
                  Some (sr_phase run = ''classification_replay_finalize''),
                  Some (sr_state run \<in> {Scan_running, Scan_completed})],
                all3 [eq3 phase (Some ''classification_replay_finalize''),
                  Some (sr_state run = Scan_completed)]]]))]])"

definition providerImplementationSupported ::
  "implementation_version \<Rightarrow> job_db \<Rightarrow> job_row \<Rightarrow> truth" where
  "providerImplementationSupported impl db job =
     any3 [not3 (any3 [Some (jb_type job = STRIPE_EVENT_JOB),
         Some (jb_type job \<in> {FINANCIAL_SOURCE_JOB, FINANCIAL_PAYOUT_JOB}),
         all3 [Some (jb_type job = FINANCIAL_SCAN_JOB), not3 (coalesce_false (is_local_scan job))]]),
       Some (\<exists>active \<in> set (jd_projectionVersions db).
         pv_classifierVersion active = iv_classifierVersion impl \<and>
         pv_allocationAlgorithmVersion active = iv_allocationAlgorithmVersion impl \<and>
         pv_pendingClassifierVersion active = None \<and>
         pv_pendingAllocationAlgorithmVersion active = None \<and>
         pv_pendingReplayId active = None \<and> pv_pendingScanRunId active = None)]"

definition claimableJob :: "bool \<Rightarrow> implementation_version \<Rightarrow> job_db \<Rightarrow> job_row \<Rightarrow> bool" where
  "claimableJob claimProviderBackedJobs impl db job \<longleftrightarrow>
     holds (all3 [policyAllowsJob claimProviderBackedJobs job, replayFinalizerReady db job,
       replayImplementationSupported impl db job, providerImplementationSupported impl db job])"

end
