(* ===== verification/JobQueue.thy ===== *)
theory JobQueue
  imports JobTable
begin

text \<open>
  The operations of the job queue, \<^verbatim>\<open>jobs/repository.ts\<close> and \<^verbatim>\<open>jobs/backoff.ts\<close>: inserting jobs,
  requesting a rerun, rearming a classification job, claiming the next job, renewing, completing and
  failing a lease. Every operation is one transaction on the table of jobs, run while it holds the
  locks of the rows it changes; the time the code reads is an argument. Jobs of the two special
  kinds (financial administrator commands and operations retry commands) are claimed through
  routines of the database under a capability, which is not modelled: \<open>claimNext\<close> reports them as
  \<open>Special_lane\<close>, and the other operations are those called without a capability.
\<close>

record job_config =
  jc_leaseMs :: int
  jc_retryBaseMs :: int
  jc_retryMaxMs :: int

definition computeRetryDelayMs :: "int \<Rightarrow> int \<Rightarrow> int \<Rightarrow> int" where
  "computeRetryDelayMs attempts baseDelayMs maximumDelayMs =
     (let exponent = min (max (attempts - 1) 0) 30 in
      min maximumDelayMs (baseDelayMs * 2 ^ nat exponent))"

section \<open>Inserting jobs\<close>

definition definition_maxAttempts :: "string \<Rightarrow> int option" where
  "definition_maxAttempts kind = map_of [
     (''outbox.dispatch'', 8), (''commerce.claim-email'', 8), (''commerce.claim-email-request'', 8),
     (''commerce.stripe-event'', 12), (''commerce.financial-source'', 12),
     (''commerce.financial-payout'', 12), (''commerce.financial-scan'', 8),
     (''commerce.financial-classification'', 5), (''commerce.financial-admin-command'', 8),
     (''catalog.ingest_revision'', 5), (''operations.job-retry-command'', 8)] kind"

record enqueue_input =
  ej_type :: string
  ej_payload :: json_object
  ej_deduplicationKey :: "string option"
  ej_runAt :: "int option"
  ej_maxAttempts :: "int option"

datatype job_error = Constraint_violation | Insert_returned_no_row | Deduplicated_job_not_loaded

definition or_else :: "'a option \<Rightarrow> 'a \<Rightarrow> 'a" where
  "or_else x d = (case x of None \<Rightarrow> d | Some a \<Rightarrow> a)"

definition new_job :: "string \<Rightarrow> int \<Rightarrow> enqueue_input \<Rightarrow> job_row" where
  "new_job newId now input = \<lparr>
     jb_id = newId, jb_type = ej_type input, jb_payload = ej_payload input,
     jb_deduplicationKey = ej_deduplicationKey input, jb_status = Job_pending,
     jb_runAt = or_else (ej_runAt input) now, jb_attempts = 0,
     jb_maxAttempts = or_else (ej_maxAttempts input) (or_else (definition_maxAttempts (ej_type input)) 5),
     jb_lockedAt = None, jb_lockedBy = None, jb_lastError = None, jb_rerunRequestedAt = None,
     jb_completedAt = None, jb_createdAt = now, jb_updatedAt = now\<rparr>"

definition enqueueJob ::
  "string \<Rightarrow> int \<Rightarrow> enqueue_input \<Rightarrow> job_row list \<Rightarrow> job_error + job_row \<times> job_row list" where
  "enqueueJob newId now input jobs =
     (let key = ej_deduplicationKey input; row = new_job newId now input in
      if key \<noteq> None \<and> (\<exists>job \<in> set jobs. jb_deduplicationKey job = key) then
        (if key = Some [] then Inl Insert_returned_no_row
         else case find (\<lambda>job. jb_deduplicationKey job = key) jobs of
           None \<Rightarrow> Inl Deduplicated_job_not_loaded
         | Some existing \<Rightarrow> Inr (existing, jobs))
      else if \<not> job_constraints row \<or> newId \<in> jb_id ` set jobs then Inl Constraint_violation
      else Inr (row, jobs @ [row]))"

section \<open>Updates of rows\<close>

definition update_where :: "(job_row \<Rightarrow> bool) \<Rightarrow> (job_row \<Rightarrow> job_row) \<Rightarrow> job_row list \<Rightarrow> job_row list" where
  "update_where P f jobs = map (\<lambda>job. if P job then f job else job) jobs"

text \<open>An active entity that is running is asked to run again; a first request keeps its time.\<close>

definition mark_rerun :: "int \<Rightarrow> job_row \<Rightarrow> job_row" where
  "mark_rerun now job = job\<lparr>jb_rerunRequestedAt := Some (or_else (jb_rerunRequestedAt job) now),
     jb_updatedAt := now\<rparr>"

definition request_rerun :: "string \<Rightarrow> int \<Rightarrow> job_row list \<Rightarrow> job_row list" where
  "request_rerun jobId now =
     update_where (\<lambda>job. jb_id job = jobId \<and> jb_status job = Job_running) (mark_rerun now)"

text \<open>The update of \<^verbatim>\<open>enqueueFinancialClassificationJobInternal\<close>.\<close>

definition adopt_row :: "int \<Rightarrow> bool \<Rightarrow> bool \<Rightarrow> json_object \<Rightarrow> job_row \<Rightarrow> job_row" where
  "adopt_row now needsAdoption rearmExisting payload job =
     (let terminal = rearmExisting \<and> jb_status job \<in> {Job_succeeded, Job_failed};
          reset = rearmExisting \<and> jb_status job \<in> {Job_pending, Job_succeeded, Job_failed} in
      job\<lparr>jb_payload := payload,
        jb_status := (if terminal then Job_pending else jb_status job),
        jb_runAt := (if terminal \<or> (rearmExisting \<and> jb_status job = Job_pending) then now
          else jb_runAt job),
        jb_attempts := (if reset then 0 else jb_attempts job),
        jb_lockedAt := (if terminal then None else jb_lockedAt job),
        jb_lockedBy := (if terminal then None else jb_lockedBy job),
        jb_lastError := (if reset then None else jb_lastError job),
        jb_rerunRequestedAt := (if (needsAdoption \<or> rearmExisting) \<and> jb_status job = Job_running
          then Some (or_else (jb_rerunRequestedAt job) now) else jb_rerunRequestedAt job),
        jb_completedAt := (if terminal then None else jb_completedAt job),
        jb_updatedAt := now\<rparr>)"

definition adopt_classification ::
  "string \<Rightarrow> int \<Rightarrow> bool \<Rightarrow> bool \<Rightarrow> json_object \<Rightarrow> job_row list \<Rightarrow> job_row list" where
  "adopt_classification jobId now needsAdoption rearmExisting payload =
     (if \<not> needsAdoption \<and> \<not> rearmExisting then id
      else update_where (\<lambda>job. jb_id job = jobId) (adopt_row now needsAdoption rearmExisting payload))"

section \<open>Claiming\<close>

text \<open>The order in which due jobs are taken: \<^verbatim>\<open>order by run_at, created_at, id\<close>.\<close>

datatype claim_key = Claim_key (ck_runAt: int) (ck_createdAt: int) (ck_id: string)

instantiation claim_key :: linorder
begin

definition less_eq_claim_key :: "claim_key \<Rightarrow> claim_key \<Rightarrow> bool" where
  "k \<le> l \<longleftrightarrow> ck_runAt k < ck_runAt l \<or> (ck_runAt k = ck_runAt l \<and>
     (ck_createdAt k < ck_createdAt l \<or> (ck_createdAt k = ck_createdAt l \<and> ck_id k \<le> ck_id l)))"

definition less_claim_key :: "claim_key \<Rightarrow> claim_key \<Rightarrow> bool" where
  "k < l \<longleftrightarrow> k \<le> l \<and> \<not> l \<le> (k::claim_key)"

instance
  by standard (auto simp: less_eq_claim_key_def less_claim_key_def claim_key.expand)

end

definition claim_order :: "job_row \<Rightarrow> claim_key" where
  "claim_order job = Claim_key (jb_runAt job) (jb_createdAt job) (jb_id job)"

definition special_kind :: "job_row \<Rightarrow> bool" where
  "special_kind job \<longleftrightarrow> jb_type job \<in> {FINANCIAL_ADMIN_COMMAND_JOB, OPERATIONS_JOB_RETRY_COMMAND_JOB}"

definition is_due :: "int \<Rightarrow> int \<Rightarrow> int \<Rightarrow> job_row \<Rightarrow> bool" where
  "is_due claimedAt clock leaseMs job \<longleftrightarrow>
     (jb_status job = Job_pending \<and>
       (if special_kind job then jb_runAt job \<le> clock else jb_runAt job \<le> claimedAt) \<and>
       jb_attempts job < jb_maxAttempts job) \<or>
     (jb_status job = Job_running \<and>
       (if special_kind job then jb_runAt job \<le> clock
        else (case jb_lockedAt job of None \<Rightarrow> False | Some t \<Rightarrow> t \<le> claimedAt - leaseMs)))"

text \<open>A worker process: its name, its claim policy and the versions it implements.\<close>

record job_worker =
  jw_id :: string
  jw_claimProviderBackedJobs :: bool
  jw_implementation :: implementation_version

text \<open>\<open>skipped\<close> are the rows that other transactions have locked.\<close>

definition due_jobs ::
  "job_config \<Rightarrow> job_worker \<Rightarrow> string set \<Rightarrow> int \<Rightarrow> int \<Rightarrow> job_db \<Rightarrow> job_row list" where
  "due_jobs config worker skipped claimedAt clock db =
     filter (\<lambda>job. jb_id job \<notin> skipped \<and> is_due claimedAt clock (jc_leaseMs config) job \<and>
       claimableJob (jw_claimProviderBackedJobs worker) (jw_implementation worker) db job) (jd_jobs db)"

definition claim_candidate ::
  "job_config \<Rightarrow> job_worker \<Rightarrow> string set \<Rightarrow> int \<Rightarrow> int \<Rightarrow> job_db \<Rightarrow> job_row option" where
  "claim_candidate config worker skipped claimedAt clock db =
     (case sort_key claim_order (due_jobs config worker skipped claimedAt clock db) of
        [] \<Rightarrow> None | job # _ \<Rightarrow> Some job)"

text \<open>An expired lease of a final attempt: the job fails, or starts afresh when a rerun was requested.\<close>

definition expire_row :: "int \<Rightarrow> job_row \<Rightarrow> job_row" where
  "expire_row claimedAt job =
     (let finished = (jb_rerunRequestedAt job = None) in
      job\<lparr>jb_status := (if finished then Job_failed else Job_pending),
        jb_runAt := (if finished then jb_runAt job else claimedAt),
        jb_attempts := (if finished then jb_attempts job else 0),
        jb_lockedAt := None, jb_lockedBy := None,
        jb_lastError := (if finished then
          Some (or_else (jb_lastError job) ''Job lease expired after final attempt'') else None),
        jb_rerunRequestedAt := None,
        jb_completedAt := (if finished then Some claimedAt else None),
        jb_updatedAt := claimedAt\<rparr>)"

definition claim_row :: "string \<Rightarrow> int \<Rightarrow> job_status \<Rightarrow> bool \<Rightarrow> job_row \<Rightarrow> job_row" where
  "claim_row workerId claimedAt priorStatus hadRerunRequest job =
     job\<lparr>jb_status := Job_running,
       jb_attempts := (if priorStatus = Job_running \<and> hadRerunRequest then 1 else jb_attempts job + 1),
       jb_lockedAt := Some claimedAt, jb_lockedBy := Some workerId,
       jb_rerunRequestedAt := (if priorStatus = Job_running then None else jb_rerunRequestedAt job),
       jb_lastError := (if priorStatus = Job_running \<and> hadRerunRequest then None else jb_lastError job),
       jb_updatedAt := claimedAt\<rparr>"

datatype claim_result = No_claim | Claimed job_row | Special_lane string

definition claimNext ::
  "job_config \<Rightarrow> job_worker \<Rightarrow> string set \<Rightarrow> int \<Rightarrow> int \<Rightarrow> job_db \<Rightarrow> claim_result \<times> job_row list" where
  "claimNext config worker skipped claimedAt clock db =
     (case claim_candidate config worker skipped claimedAt clock db of
        None \<Rightarrow> (No_claim, jd_jobs db)
      | Some candidate \<Rightarrow>
          let priorStatus = jb_status candidate;
              hadRerunRequest = (jb_rerunRequestedAt candidate \<noteq> None) in
          if special_kind candidate then (Special_lane (jb_id candidate), jd_jobs db)
          else if priorStatus = Job_running \<and> jb_attempts candidate \<ge> jb_maxAttempts candidate \<and>
             \<not> hadRerunRequest then
            (No_claim, update_where (\<lambda>job. jb_id job = jb_id candidate \<and> jb_status job = Job_running \<and>
               jb_lockedBy job = jb_lockedBy candidate \<and> jb_attempts job = jb_attempts candidate \<and>
               jb_attempts job \<ge> jb_maxAttempts job) (expire_row claimedAt) (jd_jobs db))
          else
            let matches = (\<lambda>job. jb_id job = jb_id candidate \<and> jb_status job = priorStatus \<and>
                  jb_attempts job = jb_attempts candidate \<and>
                  (jb_attempts job < jb_maxAttempts job \<or>
                   (priorStatus = Job_running \<and> hadRerunRequest \<and> jb_rerunRequestedAt job \<noteq> None \<and>
                    jb_attempts job = jb_maxAttempts job)));
                claim = claim_row (jw_id worker) claimedAt priorStatus hadRerunRequest in
            ((case find matches (jd_jobs db) of None \<Rightarrow> No_claim | Some job \<Rightarrow> Claimed (claim job)),
             update_where matches claim (jd_jobs db)))"

section \<open>Leases\<close>

definition owned :: "string \<Rightarrow> string \<Rightarrow> job_row \<Rightarrow> bool" where
  "owned jobId workerId job \<longleftrightarrow>
     jb_id job = jobId \<and> jb_status job = Job_running \<and> jb_lockedBy job = Some workerId"

definition renewLease :: "string \<Rightarrow> string \<Rightarrow> int \<Rightarrow> job_row list \<Rightarrow> bool \<times> job_row list" where
  "renewLease jobId workerId renewedAt jobs =
     (case find (owned jobId workerId) jobs of
        None \<Rightarrow> (False, jobs)
      | Some job \<Rightarrow>
          if jb_type job = FINANCIAL_ADMIN_COMMAND_JOB then (False, jobs)
          else (True, update_where (owned (jb_id job) workerId)
            (\<lambda>j. j\<lparr>jb_lockedAt := Some renewedAt, jb_updatedAt := renewedAt\<rparr>) jobs))"

definition complete_row :: "int \<Rightarrow> job_row \<Rightarrow> job_row" where
  "complete_row completedAt job =
     job\<lparr>jb_status := Job_succeeded, jb_completedAt := Some completedAt, jb_lockedAt := None,
       jb_lockedBy := None, jb_lastError := None, jb_updatedAt := completedAt\<rparr>"

text \<open>A settled job whose rerun was requested is pending again, as if it were new.\<close>

definition rerun_row :: "int \<Rightarrow> job_row \<Rightarrow> job_row" where
  "rerun_row at job =
     job\<lparr>jb_status := Job_pending, jb_runAt := at, jb_attempts := 0, jb_completedAt := None,
       jb_lockedAt := None, jb_lockedBy := None, jb_lastError := None, jb_rerunRequestedAt := None,
       jb_updatedAt := at\<rparr>"

definition complete :: "string \<Rightarrow> string \<Rightarrow> int \<Rightarrow> job_row list \<Rightarrow> bool \<times> job_row list" where
  "complete jobId workerId completedAt jobs =
     (case find (owned jobId workerId) jobs of
        None \<Rightarrow> (False, jobs)
      | Some job \<Rightarrow>
          if jb_type job = FINANCIAL_ADMIN_COMMAND_JOB then (False, jobs)
          else (True, update_where (\<lambda>j. owned (jb_id job) workerId j \<and> jb_attempts j = jb_attempts job)
            (if jb_rerunRequestedAt job = None then complete_row completedAt else rerun_row completedAt)
            jobs))"

definition fail_row :: "job_config \<Rightarrow> string \<Rightarrow> bool \<Rightarrow> int \<Rightarrow> job_row \<Rightarrow> job_row" where
  "fail_row config safeError retryable failedAt job =
     (let exhausted = (\<not> retryable \<or> jb_attempts job \<ge> jb_maxAttempts job);
          retryDelay = computeRetryDelayMs (jb_attempts job) (jc_retryBaseMs config) (jc_retryMaxMs config) in
      job\<lparr>jb_status := (if exhausted then Job_failed else Job_pending),
        jb_runAt := (if exhausted then jb_runAt job else failedAt + retryDelay),
        jb_lockedAt := None, jb_lockedBy := None, jb_lastError := Some (take 1000 safeError),
        jb_completedAt := (if exhausted then Some failedAt else None), jb_updatedAt := failedAt\<rparr>)"

datatype failure_transition = Not_applied | Applied (retry_scheduled: bool)

definition settleFailure ::
  "job_config \<Rightarrow> string \<Rightarrow> string \<Rightarrow> string \<Rightarrow> bool \<Rightarrow> int \<Rightarrow> job_row list \<Rightarrow>
   failure_transition \<times> job_row list" where
  "settleFailure config jobId workerId safeError retryable failedAt jobs =
     (case find (owned jobId workerId) jobs of
        None \<Rightarrow> (Not_applied, jobs)
      | Some job \<Rightarrow>
          if jb_type job = FINANCIAL_ADMIN_COMMAND_JOB then (Not_applied, jobs)
          else
            let settle = (if jb_rerunRequestedAt job \<noteq> None then rerun_row failedAt
                  else fail_row config safeError retryable failedAt) in
            (Applied (jb_status (settle job) = Job_pending),
             update_where (\<lambda>j. owned (jb_id job) workerId j \<and> jb_attempts j = jb_attempts job)
               settle jobs))"

definition fail_job ::
  "job_config \<Rightarrow> string \<Rightarrow> string \<Rightarrow> string \<Rightarrow> bool \<Rightarrow> int \<Rightarrow> job_row list \<Rightarrow> bool \<times> job_row list" where
  "fail_job config jobId workerId safeError retryable failedAt jobs =
     (let (transition, jobs') = settleFailure config jobId workerId safeError retryable failedAt jobs
      in (transition \<noteq> Not_applied, jobs'))"

section \<open>Runs\<close>

datatype job_event =
    Enqueue string int enqueue_input
  | Request_rerun string int
  | Adopt string int bool bool json_object
  | Claim job_worker "string set" int int
  | Renew string string int
  | Complete string string int
  | Fail string string string bool int

fun job_apply :: "job_config \<Rightarrow> job_event \<Rightarrow> job_db \<Rightarrow> job_db" where
  "job_apply config (Enqueue newId now input) db =
     (case enqueueJob newId now input (jd_jobs db) of Inl _ \<Rightarrow> db | Inr (_, jobs) \<Rightarrow> db\<lparr>jd_jobs := jobs\<rparr>)"
| "job_apply config (Request_rerun jobId now) db = db\<lparr>jd_jobs := request_rerun jobId now (jd_jobs db)\<rparr>"
| "job_apply config (Adopt jobId now needsAdoption rearmExisting payload) db =
     db\<lparr>jd_jobs := adopt_classification jobId now needsAdoption rearmExisting payload (jd_jobs db)\<rparr>"
| "job_apply config (Claim worker skipped claimedAt clock) db =
     db\<lparr>jd_jobs := snd (claimNext config worker skipped claimedAt clock db)\<rparr>"
| "job_apply config (Renew jobId workerId now) db = db\<lparr>jd_jobs := snd (renewLease jobId workerId now (jd_jobs db))\<rparr>"
| "job_apply config (Complete jobId workerId now) db =
     db\<lparr>jd_jobs := snd (complete jobId workerId now (jd_jobs db))\<rparr>"
| "job_apply config (Fail jobId workerId safeError retryable now) db =
     db\<lparr>jd_jobs := snd (settleFailure config jobId workerId safeError retryable now (jd_jobs db))\<rparr>"

definition run_jobs :: "job_config \<Rightarrow> job_event list \<Rightarrow> job_db \<Rightarrow> job_db" where
  "run_jobs config events db = fold (job_apply config) events db"

section \<open>The transitions of one row\<close>

text \<open>
  What an event may do to one row. The operations above refine this relation, so the properties of
  the queue are read off from it.
\<close>

inductive row_step :: "job_config \<Rightarrow> job_event \<Rightarrow> job_row \<Rightarrow> job_row \<Rightarrow> bool" for config where
  unchanged: "row_step config e job job"
| rerun_marked: "jb_status job = Job_running \<Longrightarrow>
    row_step config (Request_rerun (jb_id job) now) job (mark_rerun now job)"
| adopted: "needsAdoption \<or> rearmExisting \<Longrightarrow>
    row_step config (Adopt (jb_id job) now needsAdoption rearmExisting payload) job
      (adopt_row now needsAdoption rearmExisting payload job)"
| expired: "jb_status job = Job_running \<Longrightarrow> jb_lockedAt job = Some t \<Longrightarrow>
    t \<le> claimedAt - jc_leaseMs config \<Longrightarrow> jb_attempts job \<ge> jb_maxAttempts job \<Longrightarrow>
    jb_rerunRequestedAt job = None \<Longrightarrow>
    row_step config (Claim worker skipped claimedAt clock) job (expire_row claimedAt job)"
| claimed: "is_due claimedAt clock (jc_leaseMs config) job \<Longrightarrow> \<not> special_kind job \<Longrightarrow>
    jb_attempts job < jb_maxAttempts job \<or> (jb_status job = Job_running \<and>
      jb_rerunRequestedAt job \<noteq> None \<and> jb_attempts job = jb_maxAttempts job) \<Longrightarrow>
    row_step config (Claim worker skipped claimedAt clock) job
      (claim_row (jw_id worker) claimedAt (jb_status job) (jb_rerunRequestedAt job \<noteq> None) job)"
| renewed: "owned jobId workerId job \<Longrightarrow>
    row_step config (Renew jobId workerId now) job (job\<lparr>jb_lockedAt := Some now, jb_updatedAt := now\<rparr>)"
| completed: "owned jobId workerId job \<Longrightarrow> jb_rerunRequestedAt job = None \<Longrightarrow>
    row_step config (Complete jobId workerId now) job (complete_row now job)"
| completed_rerun: "owned jobId workerId job \<Longrightarrow> jb_rerunRequestedAt job \<noteq> None \<Longrightarrow>
    row_step config (Complete jobId workerId now) job (rerun_row now job)"
| failed: "owned jobId workerId job \<Longrightarrow> jb_rerunRequestedAt job = None \<Longrightarrow>
    row_step config (Fail jobId workerId safeError retryable now) job
      (fail_row config safeError retryable now job)"
| failed_rerun: "owned jobId workerId job \<Longrightarrow> jb_rerunRequestedAt job \<noteq> None \<Longrightarrow>
    row_step config (Fail jobId workerId safeError retryable now) job (rerun_row now job)"

inductive_cases row_stepE: "row_step config e job job'"

lemmas row_updates = mark_rerun_def adopt_row_def expire_row_def claim_row_def complete_row_def
  rerun_row_def fail_row_def

definition distinct_jobs :: "job_row list \<Rightarrow> bool" where
  "distinct_jobs jobs \<longleftrightarrow> distinct (map jb_id jobs)"

lemma same_job: "distinct_jobs jobs \<Longrightarrow> a \<in> set jobs \<Longrightarrow> b \<in> set jobs \<Longrightarrow> jb_id a = jb_id b \<Longrightarrow> a = b"
  by (simp add: distinct_jobs_def distinct_map inj_on_def)

lemma update_where_rows:
  "(\<And>job. job \<in> set jobs \<Longrightarrow> P job \<Longrightarrow> row_step config e job (f job)) \<Longrightarrow>
     list_all2 (row_step config e) jobs (update_where P f jobs)"
  by (auto simp: update_where_def list_all2_map2 intro!: list.rel_refl_strong intro: row_step.unchanged)

lemma unchanged_rows: "list_all2 (row_step config e) jobs jobs"
  by (auto intro: list.rel_refl_strong row_step.unchanged)

lemma claim_candidate_Some:
  assumes "claim_candidate config worker skipped claimedAt clock db = Some job"
  shows "job \<in> set (jd_jobs db)" "jb_id job \<notin> skipped" "is_due claimedAt clock (jc_leaseMs config) job"
    "claimableJob (jw_claimProviderBackedJobs worker) (jw_implementation worker) db job"
    "\<forall>other \<in> set (due_jobs config worker skipped claimedAt clock db). claim_order job \<le> claim_order other"
proof -
  let ?due = "due_jobs config worker skipped claimedAt clock db"
  obtain rest where s: "sort_key claim_order ?due = job # rest"
    using assms by (auto simp: claim_candidate_def split: list.splits)
  then have mem: "set ?due = set (job # rest)" by (metis set_sort)
  then have "job \<in> set ?due" by simp
  then show "job \<in> set (jd_jobs db)" "jb_id job \<notin> skipped" "is_due claimedAt clock (jc_leaseMs config) job"
    "claimableJob (jw_claimProviderBackedJobs worker) (jw_implementation worker) db job"
    by (simp_all add: due_jobs_def)
  have "sorted (map claim_order (job # rest))" using sorted_sort_key [of claim_order ?due] by (simp add: s)
  then show "\<forall>other \<in> set ?due. claim_order job \<le> claim_order other" unfolding mem by auto
qed

lemma claim_rows:
  assumes d: "distinct_jobs (jd_jobs db)"
  shows "list_all2 (row_step config (Claim worker skipped claimedAt clock)) (jd_jobs db)
    (snd (claimNext config worker skipped claimedAt clock db))"
proof (cases "claim_candidate config worker skipped claimedAt clock db")
  case None
  then show ?thesis by (simp add: claimNext_def unchanged_rows)
next
  case (Some c)
  note c = claim_candidate_Some [OF Some]
  have eq: "job = c" if "job \<in> set (jd_jobs db)" "jb_id job = jb_id c" for job
    using same_job [OF d] that c(1) by blast
  show ?thesis
  proof (cases "special_kind c")
    case True
    then show ?thesis using Some by (simp add: claimNext_def Let_def unchanged_rows)
  next
    case False
    show ?thesis
    proof (cases "jb_status c = Job_running \<and> jb_attempts c \<ge> jb_maxAttempts c \<and> jb_rerunRequestedAt c = None")
      case True
      then obtain t where t: "jb_lockedAt c = Some t" "t \<le> claimedAt - jc_leaseMs config"
        using c(3) False by (auto simp: is_due_def split: option.splits)
      show ?thesis using Some False True
        by (auto simp: claimNext_def Let_def intro!: update_where_rows dest!: eq intro: row_step.expired [OF _ t])
    next
      case other: False
      have "row_step config (Claim worker skipped claimedAt clock) c
          (claim_row (jw_id worker) claimedAt (jb_status c) (jb_rerunRequestedAt c \<noteq> None) c)"
        if "jb_attempts c < jb_maxAttempts c \<or> (jb_status c = Job_running \<and>
          jb_rerunRequestedAt c \<noteq> None \<and> jb_attempts c = jb_maxAttempts c)"
        using c(3) False that by (rule row_step.claimed)
      then show ?thesis using Some False other
        by (auto simp: claimNext_def Let_def intro!: update_where_rows dest!: eq)
    qed
  qed
qed

lemma find_owned:
  assumes "find (owned jobId workerId) jobs = Some job"
  shows "job \<in> set jobs" "owned jobId workerId job" "jb_id job = jobId"
  using assms by (auto simp: find_Some_iff owned_def)

lemma settle_rows:
  assumes d: "distinct_jobs jobs"
  shows "list_all2 (row_step config (Renew jobId workerId now)) jobs (snd (renewLease jobId workerId now jobs))"
    and "list_all2 (row_step config (Complete jobId workerId now)) jobs (snd (complete jobId workerId now jobs))"
    and "list_all2 (row_step config (Fail jobId workerId safeError retryable now)) jobs
      (snd (settleFailure config jobId workerId safeError retryable now jobs))"
proof -
  have eq: "find (owned jobId workerId) jobs = Some job \<Longrightarrow> j \<in> set jobs \<Longrightarrow> owned (jb_id job) workerId j \<Longrightarrow>
      j = job \<and> owned jobId workerId job" for job j
    using find_owned same_job [OF d] by (metis owned_def)
  show "list_all2 (row_step config (Renew jobId workerId now)) jobs (snd (renewLease jobId workerId now jobs))"
    by (auto simp: renewLease_def unchanged_rows split: option.splits
        intro!: update_where_rows row_step.renewed dest: eq)
  show "list_all2 (row_step config (Complete jobId workerId now)) jobs (snd (complete jobId workerId now jobs))"
    by (auto simp: complete_def unchanged_rows split: option.splits
        intro!: update_where_rows row_step.completed row_step.completed_rerun dest: eq)
  show "list_all2 (row_step config (Fail jobId workerId safeError retryable now)) jobs
      (snd (settleFailure config jobId workerId safeError retryable now jobs))"
    by (auto simp: settleFailure_def Let_def unchanged_rows split: option.splits
        intro!: update_where_rows row_step.failed row_step.failed_rerun dest: eq)
qed

definition inserted :: "job_event \<Rightarrow> job_row list \<Rightarrow> job_row list \<Rightarrow> bool" where
  "inserted e jobs new \<longleftrightarrow> new = [] \<or> (\<exists>newId now input. e = Enqueue newId now input \<and>
     new = [new_job newId now input] \<and> job_constraints (new_job newId now input) \<and>
     newId \<notin> jb_id ` set jobs \<and>
     (ej_deduplicationKey input = None \<or> ej_deduplicationKey input \<notin> jb_deduplicationKey ` set jobs))"

lemma job_apply_rows:
  assumes "distinct_jobs (jd_jobs db)"
  obtains rows new where "jd_jobs (job_apply config e db) = rows @ new"
    "list_all2 (row_step config e) (jd_jobs db) rows" "inserted e (jd_jobs db) new"
proof (cases e)
  case (Enqueue newId now input)
  show ?thesis
  proof (cases "enqueueJob newId now input (jd_jobs db)")
    case (Inl err)
    then show ?thesis using that [of "jd_jobs db" "[]"] Enqueue by (simp add: unchanged_rows inserted_def)
  next
    case (Inr r)
    then have "snd r = jd_jobs db \<or> (snd r = jd_jobs db @ [new_job newId now input] \<and>
        inserted e (jd_jobs db) [new_job newId now input])"
      by (auto simp: enqueueJob_def Let_def inserted_def Enqueue split: if_splits option.splits)
    then show ?thesis
      using that [of "jd_jobs db" "[]"] that [of "jd_jobs db" "[new_job newId now input]"] Inr Enqueue
      by (cases r) (auto simp: unchanged_rows inserted_def)
  qed
next
  case (Request_rerun jobId now)
  have "list_all2 (row_step config e) (jd_jobs db) (request_rerun jobId now (jd_jobs db))"
    unfolding Request_rerun request_rerun_def by (auto intro!: update_where_rows row_step.rerun_marked)
  then show ?thesis using that [of _ "[]"] Request_rerun by (simp add: inserted_def)
next
  case (Adopt jobId now na re payload)
  have "list_all2 (row_step config e) (jd_jobs db) (adopt_classification jobId now na re payload (jd_jobs db))"
    unfolding Adopt adopt_classification_def
    by (auto simp: unchanged_rows intro!: update_where_rows row_step.adopted)
  then show ?thesis using that [of _ "[]"] Adopt by (simp add: inserted_def)
next
  case (Claim worker skipped claimedAt clock)
  then show ?thesis using that [of _ "[]"] claim_rows [OF assms] by (simp add: inserted_def)
next
  case (Renew jobId workerId now)
  then show ?thesis using that [of _ "[]"] settle_rows(1) [OF assms] by (simp add: inserted_def)
next
  case (Complete jobId workerId now)
  then show ?thesis using that [of _ "[]"] settle_rows(2) [OF assms] by (simp add: inserted_def)
next
  case (Fail jobId workerId safeError retryable now)
  then show ?thesis using that [of _ "[]"] settle_rows(3) [OF assms] by (simp add: inserted_def)
qed

section \<open>The invariant of the table\<close>

definition job_ok :: "job_row \<Rightarrow> bool" where
  "job_ok job \<longleftrightarrow> job_constraints job \<and> jb_attempts job \<le> jb_maxAttempts job \<and>
     (jb_status job = Job_pending \<longrightarrow> jb_attempts job < jb_maxAttempts job) \<and>
     (jb_status job = Job_running \<longrightarrow> 1 \<le> jb_attempts job)"

definition jobs_wf :: "job_row list \<Rightarrow> bool" where
  "jobs_wf jobs \<longleftrightarrow> distinct_jobs jobs \<and>
     distinct (filter (\<lambda>k. k \<noteq> None) (map jb_deduplicationKey jobs)) \<and> (\<forall>job \<in> set jobs. job_ok job)"

lemma row_step_same:
  "row_step config e job job' \<Longrightarrow> jb_id job' = jb_id job \<and> jb_type job' = jb_type job \<and>
     jb_deduplicationKey job' = jb_deduplicationKey job \<and> jb_maxAttempts job' = jb_maxAttempts job \<and>
     jb_createdAt job' = jb_createdAt job"
  by (induction rule: row_step.induct) (simp_all add: row_updates Let_def)

lemma row_step_ok: "row_step config e job job' \<Longrightarrow> job_ok job \<Longrightarrow> job_ok job'"
proof (induction rule: row_step.induct)
  case (claimed claimedAt clock job worker skipped)
  then show ?case
    by (cases "jb_status job") (auto simp: job_ok_def job_constraints_def claim_row_def is_due_def)
next
  case (adopted na re job now payload)
  then show ?case
    by (cases "jb_status job") (auto simp: job_ok_def job_constraints_def adopt_row_def Let_def)
qed (auto simp: job_ok_def job_constraints_def row_updates owned_def Let_def)

lemma new_job_keys [simp]:
  "jb_id (new_job newId now input) = newId"
  "jb_deduplicationKey (new_job newId now input) = ej_deduplicationKey input"
  by (simp_all add: new_job_def)

lemma new_job_ok: "job_constraints (new_job newId now input) \<Longrightarrow> job_ok (new_job newId now input)"
  by (simp add: job_ok_def job_constraints_def new_job_def)

lemma row_steps_keys:
  assumes "list_all2 (row_step config e) jobs rows"
  shows "map jb_id rows = map jb_id jobs" "map jb_deduplicationKey rows = map jb_deduplicationKey jobs"
  using assms by (induction rule: list_all2_induct) (auto dest: row_step_same)

lemma job_apply_wf:
  assumes "jobs_wf (jd_jobs db)"
  shows "jobs_wf (jd_jobs (job_apply config e db))"
proof -
  have "distinct_jobs (jd_jobs db)" using assms by (simp add: jobs_wf_def)
  then obtain rows new where split: "jd_jobs (job_apply config e db) = rows @ new"
    and rows: "list_all2 (row_step config e) (jd_jobs db) rows" and new: "inserted e (jd_jobs db) new"
    by (rule job_apply_rows)
  note keys = row_steps_keys [OF rows]
  have ids: "jb_id ` set rows = jb_id ` set (jd_jobs db)"
    "jb_deduplicationKey ` set rows = jb_deduplicationKey ` set (jd_jobs db)"
    using keys by (metis set_map)+
  have "\<forall>job \<in> set (jd_jobs db). job_ok job" using assms by (simp add: jobs_wf_def)
  with rows have "\<forall>job \<in> set rows. job_ok job"
    by (induction rule: list_all2_induct) (auto intro: row_step_ok)
  then have "jobs_wf rows" using assms keys by (simp add: jobs_wf_def distinct_jobs_def)
  then show ?thesis using new ids unfolding split inserted_def
    by (auto simp: jobs_wf_def distinct_jobs_def new_job_ok image_iff)
qed

lemma run_jobs_Cons [simp]:
  "run_jobs config [] db = db" "run_jobs config (e # es) db = run_jobs config es (job_apply config e db)"
  by (simp_all add: run_jobs_def)

lemma run_jobs_wf: "jobs_wf (jd_jobs db) \<Longrightarrow> jobs_wf (jd_jobs (run_jobs config events db))"
  by (induction events arbitrary: db) (simp_all add: job_apply_wf)

section \<open>Following one job\<close>

definition job_at :: "job_db \<Rightarrow> string \<Rightarrow> job_row" where
  "job_at db k = (case find (\<lambda>job. jb_id job = k) (jd_jobs db) of Some job \<Rightarrow> job | None \<Rightarrow> undefined)"

lemma job_at_eq:
  assumes "jobs_wf (jd_jobs db)" and "job \<in> set (jd_jobs db)" and "jb_id job = k"
  shows "job_at db k = job"
proof (cases "find (\<lambda>job. jb_id job = k) (jd_jobs db)")
  case None
  then show ?thesis using assms by (auto simp: find_None_iff)
next
  case (Some other)
  then have "other \<in> set (jd_jobs db)" "jb_id other = k" by (auto simp: find_Some_iff)
  then show ?thesis using Some assms same_job by (auto simp: job_at_def jobs_wf_def)
qed

definition has_job :: "job_db \<Rightarrow> string \<Rightarrow> bool" where
  "has_job db k \<longleftrightarrow> k \<in> jb_id ` set (jd_jobs db)"

lemma job_at_mem:
  assumes "jobs_wf (jd_jobs db)" and "has_job db k"
  shows "job_at db k \<in> set (jd_jobs db)" "jb_id (job_at db k) = k" "job_ok (job_at db k)"
proof -
  obtain job where "job \<in> set (jd_jobs db)" "jb_id job = k" using assms(2) by (auto simp: has_job_def)
  then show "job_at db k \<in> set (jd_jobs db)" "jb_id (job_at db k) = k" "job_ok (job_at db k)"
    using job_at_eq [OF assms(1)] assms(1) by (auto simp: jobs_wf_def)
qed

lemma job_at_step:
  assumes wf: "jobs_wf (jd_jobs db)" and k: "has_job db k"
  shows "has_job (job_apply config e db) k" "row_step config e (job_at db k) (job_at (job_apply config e db) k)"
proof -
  have "distinct_jobs (jd_jobs db)" using wf by (simp add: jobs_wf_def)
  then obtain rows new where split: "jd_jobs (job_apply config e db) = rows @ new"
    and rows: "list_all2 (row_step config e) (jd_jobs db) rows"
    by (rule job_apply_rows)
  obtain job' where job': "job' \<in> set rows" "row_step config e (job_at db k) job'"
    using list_all2_member [OF rows job_at_mem(1) [OF wf k]] by blast
  then have id: "jb_id job' = k" using row_step_same job_at_mem(2) [OF wf k] by metis
  then show "has_job (job_apply config e db) k" using job'(1) split by (auto simp: has_job_def)
  have "job_at (job_apply config e db) k = job'"
    using job_at_eq [OF job_apply_wf [OF wf]] job'(1) id split by auto
  with job'(2) show "row_step config e (job_at db k) (job_at (job_apply config e db) k)" by simp
qed

text \<open>An invariant of one row is an invariant of every run.\<close>

lemma job_at_invariant:
  assumes "jobs_wf (jd_jobs db)" and "has_job db k" and "P (job_at db k)"
    and "\<And>e job job'. e \<in> set events \<Longrightarrow> row_step config e job job' \<Longrightarrow> job_ok job \<Longrightarrow> jb_id job = k \<Longrightarrow>
      P job \<Longrightarrow> P job'"
  shows "has_job (run_jobs config events db) k \<and> P (job_at (run_jobs config events db) k)"
  using assms
proof (induction events arbitrary: db)
  case (Cons e events)
  note step = job_at_step [OF Cons.prems(1,2), of config e]
  have "P (job_at (job_apply config e db) k)"
    by (rule Cons.prems(4) [OF _ step(2)])
      (simp_all add: Cons.prems(3) job_at_mem [OF Cons.prems(1,2)])
  then have "has_job (run_jobs config events (job_apply config e db)) k \<and>
      P (job_at (run_jobs config events (job_apply config e db)) k)"
    using Cons.prems(4) by (intro Cons.IH job_apply_wf Cons.prems(1) step(1)) auto
  then show ?case by simp
qed simp

section \<open>Counting claims\<close>

fun claims_job :: "job_config \<Rightarrow> string \<Rightarrow> job_event \<Rightarrow> job_db \<Rightarrow> bool" where
  "claims_job config k (Claim worker skipped claimedAt clock) db =
     (case fst (claimNext config worker skipped claimedAt clock db) of
        Claimed job \<Rightarrow> jb_id job = k | _ \<Rightarrow> False)"
| "claims_job config k _ db = False"

fun claims :: "job_config \<Rightarrow> string \<Rightarrow> job_event list \<Rightarrow> job_db \<Rightarrow> nat" where
  "claims config k [] db = 0"
| "claims config k (e # events) db =
     (if claims_job config k e db then 1 else 0) + claims config k events (job_apply config e db)"

end
