(* ===== verification/JobRuns.thy ===== *)
theory JobRuns
  imports JobQueue
begin

text \<open>
  What runs of the job queue guarantee: the invariant of the table, exclusive leases, bounded
  attempts, reruns that are never lost, and polling that drains the queue.
\<close>

section \<open>One claim\<close>

lemma update_where_cong:
  "(\<And>job. job \<in> set jobs \<Longrightarrow> P job = Q job) \<Longrightarrow> update_where P f jobs = update_where Q f jobs"
  by (simp add: update_where_def)

lemma claimNext_cases [consumes 1, case_names nothing expired claimed]:
  assumes wf: "jobs_wf (jd_jobs db)"
  obtains
    "snd (claimNext config worker skipped claimedAt clock db) = jd_jobs db"
    "\<forall>job. fst (claimNext config worker skipped claimedAt clock db) \<noteq> Claimed job"
    "\<forall>c. claim_candidate config worker skipped claimedAt clock db = Some c \<longrightarrow> special_kind c"
  | c where "claim_candidate config worker skipped claimedAt clock db = Some c" "\<not> special_kind c"
    "claimNext config worker skipped claimedAt clock db = (No_claim,
      update_where (\<lambda>job. jb_id job = jb_id c) (expire_row claimedAt) (jd_jobs db))"
    "jb_status c = Job_running" "jb_attempts c = jb_maxAttempts c" "jb_rerunRequestedAt c = None"
  | c where "claim_candidate config worker skipped claimedAt clock db = Some c" "\<not> special_kind c"
    "claimNext config worker skipped claimedAt clock db =
      (Claimed (claim_row (jw_id worker) claimedAt (jb_status c) (jb_rerunRequestedAt c \<noteq> None) c),
       update_where (\<lambda>job. jb_id job = jb_id c)
        (claim_row (jw_id worker) claimedAt (jb_status c) (jb_rerunRequestedAt c \<noteq> None)) (jd_jobs db))"
    "jb_attempts c < jb_maxAttempts c \<or> (jb_status c = Job_running \<and> jb_rerunRequestedAt c \<noteq> None)"
proof (cases "claim_candidate config worker skipped claimedAt clock db")
  case None
  then show thesis using that(1) by (simp add: claimNext_def)
next
  case (Some c)
  note c = claim_candidate_Some [OF Some]
  have ok: "job_ok c" and eq: "\<And>job. job \<in> set (jd_jobs db) \<Longrightarrow> jb_id job = jb_id c \<Longrightarrow> job = c"
    using wf c(1) same_job by (auto simp: jobs_wf_def)
  consider "special_kind c"
    | "\<not> special_kind c" "jb_status c = Job_running" "jb_attempts c \<ge> jb_maxAttempts c" "jb_rerunRequestedAt c = None"
    | "\<not> special_kind c" "jb_attempts c < jb_maxAttempts c \<or> (jb_status c = Job_running \<and> jb_rerunRequestedAt c \<noteq> None)"
    using ok c(3) by (fastforce simp: job_ok_def is_due_def)
  then show thesis
  proof cases
    case 1
    then show thesis using that(1) Some by (simp add: claimNext_def Let_def)
  next
    case 2
    have "update_where (\<lambda>job. jb_id job = jb_id c \<and> jb_status job = Job_running \<and>
        jb_lockedBy job = jb_lockedBy c \<and> jb_attempts job = jb_attempts c \<and>
        jb_attempts job \<ge> jb_maxAttempts job) (expire_row claimedAt) (jd_jobs db) =
      update_where (\<lambda>job. jb_id job = jb_id c) (expire_row claimedAt) (jd_jobs db)"
      using 2 by (intro update_where_cong) (auto dest: eq)
    then show thesis using that(2) [OF Some] 2 Some ok by (simp add: claimNext_def Let_def job_ok_def)
  next
    case 3
    let ?m = "\<lambda>job. jb_id job = jb_id c \<and> jb_status job = jb_status c \<and> jb_attempts job = jb_attempts c \<and>
      (jb_attempts job < jb_maxAttempts job \<or> (jb_status c = Job_running \<and> jb_rerunRequestedAt c \<noteq> None \<and>
        jb_rerunRequestedAt job \<noteq> None \<and> jb_attempts job = jb_maxAttempts job))"
    have mc: "?m c" using 3 ok by (auto simp: job_ok_def)
    then obtain job where job: "find ?m (jd_jobs db) = Some job"
      using c(1) by (cases "find ?m (jd_jobs db)") (auto simp: find_None_iff)
    then have "job \<in> set (jd_jobs db)" "jb_id job = jb_id c" by (auto simp: find_Some_iff)
    then have "job = c" by (rule eq)
    moreover have "update_where ?m f (jd_jobs db) = update_where (\<lambda>job. jb_id job = jb_id c) f (jd_jobs db)" for f
      using mc by (intro update_where_cong) (auto dest: eq)
    moreover have "\<not> (jb_status c = Job_running \<and> jb_attempts c \<ge> jb_maxAttempts c \<and> jb_rerunRequestedAt c = None)"
      using 3 by auto
    ultimately show thesis using that(3) [OF Some 3(1)] 3 Some job
      by (simp add: claimNext_def Let_def)
  qed
qed

lemma row_ids [simp]:
  "jb_id (expire_row claimedAt job) = jb_id job" "jb_id (claim_row w claimedAt st had job) = jb_id job"
  by (simp_all add: expire_row_def claim_row_def Let_def)

lemma job_at_update:
  assumes wf: "jobs_wf (jd_jobs db)" "jobs_wf (jd_jobs db')" and k: "has_job db k"
    and upd: "jd_jobs db' = update_where (\<lambda>job. jb_id job = i) f (jd_jobs db)"
    and id: "\<And>job. jb_id (f job) = jb_id job"
  shows "job_at db' k = (if k = i then f (job_at db k) else job_at db k)"
proof (rule job_at_eq [OF wf(2)])
  note mem = job_at_mem [OF wf(1) k]
  show "jb_id (if k = i then f (job_at db k) else job_at db k) = k" by (simp only: if_distrib id mem(2) if_cancel)
  have "(if jb_id (job_at db k) = i then f (job_at db k) else job_at db k) \<in> set (jd_jobs db')"
    unfolding upd update_where_def set_map by (rule image_eqI [OF refl mem(1)])
  then show "(if k = i then f (job_at db k) else job_at db k) \<in> set (jd_jobs db')" by (simp add: mem(2))
qed

lemma claim_job_at:
  fixes config worker skipped claimedAt clock
  defines "e \<equiv> Claim worker skipped claimedAt clock"
  assumes wf: "jobs_wf (jd_jobs db)" and k: "has_job db k"
  shows "if claims_job config k e db
    then job_at (job_apply config e db) k = claim_row (jw_id worker) claimedAt (jb_status (job_at db k))
        (jb_rerunRequestedAt (job_at db k) \<noteq> None) (job_at db k) \<and>
      (jb_attempts (job_at db k) < jb_maxAttempts (job_at db k) \<or> (jb_status (job_at db k) = Job_running \<and>
        jb_rerunRequestedAt (job_at db k) \<noteq> None))
    else job_at (job_apply config e db) k = job_at db k \<or>
      (job_at (job_apply config e db) k = expire_row claimedAt (job_at db k) \<and>
       jb_status (job_at db k) = Job_running \<and> jb_rerunRequestedAt (job_at db k) = None \<and>
       jb_attempts (job_at db k) = jb_maxAttempts (job_at db k))"
proof -
  note wf' = job_apply_wf [OF wf, of config e]
  show ?thesis
  proof (cases rule: claimNext_cases [OF wf, of config worker skipped claimedAt clock])
    case 1
    then have "job_apply config e db = db" by (simp add: e_def)
    then show ?thesis using 1 by (auto simp: e_def split: claim_result.splits)
  next
    case (2 c)
    have c: "jb_id c = k \<Longrightarrow> job_at db k = c"
      using job_at_eq [OF wf claim_candidate_Some(1) [OF 2(1)]] by simp
    have "job_at (job_apply config e db) k =
        (if k = jb_id c then expire_row claimedAt (job_at db k) else job_at db k)"
      using 2 by (intro job_at_update [OF wf wf' k]) (simp_all add: e_def)
    then show ?thesis using 2 c by (auto simp: e_def)
  next
    case (3 c)
    have c: "jb_id c = k \<Longrightarrow> job_at db k = c"
      using job_at_eq [OF wf claim_candidate_Some(1) [OF 3(1)]] by simp
    have "job_at (job_apply config e db) k = (if k = jb_id c
        then claim_row (jw_id worker) claimedAt (jb_status c) (jb_rerunRequestedAt c \<noteq> None) (job_at db k)
        else job_at db k)"
      using 3 by (intro job_at_update [OF wf wf' k]) (simp_all add: e_def)
    then show ?thesis using 3 c by (auto simp: e_def claim_row_def)
  qed
qed

text \<open>What other events may do to a job whose rerun is not requested, and to one whose rerun is.\<close>

definition asks_again :: "string \<Rightarrow> job_event \<Rightarrow> bool" where
  "asks_again k e \<longleftrightarrow> (case e of Request_rerun i _ \<Rightarrow> i = k | Adopt i _ _ _ _ \<Rightarrow> i = k | _ \<Rightarrow> False)"

definition attempts_left :: "job_row \<Rightarrow> int" where
  "attempts_left job = jb_maxAttempts job - jb_attempts job"

lemma step_attempts:
  assumes "row_step config e job job'" and "jb_rerunRequestedAt job = None" and "\<not> asks_again (jb_id job) e"
    and "\<forall>worker skipped claimedAt clock. e \<noteq> Claim worker skipped claimedAt clock"
  shows "jb_rerunRequestedAt job' = None \<and> attempts_left job' = attempts_left job"
  using assms by (cases rule: row_step.cases)
    (auto simp: row_updates asks_again_def attempts_left_def Let_def)

definition served_again :: "job_row \<Rightarrow> bool" where
  "served_again job \<longleftrightarrow> jb_status job = Job_pending \<or>
     (jb_status job = Job_running \<and> jb_rerunRequestedAt job \<noteq> None)"

lemma step_served:
  assumes "row_step config e job job'" and "served_again job"
    and "\<forall>worker skipped claimedAt clock. e \<noteq> Claim worker skipped claimedAt clock"
  shows "served_again job'"
  using assms by (cases rule: row_step.cases) (auto simp: row_updates served_again_def owned_def Let_def)

lemma event_claim_cases:
  obtains worker skipped claimedAt clock where "e = Claim worker skipped claimedAt clock"
  | "\<forall>worker skipped claimedAt clock. e \<noteq> Claim worker skipped claimedAt clock" "\<not> claims_job config k e db"
  by (cases e) auto

lemma claims_bound:
  "jobs_wf (jd_jobs db) \<Longrightarrow> has_job db k \<Longrightarrow> jb_rerunRequestedAt (job_at db k) = None \<Longrightarrow>
     \<forall>e \<in> set events. \<not> asks_again k e \<Longrightarrow> int (claims config k events db) \<le> attempts_left (job_at db k)"
proof (induction events arbitrary: db)
  case Nil
  then show ?case using job_at_mem(3) [OF Nil(1,2)] by (simp add: attempts_left_def job_ok_def)
next
  case (Cons e events)
  note wf = Cons.prems(1) and k = Cons.prems(2)
  let ?db = "job_apply config e db"
  note step = job_at_step [OF wf k, of config e]
  have "jb_rerunRequestedAt (job_at ?db k) = None \<and>
      attempts_left (job_at ?db k) + (if claims_job config k e db then 1 else 0) \<le> attempts_left (job_at db k)"
  proof (cases rule: event_claim_cases [where e = e and config = config and k = k and db = db])
    case (1 worker skipped claimedAt clock)
    show ?thesis using claim_job_at [OF wf k, of config worker skipped claimedAt clock] Cons.prems(3)
      by (auto simp: 1 claim_row_def expire_row_def Let_def attempts_left_def split: if_splits)
  next
    case 2
    then show ?thesis
      using step_attempts [OF step(2) Cons.prems(3)] Cons.prems(4) job_at_mem(2) [OF wf k] by simp
  qed
  moreover have "int (claims config k events ?db) \<le> attempts_left (job_at ?db k)"
    if "jb_rerunRequestedAt (job_at ?db k) = None"
    using that Cons.prems(4) by (intro Cons.IH job_apply_wf wf step(1)) auto
  ultimately show ?case by auto
qed

lemma rerun_served:
  "jobs_wf (jd_jobs db) \<Longrightarrow> has_job db k \<Longrightarrow> served_again (job_at db k) \<Longrightarrow> claims config k events db = 0 \<Longrightarrow>
     served_again (job_at (run_jobs config events db) k)"
proof (induction events arbitrary: db)
  case (Cons e events)
  note wf = Cons.prems(1) and k = Cons.prems(2)
  let ?db = "job_apply config e db"
  note step = job_at_step [OF wf k, of config e]
  have no: "\<not> claims_job config k e db" and rest: "claims config k events ?db = 0"
    using Cons.prems(4) by (simp_all split: if_splits)
  have "served_again (job_at ?db k)"
  proof (cases rule: event_claim_cases [where e = e and config = config and k = k and db = db])
    case (1 worker skipped claimedAt clock)
    show ?thesis using claim_job_at [OF wf k, of config worker skipped claimedAt clock] no Cons.prems(3)
      by (auto simp: 1 expire_row_def Let_def served_again_def)
  next
    case 2
    then show ?thesis using step_served [OF step(2) Cons.prems(3)] by simp
  qed
  then show ?case using Cons.IH [OF job_apply_wf [OF wf] step(1) _ rest] by simp
qed simp

section \<open>Exclusive leases\<close>

text \<open>Events that do not end the lease of worker \<open>w\<close> on job \<open>k\<close>, which expires at \<open>until\<close>.\<close>

definition respects_lease :: "string \<Rightarrow> string \<Rightarrow> int \<Rightarrow> job_event \<Rightarrow> bool" where
  "respects_lease k w until e = (case e of
     Claim _ _ claimedAt _ \<Rightarrow> claimedAt < until
   | Renew i v _ \<Rightarrow> (i, v) \<noteq> (k, w)
   | Complete i v _ \<Rightarrow> (i, v) \<noteq> (k, w)
   | Fail i v _ _ _ \<Rightarrow> (i, v) \<noteq> (k, w)
   | _ \<Rightarrow> True)"

definition held :: "string \<Rightarrow> int \<Rightarrow> int \<Rightarrow> job_row \<Rightarrow> bool" where
  "held w t n job \<longleftrightarrow> jb_status job = Job_running \<and> jb_lockedBy job = Some w \<and> jb_lockedAt job = Some t \<and>
     jb_attempts job = n"

lemma step_held:
  assumes "row_step config e job job'" and "held w t n job"
    and "respects_lease (jb_id job) w (t + jc_leaseMs config) e"
  shows "held w t n job'"
  using assms
proof (cases rule: row_step.cases)
  case (claimed claimedAt clock worker skipped)
  then show ?thesis using assms(2,3)
    by (auto simp: held_def is_due_def respects_lease_def)
qed (auto simp: row_updates held_def owned_def respects_lease_def Let_def)

lemma not_owner:
  assumes "jobs_wf (jd_jobs db)" and "has_job db k" and "held w t n (job_at db k)" and "v \<noteq> w"
  shows "find (owned k v) (jd_jobs db) = None"
  using assms job_at_eq [OF assms(1), of _ k] by (auto simp: find_None_iff owned_def held_def)

section \<open>Polling\<close>

lemma claimable_cong:
  assumes "list_all2 (\<lambda>a b. jb_type a = jb_type b \<and> jb_payload a = jb_payload b \<and>
      (jb_status a = Job_succeeded \<longleftrightarrow> jb_status b = Job_succeeded)) (jd_jobs db) rows"
  shows "claimableJob policy impl (db\<lparr>jd_jobs := rows\<rparr>) job = claimableJob policy impl db job"
proof -
  let ?open = "\<lambda>child. holds (all3 [Some (jb_type child = FINANCIAL_CLASSIFICATION_JOB),
    eq3 (job_text child ''scanRunId'') (job_text job ''scanRunId''), Some (jb_status child \<noteq> Job_succeeded)])"
  have "(\<exists>child \<in> set (jd_jobs db). ?open child) = (\<exists>child \<in> set rows. ?open child)"
    using assms by (induction rule: list_all2_induct) auto
  then have "replayFinalizerReady (db\<lparr>jd_jobs := rows\<rparr>) job = replayFinalizerReady db job"
    by (simp add: replayFinalizerReady_def)
  then show ?thesis
    by (simp add: claimableJob_def replayImplementationSupported_def providerImplementationSupported_def)
qed

lemma due_update:
  assumes wf: "jobs_wf (jd_jobs db)" and c: "c \<in> set (due_jobs config worker skipped claimedAt clock db)"
    and f: "jb_id (f c) = jb_id c" "jb_type (f c) = jb_type c" "jb_payload (f c) = jb_payload c"
    and s: "jb_status c \<noteq> Job_succeeded" "jb_status (f c) \<noteq> Job_succeeded"
    and gone: "\<not> is_due claimedAt clock (jc_leaseMs config) (f c)"
  defines "rows \<equiv> update_where (\<lambda>job. jb_id job = jb_id c) f (jd_jobs db)"
  shows "due_jobs config worker skipped claimedAt clock (db\<lparr>jd_jobs := rows\<rparr>) =
    filter (\<lambda>job. jb_id job \<noteq> jb_id c) (due_jobs config worker skipped claimedAt clock db)"
proof -
  have eq: "job = c" if "job \<in> set (jd_jobs db)" "jb_id job = jb_id c" for job
    using wf c that same_job by (auto simp: jobs_wf_def due_jobs_def)
  have "list_all2 (\<lambda>a b. jb_type a = jb_type b \<and> jb_payload a = jb_payload b \<and>
      (jb_status a = Job_succeeded \<longleftrightarrow> jb_status b = Job_succeeded)) (jd_jobs db) rows"
    using f s by (auto simp: rows_def update_where_def list_all2_map2 dest!: eq intro!: list.rel_refl_strong)
  note cong = claimable_cong [OF this]
  let ?ok = "\<lambda>job. jb_id job \<notin> skipped \<and> is_due claimedAt clock (jc_leaseMs config) job \<and>
    claimableJob (jw_claimProviderBackedJobs worker) (jw_implementation worker) db job"
  have "filter ?ok (map (\<lambda>job. if jb_id job = jb_id c then f job else job) xs) =
      filter (\<lambda>job. jb_id job \<noteq> jb_id c) (filter ?ok xs)" if "set xs \<subseteq> set (jd_jobs db)" for xs
    using that by (induction xs) (auto dest!: eq simp: gone f)
  from this [of "jd_jobs db"] show ?thesis
    unfolding due_jobs_def cong by (simp add: rows_def update_where_def)
qed

lemma length_filter_other:
  "distinct (map f xs) \<Longrightarrow> c \<in> set xs \<Longrightarrow> length (filter (\<lambda>x. f x \<noteq> f c) xs) = length xs - 1"
proof (induction xs)
  case (Cons x xs)
  show ?case
  proof (cases "x = c")
    case True
    then have "filter (\<lambda>x. f x \<noteq> f c) xs = xs" using Cons.prems(1) by (auto simp: filter_id_conv image_iff)
    then show ?thesis using True by simp
  next
    case False
    then have "c \<in> set xs" "f x \<noteq> f c" using Cons.prems by auto
    then show ?thesis using Cons by (cases xs) auto
  qed
qed simp

text \<open>A job the polling worker has just taken, or that has failed.\<close>

definition taken :: "job_worker \<Rightarrow> int \<Rightarrow> job_row \<Rightarrow> bool" where
  "taken worker claimedAt job \<longleftrightarrow> jb_status job = Job_failed \<or> (jb_status job = Job_running \<and>
     jb_lockedBy job = Some (jw_id worker) \<and> jb_lockedAt job = Some claimedAt)"

lemma step_taken:
  assumes "row_step config (Claim worker skipped claimedAt clock) job job'" and "taken worker claimedAt job"
    and "0 < jc_leaseMs config"
  shows "taken worker claimedAt job'"
  using assms by (cases rule: row_step.cases) (auto simp: taken_def is_due_def)

lemma claim_drains:
  assumes wf: "jobs_wf (jd_jobs db)" and lease: "0 < jc_leaseMs config"
    and ordinary: "\<forall>job \<in> set (due_jobs config worker skipped claimedAt clock db). \<not> special_kind job"
    and some: "due_jobs config worker skipped claimedAt clock db \<noteq> []"
  defines "db' \<equiv> job_apply config (Claim worker skipped claimedAt clock) db"
  obtains c where "c \<in> set (due_jobs config worker skipped claimedAt clock db)"
    "due_jobs config worker skipped claimedAt clock db' =
      filter (\<lambda>job. jb_id job \<noteq> jb_id c) (due_jobs config worker skipped claimedAt clock db)"
    "taken worker claimedAt (job_at db' (jb_id c))"
proof -
  let ?due = "due_jobs config worker skipped claimedAt clock"
  have at: "job_at db' (jb_id c) = f c"
    if "c \<in> set (?due db)" "jd_jobs db' = update_where (\<lambda>job. jb_id job = jb_id c) f (jd_jobs db)"
      "\<And>job. jb_id (f job) = jb_id job" for c f
  proof -
    have c: "c \<in> set (jd_jobs db)" using that(1) by (simp add: due_jobs_def)
    then have "has_job db (jb_id c)" by (simp add: has_job_def)
    have "jobs_wf (jd_jobs db')" unfolding db'_def by (rule job_apply_wf [OF wf])
    from job_at_update [OF wf this \<open>has_job db (jb_id c)\<close> that(2,3)]
    show ?thesis using job_at_eq [OF wf c refl] by (simp add: db'_def)
  qed
  show thesis
  proof (cases rule: claimNext_cases [OF wf, of config worker skipped claimedAt clock])
    case 1
    then have "claim_candidate config worker skipped claimedAt clock db = None"
      using ordinary claim_candidate_Some
      by (cases "claim_candidate config worker skipped claimedAt clock db") (auto simp: due_jobs_def)
    then have "sort_key claim_order (?due db) = []" by (auto simp: claim_candidate_def split: list.splits)
    then have "?due db = []" by (metis length_sort length_0_conv)
    then show thesis using some by simp
  next
    case (2 c)
    have c: "c \<in> set (?due db)" using claim_candidate_Some [OF 2(1)] by (simp add: due_jobs_def)
    have jobs: "jd_jobs db' = update_where (\<lambda>job. jb_id job = jb_id c) (expire_row claimedAt) (jd_jobs db)"
      using 2 by (simp add: db'_def)
    have "?due db' = filter (\<lambda>job. jb_id job \<noteq> jb_id c) (?due db)"
      using 2 due_update [OF wf c, of "expire_row claimedAt"] by (simp add: db'_def expire_row_def is_due_def)
    moreover have "job_at db' (jb_id c) = expire_row claimedAt c" by (rule at [OF c jobs]) simp
    then have "taken worker claimedAt (job_at db' (jb_id c))"
      using 2(6) by (simp add: taken_def expire_row_def)
    ultimately show thesis using that c by blast
  next
    case (3 c)
    let ?f = "claim_row (jw_id worker) claimedAt (jb_status c) (jb_rerunRequestedAt c \<noteq> None)"
    have c: "c \<in> set (?due db)" using claim_candidate_Some [OF 3(1)] by (simp add: due_jobs_def)
    have jobs: "jd_jobs db' = update_where (\<lambda>job. jb_id job = jb_id c) ?f (jd_jobs db)"
      using 3 by (simp add: db'_def)
    have "jb_status c \<noteq> Job_succeeded" using claim_candidate_Some(3) [OF 3(1)] by (auto simp: is_due_def)
    moreover have "\<not> is_due claimedAt clock (jc_leaseMs config) (?f c)"
      using lease 3(2) by (simp add: is_due_def claim_row_def special_kind_def)
    ultimately have "?due db' = filter (\<lambda>job. jb_id job \<noteq> jb_id c) (?due db)"
      using 3 due_update [OF wf c, of ?f] by (simp add: db'_def claim_row_def)
    moreover have "job_at db' (jb_id c) = ?f c" by (rule at [OF c jobs]) simp
    then have "taken worker claimedAt (job_at db' (jb_id c))" by (simp add: taken_def claim_row_def)
    ultimately show thesis using that c by blast
  qed
qed

lemma polling_taken:
  "jobs_wf (jd_jobs db) \<Longrightarrow> 0 < jc_leaseMs config \<Longrightarrow> has_job db k \<Longrightarrow> taken worker claimedAt (job_at db k) \<Longrightarrow>
   taken worker claimedAt (job_at (run_jobs config (replicate n (Claim worker skipped claimedAt clock)) db) k)"
  using job_at_invariant [of db k "taken worker claimedAt" "replicate n (Claim worker skipped claimedAt clock)" config]
    step_taken by (metis in_set_replicate)

lemma polling_drains:
  "jobs_wf (jd_jobs db) \<Longrightarrow> 0 < jc_leaseMs config \<Longrightarrow>
   \<forall>job \<in> set (due_jobs config worker skipped claimedAt clock db). \<not> special_kind job \<Longrightarrow>
   length (due_jobs config worker skipped claimedAt clock db) \<le> n \<Longrightarrow>
   job \<in> set (due_jobs config worker skipped claimedAt clock db) \<Longrightarrow>
   taken worker claimedAt
     (job_at (run_jobs config (replicate n (Claim worker skipped claimedAt clock)) db) (jb_id job))"
proof (induction n arbitrary: db)
  case (Suc n)
  let ?due = "due_jobs config worker skipped claimedAt clock"
  let ?db = "job_apply config (Claim worker skipped claimedAt clock) db"
  have "?due db \<noteq> []" using Suc.prems(5) by auto
  then obtain c where c: "c \<in> set (?due db)" and due: "?due ?db = filter (\<lambda>job. jb_id job \<noteq> jb_id c) (?due db)"
    and taken: "taken worker claimedAt (job_at ?db (jb_id c))"
    by (rule claim_drains [OF Suc.prems(1-3)])
  note wf = job_apply_wf [OF Suc.prems(1), of config "Claim worker skipped claimedAt clock"]
  show ?case
  proof (cases "jb_id job = jb_id c")
    case True
    have "has_job db (jb_id c)" using c by (simp add: has_job_def due_jobs_def)
    from polling_taken [OF wf Suc.prems(2) job_at_step(1) [OF Suc.prems(1) this] taken]
    show ?thesis by (simp only: replicate_Suc run_jobs_Cons True)
  next
    case False
    have "distinct (map jb_id (?due db))"
      using Suc.prems(1) by (simp add: jobs_wf_def distinct_jobs_def due_jobs_def distinct_map_filter)
    then have "length (?due ?db) \<le> n" using length_filter_other [where f = jb_id, OF _ c] Suc.prems(4) unfolding due by simp
    then show ?thesis
      unfolding replicate_Suc run_jobs_Cons
      using Suc.prems(2,3,5) False unfolding due by (intro Suc.IH [OF wf]) (simp_all add: due del: job_apply.simps)
  qed
qed simp

section \<open>Sample queue\<close>

definition sample_job :: "string \<Rightarrow> job_status \<Rightarrow> int \<Rightarrow> int option \<Rightarrow> job_row" where
  "sample_job k status attempts rerun = \<lparr>jb_id = k, jb_type = ''outbox.dispatch'',
     jb_payload = [(''messageId'', Json_text ''m'')], jb_deduplicationKey = Some (''outbox:'' @ k),
     jb_status = status, jb_runAt = 10, jb_attempts = attempts, jb_maxAttempts = 3,
     jb_lockedAt = (if status = Job_running then Some 100 else None),
     jb_lockedBy = (if status = Job_running then Some ''w1'' else None),
     jb_lastError = None, jb_rerunRequestedAt = rerun, jb_completedAt = None, jb_createdAt = 5,
     jb_updatedAt = 100\<rparr>"

definition sample_queue :: job_db where
  "sample_queue = \<lparr>jd_jobs = [sample_job ''1'' Job_running 1 None, sample_job ''2'' Job_pending 0 None,
     sample_job ''3'' Job_running 3 (Some 120)], jd_scanRuns = [], jd_projectionVersions = []\<rparr>"

definition sample_config :: job_config where
  "sample_config = \<lparr>jc_leaseMs = 30, jc_retryBaseMs = 10, jc_retryMaxMs = 60\<rparr>"

definition sample_worker :: "string \<Rightarrow> job_worker" where
  "sample_worker name = \<lparr>jw_id = name, jw_claimProviderBackedJobs = True,
     jw_implementation = \<lparr>iv_classifierVersion = 1, iv_allocationAlgorithmVersion = 1\<rparr>\<rparr>"

lemmas sample_defs = sample_job_def sample_queue_def sample_config_def sample_worker_def

lemma sample_queue_wf: "jobs_wf (jd_jobs sample_queue)"
  by (auto simp: sample_defs jobs_wf_def distinct_jobs_def job_ok_def job_constraints_def)

lemma sample_has_job: "has_job sample_queue ''1''" "has_job sample_queue ''2''" "has_job sample_queue ''3''"
  by (simp_all add: sample_defs has_job_def)

section \<open>Properties\<close>

text \<open>
  C21. Whatever happens to the queue, no transaction of it violates a constraint of the table:
  identifiers and deduplication keys stay unique, a lease exists exactly while a job runs, a
  completion time exactly when it has ended, a rerun request only while it runs. Attempts never
  exceed their bound, a pending job always has one left, and a running one has used at least one.
\<close>
theorem job_table_invariant:
  assumes "jobs_wf (jd_jobs db)" and "job \<in> set (jd_jobs (run_jobs config events db))"
  shows "job_constraints job \<and> 0 \<le> jb_attempts job \<and> jb_attempts job \<le> jb_maxAttempts job \<and>
    (jb_status job = Job_pending \<longrightarrow> jb_attempts job < jb_maxAttempts job) \<and>
    (jb_status job = Job_running \<longrightarrow> 1 \<le> jb_attempts job) \<and>
    distinct (map jb_id (jd_jobs (run_jobs config events db))) \<and>
    distinct (filter (\<lambda>k. k \<noteq> None) (map jb_deduplicationKey (jd_jobs (run_jobs config events db))))"
  using run_jobs_wf [OF assms(1), of config events] assms(2)
  unfolding jobs_wf_def job_ok_def job_constraints_def distinct_jobs_def by blast

theorem job_table_invariant_witness:
  "job_constraints (job_at (run_jobs sample_config [Claim (sample_worker ''w2'') {} 200 200,
     Fail ''1'' ''w2'' ''boom'' True 210] sample_queue) ''2'')"
proof -
  let ?db = "run_jobs sample_config [Claim (sample_worker ''w2'') {} 200 200,
     Fail ''1'' ''w2'' ''boom'' True 210] sample_queue"
  have "has_job ?db ''2''"
    using job_at_invariant [OF sample_queue_wf sample_has_job(2), where P = "\<lambda>_. True"] by blast
  then have "job_at ?db ''2'' \<in> set (jd_jobs ?db)"
    by (rule job_at_mem(1) [OF run_jobs_wf [OF sample_queue_wf]])
  then show ?thesis using job_table_invariant [OF sample_queue_wf] by blast
qed

text \<open>
  C22. A lease is exclusive. While a worker holds the lease of a job and does nothing to it itself,
  nothing other workers do before the lease expires takes the job away: it stays running under that
  worker with the same lease and attempt, and no other worker can renew, complete or fail it.
\<close>
theorem lease_exclusive:
  assumes "jobs_wf (jd_jobs db)" and "job \<in> set (jd_jobs db)"
    and "jb_status job = Job_running" and "jb_lockedBy job = Some w" and "jb_lockedAt job = Some t"
    and "\<forall>e \<in> set events. respects_lease (jb_id job) w (t + jc_leaseMs config) e"
  defines "jobs \<equiv> jd_jobs (run_jobs config events db)"
  shows "(\<exists>job' \<in> set jobs. jb_id job' = jb_id job \<and> jb_status job' = Job_running \<and>
      jb_lockedBy job' = Some w \<and> jb_lockedAt job' = Some t \<and> jb_attempts job' = jb_attempts job) \<and>
    (\<forall>v now safeError retryable. v \<noteq> w \<longrightarrow> renewLease (jb_id job) v now jobs = (False, jobs) \<and>
      complete (jb_id job) v now jobs = (False, jobs) \<and>
      settleFailure config (jb_id job) v safeError retryable now jobs = (Not_applied, jobs))"
proof -
  let ?db = "run_jobs config events db"
  have has: "has_job db (jb_id job)" using assms(2) by (simp add: has_job_def)
  have "held w t (jb_attempts job) (job_at db (jb_id job))"
    using job_at_eq [OF assms(1,2) refl] assms(3-5) by (simp add: held_def)
  then have h: "has_job ?db (jb_id job)" "held w t (jb_attempts job) (job_at ?db (jb_id job))"
    using job_at_invariant [OF assms(1) has, of "held w t (jb_attempts job)" events config] assms(6) step_held
    by metis+
  note mem = job_at_mem [OF run_jobs_wf [OF assms(1)] h(1)]
  have "\<forall>v now safeError retryable. v \<noteq> w \<longrightarrow> renewLease (jb_id job) v now jobs = (False, jobs) \<and>
      complete (jb_id job) v now jobs = (False, jobs) \<and>
      settleFailure config (jb_id job) v safeError retryable now jobs = (Not_applied, jobs)"
    using not_owner [OF run_jobs_wf [OF assms(1)] h]
    by (simp add: jobs_def renewLease_def complete_def settleFailure_def)
  then show ?thesis using mem(1,2) h(2) unfolding jobs_def held_def by blast
qed

definition sample_events :: "job_event list" where
  "sample_events = [Claim (sample_worker ''w2'') {} 125 125, Request_rerun ''1'' 126]"

theorem lease_exclusive_witness:
  "renewLease ''1'' ''w2'' 140 (jd_jobs (run_jobs sample_config sample_events sample_queue)) =
   (False, jd_jobs (run_jobs sample_config sample_events sample_queue))"
proof -
  let ?job = "sample_job ''1'' Job_running 1 None"
  have job: "?job \<in> set (jd_jobs sample_queue)" by (simp add: sample_queue_def)
  have facts: "jb_status ?job = Job_running" "jb_lockedBy ?job = Some ''w1''" "jb_lockedAt ?job = Some 100"
    and id: "jb_id ?job = ''1''" by (simp_all add: sample_job_def)
  have "\<forall>e \<in> set sample_events. respects_lease (jb_id ?job) ''w1'' (100 + jc_leaseMs sample_config) e"
    by (simp add: sample_events_def respects_lease_def sample_config_def id)
  note L = lease_exclusive [OF sample_queue_wf job facts this, unfolded id, THEN conjunct2, rule_format, of "''w2''"]
  show ?thesis by (rule L [THEN conjunct1]) simp
qed

text \<open>
  C23. Attempts are bounded: as long as nobody asks for a job to run again, it is claimed at most as
  often as it has attempts left, however often workers crash, lose their leases or report failures.
\<close>
theorem job_claims_bounded:
  assumes "jobs_wf (jd_jobs db)" and "job \<in> set (jd_jobs db)" and "jb_rerunRequestedAt job = None"
    and "\<forall>e \<in> set events. \<not> asks_again (jb_id job) e"
  shows "int (claims config (jb_id job) events db) \<le> jb_maxAttempts job - jb_attempts job"
proof -
  have "has_job db (jb_id job)" "job_at db (jb_id job) = job"
    using assms(2) job_at_eq [OF assms(1,2) refl] by (auto simp: has_job_def)
  then show ?thesis using claims_bound [OF assms(1), of "jb_id job" events config] assms(3,4)
    by (simp add: attempts_left_def)
qed

theorem job_claims_bounded_witness:
  "int (claims sample_config ''2'' (replicate 20 (Claim (sample_worker ''w2'') {} 200 200)) sample_queue) \<le> 3"
proof -
  have job: "sample_job ''2'' Job_pending 0 None \<in> set (jd_jobs sample_queue)" by (simp add: sample_queue_def)
  show ?thesis
    using job_claims_bounded [OF sample_queue_wf job, of "replicate 20 (Claim (sample_worker ''w2'') {} 200 200)"
      sample_config] by (simp add: sample_job_def asks_again_def)
qed

text \<open>
  C24. A requested rerun is not lost: when a running job is asked to run again, it cannot end,
  whatever becomes of the running attempt, without having been claimed once more.
\<close>
theorem rerun_request_served:
  assumes "jobs_wf (jd_jobs db)" and "job \<in> set (jd_jobs db)"
    and "jb_status job = Job_running" and "jb_rerunRequestedAt job \<noteq> None"
    and "job' \<in> set (jd_jobs (run_jobs config events db))" and "jb_id job' = jb_id job"
    and "jb_status job' \<in> {Job_succeeded, Job_failed}"
  shows "0 < claims config (jb_id job) events db"
proof (rule ccontr)
  assume "\<not> ?thesis"
  then have none: "claims config (jb_id job) events db = 0" by simp
  have has: "has_job db (jb_id job)" using assms(2) by (simp add: has_job_def)
  have "served_again (job_at db (jb_id job))"
    using job_at_eq [OF assms(1,2) refl] assms(3,4) by (simp add: served_again_def)
  from rerun_served [OF assms(1) has this none]
  have "served_again job'" using job_at_eq [OF run_jobs_wf [OF assms(1)] assms(5,6)] by simp
  then show False using assms(7) by (auto simp: served_again_def)
qed

lemma sample_rerun_done:
  "(\<lambda>job. jb_id job = ''3'' \<and> jb_status job = Job_succeeded) (job_at (run_jobs sample_config
     [Claim (sample_worker ''w2'') {''1'', ''2''} 130 130, Complete ''3'' ''w2'' 131] sample_queue) ''3'')"
  by code_simp

theorem rerun_request_served_witness:
  "0 < claims sample_config ''3'' [Claim (sample_worker ''w2'') {''1'', ''2''} 130 130,
     Complete ''3'' ''w2'' 131] sample_queue"
proof -
  let ?job = "sample_job ''3'' Job_running 3 (Some 120)"
  let ?es = "[Claim (sample_worker ''w2'') {''1'', ''2''} 130 130, Complete ''3'' ''w2'' 131]"
  have job: "?job \<in> set (jd_jobs sample_queue)" by (simp add: sample_queue_def)
  have facts: "jb_status ?job = Job_running" "jb_rerunRequestedAt ?job \<noteq> None" and id: "jb_id ?job = ''3''"
    by (simp_all add: sample_job_def)
  have "has_job (run_jobs sample_config ?es sample_queue) ''3''"
    using job_at_invariant [OF sample_queue_wf sample_has_job(3), where P = "\<lambda>_. True"] by blast
  note mem = job_at_mem(1) [OF run_jobs_wf [OF sample_queue_wf] this]
  show ?thesis
    using rerun_request_served [OF sample_queue_wf job facts mem, unfolded id] sample_rerun_done by blast
qed

text \<open>
  Polling drains the queue: when a worker claims as often as there are jobs due for it, while
  nobody else interferes, every one of them has been taken. It runs under the worker, or it has
  failed because the lease of its last attempt had expired. No due job is starved by the others or by
  the SQL conditions that look at other jobs.
\<close>
theorem polling_drains_queue:
  assumes "jobs_wf (jd_jobs db)" and "0 < jc_leaseMs config"
    and "\<forall>job \<in> set (due_jobs config worker skipped claimedAt clock db). \<not> special_kind job"
    and "length (due_jobs config worker skipped claimedAt clock db) \<le> n"
    and "job \<in> set (due_jobs config worker skipped claimedAt clock db)"
  shows "\<exists>job' \<in> set (jd_jobs (run_jobs config (replicate n (Claim worker skipped claimedAt clock)) db)).
    jb_id job' = jb_id job \<and> (jb_status job' = Job_failed \<or> (jb_status job' = Job_running \<and>
      jb_lockedBy job' = Some (jw_id worker) \<and> jb_lockedAt job' = Some claimedAt))"
proof -
  let ?es = "replicate n (Claim worker skipped claimedAt clock)"
  have has: "has_job db (jb_id job)" using assms(5) by (simp add: has_job_def due_jobs_def)
  have "has_job (run_jobs config ?es db) (jb_id job)"
    using job_at_invariant [OF assms(1) has, where P = "\<lambda>_. True"] by blast
  from job_at_mem [OF run_jobs_wf [OF assms(1)] this] polling_drains [OF assms]
  show ?thesis unfolding taken_def by blast
qed

lemma sample_due:
  "map jb_id (due_jobs sample_config (sample_worker ''w2'') {} 200 200 sample_queue) = [''1'', ''2'', ''3'']"
  "list_all (\<lambda>job. \<not> special_kind job) (due_jobs sample_config (sample_worker ''w2'') {} 200 200 sample_queue)"
  by code_simp+

theorem polling_drains_queue_witness:
  "list_ex (\<lambda>job'. jb_id job' = ''2'' \<and> (jb_status job' = Job_failed \<or> (jb_status job' = Job_running \<and>
      jb_lockedBy job' = Some ''w2'' \<and> jb_lockedAt job' = Some 200)))
    (jd_jobs (run_jobs sample_config (replicate 3 (Claim (sample_worker ''w2'') {} 200 200)) sample_queue))"
proof -
  let ?due = "due_jobs sample_config (sample_worker ''w2'') {} 200 200 sample_queue"
  have len: "length ?due \<le> 3" using arg_cong [OF sample_due(1), of length] by simp
  have "''2'' \<in> jb_id ` set ?due" using arg_cong [OF sample_due(1), of set] by simp
  then obtain job where job: "job \<in> set ?due" and id: "jb_id job = ''2''" by auto
  have ordinary: "\<forall>job \<in> set ?due. \<not> special_kind job" using sample_due(2) by (simp add: list_all_iff)
  have lease: "0 < jc_leaseMs sample_config" by (simp add: sample_config_def)
  have name: "jw_id (sample_worker ''w2'') = ''w2''" by (simp add: sample_worker_def)
  show ?thesis
    using polling_drains_queue [OF sample_queue_wf lease ordinary len job, unfolded id name]
    unfolding list_ex_iff .
qed

end
