(* ===== verification/SalesCsv.thy ===== *)
theory SalesCsv
  imports Prelude
begin

text \<open>
  The sales export, \<^verbatim>\<open>commerce/reporting/csv.ts\<close>: cells, rows and the serialized file with its
  bounds. Text is given by its UTF-8 bytes; the characters the code looks for are all ASCII, so they
  are the same in both encodings. The reader below is the specification: the reading of a file by
  RFC 4180.
\<close>

datatype csv_error = Sales_reporting_input

type_synonym 'a csv = "csv_error + 'a"

definition SALES_CSV_MAX_ROWS :: nat where "SALES_CSV_MAX_ROWS = 10000"

definition SALES_CSV_MAX_BYTES :: nat where "SALES_CSV_MAX_BYTES = 10 * 1024 * 1024"

abbreviation tab :: char where "tab \<equiv> CHR 0x09"
abbreviation lf :: char where "lf \<equiv> CHR 0x0A"
abbreviation cr :: char where "cr \<equiv> CHR 0x0D"
abbreviation dquote :: char where "dquote \<equiv> CHR 0x22"
abbreviation apostrophe :: char where "apostrophe \<equiv> CHR 0x27"
abbreviation comma :: char where "comma \<equiv> CHR 0x2C"

section \<open>Cells\<close>

definition formula_prefix :: "char \<Rightarrow> bool" where
  "formula_prefix c \<longleftrightarrow> c \<in> {CHR ''='', CHR ''+'', CHR ''-'', CHR ''@'', tab, cr, lf}"

definition neutralizeCsvText :: "string \<Rightarrow> string" where
  "neutralizeCsvText value =
     (case value of
        [] \<Rightarrow> value
      | c # _ \<Rightarrow>
          if c \<in> {tab, cr, lf} then apostrophe # value
          else (case dropWhile (\<lambda>d. d = CHR '' '') value of
              [] \<Rightarrow> value
            | d # _ \<Rightarrow> if formula_prefix d then apostrophe # value else value))"

definition needs_quotes :: "char \<Rightarrow> bool" where
  "needs_quotes c \<longleftrightarrow> c \<in> {dquote, comma, cr, lf}"

definition double_quotes :: "string \<Rightarrow> string" where
  "double_quotes s = concat (map (\<lambda>c. if c = dquote then [dquote, dquote] else [c]) s)"

definition textCell :: "string \<Rightarrow> string" where
  "textCell value =
     (let neutralized = neutralizeCsvText value in
      if \<not> list_ex needs_quotes neutralized then neutralized
      else dquote # double_quotes neutralized @ [dquote])"

definition integerCell :: "int \<Rightarrow> string csv" where
  "integerCell value = (if \<not> safe_integer value then Inl Sales_reporting_input else Inr (int_text value))"

definition nullableIntegerCell :: "int option \<Rightarrow> string csv" where
  "nullableIntegerCell value = (case value of None \<Rightarrow> Inr [] | Some v \<Rightarrow> integerCell v)"

definition booleanCell :: "bool \<Rightarrow> string" where
  "booleanCell value = (if value then ''true'' else ''false'')"

definition nullableTextCell :: "string option \<Rightarrow> string" where
  "nullableTextCell value = (case value of None \<Rightarrow> [] | Some v \<Rightarrow> textCell v)"

section \<open>Rows\<close>

record sales_csv_row =
  sv_currentTitle :: string
  sv_titleId :: string
  sv_format :: string
  sv_archived :: bool
  sv_presentmentCurrency :: string
  sv_settlementCurrency :: string
  sv_soldCopies :: int
  sv_fullyRefundedCopies :: int
  sv_netCopies :: int
  sv_grossPresentmentMinor :: int
  sv_finalizedRefundPresentmentMinor :: int
  sv_disputeWithdrawalPresentmentMinor :: int
  sv_disputeReinstatementPresentmentMinor :: int
  sv_grossSettlementMinor :: "int option"
  sv_refundImpactMinor :: "int option"
  sv_disputeImpactMinor :: "int option"
  sv_processingFeeImpactMinor :: "int option"
  sv_refundFeeImpactMinor :: "int option"
  sv_disputeFeeImpactMinor :: "int option"
  sv_otherFeeImpactMinor :: "int option"
  sv_estimatedPayoutMinor :: "int option"
  sv_settlementMetricsComplete :: bool
  sv_missingSourceCount :: int
  sv_state :: string
  sv_range :: string
  sv_dataThroughAt :: "string option"
  sv_soldAsVariantsJson :: string

definition SALES_CSV_ROW_DTO_KEYS :: "string list" where
  "SALES_CSV_ROW_DTO_KEYS = [''currentTitle'', ''titleId'', ''format'', ''archived'',
     ''presentmentCurrency'', ''settlementCurrency'', ''soldCopies'', ''fullyRefundedCopies'',
     ''netCopies'', ''grossPresentmentMinor'', ''finalizedRefundPresentmentMinor'',
     ''disputeWithdrawalPresentmentMinor'', ''disputeReinstatementPresentmentMinor'',
     ''grossSettlementMinor'', ''refundImpactMinor'', ''disputeImpactMinor'',
     ''processingFeeImpactMinor'', ''refundFeeImpactMinor'', ''disputeFeeImpactMinor'',
     ''otherFeeImpactMinor'', ''estimatedPayoutMinor'', ''settlementMetricsComplete'',
     ''missingSourceCount'', ''state'', ''range'', ''dataThroughAt'', ''soldAsVariantsJson'']"

text \<open>A cell by the function that writes it.\<close>

datatype csv_cell =
    Text string | Integer int | Nullable_integer "int option" | Boolean bool
  | Nullable_text "string option"

fun write_cell :: "csv_cell \<Rightarrow> string csv" where
  "write_cell (Text s) = Inr (textCell s)"
| "write_cell (Integer n) = integerCell n"
| "write_cell (Nullable_integer n) = nullableIntegerCell n"
| "write_cell (Boolean b) = Inr (booleanCell b)"
| "write_cell (Nullable_text s) = Inr (nullableTextCell s)"

definition row_layout :: "sales_csv_row \<Rightarrow> csv_cell list" where
  "row_layout row = [
     Text (sv_currentTitle row), Text (sv_titleId row), Text (sv_format row),
     Boolean (sv_archived row), Text (sv_presentmentCurrency row), Text (sv_settlementCurrency row),
     Integer (sv_soldCopies row), Integer (sv_fullyRefundedCopies row), Integer (sv_netCopies row),
     Integer (sv_grossPresentmentMinor row), Integer (sv_finalizedRefundPresentmentMinor row),
     Integer (sv_disputeWithdrawalPresentmentMinor row),
     Integer (sv_disputeReinstatementPresentmentMinor row),
     Nullable_integer (sv_grossSettlementMinor row), Nullable_integer (sv_refundImpactMinor row),
     Nullable_integer (sv_disputeImpactMinor row), Nullable_integer (sv_processingFeeImpactMinor row),
     Nullable_integer (sv_refundFeeImpactMinor row), Nullable_integer (sv_disputeFeeImpactMinor row),
     Nullable_integer (sv_otherFeeImpactMinor row), Nullable_integer (sv_estimatedPayoutMinor row),
     Boolean (sv_settlementMetricsComplete row), Integer (sv_missingSourceCount row),
     Text (sv_state row), Text (sv_range row), Nullable_text (sv_dataThroughAt row),
     Text (sv_soldAsVariantsJson row)]"

definition rowCells :: "sales_csv_row \<Rightarrow> string list csv" where
  "rowCells row = rmap write_cell (row_layout row)"

fun join_cells :: "string list \<Rightarrow> string" where
  "join_cells [] = []"
| "join_cells [cell] = cell"
| "join_cells (cell # cells) = cell @ comma # join_cells cells"

definition append_line :: "string \<Rightarrow> string \<Rightarrow> string csv" where
  "append_line line out =
     (let bytes = line @ [cr, lf] in
      if length out + length bytes > SALES_CSV_MAX_BYTES then Inl Sales_reporting_input
      else Inr (out @ bytes))"

definition serializeSalesCsv :: "sales_csv_row list \<Rightarrow> string csv" where
  "serializeSalesCsv rows =
     (if length rows > SALES_CSV_MAX_ROWS then Inl Sales_reporting_input
      else rbind (append_line (join_cells (map textCell SALES_CSV_ROW_DTO_KEYS)) []) (\<lambda>out.
        rfold (\<lambda>row out. rbind (rowCells row) (\<lambda>cells. append_line (join_cells cells) out)) rows out))"

section \<open>Reading\<close>

text \<open>The text of a quoted field after its opening quote, and what follows the closing one.\<close>

fun read_quoted :: "string \<Rightarrow> (string \<times> string) option" where
  "read_quoted [] = None"
| "read_quoted (c # cs) =
     (if c \<noteq> dquote then map_option (\<lambda>(s, r). (c # s, r)) (read_quoted cs)
      else case cs of
        [] \<Rightarrow> Some ([], [])
      | d # ds \<Rightarrow> if d = dquote then map_option (\<lambda>(s, r). (dquote # s, r)) (read_quoted ds)
          else Some ([], cs))"

definition read_field :: "string \<Rightarrow> (string \<times> string) option" where
  "read_field s = (case s of
     [] \<Rightarrow> Some ([], [])
   | c # cs \<Rightarrow> if c = dquote then read_quoted cs
       else Some (takeWhile (\<lambda>d. \<not> needs_quotes d) s, dropWhile (\<lambda>d. \<not> needs_quotes d) s))"

lemma read_quoted_length: "read_quoted s = Some (t, r) \<Longrightarrow> length r \<le> length s"
  by (induction s arbitrary: t rule: read_quoted.induct)
    (fastforce split: if_splits list.splits)+

lemma read_field_length: "read_field s = Some (t, r) \<Longrightarrow> length r \<le> length s"
  by (auto simp: read_field_def length_dropWhile_le le_SucI dest: read_quoted_length split: list.splits if_splits)

function read_record :: "string \<Rightarrow> (string list \<times> string) option" where
  "read_record s = (case read_field s of
     None \<Rightarrow> None
   | Some (field, rest) \<Rightarrow>
       (case rest of
          [] \<Rightarrow> None
        | c # r \<Rightarrow>
            if c = comma then map_option (\<lambda>(cells, r'). (field # cells, r')) (read_record r)
            else if c = cr \<and> r \<noteq> [] \<and> hd r = lf then Some ([field], tl r) else None))"
  by pat_completeness auto
termination
  by (relation "measure length") (auto dest!: read_field_length)

declare read_record.simps [simp del]

lemma read_record_length: "read_record s = Some (cells, r) \<Longrightarrow> length r < length s"
proof (induction s arbitrary: cells rule: read_record.induct)
  case (1 s)
  show ?case
    using 1 by (subst (asm) (2) read_record.simps)
      (fastforce split: option.splits list.splits if_splits dest!: read_field_length)
qed

function read_csv :: "string \<Rightarrow> string list list option" where
  "read_csv s = (if s = [] then Some [] else case read_record s of
     None \<Rightarrow> None
   | Some (cells, r) \<Rightarrow> map_option (Cons cells) (read_csv r))"
  by pat_completeness auto
termination
  by (relation "measure length") (auto dest: read_record_length)

declare read_csv.simps [simp del]

section \<open>What a reader gets\<close>

text \<open>Text up to the next separator.\<close>

definition ends_field :: "string \<Rightarrow> bool" where
  "ends_field rest \<longleftrightarrow> rest \<noteq> [] \<and> hd rest \<in> {comma, cr}"

lemma ends_field_needs: "ends_field rest \<Longrightarrow> rest \<noteq> [] \<and> needs_quotes (hd rest) \<and> hd rest \<noteq> dquote"
  by (auto simp: ends_field_def needs_quotes_def)

lemma read_plain:
  assumes "\<not> list_ex needs_quotes s" and "ends_field rest"
  shows "read_field (s @ rest) = Some (s, rest)"
proof -
  obtain c cs where rest: "rest = c # cs" "needs_quotes c" "c \<noteq> dquote"
    using ends_field_needs [OF assms(2)] by (cases rest) auto
  have all: "\<And>d. d \<in> set s \<Longrightarrow> \<not> needs_quotes d" using assms(1) by (auto simp: list_ex_iff)
  have "takeWhile (\<lambda>d. \<not> needs_quotes d) (s @ rest) = s" "dropWhile (\<lambda>d. \<not> needs_quotes d) (s @ rest) = rest"
    using all rest by (simp_all add: takeWhile_append2 dropWhile_append2)
  moreover have "s @ rest \<noteq> []" "hd (s @ rest) \<noteq> dquote"
    using rest all by (cases s; force simp: needs_quotes_def)+
  ultimately show ?thesis by (cases "s @ rest") (simp_all add: read_field_def)
qed

lemma read_double_quotes:
  assumes "ends_field rest"
  shows "read_quoted (double_quotes s @ dquote # rest) = Some (s, rest)"
proof (induction s)
  case Nil
  then show ?case using ends_field_needs [OF assms] by (cases rest) (auto simp: double_quotes_def)
next
  case (Cons c s)
  then show ?case by (auto simp: double_quotes_def)
qed

lemma read_textCell: "ends_field rest \<Longrightarrow> read_field (textCell v @ rest) = Some (neutralizeCsvText v, rest)"
  using read_plain [of "neutralizeCsvText v" rest]
  by (cases "list_ex needs_quotes (neutralizeCsvText v)")
    (simp_all add: textCell_def Let_def read_field_def read_double_quotes)

lemma digits_plain: "\<not> list_ex needs_quotes (int_text n)"
proof -
  have digit: "\<not> needs_quotes (digit_char d)" if "d < 10" for d
  proof
    assume "needs_quotes (digit_char d)"
    then have "(of_char (digit_char d) :: nat) \<in> {34, 44, 13, 10}" by (auto simp: needs_quotes_def)
    then show False using of_char_digit [OF that] by auto
  qed
  have "\<not> list_ex needs_quotes (decimal m)" for m
  proof (induction m rule: decimal.induct)
    case (1 m)
    then show ?case by (cases "m < 10") (simp_all add: decimal.simps [of m] digit)
  qed
  then show ?thesis by (simp add: int_text_def needs_quotes_def)
qed

text \<open>What a cell reads as.\<close>

fun cell_value :: "csv_cell \<Rightarrow> string" where
  "cell_value (Text s) = neutralizeCsvText s"
| "cell_value (Integer n) = int_text n"
| "cell_value (Nullable_integer n) = (case n of None \<Rightarrow> [] | Some v \<Rightarrow> int_text v)"
| "cell_value (Boolean b) = booleanCell b"
| "cell_value (Nullable_text s) = (case s of None \<Rightarrow> [] | Some v \<Rightarrow> neutralizeCsvText v)"

lemma read_cell:
  assumes "write_cell cell = Inr w" and "ends_field rest"
  shows "read_field (w @ rest) = Some (cell_value cell, rest)"
proof (cases cell)
  case (Boolean b)
  then show ?thesis using assms
    by (auto simp: booleanCell_def needs_quotes_def intro!: read_plain [of "''true''", simplified]
        read_plain [of "''false''", simplified])
qed (use assms in \<open>auto simp: read_textCell integerCell_def nullableIntegerCell_def nullableTextCell_def
      digits_plain read_plain read_plain [of "[]", simplified] split: option.splits if_splits\<close>)

lemma read_cells:
  "list_all2 (\<lambda>cell w. write_cell cell = Inr w) layout ws \<Longrightarrow> layout \<noteq> [] \<Longrightarrow>
     read_record (join_cells ws @ cr # lf # rest) = Some (map cell_value layout, rest)"
proof (induction layout arbitrary: ws)
  case (Cons cell layout)
  then obtain w ws0 where ws: "ws = w # ws0" and w: "write_cell cell = Inr w"
    and rest: "list_all2 (\<lambda>cell w. write_cell cell = Inr w) layout ws0"
    by (auto simp: list_all2_Cons1)
  show ?case
  proof (cases "layout = []")
    case True
    then have "ws0 = []" using rest by simp
    moreover have "read_field (w @ cr # lf # rest) = Some (cell_value cell, cr # lf # rest)"
      using w by (rule read_cell) (simp add: ends_field_def)
    ultimately show ?thesis using ws True by (subst read_record.simps) simp
  next
    case False
    then obtain t ts where ts: "ws0 = t # ts" using rest by (cases ws0) auto
    have "read_field (w @ comma # join_cells ws0 @ cr # lf # rest) =
        Some (cell_value cell, comma # join_cells ws0 @ cr # lf # rest)"
      using w by (rule read_cell) (simp add: ends_field_def)
    then show ?thesis using ws ts Cons.IH [OF rest False] by (subst read_record.simps) simp
  qed
qed simp

lemma read_csv_line:
  assumes "list_all2 (\<lambda>cell w. write_cell cell = Inr w) layout ws" and "layout \<noteq> []"
  shows "read_csv (join_cells ws @ cr # lf # rest) = map_option (Cons (map cell_value layout)) (read_csv rest)"
  by (subst read_csv.simps) (simp add: read_cells [OF assms])

section \<open>The file\<close>

definition csv_line :: "string list \<Rightarrow> string" where
  "csv_line ws = join_cells ws @ [cr, lf]"

lemma append_line_Inr:
  "append_line line out = Inr out' \<longleftrightarrow> out' = out @ line @ [cr, lf] \<and> length out' \<le> SALES_CSV_MAX_BYTES"
  by (auto simp: append_line_def Let_def)

lemma rowCells_Inr:
  "rowCells row = Inr ws \<longleftrightarrow> list_all2 (\<lambda>cell w. write_cell cell = Inr w) (row_layout row) ws"
  by (simp add: rowCells_def rmap_eq_Inr)

lemma rows_written:
  "rfold (\<lambda>row out. rbind (rowCells row) (\<lambda>cells. append_line (join_cells cells) out)) rows out = Inr out' \<Longrightarrow>
     \<exists>wss. list_all2 (\<lambda>row ws. rowCells row = Inr ws) rows wss \<and> out' = out @ concat (map csv_line wss)"
proof (induction rows arbitrary: out)
  case (Cons row rows)
  then obtain ws out1 where ws: "rowCells row = Inr ws" and out1: "out1 = out @ csv_line ws"
    and rest: "rfold (\<lambda>row out. rbind (rowCells row) (\<lambda>cells. append_line (join_cells cells) out)) rows out1 = Inr out'"
    by (auto simp: rbind_eq_Inr append_line_Inr csv_line_def)
  from Cons.IH [OF rest] obtain wss where "list_all2 (\<lambda>row ws. rowCells row = Inr ws) rows wss"
    "out' = out1 @ concat (map csv_line wss)" by blast
  then show ?case using ws out1 by (intro exI [of _ "ws # wss"]) simp
qed simp

lemma read_lines:
  "list_all2 (\<lambda>row ws. rowCells row = Inr ws) rows wss \<Longrightarrow>
     read_csv (concat (map csv_line wss)) = Some (map (map cell_value \<circ> row_layout) rows)"
proof (induction rule: list_all2_induct)
  case Nil
  then show ?case by (simp add: read_csv.simps)
next
  case (Cons row rows ws wss)
  have "row_layout row \<noteq> []" by (simp add: row_layout_def)
  from read_csv_line [OF Cons.hyps(1) [unfolded rowCells_Inr] this] Cons.IH
  show ?case by (simp add: csv_line_def)
qed

lemma key_cells: "map neutralizeCsvText SALES_CSV_ROW_DTO_KEYS = SALES_CSV_ROW_DTO_KEYS"
  by code_simp

lemma serialize_read:
  assumes "serializeSalesCsv rows = Inr out"
  shows "read_csv out = Some (SALES_CSV_ROW_DTO_KEYS # map (map cell_value \<circ> row_layout) rows)"
    and "length out \<le> SALES_CSV_MAX_BYTES" and "length rows \<le> SALES_CSV_MAX_ROWS"
proof -
  let ?head = "map Text SALES_CSV_ROW_DTO_KEYS"
  have rows: "length rows \<le> SALES_CSV_MAX_ROWS"
    and whole: "rbind (append_line (join_cells (map textCell SALES_CSV_ROW_DTO_KEYS)) [])
      (\<lambda>out. rfold (\<lambda>row out. rbind (rowCells row) (\<lambda>cells. append_line (join_cells cells) out)) rows out) = Inr out"
    using assms by (auto simp: serializeSalesCsv_def split: if_splits)
  obtain out1 where out1: "append_line (join_cells (map textCell SALES_CSV_ROW_DTO_KEYS)) [] = Inr out1"
    and rest: "rfold (\<lambda>row out. rbind (rowCells row) (\<lambda>cells. append_line (join_cells cells) out)) rows out1 = Inr out"
    using whole by (auto simp: rbind_eq_Inr)
  obtain wss where wss: "list_all2 (\<lambda>row ws. rowCells row = Inr ws) rows wss"
    and out: "out = out1 @ concat (map csv_line wss)"
    using rows_written [OF rest] by blast
  have "list_all2 (\<lambda>cell w. write_cell cell = Inr w) ?head (map textCell SALES_CSV_ROW_DTO_KEYS)"
    by (simp add: list_all2_map1 list_all2_map2 list.rel_refl)
  moreover have "?head \<noteq> []" by (simp add: SALES_CSV_ROW_DTO_KEYS_def)
  ultimately have "read_csv (join_cells (map textCell SALES_CSV_ROW_DTO_KEYS) @ cr # lf # concat (map csv_line wss)) =
      map_option (Cons (map cell_value ?head)) (read_csv (concat (map csv_line wss)))"
    by (rule read_csv_line)
  moreover have "map cell_value ?head = SALES_CSV_ROW_DTO_KEYS" using key_cells by (simp add: comp_def)
  moreover have "out = join_cells (map textCell SALES_CSV_ROW_DTO_KEYS) @ cr # lf # concat (map csv_line wss)"
    using out1 out by (simp add: append_line_Inr)
  ultimately show "read_csv out = Some (SALES_CSV_ROW_DTO_KEYS # map (map cell_value \<circ> row_layout) rows)"
    using read_lines [OF wss] by simp
  show "length rows \<le> SALES_CSV_MAX_ROWS" by (fact rows)
  have "length out \<le> SALES_CSV_MAX_BYTES"
  proof (rule rfold_invariant [OF rest])
    show "length out1 \<le> SALES_CSV_MAX_BYTES" using out1 unfolding append_line_Inr by blast
  qed (auto simp: rbind_eq_Inr append_line_Inr)
  then show "length out \<le> SALES_CSV_MAX_BYTES" .
qed

section \<open>Inert text\<close>

definition starts_formula :: "string \<Rightarrow> bool" where
  "starts_formula value = (case dropWhile (\<lambda>c. c = CHR '' '') value of [] \<Rightarrow> False | c # _ \<Rightarrow> formula_prefix c)"

lemma neutralized_inert: "\<not> starts_formula (neutralizeCsvText v)"
proof -
  have "\<not> formula_prefix apostrophe" by (simp add: formula_prefix_def)
  then have apo: "\<not> starts_formula (apostrophe # v)" by (simp add: starts_formula_def)
  show ?thesis
  proof (cases v)
    case Nil
    then show ?thesis by (simp add: neutralizeCsvText_def starts_formula_def)
  next
    case (Cons c cs)
    show ?thesis
    proof (cases "c \<in> {tab, cr, lf}")
      case True
      then show ?thesis using apo Cons by (simp add: neutralizeCsvText_def)
    next
      case False
      show ?thesis
      proof (cases "dropWhile (\<lambda>c. c = CHR '' '') v")
        case Nil
        then have "neutralizeCsvText v = v" using False Cons by (simp add: neutralizeCsvText_def)
        then show ?thesis by (simp only: starts_formula_def Nil list.case not_False_eq_True)
      next
        case (Cons d ds)
        then have "neutralizeCsvText v = (if formula_prefix d then apostrophe # v else v)"
          using False \<open>v = c # cs\<close> by (simp add: neutralizeCsvText_def)
        then show ?thesis using apo Cons by (simp add: starts_formula_def)
      qed
    qed
  qed
qed

fun is_text :: "csv_cell \<Rightarrow> bool" where
  "is_text (Text s) = True"
| "is_text (Nullable_text s) = True"
| "is_text _ = False"

lemma text_inert: "is_text cell \<Longrightarrow> \<not> starts_formula (cell_value cell)"
  by (cases cell) (auto simp: neutralized_inert starts_formula_def [of "[]"] split: option.splits)

section \<open>Properties\<close>

text \<open>
  C25. The sales export is a faithful CSV file: whenever it is written, a reader that follows
  RFC 4180 gets back exactly the header and one record per row, with every cell's text, quotes,
  commas and line breaks included, and the file keeps the bounds on rows and bytes.
\<close>
theorem sales_csv_roundtrip:
  assumes "serializeSalesCsv rows = Inr out"
  shows "read_csv out = Some (SALES_CSV_ROW_DTO_KEYS # map (\<lambda>row. map cell_value (row_layout row)) rows) \<and>
    length out \<le> SALES_CSV_MAX_BYTES \<and> length rows \<le> SALES_CSV_MAX_ROWS"
  using serialize_read [OF assms] by (simp add: comp_def)

definition sample_row :: sales_csv_row where
  "sample_row = \<lparr>sv_currentTitle = ''=1+1, '' @ [dquote] @ ''x'' @ [dquote], sv_titleId = ''t'',
     sv_format = ''prose'', sv_archived = False, sv_presentmentCurrency = ''USD'',
     sv_settlementCurrency = [], sv_soldCopies = 12, sv_fullyRefundedCopies = 0, sv_netCopies = 12,
     sv_grossPresentmentMinor = 1200, sv_finalizedRefundPresentmentMinor = 0,
     sv_disputeWithdrawalPresentmentMinor = 0, sv_disputeReinstatementPresentmentMinor = 0,
     sv_grossSettlementMinor = None, sv_refundImpactMinor = None, sv_disputeImpactMinor = None,
     sv_processingFeeImpactMinor = None, sv_refundFeeImpactMinor = None, sv_disputeFeeImpactMinor = None,
     sv_otherFeeImpactMinor = None, sv_estimatedPayoutMinor = Some (-5), sv_settlementMetricsComplete = False,
     sv_missingSourceCount = 1, sv_state = ''pending'', sv_range = ''30'', sv_dataThroughAt = None,
     sv_soldAsVariantsJson = ''[]''\<rparr>"

lemma sample_file: "\<not> isl (serializeSalesCsv [sample_row])"
proof -
  define head where "head = join_cells (map textCell SALES_CSV_ROW_DTO_KEYS)"
  define ws where "ws = map (projr \<circ> write_cell) (row_layout sample_row)"
  have row: "rowCells sample_row = Inr ws" unfolding ws_def by code_simp
  have "length head \<le> 1000" "length (join_cells ws) \<le> 1000"
    unfolding head_def ws_def by code_simp+
  then show ?thesis
    using row by (simp add: serializeSalesCsv_def head_def [symmetric] append_line_def
        SALES_CSV_MAX_ROWS_def SALES_CSV_MAX_BYTES_def)
qed

lemma sample_title_cell: "cell_value (row_layout sample_row ! 0) = apostrophe # sv_currentTitle sample_row"
  by code_simp

theorem sales_csv_roundtrip_witness:
  "map_option (\<lambda>records. map hd records) (read_csv (projr (serializeSalesCsv [sample_row]))) =
     Some [''currentTitle'', apostrophe # sv_currentTitle sample_row]"
proof -
  have "serializeSalesCsv [sample_row] = Inr (projr (serializeSalesCsv [sample_row]))"
    using sample_file by (simp add: sum.collapse(2))
  from sales_csv_roundtrip [OF this] sample_title_cell show ?thesis
    by (simp add: SALES_CSV_ROW_DTO_KEYS_def row_layout_def)
qed

text \<open>
  C26. No text of the export can act as a formula: in what a reader gets, no text cell begins, after
  spaces, with a character that makes a spreadsheet evaluate it, whatever the titles and variants
  contain.
\<close>
theorem sales_csv_text_inert:
  assumes "serializeSalesCsv rows = Inr out"
  shows "\<exists>records. read_csv out = Some (SALES_CSV_ROW_DTO_KEYS # records) \<and>
    list_all2 (\<lambda>row record. list_all2 (\<lambda>cell value. is_text cell \<longrightarrow> \<not> starts_formula value)
      (row_layout row) record) rows records"
proof (intro exI conjI)
  show "read_csv out = Some (SALES_CSV_ROW_DTO_KEYS # map (map cell_value \<circ> row_layout) rows)"
    by (rule serialize_read(1) [OF assms])
  show "list_all2 (\<lambda>row record. list_all2 (\<lambda>cell value. is_text cell \<longrightarrow> \<not> starts_formula value)
      (row_layout row) record) rows (map (map cell_value \<circ> row_layout) rows)"
    by (simp add: list_all2_map2 text_inert list.rel_refl_strong)
qed

theorem sales_csv_text_inert_witness:
  "\<exists>records. read_csv (projr (serializeSalesCsv [sample_row])) = Some (SALES_CSV_ROW_DTO_KEYS # records) \<and>
    length records = 1"
proof -
  have "serializeSalesCsv [sample_row] = Inr (projr (serializeSalesCsv [sample_row]))"
    using sample_file by (simp add: sum.collapse(2))
  from sales_csv_text_inert [OF this] show ?thesis by (auto dest: list_all2_lengthD)
qed

end
