(* ===== verification/SalesMetrics.thy ===== *)
theory SalesMetrics
  imports FinancialTypes
begin

text \<open>
  The figures of the sales report, \<^verbatim>\<open>commerce/reporting/metrics.ts\<close>: the figures of a title from the
  allocation sets that contribute to it, and the summary of titles by pair of currencies. A number is
  an integer with the tests for safe integers written out; the tests of the code that the type of an
  argument already answers are left out. The seven settlement figures, which the code reads and
  writes by name, are a function from their names.
\<close>

datatype metric_error = Sales_metric_error

type_synonym 'a metric = "metric_error + 'a"

datatype financial_state = Pending_state | Fee_reconciled | Payout_reconciled | Exception_state

datatype metric_source = Payment_metric | Refund_metric | Dispute_metric | Adjustment_metric

datatype metric_availability =
  Complete_metric | Missing_metric | Conflicting_metric | Unresolved_metric | Incompatible_metric

datatype settlement_key =
    Gross_settlement | Refund_impact | Dispute_impact | Processing_fee_impact | Refund_fee_impact
  | Dispute_fee_impact | Other_fee_impact

datatype metric_format = Prose_metric | Comic_metric

type_synonym settlement_totals = "settlement_key \<Rightarrow> int"

record sold_as_variant =
  so_title :: string
  so_creatorName :: string
  so_format :: metric_format

record metric_effect =
  me_component :: fin_component
  me_effectMinor :: int

record metric_contributor =
  mc_balanceTransactionId :: string
  mc_algorithmVersion :: int
  mc_basis :: allocation_basis
  mc_sourceKind :: metric_source
  mc_scope :: allocation_scope
  mc_settlementCurrency :: "string option"
  mc_state :: financial_state
  mc_availability :: metric_availability
  mc_missingSourceCount :: int
  mc_effects :: "metric_effect list"

record metric_input =
  mi_titleId :: string
  mi_currentTitle :: string
  mi_format :: metric_format
  mi_archived :: bool
  mi_soldAsVariants :: "sold_as_variant list"
  mi_presentmentCurrency :: string
  mi_settlementCurrency :: "string option"
  mi_soldCopies :: int
  mi_fullyRefundedCopies :: int
  mi_grossPresentmentMinor :: int
  mi_finalizedRefundPresentmentMinor :: int
  mi_disputeWithdrawalPresentmentMinor :: int
  mi_disputeReinstatementPresentmentMinor :: int
  mi_freshnessAt :: string
  mi_contributors :: "metric_contributor list"

text \<open>The row of a title; the settlement figures are all null where they are incomplete.\<close>

record title_metric =
  tm_titleId :: string
  tm_currentTitle :: string
  tm_format :: metric_format
  tm_archived :: bool
  tm_soldAsVariants :: "sold_as_variant list"
  tm_presentmentCurrency :: string
  tm_settlementCurrency :: "string option"
  tm_soldCopies :: int
  tm_fullyRefundedCopies :: int
  tm_netCopies :: int
  tm_grossPresentmentMinor :: int
  tm_finalizedRefundPresentmentMinor :: int
  tm_disputeWithdrawalPresentmentMinor :: int
  tm_disputeReinstatementPresentmentMinor :: int
  tm_settlement :: "settlement_key \<Rightarrow> int option"
  tm_estimatedPayoutMinor :: "int option"
  tm_settlementMetricsComplete :: bool
  tm_missingSourceCount :: int
  tm_state :: financial_state
  tm_freshnessAt :: string

record currency_summary =
  cs_presentmentCurrency :: string
  cs_settlementCurrency :: "string option"
  cs_titleCount :: int
  cs_soldCopies :: int
  cs_fullyRefundedCopies :: int
  cs_netCopies :: int
  cs_grossPresentmentMinor :: int
  cs_finalizedRefundPresentmentMinor :: int
  cs_disputeWithdrawalPresentmentMinor :: int
  cs_disputeReinstatementPresentmentMinor :: int
  cs_settlement :: "settlement_key \<Rightarrow> int option"
  cs_estimatedPayoutMinor :: "int option"
  cs_settlementMetricsComplete :: bool
  cs_missingSourceCount :: int
  cs_state :: financial_state

record summary_accumulator =
  sa_presentmentCurrency :: string
  sa_settlementCurrency :: "string option"
  sa_titleIds :: "string list"
  sa_soldCopies :: int
  sa_fullyRefundedCopies :: int
  sa_netCopies :: int
  sa_grossPresentmentMinor :: int
  sa_finalizedRefundPresentmentMinor :: int
  sa_disputeWithdrawalPresentmentMinor :: int
  sa_disputeReinstatementPresentmentMinor :: int
  sa_settlement :: settlement_totals
  sa_estimatedPayoutMinor :: int
  sa_settlementMetricsComplete :: bool
  sa_missingSourceCount :: int
  sa_state :: financial_state

section \<open>Checks and sums\<close>

fun state_severity :: "financial_state \<Rightarrow> nat" where
  "state_severity Payout_reconciled = 0"
| "state_severity Fee_reconciled = 1"
| "state_severity Pending_state = 2"
| "state_severity Exception_state = 3"

definition safeInteger :: "int \<Rightarrow> int metric" where
  "safeInteger v = (if \<not> safe_integer v then Inl Sales_metric_error else Inr v)"

definition safeCount :: "int \<Rightarrow> int metric" where
  "safeCount v = (if \<not> safe_integer v \<or> v < 0 then Inl Sales_metric_error else Inr v)"

definition add_metric :: "int \<Rightarrow> int \<Rightarrow> int metric" where
  "add_metric left right =
     rbind (safeInteger left) (\<lambda>l. rbind (safeInteger right) (\<lambda>r.
       if \<not> safe_integer (l + r) then Inl Sales_metric_error else Inr (l + r)))"

definition metric_currency :: "string \<Rightarrow> string metric" where
  "metric_currency v = (if \<not> currency_code v then Inl Sales_metric_error else Inr v)"

definition optionalCurrency :: "string option \<Rightarrow> string option metric" where
  "optionalCurrency v = (case v of None \<Rightarrow> Inr None | Some c \<Rightarrow> rbind (metric_currency c) (\<lambda>c. Inr (Some c)))"

definition moreSevere :: "financial_state \<Rightarrow> financial_state \<Rightarrow> financial_state" where
  "moreSevere current candidate =
     (if state_severity candidate > state_severity current then candidate else current)"

definition check_effect :: "metric_effect \<Rightarrow> unit metric" where
  "check_effect e = rbind (safeInteger (me_effectMinor e)) (\<lambda>_.
     throw_if (me_component e = Dispute_reinstatement \<and> me_effectMinor e < 0) Sales_metric_error)"

definition validateContributor :: "metric_contributor \<Rightarrow> unit metric" where
  "validateContributor c =
     rbind (throw_if (mc_balanceTransactionId c = [] \<or> \<not> safe_integer (mc_algorithmVersion c) \<or>
       mc_algorithmVersion c < 1) Sales_metric_error) (\<lambda>_.
     rbind (optionalCurrency (mc_settlementCurrency c)) (\<lambda>_.
     rbind (safeCount (mc_missingSourceCount c)) (\<lambda>_.
     rall check_effect (mc_effects c))))"

fun sourceSupportsComponent :: "metric_source \<Rightarrow> fin_component \<Rightarrow> bool" where
  "sourceSupportsComponent sourceKind component =
     (if sourceKind = Adjustment_metric then False
      else if component \<in> {Sale_subtotal, Sale_tax, Processing_fee} then sourceKind = Payment_metric
      else if component \<in> {Refund_subtotal, Refund_tax, Refund_fee, Refund_failure_reversal}
        then sourceKind = Refund_metric
      else if component \<in> {Dispute_subtotal, Dispute_tax, Dispute_fee, Dispute_reinstatement}
        then sourceKind = Dispute_metric
      else True)"

definition basisSupportsComponent :: "allocation_basis \<Rightarrow> fin_component \<Rightarrow> bool" where
  "basisSupportsComponent basis component =
     (if component \<in> {Sale_subtotal, Sale_tax, Refund_subtotal, Refund_tax, Refund_failure_reversal,
          Dispute_subtotal, Dispute_tax, Dispute_reinstatement} then basis = Gross_amount
      else if component \<in> {Processing_fee, Refund_fee, Dispute_fee, Provider_fee_tax, Other_component}
        then basis = Fee_basis
      else True)"

text \<open>The type of the argument excludes adjustments, which have no key.\<close>

fun sourceAwareFeeKey :: "metric_source \<Rightarrow> settlement_key option" where
  "sourceAwareFeeKey Payment_metric = Some Processing_fee_impact"
| "sourceAwareFeeKey Refund_metric = Some Refund_fee_impact"
| "sourceAwareFeeKey Dispute_metric = Some Dispute_fee_impact"
| "sourceAwareFeeKey Adjustment_metric = None"

fun metricKey :: "metric_source \<Rightarrow> fin_component \<Rightarrow> settlement_key option" where
  "metricKey sourceKind Sale_subtotal = Some Gross_settlement"
| "metricKey sourceKind Refund_subtotal = Some Refund_impact"
| "metricKey sourceKind Refund_failure_reversal = Some Refund_impact"
| "metricKey sourceKind Dispute_subtotal = Some Dispute_impact"
| "metricKey sourceKind Dispute_reinstatement = Some Dispute_impact"
| "metricKey sourceKind Processing_fee = Some Processing_fee_impact"
| "metricKey sourceKind Refund_fee = Some Refund_fee_impact"
| "metricKey sourceKind Dispute_fee = Some Dispute_fee_impact"
| "metricKey sourceKind Provider_fee_tax = sourceAwareFeeKey sourceKind"
| "metricKey sourceKind Fee_credit = sourceAwareFeeKey sourceKind"
| "metricKey sourceKind Other_component = Some Other_fee_impact"
| "metricKey sourceKind Sale_tax = None"
| "metricKey sourceKind Refund_tax = None"
| "metricKey sourceKind Dispute_tax = None"

definition emptySettlementTotals :: settlement_totals where
  "emptySettlementTotals = (\<lambda>_. 0)"

definition estimate :: "settlement_totals \<Rightarrow> int metric" where
  "estimate totals =
     rbind (add_metric (totals Gross_settlement) (totals Refund_impact)) (\<lambda>a.
     rbind (add_metric (totals Dispute_impact) (totals Processing_fee_impact)) (\<lambda>b.
     rbind (add_metric a b) (\<lambda>ab.
     rbind (add_metric (totals Refund_fee_impact) (totals Dispute_fee_impact)) (\<lambda>c.
     rbind (add_metric c (totals Other_fee_impact)) (\<lambda>cd.
     add_metric ab cd)))))"

section \<open>The row of a title\<close>

text \<open>The row before its settlement figures, with the values of an incomplete one.\<close>

definition baseInput :: "metric_input \<Rightarrow> title_metric metric" where
  "baseInput input =
     rbind (throw_if (mi_titleId input = [] \<or> mi_currentTitle input = [] \<or> mi_freshnessAt input = [])
       Sales_metric_error) (\<lambda>_.
     rbind (safeCount (mi_soldCopies input)) (\<lambda>soldCopies.
     rbind (safeCount (mi_fullyRefundedCopies input)) (\<lambda>fullyRefundedCopies.
     rbind (throw_if (fullyRefundedCopies > soldCopies) Sales_metric_error) (\<lambda>_.
     rbind (metric_currency (mi_presentmentCurrency input)) (\<lambda>presentmentCurrency.
     rbind (optionalCurrency (mi_settlementCurrency input)) (\<lambda>settlementCurrency.
     rbind (safeCount (soldCopies - fullyRefundedCopies)) (\<lambda>netCopies.
     rbind (safeInteger (mi_grossPresentmentMinor input)) (\<lambda>gross.
     rbind (safeInteger (mi_finalizedRefundPresentmentMinor input)) (\<lambda>refund.
     rbind (safeInteger (mi_disputeWithdrawalPresentmentMinor input)) (\<lambda>withdrawal.
     rbind (safeInteger (mi_disputeReinstatementPresentmentMinor input)) (\<lambda>reinstatement.
     Inr \<lparr>tm_titleId = mi_titleId input, tm_currentTitle = mi_currentTitle input,
          tm_format = mi_format input, tm_archived = mi_archived input,
          tm_soldAsVariants = mi_soldAsVariants input,
          tm_presentmentCurrency = presentmentCurrency, tm_settlementCurrency = settlementCurrency,
          tm_soldCopies = soldCopies, tm_fullyRefundedCopies = fullyRefundedCopies,
          tm_netCopies = netCopies, tm_grossPresentmentMinor = gross,
          tm_finalizedRefundPresentmentMinor = refund,
          tm_disputeWithdrawalPresentmentMinor = withdrawal,
          tm_disputeReinstatementPresentmentMinor = reinstatement,
          tm_settlement = (\<lambda>_. None), tm_estimatedPayoutMinor = None,
          tm_settlementMetricsComplete = False, tm_missingSourceCount = 0, tm_state = Pending_state,
          tm_freshnessAt = mi_freshnessAt input\<rparr>)))))))))))"

fun basis_name :: "allocation_basis \<Rightarrow> string" where
  "basis_name Gross_amount = ''gross_amount''"
| "basis_name Fee_basis = ''fee''"

definition contributor_key :: "metric_contributor \<Rightarrow> string" where
  "contributor_key c = mc_balanceTransactionId c @ [CHR 0x00] @ basis_name (mc_basis c)"

definition counts_for_title :: "metric_contributor \<Rightarrow> bool" where
  "counts_for_title c \<longleftrightarrow> mc_scope c \<noteq> Account_scope \<or> mc_sourceKind c = Payment_metric"

definition title_contributors :: "metric_contributor list \<Rightarrow> metric_contributor list metric" where
  "title_contributors contributors =
     rbind (rall validateContributor contributors) (\<lambda>_. Inr (filter counts_for_title contributors))"

definition contributor_counts :: "metric_contributor list \<Rightarrow> (string \<times> int) list metric" where
  "contributor_counts cs = rfold (\<lambda>c counts.
     rbind (add_metric (case map_of counts (contributor_key c) of None \<Rightarrow> 0 | Some n \<Rightarrow> n) 1) (\<lambda>n.
     Inr (AList.update (contributor_key c) n counts))) cs []"

text \<open>The test of the code for a contributor whose effects cannot be attributed.\<close>

definition incompatible_contributor :: "string option \<Rightarrow> metric_contributor \<Rightarrow> bool" where
  "incompatible_contributor settlementCurrency c \<longleftrightarrow>
     settlementCurrency = None \<or>
     (mc_algorithmVersion c \<noteq> 1 \<and> mc_algorithmVersion c \<noteq> 2) \<or>
     (mc_algorithmVersion c = 1 \<and> list_ex (\<lambda>e. me_component e = Dispute_reinstatement) (mc_effects c)) \<or>
     mc_settlementCurrency c \<noteq> settlementCurrency \<or>
     (mc_sourceKind c = Payment_metric \<and> mc_scope c = Account_scope) \<or>
     mc_sourceKind c = Adjustment_metric \<or>
     list_ex (\<lambda>e. \<not> sourceSupportsComponent (mc_sourceKind c) (me_component e) \<or>
       \<not> basisSupportsComponent (mc_basis c) (me_component e)) (mc_effects c)"

record metric_progress =
  mp_totals :: settlement_totals
  mp_missing :: int
  mp_state :: financial_state
  mp_handled :: "string list"

definition apply_effect :: "metric_source \<Rightarrow> metric_effect \<Rightarrow> settlement_totals \<Rightarrow> settlement_totals metric" where
  "apply_effect sourceKind e totals =
     (case metricKey sourceKind (me_component e) of
        None \<Rightarrow> Inr totals
      | Some key \<Rightarrow> rbind (add_metric (totals key) (me_effectMinor e)) (\<lambda>v. Inr (totals(key := v))))"

definition note_missing :: "int \<Rightarrow> financial_state \<Rightarrow> metric_progress \<Rightarrow> metric_progress metric" where
  "note_missing n candidate p =
     rbind (add_metric (mp_missing p) n) (\<lambda>missing.
     Inr (p\<lparr>mp_missing := missing, mp_state := moreSevere (mp_state p) candidate\<rparr>))"

definition contributor_step ::
  "string option \<Rightarrow> (string \<times> int) list \<Rightarrow> metric_contributor \<Rightarrow> metric_progress \<Rightarrow> metric_progress metric" where
  "contributor_step settlementCurrency counts c p =
     (if (case map_of counts (contributor_key c) of None \<Rightarrow> 0 | Some n \<Rightarrow> n) > 1 then
        (if contributor_key c \<in> set (mp_handled p) then Inr p
         else note_missing 1 Exception_state (p\<lparr>mp_handled := contributor_key c # mp_handled p\<rparr>))
      else if mc_scope c = Unresolved_scope then
        note_missing (if mc_missingSourceCount c > 0 then mc_missingSourceCount c else 1)
          (if mc_state c = Exception_state then Exception_state else Pending_state) p
      else if mc_availability c \<noteq> Complete_metric then
        rbind (throw_if (mc_missingSourceCount c < 1 \<or>
          (mc_state c \<noteq> Pending_state \<and> mc_state c \<noteq> Exception_state)) Sales_metric_error) (\<lambda>_.
        note_missing (mc_missingSourceCount c)
          (moreSevere (mc_state c)
            (if mc_availability c \<in> {Conflicting_metric, Incompatible_metric} then Exception_state
             else Pending_state)) p)
      else
        rbind (throw_if (mc_missingSourceCount c \<noteq> 0 \<or>
          (mc_state c \<noteq> Fee_reconciled \<and> mc_state c \<noteq> Payout_reconciled)) Sales_metric_error) (\<lambda>_.
        if incompatible_contributor settlementCurrency c then note_missing 1 Exception_state p
        else
          rbind (rfold (apply_effect (mc_sourceKind c)) (mc_effects c) (mp_totals p)) (\<lambda>totals.
          Inr (p\<lparr>mp_state := moreSevere (mp_state p) (mc_state c), mp_totals := totals\<rparr>))))"

definition toSalesTitleMetricDto :: "metric_input \<Rightarrow> title_metric metric" where
  "toSalesTitleMetricDto input =
     rbind (baseInput input) (\<lambda>base.
     rbind (title_contributors (mi_contributors input)) (\<lambda>cs.
     rbind (throw_if (cs = []) Sales_metric_error) (\<lambda>_.
     rbind (contributor_counts cs) (\<lambda>counts.
     rbind (rfold (contributor_step (tm_settlementCurrency base) counts) cs
         \<lparr>mp_totals = emptySettlementTotals, mp_missing = 0, mp_state = Payout_reconciled, mp_handled = []\<rparr>) (\<lambda>p.
     if mp_missing p > 0 then
       rbind (throw_if (mp_state p \<noteq> Pending_state \<and> mp_state p \<noteq> Exception_state) Sales_metric_error) (\<lambda>_.
       Inr (base\<lparr>tm_missingSourceCount := mp_missing p, tm_state := mp_state p\<rparr>))
     else
       rbind (throw_if (tm_settlementCurrency base = None \<or>
         (mp_state p \<noteq> Fee_reconciled \<and> mp_state p \<noteq> Payout_reconciled)) Sales_metric_error) (\<lambda>_.
       rbind (estimate (mp_totals p)) (\<lambda>payout.
       Inr (base\<lparr>tm_settlement := (\<lambda>k. Some (mp_totals p k)), tm_estimatedPayoutMinor := Some payout,
         tm_settlementMetricsComplete := True, tm_missingSourceCount := 0, tm_state := mp_state p\<rparr>))))))))"

section \<open>The summary by currencies\<close>

definition nullable_number :: "int option \<Rightarrow> int metric" where
  "nullable_number v = (case v of None \<Rightarrow> Inl Sales_metric_error | Some n \<Rightarrow> safeInteger n)"

definition settlement_keys :: "settlement_key list" where
  "settlement_keys = [Gross_settlement, Refund_impact, Dispute_impact, Processing_fee_impact,
     Refund_fee_impact, Dispute_fee_impact, Other_fee_impact]"

definition row_totals :: "title_metric \<Rightarrow> settlement_totals" where
  "row_totals row k = (case tm_settlement row k of None \<Rightarrow> 0 | Some n \<Rightarrow> n)"

definition row_payout :: "title_metric \<Rightarrow> int" where
  "row_payout row = (case tm_estimatedPayoutMinor row of None \<Rightarrow> 0 | Some n \<Rightarrow> n)"

definition validateSummaryRow :: "title_metric \<Rightarrow> unit metric" where
  "validateSummaryRow row =
     rbind (throw_if (tm_titleId row = []) Sales_metric_error) (\<lambda>_.
     rbind (metric_currency (tm_presentmentCurrency row)) (\<lambda>_.
     rbind (optionalCurrency (tm_settlementCurrency row)) (\<lambda>_.
     rbind (rall (\<lambda>n. rbind (safeCount n) (\<lambda>_. Inr ()))
       [tm_soldCopies row, tm_fullyRefundedCopies row, tm_netCopies row]) (\<lambda>_.
     rbind (throw_if (tm_fullyRefundedCopies row > tm_soldCopies row \<or>
       tm_netCopies row \<noteq> tm_soldCopies row - tm_fullyRefundedCopies row) Sales_metric_error) (\<lambda>_.
     rbind (rall (\<lambda>n. rbind (safeInteger n) (\<lambda>_. Inr ()))
       [tm_grossPresentmentMinor row, tm_finalizedRefundPresentmentMinor row,
        tm_disputeWithdrawalPresentmentMinor row, tm_disputeReinstatementPresentmentMinor row]) (\<lambda>_.
     rbind (safeCount (tm_missingSourceCount row)) (\<lambda>_.
     if tm_settlementMetricsComplete row then
       rbind (throw_if (tm_settlementCurrency row = None \<or> tm_missingSourceCount row \<noteq> 0 \<or>
         (tm_state row \<noteq> Fee_reconciled \<and> tm_state row \<noteq> Payout_reconciled)) Sales_metric_error) (\<lambda>_.
       rbind (rall (\<lambda>v. rbind (nullable_number v) (\<lambda>_. Inr ()))
         (map (tm_settlement row) settlement_keys @ [tm_estimatedPayoutMinor row])) (\<lambda>_.
       rbind (estimate (row_totals row)) (\<lambda>payout.
       throw_if (Some payout \<noteq> tm_estimatedPayoutMinor row) Sales_metric_error)))
     else
       throw_if (tm_missingSourceCount row < 1 \<or>
         (tm_state row \<noteq> Pending_state \<and> tm_state row \<noteq> Exception_state) \<or>
         list_ex (\<lambda>k. tm_settlement row k \<noteq> None) settlement_keys \<or>
         tm_estimatedPayoutMinor row \<noteq> None) Sales_metric_error)))))))"

definition createAccumulator :: "title_metric \<Rightarrow> summary_accumulator" where
  "createAccumulator row =
     \<lparr>sa_presentmentCurrency = tm_presentmentCurrency row, sa_settlementCurrency = tm_settlementCurrency row,
      sa_titleIds = [], sa_soldCopies = 0, sa_fullyRefundedCopies = 0, sa_netCopies = 0,
      sa_grossPresentmentMinor = 0, sa_finalizedRefundPresentmentMinor = 0,
      sa_disputeWithdrawalPresentmentMinor = 0, sa_disputeReinstatementPresentmentMinor = 0,
      sa_settlement = emptySettlementTotals, sa_estimatedPayoutMinor = 0,
      sa_settlementMetricsComplete = True, sa_missingSourceCount = 0, sa_state = Payout_reconciled\<rparr>"

definition add_settlement :: "title_metric \<Rightarrow> settlement_totals \<Rightarrow> settlement_totals metric" where
  "add_settlement row totals = rfold (\<lambda>key totals.
     rbind (add_metric (totals key) (row_totals row key)) (\<lambda>v. Inr (totals(key := v))))
     settlement_keys totals"

definition appendSummaryRow :: "title_metric \<Rightarrow> summary_accumulator \<Rightarrow> summary_accumulator metric" where
  "appendSummaryRow row a =
     rbind (throw_if (tm_titleId row \<in> set (sa_titleIds a)) Sales_metric_error) (\<lambda>_.
     rbind (add_metric (sa_soldCopies a) (tm_soldCopies row)) (\<lambda>sold.
     rbind (add_metric (sa_fullyRefundedCopies a) (tm_fullyRefundedCopies row)) (\<lambda>refunded.
     rbind (add_metric (sa_netCopies a) (tm_netCopies row)) (\<lambda>net.
     rbind (add_metric (sa_grossPresentmentMinor a) (tm_grossPresentmentMinor row)) (\<lambda>gross.
     rbind (add_metric (sa_finalizedRefundPresentmentMinor a) (tm_finalizedRefundPresentmentMinor row)) (\<lambda>refund.
     rbind (add_metric (sa_disputeWithdrawalPresentmentMinor a) (tm_disputeWithdrawalPresentmentMinor row)) (\<lambda>withdrawal.
     rbind (add_metric (sa_disputeReinstatementPresentmentMinor a) (tm_disputeReinstatementPresentmentMinor row)) (\<lambda>reinstatement.
     rbind (add_metric (sa_missingSourceCount a) (tm_missingSourceCount row)) (\<lambda>missing.
     let a = a\<lparr>sa_titleIds := tm_titleId row # sa_titleIds a, sa_soldCopies := sold,
       sa_fullyRefundedCopies := refunded, sa_netCopies := net, sa_grossPresentmentMinor := gross,
       sa_finalizedRefundPresentmentMinor := refund, sa_disputeWithdrawalPresentmentMinor := withdrawal,
       sa_disputeReinstatementPresentmentMinor := reinstatement, sa_missingSourceCount := missing,
       sa_state := moreSevere (sa_state a) (tm_state row),
       sa_settlementMetricsComplete := sa_settlementMetricsComplete a \<and> tm_settlementMetricsComplete row\<rparr> in
     if \<not> tm_settlementMetricsComplete row then Inr a
     else
       rbind (add_settlement row (sa_settlement a)) (\<lambda>totals.
       rbind (add_metric (sa_estimatedPayoutMinor a) (row_payout row)) (\<lambda>payout.
       Inr (a\<lparr>sa_settlement := totals, sa_estimatedPayoutMinor := payout\<rparr>))))))))))))"

definition toSummary :: "summary_accumulator \<Rightarrow> currency_summary metric" where
  "toSummary a =
     rbind (safeCount (int (length (sa_titleIds a)))) (\<lambda>titleCount.
     let base = \<lparr>cs_presentmentCurrency = sa_presentmentCurrency a,
       cs_settlementCurrency = sa_settlementCurrency a, cs_titleCount = titleCount,
       cs_soldCopies = sa_soldCopies a, cs_fullyRefundedCopies = sa_fullyRefundedCopies a,
       cs_netCopies = sa_netCopies a, cs_grossPresentmentMinor = sa_grossPresentmentMinor a,
       cs_finalizedRefundPresentmentMinor = sa_finalizedRefundPresentmentMinor a,
       cs_disputeWithdrawalPresentmentMinor = sa_disputeWithdrawalPresentmentMinor a,
       cs_disputeReinstatementPresentmentMinor = sa_disputeReinstatementPresentmentMinor a,
       cs_settlement = (\<lambda>_. None), cs_estimatedPayoutMinor = None,
       cs_settlementMetricsComplete = False, cs_missingSourceCount = sa_missingSourceCount a,
       cs_state = sa_state a\<rparr> in
     if \<not> sa_settlementMetricsComplete a then
       rbind (throw_if (sa_missingSourceCount a < 1 \<or>
         (sa_state a \<noteq> Pending_state \<and> sa_state a \<noteq> Exception_state)) Sales_metric_error) (\<lambda>_. Inr base)
     else
       rbind (throw_if (sa_settlementCurrency a = None \<or> sa_missingSourceCount a \<noteq> 0 \<or>
         (sa_state a \<noteq> Fee_reconciled \<and> sa_state a \<noteq> Payout_reconciled)) Sales_metric_error) (\<lambda>_.
       rbind (estimate (sa_settlement a)) (\<lambda>payout.
       rbind (throw_if (payout \<noteq> sa_estimatedPayoutMinor a) Sales_metric_error) (\<lambda>_.
       Inr (base\<lparr>cs_settlement := (\<lambda>k. Some (sa_settlement a k)),
         cs_estimatedPayoutMinor := Some (sa_estimatedPayoutMinor a),
         cs_settlementMetricsComplete := True, cs_missingSourceCount := 0\<rparr>)))))"

definition pair_key :: "title_metric \<Rightarrow> string" where
  "pair_key row = tm_presentmentCurrency row @ [CHR 0x00] @
     (case tm_settlementCurrency row of None \<Rightarrow> [] | Some c \<Rightarrow> c)"

definition compare_pairs :: "summary_accumulator \<Rightarrow> summary_accumulator \<Rightarrow> int" where
  "compare_pairs left right =
     (let byPresentment = compare_text (sa_presentmentCurrency left) (sa_presentmentCurrency right) in
      if byPresentment \<noteq> 0 then byPresentment
      else compare_text (case sa_settlementCurrency left of None \<Rightarrow> [] | Some c \<Rightarrow> c)
        (case sa_settlementCurrency right of None \<Rightarrow> [] | Some c \<Rightarrow> c))"

definition add_row_to_pair ::
  "title_metric \<Rightarrow> (string \<times> summary_accumulator) list \<Rightarrow> (string \<times> summary_accumulator) list metric" where
  "add_row_to_pair row byPair =
     rbind (validateSummaryRow row) (\<lambda>_.
     rbind (appendSummaryRow row (case map_of byPair (pair_key row) of
         None \<Rightarrow> createAccumulator row | Some a \<Rightarrow> a)) (\<lambda>a.
     Inr (AList.update (pair_key row) a byPair)))"

definition summarizeCurrencyPairs :: "title_metric list \<Rightarrow> currency_summary list metric" where
  "summarizeCurrencyPairs rows =
     rbind (rfold add_row_to_pair rows []) (\<lambda>byPair.
     rmap toSummary (js_sort compare_pairs (map snd byPair)))"

end
