(* ===== verification/SalesFigures.thy ===== *)
theory SalesFigures
  imports SalesMetrics "HOL-Library.Product_Lexorder"
begin

text \<open>
  What the sales figures are: the settlement figures of a title are the exact sums of everything
  attributed to it, or all absent; and a summary has exactly one entry for each pair of currencies,
  with the exact sums of its titles.
\<close>

section \<open>Checks and sums\<close>

lemma safeInteger_Inr [result_simps]: "safeInteger v = Inr w \<longleftrightarrow> safe_integer v \<and> w = v"
  by (auto simp: safeInteger_def)

lemma safeCount_Inr [result_simps]: "safeCount v = Inr w \<longleftrightarrow> safe_integer v \<and> 0 \<le> v \<and> w = v"
  by (auto simp: safeCount_def)

lemma add_metric_Inr [result_simps]:
  "add_metric l r = Inr s \<longleftrightarrow> safe_integer l \<and> safe_integer r \<and> safe_integer (l + r) \<and> s = l + r"
  by (auto simp: add_metric_def result_simps)

lemma metric_currency_Inr [result_simps]: "metric_currency v = Inr w \<longleftrightarrow> currency_code v \<and> w = v"
  by (auto simp: metric_currency_def)

lemma optionalCurrency_Inr [result_simps]:
  "optionalCurrency v = Inr w \<longleftrightarrow> (\<forall>c. v = Some c \<longrightarrow> currency_code c) \<and> w = v"
  by (auto simp: optionalCurrency_def result_simps split: option.splits)

lemma add_metric_fits:
  "\<bar>l\<bar> + \<bar>r\<bar> \<le> 9007199254740991 \<Longrightarrow> add_metric l r = Inr (l + r)"
  unfolding add_metric_Inr safe_integer_def by linarith

definition totals_sum :: "settlement_totals \<Rightarrow> int" where
  "totals_sum t = sum_list (map t settlement_keys)"

lemma totals_sum_add: "totals_sum (\<lambda>k. s k + t k) = totals_sum s + totals_sum t"
  by (simp add: totals_sum_def settlement_keys_def)

lemma all_settlement_keys: "k \<in> set settlement_keys"
  by (cases k) (auto simp: settlement_keys_def)

lemma settlement_keys_ball: "(\<forall>k \<in> set settlement_keys. P k) \<longleftrightarrow> (\<forall>k. P k)"
  using all_settlement_keys by blast

lemma estimate_Inr: "estimate t = Inr n \<Longrightarrow> n = totals_sum t \<and> safe_integer n \<and> (\<forall>k. safe_integer (t k))"
  unfolding estimate_def settlement_keys_ball [symmetric]
  by (auto simp: result_simps totals_sum_def settlement_keys_def)

lemma estimate_fits:
  assumes "totals_sum (\<lambda>k. \<bar>t k\<bar>) \<le> 9007199254740991"
  shows "estimate t = Inr (totals_sum t)"
  using assms unfolding estimate_def totals_sum_def settlement_keys_def
  by (simp add: add_metric_fits)

lemma moreSevere_severity [simp]:
  "state_severity (moreSevere a b) = max (state_severity a) (state_severity b)"
  by (simp add: moreSevere_def)

lemma severity_cases:
  "state_severity s \<ge> 2 \<longleftrightarrow> s = Pending_state \<or> s = Exception_state"
  "state_severity s \<le> 1 \<longleftrightarrow> s = Fee_reconciled \<or> s = Payout_reconciled"
  "state_severity s = 0 \<longleftrightarrow> s = Payout_reconciled"
  by (cases s; simp)+

lemma state_severity_inj: "state_severity s = state_severity t \<longleftrightarrow> s = t"
  by (cases s; cases t; simp)

definition worst_state :: "financial_state list \<Rightarrow> financial_state" where
  "worst_state states = (if Exception_state \<in> set states then Exception_state
     else if Pending_state \<in> set states then Pending_state
     else if Fee_reconciled \<in> set states then Fee_reconciled else Payout_reconciled)"

lemma worst_state_severity:
  "state_severity (worst_state states) = Max (insert 0 (state_severity ` set states))"
proof -
  have le: "x \<in> set states \<Longrightarrow> state_severity x \<le> state_severity (worst_state states)" for x
    by (cases x) (auto simp: worst_state_def)
  have "state_severity (worst_state states) \<in> insert 0 (state_severity ` set states)"
    by (auto simp: worst_state_def intro: rev_image_eqI)
  then show ?thesis using le by (intro Max_eqI [symmetric]) auto
qed

lemma worst_state_snoc: "worst_state (states @ [s]) = moreSevere (worst_state states) s"
  by (cases s) (auto simp: worst_state_def moreSevere_def)

lemma foldl_worst: "foldl moreSevere Payout_reconciled states = worst_state states"
  by (induction states rule: rev_induct) (simp add: worst_state_def, simp add: worst_state_snoc)

section \<open>The figures of a title\<close>

definition contributor_effects :: "settlement_key \<Rightarrow> metric_contributor \<Rightarrow> int" where
  "contributor_effects k c = sum_list (map me_effectMinor
     (filter (\<lambda>e. metricKey (mc_sourceKind c) (me_component e) = Some k) (mc_effects c)))"

definition tax_component :: "fin_component \<Rightarrow> bool" where
  "tax_component c \<longleftrightarrow> c \<in> {Sale_tax, Refund_tax, Dispute_tax}"

definition contributor_net :: "metric_contributor \<Rightarrow> int" where
  "contributor_net c =
     sum_list (map me_effectMinor (filter (\<lambda>e. \<not> tax_component (me_component e)) (mc_effects c)))"

definition attributable :: "string option \<Rightarrow> metric_contributor \<Rightarrow> bool" where
  "attributable settlementCurrency c \<longleftrightarrow> mc_scope c \<noteq> Unresolved_scope \<and>
     mc_availability c = Complete_metric \<and> \<not> incompatible_contributor settlementCurrency c"

lemma metricKey_None: "s \<noteq> Adjustment_metric \<Longrightarrow> metricKey s c = None \<longleftrightarrow> tax_component c"
  by (cases c; cases s) (auto simp: tax_component_def)

lemma attributable_not_adjustment: "attributable cur c \<Longrightarrow> mc_sourceKind c \<noteq> Adjustment_metric"
  by (simp add: attributable_def incompatible_contributor_def)

lemma contributor_net_eq:
  assumes "mc_sourceKind c \<noteq> Adjustment_metric"
  shows "totals_sum (\<lambda>k. contributor_effects k c) = contributor_net c"
proof -
  have "sum_list (map (\<lambda>k. sum_list (map me_effectMinor
      (filter (\<lambda>e. metricKey (mc_sourceKind c) (me_component e) = Some k) es))) settlement_keys) =
    sum_list (map me_effectMinor (filter (\<lambda>e. \<not> tax_component (me_component e)) es))" for es
  proof (induction es)
    case (Cons e es)
    then show ?case using metricKey_None [OF assms, of "me_component e"]
      by (cases "metricKey (mc_sourceKind c) (me_component e)")
        (auto simp: settlement_keys_def, (metis settlement_key.exhaust)?)
  qed (simp add: settlement_keys_def)
  then show ?thesis by (simp add: totals_sum_def contributor_effects_def contributor_net_def)
qed

lemma apply_effects:
  "rfold (apply_effect s) es t = Inr t' \<Longrightarrow> \<forall>k. safe_integer (t k) \<Longrightarrow>
    (\<forall>k. safe_integer (t' k)) \<and>
    t' = (\<lambda>k. t k + sum_list (map me_effectMinor (filter (\<lambda>e. metricKey s (me_component e) = Some k) es)))"
proof (induction es arbitrary: t)
  case (Cons e es)
  then obtain u where u: "apply_effect s e t = Inr u" and rest: "rfold (apply_effect s) es u = Inr t'"
    by (auto simp: result_simps)
  have safe: "\<forall>k. safe_integer (u k)"
    and ueq: "u = (\<lambda>k. t k + (if metricKey s (me_component e) = Some k then me_effectMinor e else 0))"
    using u Cons.prems(2) by (auto simp: apply_effect_def result_simps split: option.splits)
  from Cons.IH [OF rest safe] have "\<forall>k. safe_integer (t' k)"
    and t': "t' = (\<lambda>k. u k + sum_list (map me_effectMinor (filter (\<lambda>e. metricKey s (me_component e) = Some k) es)))"
    by blast+
  then show ?case unfolding t' ueq by (simp add: fun_eq_iff add.assoc)
qed simp

lemma contributor_counts_lookup:
  "contributor_counts cs = Inr counts \<Longrightarrow>
    (case map_of counts key of None \<Rightarrow> 0 | Some n \<Rightarrow> n) = int (count_list (map contributor_key cs) key)"
proof (induction cs arbitrary: counts rule: rev_induct)
  case (snoc c cs)
  let ?f = "\<lambda>c counts. rbind (add_metric (case map_of counts (contributor_key c) of None \<Rightarrow> 0 | Some n \<Rightarrow> n) 1)
     (\<lambda>n. Inr (AList.update (contributor_key c) n counts)) :: (string \<times> int) list metric"
  from snoc.prems obtain m where m: "contributor_counts cs = Inr m" and step: "?f c m = Inr counts"
    by (auto simp: contributor_counts_def rfold_append result_simps)
  from snoc.IH [OF m] step show ?case
    by (auto simp: result_simps update_conv' split: option.splits if_splits)
qed (simp add: contributor_counts_def)

lemma contributor_key_inj:
  "contributor_key c = contributor_key d \<longleftrightarrow>
     (mc_balanceTransactionId c, mc_basis c) = (mc_balanceTransactionId d, mc_basis d)"
proof -
  have plain: "CHR 0x00 \<notin> set (basis_name b)" for b by (cases b) auto
  have inj: "basis_name a = basis_name b \<longleftrightarrow> a = b" for a b by (cases a; cases b) auto
  show ?thesis
    using append_sep_eq [of "mc_balanceTransactionId c" "CHR 0x00" "basis_name (mc_basis c)"
        "mc_balanceTransactionId d" "basis_name (mc_basis d)"] plain
    by (auto simp: contributor_key_def inj)
qed

text \<open>What holds of the loop between two contributors.\<close>

definition progress_ok :: "metric_progress \<Rightarrow> bool" where
  "progress_ok p \<longleftrightarrow> 0 \<le> mp_missing p \<and> safe_integer (mp_missing p) \<and> (\<forall>k. safe_integer (mp_totals p k)) \<and>
     (mp_handled p \<noteq> [] \<longrightarrow> 0 < mp_missing p) \<and>
     (0 < mp_missing p \<longrightarrow> 2 \<le> state_severity (mp_state p)) \<and>
     (mp_missing p = 0 \<longrightarrow> state_severity (mp_state p) \<le> 1)"

definition counted_once :: "(string \<times> int) list \<Rightarrow> metric_contributor \<Rightarrow> bool" where
  "counted_once counts c \<longleftrightarrow> (case map_of counts (contributor_key c) of None \<Rightarrow> 0 | Some n \<Rightarrow> n) \<le> 1"

lemma note_missing_ok:
  assumes "note_missing n s p = Inr p'" and "progress_ok p \<or> progress_ok (p\<lparr>mp_handled := []\<rparr>)"
    and "0 < n" and "2 \<le> state_severity s"
  shows "progress_ok p' \<and> 0 < mp_missing p'"
  using assms by (auto simp: note_missing_def progress_ok_def result_simps)

lemma contributor_step_ok:
  assumes step: "contributor_step cur counts c p = Inr p'" and ok: "progress_ok p"
  shows "progress_ok p' \<and>
    (mp_missing p' = 0 \<longleftrightarrow> mp_missing p = 0 \<and> counted_once counts c \<and> attributable cur c) \<and>
    (mp_missing p' = 0 \<longrightarrow> mp_totals p' = (\<lambda>k. mp_totals p k + contributor_effects k c) \<and>
      mp_state p' = moreSevere (mp_state p) (mc_state c))"
proof -
  have missing: "progress_ok q \<Longrightarrow> 0 < mp_missing q \<Longrightarrow> \<not> (counted_once counts c \<and> attributable cur c \<and> mp_missing p = 0)
     \<Longrightarrow> p' = q \<Longrightarrow> ?thesis" for q by auto
  show ?thesis
  proof (cases "counted_once counts c")
    case False
    then show ?thesis
    proof (cases "contributor_key c \<in> set (mp_handled p)")
      case True
      then have "0 < mp_missing p" using ok by (auto simp: progress_ok_def)
      moreover have "p' = p" using step False True by (simp add: contributor_step_def counted_once_def)
      ultimately show ?thesis using ok False by auto
    next
      case fresh: False
      have "note_missing 1 Exception_state (p\<lparr>mp_handled := contributor_key c # mp_handled p\<rparr>) = Inr p'"
        using step False fresh by (simp add: contributor_step_def counted_once_def)
      from note_missing_ok [OF this] ok False show ?thesis
        by (auto simp: progress_ok_def note_missing_def)
    qed
  next
    case once: True
    show ?thesis
    proof (cases "mc_scope c = Unresolved_scope")
      case True
      have "note_missing (if mc_missingSourceCount c > 0 then mc_missingSourceCount c else 1)
          (if mc_state c = Exception_state then Exception_state else Pending_state) p = Inr p'"
        using step once True by (simp add: contributor_step_def counted_once_def)
      from note_missing_ok [OF this disjI1 [OF ok]] have "progress_ok p' \<and> 0 < mp_missing p'" by simp
      with True show ?thesis by (auto simp: attributable_def)
    next
      case resolved: False
      show ?thesis
      proof (cases "mc_availability c = Complete_metric")
        case False
        have "note_missing (mc_missingSourceCount c) (moreSevere (mc_state c)
            (if mc_availability c \<in> {Conflicting_metric, Incompatible_metric} then Exception_state
             else Pending_state)) p = Inr p'" and "1 \<le> mc_missingSourceCount c"
          using step once resolved False by (auto simp: contributor_step_def counted_once_def split: if_splits)
        from note_missing_ok [OF this(1) disjI1 [OF ok]] this(2)
        have "progress_ok p' \<and> 0 < mp_missing p'" by (auto simp: le_max_iff_disj split: if_splits)
        with False show ?thesis by (auto simp: attributable_def)
      next
        case complete: True
        show ?thesis
        proof (cases "incompatible_contributor cur c")
          case True
          have "note_missing 1 Exception_state p = Inr p'"
            using step once resolved complete True
            by (auto simp: contributor_step_def counted_once_def split: if_splits)
          from note_missing_ok [OF this disjI1 [OF ok]] have "progress_ok p' \<and> 0 < mp_missing p'" by simp
          with True show ?thesis by (auto simp: attributable_def)
        next
          case False
          obtain totals where st: "mc_state c = Fee_reconciled \<or> mc_state c = Payout_reconciled"
            and f: "rfold (apply_effect (mc_sourceKind c)) (mc_effects c) (mp_totals p) = Inr totals"
            and p': "p' = p\<lparr>mp_state := moreSevere (mp_state p) (mc_state c), mp_totals := totals\<rparr>"
            using step once resolved complete False
            by (auto simp: contributor_step_def counted_once_def result_simps split: if_splits)
          have "\<forall>k. safe_integer (mp_totals p k)" using ok by (simp add: progress_ok_def)
          note t = apply_effects [OF f this, folded contributor_effects_def]
          have "state_severity (mc_state c) \<le> 1" using st by auto
          then have "progress_ok p'" using ok p' conjunct1 [OF t] by (auto simp: progress_ok_def max_def)
          moreover have "mp_totals p' = (\<lambda>k. mp_totals p k + contributor_effects k c)"
            using p' conjunct2 [OF t] by simp
          moreover have "mp_missing p' = mp_missing p" "mp_state p' = moreSevere (mp_state p) (mc_state c)"
            using p' by simp_all
          ultimately show ?thesis using once resolved complete False by (simp add: attributable_def)
        qed
      qed
    qed
  qed
qed

lemma contributor_loop:
  assumes "rfold (contributor_step cur counts) cs p = Inr p'" and "progress_ok p"
  shows "progress_ok p' \<and>
    (mp_missing p' = 0 \<longleftrightarrow> mp_missing p = 0 \<and> (\<forall>c \<in> set cs. counted_once counts c \<and> attributable cur c)) \<and>
    (mp_missing p' = 0 \<longrightarrow>
      mp_totals p' = (\<lambda>k. mp_totals p k + sum_list (map (contributor_effects k) cs)) \<and>
      mp_state p' = foldl moreSevere (mp_state p) (map mc_state cs))"
  using assms
proof (induction cs arbitrary: p)
  case (Cons c cs)
  then obtain q where q: "contributor_step cur counts c p = Inr q"
    and rest: "rfold (contributor_step cur counts) cs q = Inr p'" by (auto simp: result_simps)
  note s = contributor_step_ok [OF q Cons.prems(2)]
  note r = Cons.IH [OF rest] 
  show ?case using s r by (auto simp: add.assoc)
qed simp

lemma distinct_count_list: "distinct xs \<longleftrightarrow> (\<forall>x \<in> set xs. count_list xs x \<le> 1)"
  by (induction xs) (auto simp: count_list_0_iff, (metis count_list_0_iff le_0_eq)?)

lemma counted_once_distinct:
  assumes "contributor_counts cs = Inr counts"
  shows "(\<forall>c \<in> set cs. counted_once counts c) \<longleftrightarrow>
    distinct (map (\<lambda>c. (mc_balanceTransactionId c, mc_basis c)) cs)"
proof -
  have "distinct (map contributor_key cs) \<longleftrightarrow>
      (\<forall>c \<in> set cs. count_list (map contributor_key cs) (contributor_key c) \<le> 1)"
    by (simp add: distinct_count_list)
  also have "\<dots> \<longleftrightarrow> (\<forall>c \<in> set cs. counted_once counts c)"
    using contributor_counts_lookup [OF assms] by (simp add: counted_once_def)
  finally show ?thesis by (simp add: distinct_map inj_on_def contributor_key_inj)
qed

definition metric_contributors :: "metric_input \<Rightarrow> metric_contributor list" where
  "metric_contributors input = filter counts_for_title (mi_contributors input)"

text \<open>Everything the loop and the two results say about a row.\<close>

lemma title_row_cases:
  assumes "toSalesTitleMetricDto input = Inr row"
  obtains base p where "baseInput input = Inr base" "metric_contributors input \<noteq> []"
    and "progress_ok p"
    and "mp_missing p = 0 \<longleftrightarrow> distinct (map (\<lambda>c. (mc_balanceTransactionId c, mc_basis c)) (metric_contributors input)) \<and>
      (\<forall>c \<in> set (metric_contributors input). attributable (mi_settlementCurrency input) c)"
    and "mp_missing p = 0 \<Longrightarrow> mp_totals p = (\<lambda>k. sum_list (map (contributor_effects k) (metric_contributors input)))"
    and "mp_missing p = 0 \<Longrightarrow> mp_state p = worst_state (map mc_state (metric_contributors input))"
    and "0 < mp_missing p \<Longrightarrow> row = base\<lparr>tm_missingSourceCount := mp_missing p, tm_state := mp_state p\<rparr>"
    and "mp_missing p = 0 \<Longrightarrow> estimate (mp_totals p) = Inr (totals_sum (mp_totals p)) \<and>
      tm_settlementCurrency base \<noteq> None \<and>
      row = base\<lparr>tm_settlement := (\<lambda>k. Some (mp_totals p k)),
        tm_estimatedPayoutMinor := Some (totals_sum (mp_totals p)), tm_settlementMetricsComplete := True,
        tm_missingSourceCount := 0, tm_state := mp_state p\<rparr>"
proof -
  let ?cs = "metric_contributors input"
    and ?start = "\<lparr>mp_totals = emptySettlementTotals, mp_missing = 0, mp_state = Payout_reconciled, mp_handled = []\<rparr>"
  obtain base counts p where b: "baseInput input = Inr base" and ne: "?cs \<noteq> []"
    and counts: "contributor_counts ?cs = Inr counts"
    and loop: "rfold (contributor_step (tm_settlementCurrency base) counts) ?cs ?start = Inr p"
    and fin: "(if mp_missing p > 0 then
       rbind (throw_if (mp_state p \<noteq> Pending_state \<and> mp_state p \<noteq> Exception_state) Sales_metric_error) (\<lambda>_.
       Inr (base\<lparr>tm_missingSourceCount := mp_missing p, tm_state := mp_state p\<rparr>))
     else
       rbind (throw_if (tm_settlementCurrency base = None \<or>
         (mp_state p \<noteq> Fee_reconciled \<and> mp_state p \<noteq> Payout_reconciled)) Sales_metric_error) (\<lambda>_.
       rbind (estimate (mp_totals p)) (\<lambda>payout.
       Inr (base\<lparr>tm_settlement := (\<lambda>k. Some (mp_totals p k)), tm_estimatedPayoutMinor := Some payout,
         tm_settlementMetricsComplete := True, tm_missingSourceCount := 0, tm_state := mp_state p\<rparr>)))) = Inr row"
    using assms unfolding toSalesTitleMetricDto_def title_contributors_def metric_contributors_def [symmetric]
    by (auto simp: rbind_eq_Inr simp del: rbind_throw_if)
  have cur: "tm_settlementCurrency base = mi_settlementCurrency input"
    using b by (auto simp: baseInput_def result_simps split: if_splits)
  have "progress_ok ?start" by (simp add: progress_ok_def emptySettlementTotals_def)
  note l = contributor_loop [OF loop this, unfolded cur]
  show thesis
  proof (rule that [OF b ne])
    show ok: "progress_ok p" using l by blast
    show "mp_missing p = 0 \<longleftrightarrow> distinct (map (\<lambda>c. (mc_balanceTransactionId c, mc_basis c)) ?cs) \<and>
        (\<forall>c \<in> set ?cs. attributable (mi_settlementCurrency input) c)"
      using l counted_once_distinct [OF counts] by auto
    show "mp_totals p = (\<lambda>k. sum_list (map (contributor_effects k) ?cs))" if "mp_missing p = 0"
      using l that by (simp add: emptySettlementTotals_def)
    show "mp_state p = worst_state (map mc_state ?cs)" if "mp_missing p = 0"
      using l that by (simp add: foldl_worst)
    show "row = base\<lparr>tm_missingSourceCount := mp_missing p, tm_state := mp_state p\<rparr>" if "0 < mp_missing p"
      using fin that by (simp split: if_splits)
    show "estimate (mp_totals p) = Inr (totals_sum (mp_totals p)) \<and> tm_settlementCurrency base \<noteq> None \<and>
      row = base\<lparr>tm_settlement := (\<lambda>k. Some (mp_totals p k)),
        tm_estimatedPayoutMinor := Some (totals_sum (mp_totals p)), tm_settlementMetricsComplete := True,
        tm_missingSourceCount := 0, tm_state := mp_state p\<rparr>" if "mp_missing p = 0"
      using fin that by (auto simp: rbind_eq_Inr dest: estimate_Inr split: if_splits)
  qed
qed

lemma baseInput_Inr:
  "baseInput input = Inr base \<Longrightarrow>
    tm_titleId base \<noteq> [] \<and> currency_code (tm_presentmentCurrency base) \<and>
    (\<forall>c. tm_settlementCurrency base = Some c \<longrightarrow> currency_code c) \<and>
    safe_integer (tm_soldCopies base) \<and> safe_integer (tm_fullyRefundedCopies base) \<and>
    safe_integer (tm_netCopies base) \<and> 0 \<le> tm_fullyRefundedCopies base \<and>
    tm_fullyRefundedCopies base \<le> tm_soldCopies base \<and>
    tm_netCopies base = tm_soldCopies base - tm_fullyRefundedCopies base \<and>
    safe_integer (tm_grossPresentmentMinor base) \<and> safe_integer (tm_finalizedRefundPresentmentMinor base) \<and>
    safe_integer (tm_disputeWithdrawalPresentmentMinor base) \<and>
    safe_integer (tm_disputeReinstatementPresentmentMinor base) \<and>
    tm_settlement base = (\<lambda>_. None) \<and> tm_estimatedPayoutMinor base = None \<and>
    \<not> tm_settlementMetricsComplete base \<and> tm_settlementCurrency base = mi_settlementCurrency input"
  unfolding baseInput_def by (auto simp: result_simps split: if_splits)

lemma sum_list_swap:
  "sum_list (map (\<lambda>x. sum_list (map (f x) ys)) xs) = sum_list (map (\<lambda>y. sum_list (map (\<lambda>x. f x y) xs)) ys)"
  for f :: "'a \<Rightarrow> 'b \<Rightarrow> int"
  by (induction xs) (simp_all add: sum_list_addf)

section \<open>A sample report\<close>

definition sample_set :: "string \<Rightarrow> allocation_basis \<Rightarrow> metric_source \<Rightarrow> metric_effect list \<Rightarrow> metric_contributor" where
  "sample_set transaction basis source effects =
     \<lparr>mc_balanceTransactionId = transaction, mc_algorithmVersion = 2, mc_basis = basis, mc_sourceKind = source,
      mc_scope = Title_scope, mc_settlementCurrency = Some ''EUR'', mc_state = Fee_reconciled,
      mc_availability = Complete_metric, mc_missingSourceCount = 0, mc_effects = effects\<rparr>"

definition sample_metric_input :: "string \<Rightarrow> string \<Rightarrow> metric_contributor list \<Rightarrow> metric_input" where
  "sample_metric_input titleId currency contributors =
     \<lparr>mi_titleId = titleId, mi_currentTitle = ''Orbit'', mi_format = Prose_metric, mi_archived = False,
      mi_soldAsVariants = [], mi_presentmentCurrency = currency, mi_settlementCurrency = Some ''EUR'',
      mi_soldCopies = 2, mi_fullyRefundedCopies = 1, mi_grossPresentmentMinor = 2000,
      mi_finalizedRefundPresentmentMinor = 1000, mi_disputeWithdrawalPresentmentMinor = 0,
      mi_disputeReinstatementPresentmentMinor = 0, mi_freshnessAt = ''2026'', mi_contributors = contributors\<rparr>"

definition sample_sets :: "metric_contributor list" where
  "sample_sets =
     [sample_set ''t1'' Gross_amount Payment_metric
        [\<lparr>me_component = Sale_subtotal, me_effectMinor = 2000\<rparr>, \<lparr>me_component = Sale_tax, me_effectMinor = 140\<rparr>],
      sample_set ''t1'' Fee_basis Payment_metric [\<lparr>me_component = Processing_fee, me_effectMinor = - 80\<rparr>],
      sample_set ''t2'' Gross_amount Refund_metric [\<lparr>me_component = Refund_subtotal, me_effectMinor = - 1000\<rparr>]]"

definition sample_input1 :: metric_input where
  "sample_input1 = sample_metric_input ''a'' ''USD'' sample_sets"

definition sample_input2 :: metric_input where
  "sample_input2 = sample_metric_input ''b'' ''EUR'' (sample_sets @ take 1 sample_sets)"

text \<open>
  C27. The settlement figures of a title are complete exactly when every allocation set that counts for
  the title occurs once and can be attributed. Then each figure is the exact sum of the effects of its
  kind, the estimated payout is the exact sum of all effects but taxes, nothing is missing, and the
  title is reconciled with payouts only if every set is. Otherwise every settlement figure is absent,
  at least one source is counted as missing, and the state says so.
\<close>

theorem title_figures_exact:
  assumes "toSalesTitleMetricDto input = Inr row"
  shows "(tm_settlementMetricsComplete row \<longleftrightarrow>
      distinct (map (\<lambda>c. (mc_balanceTransactionId c, mc_basis c)) (metric_contributors input)) \<and>
      (\<forall>c \<in> set (metric_contributors input). attributable (mi_settlementCurrency input) c)) \<and>
    (if tm_settlementMetricsComplete row then
      tm_settlement row = (\<lambda>k. Some (\<Sum>c \<leftarrow> metric_contributors input. contributor_effects k c)) \<and>
      tm_estimatedPayoutMinor row = Some (\<Sum>c \<leftarrow> metric_contributors input. contributor_net c) \<and>
      tm_missingSourceCount row = 0 \<and>
      tm_state row = worst_state (map mc_state (metric_contributors input)) \<and>
      tm_state row \<in> {Fee_reconciled, Payout_reconciled}
    else
      tm_settlement row = (\<lambda>_. None) \<and> tm_estimatedPayoutMinor row = None \<and>
      0 < tm_missingSourceCount row \<and> tm_state row \<in> {Pending_state, Exception_state})"
  using assms
proof (cases rule: title_row_cases)
  case (1 base p)
  note base = baseInput_Inr [OF 1(1)]
  show ?thesis
  proof (cases "mp_missing p = 0")
    case True
    let ?cs = "metric_contributors input"
    have "totals_sum (mp_totals p) = (\<Sum>c \<leftarrow> ?cs. totals_sum (\<lambda>k. contributor_effects k c))"
      using 1(5) [OF True] sum_list_swap [of "\<lambda>k c. contributor_effects k c" ?cs settlement_keys]
      by (simp add: totals_sum_def)
    also have "\<dots> = (\<Sum>c \<leftarrow> ?cs. contributor_net c)"
      using 1(4) True attributable_not_adjustment
      by (intro arg_cong [where f = sum_list] map_cong refl contributor_net_eq) auto
    finally have net: "totals_sum (mp_totals p) = (\<Sum>c \<leftarrow> ?cs. contributor_net c)" .
    have state: "mp_state p \<in> {Fee_reconciled, Payout_reconciled}"
      using 1(3) True severity_cases(2) [of "mp_state p"] by (auto simp: progress_ok_def)
    show ?thesis
      using 1(8) [OF True] 1(4,5,6) True net state by simp
  next
    case False
    then have pos: "0 < mp_missing p" and "2 \<le> state_severity (mp_state p)"
      using 1(3) by (auto simp: progress_ok_def)
    then have "mp_state p \<in> {Pending_state, Exception_state}"
      using severity_cases(1) [of "mp_state p"] by auto
    with 1(7) [OF pos] 1(4) False pos base show ?thesis by simp
  qed
qed

theorem title_figures_exact_witness:
  "\<exists>row. toSalesTitleMetricDto sample_input1 = Inr row \<and> tm_settlementMetricsComplete row \<and>
     tm_settlement row Refund_impact = Some (- 1000) \<and> tm_estimatedPayoutMinor row = Some 920"
proof -
  have "case toSalesTitleMetricDto sample_input1 of Inl _ \<Rightarrow> False | Inr row \<Rightarrow> tm_settlementMetricsComplete row"
    by code_simp
  then obtain row where row: "toSalesTitleMetricDto sample_input1 = Inr row" and c: "tm_settlementMetricsComplete row"
    by (auto split: sum.splits)
  have "(\<Sum>c \<leftarrow> metric_contributors sample_input1. contributor_effects Refund_impact c) = - 1000"
    "(\<Sum>c \<leftarrow> metric_contributors sample_input1. contributor_net c) = 920" by code_simp+
  then show ?thesis using title_figures_exact [OF row] row c by simp
qed

lemma title_row_valid:
  assumes "toSalesTitleMetricDto input = Inr row"
  shows "validateSummaryRow row = Inr ()"
  using assms
proof (cases rule: title_row_cases)
  case (1 base p)
  note base = baseInput_Inr [OF 1(1)]
  have zero: "safe_integer (0::int)" by simp
  show ?thesis
  proof (cases "mp_missing p = 0")
    case True
    have est: "estimate (mp_totals p) = Inr (totals_sum (mp_totals p))" using 1(8) [OF True] by blast
    have rt: "row_totals row = mp_totals p" using 1(8) [OF True] by (simp add: row_totals_def fun_eq_iff)
    have "mp_state p = Fee_reconciled \<or> mp_state p = Payout_reconciled"
      using 1(3) True severity_cases(2) [of "mp_state p"] by (auto simp: progress_ok_def)
    then show ?thesis
      unfolding validateSummaryRow_def rt
      using 1(8) [OF True] base estimate_Inr [OF est] est
      by (auto simp: result_simps nullable_number_def)
  next
    case False
    then have pos: "0 < mp_missing p" and "2 \<le> state_severity (mp_state p)" and s: "safe_integer (mp_missing p)"
      using 1(3) by (auto simp: progress_ok_def)
    then have "mp_state p = Pending_state \<or> mp_state p = Exception_state"
      using severity_cases(1) [of "mp_state p"] by auto
    with 1(7) [OF pos] pos s base show ?thesis
      unfolding validateSummaryRow_def by (auto simp: result_simps list_ex_iff)
  qed
qed

section \<open>The summary by currencies\<close>

type_synonym currency_pair = "string \<times> string option"

definition row_pair :: "title_metric \<Rightarrow> currency_pair" where
  "row_pair row = (tm_presentmentCurrency row, tm_settlementCurrency row)"

definition summary_pair :: "currency_summary \<Rightarrow> currency_pair" where
  "summary_pair s = (cs_presentmentCurrency s, cs_settlementCurrency s)"

definition pair_rows :: "title_metric list \<Rightarrow> currency_pair \<Rightarrow> title_metric list" where
  "pair_rows rows pair = filter (\<lambda>row. row_pair row = pair) rows"

definition sum_of :: "('a \<Rightarrow> int) \<Rightarrow> 'a list \<Rightarrow> int" where
  "sum_of f xs = sum_list (map f xs)"

lemma sum_of_simps [simp]: "sum_of f [] = 0" "sum_of f (xs @ [x]) = sum_of f xs + f x"
  by (simp_all add: sum_of_def)

text \<open>The specification: the entry of a pair of currencies, from the rows with this pair.\<close>

definition summary_of :: "title_metric list \<Rightarrow> currency_pair \<Rightarrow> currency_summary" where
  "summary_of rows pair = (let rs = pair_rows rows pair; complete = list_all tm_settlementMetricsComplete rs in
     \<lparr>cs_presentmentCurrency = fst pair, cs_settlementCurrency = snd pair, cs_titleCount = int (length rs),
      cs_soldCopies = sum_of tm_soldCopies rs, cs_fullyRefundedCopies = sum_of tm_fullyRefundedCopies rs,
      cs_netCopies = sum_of tm_netCopies rs, cs_grossPresentmentMinor = sum_of tm_grossPresentmentMinor rs,
      cs_finalizedRefundPresentmentMinor = sum_of tm_finalizedRefundPresentmentMinor rs,
      cs_disputeWithdrawalPresentmentMinor = sum_of tm_disputeWithdrawalPresentmentMinor rs,
      cs_disputeReinstatementPresentmentMinor = sum_of tm_disputeReinstatementPresentmentMinor rs,
      cs_settlement = (\<lambda>k. if complete then Some (sum_of (\<lambda>row. row_totals row k) rs) else None),
      cs_estimatedPayoutMinor = (if complete then Some (sum_of row_payout rs) else None),
      cs_settlementMetricsComplete = complete, cs_missingSourceCount = sum_of tm_missingSourceCount rs,
      cs_state = worst_state (map tm_state rs)\<rparr>)"

definition plain_figures :: "(title_metric \<Rightarrow> int) list" where
  "plain_figures = [tm_soldCopies, tm_fullyRefundedCopies, tm_netCopies, tm_grossPresentmentMinor,
     tm_finalizedRefundPresentmentMinor, tm_disputeWithdrawalPresentmentMinor,
     tm_disputeReinstatementPresentmentMinor, tm_missingSourceCount]"

text \<open>No total of the rows, without regard to signs, leaves the safe range.\<close>

definition figures_fit :: "title_metric list \<Rightarrow> bool" where
  "figures_fit rows \<longleftrightarrow> int (length rows) \<le> 9007199254740991 \<and>
     list_all (\<lambda>f. sum_of (\<lambda>row. \<bar>f row\<bar>) rows \<le> 9007199254740991) plain_figures \<and>
     sum_of (\<lambda>row. totals_sum (\<lambda>k. \<bar>row_totals row k\<bar>)) rows \<le> 9007199254740991"

lemma sum_of_abs: "\<bar>sum_of f xs\<bar> \<le> sum_of (\<lambda>x. \<bar>f x\<bar>) xs"
  unfolding sum_of_def by (induction xs) auto

lemma sum_of_filter_le:
  assumes "\<And>x. 0 \<le> f x"
  shows "sum_of f (filter P xs) \<le> sum_of f xs"
  unfolding sum_of_def using assms by (induction xs) (auto intro: add_increasing)

lemma figures_fit_filter:
  assumes "figures_fit rows"
  shows "figures_fit (filter P rows)"
proof -
  have abs: "sum_of (\<lambda>row. \<bar>f row\<bar>) (filter P rows) \<le> sum_of (\<lambda>row. \<bar>f row\<bar>) rows" for f
    by (rule sum_of_filter_le) simp
  have tot: "sum_of (\<lambda>row. totals_sum (\<lambda>k. \<bar>row_totals row k\<bar>)) (filter P rows)
      \<le> sum_of (\<lambda>row. totals_sum (\<lambda>k. \<bar>row_totals row k\<bar>)) rows"
    by (rule sum_of_filter_le) (simp add: totals_sum_def settlement_keys_def)
  have len: "int (length (filter P rows)) \<le> int (length rows)" by simp
  show ?thesis using assms abs tot len unfolding figures_fit_def list_all_iff
    by (meson order_trans)
qed

lemma figures_fit_butlast: "figures_fit (rows @ [row]) \<Longrightarrow> figures_fit rows"
proof -
  assume a: "figures_fit (rows @ [row])"
  have "0 \<le> totals_sum (\<lambda>k. \<bar>row_totals row k\<bar>)" by (simp add: totals_sum_def settlement_keys_def)
  then show ?thesis using a unfolding figures_fit_def list_all_iff
    by (auto dest!: bspec)
qed

text \<open>The accumulator of a pair after some of its rows.\<close>

definition accumulated :: "currency_pair \<Rightarrow> title_metric list \<Rightarrow> summary_accumulator" where
  "accumulated pair rs =
     \<lparr>sa_presentmentCurrency = fst pair, sa_settlementCurrency = snd pair, sa_titleIds = rev (map tm_titleId rs),
      sa_soldCopies = sum_of tm_soldCopies rs, sa_fullyRefundedCopies = sum_of tm_fullyRefundedCopies rs,
      sa_netCopies = sum_of tm_netCopies rs, sa_grossPresentmentMinor = sum_of tm_grossPresentmentMinor rs,
      sa_finalizedRefundPresentmentMinor = sum_of tm_finalizedRefundPresentmentMinor rs,
      sa_disputeWithdrawalPresentmentMinor = sum_of tm_disputeWithdrawalPresentmentMinor rs,
      sa_disputeReinstatementPresentmentMinor = sum_of tm_disputeReinstatementPresentmentMinor rs,
      sa_settlement = (\<lambda>k. sum_of (\<lambda>row. row_totals row k) rs), sa_estimatedPayoutMinor = sum_of row_payout rs,
      sa_settlementMetricsComplete = list_all tm_settlementMetricsComplete rs,
      sa_missingSourceCount = sum_of tm_missingSourceCount rs, sa_state = worst_state (map tm_state rs)\<rparr>"

lemma createAccumulator_eq: "createAccumulator row = accumulated (row_pair row) []"
  by (simp add: createAccumulator_def accumulated_def row_pair_def emptySettlementTotals_def worst_state_def)

lemma valid_row:
  assumes "validateSummaryRow row = Inr ()"
  shows "tm_settlementMetricsComplete row \<Longrightarrow> row_payout row = totals_sum (row_totals row) \<and>
      tm_settlementCurrency row \<noteq> None \<and> tm_missingSourceCount row = 0 \<and>
      (tm_state row = Fee_reconciled \<or> tm_state row = Payout_reconciled)"
    and "\<not> tm_settlementMetricsComplete row \<Longrightarrow> (\<forall>k. row_totals row k = 0) \<and> row_payout row = 0 \<and>
      1 \<le> tm_missingSourceCount row \<and> (tm_state row = Pending_state \<or> tm_state row = Exception_state)"
    and "0 \<le> tm_missingSourceCount row" "currency_code (tm_presentmentCurrency row)"
    and "tm_settlementCurrency row = Some c \<Longrightarrow> currency_code c"
proof -
  show "row_payout row = totals_sum (row_totals row) \<and> tm_settlementCurrency row \<noteq> None \<and>
      tm_missingSourceCount row = 0 \<and> (tm_state row = Fee_reconciled \<or> tm_state row = Payout_reconciled)"
    if c: "tm_settlementMetricsComplete row"
  proof -
    obtain payout where e: "estimate (row_totals row) = Inr payout" "Some payout = tm_estimatedPayoutMinor row"
      and r: "tm_settlementCurrency row \<noteq> None" "tm_missingSourceCount row = 0"
        "tm_state row = Fee_reconciled \<or> tm_state row = Payout_reconciled"
      using assms c unfolding validateSummaryRow_def by (auto simp: result_simps split: if_splits)
    have "row_payout row = payout" unfolding row_payout_def e(2) [symmetric] by simp
    with estimate_Inr [OF e(1)] r show ?thesis by simp
  qed
  show "(\<forall>k. row_totals row k = 0) \<and> row_payout row = 0 \<and>
      1 \<le> tm_missingSourceCount row \<and> (tm_state row = Pending_state \<or> tm_state row = Exception_state)"
    if i: "\<not> tm_settlementMetricsComplete row"
  proof -
    have f: "1 \<le> tm_missingSourceCount row" "tm_state row = Pending_state \<or> tm_state row = Exception_state"
      "\<forall>k \<in> set settlement_keys. tm_settlement row k = None" "tm_estimatedPayoutMinor row = None"
      using assms i unfolding validateSummaryRow_def by (auto simp: result_simps list_ex_iff split: if_splits)
    then show ?thesis using settlement_keys_ball by (simp add: row_totals_def row_payout_def)
  qed
  show "0 \<le> tm_missingSourceCount row" "currency_code (tm_presentmentCurrency row)"
    "tm_settlementCurrency row = Some c \<Longrightarrow> currency_code c"
    using assms unfolding validateSummaryRow_def by (auto simp: result_simps split: if_splits)
qed

lemma add_settlement_fits:
  assumes "totals_sum (\<lambda>k. \<bar>t k\<bar>) + totals_sum (\<lambda>k. \<bar>row_totals row k\<bar>) \<le> 9007199254740991"
  shows "add_settlement row t = Inr (\<lambda>k. t k + row_totals row k)"
proof -
  have add: "add_metric (t k) (row_totals row k) = Inr (t k + row_totals row k)" for k
  proof (rule add_metric_fits)
    have "\<bar>t k\<bar> \<le> totals_sum (\<lambda>k. \<bar>t k\<bar>)" "\<bar>row_totals row k\<bar> \<le> totals_sum (\<lambda>k. \<bar>row_totals row k\<bar>)"
      by (cases k; simp add: totals_sum_def settlement_keys_def)+
    with assms show "\<bar>t k\<bar> + \<bar>row_totals row k\<bar> \<le> 9007199254740991" by linarith
  qed
  let ?u = "t(Gross_settlement := t Gross_settlement + row_totals row Gross_settlement,
      Refund_impact := t Refund_impact + row_totals row Refund_impact,
      Dispute_impact := t Dispute_impact + row_totals row Dispute_impact,
      Processing_fee_impact := t Processing_fee_impact + row_totals row Processing_fee_impact,
      Refund_fee_impact := t Refund_fee_impact + row_totals row Refund_fee_impact,
      Dispute_fee_impact := t Dispute_fee_impact + row_totals row Dispute_fee_impact,
      Other_fee_impact := t Other_fee_impact + row_totals row Other_fee_impact)"
  have "add_settlement row t = Inr ?u"
    by (simp add: add_settlement_def settlement_keys_def add)
  moreover have "?u = (\<lambda>k. t k + row_totals row k)"
  proof
    show "?u k = t k + row_totals row k" for k by (cases k) simp_all
  qed
  ultimately show ?thesis by simp
qed

lemma sum_of_add_fits:
  assumes "sum_of (\<lambda>row. \<bar>f row\<bar>) (rs @ [row]) \<le> 9007199254740991"
  shows "add_metric (sum_of f rs) (f row) = Inr (sum_of f (rs @ [row]))"
  using assms sum_of_abs [of f rs] add_metric_fits [of "sum_of f rs" "f row"] by simp

lemma totals_sum_le:
  "totals_sum (\<lambda>k. \<bar>sum_of (\<lambda>row. row_totals row k) rs\<bar>) \<le> sum_of (\<lambda>row. totals_sum (\<lambda>k. \<bar>row_totals row k\<bar>)) rs"
proof -
  have "totals_sum (\<lambda>k. \<bar>sum_of (\<lambda>row. row_totals row k) rs\<bar>)
      \<le> totals_sum (\<lambda>k. sum_of (\<lambda>row. \<bar>row_totals row k\<bar>) rs)"
    unfolding totals_sum_def by (rule sum_list_mono) (rule sum_of_abs)
  also have "\<dots> = sum_of (\<lambda>row. totals_sum (\<lambda>k. \<bar>row_totals row k\<bar>)) rs"
    unfolding totals_sum_def sum_of_def by (rule sum_list_swap)
  finally show ?thesis .
qed

lemma totals_sum_abs: "\<bar>totals_sum t\<bar> \<le> totals_sum (\<lambda>k. \<bar>t k\<bar>)"
  using sum_list_abs [of "map t settlement_keys"] by (simp add: totals_sum_def comp_def)

lemma payout_sum:
  assumes "\<forall>row \<in> set rs. validateSummaryRow row = Inr ()"
  shows "sum_of row_payout rs = totals_sum (\<lambda>k. sum_of (\<lambda>row. row_totals row k) rs)"
proof -
  have "row_payout row = totals_sum (row_totals row)" if "row \<in> set rs" for row
  proof (cases "tm_settlementMetricsComplete row")
    case True
    with that assms valid_row(1) show ?thesis by blast
  next
    case False
    with that assms valid_row(2) have "row_payout row = 0" "row_totals row = (\<lambda>_. 0)" by auto
    then show ?thesis by (simp add: totals_sum_def)
  qed
  then have "sum_of row_payout rs = sum_of (\<lambda>row. totals_sum (row_totals row)) rs"
    unfolding sum_of_def by (intro arg_cong [where f = sum_list] map_cong refl)
  also have "\<dots> = totals_sum (\<lambda>k. sum_of (\<lambda>row. row_totals row k) rs)"
    unfolding totals_sum_def sum_of_def by (rule sum_list_swap)
  finally show ?thesis .
qed

lemma append_row_exact:
  assumes valid: "\<forall>r \<in> set (rs @ [row]). validateSummaryRow r = Inr ()"
    and new: "tm_titleId row \<notin> tm_titleId ` set rs" and fits: "figures_fit (rs @ [row])"
  shows "appendSummaryRow row (accumulated pair rs) = Inr (accumulated pair (rs @ [row]))"
proof -
  let ?t = "\<lambda>k. sum_of (\<lambda>row. row_totals row k) rs"
  have "list_all (\<lambda>f. add_metric (sum_of f rs) (f row) = Inr (sum_of f (rs @ [row]))) plain_figures"
    unfolding list_all_iff
  proof
    fix f assume "f \<in> set plain_figures"
    then have "sum_of (\<lambda>row. \<bar>f row\<bar>) (rs @ [row]) \<le> 9007199254740991"
      using fits by (simp only: figures_fit_def list_all_iff)
    then show "add_metric (sum_of f rs) (f row) = Inr (sum_of f (rs @ [row]))" by (rule sum_of_add_fits)
  qed
  note adds = this [unfolded plain_figures_def, simplified]
  have tot: "sum_of (\<lambda>row. totals_sum (\<lambda>k. \<bar>row_totals row k\<bar>)) rs + totals_sum (\<lambda>k. \<bar>row_totals row k\<bar>) \<le> 9007199254740991"
    using fits by (simp add: figures_fit_def)
  have settle: "add_settlement row ?t = Inr (\<lambda>k. ?t k + row_totals row k)"
    using tot totals_sum_le [of rs] by (intro add_settlement_fits) linarith
  have pay: "sum_of row_payout rs = totals_sum ?t" "row_payout row = totals_sum (row_totals row)"
    using payout_sum [of rs] payout_sum [of "[row]"] valid by (auto simp: sum_of_def)
  have payout: "add_metric (sum_of row_payout rs) (row_payout row) = Inr (sum_of row_payout rs + row_payout row)"
    using tot totals_sum_le [of rs] totals_sum_abs [of ?t] totals_sum_abs [of "row_totals row"]
    unfolding pay by (intro add_metric_fits) linarith
  show ?thesis
  proof (cases "tm_settlementMetricsComplete row")
    case True
    then show ?thesis using new
      by (simp add: appendSummaryRow_def accumulated_def adds settle payout worst_state_snoc)
  next
    case False
    have zero: "row_totals row k = 0" "row_payout row = 0" for k
      using False valid valid_row(2) [of row] by auto
    from False show ?thesis using new
      by (simp add: appendSummaryRow_def accumulated_def adds zero worst_state_snoc)
  qed
qed

lemma worst_state_cases:
  assumes "states \<noteq> []"
  shows "(\<forall>s \<in> set states. s = Fee_reconciled \<or> s = Payout_reconciled) \<Longrightarrow>
      worst_state states = Fee_reconciled \<or> worst_state states = Payout_reconciled"
    and "(\<exists>s \<in> set states. s = Pending_state \<or> s = Exception_state) \<Longrightarrow>
      worst_state states = Pending_state \<or> worst_state states = Exception_state"
  by (auto simp: worst_state_def)

lemma missing_some:
  assumes "\<forall>row \<in> set rs. validateSummaryRow row = Inr ()"
  shows "(\<exists>row \<in> set rs. \<not> tm_settlementMetricsComplete row) \<Longrightarrow> 1 \<le> sum_of tm_missingSourceCount rs"
    and "(\<forall>row \<in> set rs. tm_settlementMetricsComplete row) \<Longrightarrow> sum_of tm_missingSourceCount rs = 0"
proof -
  have nonneg: "0 \<le> sum_of tm_missingSourceCount rs"
    using assms valid_row(3) unfolding sum_of_def by (intro sum_list_nonneg) auto
  show "1 \<le> sum_of tm_missingSourceCount rs" if ex: "\<exists>row \<in> set rs. \<not> tm_settlementMetricsComplete row"
  proof -
    from ex obtain row where row: "row \<in> set rs" "\<not> tm_settlementMetricsComplete row" by blast
    have "tm_missingSourceCount row \<le> sum_of tm_missingSourceCount rs"
      unfolding sum_of_def using row assms valid_row(3)
      by (intro member_le_sum_list) auto
    moreover have "1 \<le> tm_missingSourceCount row" using row assms valid_row(2) by blast
    ultimately show ?thesis by linarith
  qed
  show "sum_of tm_missingSourceCount rs = 0" if "\<forall>row \<in> set rs. tm_settlementMetricsComplete row"
    using that assms valid_row(1) unfolding sum_of_def by (induction rs) auto
qed

lemma toSummary_exact:
  assumes valid: "\<forall>row \<in> set rows. validateSummaryRow row = Inr ()" and fits: "figures_fit rows"
    and ne: "pair_rows rows pair \<noteq> []"
  shows "toSummary (accumulated pair (pair_rows rows pair)) = Inr (summary_of rows pair)"
proof -
  let ?rs = "pair_rows rows pair"
  have sub: "set ?rs \<subseteq> set rows" and cur: "\<forall>row \<in> set ?rs. tm_settlementCurrency row = snd pair"
    by (auto simp: pair_rows_def row_pair_def)
  have v: "\<forall>row \<in> set ?rs. validateSummaryRow row = Inr ()" using valid sub by blast
  have f: "figures_fit ?rs" using fits unfolding pair_rows_def by (rule figures_fit_filter)
  have count: "safeCount (int (length ?rs)) = Inr (int (length ?rs))"
    using f by (simp add: safeCount_Inr figures_fit_def safe_integer_def)
  show ?thesis
  proof (cases "list_all tm_settlementMetricsComplete ?rs")
    case True
    let ?t = "\<lambda>k. sum_of (\<lambda>row. row_totals row k) ?rs"
    have "totals_sum (\<lambda>k. \<bar>?t k\<bar>) \<le> 9007199254740991"
      using totals_sum_le [of ?rs] f by (simp add: figures_fit_def)
    then have est: "estimate ?t = Inr (sum_of row_payout ?rs)" using payout_sum [OF v] by (simp add: estimate_fits)
    have all: "\<forall>row \<in> set ?rs. tm_settlementMetricsComplete row" using True by (simp add: list_all_iff)
    then have "snd pair \<noteq> None" using ne cur v valid_row(1) by (metis list.set_intros(1) neq_Nil_conv)
    moreover have "worst_state (map tm_state ?rs) = Fee_reconciled \<or> worst_state (map tm_state ?rs) = Payout_reconciled"
      using all v valid_row(1) ne by (intro worst_state_cases) auto
    ultimately show ?thesis
      using True missing_some(2) [OF v all] count est
      by (auto simp: toSummary_def accumulated_def summary_of_def Let_def)
  next
    case False
    then have ex: "\<exists>row \<in> set ?rs. \<not> tm_settlementMetricsComplete row" by (auto simp: list_all_iff)
    then have "worst_state (map tm_state ?rs) = Pending_state \<or> worst_state (map tm_state ?rs) = Exception_state"
      using v valid_row(2) ne by (intro worst_state_cases) auto
    then show ?thesis
      using False missing_some(1) [OF v ex] count
      by (auto simp: toSummary_def accumulated_def summary_of_def Let_def)
  qed
qed

section \<open>All pairs\<close>

definition pair_text :: "currency_pair \<Rightarrow> string \<times> string" where
  "pair_text pair = (fst pair, case snd pair of None \<Rightarrow> [] | Some c \<Rightarrow> c)"

definition pair_valid :: "currency_pair \<Rightarrow> bool" where
  "pair_valid pair \<longleftrightarrow> currency_code (fst pair) \<and> (\<forall>c. snd pair = Some c \<longrightarrow> currency_code c)"

lemma currency_plain: "currency_code c \<Longrightarrow> CHR 0x00 \<notin> set c \<and> c \<noteq> []"
  by (auto simp: currency_code_def list_all_iff upper_letter_def)

lemma pair_text_inj: "pair_valid p \<Longrightarrow> pair_valid q \<Longrightarrow> pair_text p = pair_text q \<longleftrightarrow> p = q"
  by (cases p; cases q) (auto simp: pair_text_def pair_valid_def dest: currency_plain split: option.splits)

lemma pair_key_text: "pair_key row = fst (pair_text (row_pair row)) @ [CHR 0x00] @ snd (pair_text (row_pair row))"
  by (simp add: pair_key_def pair_text_def row_pair_def)

lemma pair_key_inj:
  assumes "pair_valid (row_pair r)" and "pair_valid (row_pair s)"
  shows "pair_key r = pair_key s \<longleftrightarrow> row_pair r = row_pair s"
proof
  assume "pair_key r = pair_key s"
  moreover have "CHR 0x00 \<notin> set (snd (pair_text (row_pair r)))" "CHR 0x00 \<notin> set (snd (pair_text (row_pair s)))"
    using assms currency_plain by (auto simp: pair_text_def pair_valid_def split: option.splits)
  ultimately have "pair_text (row_pair r) = pair_text (row_pair s)"
    unfolding pair_key_text by (auto dest: append_sep_eq intro: prod_eqI)
  then show "row_pair r = row_pair s" using assms pair_text_inj by blast
qed (simp add: pair_key_text)

lemma valid_row_pair: "validateSummaryRow row = Inr () \<Longrightarrow> pair_valid (row_pair row)"
  using valid_row(4,5) by (auto simp: pair_valid_def row_pair_def)

lemma pairs_loop:
  assumes "\<forall>row \<in> set rows. validateSummaryRow row = Inr ()"
    and "distinct (map (\<lambda>row. (row_pair row, tm_titleId row)) rows)" and "figures_fit rows"
  shows "\<exists>byPair. rfold add_row_to_pair rows [] = Inr byPair \<and> distinct (map fst byPair) \<and>
    fst ` set byPair = pair_key ` set rows \<and>
    (\<forall>row \<in> set rows. map_of byPair (pair_key row) = Some (accumulated (row_pair row) (pair_rows rows (row_pair row))))"
  using assms
proof (induction rows rule: rev_induct)
  case (snoc row rows)
  from snoc.prems(3) have "figures_fit rows" by (rule figures_fit_butlast)
  with snoc obtain m where m: "rfold add_row_to_pair rows [] = Inr m" "distinct (map fst m)"
    "fst ` set m = pair_key ` set rows"
    "\<forall>r \<in> set rows. map_of m (pair_key r) = Some (accumulated (row_pair r) (pair_rows rows (row_pair r)))"
    by auto
  let ?p = "row_pair row" and ?k = "pair_key row"
  let ?rs = "pair_rows rows ?p"
  have inj: "r \<in> set rows \<Longrightarrow> pair_key r = ?k \<longleftrightarrow> row_pair r = ?p" for r
    using snoc.prems(1) by (intro pair_key_inj valid_row_pair) auto
  have start: "(case map_of m ?k of None \<Rightarrow> createAccumulator row | Some a \<Rightarrow> a) = accumulated ?p ?rs"
  proof (cases "?k \<in> pair_key ` set rows")
    case True
    then obtain r where r: "r \<in> set rows" "pair_key r = ?k" by force
    then have "row_pair r = ?p" using inj by blast
    then have "map_of m ?k = Some (accumulated ?p ?rs)" using m(4) r by metis
    then show ?thesis by simp
  next
    case False
    then have "map_of m ?k = None" using m(3) by (simp add: map_of_eq_None_iff)
    moreover have "\<forall>r \<in> set rows. row_pair r \<noteq> ?p" using False inj by (metis imageI)
    then have "?rs = []" by (simp add: pair_rows_def filter_empty_conv)
    ultimately show ?thesis by (simp add: createAccumulator_eq)
  qed
  have rs: "pair_rows (rows @ [row]) ?p = ?rs @ [row]" by (simp add: pair_rows_def)
  have app: "appendSummaryRow row (accumulated ?p ?rs) = Inr (accumulated ?p (?rs @ [row]))"
  proof (rule append_row_exact)
    show "\<forall>r \<in> set (?rs @ [row]). validateSummaryRow r = Inr ()"
      using snoc.prems(1) by (auto simp: pair_rows_def)
    show "tm_titleId row \<notin> tm_titleId ` set ?rs"
    proof -
      have "(?p, tm_titleId row) \<notin> (\<lambda>row. (row_pair row, tm_titleId row)) ` set rows"
        using snoc.prems(2) by simp
      then show ?thesis by (auto simp: pair_rows_def image_iff)
    qed
    show "figures_fit (?rs @ [row])"
      using figures_fit_filter [OF snoc.prems(3), of "\<lambda>r. row_pair r = ?p"] by (simp add: pair_rows_def)
  qed
  have valid: "validateSummaryRow row = Inr ()" using snoc.prems(1) by simp
  have step: "rfold add_row_to_pair (rows @ [row]) [] =
      Inr (AList.update ?k (accumulated ?p (?rs @ [row])) m)"
    using m(1) valid app by (simp add: rfold_append add_row_to_pair_def start)
  have other: "pair_rows (rows @ [row]) (row_pair r) = pair_rows rows (row_pair r)" if "row_pair r \<noteq> ?p" for r
    using that by (auto simp: pair_rows_def)
  show ?case
    using m step inj rs other
    by (auto simp: AList.distinct_update dom_update update_conv')
qed simp

definition acc_pair :: "summary_accumulator \<Rightarrow> currency_pair" where
  "acc_pair a = (sa_presentmentCurrency a, sa_settlementCurrency a)"

lemma acc_pair_accumulated [simp]: "acc_pair (accumulated pair rs) = pair"
  by (simp add: acc_pair_def accumulated_def)

lemma compare_pairs_key: "follows_key compare_pairs (\<lambda>a. pair_text (acc_pair a))"
  unfolding follows_key_def
  by (auto simp: compare_pairs_def Let_def pair_text_def acc_pair_def compare_text_le_iff less_prod_def)

text \<open>
  C28. The summary of rows the report computed, no title twice for a pair of currencies and no total out
  of range, is always produced: one entry for each pair that occurs, in the order of the currencies,
  each the specified sums over the rows of its pair. Its settlement figures are present exactly when
  those of all its rows are.
\<close>

theorem sales_summary_exact:
  assumes rows: "\<forall>row \<in> set rows. \<exists>input. toSalesTitleMetricDto input = Inr row"
    and dist: "distinct (map (\<lambda>row. (row_pair row, tm_titleId row)) rows)" and fits: "figures_fit rows"
  shows "\<exists>sums. summarizeCurrencyPairs rows = Inr sums \<and>
    sorted_wrt (\<lambda>s t. pair_text (summary_pair s) < pair_text (summary_pair t)) sums \<and>
    summary_pair ` set sums = row_pair ` set rows \<and>
    (\<forall>s \<in> set sums. s = summary_of rows (summary_pair s))"
proof -
  have valid: "\<forall>row \<in> set rows. validateSummaryRow row = Inr ()" using rows title_row_valid by blast
  obtain m where m: "rfold add_row_to_pair rows [] = Inr m" "distinct (map fst m)"
    "fst ` set m = pair_key ` set rows"
    "\<forall>row \<in> set rows. map_of m (pair_key row) = Some (accumulated (row_pair row) (pair_rows rows (row_pair row)))"
    using pairs_loop [OF valid dist fits] by blast
  have entry: "(k, a) \<in> set m \<longleftrightarrow> (\<exists>row \<in> set rows. k = pair_key row \<and>
      a = accumulated (row_pair row) (pair_rows rows (row_pair row)))" for k a
  proof
    assume ka: "(k, a) \<in> set m"
    then have "k \<in> fst ` set m" by force
    then obtain row where row: "row \<in> set rows" "k = pair_key row" using m(3) by auto
    have "map_of m k = Some a" using m(2) ka by simp
    with m(4) row show "\<exists>row \<in> set rows. k = pair_key row \<and> a = accumulated (row_pair row) (pair_rows rows (row_pair row))"
      by (metis option.inject)
  next
    assume "\<exists>row \<in> set rows. k = pair_key row \<and> a = accumulated (row_pair row) (pair_rows rows (row_pair row))"
    then have "map_of m k = Some a" using m(4) by auto
    then show "(k, a) \<in> set m" by (rule map_of_SomeD)
  qed
  define accs where "accs = map snd m"
  have accs: "set accs = (\<lambda>row. accumulated (row_pair row) (pair_rows rows (row_pair row))) ` set rows"
    unfolding accs_def using entry by (auto simp: image_iff) force+
  have "distinct (map (\<lambda>a. pair_text (acc_pair a)) accs)"
    unfolding accs_def map_map
  proof (rule distinct_map [THEN iffD2], intro conjI)
    show "distinct m" using m(2) by (simp add: distinct_map)
    show "inj_on ((\<lambda>a. pair_text (acc_pair a)) \<circ> snd) (set m)"
    proof (rule inj_onI)
      fix x y assume x: "x \<in> set m" and y: "y \<in> set m"
        and eq: "((\<lambda>a. pair_text (acc_pair a)) \<circ> snd) x = ((\<lambda>a. pair_text (acc_pair a)) \<circ> snd) y"
      obtain r s where "r \<in> set rows" "s \<in> set rows" and xy: "fst x = pair_key r" "fst y = pair_key s"
        and "snd x = accumulated (row_pair r) (pair_rows rows (row_pair r))"
        and "snd y = accumulated (row_pair s) (pair_rows rows (row_pair s))"
        using x y entry by (metis prod.collapse)
      with eq have "pair_text (row_pair r) = pair_text (row_pair s)" by simp
      then have "fst x = fst y" using xy by (simp add: pair_key_text)
      then show "x = y" using x y m(2) by (auto simp: distinct_map inj_on_def)
    qed
  qed
  then have sorted: "sorted_wrt (\<lambda>a b. pair_text (acc_pair a) < pair_text (acc_pair b)) (js_sort compare_pairs accs)"
    using compare_pairs_key js_sort_by_key by blast
  define sums where "sums = map (\<lambda>a. summary_of rows (acc_pair a)) (js_sort compare_pairs accs)"
  have each: "toSummary a = Inr (summary_of rows (acc_pair a))" if "a \<in> set (js_sort compare_pairs accs)" for a
  proof -
    from that accs obtain row where row: "row \<in> set rows"
      and a: "a = accumulated (row_pair row) (pair_rows rows (row_pair row))" by auto
    have "pair_rows rows (row_pair row) \<noteq> []" using row by (auto simp: pair_rows_def filter_empty_conv)
    from toSummary_exact [OF valid fits this] a show ?thesis by simp
  qed
  have pair: "summary_pair (summary_of rows p) = p" for p
    by (simp add: summary_pair_def summary_of_def Let_def)
  have "summarizeCurrencyPairs rows = Inr sums"
    unfolding summarizeCurrencyPairs_def m(1) rbind_Inr accs_def [symmetric] sums_def
    by (rule rmap_total) (rule each)
  moreover have "sorted_wrt (\<lambda>s t. pair_text (summary_pair s) < pair_text (summary_pair t)) sums"
    unfolding sums_def using sorted by (simp add: sorted_wrt_map pair)
  moreover have "summary_pair ` set sums = row_pair ` set rows"
    unfolding sums_def by (simp add: image_image pair accs)
  moreover have "\<forall>s \<in> set sums. s = summary_of rows (summary_pair s)"
    unfolding sums_def by (auto simp: pair)
  ultimately show ?thesis by blast
qed

theorem sales_summary_exact_witness:
  "\<exists>r1 r2 sums. toSalesTitleMetricDto sample_input1 = Inr r1 \<and> toSalesTitleMetricDto sample_input2 = Inr r2 \<and>
     summarizeCurrencyPairs [r1, r2] = Inr sums \<and>
     (\<exists>s \<in> set sums. cs_presentmentCurrency s = ''EUR'' \<and> cs_estimatedPayoutMinor s = None) \<and>
     (\<exists>s \<in> set sums. cs_presentmentCurrency s = ''USD'' \<and> cs_estimatedPayoutMinor s = Some 920)"
proof -
  let ?eur = "(''EUR'', Some ''EUR'')" and ?usd = "(''USD'', Some ''EUR'')"
  have "case toSalesTitleMetricDto sample_input1 of Inl _ \<Rightarrow> False | Inr r1 \<Rightarrow>
      (case toSalesTitleMetricDto sample_input2 of Inl _ \<Rightarrow> False | Inr r2 \<Rightarrow>
        figures_fit [r1, r2] \<and> row_pair r1 = ?usd \<and> row_pair r2 = ?eur \<and>
        cs_estimatedPayoutMinor (summary_of [r1, r2] ?eur) = None \<and>
        cs_estimatedPayoutMinor (summary_of [r1, r2] ?usd) = Some 920)"
    by code_simp
  then obtain r1 r2 where r: "toSalesTitleMetricDto sample_input1 = Inr r1" "toSalesTitleMetricDto sample_input2 = Inr r2"
    and fits: "figures_fit [r1, r2]" and p: "row_pair r1 = ?usd" "row_pair r2 = ?eur"
    and e: "cs_estimatedPayoutMinor (summary_of [r1, r2] ?eur) = None"
      "cs_estimatedPayoutMinor (summary_of [r1, r2] ?usd) = Some 920"
    by (auto split: sum.splits)
  have "\<forall>row \<in> set [r1, r2]. \<exists>input. toSalesTitleMetricDto input = Inr row" using r by auto
  moreover have "distinct (map (\<lambda>row. (row_pair row, tm_titleId row)) [r1, r2])" using p by simp
  ultimately obtain sums where s: "summarizeCurrencyPairs [r1, r2] = Inr sums"
    "summary_pair ` set sums = row_pair ` set [r1, r2]" "\<forall>s \<in> set sums. s = summary_of [r1, r2] (summary_pair s)"
    using sales_summary_exact [of "[r1, r2]"] fits by blast
  have "\<exists>s \<in> set sums. s = summary_of [r1, r2] q" if "q \<in> {?usd, ?eur}" for q
  proof -
    have "q \<in> summary_pair ` set sums" unfolding s(2) using that p by auto
    then obtain t where t: "t \<in> set sums" "q = summary_pair t" by auto
    with s(3) show ?thesis by blast
  qed
  then have "\<exists>s \<in> set sums. s = summary_of [r1, r2] ?eur" "\<exists>s \<in> set sums. s = summary_of [r1, r2] ?usd" by blast+
  moreover have "cs_presentmentCurrency (summary_of rows q) = fst q" for rows q by (simp add: summary_of_def Let_def)
  ultimately show ?thesis using r s(1) e by (metis fst_conv)
qed

end
