(* ===== verification/ProgressSync.thy ===== *)
theory ProgressSync
  imports ReaderPages
begin

text \<open>
  \<^verbatim>\<open>lib/reader/progress-sync.ts\<close>: the client that keeps the reading position of an open book saved.
  Its closure is a record, a promise that runs is its phase, and the continuations that wait for it are
  tasks. What the browser does next is an event: a timer fires, a request is answered, a continuation
  runs, the reader turns a page, asks for a flush or leaves. A function gives the state after an event,
  or nothing where the event cannot happen.
\<close>

record progress_dto =
  pg_revisionId :: string
  pg_location :: reader_location
  pg_version :: int
  pg_updatedAt :: string

datatype sync_status = Idle_status | Pending_status | Synced | Retrying | Failed_status | Conflict_status

record progress_mutation =
  pm_location :: reader_location
  pm_expectedVersion :: int

text \<open>How \<^verbatim>\<open>saveProgress\<close> of the persistence ends: a value, a conflict, or another error.\<close>

datatype save_result = Saved progress_dto | Conflicting progress_dto string | Save_error bool string

text \<open>The one save in flight: none, a request at some attempt, or the wait before the next one.\<close>

datatype flight = No_flight | Saving reader_location nat | Waiting reader_location nat

text \<open>
  What runs after the flight: the call that started it, a call that found it running, or a flush; and
  the flush, if any, whose promise resolves at the end of it.
\<close>

datatype task_kind = Owner | Waiter | Flusher

type_synonym sync_task = "task_kind \<times> nat option"

datatype sync_call = Save progress_mutation | Keepalive progress_mutation | Flushed nat

record sync =
  sy_status :: sync_status
  sy_progress :: "progress_dto option"
  sy_error :: "string option"
  sy_pending :: "reader_location option"
  sy_debounce :: bool
  sy_retry :: bool
  sy_flight :: flight
  sy_disposed :: bool
  sy_blocked :: "sync_task list"
  sy_ready :: "sync_task list"
  sy_calls :: "sync_call list"

definition RETRY_DELAYS :: "nat list" where
  "RETRY_DELAYS = [1000, 2000, 4000]"

definition initial_sync :: "progress_dto option \<Rightarrow> sync" where
  "initial_sync initialProgress =
     \<lparr>sy_status = Idle_status, sy_progress = initialProgress, sy_error = None, sy_pending = None,
      sy_debounce = False, sy_retry = False, sy_flight = No_flight, sy_disposed = False,
      sy_blocked = [], sy_ready = [], sy_calls = []\<rparr>"

definition publish :: "sync_status \<Rightarrow> progress_dto option \<Rightarrow> string option \<Rightarrow> sync \<Rightarrow> sync" where
  "publish status progress err s = s\<lparr>sy_status := status, sy_progress := progress, sy_error := err\<rparr>"

definition mutationFor :: "sync \<Rightarrow> reader_location \<Rightarrow> progress_mutation" where
  "mutationFor s location = \<lparr>pm_location = location,
     pm_expectedVersion = (case sy_progress s of None \<Rightarrow> 0 | Some p \<Rightarrow> pg_version p)\<rparr>"

definition start_save :: "reader_location \<Rightarrow> nat \<Rightarrow> sync \<Rightarrow> sync" where
  "start_save location retry s =
     s\<lparr>sy_flight := Saving location retry, sy_calls := sy_calls s @ [Save (mutationFor s location)]\<rparr>"

definition resolve_flush :: "nat option \<Rightarrow> sync \<Rightarrow> sync" where
  "resolve_flush k s = (case k of None \<Rightarrow> s | Some n \<Rightarrow> s\<lparr>sy_calls := sy_calls s @ [Flushed n]\<rparr>)"

text \<open>\<^verbatim>\<open>runPending\<close> until its first wait; the rest is the task it leaves behind.\<close>

definition runPending :: "nat option \<Rightarrow> sync \<Rightarrow> sync" where
  "runPending k s =
     (if sy_flight s \<noteq> No_flight then s\<lparr>sy_blocked := sy_blocked s @ [(Waiter, k)]\<rparr>
      else case sy_pending s of
          None \<Rightarrow> resolve_flush k s
        | Some location \<Rightarrow>
            if sy_disposed s then resolve_flush k s
            else (start_save location 0 (s\<lparr>sy_pending := None\<rparr>))\<lparr>sy_blocked := sy_blocked s @ [(Owner, k)]\<rparr>)"

definition finish_flight :: "sync \<Rightarrow> sync" where
  "finish_flight s = s\<lparr>sy_flight := No_flight, sy_ready := sy_ready s @ sy_blocked s, sy_blocked := []\<rparr>"

text \<open>\<^verbatim>\<open>send\<close> after a request was answered.\<close>

definition answered :: "reader_location \<Rightarrow> nat \<Rightarrow> save_result \<Rightarrow> sync \<Rightarrow> sync" where
  "answered location retry result s =
     (case result of
        Saved progress \<Rightarrow> finish_flight (publish Synced (Some progress) None s)
      | Conflicting current message \<Rightarrow>
          finish_flight ((publish Conflict_status (Some current) (Some message) s)\<lparr>sy_pending := None\<rparr>)
      | Save_error retryable message \<Rightarrow>
          if \<not> retryable \<or> retry = length RETRY_DELAYS \<or> sy_disposed s
          then finish_flight (publish Failed_status (sy_progress s) (Some message) s)
          else (publish Retrying (sy_progress s) (Some message) s)\<lparr>sy_flight := Waiting location retry, sy_retry := True\<rparr>)"

definition run_task :: "sync_task \<Rightarrow> sync \<Rightarrow> sync" where
  "run_task t s =
     (case t of
        (Owner, k) \<Rightarrow> if sy_pending s \<noteq> None \<and> \<not> sy_disposed s \<and> \<not> sy_debounce s then runPending k s else resolve_flush k s
      | (Waiter, k) \<Rightarrow> if sy_pending s \<noteq> None \<and> \<not> sy_disposed s then runPending k s else resolve_flush k s
      | (Flusher, k) \<Rightarrow> runPending k s)"

definition navigate :: "reader_location \<Rightarrow> sync \<Rightarrow> sync" where
  "navigate location s =
     (if sy_disposed s then s
      else (publish Pending_status (sy_progress s) None (s\<lparr>sy_pending := Some location\<rparr>))\<lparr>sy_debounce := True\<rparr>)"

definition flush :: "nat \<Rightarrow> sync \<Rightarrow> sync" where
  "flush n s =
     (let s = s\<lparr>sy_debounce := False\<rparr> in
      if sy_flight s \<noteq> No_flight then s\<lparr>sy_blocked := sy_blocked s @ [(Flusher, Some n)]\<rparr>
      else runPending (Some n) s)"

definition dispose :: "sync \<Rightarrow> sync" where
  "dispose s =
     (if sy_disposed s then s
      else let s = s\<lparr>sy_debounce := False, sy_retry := False\<rparr>;
               s = (case sy_pending s of
                 None \<Rightarrow> s
               | Some location \<Rightarrow> s\<lparr>sy_calls := sy_calls s @ [Keepalive (mutationFor s location)]\<rparr>)
           in s\<lparr>sy_disposed := True\<rparr>)"

datatype sync_event =
    Navigate reader_location | Flush nat | Dispose | Debounce_fires | Retry_fires | Answer save_result | Continue

fun sync_step :: "sync_event \<Rightarrow> sync \<Rightarrow> sync option" where
  "sync_step (Navigate location) s = Some (navigate location s)"
| "sync_step (Flush n) s = Some (flush n s)"
| "sync_step Dispose s = Some (dispose s)"
| "sync_step Debounce_fires s =
     (if sy_debounce s then Some (runPending None (s\<lparr>sy_debounce := False\<rparr>)) else None)"
| "sync_step Retry_fires s =
     (case sy_flight s of
        Waiting location retry \<Rightarrow>
          if sy_retry s then Some (start_save location (retry + 1) (s\<lparr>sy_retry := False\<rparr>)) else None
      | _ \<Rightarrow> None)"
| "sync_step (Answer result) s =
     (case sy_flight s of Saving location retry \<Rightarrow> Some (answered location retry result s) | _ \<Rightarrow> None)"
| "sync_step Continue s =
     (case sy_ready s of [] \<Rightarrow> None | t # ts \<Rightarrow> Some (run_task t (s\<lparr>sy_ready := ts\<rparr>)))"

inductive sync_run :: "sync \<Rightarrow> sync_event list \<Rightarrow> sync \<Rightarrow> bool" where
  start: "sync_run s [] s"
| then_event: "sync_run s evs t \<Longrightarrow> sync_step e t = Some u \<Longrightarrow> sync_run s (evs @ [e]) u"

inductive_cases sync_runE: "sync_run s evs t"

section \<open>What was asked for and what was sent\<close>

definition last_navigated :: "sync_event list \<Rightarrow> reader_location option" where
  "last_navigated evs = fold (\<lambda>e acc. case e of Navigate l \<Rightarrow> Some l | _ \<Rightarrow> acc) evs None"

definition last_saved :: "sync_call list \<Rightarrow> reader_location option" where
  "last_saved calls = fold (\<lambda>c acc. case c of Save m \<Rightarrow> Some (pm_location m) | _ \<Rightarrow> acc) calls None"

definition sent :: "sync_call list \<Rightarrow> sync_call list" where
  "sent calls = filter (\<lambda>c. case c of Flushed _ \<Rightarrow> False | _ \<Rightarrow> True) calls"

lemma last_navigated_snoc [simp]:
  "last_navigated [] = None"
  "last_navigated (evs @ [e]) = (case e of Navigate l \<Rightarrow> Some l | _ \<Rightarrow> last_navigated evs)"
  by (simp_all add: last_navigated_def split: sync_event.split)

lemma last_saved_snoc [simp]:
  "last_saved [] = None"
  "last_saved (calls @ [c]) = (case c of Save m \<Rightarrow> Some (pm_location m) | _ \<Rightarrow> last_saved calls)"
  by (simp_all add: last_saved_def split: sync_call.split)

lemma sent_snoc [simp]: "sent (calls @ [c]) = sent calls @ (case c of Flushed _ \<Rightarrow> [] | _ \<Rightarrow> [c])"
  by (simp add: sent_def split: sync_call.split)

fun flight_location :: "flight \<Rightarrow> reader_location option" where
  "flight_location No_flight = None"
| "flight_location (Saving l _) = Some l"
| "flight_location (Waiting l _) = Some l"

lemma flight_location_None [simp]: "flight_location f = None \<longleftrightarrow> f = No_flight"
  by (cases f) auto

text \<open>The events of the client itself, and a state in which none of them can happen.\<close>

definition own_event :: "sync_event \<Rightarrow> bool" where
  "own_event e \<longleftrightarrow> (case e of Navigate _ \<Rightarrow> False | Flush _ \<Rightarrow> False | Dispose \<Rightarrow> False | _ \<Rightarrow> True)"

definition quiescent :: "sync \<Rightarrow> bool" where
  "quiescent s \<longleftrightarrow> (\<forall>e. own_event e \<longrightarrow> sync_step e s = None)"

lemma quiescentD:
  assumes "quiescent s"
  shows "\<not> sy_debounce s" "sy_ready s = []"
    "sy_flight s = No_flight \<or> (\<exists>l r. sy_flight s = Waiting l r \<and> \<not> sy_retry s)"
proof -
  have q: "own_event e \<Longrightarrow> sync_step e s = None" for e using assms by (simp add: quiescent_def)
  show "\<not> sy_debounce s" "sy_ready s = []"
    "sy_flight s = No_flight \<or> (\<exists>l r. sy_flight s = Waiting l r \<and> \<not> sy_retry s)"
    using q [of Debounce_fires] q [of Continue] q [of Retry_fires] q [of "Answer (Save_error False [])"]
    by (auto simp: own_event_def split: if_splits list.splits flight.splits)
qed

section \<open>The invariant\<close>

text \<open>Settled: the last position is in flight, or its fate is known and shown.\<close>

definition settled_for :: "reader_location \<Rightarrow> sync \<Rightarrow> bool" where
  "settled_for l s \<longleftrightarrow> flight_location (sy_flight s) = Some l \<or>
     sy_flight s = No_flight \<and> (sy_status s = Failed_status \<or> sy_status s = Conflict_status \<or>
       sy_status s = Synced \<and> last_saved (sy_calls s) = Some l)"

definition tasks :: "sync \<Rightarrow> sync_task list" where
  "tasks s = sy_ready s @ sy_blocked s"

definition sync_inv :: "sync_event list \<Rightarrow> sync \<Rightarrow> bool" where
  "sync_inv evs s \<longleftrightarrow> \<not> sy_disposed s \<longrightarrow>
     (sy_blocked s \<noteq> [] \<longrightarrow> sy_flight s \<noteq> No_flight) \<and>
     (\<forall>l. sy_pending s = Some l \<longrightarrow> last_navigated evs = Some l \<and> (sy_debounce s \<or> tasks s \<noteq> [])) \<and>
     (\<forall>l r. sy_flight s = Waiting l r \<longrightarrow> sy_retry s) \<and>
     (\<forall>l. flight_location (sy_flight s) = Some l \<longrightarrow> last_saved (sy_calls s) = Some l) \<and>
     (\<forall>l. sy_pending s = None \<and> last_navigated evs = Some l \<longrightarrow> settled_for l s) \<and>
     (\<forall>n. Flush n \<in> set evs \<longrightarrow> Flushed n \<in> set (sy_calls s) \<or> Some n \<in> snd ` set (tasks s))"

lemma resolve_flush_sel [simp]:
  "sy_disposed (resolve_flush k s) = sy_disposed s" "sy_blocked (resolve_flush k s) = sy_blocked s"
  "sy_ready (resolve_flush k s) = sy_ready s" "sy_flight (resolve_flush k s) = sy_flight s"
  "sy_pending (resolve_flush k s) = sy_pending s" "sy_debounce (resolve_flush k s) = sy_debounce s"
  "sy_retry (resolve_flush k s) = sy_retry s" "sy_status (resolve_flush k s) = sy_status s"
  "last_saved (sy_calls (resolve_flush k s)) = last_saved (sy_calls s)"
  "sent (sy_calls (resolve_flush k s)) = sent (sy_calls s)"
  "set (sy_calls (resolve_flush k s)) = set (sy_calls s) \<union> Flushed ` set_option k"
  by (simp_all add: resolve_flush_def split: option.split)

lemma start_save_sel [simp]:
  "sy_disposed (start_save l r s) = sy_disposed s" "sy_blocked (start_save l r s) = sy_blocked s"
  "sy_ready (start_save l r s) = sy_ready s" "sy_flight (start_save l r s) = Saving l r"
  "sy_pending (start_save l r s) = sy_pending s" "sy_debounce (start_save l r s) = sy_debounce s"
  "sy_retry (start_save l r s) = sy_retry s" "sy_status (start_save l r s) = sy_status s"
  "last_saved (sy_calls (start_save l r s)) = Some l"
  "set (sy_calls (start_save l r s)) = insert (Save (mutationFor s l)) (set (sy_calls s))"
  by (simp_all add: start_save_def mutationFor_def)

lemma publish_sel [simp]:
  "sy_disposed (publish st p e s) = sy_disposed s" "sy_blocked (publish st p e s) = sy_blocked s"
  "sy_ready (publish st p e s) = sy_ready s" "sy_flight (publish st p e s) = sy_flight s"
  "sy_pending (publish st p e s) = sy_pending s" "sy_debounce (publish st p e s) = sy_debounce s"
  "sy_retry (publish st p e s) = sy_retry s" "sy_status (publish st p e s) = st"
  "sy_calls (publish st p e s) = sy_calls s"
  by (simp_all add: publish_def)

text \<open>Running pending work never loses it: it is sent, or a task remains.\<close>

lemma runPending_inv:
  assumes "\<not> sy_disposed s" and "sy_blocked s \<noteq> [] \<longrightarrow> sy_flight s \<noteq> No_flight"
    and "\<forall>l. sy_pending s = Some l \<longrightarrow> last_navigated evs = Some l"
    and "\<forall>l r. sy_flight s = Waiting l r \<longrightarrow> sy_retry s"
    and "\<forall>l. flight_location (sy_flight s) = Some l \<longrightarrow> last_saved (sy_calls s) = Some l"
    and "\<forall>l. sy_pending s = None \<and> last_navigated evs = Some l \<longrightarrow> settled_for l s"
    and "\<forall>n. Flush n \<in> set evs \<longrightarrow> Flushed n \<in> set (sy_calls s) \<or> Some n \<in> snd ` set (tasks s) \<or> k = Some n"
  shows "sync_inv evs (runPending k s)"
proof (cases "sy_flight s = No_flight")
  case False
  then have eq: "runPending k s = s\<lparr>sy_blocked := sy_blocked s @ [(Waiter, k)]\<rparr>" by (simp add: runPending_def)
  show ?thesis using assms False unfolding eq sync_inv_def by (auto simp: settled_for_def tasks_def)
next
  case True
  show ?thesis
  proof (cases "sy_pending s")
    case None
    then have eq: "runPending k s = resolve_flush k s" using True by (simp add: runPending_def)
    show ?thesis using assms None True unfolding eq sync_inv_def by (auto simp: settled_for_def tasks_def)
  next
    case (Some l)
    then have eq: "runPending k s = (start_save l 0 (s\<lparr>sy_pending := None\<rparr>))\<lparr>sy_blocked := sy_blocked s @ [(Owner, k)]\<rparr>"
      using True assms(1) by (simp add: runPending_def)
    have "sy_blocked s = []" using assms(2) True by blast
    then show ?thesis using assms Some True unfolding eq sync_inv_def by (auto simp: settled_for_def tasks_def)
  qed
qed

lemma answered_inv:
  assumes "sync_inv evs s" and "sy_flight s = Saving l r" and "\<not> sy_disposed s"
  shows "sync_inv evs (answered l r result s)"
proof -
  have saved: "last_saved (sy_calls s) = Some l" using assms by (auto simp: sync_inv_def)
  have same: "sy_pending s = None \<Longrightarrow> last_navigated evs = Some l' \<Longrightarrow> l' = l" for l'
    using assms by (auto simp: sync_inv_def settled_for_def)
  show ?thesis
    using assms saved same
    by (cases result) (auto simp: answered_def finish_flight_def sync_inv_def settled_for_def tasks_def)
qed

lemma sync_step_inv:
  assumes inv: "sync_inv evs s" and step: "sync_step e s = Some t"
  shows "sync_inv (evs @ [e]) t"
proof (cases "sy_disposed t")
  case True
  then show ?thesis by (simp add: sync_inv_def)
next
  case alive: False
  have before: "\<not> sy_disposed s"
    using step alive
    by (cases e) (auto simp: navigate_def flush_def dispose_def Let_def runPending_def answered_def finish_flight_def
        run_task_def split: if_splits flight.splits list.splits option.splits save_result.splits prod.splits task_kind.splits)
  note i = inv [unfolded sync_inv_def, THEN mp, OF before]
  show ?thesis
  proof (cases e)
    case (Navigate l)
    then show ?thesis using i step before by (auto simp: sync_inv_def navigate_def tasks_def)
  next
    case (Flush n)
    show ?thesis
    proof (cases "sy_flight s = No_flight")
      case False
      then have "t = s\<lparr>sy_debounce := False, sy_blocked := sy_blocked s @ [(Flusher, Some n)]\<rparr>"
        using step Flush by (simp add: flush_def)
      then show ?thesis using i False Flush by (auto simp: sync_inv_def settled_for_def tasks_def)
    next
      case True
      then have t: "t = runPending (Some n) (s\<lparr>sy_debounce := False\<rparr>)" using step Flush by (simp add: flush_def)
      show ?thesis unfolding t
        by (rule runPending_inv) (use i Flush before in \<open>auto simp: settled_for_def tasks_def\<close>)
    qed
  next
    case Dispose
    then show ?thesis using step alive before by (auto simp: dispose_def Let_def split: option.splits)
  next
    case Debounce_fires
    then have t: "t = runPending None (s\<lparr>sy_debounce := False\<rparr>)" using step by (auto split: if_splits)
    show ?thesis unfolding t
      by (rule runPending_inv) (use i Debounce_fires before in \<open>auto simp: settled_for_def tasks_def\<close>)
  next
    case Retry_fires
    then obtain l r where f: "sy_flight s = Waiting l r" and t: "t = start_save l (r + 1) (s\<lparr>sy_retry := False\<rparr>)"
      using step by (auto split: flight.splits if_splits)
    show ?thesis using i f Retry_fires unfolding t sync_inv_def by (auto simp: settled_for_def tasks_def)
  next
    case (Answer result)
    then obtain l r where f: "sy_flight s = Saving l r" and t: "t = answered l r result s"
      using step by (auto split: flight.splits)
    have "sync_inv (evs @ [e]) s" using inv Answer by (simp add: sync_inv_def)
    then show ?thesis unfolding t using answered_inv f before by blast
  next
    case Continue
    then obtain task k ts where r: "sy_ready s = (task, k) # ts" and t: "t = run_task (task, k) (s\<lparr>sy_ready := ts\<rparr>)"
      using step by (auto split: list.splits)
    have run: "sync_inv (evs @ [e]) (runPending k (s\<lparr>sy_ready := ts\<rparr>))"
      by (rule runPending_inv) (use i r Continue before in \<open>auto simp: settled_for_def tasks_def\<close>)
    have stop: "sync_inv (evs @ [e]) (resolve_flush k (s\<lparr>sy_ready := ts\<rparr>))" if "sy_pending s = None \<or> sy_debounce s"
      using i r Continue before that by (auto simp: sync_inv_def settled_for_def tasks_def)
    show ?thesis
      using run stop before unfolding t by (cases task) (auto simp: run_task_def)
  qed
qed

lemma sync_run_inv: "sync_run s0 evs s \<Longrightarrow> s0 = initial_sync p \<Longrightarrow> sync_inv evs s"
proof (induction rule: sync_run.induct)
  case (start s)
  then show ?case by (simp add: sync_inv_def initial_sync_def tasks_def)
next
  case (then_event s evs t e u)
  then show ?case using sync_step_inv by blast
qed

text \<open>
  C38. As long as the reader has not left, no position is lost silently: whenever nothing is left to happen,
  no timer, no request and no continuation, the position turned to last was the one sent last and its
  save succeeded, or the status shows a failure or a conflict; and every flush has returned.
\<close>

theorem position_saved_or_reported:
  assumes "sync_run (initial_sync p) evs s" and "quiescent s" and "\<not> sy_disposed s"
    and "last_navigated evs = Some l"
  shows "sy_pending s = None \<and>
    (sy_status s = Synced \<and> last_saved (sy_calls s) = Some l \<or> sy_status s = Failed_status \<or> sy_status s = Conflict_status) \<and>
    (\<forall>n. Flush n \<in> set evs \<longrightarrow> Flushed n \<in> set (sy_calls s))"
proof -
  note i = sync_run_inv [OF assms(1) refl, unfolded sync_inv_def, THEN mp, OF assms(3)]
  note q = quiescentD [OF assms(2)]
  have f: "sy_flight s = No_flight" using q(3) i by blast
  then have t: "tasks s = []" using i q(2) by (auto simp: tasks_def)
  then have pend: "sy_pending s = None" using i q(1) by (cases "sy_pending s") auto
  then have "settled_for l s" using i assms(4) by blast
  then show ?thesis using pend f t i by (auto simp: settled_for_def)
qed

section \<open>A sample session\<close>

definition sample_place :: "nat \<Rightarrow> reader_location" where
  "sample_place n = Prose_location (replicate n (CHR ''b'')) 0"

definition run_events :: "sync_event list \<Rightarrow> sync \<Rightarrow> sync option" where
  "run_events evs s = foldl (\<lambda>st e. Option.bind st (sync_step e)) (Some s) evs"

lemma run_events_run: "run_events evs s = Some t \<Longrightarrow> sync_run s evs t"
proof (induction evs arbitrary: t rule: rev_induct)
  case Nil
  then show ?case by (simp add: run_events_def sync_run.start)
next
  case (snoc e evs)
  then obtain u where "run_events evs s = Some u" "sync_step e u = Some t"
    by (auto simp: run_events_def bind_eq_Some_conv)
  with snoc.IH show ?case by (blast intro: sync_run.then_event)
qed

definition sample_saved :: "nat \<Rightarrow> int \<Rightarrow> save_result" where
  "sample_saved n v = Saved \<lparr>pg_revisionId = ''r'', pg_location = sample_place n, pg_version = v, pg_updatedAt = ''now''\<rparr>"

definition sample_session :: "sync_event list" where
  "sample_session = [Navigate (sample_place 1), Debounce_fires, Navigate (sample_place 2), Flush 7,
     Answer (Save_error True ''offline''), Retry_fires, Answer (sample_saved 1 1), Continue, Continue,
     Answer (sample_saved 2 2), Continue, Continue]"

lemma sample_session_end:
  "map_option (\<lambda>s. (sy_calls s, sy_status s, sy_flight s, sy_debounce s, sy_ready s, sy_disposed s)) (run_events sample_session (initial_sync None)) =
   Some ([Save \<lparr>pm_location = sample_place 1, pm_expectedVersion = 0\<rparr>, Save \<lparr>pm_location = sample_place 1, pm_expectedVersion = 0\<rparr>,
     Save \<lparr>pm_location = sample_place 2, pm_expectedVersion = 1\<rparr>, Flushed 7], Synced, No_flight, False, [], False)"
  by code_simp

lemma quiescentI: "\<not> sy_debounce s \<Longrightarrow> sy_ready s = [] \<Longrightarrow> sy_flight s = No_flight \<Longrightarrow> quiescent s"
  unfolding quiescent_def
proof (intro allI impI)
  fix e assume "\<not> sy_debounce s" "sy_ready s = []" "sy_flight s = No_flight" "own_event e"
  then show "sync_step e s = None" by (cases e) (auto simp: own_event_def)
qed

theorem position_saved_or_reported_witness:
  "\<exists>s. sync_run (initial_sync None) sample_session s \<and> sy_status s = Synced \<and> last_saved (sy_calls s) = Some (sample_place 2)"
proof -
  obtain s where s: "run_events sample_session (initial_sync None) = Some s"
    and q: "sy_status s = Synced" "sy_flight s = No_flight" "\<not> sy_debounce s" "sy_ready s = []" "\<not> sy_disposed s"
    using sample_session_end by (cases "run_events sample_session (initial_sync None)") auto
  have "last_navigated sample_session = Some (sample_place 2)" by code_simp
  with position_saved_or_reported [OF run_events_run [OF s] quiescentI [OF q(3,4,2)] q(5)] s q(1)
  show ?thesis using run_events_run by (intro exI [of _ s]) auto
qed

section \<open>Leaving while a save waits\<close>

text \<open>Only flushes that were asked for wait or return.\<close>

definition known_flushes :: "sync_event list \<Rightarrow> sync \<Rightarrow> bool" where
  "known_flushes evs s \<longleftrightarrow> (\<forall>n. Some n \<in> snd ` set (tasks s) \<or> Flushed n \<in> set (sy_calls s) \<longrightarrow> Flush n \<in> set evs)"

lemma known_flushes_mono:
  "known_flushes evs s \<Longrightarrow> set (tasks t) \<subseteq> set (tasks s) \<Longrightarrow>
    (\<And>n. Flushed n \<in> set (sy_calls t) \<Longrightarrow> Flushed n \<in> set (sy_calls s)) \<Longrightarrow> known_flushes evs t"
  unfolding known_flushes_def by (meson image_mono subsetD)

lemma runPending_known:
  "known_flushes evs s \<Longrightarrow> (\<forall>n. k = Some n \<longrightarrow> Flush n \<in> set evs) \<Longrightarrow> known_flushes evs (runPending k s)"
  unfolding known_flushes_def by (auto simp: runPending_def tasks_def split: option.splits)

lemma known_flushes_step:
  assumes known: "known_flushes evs s" and step: "sync_step e s = Some t"
  shows "known_flushes (evs @ [e]) t"
proof -
  have k: "known_flushes (evs @ [e]) s" using known by (auto simp: known_flushes_def)
  show ?thesis
  proof (cases e)
    case (Flush n)
    have "known_flushes (evs @ [e]) (s\<lparr>sy_debounce := False\<rparr>)" using k by (simp add: known_flushes_def tasks_def)
    from runPending_known [OF this, of "Some n"] Flush have run: "known_flushes (evs @ [e]) (runPending (Some n) (s\<lparr>sy_debounce := False\<rparr>))"
      by simp
    have "Some m \<in> snd ` set (tasks s) \<Longrightarrow> Flush m \<in> set (evs @ [e])" "Flushed m \<in> set (sy_calls s) \<Longrightarrow> Flush m \<in> set (evs @ [e])" for m
      using k unfolding known_flushes_def by blast+
    then have "known_flushes (evs @ [e]) (s\<lparr>sy_debounce := False, sy_blocked := sy_blocked s @ [(Flusher, Some n)]\<rparr>)"
      using Flush unfolding known_flushes_def tasks_def by (fastforce simp: image_Un)
    with run show ?thesis using step Flush by (auto simp: flush_def Let_def split: if_splits)
  next
    case Debounce_fires
    have "known_flushes (evs @ [e]) (s\<lparr>sy_debounce := False\<rparr>)" using k by (simp add: known_flushes_def tasks_def)
    from runPending_known [OF this, of None] show ?thesis using step Debounce_fires by (auto split: if_splits)
  next
    case Continue
    then obtain task j ts where r: "sy_ready s = (task, j) # ts" and t: "t = run_task (task, j) (s\<lparr>sy_ready := ts\<rparr>)"
      using step by (auto split: list.splits)
    have j: "\<forall>n. j = Some n \<longrightarrow> Flush n \<in> set (evs @ [e])" using k r by (auto simp: known_flushes_def tasks_def)
    have rest: "known_flushes (evs @ [e]) (s\<lparr>sy_ready := ts\<rparr>)" using k r by (auto simp: known_flushes_def tasks_def)
    have "known_flushes (evs @ [e]) (resolve_flush j (s\<lparr>sy_ready := ts\<rparr>))"
      using rest j by (auto simp: known_flushes_def tasks_def)
    then show ?thesis using runPending_known [OF rest j] unfolding t by (cases task) (auto simp: run_task_def)
  next
    case (Navigate l)
    then show ?thesis using step
      by (intro known_flushes_mono [OF k]) (auto simp: navigate_def tasks_def split: if_splits)
  next
    case Dispose
    then show ?thesis using step
      by (intro known_flushes_mono [OF k]) (auto simp: dispose_def Let_def tasks_def split: option.splits if_splits)
  next
    case Retry_fires
    then show ?thesis using step
      by (intro known_flushes_mono [OF k]) (auto simp: tasks_def split: flight.splits if_splits)
  next
    case (Answer result)
    then show ?thesis using step
      by (intro known_flushes_mono [OF k])
        (auto simp: answered_def finish_flight_def tasks_def split: flight.splits save_result.splits if_splits)
  qed
qed

lemma sync_run_known: "sync_run s0 evs s \<Longrightarrow> s0 = initial_sync p \<Longrightarrow> known_flushes evs s"
proof (induction rule: sync_run.induct)
  case (start s)
  then show ?case by (simp add: known_flushes_def initial_sync_def tasks_def)
next
  case (then_event s evs t e u)
  then show ?case using known_flushes_step by blast
qed

definition stranded :: "nat \<Rightarrow> sync_call list \<Rightarrow> progress_dto option \<Rightarrow> sync \<Rightarrow> bool" where
  "stranded n calls progress s \<longleftrightarrow> sy_disposed s \<and> (\<exists>l r. sy_flight s = Waiting l r) \<and> \<not> sy_retry s \<and> \<not> sy_debounce s \<and>
     sy_pending s = None \<and> sent (sy_calls s) = calls \<and> sy_progress s = progress \<and>
     Some n \<notin> snd ` set (sy_ready s) \<and> Flushed n \<notin> set (sy_calls s)"

lemma resolve_flush_progress [simp]: "sy_progress (resolve_flush k s) = sy_progress s"
  by (simp add: resolve_flush_def split: option.split)

lemma stranded_step:
  assumes "stranded n calls progress s" and "sync_step e s = Some t"
  shows "stranded n calls progress t"
proof (cases e)
  case Continue
  then obtain task k ts where r: "sy_ready s = (task, k) # ts" and t: "t = run_task (task, k) (s\<lparr>sy_ready := ts\<rparr>)"
    using assms(2) by (auto split: list.splits)
  show ?thesis using assms(1) r unfolding t stranded_def
    by (cases task) (auto simp: run_task_def runPending_def)
qed (use assms in \<open>auto simp: stranded_def navigate_def flush_def dispose_def Let_def\<close>)

lemma stranded_run: "sync_run s evs t \<Longrightarrow> stranded n calls progress s \<Longrightarrow> stranded n calls progress t"
  by (induction rule: sync_run.induct) (auto dest: stranded_step)

text \<open>
  C39. A reader who leaves while a failed save waits for its next attempt loses the position: after
  \<^verbatim>\<open>dispose\<close> it is never sent again, not even by the request that is meant to outlive the page, whatever
  happens then; and whoever asks for a flush from then on never gets an answer.
\<close>

theorem leaving_during_retry_loses_position:
  assumes run: "sync_run (initial_sync p) evs s" and wait: "sy_flight s = Waiting l r"
    and idle: "sy_pending s = None" "\<not> sy_disposed s"
  shows "\<exists>t. sync_step Dispose s = Some t \<and> (\<forall>evs' u. sync_run t evs' u \<longrightarrow>
    sent (sy_calls u) = sent (sy_calls s) \<and> sy_progress u = sy_progress s \<and>
    (\<forall>n. Flush n \<in> set evs' \<and> Flush n \<notin> set evs \<longrightarrow> Flushed n \<notin> set (sy_calls u)))"
proof -
  let ?t = "s\<lparr>sy_debounce := False, sy_retry := False, sy_disposed := True\<rparr>"
  have t: "sync_step Dispose s = Some ?t" using idle by (simp add: dispose_def)
  have known: "known_flushes evs s" by (rule sync_run_known [OF run refl])
  have stranded: "stranded n (sent (sy_calls s)) (sy_progress s) ?t" if "Flush n \<notin> set evs" for n
    using that known wait idle by (auto simp: stranded_def known_flushes_def tasks_def)
  have fresh: "\<exists>n. Flush n \<notin> set evs"
  proof -
    have "finite {n. Flush n \<in> set evs}"
      by (rule finite_imageD [of Flush]) (auto intro: finite_subset [of _ "set evs"] inj_onI)
    then show ?thesis using ex_new_if_finite [OF infinite_UNIV_nat] by auto
  qed
  show ?thesis
  proof (intro exI [of _ ?t] conjI allI impI t)
    fix evs' u assume u: "sync_run ?t evs' u"
    obtain n where "Flush n \<notin> set evs" using fresh by blast
    from stranded_run [OF u stranded [OF this]]
    show "sent (sy_calls u) = sent (sy_calls s)" "sy_progress u = sy_progress s" by (simp_all add: stranded_def)
    show "Flushed m \<notin> set (sy_calls u)" if "Flush m \<in> set evs' \<and> Flush m \<notin> set evs" for m
      using stranded_run [OF u stranded] that by (simp add: stranded_def)
  qed
qed

definition sample_offline :: "sync_event list" where
  "sample_offline = [Navigate (sample_place 1), Debounce_fires, Answer (Save_error True ''offline'')]"

theorem leaving_during_retry_loses_position_witness:
  "\<exists>s t. sync_run (initial_sync None) (sample_offline @ [Dispose]) t \<and> last_navigated sample_offline = Some (sample_place 1) \<and>
    (\<forall>evs' u. sync_run t evs' u \<longrightarrow> sent (sy_calls u) = [Save \<lparr>pm_location = sample_place 1, pm_expectedVersion = 0\<rparr>] \<and>
      sy_progress u = None)"
proof -
  have "map_option (\<lambda>s. (sent (sy_calls s), sy_progress s, sy_flight s, sy_pending s, sy_disposed s)) (run_events sample_offline (initial_sync None)) =
      Some ([Save \<lparr>pm_location = sample_place 1, pm_expectedVersion = 0\<rparr>], None, Waiting (sample_place 1) 0, None, False)"
    by code_simp
  then obtain s where s: "run_events sample_offline (initial_sync None) = Some s"
    and q: "sent (sy_calls s) = [Save \<lparr>pm_location = sample_place 1, pm_expectedVersion = 0\<rparr>]" "sy_progress s = None"
      "sy_flight s = Waiting (sample_place 1) 0" "sy_pending s = None" "\<not> sy_disposed s"
    by (cases "run_events sample_offline (initial_sync None)") auto
  note run = run_events_run [OF s]
  obtain t where t: "sync_step Dispose s = Some t" "\<And>evs' u. sync_run t evs' u \<Longrightarrow>
      sent (sy_calls u) = sent (sy_calls s) \<and> sy_progress u = sy_progress s"
    using leaving_during_retry_loses_position [OF run q(3,4,5)] by blast
  have "last_navigated sample_offline = Some (sample_place 1)" by code_simp
  then show ?thesis using t q(1,2) sync_run.then_event [OF run t(1)] by auto
qed

end
