(* ===== verification/RateLimit.thy ===== *)
theory RateLimit
  imports Prelude
begin

text \<open>
  The fixed-window limits of \<^verbatim>\<open>security/rate-limit.ts\<close> on the table \<^verbatim>\<open>application_rate_limits\<close>:
  the digest that names a scope, the upsert that counts a request, and the clean-up of expired
  windows. Hashes are arguments; timestamps are milliseconds.
\<close>

section \<open>Text\<close>

text \<open>\<^verbatim>\<open>String.prototype.trim\<close> and \<^verbatim>\<open>toLowerCase\<close> on the characters of these texts.\<close>

definition js_space :: "char \<Rightarrow> bool" where
  "js_space c \<longleftrightarrow> of_char c \<in> {9, 10, 11, 12, 13, 32, 160 :: nat}"

definition js_trim :: "string \<Rightarrow> string" where
  "js_trim s = rev (dropWhile js_space (rev (dropWhile js_space s)))"

definition lower_char :: "char \<Rightarrow> char" where
  "lower_char c = (let n = of_char c :: nat in if 65 \<le> n \<and> n \<le> 90 then char_of (n + 32) else c)"

definition upper_char :: "char \<Rightarrow> char" where
  "upper_char c = (let n = of_char c :: nat in if 97 \<le> n \<and> n \<le> 122 then char_of (n - 32) else c)"

definition js_lower :: "string \<Rightarrow> string" where "js_lower = map lower_char"

definition js_upper :: "string \<Rightarrow> string" where "js_upper = map upper_char"

section \<open>The table\<close>

record rate_limit_row =
  rl_namespace :: string
  rl_scopeSha256 :: string
  rl_windowStart :: int
  rl_count :: int
  rl_expiresAt :: int
  rl_createdAt :: int
  rl_updatedAt :: int

datatype rate_limit_error = Invalid_rate_limit_input

text \<open>\<^verbatim>\<open>/^[a-z0-9][a-z0-9._-]{0,99}$/u\<close>\<close>

definition name_start :: "char \<Rightarrow> bool" where
  "name_start c \<longleftrightarrow> (CHR ''a'' \<le> c \<and> c \<le> CHR ''z'') \<or> decimal_digit c"

definition rate_limit_namespace :: "string \<Rightarrow> bool" where
  "rate_limit_namespace s \<longleftrightarrow> s \<noteq> [] \<and> length s \<le> 100 \<and> name_start (hd s) \<and>
     list_all (\<lambda>c. name_start c \<or> c = CHR ''.'' \<or> c = CHR ''_'' \<or> c = CHR ''-'') (tl s)"

definition rate_limit_row_ok :: "rate_limit_row \<Rightarrow> bool" where
  "rate_limit_row_ok r \<longleftrightarrow> sha256_hex (rl_scopeSha256 r) \<and> 0 < rl_count r \<and>
     rl_windowStart r < rl_expiresAt r \<and> rate_limit_namespace (rl_namespace r)"

definition rate_limit_key :: "rate_limit_row \<Rightarrow> string \<times> string \<times> int" where
  "rate_limit_key r = (rl_namespace r, rl_scopeSha256 r, rl_windowStart r)"

definition rate_limits_ok :: "rate_limit_row list \<Rightarrow> bool" where
  "rate_limits_ok rows \<longleftrightarrow> list_all rate_limit_row_ok rows \<and> distinct (map rate_limit_key rows)"

section \<open>Operations\<close>

text \<open>The digest of a scope: of the user, or of the address of a request without one.\<close>

definition rateLimitScopeDigest ::
    "(string \<Rightarrow> string) \<Rightarrow> (string \<Rightarrow> string \<Rightarrow> string) \<Rightarrow> string option \<Rightarrow> string \<Rightarrow> string \<Rightarrow>
     rate_limit_error + string" where
  "rateLimitScopeDigest sha256 hmac userId ip secret =
     (case userId of
        Some u \<Rightarrow> Inr (sha256 (''user:'' @ u))
      | None \<Rightarrow>
          let requestIp = js_trim ip in
          if requestIp = [] \<or> secret = [] then Inl Invalid_rate_limit_input
          else Inr (hmac secret (''ip:'' @ requestIp)))"

record rate_limit_input =
  li_namespace :: string
  li_scopeSha256 :: string
  li_windowSeconds :: int
  li_maxAttempts :: int
  li_now :: int

record rate_limit_decision =
  ld_allowed :: bool
  ld_limit :: int
  ld_remaining :: int
  ld_retryAfterSeconds :: int

definition validateLimitInput :: "rate_limit_input \<Rightarrow> rate_limit_error + unit" where
  "validateLimitInput input =
     throw_if (\<not> rate_limit_namespace (li_namespace input) \<or> \<not> sha256_hex (li_scopeSha256 input) \<or>
       li_windowSeconds input < 1 \<or> li_maxAttempts input < 1) Invalid_rate_limit_input"

text \<open>\<open>order by expires_at, scope_sha256, window_start\<close>\<close>

definition cleanup_cmp :: "rate_limit_row \<Rightarrow> rate_limit_row \<Rightarrow> int" where
  "cleanup_cmp l r =
     (if rl_expiresAt l \<noteq> rl_expiresAt r then (if rl_expiresAt l < rl_expiresAt r then - 1 else 1)
      else if rl_scopeSha256 l \<noteq> rl_scopeSha256 r then compare_text (rl_scopeSha256 l) (rl_scopeSha256 r)
      else if rl_windowStart l < rl_windowStart r then - 1
      else if rl_windowStart r < rl_windowStart l then 1 else 0)"

definition cleanupExpiredRateLimits ::
    "string \<Rightarrow> int \<Rightarrow> nat \<Rightarrow> rate_limit_row list \<Rightarrow> rate_limit_error + (nat \<times> rate_limit_row list)" where
  "cleanupExpiredRateLimits namespace now limit rows =
     (if \<not> rate_limit_namespace namespace \<or> limit < 1 \<or> limit > 1000 then Inl Invalid_rate_limit_input
      else
        let candidates = take limit (js_sort cleanup_cmp
              (filter (\<lambda>r. rl_namespace r = namespace \<and> rl_expiresAt r \<le> now) rows));
            keys = map rate_limit_key candidates
        in Inr (length candidates, filter (\<lambda>r. rate_limit_key r \<notin> set keys) rows))"

definition window_start :: "rate_limit_input \<Rightarrow> int" where
  "window_start input = li_now input div (li_windowSeconds input * 1000) * (li_windowSeconds input * 1000)"

definition count_request :: "rate_limit_input \<Rightarrow> rate_limit_row list \<Rightarrow> int \<times> rate_limit_row list" where
  "count_request input rows =
     (let key = (li_namespace input, li_scopeSha256 input, window_start input) in
      case find (\<lambda>r. rate_limit_key r = key) rows of
        None \<Rightarrow> (1, rows @ [\<lparr>rl_namespace = li_namespace input, rl_scopeSha256 = li_scopeSha256 input,
          rl_windowStart = window_start input, rl_count = 1,
          rl_expiresAt = window_start input + li_windowSeconds input * 1000,
          rl_createdAt = li_now input, rl_updatedAt = li_now input\<rparr>])
      | Some row \<Rightarrow>
          let count = min (rl_count row + 1) (li_maxAttempts input + 1) in
          (count, map (\<lambda>r. if rate_limit_key r = key
             then r\<lparr>rl_count := count, rl_updatedAt := li_now input\<rparr> else r) rows))"

definition ceil_div :: "int \<Rightarrow> int \<Rightarrow> int" where
  "ceil_div a b = - ((- a) div b)"

definition consumeRateLimit ::
    "rate_limit_input \<Rightarrow> rate_limit_row list \<Rightarrow> rate_limit_error + (rate_limit_decision \<times> rate_limit_row list)" where
  "consumeRateLimit input rows =
     rbind (validateLimitInput input) (\<lambda>_.
     rbind (cleanupExpiredRateLimits (li_namespace input) (li_now input) 100 rows) (\<lambda>(_, cleaned).
       let (count, counted) = count_request input cleaned;
           expiresAt = window_start input + li_windowSeconds input * 1000;
           allowed = count \<le> li_maxAttempts input
       in Inr (\<lparr>ld_allowed = allowed, ld_limit = li_maxAttempts input,
            ld_remaining = max 0 (li_maxAttempts input - count),
            ld_retryAfterSeconds = (if allowed then 0
              else max 1 (min (li_windowSeconds input) (ceil_div (expiresAt - li_now input) 1000)))\<rparr>,
          counted)))"

section \<open>Many requests\<close>

definition request_key :: "rate_limit_input \<Rightarrow> string \<times> string \<times> int" where
  "request_key input = (li_namespace input, li_scopeSha256 input, window_start input)"

fun consume_all ::
    "rate_limit_input list \<Rightarrow> rate_limit_row list \<Rightarrow> (rate_limit_input \<times> rate_limit_decision) list" where
  "consume_all [] rows = []"
| "consume_all (input # inputs) rows =
     (case consumeRateLimit input rows of
        Inl _ \<Rightarrow> consume_all inputs rows
      | Inr (decision, rows') \<Rightarrow> (input, decision) # consume_all inputs rows')"

definition counted_in :: "string \<times> string \<times> int \<Rightarrow> (rate_limit_input \<times> rate_limit_decision) list \<Rightarrow> nat" where
  "counted_in key log = length (filter (\<lambda>(i, d). request_key i = key) log)"

definition allowed_in :: "string \<times> string \<times> int \<Rightarrow> (rate_limit_input \<times> rate_limit_decision) list \<Rightarrow> nat" where
  "allowed_in key log = length (filter (\<lambda>(i, d). request_key i = key \<and> ld_allowed d) log)"

definition stored_count :: "string \<times> string \<times> int \<Rightarrow> rate_limit_row list \<Rightarrow> int" where
  "stored_count key rows = (case find (\<lambda>r. rate_limit_key r = key) rows of None \<Rightarrow> 0 | Some r \<Rightarrow> rl_count r)"

definition window_rows_ok :: "string \<times> string \<times> int \<Rightarrow> int \<Rightarrow> rate_limit_row list \<Rightarrow> bool" where
  "window_rows_ok key expires rows \<longleftrightarrow> (\<forall>r \<in> set rows. rate_limit_key r = key \<longrightarrow> rl_expiresAt r = expires)"

lemma stored_count_cong:
  "(\<And>r. r \<in> set rows \<Longrightarrow> rate_limit_key r = key \<Longrightarrow> P r) \<Longrightarrow>
    stored_count key (filter P rows) = stored_count key rows"
  by (induction rows) (auto simp: stored_count_def)

lemma stored_count_none: "key \<notin> rate_limit_key ` set rows \<Longrightarrow> stored_count key rows = 0"
  by (auto simp: stored_count_def find_None_iff split: option.splits dest!: find_row_member)

text \<open>The clean-up removes only windows that are over.\<close>

lemma cleanup_cases:
  assumes "cleanupExpiredRateLimits namespace now limit rows = Inr (n, cleaned)"
    and "window_rows_ok key expires rows"
  shows "stored_count key cleaned = stored_count key rows \<or>
      (expires \<le> now \<and> key \<notin> rate_limit_key ` set cleaned)"
    and "set cleaned \<subseteq> set rows"
proof -
  define ks where "ks = rate_limit_key ` set (take limit (js_sort cleanup_cmp
    (filter (\<lambda>r. rl_namespace r = namespace \<and> rl_expiresAt r \<le> now) rows)))"
  have cleaned: "cleaned = filter (\<lambda>r. rate_limit_key r \<notin> ks) rows"
    using assms(1) by (auto simp: cleanupExpiredRateLimits_def ks_def Let_def split: if_splits)
  have ks: "ks \<subseteq> rate_limit_key ` {r \<in> set rows. rl_expiresAt r \<le> now}"
    unfolding ks_def by (auto dest!: in_set_takeD)
  show "set cleaned \<subseteq> set rows" using cleaned by auto
  show "stored_count key cleaned = stored_count key rows \<or>
      (expires \<le> now \<and> key \<notin> rate_limit_key ` set cleaned)"
  proof (cases "key \<in> ks")
    case True
    then show ?thesis using ks assms(2) cleaned by (auto simp: window_rows_ok_def)
  next
    case False
    then have "stored_count key cleaned = stored_count key rows"
      unfolding cleaned by (intro stored_count_cong) auto
    then show ?thesis by simp
  qed
qed

lemma window_start_bounds:
  assumes "0 < li_windowSeconds i"
  shows "window_start i \<le> li_now i" and "li_now i < window_start i + li_windowSeconds i * 1000"
proof -
  have "window_start i = li_now i - li_now i mod (li_windowSeconds i * 1000)"
    by (simp add: window_start_def minus_mod_eq_div_mult)
  moreover have "0 \<le> li_now i mod (li_windowSeconds i * 1000)"
    "li_now i mod (li_windowSeconds i * 1000) < li_windowSeconds i * 1000"
    using assms by auto
  ultimately show "window_start i \<le> li_now i" "li_now i < window_start i + li_windowSeconds i * 1000"
    by linarith+
qed

lemma find_map_same: "(\<And>r. P (f r) = P r) \<Longrightarrow> find P (map f rows) = map_option f (find P rows)"
  by (induction rows) auto

lemma count_request_stored:
  assumes "count_request i rows = (c, rows')" and "1 \<le> li_maxAttempts i"
  shows "c = min (stored_count (request_key i) rows + 1) (li_maxAttempts i + 1) \<and>
      stored_count (request_key i) rows' = c \<and>
      (key \<noteq> request_key i \<longrightarrow> stored_count key rows' = stored_count key rows) \<and>
      (window_rows_ok key expires rows \<longrightarrow>
        (request_key i = key \<longrightarrow> window_start i + li_windowSeconds i * 1000 = expires) \<longrightarrow>
        window_rows_ok key expires rows')"
proof (cases "find (\<lambda>r. rate_limit_key r = request_key i) rows")
  case None
  then show ?thesis
    using assms by (auto simp: count_request_def stored_count_def request_key_def rate_limit_key_def
        window_rows_ok_def find_append_row split: option.splits)
next
  case (Some row)
  let ?f = "\<lambda>r. if rate_limit_key r = request_key i then r\<lparr>rl_count := c, rl_updatedAt := li_now i\<rparr> else r"
  have c: "c = min (rl_count row + 1) (li_maxAttempts i + 1)" and rows': "rows' = map ?f rows"
    using assms(1) Some by (auto simp: count_request_def request_key_def Let_def)
  have same: "rate_limit_key (?f r) = rate_limit_key r" for r by (simp add: rate_limit_key_def)
  have find: "find (\<lambda>r. rate_limit_key r = k) rows' = map_option ?f (find (\<lambda>r. rate_limit_key r = k) rows)" for k
    unfolding rows' by (rule find_map_same) (simp add: same)
  have row: "rate_limit_key row = request_key i" using find_row_member [OF Some] by simp
  have other: "key \<noteq> request_key i \<Longrightarrow> stored_count key rows' = stored_count key rows"
    by (auto simp: stored_count_def find split: option.splits dest!: find_row_member)
  have "window_rows_ok key expires rows'" if "window_rows_ok key expires rows"
    using that by (auto simp: window_rows_ok_def rows' rate_limit_key_def)
  then show ?thesis
    using other Some row c find by (simp add: stored_count_def)
qed

lemma consume_cases:
  assumes "consumeRateLimit i rows = Inr (d, rows')"
  obtains n cleaned c where
    "cleanupExpiredRateLimits (li_namespace i) (li_now i) 100 rows = Inr (n, cleaned)"
    "count_request i cleaned = (c, rows')" "ld_allowed d \<longleftrightarrow> c \<le> li_maxAttempts i"
    "1 \<le> li_maxAttempts i" "1 \<le> li_windowSeconds i"
proof -
  from assms have valid: "1 \<le> li_maxAttempts i" "1 \<le> li_windowSeconds i"
    by (auto simp: consumeRateLimit_def validateLimitInput_def split: if_splits)
  from assms obtain n cleaned where
    clean: "cleanupExpiredRateLimits (li_namespace i) (li_now i) 100 rows = Inr (n, cleaned)"
    by (auto simp: consumeRateLimit_def rbind_eq_Inr)
  obtain c counted where "count_request i cleaned = (c, counted)" by (cases "count_request i cleaned")
  with assms clean valid that show thesis by (auto simp: consumeRateLimit_def rbind_eq_Inr Let_def)
qed

lemma consume_all_inputs: "(i, d) \<in> set (consume_all inputs rows) \<Longrightarrow> i \<in> set inputs"
  by (induction inputs rows rule: consume_all.induct) (auto split: sum.splits prod.splits)

lemma consume_all_without:
  "(\<And>i. i \<in> set inputs \<Longrightarrow> request_key i \<noteq> key) \<Longrightarrow>
    allowed_in key (consume_all inputs rows) = 0 \<and> counted_in key (consume_all inputs rows) = 0"
  unfolding allowed_in_def counted_in_def by (auto simp: filter_empty_conv dest: consume_all_inputs)

lemma consume_all_allowed:
  assumes "sorted (map li_now inputs)" and "window_rows_ok (ns, scope, W) (W + w * 1000) rows"
    and "\<forall>i \<in> set inputs. li_namespace i = ns \<and> li_scopeSha256 i = scope \<longrightarrow>
      li_windowSeconds i = w \<and> li_maxAttempts i = m"
    and "0 \<le> stored_count (ns, scope, W) rows" and "0 < w"
  shows "allowed_in (ns, scope, W) (consume_all inputs rows) =
    min (nat (m - stored_count (ns, scope, W) rows)) (counted_in (ns, scope, W) (consume_all inputs rows))"
  using assms
proof (induction inputs arbitrary: rows)
  case Nil
  then show ?case by (simp add: allowed_in_def counted_in_def)
next
  case (Cons i inputs)
  let ?K = "(ns, scope, W)"
  show ?case
  proof (cases "consumeRateLimit i rows")
    case (Inl e)
    then show ?thesis using Cons.IH [of rows] Cons.prems by simp
  next
    case (Inr r)
    obtain d rows' where r: "r = (d, rows')" by (cases r)
    from consume_cases [OF Inr [unfolded r]] obtain n cleaned c where
      clean: "cleanupExpiredRateLimits (li_namespace i) (li_now i) 100 rows = Inr (n, cleaned)"
      and count: "count_request i cleaned = (c, rows')" and d: "ld_allowed d \<longleftrightarrow> c \<le> li_maxAttempts i"
      and m: "1 \<le> li_maxAttempts i" and wi: "1 \<le> li_windowSeconds i" by blast
    have key: "request_key i = ?K \<Longrightarrow> li_windowSeconds i = w \<and> li_maxAttempts i = m \<and> window_start i = W"
      using Cons.prems(3) by (simp add: request_key_def)
    note step = count_request_stored [OF count m, of ?K "W + w * 1000"]
    have wok: "window_rows_ok ?K (W + w * 1000) cleaned"
      using cleanup_cases(2) [OF clean Cons.prems(2)] Cons.prems(2) unfolding window_rows_ok_def by blast
    then have wok': "window_rows_ok ?K (W + w * 1000) rows'" using step key by blast
    have over: "request_key j \<noteq> ?K" if "W + w * 1000 \<le> li_now i" "j \<in> set (i # inputs)" for j
    proof
      assume j: "request_key j = ?K"
      then have "li_windowSeconds j = w" "window_start j = W"
        using Cons.prems(3) that(2) by (auto simp: request_key_def)
      moreover have "li_now i \<le> li_now j" using Cons.prems(1) that(2) by auto
      ultimately show False using window_start_bounds(2) [of j] that(1) Cons.prems(5) by linarith
    qed
    from cleanup_cases(1) [OF clean Cons.prems(2)] show ?thesis
    proof
      assume gone: "W + w * 1000 \<le> li_now i \<and> ?K \<notin> rate_limit_key ` set cleaned"
      then show ?thesis using consume_all_without [of "i # inputs" ?K rows] over by auto
    next
      assume kept: "stored_count ?K cleaned = stored_count ?K rows"
      have IH: "allowed_in ?K (consume_all inputs rows') =
          min (nat (m - stored_count ?K rows')) (counted_in ?K (consume_all inputs rows'))"
        if "0 \<le> stored_count ?K rows'"
        using Cons.IH [OF _ wok' _ that] Cons.prems by simp
      show ?thesis
      proof (cases "request_key i = ?K")
        case False
        then have "stored_count ?K rows' = stored_count ?K rows" using step kept by simp
        with IH Cons.prems(4) False Inr r show ?thesis by (simp add: allowed_in_def counted_in_def)
      next
        case True
        then have "stored_count ?K rows' = min (stored_count ?K rows + 1) (m + 1)"
          "ld_allowed d \<longleftrightarrow> stored_count ?K rows' \<le> m"
          using step kept key d by auto
        with IH Cons.prems(4) True Inr r m key show ?thesis by (auto simp: allowed_in_def counted_in_def)
      qed
    qed
  qed
qed

lemma consume_keeps_table:
  assumes ok: "rate_limits_ok rows" and run: "consumeRateLimit i rows = Inr (d, rows')"
  shows "rate_limits_ok rows'"
proof -
  from consume_cases [OF run] obtain n cleaned c where
    clean: "cleanupExpiredRateLimits (li_namespace i) (li_now i) 100 rows = Inr (n, cleaned)"
    and count: "count_request i cleaned = (c, rows')" and m: "1 \<le> li_maxAttempts i" "1 \<le> li_windowSeconds i"
    by blast
  have valid: "rate_limit_namespace (li_namespace i)" "sha256_hex (li_scopeSha256 i)"
    using run by (auto simp: consumeRateLimit_def validateLimitInput_def split: if_splits)
  have okc: "rate_limits_ok cleaned" using clean ok
    by (auto simp: cleanupExpiredRateLimits_def rate_limits_ok_def list_all_iff Let_def distinct_map_filter
        split: if_splits)
  show ?thesis
  proof (cases "find (\<lambda>r. rate_limit_key r = request_key i) cleaned")
    case None
    then obtain new where rows': "rows' = cleaned @ [new]" "rate_limit_key new = request_key i"
      "rate_limit_row_ok new"
      using count valid m
      by (auto simp: count_request_def request_key_def rate_limit_row_ok_def rate_limit_key_def)
    moreover have "request_key i \<notin> rate_limit_key ` set cleaned" using None by (auto simp: find_None_iff)
    ultimately show ?thesis using okc by (auto simp: rate_limits_ok_def)
  next
    case (Some row)
    let ?f = "\<lambda>r. if rate_limit_key r = request_key i then r\<lparr>rl_count := c, rl_updatedAt := li_now i\<rparr> else r"
    have rows': "rows' = map ?f cleaned" and c: "c = min (rl_count row + 1) (li_maxAttempts i + 1)"
      using count Some by (auto simp: count_request_def request_key_def Let_def)
    have row: "row \<in> set cleaned" using find_row_member [OF Some] by simp
    then have "0 < c" using okc m c by (auto simp: rate_limits_ok_def rate_limit_row_ok_def list_all_iff)
    moreover have "map rate_limit_key rows' = map rate_limit_key cleaned"
      unfolding rows' by (simp add: rate_limit_key_def)
    ultimately have "distinct (map rate_limit_key rows')" "0 < c"
      using okc unfolding rate_limits_ok_def by simp_all
    moreover have "list_all rate_limit_row_ok rows'" using okc \<open>0 < c\<close>
      by (auto simp: rate_limits_ok_def rate_limit_row_ok_def list_all_iff rows')
    ultimately show ?thesis unfolding rate_limits_ok_def by blast
  qed
qed

section \<open>The bound\<close>

definition sample_request :: "int \<Rightarrow> rate_limit_input" where
  "sample_request now = \<lparr>li_namespace = ''commerce.checkout'', li_scopeSha256 = replicate 64 (CHR ''a''),
     li_windowSeconds = 60, li_maxAttempts = 2, li_now = now\<rparr>"

definition sample_requests :: "rate_limit_input list" where
  "sample_requests = map sample_request [1000, 2000, 59999, 60000]"

text \<open>
  C10. Of the requests of one scope that fall into one window exactly the first are allowed, as many as
  the limit says, whatever other scopes and namespaces ask for in between and whatever the clean-up
  removes, as long as the clock does not go back.
\<close>

theorem rate_limit_exact:
  assumes "sorted (map li_now inputs)" and "\<forall>r \<in> set rows. rate_limit_key r \<noteq> (ns, scope, W)"
    and "\<forall>i \<in> set inputs. li_namespace i = ns \<and> li_scopeSha256 i = scope \<longrightarrow>
      li_windowSeconds i = w \<and> li_maxAttempts i = m"
    and "0 < w"
  shows "allowed_in (ns, scope, W) (consume_all inputs rows) =
    min (nat m) (counted_in (ns, scope, W) (consume_all inputs rows))"
proof -
  have "stored_count (ns, scope, W) rows = 0" by (rule stored_count_none) (use assms(2) in auto)
  moreover have "window_rows_ok (ns, scope, W) (W + w * 1000) rows"
    using assms(2) by (auto simp: window_rows_ok_def)
  ultimately show ?thesis using consume_all_allowed [OF assms(1) _ assms(3)] assms(4) by simp
qed

lemma sample_log:
  "map (\<lambda>(i, d). (window_start i, ld_allowed d)) (consume_all sample_requests []) =
    [(0, True), (0, True), (0, False), (60000, True)]"
  by code_simp

theorem rate_limit_exact_witness:
  "allowed_in (''commerce.checkout'', replicate 64 (CHR ''a''), 0) (consume_all sample_requests []) = 2 \<and>
   counted_in (''commerce.checkout'', replicate 64 (CHR ''a''), 0) (consume_all sample_requests []) = 3"
proof -
  have n: "counted_in (''commerce.checkout'', replicate 64 (CHR ''a''), 0) (consume_all sample_requests []) = 3"
    by code_simp
  have "allowed_in (''commerce.checkout'', replicate 64 (CHR ''a''), 0) (consume_all sample_requests []) =
    min (nat 2) (counted_in (''commerce.checkout'', replicate 64 (CHR ''a''), 0) (consume_all sample_requests []))"
    by (rule rate_limit_exact [where w = 60]) (simp_all add: sample_requests_def sample_request_def)
  with n show ?thesis by simp
qed

end
