(* ===== verification/ShopTables.thy ===== *)
theory ShopTables
  imports Catalog AccessSystem RateLimit
begin

text \<open>
  The tables the checkout works on, with the constraints of \<^verbatim>\<open>db/schema/commerce.ts\<close>: orders,
  order items, payments, provider events, guest identities and accounts; the money and e-mail rules
  of \<^verbatim>\<open>commerce/money.ts\<close> and \<^verbatim>\<open>auth/identity.ts\<close>; and the provider's snapshots with the
  checks of \<^verbatim>\<open>stripe/schemas.ts\<close>. What the zod library and the runtime decide (an e-mail
  address, a UUID, the currencies of \<^verbatim>\<open>Intl\<close>, the parts of a URL) is in the record
  \<open>library_checks\<close>.
\<close>

section \<open>Library predicates, e-mail addresses, currencies\<close>

record library_checks =
  lc_email :: "string \<Rightarrow> bool"
  lc_uuid :: "string \<Rightarrow> bool"
  lc_currency :: "string \<Rightarrow> bool"
  lc_url :: "string \<Rightarrow> bool"
  lc_provider_url :: "string \<Rightarrow> bool"
  lc_same_origin :: "string \<Rightarrow> string \<Rightarrow> bool"

definition normalizeEmailAddress :: "library_checks \<Rightarrow> string \<Rightarrow> string option" where
  "normalizeEmailAddress lib s =
     (let v = js_lower (js_trim s) in if lc_email lib v then Some v else None)"

definition stripePresentmentCurrencies :: "string list" where
  "stripePresentmentCurrencies = [
     ''USD'', ''AED'', ''AFN'', ''ALL'', ''AMD'', ''ANG'', ''AOA'', ''ARS'', ''AUD'', ''AWG'', ''AZN'', ''BAM'',
     ''BBD'', ''BDT'', ''BGN'', ''BHD'', ''BIF'', ''BMD'', ''BND'', ''BOB'', ''BRL'', ''BSD'', ''BWP'', ''BYN'',
     ''BZD'', ''CAD'', ''CDF'', ''CHF'', ''CLP'', ''CNY'', ''COP'', ''CRC'', ''CVE'', ''CZK'', ''DJF'', ''DKK'',
     ''DOP'', ''DZD'', ''EGP'', ''ETB'', ''EUR'', ''FJD'', ''FKP'', ''GBP'', ''GEL'', ''GIP'', ''GMD'', ''GNF'',
     ''GTQ'', ''GYD'', ''HKD'', ''HNL'', ''HTG'', ''HUF'', ''IDR'', ''ILS'', ''INR'', ''ISK'', ''JMD'', ''JPY'',
     ''KES'', ''KGS'', ''KHR'', ''KMF'', ''KRW'', ''KYD'', ''KZT'', ''LAK'', ''LBP'', ''LKR'', ''LRD'', ''LSL'',
     ''MAD'', ''MDL'', ''MGA'', ''MKD'', ''MMK'', ''MNT'', ''MOP'', ''MUR'', ''MVR'', ''MWK'', ''MXN'', ''MYR'',
     ''MZN'', ''NAD'', ''NGN'', ''NIO'', ''NOK'', ''NPR'', ''NZD'', ''PAB'', ''PEN'', ''PGK'', ''PHP'', ''PKR'',
     ''PLN'', ''PYG'', ''QAR'', ''RON'', ''RSD'', ''RUB'', ''RWF'', ''SAR'', ''SBD'', ''SCR'', ''SEK'', ''SGD'',
     ''SHP'', ''SLE'', ''SOS'', ''SRD'', ''STD'', ''SZL'', ''THB'', ''TJS'', ''TOP'', ''TRY'', ''TTD'', ''TWD'',
     ''TZS'', ''UAH'', ''UGX'', ''UYU'', ''UZS'', ''VND'', ''VUV'', ''WST'', ''XAF'', ''XCD'', ''XCG'', ''XOF'',
     ''XPF'', ''YER'', ''ZAR'', ''ZMW'']"

definition stripeChargeUnitExceptions :: "string list" where
  "stripeChargeUnitExceptions = [''ISK'', ''UGX'']"

definition isSupportedCommerceCurrency :: "library_checks \<Rightarrow> string \<Rightarrow> bool" where
  "isSupportedCommerceCurrency lib currency \<longleftrightarrow>
     (let normalizedCurrency = js_upper (js_trim currency) in
      List.member stripePresentmentCurrencies normalizedCurrency \<and> lc_currency lib normalizedCurrency \<and>
      \<not> List.member stripeChargeUnitExceptions normalizedCurrency)"

definition MAX_STRIPE_AMOUNT_MINOR :: int where "MAX_STRIPE_AMOUNT_MINOR = 99999999"

definition MAX_CHECKOUT_SUBTOTAL_MINOR :: int where
  "MAX_CHECKOUT_SUBTOTAL_MINOR = MAX_CATALOG_PRICE_MINOR"

section \<open>Rows and their constraints\<close>

datatype order_status =
    Checkout_pending | Checkout_open | Order_payment_pending | Order_paid | Order_expired
  | Order_failed | Order_exception

record order_row =
  or_id :: string
  or_status :: order_status
  or_initiatingUserId :: "string option"
  or_guestIdentityId :: "string option"
  or_purchaseEmail :: "string option"
  or_currency :: string
  or_subtotalMinor :: int
  or_taxMinor :: "int option"
  or_totalMinor :: "int option"
  or_clientCheckoutAttemptId :: string
  or_quoteFingerprintSha256 :: string
  or_stripeCheckoutSessionId :: "string option"
  or_statusTokenSha256 :: string
  or_checkoutExpiresAt :: "int option"
  or_paidAt :: "int option"
  or_createdAt :: int
  or_updatedAt :: int

text \<open>PostgreSQL's \<^verbatim>\<open>integer\<close>, and \<open>lower(btrim(x))\<close>, which trims spaces only.\<close>

definition int4 :: "int \<Rightarrow> bool" where
  "int4 n \<longleftrightarrow> - 2147483648 \<le> n \<and> n \<le> 2147483647"

definition sql_btrim :: "string \<Rightarrow> string" where
  "sql_btrim s = rev (dropWhile (\<lambda>c. c = CHR '' '') (rev (dropWhile (\<lambda>c. c = CHR '' '') s)))"

definition sql_normalized :: "string \<Rightarrow> bool" where
  "sql_normalized s \<longleftrightarrow> s = js_lower (sql_btrim s)"

definition money_consistent :: "int \<Rightarrow> int option \<Rightarrow> int option \<Rightarrow> bool" where
  "money_consistent subtot tax tot \<longleftrightarrow>
     0 \<le> subtot \<and> int4 subtot \<and>
     (case tax of None \<Rightarrow> True | Some t \<Rightarrow> 0 \<le> t \<and> int4 t) \<and>
     (case tot of None \<Rightarrow> True | Some t \<Rightarrow> 0 \<le> t \<and> int4 t) \<and>
     ((tax = None \<and> tot = None) \<or> (tax \<noteq> None \<and> tot = Some (subtot + the tax)))"

definition order_check :: "order_row \<Rightarrow> bool" where
  "order_check r \<longleftrightarrow>
     money_consistent (or_subtotalMinor r) (or_taxMinor r) (or_totalMinor r) \<and>
     currency_code (or_currency r) \<and> sha256_hex (or_statusTokenSha256 r) \<and>
     sha256_hex (or_quoteFingerprintSha256 r) \<and>
     (case or_purchaseEmail r of None \<Rightarrow> True
      | Some e \<Rightarrow> sql_normalized e \<and> e \<noteq> [] \<and> length e \<le> 320) \<and>
     (or_initiatingUserId r = None \<or> or_guestIdentityId r = None) \<and>
     ((or_stripeCheckoutSessionId r = None) = (or_checkoutExpiresAt r = None)) \<and>
     (or_status r \<noteq> Order_paid \<or>
       or_purchaseEmail r \<noteq> None \<and> or_paidAt r \<noteq> None \<and> or_taxMinor r \<noteq> None \<and> or_totalMinor r \<noteq> None \<and>
       ((or_initiatingUserId r \<noteq> None) \<noteq> (or_guestIdentityId r \<noteq> None)))"

definition somes :: "'a option list \<Rightarrow> 'a list" where
  "somes xs = List.map_filter id xs"

definition orders_ok :: "order_row list \<Rightarrow> bool" where
  "orders_ok rows \<longleftrightarrow> list_all order_check rows \<and> distinct (map or_id rows) \<and>
     distinct (map or_clientCheckoutAttemptId rows) \<and>
     distinct (somes (map or_stripeCheckoutSessionId rows))"

record shop_item_row = order_item_row +
  si_orderId :: string
  si_titleSnapshot :: string
  si_creatorNameSnapshot :: string
  si_format :: publication_format
  si_stripeLineItemId :: "string option"

definition item_check :: "shop_item_row \<Rightarrow> bool" where
  "item_check r \<longleftrightarrow> money_consistent (oi_unitSubtotalMinor r) (oi_taxMinor r) (oi_totalMinor r) \<and>
     currency_code (oi_currency r)"

definition items_ok :: "shop_item_row list \<Rightarrow> bool" where
  "items_ok rows \<longleftrightarrow> list_all item_check rows \<and> distinct (map oi_id rows) \<and>
     distinct (map (\<lambda>r. (si_orderId r, oi_titleId r)) rows) \<and>
     distinct (somes (map si_stripeLineItemId rows))"

record payment_row =
  py_id :: string
  py_orderId :: string
  py_stripePaymentIntentId :: string
  py_stripeLatestChargeId :: "string option"
  py_status :: payment_status
  py_amountMinor :: int
  py_currency :: string
  py_paymentMethodCategory :: "string option"
  py_paidAt :: "int option"
  py_financialEvidenceStatus :: evidence_status
  py_updatedAt :: int

text \<open>\<^verbatim>\<open>/^[a-z0-9_]{1,50}$/\<close>\<close>

definition method_category :: "string \<Rightarrow> bool" where
  "method_category s \<longleftrightarrow> s \<noteq> [] \<and> length s \<le> 50 \<and> list_all (\<lambda>c. name_start c \<or> c = CHR ''_'') s"

definition payment_check :: "payment_row \<Rightarrow> bool" where
  "payment_check r \<longleftrightarrow> 0 \<le> py_amountMinor r \<and> int4 (py_amountMinor r) \<and> currency_code (py_currency r) \<and>
     (case py_paymentMethodCategory r of None \<Rightarrow> True | Some c \<Rightarrow> method_category c) \<and>
     ((py_status r = Payment_succeeded) = (py_paidAt r \<noteq> None))"

definition payments_ok :: "payment_row list \<Rightarrow> bool" where
  "payments_ok rows \<longleftrightarrow> list_all payment_check rows \<and> distinct (map py_id rows) \<and>
     distinct (map py_orderId rows) \<and> distinct (map py_stripePaymentIntentId rows) \<and>
     distinct (somes (map py_stripeLatestChargeId rows))"

datatype event_status = Event_pending | Event_processed | Event_exception

record stripe_event_row =
  ev_id :: string
  ev_providerEventId :: string
  ev_eventType :: string
  ev_objectId :: string
  ev_liveMode :: bool
  ev_apiVersion :: "string option"
  ev_providerCreatedAt :: int
  ev_rawBodySha256 :: string
  ev_status :: event_status
  ev_processedAt :: "int option"

definition event_check :: "stripe_event_row \<Rightarrow> bool" where
  "event_check r \<longleftrightarrow> sha256_hex (ev_rawBodySha256 r) \<and> ev_providerEventId r \<noteq> [] \<and> ev_eventType r \<noteq> [] \<and>
     ev_objectId r \<noteq> [] \<and> ((ev_status r = Event_pending) = (ev_processedAt r = None))"

definition events_ok :: "stripe_event_row list \<Rightarrow> bool" where
  "events_ok rows \<longleftrightarrow> list_all event_check rows \<and> distinct (map ev_id rows) \<and>
     distinct (map ev_providerEventId rows)"

record guest_identity_row =
  gi_id :: string
  gi_email :: string
  gi_claimedByUserId :: "string option"

definition guests_ok :: "guest_identity_row list \<Rightarrow> bool" where
  "guests_ok rows \<longleftrightarrow> list_all (\<lambda>r. sql_normalized (gi_email r)) rows \<and> distinct (map gi_id rows) \<and>
     distinct (map gi_email rows)"

record account_row =
  us_id :: string
  us_email :: string
  us_emailVerified :: bool

text \<open>The constraints on an entitlement grant, and the unique index on purchases.\<close>

definition grant_check :: "entitlement_grant_row \<Rightarrow> bool" where
  "grant_check g \<longleftrightarrow>
     (eg_state g \<noteq> Unclaimed \<or> eg_userId g = None) \<and>
     (eg_state g \<noteq> Active \<or> eg_userId g \<noteq> None) \<and>
     (case eg_source g of
        Purchase \<Rightarrow> eg_orderItemId g \<noteq> None \<and> eg_recoveryRefundAllocationId g = None \<and>
          eg_stateReason g \<noteq> ''refund_allocation_recovery''
      | Preserved \<Rightarrow> eg_userId g \<noteq> None \<and> eg_orderItemId g = None \<and>
          eg_recoveryRefundAllocationId g = None \<and> eg_stateReason g \<noteq> ''refund_allocation_recovery''
      | Administrative \<Rightarrow> eg_userId g \<noteq> None \<and> eg_orderItemId g = None \<and>
          eg_recoveryRefundAllocationId g \<noteq> None \<and> eg_stateReason g = ''refund_allocation_recovery'' \<and>
          (eg_state g = Active \<or> eg_state g = Revoked)) \<and>
     eg_stateReason g \<noteq> [] \<and> length (eg_stateReason g) \<le> 100 \<and>
     (case eg_state g of
        Suspended \<Rightarrow> eg_suspendedAt g \<noteq> None \<and> eg_revokedAt g = None
      | Revoked \<Rightarrow> eg_revokedAt g \<noteq> None
      | _ \<Rightarrow> eg_suspendedAt g = None \<and> eg_revokedAt g = None) \<and>
     (case eg_suspendedAt g of None \<Rightarrow> True | Some t \<Rightarrow> eg_grantedAt g \<le> t) \<and>
     (case eg_revokedAt g of None \<Rightarrow> True | Some t \<Rightarrow> eg_grantedAt g \<le> t)"

definition purchased_items :: "entitlement_grant_row list \<Rightarrow> string option list" where
  "purchased_items gs = map eg_orderItemId (filter (\<lambda>g. eg_source g = Purchase) gs)"

text \<open>The columns of a title the quote shows.\<close>

record shop_title_row = title_row +
  st_slug :: string
  st_title :: string
  st_creatorName :: string
  st_coverChecksumSha256 :: "string option"
  st_coverMediaType :: "string option"
  st_coverByteSize :: "int option"
  st_coverWidth :: "int option"
  st_coverHeight :: "int option"

section \<open>The provider's snapshots\<close>

text \<open>\<^verbatim>\<open>/^[A-Za-z0-9_-]+$/u\<close>, one to 255 characters.\<close>

definition provider_id :: "string \<Rightarrow> bool" where
  "provider_id s \<longleftrightarrow> s \<noteq> [] \<and> length s \<le> 255 \<and>
     list_all (\<lambda>c. name_start c \<or> upper_letter c \<or> c = CHR ''_'' \<or> c = CHR ''-'') s"

definition money_amount :: "int \<Rightarrow> bool" where
  "money_amount n \<longleftrightarrow> 0 \<le> n \<and> n \<le> MAX_STRIPE_AMOUNT_MINOR"

text \<open>\<^verbatim>\<open>/^[a-z]{3}$/u\<close> and supported.\<close>

definition snapshot_currency :: "library_checks \<Rightarrow> string \<Rightarrow> bool" where
  "snapshot_currency lib s \<longleftrightarrow> length s = 3 \<and> list_all (\<lambda>c. CHR ''a'' \<le> c \<and> c \<le> CHR ''z'') s \<and>
     isSupportedCommerceCurrency lib s"

record checkout_line =
  cl_providerLineItemId :: string
  cl_orderItemId :: string
  cl_quantity :: int
  cl_currency :: string
  cl_subtotalMinor :: int
  cl_taxMinor :: int
  cl_totalMinor :: int

datatype session_status = Session_open | Session_complete | Session_expired

datatype session_payment = Session_unpaid | Session_paid | No_payment_required

record checkout_snapshot =
  cs_providerSessionId :: string
  cs_clientReferenceId :: string
  cs_metadataVersion :: string
  cs_metadataOrderId :: string
  cs_liveMode :: bool
  cs_mode :: string
  cs_status :: session_status
  cs_paymentStatus :: session_payment
  cs_paymentIntentId :: "string option"
  cs_latestChargeId :: "string option"
  cs_customerEmail :: "string option"
  cs_currency :: string
  cs_subtotalMinor :: int
  cs_taxMinor :: int
  cs_totalMinor :: int
  cs_expiresAt :: int
  cs_lineItems :: "checkout_line list"

record payment_snapshot =
  ps_paymentIntentId :: string
  ps_metadataVersion :: string
  ps_metadataOrderId :: string
  ps_latestChargeId :: "string option"
  ps_liveMode :: bool
  ps_state :: payment_status
  ps_amountMinor :: int
  ps_currency :: string
  ps_paidAt :: "int option"
  ps_paymentMethodCategory :: "string option"

definition optional :: "('a \<Rightarrow> bool) \<Rightarrow> 'a option \<Rightarrow> bool" where
  "optional P x = (case x of None \<Rightarrow> True | Some y \<Rightarrow> P y)"

definition checkout_line_ok :: "library_checks \<Rightarrow> checkout_line \<Rightarrow> bool" where
  "checkout_line_ok lib line \<longleftrightarrow>
     provider_id (cl_providerLineItemId line) \<and> lc_uuid lib (cl_orderItemId line) \<and>
     cl_quantity line = 1 \<and> snapshot_currency lib (cl_currency line) \<and>
     money_amount (cl_subtotalMinor line) \<and> money_amount (cl_taxMinor line) \<and>
     money_amount (cl_totalMinor line) \<and>
     cl_subtotalMinor line + cl_taxMinor line = cl_totalMinor line"

text \<open>The schema trims and lowers the e-mail address; everything else it only checks.\<close>

definition parseCheckoutSnapshot :: "library_checks \<Rightarrow> checkout_snapshot \<Rightarrow> checkout_snapshot commerce" where
  "parseCheckoutSnapshot lib s =
     (let lines = cs_lineItems s;
          email = map_option (\<lambda>e. js_lower (js_trim e)) (cs_customerEmail s);
          subtotal = sum_list (map cl_subtotalMinor lines);
          tax = sum_list (map cl_taxMinor lines);
          tot = sum_list (map cl_totalMinor lines)
      in if provider_id (cs_providerSessionId s) \<and> lc_uuid lib (cs_clientReferenceId s) \<and>
           cs_metadataVersion s = ''1'' \<and> lc_uuid lib (cs_metadataOrderId s) \<and>
           cs_mode s = ''payment'' \<and> optional provider_id (cs_paymentIntentId s) \<and>
           optional provider_id (cs_latestChargeId s) \<and>
           optional (\<lambda>e. length e \<le> 320 \<and> lc_email lib e) email \<and>
           snapshot_currency lib (cs_currency s) \<and> money_amount (cs_subtotalMinor s) \<and>
           money_amount (cs_taxMinor s) \<and> money_amount (cs_totalMinor s) \<and>
           1 \<le> length lines \<and> length lines \<le> 25 \<and> list_all (checkout_line_ok lib) lines \<and>
           distinct (map cl_providerLineItemId lines) \<and> distinct (map cl_orderItemId lines) \<and>
           list_all (\<lambda>line. cl_currency line = cs_currency s) lines \<and>
           safe_integer subtotal \<and> safe_integer tax \<and> safe_integer tot \<and>
           subtotal = cs_subtotalMinor s \<and> tax = cs_taxMinor s \<and> tot = cs_totalMinor s \<and>
           cs_subtotalMinor s + cs_taxMinor s = cs_totalMinor s
         then Inr (s\<lparr>cs_customerEmail := email\<rparr>) else Inl Permanent_commerce)"

definition payment_categories :: "string list" where
  "payment_categories = [''card'', ''link'', ''cashapp'', ''amazon_pay'', ''other'']"

definition parsePaymentSnapshot :: "library_checks \<Rightarrow> payment_snapshot \<Rightarrow> payment_snapshot commerce" where
  "parsePaymentSnapshot lib p =
     (if provider_id (ps_paymentIntentId p) \<and> ps_metadataVersion p = ''1'' \<and>
         lc_uuid lib (ps_metadataOrderId p) \<and> optional provider_id (ps_latestChargeId p) \<and>
         money_amount (ps_amountMinor p) \<and> snapshot_currency lib (ps_currency p) \<and>
         optional (List.member payment_categories) (ps_paymentMethodCategory p) \<and>
         (ps_state p = Payment_succeeded \<longrightarrow> ps_latestChargeId p \<noteq> None \<and> ps_paidAt p \<noteq> None) \<and>
         (ps_state p \<noteq> Payment_succeeded \<longrightarrow> ps_paidAt p = None)
      then Inr p else Inl Permanent_commerce)"

text \<open>The provider's names of states, categories and reasons.\<close>

definition normalizePaymentState :: "string \<Rightarrow> payment_status commerce" where
  "normalizePaymentState v =
     (if v = ''succeeded'' then Inr Payment_succeeded
      else if v = ''canceled'' \<or> v = ''requires_payment_method'' then Inr Payment_failed
      else if v \<in> {''processing'', ''requires_action'', ''requires_confirmation'', ''requires_capture''}
      then Inr Payment_pending else Inl Permanent_commerce)"

definition normalizeRefundState :: "string \<Rightarrow> refund_status commerce" where
  "normalizeRefundState v =
     (if v = ''succeeded'' then Inr Refund_succeeded else if v = ''failed'' then Inr Refund_failed
      else if v = ''canceled'' then Inr Refund_canceled
      else if v = ''pending'' \<or> v = ''requires_action'' then Inr Refund_pending else Inl Permanent_commerce)"

definition normalizeDisputeState :: "string \<Rightarrow> dispute_status commerce" where
  "normalizeDisputeState v =
     (if v = ''won'' then Inr Dispute_won else if v = ''lost'' then Inr Dispute_lost
      else if v = ''warning_closed'' \<or> v = ''prevented'' then Inr Dispute_won
      else if v \<in> {''warning_needs_response'', ''warning_under_review'', ''needs_response'', ''under_review''}
      then Inr Dispute_open else Inl Permanent_commerce)"

definition normalizePaymentMethodCategory :: "string option \<Rightarrow> string option" where
  "normalizePaymentMethodCategory v =
     map_option (\<lambda>c. if c \<in> {''card'', ''link'', ''cashapp'', ''amazon_pay''} then c else ''other'') v"

definition normalizeRefundReason :: "string option \<Rightarrow> string option" where
  "normalizeRefundReason v =
     map_option (\<lambda>r. if r \<in> {''duplicate'', ''fraudulent'', ''requested_by_customer''} then r else ''other'') v"

section \<open>The shop\<close>

datatype purchase_message = Account_receipt | Guest_receipt_without_claim | Guest_claim_preparation

record financial_handoff =
  fh_sourceId :: string
  fh_providerEventId :: string
  fh_projectionGraphSourceIds :: "string list"

record shop_audit =
  sa_action :: string
  sa_resourceType :: string
  sa_resourceId :: string

record shop_db =
  sh_titles :: "shop_title_row list"
  sh_revisions :: "revision_row list"
  sh_presentations :: "presentation_row list"
  sh_accounts :: "account_row list"
  sh_guests :: "guest_identity_row list"
  sh_orders :: "order_row list"
  sh_items :: "shop_item_row list"
  sh_payments :: "payment_row list"
  sh_events :: "stripe_event_row list"
  sh_access :: access_db
  sh_limits :: "rate_limit_row list"
  sh_messages :: "(purchase_message \<times> string) list"
  sh_handoffs :: "financial_handoff list"
  sh_audit :: "shop_audit list"

definition shop_tables_ok :: "shop_db \<Rightarrow> bool" where
  "shop_tables_ok db \<longleftrightarrow> orders_ok (sh_orders db) \<and> items_ok (sh_items db) \<and> payments_ok (sh_payments db) \<and>
     events_ok (sh_events db) \<and> guests_ok (sh_guests db)"

end
