(* ===== verification/Fingerprint.thy ===== *)
theory Fingerprint
  imports Prelude
begin

text \<open>
  The fingerprint of a quote (\<^verbatim>\<open>createQuoteFingerprint\<close> of \<^verbatim>\<open>commerce/quote.ts\<close>): the quote in a
  canonical order, written by \<^verbatim>\<open>JSON.stringify\<close>, and hashed. The hash is an argument. The JSON
  text is written out, and shown to determine the canonical quote: no two of them have the same text.
\<close>

section \<open>\<^verbatim>\<open>JSON.stringify\<close>\<close>

definition hex_char :: "nat \<Rightarrow> char" where
  "hex_char d = (if d < 10 then char_of (48 + d) else char_of (87 + d))"

definition json_char :: "char \<Rightarrow> string" where
  "json_char c =
     (let n = of_char c :: nat in
      if n = 34 then [CHR 0x5C, CHR 0x22]
      else if n = 92 then [CHR 0x5C, CHR 0x5C]
      else if n = 8 then [CHR 0x5C, CHR ''b'']
      else if n = 9 then [CHR 0x5C, CHR ''t'']
      else if n = 10 then [CHR 0x5C, CHR ''n'']
      else if n = 12 then [CHR 0x5C, CHR ''f'']
      else if n = 13 then [CHR 0x5C, CHR ''r'']
      else if n < 32 then [CHR 0x5C, CHR ''u'', CHR ''0'', CHR ''0'', hex_char (n div 16), hex_char (n mod 16)]
      else [c])"

definition json_text :: "string \<Rightarrow> string" where
  "json_text s = [CHR 0x22] @ concat (map json_char s) @ [CHR 0x22]"

fun json_nullable :: "string option \<Rightarrow> string" where
  "json_nullable None = ''null''"
| "json_nullable (Some s) = json_text s"

fun json_elements :: "('a \<Rightarrow> string) \<Rightarrow> 'a list \<Rightarrow> string" where
  "json_elements enc [] = []"
| "json_elements enc [x] = enc x"
| "json_elements enc (x # y # ys) = enc x @ CHR '','' # json_elements enc (y # ys)"

definition json_array :: "('a \<Rightarrow> string) \<Rightarrow> 'a list \<Rightarrow> string" where
  "json_array enc xs = CHR ''['' # json_elements enc xs @ [CHR '']'']"

text \<open>\<^verbatim>\<open>"key":\<close>\<close>

definition json_key :: "string \<Rightarrow> string" where
  "json_key k = json_text k @ [CHR '':'']"

section \<open>The fingerprint\<close>

record quote_fingerprint_item =
  qi_titleId :: string
  qi_priceMinor :: int
  qi_currency :: string
  qi_activeRevisionId :: string
  qi_presentationPublishedAt :: string

record quote_fingerprint_input =
  qf_actorUserId :: "string option"
  qf_items :: "quote_fingerprint_item list"
  qf_alreadyOwnedTitleIds :: "string list"
  qf_claimableTitleIds :: "string list"
  qf_reservedTitleIds :: "string list"
  qf_unavailableTitleIds :: "string list"

definition canonical_fingerprint :: "quote_fingerprint_input \<Rightarrow> quote_fingerprint_input" where
  "canonical_fingerprint input =
     \<lparr>qf_actorUserId = qf_actorUserId input,
      qf_items = js_sort (\<lambda>l r. compare_text (qi_titleId l) (qi_titleId r)) (qf_items input),
      qf_alreadyOwnedTitleIds = js_sort compare_text (qf_alreadyOwnedTitleIds input),
      qf_claimableTitleIds = js_sort compare_text (qf_claimableTitleIds input),
      qf_reservedTitleIds = js_sort compare_text (qf_reservedTitleIds input),
      qf_unavailableTitleIds = js_sort compare_text (qf_unavailableTitleIds input)\<rparr>"

definition fingerprint_item_json :: "quote_fingerprint_item \<Rightarrow> string" where
  "fingerprint_item_json item =
     ''{'' @ json_key ''titleId'' @ json_text (qi_titleId item) @
     '','' @ json_key ''priceMinor'' @ int_text (qi_priceMinor item) @
     '','' @ json_key ''currency'' @ json_text (qi_currency item) @
     '','' @ json_key ''activeRevisionId'' @ json_text (qi_activeRevisionId item) @
     '','' @ json_key ''presentationPublishedAt'' @ json_text (qi_presentationPublishedAt item) @ ''}''"

definition fingerprint_json :: "quote_fingerprint_input \<Rightarrow> string" where
  "fingerprint_json input =
     ''{'' @ json_key ''version'' @ int_text 1 @
     '','' @ json_key ''actorUserId'' @ json_nullable (qf_actorUserId input) @
     '','' @ json_key ''items'' @ json_array fingerprint_item_json (qf_items input) @
     '','' @ json_key ''alreadyOwnedTitleIds'' @ json_array json_text (qf_alreadyOwnedTitleIds input) @
     '','' @ json_key ''claimableTitleIds'' @ json_array json_text (qf_claimableTitleIds input) @
     '','' @ json_key ''reservedTitleIds'' @ json_array json_text (qf_reservedTitleIds input) @
     '','' @ json_key ''unavailableTitleIds'' @ json_array json_text (qf_unavailableTitleIds input) @ ''}''"

definition createQuoteFingerprint :: "(string \<Rightarrow> string) \<Rightarrow> quote_fingerprint_input \<Rightarrow> string" where
  "createQuoteFingerprint sha256 input = sha256 (fingerprint_json (canonical_fingerprint input))"

lemma json_elements_Cons:
  "json_elements enc (x # xs) = enc x @ (if xs = [] then [] else CHR '','' # json_elements enc xs)"
  by (cases xs) simp_all

section \<open>Texts that show where they end\<close>

locale self_delimiting =
  fixes enc :: "'a \<Rightarrow> string"
  assumes delimits: "enc x @ r = enc y @ r' \<Longrightarrow> x = y \<and> r = r'"
    and starts: "enc x \<noteq> [] \<and> hd (enc x) \<noteq> CHR '']''"
begin

lemma delimits_iff: "enc x @ r = enc y @ r' \<longleftrightarrow> x = y \<and> r = r'"
  using delimits by blast

lemma starts_not_bracket: "enc x @ r \<noteq> CHR '']'' # r'"
  using starts [of x] by (cases "enc x") auto

lemma elements_delimit:
  "json_elements enc xs @ CHR '']'' # r = json_elements enc ys @ CHR '']'' # r' \<Longrightarrow> xs = ys \<and> r = r'"
proof (induction xs arbitrary: ys)
  case Nil
  then show ?case using starts_not_bracket
    by (cases ys) (simp_all add: json_elements_Cons, metis)
next
  case (Cons x xs)
  then obtain y zs where ys: "ys = y # zs" using starts_not_bracket by (cases ys) (auto simp: json_elements_Cons)
  have "x = y \<and> (if xs = [] then [] else CHR '','' # json_elements enc xs) @ CHR '']'' # r =
      (if zs = [] then [] else CHR '','' # json_elements enc zs) @ CHR '']'' # r'"
    by (rule delimits) (use Cons.prems ys in \<open>simp add: json_elements_Cons\<close>)
  with ys Cons.IH [of zs] show ?case by (auto split: if_splits)
qed

lemma array_delimits: "json_array enc xs @ r = json_array enc ys @ r' \<Longrightarrow> xs = ys \<and> r = r'"
  using elements_delimit by (simp add: json_array_def)

lemma array_delimits_iff: "json_array enc xs @ r = json_array enc ys @ r' \<longleftrightarrow> xs = ys \<and> r = r'"
  using array_delimits by blast

lemma array_inj: "json_array enc xs = json_array enc ys \<longleftrightarrow> xs = ys"
  using array_delimits_iff [of xs "[]" ys "[]"] by simp

end

section \<open>The texts of the fingerprint\<close>

lemma hex_char_code: "d < 16 \<Longrightarrow> (of_char (hex_char d) :: nat) = (if d < 10 then 48 + d else 87 + d)"
  by (simp add: hex_char_def)

lemma hex_char_inj:
  assumes "d < 16" and "e < 16" and "hex_char d = hex_char e"
  shows "d = e"
proof -
  have "(of_char (hex_char d) :: nat) = of_char (hex_char e)" using assms(3) by simp
  then show ?thesis using assms(1,2) by (simp add: hex_char_code split: if_splits)
qed

lemma hex_pair_inj:
  assumes "m < (32 :: nat)" and "n < 32"
    and "hex_char (m div 16) = hex_char (n div 16)" and "hex_char (m mod 16) = hex_char (n mod 16)"
  shows "m = n"
proof -
  have "m div 16 < 16" "n div 16 < 16" "m mod 16 < 16" "n mod 16 < 16"
    using assms(1,2) by (simp_all add: less_mult_imp_div_less)
  then have "m div 16 = n div 16" and "m mod 16 = n mod 16"
    by (auto intro: hex_char_inj [OF _ _ assms(3)] hex_char_inj [OF _ _ assms(4)])
  then show ?thesis by (metis div_mult_mod_eq)
qed

text \<open>The escapes of \<^verbatim>\<open>JSON.stringify\<close>: one plain character, or a backslash and a code.\<close>

definition plain_json :: "char \<Rightarrow> bool" where
  "plain_json c \<longleftrightarrow> 32 \<le> (of_char c :: nat) \<and> of_char c \<noteq> (34 :: nat) \<and> of_char c \<noteq> (92 :: nat)"

lemma json_char_plain: "plain_json c \<Longrightarrow> json_char c = [c]"
  by (simp add: json_char_def plain_json_def)

lemma json_char_escaped: "\<not> plain_json c \<Longrightarrow> \<exists>e. json_char c = CHR 0x5C # e \<and> e \<noteq> []"
  by (auto simp: json_char_def plain_json_def Let_def)

lemma char_of_code: "(of_char c :: nat) = of_char d \<Longrightarrow> c = d"
  by simp

definition short_escapes :: "(nat \<times> char) list" where
  "short_escapes = [(34, CHR 0x22), (92, CHR 0x5C), (8, CHR ''b''), (9, CHR ''t''), (10, CHR ''n''),
     (12, CHR ''f''), (13, CHR ''r'')]"

lemma json_char_cases:
  assumes "\<not> plain_json c"
  obtains (short) k where "json_char c = [CHR 0x5C, k]" "(of_char c, k) \<in> set short_escapes"
  | (long) "json_char c = [CHR 0x5C, CHR ''u'', CHR ''0'', CHR ''0'', hex_char (of_char c div 16),
      hex_char (of_char c mod 16)]" "(of_char c :: nat) < 32"
proof -
  consider "(of_char c :: nat) \<in> {34, 92, 8, 9, 10, 12, 13}" | "of_char c \<notin> {34 :: nat, 92, 8, 9, 10, 12, 13}"
    "(of_char c :: nat) < 32"
    using assms unfolding plain_json_def by force
  then show thesis
  proof cases
    case 1
    then show ?thesis using short by (auto simp: json_char_def short_escapes_def Let_def)
  next
    case 2
    then show ?thesis using long by (simp add: json_char_def Let_def)
  qed
qed

lemma json_escape_delimits:
  assumes "\<not> plain_json c" and "\<not> plain_json d" and eq: "json_char c @ r = json_char d @ r'"
  shows "c = d \<and> r = r'"
proof -
  have no_u: "(n, CHR ''u'') \<notin> set short_escapes" for n by (simp add: short_escapes_def)
  have inj: "(m, k) \<in> set short_escapes \<Longrightarrow> (n, k) \<in> set short_escapes \<Longrightarrow> m = n" for m n k
    by (auto simp: short_escapes_def)
  from assms(1) show ?thesis
  proof (cases rule: json_char_cases)
    case c: (short k)
    from assms(2) show ?thesis
      by (cases rule: json_char_cases) (use c eq inj [THEN char_of_code] no_u in auto)
  next
    case c: long
    from assms(2) show ?thesis
      by (cases rule: json_char_cases)
        (use c eq no_u hex_pair_inj [of "of_char c" "of_char d"] in auto)
  qed
qed

lemma json_char_delimits: "json_char c @ r = json_char d @ r' \<Longrightarrow> c = d \<and> r = r'"
proof (cases "plain_json c"; cases "plain_json d")
  assume "json_char c @ r = json_char d @ r'" "plain_json c" "plain_json d"
  then show ?thesis by (simp add: json_char_plain)
next
  assume "json_char c @ r = json_char d @ r'" "plain_json c" "\<not> plain_json d"
  then show ?thesis using json_char_escaped [of d] by (auto simp: json_char_plain plain_json_def)
next
  assume "json_char c @ r = json_char d @ r'" "\<not> plain_json c" "plain_json d"
  then show ?thesis using json_char_escaped [of c] by (auto simp: json_char_plain plain_json_def)
qed (rule json_escape_delimits)

lemma json_char_not_quote: "json_char c @ r \<noteq> CHR 0x22 # r'"
  by (cases "plain_json c") (use json_char_escaped [of c] in \<open>auto simp: json_char_plain plain_json_def\<close>)

lemma json_chars_delimit:
  "concat (map json_char s) @ CHR 0x22 # r = concat (map json_char t) @ CHR 0x22 # r' \<Longrightarrow> s = t \<and> r = r'"
proof (induction s arbitrary: t)
  case Nil
  then show ?case using json_char_not_quote by (cases t) (simp_all, metis)
next
  case (Cons c s)
  then obtain d u where t: "t = d # u" using json_char_not_quote by (cases t) auto
  have "c = d \<and> concat (map json_char s) @ CHR 0x22 # r = concat (map json_char u) @ CHR 0x22 # r'"
    by (rule json_char_delimits) (use Cons.prems t in simp)
  with t Cons.IH [of u] show ?case by simp
qed

interpretation json_strings: self_delimiting json_text
proof
  fix s t r r' assume "json_text s @ r = json_text t @ r'"
  then show "s = t \<and> r = r'" using json_chars_delimit [of s r t r'] by (simp add: json_text_def)
qed (simp add: json_text_def)

lemma text_not_null: "json_text s @ r \<noteq> CHR ''n'' # r'"
  by (simp add: json_text_def)

interpretation json_nullables: self_delimiting json_nullable
proof
  fix s t r r' assume "json_nullable s @ r = json_nullable t @ r'"
  then show "s = t \<and> r = r'"
    by (cases s; cases t) (auto simp: json_strings.delimits_iff text_not_null text_not_null [symmetric])
next
  fix s show "json_nullable s \<noteq> [] \<and> hd (json_nullable s) \<noteq> CHR '']''"
    by (cases s) (simp_all add: json_text_def)
qed

lemma sep_append_eq:
  assumes "xs @ c # ys = xs' @ c # ys'" and "c \<notin> set xs" and "c \<notin> set xs'"
  shows "xs = xs' \<and> ys = ys'"
  using assms
proof (induction xs arbitrary: xs')
  case Nil
  then show ?case by (cases xs') auto
next
  case (Cons x xs)
  then show ?case by (cases xs') auto
qed

lemma int_text_no_comma: "CHR '','' \<notin> set (int_text n)"
proof -
  have digit: "digit_char d \<noteq> CHR '',''" if "d < 10" for d
  proof
    assume "digit_char d = CHR '',''"
    then have "(of_char (digit_char d) :: nat) = 44" by simp
    then show False using of_char_digit [OF that] by simp
  qed
  have "CHR '','' \<notin> set (decimal m)" for m
  proof (induction m rule: decimal.induct)
    case (1 m)
    then show ?case using digit [of m] digit [of "m mod 10"]
      by (cases "m < 10") (auto simp: decimal.simps [of m])
  qed
  then show ?thesis by (simp add: int_text_def)
qed

lemma decimal_not_minus: "decimal n \<noteq> CHR ''-'' # s"
proof -
  have digit: "digit_char d \<noteq> CHR ''-''" if "d < 10" for d
  proof
    assume "digit_char d = CHR ''-''"
    then have "(of_char (digit_char d) :: nat) = 45" by simp
    then show False using of_char_digit [OF that] by simp
  qed
  have "decimal m \<noteq> [] \<and> hd (decimal m) \<noteq> CHR ''-''" for m
  proof (induction m rule: decimal.induct)
    case (1 m)
    then show ?case using digit [of m] by (cases "m < 10") (auto simp: decimal.simps [of m])
  qed
  from this [of n] show ?thesis by auto
qed

lemma int_text_inj: "int_text m = int_text n \<longleftrightarrow> m = n"
  using decimal_not_minus decimal_inj by (auto simp: int_text_def nat_eq_iff split: if_splits) (metis)+

lemma int_text_comma: "int_text m @ CHR '','' # r = int_text n @ CHR '','' # r' \<longleftrightarrow> m = n \<and> r = r'"
  using sep_append_eq [of "int_text m" "CHR '',''" r "int_text n" r'] int_text_no_comma int_text_inj by blast

interpretation json_items: self_delimiting fingerprint_item_json
proof
  fix x y r r' assume "fingerprint_item_json x @ r = fingerprint_item_json y @ r'"
  then show "x = y \<and> r = r'"
    by (cases x; cases y)
      (simp add: fingerprint_item_json_def json_strings.delimits_iff int_text_comma)
qed (simp add: fingerprint_item_json_def)

lemma fingerprint_json_inj:
  assumes "fingerprint_json x = fingerprint_json y"
  shows "x = y"
  using assms
  by (cases x; cases y) (simp add: fingerprint_json_def json_nullables.delimits_iff
      json_items.array_delimits_iff json_strings.array_delimits_iff json_strings.array_inj)

section \<open>What the fingerprint says\<close>

lemma fingerprint_binds:
  assumes "createQuoteFingerprint sha256 x = createQuoteFingerprint sha256 y"
    and "sha256 (fingerprint_json (canonical_fingerprint x)) = sha256 (fingerprint_json (canonical_fingerprint y))
      \<Longrightarrow> fingerprint_json (canonical_fingerprint x) = fingerprint_json (canonical_fingerprint y)"
  shows "canonical_fingerprint x = canonical_fingerprint y"
  using assms by (simp add: createQuoteFingerprint_def fingerprint_json_inj)

interpretation title_order: js_comparator "\<lambda>l r. compare_text (qi_titleId l) (qi_titleId r)"
  by unfold_locales (auto simp: compare_text_le_iff)

lemma sorted_ids_cong: "mset xs = mset ys \<Longrightarrow> js_sort compare_text xs = js_sort compare_text ys"
  by (rule text_order.js_sort_mset_cong) (auto simp: compare_text_le_iff)

lemma fingerprint_order_independent:
  assumes "qf_actorUserId x = qf_actorUserId y"
    and "mset (qf_items x) = mset (qf_items y)" and "distinct (map qi_titleId (qf_items x))"
    and "mset (qf_alreadyOwnedTitleIds x) = mset (qf_alreadyOwnedTitleIds y)"
    and "mset (qf_claimableTitleIds x) = mset (qf_claimableTitleIds y)"
    and "mset (qf_reservedTitleIds x) = mset (qf_reservedTitleIds y)"
    and "mset (qf_unavailableTitleIds x) = mset (qf_unavailableTitleIds y)"
  shows "createQuoteFingerprint sha256 x = createQuoteFingerprint sha256 y"
proof -
  have "js_sort (\<lambda>l r. compare_text (qi_titleId l) (qi_titleId r)) (qf_items x) =
      js_sort (\<lambda>l r. compare_text (qi_titleId l) (qi_titleId r)) (qf_items y)"
  proof (rule title_order.js_sort_mset_cong [OF assms(2)])
    fix a b
    assume "a \<in> set (qf_items x)" "b \<in> set (qf_items x)"
      and "compare_text (qi_titleId a) (qi_titleId b) \<le> 0" "compare_text (qi_titleId b) (qi_titleId a) \<le> 0"
    then show "a = b" using assms(3)
      by (auto simp: compare_text_le_iff distinct_map dest: inj_onD [where f = qi_titleId])
  qed
  then show ?thesis
    using assms(1) assms(4-7) [THEN sorted_ids_cong]
    by (simp add: createQuoteFingerprint_def canonical_fingerprint_def)
qed

end
