(* ===== verification/Quote.thy ===== *)
theory Quote
  imports ShopTables Fingerprint
begin

text \<open>
  \<^verbatim>\<open>commerce/quote.ts\<close>: the authoritative quote of a cart. The queries are written out on the
  tables; the advisory locks of \<^verbatim>\<open>lockAndQuoteCart\<close> make the transaction that quotes atomic and have
  no counterpart here. A title that joins no revision or no published presentation has the columns of
  the join missing.
\<close>

section \<open>Dates\<close>

text \<open>\<^verbatim>\<open>Date.prototype.toISOString\<close>, through the civil date of a day number.\<close>

definition civil_date :: "int \<Rightarrow> int \<times> int \<times> int" where
  "civil_date day =
     (let z = day + 719468; era = z div 146097; doe = z mod 146097;
          yoe = (doe - doe div 1460 + doe div 36524 - doe div 146096) div 365;
          doy = doe - (365 * yoe + yoe div 4 - yoe div 100);
          mp = (5 * doy + 2) div 153;
          d = doy - (153 * mp + 2) div 5 + 1;
          m = (if mp < 10 then mp + 3 else mp - 9)
      in (yoe + era * 400 + (if m \<le> 2 then 1 else 0), m, d))"

definition pad_digits :: "nat \<Rightarrow> int \<Rightarrow> string" where
  "pad_digits width n = (let s = decimal (nat n) in replicate (width - length s) (CHR ''0'') @ s)"

definition iso_year :: "int \<Rightarrow> string" where
  "iso_year y = (if 0 \<le> y \<and> y \<le> 9999 then pad_digits 4 y
     else (if y < 0 then CHR ''-'' else CHR ''+'') # pad_digits 6 \<bar>y\<bar>)"

definition toISOString :: "int \<Rightarrow> string" where
  "toISOString ms =
     (let (y, m, d) = civil_date (ms div 86400000); t = ms mod 86400000 in
      iso_year y @ ''-'' @ pad_digits 2 m @ ''-'' @ pad_digits 2 d @ ''T'' @
      pad_digits 2 (t div 3600000) @ '':'' @ pad_digits 2 (t div 60000 mod 60) @ '':'' @
      pad_digits 2 (t div 1000 mod 60) @ ''.'' @ pad_digits 3 (t mod 1000) @ ''Z'')"

lemma iso_samples:
  "toISOString 0 = ''1970-01-01T00:00:00.000Z''"
  "toISOString 1786320000123 = ''2026-08-10T00:00:00.123Z''"
  "toISOString (- 1) = ''1969-12-31T23:59:59.999Z''"
  "toISOString 951782400000 = ''2000-02-29T00:00:00.000Z''"
  by code_simp+

section \<open>Quotes\<close>

record quote_item =
  qt_titleId :: string
  qt_slug :: string
  qt_title :: string
  qt_creatorName :: string
  qt_format :: publication_format
  qt_coverUrl :: "string option"
  qt_unitSubtotalMinor :: int
  qt_currency :: string

record commerce_quote =
  qu_fingerprint :: string
  qu_currency :: "string option"
  qu_subtotalMinor :: int
  qu_items :: "quote_item list"
  qu_alreadyOwnedTitleIds :: "string list"
  qu_claimableTitleIds :: "string list"
  qu_reservedTitleIds :: "string list"
  qu_unavailableTitleIds :: "string list"
  qu_canCheckout :: bool

datatype shop_error =
    Shop_permanent | Shop_conflict conflict_code | Invalid_cart | Cart_changed commerce_quote
  | Checkout_rate_limited int | Provider_retryable | Unexpected_error

type_synonym 'a shop_result = "shop_error + 'a"

definition MAX_CART_TITLES :: nat where "MAX_CART_TITLES = 25"

definition CHECKOUT_PROVIDER_CALL_WINDOW_SECONDS :: int where
  "CHECKOUT_PROVIDER_CALL_WINDOW_SECONDS = 30"

definition checkoutProviderStartDeadline :: "int \<Rightarrow> int" where
  "checkoutProviderStartDeadline createdAt =
     (createdAt div 1000 + CHECKOUT_PROVIDER_CALL_WINDOW_SECONDS) * 1000"

text \<open>\<^verbatim>\<open>canonicalUuidSchema\<close> lowers the identifiers it accepts.\<close>

definition cart_titles :: "library_checks \<Rightarrow> string list \<Rightarrow> string list option" where
  "cart_titles lib titleIds =
     (if 1 \<le> length titleIds \<and> length titleIds \<le> MAX_CART_TITLES \<and> list_all (lc_uuid lib) titleIds
      then Some (map js_lower titleIds) else None)"

definition validatedTitleIds :: "library_checks \<Rightarrow> string list \<Rightarrow> string list shop_result" where
  "validatedTitleIds lib titleIds =
     (case cart_titles lib titleIds of
        None \<Rightarrow> Inl Invalid_cart
      | Some parsed \<Rightarrow> if distinct parsed then Inr (js_sort compare_text parsed) else Inl Invalid_cart)"

definition actorUserId :: "actor \<Rightarrow> string option" where
  "actorUserId actor = (case actor of User u _ \<Rightarrow> Some u | _ \<Rightarrow> None)"

section \<open>The queries\<close>

text \<open>A title with the revision and the published presentation the left joins find.\<close>

type_synonym quote_row = "shop_title_row \<times> revision_row option \<times> presentation_row option"

definition left_join :: "'b list \<Rightarrow> 'b option list" where
  "left_join matches = (if matches = [] then [None] else map Some matches)"

definition title_join :: "shop_db \<Rightarrow> shop_title_row \<Rightarrow> quote_row list" where
  "title_join db t =
     concat (map (\<lambda>r. map (\<lambda>p. (t, r, p))
         (case r of
            None \<Rightarrow> [None]
          | Some v \<Rightarrow> left_join (filter (\<lambda>p. rp_revisionId p = tr_id v \<and> rp_state p = Published_settings)
              (sh_presentations db))))
       (left_join (filter (\<lambda>r. Some (tr_id r) = ti_activeRevisionId t \<and> tr_titleId r = ti_id t)
         (sh_revisions db))))"

definition quote_rows :: "shop_db \<Rightarrow> string list \<Rightarrow> quote_row list" where
  "quote_rows db requestedTitleIds =
     concat (map (title_join db) (filter (\<lambda>t. List.member requestedTitleIds (ti_id t)) (sh_titles db)))"

fun eligible_row :: "quote_row \<Rightarrow> bool" where
  "eligible_row (t, Some r, Some p) \<longleftrightarrow>
     ti_visibility t = Public_title \<and> 0 < ti_priceMinor t \<and> ti_activeRevisionId t = Some (tr_id r) \<and>
     tr_state r = Active_revision \<and> rp_state p = Published_settings"
| "eligible_row _ \<longleftrightarrow> False"

definition row_titleId :: "quote_row \<Rightarrow> string" where
  "row_titleId row = ti_id (fst row)"

definition owned_titles :: "shop_db \<Rightarrow> string \<Rightarrow> string list \<Rightarrow> string list" where
  "owned_titles db userId titleIds =
     map en_titleId (filter (\<lambda>e. en_userId e = userId \<and> List.member titleIds (en_titleId e) \<and>
       en_revokedAt e = None) (ad_entitlements (sh_access db)))"

text \<open>Purchases of guests with the verified e-mail address of the account that nobody claimed.\<close>

definition claimable_purchases :: "shop_db \<Rightarrow> string \<Rightarrow> string list \<Rightarrow> (string \<times> grant_state) list" where
  "claimable_purchases db email titleIds =
     [(oi_titleId i, eg_state g).
        i \<leftarrow> sh_items db, List.member titleIds (oi_titleId i),
        r \<leftarrow> sh_orders db, or_id r = si_orderId i \<and> or_status r = Order_paid \<and>
          or_purchaseEmail r = Some email \<and> or_initiatingUserId r = None,
        k \<leftarrow> sh_guests db, Some (gi_id k) = or_guestIdentityId r \<and> gi_claimedByUserId k = None,
        g \<leftarrow> ad_grants (sh_access db), eg_orderItemId g = Some (oi_id i) \<and>
          (eg_state g = Unclaimed \<or> eg_state g = Suspended)]"

definition suspended_purchases :: "shop_db \<Rightarrow> string \<Rightarrow> string list \<Rightarrow> string list" where
  "suspended_purchases db userId titleIds =
     map eg_titleId (filter (\<lambda>g. eg_userId g = Some userId \<and> eg_source g = Purchase \<and>
       eg_state g = Suspended \<and> List.member titleIds (eg_titleId g)) (ad_grants (sh_access db)))"

definition unsettled :: "order_status \<Rightarrow> bool" where
  "unsettled s \<longleftrightarrow> s = Checkout_pending \<or> s = Checkout_open \<or> s = Order_payment_pending \<or>
     s = Order_failed \<or> s = Order_exception"

definition held_items :: "shop_db \<Rightarrow> string \<Rightarrow> string list \<Rightarrow> (string \<times> order_row) list" where
  "held_items db userId titleIds =
     [(oi_titleId i, r).
        i \<leftarrow> sh_items db, List.member titleIds (oi_titleId i),
        r \<leftarrow> sh_orders db, or_id r = si_orderId i \<and> or_initiatingUserId r = Some userId \<and>
          unsettled (or_status r)]"

definition resumable_self_attempt :: "string option \<Rightarrow> int \<Rightarrow> order_row \<Rightarrow> bool" where
  "resumable_self_attempt checkoutAttemptId now r \<longleftrightarrow>
     checkoutAttemptId = Some (or_clientCheckoutAttemptId r) \<and>
     (or_status r = Checkout_pending \<or> or_status r = Checkout_open) \<and>
     now \<le> checkoutProviderStartDeadline (or_createdAt r)"

section \<open>Building a quote\<close>

record title_holds =
  th_owned :: "string list"
  th_claimable :: "string list"
  th_reserved :: "string list"

definition no_holds :: title_holds where
  "no_holds = \<lparr>th_owned = [], th_claimable = [], th_reserved = []\<rparr>"

text \<open>A \<^verbatim>\<open>Set\<close>: every element once, in the order of insertion.\<close>

definition js_set :: "'a list \<Rightarrow> 'a list" where
  "js_set xs = rev (remdups (rev xs))"

definition title_holds_of ::
    "shop_db \<Rightarrow> string option \<Rightarrow> string list \<Rightarrow> string option \<Rightarrow> int \<Rightarrow> title_holds" where
  "title_holds_of db user eligibleTitleIds checkoutAttemptId now =
     (case user of
        None \<Rightarrow> no_holds
      | Some userId \<Rightarrow>
          if userId = [] \<or> eligibleTitleIds = [] then no_holds
          else
            let owned = js_set (owned_titles db userId eligibleTitleIds);
                purchases = (case find (\<lambda>a. us_id a = userId) (sh_accounts db) of
                    None \<Rightarrow> []
                  | Some account \<Rightarrow> if us_emailVerified account
                      then claimable_purchases db (us_email account) eligibleTitleIds else []);
                unclaimed = js_set (map fst (filter (\<lambda>(_, state). state = Unclaimed) purchases));
                reserved = js_set (map fst (filter (\<lambda>(_, state). state \<noteq> Unclaimed) purchases) @
                  suspended_purchases db userId eligibleTitleIds @
                  map fst (filter (\<lambda>(_, r). \<not> resumable_self_attempt checkoutAttemptId now r)
                    (held_items db userId eligibleTitleIds)));
                claimable = filter (\<lambda>t. \<not> List.member owned t) unclaimed
            in \<lparr>th_owned = owned, th_claimable = claimable,
                th_reserved = filter (\<lambda>t. \<not> List.member owned t \<and> \<not> List.member claimable t) reserved\<rparr>)"

definition truthy_text :: "string option \<Rightarrow> bool" where
  "truthy_text s \<longleftrightarrow> s \<noteq> None \<and> s \<noteq> Some []"

definition truthy_number :: "int option \<Rightarrow> bool" where
  "truthy_number n \<longleftrightarrow> n \<noteq> None \<and> n \<noteq> Some 0"

definition quote_item_of :: "quote_row \<Rightarrow> quote_item" where
  "quote_item_of row =
     (let t = fst row in
      \<lparr>qt_titleId = ti_id t, qt_slug = st_slug t, qt_title = st_title t,
       qt_creatorName = st_creatorName t, qt_format = ti_format t,
       qt_coverUrl = (if truthy_text (st_coverChecksumSha256 t) \<and> truthy_text (st_coverMediaType t) \<and>
           truthy_number (st_coverByteSize t) \<and> truthy_number (st_coverWidth t) \<and>
           truthy_number (st_coverHeight t)
         then Some (''/media/covers/'' @ ti_id t @ ''/'' @ the (st_coverChecksumSha256 t)) else None),
       qt_unitSubtotalMinor = ti_priceMinor t, qt_currency = ti_currency t\<rparr>)"

definition fingerprint_item_of :: "quote_row \<Rightarrow> quote_fingerprint_item" where
  "fingerprint_item_of row =
     (let t = fst row in
      \<lparr>qi_titleId = ti_id t, qi_priceMinor = ti_priceMinor t, qi_currency = ti_currency t,
       qi_activeRevisionId = the (ti_activeRevisionId t),
       qi_presentationPublishedAt = toISOString (rp_updatedAt (the (snd (snd row))))\<rparr>)"

definition purchasable_rows ::
    "shop_db \<Rightarrow> string list \<Rightarrow> title_holds \<Rightarrow> quote_row list" where
  "purchasable_rows db requestedTitleIds holds =
     js_sort (\<lambda>l r. compare_text (row_titleId l) (row_titleId r))
       (filter (\<lambda>row. \<not> List.member (th_owned holds) (row_titleId row) \<and>
           \<not> List.member (th_claimable holds) (row_titleId row) \<and>
           \<not> List.member (th_reserved holds) (row_titleId row))
         (filter eligible_row (quote_rows db requestedTitleIds)))"

definition fingerprint_input ::
    "string option \<Rightarrow> quote_row list \<Rightarrow> title_holds \<Rightarrow> string list \<Rightarrow> quote_fingerprint_input" where
  "fingerprint_input user purchasable holds unavailable =
     \<lparr>qf_actorUserId = user, qf_items = map fingerprint_item_of purchasable,
      qf_alreadyOwnedTitleIds = js_sort compare_text (th_owned holds),
      qf_claimableTitleIds = js_sort compare_text (th_claimable holds),
      qf_reservedTitleIds = js_sort compare_text (th_reserved holds),
      qf_unavailableTitleIds = unavailable\<rparr>"

definition buildQuote ::
    "(string \<Rightarrow> string) \<Rightarrow> shop_db \<Rightarrow> actor \<Rightarrow> string list \<Rightarrow> string option \<Rightarrow> int \<Rightarrow>
     commerce_quote shop_result" where
  "buildQuote sha256 db actor requestedTitleIds checkoutAttemptId now =
     (let eligible = filter eligible_row (quote_rows db requestedTitleIds);
          eligibleIds = map row_titleId eligible;
          unavailable = filter (\<lambda>k. \<not> List.member eligibleIds k) requestedTitleIds;
          user = actorUserId actor;
          holds = title_holds_of db user eligibleIds checkoutAttemptId now;
          purchasable = purchasable_rows db requestedTitleIds holds;
          currencies = js_set (map (\<lambda>row. ti_currency (fst row)) purchasable);
          items = map quote_item_of purchasable
      in if 1 < length currencies then Inl Invalid_cart
         else Inr
           \<lparr>qu_fingerprint = createQuoteFingerprint sha256
              (fingerprint_input user purchasable holds unavailable),
            qu_currency = (case currencies of [] \<Rightarrow> None | c # _ \<Rightarrow> Some c),
            qu_subtotalMinor = sum_list (map qt_unitSubtotalMinor items),
            qu_items = items,
            qu_alreadyOwnedTitleIds = js_sort compare_text (th_owned holds),
            qu_claimableTitleIds = js_sort compare_text (th_claimable holds),
            qu_reservedTitleIds = js_sort compare_text (th_reserved holds),
            qu_unavailableTitleIds = unavailable,
            qu_canCheckout = (items \<noteq> [])\<rparr>)"

definition quoteCart ::
    "library_checks \<Rightarrow> (string \<Rightarrow> string) \<Rightarrow> shop_db \<Rightarrow> actor \<Rightarrow> string list \<Rightarrow> string option \<Rightarrow> int \<Rightarrow>
     commerce_quote shop_result" where
  "quoteCart lib sha256 db actor titleIds checkoutAttemptId now =
     rbind (validatedTitleIds lib titleIds) (\<lambda>requestedTitleIds.
       buildQuote sha256 db actor requestedTitleIds checkoutAttemptId now)"

definition lockAndQuoteCart ::
    "library_checks \<Rightarrow> (string \<Rightarrow> string) \<Rightarrow> shop_db \<Rightarrow> actor \<Rightarrow> string list \<Rightarrow> string option \<Rightarrow> int \<Rightarrow>
     commerce_quote shop_result" where
  "lockAndQuoteCart lib sha256 db actor titleIds checkoutAttemptId now =
     rbind (validatedTitleIds lib titleIds) (\<lambda>requestedTitleIds.
       buildQuote sha256 db actor requestedTitleIds checkoutAttemptId now)"

section \<open>What a quote says\<close>

text \<open>The keys the queries rely on: titles, revisions, one published setting for a revision.\<close>

definition quote_tables_ok :: "shop_db \<Rightarrow> bool" where
  "quote_tables_ok db \<longleftrightarrow> distinct (map ti_id (sh_titles db)) \<and> distinct (map tr_id (sh_revisions db)) \<and>
     distinct (map rp_revisionId (filter (\<lambda>p. rp_state p = Published_settings) (sh_presentations db)))"

lemma set_js_set [simp]: "set (js_set xs) = set xs"
  by (simp add: js_set_def)

lemma distinct_js_set [simp]: "distinct (js_set xs)"
  by (simp add: js_set_def)

lemma js_set_Nil_iff [simp]: "js_set xs = [] \<longleftrightarrow> xs = []"
  by (simp add: js_set_def)

lemma filter_unique:
  assumes "distinct (map f xs)" and "\<And>x. x \<in> set xs \<Longrightarrow> P x \<Longrightarrow> f x = k"
  shows "filter P xs = [] \<or> (\<exists>x. filter P xs = [x])"
proof (cases "filter P xs")
  case (Cons x ys)
  have "set (filter P xs) \<subseteq> set xs" by simp
  have d: "distinct (map f (filter P xs))" using assms(1) by (rule distinct_map_filter)
  show ?thesis
  proof (cases ys)
    case (Cons y zs)
    with \<open>filter P xs = x # ys\<close> have "x \<in> set (filter P xs)" "y \<in> set (filter P xs)" "f x \<noteq> f y"
      using d by auto
    then show ?thesis using assms(2) by auto
  qed (use Cons in simp)
qed simp

lemma left_join_unique:
  assumes "xs = [] \<or> (\<exists>x. xs = [x])"
  shows "\<exists>m. left_join xs = [m] \<and> (m = None \<or> (\<exists>x \<in> set xs. m = Some x))"
  using assms by (auto simp: left_join_def)

lemma title_join_single:
  assumes "quote_tables_ok db"
  shows "\<exists>r p. title_join db t = [(t, r, p)]"
proof -
  let ?rs = "filter (\<lambda>r. Some (tr_id r) = ti_activeRevisionId t \<and> tr_titleId r = ti_id t) (sh_revisions db)"
  have "?rs = [] \<or> (\<exists>r. ?rs = [r])"
    by (rule filter_unique [where f = tr_id and k = "the (ti_activeRevisionId t)"])
      (use assms in \<open>auto simp: quote_tables_ok_def dest: sym\<close>)
  then obtain r where r: "left_join ?rs = [r]" using left_join_unique by blast
  have "\<exists>p. left_join (filter (\<lambda>p. rp_revisionId p = tr_id v \<and> rp_state p = Published_settings)
      (sh_presentations db)) = [p]" for v :: revision_row
  proof -
    let ?ps = "filter (\<lambda>p. rp_revisionId p = tr_id v) (filter (\<lambda>p. rp_state p = Published_settings)
      (sh_presentations db))"
    have "?ps = [] \<or> (\<exists>p. ?ps = [p])"
      by (rule filter_unique [where f = rp_revisionId and k = "tr_id v"])
        (use assms in \<open>auto simp: quote_tables_ok_def\<close>)
    then show ?thesis using left_join_unique by (simp add: conj_commute) blast
  qed
  then obtain p where "left_join (filter (\<lambda>p. rp_revisionId p = tr_id v \<and> rp_state p = Published_settings)
      (sh_presentations db)) = [p v]" for v :: revision_row by metis
  then show ?thesis using r by (cases r) (simp_all add: title_join_def)
qed

lemma quote_rows_titles:
  assumes "quote_tables_ok db"
  shows "map row_titleId (quote_rows db ids) =
    filter (List.member ids) (map ti_id (sh_titles db))"
proof -
  have "map row_titleId (concat (map (title_join db) ts)) = map ti_id ts" for ts
  proof (induction ts)
    case (Cons t ts)
    from title_join_single [OF assms] obtain r p where "title_join db t = [(t, r, p)]" by blast
    with Cons show ?case by (simp add: row_titleId_def)
  qed simp
  then show ?thesis by (simp add: quote_rows_def filter_map comp_def)
qed

lemma quote_rows_distinct:
  "quote_tables_ok db \<Longrightarrow> distinct (map row_titleId (quote_rows db ids))"
  by (simp add: quote_rows_titles) (simp add: quote_tables_ok_def)

lemma queries_within:
  "set (owned_titles db u ids) \<subseteq> set ids" "fst ` set (claimable_purchases db email ids) \<subseteq> set ids"
  "set (suspended_purchases db u ids) \<subseteq> set ids" "fst ` set (held_items db u ids) \<subseteq> set ids"
  by (auto simp: owned_titles_def claimable_purchases_def suspended_purchases_def held_items_def)

lemma title_holds_form:
  obtains "title_holds_of db user ids attempt now = no_holds"
  | owned unclaimed reserved where "set owned \<subseteq> set ids" "set unclaimed \<subseteq> set ids" "set reserved \<subseteq> set ids"
    "title_holds_of db user ids attempt now = \<lparr>th_owned = js_set owned,
       th_claimable = filter (\<lambda>t. t \<notin> set owned) (js_set unclaimed),
       th_reserved = filter (\<lambda>t. t \<notin> set owned \<and> \<not> (t \<in> set unclaimed \<and> t \<notin> set owned)) (js_set reserved)\<rparr>"
proof (cases user)
  case None
  then show thesis using that(1) by (simp add: title_holds_of_def)
next
  case (Some u)
  show thesis
  proof (cases "u = [] \<or> ids = []")
    case True
    then show thesis using that(1) Some by (simp add: title_holds_of_def)
  next
    case False
    define ps where "ps = (case find (\<lambda>a. us_id a = u) (sh_accounts db) of None \<Rightarrow> []
      | Some account \<Rightarrow> if us_emailVerified account then claimable_purchases db (us_email account) ids else [])"
    have ps: "fst ` set ps \<subseteq> set ids" unfolding ps_def
      using queries_within(2) [of db _ ids] by (cases "find (\<lambda>a. us_id a = u) (sh_accounts db)") (simp_all, fastforce)
    let ?un = "map fst (filter (\<lambda>(_, state). state = Unclaimed) ps)"
    let ?re = "map fst (filter (\<lambda>(_, state). state \<noteq> Unclaimed) ps) @ suspended_purchases db u ids @
      map fst (filter (\<lambda>(_, r). \<not> resumable_self_attempt attempt now r) (held_items db u ids))"
    have un: "set ?un \<subseteq> set ids" using ps by auto
    have "fst ` set (filter Q (held_items db u ids)) \<subseteq> set ids" for Q using queries_within(4) by fastforce
    then have re: "set ?re \<subseteq> set ids" using ps queries_within(3) [of db u ids] by auto
    show thesis
      by (rule that(2) [OF queries_within(1) un re])
        (use False Some in \<open>simp add: title_holds_of_def ps_def [symmetric] Let_def\<close>)
  qed
qed

lemma title_holds_within:
  fixes db user ids attempt now
  defines "h \<equiv> title_holds_of db user ids attempt now"
  shows "set (th_owned h) \<subseteq> set ids" and "set (th_claimable h) \<subseteq> set ids - set (th_owned h)"
    and "set (th_reserved h) \<subseteq> set ids - set (th_owned h) - set (th_claimable h)"
    and "distinct (th_owned h)" and "distinct (th_claimable h)" and "distinct (th_reserved h)"
proof -
  have "set (th_owned h) \<subseteq> set ids \<and> set (th_claimable h) \<subseteq> set ids - set (th_owned h) \<and>
    set (th_reserved h) \<subseteq> set ids - set (th_owned h) - set (th_claimable h) \<and>
    distinct (th_owned h) \<and> distinct (th_claimable h) \<and> distinct (th_reserved h)"
    by (rule title_holds_form [of db user ids attempt now]) (auto simp: h_def no_holds_def)
  then show "set (th_owned h) \<subseteq> set ids" "set (th_claimable h) \<subseteq> set ids - set (th_owned h)"
    "set (th_reserved h) \<subseteq> set ids - set (th_owned h) - set (th_claimable h)"
    "distinct (th_owned h)" "distinct (th_claimable h)" "distinct (th_reserved h)" by blast+
qed

lemma buildQuote_Inr:
  assumes "buildQuote sha256 db actor ids attempt now = Inr q"
  obtains eligible holds purchasable where
    "eligible = filter eligible_row (quote_rows db ids)"
    "holds = title_holds_of db (actorUserId actor) (map row_titleId eligible) attempt now"
    "purchasable = purchasable_rows db ids holds"
    "length (js_set (map (\<lambda>row. ti_currency (fst row)) purchasable)) \<le> 1"
    "qu_items q = map quote_item_of purchasable"
    "qu_currency q = (case js_set (map (\<lambda>row. ti_currency (fst row)) purchasable) of [] \<Rightarrow> None | c # _ \<Rightarrow> Some c)"
    "qu_alreadyOwnedTitleIds q = js_sort compare_text (th_owned holds)"
    "qu_claimableTitleIds q = js_sort compare_text (th_claimable holds)"
    "qu_reservedTitleIds q = js_sort compare_text (th_reserved holds)"
    "qu_unavailableTitleIds q = filter (\<lambda>k. k \<notin> row_titleId ` set eligible) ids"
    "qu_fingerprint q = createQuoteFingerprint sha256 (fingerprint_input (actorUserId actor) purchasable holds
      (filter (\<lambda>k. k \<notin> row_titleId ` set eligible) ids))"
    "qu_subtotalMinor q = sum_list (map qt_unitSubtotalMinor (qu_items q))"
    "qu_canCheckout q \<longleftrightarrow> qu_items q \<noteq> []"
proof -
  show thesis
    by (rule that [OF refl refl refl])
      (use assms in \<open>auto simp: buildQuote_def Let_def split: if_splits\<close>)
qed

lemma validated_titles_Inr:
  "validatedTitleIds lib titleIds = Inr ids \<Longrightarrow>
    distinct ids \<and> mset ids = mset (map js_lower titleIds) \<and> ids = sort (map js_lower titleIds) \<and>
    1 \<le> length titleIds \<and> length titleIds \<le> MAX_CART_TITLES"
  by (auto simp: validatedTitleIds_def cart_titles_def js_sort_compare_text split: if_splits)

lemma purchasable_set:
  "set (purchasable_rows db ids holds) = {row \<in> set (quote_rows db ids). eligible_row row \<and>
     row_titleId row \<notin> set (th_owned holds) \<and> row_titleId row \<notin> set (th_claimable holds) \<and>
     row_titleId row \<notin> set (th_reserved holds)}"
  by (auto simp: purchasable_rows_def)

lemma quote_item_title: "qt_titleId (quote_item_of row) = row_titleId row"
  by (simp add: quote_item_of_def row_titleId_def Let_def)

lemma purchasable_distinct:
  assumes "quote_tables_ok db"
  shows "distinct (map row_titleId (purchasable_rows db ids holds))"
  using quote_rows_distinct [OF assms, of ids]
  by (simp add: purchasable_rows_def distinct_map_filter)

lemma build_quote_partition:
  assumes ok: "quote_tables_ok db" and ids: "distinct ids"
    and q: "buildQuote sha256 db actor ids attempt now = Inr q"
  shows "mset (map qt_titleId (qu_items q) @ qu_alreadyOwnedTitleIds q @ qu_claimableTitleIds q @
    qu_reservedTitleIds q @ qu_unavailableTitleIds q) = mset ids"
proof (rule buildQuote_Inr [OF q])
  fix eligible holds purchasable
  assume e: "eligible = filter eligible_row (quote_rows db ids)"
    and h: "holds = title_holds_of db (actorUserId actor) (map row_titleId eligible) attempt now"
    and p: "purchasable = purchasable_rows db ids holds"
    and items: "qu_items q = map quote_item_of purchasable"
    and rest: "qu_alreadyOwnedTitleIds q = js_sort compare_text (th_owned holds)"
      "qu_claimableTitleIds q = js_sort compare_text (th_claimable holds)"
      "qu_reservedTitleIds q = js_sort compare_text (th_reserved holds)"
      "qu_unavailableTitleIds q = filter (\<lambda>k. k \<notin> row_titleId ` set eligible) ids"
  have within: "row_titleId ` set eligible \<subseteq> set ids"
  proof -
    have "row_titleId ` set (quote_rows db ids) \<subseteq> set ids"
      using arg_cong [OF quote_rows_titles [OF ok, of ids], of set] by auto
    then show ?thesis using e by auto
  qed
  note h' = title_holds_within [of db "actorUserId actor" "map row_titleId eligible" attempt now, folded h]
  have P: "row_titleId ` set purchasable = row_titleId ` set eligible - set (th_owned holds) -
      set (th_claimable holds) - set (th_reserved holds)"
    unfolding p purchasable_set e by auto
  have dP: "distinct (map row_titleId purchasable)" unfolding p by (rule purchasable_distinct [OF ok])
  let ?all = "map row_titleId purchasable @ th_owned holds @ th_claimable holds @ th_reserved holds @
    filter (\<lambda>k. k \<notin> row_titleId ` set eligible) ids"
  have "distinct ?all" using dP P h' ids by auto
  moreover have "set ?all = set ids" using P h' within by auto
  ultimately have "mset ?all = mset ids" using ids set_eq_iff_mset_eq_distinct by blast
  then show ?thesis by (simp add: items rest comp_def quote_item_title)
qed

lemma quote_item_title_row:
  assumes q: "buildQuote sha256 db actor ids attempt now = Inr q" and item: "item \<in> set (qu_items q)"
  obtains t r p where "t \<in> set (sh_titles db)" "r \<in> set (sh_revisions db)" "p \<in> set (sh_presentations db)"
    "ti_id t \<in> set ids" "ti_visibility t = Public_title" "0 < ti_priceMinor t"
    "ti_activeRevisionId t = Some (tr_id r)" "tr_titleId r = ti_id t" "tr_state r = Active_revision"
    "rp_revisionId p = tr_id r" "rp_state p = Published_settings"
    "qt_titleId item = ti_id t" "qt_title item = st_title t" "qt_creatorName item = st_creatorName t"
    "qt_format item = ti_format t" "qt_unitSubtotalMinor item = ti_priceMinor t" "qt_currency item = ti_currency t"
proof (rule buildQuote_Inr [OF q])
  fix holds purchasable
  assume "purchasable = purchasable_rows db ids holds" "qu_items q = map quote_item_of purchasable"
  with item obtain row where row: "item = quote_item_of row" "row \<in> set (quote_rows db ids)" "eligible_row row"
    by (auto simp: purchasable_set)
  obtain t m n where tmn: "row = (t, m, n)" by (cases row)
  with row(3) obtain r p where "m = Some r" "n = Some p" by (cases m; cases n) auto
  with row tmn have "t \<in> set (sh_titles db)" "ti_id t \<in> set ids" "(t, Some r, Some p) \<in> set (title_join db t)"
    "eligible_row (t, Some r, Some p)" "item = quote_item_of (t, Some r, Some p)"
    by (auto simp: quote_rows_def title_join_def)
  moreover then have "r \<in> set (sh_revisions db)" "tr_titleId r = ti_id t" "p \<in> set (sh_presentations db)"
    "rp_revisionId p = tr_id r"
    by (auto simp: title_join_def left_join_def split: if_splits option.splits)
  ultimately show thesis by (intro that [of t r p]) (auto simp: quote_item_of_def Let_def)
qed

lemma single_currency:
  assumes "length (js_set cs) \<le> 1" and "c \<in> set cs"
  shows "js_set cs = [c]"
proof (cases "js_set cs")
  case (Cons d ds)
  then show ?thesis using assms set_js_set [of cs] by auto
qed (use assms in auto)

lemma quote_currency:
  assumes q: "buildQuote sha256 db actor ids attempt now = Inr q" and item: "item \<in> set (qu_items q)"
  shows "qu_currency q = Some (qt_currency item)"
proof (rule buildQuote_Inr [OF q])
  fix purchasable :: "quote_row list"
  let ?cs = "map (\<lambda>row. ti_currency (fst row)) purchasable"
  assume one: "length (js_set ?cs) \<le> 1" and items: "qu_items q = map quote_item_of purchasable"
    and cur: "qu_currency q = (case js_set ?cs of [] \<Rightarrow> None | c # _ \<Rightarrow> Some c)"
  have "qt_currency (quote_item_of row) = ti_currency (fst row)" for row
    by (simp add: quote_item_of_def Let_def)
  with item items have "qt_currency item \<in> set ?cs" by auto
  then show ?thesis using single_currency [OF one] cur by simp
qed

text \<open>
  A title a signed-in reader already has, could claim, or has an unsettled order for is not offered,
  except to continue that very order while it can be.
\<close>

lemma quote_item_not_held:
  assumes q: "buildQuote sha256 db (User u roles) ids attempt now = Inr q" and u: "u \<noteq> []"
    and item: "item \<in> set (qu_items q)"
    and i: "i \<in> set (sh_items db)" "oi_titleId i = qt_titleId item"
    and r: "r \<in> set (sh_orders db)" "or_id r = si_orderId i" "or_initiatingUserId r = Some u"
      "unsettled (or_status r)"
  shows "resumable_self_attempt attempt now r"
proof (rule ccontr)
  assume no: "\<not> resumable_self_attempt attempt now r"
  show False
  proof (rule buildQuote_Inr [OF q])
    fix eligible holds purchasable
    assume e: "eligible = filter eligible_row (quote_rows db ids)"
      and h: "holds = title_holds_of db (actorUserId (User u roles)) (map row_titleId eligible) attempt now"
      and p: "purchasable = purchasable_rows db ids holds"
      and items: "qu_items q = map quote_item_of purchasable"
    from item items obtain row where row: "row \<in> set eligible" "row_titleId row = qt_titleId item"
      "qt_titleId item \<notin> set (th_owned holds)" "qt_titleId item \<notin> set (th_claimable holds)"
      "qt_titleId item \<notin> set (th_reserved holds)"
      by (auto simp: purchasable_set e p quote_item_title)
    have "(qt_titleId item, r) \<in> set (held_items db u (map row_titleId eligible))"
      using i r row(1,2) unfolding held_items_def by (auto intro!: bexI [of _ i] rev_image_eqI)
    then have "qt_titleId item \<in> fst ` {(t, r) \<in> set (held_items db u (map row_titleId eligible)).
        \<not> resumable_self_attempt attempt now r}"
      using no by force
    moreover have "eligible \<noteq> []" using row(1) by auto
    ultimately have "qt_titleId item \<in> set (th_owned holds) \<union> set (th_claimable holds) \<union> set (th_reserved holds)"
      unfolding h using u by (auto simp: title_holds_of_def actorUserId_def Let_def)
    with row show False by auto
  qed
qed

text \<open>Quotes with the same fingerprint have the same terms.\<close>

lemma js_sort_sorted: "sorted_wrt (\<lambda>x y. cmp x y \<le> 0) xs \<Longrightarrow> js_sort cmp xs = xs"
proof (induction xs)
  case (Cons x xs)
  then show ?case by (cases xs) auto
qed simp

definition item_terms :: "quote_item \<Rightarrow> string \<times> int \<times> string" where
  "item_terms item = (qt_titleId item, qt_unitSubtotalMinor item, qt_currency item)"

lemma fingerprint_terms: "(\<lambda>i. (qi_titleId i, qi_priceMinor i, qi_currency i)) (fingerprint_item_of row) =
    item_terms (quote_item_of row)"
  by (simp add: fingerprint_item_of_def item_terms_def quote_item_of_def Let_def)

interpretation row_order: js_comparator "\<lambda>l r. compare_text (row_titleId l) (row_titleId r)"
  by unfold_locales (auto simp: compare_text_le_iff)

text \<open>The document the fingerprint of a quote is taken of.\<close>

definition quoted_document ::
    "shop_db \<Rightarrow> actor \<Rightarrow> string list \<Rightarrow> string option \<Rightarrow> int \<Rightarrow> quote_fingerprint_input" where
  "quoted_document db actor ids attempt now =
     (let eligible = filter eligible_row (quote_rows db ids);
          eligibleIds = map row_titleId eligible;
          holds = title_holds_of db (actorUserId actor) eligibleIds attempt now
      in canonical_fingerprint (fingerprint_input (actorUserId actor) (purchasable_rows db ids holds) holds
           (filter (\<lambda>k. k \<notin> row_titleId ` set eligible) ids)))"

lemma canonical_of_quote:
  assumes q: "buildQuote sha256 db actor ids attempt now = Inr q" and ids: "sorted ids"
  defines "d \<equiv> quoted_document db actor ids attempt now"
  shows "qu_fingerprint q = sha256 (fingerprint_json d)" and "qf_actorUserId d = actorUserId actor"
    and "map (\<lambda>i. (qi_titleId i, qi_priceMinor i, qi_currency i)) (qf_items d) = map item_terms (qu_items q)"
    and "qf_alreadyOwnedTitleIds d = qu_alreadyOwnedTitleIds q"
    and "qf_claimableTitleIds d = qu_claimableTitleIds q"
    and "qf_reservedTitleIds d = qu_reservedTitleIds q"
    and "qf_unavailableTitleIds d = qu_unavailableTitleIds q"
proof -
  have "qu_fingerprint q = sha256 (fingerprint_json d) \<and> qf_actorUserId d = actorUserId actor \<and>
    map (\<lambda>i. (qi_titleId i, qi_priceMinor i, qi_currency i)) (qf_items d) = map item_terms (qu_items q) \<and>
    qf_alreadyOwnedTitleIds d = qu_alreadyOwnedTitleIds q \<and> qf_claimableTitleIds d = qu_claimableTitleIds q \<and>
    qf_reservedTitleIds d = qu_reservedTitleIds q \<and> qf_unavailableTitleIds d = qu_unavailableTitleIds q"
  proof (rule buildQuote_Inr [OF q])
    fix eligible holds purchasable
    let ?un = "filter (\<lambda>k. k \<notin> row_titleId ` set eligible) ids"
    let ?input = "fingerprint_input (actorUserId actor) purchasable holds ?un"
    assume e: "eligible = filter eligible_row (quote_rows db ids)"
      and h: "holds = title_holds_of db (actorUserId actor) (map row_titleId eligible) attempt now"
      and p: "purchasable = purchasable_rows db ids holds"
      and items: "qu_items q = map quote_item_of purchasable"
      and rest: "qu_alreadyOwnedTitleIds q = js_sort compare_text (th_owned holds)"
        "qu_claimableTitleIds q = js_sort compare_text (th_claimable holds)"
        "qu_reservedTitleIds q = js_sort compare_text (th_reserved holds)"
        "qu_unavailableTitleIds q = ?un"
      and fp: "qu_fingerprint q = createQuoteFingerprint sha256 ?input"
    have d: "d = canonical_fingerprint ?input"
      unfolding d_def quoted_document_def Let_def e [symmetric] h [symmetric] p [symmetric] ..
    have twice: "js_sort compare_text (js_sort compare_text xs) = js_sort compare_text xs" for xs
      by (rule js_sort_sorted) (rule text_order.sorted_js_sort)
    have un: "js_sort compare_text ?un = ?un"
      using ids by (simp add: js_sort_compare_text sorted_sort_id sorted_wrt_filter)
    let ?cmp = "\<lambda>l r :: quote_row. compare_text (row_titleId l) (row_titleId r)"
    have "sorted_wrt (\<lambda>l r. ?cmp l r \<le> 0) purchasable"
      unfolding p purchasable_rows_def by (rule row_order.sorted_js_sort)
    then have "sorted_wrt (\<lambda>l r. compare_text (qi_titleId l) (qi_titleId r) \<le> 0) (map fingerprint_item_of purchasable)"
      by (simp add: sorted_wrt_map fingerprint_item_of_def row_titleId_def Let_def)
    then have "js_sort (\<lambda>l r. compare_text (qi_titleId l) (qi_titleId r)) (map fingerprint_item_of purchasable) =
        map fingerprint_item_of purchasable"
      by (rule js_sort_sorted)
    then show ?thesis
      unfolding fp d
      by (simp add: canonical_fingerprint_def fingerprint_input_def twice un rest items comp_def fingerprint_terms
          createQuoteFingerprint_def)
  qed
  then show "qu_fingerprint q = sha256 (fingerprint_json d)" "qf_actorUserId d = actorUserId actor"
    "map (\<lambda>i. (qi_titleId i, qi_priceMinor i, qi_currency i)) (qf_items d) = map item_terms (qu_items q)"
    "qf_alreadyOwnedTitleIds d = qu_alreadyOwnedTitleIds q" "qf_claimableTitleIds d = qu_claimableTitleIds q"
    "qf_reservedTitleIds d = qu_reservedTitleIds q" "qf_unavailableTitleIds d = qu_unavailableTitleIds q"
    by blast+
qed

lemma validated_sorted: "validatedTitleIds lib titleIds = Inr ids \<Longrightarrow> sorted ids"
  using validated_titles_Inr [of lib titleIds ids] by auto

lemma quoteCart_Inr:
  "quoteCart lib sha256 db actor titleIds attempt now = Inr q \<longleftrightarrow>
    (\<exists>ids. validatedTitleIds lib titleIds = Inr ids \<and> buildQuote sha256 db actor ids attempt now = Inr q)"
  by (simp add: quoteCart_def rbind_eq_Inr)

lemma lockAndQuoteCart_eq: "lockAndQuoteCart = quoteCart"
  by (intro ext) (simp add: lockAndQuoteCart_def quoteCart_def)

text \<open>
  Two quotes taken of the same document have the same terms. Nothing is assumed of the hash: when the
  fingerprints agree, the documents either agree or are a collision.
\<close>

lemma same_document_terms:
  assumes q: "buildQuote sha256 db actor ids attempt now = Inr q"
    and q': "buildQuote sha256 db' actor' ids' attempt' now' = Inr q'" and sorted: "sorted ids" "sorted ids'"
    and same: "fingerprint_json (quoted_document db actor ids attempt now) =
      fingerprint_json (quoted_document db' actor' ids' attempt' now')"
  shows "actorUserId actor = actorUserId actor' \<and> map item_terms (qu_items q) = map item_terms (qu_items q') \<and>
    qu_alreadyOwnedTitleIds q = qu_alreadyOwnedTitleIds q' \<and> qu_claimableTitleIds q = qu_claimableTitleIds q' \<and>
    qu_reservedTitleIds q = qu_reservedTitleIds q' \<and> qu_unavailableTitleIds q = qu_unavailableTitleIds q' \<and>
    qu_subtotalMinor q = qu_subtotalMinor q'"
proof -
  have canonical: "\<exists>x. quoted_document db actor ids attempt now = canonical_fingerprint x" for db actor ids attempt now
    by (auto simp: quoted_document_def Let_def)
  have d: "quoted_document db actor ids attempt now = quoted_document db' actor' ids' attempt' now'"
    using canonical [of db actor ids attempt now] canonical [of db' actor' ids' attempt' now'] same
      fingerprint_json_inj by metis
  have sub: "qu_subtotalMinor q = sum_list (map (fst \<circ> snd) (map item_terms (qu_items q)))"
    if "buildQuote sha256 db actor ids attempt now = Inr q" for db actor ids attempt now q
    by (rule buildQuote_Inr [OF that]) (simp add: item_terms_def comp_def)
  show ?thesis
    using canonical_of_quote(2-7) [OF q sorted(1)] canonical_of_quote(2-7) [OF q' sorted(2)]
      sub [OF q] sub [OF q'] unfolding d by simp
qed

section \<open>A sample shop\<close>

definition sample_checks :: library_checks where
  "sample_checks = \<lparr>lc_email = (\<lambda>s. List.member s (CHR ''@'')), lc_uuid = (\<lambda>s. s \<noteq> []), lc_currency = (\<lambda>_. True),
     lc_url = (\<lambda>_. True), lc_provider_url = (\<lambda>_. True), lc_same_origin = (\<lambda>_ _. True)\<rparr>"

definition sample_sha256 :: "string \<Rightarrow> string" where
  "sample_sha256 s = replicate 63 (CHR ''0'') @ [hex_char (length s mod 16)]"

definition cart_sample_title :: "string \<Rightarrow> int \<Rightarrow> title_visibility \<Rightarrow> shop_title_row" where
  "cart_sample_title k price visibility = \<lparr>ti_id = k, ti_format = Prose, ti_visibility = visibility,
     ti_priceMinor = price, ti_currency = ''USD'', ti_activeRevisionId = Some (CHR ''r'' # k), ti_updatedAt = 5,
     st_slug = k, st_title = ''Title '' @ k, st_creatorName = ''Author'', st_coverChecksumSha256 = None,
     st_coverMediaType = None, st_coverByteSize = None, st_coverWidth = None, st_coverHeight = None\<rparr>"

definition cart_sample_revision :: "string \<Rightarrow> revision_row" where
  "cart_sample_revision k = \<lparr>tr_id = CHR ''r'' # k, tr_titleId = k, tr_state = Active_revision, tr_activatedAt = Some 3,
     tr_retiredAt = None\<rparr>"

definition sample_setting :: "string \<Rightarrow> presentation_row" where
  "sample_setting k = \<lparr>rp_id = CHR ''p'' # k, rp_revisionId = CHR ''r'' # k, rp_state = Published_settings,
     rp_readingDirection = Left_to_right, rp_guidedViewEnabled = False, rp_previewProseSectionId = None,
     rp_previewProseBlockId = None, rp_previewComicPageId = None, rp_createdAt = 1, rp_updatedAt = 86400000\<rparr>"

definition empty_access :: access_db where
  "empty_access = \<lparr>ad_grants = [], ad_entitlements = []\<rparr>"

definition cart_sample_shop :: shop_db where
  "cart_sample_shop = \<lparr>sh_titles = [cart_sample_title ''b'' 900 Public_title, cart_sample_title ''a'' 500 Public_title,
       cart_sample_title ''c'' 700 Private_title],
     sh_revisions = map cart_sample_revision [''a'', ''b'', ''c''],
     sh_presentations = map sample_setting [''a'', ''b'', ''c''],
     sh_accounts = [\<lparr>us_id = ''u'', us_email = ''u@x'', us_emailVerified = True\<rparr>],
     sh_guests = [], sh_orders = [], sh_items = [], sh_payments = [], sh_events = [],
     sh_access = empty_access, sh_limits = [], sh_messages = [], sh_handoffs = [], sh_audit = []\<rparr>"

lemma sample_shop_ok: "quote_tables_ok cart_sample_shop"
  by (simp add: quote_tables_ok_def cart_sample_shop_def cart_sample_title_def cart_sample_revision_def sample_setting_def)

lemma sample_quote:
  "map_sum id (\<lambda>q. (map item_terms (qu_items q), qu_currency q, qu_subtotalMinor q, qu_unavailableTitleIds q, qu_canCheckout q))
    (quoteCart sample_checks sample_sha256 cart_sample_shop (User ''u'' [Customer]) [''C'', ''b'', ''a''] None 100) =
   Inr ([(''a'', 500, ''USD''), (''b'', 900, ''USD'')], Some ''USD'', 1400, [''c''], True)"
  by code_simp

text \<open>
  C8. A quote accounts for the whole cart: every title of the cart, its identifier in lower case, is in
  exactly one of the five lists, once. What is offered is a public title with a positive price at
  exactly its current price, all in the one currency of the quote, and the subtotal is their sum.
\<close>

theorem quote_partitions_cart:
  assumes ok: "quote_tables_ok db" and q: "quoteCart lib sha256 db actor titleIds attempt now = Inr q"
  shows "distinct (map js_lower titleIds) \<and>
    mset (map qt_titleId (qu_items q) @ qu_alreadyOwnedTitleIds q @ qu_claimableTitleIds q @
      qu_reservedTitleIds q @ qu_unavailableTitleIds q) = mset (map js_lower titleIds) \<and>
    (\<forall>item \<in> set (qu_items q). qu_currency q = Some (qt_currency item) \<and>
      (\<exists>t \<in> set (sh_titles db). ti_id t = qt_titleId item \<and> ti_visibility t = Public_title \<and>
        0 < ti_priceMinor t \<and> qt_unitSubtotalMinor item = ti_priceMinor t \<and> qt_currency item = ti_currency t)) \<and>
    qu_subtotalMinor q = sum_list (map qt_unitSubtotalMinor (qu_items q)) \<and>
    (qu_canCheckout q \<longleftrightarrow> qu_items q \<noteq> [])"
proof -
  from q obtain ids where ids: "validatedTitleIds lib titleIds = Inr ids"
    and b: "buildQuote sha256 db actor ids attempt now = Inr q" by (auto simp: quoteCart_Inr)
  note v = validated_titles_Inr [OF ids]
  have "qu_subtotalMinor q = sum_list (map qt_unitSubtotalMinor (qu_items q)) \<and> (qu_canCheckout q \<longleftrightarrow> qu_items q \<noteq> [])"
    by (rule buildQuote_Inr [OF b]) blast
  moreover have "qu_currency q = Some (qt_currency item) \<and>
      (\<exists>t \<in> set (sh_titles db). ti_id t = qt_titleId item \<and> ti_visibility t = Public_title \<and>
        0 < ti_priceMinor t \<and> qt_unitSubtotalMinor item = ti_priceMinor t \<and> qt_currency item = ti_currency t)"
    if "item \<in> set (qu_items q)" for item
    using quote_currency [OF b that] by (rule conjI) (rule quote_item_title_row [OF b that], metis)
  moreover have "distinct (map js_lower titleIds)" using v by (metis distinct_sort)
  ultimately show ?thesis using build_quote_partition [OF ok _ b] v by auto
qed

theorem quote_partitions_cart_witness:
  "\<exists>q. quoteCart sample_checks sample_sha256 cart_sample_shop (User ''u'' [Customer]) [''C'', ''b'', ''a''] None 100 = Inr q \<and>
    mset (map qt_titleId (qu_items q) @ qu_alreadyOwnedTitleIds q @ qu_claimableTitleIds q @
      qu_reservedTitleIds q @ qu_unavailableTitleIds q) = mset [''c'', ''b'', ''a'']"
proof -
  obtain q where q: "quoteCart sample_checks sample_sha256 cart_sample_shop (User ''u'' [Customer]) [''C'', ''b'', ''a''] None 100 = Inr q"
    using sample_quote by (cases "quoteCart sample_checks sample_sha256 cart_sample_shop (User ''u'' [Customer]) [''C'', ''b'', ''a''] None 100")
      simp_all
  have "map js_lower [''C'', ''b'', ''a''] = [''c'', ''b'', ''a'']" by code_simp
  then show ?thesis using q quote_partitions_cart [OF sample_shop_ok q] by auto
qed

end
