(* ===== verification/Orders.thy ===== *)
theory Orders
  imports Quote
begin

text \<open>
  \<^verbatim>\<open>commerce/orders.ts\<close> with \<^verbatim>\<open>commerce/status-cookie.ts\<close>: accepting a quoted cart as an
  order, attaching the provider's session to it, and the orchestration of a checkout. A function that
  opens a transaction returns its outcome and the shop after it; a transaction that throws leaves the
  shop as it was, except that an error the customer may see is thrown after the commit. Identifiers
  the database draws, the clock and the provider are arguments.
\<close>

section \<open>Credentials\<close>

text \<open>
  The hashes and the credential Node's \<^verbatim>\<open>crypto\<close> computes: SHA-256 in hexadecimal, HMAC in
  hexadecimal, and the token and digest derived from a secret and a message.
\<close>

record crypto =
  cy_sha256 :: "string \<Rightarrow> string"
  cy_hmac :: "string \<Rightarrow> string \<Rightarrow> string"
  cy_credential :: "string \<Rightarrow> string \<Rightarrow> string \<times> string"

text \<open>The pattern of an RFC 9562 identifier, in either case.\<close>

definition order_id_pattern :: "string \<Rightarrow> bool" where
  "order_id_pattern s \<longleftrightarrow> uuid_text (js_lower s) \<and> CHR ''1'' \<le> s ! 14 \<and> s ! 14 \<le> CHR ''8'' \<and>
     List.member ''89ab'' (js_lower s ! 19)"

definition deriveOrderStatusCredential :: "crypto \<Rightarrow> string \<Rightarrow> string \<Rightarrow> (string \<times> string) shop_result" where
  "deriveOrderStatusCredential cy secret attemptId =
     (if \<not> order_id_pattern attemptId \<or> length secret < 32 then Inl Unexpected_error
      else Inr (cy_credential cy secret (''pale-orbit:commerce:order-status:v1:'' @ attemptId)))"

definition equalSha256 :: "string \<Rightarrow> string \<Rightarrow> bool" where
  "equalSha256 l r \<longleftrightarrow> sha256_hex l \<and> sha256_hex r \<and> l = r"

section \<open>Input\<close>

record accepted_order_input =
  ai_actor :: actor
  ai_titleIds :: "string list"
  ai_quoteFingerprint :: string
  ai_checkoutAttemptId :: string
  ai_requestIp :: string
  ai_applicationSecret :: string
  ai_windowSeconds :: int
  ai_maxAttempts :: int

record validated_order_input =
  vi_titleIds :: "string list"
  vi_quoteFingerprint :: string
  vi_checkoutAttemptId :: string

definition validateInput :: "library_checks \<Rightarrow> accepted_order_input \<Rightarrow> validated_order_input shop_result" where
  "validateInput lib input =
     (case cart_titles lib (ai_titleIds input) of
        None \<Rightarrow> Inl Invalid_cart
      | Some titleIds \<Rightarrow>
          if \<not> sha256_hex (ai_quoteFingerprint input) \<or> \<not> lc_uuid lib (ai_checkoutAttemptId input) \<or>
             \<not> distinct titleIds then Inl Invalid_cart
          else case ai_actor input of
              Anonymous \<Rightarrow> Inr \<lparr>vi_titleIds = js_sort compare_text titleIds,
                vi_quoteFingerprint = ai_quoteFingerprint input,
                vi_checkoutAttemptId = js_lower (ai_checkoutAttemptId input)\<rparr>
            | User _ _ \<Rightarrow> Inr \<lparr>vi_titleIds = js_sort compare_text titleIds,
                vi_quoteFingerprint = ai_quoteFingerprint input,
                vi_checkoutAttemptId = js_lower (ai_checkoutAttemptId input)\<rparr>
            | _ \<Rightarrow> Inl Shop_permanent)"

definition accountEmail :: "library_checks \<Rightarrow> shop_db \<Rightarrow> string \<Rightarrow> string shop_result" where
  "accountEmail lib db userId =
     (case find (\<lambda>a. us_id a = userId) (sh_accounts db) of
        None \<Rightarrow> Inl Shop_permanent
      | Some account \<Rightarrow>
          if \<not> us_emailVerified account then Inl Shop_permanent
          else case normalizeEmailAddress lib (us_email account) of
              None \<Rightarrow> Inl Shop_permanent
            | Some email \<Rightarrow> Inr email)"

definition exactActor :: "order_row \<Rightarrow> actor \<Rightarrow> bool" where
  "exactActor existing actor =
     (case actor of
        User u _ \<Rightarrow> or_initiatingUserId existing = Some u \<and> or_guestIdentityId existing = None
      | Anonymous \<Rightarrow> or_initiatingUserId existing = None \<and> or_guestIdentityId existing = None
      | _ \<Rightarrow> False)"

definition containsAllAcceptedTitles :: "string list \<Rightarrow> string list \<Rightarrow> bool" where
  "containsAllAcceptedTitles requestedTitleIds acceptedTitleIds \<longleftrightarrow>
     acceptedTitleIds \<noteq> [] \<and> list_all (List.member requestedTitleIds) acceptedTitleIds"

section \<open>Tables\<close>

definition write_orders :: "order_row list \<Rightarrow> shop_db \<Rightarrow> shop_db shop_result" where
  "write_orders rows db = (if orders_ok rows then Inr (db\<lparr>sh_orders := rows\<rparr>) else Inl Unexpected_error)"

definition write_items :: "shop_item_row list \<Rightarrow> shop_db \<Rightarrow> shop_db shop_result" where
  "write_items rows db = (if items_ok rows then Inr (db\<lparr>sh_items := rows\<rparr>) else Inl Unexpected_error)"

definition update_order :: "string \<Rightarrow> (order_row \<Rightarrow> order_row) \<Rightarrow> shop_db \<Rightarrow> shop_db shop_result" where
  "update_order orderId f db = write_orders (update_rows or_id orderId f (sh_orders db)) db"

definition find_order :: "string \<Rightarrow> shop_db \<Rightarrow> order_row option" where
  "find_order orderId db = find (\<lambda>r. or_id r = orderId) (sh_orders db)"

definition order_items :: "string \<Rightarrow> shop_db \<Rightarrow> shop_item_row list" where
  "order_items orderId db = filter (\<lambda>i. si_orderId i = orderId) (sh_items db)"

definition by_title :: "shop_item_row list \<Rightarrow> shop_item_row list" where
  "by_title = js_sort (\<lambda>l r. compare_text (oi_titleId l) (oi_titleId r))"

definition append_audit :: "string \<Rightarrow> string \<Rightarrow> string \<Rightarrow> shop_db \<Rightarrow> shop_db" where
  "append_audit action resourceType resourceId db = db\<lparr>sh_audit := sh_audit db @
     [\<lparr>sa_action = action, sa_resourceType = resourceType, sa_resourceId = resourceId\<rparr>]\<rparr>"

section \<open>Accepting a quote\<close>

record accepted_order =
  ao_order :: order_row
  ao_items :: "shop_item_row list"
  ao_statusToken :: "string option"
  ao_reused :: bool

definition reuseAcceptedOrder ::
    "library_checks \<Rightarrow> crypto \<Rightarrow> shop_db \<Rightarrow> order_row \<Rightarrow> accepted_order_input \<Rightarrow> validated_order_input \<Rightarrow> int \<Rightarrow>
     accepted_order shop_result" where
  "reuseAcceptedOrder lib cy db existing input validated now =
     (let items = by_title (order_items (or_id existing) db);
          acceptedTitleIds = map oi_titleId items;
          conflict = Inl (Shop_conflict Checkout_attempt_conflict)
      in if \<not> exactActor existing (ai_actor input) \<or>
           \<not> equalSha256 (or_quoteFingerprintSha256 existing) (vi_quoteFingerprint validated) \<or>
           \<not> containsAllAcceptedTitles (vi_titleIds validated) acceptedTitleIds \<or>
           \<not> (or_status existing = Checkout_pending \<or> or_status existing = Checkout_open) then conflict
         else if now > checkoutProviderStartDeadline (or_createdAt existing) then conflict
         else
           rbind (lockAndQuoteCart lib (cy_sha256 cy) db (ai_actor input) (vi_titleIds validated)
             (Some (vi_checkoutAttemptId validated)) now) (\<lambda>currentQuote.
           if \<not> equalSha256 (qu_fingerprint currentQuote) (or_quoteFingerprintSha256 existing) \<or>
              \<not> qu_canCheckout currentQuote \<or>
              acceptedTitleIds \<noteq> map qt_titleId (qu_items currentQuote) then conflict
           else if ai_actor input = Anonymous then
             rbind (deriveOrderStatusCredential cy (ai_applicationSecret input) (vi_checkoutAttemptId validated))
               (\<lambda>(token, digest).
                 if \<not> equalSha256 (or_statusTokenSha256 existing) digest then conflict
                 else Inr \<lparr>ao_order = existing, ao_items = items, ao_statusToken = Some token, ao_reused = True\<rparr>)
           else Inr \<lparr>ao_order = existing, ao_items = items, ao_statusToken = None, ao_reused = True\<rparr>))"

definition accepted_order_row ::
    "string \<Rightarrow> int \<Rightarrow> actor \<Rightarrow> string option \<Rightarrow> commerce_quote \<Rightarrow> string \<Rightarrow> string \<Rightarrow> order_row" where
  "accepted_order_row newId clock actor purchaseEmail quote attemptId digest =
     \<lparr>or_id = newId, or_status = Checkout_pending, or_initiatingUserId = actorUserId actor,
      or_guestIdentityId = None, or_purchaseEmail = purchaseEmail,
      or_currency = js_upper (the (qu_currency quote)), or_subtotalMinor = qu_subtotalMinor quote,
      or_taxMinor = None, or_totalMinor = None, or_clientCheckoutAttemptId = attemptId,
      or_quoteFingerprintSha256 = qu_fingerprint quote, or_stripeCheckoutSessionId = None,
      or_statusTokenSha256 = digest, or_checkoutExpiresAt = None, or_paidAt = None,
      or_createdAt = clock, or_updatedAt = clock\<rparr>"

definition accepted_item_row :: "(string \<Rightarrow> string) \<Rightarrow> string \<Rightarrow> quote_item \<Rightarrow> shop_item_row" where
  "accepted_item_row newItemId orderId item =
     \<lparr>oi_id = newItemId (qt_titleId item), oi_titleId = qt_titleId item,
      oi_currency = js_upper (qt_currency item), oi_unitSubtotalMinor = qt_unitSubtotalMinor item,
      oi_taxMinor = None, oi_totalMinor = None, si_orderId = orderId, si_titleSnapshot = qt_title item,
      si_creatorNameSnapshot = qt_creatorName item, si_format = qt_format item,
      si_stripeLineItemId = None\<rparr>"

definition insertAcceptedOrder :: "order_row \<Rightarrow> shop_db \<Rightarrow> shop_db shop_result" where
  "insertAcceptedOrder order db = write_orders (sh_orders db @ [order]) db"

definition insertAcceptedOrderItems :: "shop_item_row list \<Rightarrow> shop_db \<Rightarrow> shop_db shop_result" where
  "insertAcceptedOrderItems items db =
     (if items = [] then Inl Unexpected_error else write_items (sh_items db @ items) db)"

definition createOrderFromQuote ::
    "library_checks \<Rightarrow> crypto \<Rightarrow> string \<Rightarrow> (string \<Rightarrow> string) \<Rightarrow> int \<Rightarrow> accepted_order_input \<Rightarrow>
     validated_order_input \<Rightarrow> int \<Rightarrow> shop_db \<Rightarrow> (accepted_order \<times> shop_db) shop_result" where
  "createOrderFromQuote lib cy newId newItemId clock input validated now db =
     rbind (lockAndQuoteCart lib (cy_sha256 cy) db (ai_actor input) (vi_titleIds validated)
       (Some (vi_checkoutAttemptId validated)) now) (\<lambda>quote.
     if \<not> equalSha256 (qu_fingerprint quote) (vi_quoteFingerprint validated) \<or> \<not> qu_canCheckout quote
     then Inl (Cart_changed quote)
     else if qu_currency quote = None \<or> qu_currency quote = Some [] \<or> qu_items quote = []
     then Inl (Cart_changed quote)
     else
       rbind (case ai_actor input of
           User u _ \<Rightarrow> rbind (accountEmail lib db u) (\<lambda>e. Inr (Some e)) | _ \<Rightarrow> Inr None) (\<lambda>purchaseEmail.
       rbind (deriveOrderStatusCredential cy (ai_applicationSecret input) (vi_checkoutAttemptId validated))
         (\<lambda>(token, digest).
       let order = accepted_order_row newId clock (ai_actor input) purchaseEmail quote
             (vi_checkoutAttemptId validated) digest;
           items = map (accepted_item_row newItemId newId) (qu_items quote)
       in rbind (insertAcceptedOrder order db) (\<lambda>db1.
          rbind (insertAcceptedOrderItems items db1) (\<lambda>db2.
          Inr (\<lparr>ao_order = order, ao_items = by_title items,
              ao_statusToken = (if ai_actor input = Anonymous then Some token else None), ao_reused = False\<rparr>,
            append_audit ''commerce.checkout_created'' ''order'' newId db2))))))"

definition customer_error :: "shop_error \<Rightarrow> bool" where
  "customer_error e =
     (case e of Cart_changed _ \<Rightarrow> True | Checkout_rate_limited _ \<Rightarrow> True | Shop_conflict _ \<Rightarrow> True
      | Invalid_cart \<Rightarrow> True | _ \<Rightarrow> False)"

definition consume_checkout_limit ::
    "crypto \<Rightarrow> accepted_order_input \<Rightarrow> int \<Rightarrow> shop_db \<Rightarrow> (rate_limit_decision \<times> shop_db) shop_result" where
  "consume_checkout_limit cy input now db =
     (case rateLimitScopeDigest (cy_sha256 cy) (cy_hmac cy) (actorUserId (ai_actor input)) (ai_requestIp input)
         (ai_applicationSecret input) of
        Inl _ \<Rightarrow> Inl Shop_permanent
      | Inr scope \<Rightarrow>
          case consumeRateLimit \<lparr>li_namespace = ''commerce.checkout'', li_scopeSha256 = scope,
              li_windowSeconds = ai_windowSeconds input, li_maxAttempts = ai_maxAttempts input,
              li_now = now\<rparr> (sh_limits db) of
            Inl _ \<Rightarrow> Inl Shop_permanent
          | Inr (decision, limits) \<Rightarrow> Inr (decision, db\<lparr>sh_limits := limits\<rparr>))"

text \<open>
  Every error a customer may see is thrown before the first row of the order is written, so what
  commits with it is the counted request.
\<close>

definition createAcceptedOrder ::
    "library_checks \<Rightarrow> crypto \<Rightarrow> string \<Rightarrow> (string \<Rightarrow> string) \<Rightarrow> int \<Rightarrow> accepted_order_input \<Rightarrow> int \<Rightarrow> int \<Rightarrow>
     shop_db \<Rightarrow> accepted_order shop_result \<times> shop_db" where
  "createAcceptedOrder lib cy newId newItemId clock input now reuseNow db =
     (case validateInput lib input of
        Inl e \<Rightarrow> (Inl e, db)
      | Inr validated \<Rightarrow>
          case consume_checkout_limit cy input now db of
            Inl e \<Rightarrow> (Inl e, db)
          | Inr (decision, counted) \<Rightarrow>
              if \<not> ld_allowed decision
              then (Inl (Checkout_rate_limited (ld_retryAfterSeconds decision)), counted)
              else
                case (case find (\<lambda>r. or_clientCheckoutAttemptId r = vi_checkoutAttemptId validated)
                        (sh_orders counted) of
                    Some existing \<Rightarrow> rbind (reuseAcceptedOrder lib cy counted existing input validated reuseNow)
                      (\<lambda>accepted. Inr (accepted, counted))
                  | None \<Rightarrow> createOrderFromQuote lib cy newId newItemId clock input validated now counted) of
                  Inl e \<Rightarrow> (Inl e, if customer_error e then counted else db)
                | Inr (accepted, db') \<Rightarrow> (Inr accepted, db'))"

section \<open>Attaching the provider's session\<close>

record attach_session_input =
  at_orderId :: string
  at_providerSessionId :: string
  at_checkoutExpiresAt :: int

text \<open>\<^verbatim>\<open>/^[0-9a-f-]{36}$/iu\<close>\<close>

definition order_reference :: "string \<Rightarrow> bool" where
  "order_reference s \<longleftrightarrow> length s = 36 \<and> list_all (\<lambda>c. hex_digit (lower_char c) \<or> c = CHR ''-'') s"

definition auditSessionConflict :: "string \<Rightarrow> shop_db \<Rightarrow> shop_db" where
  "auditSessionConflict orderId = append_audit ''commerce.checkout_session_conflict'' ''order'' orderId"

definition open_session :: "attach_session_input \<Rightarrow> int \<Rightarrow> order_row \<Rightarrow> order_row" where
  "open_session input now r = r\<lparr>or_status := Checkout_open,
     or_stripeCheckoutSessionId := Some (at_providerSessionId input),
     or_checkoutExpiresAt := Some (at_checkoutExpiresAt input), or_updatedAt := now\<rparr>"

definition attachTransaction :: "attach_session_input \<Rightarrow> int \<Rightarrow> shop_db \<Rightarrow> (bool \<times> shop_db) shop_result" where
  "attachTransaction input now db =
     (case find_order (at_orderId input) db of
        None \<Rightarrow> Inl Shop_permanent
      | Some order \<Rightarrow>
          if or_stripeCheckoutSessionId order = Some (at_providerSessionId input) \<and>
             or_checkoutExpiresAt order = Some (at_checkoutExpiresAt input) then
            if \<not> (or_status order = Checkout_pending \<or> or_status order = Checkout_open)
            then Inr (True, auditSessionConflict (or_id order) db)
            else if or_status order = Checkout_pending
            then rbind (update_order (or_id order) (\<lambda>r. r\<lparr>or_status := Checkout_open, or_updatedAt := now\<rparr>) db)
              (\<lambda>db'. Inr (False, db'))
            else Inr (False, db)
          else if or_stripeCheckoutSessionId order = None \<and> or_status order = Checkout_pending then
            rbind (update_order (or_id order) (open_session input now) db) (\<lambda>db'.
              if at_checkoutExpiresAt input \<le> now then Inr (True, auditSessionConflict (or_id order) db')
              else Inr (False, db'))
          else if or_status order = Checkout_pending \<or> or_status order = Checkout_open \<or>
             or_status order = Order_payment_pending then
            rbind (update_order (or_id order) (\<lambda>r. r\<lparr>or_status := Order_exception, or_updatedAt := now\<rparr>) db)
              (\<lambda>db'. Inr (True, auditSessionConflict (or_id order) db'))
          else Inr (True, auditSessionConflict (or_id order) db))"

definition attachCheckoutSession :: "attach_session_input \<Rightarrow> int \<Rightarrow> shop_db \<Rightarrow> unit shop_result \<times> shop_db" where
  "attachCheckoutSession input now db =
     (if \<not> order_reference (at_orderId input) \<or> \<not> provider_id (at_providerSessionId input)
      then (Inl Shop_permanent, db)
      else case attachTransaction input now db of
          Inl e \<Rightarrow> (Inl e, db)
        | Inr (conflict, db') \<Rightarrow> ((if conflict then Inl Shop_permanent else Inr ()), db'))"

section \<open>The provider\<close>

record session_line =
  sl_orderItemId :: string
  sl_title :: string
  sl_format :: publication_format
  sl_unitSubtotalMinor :: int
  sl_taxCode :: "string option"

record create_session_input =
  ci_orderId :: string
  ci_accountEmail :: "string option"
  ci_currency :: string
  ci_automaticTaxEnabled :: bool
  ci_expiresAt :: int
  ci_successUrl :: string
  ci_cancelUrl :: string
  ci_items :: "session_line list"

record created_session =
  cr_providerSessionId :: string
  cr_checkoutUrl :: string
  cr_expiresAt :: int

text \<open>\<^verbatim>\<open>/^txcd_[A-Za-z0-9]+$/u\<close>, at most 200 characters.\<close>

definition tax_code :: "string \<Rightarrow> bool" where
  "tax_code s \<longleftrightarrow> length s \<le> 200 \<and> take 5 s = ''txcd_'' \<and> 5 < length s \<and>
     list_all (\<lambda>c. name_start c \<or> upper_letter c) (drop 5 s)"

definition createCheckoutSessionInput :: "library_checks \<Rightarrow> create_session_input \<Rightarrow> create_session_input shop_result" where
  "createCheckoutSessionInput lib input =
     (let email = map_option (\<lambda>e. js_lower (js_trim e)) (ci_accountEmail input);
          items = map (\<lambda>i. i\<lparr>sl_title := js_trim (sl_title i)\<rparr>) (ci_items input)
      in if lc_uuid lib (ci_orderId input) \<and> optional (\<lambda>e. length e \<le> 320 \<and> lc_email lib e) email \<and>
           snapshot_currency lib (ci_currency input) \<and> ci_expiresAt input mod 1000 = 0 \<and>
           lc_url lib (ci_successUrl input) \<and> lc_url lib (ci_cancelUrl input) \<and>
           1 \<le> length items \<and> length items \<le> 25 \<and>
           list_all (\<lambda>i. lc_uuid lib (sl_orderItemId i) \<and> 1 \<le> length (sl_title i) \<and> length (sl_title i) \<le> 500 \<and>
             0 < sl_unitSubtotalMinor i \<and> sl_unitSubtotalMinor i \<le> MAX_CATALOG_PRICE_MINOR \<and>
             optional tax_code (sl_taxCode i)) items \<and>
           distinct (map sl_orderItemId items) \<and>
           (ci_automaticTaxEnabled input \<longrightarrow> list_all (\<lambda>i. sl_taxCode i \<noteq> None) items) \<and>
           safe_integer (sum_list (map sl_unitSubtotalMinor items)) \<and>
           sum_list (map sl_unitSubtotalMinor items) \<le> MAX_CHECKOUT_SUBTOTAL_MINOR
         then Inr (input\<lparr>ci_accountEmail := email, ci_items := items\<rparr>) else Inl Shop_permanent)"

text \<open>
  \<^verbatim>\<open>createCheckoutSession\<close> of the gateway around the provider's call: the parsed input, the
  return URLs on the shop's own origin, an expiry that is the requested one, and a provider page.
\<close>

definition createCheckoutSession ::
    "library_checks \<Rightarrow> string \<Rightarrow> (create_session_input \<Rightarrow> (string \<times> string option \<times> int) shop_result) \<Rightarrow>
     create_session_input \<Rightarrow> created_session shop_result" where
  "createCheckoutSession lib origin provider untrusted =
     rbind (createCheckoutSessionInput lib untrusted) (\<lambda>input.
     if \<not> lc_same_origin lib origin (ci_successUrl input) \<or> \<not> lc_same_origin lib origin (ci_cancelUrl input)
     then Inl Shop_permanent
     else rbind (provider input) (\<lambda>(sessionId, url, expiresSeconds).
       case url of
         None \<Rightarrow> Inl Shop_permanent
       | Some u \<Rightarrow>
           if \<not> provider_id sessionId \<or> u = [] \<or> expiresSeconds < 0 \<or>
              expiresSeconds * 1000 \<noteq> ci_expiresAt input \<or> \<not> lc_url lib u \<or> \<not> lc_provider_url lib u
           then Inl Shop_permanent
           else Inr \<lparr>cr_providerSessionId = sessionId, cr_checkoutUrl = u,
             cr_expiresAt = expiresSeconds * 1000\<rparr>))"

section \<open>The checkout\<close>

definition CHECKOUT_PROVIDER_CREATION_ALLOWANCE_SECONDS :: int where
  "CHECKOUT_PROVIDER_CREATION_ALLOWANCE_SECONDS = 60"

definition CHECKOUT_PROVIDER_CALL_SAFETY_SECONDS :: int where
  "CHECKOUT_PROVIDER_CALL_SAFETY_SECONDS = 30"

definition checkoutExpiry :: "order_row \<Rightarrow> int \<Rightarrow> int shop_result" where
  "checkoutExpiry order durationSeconds =
     (if durationSeconds \<noteq> 1800 then Inl Shop_permanent
      else Inr ((or_createdAt order div 1000 + durationSeconds +
        CHECKOUT_PROVIDER_CREATION_ALLOWANCE_SECONDS) * 1000))"

definition assertCheckoutCanReachProvider :: "int \<Rightarrow> int \<Rightarrow> int \<Rightarrow> unit shop_result" where
  "assertCheckoutCanReachProvider expiresAt durationSeconds providerRequestTime =
     throw_if (expiresAt - providerRequestTime <
         (durationSeconds + CHECKOUT_PROVIDER_CALL_SAFETY_SECONDS) * 1000)
       (Shop_conflict Checkout_attempt_conflict)"

record checkout_options =
  co_origin :: string
  co_automaticTaxEnabled :: bool
  co_proseTaxCode :: "string option"
  co_comicTaxCode :: "string option"
  co_checkoutDurationSeconds :: int

definition session_input :: "checkout_options \<Rightarrow> accepted_order \<Rightarrow> int \<Rightarrow> create_session_input" where
  "session_input options accepted expiresAt =
     (let order = ao_order accepted in
      \<lparr>ci_orderId = or_id order,
       ci_accountEmail = (if or_initiatingUserId order = None then None else or_purchaseEmail order),
       ci_currency = js_lower (or_currency order),
       ci_automaticTaxEnabled = co_automaticTaxEnabled options, ci_expiresAt = expiresAt,
       ci_successUrl = co_origin options @ ''/checkout/success?order='' @ or_id order,
       ci_cancelUrl = co_origin options @ ''/checkout/cancel'',
       ci_items = map (\<lambda>i. \<lparr>sl_orderItemId = oi_id i, sl_title = si_titleSnapshot i, sl_format = si_format i,
           sl_unitSubtotalMinor = oi_unitSubtotalMinor i,
           sl_taxCode = (if co_automaticTaxEnabled options
             then (if si_format i = Prose then co_proseTaxCode options else co_comicTaxCode options)
             else None)\<rparr>) (ao_items accepted)\<rparr>)"

record checkout_result =
  cx_orderId :: string
  cx_checkoutUrl :: string
  cx_checkoutExpiresAt :: int
  cx_statusToken :: "string option"

text \<open>The acceptance, the provider's session at one time, and its attachment at a later one.\<close>

definition orchestrateCheckout ::
    "(shop_db \<Rightarrow> accepted_order shop_result \<times> shop_db) \<Rightarrow> (create_session_input \<Rightarrow> created_session shop_result) \<Rightarrow>
     checkout_options \<Rightarrow> int \<Rightarrow> int \<Rightarrow> shop_db \<Rightarrow> checkout_result shop_result \<times> shop_db" where
  "orchestrateCheckout accept gateway options requestTime attachTime db =
     (case accept db of
        (Inl e, db1) \<Rightarrow> (Inl e, db1)
      | (Inr accepted, db1) \<Rightarrow>
          case rbind (checkoutExpiry (ao_order accepted) (co_checkoutDurationSeconds options)) (\<lambda>expiresAt.
              rbind (assertCheckoutCanReachProvider expiresAt (co_checkoutDurationSeconds options) requestTime) (\<lambda>_.
              gateway (session_input options accepted expiresAt))) of
            Inl e \<Rightarrow> (Inl e, db1)
          | Inr created \<Rightarrow>
              case attachCheckoutSession \<lparr>at_orderId = or_id (ao_order accepted),
                  at_providerSessionId = cr_providerSessionId created,
                  at_checkoutExpiresAt = cr_expiresAt created\<rparr> attachTime db1 of
                (Inl e, db2) \<Rightarrow> (Inl e, db2)
              | (Inr _, db2) \<Rightarrow> (Inr \<lparr>cx_orderId = or_id (ao_order accepted),
                  cx_checkoutUrl = cr_checkoutUrl created, cx_checkoutExpiresAt = cr_expiresAt created,
                  cx_statusToken = ao_statusToken accepted\<rparr>, db2))"

end
