(* ===== verification/OrderStatus.thy ===== *)
theory OrderStatus
  imports Orders
begin

text \<open>
  \<^verbatim>\<open>commerce/status-cookie.ts\<close> and \<^verbatim>\<open>commerce/status.ts\<close>: the token that lets a browser without an
  account follow its order, the cookie that holds it, and what is answered to whom. A byte is a number
  below 256 and the digest of bytes, in hexadecimal, is an argument; a time is a number of milliseconds.
\<close>

definition ORDER_STATUS_PROCESSING_GRACE_SECONDS :: int where
  "ORDER_STATUS_PROCESSING_GRACE_SECONDS = 15 * 60"

definition ORDER_STATUS_COOKIE_MAX_AGE_SECONDS :: int where
  "ORDER_STATUS_COOKIE_MAX_AGE_SECONDS = 60 * 60"

section \<open>Tokens\<close>

text \<open>The URL-safe alphabet of RFC 4648, and Node's coding of bytes in it, without padding.\<close>

definition base64url_char :: "nat \<Rightarrow> char" where
  "base64url_char n = (if n < 26 then char_of (65 + n) else if n < 52 then char_of (71 + n)
     else if n < 62 then char_of (n - 4) else if n = 62 then CHR ''-'' else CHR ''_'')"

definition base64url_digit :: "char \<Rightarrow> nat option" where
  "base64url_digit c = (let n = of_char c in
     if 65 \<le> n \<and> n \<le> 90 then Some (n - 65) else if 97 \<le> n \<and> n \<le> 122 then Some (n - 71)
     else if 48 \<le> n \<and> n \<le> 57 then Some (n + 4) else if c = CHR ''-'' then Some 62
     else if c = CHR ''_'' then Some 63 else None)"

fun sextets :: "nat list \<Rightarrow> nat list" where
  "sextets (a # b # c # bytes) =
     [a div 4, a mod 4 * 16 + b div 16, b mod 16 * 4 + c div 64, c mod 64] @ sextets bytes"
| "sextets [a, b] = [a div 4, a mod 4 * 16 + b div 16, b mod 16 * 4]"
| "sextets [a] = [a div 4, a mod 4 * 16]"
| "sextets [] = []"

text \<open>Bits that do not fill a byte are dropped.\<close>

fun octets :: "nat list \<Rightarrow> nat list" where
  "octets (p # q # r # s # digits) =
     [p * 4 + q div 16, q mod 16 * 16 + r div 4, r mod 4 * 64 + s] @ octets digits"
| "octets [p, q, r] = [p * 4 + q div 16, q mod 16 * 16 + r div 4]"
| "octets [p, q] = [p * 4 + q div 16]"
| "octets digits = []"

definition base64url :: "nat list \<Rightarrow> string" where
  "base64url bytes = map base64url_char (sextets bytes)"

definition token_pattern :: "string \<Rightarrow> bool" where
  "token_pattern token \<longleftrightarrow> length token = 43 \<and> list_all (\<lambda>c. base64url_digit c \<noteq> None) token"

definition tokenBytes :: "string \<Rightarrow> nat list option" where
  "tokenBytes token =
     (if \<not> token_pattern token then None
      else let bytes = octets (map (\<lambda>c. the (base64url_digit c)) token) in
        if length bytes \<noteq> 32 \<or> base64url bytes \<noteq> token then None else Some bytes)"

definition createOrderStatusCredential :: "(nat list \<Rightarrow> string) \<Rightarrow> nat list \<Rightarrow> (string \<times> string) shop_result" where
  "createOrderStatusCredential digest random =
     (if length random \<noteq> 32 then Inl Unexpected_error else Inr (base64url random, digest random))"

definition matchesOrderStatusToken :: "(nat list \<Rightarrow> string) \<Rightarrow> string \<Rightarrow> string \<Rightarrow> bool" where
  "matchesOrderStatusToken digest token expectedDigestSha256 =
     (case tokenBytes token of
        None \<Rightarrow> False
      | Some bytes \<Rightarrow> sha256_hex expectedDigestSha256 \<and> digest bytes = expectedDigestSha256)"

section \<open>The cookie\<close>

record cookie_options =
  co_httpOnly :: bool
  co_sameSite :: string
  co_secure :: bool
  co_path :: string
  co_maxAge :: int

definition orderStatusCookieName :: "string \<Rightarrow> string shop_result" where
  "orderStatusCookieName orderId =
     (if \<not> order_id_pattern orderId then Inl Unexpected_error
      else Inr (''pale_orbit_order_status_'' @ orderId))"

definition orderStatusCookieOptions :: "bool \<Rightarrow> string \<Rightarrow> int \<Rightarrow> int \<Rightarrow> cookie_options shop_result" where
  "orderStatusCookieOptions production orderId checkoutExpiresAt now =
     (if \<not> order_id_pattern orderId then Inl Unexpected_error
      else let remainingSeconds = - ((now - checkoutExpiresAt) div 1000) in
        Inr \<lparr>co_httpOnly = True, co_sameSite = ''lax'', co_secure = production,
          co_path = ''/api/commerce/orders/'' @ orderId,
          co_maxAge = max 1 (min ORDER_STATUS_COOKIE_MAX_AGE_SECONDS
            (remainingSeconds + ORDER_STATUS_PROCESSING_GRACE_SECONDS))\<rparr>)"

text \<open>The cookie that is set: its name, its value and its options.\<close>

definition setOrderStatusCookie ::
    "bool \<Rightarrow> string \<Rightarrow> string \<Rightarrow> int \<Rightarrow> int \<Rightarrow> (string \<times> string \<times> cookie_options) shop_result" where
  "setOrderStatusCookie production orderId token checkoutExpiresAt now =
     (if tokenBytes token = None then Inl Unexpected_error
      else rbind (orderStatusCookieName orderId) (\<lambda>name.
        rbind (orderStatusCookieOptions production orderId checkoutExpiresAt now) (\<lambda>options.
        Inr (name, token, options))))"

definition isOrderStatusCredentialExpired :: "int option \<Rightarrow> int \<Rightarrow> bool" where
  "isOrderStatusCredentialExpired checkoutExpiresAt now =
     (case checkoutExpiresAt of
        None \<Rightarrow> True
      | Some t \<Rightarrow> now > t + ORDER_STATUS_PROCESSING_GRACE_SECONDS * 1000)"

section \<open>The answer\<close>

datatype order_status_dto =
    Dto_pending | Dto_paid_guest string | Dto_paid string | Dto_failed string | Dto_expired string
  | Dto_exception string

definition isAuthorized :: "(nat list \<Rightarrow> string) \<Rightarrow> order_row \<Rightarrow> actor \<Rightarrow> string option \<Rightarrow> int \<Rightarrow> bool" where
  "isAuthorized digest order actor statusToken now \<longleftrightarrow>
     (case actor of User u _ \<Rightarrow> or_initiatingUserId order = Some u | _ \<Rightarrow> False) \<or>
     (case statusToken of
        None \<Rightarrow> False
      | Some token \<Rightarrow> \<not> isOrderStatusCredentialExpired (or_checkoutExpiresAt order) now \<and>
          matchesOrderStatusToken digest token (or_statusTokenSha256 order))"

definition statusDto :: "order_row \<Rightarrow> order_status_dto" where
  "statusDto order =
     (case or_status order of
        Checkout_pending \<Rightarrow> Dto_pending
      | Checkout_open \<Rightarrow> Dto_pending
      | Order_payment_pending \<Rightarrow> Dto_pending
      | Order_paid \<Rightarrow>
          if or_initiatingUserId order = None
          then Dto_paid_guest ''Check your email for a secure link to claim this purchase.''
          else Dto_paid ''/library''
      | Order_failed \<Rightarrow> Dto_failed ''Payment confirmation is still resolving. Do not start another checkout.''
      | Order_expired \<Rightarrow> Dto_expired ''Checkout expired. Return to your cart to try again.''
      | Order_exception \<Rightarrow>
          Dto_exception ''This purchase needs review. Contact support if its status does not update.'')"

datatype status_error = Order_not_found

definition authorizeOrderStatus ::
    "(nat list \<Rightarrow> string) \<Rightarrow> order_row \<Rightarrow> actor \<Rightarrow> string option \<Rightarrow> int \<Rightarrow> status_error + order_status_dto" where
  "authorizeOrderStatus digest order actor statusToken now =
     (if \<not> isAuthorized digest order actor statusToken now then Inl Order_not_found
      else Inr (statusDto order))"

text \<open>
  The column of the identifier is a \<^verbatim>\<open>uuid\<close>, kept in lower case and compared without regard to case.
\<close>

definition getAuthorizedOrderStatus ::
    "(nat list \<Rightarrow> string) \<Rightarrow> shop_db \<Rightarrow> string \<Rightarrow> actor \<Rightarrow> string option \<Rightarrow> int \<Rightarrow> status_error + order_status_dto" where
  "getAuthorizedOrderStatus digest db orderId actor statusToken now =
     (if \<not> order_id_pattern orderId then Inl Order_not_found
      else case find_order (js_lower orderId) db of
          None \<Rightarrow> Inl Order_not_found
        | Some order \<Rightarrow> authorizeOrderStatus digest order actor statusToken now)"

section \<open>One spelling of a token\<close>

lemma base64url_digit_char: "n < 64 \<Longrightarrow> base64url_digit (base64url_char n) = Some n"
proof -
  assume "n < 64"
  then consider "n < 26" | "26 \<le> n" "n < 52" | "52 \<le> n" "n < 62" | "n = 62" | "n = 63" by linarith
  then show ?thesis by cases (auto simp: base64url_digit_def base64url_char_def Let_def)
qed

text \<open>Two digits in a mixed base.\<close>

lemma mixed_digits: "h < k \<Longrightarrow> (m * k + h) div k = m \<and> (m * k + h) mod k = h" for h k m :: nat
  by simp

lemma mixed_bound: "m < n \<Longrightarrow> h < k \<Longrightarrow> m * k + h < n * k" for h k m n :: nat
proof -
  assume "m < n" "h < k"
  then have "Suc m * k \<le> n * k" by (intro mult_le_mono1) simp
  with \<open>h < k\<close> show ?thesis by simp
qed

lemma byte_parts:
  assumes "b < (256 :: nat)"
  shows "b div 4 < 64" "b mod 4 < 4" "b div 16 < 16" "b mod 16 < 16" "b div 64 < 4" "b mod 64 < 64"
  using assms by (simp_all add: less_mult_imp_div_less)

lemma sextet_bounds:
  assumes "a < 256" and "b < (256 :: nat)"
  shows "a mod 4 * 16 + b div 16 < 64" and "a mod 16 * 4 + b div 64 < 64"
    and "a mod 4 * 16 < 64" and "a mod 16 * 4 < 64"
  using mixed_bound [of "a mod 4" 4 "b div 16" 16] mixed_bound [of "a mod 16" 16 "b div 64" 4]
    mixed_bound [of "a mod 4" 4 0 16] mixed_bound [of "a mod 16" 16 0 4] byte_parts [OF assms(1)] byte_parts [OF assms(2)]
  by simp_all

lemma sextets_bound: "list_all (\<lambda>b. b < 256) bytes \<Longrightarrow> list_all (\<lambda>n. n < 64) (sextets bytes)"
  by (induction bytes rule: sextets.induct) (auto simp: byte_parts sextet_bounds)

lemma octet_parts:
  assumes "a < 256" and "b < 256" and "c < (256 :: nat)"
  shows "a div 4 * 4 + (a mod 4 * 16 + b div 16) div 16 = a"
    and "(a mod 4 * 16 + b div 16) mod 16 * 16 + (b mod 16 * 4 + c div 64) div 4 = b"
    and "(b mod 16 * 4 + c div 64) mod 4 * 64 + c mod 64 = c"
  using mixed_digits [of "b div 16" 16 "a mod 4"] mixed_digits [of "c div 64" 4 "b mod 16"]
    byte_parts [OF assms(2)] byte_parts [OF assms(3)] by simp_all

lemma octets_sextets: "list_all (\<lambda>b. b < 256) bytes \<Longrightarrow> octets (sextets bytes) = bytes"
proof (induction bytes rule: sextets.induct)
  case (1 a b c bytes)
  then show ?case using octet_parts [of a b c] by simp
next
  case (2 a b)
  then show ?case using octet_parts [of a b 0] by simp
next
  case (3 a)
  then show ?case using octet_parts [of a 0 0] by simp
qed simp

lemma length_sextets: "length (sextets bytes) = (4 * length bytes + 2) div 3"
  by (induction bytes rule: sextets.induct) auto

definition byte_list :: "nat list \<Rightarrow> bool" where
  "byte_list bytes \<longleftrightarrow> length bytes = 32 \<and> list_all (\<lambda>b. b < 256) bytes"

lemma map_digits: "list_all (\<lambda>n. n < 64) ds \<Longrightarrow> map (\<lambda>c. the (base64url_digit c)) (map base64url_char ds) = ds"
  by (induction ds) (auto simp: base64url_digit_char)

lemma tokenBytes_base64url:
  assumes "byte_list bytes"
  shows "tokenBytes (base64url bytes) = Some bytes"
proof -
  have b: "list_all (\<lambda>n. n < 64) (sextets bytes)" using assms sextets_bound by (simp add: byte_list_def)
  have "list_all (\<lambda>c. base64url_digit c \<noteq> None) (base64url bytes)"
    using b unfolding base64url_def list_all_iff by (auto simp: base64url_digit_char)
  then have "token_pattern (base64url bytes)"
    using assms by (simp add: token_pattern_def base64url_def length_sextets byte_list_def)
  moreover have "octets (map (\<lambda>c. the (base64url_digit c)) (base64url bytes)) = bytes"
    unfolding base64url_def map_digits [OF b] using assms octets_sextets by (simp add: byte_list_def)
  ultimately show ?thesis using assms by (simp add: tokenBytes_def byte_list_def)
qed

lemma tokenBytes_Some: "tokenBytes token = Some bytes \<Longrightarrow> token = base64url bytes"
  by (auto simp: tokenBytes_def Let_def split: if_splits)

end
