(* ===== verification/Fulfillment.thy ===== *)
theory Fulfillment
  imports Orders
begin

text \<open>
  \<^verbatim>\<open>commerce/fulfillment.ts\<close>, with the events of \<^verbatim>\<open>commerce/webhooks.ts\<close> and the checkout part
  of \<^verbatim>\<open>commerce/handler.ts\<close>: comparing the provider's evidence with the order, recording the
  payment, granting the titles of a paid order, and parking evidence that does not match as an
  exception. A transaction that throws leaves the shop unchanged. The calls that queue a message, a
  financial job or an audit event are logged.
\<close>

section \<open>Supported events\<close>

definition SUPPORTED_STRIPE_EVENT_TYPES :: "string list" where
  "SUPPORTED_STRIPE_EVENT_TYPES = [
     ''checkout.session.completed'', ''checkout.session.async_payment_succeeded'',
     ''checkout.session.async_payment_failed'', ''checkout.session.expired'',
     ''refund.created'', ''refund.updated'', ''refund.failed'',
     ''charge.dispute.created'', ''charge.dispute.updated'', ''charge.dispute.closed'',
     ''charge.dispute.funds_withdrawn'', ''charge.dispute.funds_reinstated'',
     ''payout.created'', ''payout.updated'', ''payout.paid'', ''payout.failed'', ''payout.canceled'',
     ''payout.reconciliation_completed'']"

datatype object_family = Checkout_session_family | Refund_family | Dispute_family | Payout_family

definition starts_with :: "string \<Rightarrow> string \<Rightarrow> bool" where
  "starts_with prefix s \<longleftrightarrow> take (length prefix) s = prefix"

definition familyForType :: "string \<Rightarrow> object_family \<times> string" where
  "familyForType t =
     (if starts_with ''checkout.'' t then (Checkout_session_family, ''cs_'')
      else if starts_with ''refund.'' t then (Refund_family, ''re_'')
      else if starts_with ''charge.dispute.'' t then (Dispute_family, ''dp_'')
      else (Payout_family, ''po_''))"

text \<open>\<^verbatim>\<open>/^[a-z0-9_.]+$/u\<close> after trimming, one to 200 characters.\<close>

definition event_type_text :: "string \<Rightarrow> bool" where
  "event_type_text s \<longleftrightarrow> s \<noteq> [] \<and> length s \<le> 200 \<and>
     list_all (\<lambda>c. name_start c \<or> c = CHR ''_'' \<or> c = CHR ''.'') s"

text \<open>\<^verbatim>\<open>describeSupportedStripeEvent\<close>: the family of a stored event, if its type is supported.\<close>

definition describeSupportedStripeEvent :: "stripe_event_row \<Rightarrow> object_family option commerce" where
  "describeSupportedStripeEvent row =
     (let type = js_trim (ev_eventType row) in
      if \<not> provider_id (ev_providerEventId row) \<or> \<not> event_type_text type \<or> \<not> provider_id (ev_objectId row) \<or>
         \<not> optional (\<lambda>v. js_trim v \<noteq> [] \<and> length (js_trim v) \<le> 100) (ev_apiVersion row) \<or>
         \<not> sha256_hex (ev_rawBodySha256 row)
      then Inl Permanent_commerce
      else if \<not> List.member SUPPORTED_STRIPE_EVENT_TYPES type then Inr None
      else if \<not> starts_with (snd (familyForType type)) (ev_objectId row) then Inl Permanent_commerce
      else Inr (Some (fst (familyForType type))))"

section \<open>Comparing the evidence with the order\<close>

datatype fulfillment_command =
    Pending_command checkout_snapshot payment_snapshot
  | Paid_command checkout_snapshot payment_snapshot string
  | Failed_command checkout_snapshot payment_snapshot
  | Expired_command checkout_snapshot

definition line_matches :: "order_row \<Rightarrow> shop_item_row list \<Rightarrow> checkout_line \<Rightarrow> bool" where
  "line_matches order items line \<longleftrightarrow>
     (case index_by oi_id items (cl_orderItemId line) of
        None \<Rightarrow> False
      | Some item \<Rightarrow>
          si_orderId item = or_id order \<and> cl_quantity line = 1 \<and>
          js_upper (cl_currency line) = oi_currency item \<and>
          cl_subtotalMinor line = oi_unitSubtotalMinor item \<and>
          (si_stripeLineItemId item = None \<or> si_stripeLineItemId item = Some (cl_providerLineItemId line)) \<and>
          (oi_taxMinor item = None \<or> oi_taxMinor item = Some (cl_taxMinor line)) \<and>
          (oi_totalMinor item = None \<or> oi_totalMinor item = Some (cl_totalMinor line)))"

definition validateLocalAndLineEvidence ::
    "order_row \<Rightarrow> shop_item_row list \<Rightarrow> checkout_snapshot \<Rightarrow> unit commerce" where
  "validateLocalAndLineEvidence order items session =
     throw_if (\<not> (
       (or_stripeCheckoutSessionId order = None \<or>
         or_stripeCheckoutSessionId order = Some (cs_providerSessionId session)) \<and>
       (or_stripeCheckoutSessionId order = None \<longrightarrow>
         or_status order = Checkout_pending \<and> or_checkoutExpiresAt order = None) \<and>
       (or_stripeCheckoutSessionId order \<noteq> None \<longrightarrow>
         or_checkoutExpiresAt order = Some (cs_expiresAt session)) \<and>
       cs_clientReferenceId session = or_id order \<and> cs_metadataVersion session = ''1'' \<and>
       cs_metadataOrderId session = or_id order \<and> cs_mode session = ''payment'' \<and>
       js_upper (cs_currency session) = or_currency order \<and>
       cs_subtotalMinor session = or_subtotalMinor order \<and>
       length items = length (cs_lineItems session) \<and> items \<noteq> [] \<and>
       distinct (map oi_id items) \<and> list_all (line_matches order items) (cs_lineItems session) \<and>
       (or_taxMinor order = None \<or> or_taxMinor order = Some (cs_taxMinor session)) \<and>
       (or_totalMinor order = None \<or> or_totalMinor order = Some (cs_totalMinor session))))
     Permanent_commerce"

definition normalizeEmail :: "library_checks \<Rightarrow> string \<Rightarrow> string commerce" where
  "normalizeEmail lib v =
     (case normalizeEmailAddress lib v of None \<Rightarrow> Inl Permanent_commerce | Some e \<Rightarrow> Inr e)"

definition paidPurchaseEmail :: "library_checks \<Rightarrow> order_row \<Rightarrow> checkout_snapshot \<Rightarrow> string commerce" where
  "paidPurchaseEmail lib order session =
     (case cs_customerEmail session of
        None \<Rightarrow> Inl Permanent_commerce
      | Some customer \<Rightarrow>
          if customer = [] then Inl Permanent_commerce
          else if or_initiatingUserId order \<noteq> None then
            (case or_purchaseEmail order of
               None \<Rightarrow> Inl Permanent_commerce
             | Some purchase \<Rightarrow>
                 if purchase = [] then Inl Permanent_commerce
                 else rbind (normalizeEmail lib purchase) (\<lambda>stored.
                   rbind (normalizeEmail lib customer) (\<lambda>c.
                   if c \<noteq> stored then Inl Permanent_commerce else Inr stored)))
          else rbind (normalizeEmail lib customer) (\<lambda>canonical.
            case or_purchaseEmail order of
              None \<Rightarrow> Inr canonical
            | Some purchase \<Rightarrow> rbind (normalizeEmail lib purchase) (\<lambda>p.
                if p \<noteq> canonical then Inl Permanent_commerce else Inr canonical)))"

definition payment_evidence_matches :: "order_row \<Rightarrow> checkout_snapshot \<Rightarrow> payment_snapshot \<Rightarrow> bool \<Rightarrow> bool" where
  "payment_evidence_matches order session payment expectedLiveMode \<longleftrightarrow>
     ps_liveMode payment = expectedLiveMode \<and>
     Some (ps_paymentIntentId payment) = cs_paymentIntentId session \<and>
     ps_metadataVersion payment = ''1'' \<and> ps_metadataOrderId payment = or_id order \<and>
     ps_latestChargeId payment = cs_latestChargeId session \<and>
     js_upper (ps_currency payment) = or_currency order \<and> ps_currency payment = cs_currency session \<and>
     ps_amountMinor payment = cs_totalMinor session"

definition validateFulfillmentCommand ::
    "library_checks \<Rightarrow> order_row \<Rightarrow> shop_item_row list \<Rightarrow> checkout_snapshot \<Rightarrow> payment_snapshot option \<Rightarrow> bool \<Rightarrow>
     fulfillment_command commerce" where
  "validateFulfillmentCommand lib order items rawSession rawPayment expectedLiveMode =
     rbind (parseCheckoutSnapshot lib rawSession) (\<lambda>session.
     if cs_liveMode session \<noteq> expectedLiveMode then Inl Permanent_commerce
     else rbind (validateLocalAndLineEvidence order items session) (\<lambda>_.
     if cs_paymentStatus session = No_payment_required then Inl Permanent_commerce
     else if cs_status session = Session_expired then
       (if cs_paymentStatus session \<noteq> Session_unpaid then Inl Permanent_commerce else Inr (Expired_command session))
     else case rawPayment of
         None \<Rightarrow> Inl Permanent_commerce
       | Some p \<Rightarrow>
           if cs_status session \<noteq> Session_complete \<or> cs_paymentIntentId session = None
           then Inl Permanent_commerce
           else rbind (parsePaymentSnapshot lib p) (\<lambda>payment.
             if \<not> payment_evidence_matches order session payment expectedLiveMode then Inl Permanent_commerce
             else if cs_paymentStatus session = Session_paid \<and> ps_state payment = Payment_succeeded
             then rbind (paidPurchaseEmail lib order session) (\<lambda>email. Inr (Paid_command session payment email))
             else if cs_paymentStatus session = Session_unpaid \<and> ps_state payment = Payment_pending
             then Inr (Pending_command session payment)
             else if cs_paymentStatus session = Session_unpaid \<and> ps_state payment = Payment_failed
             then Inr (Failed_command session payment)
             else Inl Permanent_commerce)))"

section \<open>Who owns a paid order\<close>

record paid_ownership =
  pw_guestIdentityId :: "string option"
  pw_grantUserId :: "string option"
  pw_message :: purchase_message

definition resolvePaidFulfillmentOwnership ::
    "library_checks \<Rightarrow> order_row \<Rightarrow> string \<Rightarrow> guest_identity_row option \<Rightarrow> account_row option \<Rightarrow>
     paid_ownership commerce" where
  "resolvePaidFulfillmentOwnership lib order purchaseEmail guestIdentity claimant =
     (if or_initiatingUserId order \<noteq> None then
        if guestIdentity \<noteq> None \<or> claimant \<noteq> None then Inl Permanent_commerce
        else Inr \<lparr>pw_guestIdentityId = or_guestIdentityId order,
          pw_grantUserId = or_initiatingUserId order, pw_message = Account_receipt\<rparr>
      else case guestIdentity of
          None \<Rightarrow> Inl Permanent_commerce
        | Some guest \<Rightarrow>
            if gi_email guest \<noteq> purchaseEmail \<or>
               (or_guestIdentityId order \<noteq> None \<and> or_guestIdentityId order \<noteq> Some (gi_id guest))
            then Inl Permanent_commerce
            else case gi_claimedByUserId guest of
                None \<Rightarrow>
                  if claimant \<noteq> None then Inl Permanent_commerce
                  else Inr \<lparr>pw_guestIdentityId = Some (gi_id guest), pw_grantUserId = None,
                    pw_message = Guest_claim_preparation\<rparr>
              | Some claimedByUserId \<Rightarrow>
                  case claimant of
                    None \<Rightarrow> Inl Permanent_commerce
                  | Some account \<Rightarrow>
                      if us_id account \<noteq> claimedByUserId \<or> \<not> us_emailVerified account \<or>
                         us_email account \<noteq> gi_email guest \<or>
                         normalizeEmailAddress lib (us_email account) \<noteq> Some (gi_email guest)
                      then Inl Permanent_commerce
                      else Inr \<lparr>pw_guestIdentityId = Some (gi_id guest),
                        pw_grantUserId = Some (us_id account), pw_message = Guest_receipt_without_claim\<rparr>)"

section \<open>The tables a fulfilment writes\<close>

definition to_shop :: "'a commerce \<Rightarrow> 'a shop_result" where
  "to_shop m = (case m of
     Inl Permanent_commerce \<Rightarrow> Inl Shop_permanent
   | Inl (Commerce_conflict c) \<Rightarrow> Inl (Shop_conflict c)
   | Inr x \<Rightarrow> Inr x)"

definition write_payments :: "payment_row list \<Rightarrow> shop_db \<Rightarrow> shop_db shop_result" where
  "write_payments rows db = (if payments_ok rows then Inr (db\<lparr>sh_payments := rows\<rparr>) else Inl Unexpected_error)"

definition write_events :: "stripe_event_row list \<Rightarrow> shop_db \<Rightarrow> shop_db shop_result" where
  "write_events rows db = (if events_ok rows then Inr (db\<lparr>sh_events := rows\<rparr>) else Inl Unexpected_error)"

definition write_guests :: "guest_identity_row list \<Rightarrow> shop_db \<Rightarrow> shop_db shop_result" where
  "write_guests rows db = (if guests_ok rows then Inr (db\<lparr>sh_guests := rows\<rparr>) else Inl Unexpected_error)"

definition find_event :: "string \<Rightarrow> shop_db \<Rightarrow> stripe_event_row option" where
  "find_event eventId db = find (\<lambda>e. ev_id e = eventId) (sh_events db)"

definition settle_event :: "event_status \<Rightarrow> string \<Rightarrow> int \<Rightarrow> shop_db \<Rightarrow> shop_db shop_result" where
  "settle_event status eventId now db =
     (if \<not> list_ex (\<lambda>e. ev_id e = eventId \<and> ev_status e = Event_pending) (sh_events db) then Inl Shop_permanent
      else write_events (map (\<lambda>e. if ev_id e = eventId \<and> ev_status e = Event_pending
        then e\<lparr>ev_status := status, ev_processedAt := Some now\<rparr> else e) (sh_events db)) db)"

definition completeStripeEvent :: "string \<Rightarrow> int \<Rightarrow> shop_db \<Rightarrow> shop_db shop_result" where
  "completeStripeEvent = settle_event Event_processed"

definition assertCheckoutEvent :: "stripe_event_row \<Rightarrow> checkout_snapshot \<Rightarrow> unit commerce" where
  "assertCheckoutEvent row session =
     rbind (describeSupportedStripeEvent row) (\<lambda>family.
       throw_if (family \<noteq> Some Checkout_session_family \<or> ev_objectId row \<noteq> cs_providerSessionId session)
         Permanent_commerce)"

definition findOrCreateGuestIdentity ::
    "library_checks \<Rightarrow> string \<Rightarrow> string \<Rightarrow> shop_db \<Rightarrow> (guest_identity_row \<times> shop_db) shop_result" where
  "findOrCreateGuestIdentity lib newId email db =
     (case normalizeEmailAddress lib email of
        None \<Rightarrow> Inl Unexpected_error
      | Some normalizedEmail \<Rightarrow>
          case find (\<lambda>k. gi_email k = normalizedEmail) (sh_guests db) of
            Some identity \<Rightarrow> Inr (identity, db)
          | None \<Rightarrow>
              let identity = \<lparr>gi_id = newId, gi_email = normalizedEmail, gi_claimedByUserId = None\<rparr> in
              rbind (write_guests (sh_guests db @ [identity]) db) (\<lambda>db'. Inr (identity, db')))"

section \<open>Payments\<close>

definition assertExistingPayment :: "payment_row \<Rightarrow> string \<Rightarrow> payment_snapshot \<Rightarrow> unit shop_result" where
  "assertExistingPayment existing orderId payment =
     throw_if (py_orderId existing \<noteq> orderId \<or>
       py_stripePaymentIntentId existing \<noteq> ps_paymentIntentId payment \<or>
       py_amountMinor existing \<noteq> ps_amountMinor payment \<or>
       py_currency existing \<noteq> js_upper (ps_currency payment)) Shop_permanent"

definition assertSucceededPayment :: "payment_row \<Rightarrow> string \<Rightarrow> payment_snapshot \<Rightarrow> unit shop_result" where
  "assertSucceededPayment existing orderId payment =
     rbind (assertExistingPayment existing orderId payment) (\<lambda>_.
     throw_if (py_status existing \<noteq> Payment_succeeded \<or>
       py_stripeLatestChargeId existing \<noteq> ps_latestChargeId payment \<or>
       py_paidAt existing \<noteq> ps_paidAt payment \<or>
       py_paymentMethodCategory existing \<noteq> ps_paymentMethodCategory payment) Shop_permanent)"

text \<open>\<open>paid\<close> and \<open>failed\<close> say which command the evidence belongs to.\<close>

definition storePaymentEvidence ::
    "string \<Rightarrow> payment_row option \<Rightarrow> string \<Rightarrow> payment_snapshot \<Rightarrow> bool \<Rightarrow> bool \<Rightarrow> int \<Rightarrow> shop_db \<Rightarrow>
     (payment_row \<times> shop_db) shop_result" where
  "storePaymentEvidence newId existing orderId payment paid failed now db =
     (case existing of
        None \<Rightarrow>
          let inserted = \<lparr>py_id = newId, py_orderId = orderId,
                py_stripePaymentIntentId = ps_paymentIntentId payment,
                py_stripeLatestChargeId = ps_latestChargeId payment,
                py_status = (if paid then Payment_succeeded else if failed then Payment_failed else Payment_pending),
                py_amountMinor = ps_amountMinor payment, py_currency = js_upper (ps_currency payment),
                py_paymentMethodCategory = ps_paymentMethodCategory payment,
                py_paidAt = (if paid then ps_paidAt payment else None),
                py_financialEvidenceStatus = Evidence_pending, py_updatedAt = now\<rparr>
          in rbind (write_payments (sh_payments db @ [inserted]) db) (\<lambda>db'. Inr (inserted, db'))
      | Some e \<Rightarrow>
          rbind (assertExistingPayment e orderId payment) (\<lambda>_.
          if py_status e = Payment_succeeded then
            if \<not> paid then Inl Shop_permanent
            else rbind (assertSucceededPayment e orderId payment) (\<lambda>_. Inr (e, db))
          else
            let updated = e\<lparr>py_stripeLatestChargeId := ps_latestChargeId payment,
                  py_status := (if paid then Payment_succeeded
                    else if py_status e = Payment_failed \<or> failed then Payment_failed else Payment_pending),
                  py_paymentMethodCategory := ps_paymentMethodCategory payment,
                  py_paidAt := (if paid then ps_paidAt payment else None),
                  py_financialEvidenceStatus := Evidence_pending, py_updatedAt := now\<rparr>
            in rbind (write_payments (update_rows py_id (py_id e) (\<lambda>_. updated) (sh_payments db)) db)
                 (\<lambda>db'. Inr (updated, db'))))"

section \<open>Paying an order\<close>

record fulfillment_ids =
  fi_guest :: string
  fi_payment :: string
  fi_grant :: "string \<Rightarrow> string"
  fi_entitlement :: "string \<Rightarrow> string \<Rightarrow> string"

definition write_line :: "shop_item_row list \<Rightarrow> checkout_line \<Rightarrow> shop_db \<Rightarrow> shop_db shop_result" where
  "write_line items line db =
     (case find (\<lambda>i. oi_id i = cl_orderItemId line) items of
        None \<Rightarrow> Inl Shop_permanent
      | Some item \<Rightarrow> write_items (update_rows oi_id (oi_id item)
          (\<lambda>i. i\<lparr>oi_taxMinor := Some (cl_taxMinor line), oi_totalMinor := Some (cl_totalMinor line),
             si_stripeLineItemId := Some (cl_providerLineItemId line)\<rparr>) (sh_items db)) db)"

definition purchase_grant ::
    "fulfillment_ids \<Rightarrow> string option \<Rightarrow> int \<Rightarrow> int \<Rightarrow> shop_item_row \<Rightarrow> entitlement_grant_row" where
  "purchase_grant ids grantUserId paidAt now item =
     \<lparr>eg_id = fi_grant ids (oi_id item), eg_titleId = oi_titleId item, eg_userId = grantUserId,
      eg_source = Purchase, eg_orderItemId = Some (oi_id item), eg_recoveryRefundAllocationId = None,
      eg_state = (if grantUserId = None then Unclaimed else Active), eg_stateReason = ''payment_succeeded'',
      eg_grantedAt = paidAt, eg_suspendedAt = None, eg_revokedAt = None, eg_createdAt = now,
      eg_updatedAt = now\<rparr>"

definition createPurchaseGrant :: "entitlement_grant_row \<Rightarrow> access_db \<Rightarrow> access_db shop_result" where
  "createPurchaseGrant grant a =
     (if \<not> grant_check grant \<or> List.member (map eg_id (ad_grants a)) (eg_id grant) \<or>
         List.member (purchased_items (ad_grants a)) (eg_orderItemId grant)
      then Inl Unexpected_error else Inr (a\<lparr>ad_grants := ad_grants a @ [grant]\<rparr>))"

definition assertPurchaseGrant :: "entitlement_grant_row \<Rightarrow> access_db \<Rightarrow> unit shop_result" where
  "assertPurchaseGrant expected a =
     (case find (\<lambda>g. eg_orderItemId g = eg_orderItemId expected) (ad_grants a) of
        None \<Rightarrow> Inl Shop_permanent
      | Some stored \<Rightarrow> throw_if (eg_source stored \<noteq> Purchase \<or> eg_titleId stored \<noteq> eg_titleId expected \<or>
          eg_userId stored \<noteq> eg_userId expected \<or> eg_state stored \<noteq> eg_state expected \<or>
          eg_stateReason stored \<noteq> eg_stateReason expected) Shop_permanent)"

definition grant_items ::
    "fulfillment_ids \<Rightarrow> string option \<Rightarrow> int \<Rightarrow> int \<Rightarrow> shop_item_row list \<Rightarrow> access_db \<Rightarrow> access_db shop_result" where
  "grant_items ids grantUserId paidAt now items a =
     rfold (\<lambda>item a. let grant = purchase_grant ids grantUserId paidAt now item in
       rbind (createPurchaseGrant grant a) (\<lambda>a'.
       rbind (assertPurchaseGrant grant a') (\<lambda>_. Inr a'))) items a"

definition project_items ::
    "fulfillment_ids \<Rightarrow> string \<Rightarrow> int \<Rightarrow> shop_item_row list \<Rightarrow> access_db \<Rightarrow> access_db" where
  "project_items ids userId now items a =
     fold (\<lambda>item a. snd (default_projector (fi_entitlement ids) userId (oi_titleId item) now a)) items a"

definition paid_order_row ::
    "checkout_snapshot \<Rightarrow> payment_snapshot \<Rightarrow> string \<Rightarrow> paid_ownership \<Rightarrow> int \<Rightarrow> order_row \<Rightarrow> order_row" where
  "paid_order_row session payment purchaseEmail ownership now r =
     r\<lparr>or_status := Order_paid, or_guestIdentityId := pw_guestIdentityId ownership,
       or_purchaseEmail := Some purchaseEmail, or_taxMinor := Some (cs_taxMinor session),
       or_totalMinor := Some (cs_totalMinor session),
       or_stripeCheckoutSessionId := Some (cs_providerSessionId session),
       or_checkoutExpiresAt := Some (cs_expiresAt session), or_paidAt := ps_paidAt payment,
       or_updatedAt := now\<rparr>"

definition finalizePaidOrder ::
    "fulfillment_ids \<Rightarrow> order_row \<Rightarrow> shop_item_row list \<Rightarrow> checkout_snapshot \<Rightarrow> payment_snapshot \<Rightarrow> string \<Rightarrow>
     paid_ownership \<Rightarrow> int \<Rightarrow> shop_db \<Rightarrow> shop_db shop_result" where
  "finalizePaidOrder ids order items session payment purchaseEmail ownership now db =
     rbind (rfold (write_line items) (cs_lineItems session) db) (\<lambda>db1.
     rbind (update_order (or_id order) (paid_order_row session payment purchaseEmail ownership now) db1) (\<lambda>db2.
     rbind (grant_items ids (pw_grantUserId ownership) (the (ps_paidAt payment)) now items (sh_access db2)) (\<lambda>a.
       let a' = (case pw_grantUserId ownership of
             None \<Rightarrow> a | Some userId \<Rightarrow> project_items ids userId now items a)
       in Inr (append_audit ''commerce.fulfillment_paid'' ''order'' (or_id order)
            (db2\<lparr>sh_access := a', sh_messages := sh_messages db2 @ [(pw_message ownership, or_id order)]\<rparr>)))))"

section \<open>Fulfilling an event\<close>

definition items_by_id :: "string \<Rightarrow> shop_db \<Rightarrow> shop_item_row list" where
  "items_by_id orderId db = js_sort (\<lambda>l r. compare_text (oi_id l) (oi_id r)) (order_items orderId db)"

definition discoverAndLockPaidGuestIdentity ::
    "library_checks \<Rightarrow> fulfillment_ids \<Rightarrow> checkout_snapshot \<Rightarrow> payment_snapshot option \<Rightarrow> bool \<Rightarrow> shop_db \<Rightarrow>
     (guest_identity_row option \<times> shop_db) shop_result" where
  "discoverAndLockPaidGuestIdentity lib ids session payment expectedLiveMode db =
     (case find_order (cs_metadataOrderId session) db of
        None \<Rightarrow> Inl Shop_permanent
      | Some candidate \<Rightarrow>
          if or_initiatingUserId candidate \<noteq> None \<or> cs_paymentStatus session \<noteq> Session_paid
          then Inr (None, db)
          else rbind (to_shop (validateFulfillmentCommand lib candidate (items_by_id (or_id candidate) db)
              session payment expectedLiveMode)) (\<lambda>command.
            case command of
              Paid_command _ _ purchaseEmail \<Rightarrow>
                rbind (findOrCreateGuestIdentity lib (fi_guest ids) purchaseEmail db) (\<lambda>(identity, db').
                if gi_email identity \<noteq> purchaseEmail then Inl Shop_permanent else Inr (Some identity, db'))
            | _ \<Rightarrow> Inl Shop_permanent))"

definition locked_payments :: "order_row \<Rightarrow> checkout_snapshot \<Rightarrow> shop_db \<Rightarrow> payment_row list" where
  "locked_payments order session db =
     filter (\<lambda>p. py_orderId p = or_id order \<or>
       (cs_paymentIntentId session \<noteq> None \<and> cs_paymentIntentId session = Some (py_stripePaymentIntentId p)))
     (sh_payments db)"

definition existing_payment ::
    "order_row \<Rightarrow> checkout_snapshot \<Rightarrow> shop_db \<Rightarrow> payment_row option shop_result" where
  "existing_payment order session db =
     (case locked_payments order session db of
        [] \<Rightarrow> Inr None
      | [p] \<Rightarrow>
          if py_orderId p \<noteq> or_id order \<or>
             (cs_paymentIntentId session \<noteq> None \<and> cs_paymentIntentId session \<noteq> Some (py_stripePaymentIntentId p))
          then Inl Shop_permanent else Inr (Some p)
      | _ \<Rightarrow> Inl Shop_permanent)"

definition paid_ownership_of ::
    "library_checks \<Rightarrow> shop_db \<Rightarrow> order_row \<Rightarrow> string \<Rightarrow> guest_identity_row option \<Rightarrow> paid_ownership shop_result" where
  "paid_ownership_of lib db order purchaseEmail lockedGuest =
     (if or_initiatingUserId order = None \<and>
         (case lockedGuest of None \<Rightarrow> True | Some g \<Rightarrow> gi_email g \<noteq> purchaseEmail) then Inl Shop_permanent
      else
        let claimant = (if or_initiatingUserId order = None
              then (case lockedGuest of None \<Rightarrow> None | Some g \<Rightarrow>
                (case gi_claimedByUserId g of None \<Rightarrow> None
                 | Some u \<Rightarrow> find (\<lambda>a. us_id a = u) (sh_accounts db)))
              else None)
        in to_shop (resolvePaidFulfillmentOwnership lib order purchaseEmail lockedGuest claimant))"

definition queueFinancialSource :: "string \<Rightarrow> string \<Rightarrow> string list \<Rightarrow> shop_db \<Rightarrow> shop_db" where
  "queueFinancialSource sourceId providerEventId graph db = db\<lparr>sh_handoffs := sh_handoffs db @
     [\<lparr>fh_sourceId = sourceId, fh_providerEventId = providerEventId, fh_projectionGraphSourceIds = graph\<rparr>]\<rparr>"

definition attach_status :: "order_status \<Rightarrow> checkout_snapshot \<Rightarrow> int \<Rightarrow> order_row \<Rightarrow> order_row" where
  "attach_status status session now r =
     r\<lparr>or_status := status, or_stripeCheckoutSessionId := Some (cs_providerSessionId session),
       or_checkoutExpiresAt := Some (cs_expiresAt session), or_updatedAt := now\<rparr>"

definition move_order ::
    "order_row \<Rightarrow> order_status list \<Rightarrow> order_status \<Rightarrow> checkout_snapshot \<Rightarrow> int \<Rightarrow> shop_db \<Rightarrow> shop_db shop_result" where
  "move_order order froms status session now db =
     (if List.member froms (or_status order)
      then update_order (or_id order) (attach_status status session now) db else Inr db)"

text \<open>An order that is not settled yet: the payment recorded and the shop afterwards.\<close>

definition settle_open_order ::
    "fulfillment_ids \<Rightarrow> order_row \<Rightarrow> shop_item_row list \<Rightarrow> payment_row option \<Rightarrow> fulfillment_command \<Rightarrow>
     paid_ownership option \<Rightarrow> int \<Rightarrow> shop_db \<Rightarrow> (payment_row option \<times> shop_db) shop_result" where
  "settle_open_order ids order items existing command ownership now db =
     (case command of
        Pending_command session payment \<Rightarrow>
          rbind (storePaymentEvidence (fi_payment ids) existing (or_id order) payment False False now db)
            (\<lambda>(evidence, db1).
          rbind (move_order order [Checkout_pending, Checkout_open] Order_payment_pending session now db1)
            (\<lambda>db2. Inr (Some evidence, db2)))
      | Paid_command session payment purchaseEmail \<Rightarrow>
          (case ownership of
             None \<Rightarrow> Inl Shop_permanent
           | Some owner \<Rightarrow>
               rbind (storePaymentEvidence (fi_payment ids) existing (or_id order) payment True False now db)
                 (\<lambda>(evidence, db1).
               rbind (finalizePaidOrder ids order items session payment purchaseEmail owner now db1)
                 (\<lambda>db2. Inr (Some evidence, db2))))
      | Failed_command session payment \<Rightarrow>
          rbind (storePaymentEvidence (fi_payment ids) existing (or_id order) payment False True now db)
            (\<lambda>(evidence, db1).
          rbind (move_order order [Checkout_pending, Checkout_open, Order_payment_pending] Order_failed
              session now db1) (\<lambda>db2. Inr (Some evidence, db2)))
      | Expired_command session \<Rightarrow>
          rbind (move_order order [Checkout_pending, Checkout_open, Order_payment_pending, Order_failed]
              Order_expired session now db) (\<lambda>db1. Inr (None, db1)))"

definition projection_published :: "payment_row option \<Rightarrow> payment_row \<Rightarrow> fulfillment_command \<Rightarrow> bool" where
  "projection_published existing evidence command \<longleftrightarrow>
     (case existing of
        None \<Rightarrow> True
      | Some e \<Rightarrow> py_status e \<noteq> py_status evidence \<or> py_stripeLatestChargeId e \<noteq> py_stripeLatestChargeId evidence \<or>
          py_paidAt e \<noteq> py_paidAt evidence \<or> (case command of Paid_command _ _ _ \<Rightarrow> True | _ \<Rightarrow> False))"

definition fulfillOrder ::
    "library_checks \<Rightarrow> fulfillment_ids \<Rightarrow> stripe_event_row \<Rightarrow> checkout_snapshot \<Rightarrow> payment_snapshot option \<Rightarrow>
     int \<Rightarrow> guest_identity_row option \<Rightarrow> order_row \<Rightarrow> shop_db \<Rightarrow> shop_db shop_result" where
  "fulfillOrder lib ids event session payment now lockedGuest order db =
     rbind (existing_payment order session db) (\<lambda>existing.
     let items = items_by_id (or_id order) db in
     rbind (to_shop (validateFulfillmentCommand lib order items session payment (ev_liveMode event))) (\<lambda>command.
     rbind (case command of
         Paid_command _ _ purchaseEmail \<Rightarrow>
           rbind (paid_ownership_of lib db order purchaseEmail lockedGuest) (\<lambda>o'. Inr (Some o'))
       | _ \<Rightarrow> Inr None) (\<lambda>ownership.
     if or_status order = Order_paid then
       rbind (case command of
           Paid_command _ p _ \<Rightarrow> (case existing of
               None \<Rightarrow> Inl Shop_permanent
             | Some e \<Rightarrow> assertSucceededPayment e (or_id order) p)
         | _ \<Rightarrow> Inr ()) (\<lambda>_.
       completeStripeEvent (ev_id event) now (case existing of
           None \<Rightarrow> db
         | Some e \<Rightarrow> queueFinancialSource (py_id e) (ev_providerEventId event) [] db))
     else if or_status order = Order_expired then
       (case command of
          Expired_command _ \<Rightarrow> completeStripeEvent (ev_id event) now db
        | _ \<Rightarrow> Inl Shop_permanent)
     else if or_status order = Order_exception then Inl Shop_permanent
     else
       rbind (settle_open_order ids order items existing command ownership now db) (\<lambda>(paymentFact, db1).
       completeStripeEvent (ev_id event) now (case paymentFact of
           None \<Rightarrow> db1
         | Some evidence \<Rightarrow> queueFinancialSource (py_id evidence) (ev_providerEventId event)
             (if projection_published existing evidence command then [py_id evidence] else []) db1)))))"

definition fulfillCheckoutEvent ::
    "library_checks \<Rightarrow> fulfillment_ids \<Rightarrow> string \<Rightarrow> checkout_snapshot \<Rightarrow> payment_snapshot option \<Rightarrow> int \<Rightarrow>
     shop_db \<Rightarrow> shop_db shop_result" where
  "fulfillCheckoutEvent lib ids stripeEventId rawSession payment now db =
     rbind (to_shop (parseCheckoutSnapshot lib rawSession)) (\<lambda>session.
       case find_event stripeEventId db of
         None \<Rightarrow> Inl Shop_permanent
       | Some event \<Rightarrow>
           if ev_status event \<noteq> Event_pending then Inr db
           else
             rbind (to_shop (assertCheckoutEvent event session)) (\<lambda>_.
             rbind (discoverAndLockPaidGuestIdentity lib ids session payment (ev_liveMode event) db)
               (\<lambda>(lockedGuest, db1).
             case find_order (cs_metadataOrderId session) db1 of
               None \<Rightarrow> Inl Shop_permanent
             | Some order \<Rightarrow> fulfillOrder lib ids event session payment now lockedGuest order db1)))"

section \<open>Evidence that does not match\<close>

definition findExceptionOrder :: "stripe_event_row \<Rightarrow> string option \<Rightarrow> shop_db \<Rightarrow> order_row option" where
  "findExceptionOrder event requestedOrderId db =
     (let attached = find (\<lambda>r. or_stripeCheckoutSessionId r = Some (ev_objectId event)) (sh_orders db);
          candidateId = (case attached of Some r \<Rightarrow> Some (or_id r) | None \<Rightarrow> requestedOrderId)
      in case candidateId of
           None \<Rightarrow> None
         | Some k \<Rightarrow>
             if k = [] then None
             else case find_order k db of
                 None \<Rightarrow> None
               | Some candidate \<Rightarrow>
                   if or_stripeCheckoutSessionId candidate = Some (ev_objectId event) then Some candidate
                   else if attached = None \<and> requestedOrderId = Some (or_id candidate) \<and>
                      or_stripeCheckoutSessionId candidate = None \<and> or_status candidate = Checkout_pending
                   then Some candidate
                   else None)"

definition recordFulfillmentException ::
    "string \<Rightarrow> string option \<Rightarrow> int \<Rightarrow> shop_db \<Rightarrow> shop_db shop_result" where
  "recordFulfillmentException stripeEventId orderId now db =
     (case find_event stripeEventId db of
        None \<Rightarrow> Inr db
      | Some event \<Rightarrow>
          if ev_status event \<noteq> Event_pending then Inr db
          else
            let order = findExceptionOrder event orderId db in
            rbind (case order of
                None \<Rightarrow> Inr db
              | Some r \<Rightarrow>
                  if or_status r \<noteq> Order_paid \<and> or_status r \<noteq> Order_expired
                  then update_order (or_id r) (\<lambda>r. r\<lparr>or_status := Order_exception, or_updatedAt := now\<rparr>) db
                  else Inr db) (\<lambda>db1.
            settle_event Event_exception (ev_id event) now
              (append_audit ''commerce.fulfillment_exception''
                 (if order = None then ''stripe_event'' else ''order'')
                 (case order of None \<Rightarrow> ev_id event | Some r \<Rightarrow> or_id r) db1)))"

section \<open>Handling an event\<close>

text \<open>
  \<^verbatim>\<open>createStripeEventHandler\<close>, for events of checkout sessions: what the gateway answers is an
  argument; the handlers of the other families are one argument.
\<close>

definition payment_lags :: "checkout_snapshot \<Rightarrow> payment_snapshot \<Rightarrow> bool" where
  "payment_lags session payment \<longleftrightarrow>
     Some (ps_paymentIntentId payment) = cs_paymentIntentId session \<and>
     (ps_latestChargeId payment \<noteq> cs_latestChargeId session \<or>
      (cs_paymentStatus session = Session_unpaid \<and> ps_state payment = Payment_succeeded) \<or>
      (cs_paymentStatus session = Session_paid \<and> ps_state payment \<noteq> Payment_succeeded))"

definition handle_checkout ::
    "library_checks \<Rightarrow> fulfillment_ids \<Rightarrow> string \<Rightarrow> checkout_snapshot shop_result \<Rightarrow>
     (string \<Rightarrow> payment_snapshot shop_result) \<Rightarrow> int \<Rightarrow> shop_db \<Rightarrow> string option \<times> shop_db shop_result" where
  "handle_checkout lib ids stripeEventId retrievedSession retrievePayment now db =
     (case retrievedSession of
        Inl e \<Rightarrow> (None, Inl e)
      | Inr session \<Rightarrow>
          (Some (cs_metadataOrderId session),
           rbind (case cs_paymentIntentId session of
               None \<Rightarrow> Inr None
             | Some k \<Rightarrow> rbind (retrievePayment k) (\<lambda>p. Inr (Some p))) (\<lambda>payment.
           if (case payment of None \<Rightarrow> False | Some p \<Rightarrow> payment_lags session p)
           then Inl Provider_retryable
           else fulfillCheckoutEvent lib ids stripeEventId session payment now db)))"

definition handleStripeEvent ::
    "library_checks \<Rightarrow> fulfillment_ids \<Rightarrow> string \<Rightarrow> checkout_snapshot shop_result \<Rightarrow>
     (string \<Rightarrow> payment_snapshot shop_result) \<Rightarrow> (object_family \<Rightarrow> shop_db \<Rightarrow> shop_db shop_result) \<Rightarrow>
     int \<Rightarrow> shop_db \<Rightarrow> shop_db shop_result" where
  "handleStripeEvent lib ids stripeEventId retrievedSession retrievePayment other now db =
     (case find_event stripeEventId db of
        None \<Rightarrow> Inl Unexpected_error
      | Some row \<Rightarrow>
          if ev_status row \<noteq> Event_pending then Inr db
          else
            let (orderId, outcome) =
              (case describeSupportedStripeEvent row of
                 Inl e \<Rightarrow> (None, to_shop (Inl e))
               | Inr None \<Rightarrow> (None, Inl Shop_permanent)
               | Inr (Some Checkout_session_family) \<Rightarrow>
                   handle_checkout lib ids stripeEventId retrievedSession retrievePayment now db
               | Inr (Some family) \<Rightarrow> (None, other family db))
            in if outcome = Inl Shop_permanent then recordFulfillmentException stripeEventId orderId now db
               else outcome)"

section \<open>Receiving an event\<close>

datatype accept_status = Event_accepted | Event_duplicate | Event_conflict

definition json_bool :: "bool \<Rightarrow> string" where
  "json_bool b = (if b then ''true'' else ''false'')"

text \<open>\<^verbatim>\<open>JSON.stringify\<close> of the array of the immutable fields.\<close>

definition event_json :: "stripe_event_row \<Rightarrow> string" where
  "event_json e =
     ''['' @ json_text (ev_providerEventId e) @ '','' @ json_text (ev_eventType e) @ '','' @
     json_text (ev_objectId e) @ '','' @ json_bool (ev_liveMode e) @ '','' @ json_nullable (ev_apiVersion e) @ '','' @
     json_text (toISOString (ev_providerCreatedAt e)) @ '','' @ json_text (ev_rawBodySha256 e) @ '']''"

definition parsed_event :: "stripe_event_row \<Rightarrow> stripe_event_row" where
  "parsed_event e = e\<lparr>ev_eventType := js_trim (ev_eventType e),
     ev_apiVersion := map_option js_trim (ev_apiVersion e)\<rparr>"

definition acceptStripeEvent ::
    "(string \<Rightarrow> string) \<Rightarrow> string \<Rightarrow> stripe_event_row \<Rightarrow> shop_db \<Rightarrow> ((accept_status \<times> string) \<times> shop_db) shop_result" where
  "acceptStripeEvent sha256 newId value db =
     rbind (to_shop (describeSupportedStripeEvent value)) (\<lambda>descriptor.
     if descriptor = None then Inl Shop_permanent
     else
       let event = (parsed_event value)\<lparr>ev_id := newId, ev_status := Event_pending, ev_processedAt := None\<rparr> in
       case find (\<lambda>e. ev_providerEventId e = ev_providerEventId event) (sh_events db) of
         None \<Rightarrow> rbind (write_events (sh_events db @ [event]) db) (\<lambda>db'. Inr ((Event_accepted, newId), db'))
       | Some existing \<Rightarrow>
           if sha256 (event_json existing) \<noteq> sha256 (event_json event)
           then Inr ((Event_conflict, ev_id existing), db)
           else Inr ((Event_duplicate, ev_id existing), db))"

end
