(* ===== verification/CheckoutFacts.thy ===== *)
theory CheckoutFacts
  imports Fulfillment
begin

text \<open>
  What each operation of the checkout does to each table: the order rows it moves, the item,
  payment, event and grant rows it writes, and the tables it leaves alone.
\<close>

named_theorems shop_frames \<open>tables an operation leaves alone\<close>

section \<open>Writing tables\<close>

lemma write_orders_Inr [simp]: "write_orders rows db = Inr db' \<longleftrightarrow> orders_ok rows \<and> db' = db\<lparr>sh_orders := rows\<rparr>"
  by (auto simp: write_orders_def)

lemma write_items_Inr [simp]: "write_items rows db = Inr db' \<longleftrightarrow> items_ok rows \<and> db' = db\<lparr>sh_items := rows\<rparr>"
  by (auto simp: write_items_def)

lemma write_payments_Inr [simp]: "write_payments rows db = Inr db' \<longleftrightarrow> payments_ok rows \<and> db' = db\<lparr>sh_payments := rows\<rparr>"
  by (auto simp: write_payments_def)

lemma write_events_Inr [simp]: "write_events rows db = Inr db' \<longleftrightarrow> events_ok rows \<and> db' = db\<lparr>sh_events := rows\<rparr>"
  by (auto simp: write_events_def)

lemma write_guests_Inr [simp]: "write_guests rows db = Inr db' \<longleftrightarrow> guests_ok rows \<and> db' = db\<lparr>sh_guests := rows\<rparr>"
  by (auto simp: write_guests_def)

lemma update_order_Inr [simp]:
  "update_order k f db = Inr db' \<longleftrightarrow> orders_ok (update_rows or_id k f (sh_orders db)) \<and>
    db' = db\<lparr>sh_orders := update_rows or_id k f (sh_orders db)\<rparr>"
  by (simp add: update_order_def)

lemma to_shop_Inr [simp]: "to_shop m = Inr x \<longleftrightarrow> m = Inr x"
  by (cases m) (auto simp: to_shop_def split: commerce_error.splits)

lemma append_audit_sel [simp]:
  "sh_orders (append_audit a t k db) = sh_orders db" "sh_items (append_audit a t k db) = sh_items db"
  "sh_payments (append_audit a t k db) = sh_payments db" "sh_events (append_audit a t k db) = sh_events db"
  "sh_guests (append_audit a t k db) = sh_guests db" "sh_access (append_audit a t k db) = sh_access db"
  "sh_accounts (append_audit a t k db) = sh_accounts db" "sh_limits (append_audit a t k db) = sh_limits db"
  "sh_messages (append_audit a t k db) = sh_messages db" "sh_handoffs (append_audit a t k db) = sh_handoffs db"
  by (simp_all add: append_audit_def)

lemma queue_source_sel [simp]:
  "sh_orders (queueFinancialSource s e g db) = sh_orders db" "sh_items (queueFinancialSource s e g db) = sh_items db"
  "sh_payments (queueFinancialSource s e g db) = sh_payments db" "sh_events (queueFinancialSource s e g db) = sh_events db"
  "sh_guests (queueFinancialSource s e g db) = sh_guests db" "sh_access (queueFinancialSource s e g db) = sh_access db"
  "sh_accounts (queueFinancialSource s e g db) = sh_accounts db"
  "sh_messages (queueFinancialSource s e g db) = sh_messages db"
  by (simp_all add: queueFinancialSource_def)

lemma find_order_Some: "find_order k db = Some r \<Longrightarrow> r \<in> set (sh_orders db) \<and> or_id r = k"
  unfolding find_order_def by (drule find_row_member) simp

lemma find_event_Some: "find_event k db = Some e \<Longrightarrow> e \<in> set (sh_events db) \<and> ev_id e = k"
  unfolding find_event_def by (drule find_row_member) simp

lemma same_order: "orders_ok rows \<Longrightarrow> r \<in> set rows \<Longrightarrow> s \<in> set rows \<Longrightarrow> or_id r = or_id s \<Longrightarrow> r = s"
  unfolding orders_ok_def distinct_map inj_on_def by blast

lemma same_item: "items_ok rows \<Longrightarrow> i \<in> set rows \<Longrightarrow> j \<in> set rows \<Longrightarrow> oi_id i = oi_id j \<Longrightarrow> i = j"
  unfolding items_ok_def distinct_map inj_on_def by blast

lemma same_payment_order:
  "payments_ok rows \<Longrightarrow> p \<in> set rows \<Longrightarrow> q \<in> set rows \<Longrightarrow> py_orderId p = py_orderId q \<Longrightarrow> p = q"
  unfolding payments_ok_def distinct_map inj_on_def by blast

section \<open>Orders only move forward\<close>

text \<open>
  What never changes of an order, what is written once, and the states an order does not leave.
\<close>

definition order_terms ::
    "order_row \<Rightarrow> string \<times> string option \<times> string \<times> int \<times> string \<times> string \<times> string \<times> int" where
  "order_terms r = (or_id r, or_initiatingUserId r, or_currency r, or_subtotalMinor r,
     or_clientCheckoutAttemptId r, or_quoteFingerprintSha256 r, or_statusTokenSha256 r, or_createdAt r)"

definition order_session :: "order_row \<Rightarrow> string option \<times> int option" where
  "order_session r = (or_stripeCheckoutSessionId r, or_checkoutExpiresAt r)"

text \<open>How far an order has come; the last three states are ends.\<close>

fun order_stage :: "order_status \<Rightarrow> nat" where
  "order_stage Checkout_pending = 0"
| "order_stage Checkout_open = 1"
| "order_stage Order_payment_pending = 2"
| "order_stage Order_failed = 3"
| "order_stage Order_paid = 4"
| "order_stage Order_expired = 4"
| "order_stage Order_exception = 4"

definition order_kept :: "order_row \<Rightarrow> order_row \<Rightarrow> bool" where
  "order_kept r r' \<longleftrightarrow> order_terms r' = order_terms r \<and>
     (or_stripeCheckoutSessionId r \<noteq> None \<longrightarrow> order_session r' = order_session r) \<and>
     (or_status r = Order_paid \<or> or_status r = Order_expired \<longrightarrow> r' = r) \<and>
     (or_status r = Order_exception \<longrightarrow> or_status r' = Order_exception) \<and>
     (or_status r' = Checkout_pending \<longrightarrow> or_status r = Checkout_pending) \<and>
     (or_status r' = Checkout_open \<longrightarrow> or_status r = Checkout_pending \<or> or_status r = Checkout_open) \<and>
     (or_status r' = or_status r \<or> order_stage (or_status r) < order_stage (or_status r'))"

lemma order_kept_refl [simp]: "order_kept r r"
  by (simp add: order_kept_def)

lemma order_kept_trans:
  assumes "order_kept r s" and "order_kept s t"
  shows "order_kept r t"
proof -
  have session: "or_stripeCheckoutSessionId s = or_stripeCheckoutSessionId r" if "order_session s = order_session r"
    using that by (simp add: order_session_def)
  have 1: "order_terms s = order_terms r" "order_terms t = order_terms s"
    and 2: "or_stripeCheckoutSessionId r \<noteq> None \<Longrightarrow> order_session s = order_session r"
      "or_stripeCheckoutSessionId s \<noteq> None \<Longrightarrow> order_session t = order_session s"
    and 3: "or_status r = Order_paid \<or> or_status r = Order_expired \<Longrightarrow> s = r"
      "or_status s = Order_paid \<or> or_status s = Order_expired \<Longrightarrow> t = s"
    and 4: "or_status r = Order_exception \<Longrightarrow> or_status s = Order_exception"
      "or_status s = Order_exception \<Longrightarrow> or_status t = Order_exception"
    and 5: "or_status s = Checkout_pending \<Longrightarrow> or_status r = Checkout_pending"
      "or_status t = Checkout_pending \<Longrightarrow> or_status s = Checkout_pending"
    and 6: "or_status s = Checkout_open \<Longrightarrow> or_status r = Checkout_pending \<or> or_status r = Checkout_open"
      "or_status t = Checkout_open \<Longrightarrow> or_status s = Checkout_pending \<or> or_status s = Checkout_open"
    and 7: "or_status s = or_status r \<or> order_stage (or_status r) < order_stage (or_status s)"
      "or_status t = or_status s \<or> order_stage (or_status s) < order_stage (or_status t)"
    using assms unfolding order_kept_def by blast+
  show ?thesis
    unfolding order_kept_def
  proof (intro conjI impI)
    show "order_terms t = order_terms r" using 1 by simp
    show "order_session t = order_session r" if "or_stripeCheckoutSessionId r \<noteq> None"
      using 2 that session by metis
    show "t = r" if "or_status r = Order_paid \<or> or_status r = Order_expired" using 3 that by metis
    show "or_status t = Order_exception" if "or_status r = Order_exception" using 4 that by blast
    show "or_status r = Checkout_pending" if "or_status t = Checkout_pending" using 5 that by blast
    show "or_status r = Checkout_pending \<or> or_status r = Checkout_open" if "or_status t = Checkout_open"
      using 5 6 that by blast
    show "or_status t = or_status r \<or> order_stage (or_status r) < order_stage (or_status t)"
      using 7 by (metis less_trans)
  qed
qed

definition orders_moved :: "order_row list \<Rightarrow> order_row list \<Rightarrow> bool" where
  "orders_moved rows rows' \<longleftrightarrow> (\<exists>mid new. rows' = mid @ new \<and> list_all2 order_kept rows mid)"

lemma orders_moved_refl [simp]: "orders_moved rows rows"
  unfolding orders_moved_def by (intro exI [of _ rows] exI [of _ "[]"]) (simp add: list.rel_refl)

lemma orders_moved_append [simp]: "orders_moved rows (rows @ new)"
  unfolding orders_moved_def by (intro exI [of _ rows] exI [of _ new]) (simp add: list.rel_refl)

lemma orders_moved_trans:
  assumes "orders_moved xs ys" and "orders_moved ys zs"
  shows "orders_moved xs zs"
proof -
  from assms(1) obtain m n where ys: "ys = m @ n" "list_all2 order_kept xs m" unfolding orders_moved_def by blast
  from assms(2) obtain m' n' where zs: "zs = m' @ n'" "list_all2 order_kept (m @ n) m'"
    unfolding orders_moved_def ys(1) by blast
  from zs(2) obtain a b where ab: "m' = a @ b" "list_all2 order_kept m a"
    unfolding list_all2_append1 by blast
  have "list_all2 order_kept xs a" by (rule list_all2_trans [OF order_kept_trans ys(2) ab(2)])
  moreover have "zs = a @ (b @ n')" using zs(1) ab(1) by simp
  ultimately show ?thesis unfolding orders_moved_def by blast
qed

lemma update_order_moved:
  assumes "orders_ok rows" and "r \<in> set rows" and "order_kept r (f r)"
  shows "orders_moved rows (update_rows or_id (or_id r) f rows)"
proof -
  have "list_all2 order_kept rows (update_rows or_id (or_id r) f rows)"
    using assms same_order [OF assms(1)] unfolding update_rows_def list_all2_map2
    by (intro list.rel_refl_strong) auto
  then show ?thesis unfolding orders_moved_def by (intro exI conjI) (rule append_Nil2 [symmetric])
qed

lemma orders_moved_member:
  "orders_moved rows rows' \<Longrightarrow> r \<in> set rows \<Longrightarrow> \<exists>r' \<in> set rows'. order_kept r r'"
  unfolding orders_moved_def using list_all2_member by fastforce

section \<open>Accepting an order\<close>

lemma quote_db_limits [simp]:
  "lockAndQuoteCart lib h (db\<lparr>sh_limits := l\<rparr>) a ts k now = lockAndQuoteCart lib h db a ts k now"
proof -
  have rows: "quote_rows (db\<lparr>sh_limits := l\<rparr>) ids = quote_rows db ids" for ids
    by (simp add: quote_rows_def title_join_def [abs_def] cong: option.case_cong)
  have "title_holds_of (db\<lparr>sh_limits := l\<rparr>) u ids k now = title_holds_of db u ids k now" for u ids
  proof -
    have "owned_titles (db\<lparr>sh_limits := l\<rparr>) w ids = owned_titles db w ids"
      "claimable_purchases (db\<lparr>sh_limits := l\<rparr>) e ids = claimable_purchases db e ids"
      "suspended_purchases (db\<lparr>sh_limits := l\<rparr>) w ids = suspended_purchases db w ids"
      "held_items (db\<lparr>sh_limits := l\<rparr>) w ids = held_items db w ids" for w e
      by (simp_all add: owned_titles_def claimable_purchases_def suspended_purchases_def held_items_def
          cong: if_cong)
    then show ?thesis by (simp add: title_holds_of_def cong: option.case_cong if_cong)
  qed
  then show ?thesis
    by (simp add: lockAndQuoteCart_eq quoteCart_def buildQuote_def purchasable_rows_def rows)
qed

lemma account_email_limits [simp]: "accountEmail lib (db\<lparr>sh_limits := l\<rparr>) u = accountEmail lib db u"
  by (simp add: accountEmail_def)

lemma createOrderFromQuote_Inr:
  assumes "createOrderFromQuote lib cy newId newItemId clock input validated now db = Inr (accepted, db')"
  obtains quote email digest where
    "lockAndQuoteCart lib (cy_sha256 cy) db (ai_actor input) (vi_titleIds validated)
       (Some (vi_checkoutAttemptId validated)) now = Inr quote"
    "qu_fingerprint quote = vi_quoteFingerprint validated" "qu_items quote \<noteq> []" "qu_currency quote \<noteq> None"
    "ao_order accepted = accepted_order_row newId clock (ai_actor input) email quote
       (vi_checkoutAttemptId validated) digest"
    "ao_items accepted = by_title (map (accepted_item_row newItemId newId) (qu_items quote))"
    "ao_reused accepted = False"
    "orders_ok (sh_orders db @ [ao_order accepted])"
    "items_ok (sh_items db @ map (accepted_item_row newItemId newId) (qu_items quote))"
    "db' = append_audit ''commerce.checkout_created'' ''order'' newId
       (db\<lparr>sh_orders := sh_orders db @ [ao_order accepted],
          sh_items := sh_items db @ map (accepted_item_row newItemId newId) (qu_items quote)\<rparr>)"
  using assms
  by (auto simp: createOrderFromQuote_def rbind_eq_Inr insertAcceptedOrder_def insertAcceptedOrderItems_def
      equalSha256_def Let_def split: if_splits prod.splits)

lemma createAcceptedOrder_cases:
  assumes run: "createAcceptedOrder lib cy newId newItemId clock input now reuseNow db = (res, db')"
  obtains (same) limits where "db' = db\<lparr>sh_limits := limits\<rparr>"
    "\<And>accepted. res = Inr accepted \<Longrightarrow> ao_reused accepted \<and> ao_order accepted \<in> set (sh_orders db)"
  | (created) limits accepted validated quote email digest where
    "res = Inr accepted" "validateInput lib input = Inr validated"
    "\<And>r. r \<in> set (sh_orders db) \<Longrightarrow> or_clientCheckoutAttemptId r \<noteq> vi_checkoutAttemptId validated"
    "lockAndQuoteCart lib (cy_sha256 cy) db (ai_actor input) (vi_titleIds validated)
       (Some (vi_checkoutAttemptId validated)) now = Inr quote"
    "qu_fingerprint quote = vi_quoteFingerprint validated" "qu_items quote \<noteq> []" "qu_currency quote \<noteq> None"
    "ao_order accepted = accepted_order_row newId clock (ai_actor input) email quote
       (vi_checkoutAttemptId validated) digest"
    "ao_items accepted = by_title (map (accepted_item_row newItemId newId) (qu_items quote))"
    "ao_reused accepted = False"
    "orders_ok (sh_orders db @ [ao_order accepted])"
    "items_ok (sh_items db @ map (accepted_item_row newItemId newId) (qu_items quote))"
    "db' = append_audit ''commerce.checkout_created'' ''order'' newId
       (db\<lparr>sh_limits := limits, sh_orders := sh_orders db @ [ao_order accepted],
          sh_items := sh_items db @ map (accepted_item_row newItemId newId) (qu_items quote)\<rparr>)"
proof (cases "validateInput lib input")
  case (Inl e)
  then show thesis using run by (intro same [of "sh_limits db"]) (auto simp: createAcceptedOrder_def)
next
  case v: (Inr validated)
  show thesis
  proof (cases "consume_checkout_limit cy input now db")
    case (Inl e)
    then show thesis using run v by (intro same [of "sh_limits db"]) (auto simp: createAcceptedOrder_def)
  next
    case c: (Inr dc)
    then obtain decision limits where dc: "dc = (decision, db\<lparr>sh_limits := limits\<rparr>)"
      by (auto simp: consume_checkout_limit_def split: sum.splits)
    show thesis
    proof (cases "ld_allowed decision")
      case False
      then show thesis using run v c dc by (intro same [of limits]) (auto simp: createAcceptedOrder_def)
    next
      case allowed: True
      show thesis
      proof (cases "find (\<lambda>r. or_clientCheckoutAttemptId r = vi_checkoutAttemptId validated) (sh_orders db)")
        case (Some existing)
        have kept: "ao_reused accepted \<and> ao_order accepted = existing"
          if "reuseAcceptedOrder lib cy d existing input validated t = Inr accepted" for d t accepted
          using that by (auto simp: reuseAcceptedOrder_def rbind_eq_Inr Let_def split: if_splits)
        show thesis
          by (cases "reuseAcceptedOrder lib cy (db\<lparr>sh_limits := limits\<rparr>) existing input validated reuseNow")
            (use run v c dc allowed Some kept find_row_member [OF Some] in
              \<open>auto simp: createAcceptedOrder_def intro: same [of limits] same [of "sh_limits db"] split: if_splits\<close>)
      next
        case None
        then have fresh: "or_clientCheckoutAttemptId r \<noteq> vi_checkoutAttemptId validated" if "r \<in> set (sh_orders db)" for r
          using that by (auto simp: find_None_iff)
        show thesis
        proof (cases "createOrderFromQuote lib cy newId newItemId clock input validated now (db\<lparr>sh_limits := limits\<rparr>)")
          case (Inl e)
          then show thesis using run v c dc allowed None
            by (auto simp: createAcceptedOrder_def intro: same [of limits] same [of "sh_limits db"] split: if_splits)
        next
          case (Inr out)
          obtain accepted db2 where out: "out = (accepted, db2)" by (cases out)
          have res: "res = Inr accepted" "db' = db2"
            using run v c dc allowed None Inr out by (auto simp: createAcceptedOrder_def)
          show thesis
            by (rule createOrderFromQuote_Inr [OF Inr [unfolded out]])
              (rule created [of accepted validated _ _ _ limits];
                use res v fresh in \<open>simp add: append_audit_def\<close>)
        qed
      qed
    qed
  qed
qed

section \<open>Attaching a session\<close>

lemma attach_moves:
  assumes ok: "orders_ok (sh_orders db)" and run: "attachCheckoutSession input now db = (res, db')"
  obtains rows audit where "db' = db\<lparr>sh_orders := rows, sh_audit := audit\<rparr>"
    "list_all2 order_kept (sh_orders db) rows" "orders_ok rows"
    "\<And>r. r \<in> set rows \<Longrightarrow> or_status r = Order_paid \<Longrightarrow> r \<in> set (sh_orders db)"
proof -
  note result = that
  have same: thesis if "db' = db"
    using that ok by (intro result [where rows = "sh_orders db" and audit = "sh_audit db"]) (simp_all add: list.rel_refl)
  have audited: thesis if "db' = auditSessionConflict k db" for k
    using that ok
    by (intro result [where rows = "sh_orders db"]) (simp_all add: list.rel_refl auditSessionConflict_def append_audit_def)
  show thesis
  proof (cases "attachTransaction input now db")
    case (Inl e)
    then show thesis using run same by (auto simp: attachCheckoutSession_def split: if_splits)
  next
    case (Inr out)
    obtain c db1 where out: "out = (c, db1)" by (cases out)
    consider "db' = db" | "db' = db1" using run Inr out by (auto simp: attachCheckoutSession_def split: if_splits)
    then show thesis
    proof cases
      case 2
      obtain order where order: "find_order (at_orderId input) db = Some order"
        using Inr by (auto simp: attachTransaction_def split: option.splits)
      note o = find_order_Some [OF order]
      have eq: "z = order" if "z \<in> set (sh_orders db)" "or_id z = or_id order" for z
        using same_order [OF ok that(1) conjunct1 [OF o] that(2)] .
      let ?m = "\<lambda>f. update_rows or_id (or_id order) f (sh_orders db)"
      have moved: thesis
        if db1: "db1 = db\<lparr>sh_orders := ?m f\<rparr> \<or> db1 = auditSessionConflict (or_id order) (db\<lparr>sh_orders := ?m f\<rparr>)"
          and f: "orders_ok (?m f)" "order_kept order (f order)" "or_status (f order) \<noteq> Order_paid" for f
      proof -
        obtain a where "db' = db\<lparr>sh_orders := ?m f, sh_audit := a\<rparr>"
          using db1 2 by (auto simp: auditSessionConflict_def append_audit_def)
            (metis (no_types, lifting) shop_db.surjective shop_db.update_convs(14))
        moreover have "list_all2 order_kept (sh_orders db) (?m f)"
          using f(2) unfolding update_rows_def list_all2_map2
          by (intro list.rel_refl_strong) (auto dest: eq)
        moreover have "r \<in> set (sh_orders db)" if "r \<in> set (?m f)" "or_status r = Order_paid" for r
          using that f(3) by (auto simp: set_update_rows dest: eq split: if_splits)
        ultimately show thesis using f(1) by (intro result [where rows = "?m f" and audit = a])
      qed
      from Inr [unfolded out] consider "db1 = db" | "db1 = auditSessionConflict (or_id order) db"
        | (opened) "or_status order = Checkout_pending"
          "update_order (or_id order) (\<lambda>r. r\<lparr>or_status := Checkout_open, or_updatedAt := now\<rparr>) db = Inr db1"
        | (attached) d where "or_status order = Checkout_pending" "or_stripeCheckoutSessionId order = None"
          "update_order (or_id order) (open_session input now) db = Inr d"
          "db1 = d \<or> db1 = auditSessionConflict (or_id order) d"
        | (parked) d where "or_status order \<in> {Checkout_pending, Checkout_open, Order_payment_pending}"
          "update_order (or_id order) (\<lambda>r. r\<lparr>or_status := Order_exception, or_updatedAt := now\<rparr>) db = Inr d"
          "db1 = auditSessionConflict (or_id order) d"
        unfolding attachTransaction_def order option.case rbind_eq_Inr
        by (auto simp: rbind_eq_Inr split: if_splits simp del: update_order_Inr)
      then show thesis
      proof cases
        case opened
        then show thesis
          by (intro moved [of "\<lambda>r. r\<lparr>or_status := Checkout_open, or_updatedAt := now\<rparr>"])
            (simp_all add: order_kept_def order_terms_def order_session_def)
      next
        case attached
        then show thesis
          by (intro moved [of "open_session input now"])
            (auto simp: order_kept_def order_terms_def open_session_def)
      next
        case parked
        then show thesis
          by (intro moved [of "\<lambda>r. r\<lparr>or_status := Order_exception, or_updatedAt := now\<rparr>"])
            (auto simp: order_kept_def order_terms_def order_session_def)
      qed (use 2 same audited in auto)
    qed (rule same)
  qed
qed

section \<open>Recording a payment\<close>

lemma store_payment_Inr:
  assumes ok: "payments_ok (sh_payments db)"
    and existing: "\<And>e. existing = Some e \<Longrightarrow> e \<in> set (sh_payments db)"
    and run: "storePaymentEvidence newId existing orderId payment paid failed now db = Inr (ev, db')"
  obtains rows where "db' = db\<lparr>sh_payments := rows\<rparr>" "payments_ok rows" "ev \<in> set rows"
    "py_orderId ev = orderId" "py_stripePaymentIntentId ev = ps_paymentIntentId payment"
    "py_amountMinor ev = ps_amountMinor payment" "py_currency ev = js_upper (ps_currency payment)"
    "py_status ev = Payment_succeeded \<longleftrightarrow> paid"
    "\<And>p. p \<in> set (sh_payments db) \<Longrightarrow> py_status p = Payment_succeeded \<Longrightarrow> p \<in> set rows"
    "\<And>p. p \<in> set rows \<Longrightarrow> p = ev \<or> p \<in> set (sh_payments db)"
proof (cases existing)
  case None
  with run have "db' = db\<lparr>sh_payments := sh_payments db @ [ev]\<rparr>" "payments_ok (sh_payments db @ [ev])"
    by (auto simp: storePaymentEvidence_def Let_def rbind_eq_Inr)
  moreover have "py_orderId ev = orderId" "py_stripePaymentIntentId ev = ps_paymentIntentId payment"
    "py_amountMinor ev = ps_amountMinor payment" "py_currency ev = js_upper (ps_currency payment)"
    "py_status ev = Payment_succeeded \<longleftrightarrow> paid"
    using run None by (auto simp: storePaymentEvidence_def Let_def rbind_eq_Inr split: if_splits)
  ultimately show thesis by (intro that [of "sh_payments db @ [ev]"]) simp_all
next
  case (Some e)
  note e = existing [OF Some]
  have terms: "py_orderId e = orderId" "py_stripePaymentIntentId e = ps_paymentIntentId payment"
    "py_amountMinor e = ps_amountMinor payment" "py_currency e = js_upper (ps_currency payment)"
    using run Some by (auto simp: storePaymentEvidence_def assertExistingPayment_def split: if_splits)
  show thesis
  proof (cases "py_status e = Payment_succeeded")
    case True
    have "paid" "ev = e" "db' = db"
      using run Some True by (auto simp: storePaymentEvidence_def rbind_eq_Inr split: if_splits)
    then show thesis using terms e ok True by (intro that [of "sh_payments db"]) auto
  next
    case False
    define u where u: "u = e\<lparr>py_stripeLatestChargeId := ps_latestChargeId payment,
      py_status := (if paid then Payment_succeeded
        else if py_status e = Payment_failed \<or> failed then Payment_failed else Payment_pending),
      py_paymentMethodCategory := ps_paymentMethodCategory payment,
      py_paidAt := (if paid then ps_paidAt payment else None),
      py_financialEvidenceStatus := Evidence_pending, py_updatedAt := now\<rparr>"
    have "storePaymentEvidence newId existing orderId payment paid failed now db =
      rbind (assertExistingPayment e orderId payment) (\<lambda>_.
        rbind (write_payments (update_rows py_id (py_id e) (\<lambda>_. u) (sh_payments db)) db) (\<lambda>db'. Inr (u, db')))"
      using Some False by (simp add: storePaymentEvidence_def u Let_def)
    with run have r: "ev = u" "db' = db\<lparr>sh_payments := update_rows py_id (py_id e) (\<lambda>_. u) (sh_payments db)\<rparr>"
      "payments_ok (update_rows py_id (py_id e) (\<lambda>_. u) (sh_payments db))"
      by (auto simp: rbind_eq_Inr)
    show thesis
    proof (rule that [OF r(2,3)])
      show "ev \<in> set (update_rows py_id (py_id e) (\<lambda>_. u) (sh_payments db))"
        using e r(1) by (force simp: set_update_rows)
      fix p assume p: "p \<in> set (sh_payments db)" "py_status p = Payment_succeeded"
      have "py_id p \<noteq> py_id e"
        using p e ok False by (auto simp: payments_ok_def distinct_map dest: inj_onD)
      then show "p \<in> set (update_rows py_id (py_id e) (\<lambda>_. u) (sh_payments db))"
        using p(1) by (force simp: set_update_rows)
    next
      fix p assume "p \<in> set (update_rows py_id (py_id e) (\<lambda>_. u) (sh_payments db))"
      then show "p = ev \<or> p \<in> set (sh_payments db)" using r(1) by (auto simp: set_update_rows split: if_splits)
    qed (use terms r(1) u False in simp_all)
  qed
qed

section \<open>Granting the items\<close>

lemma grant_items_Inr:
  assumes "grant_items ids owner paidAt now items a = Inr a'"
  shows "a' = a\<lparr>ad_grants := ad_grants a @ map (purchase_grant ids owner paidAt now) items\<rparr> \<and>
    distinct (map eg_id (map (purchase_grant ids owner paidAt now) items)) \<and>
    (\<forall>i \<in> set items. fi_grant ids (oi_id i) \<notin> eg_id ` set (ad_grants a) \<and>
       Some (oi_id i) \<notin> set (purchased_items (ad_grants a)) \<and> grant_check (purchase_grant ids owner paidAt now i)) \<and>
    distinct (map oi_id items)"
  using assms
proof (induction items arbitrary: a)
  case Nil
  then show ?case by (simp add: grant_items_def)
next
  case (Cons i items)
  let ?g = "purchase_grant ids owner paidAt now i"
  let ?a = "a\<lparr>ad_grants := ad_grants a @ [?g]\<rparr>"
  have step: "grant_check ?g" "eg_id ?g \<notin> eg_id ` set (ad_grants a)"
      "eg_orderItemId ?g \<notin> set (purchased_items (ad_grants a))"
    and rest: "grant_items ids owner paidAt now items ?a = Inr a'"
    using Cons.prems by (auto simp: grant_items_def createPurchaseGrant_def rbind_eq_Inr Let_def split: if_splits)
  from Cons.IH [OF rest] step show ?case
    by (auto simp: purchase_grant_def purchased_items_def)
qed

text \<open>Projecting makes exactly the scopes of the items agree with the grants.\<close>

lemma project_items_effect:
  assumes "access_wf a" and "fresh_ids (fi_entitlement ids) a"
  shows "access_wf (project_items ids u now items a) \<and>
    ad_grants (project_items ids u now items a) = ad_grants a \<and>
    (\<forall>v t. entitled (project_items ids u now items a) v t \<longleftrightarrow>
      (if v = u \<and> t \<in> oi_titleId ` set items then granted a v t else entitled a v t))"
  using assms
proof (induction items arbitrary: a)
  case Nil
  then show ?case by (simp add: project_items_def)
next
  case (Cons i items)
  let ?a = "snd (projectEffectiveEntitlement (fi_entitlement ids u (oi_titleId i)) u (oi_titleId i) now a)"
  have wf: "access_wf ?a"
    by (rule project_wf [OF Cons.prems(1)]) (use Cons.prems(2) in \<open>simp add: fresh_ids_def\<close>)
  have "fresh_ids (fi_entitlement ids) ?a" by (rule project_fresh [OF Cons.prems])
  from Cons.IH [OF wf this] show ?case
    using project_entitled [OF Cons.prems(1)]
    by (auto simp: project_items_def default_projector_def)
qed

lemma purchase_grants_consistent:
  assumes wf: "access_wf a" and c: "access_consistent a" and f: "fresh_ids (fi_entitlement ids) a"
    and run: "grant_items ids owner paidAt now items a = Inr a1" and owner: "owner \<noteq> Some []"
    and a': "a' = (case owner of None \<Rightarrow> a1 | Some u \<Rightarrow> project_items ids u now items a1)"
  shows "access_wf a' \<and> access_consistent a' \<and> ad_grants a' = ad_grants a @ map (purchase_grant ids owner paidAt now) items"
proof -
  let ?gs = "map (purchase_grant ids owner paidAt now) items"
  note g = grant_items_Inr [OF run]
  have a1: "a1 = a\<lparr>ad_grants := ad_grants a @ ?gs\<rparr>" using g by simp
  have ent: "entitled a1 v t = entitled a v t" for v t using a1 by (simp add: entitled_def)
  have gr: "granted a1 v t \<longleftrightarrow> granted a v t \<or> (owner = Some v \<and> t \<in> oi_titleId ` set items)" for v t
    unfolding a1 granted_def by (simp add: bex_Un image_iff purchase_grant_def) blast
  have "eg_id x \<noteq> eg_id y" if x: "x \<in> set (ad_grants a)" and y: "y \<in> set ?gs" for x y
  proof -
    from y obtain i where i: "i \<in> set items" "y = purchase_grant ids owner paidAt now i" by auto
    have "fi_grant ids (oi_id i) \<notin> eg_id ` set (ad_grants a)" using g i(1) by blast
    moreover have "eg_id y = fi_grant ids (oi_id i)" using i(2) by (simp add: purchase_grant_def)
    ultimately show ?thesis using x by force
  qed
  then have "distinct (map eg_id (ad_grants a1))" using wf g a1 by (auto simp: access_wf_def)
  moreover have "\<forall>x \<in> set ?gs. eg_userId x \<noteq> Some []" using owner by (auto simp: purchase_grant_def)
  ultimately have wf1: "access_wf a1" using wf a1 by (auto simp: access_wf_def)
  show ?thesis
  proof (cases owner)
    case None
    with a' c gr ent wf1 a1 show ?thesis by (simp add: access_consistent_def)
  next
    case (Some u)
    have fr: "fresh_ids (fi_entitlement ids) a1" using f a1 by (simp add: fresh_ids_def scope_entitlement_def)
    have a': "a' = project_items ids u now items a1" using a' Some by simp
    note e = project_items_effect [OF wf1 fr, of u now items, folded a']
    have "entitled a' v t = granted a' v t" for v t
    proof -
      have "granted a' v t = granted a1 v t" using e by (simp add: granted_def)
      moreover have "entitled a' v t = granted a1 v t"
        using e ent [of v t] gr [of v t] c Some by (auto simp: access_consistent_def)
      ultimately show ?thesis by simp
    qed
    then show ?thesis using e g by (simp add: access_consistent_def)
  qed
qed

end
