(* ===== verification/FulfillmentFacts.thy ===== *)
theory FulfillmentFacts
  imports CheckoutFacts
begin

text \<open>
  What fulfilling an event does to the shop: either nothing that a paid order could notice, or it
  pays exactly one order, from evidence that agrees with the order line by line.
\<close>

section \<open>Writing the lines of a session to the items\<close>

definition line_of :: "checkout_line list \<Rightarrow> shop_item_row \<Rightarrow> checkout_line option" where
  "line_of lines i = find (\<lambda>l. cl_orderItemId l = oi_id i) lines"

definition item_paid :: "checkout_line list \<Rightarrow> shop_item_row \<Rightarrow> shop_item_row" where
  "item_paid lines i = (case line_of lines i of
     None \<Rightarrow> i
   | Some l \<Rightarrow> i\<lparr>oi_taxMinor := Some (cl_taxMinor l), oi_totalMinor := Some (cl_totalMinor l),
       si_stripeLineItemId := Some (cl_providerLineItemId l)\<rparr>)"

lemma item_paid_terms [simp]:
  "oi_id (item_paid lines i) = oi_id i" "oi_titleId (item_paid lines i) = oi_titleId i"
  "si_orderId (item_paid lines i) = si_orderId i" "oi_unitSubtotalMinor (item_paid lines i) = oi_unitSubtotalMinor i"
  "oi_currency (item_paid lines i) = oi_currency i"
  by (simp_all add: item_paid_def split: option.split)

lemma write_lines_Inr:
  assumes "rfold (write_line items) lines db = Inr db'" and "distinct (map cl_orderItemId lines)"
  shows "db' = db\<lparr>sh_items := map (item_paid lines) (sh_items db)\<rparr> \<and>
    (lines \<noteq> [] \<longrightarrow> items_ok (map (item_paid lines) (sh_items db)))"
  using assms
proof (induction lines arbitrary: db)
  case Nil
  have "map (item_paid []) rows = rows" for rows by (induction rows) (simp_all add: item_paid_def line_of_def)
  with Nil show ?case by simp
next
  case (Cons l lines)
  let ?f = "\<lambda>i. i\<lparr>oi_taxMinor := Some (cl_taxMinor l), oi_totalMinor := Some (cl_totalMinor l),
    si_stripeLineItemId := Some (cl_providerLineItemId l)\<rparr>"
  from Cons.prems(1) obtain db1 where w: "write_line items l db = Inr db1"
    and rest: "rfold (write_line items) lines db1 = Inr db'" by (auto simp: rbind_eq_Inr)
  from w obtain item where item: "find (\<lambda>i. oi_id i = cl_orderItemId l) items = Some item"
    "db1 = db\<lparr>sh_items := update_rows oi_id (oi_id item) ?f (sh_items db)\<rparr>"
    "items_ok (update_rows oi_id (oi_id item) ?f (sh_items db))"
    by (auto simp: write_line_def split: option.splits)
  have k: "oi_id item = cl_orderItemId l" using find_row_member [OF item(1)] by simp
  have map_eq: "map (item_paid lines) (sh_items db1) = map (item_paid (l # lines)) (sh_items db)"
  proof -
    have "item_paid lines (if oi_id i = cl_orderItemId l then ?f i else i) = item_paid (l # lines) i" for i
    proof (cases "oi_id i = cl_orderItemId l")
      case True
      have "line_of lines (?f i) = None"
        using Cons.prems(2) True by (auto simp: line_of_def find_None_iff intro: rev_image_eqI)
      then show ?thesis using True by (simp add: item_paid_def line_of_def)
    next
      case False
      then show ?thesis by (simp add: item_paid_def line_of_def)
    qed
    then show ?thesis by (simp add: item(2) k update_rows_def comp_def)
  qed
  have ih: "db' = db1\<lparr>sh_items := map (item_paid lines) (sh_items db1)\<rparr> \<and>
      (lines \<noteq> [] \<longrightarrow> items_ok (map (item_paid lines) (sh_items db1)))"
    by (rule Cons.IH [OF rest]) (use Cons.prems(2) in simp)
  have "items_ok (map (item_paid (l # lines)) (sh_items db))"
  proof (cases lines)
    case Nil
    have "map (item_paid []) rows = rows" for rows by (induction rows) (simp_all add: item_paid_def line_of_def)
    then show ?thesis using item(2,3) Nil map_eq by simp
  qed (use ih map_eq in simp)
  then show ?case using ih map_eq item(2) by simp
qed

section \<open>The evidence of a paid order\<close>

lemma parse_snapshot_Inr:
  assumes "parseCheckoutSnapshot lib raw = Inr s"
  shows "cs_lineItems s = cs_lineItems raw \<and> distinct (map cl_orderItemId (cs_lineItems s)) \<and> cs_lineItems s \<noteq> [] \<and>
    sum_list (map cl_totalMinor (cs_lineItems s)) = cs_totalMinor s \<and>
    cs_metadataOrderId s = cs_metadataOrderId raw \<and> cs_paymentIntentId s = cs_paymentIntentId raw \<and>
    cs_providerSessionId s = cs_providerSessionId raw \<and> cs_paymentStatus s = cs_paymentStatus raw"
  using assms unfolding parseCheckoutSnapshot_def Let_def by (simp split: if_splits) auto

lemma validate_Inr:
  assumes "validateFulfillmentCommand lib order items raw rawPayment live = Inr command"
  obtains s where "parseCheckoutSnapshot lib raw = Inr s" "validateLocalAndLineEvidence order items s = Inr ()"
    "case command of
       Pending_command session p \<Rightarrow> session = s \<and> payment_evidence_matches order s p live
     | Paid_command session p email \<Rightarrow> session = s \<and> payment_evidence_matches order s p live \<and>
         ps_state p = Payment_succeeded \<and> ps_paidAt p \<noteq> None \<and> paidPurchaseEmail lib order s = Inr email
     | Failed_command session p \<Rightarrow> session = s \<and> payment_evidence_matches order s p live
     | Expired_command session \<Rightarrow> session = s"
proof -
  note result = that
  from assms obtain s where s: "parseCheckoutSnapshot lib raw = Inr s"
    "validateLocalAndLineEvidence order items s = Inr ()"
    by (auto simp: validateFulfillmentCommand_def rbind_eq_Inr split: if_splits)
  have parsed: "p' = p \<and> (ps_state p = Payment_succeeded \<longrightarrow> ps_paidAt p \<noteq> None)"
    if "parsePaymentSnapshot lib p = Inr p'" for p p'
    using that by (simp add: parsePaymentSnapshot_def split: if_splits)
  show thesis
  proof (rule result [OF s])
    show "case command of
       Pending_command session p \<Rightarrow> session = s \<and> payment_evidence_matches order s p live
     | Paid_command session p email \<Rightarrow> session = s \<and> payment_evidence_matches order s p live \<and>
         ps_state p = Payment_succeeded \<and> ps_paidAt p \<noteq> None \<and> paidPurchaseEmail lib order s = Inr email
     | Failed_command session p \<Rightarrow> session = s \<and> payment_evidence_matches order s p live
     | Expired_command session \<Rightarrow> session = s"
      using assms s parsed
      by (auto simp: validateFulfillmentCommand_def rbind_eq_Inr split: if_splits option.splits) (use parsed in blast)+
  qed
qed

text \<open>The lines of the session are exactly the items of the order.\<close>

lemma lines_are_items:
  assumes v: "validateLocalAndLineEvidence order items s = Inr ()"
    and d: "distinct (map cl_orderItemId (cs_lineItems s))"
  shows "items \<noteq> [] \<and> distinct (map oi_id items) \<and>
    mset (map cl_orderItemId (cs_lineItems s)) = mset (map oi_id items) \<and>
    (\<forall>i \<in> set items. \<exists>l \<in> set (cs_lineItems s). line_of (cs_lineItems s) i = Some l \<and> cl_orderItemId l = oi_id i \<and>
      cl_subtotalMinor l = oi_unitSubtotalMinor i)"
proof -
  let ?ls = "cs_lineItems s"
  have e: "items \<noteq> []" "distinct (map oi_id items)" "length items = length ?ls" "list_all (line_matches order items) ?ls"
    using v by (auto simp: validateLocalAndLineEvidence_def throw_if_def split: if_splits)
  have match: "\<exists>i \<in> set items. oi_id i = cl_orderItemId l \<and> cl_subtotalMinor l = oi_unitSubtotalMinor i"
    if "l \<in> set ?ls" for l
    using e(4) that index_by_SomeD unfolding list_all_iff line_matches_def by (fastforce split: option.splits)
  then have "set (map cl_orderItemId ?ls) \<subseteq> set (map oi_id items)" by force
  moreover have "card (set (map cl_orderItemId ?ls)) = card (set (map oi_id items))"
    using d e(2,3) distinct_card [OF d] distinct_card [OF e(2)] by simp
  ultimately have sets: "set (map cl_orderItemId ?ls) = set (map oi_id items)" by (intro card_subset_eq) simp_all
  then have "mset (map cl_orderItemId ?ls) = mset (map oi_id items)" using d e(2) set_eq_iff_mset_eq_distinct by blast
  moreover have "\<exists>l \<in> set ?ls. line_of ?ls i = Some l \<and> cl_orderItemId l = oi_id i \<and> cl_subtotalMinor l = oi_unitSubtotalMinor i"
    if i: "i \<in> set items" for i
  proof -
    have "oi_id i \<in> set (map cl_orderItemId ?ls)" using sets i by simp
    then have "line_of ?ls i \<noteq> None" by (auto simp: line_of_def find_None_iff)
    then obtain l where l: "line_of ?ls i = Some l" by blast
    then have l': "l \<in> set ?ls" "cl_orderItemId l = oi_id i"
      using find_row_member [of "\<lambda>l. cl_orderItemId l = oi_id i" ?ls l] by (simp_all add: line_of_def)
    obtain j where j: "j \<in> set items" "oi_id j = cl_orderItemId l" "cl_subtotalMinor l = oi_unitSubtotalMinor j"
      using match [OF l'(1)] by blast
    have "j = i" using e(2) i j(1,2) l'(2) by (simp add: distinct_map inj_on_def)
    then show ?thesis using l l' j(3) by blast
  qed
  ultimately show ?thesis using e(1,2) by blast
qed

lemma paid_items_total:
  assumes "distinct (map cl_orderItemId ls)" and "distinct (map oi_id items)"
    and "mset (map cl_orderItemId ls) = mset (map oi_id items)"
    and "\<forall>i \<in> set items. \<exists>l \<in> set ls. line_of ls i = Some l \<and> cl_orderItemId l = oi_id i \<and> Q l i"
  shows "sum_list (map (\<lambda>i. the (oi_totalMinor (item_paid ls i))) items) = sum_list (map cl_totalMinor ls)"
    and "\<forall>i \<in> set items. oi_totalMinor (item_paid ls i) \<noteq> None"
proof -
  let ?t = "\<lambda>k. case find (\<lambda>l. cl_orderItemId l = k) ls of None \<Rightarrow> 0 | Some l \<Rightarrow> cl_totalMinor l"
  have "the (oi_totalMinor (item_paid ls i)) = ?t (oi_id i) \<and> oi_totalMinor (item_paid ls i) \<noteq> None"
    if "i \<in> set items" for i
  proof -
    from assms(4) that obtain l where "line_of ls i = Some l" by blast
    then show ?thesis by (simp add: item_paid_def line_of_def)
  qed
  then have items: "map (\<lambda>i. the (oi_totalMinor (item_paid ls i))) items = map ?t (map oi_id items)"
    and some: "\<forall>i \<in> set items. oi_totalMinor (item_paid ls i) \<noteq> None"
    by simp_all
  have "find (\<lambda>m. cl_orderItemId m = cl_orderItemId l) ls = Some l" if "l \<in> set ls" for l
    using assms(1) that
  proof (induction ls)
    case (Cons m ls)
    then show ?case by (cases "m = l") auto
  qed simp
  then have lines: "map ?t (map cl_orderItemId ls) = map cl_totalMinor ls" by simp
  have "mset (map ?t (map oi_id items)) = mset (map ?t (map cl_orderItemId ls))"
    using assms(3) by (metis mset_map)
  then have "sum_list (map ?t (map oi_id items)) = sum_list (map ?t (map cl_orderItemId ls))"
    by (metis sum_mset_sum_list)
  then show "sum_list (map (\<lambda>i. the (oi_totalMinor (item_paid ls i))) items) = sum_list (map cl_totalMinor ls)"
    unfolding items lines .
  show "\<forall>i \<in> set items. oi_totalMinor (item_paid ls i) \<noteq> None" by (rule some)
qed

section \<open>Changes a paid order does not notice\<close>

definition quiet :: "shop_db \<Rightarrow> shop_db \<Rightarrow> bool" where
  "quiet db db' \<longleftrightarrow> sh_items db' = sh_items db \<and> sh_access db' = sh_access db \<and> sh_messages db' = sh_messages db \<and>
     list_all2 order_kept (sh_orders db) (sh_orders db') \<and>
     (\<forall>r \<in> set (sh_orders db'). or_status r = Order_paid \<longrightarrow> r \<in> set (sh_orders db)) \<and>
     (\<forall>p. py_status p = Payment_succeeded \<longrightarrow> (p \<in> set (sh_payments db') \<longleftrightarrow> p \<in> set (sh_payments db))) \<and>
     py_orderId ` set (sh_payments db') \<subseteq> py_orderId ` set (sh_payments db) \<union> or_id ` set (sh_orders db) \<and>
     (\<forall>g \<in> set (sh_guests db'). g \<in> set (sh_guests db) \<or> gi_claimedByUserId g = None)"

lemma quiet_same:
  assumes "sh_items db' = sh_items db" and "sh_access db' = sh_access db" and "sh_messages db' = sh_messages db"
    and "sh_orders db' = sh_orders db" and "sh_payments db' = sh_payments db" and "sh_guests db' = sh_guests db"
  shows "quiet db db'"
  using assms by (auto simp: quiet_def list.rel_refl)

lemma order_kept_id: "order_kept r r' \<Longrightarrow> or_id r' = or_id r"
  unfolding order_kept_def order_terms_def by blast

lemma kept_ids: "list_all2 order_kept rows rows' \<Longrightarrow> map or_id rows' = map or_id rows"
  by (induction rule: list_all2_induct) (simp_all add: order_kept_id)

lemma quietD:
  assumes "quiet db db'"
  shows "sh_items db' = sh_items db" and "sh_access db' = sh_access db" and "sh_messages db' = sh_messages db"
    and "list_all2 order_kept (sh_orders db) (sh_orders db')"
    and "r \<in> set (sh_orders db') \<Longrightarrow> or_status r = Order_paid \<Longrightarrow> r \<in> set (sh_orders db)"
    and "py_status p = Payment_succeeded \<Longrightarrow> p \<in> set (sh_payments db') \<longleftrightarrow> p \<in> set (sh_payments db)"
    and "py_orderId ` set (sh_payments db') \<subseteq> py_orderId ` set (sh_payments db) \<union> or_id ` set (sh_orders db)"
    and "g \<in> set (sh_guests db') \<Longrightarrow> g \<in> set (sh_guests db) \<or> gi_claimedByUserId g = None"
  using assms by (simp_all only: quiet_def)

lemma quiet_order_ids: "quiet db db' \<Longrightarrow> or_id ` set (sh_orders db') = or_id ` set (sh_orders db)"
  using kept_ids [OF quietD(4)] by (metis set_map)

lemma quiet_trans:
  assumes 1: "quiet db db'" and 2: "quiet db' db''"
  shows "quiet db db''"
  unfolding quiet_def
proof (intro conjI ballI allI impI)
  show "sh_items db'' = sh_items db" by (rule trans [OF quietD(1) [OF 2] quietD(1) [OF 1]])
  show "sh_access db'' = sh_access db" by (rule trans [OF quietD(2) [OF 2] quietD(2) [OF 1]])
  show "sh_messages db'' = sh_messages db" by (rule trans [OF quietD(3) [OF 2] quietD(3) [OF 1]])
  show "list_all2 order_kept (sh_orders db) (sh_orders db'')"
    by (rule list_all2_trans [OF order_kept_trans quietD(4) [OF 1] quietD(4) [OF 2]])
  show "r \<in> set (sh_orders db)" if "r \<in> set (sh_orders db'')" "or_status r = Order_paid" for r
    by (rule quietD(5) [OF 1 quietD(5) [OF 2 that] that(2)])
  show "p \<in> set (sh_payments db'') \<longleftrightarrow> p \<in> set (sh_payments db)" if "py_status p = Payment_succeeded" for p
    by (rule trans [OF quietD(6) [OF 2 that] quietD(6) [OF 1 that]])
  show "py_orderId ` set (sh_payments db'') \<subseteq> py_orderId ` set (sh_payments db) \<union> or_id ` set (sh_orders db)"
    using quietD(7) [OF 1] quietD(7) [OF 2] unfolding quiet_order_ids [OF 1] by blast
  show "g \<in> set (sh_guests db) \<or> gi_claimedByUserId g = None" if "g \<in> set (sh_guests db'')" for g
    using quietD(8) [OF 2 that]
  proof
    assume "g \<in> set (sh_guests db')"
    then show ?thesis by (rule quietD(8) [OF 1])
  qed simp
qed

lemma settle_event_quiet:
  assumes "settle_event st k now db = Inr db'"
  shows "quiet db db' \<and> (shop_tables_ok db \<longrightarrow> shop_tables_ok db')"
  using assms by (auto simp: settle_event_def shop_tables_ok_def intro!: quiet_same split: if_splits)

lemma complete_event_quiet:
  assumes "completeStripeEvent k now db = Inr db'"
  shows "quiet db db' \<and> (shop_tables_ok db \<longrightarrow> shop_tables_ok db')"
  using assms settle_event_quiet by (simp add: completeStripeEvent_def)

lemma queue_quiet: "quiet db (queueFinancialSource s e g db) \<and> (shop_tables_ok db \<longrightarrow> shop_tables_ok (queueFinancialSource s e g db))"
  by (auto simp: queueFinancialSource_def shop_tables_ok_def intro!: quiet_same)

text \<open>Moving one order to a state that is not paid.\<close>

lemma update_order_quiet:
  assumes ok: "shop_tables_ok db" and r: "r \<in> set (sh_orders db)" and f: "order_kept r (f r)" "or_status (f r) \<noteq> Order_paid"
    and run: "update_order (or_id r) f db = Inr db'"
  shows "quiet db db' \<and> shop_tables_ok db'"
proof -
  let ?rows = "update_rows or_id (or_id r) f (sh_orders db)"
  have o: "orders_ok (sh_orders db)" using ok by (simp add: shop_tables_ok_def)
  have db': "db' = db\<lparr>sh_orders := ?rows\<rparr>" "orders_ok ?rows" using run by simp_all
  have eq: "z = r" if "z \<in> set (sh_orders db)" "or_id z = or_id r" for z using same_order [OF o that(1) r that(2)] .
  have "list_all2 order_kept (sh_orders db) ?rows"
    unfolding update_rows_def list_all2_map2 by (intro list.rel_refl_strong) (use f eq in auto)
  moreover have "z \<in> set (sh_orders db)" if "z \<in> set ?rows" "or_status z = Order_paid" for z
    using that f(2) by (auto simp: set_update_rows dest: eq split: if_splits)
  ultimately show ?thesis using db' ok by (auto simp: quiet_def shop_tables_ok_def)
qed

lemma store_payment_quiet:
  assumes ok: "shop_tables_ok db" and e: "\<And>e. existing = Some e \<Longrightarrow> e \<in> set (sh_payments db)"
    and order: "orderId \<in> or_id ` set (sh_orders db)"
    and run: "storePaymentEvidence newId existing orderId payment False failed now db = Inr (ev, db')"
  shows "quiet db db' \<and> shop_tables_ok db' \<and> sh_orders db' = sh_orders db"
proof (rule store_payment_Inr [OF _ e run])
  show "payments_ok (sh_payments db)" using ok by (simp add: shop_tables_ok_def)
  fix rows
  assume r: "db' = db\<lparr>sh_payments := rows\<rparr>" "payments_ok rows" "py_orderId ev = orderId"
    "(py_status ev = Payment_succeeded) = False"
    "\<And>p. p \<in> set (sh_payments db) \<Longrightarrow> py_status p = Payment_succeeded \<Longrightarrow> p \<in> set rows"
    "\<And>p. p \<in> set rows \<Longrightarrow> p = ev \<or> p \<in> set (sh_payments db)"
  have "py_orderId p \<in> py_orderId ` set (sh_payments db) \<union> or_id ` set (sh_orders db)" if "p \<in> set rows" for p
    using r(6) [OF that] r(3) order by auto
  moreover have "p \<in> set rows \<longleftrightarrow> p \<in> set (sh_payments db)" if "py_status p = Payment_succeeded" for p
    using r(4-6) that by blast
  ultimately show ?thesis using r(1,2) ok by (auto simp: quiet_def shop_tables_ok_def list.rel_refl)
qed (assumption | simp)+

section \<open>Paying an order\<close>

text \<open>What the transaction that pays an order leaves behind.\<close>

definition paid_now :: "checkout_line list \<Rightarrow> order_row \<Rightarrow> shop_db \<Rightarrow> shop_db \<Rightarrow> bool" where
  "paid_now ls order db db' \<longleftrightarrow>
     order \<in> set (sh_orders db) \<and> or_status order \<notin> {Order_paid, Order_expired, Order_exception} \<and>
     (\<exists>f. sh_orders db' = update_rows or_id (or_id order) f (sh_orders db) \<and> order_kept order (f order) \<and>
       or_status (f order) = Order_paid \<and> or_totalMinor (f order) = Some (sum_list (map cl_totalMinor ls))) \<and>
     sh_items db' = map (item_paid ls) (sh_items db) \<and>
     (\<exists>ev \<in> set (sh_payments db'). py_orderId ev = or_id order \<and> py_status ev = Payment_succeeded \<and>
       py_amountMinor ev = sum_list (map cl_totalMinor ls) \<and> py_currency ev = or_currency order \<and>
       (\<forall>p \<in> set (sh_payments db'). p = ev \<or> p \<in> set (sh_payments db))) \<and>
     (\<forall>p \<in> set (sh_payments db). py_status p = Payment_succeeded \<longrightarrow> p \<in> set (sh_payments db')) \<and>
     (\<exists>ids owner paidAt now. ad_grants (sh_access db') = ad_grants (sh_access db) @
        map (purchase_grant ids owner paidAt now) (items_by_id (or_id order) db)) \<and>
     access_wf (sh_access db') \<and> access_consistent (sh_access db') \<and>
     (\<exists>m. sh_messages db' = sh_messages db @ [(m, or_id order)]) \<and>
     (\<forall>g \<in> set (sh_guests db'). g \<in> set (sh_guests db) \<or> gi_claimedByUserId g = None)"

lemma items_by_id_set: "set (items_by_id k db) = {i \<in> set (sh_items db). si_orderId i = k}"
  by (auto simp: items_by_id_def order_items_def)

lemma mset_items_by_id: "mset (items_by_id k db) = mset (filter (\<lambda>i. si_orderId i = k) (sh_items db))"
  by (simp add: items_by_id_def order_items_def)

lemma ownership_user:
  assumes "paid_ownership_of lib db order email guest = Inr ownership"
    and "or_initiatingUserId order \<noteq> Some []" and "\<And>g. guest = Some g \<Longrightarrow> gi_claimedByUserId g \<noteq> Some []"
  shows "pw_grantUserId ownership \<noteq> Some []"
  using assms
  by (auto simp: paid_ownership_of_def resolvePaidFulfillmentOwnership_def Let_def split: if_splits option.splits)

lemma discover_Inr:
  assumes "discoverAndLockPaidGuestIdentity lib ids s payment live db = Inr (guest, db')"
    and "shop_tables_ok db"
  shows "quiet db db' \<and> shop_tables_ok db' \<and> sh_orders db' = sh_orders db \<and> sh_payments db' = sh_payments db \<and>
    (\<forall>g. guest = Some g \<longrightarrow> g \<in> set (sh_guests db'))"
proof -
  have find: "quiet db d \<and> shop_tables_ok d \<and> sh_orders d = sh_orders db \<and> sh_payments d = sh_payments db \<and> g \<in> set (sh_guests d)"
    if "findOrCreateGuestIdentity lib n e db = Inr (g, d)" for n e g d
    using that assms(2)
    by (auto simp: findOrCreateGuestIdentity_def Let_def rbind_eq_Inr shop_tables_ok_def quiet_def list.rel_refl
        dest: find_row_member split: option.splits)
  have same: "quiet db db" by (rule quiet_same) simp_all
  from assms(1) obtain candidate where candidate: "find_order (cs_metadataOrderId s) db = Some candidate"
    by (auto simp: discoverAndLockPaidGuestIdentity_def split: option.splits)
  show ?thesis
  proof (cases "or_initiatingUserId candidate \<noteq> None \<or> cs_paymentStatus s \<noteq> Session_paid")
    case True
    then show ?thesis using assms candidate same by (simp add: discoverAndLockPaidGuestIdentity_def)
  next
    case False
    with assms(1) candidate obtain command where "(case command of
        Paid_command _ _ e \<Rightarrow> rbind (findOrCreateGuestIdentity lib (fi_guest ids) e db) (\<lambda>(identity, d).
          if gi_email identity \<noteq> e then Inl Shop_permanent else Inr (Some identity, d))
      | _ \<Rightarrow> Inl Shop_permanent) = Inr (guest, db')"
      by (simp add: discoverAndLockPaidGuestIdentity_def rbind_eq_Inr) blast
    then obtain e g where "findOrCreateGuestIdentity lib (fi_guest ids) e db = Inr (g, db')" "guest = Some g"
      by (cases command) (auto simp: rbind_eq_Inr split: if_splits)
    then show ?thesis using find by blast
  qed
qed

lemma finalize_Inr:
  assumes "finalizePaidOrder ids order items s payment email ownership now db = Inr db'"
    and "distinct (map cl_orderItemId (cs_lineItems s))" and "cs_lineItems s \<noteq> []"
  obtains a where
    "items_ok (map (item_paid (cs_lineItems s)) (sh_items db))"
    "orders_ok (update_rows or_id (or_id order) (paid_order_row s payment email ownership now) (sh_orders db))"
    "grant_items ids (pw_grantUserId ownership) (the (ps_paidAt payment)) now items (sh_access db) = Inr a"
    "db' = append_audit ''commerce.fulfillment_paid'' ''order'' (or_id order)
      (db\<lparr>sh_items := map (item_paid (cs_lineItems s)) (sh_items db),
         sh_orders := update_rows or_id (or_id order) (paid_order_row s payment email ownership now) (sh_orders db),
         sh_access := (case pw_grantUserId ownership of None \<Rightarrow> a | Some userId \<Rightarrow> project_items ids userId now items a),
         sh_messages := sh_messages db @ [(pw_message ownership, or_id order)]\<rparr>)"
proof -
  note result = that
  from assms(1) obtain db1 db2 a where w: "rfold (write_line items) (cs_lineItems s) db = Inr db1"
    and u: "update_order (or_id order) (paid_order_row s payment email ownership now) db1 = Inr db2"
    and g: "grant_items ids (pw_grantUserId ownership) (the (ps_paidAt payment)) now items (sh_access db2) = Inr a"
    and db': "db' = append_audit ''commerce.fulfillment_paid'' ''order'' (or_id order)
      (db2\<lparr>sh_access := (case pw_grantUserId ownership of None \<Rightarrow> a | Some userId \<Rightarrow> project_items ids userId now items a),
         sh_messages := sh_messages db2 @ [(pw_message ownership, or_id order)]\<rparr>)"
    by (auto simp: finalizePaidOrder_def rbind_eq_Inr Let_def simp del: update_order_Inr)
  note lines = write_lines_Inr [OF w assms(2)]
  have db1: "db1 = db\<lparr>sh_items := map (item_paid (cs_lineItems s)) (sh_items db)\<rparr>" using lines by blast
  show thesis
    by (rule result [of a]) (use lines assms(3) u g db' in \<open>simp_all add: db1\<close>)
qed

lemma early_stage: "st \<notin> {Order_paid, Order_expired, Order_exception} \<Longrightarrow> order_stage st < 4"
  by (cases st) simp_all

lemma paid_row_kept:
  assumes "validateLocalAndLineEvidence order items s = Inr ()"
    and "or_status order \<notin> {Order_paid, Order_expired, Order_exception}"
  shows "order_kept order (paid_order_row s payment email ownership now order)"
  using assms early_stage [OF assms(2)]
  by (auto simp: order_kept_def paid_order_row_def order_terms_def order_session_def
      validateLocalAndLineEvidence_def throw_if_def split: if_splits)

lemma attach_row_kept:
  assumes "validateLocalAndLineEvidence order items s = Inr ()"
    and "or_status order \<notin> {Order_paid, Order_expired, Order_exception}"
    and "st \<in> {Order_payment_pending, Order_failed, Order_expired}"
    and "st = Order_payment_pending \<Longrightarrow> or_status order \<noteq> Order_failed"
  shows "order_kept order (attach_status st s now order)"
proof -
  have "st = or_status order \<or> order_stage (or_status order) < order_stage st"
    using assms(2,3,4) by (cases "or_status order") auto
  then show ?thesis
  using assms
  by (auto simp: order_kept_def attach_status_def order_terms_def order_session_def
      validateLocalAndLineEvidence_def throw_if_def split: if_splits)
qed

section \<open>Fulfilling an event\<close>

lemma existing_payment_Inr:
  "existing_payment order s db = Inr (Some e) \<Longrightarrow> e \<in> set (sh_payments db)"
proof -
  assume run: "existing_payment order s db = Inr (Some e)"
  then have "e \<in> set (locked_payments order s db)"
    by (auto simp: existing_payment_def split: list.splits if_splits)
  then show ?thesis by (simp add: locked_payments_def)
qed

lemma finalize_paid_now:
  assumes ok: "shop_tables_ok db" and order: "order \<in> set (sh_orders db)"
    and st: "or_status order \<notin> {Order_paid, Order_expired, Order_exception}"
    and wf: "access_wf (sh_access db)" and c: "access_consistent (sh_access db)"
    and f: "fresh_ids (fi_entitlement ids) (sh_access db)" and owner: "pw_grantUserId ownership \<noteq> Some []"
    and parse: "parseCheckoutSnapshot lib raw = Inr s"
    and evidence_ok: "validateLocalAndLineEvidence order (items_by_id (or_id order) db) s = Inr ()"
    and ev: "payment_evidence_matches order s p live"
    and existing: "\<And>e. existing = Some e \<Longrightarrow> e \<in> set (sh_payments db)"
    and store: "storePaymentEvidence k existing (or_id order) p True False now db = Inr (evidence, db1)"
    and fin: "finalizePaidOrder ids order (items_by_id (or_id order) db) s p email ownership now db1 = Inr db2"
  shows "paid_now (cs_lineItems s) order db db2 \<and> shop_tables_ok db2"
proof (rule store_payment_Inr [OF _ existing store])
  show "payments_ok (sh_payments db)" using ok by (simp add: shop_tables_ok_def)
  note parsed = parse_snapshot_Inr [OF parse]
  let ?ls = "cs_lineItems s"
  let ?items = "items_by_id (or_id order) db"
  fix rows
  assume r: "db1 = db\<lparr>sh_payments := rows\<rparr>" "payments_ok rows" "evidence \<in> set rows"
    "py_orderId evidence = or_id order" "py_amountMinor evidence = ps_amountMinor p"
    "py_currency evidence = js_upper (ps_currency p)" "(py_status evidence = Payment_succeeded) = True"
    "\<And>q. q \<in> set (sh_payments db) \<Longrightarrow> py_status q = Payment_succeeded \<Longrightarrow> q \<in> set rows"
    "\<And>q. q \<in> set rows \<Longrightarrow> q = evidence \<or> q \<in> set (sh_payments db)"
  show "paid_now ?ls order db db2 \<and> shop_tables_ok db2"
  proof (rule finalize_Inr [OF fin])
    show "distinct (map cl_orderItemId ?ls)" "?ls \<noteq> []" using parsed by blast+
    fix a
    assume items: "items_ok (map (item_paid ?ls) (sh_items db1))"
      and orders: "orders_ok (update_rows or_id (or_id order) (paid_order_row s p email ownership now) (sh_orders db1))"
      and grants: "grant_items ids (pw_grantUserId ownership) (the (ps_paidAt p)) now ?items (sh_access db1) = Inr a"
      and db2: "db2 = append_audit ''commerce.fulfillment_paid'' ''order'' (or_id order)
        (db1\<lparr>sh_items := map (item_paid ?ls) (sh_items db1),
           sh_orders := update_rows or_id (or_id order) (paid_order_row s p email ownership now) (sh_orders db1),
           sh_access := (case pw_grantUserId ownership of None \<Rightarrow> a | Some u \<Rightarrow> project_items ids u now ?items a),
           sh_messages := sh_messages db1 @ [(pw_message ownership, or_id order)]\<rparr>)"
    define acc where "acc = (case pw_grantUserId ownership of None \<Rightarrow> a | Some u \<Rightarrow> project_items ids u now ?items a)"
    have g: "grant_items ids (pw_grantUserId ownership) (the (ps_paidAt p)) now ?items (sh_access db) = Inr a"
      using grants r(1) by simp
    note access = purchase_grants_consistent [OF wf c f g owner acc_def]
    have sum_ok: "sum_list (map cl_totalMinor ?ls) = cs_totalMinor s" using parsed by blast
    have amount: "py_amountMinor evidence = sum_list (map cl_totalMinor ?ls)" "py_currency evidence = or_currency order"
      using ev r(5,6) sum_ok unfolding payment_evidence_matches_def by metis+
    have sel: "sh_orders db2 = update_rows or_id (or_id order) (paid_order_row s p email ownership now) (sh_orders db)"
      "sh_items db2 = map (item_paid ?ls) (sh_items db)" "sh_payments db2 = rows" "sh_access db2 = acc"
      "sh_messages db2 = sh_messages db @ [(pw_message ownership, or_id order)]" "sh_guests db2 = sh_guests db"
      "sh_events db2 = sh_events db"
      using db2 r(1) by (simp_all add: acc_def)
    have "paid_now ?ls order db db2"
      unfolding paid_now_def sel
    proof (intro conjI)
      show "\<exists>f. update_rows or_id (or_id order) (paid_order_row s p email ownership now) (sh_orders db) =
          update_rows or_id (or_id order) f (sh_orders db) \<and> order_kept order (f order) \<and>
          or_status (f order) = Order_paid \<and> or_totalMinor (f order) = Some (sum_list (map cl_totalMinor ?ls))"
        using paid_row_kept [OF evidence_ok st, of p email ownership now] sum_ok
        by (intro exI [of _ "paid_order_row s p email ownership now"]) (simp add: paid_order_row_def)
      show "\<exists>ev \<in> set rows. py_orderId ev = or_id order \<and> py_status ev = Payment_succeeded \<and>
          py_amountMinor ev = sum_list (map cl_totalMinor ?ls) \<and> py_currency ev = or_currency order \<and>
          (\<forall>q \<in> set rows. q = ev \<or> q \<in> set (sh_payments db))"
        using r(3,4,7,9) amount by blast
      show "\<exists>ids owner paidAt now. ad_grants acc = ad_grants (sh_access db) @
          map (purchase_grant ids owner paidAt now) ?items"
        using access by blast
    qed (use order st r(8) access in auto)
    moreover have "shop_tables_ok db2"
      using ok r(1,2) items orders by (simp add: shop_tables_ok_def sel)
    ultimately show ?thesis by blast
  qed
qed (assumption | simp)+

lemma fulfillOrder_cases:
  assumes ok: "shop_tables_ok db" and order: "order \<in> set (sh_orders db)"
    and wf: "access_wf (sh_access db)" and c: "access_consistent (sh_access db)"
    and f: "fresh_ids (fi_entitlement ids) (sh_access db)" and user: "or_initiatingUserId order \<noteq> Some []"
    and guest: "\<And>g. guest = Some g \<Longrightarrow> gi_claimedByUserId g \<noteq> Some []"
    and parse: "parseCheckoutSnapshot lib raw0 = Inr raw"
    and run: "fulfillOrder lib ids event raw payment now guest order db = Inr db'"
  obtains (quiet) "quiet db db'" "shop_tables_ok db'"
  | (paid) s db2 where "parseCheckoutSnapshot lib raw = Inr s"
    "validateLocalAndLineEvidence order (items_by_id (or_id order) db) s = Inr ()"
    "paid_now (cs_lineItems s) order db db2" "quiet db2 db'" "shop_tables_ok db2" "shop_tables_ok db'"
proof -
  note result = that
  let ?items = "items_by_id (or_id order) db"
  from run obtain existing command ownership where
    existing: "existing_payment order raw db = Inr existing"
    and command: "validateFulfillmentCommand lib order ?items raw payment (ev_liveMode event) = Inr command"
    and ownership: "(case command of
         Paid_command _ _ purchaseEmail \<Rightarrow>
           rbind (paid_ownership_of lib db order purchaseEmail guest) (\<lambda>o'. Inr (Some o'))
       | _ \<Rightarrow> Inr None) = Inr ownership"
    and rest: "(if or_status order = Order_paid then
       rbind (case command of
           Paid_command _ p _ \<Rightarrow> (case existing of
               None \<Rightarrow> Inl Shop_permanent
             | Some e \<Rightarrow> assertSucceededPayment e (or_id order) p)
         | _ \<Rightarrow> Inr ()) (\<lambda>_.
       completeStripeEvent (ev_id event) now (case existing of
           None \<Rightarrow> db
         | Some e \<Rightarrow> queueFinancialSource (py_id e) (ev_providerEventId event) [] db))
     else if or_status order = Order_expired then
       (case command of
          Expired_command _ \<Rightarrow> completeStripeEvent (ev_id event) now db
        | _ \<Rightarrow> Inl Shop_permanent)
     else if or_status order = Order_exception then Inl Shop_permanent
     else
       rbind (settle_open_order ids order ?items existing command ownership now db) (\<lambda>(paymentFact, db1).
       completeStripeEvent (ev_id event) now (case paymentFact of
           None \<Rightarrow> db1
         | Some evidence \<Rightarrow> queueFinancialSource (py_id evidence) (ev_providerEventId event)
             (if projection_published existing evidence command then [py_id evidence] else []) db1))) = Inr db'"
    unfolding fulfillOrder_def rbind_eq_Inr Let_def by (auto simp: rbind_eq_Inr to_shop_Inr)
  have e: "e \<in> set (sh_payments db)" if "existing = Some e" for e
    using existing existing_payment_Inr that by blast
  have ended: thesis if "completeStripeEvent k now (case x of None \<Rightarrow> d
      | Some v \<Rightarrow> queueFinancialSource (h v) pe (w v) d) = Inr db'" and "quiet db d" "shop_tables_ok d" for k x d h pe w
  proof (rule quiet)
    have "quiet d (case x of None \<Rightarrow> d | Some v \<Rightarrow> queueFinancialSource (h v) pe (w v) d) \<and>
        shop_tables_ok (case x of None \<Rightarrow> d | Some v \<Rightarrow> queueFinancialSource (h v) pe (w v) d)"
      using queue_quiet that(3) quiet_same [of d d] by (cases x) auto
    then show "quiet db db'" "shop_tables_ok db'"
      using complete_event_quiet [OF that(1)] quiet_trans that(2) by blast+
  qed
  have refl: "quiet db db" by (rule quiet_same) simp_all
  show thesis
  proof (cases "or_status order \<in> {Order_paid, Order_expired, Order_exception}")
    case True
    then show thesis
    proof (elim insertE emptyE)
      assume st: "or_status order = Order_paid"
      then show thesis using rest ended [OF _ refl ok, where h = py_id and w = "\<lambda>_. []"] by (auto simp: rbind_eq_Inr)
    next
      assume "or_status order = Order_expired"
      then have "completeStripeEvent (ev_id event) now db = Inr db'"
        using rest by (auto split: fulfillment_command.splits)
      then show thesis using ended [OF _ refl ok, where x = None] by simp
    next
      assume "or_status order = Order_exception"
      then show thesis using rest by simp
    qed
  next
    case st: False
    then obtain evd d where settle: "settle_open_order ids order ?items existing command ownership now db = Inr (evd, d)"
      and finished: "completeStripeEvent (ev_id event) now (case evd of None \<Rightarrow> d
        | Some evidence \<Rightarrow> queueFinancialSource (py_id evidence) (ev_providerEventId event)
            (if projection_published existing evidence command then [py_id evidence] else []) d) = Inr db'"
      using rest by (auto simp: rbind_eq_Inr)
    have moved: "quiet db d \<and> shop_tables_ok d"
      if q: "quiet db d1" "shop_tables_ok d1" "sh_orders d1 = sh_orders db"
        and mv: "move_order order froms target s now d1 = Inr d"
        and s: "validateLocalAndLineEvidence order ?items s = Inr ()"
        and t: "target \<in> {Order_payment_pending, Order_failed, Order_expired}"
          "target = Order_payment_pending \<Longrightarrow> Order_failed \<notin> set froms" for d1 froms target s
    proof (cases "or_status order \<in> set froms")
      case True
      then have "update_order (or_id order) (attach_status target s now) d1 = Inr d" using mv by (simp add: move_order_def)
      moreover have "order_kept order (attach_status target s now order)" 
        by (rule attach_row_kept [OF s st t(1)]) (use t(2) True in auto)
      moreover have "or_status (attach_status target s now order) \<noteq> Order_paid" using t by (auto simp: attach_status_def)
      ultimately have "quiet d1 d \<and> shop_tables_ok d"
        using update_order_quiet [OF q(2)] order q(3) by simp
      then show ?thesis using quiet_trans [OF q(1)] by blast
    next
      case False
      then show ?thesis using mv q by (simp add: move_order_def)
    qed
    have id: "or_id order \<in> or_id ` set (sh_orders db)" using order by simp
    show thesis
    proof (rule validate_Inr [OF command])
      fix s
      assume s: "parseCheckoutSnapshot lib raw = Inr s" "validateLocalAndLineEvidence order ?items s = Inr ()"
        and cmd: "case command of
           Pending_command session p \<Rightarrow> session = s \<and> payment_evidence_matches order s p (ev_liveMode event)
         | Paid_command session p email \<Rightarrow> session = s \<and> payment_evidence_matches order s p (ev_liveMode event) \<and>
             ps_state p = Payment_succeeded \<and> ps_paidAt p \<noteq> None \<and> paidPurchaseEmail lib order s = Inr email
         | Failed_command session p \<Rightarrow> session = s \<and> payment_evidence_matches order s p (ev_liveMode event)
         | Expired_command session \<Rightarrow> session = s"
      show thesis
      proof (cases command)
        case (Pending_command session p)
        with settle obtain ev d1 where "storePaymentEvidence (fi_payment ids) existing (or_id order) p False False now db = Inr (ev, d1)"
          "move_order order [Checkout_pending, Checkout_open] Order_payment_pending session now d1 = Inr d"
          by (auto simp: settle_open_order_def rbind_eq_Inr)
        then show thesis
          using moved [of _ "[Checkout_pending, Checkout_open]" Order_payment_pending]
            store_payment_quiet [OF ok e id] s cmd Pending_command ended [OF finished] by simp blast
      next
        case (Failed_command session p)
        with settle obtain ev d1 where "storePaymentEvidence (fi_payment ids) existing (or_id order) p False True now db = Inr (ev, d1)"
          "move_order order [Checkout_pending, Checkout_open, Order_payment_pending] Order_failed session now d1 = Inr d"
          by (auto simp: settle_open_order_def rbind_eq_Inr)
        then show thesis
          using moved [of _ "[Checkout_pending, Checkout_open, Order_payment_pending]" Order_failed]
            store_payment_quiet [OF ok e id] s cmd Failed_command ended [OF finished] by simp blast
      next
        case (Expired_command session)
        with settle have "move_order order [Checkout_pending, Checkout_open, Order_payment_pending, Order_failed]
            Order_expired session now db = Inr d"
          by (auto simp: settle_open_order_def rbind_eq_Inr)
        then show thesis using moved [OF _ ok, of _ Order_expired] quiet_same [of db db] s cmd Expired_command ended [OF finished] by simp
      next
        case (Paid_command session p email)
        then obtain owner where owner: "paid_ownership_of lib db order email guest = Inr owner" "ownership = Some owner"
          using ownership by (auto simp: rbind_eq_Inr)
        with settle Paid_command obtain ev d1 where
          st1: "storePaymentEvidence (fi_payment ids) existing (or_id order) p True False now db = Inr (ev, d1)"
          and st2: "finalizePaidOrder ids order ?items session p email owner now d1 = Inr d"
          by (auto simp: settle_open_order_def rbind_eq_Inr)
        have cmd': "session = s" "payment_evidence_matches order s p (ev_liveMode event)" using cmd Paid_command by simp_all
        have "paid_now (cs_lineItems s) order db d \<and> shop_tables_ok d"
          by (rule finalize_paid_now [OF ok order st wf c f ownership_user [OF owner(1) user guest] s cmd'(2) e st1])
            (use st2 cmd'(1) in simp_all)
        moreover have "quiet d db' \<and> shop_tables_ok db'"
        proof -
          let ?d = "case evd of None \<Rightarrow> d
            | Some evidence \<Rightarrow> queueFinancialSource (py_id evidence) (ev_providerEventId event)
                (if projection_published existing evidence command then [py_id evidence] else []) d"
          have "quiet d ?d \<and> shop_tables_ok ?d"
            using queue_quiet calculation quiet_same [of d d] by (cases evd) auto
          then show ?thesis using complete_event_quiet [OF finished] quiet_trans by blast
        qed
        ultimately show thesis using paid [OF s] by blast
      qed
    qed
  qed
qed

definition owners_named :: "shop_db \<Rightarrow> bool" where
  "owners_named db \<longleftrightarrow> (\<forall>r \<in> set (sh_orders db). or_initiatingUserId r \<noteq> Some []) \<and>
     (\<forall>g \<in> set (sh_guests db). gi_claimedByUserId g \<noteq> Some [])"

lemma fulfill_checkout_cases:
  assumes ok: "shop_tables_ok db" and wf: "access_wf (sh_access db)" and c: "access_consistent (sh_access db)"
    and f: "fresh_ids (fi_entitlement ids) (sh_access db)" and owners: "owners_named db"
    and run: "fulfillCheckoutEvent lib ids k raw payment now db = Inr db'"
  obtains (quiet) "quiet db db'" "shop_tables_ok db'"
  | (paid) s order db1 db2 where "parseCheckoutSnapshot lib raw = Inr s" "quiet db db1"
    "validateLocalAndLineEvidence order (items_by_id (or_id order) db1) s = Inr ()" "shop_tables_ok db1"
    "distinct (map cl_orderItemId (cs_lineItems s))"
    "paid_now (cs_lineItems s) order db1 db2" "quiet db2 db'" "shop_tables_ok db2" "shop_tables_ok db'"
proof -
  note result = that
  from run obtain session where session: "parseCheckoutSnapshot lib raw = Inr session"
    by (auto simp: fulfillCheckoutEvent_def rbind_eq_Inr)
  from run session obtain event where event: "find_event k db = Some event"
    by (auto simp: fulfillCheckoutEvent_def to_shop_def split: option.splits)
  show thesis
  proof (cases "ev_status event = Event_pending")
    case False
    then have "db' = db" using run session event by (simp add: fulfillCheckoutEvent_def to_shop_def)
    then show thesis using quiet quiet_same [of db db] ok by simp
  next
    case True
    with run session event obtain guest db1 order where
      d: "discoverAndLockPaidGuestIdentity lib ids session payment (ev_liveMode event) db = Inr (guest, db1)"
      and order: "find_order (cs_metadataOrderId session) db1 = Some order"
      and fo: "fulfillOrder lib ids event session payment now guest order db1 = Inr db'"
      by (auto simp: fulfillCheckoutEvent_def rbind_eq_Inr to_shop_def split: option.splits)
    note disc = discover_Inr [OF d ok]
    have q: "quiet db db1" and ok1: "shop_tables_ok db1" and o: "order \<in> set (sh_orders db1)"
      using disc find_order_Some [OF order] by blast+
    have acc: "sh_access db1 = sh_access db" by (rule quietD(2) [OF q])
    have user: "or_initiatingUserId order \<noteq> Some []"
      using o owners disc by (simp add: owners_named_def)
    have guest: "gi_claimedByUserId g \<noteq> Some []" if "guest = Some g" for g
    proof -
      have "g \<in> set (sh_guests db1)" using disc that by blast
      then have "g \<in> set (sh_guests db) \<or> gi_claimedByUserId g = None" by (rule quietD(8) [OF q])
      then show ?thesis using owners by (auto simp: owners_named_def)
    qed
    show thesis
    proof (rule fulfillOrder_cases [OF ok1 o _ _ _ user guest session fo])
      show "access_wf (sh_access db1)" "access_consistent (sh_access db1)" "fresh_ids (fi_entitlement ids) (sh_access db1)"
        using wf c f acc by simp_all
      show thesis if "quiet db1 db'" "shop_tables_ok db'" using quiet quiet_trans [OF q that(1)] that(2) by blast
      fix s db2
      assume s: "parseCheckoutSnapshot lib session = Inr s"
        "validateLocalAndLineEvidence order (items_by_id (or_id order) db1) s = Inr ()"
        and p: "paid_now (cs_lineItems s) order db1 db2" "quiet db2 db'" "shop_tables_ok db2" "shop_tables_ok db'"
      have "cs_lineItems s = cs_lineItems session" using parse_snapshot_Inr [OF s(1)] by blast
      moreover have "validateLocalAndLineEvidence order (items_by_id (or_id order) db1) session = Inr ()"
      proof -
        obtain e where "s = session\<lparr>cs_customerEmail := e\<rparr>"
          using s(1) unfolding parseCheckoutSnapshot_def Let_def by (metis Inl_Inr_False Inr_inject)
        then have "validateLocalAndLineEvidence order (items_by_id (or_id order) db1) s =
          validateLocalAndLineEvidence order (items_by_id (or_id order) db1) session"
          by (simp add: validateLocalAndLineEvidence_def)
        then show ?thesis using s(2) by simp
      qed
      moreover have "distinct (map cl_orderItemId (cs_lineItems session))" using parse_snapshot_Inr [OF session] by blast
      ultimately show thesis using paid [OF session q] p ok1 by simp
    qed (assumption)
  qed
qed

lemma exception_quiet:
  assumes ok: "shop_tables_ok db" and run: "recordFulfillmentException k orderId now db = Inr db'"
  shows "quiet db db' \<and> shop_tables_ok db'"
proof -
  have same: "quiet db db" by (rule quiet_same) simp_all
  show ?thesis
  proof (cases "find_event k db")
    case None
    then show ?thesis using run ok same by (simp add: recordFulfillmentException_def)
  next
    case (Some event)
    show ?thesis
    proof (cases "ev_status event = Event_pending")
      case False
      then show ?thesis using run Some ok same by (simp add: recordFulfillmentException_def)
    next
      case True
      define order where "order = findExceptionOrder event orderId db"
      let ?t = "if order = None then ''stripe_event'' else ''order''"
      let ?i = "case order of None \<Rightarrow> ev_id event | Some r \<Rightarrow> or_id r"
      from run Some True obtain db1 where
        m: "(case order of None \<Rightarrow> Inr db
          | Some r \<Rightarrow> if or_status r \<noteq> Order_paid \<and> or_status r \<noteq> Order_expired
              then update_order (or_id r) (\<lambda>r. r\<lparr>or_status := Order_exception, or_updatedAt := now\<rparr>) db
              else Inr db) = Inr db1"
        and e: "settle_event Event_exception (ev_id event) now (append_audit ''commerce.fulfillment_exception'' ?t ?i db1) = Inr db'"
        by (auto simp: recordFulfillmentException_def order_def Let_def rbind_eq_Inr simp del: update_order_Inr)
      have q1: "quiet db db1 \<and> shop_tables_ok db1"
      proof (cases order)
        case None
        then show ?thesis using m same ok by simp
      next
        case (Some r)
        have "r \<in> set (sh_orders db)"
          using Some find_order_Some by (auto simp: order_def findExceptionOrder_def Let_def split: option.splits if_splits)
        moreover have "order_kept r (r\<lparr>or_status := Order_exception, or_updatedAt := now\<rparr>)"
          if "or_status r \<noteq> Order_paid" "or_status r \<noteq> Order_expired"
        proof -
          have "Order_exception = or_status r \<or> order_stage (or_status r) < 4"
            using that early_stage [of "or_status r"] by (metis empty_iff insert_iff)
          then show ?thesis using that by (simp add: order_kept_def order_terms_def order_session_def)
        qed
        ultimately show ?thesis using m Some same ok update_order_quiet [OF ok, of r "\<lambda>r. r\<lparr>or_status := Order_exception, or_updatedAt := now\<rparr>" db1]
          by (simp split: if_splits del: update_order_Inr)
      qed
      have "quiet db1 (append_audit a t i db1)" "shop_tables_ok (append_audit a t i db1)" for a t i
        using q1 by (auto simp: shop_tables_ok_def intro!: quiet_same)
      then show ?thesis using settle_event_quiet [OF e] q1 quiet_trans by blast
    qed
  qed
qed

lemma attach_quiet:
  assumes ok: "shop_tables_ok db" and run: "attachCheckoutSession input now db = (res, db')"
  shows "quiet db db' \<and> shop_tables_ok db'"
proof (rule attach_moves [OF _ run])
  show "orders_ok (sh_orders db)" using ok by (simp add: shop_tables_ok_def)
  fix rows audit
  assume "db' = db\<lparr>sh_orders := rows, sh_audit := audit\<rparr>" "list_all2 order_kept (sh_orders db) rows" "orders_ok rows"
    "\<And>r. r \<in> set rows \<Longrightarrow> or_status r = Order_paid \<Longrightarrow> r \<in> set (sh_orders db)"
  then show ?thesis using ok by (auto simp: quiet_def shop_tables_ok_def)
qed

lemma accept_event_quiet:
  assumes "acceptStripeEvent sha256 newId event db = Inr (r, db')"
  shows "quiet db db' \<and> (shop_tables_ok db \<longrightarrow> shop_tables_ok db')"
  using assms
  by (auto simp: acceptStripeEvent_def rbind_eq_Inr Let_def shop_tables_ok_def intro!: quiet_same
      split: if_splits option.splits)

end
