(* ===== verification/CheckoutRuns.thy ===== *)
theory CheckoutRuns
  imports FulfillmentFacts
begin

text \<open>
  The shop under everything that happens to it: readers who check out, the provider's answers and
  events in any order and any number of times, refunds and disputes on the grants, and changes of
  the catalog and of accounts. An invariant ties orders, payments, items, grants and messages
  together.
\<close>

section \<open>Steps of the shop\<close>

inductive shop_step :: "shop_db \<Rightarrow> shop_db \<Rightarrow> bool" where
  accepted: "createAcceptedOrder lib cy newId newItemId clock input now reuseNow db = (res, db') \<Longrightarrow>
    actorUserId (ai_actor input) \<noteq> Some [] \<Longrightarrow> shop_step db db'"
| attached: "attachCheckoutSession input now db = (res, db') \<Longrightarrow> shop_step db db'"
| received: "acceptStripeEvent sha256 newId event db = Inr (r, db') \<Longrightarrow> shop_step db db'"
| fulfilled: "fulfillCheckoutEvent lib ids k raw payment now db = Inr db' \<Longrightarrow>
    fresh_ids (fi_entitlement ids) (sh_access db) \<Longrightarrow> shop_step db db'"
| parked: "recordFulfillmentException k orderId now db = Inr db' \<Longrightarrow> shop_step db db'"
| access_moved: "access_step (sh_access db) a \<Longrightarrow> shop_step db (db\<lparr>sh_access := a\<rparr>)"
| catalog_changed: "shop_step db (db\<lparr>sh_titles := ts, sh_revisions := rs, sh_presentations := ps\<rparr>)"
| accounts_changed: "shop_step db (db\<lparr>sh_accounts := us\<rparr>)"

inductive_cases shop_stepE: "shop_step db db'"

text \<open>The handler of an event takes one of the steps \<open>fulfilled\<close> and \<open>parked\<close>, or leaves the shop alone.\<close>

lemma handler_is_step:
  assumes run: "handleStripeEvent lib ids k session pay other now db = Inr db'"
    and fam: "\<And>family d. other family db \<noteq> Inr d"
    and f: "fresh_ids (fi_entitlement ids) (sh_access db)"
  shows "db' = db \<or> shop_step db db'"
proof -
  have lift: "shop_step db d" if "handle_checkout lib ids k session pay now db = (orderId, Inr d)" for orderId d
    using that f shop_step.fulfilled
    by (auto simp: handle_checkout_def rbind_eq_Inr split: sum.splits if_splits option.splits)
  show ?thesis
    using run fam lift shop_step.parked
    by (auto simp: handleStripeEvent_def Let_def to_shop_def
        split: option.splits sum.splits if_splits prod.splits object_family.splits commerce_error.splits)
qed

section \<open>The invariant\<close>

definition purchase_key :: "entitlement_grant_row \<Rightarrow> string \<times> string \<times> string option" where
  "purchase_key g = (eg_id g, eg_titleId g, eg_orderItemId g)"

definition item_purchases :: "access_db \<Rightarrow> string \<Rightarrow> (string \<times> string \<times> string option) list" where
  "item_purchases a k =
     filter (\<lambda>p. snd (snd p) = Some k) (map purchase_key (filter (\<lambda>g. eg_source g = Purchase) (ad_grants a)))"

definition items_of :: "order_row \<Rightarrow> shop_db \<Rightarrow> shop_item_row list" where
  "items_of r db = filter (\<lambda>i. si_orderId i = or_id r) (sh_items db)"

definition order_adds_up :: "shop_db \<Rightarrow> order_row \<Rightarrow> bool" where
  "order_adds_up db r \<longleftrightarrow> items_of r db \<noteq> [] \<and>
     or_subtotalMinor r = sum_list (map oi_unitSubtotalMinor (items_of r db)) \<and>
     (\<forall>i \<in> set (items_of r db). oi_currency i = or_currency r)"

definition messages_of :: "order_row \<Rightarrow> shop_db \<Rightarrow> (purchase_message \<times> string) list" where
  "messages_of r db = filter (\<lambda>m. snd m = or_id r) (sh_messages db)"

definition paid_in_full :: "shop_db \<Rightarrow> order_row \<Rightarrow> bool" where
  "paid_in_full db r \<longleftrightarrow>
     (\<exists>p \<in> set (sh_payments db). py_orderId p = or_id r \<and> py_status p = Payment_succeeded \<and>
        or_totalMinor r = Some (py_amountMinor p) \<and> py_currency p = or_currency r) \<and>
     (\<forall>i \<in> set (items_of r db). oi_totalMinor i \<noteq> None) \<and>
     or_totalMinor r = Some (sum_list (map (\<lambda>i. the (oi_totalMinor i)) (items_of r db))) \<and>
     (\<forall>i \<in> set (items_of r db). \<exists>k. item_purchases (sh_access db) (oi_id i) = [(k, oi_titleId i, Some (oi_id i))]) \<and>
     length (messages_of r db) = 1"

definition not_paid :: "shop_db \<Rightarrow> order_row \<Rightarrow> bool" where
  "not_paid db r \<longleftrightarrow>
     (\<forall>p \<in> set (sh_payments db). py_orderId p = or_id r \<longrightarrow> py_status p \<noteq> Payment_succeeded) \<and>
     (\<forall>i \<in> set (items_of r db). item_purchases (sh_access db) (oi_id i) = []) \<and>
     messages_of r db = []"

definition shop_keys :: "shop_db \<Rightarrow> bool" where
  "shop_keys db \<longleftrightarrow>
     si_orderId ` set (sh_items db) \<subseteq> or_id ` set (sh_orders db) \<and>
     py_orderId ` set (sh_payments db) \<subseteq> or_id ` set (sh_orders db) \<and>
     snd ` set (sh_messages db) \<subseteq> or_id ` set (sh_orders db) \<and>
     (\<forall>g \<in> set (ad_grants (sh_access db)). eg_source g = Purchase \<longrightarrow>
       (\<exists>i \<in> set (sh_items db). eg_orderItemId g = Some (oi_id i)))"

text \<open>No reader has two unsettled orders for the same title.\<close>

definition single_hold :: "shop_db \<Rightarrow> bool" where
  "single_hold db \<longleftrightarrow> (\<forall>r \<in> set (sh_orders db). \<forall>s \<in> set (sh_orders db). \<forall>i \<in> set (items_of r db).
     \<forall>j \<in> set (items_of s db).
     or_initiatingUserId r \<noteq> None \<and> or_initiatingUserId s = or_initiatingUserId r \<and>
     unsettled (or_status r) \<and> unsettled (or_status s) \<and> oi_titleId i = oi_titleId j \<longrightarrow> r = s)"

definition orders_settled :: "shop_db \<Rightarrow> bool" where
  "orders_settled db \<longleftrightarrow> (\<forall>r \<in> set (sh_orders db). order_adds_up db r \<and>
     (if or_status r = Order_paid then paid_in_full db r else not_paid db r))"

definition shop_ok :: "shop_db \<Rightarrow> bool" where
  "shop_ok db \<longleftrightarrow> shop_tables_ok db \<and> access_wf (sh_access db) \<and> access_consistent (sh_access db) \<and>
     owners_named db \<and> shop_keys db \<and> single_hold db \<and> orders_settled db"

section \<open>Quiet changes\<close>

lemma items_of_cong:
  "or_id r' = or_id r \<Longrightarrow> sh_items db' = sh_items db \<Longrightarrow> items_of r' db' = items_of r db"
  by (simp add: items_of_def)

lemma kept_terms:
  assumes "order_kept r r'"
  shows "or_id r' = or_id r" and "or_initiatingUserId r' = or_initiatingUserId r" and "or_currency r' = or_currency r"
    and "or_subtotalMinor r' = or_subtotalMinor r" and "unsettled (or_status r') \<Longrightarrow> unsettled (or_status r)"
    and "or_status r = Order_paid \<Longrightarrow> r' = r"
proof -
  have t: "order_terms r' = order_terms r" using assms unfolding order_kept_def by blast
  then show "or_id r' = or_id r" "or_initiatingUserId r' = or_initiatingUserId r" "or_currency r' = or_currency r"
    "or_subtotalMinor r' = or_subtotalMinor r" by (simp_all add: order_terms_def)
  show "r' = r" if "or_status r = Order_paid" using assms that unfolding order_kept_def by blast
  show "unsettled (or_status r)" if "unsettled (or_status r')"
  proof (rule ccontr)
    assume "\<not> unsettled (or_status r)"
    then have "or_status r = Order_paid \<or> or_status r = Order_expired" by (cases "or_status r") (auto simp: unsettled_def)
    then have "r' = r" using assms unfolding order_kept_def by blast
    then show False using that \<open>\<not> unsettled (or_status r)\<close> by simp
  qed
qed

lemma kept_before:
  assumes "list_all2 order_kept rows rows'" and "r' \<in> set rows'"
  obtains r where "r \<in> set rows" "order_kept r r'"
proof -
  from assms(2) obtain n where n: "n < length rows'" "r' = rows' ! n" by (metis in_set_conv_nth)
  have len: "n < length rows" using n(1) list_all2_lengthD [OF assms(1)] by simp
  show thesis
    by (rule that [of "rows ! n"]) (use len n(2) list_all2_nthD [OF assms(1) len] in simp_all)
qed

text \<open>Holds carry over when every order comes from one before and the items keep their titles.\<close>

lemma single_hold_moved:
  assumes h: "single_hold db" and moved: "list_all2 order_kept (sh_orders db) (sh_orders db')"
    and ids: "distinct (map or_id (sh_orders db'))"
    and items: "\<And>j. j \<in> set (sh_items db') \<Longrightarrow> \<exists>i \<in> set (sh_items db). si_orderId i = si_orderId j \<and> oi_titleId i = oi_titleId j"
  shows "single_hold db'"
  unfolding single_hold_def
proof (intro ballI impI, elim conjE)
  fix r' s' i' j'
  assume r': "r' \<in> set (sh_orders db')" and s': "s' \<in> set (sh_orders db')"
    and i': "i' \<in> set (items_of r' db')" and j': "j' \<in> set (items_of s' db')"
    and u: "or_initiatingUserId r' \<noteq> None" "or_initiatingUserId s' = or_initiatingUserId r'"
      "unsettled (or_status r')" "unsettled (or_status s')" "oi_titleId i' = oi_titleId j'"
  obtain r where r: "r \<in> set (sh_orders db)" "order_kept r r'" using kept_before [OF moved r'] .
  obtain s where s: "s \<in> set (sh_orders db)" "order_kept s s'" using kept_before [OF moved s'] .
  note kr = kept_terms [OF r(2)] and ks = kept_terms [OF s(2)]
  obtain i where i: "i \<in> set (items_of r db)" "oi_titleId i = oi_titleId i'"
    using items [of i'] i' kr(1) by (auto simp: items_of_def)
  obtain j where j: "j \<in> set (items_of s db)" "oi_titleId j = oi_titleId j'"
    using items [of j'] j' ks(1) by (auto simp: items_of_def)
  have "or_initiatingUserId r \<noteq> None \<and> or_initiatingUserId s = or_initiatingUserId r \<and> unsettled (or_status r) \<and>
      unsettled (or_status s) \<and> oi_titleId i = oi_titleId j"
    using u kr(2,5) ks(2,5) i(2) j(2) by simp
  then have "r = s" using h r(1) s(1) i(1) j(1) unfolding single_hold_def by blast
  then have "or_id r' = or_id s'" using kr(1) ks(1) by simp
  then show "r' = s'" using ids r' s' by (simp add: distinct_map inj_on_def)
qed

lemma quiet_shop_ok:
  assumes q: "quiet db db'" and ok: "shop_ok db" and t: "shop_tables_ok db'"
  shows "shop_ok db'"
proof -
  have d: "distinct (map or_id (sh_orders db'))" using t by (simp add: shop_tables_ok_def orders_ok_def)
  note q' = quietD [OF q] and ids = quiet_order_ids [OF q]
  have "shop_keys db" using ok by (simp add: shop_ok_def)
  moreover have "py_orderId ` set (sh_payments db') \<subseteq> or_id ` set (sh_orders db)"
    using q'(7) calculation by (simp add: shop_keys_def) (rule subset_trans, assumption, simp)
  ultimately have keys: "shop_keys db'" by (simp add: shop_keys_def q'(1-3) ids)
  have owners: "owners_named db'"
    unfolding owners_named_def
  proof (intro conjI ballI)
    fix r' assume "r' \<in> set (sh_orders db')"
    then obtain r where "r \<in> set (sh_orders db)" "order_kept r r'" using kept_before [OF q'(4)] by blast
    then show "or_initiatingUserId r' \<noteq> Some []"
      using ok kept_terms(2) [of r r'] by (simp add: shop_ok_def owners_named_def)
  next
    fix g assume "g \<in> set (sh_guests db')"
    then have "g \<in> set (sh_guests db) \<or> gi_claimedByUserId g = None" by (rule q'(8))
    then show "gi_claimedByUserId g \<noteq> Some []" using ok by (auto simp: shop_ok_def owners_named_def)
  qed
  have hold: "single_hold db'"
    by (rule single_hold_moved [OF _ q'(4) d]) (use ok q'(1) in \<open>auto simp: shop_ok_def\<close>)
  have "orders_settled db'"
    unfolding orders_settled_def
  proof
    fix r' assume r': "r' \<in> set (sh_orders db')"
    obtain r where r: "r \<in> set (sh_orders db)" "order_kept r r'" using kept_before [OF q'(4) r'] .
    note k = kept_terms [OF r(2)]
    have items: "items_of r' db' = items_of r db" by (rule items_of_cong [OF k(1) q'(1)])
    have msgs: "messages_of r' db' = messages_of r db" by (simp add: messages_of_def k(1) q'(3))
    have before: "order_adds_up db r" "or_status r = Order_paid \<Longrightarrow> paid_in_full db r"
      "or_status r \<noteq> Order_paid \<Longrightarrow> not_paid db r"
      using ok r(1) by (auto simp: shop_ok_def orders_settled_def)
    have adds: "order_adds_up db' r'" using before(1) by (simp add: order_adds_up_def items k)
    show "order_adds_up db' r' \<and> (if or_status r' = Order_paid then paid_in_full db' r' else not_paid db' r')"
    proof (cases "or_status r' = Order_paid")
      case True
      have "r' \<in> set (sh_orders db)" by (rule q'(5) [OF r' True])
      moreover have "distinct (map or_id (sh_orders db))" using ok by (simp add: shop_ok_def shop_tables_ok_def orders_ok_def)
      ultimately have same: "r' = r" using r(1) k(1) by (simp add: distinct_map inj_on_def)
      obtain p where p: "p \<in> set (sh_payments db)" "py_orderId p = or_id r" "py_status p = Payment_succeeded"
        "or_totalMinor r = Some (py_amountMinor p)" "py_currency p = or_currency r"
        using before(2) True same by (auto simp: paid_in_full_def)
      have "p \<in> set (sh_payments db')" using q'(6) [OF p(3)] p(1) by simp
      then have "paid_in_full db' r'"
        using before(2) True same p(2-5) items msgs q'(2) unfolding paid_in_full_def by auto
      then show ?thesis using adds True by simp
    next
      case False
      then have "or_status r \<noteq> Order_paid" using k(6) by auto
      then have n: "not_paid db r" by (rule before(3))
      have "py_status p \<noteq> Payment_succeeded" if "p \<in> set (sh_payments db')" "py_orderId p = or_id r'" for p
        using n q'(6) [of p] that k(1) by (auto simp: not_paid_def)
      then have "not_paid db' r'" using n items msgs q'(2) unfolding not_paid_def by auto
      then show ?thesis using adds False by simp
    qed
  qed
  with keys owners hold t ok q'(2) show ?thesis by (simp add: shop_ok_def)
qed

section \<open>Paying an order\<close>

lemma item_purchases_append:
  assumes "ad_grants a' = ad_grants a @ map (purchase_grant ids owner paidAt now) items"
  shows "item_purchases a' k = item_purchases a k @
    map (\<lambda>i. (fi_grant ids (oi_id i), oi_titleId i, Some (oi_id i))) (filter (\<lambda>i. oi_id i = k) items)"
proof -
  have "filter (\<lambda>p. snd (snd p) = Some k) (map purchase_key (filter (\<lambda>g. eg_source g = Purchase)
      (map (purchase_grant ids owner paidAt now) items))) =
    map (\<lambda>i. (fi_grant ids (oi_id i), oi_titleId i, Some (oi_id i))) (filter (\<lambda>i. oi_id i = k) items)"
    by (induction items) (simp_all add: purchase_grant_def purchase_key_def)
  then show ?thesis unfolding item_purchases_def assms by simp
qed

lemma filter_id_single: "distinct (map f xs) \<Longrightarrow> x \<in> set xs \<Longrightarrow> filter (\<lambda>y. f y = f x) xs = [x]"
  by (induction xs) (auto simp: filter_empty_conv image_iff)

lemma items_of_paid:
  assumes "sh_items db' = map (item_paid ls) (sh_items db)" and "or_id r' = or_id r"
  shows "items_of r' db' = map (item_paid ls) (items_of r db)"
  using assms by (simp add: items_of_def filter_map comp_def)

lemma paid_shop_ok:
  assumes ok: "shop_ok db" and t: "shop_tables_ok db'" and p: "paid_now ls order db db'"
    and d: "distinct (map cl_orderItemId ls)"
    and v: "validateLocalAndLineEvidence order (items_by_id (or_id order) db) s = Inr ()" and ls: "ls = cs_lineItems s"
  shows "shop_ok db'"
proof -
  let ?items = "items_by_id (or_id order) db"
  have lines: "distinct (map oi_id ?items)" "mset (map cl_orderItemId ls) = mset (map oi_id ?items)"
    "\<forall>i \<in> set ?items. \<exists>l \<in> set ls. line_of ls i = Some l \<and> cl_orderItemId l = oi_id i \<and>
      cl_subtotalMinor l = oi_unitSubtotalMinor i"
    using lines_are_items [OF v, folded ls, OF d] by blast+
  note sums = paid_items_total [OF d lines]
  from p obtain f ev ids owner paidAt now m where
    order: "order \<in> set (sh_orders db)" "or_status order \<notin> {Order_paid, Order_expired, Order_exception}"
    and f: "sh_orders db' = update_rows or_id (or_id order) f (sh_orders db)" "order_kept order (f order)"
      "or_status (f order) = Order_paid" "or_totalMinor (f order) = Some (sum_list (map cl_totalMinor ls))"
    and items: "sh_items db' = map (item_paid ls) (sh_items db)"
    and ev: "ev \<in> set (sh_payments db')" "py_orderId ev = or_id order" "py_status ev = Payment_succeeded"
      "py_amountMinor ev = sum_list (map cl_totalMinor ls)" "py_currency ev = or_currency order"
      "\<forall>q \<in> set (sh_payments db'). q = ev \<or> q \<in> set (sh_payments db)"
    and old0: "\<forall>q \<in> set (sh_payments db). py_status q = Payment_succeeded \<longrightarrow> q \<in> set (sh_payments db')"
    and grants: "ad_grants (sh_access db') = ad_grants (sh_access db) @ map (purchase_grant ids owner paidAt now) ?items"
    and acc: "access_wf (sh_access db')" "access_consistent (sh_access db')"
    and msgs: "sh_messages db' = sh_messages db @ [(m, or_id order)]"
    and guests: "\<forall>g \<in> set (sh_guests db'). g \<in> set (sh_guests db) \<or> gi_claimedByUserId g = None"
    unfolding paid_now_def by (elim conjE exE bexE) (rule that, assumption+)
  have old: "q \<in> set (sh_payments db')" if "q \<in> set (sh_payments db)" "py_status q = Payment_succeeded" for q
    using old0 that by blast
  have dist: "distinct (map or_id (sh_orders db))" using ok by (simp add: shop_ok_def shop_tables_ok_def orders_ok_def)
  have eq: "z = order" if "z \<in> set (sh_orders db)" "or_id z = or_id order" for z
    using dist order(1) that by (simp add: distinct_map inj_on_def)
  have moved: "list_all2 order_kept (sh_orders db) (sh_orders db')"
    unfolding f(1) update_rows_def list_all2_map2 by (intro list.rel_refl_strong) (use f(2) eq in auto)
  have ids: "or_id ` set (sh_orders db') = or_id ` set (sh_orders db)" using kept_ids [OF moved] by (metis set_map)
  have dist': "distinct (map or_id (sh_orders db'))" using dist kept_ids [OF moved] by simp
  have keys0: "shop_keys db" and keep0: "owners_named db" "single_hold db" and settled0: "orders_settled db"
    using ok by (simp_all add: shop_ok_def)
  have "shop_keys db'"
  proof -
    have "py_orderId q \<in> or_id ` set (sh_orders db)" if "q \<in> set (sh_payments db')" for q
      using bspec [OF ev(6) that] ev(2) order(1) keys0 by (auto simp: shop_keys_def)
    moreover have "\<exists>i \<in> set (sh_items db). eg_orderItemId g = Some (oi_id i)"
      if "g \<in> set (ad_grants (sh_access db'))" "eg_source g = Purchase" for g
      using that keys0 unfolding grants by (auto simp: shop_keys_def purchase_grant_def items_by_id_set)
    ultimately show ?thesis
      using keys0 order(1) unfolding shop_keys_def ids by (auto simp: items msgs image_image)
  qed
  moreover have "owners_named db'"
    unfolding owners_named_def
  proof (intro conjI ballI)
    fix r' assume "r' \<in> set (sh_orders db')"
    then obtain r where "r \<in> set (sh_orders db)" "order_kept r r'" using kept_before [OF moved] by blast
    then show "or_initiatingUserId r' \<noteq> Some []" using keep0(1) kept_terms(2) [of r r'] by (simp add: owners_named_def)
  next
    fix g assume "g \<in> set (sh_guests db')"
    from bspec [OF guests this] show "gi_claimedByUserId g \<noteq> Some []" using keep0(1) by (auto simp: owners_named_def)
  qed
  moreover have "single_hold db'"
    by (rule single_hold_moved [OF keep0(2) moved dist']) (auto simp: items)
  moreover have "orders_settled db'"
    unfolding orders_settled_def
  proof
    fix r' assume r': "r' \<in> set (sh_orders db')"
    obtain r where r: "r \<in> set (sh_orders db)" "r' = (if or_id r = or_id order then f r else r)"
      using r' unfolding f(1) set_update_rows by auto
    have kept: "order_kept r r'" using r f(2) eq by auto
    note k = kept_terms [OF kept]
    have mine: "items_of r' db' = map (item_paid ls) (items_of r db)" by (rule items_of_paid [OF items k(1)])
    have before: "order_adds_up db r" "or_status r = Order_paid \<Longrightarrow> paid_in_full db r"
      "or_status r \<noteq> Order_paid \<Longrightarrow> not_paid db r"
      using settled0 r(1) by (auto simp: orders_settled_def)
    have adds: "order_adds_up db' r'" using before(1) by (simp add: order_adds_up_def mine k comp_def)
    show "order_adds_up db' r' \<and> (if or_status r' = Order_paid then paid_in_full db' r' else not_paid db' r')"
    proof (cases "or_id r = or_id order")
      case True
      then have r_eq: "r = order" "r' = f order" using r eq by auto
      have mset_items: "mset (items_of r db) = mset ?items" by (simp add: r_eq(1) items_of_def mset_items_by_id)
      then have set_items: "set (items_of r db) = set ?items" by (metis set_mset_mset)
      have np: "not_paid db r" using before(3) order(2) r_eq(1) by auto
      have "sum_list (map (\<lambda>i. the (oi_totalMinor i)) (items_of r' db')) = sum_list (map cl_totalMinor ls)"
      proof -
        have "mset (map (\<lambda>i. the (oi_totalMinor (item_paid ls i))) (items_of r db)) =
            mset (map (\<lambda>i. the (oi_totalMinor (item_paid ls i))) ?items)"
          using mset_items by simp
        then have "sum_list (map (\<lambda>i. the (oi_totalMinor (item_paid ls i))) (items_of r db)) =
            sum_list (map (\<lambda>i. the (oi_totalMinor (item_paid ls i))) ?items)"
          by (metis sum_mset_sum_list)
        then show ?thesis using sums(1) by (simp add: mine comp_def)
      qed
      moreover have "\<forall>i \<in> set (items_of r' db'). oi_totalMinor i \<noteq> None"
        using sums(2) by (simp add: mine set_items)
      moreover have "item_purchases (sh_access db') (oi_id i) = [(fi_grant ids (oi_id i), oi_titleId i, Some (oi_id i))]"
        if i: "i \<in> set (items_of r db)" for i
      proof -
        have "item_purchases (sh_access db) (oi_id i) = []" using np i by (simp add: not_paid_def)
        then show ?thesis
          using item_purchases_append [OF grants, of "oi_id i"] filter_id_single [OF lines(1)] i set_items by simp
      qed
      moreover have "length (messages_of r' db') = 1"
        using np r_eq k(1) by (simp add: messages_of_def not_paid_def msgs)
      moreover have "\<exists>q \<in> set (sh_payments db'). py_orderId q = or_id r' \<and> py_status q = Payment_succeeded \<and>
          or_totalMinor r' = Some (py_amountMinor q) \<and> py_currency q = or_currency r'"
        using ev(1-5) f(4) k r_eq by (intro bexI [of _ ev]) simp_all
      moreover have "\<forall>i \<in> set (items_of r' db'). \<exists>k. item_purchases (sh_access db') (oi_id i) = [(k, oi_titleId i, Some (oi_id i))]"
        using calculation(3) by (auto simp: mine)
      ultimately have "paid_in_full db' r'"
        using f(4) r_eq(2) unfolding paid_in_full_def by simp
      then show ?thesis using adds f(3) r_eq by simp
    next
      case other: False
      then have r_eq: "r' = r" using r(2) by simp
      have "item_paid ls i = i" if "i \<in> set (items_of r db)" for i
      proof -
        have "oi_id i \<notin> set (map oi_id ?items)"
        proof
          assume "oi_id i \<in> set (map oi_id ?items)"
          then obtain j where j: "j \<in> set (sh_items db)" "si_orderId j = or_id order" "oi_id j = oi_id i"
            by (auto simp: items_by_id_set)
          have "i \<in> set (sh_items db)" using that by (simp add: items_of_def)
          moreover have "items_ok (sh_items db)" using ok by (simp add: shop_ok_def shop_tables_ok_def)
          ultimately have "i = j" using same_item j by metis
          then show False using that j other by (simp add: items_of_def)
        qed
        then have "oi_id i \<notin> set (map cl_orderItemId ls)" using lines(2) by (metis set_mset_mset)
        then have "line_of ls i = None" by (auto simp: line_of_def find_None_iff intro: rev_image_eqI)
        then show ?thesis by (simp add: item_paid_def)
      qed
      then have same: "items_of r' db' = items_of r db" unfolding mine by (simp add: map_idI)
      have purchases: "item_purchases (sh_access db') (oi_id i) = item_purchases (sh_access db) (oi_id i)"
        if i: "i \<in> set (items_of r db)" for i
      proof -
        have "oi_id j \<noteq> oi_id i" if j: "j \<in> set ?items" for j
        proof
          assume "oi_id j = oi_id i"
          moreover have "items_ok (sh_items db)" using ok by (simp add: shop_ok_def shop_tables_ok_def)
          ultimately have "j = i" using i j by (intro same_item) (auto simp: items_of_def items_by_id_set)
          then show False using i j other by (simp add: items_of_def items_by_id_set)
        qed
        then have "filter (\<lambda>j. oi_id j = oi_id i) ?items = []" by (simp add: filter_empty_conv)
        then show ?thesis using item_purchases_append [OF grants, of "oi_id i"] by simp
      qed
      have mm: "messages_of r' db' = messages_of r db" using other by (auto simp: messages_of_def msgs r_eq)
      show ?thesis
      proof (cases "or_status r = Order_paid")
        case True
        obtain q where q: "q \<in> set (sh_payments db)" "py_orderId q = or_id r" "py_status q = Payment_succeeded"
          "or_totalMinor r = Some (py_amountMinor q)" "py_currency q = or_currency r"
          using before(2) [OF True] by (auto simp: paid_in_full_def)
        have "paid_in_full db' r'"
          using before(2) [OF True] old [OF q(1,3)] q(2-5) purchases same mm unfolding paid_in_full_def r_eq by auto
        then show ?thesis using adds True r_eq by simp
      next
        case False
        have n: "not_paid db r" by (rule before(3) [OF False])
        have "py_status q \<noteq> Payment_succeeded" if "q \<in> set (sh_payments db')" "py_orderId q = or_id r" for q
          using bspec [OF ev(6) that(1)] ev(2) that(2) other n by (auto simp: not_paid_def)
        then have "not_paid db' r'" using n purchases same mm unfolding not_paid_def r_eq by auto
        then show ?thesis using adds False r_eq by simp
      qed
    qed
  qed
  ultimately show ?thesis using acc t by (simp add: shop_ok_def)
qed

section \<open>Accepting an order\<close>

lemma grants_of_items:
  assumes "shop_keys db" and "k \<notin> oi_id ` set (sh_items db)"
  shows "item_purchases (sh_access db) k = []"
proof -
  have "eg_orderItemId g \<noteq> Some k" if "g \<in> set (ad_grants (sh_access db))" "eg_source g = Purchase" for g
  proof -
    from assms(1) that obtain i where "i \<in> set (sh_items db)" "eg_orderItemId g = Some (oi_id i)"
      unfolding shop_keys_def by blast
    then show ?thesis using assms(2) by auto
  qed
  then show ?thesis by (auto simp: item_purchases_def purchase_key_def filter_empty_conv)
qed

lemma created_shop_ok:
  assumes ok: "shop_ok db" and t: "shop_tables_ok db'"
    and quote: "lockAndQuoteCart lib sha256 db actor titleIds (Some attempt) now = Inr quote"
    and fresh: "\<And>r. r \<in> set (sh_orders db) \<Longrightarrow> or_clientCheckoutAttemptId r \<noteq> attempt"
    and actor: "actorUserId actor \<noteq> Some []" and some: "qu_items quote \<noteq> []"
    and new: "new = accepted_order_row newId clock actor email quote attempt digest"
    and orders: "sh_orders db' = sh_orders db @ [new]"
    and items: "sh_items db' = sh_items db @ map (accepted_item_row newItemId newId) (qu_items quote)"
    and rest: "sh_payments db' = sh_payments db" "sh_access db' = sh_access db" "sh_messages db' = sh_messages db"
      "sh_guests db' = sh_guests db"
  shows "shop_ok db'"
proof -
  let ?new = "map (accepted_item_row newItemId newId) (qu_items quote)"
  obtain ids where build: "buildQuote sha256 db actor ids (Some attempt) now = Inr quote"
    using quote by (auto simp: lockAndQuoteCart_eq quoteCart_Inr)
  have keys0: "shop_keys db" and owners0: "owners_named db" and hold0: "single_hold db" and settled0: "orders_settled db"
    using ok by (simp_all add: shop_ok_def)
  have new_id: "or_id new = newId" "or_status new = Checkout_pending" "or_initiatingUserId new = actorUserId actor"
    by (simp_all add: new accepted_order_row_def)
  have "distinct (map or_id (sh_orders db @ [new]))" using t orders by (simp add: shop_tables_ok_def orders_ok_def)
  then have fresh_key: "newId \<notin> or_id ` set (sh_orders db)" using new_id(1) by simp
  have fresh_id: "or_id r \<noteq> newId" if "r \<in> set (sh_orders db)" for r
    using imageI [OF that, of or_id] fresh_key by metis
  have used: "si_orderId ` set (sh_items db) \<subseteq> or_id ` set (sh_orders db)"
    "py_orderId ` set (sh_payments db) \<subseteq> or_id ` set (sh_orders db)"
    "snd ` set (sh_messages db) \<subseteq> or_id ` set (sh_orders db)"
    using keys0 unfolding shop_keys_def by blast+
  have si_new: "si_orderId i = newId" if "i \<in> set ?new" for i using that by (auto simp: accepted_item_row_def)
  have old_items: "items_of r db' = items_of r db" if "r \<in> set (sh_orders db)" for r
    using fresh_id [OF that] si_new by (auto simp: items_of_def items filter_empty_conv)
  have "si_orderId i \<noteq> newId" if "i \<in> set (sh_items db)" for i
    using subsetD [OF used(1) imageI [OF that]] fresh_key by metis
  then have new_items: "items_of new db' = ?new"
    using si_new by (auto simp: items_of_def items new_id filter_id_conv filter_empty_conv)
  have "shop_keys db'"
  proof -
    have "\<exists>i \<in> set (sh_items db'). eg_orderItemId g = Some (oi_id i)"
      if "g \<in> set (ad_grants (sh_access db'))" "eg_source g = Purchase" for g
      using that keys0 by (auto simp: shop_keys_def rest items)
    moreover have "si_orderId i \<in> or_id ` set (sh_orders db')" if "i \<in> set (sh_items db')" for i
    proof -
      from that consider "i \<in> set (sh_items db)" | "i \<in> set ?new" unfolding items set_append by blast
      then show ?thesis
      proof cases
        case 1
        show ?thesis using subsetD [OF used(1) imageI [OF 1]] by (simp add: orders)
      next
        case 2
        show ?thesis using si_new [OF 2] new_id(1) by (simp add: orders)
      qed
    qed
    moreover have "py_orderId ` set (sh_payments db') \<subseteq> or_id ` set (sh_orders db')"
      "snd ` set (sh_messages db') \<subseteq> or_id ` set (sh_orders db')"
      using used(2,3) by (simp_all add: orders rest subset_insertI2)
    ultimately show ?thesis unfolding shop_keys_def by blast
  qed
  moreover have "owners_named db'" using owners0 actor by (auto simp: owners_named_def orders rest new_id)
  moreover have "single_hold db'"
  proof -
    have clash: False
      if r: "r \<in> set (sh_orders db)" and i: "i \<in> set (items_of r db)" and j: "j \<in> set ?new"
        and u: "or_initiatingUserId r \<noteq> None" "or_initiatingUserId r = actorUserId actor" "unsettled (or_status r)"
          "oi_titleId i = oi_titleId j" for r i j
    proof -
      obtain u roles where a: "actor = User u roles" "u \<noteq> []"
        using u(1,2) actor by (cases actor) (auto simp: actorUserId_def)
      obtain item where item: "item \<in> set (qu_items quote)" "oi_titleId j = qt_titleId item"
        using j by (auto simp: accepted_item_row_def)
      have i': "i \<in> set (sh_items db)" "or_id r = si_orderId i" using i by (auto simp: items_of_def)
      have "resumable_self_attempt (Some attempt) now r"
        by (rule quote_item_not_held [OF build [unfolded a(1)] a(2) item(1) i'(1) _ r i'(2)])
          (use u item(2) a(1) in \<open>simp_all add: actorUserId_def\<close>)
      then show False using fresh [OF r] by (simp add: resumable_self_attempt_def)
    qed
    show ?thesis
      unfolding single_hold_def
    proof (intro ballI impI, elim conjE)
      fix r s i j
      assume r: "r \<in> set (sh_orders db')" and s: "s \<in> set (sh_orders db')"
        and i: "i \<in> set (items_of r db')" and j: "j \<in> set (items_of s db')"
        and u: "or_initiatingUserId r \<noteq> None" "or_initiatingUserId s = or_initiatingUserId r"
          "unsettled (or_status r)" "unsettled (or_status s)" "oi_titleId i = oi_titleId j"
      show "r = s"
      proof (cases "r = new")
        case True
        show ?thesis
        proof (rule ccontr)
          assume "r \<noteq> s"
          then have s': "s \<in> set (sh_orders db)" using s True by (simp add: orders)
          show False
            by (rule clash [of s j i]) (use s' i j u True new_items old_items [OF s'] new_id(3) in simp_all)
        qed
      next
        case False
        then have r': "r \<in> set (sh_orders db)" using r by (simp add: orders)
        show ?thesis
        proof (cases "s = new")
          case True
          have False
            by (rule clash [of r i j]) (use r' i j u True new_items old_items [OF r'] new_id(3) in simp_all)
          then show ?thesis ..
        next
          case False
          then have "s \<in> set (sh_orders db)" using s by (simp add: orders)
          then show ?thesis using hold0 r' i j u old_items unfolding single_hold_def by metis
        qed
      qed
    qed
  qed
  moreover have "orders_settled db'"
    unfolding orders_settled_def
  proof
    fix r assume "r \<in> set (sh_orders db')"
    then consider "r \<in> set (sh_orders db)" | "r = new" by (auto simp: orders)
    then show "order_adds_up db' r \<and> (if or_status r = Order_paid then paid_in_full db' r else not_paid db' r)"
    proof cases
      case 1
      have "order_adds_up db' r = order_adds_up db r" "paid_in_full db' r = paid_in_full db r"
        "not_paid db' r = not_paid db r"
        unfolding order_adds_up_def paid_in_full_def not_paid_def old_items [OF 1] rest messages_of_def by (rule refl)+
      then show ?thesis using settled0 1 by (simp add: orders_settled_def)
    next
      case 2
      have "qu_subtotalMinor quote = sum_list (map qt_unitSubtotalMinor (qu_items quote))"
        by (rule buildQuote_Inr [OF build]) assumption
      moreover have "qu_currency quote = Some (qt_currency item)" if "item \<in> set (qu_items quote)" for item
        by (rule quote_currency [OF build that])
      moreover have "or_subtotalMinor new = qu_subtotalMinor quote" "or_currency new = js_upper (the (qu_currency quote))"
        by (simp_all add: new accepted_order_row_def)
      ultimately have "order_adds_up db' new"
        using some unfolding order_adds_up_def new_items by (auto simp: accepted_item_row_def comp_def)
      moreover have "not_paid db' new"
      proof -
        have "py_orderId p \<noteq> newId" if "p \<in> set (sh_payments db)" for p
          using subsetD [OF used(2) imageI [OF that]] fresh_key by metis
        moreover have "messages_of new db' = []"
        proof -
          have "snd m \<noteq> newId" if "m \<in> set (sh_messages db)" for m
            using subsetD [OF used(3) imageI [OF that]] fresh_key by metis
          then show ?thesis by (auto simp: messages_of_def rest new_id filter_empty_conv)
        qed
        moreover have "item_purchases (sh_access db') (oi_id i) = []" if "i \<in> set ?new" for i
        proof -
          have "distinct (map oi_id (sh_items db @ ?new))" using t items by (simp add: shop_tables_ok_def items_ok_def)
          then have "oi_id i \<notin> oi_id ` set (sh_items db)" using that by auto
          then show ?thesis using grants_of_items [OF keys0] rest(2) by simp
        qed
        ultimately show ?thesis by (auto simp: not_paid_def rest new_id new_items)
      qed
      ultimately show ?thesis using 2 new_id(2) by simp
    qed
  qed
  ultimately show ?thesis using ok t by (simp add: shop_ok_def rest)
qed

section \<open>Refunds, disputes and preserved grants\<close>

text \<open>None of them adds, drops or redirects a purchase.\<close>

lemma access_step_purchases:
  assumes step: "access_step a a'" and wf: "access_wf a" and c: "access_consistent a"
  shows "map purchase_key (filter (\<lambda>g. eg_source g = Purchase) (ad_grants a')) =
    map purchase_key (filter (\<lambda>g. eg_source g = Purchase) (ad_grants a))"
proof -
  have kept: ?thesis if "list_all2 R (ad_grants a) (ad_grants a')"
    "\<And>g g'. R g g' \<Longrightarrow> purchase_key g' = purchase_key g \<and> eg_source g' = eg_source g" for R
    using that by (induction rule: list_all2_induct) auto
  from step show ?thesis
  proof (rule access_stepE)
    fix newGrantId newId input r
    assume run: "setPreservedGrantState newGrantId (newId (pg_userId input) (pg_titleId input)) input a = Inr (r, a')"
    show ?thesis
    proof (cases "find (\<lambda>g. eg_userId g = Some (pg_userId input) \<and> eg_titleId g = pg_titleId input \<and>
        eg_source g = Preserved) (ad_grants a)")
      case None
      with run obtain n where "ad_grants a' = ad_grants a @ n" "\<forall>g \<in> set n. eg_source g = Preserved"
        by (auto simp: setPreservedGrantState_def Let_def prod_eq_iff split: if_splits)
      moreover have "filter (\<lambda>g. eg_source g = Purchase) n = []" using calculation(2) by (auto simp: filter_empty_conv)
      ultimately show ?thesis by simp
    next
      case (Some e)
      with run obtain f where "ad_grants a' = update_rows eg_id (eg_id e) f (ad_grants a)"
        "\<And>g. purchase_key (f g) = purchase_key g \<and> eg_source (f g) = eg_source g"
        by (auto simp: setPreservedGrantState_def Let_def rbind_eq_Inr prod_eq_iff purchase_key_def split: if_splits)
      then show ?thesis
        by (intro kept [of "\<lambda>g g'. purchase_key g' = purchase_key g \<and> eg_source g' = eg_source g"])
          (auto simp: update_rows_def list_all2_map2 list_all2_same)
    qed
  next
    fix cmp newId refund res
    assume r: "recomputeRefundPurchaseAccess cmp (default_projector newId) refund a = Inr (res, a')"
      "set (rs_grants refund) \<subseteq> set (ad_grants a)" "fresh_ids newId a"
    show ?thesis
      by (rule kept [OF conjunct2 [OF conjunct2 [OF recompute_effect [OF r(1) wf c r(3,2)]]]])
        (auto simp: grant_revoked_def grant_kept_def purchase_key_def)
  next
    fix cmp newId now facts existed stored out
    assume d: "reconcileDisputeAccess cmp (default_projector newId) now facts existed stored a = Inr (out, a')"
      "set (dx_grants facts) \<subseteq> set (ad_grants a)" "fresh_ids newId a"
    obtain st changed where out: "out = (st, changed)" by (cases out)
    show ?thesis
      by (rule reconcile_dispute_effect [OF d(1) [unfolded out] wf c d(3,2)])
        (erule kept, auto simp: grant_moved_def grant_kept_def purchase_key_def)
  qed
qed

lemma access_shop_ok:
  assumes ok: "shop_ok db" and step: "access_step (sh_access db) a"
  shows "shop_ok (db\<lparr>sh_access := a\<rparr>)"
proof -
  have wf: "access_wf (sh_access db)" and c: "access_consistent (sh_access db)" using ok by (simp_all add: shop_ok_def)
  note same = access_step_purchases [OF step wf c]
  have purchases: "item_purchases a k = item_purchases (sh_access db) k" for k by (simp add: item_purchases_def same)
  have "set (map purchase_key (filter (\<lambda>g. eg_source g = Purchase) (ad_grants a))) =
      set (map purchase_key (filter (\<lambda>g. eg_source g = Purchase) (ad_grants (sh_access db))))" by (simp only: same)
  then have "\<exists>i \<in> set (sh_items db). eg_orderItemId g = Some (oi_id i)"
    if g: "g \<in> set (ad_grants a)" "eg_source g = Purchase" for g
  proof -
    from g \<open>set (map purchase_key _) = _\<close> have "purchase_key g \<in> purchase_key ` {h \<in> set (ad_grants (sh_access db)). eg_source h = Purchase}"
      by auto
    then obtain h where "h \<in> set (ad_grants (sh_access db))" "eg_source h = Purchase" "eg_orderItemId g = eg_orderItemId h"
      by (auto simp: purchase_key_def)
    then show ?thesis using ok by (auto simp: shop_ok_def shop_keys_def)
  qed
  then have "shop_keys (db\<lparr>sh_access := a\<rparr>)" using ok by (simp add: shop_ok_def shop_keys_def)
  moreover have "orders_settled (db\<lparr>sh_access := a\<rparr>)"
  proof -
    have "order_adds_up (db\<lparr>sh_access := a\<rparr>) r = order_adds_up db r"
      "paid_in_full (db\<lparr>sh_access := a\<rparr>) r = paid_in_full db r"
      "not_paid (db\<lparr>sh_access := a\<rparr>) r = not_paid db r" for r
      unfolding order_adds_up_def paid_in_full_def not_paid_def by (simp_all add: items_of_def messages_of_def purchases)
    then show ?thesis using ok by (simp add: shop_ok_def orders_settled_def cong: if_cong)
  qed
  ultimately show ?thesis
    using ok access_step_consistent [OF step wf c]
    by (simp add: shop_ok_def shop_tables_ok_def owners_named_def single_hold_def items_of_def)
qed

section \<open>Every step\<close>

lemma shop_ok_unchanged:
  assumes "shop_ok db" and "sh_orders db' = sh_orders db" and "sh_items db' = sh_items db"
    and "sh_payments db' = sh_payments db" and "sh_events db' = sh_events db" and "sh_guests db' = sh_guests db"
    and "sh_access db' = sh_access db" and "sh_messages db' = sh_messages db"
  shows "shop_ok db' \<and> orders_moved (sh_orders db) (sh_orders db')"
proof -
  have "shop_tables_ok db'" using assms by (simp add: shop_ok_def shop_tables_ok_def)
  then show ?thesis using quiet_shop_ok [OF quiet_same] assms by simp
qed

lemma kept_moved: "list_all2 order_kept rows rows' \<Longrightarrow> orders_moved rows rows'"
  unfolding orders_moved_def by (intro exI [of _ rows'] exI [of _ "[]"]) simp

lemma shop_step_ok:
  assumes step: "shop_step db db'" and ok: "shop_ok db"
  shows "shop_ok db' \<and> orders_moved (sh_orders db) (sh_orders db')"
proof -
  have t: "shop_tables_ok db" "access_wf (sh_access db)" "access_consistent (sh_access db)" "owners_named db"
    using ok by (simp_all add: shop_ok_def)
  have q: ?thesis if "quiet db db' \<and> shop_tables_ok db'"
    using that quiet_shop_ok [OF _ ok] kept_moved quietD(4) by blast
  from step show ?thesis
  proof (rule shop_stepE)
    fix lib cy newId newItemId clock input now reuseNow res
    assume run: "createAcceptedOrder lib cy newId newItemId clock input now reuseNow db = (res, db')"
      and actor: "actorUserId (ai_actor input) \<noteq> Some []"
    show ?thesis
    proof (rule createAcceptedOrder_cases [OF run])
      fix limits
      assume "db' = db\<lparr>sh_limits := limits\<rparr>"
      then show ?thesis using shop_ok_unchanged [OF ok, of db'] by simp
    next
      fix limits accepted validated quote email digest
      assume fresh: "\<And>r. r \<in> set (sh_orders db) \<Longrightarrow> or_clientCheckoutAttemptId r \<noteq> vi_checkoutAttemptId validated"
        and quote: "lockAndQuoteCart lib (cy_sha256 cy) db (ai_actor input) (vi_titleIds validated)
          (Some (vi_checkoutAttemptId validated)) now = Inr quote" and some: "qu_items quote \<noteq> []"
        and new: "ao_order accepted = accepted_order_row newId clock (ai_actor input) email quote
          (vi_checkoutAttemptId validated) digest"
        and rows: "orders_ok (sh_orders db @ [ao_order accepted])"
          "items_ok (sh_items db @ map (accepted_item_row newItemId newId) (qu_items quote))"
        and db': "db' = append_audit ''commerce.checkout_created'' ''order'' newId
          (db\<lparr>sh_limits := limits, sh_orders := sh_orders db @ [ao_order accepted],
             sh_items := sh_items db @ map (accepted_item_row newItemId newId) (qu_items quote)\<rparr>)"
      have "shop_ok db'"
        by (rule created_shop_ok [OF ok _ quote fresh actor some new, where newItemId = newItemId])
          (use t(1) rows db' in \<open>simp_all add: shop_tables_ok_def\<close>)
      then show ?thesis using db' by simp
    qed
  next
    fix input now res assume "attachCheckoutSession input now db = (res, db')"
    then show ?thesis using q attach_quiet [OF t(1)] by blast
  next
    fix sha256 newId event r assume "acceptStripeEvent sha256 newId event db = Inr (r, db')"
    then show ?thesis using q accept_event_quiet t(1) by blast
  next
    fix lib ids k raw payment now
    assume run: "fulfillCheckoutEvent lib ids k raw payment now db = Inr db'"
      and f: "fresh_ids (fi_entitlement ids) (sh_access db)"
    show ?thesis
    proof (rule fulfill_checkout_cases [OF t(1-3) f t(4) run])
      assume "quiet db db'" "shop_tables_ok db'" then show ?thesis using q by blast
    next
      fix s order db1 db2
      assume q1: "quiet db db1" "shop_tables_ok db1" and v: "validateLocalAndLineEvidence order (items_by_id (or_id order) db1) s = Inr ()"
        and d: "distinct (map cl_orderItemId (cs_lineItems s))" and p: "paid_now (cs_lineItems s) order db1 db2"
        and q2: "quiet db2 db'" "shop_tables_ok db2" "shop_tables_ok db'"
      have ok1: "shop_ok db1" by (rule quiet_shop_ok [OF q1(1) ok q1(2)])
      have ok2: "shop_ok db2" by (rule paid_shop_ok [OF ok1 q2(2) p d v refl])
      have "orders_moved (sh_orders db1) (sh_orders db2)"
      proof -
        obtain g where g: "sh_orders db2 = update_rows or_id (or_id order) g (sh_orders db1)" "order_kept order (g order)"
          "order \<in> set (sh_orders db1)"
          using p unfolding paid_now_def by blast
        have "orders_ok (sh_orders db1)" using q1(2) by (simp add: shop_tables_ok_def)
        then show ?thesis using update_order_moved [of "sh_orders db1" order g] g by simp
      qed
      then have "orders_moved (sh_orders db) (sh_orders db')"
        using kept_moved [OF quietD(4) [OF q1(1)]] kept_moved [OF quietD(4) [OF q2(1)]] orders_moved_trans by blast
      then show ?thesis using quiet_shop_ok [OF q2(1) ok2 q2(3)] by blast
    qed
  next
    fix k orderId now assume "recordFulfillmentException k orderId now db = Inr db'"
    then show ?thesis using q exception_quiet [OF t(1)] by blast
  next
    fix a assume "db' = db\<lparr>sh_access := a\<rparr>" "access_step (sh_access db) a"
    then show ?thesis using access_shop_ok [OF ok] by simp
  next
    fix ts rs ps assume "db' = db\<lparr>sh_titles := ts, sh_revisions := rs, sh_presentations := ps\<rparr>"
    then show ?thesis using shop_ok_unchanged [OF ok, of db'] by simp
  next
    fix us assume "db' = db\<lparr>sh_accounts := us\<rparr>"
    then show ?thesis using shop_ok_unchanged [OF ok, of db'] by simp
  qed
qed

lemma shop_run_ok:
  assumes "shop_step\<^sup>*\<^sup>* db db'" and "shop_ok db"
  shows "shop_ok db' \<and> orders_moved (sh_orders db) (sh_orders db')"
  using assms
proof (induction rule: rtranclp_induct)
  case (step db1 db2)
  then show ?case using shop_step_ok orders_moved_trans by blast
qed simp

end
