(* ===== verification/ShopHistory.thy ===== *)
theory ShopHistory
  imports CheckoutRuns
begin

text \<open>
  What every step of the shop leaves behind of the events it has seen, of the items of its orders and
  of the orders it does not name: a settled event stays settled, an item keeps its title, price and
  order, and an order that no step names stays as it is.
\<close>

section \<open>What an operation leaves alone\<close>

definition item_key :: "shop_item_row \<Rightarrow> string \<times> string \<times> string \<times> int" where
  "item_key i = (oi_id i, oi_titleId i, si_orderId i, oi_unitSubtotalMinor i)"

definition order_rows :: "string \<Rightarrow> shop_db \<Rightarrow> order_row list" where
  "order_rows k db = filter (\<lambda>r. or_id r = k) (sh_orders db)"

text \<open>The events and items are kept, and with them every order but the one named.\<close>

definition only_order :: "string \<Rightarrow> shop_db \<Rightarrow> shop_db \<Rightarrow> bool" where
  "only_order named db db' \<longleftrightarrow> sh_events db' = sh_events db \<and> map item_key (sh_items db') = map item_key (sh_items db) \<and>
     (\<forall>k. k \<noteq> named \<longrightarrow> order_rows k db' = order_rows k db)"

lemma only_order_refl [simp]: "only_order n db db"
  by (simp add: only_order_def)

lemma only_order_trans: "only_order n db db1 \<Longrightarrow> only_order n db1 db2 \<Longrightarrow> only_order n db db2"
  by (simp add: only_order_def)

lemma only_order_same:
  "sh_events db' = sh_events db \<Longrightarrow> sh_items db' = sh_items db \<Longrightarrow> sh_orders db' = sh_orders db \<Longrightarrow> only_order n db db'"
  by (simp add: only_order_def order_rows_def)

lemma audit_frame [shop_frames]: "only_order n db (append_audit a t k db)"
  by (rule only_order_same) simp_all

lemma queue_frame [shop_frames]: "only_order n db (queueFinancialSource s e g db)"
  by (rule only_order_same) simp_all

lemma update_order_frame:
  assumes "update_order n f db = Inr db'" and "\<And>r. or_id (f r) = or_id r"
  shows "only_order n db db'"
proof -
  have "filter (\<lambda>r. or_id r = k) (update_rows or_id n f rows) = filter (\<lambda>r. or_id r = k) rows" if "k \<noteq> n" for k rows
    by (induction rows) (use that assms(2) in \<open>auto simp: update_rows_def\<close>)
  then show ?thesis using assms(1) by (auto simp: only_order_def order_rows_def)
qed

lemma move_order_frame: "move_order order froms status s now db = Inr db' \<Longrightarrow> only_order (or_id order) db db'"
  using update_order_frame [of "or_id order" "attach_status status s now" db db']
  by (auto simp: move_order_def attach_status_def split: if_splits simp del: update_order_Inr)

lemma guest_frame: "findOrCreateGuestIdentity lib newId email db = Inr (g, db') \<Longrightarrow> only_order n db db'"
  by (auto simp: findOrCreateGuestIdentity_def Let_def rbind_eq_Inr intro!: only_order_same split: option.splits)

lemma discover_frame: "discoverAndLockPaidGuestIdentity lib ids s p live db = Inr (g, db') \<Longrightarrow> only_order n db db'"
  unfolding discoverAndLockPaidGuestIdentity_def
  by (auto simp: rbind_eq_Inr split: option.splits if_splits) (auto simp: rbind_eq_Inr intro: guest_frame
      split: if_splits fulfillment_command.splits)

lemma payment_frame: "storePaymentEvidence newId existing k p paid failed now db = Inr (ev, db') \<Longrightarrow> only_order n db db'"
  by (auto simp: storePaymentEvidence_def Let_def rbind_eq_Inr intro!: only_order_same split: option.splits if_splits)

lemma write_line_frame: "write_line items l db = Inr db' \<Longrightarrow> only_order n db db'"
  by (auto simp: write_line_def only_order_def order_rows_def update_rows_def item_key_def split: option.splits)

lemma write_lines_frame: "rfold (write_line items) ls db = Inr db' \<Longrightarrow> only_order n db db'"
proof (induction ls arbitrary: db)
  case (Cons l ls)
  then show ?case using write_line_frame only_order_trans by (fastforce simp: rbind_eq_Inr)
qed simp

lemma finalize_frame:
  assumes "finalizePaidOrder ids order items s p email owner now db = Inr db'"
  shows "only_order (or_id order) db db'"
proof -
  from assms obtain db1 db2 a where 1: "rfold (write_line items) (cs_lineItems s) db = Inr db1"
    and 2: "update_order (or_id order) (paid_order_row s p email owner now) db1 = Inr db2"
    and 3: "db' = append_audit ''commerce.fulfillment_paid'' ''order'' (or_id order) (db2\<lparr>sh_access := a,
      sh_messages := sh_messages db2 @ [(pw_message owner, or_id order)]\<rparr>)"
    by (auto simp: finalizePaidOrder_def Let_def rbind_eq_Inr simp del: update_order_Inr)
  have "only_order (or_id order) db1 db2" by (rule update_order_frame [OF 2]) (simp add: paid_order_row_def)
  moreover have "only_order (or_id order) db2 db'" by (rule only_order_same) (simp_all add: 3)
  ultimately show ?thesis using write_lines_frame [OF 1] only_order_trans by blast
qed

lemma settle_order_frame:
  assumes "settle_open_order ids order items existing command owner now db = Inr (ev, db')"
  shows "only_order (or_id order) db db'"
proof -
  have paid_then: "only_order (or_id order) db d2"
    if "storePaymentEvidence newId existing k p paid failed now db = Inr (e, d1)" "only_order (or_id order) d1 d2"
    for newId k p paid failed e d1 d2
    using that payment_frame only_order_trans by blast
  show ?thesis
    using assms by (cases command)
      (auto simp: settle_open_order_def rbind_eq_Inr intro: paid_then move_order_frame finalize_frame split: option.splits)
qed

section \<open>Events\<close>

text \<open>Rows of events are added, and a pending row may be settled.\<close>

definition events_settled :: "stripe_event_row list \<Rightarrow> stripe_event_row list \<Rightarrow> bool" where
  "events_settled es es' \<longleftrightarrow> (\<exists>f new. es' = map f es @ new \<and>
     (\<forall>e. ev_id (f e) = ev_id e \<and> (ev_status e \<noteq> Event_pending \<longrightarrow> f e = e)))"

lemma events_settled_refl [simp]: "events_settled es es"
  unfolding events_settled_def by (intro exI [of _ "\<lambda>e. e"] exI [of _ "[]"]) simp

lemma events_settled_append: "events_settled es (es @ new)"
  unfolding events_settled_def by (intro exI [of _ "\<lambda>e. e"] exI [of _ new]) simp

lemma settled_event_stays:
  assumes "events_settled (sh_events db) (sh_events db')" and "find_event k db = Some e" and "ev_status e \<noteq> Event_pending"
  shows "find_event k db' = Some e"
proof -
  from assms(1) obtain f new where f: "sh_events db' = map f (sh_events db) @ new"
    "\<And>e. ev_id (f e) = ev_id e" "\<And>e. ev_status e \<noteq> Event_pending \<Longrightarrow> f e = e"
    unfolding events_settled_def by blast
  have "find (\<lambda>e. ev_id e = k) (map f es @ new) = Some e" if "find (\<lambda>e. ev_id e = k) es = Some e" for es
    using that by (induction es) (auto simp: f(2,3) assms(3) split: if_splits)
  then show ?thesis using assms(2) by (simp add: find_event_def f(1))
qed

text \<open>What settles the events and keeps the items and every order that is not named.\<close>

definition names_order :: "string \<Rightarrow> shop_db \<Rightarrow> shop_db \<Rightarrow> bool" where
  "names_order named db db' \<longleftrightarrow> events_settled (sh_events db) (sh_events db') \<and>
     map item_key (sh_items db') = map item_key (sh_items db) \<and> (\<forall>k. k \<noteq> named \<longrightarrow> order_rows k db' = order_rows k db)"

lemma names_order_same: "only_order n db db' \<Longrightarrow> names_order n db db'"
  by (simp add: only_order_def names_order_def)

lemma settle_names:
  assumes "settle_event st k now d = Inr db'" and "only_order n db d"
  shows "names_order n db db'"
proof -
  let ?f = "\<lambda>e. if ev_id e = k \<and> ev_status e = Event_pending then e\<lparr>ev_status := st, ev_processedAt := Some now\<rparr> else e"
  have "db' = d\<lparr>sh_events := map ?f (sh_events d)\<rparr>" using assms(1) by (simp add: settle_event_def split: if_splits)
  moreover have "events_settled (sh_events d) (map ?f (sh_events d))"
    unfolding events_settled_def by (intro exI [of _ ?f] exI [of _ "[]"]) simp
  ultimately show ?thesis using assms(2) by (simp add: only_order_def names_order_def order_rows_def)
qed

lemma fulfill_order_names:
  assumes "fulfillOrder lib ids event raw payment now guest order db = Inr db'"
  shows "names_order (or_id order) db db'"
proof -
  let ?queue = "\<lambda>d d'. d' = d \<or> (\<exists>(e :: payment_row) g. d' = queueFinancialSource (py_id e) (ev_providerEventId event) g d)"
  have kept: "only_order n d d'" if "?queue d d'" for n d d'
    using that queue_frame by auto
  have "\<exists>d. settle_event Event_processed (ev_id event) now d = Inr db' \<and> only_order (or_id order) db d"
  proof (cases "or_status order \<in> {Order_paid, Order_expired}")
    case True
    then have "\<exists>d. settle_event Event_processed (ev_id event) now d = Inr db' \<and> ?queue db d"
      using assms by (auto simp: fulfillOrder_def rbind_eq_Inr Let_def completeStripeEvent_def
          split: if_splits fulfillment_command.splits option.splits)
    then show ?thesis using kept by blast
  next
    case False
    with assms obtain existing command ownership where
      "rbind (settle_open_order ids order (items_by_id (or_id order) db) existing command ownership now db) (\<lambda>(fact, db1).
         completeStripeEvent (ev_id event) now (case fact of None \<Rightarrow> db1
           | Some e \<Rightarrow> queueFinancialSource (py_id e) (ev_providerEventId event)
               (if projection_published existing e command then [py_id e] else []) db1)) = Inr db'"
      by (simp add: fulfillOrder_def rbind_eq_Inr [of "existing_payment order raw db"] Let_def
          rbind_eq_Inr [of "to_shop x" for x] split: if_splits)
        (auto simp: rbind_eq_Inr [of "case_fulfillment_command f g h i x" for x f g h i] split: if_splits)
    then obtain fact db1 d where settle: "settle_open_order ids order (items_by_id (or_id order) db) existing command ownership now db = Inr (fact, db1)"
      and d: "settle_event Event_processed (ev_id event) now d = Inr db'" "?queue db1 d"
      by (auto simp: rbind_eq_Inr completeStripeEvent_def split: option.splits) blast
    show ?thesis using d kept [OF d(2)] settle_order_frame [OF settle] only_order_trans by blast
  qed
  then show ?thesis using settle_names by blast
qed

lemma fulfill_event_names:
  assumes run: "fulfillCheckoutEvent lib ids k raw payment now db = Inr db'" and parse: "parseCheckoutSnapshot lib raw = Inr s"
  shows "names_order (cs_metadataOrderId s) db db'"
proof -
  from run parse obtain event where event: "find_event k db = Some event"
    by (auto simp: fulfillCheckoutEvent_def to_shop_def split: option.splits)
  show ?thesis
  proof (cases "ev_status event = Event_pending")
    case False
    then show ?thesis using run parse event by (simp add: fulfillCheckoutEvent_def to_shop_def names_order_same)
  next
    case True
    with run parse event obtain guest order d where
      d: "discoverAndLockPaidGuestIdentity lib ids s payment (ev_liveMode event) db = Inr (guest, d)"
      "find_order (cs_metadataOrderId s) d = Some order" "fulfillOrder lib ids event s payment now guest order d = Inr db'"
      by (auto simp: fulfillCheckoutEvent_def rbind_eq_Inr to_shop_def split: option.splits)
    have "or_id order = cs_metadataOrderId s" using find_order_Some [OF d(2)] by blast
    then have "names_order (cs_metadataOrderId s) d db'" using fulfill_order_names [OF d(3)] by simp
    then show ?thesis using discover_frame [OF d(1), of "cs_metadataOrderId s"]
      by (simp add: names_order_def only_order_def)
  qed
qed
lemma park_names:
  assumes "recordFulfillmentException k orderId now db = Inr db'"
  shows "(\<forall>n. names_order n db db') \<or> (\<exists>r \<in> set (sh_orders db). names_order (or_id r) db db' \<and>
    (orderId = Some (or_id r) \<or> or_stripeCheckoutSessionId r \<noteq> None))"
proof (cases "\<exists>event. find_event k db = Some event \<and> ev_status event = Event_pending")
  case False
  then have "db' = db" using assms by (auto simp: recordFulfillmentException_def split: option.splits if_splits)
  then show ?thesis by (simp add: names_order_same)
next
  case True
  then obtain event where event: "find_event k db = Some event" "ev_status event = Event_pending" by blast
  define order where "order = findExceptionOrder event orderId db"
  from assms event obtain db1 a t i where
    m: "(case order of None \<Rightarrow> Inr db
          | Some r \<Rightarrow> if or_status r \<noteq> Order_paid \<and> or_status r \<noteq> Order_expired
              then update_order (or_id r) (\<lambda>r. r\<lparr>or_status := Order_exception, or_updatedAt := now\<rparr>) db
              else Inr db) = Inr db1"
    and e: "settle_event Event_exception (ev_id event) now (append_audit a t i db1) = Inr db'"
    by (auto simp: recordFulfillmentException_def order_def Let_def rbind_eq_Inr simp del: update_order_Inr)
  have audited: "names_order n db db'" if "only_order n db db1" for n
    using settle_names [OF e] audit_frame only_order_trans that by blast
  show ?thesis
  proof (cases order)
    case None
    then show ?thesis using m audited by simp
  next
    case (Some r)
    then have "r \<in> set (sh_orders db)" "orderId = Some (or_id r) \<or> or_stripeCheckoutSessionId r \<noteq> None"
      using find_order_Some by (auto simp: order_def findExceptionOrder_def Let_def split: option.splits if_splits)
    moreover have "only_order (or_id r) db db1"
      using m Some update_order_frame [of "or_id r" "\<lambda>r. r\<lparr>or_status := Order_exception, or_updatedAt := now\<rparr>" db db1]
      by (auto simp del: update_order_Inr split: if_splits)
    ultimately show ?thesis using audited by blast
  qed
qed

lemma attach_names:
  assumes "attachCheckoutSession input now db = (res, db')"
  shows "only_order (at_orderId input) db db'"
proof -
  have "only_order (at_orderId input) db d" if t: "attachTransaction input now db = Inr (c, d)" for c d
  proof -
    from t obtain order where order: "find_order (at_orderId input) db = Some order"
      by (auto simp: attachTransaction_def split: option.splits)
    then have id: "or_id order = at_orderId input" using find_order_Some by blast
    have audited: "only_order (at_orderId input) db (auditSessionConflict (at_orderId input) e)"
      if "only_order (at_orderId input) db e" for e
      using that only_order_trans audit_frame unfolding auditSessionConflict_def by blast
    have updated: "only_order (at_orderId input) db e"
      if "update_order (at_orderId input) f db = Inr e" "f \<in> {\<lambda>r. r\<lparr>or_status := Checkout_open, or_updatedAt := now\<rparr>,
        \<lambda>r. r\<lparr>or_status := Order_exception, or_updatedAt := now\<rparr>, open_session input now}" for e f
      by (rule update_order_frame [OF that(1)]) (use that(2) in \<open>auto simp: open_session_def\<close>)
    show ?thesis
      using t order id audited updated only_order_refl [of "at_orderId input" db]
      by (auto simp: attachTransaction_def rbind_eq_Inr simp del: update_order_Inr split: if_splits)
  qed
  then show ?thesis using assms by (auto simp: attachCheckoutSession_def split: if_splits sum.splits)
qed

section \<open>Histories\<close>

text \<open>Events are settled once, items keep what they say, and new items come after them.\<close>

definition ledger_kept :: "shop_db \<Rightarrow> shop_db \<Rightarrow> bool" where
  "ledger_kept db db' \<longleftrightarrow> events_settled (sh_events db) (sh_events db') \<and>
     (\<exists>new. map item_key (sh_items db') = map item_key (sh_items db) @ new)"

lemma ledger_names: "names_order n db db' \<Longrightarrow> ledger_kept db db'"
  unfolding ledger_kept_def names_order_def by simp

lemma ledger_same: "sh_events db' = sh_events db \<Longrightarrow> sh_items db' = sh_items db \<Longrightarrow> ledger_kept db db'"
  by (simp add: ledger_kept_def)

lemma shop_step_ledger:
  assumes "shop_step db db'"
  shows "ledger_kept db db'"
  using assms
proof (rule shop_stepE)
  fix lib cy newId newItemId clock input now reuseNow res
  assume run: "createAcceptedOrder lib cy newId newItemId clock input now reuseNow db = (res, db')"
  show ?thesis by (rule createAcceptedOrder_cases [OF run]) (simp_all add: ledger_kept_def)
next
  fix input now res assume "attachCheckoutSession input now db = (res, db')"
  then show ?thesis by (rule ledger_names [OF names_order_same [OF attach_names]])
next
  fix sha256 newId event r assume "acceptStripeEvent sha256 newId event db = Inr (r, db')"
  then show ?thesis
    by (auto simp: acceptStripeEvent_def rbind_eq_Inr Let_def ledger_kept_def events_settled_append
        split: if_splits option.splits)
next
  fix lib ids k raw payment now
  assume run: "fulfillCheckoutEvent lib ids k raw payment now db = Inr db'"
  then obtain s where "parseCheckoutSnapshot lib raw = Inr s" by (auto simp: fulfillCheckoutEvent_def rbind_eq_Inr)
  then show ?thesis by (rule ledger_names [OF fulfill_event_names [OF run]])
next
  fix k orderId now assume "recordFulfillmentException k orderId now db = Inr db'"
  then show ?thesis using park_names ledger_names by blast
qed (auto intro: ledger_same)

lemma ledger_trans:
  assumes "ledger_kept db db1" and "ledger_kept db1 db2"
  shows "ledger_kept db db2"
proof -
  from assms obtain f new g new' where f: "sh_events db1 = map f (sh_events db) @ new" "sh_events db2 = map g (sh_events db1) @ new'"
    and fg: "\<And>e. ev_id (f e) = ev_id e \<and> (ev_status e \<noteq> Event_pending \<longrightarrow> f e = e)"
      "\<And>e. ev_id (g e) = ev_id e \<and> (ev_status e \<noteq> Event_pending \<longrightarrow> g e = e)"
    unfolding ledger_kept_def events_settled_def by blast
  have "sh_events db2 = map (\<lambda>e. g (f e)) (sh_events db) @ (map g new @ new')" by (simp add: f)
  moreover have "ev_id (g (f e)) = ev_id e \<and> (ev_status e \<noteq> Event_pending \<longrightarrow> g (f e) = e)" for e by (simp add: fg)
  ultimately have "events_settled (sh_events db) (sh_events db2)" unfolding events_settled_def by blast
  moreover have "\<exists>new. map item_key (sh_items db2) = map item_key (sh_items db) @ new"
    using assms unfolding ledger_kept_def by auto
  ultimately show ?thesis unfolding ledger_kept_def by blast
qed

lemma shop_run_ledger: "shop_step\<^sup>*\<^sup>* db db' \<Longrightarrow> ledger_kept db db'"
proof (induction rule: rtranclp_induct)
  case (step db1 db2)
  then show ?case using shop_step_ledger ledger_trans by blast
qed (simp add: ledger_kept_def)

text \<open>The steps in which no session, event or exception of another party names the order \<open>k\<close>.\<close>

inductive spared_step :: "string \<Rightarrow> shop_db \<Rightarrow> shop_db \<Rightarrow> bool" for k where
  spared_accept: "createAcceptedOrder lib cy newId newItemId clock input now reuseNow db = (res, db') \<Longrightarrow>
    actorUserId (ai_actor input) \<noteq> Some [] \<Longrightarrow> spared_step k db db'"
| spared_attach: "attachCheckoutSession input now db = (res, db') \<Longrightarrow> at_orderId input \<noteq> k \<Longrightarrow> spared_step k db db'"
| spared_receive: "acceptStripeEvent sha256 newId event db = Inr (r, db') \<Longrightarrow> spared_step k db db'"
| spared_fulfill: "fulfillCheckoutEvent lib ids e raw payment now db = Inr db' \<Longrightarrow>
    fresh_ids (fi_entitlement ids) (sh_access db) \<Longrightarrow> cs_metadataOrderId raw \<noteq> k \<Longrightarrow> spared_step k db db'"
| spared_park: "recordFulfillmentException e orderId now db = Inr db' \<Longrightarrow> orderId \<noteq> Some k \<Longrightarrow> spared_step k db db'"
| spared_access: "access_step (sh_access db) a \<Longrightarrow> spared_step k db (db\<lparr>sh_access := a\<rparr>)"
| spared_catalog: "spared_step k db (db\<lparr>sh_titles := ts, sh_revisions := rs, sh_presentations := ps\<rparr>)"
| spared_accounts: "spared_step k db (db\<lparr>sh_accounts := us\<rparr>)"

inductive_cases spared_stepE: "spared_step k db db'"

lemma spared_is_step: "spared_step k db db' \<Longrightarrow> shop_step db db'"
  by (erule spared_stepE) (auto intro: shop_step.intros)

lemma spared_keeps:
  assumes step: "spared_step k db db'" and r: "order_rows k db = [r]" and none: "or_stripeCheckoutSessionId r = None"
  shows "order_rows k db' = [r]"
proof -
  have named: "order_rows k db' = [r]" if "names_order n db db'" "n \<noteq> k" for n
    using that r by (auto simp: names_order_def)
  from step show ?thesis
  proof (rule spared_stepE)
    fix lib cy newId newItemId clock input now reuseNow res
    assume run: "createAcceptedOrder lib cy newId newItemId clock input now reuseNow db = (res, db')"
    show ?thesis
    proof (rule createAcceptedOrder_cases [OF run])
      fix limits assume "db' = db\<lparr>sh_limits := limits\<rparr>"
      then show ?thesis using r by (simp add: order_rows_def)
    next
      fix limits quote and accepted :: accepted_order
      assume new: "orders_ok (sh_orders db @ [ao_order accepted])"
        and db': "db' = append_audit ''commerce.checkout_created'' ''order'' newId
          (db\<lparr>sh_limits := limits, sh_orders := sh_orders db @ [ao_order accepted],
             sh_items := sh_items db @ map (accepted_item_row newItemId newId) (qu_items quote)\<rparr>)"
      have "r \<in> set (order_rows k db)" by (simp add: r)
      then have "or_id (ao_order accepted) \<noteq> k" using new by (auto simp: orders_ok_def order_rows_def)
      then show ?thesis using r by (simp add: db' order_rows_def)
    qed
  next
    fix input now res assume "attachCheckoutSession input now db = (res, db')" "at_orderId input \<noteq> k"
    then show ?thesis using named names_order_same attach_names by blast
  next
    fix sha256 newId event x assume "acceptStripeEvent sha256 newId event db = Inr (x, db')"
    then show ?thesis using r
      by (auto simp: acceptStripeEvent_def rbind_eq_Inr Let_def order_rows_def split: if_splits option.splits)
  next
    fix lib ids e raw payment now
    assume run: "fulfillCheckoutEvent lib ids e raw payment now db = Inr db'" and other: "cs_metadataOrderId raw \<noteq> k"
    from run obtain s where s: "parseCheckoutSnapshot lib raw = Inr s" by (auto simp: fulfillCheckoutEvent_def rbind_eq_Inr)
    then show ?thesis using named [OF fulfill_event_names [OF run s]] parse_snapshot_Inr other by metis
  next
    fix e orderId now
    assume "recordFulfillmentException e orderId now db = Inr db'" and other: "orderId \<noteq> Some k"
    then consider "\<And>n. names_order n db db'" | q where "q \<in> set (sh_orders db)" "names_order (or_id q) db db'"
      "orderId = Some (or_id q) \<or> or_stripeCheckoutSessionId q \<noteq> None"
      using park_names by blast
    then show ?thesis
    proof cases
      case 1
      then show ?thesis using named [of "CHR ''x'' # k"] by simp
    next
      case 2
      have "or_id q \<noteq> k"
      proof
        assume "or_id q = k"
        then have "q \<in> set (order_rows k db)" using 2(1) by (simp add: order_rows_def)
        then show False using 2(3) other none r \<open>or_id q = k\<close> by simp
      qed
      then show ?thesis using named 2(2) by blast
    qed
  qed (use r in \<open>simp_all add: order_rows_def\<close>)
qed

lemma spared_run_keeps:
  assumes "(spared_step k)\<^sup>*\<^sup>* db db'" and "order_rows k db = [r]" and "or_stripeCheckoutSessionId r = None"
  shows "order_rows k db' = [r]"
  using assms by (induction rule: rtranclp_induct) (auto intro: spared_keeps)

lemma kept_item:
  assumes "ledger_kept db db'" and "i \<in> set (sh_items db)"
  shows "\<exists>i' \<in> set (sh_items db'). item_key i' = item_key i"
proof -
  obtain new where "map item_key (sh_items db') = map item_key (sh_items db) @ new"
    using assms(1) unfolding ledger_kept_def by blast
  then have "set (map item_key (sh_items db')) = item_key ` set (sh_items db) \<union> set new" by simp
  then have "item_key i \<in> item_key ` set (sh_items db')" using assms(2) by auto
  then show ?thesis by auto
qed

end
