(* ===== verification/CheckoutTerms.thy ===== *)
theory CheckoutTerms
  imports ShopHistory
begin

text \<open>
  The terms of a checkout: an accepted order has exactly the terms of the quote the reader confirmed;
  the window in which an attempt can be taken up again is the one in which its session can still be
  requested; and a cart above the provider's limit is accepted but can never be paid.
\<close>

section \<open>The order has the terms of the quote\<close>

lemma js_lower_twice [simp]: "js_lower (js_lower s) = js_lower s"
proof -
  have "lower_char (lower_char c) = lower_char c" for c
  proof -
    define n where "n = (of_char c :: nat)"
    have "of_char (char_of (n + 32) :: char) = n + 32" if "n \<le> 90" using that by simp
    then show ?thesis by (simp add: lower_char_def Let_def n_def [symmetric])
  qed
  then show ?thesis by (simp add: js_lower_def)
qed

lemma quote_items_sorted:
  assumes "buildQuote sha256 db actor ids attempt now = Inr q"
  shows "sorted_wrt (\<lambda>l r. compare_text (qt_titleId l) (qt_titleId r) \<le> 0) (qu_items q)"
proof (rule buildQuote_Inr [OF assms])
  fix holds purchasable
  assume p: "purchasable = purchasable_rows db ids holds" and items: "qu_items q = map quote_item_of purchasable"
  have "sorted_wrt (\<lambda>l r. compare_text (row_titleId l) (row_titleId r) \<le> 0) purchasable"
    unfolding p purchasable_rows_def by (rule row_order.sorted_js_sort)
  then show ?thesis by (simp add: items sorted_wrt_map quote_item_title)
qed

lemma accepted_items_in_order:
  assumes "buildQuote sha256 db actor ids attempt now = Inr q"
  shows "by_title (map (accepted_item_row newItemId newId) (qu_items q)) = map (accepted_item_row newItemId newId) (qu_items q)"
  unfolding by_title_def
  by (rule js_sort_sorted) (use quote_items_sorted [OF assms] in \<open>simp add: sorted_wrt_map accepted_item_row_def\<close>)

lemma validated_input_titles:
  assumes "validateInput lib input = Inr validated" and "validatedTitleIds lib (vi_titleIds validated) = Inr ids"
  shows "ids = sort (map js_lower (ai_titleIds input))" and "vi_checkoutAttemptId validated = js_lower (ai_checkoutAttemptId input)"
    and "vi_quoteFingerprint validated = ai_quoteFingerprint input"
proof -
  have v: "vi_titleIds validated = sort (map js_lower (ai_titleIds input)) \<and>
      vi_checkoutAttemptId validated = js_lower (ai_checkoutAttemptId input) \<and>
      vi_quoteFingerprint validated = ai_quoteFingerprint input"
    using assms(1) by (auto simp: validateInput_def cart_titles_def js_sort_compare_text split: option.splits if_splits actor.splits)
  have ids: "ids = sort (map js_lower (vi_titleIds validated))" using validated_titles_Inr [OF assms(2)] by blast
  have "mset (map js_lower (sort (map js_lower (ai_titleIds input)))) = mset (map js_lower (ai_titleIds input))"
    by (simp add: multiset.map_comp comp_def)
  then show "ids = sort (map js_lower (ai_titleIds input))"
    using ids v by (metis sorted_list_of_multiset_mset)
  show "vi_checkoutAttemptId validated = js_lower (ai_checkoutAttemptId input)"
    "vi_quoteFingerprint validated = ai_quoteFingerprint input" using v by blast+
qed

text \<open>
  C5. When a checkout succeeds with the fingerprint of a quote that was shown earlier, for another state
  of the catalog, another cart or another time, the order is what was shown: the same reader, the
  same titles at the same prices in the same order, the same subtotal, in the currency of the quote;
  provided the two documents are not a collision of SHA-256.
\<close>

theorem order_has_quoted_terms:
  assumes q: "quoteCart lib (cy_sha256 cy) db0 actor0 titleIds0 attempt0 now0 = Inr q"
    and run: "createAcceptedOrder lib cy newId newItemId clock input now reuseNow db = (Inr accepted, db')"
    and new: "\<not> ao_reused accepted" and fp: "ai_quoteFingerprint input = qu_fingerprint q"
    and no_collision: "cy_sha256 cy (fingerprint_json (quoted_document db0 actor0 (sort (map js_lower titleIds0)) attempt0 now0)) =
        cy_sha256 cy (fingerprint_json (quoted_document db (ai_actor input) (sort (map js_lower (ai_titleIds input)))
          (Some (js_lower (ai_checkoutAttemptId input))) now)) \<Longrightarrow>
      fingerprint_json (quoted_document db0 actor0 (sort (map js_lower titleIds0)) attempt0 now0) =
      fingerprint_json (quoted_document db (ai_actor input) (sort (map js_lower (ai_titleIds input)))
          (Some (js_lower (ai_checkoutAttemptId input))) now)"
  shows "or_initiatingUserId (ao_order accepted) = actorUserId actor0 \<and>
    map (\<lambda>i. (oi_titleId i, oi_unitSubtotalMinor i)) (ao_items accepted) =
      map (\<lambda>t. (qt_titleId t, qt_unitSubtotalMinor t)) (qu_items q) \<and>
    or_subtotalMinor (ao_order accepted) = qu_subtotalMinor q \<and>
    (\<forall>t \<in> set (qu_items q). or_currency (ao_order accepted) = js_upper (qt_currency t))"
proof (rule createAcceptedOrder_cases [OF run])
  fix limits assume "\<And>a. Inr accepted = Inr a \<Longrightarrow> ao_reused a \<and> ao_order a \<in> set (sh_orders db)"
  then show ?thesis using new by blast
next
  fix limits accepted' validated quote email digest
  assume same: "Inr accepted = Inr accepted'" and v: "validateInput lib input = Inr validated"
    and lock: "lockAndQuoteCart lib (cy_sha256 cy) db (ai_actor input) (vi_titleIds validated)
       (Some (vi_checkoutAttemptId validated)) now = Inr quote"
    and print: "qu_fingerprint quote = vi_quoteFingerprint validated" and some: "qu_items quote \<noteq> []"
    and order: "ao_order accepted' = accepted_order_row newId clock (ai_actor input) email quote (vi_checkoutAttemptId validated) digest"
    and items: "ao_items accepted' = by_title (map (accepted_item_row newItemId newId) (qu_items quote))"
  obtain ids where ids: "validatedTitleIds lib (vi_titleIds validated) = Inr ids"
    and b: "buildQuote (cy_sha256 cy) db (ai_actor input) ids (Some (vi_checkoutAttemptId validated)) now = Inr quote"
    using lock by (auto simp: lockAndQuoteCart_eq quoteCart_Inr)
  obtain ids0 where ids0: "validatedTitleIds lib titleIds0 = Inr ids0"
    and b0: "buildQuote (cy_sha256 cy) db0 actor0 ids0 attempt0 now0 = Inr q" using q by (auto simp: quoteCart_Inr)
  note vi = validated_input_titles [OF v ids]
  have i0: "ids0 = sort (map js_lower titleIds0)" using validated_titles_Inr [OF ids0] by blast
  have "fingerprint_json (quoted_document db0 actor0 ids0 attempt0 now0) =
      fingerprint_json (quoted_document db (ai_actor input) ids (Some (vi_checkoutAttemptId validated)) now)"
    unfolding i0 vi(1,2)
    by (rule no_collision) (use canonical_of_quote(1) [OF b0 validated_sorted [OF ids0]]
        canonical_of_quote(1) [OF b validated_sorted [OF ids]] print fp vi i0 in simp)
  note terms = same_document_terms [OF b0 b validated_sorted [OF ids0] validated_sorted [OF ids] this]
  have terms_eq: "map item_terms (qu_items quote) = map item_terms (qu_items q)" using terms by (elim conjE) (rule sym)
  have subtotal: "qu_subtotalMinor quote = qu_subtotalMinor q" using terms by (elim conjE) (rule sym)
  have actors: "actorUserId (ai_actor input) = actorUserId actor0" using terms by (elim conjE) (rule sym)
  have "map (\<lambda>t. (qt_titleId t, qt_unitSubtotalMinor t)) (qu_items quote) = map (\<lambda>t. (qt_titleId t, qt_unitSubtotalMinor t)) (qu_items q)"
  proof -
    have "map (\<lambda>t. (qt_titleId t, qt_unitSubtotalMinor t)) xs = map (\<lambda>(k, p, c). (k, p)) (map item_terms xs)" for xs
      by (simp add: item_terms_def comp_def)
    then show ?thesis unfolding terms_eq by (simp only: terms_eq)
  qed
  moreover have "map (\<lambda>i. (oi_titleId i, oi_unitSubtotalMinor i)) (ao_items accepted) =
      map (\<lambda>t. (qt_titleId t, qt_unitSubtotalMinor t)) (qu_items quote)"
    using same items accepted_items_in_order [OF b] by (simp add: comp_def accepted_item_row_def)
  moreover have "or_currency (ao_order accepted) = js_upper (qt_currency t)" if t: "t \<in> set (qu_items q)" for t
  proof -
    have "item_terms t \<in> set (map item_terms (qu_items quote))" using t unfolding terms_eq by simp
    then obtain t' where "t' \<in> set (qu_items quote)" "qt_currency t' = qt_currency t" by (auto simp: item_terms_def)
    then show ?thesis using quote_currency [OF b] same order by (simp add: accepted_order_row_def)
  qed
  ultimately show ?thesis using same order subtotal actors by (simp add: accepted_order_row_def)
qed

text \<open>A sample checkout.\<close>

definition sample_crypto :: crypto where
  "sample_crypto = \<lparr>cy_sha256 = sample_sha256, cy_hmac = (\<lambda>_ _. replicate 64 (CHR ''a'')),
     cy_credential = (\<lambda>_ _. (''token'', replicate 64 (CHR ''b'')))\<rparr>"

definition sample_attempt :: string where
  "sample_attempt = ''00000000-0000-4000-8000-000000000001''"

definition sample_order_id :: string where
  "sample_order_id = ''00000000-0000-4000-8000-00000000000f''"

definition sample_input :: accepted_order_input where
  "sample_input = \<lparr>ai_actor = User ''u'' [Customer], ai_titleIds = [''b'', ''a''],
     ai_quoteFingerprint = replicate 63 (CHR ''0'') @ [CHR ''7''],
     ai_checkoutAttemptId = sample_attempt, ai_requestIp = ''1'', ai_applicationSecret = replicate 32 (CHR ''s''),
     ai_windowSeconds = 60, ai_maxAttempts = 5\<rparr>"

definition sample_accept :: "shop_db \<Rightarrow> accepted_order shop_result \<times> shop_db" where
  "sample_accept = createAcceptedOrder sample_checks sample_crypto sample_order_id (\<lambda>t. CHR ''i'' # t) 1000 sample_input 1000 1000"

definition sample_shop1 :: shop_db where
  "sample_shop1 = snd (sample_accept cart_sample_shop)"

lemma sample_reader_quote:
  "map_sum id qu_fingerprint (quoteCart sample_checks sample_sha256 cart_sample_shop (User ''u'' [Customer]) [''B'', ''a'']
     (Some sample_attempt) 1000) = Inr (ai_quoteFingerprint sample_input)"
  by code_simp

lemma sample_accepted:
  "map_sum id (\<lambda>a. (ao_reused a, or_subtotalMinor (ao_order a))) (fst (sample_accept cart_sample_shop)) = Inr (False, 1400)"
  by code_simp

theorem order_has_quoted_terms_witness:
  "\<exists>q accepted. quoteCart sample_checks sample_sha256 cart_sample_shop (User ''u'' [Customer]) [''B'', ''a''] (Some sample_attempt) 1000 = Inr q \<and>
    fst (sample_accept cart_sample_shop) = Inr accepted \<and> or_initiatingUserId (ao_order accepted) = Some ''u'' \<and>
    or_subtotalMinor (ao_order accepted) = qu_subtotalMinor q"
proof -
  obtain q where q: "quoteCart sample_checks (cy_sha256 sample_crypto) cart_sample_shop (User ''u'' [Customer]) [''B'', ''a''] (Some sample_attempt) 1000 = Inr q"
    "qu_fingerprint q = ai_quoteFingerprint sample_input"
    using sample_reader_quote by (cases "quoteCart sample_checks sample_sha256 cart_sample_shop (User ''u'' [Customer]) [''B'', ''a'']
      (Some sample_attempt) 1000") (auto simp: sample_crypto_def)
  obtain accepted where acc: "fst (sample_accept cart_sample_shop) = Inr accepted" "\<not> ao_reused accepted"
    using sample_accepted by (cases "fst (sample_accept cart_sample_shop)") auto
  have run: "createAcceptedOrder sample_checks sample_crypto sample_order_id (\<lambda>t. CHR ''i'' # t) 1000 sample_input 1000 1000 cart_sample_shop =
      (Inr accepted, sample_shop1)"
    using acc(1) unfolding sample_shop1_def sample_accept_def by (metis prod.collapse)
  have same: "sort (map js_lower [''B'', ''a'']) = sort (map js_lower (ai_titleIds sample_input)) \<and>
      js_lower (ai_checkoutAttemptId sample_input) = sample_attempt \<and> ai_actor sample_input = User ''u'' [Customer]"
    by code_simp
  have "or_initiatingUserId (ao_order accepted) = actorUserId (User ''u'' [Customer]) \<and>
      or_subtotalMinor (ao_order accepted) = qu_subtotalMinor q"
    using order_has_quoted_terms [OF q(1) run acc(2) q(2) [symmetric]] same by metis
  then show ?thesis using q(1) acc(1) by (auto simp: actorUserId_def sample_crypto_def)
qed

section \<open>The provider window\<close>

text \<open>
  The last moment at which an attempt can be taken up again is exactly the last moment at which its
  session can still be requested: no retry is let through to fail at the provider's minimum, and none
  is refused that would have reached it.
\<close>

lemma reuse_window_is_provider_window:
  "checkoutExpiry order 1800 = Inr expiresAt \<Longrightarrow>
   now \<le> checkoutProviderStartDeadline (or_createdAt order) \<longleftrightarrow> assertCheckoutCanReachProvider expiresAt 1800 now = Inr ()"
  by (auto simp: checkoutExpiry_def checkoutProviderStartDeadline_def assertCheckoutCanReachProvider_def throw_if_def
      CHECKOUT_PROVIDER_CREATION_ALLOWANCE_SECONDS_def CHECKOUT_PROVIDER_CALL_SAFETY_SECONDS_def
      CHECKOUT_PROVIDER_CALL_WINDOW_SECONDS_def)

section \<open>A cart above the provider's limit\<close>

lemma gateway_rejects_oversized:
  assumes "MAX_CHECKOUT_SUBTOTAL_MINOR < sum_list (map oi_unitSubtotalMinor (ao_items accepted))"
  shows "createCheckoutSession lib origin provider (session_input options accepted expiresAt) = Inl Shop_permanent"
proof -
  let ?input = "session_input options accepted expiresAt"
  have "map sl_unitSubtotalMinor (map (\<lambda>i. i\<lparr>sl_title := js_trim (sl_title i)\<rparr>) (ci_items ?input)) =
      map oi_unitSubtotalMinor (ao_items accepted)"
    by (simp add: session_input_def Let_def comp_def)
  then have "createCheckoutSessionInput lib ?input = Inl Shop_permanent"
    using assms unfolding createCheckoutSessionInput_def Let_def by simp
  then show ?thesis by (simp add: createCheckoutSession_def)
qed

text \<open>A further request with the attempt of an order takes that order up, or fails, and writes no order.\<close>

lemma same_attempt_reuses:
  assumes ok: "orders_ok (sh_orders db)" and r: "r \<in> set (sh_orders db)"
    and attempt: "js_lower (ai_checkoutAttemptId input) = or_clientCheckoutAttemptId r"
    and run: "createAcceptedOrder lib cy newId newItemId clock input now reuseNow db = (res, db')"
  shows "sh_orders db' = sh_orders db \<and> (\<forall>a. res = Inr a \<longrightarrow> ao_order a = r \<and> ao_items a = by_title (order_items (or_id r) db))"
proof (cases "validateInput lib input")
  case (Inl e)
  then show ?thesis using run by (auto simp: createAcceptedOrder_def)
next
  case v: (Inr validated)
  then have a: "vi_checkoutAttemptId validated = or_clientCheckoutAttemptId r"
    using attempt by (auto simp: validateInput_def split: option.splits if_splits actor.splits)
  obtain existing where e: "find (\<lambda>q. or_clientCheckoutAttemptId q = or_clientCheckoutAttemptId r) (sh_orders db) = Some existing"
    using r by (metis (mono_tags, lifting) find_None_iff not_Some_eq)
  then have "existing \<in> set (sh_orders db)" "or_clientCheckoutAttemptId existing = or_clientCheckoutAttemptId r"
    using find_row_member by fastforce+
  then have same: "existing = r" using ok r unfolding orders_ok_def distinct_map inj_on_def by blast
  show ?thesis
  proof (cases "consume_checkout_limit cy input now db")
    case (Inl e)
    then show ?thesis using run v by (auto simp: createAcceptedOrder_def)
  next
    case c: (Inr dc)
    then obtain decision limits where dc: "dc = (decision, db\<lparr>sh_limits := limits\<rparr>)"
      by (auto simp: consume_checkout_limit_def split: sum.splits)
    show ?thesis
      using run v c dc e a same
      by (auto simp: createAcceptedOrder_def reuseAcceptedOrder_def order_items_def Let_def rbind_eq_Inr split: if_splits sum.splits)
  qed
qed

lemma sum_by_title: "sum_list (map f (by_title is)) = (sum_list (map f is) :: int)"
  by (simp add: by_title_def)

lemma oversized_retry_fails:
  assumes ok: "shop_ok db" and r: "r \<in> set (sh_orders db)" and big: "MAX_CHECKOUT_SUBTOTAL_MINOR < or_subtotalMinor r"
    and attempt: "js_lower (ai_checkoutAttemptId input) = or_clientCheckoutAttemptId r"
  shows "(\<exists>e. fst (orchestrateCheckout (createAcceptedOrder lib cy newId newItemId clock input now reuseNow)
        (createCheckoutSession lib' origin provider) options requestTime attachTime db) = Inl e) \<and>
    sh_orders (snd (orchestrateCheckout (createAcceptedOrder lib cy newId newItemId clock input now reuseNow)
        (createCheckoutSession lib' origin provider) options requestTime attachTime db)) = sh_orders db"
proof -
  obtain res db1 where run: "createAcceptedOrder lib cy newId newItemId clock input now reuseNow db = (res, db1)" by fastforce
  have tables: "orders_ok (sh_orders db)" using ok by (simp add: shop_ok_def shop_tables_ok_def)
  note reuse = same_attempt_reuses [OF tables r attempt run]
  show ?thesis
  proof (cases res)
    case (Inl e)
    then show ?thesis using run reuse by (simp add: orchestrateCheckout_def)
  next
    case (Inr a)
    then have a: "ao_order a = r" "ao_items a = by_title (order_items (or_id r) db)" using reuse by blast+
    have "order_adds_up db r" using ok r unfolding shop_ok_def orders_settled_def by blast
    then have "MAX_CHECKOUT_SUBTOTAL_MINOR < sum_list (map oi_unitSubtotalMinor (ao_items a))"
      using big by (simp add: a sum_by_title order_adds_up_def items_of_def order_items_def)
    note rejected = gateway_rejects_oversized [OF this]
    show ?thesis
      using run reuse Inr by (auto simp: orchestrateCheckout_def rejected rbind_def split: sum.splits)
  qed
qed

lemma oversized_not_offered:
  assumes r: "r \<in> set (sh_orders db)" "or_initiatingUserId r = Some u" "unsettled (or_status r)" and u: "u \<noteq> []"
    and i: "i \<in> set (sh_items db)" "si_orderId i = or_id r"
    and late: "checkoutProviderStartDeadline (or_createdAt r) < later"
    and quote: "quoteCart lib sha256 db (User u roles) titleIds attempt later = Inr q"
  shows "oi_titleId i \<notin> qt_titleId ` set (qu_items q)"
proof
  assume "oi_titleId i \<in> qt_titleId ` set (qu_items q)"
  then obtain item where item: "item \<in> set (qu_items q)" "oi_titleId i = qt_titleId item" by blast
  obtain ids where b: "buildQuote sha256 db (User u roles) ids attempt later = Inr q" using quote by (auto simp: quoteCart_Inr)
  have "resumable_self_attempt attempt later r"
    by (rule quote_item_not_held [OF b u item(1) i(1) item(2) r(1) i(2) [symmetric] r(2,3)])
  then show False using late by (simp add: resumable_self_attempt_def)
qed

text \<open>
  C9. Nothing bounds the subtotal of a cart before its order is committed, while the gateway refuses every
  subtotal above \<open>MAX_CHECKOUT_SUBTOTAL_MINOR\<close>. Such a checkout fails after the order was written, and
  the order stays pending without a session. After any history of the shop, every retry of the
  attempt fails too and changes no order, and as long as the order is unsettled no quote offers the
  reader any of its titles once the provider window has passed. The order stays exactly as it was
  written in every history in which no session, event or exception names it, and none can come of
  this checkout, since the gateway created none.
\<close>

theorem oversized_cart_strands_order:
  assumes run: "createAcceptedOrder lib cy newId newItemId clock input now reuseNow db = (Inr accepted, db1)"
    and new: "\<not> ao_reused accepted" and u: "ai_actor input = User u roles" "u \<noteq> []"
    and big: "MAX_CHECKOUT_SUBTOTAL_MINOR < or_subtotalMinor (ao_order accepted)"
    and ok: "shop_ok db" and history: "shop_step\<^sup>*\<^sup>* db1 db'"
  shows "fst (orchestrateCheckout (createAcceptedOrder lib cy newId newItemId clock input now reuseNow)
        (createCheckoutSession lib origin provider) options requestTime attachTime db) \<in>
        {Inl Shop_permanent, Inl (Shop_conflict Checkout_attempt_conflict)} \<and>
    snd (orchestrateCheckout (createAcceptedOrder lib cy newId newItemId clock input now reuseNow)
        (createCheckoutSession lib origin provider) options requestTime attachTime db) = db1 \<and>
    ao_order accepted \<in> set (sh_orders db1) \<and> or_status (ao_order accepted) = Checkout_pending \<and>
    or_stripeCheckoutSessionId (ao_order accepted) = None \<and> ao_items accepted \<noteq> [] \<and>
    ((spared_step (or_id (ao_order accepted)))\<^sup>*\<^sup>* db1 db' \<longrightarrow> ao_order accepted \<in> set (sh_orders db')) \<and>
    (\<exists>r \<in> set (sh_orders db'). order_terms r = order_terms (ao_order accepted) \<and>
      (\<forall>lib' cy' newId' newItemId' clock' input' now' reuseNow' lib'' origin' provider' options' requestTime' attachTime'.
        js_lower (ai_checkoutAttemptId input') = or_clientCheckoutAttemptId (ao_order accepted) \<longrightarrow>
        (let retry = orchestrateCheckout (createAcceptedOrder lib' cy' newId' newItemId' clock' input' now' reuseNow')
           (createCheckoutSession lib'' origin' provider') options' requestTime' attachTime' db'
         in (\<exists>e. fst retry = Inl e) \<and> sh_orders (snd retry) = sh_orders db')) \<and>
      (unsettled (or_status r) \<longrightarrow> (\<forall>lib' sha256 roles' titleIds attempt later q.
        checkoutProviderStartDeadline (or_createdAt (ao_order accepted)) < later \<and>
        quoteCart lib' sha256 db' (User u roles') titleIds attempt later = Inr q \<longrightarrow>
        oi_titleId ` set (ao_items accepted) \<inter> qt_titleId ` set (qu_items q) = {})))"
proof (rule createAcceptedOrder_cases [OF run])
  fix limits assume "\<And>a. Inr accepted = Inr a \<Longrightarrow> ao_reused a \<and> ao_order a \<in> set (sh_orders db)"
  then show ?thesis using new by blast
next
  fix limits accepted' validated quote email digest
  assume same: "Inr accepted = Inr accepted'"
    and lock: "lockAndQuoteCart lib (cy_sha256 cy) db (ai_actor input) (vi_titleIds validated)
       (Some (vi_checkoutAttemptId validated)) now = Inr quote" and some: "qu_items quote \<noteq> []"
    and order: "ao_order accepted' = accepted_order_row newId clock (ai_actor input) email quote (vi_checkoutAttemptId validated) digest"
    and items: "ao_items accepted' = by_title (map (accepted_item_row newItemId newId) (qu_items quote))"
    and rows: "orders_ok (sh_orders db @ [ao_order accepted'])"
    and db1: "db1 = append_audit ''commerce.checkout_created'' ''order'' newId
       (db\<lparr>sh_limits := limits, sh_orders := sh_orders db @ [ao_order accepted'],
          sh_items := sh_items db @ map (accepted_item_row newItemId newId) (qu_items quote)\<rparr>)"
  have acc: "accepted' = accepted" using same by simp
  let ?o = "ao_order accepted"
  obtain ids where b: "buildQuote (cy_sha256 cy) db (ai_actor input) ids (Some (vi_checkoutAttemptId validated)) now = Inr quote"
    using lock by (auto simp: lockAndQuoteCart_eq quoteCart_Inr)
  have "qu_subtotalMinor quote = sum_list (map qt_unitSubtotalMinor (qu_items quote))"
    by (rule buildQuote_Inr [OF b]) assumption
  then have "MAX_CHECKOUT_SUBTOTAL_MINOR < sum_list (map oi_unitSubtotalMinor (ao_items accepted))"
    using big order items accepted_items_in_order [OF b]
    by (simp add: acc accepted_order_row_def accepted_item_row_def comp_def)
  note rejected = gateway_rejects_oversized [OF this]
  let ?run = "orchestrateCheckout (createAcceptedOrder lib cy newId newItemId clock input now reuseNow)
        (createCheckoutSession lib origin provider) options requestTime attachTime db"
  have fails: "fst ?run \<in> {Inl Shop_permanent, Inl (Shop_conflict Checkout_attempt_conflict)} \<and> snd ?run = db1"
    by (auto simp: orchestrateCheckout_def run rejected rbind_def checkoutExpiry_def assertCheckoutCanReachProvider_def
        throw_if_def split: sum.splits if_splits)
  have ordered: "sh_orders db1 = sh_orders db @ [?o]"
    "sh_items db1 = sh_items db @ map (accepted_item_row newItemId newId) (qu_items quote)"
    using db1 by (simp_all add: acc)
  have o: "?o \<in> set (sh_orders db1)" "or_status ?o = Checkout_pending"
    "or_initiatingUserId ?o = Some u" "or_stripeCheckoutSessionId ?o = None" "or_id ?o = newId"
    using ordered(1) order u(1) by (simp_all add: acc accepted_order_row_def actorUserId_def)
  have row: "order_rows (or_id ?o) db1 = [?o]"
    using rows unfolding order_rows_def ordered(1) acc
    by (auto simp: orders_ok_def filter_empty_conv) (metis imageI)
  have "shop_step db db1" by (rule shop_step.accepted [OF run]) (simp add: u actorUserId_def)
  then have ok1: "shop_ok db1" using shop_step_ok ok by blast
  have run_ok: "shop_ok db'" "orders_moved (sh_orders db1) (sh_orders db')" using shop_run_ok [OF history ok1] by blast+
  then obtain r where r: "r \<in> set (sh_orders db')" "order_kept ?o r" using orders_moved_member o(1) by blast
  have terms: "order_terms r = order_terms ?o" using r(2) unfolding order_kept_def by blast
  then have rt: "or_id r = or_id ?o" "or_initiatingUserId r = Some u" "or_subtotalMinor r = or_subtotalMinor ?o"
    "or_clientCheckoutAttemptId r = or_clientCheckoutAttemptId ?o" "or_createdAt r = or_createdAt ?o"
    using o(3) by (simp_all add: order_terms_def)
  have spared: "?o \<in> set (sh_orders db')" if "(spared_step (or_id ?o))\<^sup>*\<^sup>* db1 db'"
  proof -
    have "?o \<in> set (order_rows (or_id ?o) db')" using spared_run_keeps [OF that row o(4)] by simp
    then show ?thesis by (simp add: order_rows_def)
  qed
  have hidden: "oi_titleId ` set (ao_items accepted) \<inter> qt_titleId ` set (qu_items q) = {}"
    if unsettled: "unsettled (or_status r)" and late: "checkoutProviderStartDeadline (or_createdAt ?o) < later"
      and quote': "quoteCart lib' sha256 db' (User u roles') titleIds attempt later = Inr q"
    for lib' sha256 roles' titleIds attempt later q
  proof -
    have "oi_titleId i \<notin> qt_titleId ` set (qu_items q)" if i: "i \<in> set (ao_items accepted)" for i
    proof -
      have "i \<in> set (sh_items db1)" "si_orderId i = or_id ?o"
        using i o(5) unfolding ordered(2) items [unfolded acc] by (auto simp: by_title_def accepted_item_row_def)
      then obtain i' where i': "i' \<in> set (sh_items db')" "si_orderId i' = or_id r" "oi_titleId i' = oi_titleId i"
        using kept_item [OF shop_run_ledger [OF history]] rt(1) by (metis item_key_def prod.inject)
      show ?thesis
        using oversized_not_offered [OF r(1) rt(2) unsettled u(2) i'(1,2) _ quote'] late rt(5) i'(3) by simp
    qed
    then show ?thesis by blast
  qed
  have retry: "\<forall>lib' cy' newId' newItemId' clock' input' now' reuseNow' lib'' origin' provider' options' requestTime' attachTime'.
      js_lower (ai_checkoutAttemptId input') = or_clientCheckoutAttemptId ?o \<longrightarrow>
      (let retry = orchestrateCheckout (createAcceptedOrder lib' cy' newId' newItemId' clock' input' now' reuseNow')
         (createCheckoutSession lib'' origin' provider') options' requestTime' attachTime' db'
       in (\<exists>e. fst retry = Inl e) \<and> sh_orders (snd retry) = sh_orders db')"
    unfolding Let_def using oversized_retry_fails [OF run_ok(1) r(1)] big rt(3,4) by simp
  have "ao_items accepted \<noteq> []" using items some accepted_items_in_order [OF b] by (simp add: acc)
  then show ?thesis
    using fails o(1,2,4) spared hidden retry terms r(1) by blast
qed

lemma sample_shop_start: "shop_ok cart_sample_shop"
proof -
  have "shop_tables_ok cart_sample_shop"
    by (simp add: shop_tables_ok_def cart_sample_shop_def orders_ok_def items_ok_def payments_ok_def events_ok_def guests_ok_def
        somes_def List.map_filter_simps)
  then show ?thesis
    by (simp add: shop_ok_def access_wf_def access_consistent_def entitled_def granted_def owners_named_def shop_keys_def
        single_hold_def orders_settled_def) (simp add: cart_sample_shop_def empty_access_def)
qed

definition oversized_shop :: shop_db where
  "oversized_shop = cart_sample_shop\<lparr>sh_titles := [cart_sample_title ''a'' 30000000 Public_title, cart_sample_title ''b'' 30000000 Public_title]\<rparr>"

definition oversized_input :: accepted_order_input where
  "oversized_input = sample_input\<lparr>ai_quoteFingerprint := replicate 63 (CHR ''0'') @ [CHR ''1'']\<rparr>"

definition oversized_accept :: "shop_db \<Rightarrow> accepted_order shop_result \<times> shop_db" where
  "oversized_accept = createAcceptedOrder sample_checks sample_crypto sample_order_id (\<lambda>t. CHR ''i'' # t) 1000 oversized_input 1000 1000"

lemma oversized_accepted:
  "map_sum id (\<lambda>a. (ao_reused a, or_subtotalMinor (ao_order a))) (fst (oversized_accept oversized_shop)) = Inr (False, 60000000)"
  by code_simp

definition oversized_later :: shop_db where
  "oversized_later = (snd (oversized_accept oversized_shop))\<lparr>sh_accounts := []\<rparr>"

lemma oversized_start: "shop_ok oversized_shop"
proof -
  have "shop_step cart_sample_shop oversized_shop"
    using shop_step.catalog_changed [where db = cart_sample_shop and ts = "sh_titles oversized_shop"
        and rs = "sh_revisions cart_sample_shop" and ps = "sh_presentations cart_sample_shop"]
    by (simp add: oversized_shop_def)
  then show ?thesis using shop_step_ok sample_shop_start by blast
qed

theorem oversized_cart_strands_order_witness:
  "\<exists>accepted. fst (oversized_accept oversized_shop) = Inr accepted \<and> or_status (ao_order accepted) = Checkout_pending \<and>
    ao_order accepted \<in> set (sh_orders (snd (oversized_accept oversized_shop))) \<and>
    ao_order accepted \<in> set (sh_orders oversized_later)"
proof -
  obtain accepted where acc: "fst (oversized_accept oversized_shop) = Inr accepted" "\<not> ao_reused accepted"
      "or_subtotalMinor (ao_order accepted) = 60000000"
    using oversized_accepted by (cases "fst (oversized_accept oversized_shop)") auto
  have run: "createAcceptedOrder sample_checks sample_crypto sample_order_id (\<lambda>t. CHR ''i'' # t) 1000 oversized_input 1000 1000
      oversized_shop = (Inr accepted, snd (oversized_accept oversized_shop))"
    using acc(1) unfolding oversized_accept_def by (metis prod.collapse)
  have actor: "ai_actor oversized_input = User ''u'' [Customer]" by (simp add: oversized_input_def sample_input_def)
  have big: "MAX_CHECKOUT_SUBTOTAL_MINOR < or_subtotalMinor (ao_order accepted)"
    by (simp add: acc(3) MAX_CHECKOUT_SUBTOTAL_MINOR_def MAX_CATALOG_PRICE_MINOR_def)
  have spared: "(spared_step k)\<^sup>*\<^sup>* (snd (oversized_accept oversized_shop)) oversized_later" for k
    unfolding oversized_later_def by (rule r_into_rtranclp) (rule spared_step.spared_accounts)
  have later: "shop_step\<^sup>*\<^sup>* (snd (oversized_accept oversized_shop)) oversized_later"
    unfolding oversized_later_def by (rule r_into_rtranclp) (rule shop_step.accounts_changed)
  have named: "''u'' \<noteq> []" by simp
  note strands = oversized_cart_strands_order [OF run acc(2) actor named big oversized_start later, THEN conjunct2, THEN conjunct2]
  note parts = strands [THEN conjunct1] strands [THEN conjunct2, THEN conjunct1]
    strands [THEN conjunct2, THEN conjunct2, THEN conjunct2, THEN conjunct2, THEN conjunct1]
  show ?thesis using parts spared acc(1) by (intro exI [of _ accepted]) simp
qed

end
