(* ===== verification/CheckoutSafety.thy ===== *)
theory CheckoutSafety
  imports CheckoutTerms
begin

text \<open>
  What the checkout promises, for every history of steps: orders only move forward, no title is
  reserved twice for a reader, an order is paid exactly once and in full, an event acts once, and an
  order has the terms the reader was shown. A sample run shows that a history with a paid order exists.
\<close>

section \<open>A sample run\<close>

definition sample_attach :: attach_session_input where
  "sample_attach = \<lparr>at_orderId = sample_order_id, at_providerSessionId = ''cs_1'', at_checkoutExpiresAt = 1861000\<rparr>"

definition sample_event :: stripe_event_row where
  "sample_event = \<lparr>ev_id = [], ev_providerEventId = ''evt_1'', ev_eventType = ''checkout.session.completed'',
     ev_objectId = ''cs_1'', ev_liveMode = False, ev_apiVersion = None, ev_providerCreatedAt = 0,
     ev_rawBodySha256 = replicate 64 (CHR ''c''), ev_status = Event_pending, ev_processedAt = None\<rparr>"

definition sample_line :: "string \<Rightarrow> int \<Rightarrow> checkout_line" where
  "sample_line t price = \<lparr>cl_providerLineItemId = ''li_'' @ t, cl_orderItemId = CHR ''i'' # t, cl_quantity = 1,
     cl_currency = ''usd'', cl_subtotalMinor = price, cl_taxMinor = 10, cl_totalMinor = price + 10\<rparr>"

definition sample_session :: checkout_snapshot where
  "sample_session = \<lparr>cs_providerSessionId = ''cs_1'', cs_clientReferenceId = sample_order_id, cs_metadataVersion = ''1'',
     cs_metadataOrderId = sample_order_id, cs_liveMode = False, cs_mode = ''payment'', cs_status = Session_complete,
     cs_paymentStatus = Session_paid, cs_paymentIntentId = Some ''pi_1'', cs_latestChargeId = Some ''ch_1'',
     cs_customerEmail = Some ''U@x'', cs_currency = ''usd'', cs_subtotalMinor = 1400, cs_taxMinor = 20,
     cs_totalMinor = 1420, cs_expiresAt = 1861000, cs_lineItems = [sample_line ''b'' 900, sample_line ''a'' 500]\<rparr>"

definition sample_payment :: payment_snapshot where
  "sample_payment = \<lparr>ps_paymentIntentId = ''pi_1'', ps_metadataVersion = ''1'', ps_metadataOrderId = sample_order_id,
     ps_latestChargeId = Some ''ch_1'', ps_liveMode = False, ps_state = Payment_succeeded, ps_amountMinor = 1420,
     ps_currency = ''usd'', ps_paidAt = Some 5000, ps_paymentMethodCategory = Some ''card''\<rparr>"

definition sample_fulfillment_ids :: fulfillment_ids where
  "sample_fulfillment_ids = \<lparr>fi_guest = ''guest'', fi_payment = ''pay'', fi_grant = (\<lambda>k. CHR ''g'' # k),
     fi_entitlement = sample_ids\<rparr>"

definition sample_shop2 :: shop_db where
  "sample_shop2 = snd (attachCheckoutSession sample_attach 2000 sample_shop1)"

definition sample_shop3 :: shop_db where
  "sample_shop3 = (case acceptStripeEvent sample_sha256 ''e'' sample_event sample_shop2 of Inl _ \<Rightarrow> sample_shop2 | Inr (_, d) \<Rightarrow> d)"

definition sample_shop4 :: shop_db where
  "sample_shop4 = (case fulfillCheckoutEvent sample_checks sample_fulfillment_ids ''e'' sample_session
     (Some sample_payment) 6000 sample_shop3 of Inl _ \<Rightarrow> sample_shop3 | Inr d \<Rightarrow> d)"

lemma sample_orders1:
  "map (\<lambda>r. (or_id r, or_status r, or_subtotalMinor r)) (sh_orders sample_shop1) = [(sample_order_id, Checkout_pending, 1400)]"
  by code_simp

lemma sample_orders2: "map (\<lambda>r. (or_status r, or_stripeCheckoutSessionId r)) (sh_orders sample_shop2) = [(Checkout_open, Some ''cs_1'')]"
  by code_simp

lemma sample_events3: "map ev_status (sh_events sample_shop3) = [Event_pending]"
  by code_simp

lemma sample_orders4:
  "map (\<lambda>r. (or_status r, or_totalMinor r)) (sh_orders sample_shop4) = [(Order_paid, Some 1420)]"
  by code_simp

lemma sample_steps: "shop_step\<^sup>*\<^sup>* cart_sample_shop sample_shop4" "shop_step\<^sup>*\<^sup>* sample_shop1 sample_shop4"
  "shop_step\<^sup>*\<^sup>* cart_sample_shop sample_shop1"
proof -
  have 1: "shop_step cart_sample_shop sample_shop1"
    by (rule shop_step.accepted [of _ _ _ _ _ sample_input _ _ _ "fst (sample_accept cart_sample_shop)"])
      (simp_all add: sample_shop1_def sample_accept_def sample_input_def actorUserId_def)
  have 2: "shop_step sample_shop1 sample_shop2"
    by (rule shop_step.attached [of sample_attach 2000 _ "fst (attachCheckoutSession sample_attach 2000 sample_shop1)"])
      (simp add: sample_shop2_def)
  have 3: "shop_step\<^sup>*\<^sup>* sample_shop2 sample_shop3"
    by (auto simp: sample_shop3_def intro: r_into_rtranclp shop_step.received split: sum.split prod.split)
  have "sh_access sample_shop3 = empty_access" by code_simp
  moreover have "fresh_ids sample_ids empty_access"
    by (auto simp: fresh_ids_def sample_ids_inj empty_access_def)
  ultimately have "fresh_ids (fi_entitlement sample_fulfillment_ids) (sh_access sample_shop3)"
    by (simp add: sample_fulfillment_ids_def)
  then have 4: "shop_step\<^sup>*\<^sup>* sample_shop3 sample_shop4"
    by (auto simp: sample_shop4_def intro: r_into_rtranclp shop_step.fulfilled split: sum.split)
  show "shop_step\<^sup>*\<^sup>* sample_shop1 sample_shop4" using 2 3 4 by (meson converse_rtranclp_into_rtranclp rtranclp_trans)
  then show "shop_step\<^sup>*\<^sup>* cart_sample_shop sample_shop4" using 1 by (rule converse_rtranclp_into_rtranclp [rotated])
  show "shop_step\<^sup>*\<^sup>* cart_sample_shop sample_shop1" using 1 by blast
qed

lemma sample_order_paid:
  obtains r where "r \<in> set (sh_orders sample_shop4)" "or_status r = Order_paid" "or_totalMinor r = Some 1420"
  using sample_orders4 by (cases "sh_orders sample_shop4") auto

section \<open>Orders only move forward\<close>

text \<open>
  C3. An order never disappears and never changes who placed it, its price, currency or attempt. Once a
  session is attached it stays that session with that expiry. A paid or expired order never changes
  again, an order parked as an exception stays parked, and no order goes back: it keeps its state or
  comes to a later one of pending, open, payment pending, failed, and the three ends. In particular a
  failed order never waits for its payment again.
\<close>

theorem orders_only_move_forward:
  assumes "shop_step\<^sup>*\<^sup>* db db'" and "shop_ok db" and "r \<in> set (sh_orders db)"
  shows "\<exists>r' \<in> set (sh_orders db'). order_terms r' = order_terms r \<and>
    (or_stripeCheckoutSessionId r \<noteq> None \<longrightarrow> order_session r' = order_session r) \<and>
    (or_status r \<in> {Order_paid, Order_expired} \<longrightarrow> r' = r) \<and>
    (or_status r = Order_exception \<longrightarrow> or_status r' = Order_exception) \<and>
    (or_status r' = Checkout_pending \<longrightarrow> or_status r = Checkout_pending) \<and>
    (or_status r' = Checkout_open \<longrightarrow> or_status r \<in> {Checkout_pending, Checkout_open}) \<and>
    (or_status r' = or_status r \<or> order_stage (or_status r) < order_stage (or_status r'))"
proof -
  have "orders_moved (sh_orders db) (sh_orders db')" using shop_run_ok [OF assms(1,2)] by blast
  then obtain r' where r': "r' \<in> set (sh_orders db')" "order_kept r r'" using orders_moved_member assms(3) by blast
  show ?thesis using r'(2) unfolding order_kept_def by (intro bexI [OF _ r'(1)]) blast
qed

theorem orders_only_move_forward_witness:
  "\<exists>r \<in> set (sh_orders sample_shop1). \<exists>r' \<in> set (sh_orders sample_shop4). order_terms r' = order_terms r \<and>
    or_status r = Checkout_pending"
proof -
  obtain r where r: "r \<in> set (sh_orders sample_shop1)" "or_status r = Checkout_pending"
    using sample_orders1 by (cases "sh_orders sample_shop1") auto
  have "shop_ok sample_shop1" using shop_run_ok [OF sample_steps(3) sample_shop_start] by blast
  from orders_only_move_forward [OF sample_steps(2) this r(1)] r show ?thesis by blast
qed

section \<open>Reservations\<close>

text \<open>
  C2. Whatever a reader's tabs and devices do, no two unsettled orders of the reader hold the same title:
  a title is not sold to a reader who may still pay for it in another checkout.
\<close>

theorem no_double_reservation:
  assumes "shop_step\<^sup>*\<^sup>* db db'" and "shop_ok db"
    and "r \<in> set (sh_orders db')" and "s \<in> set (sh_orders db')"
    and "or_initiatingUserId r = Some u" and "or_initiatingUserId s = Some u"
    and "unsettled (or_status r)" and "unsettled (or_status s)"
    and "i \<in> set (sh_items db')" and "si_orderId i = or_id r" and "j \<in> set (sh_items db')" and "si_orderId j = or_id s"
    and "oi_titleId i = oi_titleId j"
  shows "r = s"
proof -
  have "single_hold db'" using shop_run_ok [OF assms(1,2)] by (simp add: shop_ok_def)
  moreover have "i \<in> set (items_of r db')" "j \<in> set (items_of s db')" using assms by (simp_all add: items_of_def)
  ultimately show ?thesis using assms unfolding single_hold_def by (metis option.distinct(1))
qed

lemma sample_items1:
  "map (\<lambda>i. (oi_titleId i, si_orderId i)) (sh_items sample_shop1) = [(''a'', sample_order_id), (''b'', sample_order_id)] \<and>
   map or_initiatingUserId (sh_orders sample_shop1) = [Some ''u'']"
  by code_simp

theorem no_double_reservation_witness:
  "\<exists>r \<in> set (sh_orders sample_shop1). \<exists>i \<in> set (sh_items sample_shop1). oi_titleId i = ''a'' \<and> si_orderId i = or_id r \<and>
     (\<forall>s \<in> set (sh_orders sample_shop1). \<not> (or_initiatingUserId s = Some ''u'' \<and> unsettled (or_status s) \<and> r \<noteq> s \<and>
        (\<exists>j \<in> set (sh_items sample_shop1). oi_titleId j = ''a'' \<and> si_orderId j = or_id s)))"
proof -
  obtain r where r: "sh_orders sample_shop1 = [r]" "or_id r = sample_order_id" "or_status r = Checkout_pending"
    "or_initiatingUserId r = Some ''u''"
    using sample_orders1 sample_items1 by (cases "sh_orders sample_shop1") auto
  obtain i where i: "i \<in> set (sh_items sample_shop1)" "oi_titleId i = ''a''" "si_orderId i = sample_order_id"
    using sample_items1 by (cases "sh_items sample_shop1") auto
  have "r = s" if "s \<in> set (sh_orders sample_shop1)" "or_initiatingUserId s = Some ''u''" "unsettled (or_status s)"
    "j \<in> set (sh_items sample_shop1)" "oi_titleId j = ''a''" "si_orderId j = or_id s" for s j
    by (rule no_double_reservation [OF sample_steps(3) sample_shop_start _ that(1) r(4) that(2) _ that(3) i(1) _ that(4,6)])
      (use r i that in \<open>simp_all add: unsettled_def\<close>)
  then show ?thesis using r i by (intro bexI [of _ r] bexI [of _ i]) auto
qed

section \<open>Paid exactly once\<close>

text \<open>
  C1. In every history, whatever events arrive and however often, an order is paid exactly when its
  payment succeeded, for the whole total, which is the sum of the totals of its items; then every item
  has exactly one purchase grant, of its title, and the reader was sent exactly one message. As long
  as an order is not paid there is no grant, no succeeded payment and no message. The subtotal of an
  order is always the sum of its items, all in its currency.
\<close>

theorem order_paid_exactly_once:
  assumes "shop_step\<^sup>*\<^sup>* db db'" and "shop_ok db" and "r \<in> set (sh_orders db')"
  shows "order_adds_up db' r \<and>
    (if or_status r = Order_paid
     then (\<exists>p \<in> set (sh_payments db'). py_orderId p = or_id r \<and> py_status p = Payment_succeeded \<and>
         or_totalMinor r = Some (py_amountMinor p) \<and> py_currency p = or_currency r) \<and>
       or_totalMinor r = Some (sum_list (map (\<lambda>i. the (oi_totalMinor i)) (items_of r db'))) \<and>
       (\<forall>i \<in> set (items_of r db'). oi_totalMinor i \<noteq> None \<and>
         (\<exists>k. item_purchases (sh_access db') (oi_id i) = [(k, oi_titleId i, Some (oi_id i))])) \<and>
       length (messages_of r db') = 1
     else (\<forall>p \<in> set (sh_payments db'). py_orderId p = or_id r \<longrightarrow> py_status p \<noteq> Payment_succeeded) \<and>
       (\<forall>i \<in> set (items_of r db'). item_purchases (sh_access db') (oi_id i) = []) \<and> messages_of r db' = [])"
proof -
  have s: "order_adds_up db' r" "if or_status r = Order_paid then paid_in_full db' r else not_paid db' r"
    using shop_run_ok [OF assms(1,2)] assms(3) unfolding shop_ok_def orders_settled_def by blast+
  show ?thesis
  proof (cases "or_status r = Order_paid")
    case True
    then have p: "paid_in_full db' r" using s(2) by simp
    note parts = p [unfolded paid_in_full_def, THEN conjunct1] p [unfolded paid_in_full_def, THEN conjunct2]
    show ?thesis
      unfolding if_P [OF True] using s(1) parts by (elim conjE) (intro conjI ballI; (assumption | blast))
  next
    case False
    then have "not_paid db' r" using s(2) by simp
    then show ?thesis using s(1) unfolding not_paid_def if_not_P [OF False] by blast
  qed
qed

theorem order_paid_exactly_once_witness:
  "\<exists>r \<in> set (sh_orders sample_shop4). or_status r = Order_paid \<and> length (messages_of r sample_shop4) = 1 \<and>
    (\<exists>p \<in> set (sh_payments sample_shop4). py_amountMinor p = 1420)"
proof -
  obtain r where r: "r \<in> set (sh_orders sample_shop4)" "or_status r = Order_paid" "or_totalMinor r = Some 1420"
    by (rule sample_order_paid)
  show ?thesis using order_paid_exactly_once [OF sample_steps(1) sample_shop_start r(1)] r by (intro bexI [OF _ r(1)]) auto
qed

section \<open>An event acts once\<close>

lemma settled_event:
  assumes "settle_event st k now db = Inr db'" and "st \<noteq> Event_pending"
  shows "\<exists>e. find_event k db' = Some e \<and> ev_status e \<noteq> Event_pending"
proof -
  define f :: "stripe_event_row \<Rightarrow> stripe_event_row" where "f = (\<lambda>e. if ev_id e = k \<and> ev_status e = Event_pending
    then e\<lparr>ev_status := st, ev_processedAt := Some now\<rparr> else e)"
  have f: "ev_id (f e) = ev_id e" "ev_id e = k \<Longrightarrow> ev_status (f e) \<noteq> Event_pending" for e
    using assms(2) by (simp_all add: f_def)
  have ex: "\<exists>e \<in> set (sh_events db). ev_id e = k" and db': "sh_events db' = map f (sh_events db)"
    using assms(1) by (auto simp: settle_event_def list_ex_iff f_def split: if_splits)
  from ex obtain e0 where "e0 \<in> set (sh_events db)" "ev_id (f e0) = k" by (auto simp: f(1))
  then have "find_event k db' \<noteq> None" unfolding find_event_def find_None_iff db' by auto
  then obtain e where e: "find_event k db' = Some e" by blast
  then have "e \<in> set (sh_events db')" "ev_id e = k" using find_event_Some by blast+
  then have "ev_status e \<noteq> Event_pending" using f by (auto simp: db')
  then show ?thesis using e by blast
qed

lemma fulfill_settles:
  assumes "fulfillOrder lib ids event raw payment now guest order db = Inr db'"
  shows "\<exists>d. settle_event Event_processed (ev_id event) now d = Inr db'"
  using assms
  by (auto simp: fulfillOrder_def rbind_eq_Inr Let_def completeStripeEvent_def split: if_splits fulfillment_command.splits)

lemma fulfill_event_settles:
  assumes "fulfillCheckoutEvent lib ids k raw payment now db = Inr db'"
  shows "\<exists>e. find_event k db' = Some e \<and> ev_status e \<noteq> Event_pending"
proof -
  from assms obtain session where s: "parseCheckoutSnapshot lib raw = Inr session"
    by (auto simp: fulfillCheckoutEvent_def rbind_eq_Inr)
  from assms s obtain event where event: "find_event k db = Some event"
    by (auto simp: fulfillCheckoutEvent_def to_shop_def split: option.splits)
  then have id: "ev_id event = k" using find_event_Some by blast
  show ?thesis
  proof (cases "ev_status event = Event_pending")
    case False
    then show ?thesis using assms s event by (simp add: fulfillCheckoutEvent_def to_shop_def)
  next
    case True
    with assms s event obtain guest order d where "fulfillOrder lib ids event session payment now guest order d = Inr db'"
      by (auto simp: fulfillCheckoutEvent_def rbind_eq_Inr to_shop_def split: option.splits)
    then show ?thesis using fulfill_settles settled_event id by blast
  qed
qed

lemma exception_settles:
  assumes "recordFulfillmentException k orderId now db = Inr db'" and "find_event k db \<noteq> None"
  shows "\<exists>e. find_event k db' = Some e \<and> ev_status e \<noteq> Event_pending"
proof -
  obtain event where event: "find_event k db = Some event" using assms(2) by blast
  then have id: "ev_id event = k" using find_event_Some by blast
  show ?thesis
  proof (cases "ev_status event = Event_pending")
    case False
    then show ?thesis using assms event by (simp add: recordFulfillmentException_def)
  next
    case True
    then obtain d where "settle_event Event_exception k now d = Inr db'"
      using assms event id by (auto simp: recordFulfillmentException_def Let_def rbind_eq_Inr)
    then show ?thesis using settled_event by blast
  qed
qed

text \<open>
  C4. Handling an event of a checkout session again changes nothing, whatever the provider answers then:
  once the handler returned, fulfilled or parked, every later delivery of the event leaves the shop
  as it is, whatever checkouts, other events, refunds and changes happened to the shop in between.
\<close>

theorem redelivered_event_changes_nothing:
  assumes "handleStripeEvent lib ids k session pay other now db = Inr db'"
    and "find_event k db = Some row" and "describeSupportedStripeEvent row = Inr (Some Checkout_session_family)"
    and history: "shop_step\<^sup>*\<^sup>* db' db''"
  shows "handleStripeEvent lib ids' k session' pay' other' later db'' = Inr db''"
proof -
  have "\<exists>e. find_event k db' = Some e \<and> ev_status e \<noteq> Event_pending"
  proof (cases "ev_status row = Event_pending")
    case False
    then show ?thesis using assms by (simp add: handleStripeEvent_def)
  next
    case True
    obtain orderId outcome where h: "handle_checkout lib ids k session pay now db = (orderId, outcome)" by fastforce
    then have "(if outcome = Inl Shop_permanent then recordFulfillmentException k orderId now db else outcome) = Inr db'"
      using assms True by (simp add: handleStripeEvent_def)
    moreover have ?thesis if done_now: "outcome = Inr db'"
    proof -
      obtain s payment where "fulfillCheckoutEvent lib ids k s payment now db = Inr db'"
        using h done_now by (auto simp: handle_checkout_def rbind_eq_Inr split: sum.splits if_splits option.splits)
      then show ?thesis by (rule fulfill_event_settles)
    qed
    ultimately show ?thesis using exception_settles assms(2) by (auto split: if_splits)
  qed
  then obtain e where e: "find_event k db' = Some e" "ev_status e \<noteq> Event_pending" by blast
  have "events_settled (sh_events db') (sh_events db'')"
    using shop_run_ledger [OF history] unfolding ledger_kept_def by blast
  then have "find_event k db'' = Some e" using e by (rule settled_event_stays)
  then show ?thesis using e(2) by (simp add: handleStripeEvent_def)
qed

lemma sample_event_described:
  "find_event ''e'' sample_shop3 = Some (sample_event\<lparr>ev_id := ''e''\<rparr>) \<and>
   describeSupportedStripeEvent (sample_event\<lparr>ev_id := ''e''\<rparr>) = Inr (Some Checkout_session_family)"
  by code_simp

lemma sample_handled:
  "map_sum id (\<lambda>d. map or_status (sh_orders d)) (handleStripeEvent sample_checks sample_fulfillment_ids ''e'' (Inr sample_session)
     (\<lambda>_. Inr sample_payment) (\<lambda>_ _. Inl Unexpected_error) 6000 sample_shop3) = Inr [Order_paid]"
  by code_simp

theorem redelivered_event_changes_nothing_witness:
  "\<exists>d. handleStripeEvent sample_checks sample_fulfillment_ids ''e'' (Inr sample_session) (\<lambda>_. Inr sample_payment)
      (\<lambda>_ _. Inl Unexpected_error) 6000 sample_shop3 = Inr d \<and> map or_status (sh_orders d) = [Order_paid] \<and>
    handleStripeEvent sample_checks sample_fulfillment_ids ''e'' (Inl Provider_retryable) (\<lambda>_. Inl Provider_retryable)
      (\<lambda>_ _. Inl Unexpected_error) 9000 (snd (attachCheckoutSession sample_attach 8000 d)) =
      Inr (snd (attachCheckoutSession sample_attach 8000 d))"
proof -
  obtain d where d: "handleStripeEvent sample_checks sample_fulfillment_ids ''e'' (Inr sample_session) (\<lambda>_. Inr sample_payment)
      (\<lambda>_ _. Inl Unexpected_error) 6000 sample_shop3 = Inr d" "map or_status (sh_orders d) = [Order_paid]"
    using sample_handled by (cases "handleStripeEvent sample_checks sample_fulfillment_ids ''e'' (Inr sample_session)
      (\<lambda>_. Inr sample_payment) (\<lambda>_ _. Inl Unexpected_error) 6000 sample_shop3") simp_all
  have "shop_step d (snd (attachCheckoutSession sample_attach 8000 d))"
    by (rule shop_step.attached [of sample_attach 8000 _ "fst (attachCheckoutSession sample_attach 8000 d)"]) simp
  then have later: "shop_step\<^sup>*\<^sup>* d (snd (attachCheckoutSession sample_attach 8000 d))" by (rule r_into_rtranclp)
  show ?thesis
    by (intro exI [of _ d] conjI, rule d(1), rule d(2), rule redelivered_event_changes_nothing [OF d(1) _ _ later])
      (rule conjunct1 [OF sample_event_described], rule conjunct2 [OF sample_event_described])
qed

end
