(* ===== verification/OrderTracking.thy ===== *)
theory OrderTracking
  imports OrderStatus CheckoutSafety
begin

text \<open>
  Following an order without an account: the token a guest was given opens exactly that order for
  as long as its cookie lives, and what the status says is true and stays true.
\<close>

section \<open>Looking up\<close>

lemma order_id_text: "order_id_pattern k \<Longrightarrow> length k = 36"
  by (simp add: order_id_pattern_def uuid_text_def js_lower_def)

lemma find_order_unique: "orders_ok (sh_orders db) \<Longrightarrow> r \<in> set (sh_orders db) \<Longrightarrow> find_order (or_id r) db = Some r"
  unfolding find_order_def orders_ok_def by (auto intro: find_row_key)

lemma status_cases:
  "getAuthorizedOrderStatus digest db orderId actor token now = Inr dto \<longleftrightarrow>
    order_id_pattern orderId \<and> (\<exists>r. find_order (js_lower orderId) db = Some r \<and>
      isAuthorized digest r actor token now \<and> dto = statusDto r)"
  by (auto simp: getAuthorizedOrderStatus_def authorizeOrderStatus_def split: option.splits)

lemma status_error_cases: "e = Order_not_found"
  by (cases e) simp

section \<open>The token of a guest\<close>

text \<open>What the code relies on of Node's \<^verbatim>\<open>crypto\<close>: the credential is made of the 32 bytes of an HMAC.\<close>

definition credential_of :: "(nat list \<Rightarrow> string) \<Rightarrow> (string \<Rightarrow> string \<Rightarrow> nat list) \<Rightarrow> crypto \<Rightarrow> bool" where
  "credential_of digest hmac cy \<longleftrightarrow> (\<forall>secret message. byte_list (hmac secret message) \<and>
     cy_credential cy secret message = (base64url (hmac secret message), digest (hmac secret message)))"

definition order_status_message :: "order_row \<Rightarrow> string" where
  "order_status_message r = ''pale-orbit:commerce:order-status:v1:'' @ or_clientCheckoutAttemptId r"

lemma created_credential:
  assumes "createOrderFromQuote lib cy newId newItemId clock input validated now db = Inr (accepted, db1)"
  shows "\<exists>token. cy_credential cy (ai_applicationSecret input) (order_status_message (ao_order accepted)) =
      (token, or_statusTokenSha256 (ao_order accepted)) \<and>
    (ao_statusToken accepted \<noteq> None \<longrightarrow> ao_statusToken accepted = Some token \<and> or_initiatingUserId (ao_order accepted) = None)"
  using assms
  by (auto simp: createOrderFromQuote_def rbind_eq_Inr Let_def deriveOrderStatusCredential_def accepted_order_row_def
      actorUserId_def order_status_message_def split: if_splits)

lemma reused_credential:
  assumes "reuseAcceptedOrder lib cy db existing input validated now = Inr accepted"
    and "or_clientCheckoutAttemptId existing = vi_checkoutAttemptId validated"
  shows "ao_reused accepted \<and> (\<forall>token. ao_statusToken accepted = Some token \<longrightarrow>
    cy_credential cy (ai_applicationSecret input) (order_status_message (ao_order accepted)) =
      (token, or_statusTokenSha256 (ao_order accepted)) \<and> or_initiatingUserId (ao_order accepted) = None)"
  using assms
  by (auto simp: reuseAcceptedOrder_def rbind_eq_Inr Let_def deriveOrderStatusCredential_def equalSha256_def
      exactActor_def order_status_message_def split: if_splits)

lemma accepted_credential:
  assumes run: "createAcceptedOrder lib cy newId newItemId clock input now reuseNow db = (Inr accepted, db1)"
    and some: "ao_statusToken accepted \<noteq> None \<or> \<not> ao_reused accepted"
  shows "\<exists>token. cy_credential cy (ai_applicationSecret input) (order_status_message (ao_order accepted)) =
      (token, or_statusTokenSha256 (ao_order accepted)) \<and>
    (ao_statusToken accepted \<noteq> None \<longrightarrow> ao_statusToken accepted = Some token \<and> or_initiatingUserId (ao_order accepted) = None)"
proof -
  from run obtain validated counted where "validateInput lib input = Inr validated" and
    two: "(\<exists>existing. find (\<lambda>r. or_clientCheckoutAttemptId r = vi_checkoutAttemptId validated) (sh_orders counted) = Some existing \<and>
        reuseAcceptedOrder lib cy counted existing input validated reuseNow = Inr accepted) \<or>
      (\<exists>d. createOrderFromQuote lib cy newId newItemId clock input validated now counted = Inr (accepted, d))"
    by (auto simp: createAcceptedOrder_def rbind_eq_Inr split: sum.splits if_splits option.splits) blast+
  from two show ?thesis
  proof (elim disjE exE conjE)
    fix existing
    assume f: "find (\<lambda>r. or_clientCheckoutAttemptId r = vi_checkoutAttemptId validated) (sh_orders counted) = Some existing"
      and reuse: "reuseAcceptedOrder lib cy counted existing input validated reuseNow = Inr accepted"
    have "or_clientCheckoutAttemptId existing = vi_checkoutAttemptId validated" using find_row_member [OF f] by simp
    then show ?thesis using reused_credential [OF reuse] some by blast
  qed (rule created_credential)
qed

lemma accepted_member:
  assumes "createAcceptedOrder lib cy newId newItemId clock input now reuseNow db = (Inr accepted, db1)"
  shows "ao_order accepted \<in> set (sh_orders db1)"
  using assms by (rule createAcceptedOrder_cases) auto

text \<open>
  C6. The token handed to a guest with an accepted order opens that order in every later history, at any
  time until a quarter of an hour after its checkout expires, for whoever presents it; after that
  it opens nothing. Nobody is told anything about the order without a token, and another token
  opens it only if the bytes of the two tokens collide under the digest. Somebody else's order,
  whenever it was accepted, is opened by the token only if the credentials of the two orders
  collide, under the digest or under the HMAC of their different messages.
\<close>

theorem guest_token_opens_order:
  assumes run: "createAcceptedOrder lib cy newId newItemId clock input now reuseNow db0 = (Inr accepted, db1)"
    and token: "ao_statusToken accepted = Some token" and crypto: "credential_of digest hmac cy"
    and ids: "order_id_pattern (or_id (ao_order accepted))" "js_lower (or_id (ao_order accepted)) = or_id (ao_order accepted)"
    and history: "shop_step\<^sup>*\<^sup>* db1 db" and ok: "shop_ok db1"
  shows "\<exists>r \<in> set (sh_orders db). order_terms r = order_terms (ao_order accepted) \<and>
    (\<forall>actor t. getAuthorizedOrderStatus digest db (or_id r) actor None t = Inl Order_not_found) \<and>
    (\<forall>actor t. getAuthorizedOrderStatus digest db (or_id r) actor (Some token) t =
      (if isOrderStatusCredentialExpired (or_checkoutExpiresAt r) t then Inl Order_not_found else Inr (statusDto r))) \<and>
    (\<forall>actor token' t dto. getAuthorizedOrderStatus digest db (or_id r) actor (Some token') t = Inr dto \<longrightarrow>
      token' = token \<or> (\<exists>b b'. tokenBytes token = Some b \<and> tokenBytes token' = Some b' \<and> b \<noteq> b' \<and> digest b = digest b')) \<and>
    (\<forall>s \<in> set (sh_orders db). \<forall>orderId actor t dto lib' newId' newItemId' clock' input' now' reuseNow' db2 accepted' db3.
      s \<noteq> r \<and> (\<forall>u roles. actor = User u roles \<longrightarrow> or_initiatingUserId s \<noteq> Some u) \<and>
      createAcceptedOrder lib' cy newId' newItemId' clock' input' now' reuseNow' db2 = (Inr accepted', db3) \<and>
      \<not> ao_reused accepted' \<and> order_terms (ao_order accepted') = order_terms s \<and>
      js_lower orderId = or_id s \<and> getAuthorizedOrderStatus digest db orderId actor (Some token) t = Inr dto \<longrightarrow>
      order_status_message s \<noteq> order_status_message r \<and>
      (let b = hmac (ai_applicationSecret input) (order_status_message r);
           b' = hmac (ai_applicationSecret input') (order_status_message s)
       in tokenBytes token = Some b \<and> (b = b' \<or> (b \<noteq> b' \<and> digest b = digest b'))))"
proof -
  let ?o = "ao_order accepted"
  define bytes where "bytes = hmac (ai_applicationSecret input) (order_status_message ?o)"
  have derived: "byte_list (hmac secret message)"
    "cy_credential cy secret message = (base64url (hmac secret message), digest (hmac secret message))" for secret message
    using crypto unfolding credential_of_def by blast+
  have cred: "cy_credential cy (ai_applicationSecret input) (order_status_message ?o) = (token, or_statusTokenSha256 ?o)"
    and nobody: "or_initiatingUserId ?o = None"
    using accepted_credential [OF run] token by auto
  have b: "byte_list bytes" "token = base64url bytes" "or_statusTokenSha256 ?o = digest bytes"
    using derived [of "ai_applicationSecret input" "order_status_message ?o"] cred by (simp_all add: bytes_def)
  have tb: "tokenBytes token = Some bytes" using tokenBytes_base64url [OF b(1)] b(2) by simp
  have moved: "orders_moved (sh_orders db1) (sh_orders db)" and ok': "shop_ok db"
    using shop_run_ok [OF history ok] by blast+
  obtain r where r: "r \<in> set (sh_orders db)" "order_kept ?o r"
    using orders_moved_member [OF moved accepted_member [OF run]] by blast
  have terms: "order_terms r = order_terms ?o" using r(2) unfolding order_kept_def by blast
  have orders: "orders_ok (sh_orders db)" using ok' by (simp add: shop_ok_def shop_tables_ok_def)
  have find: "find_order (js_lower (or_id r)) db = Some r" and pat: "order_id_pattern (or_id r)"
    using find_order_unique [OF orders r(1)] terms ids by (simp_all add: order_terms_def)
  have digest: "or_statusTokenSha256 r = digest bytes" and none: "or_initiatingUserId r = None"
    and message: "order_status_message r = order_status_message ?o"
    using terms b(3) nobody by (simp_all add: order_terms_def order_status_message_def)
  have "order_check r" using orders r(1) by (simp add: orders_ok_def list_all_iff)
  then have hex: "sha256_hex (digest bytes)" using digest by (simp add: order_check_def)
  have opened: "isAuthorized digest r actor (Some token) t \<longleftrightarrow>
      \<not> isOrderStatusCredentialExpired (or_checkoutExpiresAt r) t" for actor t
    using none digest hex tb
    by (simp add: isAuthorized_def matchesOrderStatusToken_def split: actor.splits)
  have closed: "\<not> isAuthorized digest r actor None t" for actor t
    using none by (simp add: isAuthorized_def split: actor.splits)
  have matching: "\<exists>b'. tokenBytes token' = Some b' \<and> digest b' = or_statusTokenSha256 s"
    if "isAuthorized digest s actor (Some token') t" "\<forall>u roles. actor = User u roles \<longrightarrow> or_initiatingUserId s \<noteq> Some u"
    for s actor token' t
    using that by (auto simp: isAuthorized_def matchesOrderStatusToken_def split: actor.splits option.splits)
  have other_order: "order_status_message s \<noteq> order_status_message r \<and>
      (let b = hmac (ai_applicationSecret input) (order_status_message r);
           b' = hmac (ai_applicationSecret input') (order_status_message s)
       in tokenBytes token = Some b \<and> (b = b' \<or> (b \<noteq> b' \<and> digest b = digest b')))"
    if s: "s \<in> set (sh_orders db)" "s \<noteq> r" "\<forall>u roles. actor = User u roles \<longrightarrow> or_initiatingUserId s \<noteq> Some u"
      and run': "createAcceptedOrder lib' cy newId' newItemId' clock' input' now' reuseNow' db2 = (Inr accepted', db3)"
      and new: "\<not> ao_reused accepted'" "order_terms (ao_order accepted') = order_terms s"
      and auth: "js_lower orderId = or_id s" "getAuthorizedOrderStatus digest db orderId actor (Some token) t = Inr dto"
    for s orderId actor t dto lib' newId' newItemId' clock' input' now' reuseNow' db2 accepted' db3
  proof -
    have same: "or_statusTokenSha256 s = or_statusTokenSha256 (ao_order accepted')"
      "order_status_message s = order_status_message (ao_order accepted')"
      using new(2) by (simp_all add: order_terms_def order_status_message_def)
    have stored: "or_statusTokenSha256 s = digest (hmac (ai_applicationSecret input') (order_status_message s))"
      using accepted_credential [OF run'] new(1) derived(2) same by auto
    have "isAuthorized digest s actor (Some token) t"
      using auth find_order_unique [OF orders s(1)] unfolding status_cases by auto
    then have "digest bytes = or_statusTokenSha256 s" using matching s(3) tb by fastforce
    moreover have "or_clientCheckoutAttemptId s \<noteq> or_clientCheckoutAttemptId r"
      using orders s(1,2) r(1) unfolding orders_ok_def distinct_map inj_on_def by blast
    ultimately show ?thesis
      using tb stored message by (auto simp: Let_def bytes_def order_status_message_def)
  qed
  show ?thesis
  proof (intro bexI [OF _ r(1)] conjI)
    show "order_terms r = order_terms ?o" by (rule terms)
    show "\<forall>actor t. getAuthorizedOrderStatus digest db (or_id r) actor None t = Inl Order_not_found"
      using find pat closed by (simp add: getAuthorizedOrderStatus_def authorizeOrderStatus_def)
    show "\<forall>actor t. getAuthorizedOrderStatus digest db (or_id r) actor (Some token) t =
      (if isOrderStatusCredentialExpired (or_checkoutExpiresAt r) t then Inl Order_not_found else Inr (statusDto r))"
      using find pat opened by (simp add: getAuthorizedOrderStatus_def authorizeOrderStatus_def)
    show "\<forall>actor token' t dto. getAuthorizedOrderStatus digest db (or_id r) actor (Some token') t = Inr dto \<longrightarrow>
      token' = token \<or> (\<exists>b b'. tokenBytes token = Some b \<and> tokenBytes token' = Some b' \<and> b \<noteq> b' \<and> digest b = digest b')"
    proof (intro allI impI)
      fix actor token' t dto
      assume "getAuthorizedOrderStatus digest db (or_id r) actor (Some token') t = Inr dto"
      then have "isAuthorized digest r actor (Some token') t" using find unfolding status_cases by auto
      then obtain b' where b': "tokenBytes token' = Some b'" "digest b' = digest bytes"
        using matching none digest by fastforce
      show "token' = token \<or> (\<exists>b b'. tokenBytes token = Some b \<and> tokenBytes token' = Some b' \<and> b \<noteq> b' \<and> digest b = digest b')"
        using b' tb tokenBytes_Some [OF b'(1)] b(2) by metis
    qed
  qed (use other_order in blast)
qed

definition sample_guest_digest :: "nat list \<Rightarrow> string" where
  "sample_guest_digest bytes = replicate 64 (hex_char (length bytes mod 16))"

definition sample_guest_hmac :: "string \<Rightarrow> string \<Rightarrow> nat list" where
  "sample_guest_hmac secret message = replicate 32 7"

definition sample_guest_crypto :: crypto where
  "sample_guest_crypto = sample_crypto\<lparr>cy_credential := (\<lambda>secret message.
     (base64url (sample_guest_hmac secret message), sample_guest_digest (sample_guest_hmac secret message)))\<rparr>"

definition sample_guest_input :: accepted_order_input where
  "sample_guest_input = sample_input\<lparr>ai_actor := Anonymous,
     ai_quoteFingerprint := replicate 63 (CHR ''0'') @ [CHR ''8'']\<rparr>"

definition sample_guest_accept :: "accepted_order shop_result \<times> shop_db" where
  "sample_guest_accept = createAcceptedOrder sample_checks sample_guest_crypto sample_order_id (\<lambda>t. CHR ''i'' # t) 1000
     sample_guest_input 1000 1000 cart_sample_shop"

definition sample_guest_shop :: shop_db where
  "sample_guest_shop = snd (attachCheckoutSession sample_attach 2000 (snd sample_guest_accept))"

definition sample_token :: string where
  "sample_token = base64url (replicate 32 7)"

lemma sample_guest_accepted:
  "map_sum id (\<lambda>a. (ao_statusToken a, or_id (ao_order a))) (fst sample_guest_accept) = Inr (Some sample_token, sample_order_id)"
  by code_simp

lemma sample_guest_status:
  "getAuthorizedOrderStatus sample_guest_digest sample_guest_shop sample_order_id Anonymous (Some sample_token) 2000000 =
     Inr Dto_pending \<and>
   map (\<lambda>r. or_checkoutExpiresAt r) (sh_orders sample_guest_shop) = [Some 1861000]"
  by code_simp

theorem guest_token_opens_order_witness:
  "\<exists>r \<in> set (sh_orders sample_guest_shop). or_id r = sample_order_id \<and>
    getAuthorizedOrderStatus sample_guest_digest sample_guest_shop sample_order_id Anonymous (Some sample_token) 2000000 =
      Inr (statusDto r) \<and>
    getAuthorizedOrderStatus sample_guest_digest sample_guest_shop sample_order_id Anonymous (Some sample_token) 3000000 =
      Inl Order_not_found"
proof -
  obtain accepted where acc: "fst sample_guest_accept = Inr accepted" "ao_statusToken accepted = Some sample_token"
    "or_id (ao_order accepted) = sample_order_id"
    using sample_guest_accepted by (cases "fst sample_guest_accept") auto
  have run: "createAcceptedOrder sample_checks sample_guest_crypto sample_order_id (\<lambda>t. CHR ''i'' # t) 1000
      sample_guest_input 1000 1000 cart_sample_shop = (Inr accepted, snd sample_guest_accept)"
    using acc(1) unfolding sample_guest_accept_def by (metis prod.collapse)
  have crypto: "credential_of sample_guest_digest sample_guest_hmac sample_guest_crypto"
    by (simp add: credential_of_def sample_guest_crypto_def byte_list_def sample_guest_hmac_def list_all_iff)
  have ids: "order_id_pattern sample_order_id" "js_lower sample_order_id = sample_order_id" by code_simp+
  have one: "shop_step cart_sample_shop (snd sample_guest_accept)"
    using run by (rule shop_step.accepted) (simp add: sample_guest_input_def actorUserId_def)
  have two: "shop_step (snd sample_guest_accept) sample_guest_shop"
    unfolding sample_guest_shop_def
    by (rule shop_step.attached [of sample_attach 2000 _ "fst (attachCheckoutSession sample_attach 2000 (snd sample_guest_accept))"]) simp
  have ok: "shop_ok (snd sample_guest_accept)"
    using shop_run_ok [OF r_into_rtranclp [of shop_step, OF one] sample_shop_start] by blast
  obtain r where r: "r \<in> set (sh_orders sample_guest_shop)" "order_terms r = order_terms (ao_order accepted)"
    and all_open: "\<forall>actor t. getAuthorizedOrderStatus sample_guest_digest sample_guest_shop (or_id r) actor (Some sample_token) t =
      (if isOrderStatusCredentialExpired (or_checkoutExpiresAt r) t then Inl Order_not_found else Inr (statusDto r))"
    using guest_token_opens_order [OF run acc(2) crypto, unfolded acc(3), OF ids r_into_rtranclp [of shop_step, OF two] ok]
    by (elim bexE conjE) (rule that)
  note open_until = all_open [rule_format]
  have id: "or_id r = sample_order_id" using r(2) acc(3) by (simp add: order_terms_def)
  have "or_checkoutExpiresAt r = Some 1861000"
    using sample_guest_status r(1) by (cases "sh_orders sample_guest_shop") auto
  then show ?thesis
    using r(1) id open_until [of Anonymous 2000000] open_until [of Anonymous 3000000]
    by (intro bexI [of _ r]) (simp_all add: isOrderStatusCredentialExpired_def ORDER_STATUS_PROCESSING_GRACE_SECONDS_def)
qed

section \<open>The answer is true\<close>

definition dto_paid :: "order_status_dto \<Rightarrow> bool" where
  "dto_paid dto \<longleftrightarrow> (case dto of Dto_paid _ \<Rightarrow> True | Dto_paid_guest _ \<Rightarrow> True | _ \<Rightarrow> False)"

definition dto_expired :: "order_status_dto \<Rightarrow> bool" where
  "dto_expired dto \<longleftrightarrow> (case dto of Dto_expired _ \<Rightarrow> True | _ \<Rightarrow> False)"

lemma dto_status:
  "dto_paid (statusDto r) \<longleftrightarrow> or_status r = Order_paid" "dto_expired (statusDto r) \<longleftrightarrow> or_status r = Order_expired"
  by (auto simp: dto_paid_def dto_expired_def statusDto_def split: order_status.splits)

text \<open>
  C7. What the status of an order says is true in every history: it says paid exactly when the payment
  of the whole total succeeded, and then every item is granted to the buyer. Once it says paid or
  expired every later answer to anyone is the same or a refusal.
\<close>

theorem order_status_truthful:
  assumes history: "shop_step\<^sup>*\<^sup>* db0 db" and ok: "shop_ok db0"
    and answer: "getAuthorizedOrderStatus digest db orderId actor token now = Inr dto"
  shows "(dto_paid dto \<longleftrightarrow> (\<exists>r \<in> set (sh_orders db). \<exists>p \<in> set (sh_payments db). or_id r = js_lower orderId \<and>
      py_orderId p = or_id r \<and> py_status p = Payment_succeeded \<and> or_totalMinor r = Some (py_amountMinor p))) \<and>
    (dto_paid dto \<longrightarrow> (\<forall>i \<in> set (sh_items db). si_orderId i = js_lower orderId \<longrightarrow>
      (\<exists>k. item_purchases (sh_access db) (oi_id i) = [(k, oi_titleId i, Some (oi_id i))]))) \<and>
    (dto_paid dto \<or> dto_expired dto \<longrightarrow> (\<forall>db' digest' actor' token' later. shop_step\<^sup>*\<^sup>* db db' \<longrightarrow>
      getAuthorizedOrderStatus digest' db' orderId actor' token' later \<in> {Inr dto, Inl Order_not_found}))"
proof -
  have ok': "shop_ok db" using shop_run_ok [OF history ok] by blast
  then have orders: "orders_ok (sh_orders db)" by (simp add: shop_ok_def shop_tables_ok_def)
  obtain r where f: "find_order (js_lower orderId) db = Some r" and d: "dto = statusDto r"
    using answer unfolding status_cases by blast
  have r: "r \<in> set (sh_orders db)" "or_id r = js_lower orderId" using find_order_Some [OF f] by blast+
  have same: "r' = r" if "r' \<in> set (sh_orders db)" "or_id r' = js_lower orderId" for r'
    using same_order [OF orders that(1) r(1)] that(2) r(2) by simp
  have settled: "if or_status r = Order_paid then paid_in_full db r else not_paid db r"
    using ok' r(1) unfolding shop_ok_def orders_settled_def by blast
  have later: "getAuthorizedOrderStatus digest' db' orderId actor' token' t \<in> {Inr dto, Inl Order_not_found}"
    if step: "shop_step\<^sup>*\<^sup>* db db'" and fin: "or_status r \<in> {Order_paid, Order_expired}" for db' digest' actor' token' t
  proof -
    have m: "orders_moved (sh_orders db) (sh_orders db')" and ok2: "shop_ok db'"
      using shop_run_ok [OF step ok'] by blast+
    obtain r' where r': "r' \<in> set (sh_orders db')" "order_kept r r'" using orders_moved_member [OF m r(1)] by blast
    have "r' = r" using r'(2) fin unfolding order_kept_def by blast
    moreover have "orders_ok (sh_orders db')" using ok2 by (simp add: shop_ok_def shop_tables_ok_def)
    ultimately have "find_order (js_lower orderId) db' = Some r"
      using find_order_unique [of db' r] r'(1) r(2) by simp
    then have "getAuthorizedOrderStatus digest' db' orderId actor' token' t = Inr x \<Longrightarrow> x = dto" for x
      using d by (auto simp: status_cases)
    moreover have "getAuthorizedOrderStatus digest' db' orderId actor' token' t = Inl e \<Longrightarrow> e = Order_not_found" for e
      by (rule status_error_cases)
    ultimately show ?thesis by (cases "getAuthorizedOrderStatus digest' db' orderId actor' token' t") blast+
  qed
  have stays: "dto_paid dto \<or> dto_expired dto \<longrightarrow> (\<forall>db' digest' actor' token' later. shop_step\<^sup>*\<^sup>* db db' \<longrightarrow>
      getAuthorizedOrderStatus digest' db' orderId actor' token' later \<in> {Inr dto, Inl Order_not_found})"
  proof (intro impI allI)
    fix db' digest' actor' token' t
    assume "dto_paid dto \<or> dto_expired dto" and step: "shop_step\<^sup>*\<^sup>* db db'"
    then have "or_status r \<in> {Order_paid, Order_expired}" using d dto_status by auto
    with step show "getAuthorizedOrderStatus digest' db' orderId actor' token' t \<in> {Inr dto, Inl Order_not_found}"
      by (rule later)
  qed
  have paid: "(\<exists>r \<in> set (sh_orders db). \<exists>p \<in> set (sh_payments db). or_id r = js_lower orderId \<and>
      py_orderId p = or_id r \<and> py_status p = Payment_succeeded \<and> or_totalMinor r = Some (py_amountMinor p)) \<longleftrightarrow>
    or_status r = Order_paid"
  proof
    assume "or_status r = Order_paid"
    then have "paid_in_full db r" using settled by simp
    then obtain pay where "pay \<in> set (sh_payments db)" "py_orderId pay = or_id r" "py_status pay = Payment_succeeded"
      "or_totalMinor r = Some (py_amountMinor pay)" unfolding paid_in_full_def by blast
    then show "\<exists>r \<in> set (sh_orders db). \<exists>p \<in> set (sh_payments db). or_id r = js_lower orderId \<and>
      py_orderId p = or_id r \<and> py_status p = Payment_succeeded \<and> or_totalMinor r = Some (py_amountMinor p)"
      using r by (intro bexI [of _ r] bexI [of _ pay]) simp_all
  next
    assume "\<exists>r \<in> set (sh_orders db). \<exists>p \<in> set (sh_payments db). or_id r = js_lower orderId \<and>
      py_orderId p = or_id r \<and> py_status p = Payment_succeeded \<and> or_totalMinor r = Some (py_amountMinor p)"
    then obtain r' p where "r' \<in> set (sh_orders db)" "or_id r' = js_lower orderId" and p: "p \<in> set (sh_payments db)"
      "py_orderId p = or_id r'" "py_status p = Payment_succeeded" by blast
    then have "py_orderId p = or_id r" using same by simp
    then have "\<not> not_paid db r" using p unfolding not_paid_def by blast
    then show "or_status r = Order_paid" using settled by (metis (full_types))
  qed
  have grants: "\<forall>i \<in> set (sh_items db). si_orderId i = js_lower orderId \<longrightarrow>
      (\<exists>k. item_purchases (sh_access db) (oi_id i) = [(k, oi_titleId i, Some (oi_id i))])" if "or_status r = Order_paid"
  proof -
    have "paid_in_full db r" using settled that by simp
    then show ?thesis using r(2) unfolding paid_in_full_def items_of_def by auto
  qed
  show ?thesis
  proof (intro conjI stays)
    show "dto_paid dto \<longleftrightarrow> (\<exists>r \<in> set (sh_orders db). \<exists>p \<in> set (sh_payments db). or_id r = js_lower orderId \<and>
      py_orderId p = or_id r \<and> py_status p = Payment_succeeded \<and> or_totalMinor r = Some (py_amountMinor p))"
      unfolding paid d dto_status(1) ..
    show "dto_paid dto \<longrightarrow> (\<forall>i \<in> set (sh_items db). si_orderId i = js_lower orderId \<longrightarrow>
      (\<exists>k. item_purchases (sh_access db) (oi_id i) = [(k, oi_titleId i, Some (oi_id i))]))"
      using grants unfolding d dto_status(1) by blast
  qed
qed

lemma sample_paid_status:
  "getAuthorizedOrderStatus sample_guest_digest sample_shop4 sample_order_id (User ''u'' [Customer]) None 7000 = Inr (Dto_paid ''/library'')"
  by code_simp

theorem order_status_truthful_witness:
  "\<exists>r \<in> set (sh_orders sample_shop4). \<exists>p \<in> set (sh_payments sample_shop4). py_orderId p = or_id r \<and>
    py_status p = Payment_succeeded \<and> or_totalMinor r = Some (py_amountMinor p)"
  using order_status_truthful [OF sample_steps(1) sample_shop_start sample_paid_status] by (auto simp: dto_paid_def)

section \<open>The cookie\<close>

text \<open>
  The cookie lives as long as the credential in it: set at any time from the creation of the order on,
  the browser keeps it at every moment at which the server still accepts it, and drops it at
  most a second later. It is never kept longer than an hour.
\<close>

theorem cookie_lives_with_credential:
  assumes expiry: "checkoutExpiry order duration = Inr expiresAt" and after: "or_createdAt order \<le> now"
    and set: "setOrderStatusCookie production (or_id order) token expiresAt now = Inr (name, val, options)"
  shows "co_httpOnly options \<and> co_secure options = production \<and> val = token \<and> 1 \<le> co_maxAge options \<and>
    co_maxAge options \<le> ORDER_STATUS_COOKIE_MAX_AGE_SECONDS \<and>
    (\<forall>t. now \<le> t \<and> \<not> isOrderStatusCredentialExpired (Some expiresAt) t \<longrightarrow> t \<le> now + co_maxAge options * 1000) \<and>
    (\<not> isOrderStatusCredentialExpired (Some expiresAt) now \<longrightarrow>
      isOrderStatusCredentialExpired (Some expiresAt) (now + co_maxAge options * 1000 + 1) \<and>
      now + co_maxAge options * 1000 \<le> expiresAt + ORDER_STATUS_PROCESSING_GRACE_SECONDS * 1000 + 1000)"
proof -
  let ?left = "- ((now - expiresAt) div 1000)"
  have opts: "val = token" "options = \<lparr>co_httpOnly = True, co_sameSite = ''lax'', co_secure = production,
      co_path = ''/api/commerce/orders/'' @ or_id order, co_maxAge = max 1 (min 3600 (?left + 900))\<rparr>"
    using set by (auto simp: setOrderStatusCookie_def orderStatusCookieOptions_def rbind_eq_Inr Let_def
        ORDER_STATUS_COOKIE_MAX_AGE_SECONDS_def ORDER_STATUS_PROCESSING_GRACE_SECONDS_def split: if_splits)
  have exp: "expiresAt = (or_createdAt order div 1000 + 1860) * 1000"
    using expiry by (auto simp: checkoutExpiry_def CHECKOUT_PROVIDER_CREATION_ALLOWANCE_SECONDS_def split: if_splits)
  have "or_createdAt order div 1000 * 1000 \<le> or_createdAt order" by simp
  then have soon: "expiresAt \<le> now + 1860000" using exp after by simp
  have left: "expiresAt - now \<le> ?left * 1000" "?left * 1000 < expiresAt - now + 1000" by simp_all
  then have "?left \<le> 1860" using soon by linarith
  then have age: "co_maxAge options = max 1 (?left + 900)" using opts(2) by simp
  then show ?thesis
    using opts left soon
    by (auto simp: isOrderStatusCredentialExpired_def ORDER_STATUS_PROCESSING_GRACE_SECONDS_def
        ORDER_STATUS_COOKIE_MAX_AGE_SECONDS_def max_def)
qed

theorem cookie_lives_with_credential_witness:
  "\<exists>(order :: order_row) name options. or_createdAt order = 1500 \<and>
    setOrderStatusCookie True (or_id order) sample_token 1861000 60000 = Inr (name, sample_token, options) \<and>
    co_maxAge options = 2701 \<and> (\<forall>t. 60000 \<le> t \<and> \<not> isOrderStatusCredentialExpired (Some 1861000) t \<longrightarrow> t \<le> 2761000)"
proof -
  obtain r where r: "r \<in> set (sh_orders sample_shop1)" using sample_orders1 by (cases "sh_orders sample_shop1") auto
  let ?o = "r\<lparr>or_id := sample_order_id, or_createdAt := 1500\<rparr>"
  have e: "checkoutExpiry ?o 1800 = Inr 1861000"
    by (simp add: checkoutExpiry_def CHECKOUT_PROVIDER_CREATION_ALLOWANCE_SECONDS_def)
  have "map_sum id (\<lambda>(n, t, o'). (t, co_maxAge o')) (setOrderStatusCookie True sample_order_id sample_token 1861000 60000) =
      Inr (sample_token, 2701)" by code_simp
  then obtain name options where c: "setOrderStatusCookie True (or_id ?o) sample_token 1861000 60000 = Inr (name, sample_token, options)"
    "co_maxAge options = 2701"
    by (cases "setOrderStatusCookie True sample_order_id sample_token 1861000 60000") auto
  have "or_createdAt ?o \<le> 60000" by simp
  from cookie_lives_with_credential [OF e this c(1)] c show ?thesis
    by (intro exI [of _ ?o] exI [of _ name] exI [of _ options]) auto
qed

end
