(* ===== verification/StorageKeys.thy ===== *)
theory StorageKeys
  imports Prelude
begin

text \<open>
  \<^verbatim>\<open>storage/keys.ts\<close> and the patterns of \<^verbatim>\<open>storage/routed.ts\<close>: the keys under which files are stored,
  how they are built and checked, and the root directory each belongs to. A regular expression whose
  parts are separated by slashes is a test on the segments between the slashes; a key is text of code
  units below 256.
\<close>

named_theorems key_simps \<open>segments and tests of storage keys\<close>

section \<open>Splitting at a separator\<close>

fun split_char :: "'a \<Rightarrow> 'a list \<Rightarrow> 'a list list" where
  "split_char c [] = [[]]"
| "split_char c (x # xs) =
     (if x = c then [] # split_char c xs
      else (case split_char c xs of w # ws \<Rightarrow> (x # w) # ws | [] \<Rightarrow> [[x]]))"

fun join_char :: "'a \<Rightarrow> 'a list list \<Rightarrow> 'a list" where
  "join_char c [] = []"
| "join_char c [w] = w"
| "join_char c (w # v # ws) = w @ c # join_char c (v # ws)"

lemma split_char_not_Nil [simp]: "split_char c s \<noteq> []"
  by (induction s) (auto split: list.splits)

lemma join_char_Cons: "ws \<noteq> [] \<Longrightarrow> join_char c (w # ws) = w @ c # join_char c ws"
  by (cases ws) auto

lemma join_split [simp]: "join_char c (split_char c s) = s"
proof (induction s)
  case (Cons x s)
  obtain w ws where s: "split_char c s = w # ws" by (cases "split_char c s") auto
  then show ?case using Cons by (cases ws) auto
qed simp

lemma split_char_inj: "split_char c s = split_char c t \<longleftrightarrow> s = t"
  by (metis join_split)

lemma split_char_append: "split_char c (x @ c # y) = split_char c x @ split_char c y"
  by (induction x) (auto split: list.splits)

lemma split_char_word: "c \<notin> set w \<Longrightarrow> split_char c w = [w]"
  by (induction w) auto

lemma split_char_word_append: "c \<notin> set w \<Longrightarrow> split_char c (w @ c # y) = w # split_char c y"
  by (simp add: split_char_append split_char_word)

lemma split_char_no_sep: "w \<in> set (split_char c s) \<Longrightarrow> c \<notin> set w"
proof (induction s arbitrary: w)
  case (Cons x s)
  obtain v vs where "split_char c s = v # vs" by (cases "split_char c s") auto
  then show ?case using Cons by (auto split: if_splits)
qed simp

lemma split_join:
  "ws \<noteq> [] \<Longrightarrow> (\<And>w. w \<in> set ws \<Longrightarrow> c \<notin> set w) \<Longrightarrow> split_char c (join_char c ws) = ws"
  by (induction c ws rule: join_char.induct) (auto simp: split_char_word split_char_word_append)

section \<open>Decoding\<close>

datatype storage_error = Storage_key_error | Storage_limit_error | Storage_integrity_error
  | Storage_range_error | Storage_symlink_error | Storage_routing_error | List_limit_error
  | No_entry | Not_directory | Is_directory | Entry_exists | Not_regular | Body_error
  | Call_failed | Reference_error

type_synonym 'a storage_result = "storage_error + 'a"

definition hex_value :: "char \<Rightarrow> nat option" where
  "hex_value c =
     (if decimal_digit c then Some (of_char c - 48)
      else if CHR ''a'' \<le> c \<and> c \<le> CHR ''f'' then Some (of_char c - 87)
      else if CHR ''A'' \<le> c \<and> c \<le> CHR ''F'' then Some (of_char c - 55)
      else None)"

text \<open>
  \<^verbatim>\<open>decodeURIComponent\<close>: first each \<^verbatim>\<open>%XX\<close> is read as a byte, then the bytes are read as UTF-8; a
  character that is not escaped stands for itself. The result is a list of code points.
\<close>

datatype uri_unit = Plain nat | Octet nat

fun uri_units :: "string \<Rightarrow> uri_unit list option" where
  "uri_units [] = Some []"
| "uri_units (c # s) =
     (if c \<noteq> CHR ''%'' then map_option ((#) (Plain (of_char c))) (uri_units s)
      else (case s of
        a # b # r \<Rightarrow> (case (hex_value a, hex_value b) of
            (Some x, Some y) \<Rightarrow> map_option ((#) (Octet (16 * x + y))) (uri_units r)
          | _ \<Rightarrow> None)
      | _ \<Rightarrow> None))"

definition continuation :: "nat \<Rightarrow> bool" where
  "continuation b \<longleftrightarrow> 128 \<le> b \<and> b < 192"

definition scalar_value :: "nat \<Rightarrow> nat \<Rightarrow> bool" where
  "scalar_value least v \<longleftrightarrow> least \<le> v \<and> v \<le> 1114111 \<and> \<not> (55296 \<le> v \<and> v < 57344)"

fun decode_units :: "uri_unit list \<Rightarrow> nat list option" where
  "decode_units [] = Some []"
| "decode_units (Plain c # us) = map_option ((#) c) (decode_units us)"
| "decode_units (Octet b # us) =
     (if b < 128 then map_option ((#) b) (decode_units us)
      else if 192 \<le> b \<and> b < 224 then
        (case us of
          Octet c # r \<Rightarrow>
            (let v = (b - 192) * 64 + (c - 128)
             in if continuation c \<and> scalar_value 128 v then map_option ((#) v) (decode_units r) else None)
        | _ \<Rightarrow> None)
      else if 224 \<le> b \<and> b < 240 then
        (case us of
          Octet c # Octet d # r \<Rightarrow>
            (let v = ((b - 224) * 64 + (c - 128)) * 64 + (d - 128)
             in if continuation c \<and> continuation d \<and> scalar_value 2048 v
                then map_option ((#) v) (decode_units r) else None)
        | _ \<Rightarrow> None)
      else if 240 \<le> b \<and> b < 248 then
        (case us of
          Octet c # Octet d # Octet e # r \<Rightarrow>
            (let v = (((b - 240) * 64 + (c - 128)) * 64 + (d - 128)) * 64 + (e - 128)
             in if continuation c \<and> continuation d \<and> continuation e \<and> scalar_value 65536 v
                then map_option ((#) v) (decode_units r) else None)
        | _ \<Rightarrow> None)
      else None)"

definition decodeURIComponent :: "string \<Rightarrow> nat list option" where
  "decodeURIComponent s = Option.bind (uri_units s) decode_units"

section \<open>Checking and building keys\<close>

definition requireUuid :: "string \<Rightarrow> string storage_result" where
  "requireUuid value = (if uuid_text value then Inr value else Inl Storage_key_error)"

definition requireGeneration :: "int \<Rightarrow> string storage_result" where
  "requireGeneration value =
     (if value < 0 \<or> value > 2147483647 then Inl Storage_key_error else Inr (int_text value))"

definition containsControlCharacter :: "nat list \<Rightarrow> bool" where
  "containsControlCharacter value = list_ex (\<lambda>p. p \<le> 31 \<or> p = 127) value"

definition drive_letter :: "nat list \<Rightarrow> bool" where
  "drive_letter value = (case value of
      a # b # _ \<Rightarrow> ((97 \<le> a \<and> a \<le> 122) \<or> (65 \<le> a \<and> a \<le> 90)) \<and> b = 58
    | _ \<Rightarrow> False)"

definition parseStorageKey :: "string \<Rightarrow> string storage_result" where
  "parseStorageKey value =
     (if value = [] \<or> length value > 500 then Inl Storage_key_error
      else (case decodeURIComponent value of
        None \<Rightarrow> Inl Storage_key_error
      | Some decoded \<Rightarrow>
          if take 1 decoded = [47] \<or> 92 \<in> set decoded \<or> containsControlCharacter decoded
             \<or> drive_letter decoded
          then Inl Storage_key_error
          else if list_ex (\<lambda>segment. segment = [] \<or> segment = [46] \<or> segment = [46, 46]) (split_char 47 decoded)
          then Inl Storage_key_error
          else Inr value))"

definition stagingUploadsPrefix :: "string storage_result" where
  "stagingUploadsPrefix = parseStorageKey ''staging/uploads''"

definition stagingUploadKey :: "string \<Rightarrow> string storage_result" where
  "stagingUploadKey uploadId =
     rbind (requireUuid uploadId) (\<lambda>u. parseStorageKey (''staging/uploads/'' @ u))"

definition revisionOriginalKey :: "string \<Rightarrow> string \<Rightarrow> string storage_result" where
  "revisionOriginalKey titleId revisionId =
     rbind (requireUuid titleId) (\<lambda>t. rbind (requireUuid revisionId) (\<lambda>r.
       parseStorageKey (''titles/'' @ t @ ''/revisions/'' @ r @ ''/original'')))"

definition revisionDerivedPrefix :: "string \<Rightarrow> string \<Rightarrow> string storage_result" where
  "revisionDerivedPrefix titleId revisionId =
     rbind (requireUuid titleId) (\<lambda>t. rbind (requireUuid revisionId) (\<lambda>r.
       parseStorageKey (''titles/'' @ t @ ''/revisions/'' @ r @ ''/derived/v1'')))"

definition revisionGenerationDerivedPrefix :: "string \<Rightarrow> string \<Rightarrow> int \<Rightarrow> string storage_result" where
  "revisionGenerationDerivedPrefix titleId revisionId generation =
     rbind (revisionDerivedPrefix titleId revisionId) (\<lambda>p. rbind (requireGeneration generation) (\<lambda>g.
       parseStorageKey (p @ ''/generations/'' @ g)))"

definition revisionProseImageKey :: "string \<Rightarrow> string \<Rightarrow> int \<Rightarrow> string \<Rightarrow> string storage_result" where
  "revisionProseImageKey titleId revisionId generation imageId =
     rbind (revisionGenerationDerivedPrefix titleId revisionId generation) (\<lambda>p.
       rbind (requireUuid imageId) (\<lambda>i. parseStorageKey (p @ ''/prose-images/'' @ i @ ''.webp'')))"

definition revisionComicPageKey :: "string \<Rightarrow> string \<Rightarrow> int \<Rightarrow> string \<Rightarrow> string storage_result" where
  "revisionComicPageKey titleId revisionId generation pageId =
     rbind (revisionGenerationDerivedPrefix titleId revisionId generation) (\<lambda>p.
       rbind (requireUuid pageId) (\<lambda>i. parseStorageKey (p @ ''/comic-pages/'' @ i @ ''.webp'')))"

definition revisionCoverSuggestionKey :: "string \<Rightarrow> string \<Rightarrow> int \<Rightarrow> string \<Rightarrow> string storage_result" where
  "revisionCoverSuggestionKey titleId revisionId generation suggestionId =
     rbind (revisionGenerationDerivedPrefix titleId revisionId generation) (\<lambda>p.
       rbind (requireUuid suggestionId) (\<lambda>i. parseStorageKey (p @ ''/cover-suggestions/'' @ i @ ''.webp'')))"

definition titleCoversPrefix :: "string \<Rightarrow> string storage_result" where
  "titleCoversPrefix titleId =
     rbind (requireUuid titleId) (\<lambda>t. parseStorageKey (''titles/'' @ t @ ''/covers''))"

definition titleCoverKey :: "string \<Rightarrow> string \<Rightarrow> string storage_result" where
  "titleCoverKey titleId coverId =
     rbind (titleCoversPrefix titleId) (\<lambda>p. rbind (requireUuid coverId) (\<lambda>c.
       parseStorageKey (p @ ''/'' @ c @ ''.webp'')))"

definition healthProbesPrefix :: "string storage_result" where
  "healthProbesPrefix = parseStorageKey ''health/probes''"

definition healthProbeKey :: "string \<Rightarrow> string storage_result" where
  "healthProbeKey probeId =
     rbind healthProbesPrefix (\<lambda>p. rbind (requireUuid probeId) (\<lambda>u. parseStorageKey (p @ ''/'' @ u)))"

definition publicationReadinessSentinelKey :: "string storage_result" where
  "publicationReadinessSentinelKey = parseStorageKey ''health/publication/readiness-v1''"

section \<open>The root of a key\<close>

datatype backend_name = Staging | Publication | Covers

definition publicationSentinel :: string where
  "publicationSentinel = ''health/publication/readiness-v1''"

definition segments :: "string \<Rightarrow> string list" where
  "segments key = split_char (CHR ''/'') key"

definition generation_text :: "string \<Rightarrow> bool" where
  "generation_text s \<longleftrightarrow> s = ''0'' \<or>
     (s \<noteq> [] \<and> CHR ''1'' \<le> hd s \<and> length s \<le> 10 \<and> list_all decimal_digit s)"

definition derivedClass :: "string \<Rightarrow> bool" where
  "derivedClass s \<longleftrightarrow> s \<in> {''prose-images'', ''comic-pages'', ''cover-suggestions''}"

definition webp_file :: "string \<Rightarrow> bool" where
  "webp_file s \<longleftrightarrow> uuid_text (take 36 s) \<and> drop 36 s = ''.webp''"

definition stagingObject :: "string list \<Rightarrow> bool" where
  "stagingObject segs = (case segs of
      [a, b, u] \<Rightarrow> ((a = ''staging'' \<and> b = ''uploads'') \<or> (a = ''health'' \<and> b = ''probes'')) \<and> uuid_text u
    | _ \<Rightarrow> False)"

definition derived_file :: "string list \<Rightarrow> bool" where
  "derived_file rest = (case rest of
      [d, v, c, w] \<Rightarrow> d = ''derived'' \<and> v = ''v1'' \<and> derivedClass c \<and> webp_file w
    | [d, v, g, n, c, w] \<Rightarrow> d = ''derived'' \<and> v = ''v1'' \<and> g = ''generations'' \<and> generation_text n
        \<and> derivedClass c \<and> webp_file w
    | _ \<Rightarrow> False)"

definition publicationObject :: "string list \<Rightarrow> bool" where
  "publicationObject segs = (case segs of
      t # u # r # v # rest \<Rightarrow> t = ''titles'' \<and> uuid_text u \<and> r = ''revisions'' \<and> uuid_text v
        \<and> (rest = [''original''] \<or> derived_file rest)
    | _ \<Rightarrow> False)"

definition coverObject :: "string list \<Rightarrow> bool" where
  "coverObject segs = (case segs of
      [t, u, c, w] \<Rightarrow> t = ''titles'' \<and> uuid_text u \<and> c = ''covers'' \<and> webp_file w
    | _ \<Rightarrow> False)"

definition stagingPrefix :: "string list \<Rightarrow> bool" where
  "stagingPrefix segs \<longleftrightarrow>
     (let stem = (\<lambda>p. p \<in> {[''staging''], [''staging'', ''uploads''], [''health''], [''health'', ''probes'']})
      in stem segs \<or> (segs \<noteq> [] \<and> stem (butlast segs) \<and> uuid_text (last segs)))"

definition titleRootPrefix :: "string list \<Rightarrow> bool" where
  "titleRootPrefix segs = (case segs of
      [t] \<Rightarrow> t = ''titles''
    | [t, u] \<Rightarrow> t = ''titles'' \<and> uuid_text u
    | _ \<Rightarrow> False)"

definition coverPrefix :: "string list \<Rightarrow> bool" where
  "coverPrefix segs = (case segs of
      [t, u, c] \<Rightarrow> t = ''titles'' \<and> uuid_text u \<and> c = ''covers''
    | [t, u, c, w] \<Rightarrow> t = ''titles'' \<and> uuid_text u \<and> c = ''covers'' \<and> webp_file w
    | _ \<Rightarrow> False)"

text \<open>The part of \<^verbatim>\<open>publicationPrefix\<close> after the class of the derived files begins.\<close>

definition class_prefix :: "string list \<Rightarrow> bool" where
  "class_prefix rest = (case rest of
      [c] \<Rightarrow> derivedClass c
    | [c, w] \<Rightarrow> derivedClass c \<and> webp_file w
    | _ \<Rightarrow> False)"

definition derived_prefix :: "string list \<Rightarrow> bool" where
  "derived_prefix rest = (case rest of
      [d] \<Rightarrow> d = ''derived''
    | d # v # more \<Rightarrow> d = ''derived'' \<and> v = ''v1'' \<and>
        (more = [] \<or> class_prefix more \<or>
         (case more of
            [g] \<Rightarrow> g = ''generations''
          | g # n # classes \<Rightarrow> g = ''generations'' \<and> generation_text n
              \<and> (classes = [] \<or> class_prefix classes)
          | [] \<Rightarrow> False))
    | [] \<Rightarrow> False)"

definition publicationPrefix :: "string list \<Rightarrow> bool" where
  "publicationPrefix segs = (case segs of
      [t, u, r] \<Rightarrow> t = ''titles'' \<and> uuid_text u \<and> r = ''revisions''
    | t # u # r # v # rest \<Rightarrow> t = ''titles'' \<and> uuid_text u \<and> r = ''revisions'' \<and> uuid_text v
        \<and> (rest = [] \<or> rest = [''original''] \<or> derived_prefix rest)
    | _ \<Rightarrow> False)"

text \<open>
  \<^verbatim>\<open>/\/generations\/([^/]+)/u\<close>: the segment after the first one called so. It is asked only of keys that
  match a pattern, where that segment is a number.
\<close>

fun generation_segment :: "string list \<Rightarrow> string option" where
  "generation_segment (a # b # rest) =
     (if a = ''generations'' \<and> b \<noteq> [] then Some b else generation_segment (b # rest))"
| "generation_segment _ = None"

definition maximumGeneration :: nat where
  "maximumGeneration = 2147483647"

definition hasBoundedGeneration :: "string list \<Rightarrow> bool" where
  "hasBoundedGeneration segs = (case generation_segment (tl segs) of
      None \<Rightarrow> True
    | Some n \<Rightarrow> parse_decimal n \<le> maximumGeneration)"

definition operationBackend :: "string \<Rightarrow> backend_name storage_result" where
  "operationBackend key = (let segs = segments key in
     if stagingObject segs then Inr Staging
     else if key = publicationSentinel then Inr Publication
     else if publicationObject segs \<and> hasBoundedGeneration segs then Inr Publication
     else if coverObject segs then Inr Covers
     else Inl Storage_routing_error)"

definition prefixBackends :: "string \<Rightarrow> backend_name list storage_result" where
  "prefixBackends prefix = (let segs = segments prefix in
     if stagingPrefix segs then Inr [Staging]
     else if prefix = publicationSentinel then Inr [Publication]
     else if titleRootPrefix segs then Inr [Covers, Publication]
     else if coverPrefix segs then Inr [Covers]
     else if publicationPrefix segs \<and> hasBoundedGeneration segs then Inr [Publication]
     else Inl Storage_routing_error)"


section \<open>What a checked key can address\<close>

text \<open>\<^verbatim>\<open>path.resolve\<close> of a root and segments without a slash; a path is the list of its names.\<close>

definition resolve_path :: "string list \<Rightarrow> string list \<Rightarrow> string list" where
  "resolve_path root segs = rev (fold (\<lambda>seg acc.
     if seg = [] \<or> seg = ''.'' then acc else if seg = ''..'' then drop 1 acc else seg # acc) segs (rev root))"

text \<open>\<^verbatim>\<open>#targetFor\<close> of \<^verbatim>\<open>storage/local.ts\<close>.\<close>

definition targetFor :: "string list \<Rightarrow> string \<Rightarrow> string list storage_result" where
  "targetFor root key = rbind (parseStorageKey key) (\<lambda>validated.
     let target = resolve_path root (segments validated)
     in if target = root \<or> take (length root) target \<noteq> root then Inl Storage_symlink_error else Inr target)"

lemma resolve_path_plain:
  "(\<And>w. w \<in> set segs \<Longrightarrow> w \<noteq> [] \<and> w \<noteq> ''.'' \<and> w \<noteq> ''..'') \<Longrightarrow> resolve_path root segs = root @ segs"
proof -
  assume plain: "\<And>w. w \<in> set segs \<Longrightarrow> w \<noteq> [] \<and> w \<noteq> ''.'' \<and> w \<noteq> ''..''"
  have "fold (\<lambda>seg acc. if seg = [] \<or> seg = ''.'' then acc else if seg = ''..'' then drop 1 acc else seg # acc)
      segs acc = rev segs @ acc" for acc
    using plain by (induction segs arbitrary: acc) auto
  then show ?thesis by (simp add: resolve_path_def)
qed

lemma uri_units_append:
  "uri_units (x @ CHR ''/'' # y) = Some us \<Longrightarrow>
     \<exists>ux uy. uri_units x = Some ux \<and> uri_units y = Some uy \<and> us = ux @ Plain 47 # uy"
proof (induction x arbitrary: us rule: uri_units.induct)
  case 1
  then show ?case by auto
next
  case (2 c s)
  show ?case
  proof (cases "c = CHR ''%''")
    case False
    with 2 show ?thesis by fastforce
  next
    case True
    have slash: "hex_value (CHR ''/'') = None" by (simp add: hex_value_def decimal_digit_def less_eq_char_def)
    obtain a b r where s: "s = a # b # r"
    proof (cases s)
      case Nil
      with 2 True slash show ?thesis by (auto split: list.splits)
    next
      case (Cons a t)
      with 2 True slash that show ?thesis by (cases t) (auto split: option.splits)
    qed
    with 2 True show ?thesis by (fastforce split: option.splits)
  qed
qed

lemma decode_units_append:
  "decode_units (ux @ Plain 47 # uy) = Some d \<Longrightarrow>
     \<exists>dx dy. decode_units ux = Some dx \<and> decode_units uy = Some dy \<and> d = dx @ 47 # dy"
proof (induction ux arbitrary: d rule: decode_units.induct)
  case 1
  then show ?case by auto
next
  case (2 c us)
  then show ?case by fastforce
next
  case (3 b us)
  then show ?case
    by (cases us) (fastforce simp: Let_def split: if_splits uri_unit.splits list.splits)+
qed

lemma decode_append:
  "decodeURIComponent (x @ CHR ''/'' # y) = Some d \<Longrightarrow>
     \<exists>dx dy. decodeURIComponent x = Some dx \<and> decodeURIComponent y = Some dy \<and> d = dx @ 47 # dy"
  unfolding decodeURIComponent_def
  by (auto simp: bind_eq_Some_conv dest!: uri_units_append decode_units_append)


text \<open>The segments of the decoded text are the decoded segments.\<close>

lemma decode_segment:
  assumes "decodeURIComponent s = Some d" and "w \<in> set (split_char (CHR ''/'') s)"
  shows "\<exists>e. decodeURIComponent w = Some e \<and> set (split_char 47 e) \<subseteq> set (split_char 47 d)"
proof -
  have "decodeURIComponent (join_char (CHR ''/'') ws) = Some d \<Longrightarrow> w \<in> set ws \<Longrightarrow>
      \<exists>e. decodeURIComponent w = Some e \<and> set (split_char 47 e) \<subseteq> set (split_char 47 d)" for ws
  proof (induction ws arbitrary: d)
    case (Cons v ws)
    show ?case
    proof (cases ws)
      case Nil
      with Cons.prems show ?thesis by auto
    next
      case (Cons u us)
      then have eq: "decodeURIComponent (v @ CHR ''/'' # join_char (CHR ''/'') ws) = Some d"
        using Cons.prems by (simp add: join_char_Cons)
      obtain dv dw where parts: "decodeURIComponent v = Some dv"
        "decodeURIComponent (join_char (CHR ''/'') ws) = Some dw" "d = dv @ 47 # dw"
        using decode_append [OF eq] by auto
      show ?thesis
      proof (cases "w = v")
        case True
        with parts show ?thesis by (auto simp: split_char_append)
      next
        case False
        with Cons.prems Cons.IH [OF parts(2)] parts(3) show ?thesis by (auto simp: split_char_append)
      qed
    qed
  qed simp
  from this [of "split_char (CHR ''/'') s"] assms show ?thesis by simp
qed

lemma parsed_segment_plain:
  assumes "parseStorageKey v = Inr k" and "w \<in> set (segments v)"
  shows "w \<noteq> [] \<and> w \<noteq> ''.'' \<and> w \<noteq> ''..''"
proof -
  from assms(1) obtain d where d: "decodeURIComponent v = Some d"
    "\<not> list_ex (\<lambda>segment. segment = [] \<or> segment = [46] \<or> segment = [46, 46]) (split_char 47 d)"
    by (auto simp: parseStorageKey_def split: if_splits option.splits)
  from decode_segment [OF d(1)] assms(2) obtain e where
    e: "decodeURIComponent w = Some e" "set (split_char 47 e) \<subseteq> set (split_char 47 d)"
    by (auto simp: segments_def)
  have "e \<noteq> [] \<and> e \<noteq> [46] \<and> e \<noteq> [46, 46]" using d(2) e(2) by (auto simp: list_ex_iff)
  then show ?thesis using e(1) by (auto simp: decodeURIComponent_def)
qed

lemma parseStorageKey_same: "parseStorageKey v = Inr k \<Longrightarrow> k = v"
  by (auto simp: parseStorageKey_def split: if_splits option.splits)

lemma parseStorageKey_error: "parseStorageKey v = Inl e \<Longrightarrow> e = Storage_key_error"
  by (auto simp: parseStorageKey_def split: if_splits option.splits)

lemma targetFor_eq:
  "targetFor root key = (case parseStorageKey key of
      Inl e \<Rightarrow> Inl Storage_key_error | Inr k \<Rightarrow> Inr (root @ segments key))"
proof (cases "parseStorageKey key")
  case (Inl e)
  then show ?thesis using parseStorageKey_error [OF Inl] by (simp add: targetFor_def)
next
  case (Inr k)
  then show ?thesis
    using parsed_segment_plain [OF Inr] resolve_path_plain [of "segments key" root] parseStorageKey_same [OF Inr]
    by (simp add: targetFor_def Let_def segments_def)
qed

text \<open>
  C32. A key never leads out of the root of its store. Whatever text is accepted as a key, with any
  escapes in it, the file it addresses lies strictly below the root, at exactly the segments of the
  key; no segment is empty, \<open>.\<close> or \<open>..\<close>, neither as written nor once its escapes are
  decoded; and no other key addresses the same file.
\<close>

theorem storage_key_stays_inside:
  assumes "targetFor root key = Inr target"
  shows "target = root @ segments key \<and> segments key \<noteq> [] \<and>
    (\<forall>w \<in> {[], ''.'', ''..''}. w \<notin> set (segments key)) \<and>
    (\<exists>decoded. decodeURIComponent key = Some decoded \<and>
      (\<forall>w \<in> {[], [46], [46, 46]}. w \<notin> set (split_char 47 decoded))) \<and>
    (\<forall>key'. targetFor root key' = Inr target \<longrightarrow> key' = key)"
proof -
  obtain k where k: "parseStorageKey key = Inr k"
    using assms by (auto simp: targetFor_eq split: sum.splits)
  have "\<exists>decoded. decodeURIComponent key = Some decoded \<and>
      (\<forall>w \<in> {[], [46], [46, 46]}. w \<notin> set (split_char 47 decoded))"
    using k by (auto simp: parseStorageKey_def list_ex_iff split: if_splits option.splits)
  moreover have "\<forall>key'. targetFor root key' = Inr target \<longrightarrow> key' = key"
    using assms by (auto simp: targetFor_eq segments_def split_char_inj split: sum.splits)
  ultimately show ?thesis
    using assms k parsed_segment_plain [OF k] by (auto simp: targetFor_eq segments_def)
qed

text \<open>A key with an escaped character, and one that would climb out of the root.\<close>

theorem storage_key_stays_inside_witness:
  "targetFor [''srv''] ''staging/a%20b'' = Inr [''srv'', ''staging'', ''a%20b''] \<and>
   targetFor [''srv''] ''staging/%2E%2e/%2e./x'' = Inl Storage_key_error \<and>
   (\<exists>decoded. decodeURIComponent ''staging/a%20b'' = Some decoded \<and> [46, 46] \<notin> set (split_char 47 decoded)) \<and>
   targetFor [''srv''] ''staging/a b'' \<noteq> Inr [''srv'', ''staging'', ''a%20b'']"
proof -
  have run: "targetFor [''srv''] ''staging/a%20b'' = Inr [''srv'', ''staging'', ''a%20b'']" by code_simp
  have refused: "targetFor [''srv''] ''staging/%2E%2e/%2e./x'' = Inl Storage_key_error" by code_simp
  note inside = storage_key_stays_inside [OF run]
  have "\<exists>decoded. decodeURIComponent ''staging/a%20b'' = Some decoded \<and> [46, 46] \<notin> set (split_char 47 decoded)"
    using inside by blast
  moreover have "targetFor [''srv''] ''staging/a b'' \<noteq> Inr [''srv'', ''staging'', ''a%20b'']"
  proof
    assume "targetFor [''srv''] ''staging/a b'' = Inr [''srv'', ''staging'', ''a%20b'']"
    with inside have "''staging/a b'' = ''staging/a%20b''" by blast
    then show False by simp
  qed
  ultimately show ?thesis using run refused by blast
qed

section \<open>The keys that are built\<close>

text \<open>A file the program stores, and the function that builds its key.\<close>

datatype key_request = Staging_upload string | Original string string
  | Prose_image string string int string | Comic_page string string int string
  | Cover_suggestion string string int string | Title_cover string string
  | Health_probe string | Readiness_sentinel

fun requested_key :: "key_request \<Rightarrow> string storage_result" where
  "requested_key (Staging_upload u) = stagingUploadKey u"
| "requested_key (Original t r) = revisionOriginalKey t r"
| "requested_key (Prose_image t r g i) = revisionProseImageKey t r g i"
| "requested_key (Comic_page t r g i) = revisionComicPageKey t r g i"
| "requested_key (Cover_suggestion t r g i) = revisionCoverSuggestionKey t r g i"
| "requested_key (Title_cover t c) = titleCoverKey t c"
| "requested_key (Health_probe u) = healthProbeKey u"
| "requested_key Readiness_sentinel = publicationReadinessSentinelKey"

definition generation_number :: "int \<Rightarrow> bool" where
  "generation_number g \<longleftrightarrow> 0 \<le> g \<and> g \<le> 2147483647"

fun request_valid :: "key_request \<Rightarrow> bool" where
  "request_valid (Staging_upload u) = uuid_text u"
| "request_valid (Original t r) = (uuid_text t \<and> uuid_text r)"
| "request_valid (Prose_image t r g i) = (uuid_text t \<and> uuid_text r \<and> generation_number g \<and> uuid_text i)"
| "request_valid (Comic_page t r g i) = (uuid_text t \<and> uuid_text r \<and> generation_number g \<and> uuid_text i)"
| "request_valid (Cover_suggestion t r g i) = (uuid_text t \<and> uuid_text r \<and> generation_number g \<and> uuid_text i)"
| "request_valid (Title_cover t c) = (uuid_text t \<and> uuid_text c)"
| "request_valid (Health_probe u) = uuid_text u"
| "request_valid Readiness_sentinel = True"

definition generation_segments :: "string \<Rightarrow> string \<Rightarrow> int \<Rightarrow> string \<Rightarrow> string \<Rightarrow> string list" where
  "generation_segments t r g c i =
     [''titles'', t, ''revisions'', r, ''derived'', ''v1'', ''generations'', int_text g, c, i @ ''.webp'']"

fun request_segments :: "key_request \<Rightarrow> string list" where
  "request_segments (Staging_upload u) = [''staging'', ''uploads'', u]"
| "request_segments (Original t r) = [''titles'', t, ''revisions'', r, ''original'']"
| "request_segments (Prose_image t r g i) = generation_segments t r g ''prose-images'' i"
| "request_segments (Comic_page t r g i) = generation_segments t r g ''comic-pages'' i"
| "request_segments (Cover_suggestion t r g i) = generation_segments t r g ''cover-suggestions'' i"
| "request_segments (Title_cover t c) = [''titles'', t, ''covers'', c @ ''.webp'']"
| "request_segments (Health_probe u) = [''health'', ''probes'', u]"
| "request_segments Readiness_sentinel = [''health'', ''publication'', ''readiness-v1'']"

fun request_backend :: "key_request \<Rightarrow> backend_name" where
  "request_backend (Staging_upload _) = Staging"
| "request_backend (Health_probe _) = Staging"
| "request_backend (Title_cover _ _) = Covers"
| "request_backend _ = Publication"

definition key_char :: "char \<Rightarrow> bool" where
  "key_char c \<longleftrightarrow> (CHR ''a'' \<le> c \<and> c \<le> CHR ''z'') \<or> decimal_digit c \<or> c = CHR ''-'' \<or> c = CHR ''.''"

definition plain_word :: "string \<Rightarrow> bool" where
  "plain_word w \<longleftrightarrow> w \<noteq> [] \<and> hd w \<noteq> CHR ''.'' \<and> list_all key_char w"

lemma uri_units_plain: "CHR ''%'' \<notin> set s \<Longrightarrow> uri_units s = Some (map (\<lambda>c. Plain (of_char c)) s)"
  by (induction s) auto

lemma decode_units_plain: "decode_units (map (\<lambda>c. Plain (f c)) s) = Some (map f s)"
  by (induction s) auto

lemma decode_plain: "CHR ''%'' \<notin> set s \<Longrightarrow> decodeURIComponent s = Some (map of_char s)"
  by (simp add: decodeURIComponent_def uri_units_plain decode_units_plain)

lemma split_char_map: "inj f \<Longrightarrow> split_char (f c) (map f s) = map (map f) (split_char c s)"
  by (induction s) (auto simp: inj_eq split: list.splits)

lemma inj_of_char: "inj (of_char :: char \<Rightarrow> nat)"
  by (simp add: inj_def)

lemma split_code_points: "split_char 47 (map of_char s :: nat list) = map (map of_char) (segments s)"
  using split_char_map [OF inj_of_char, of "CHR ''/''" s] by (simp add: segments_def)

lemma key_char_code:
  "key_char c \<Longrightarrow> (97 \<le> (of_char c :: nat) \<and> of_char c \<le> (122 :: nat)) \<or>
     (48 \<le> (of_char c :: nat) \<and> of_char c \<le> (57 :: nat)) \<or> of_char c = (45 :: nat) \<or> of_char c = (46 :: nat)"
  by (auto simp: key_char_def decimal_digit_def less_eq_char_def)

lemma plain_word_no_slash: "plain_word w \<Longrightarrow> CHR ''/'' \<notin> set w"
  by (auto simp: plain_word_def list_all_iff dest!: key_char_code)

lemma segments_join:
  "ws \<noteq> [] \<Longrightarrow> list_all plain_word ws \<Longrightarrow> segments (join_char (CHR ''/'') ws) = ws"
  by (auto simp: segments_def list_all_iff plain_word_no_slash intro!: split_join)

lemma set_join_char: "set (join_char c ws) \<subseteq> insert c (\<Union> (set ` set ws))"
  by (induction c ws rule: join_char.induct) auto

text \<open>Words of letters, digits, hyphens and dots, none beginning with a dot, make a key.\<close>

lemma parse_plain_words:
  assumes "ws \<noteq> []" and "list_all plain_word ws" and "length (join_char (CHR ''/'') ws) \<le> 500"
  shows "parseStorageKey (join_char (CHR ''/'') ws) = Inr (join_char (CHR ''/'') ws)"
proof -
  let ?k = "join_char (CHR ''/'') ws"
  let ?d = "map of_char ?k :: nat list"
  have chars: "c \<in> set ?k \<Longrightarrow> c = CHR ''/'' \<or> key_char c" for c
    using set_join_char [of "CHR ''/''" ws] assms(2) by (auto simp: list_all_iff plain_word_def)
  obtain w vs where ws: "ws = w # vs" using assms(1) by (cases ws) auto
  then obtain c s where w: "w = c # s" "key_char c" using assms(2) by (cases w) (auto simp: plain_word_def)
  have k: "\<exists>r. ?k = c # r" using ws w by (cases vs) auto
  have codes: "p \<in> set ?d \<Longrightarrow> p = 47 \<or> (97 \<le> p \<and> p \<le> 122) \<or> (48 \<le> p \<and> p \<le> 57) \<or> p = 45 \<or> p = 46" for p
    using chars key_char_code by fastforce
  have "CHR ''%'' \<notin> set ?k" using chars key_char_code by fastforce
  then have decoded: "decodeURIComponent ?k = Some ?d" by (rule decode_plain)
  have "take 1 ?d \<noteq> [47]" using k w(2) key_char_code by fastforce
  moreover have "92 \<notin> set ?d" and "58 \<notin> set ?d" using codes by fastforce+
  moreover have "\<not> containsControlCharacter ?d"
    using codes by (fastforce simp: containsControlCharacter_def list_ex_iff simp del: set_map)
  moreover have "\<not> drive_letter ?d"
    using \<open>58 \<notin> set ?d\<close> by (auto simp: drive_letter_def split: list.splits)
  moreover have "\<not> list_ex (\<lambda>segment. segment = [] \<or> segment = [46] \<or> segment = [46, 46]) (split_char 47 ?d)"
  proof -
    have "map of_char v \<noteq> ([] :: nat list) \<and> map of_char v \<noteq> [46 :: nat] \<and> map of_char v \<noteq> [46 :: nat, 46]"
      if "plain_word v" for v
      using that by (cases v) (auto simp: plain_word_def of_char_eq_iff [of _ "CHR ''.''", simplified])
    then show ?thesis
      using assms(2) by (auto simp: split_code_points segments_join [OF assms(1,2)] list_ex_iff list_all_iff)
  qed
  ultimately show ?thesis using assms(3) k decoded by (auto simp: parseStorageKey_def)
qed


lemma uuid_char: "uuid_text s \<Longrightarrow> c \<in> set s \<Longrightarrow> hex_digit c \<or> c = CHR ''-''"
proof -
  assume u: "uuid_text s" and c: "c \<in> set s"
  then obtain i where i: "i < 36" "s ! i = c" by (auto simp: uuid_text_def in_set_conv_nth)
  then have "(i, c) \<in> set (zip [0 ..< 36] s)"
    using u by (auto simp: uuid_text_def in_set_zip intro!: exI [of _ i])
  then show ?thesis using u by (fastforce simp: uuid_text_def list_all_iff split: if_splits)
qed

lemma uuid_length: "uuid_text s \<Longrightarrow> length s = 36"
  by (simp add: uuid_text_def)

lemma uuid_plain: "uuid_text s \<Longrightarrow> plain_word s"
proof -
  assume u: "uuid_text s"
  then have ne: "s \<noteq> []" by (auto simp: uuid_text_def)
  have "list_all key_char s"
    using uuid_char [OF u] by (fastforce simp: list_all_iff key_char_def hex_digit_def less_eq_char_def)
  moreover have "hd s \<noteq> CHR ''.''"
    using uuid_char [OF u, of "hd s"] ne by (auto simp: hex_digit_def decimal_digit_def less_eq_char_def)
  ultimately show ?thesis using ne by (simp add: plain_word_def)
qed

lemma webp_plain: "uuid_text s \<Longrightarrow> plain_word (s @ ''.webp'')"
  using uuid_plain [of s] by (auto simp: plain_word_def key_char_def less_eq_char_def)

lemma webp_file_uuid: "webp_file w \<longleftrightarrow> (\<exists>u. uuid_text u \<and> w = u @ ''.webp'')"
proof
  assume "webp_file w"
  then show "\<exists>u. uuid_text u \<and> w = u @ ''.webp''"
    by (intro exI [of _ "take 36 w"]) (metis append_take_drop_id webp_file_def)
qed (auto simp: webp_file_def uuid_length)

lemma decimal_digits: "c \<in> set (decimal n) \<Longrightarrow> decimal_digit c"
proof (induction n rule: decimal.induct)
  case (1 n)
  have digit: "d < 10 \<Longrightarrow> decimal_digit (digit_char d)" for d
    by (simp add: decimal_digit_def less_eq_char_def of_char_digit)
  from 1 show ?case by (subst (asm) (2) decimal.simps) (auto split: if_splits intro: digit)
qed

lemma decimal_hd: "0 < n \<Longrightarrow> CHR ''1'' \<le> hd (decimal n) \<and> decimal n \<noteq> []"
proof (induction n rule: decimal.induct)
  case (1 n)
  then show ?case
    by (subst (1 2) decimal.simps) (auto simp: less_eq_char_def of_char_digit hd_append)
qed

lemma decimal_length: "n < 10 ^ k \<Longrightarrow> 0 < k \<Longrightarrow> length (decimal n) \<le> k"
proof (induction k arbitrary: n)
  case (Suc k)
  then show ?case
  proof (cases "n < 10")
    case False
    then have "n div 10 < 10 ^ k" and "0 < k" using Suc.prems by (auto intro!: Nat.gr0I)
    with Suc.IH False show ?thesis by (subst decimal.simps) simp
  qed (subst decimal.simps, simp)
qed simp

lemma generation_decimal:
  assumes "generation_number g"
  shows "generation_text (int_text g)" and "plain_word (int_text g)" and "length (int_text g) \<le> 10"
    and "parse_decimal (int_text g) \<le> maximumGeneration"
proof -
  let ?n = "nat g"
  have digits: "int_text g = decimal ?n" using assms by (simp add: int_text_def generation_number_def)
  show len: "length (int_text g) \<le> 10"
    using assms unfolding digits by (intro decimal_length) (auto simp: generation_number_def)
  show "parse_decimal (int_text g) \<le> maximumGeneration"
    using assms unfolding digits parse_decimal_decimal by (auto simp: generation_number_def maximumGeneration_def)
  have zero: "decimal 0 = ''0''" by (simp add: decimal.simps digit_char_def char_of_eq_iff)
  show "generation_text (int_text g)"
    using len decimal_hd [of ?n] zero unfolding digits
    by (cases "?n = 0") (auto simp: generation_text_def list_all_iff decimal_digits)
  have "hd (decimal ?n) \<noteq> CHR ''.'' \<and> decimal ?n \<noteq> []"
    using decimal_hd [of ?n] zero by (cases "?n = 0") (auto simp: less_eq_char_def)
  then show "plain_word (int_text g)"
    unfolding digits plain_word_def list_all_iff key_char_def by (auto dest: decimal_digits)
qed


lemma fixed_words_plain [key_simps]:
  "plain_word ''titles''" "plain_word ''revisions''" "plain_word ''original''" "plain_word ''derived''"
  "plain_word ''v1''" "plain_word ''generations''" "plain_word ''prose-images''" "plain_word ''comic-pages''"
  "plain_word ''cover-suggestions''" "plain_word ''covers''" "plain_word ''staging''" "plain_word ''uploads''"
  "plain_word ''health''" "plain_word ''probes''" "plain_word ''publication''" "plain_word ''readiness-v1''"
  by (simp_all add: plain_word_def key_char_def decimal_digit_def less_eq_char_def)

lemmas word_simps = key_simps uuid_plain webp_plain uuid_length generation_decimal(1,2,4)

lemma generation_prefix_parsed:
  assumes "uuid_text t" and "uuid_text r" and "generation_number g"
  shows "revisionGenerationDerivedPrefix t r g =
    Inr (join_char (CHR ''/'') [''titles'', t, ''revisions'', r, ''derived'', ''v1'', ''generations'', int_text g])"
proof -
  have "requireGeneration g = Inr (int_text g)"
    using assms(3) by (simp add: requireGeneration_def generation_number_def)
  moreover have "length (int_text g) \<le> 386" using generation_decimal(3) [OF assms(3)] by simp
  ultimately show ?thesis
    using assms word_simps parse_plain_words [of "[''titles'', t, ''revisions'', r, ''derived'', ''v1'']"]
      parse_plain_words [of "[''titles'', t, ''revisions'', r, ''derived'', ''v1'', ''generations'', int_text g]"]
    by (simp add: revisionGenerationDerivedPrefix_def revisionDerivedPrefix_def requireUuid_def)
qed

lemma generation_key_parsed:
  assumes "uuid_text t" and "uuid_text r" and "generation_number g" and "uuid_text i" and "derivedClass c"
  shows "parseStorageKey (join_char (CHR ''/'') (generation_segments t r g c i)) =
    Inr (join_char (CHR ''/'') (generation_segments t r g c i))"
  by (rule parse_plain_words)
    (use assms word_simps generation_decimal(3) [OF assms(3)] in
      \<open>auto simp: generation_segments_def derivedClass_def\<close>)

lemma request_parsed:
  "request_valid q \<Longrightarrow> requested_key q = Inr (join_char (CHR ''/'') (request_segments q))"
proof (induction q rule: requested_key.induct)
  case (1 u)
  then show ?case
    using word_simps parse_plain_words [of "[''staging'', ''uploads'', u]"]
    by (simp add: stagingUploadKey_def requireUuid_def)
next
  case (2 t r)
  then show ?case
    using word_simps parse_plain_words [of "[''titles'', t, ''revisions'', r, ''original'']"]
    by (simp add: revisionOriginalKey_def requireUuid_def)
next
  case (3 t r g i)
  then show ?case
    using generation_key_parsed [of t r g i "''prose-images''"]
    by (simp add: revisionProseImageKey_def generation_prefix_parsed requireUuid_def generation_segments_def derivedClass_def)
next
  case (4 t r g i)
  then show ?case
    using generation_key_parsed [of t r g i "''comic-pages''"]
    by (simp add: revisionComicPageKey_def generation_prefix_parsed requireUuid_def generation_segments_def derivedClass_def)
next
  case (5 t r g i)
  then show ?case
    using generation_key_parsed [of t r g i "''cover-suggestions''"]
    by (simp add: revisionCoverSuggestionKey_def generation_prefix_parsed requireUuid_def generation_segments_def derivedClass_def)
next
  case (6 t c)
  then show ?case
    using word_simps parse_plain_words [of "[''titles'', t, ''covers'']"]
      parse_plain_words [of "[''titles'', t, ''covers'', c @ ''.webp'']"]
    by (simp add: titleCoverKey_def titleCoversPrefix_def requireUuid_def)
next
  case (7 u)
  then show ?case
    using word_simps parse_plain_words [of "[''health'', ''probes'']"] parse_plain_words [of "[''health'', ''probes'', u]"]
    by (simp add: healthProbeKey_def healthProbesPrefix_def requireUuid_def)
next
  case 8
  show ?case
    using word_simps parse_plain_words [of "[''health'', ''publication'', ''readiness-v1'']"]
    by (simp add: publicationReadinessSentinelKey_def)
qed

lemma parse_again: "parseStorageKey x = Inr k \<Longrightarrow> parseStorageKey k = Inr k"
  using parseStorageKey_same [of x k] by simp

lemma requested_is_parsed: "requested_key q = Inr k \<Longrightarrow> parseStorageKey k = Inr k"
  by (cases q)
    (simp_all only: requested_key.simps stagingUploadKey_def revisionOriginalKey_def revisionProseImageKey_def
      revisionComicPageKey_def revisionCoverSuggestionKey_def titleCoverKey_def healthProbeKey_def
      publicationReadinessSentinelKey_def rbind_eq_Inr, ((elim exE conjE)?, erule parse_again)+)

lemma request_only_valid: "requested_key q = Inr k \<Longrightarrow> request_valid q"
  by (induction q rule: requested_key.induct)
    (auto simp: result_simps stagingUploadKey_def revisionOriginalKey_def revisionProseImageKey_def
      revisionComicPageKey_def revisionCoverSuggestionKey_def revisionGenerationDerivedPrefix_def
      revisionDerivedPrefix_def titleCoverKey_def titleCoversPrefix_def healthProbeKey_def requireUuid_def
      requireGeneration_def generation_number_def split: if_splits)

lemma request_words:
  "request_valid q \<Longrightarrow> list_all plain_word (request_segments q) \<and> request_segments q \<noteq> []"
  using word_simps by (cases q) (auto simp: generation_segments_def)

lemma request_segments_of_key:
  "requested_key q = Inr k \<Longrightarrow> segments k = request_segments q"
  using request_only_valid [of q k] request_parsed [of q] request_words [of q] by (auto simp: segments_join)

lemma int_text_unique: "int_text m = int_text n \<longleftrightarrow> m = n" if "generation_number m" "generation_number n"
  using that by (auto simp: int_text_def generation_number_def decimal_inj)

lemma request_segments_inj:
  "request_valid q \<Longrightarrow> request_valid q' \<Longrightarrow> request_segments q = request_segments q' \<Longrightarrow> q = q'"
  by (cases q; cases q') (auto simp: generation_segments_def int_text_unique uuid_length)

lemma sentinel_segments: "k = publicationSentinel \<longleftrightarrow> segments k = [''health'', ''publication'', ''readiness-v1'']"
proof -
  have "segments publicationSentinel = [''health'', ''publication'', ''readiness-v1'']"
    by (simp add: segments_def publicationSentinel_def)
  then show ?thesis by (metis segments_def split_char_inj)
qed

lemma operationBackend_segments:
  "segments k = segs \<Longrightarrow> operationBackend k =
    (if stagingObject segs then Inr Staging
     else if segs = [''health'', ''publication'', ''readiness-v1''] then Inr Publication
     else if publicationObject segs \<and> hasBoundedGeneration segs then Inr Publication
     else if coverObject segs then Inr Covers
     else Inl Storage_routing_error)"
  by (simp add: operationBackend_def Let_def sentinel_segments)

lemma uuid_not_generations: "uuid_text s \<Longrightarrow> s \<noteq> ''generations''"
  by (auto simp: uuid_text_def)

lemma original_routed:
  "uuid_text t \<Longrightarrow> uuid_text r \<Longrightarrow> publicationObject [''titles'', t, ''revisions'', r, ''original''] \<and>
     hasBoundedGeneration [''titles'', t, ''revisions'', r, ''original'']"
  by (simp add: publicationObject_def hasBoundedGeneration_def uuid_not_generations)

lemma cover_routed:
  "uuid_text t \<Longrightarrow> uuid_text c \<Longrightarrow> coverObject [''titles'', t, ''covers'', c @ ''.webp''] \<and>
     \<not> publicationObject [''titles'', t, ''covers'', c @ ''.webp'']"
  by (simp add: publicationObject_def coverObject_def webp_file_def uuid_length)

lemma not_staging_titles: "\<not> stagingObject (''titles'' # rest)"
  by (simp add: stagingObject_def split: list.splits)

lemma staging_routed:
  "uuid_text u \<Longrightarrow> stagingObject [''staging'', ''uploads'', u] \<and> stagingObject [''health'', ''probes'', u]"
  "\<not> stagingObject [''health'', ''publication'', ''readiness-v1'']"
  by (simp_all add: stagingObject_def)

lemma generation_segments_routed:
  assumes "uuid_text t" and "uuid_text r" and "generation_number g" and "uuid_text i" and "derivedClass c"
  shows "publicationObject (generation_segments t r g c i)"
    and "hasBoundedGeneration (generation_segments t r g c i)"
    and "\<not> stagingObject (generation_segments t r g c i)"
proof -
  have "int_text g \<noteq> []" using generation_decimal(2) [OF assms(3)] by (simp add: plain_word_def)
  then show "hasBoundedGeneration (generation_segments t r g c i)"
    using assms generation_decimal(4) [OF assms(3)]
    by (simp add: hasBoundedGeneration_def generation_segments_def uuid_not_generations)
  have "webp_file (i @ ''.webp'')" using assms(4) by (auto simp: webp_file_uuid)
  then show "publicationObject (generation_segments t r g c i)"
    using assms generation_decimal(1) [OF assms(3)]
    by (simp add: publicationObject_def derived_file_def generation_segments_def)
  show "\<not> stagingObject (generation_segments t r g c i)"
    by (simp add: stagingObject_def generation_segments_def)
qed

lemma request_routed:
  assumes "requested_key q = Inr k"
  shows "operationBackend k = Inr (request_backend q)"
proof -
  have valid: "request_valid q" by (rule request_only_valid [OF assms])
  note backend = operationBackend_segments [OF request_segments_of_key [OF assms]]
  have sentinel: "generation_segments t r g c i \<noteq> [''health'', ''publication'', ''readiness-v1'']" for t r g c i
    by (simp add: generation_segments_def)
  show ?thesis
    using valid unfolding backend
    by (cases q) (simp_all add: generation_segments_routed sentinel derivedClass_def original_routed
        cover_routed not_staging_titles staging_routed)
qed

text \<open>
  C33. Stored files never collide. Each function that builds a key succeeds exactly on canonical
  identifiers and generations of 31 bits; the key it gives belongs to one root, the one meant for that
  kind of file; and no two different files, of the same kind or of different ones, have the same key,
  also not in different roots.
\<close>

theorem storage_keys_never_collide:
  assumes "requested_key q = Inr key"
  shows "request_valid q \<and> parseStorageKey key = Inr key \<and> operationBackend key = Inr (request_backend q) \<and>
    (\<forall>q'. requested_key q' = Inr key \<longrightarrow> q' = q) \<and>
    (\<forall>q'. request_valid q' \<longrightarrow> (\<exists>key'. requested_key q' = Inr key'))"
proof -
  have valid: "request_valid q" by (rule request_only_valid [OF assms])
  have "parseStorageKey key = Inr key" by (rule requested_is_parsed [OF assms])
  moreover have "q' = q" if "requested_key q' = Inr key" for q'
    using request_segments_inj [of q' q] request_segments_of_key [OF that] request_segments_of_key [OF assms]
      request_only_valid [OF that] valid by simp
  ultimately show ?thesis
    using valid request_routed [OF assms] request_parsed by blast
qed

definition sample_file_uuid :: string where
  "sample_file_uuid = ''0a1b2c3d-0000-4000-8000-00000000000f''"

theorem storage_keys_never_collide_witness:
  "requested_key (Title_cover sample_file_uuid sample_file_uuid) =
     Inr ''titles/0a1b2c3d-0000-4000-8000-00000000000f/covers/0a1b2c3d-0000-4000-8000-00000000000f.webp'' \<and>
   requested_key (Staging_upload ''../titles'') = Inl Storage_key_error \<and>
   operationBackend ''titles/0a1b2c3d-0000-4000-8000-00000000000f/covers/0a1b2c3d-0000-4000-8000-00000000000f.webp'' =
     Inr Covers \<and>
   requested_key (Original sample_file_uuid sample_file_uuid) \<noteq>
     Inr ''titles/0a1b2c3d-0000-4000-8000-00000000000f/covers/0a1b2c3d-0000-4000-8000-00000000000f.webp''"
proof -
  have run: "requested_key (Title_cover sample_file_uuid sample_file_uuid) =
      Inr ''titles/0a1b2c3d-0000-4000-8000-00000000000f/covers/0a1b2c3d-0000-4000-8000-00000000000f.webp''"
    by code_simp
  have "requested_key (Staging_upload ''../titles'') = Inl Storage_key_error" by code_simp
  moreover have "requested_key (Original sample_file_uuid sample_file_uuid) \<noteq>
      Inr ''titles/0a1b2c3d-0000-4000-8000-00000000000f/covers/0a1b2c3d-0000-4000-8000-00000000000f.webp''"
  proof
    assume "requested_key (Original sample_file_uuid sample_file_uuid) =
      Inr ''titles/0a1b2c3d-0000-4000-8000-00000000000f/covers/0a1b2c3d-0000-4000-8000-00000000000f.webp''"
    with storage_keys_never_collide [OF run] have
      "Original sample_file_uuid sample_file_uuid = Title_cover sample_file_uuid sample_file_uuid" by blast
    then show False by simp
  qed
  ultimately show ?thesis using run storage_keys_never_collide [OF run] by simp
qed

end
