(* ===== verification/LocalStore.thy ===== *)
theory LocalStore
  imports StorageKeys
begin

text \<open>
  \<^verbatim>\<open>storage/local.ts\<close>: files under one root directory. The directory is a tree with the contents and
  the time of each file; a path is the list of names from the root, and what Node's functions on files
  answer is read off the tree. An operation runs alone, and gives its result with the new tree; for
  writes and copies, any of the calls may also fail for a reason outside the tree. The
  random name of a partial file, the clock and the digest are arguments; a body is the chunks its
  stream delivers and whether it then ends or fails.
\<close>

named_theorems tree_simps \<open>looking up paths in a tree\<close>

section \<open>The tree and the calls of the operating system\<close>

datatype fs_entry = File "nat list" int | Directory "(string \<times> fs_entry) list" | Symlink

record stored_object_stat =
  st_byteSize :: int
  st_modifiedAt :: int

record listed_object =
  lo_key :: string
  lo_byteSize :: int
  lo_modifiedAt :: int

text \<open>No operation follows a symbolic link: each looks for links on the whole path before it goes on.\<close>

fun lstat :: "string list \<Rightarrow> fs_entry \<Rightarrow> fs_entry storage_result" where
  "lstat [] e = Inr e"
| "lstat (s # ss) (Directory es) = (case map_of es s of None \<Rightarrow> Inl No_entry | Some e \<Rightarrow> lstat ss e)"
| "lstat (s # ss) _ = Inl Not_directory"

fun mkdir_path :: "string list \<Rightarrow> fs_entry \<Rightarrow> fs_entry storage_result" where
  "mkdir_path [] (Directory es) = Inr (Directory es)"
| "mkdir_path [] _ = Inl Entry_exists"
| "mkdir_path (s # ss) (Directory es) =
     rbind (mkdir_path ss (case map_of es s of None \<Rightarrow> Directory [] | Some e \<Rightarrow> e))
       (\<lambda>d. Inr (Directory (AList.update s d es)))"
| "mkdir_path (s # ss) _ = Inl Not_directory"

fun in_directory ::
  "string list \<Rightarrow> ((string \<times> fs_entry) list \<Rightarrow> (string \<times> fs_entry) list storage_result) \<Rightarrow>
    fs_entry \<Rightarrow> fs_entry storage_result" where
  "in_directory [] f (Directory es) = rbind (f es) (\<lambda>es'. Inr (Directory es'))"
| "in_directory (s # ss) f (Directory es) = (case map_of es s of
      None \<Rightarrow> Inl No_entry
    | Some e \<Rightarrow> rbind (in_directory ss f e) (\<lambda>d. Inr (Directory (AList.update s d es))))"
| "in_directory _ f _ = Inl Not_directory"

text \<open>\<^verbatim>\<open>open(..., 'wx')\<close>, writing to the file just opened, \<^verbatim>\<open>rename\<close> within a directory and \<^verbatim>\<open>unlink\<close>.\<close>

definition create_file :: "string \<Rightarrow> int \<Rightarrow> (string \<times> fs_entry) list \<Rightarrow> (string \<times> fs_entry) list storage_result" where
  "create_file name now es =
     (if map_of es name \<noteq> None then Inl Entry_exists else Inr (AList.update name (File [] now) es))"

definition fill_file :: "string \<Rightarrow> nat list \<Rightarrow> int \<Rightarrow> (string \<times> fs_entry) list \<Rightarrow> (string \<times> fs_entry) list storage_result" where
  "fill_file name bytes now es = Inr (AList.update name (File bytes now) es)"

definition rename_file :: "string \<Rightarrow> string \<Rightarrow> (string \<times> fs_entry) list \<Rightarrow> (string \<times> fs_entry) list storage_result" where
  "rename_file source name es = (case map_of es source of
      None \<Rightarrow> Inl No_entry
    | Some e \<Rightarrow> (case map_of es name of
        Some (Directory _) \<Rightarrow> Inl Is_directory
      | _ \<Rightarrow> Inr (AList.update name e (AList.delete source es))))"

definition unlink_file :: "string \<Rightarrow> (string \<times> fs_entry) list \<Rightarrow> (string \<times> fs_entry) list storage_result" where
  "unlink_file name es = (if map_of es name = None then Inl No_entry else Inr (AList.delete name es))"

section \<open>Looking at files\<close>

fun assertNoSymlinks :: "string list \<Rightarrow> fs_entry \<Rightarrow> unit storage_result" where
  "assertNoSymlinks [] e = Inr ()"
| "assertNoSymlinks (s # ss) (Directory es) = (case map_of es s of
      None \<Rightarrow> Inr ()
    | Some Symlink \<Rightarrow> Inl Storage_symlink_error
    | Some e \<Rightarrow> assertNoSymlinks ss e)"
| "assertNoSymlinks (s # ss) _ = Inl Not_directory"

definition storedObjectStat :: "nat list \<Rightarrow> int \<Rightarrow> stored_object_stat" where
  "storedObjectStat bytes mtime = \<lparr>st_byteSize = int (length bytes), st_modifiedAt = mtime\<rparr>"

definition regularFileStat :: "string list \<Rightarrow> fs_entry \<Rightarrow> stored_object_stat option storage_result" where
  "regularFileStat target tree = rbind (assertNoSymlinks target tree) (\<lambda>_.
     case lstat target tree of
       Inl e \<Rightarrow> if e = No_entry then Inr None else Inl e
     | Inr Symlink \<Rightarrow> Inl Storage_symlink_error
     | Inr (Directory _) \<Rightarrow> Inr None
     | Inr (File bytes mtime) \<Rightarrow> Inr (Some (storedObjectStat bytes mtime)))"

text \<open>What a stream over the file delivers.\<close>

definition file_bytes :: "string list \<Rightarrow> fs_entry \<Rightarrow> nat list" where
  "file_bytes target tree = (case lstat target tree of Inr (File bytes _) \<Rightarrow> bytes | _ \<Rightarrow> [])"

definition byte_slice :: "int \<Rightarrow> int \<Rightarrow> nat list \<Rightarrow> nat list" where
  "byte_slice start endInclusive bytes = take (nat (endInclusive - start + 1)) (drop (nat start) bytes)"

definition local_stat :: "string \<Rightarrow> fs_entry \<Rightarrow> stored_object_stat option storage_result" where
  "local_stat key tree = rbind (targetFor [] key) (\<lambda>target. regularFileStat target tree)"

definition local_read :: "string \<Rightarrow> fs_entry \<Rightarrow> nat list storage_result" where
  "local_read key tree = rbind (targetFor [] key) (\<lambda>target. rbind (regularFileStat target tree) (\<lambda>object.
     case object of None \<Rightarrow> Inl No_entry | Some _ \<Rightarrow> Inr (file_bytes target tree)))"

definition local_readRange :: "string \<Rightarrow> int \<Rightarrow> int \<Rightarrow> fs_entry \<Rightarrow> nat list storage_result" where
  "local_readRange key start endInclusive tree =
     (if \<not> safe_integer start \<or> \<not> safe_integer endInclusive \<or> start < 0 \<or> endInclusive < start
      then Inl Storage_range_error
      else rbind (targetFor [] key) (\<lambda>target. rbind (regularFileStat target tree) (\<lambda>object.
        case object of
          None \<Rightarrow> Inl No_entry
        | Some s \<Rightarrow>
            if start \<ge> st_byteSize s \<or> endInclusive \<ge> st_byteSize s then Inl Storage_range_error
            else Inr (byte_slice start endInclusive (file_bytes target tree)))))"

text \<open>A verified read keeps a copy of the file in a scratch directory of its own.\<close>

record prepared_read =
  pr_stat :: stored_object_stat
  pr_snapshot :: "nat list"

definition local_prepareVerifiedRead ::
  "(nat list \<Rightarrow> string) \<Rightarrow> string \<Rightarrow> int \<Rightarrow> string \<Rightarrow> fs_entry \<Rightarrow> prepared_read option storage_result" where
  "local_prepareVerifiedRead sha256 key byteSize checksumSha256 tree =
     rbind (targetFor [] key) (\<lambda>target. rbind (regularFileStat target tree) (\<lambda>object.
       case object of
         None \<Rightarrow> Inr None
       | Some s \<Rightarrow>
           if st_byteSize s \<noteq> byteSize then Inr None
           else (let bytes = file_bytes target tree
             in if int (length bytes) \<noteq> byteSize \<or> sha256 bytes \<noteq> checksumSha256 then Inr None
                else Inr (Some \<lparr>pr_stat = s, pr_snapshot = bytes\<rparr>))))"

definition prepared_bytes :: "prepared_read \<Rightarrow> (int \<times> int) option \<Rightarrow> nat list storage_result" where
  "prepared_bytes p requested = (case requested of
      None \<Rightarrow> Inr (pr_snapshot p)
    | Some (start, endInclusive) \<Rightarrow>
        if \<not> safe_integer start \<or> \<not> safe_integer endInclusive \<or> start < 0 \<or> endInclusive < start
           \<or> endInclusive \<ge> st_byteSize (pr_stat p)
        then Inl Storage_range_error
        else Inr (byte_slice start endInclusive (pr_snapshot p)))"

section \<open>Writing\<close>

text \<open>
  The calls of a write, each of which the operating system may refuse for a reason of its own. A call
  that fails leaves the tree alone, but for the directories a recursive \<^verbatim>\<open>mkdir\<close> made and the bytes
  a stream had written by then.
\<close>

datatype fs_call =
    Check_parent | Make_directory | Check_target | Open_partial | Stream_partial | Sync_partial
  | Close_partial | Check_again | Rename_partial | Stat_result | Unlink_partial

record write_faults =
  wf_fails :: "fs_call \<Rightarrow> bool"
  wf_levels :: nat
  wf_bytes :: nat

definition guarded :: "write_faults \<Rightarrow> fs_call \<Rightarrow> 'a storage_result \<Rightarrow> 'a storage_result" where
  "guarded w call r = (if wf_fails w call then Inl Call_failed else r)"

definition made_directories :: "write_faults \<Rightarrow> string list \<Rightarrow> fs_entry \<Rightarrow> fs_entry" where
  "made_directories w path tree = (case mkdir_path (take (wf_levels w) path) tree of Inl _ \<Rightarrow> tree | Inr tree' \<Rightarrow> tree')"

definition prepareDestination :: "write_faults \<Rightarrow> string list \<Rightarrow> fs_entry \<Rightarrow> unit storage_result \<times> fs_entry" where
  "prepareDestination w target tree =
     (case guarded w Check_parent (assertNoSymlinks (butlast target) tree) of
       Inl e \<Rightarrow> (Inl e, tree)
     | Inr _ \<Rightarrow>
         if wf_fails w Make_directory then (Inl Call_failed, made_directories w (butlast target) tree)
         else (case mkdir_path (butlast target) tree of
             Inl e \<Rightarrow> (Inl e, tree)
           | Inr tree' \<Rightarrow> (guarded w Check_target (assertNoSymlinks target tree'), tree')))"

text \<open>The pipeline through the limiter: the bytes that reached the file, and how it ended.\<close>

fun pipe_limited :: "int \<Rightarrow> int \<Rightarrow> nat list list \<Rightarrow> bool \<Rightarrow> nat list \<times> unit storage_result" where
  "pipe_limited maxBytes n [] ends = ([], if ends then Inr () else Inl Body_error)"
| "pipe_limited maxBytes n (chunk # chunks) ends =
     (let n' = n + int (length chunk)
      in if n' > maxBytes then ([], Inl Storage_limit_error)
         else (let (bytes, r) = pipe_limited maxBytes n' chunks ends in (chunk @ bytes, r)))"

definition stream_partial :: "write_faults \<Rightarrow> nat list \<times> unit storage_result \<Rightarrow> nat list \<times> unit storage_result" where
  "stream_partial w p = (if wf_fails w Stream_partial then (take (wf_bytes w) (fst p), Inl Call_failed) else p)"

definition partial_name :: "string \<Rightarrow> string \<Rightarrow> string" where
  "partial_name name uuid = ''.'' @ name @ ''.partial-'' @ uuid"

text \<open>The \<^verbatim>\<open>catch\<close> of \<^verbatim>\<open>write\<close> and \<^verbatim>\<open>copy\<close>: the partial file is removed where there is one.\<close>

definition abandon ::
  "write_faults \<Rightarrow> string list \<Rightarrow> string \<Rightarrow> storage_error \<Rightarrow> fs_entry \<Rightarrow> 'a storage_result \<times> fs_entry" where
  "abandon w parent partial cause tree =
     (case guarded w Unlink_partial (in_directory parent (unlink_file partial) tree) of
        Inr tree' \<Rightarrow> (Inl cause, tree')
      | Inl e \<Rightarrow> (if e = No_entry then Inl cause else Inl e, tree))"

text \<open>The end of \<^verbatim>\<open>write\<close> and \<^verbatim>\<open>copy\<close>: the finished partial file takes the place of the target.\<close>

definition publish_partial ::
  "write_faults \<Rightarrow> string list \<Rightarrow> string \<Rightarrow> fs_entry \<Rightarrow> stored_object_stat storage_result \<times> fs_entry" where
  "publish_partial w target partial tree =
     (case guarded w Check_again (assertNoSymlinks target tree) of
       Inl e \<Rightarrow> abandon w (butlast target) partial e tree
     | Inr _ \<Rightarrow> (case guarded w Rename_partial (in_directory (butlast target) (rename_file partial (last target)) tree) of
         Inl e \<Rightarrow> abandon w (butlast target) partial e tree
       | Inr tree' \<Rightarrow> (case guarded w Stat_result (regularFileStat target tree') of
           Inl e \<Rightarrow> abandon w (butlast target) partial e tree'
         | Inr None \<Rightarrow> abandon w (butlast target) partial Not_regular tree'
         | Inr (Some s) \<Rightarrow> (Inr s, tree'))))"

definition write_options_ok :: "int \<Rightarrow> int option \<Rightarrow> bool" where
  "write_options_ok maxBytes expectedBytes \<longleftrightarrow> safe_integer maxBytes \<and> 0 \<le> maxBytes \<and>
     (case expectedBytes of None \<Rightarrow> True | Some n \<Rightarrow> safe_integer n \<and> 0 \<le> n \<and> n \<le> maxBytes)"

definition local_write ::
  "write_faults \<Rightarrow> string \<Rightarrow> int \<Rightarrow> string \<Rightarrow> nat list list \<Rightarrow> bool \<Rightarrow> int \<Rightarrow> int option \<Rightarrow> fs_entry \<Rightarrow>
    stored_object_stat storage_result \<times> fs_entry" where
  "local_write w uuid now key chunks ends maxBytes expectedBytes tree =
     (if \<not> write_options_ok maxBytes expectedBytes then (Inl Storage_limit_error, tree)
      else (case targetFor [] key of
        Inl e \<Rightarrow> (Inl e, tree)
      | Inr target \<Rightarrow> (case prepareDestination w target tree of
          (Inl e, tree1) \<Rightarrow> (Inl e, tree1)
        | (Inr _, tree1) \<Rightarrow>
            (let parent = butlast target; partial = partial_name (last target) uuid
             in case guarded w Open_partial (in_directory parent (create_file partial now) tree1) of
                  Inl e \<Rightarrow> abandon w parent partial e tree1
                | Inr tree2 \<Rightarrow> (case stream_partial w (pipe_limited maxBytes 0 chunks ends) of (bytes, r) \<Rightarrow>
                    (case in_directory parent (fill_file partial bytes now) tree2 of
                      Inl e \<Rightarrow> abandon w parent partial e tree2
                    | Inr tree3 \<Rightarrow> (case r of
                        Inl e \<Rightarrow> abandon w parent partial e tree3
                      | Inr _ \<Rightarrow>
                          if expectedBytes \<noteq> None \<and> expectedBytes \<noteq> Some (int (length bytes))
                          then abandon w parent partial Storage_integrity_error tree3
                          else if wf_fails w Sync_partial \<or> wf_fails w Close_partial
                          then abandon w parent partial Call_failed tree3
                          else publish_partial w target partial tree3)))))))"

text \<open>\<^verbatim>\<open>copyFile\<close> creates and fills the partial file, which is then opened, synced and closed.\<close>

definition local_copy ::
  "write_faults \<Rightarrow> string \<Rightarrow> int \<Rightarrow> string \<Rightarrow> string \<Rightarrow> fs_entry \<Rightarrow> stored_object_stat storage_result \<times> fs_entry" where
  "local_copy w uuid now source destination tree =
     (case rbind (targetFor [] source) (\<lambda>s. rbind (targetFor [] destination) (\<lambda>d.
         rbind (regularFileStat s tree) (\<lambda>object. Inr (s, d, object)))) of
       Inl e \<Rightarrow> (Inl e, tree)
     | Inr (s, d, None) \<Rightarrow> (Inl No_entry, tree)
     | Inr (s, d, Some _) \<Rightarrow> (case prepareDestination w d tree of
         (Inl e, tree1) \<Rightarrow> (Inl e, tree1)
       | (Inr _, tree1) \<Rightarrow>
           (let parent = butlast d; partial = partial_name (last d) uuid
            in case in_directory parent (create_file partial now) tree1 of
                 Inl e \<Rightarrow> abandon w parent partial e tree1
               | Inr tree2 \<Rightarrow> (case stream_partial w (file_bytes s tree1, Inr ()) of (bytes, r) \<Rightarrow>
                   (case in_directory parent (fill_file partial bytes now) tree2 of
                     Inl e \<Rightarrow> abandon w parent partial e tree2
                   | Inr tree3 \<Rightarrow> (case r of
                       Inl e \<Rightarrow> abandon w parent partial e tree3
                     | Inr _ \<Rightarrow>
                         if wf_fails w Open_partial \<or> wf_fails w Sync_partial \<or> wf_fails w Close_partial
                         then abandon w parent partial Call_failed tree3
                         else publish_partial w d partial tree3))))))"

definition local_delete :: "string \<Rightarrow> fs_entry \<Rightarrow> unit storage_result \<times> fs_entry" where
  "local_delete key tree =
     (case rbind (targetFor [] key) (\<lambda>target. rbind (assertNoSymlinks target tree) (\<lambda>_. Inr target)) of
       Inl e \<Rightarrow> (Inl e, tree)
     | Inr target \<Rightarrow> (case lstat target tree of
         Inl e \<Rightarrow> (if e = No_entry then Inr () else Inl e, tree)
       | Inr Symlink \<Rightarrow> (Inl Storage_symlink_error, tree)
       | Inr (Directory _) \<Rightarrow> (Inr (), tree)
       | Inr (File _ _) \<Rightarrow> (case in_directory (butlast target) (unlink_file (last target)) tree of
           Inl e \<Rightarrow> (if e = No_entry then Inr () else Inl e, tree)
         | Inr tree' \<Rightarrow> (Inr (), tree'))))"

section \<open>Listing\<close>

definition entry_order :: "string \<times> fs_entry \<Rightarrow> string \<times> fs_entry \<Rightarrow> int" where
  "entry_order l r = compare_text (fst l) (fst r)"

text \<open>\<^verbatim>\<open>collectFile\<close>: the file at a path, unless the cursor is past it.\<close>

definition collectFile ::
  "string option \<Rightarrow> string list \<Rightarrow> nat list \<Rightarrow> int \<Rightarrow> listed_object list \<Rightarrow> listed_object list storage_result" where
  "collectFile cursorKey path bytes mtime objects =
     rbind (parseStorageKey (join_char (CHR ''/'') path)) (\<lambda>key.
       if (case cursorKey of None \<Rightarrow> False | Some c \<Rightarrow> key \<le> c) then Inr objects
       else Inr (objects @ [\<lparr>lo_key = key, lo_byteSize = int (length bytes), lo_modifiedAt = mtime\<rparr>]))"

lemma size_list_js_sort: "size_list f (js_sort cmp xs) = size_list f xs"
proof -
  have "size_list f ys = sum_list (map (\<lambda>x. f x + 1) ys)" for ys by (induction ys) auto
  then show ?thesis by simp
qed

text \<open>
  \<^verbatim>\<open>walk\<close> of a directory, and its loop over the sorted entries, which stops once it has more than
  \<^verbatim>\<open>limit\<close> objects.
\<close>

function (sequential) walk :: "int \<Rightarrow> string option \<Rightarrow> string list \<Rightarrow> (string \<times> fs_entry) list \<Rightarrow>
    listed_object list \<Rightarrow> listed_object list storage_result"
  and walk_entries :: "int \<Rightarrow> string option \<Rightarrow> string list \<Rightarrow> (string \<times> fs_entry) list \<Rightarrow>
    listed_object list \<Rightarrow> listed_object list storage_result" where
  "walk limit cursorKey path es objects = walk_entries limit cursorKey path (js_sort entry_order es) objects"
| "walk_entries limit cursorKey path [] objects = Inr objects"
| "walk_entries limit cursorKey path ((name, e) # rest) objects =
     (if int (length objects) > limit then Inr objects
      else rbind (case e of
          Symlink \<Rightarrow> Inl Storage_symlink_error
        | Directory es \<Rightarrow> walk limit cursorKey (path @ [name]) es objects
        | File bytes mtime \<Rightarrow> collectFile cursorKey (path @ [name]) bytes mtime objects)
        (walk_entries limit cursorKey path rest))"
  by pat_completeness auto
termination
  by (relation "measure (\<lambda>x. case x of
      Inl (_, _, _, es, _) \<Rightarrow> 2 * size_list (size_prod (\<lambda>_. 0) size) es + 1
    | Inr (_, _, _, es, _) \<Rightarrow> 2 * size_list (size_prod (\<lambda>_. 0) size) es)")
    (auto simp: size_list_js_sort)

definition maximumListPageSize :: int where
  "maximumListPageSize = 1000"

text \<open>
  \<^verbatim>\<open>listPrefix\<close>. A cursor is the key it encodes; its writing as base64url is left out.
\<close>

definition cursor_under :: "string \<Rightarrow> string \<Rightarrow> bool" where
  "cursor_under prefix key \<longleftrightarrow> key = prefix \<or> take (length prefix + 1) key = prefix @ ''/''"

definition decode_local_cursor :: "string \<Rightarrow> string option \<Rightarrow> string option storage_result" where
  "decode_local_cursor prefix cursor = (case cursor of
      None \<Rightarrow> Inr None
    | Some c \<Rightarrow> (case parseStorageKey c of
        Inl _ \<Rightarrow> Inl Storage_range_error
      | Inr key \<Rightarrow> if cursor_under prefix key then Inr (Some key) else Inl Storage_range_error))"

definition local_listPrefix ::
  "string \<Rightarrow> int \<Rightarrow> string option \<Rightarrow> fs_entry \<Rightarrow> (listed_object list \<times> string option) storage_result" where
  "local_listPrefix prefix limit cursor tree =
     (if \<not> safe_integer limit \<or> limit < 1 \<or> limit > maximumListPageSize then Inl List_limit_error
      else rbind (parseStorageKey prefix) (\<lambda>validatedPrefix.
        rbind (decode_local_cursor validatedPrefix cursor) (\<lambda>cursorKey.
        rbind (targetFor [] validatedPrefix) (\<lambda>target.
        rbind (assertNoSymlinks target tree) (\<lambda>_.
        rbind (case lstat target tree of
            Inl e \<Rightarrow> if e = No_entry then Inr [] else Inl e
          | Inr Symlink \<Rightarrow> Inl Storage_symlink_error
          | Inr (File bytes mtime) \<Rightarrow> collectFile cursorKey target bytes mtime []
          | Inr (Directory es) \<Rightarrow> walk limit cursorKey target es [])
        (\<lambda>objects.
          let pageObjects = take (nat limit) objects
          in Inr (pageObjects,
               if int (length objects) > limit \<and> pageObjects \<noteq> [] then Some (lo_key (last pageObjects)) else None)))))))"

end
