(* ===== verification/LocalWrites.thy ===== *)
theory LocalWrites
  imports LocalStore
begin

text \<open>
  Writing, copying and deleting one file: what each does to every file under the root, whether it
  succeeds or fails at any point.
\<close>

section \<open>Files of a tree\<close>

definition file_at :: "string list \<Rightarrow> fs_entry \<Rightarrow> (nat list \<times> int) option" where
  "file_at path tree = (case lstat path tree of Inr (File bytes mtime) \<Rightarrow> Some (bytes, mtime) | _ \<Rightarrow> None)"

lemma file_at_simps [simp, tree_simps]:
  "file_at [] (File b t) = Some (b, t)"
  "file_at [] (Directory es) = None"
  "file_at [] Symlink = None"
  "file_at (s # ss) (File b t) = None"
  "file_at (s # ss) Symlink = None"
  "file_at (s # ss) (Directory es) = (case map_of es s of None \<Rightarrow> None | Some e \<Rightarrow> file_at ss e)"
  by (auto simp: file_at_def split: option.splits)

lemma lstat_append: "lstat (q @ r) e = rbind (lstat q e) (lstat r)"
  by (induction q e rule: lstat.induct) (auto split: option.splits)

lemma file_at_append: "lstat q e = Inr d \<Longrightarrow> file_at (q @ r) e = file_at r d"
  by (simp add: file_at_def lstat_append)

lemma file_at_mkdir: "mkdir_path q e = Inr e' \<Longrightarrow> file_at p e' = file_at p e"
proof (induction q e arbitrary: p e' rule: mkdir_path.induct)
  case (3 s ss es)
  then obtain d where d: "mkdir_path ss (case map_of es s of None \<Rightarrow> Directory [] | Some e \<Rightarrow> e) = Inr d"
    "e' = Directory (AList.update s d es)" by (auto simp: rbind_eq_Inr)
  show ?case
  proof (cases p)
    case (Cons n r)
    then show ?thesis
      using d "3.IH" [OF d(1), of r] by (cases r) (auto simp: update_conv' split: option.splits)
  qed (simp add: d)
qed auto

lemma lstat_mkdir: "mkdir_path q e = Inr e' \<Longrightarrow> \<exists>es. lstat q e' = Inr (Directory es)"
  by (induction q e arbitrary: e' rule: mkdir_path.induct) (auto simp: rbind_eq_Inr update_conv')

lemma no_symlinks_lstat:
  "lstat q e = Inr x \<Longrightarrow> x \<noteq> Symlink \<Longrightarrow> assertNoSymlinks q e = Inr ()"
  by (induction q e rule: lstat.induct) (auto split: option.splits fs_entry.splits intro: lstat.elims)

lemma no_symlinks_missing: "lstat q e = Inl No_entry \<Longrightarrow> assertNoSymlinks q e = Inr ()"
  by (induction q e rule: lstat.induct) (auto split: option.splits fs_entry.splits elim: lstat.elims)

lemma lstat_symlink: "assertNoSymlinks q e = Inr () \<Longrightarrow> q \<noteq> [] \<Longrightarrow> lstat q e \<noteq> Inr Symlink"
proof (induction q e rule: lstat.induct)
  case (2 s ss es)
  then show ?case by (cases ss) (auto split: option.splits fs_entry.splits)
qed auto

section \<open>Changes within one directory\<close>

definition directory_changed ::
  "string list \<Rightarrow> (string \<times> fs_entry) list \<Rightarrow> (string \<times> fs_entry) list \<Rightarrow> fs_entry \<Rightarrow> fs_entry \<Rightarrow> bool" where
  "directory_changed q es es' e e' \<longleftrightarrow> lstat q e = Inr (Directory es) \<and> lstat q e' = Inr (Directory es') \<and>
     (\<forall>p. (\<forall>r. p \<noteq> q @ r) \<longrightarrow> file_at p e' = file_at p e)"

lemma directory_unchanged: "lstat q e = Inr (Directory es) \<Longrightarrow> directory_changed q es es e e"
  by (simp add: directory_changed_def)

lemma directory_changed_trans:
  "directory_changed q es es' e e' \<Longrightarrow> directory_changed q es' es'' e' e'' \<Longrightarrow> directory_changed q es es'' e e''"
  by (simp add: directory_changed_def)

lemma in_directory_changed:
  "lstat q e = Inr (Directory es) \<Longrightarrow> f es = Inr es' \<Longrightarrow>
     \<exists>e'. in_directory q f e = Inr e' \<and> directory_changed q es es' e e'"
proof (induction q arbitrary: e)
  case Nil
  then show ?case by (simp add: directory_changed_def)
next
  case (Cons s ss)
  then obtain ds d where e: "e = Directory ds" "map_of ds s = Some d" "lstat ss d = Inr (Directory es)"
    by (cases e) (auto split: option.splits)
  obtain d' where d': "in_directory ss f d = Inr d'" "directory_changed ss es es' d d'"
    using Cons.IH [OF e(3) Cons.prems(2)] by blast
  have "file_at p (Directory (AList.update s d' ds)) = file_at p e" if p: "\<forall>r. p \<noteq> (s # ss) @ r" for p
    using p d'(2) e by (cases p) (auto simp: update_conv' directory_changed_def)
  then show ?case using e d' by (simp add: update_conv' directory_changed_def)
qed

lemma in_directory_fails:
  "lstat q e = Inr (Directory es) \<Longrightarrow> f es = Inl c \<Longrightarrow> in_directory q f e = Inl c"
proof (induction q arbitrary: e)
  case (Cons s ss)
  then show ?case by (cases e) (auto split: option.splits)
qed simp

lemma directory_below:
  "lstat q e = Inr (Directory es) \<Longrightarrow>
     file_at (q @ n # r) e = (case map_of es n of None \<Rightarrow> None | Some d \<Rightarrow> file_at r d)"
  by (simp add: file_at_append)

lemma directory_beside:
  assumes "directory_changed q es es' e e'" and "\<forall>n r. p \<noteq> q @ n # r"
  shows "file_at p e' = file_at p e"
proof (cases "p = q")
  case True
  then show ?thesis using assms(1) by (simp add: directory_changed_def file_at_def)
next
  case False
  then have "p \<noteq> q @ r" for r using assms(2) by (cases r) auto
  then show ?thesis using assms(1) by (simp add: directory_changed_def)
qed

lemma directory_same_files:
  assumes "directory_changed q es es' e e'" and "map_of es' = map_of es"
  shows "file_at p e' = file_at p e"
proof (cases "\<forall>n r. p \<noteq> q @ n # r")
  case False
  then obtain n r where "p = q @ n # r" by blast
  then show ?thesis using assms by (simp add: directory_changed_def directory_below)
qed (rule directory_beside [OF assms(1)])

text \<open>Replacing one entry by a file, where no directory was.\<close>

lemma directory_new_file:
  assumes c: "directory_changed q es es' e e'" and m: "map_of es' = (map_of es)(n \<mapsto> File b t)"
    and d: "\<And>ds. map_of es n \<noteq> Some (Directory ds)"
  shows "file_at p e' = (if p = q @ [n] then Some (b, t) else file_at p e)"
proof (cases "\<forall>n r. p \<noteq> q @ n # r")
  case True
  then show ?thesis using directory_beside [OF c] by auto
next
  case False
  then obtain k r where p: "p = q @ k # r" by blast
  have below: "file_at (q @ k # r) e = (case map_of es k of None \<Rightarrow> None | Some d \<Rightarrow> file_at r d)"
    "file_at (q @ k # r) e' = (case map_of es' k of None \<Rightarrow> None | Some d \<Rightarrow> file_at r d)"
    using c by (simp_all add: directory_changed_def directory_below)
  have "file_at r x = None" if "map_of es n = Some x" "r = a # r'" for x a r'
    using that d by (cases x) auto
  then show ?thesis unfolding p below using m by (cases r) (auto split: option.splits)
qed


section \<open>A write, step by step\<close>

lemma symlink_refused: "lstat p e = Inr Symlink \<Longrightarrow> p \<noteq> [] \<Longrightarrow> assertNoSymlinks p e = Inl Storage_symlink_error"
proof (induction p e rule: lstat.induct)
  case (2 s ss es)
  then show ?case by (cases ss) (auto split: option.splits fs_entry.splits)
qed auto

lemma lstat_child:
  "lstat q e = Inr (Directory es) \<Longrightarrow>
     lstat (q @ [n]) e = (case map_of es n of None \<Rightarrow> Inl No_entry | Some d \<Rightarrow> Inr d)"
  by (simp add: lstat_append split: option.splits)

lemma lstat_before_mkdir:
  "mkdir_path q e = Inr e' \<Longrightarrow> lstat (q @ [n]) e' = Inr x \<Longrightarrow> lstat (q @ [n]) e = Inr x"
proof (induction q e arbitrary: e' rule: mkdir_path.induct)
  case (3 s ss es)
  then show ?case
    by (cases ss) (auto simp: rbind_eq_Inr update_conv' split: option.splits)
qed auto

lemma partial_name_other: "partial_name name uuid \<noteq> name"
proof
  assume "partial_name name uuid = name"
  then have "length (partial_name name uuid) = length name" by simp
  then show False by (simp add: partial_name_def)
qed

lemma file_at_made: "file_at p (made_directories w q e) = file_at p e"
  using file_at_mkdir by (auto simp: made_directories_def split: sum.splits)

lemma prepared_destination:
  assumes "prepareDestination w (q @ [n]) tree = (r, tree')"
  shows "(\<forall>p. file_at p tree' = file_at p tree) \<and>
    (r = Inr () \<longrightarrow> (\<exists>es. lstat q tree' = Inr (Directory es) \<and> map_of es n \<noteq> Some Symlink \<and>
      (\<forall>m x. map_of es m = Some x \<longrightarrow> lstat (q @ [m]) tree = Inr x)))"
proof (cases "\<exists>d. mkdir_path q tree = Inr d \<and> r = guarded w Check_target (assertNoSymlinks (q @ [n]) d) \<and> tree' = d")
  case False
  then have "(\<exists>c. r = Inl c) \<and> (tree' = tree \<or> tree' = made_directories w q tree)"
    using assms by (cases r) (auto simp: prepareDestination_def split: sum.splits if_splits)
  then show ?thesis by (auto simp: file_at_made)
next
  case True
  then obtain d where mk: "mkdir_path q tree = Inr d" and r: "r = guarded w Check_target (assertNoSymlinks (q @ [n]) d)" "tree' = d"
    by blast
  obtain es where es: "lstat q d = Inr (Directory es)" using lstat_mkdir [OF mk] by blast
  have "map_of es n \<noteq> Some Symlink" if "r = Inr ()"
    using lstat_symlink [of "q @ [n]" d] that r lstat_child [OF es, of n] by (auto simp: guarded_def split: if_splits)
  moreover have "lstat (q @ [m]) tree = Inr x" if "map_of es m = Some x" for m x
    using lstat_before_mkdir [OF mk] lstat_child [OF es, of m] that by simp
  ultimately show ?thesis using file_at_mkdir [OF mk] es r by blast
qed

lemma pipe_limited_complete:
  "pipe_limited m n chunks ends = (bytes, Inr ()) \<Longrightarrow> n \<le> m \<Longrightarrow>
     bytes = concat chunks \<and> ends \<and> n + int (length (concat chunks)) \<le> m"
  by (induction m n chunks ends arbitrary: bytes rule: pipe_limited.induct)
    (auto simp: Let_def split: if_splits prod.splits)

lemma pipe_limited_fits:
  "ends \<Longrightarrow> n + int (length (concat chunks)) \<le> m \<Longrightarrow> pipe_limited m n chunks ends = (concat chunks, Inr ())"
  by (induction m n chunks ends rule: pipe_limited.induct) (auto simp: Let_def split: prod.splits)

section \<open>What a write leaves\<close>

text \<open>
  The outcome for every file, for the target \<open>n\<close> in the directory \<open>q\<close> and the body that is stored: the
  other files are as they were, the partial file is left only if its removal was refused, and the
  target is as it was or holds the body.
\<close>

definition outcome ::
  "write_faults \<Rightarrow> string list \<Rightarrow> string \<Rightarrow> string \<Rightarrow> nat list \<times> int \<Rightarrow> fs_entry \<Rightarrow>
    stored_object_stat storage_result \<times> fs_entry \<Rightarrow> bool" where
  "outcome w q n partial body e1 result \<longleftrightarrow> (case result of (r, e') \<Rightarrow>
     (\<forall>p. p \<noteq> q @ [n] \<longrightarrow> p \<noteq> q @ [partial] \<longrightarrow> file_at p e' = file_at p e1) \<and>
     (file_at (q @ [partial]) e' \<noteq> None \<longrightarrow> wf_fails w Unlink_partial \<and> (\<exists>c. r = Inl c)) \<and>
     (case r of
        Inl c \<Rightarrow> file_at (q @ [n]) e' = file_at (q @ [n]) e1 \<or>
          (wf_fails w Stat_result \<and> file_at (q @ [n]) e' = Some body)
      | Inr s \<Rightarrow> s = storedObjectStat (fst body) (snd body) \<and> file_at (q @ [n]) e' = Some body))"

definition nothing_stored ::
  "write_faults \<Rightarrow> string list \<Rightarrow> string \<Rightarrow> string \<Rightarrow> fs_entry \<Rightarrow> 'a storage_result \<times> fs_entry \<Rightarrow> bool" where
  "nothing_stored w q n partial e1 result \<longleftrightarrow> (case result of (r, e') \<Rightarrow> (\<exists>c. r = Inl c) \<and>
     (\<forall>p. p \<noteq> q @ [partial] \<longrightarrow> file_at p e' = file_at p e1) \<and>
     (file_at (q @ [partial]) e' \<noteq> None \<longrightarrow> wf_fails w Unlink_partial))"

lemma nothing_outcome:
  "nothing_stored w q n partial e1 result \<Longrightarrow> partial \<noteq> n \<Longrightarrow> outcome w q n partial body e1 result"
  by (auto simp: nothing_stored_def outcome_def)

text \<open>An abandoned write, from the directory with its partial file on.\<close>

lemma abandoned_files:
  assumes q: "lstat q e1 = Inr (Directory es)" and fresh: "map_of es partial = None"
    and e: "directory_changed q es es' e1 e" and m: "map_of es' = (map_of es)(partial \<mapsto> File b t)"
  shows "nothing_stored w q n partial e1 (abandon w q partial c e)"
proof -
  have q': "lstat q e = Inr (Directory es')" using e by (simp add: directory_changed_def)
  have absent: "file_at (q @ [partial]) e1 = None" using directory_below [OF q, of partial "[]"] fresh by simp
  obtain e2 where e2: "in_directory q (unlink_file partial) e = Inr e2" "directory_changed q es' (AList.delete partial es') e e2"
    using in_directory_changed [OF q', of "unlink_file partial" "AList.delete partial es'"] m by (auto simp: unlink_file_def)
  have "map_of (AList.delete partial es') = map_of es" using m fresh by (auto simp: delete_conv')
  then have gone: "file_at p e2 = file_at p e1" for p
    using directory_same_files [OF directory_changed_trans [OF e e2(2)]] by simp
  have "file_at p e = (if p = q @ [partial] then Some (b, t) else file_at p e1)" for p
    by (rule directory_new_file [OF e m]) (simp add: fresh)
  then show ?thesis using e2(1) gone absent by (simp add: nothing_stored_def abandon_def guarded_def)
qed

text \<open>After the rename there is no partial file to remove.\<close>

lemma abandon_after_rename:
  assumes "lstat q e = Inr (Directory es)" and "map_of es partial = None"
  shows "\<exists>c'. abandon w q partial c e = (Inl c', e)"
  using in_directory_fails [OF assms(1), of "unlink_file partial" No_entry] assms(2)
  by (simp add: abandon_def guarded_def unlink_file_def)

lemma published_files:
  assumes q: "lstat q e1 = Inr (Directory es)" and fresh: "map_of es partial = None" and other: "partial \<noteq> n"
    and e: "directory_changed q es es' e1 e" and m: "map_of es' = (map_of es)(partial \<mapsto> File b t)"
  shows "outcome w q n partial (b, t) e1 (publish_partial w (q @ [n]) partial e) \<and>
    ((\<forall>call. \<not> wf_fails w call) \<and> (\<forall>ds. map_of es n \<noteq> Some (Directory ds)) \<and> map_of es n \<noteq> Some Symlink \<longrightarrow>
      (\<exists>s. fst (publish_partial w (q @ [n]) partial e) = Inr s))"
proof -
  have q': "lstat q e = Inr (Directory es')" using e by (simp add: directory_changed_def)
  have p: "map_of es' partial = Some (File b t)" and n: "map_of es' n = map_of es n" using m other by auto
  have gone: "outcome w q n partial (b, t) e1 (abandon w q partial c e)" for c
    by (rule nothing_outcome [OF abandoned_files [OF q fresh e m] other])
  note child = lstat_child [OF q', of n]
  show ?thesis
  proof (cases "guarded w Check_again (assertNoSymlinks (q @ [n]) e) = Inr () \<and> \<not> wf_fails w Rename_partial \<and>
      (\<forall>ds. map_of es n \<noteq> Some (Directory ds))")
    case False
    have refused: "in_directory q (rename_file partial n) e = Inl Is_directory" if "map_of es n = Some (Directory ds)" for ds
      using that p n by (intro in_directory_fails [OF q']) (simp add: rename_file_def)
    have "\<exists>c. publish_partial w (q @ [n]) partial e = abandon w q partial c e"
      using False refused by (auto simp: publish_partial_def guarded_def split: sum.splits if_splits)
    moreover have "assertNoSymlinks (q @ [n]) e = Inr ()"
      if "map_of es n \<noteq> Some Symlink" "\<forall>ds. map_of es n \<noteq> Some (Directory ds)"
      using that n child no_symlinks_missing [of "q @ [n]" e] no_symlinks_lstat [of "q @ [n]" e]
      by (cases "map_of es n") auto
    ultimately show ?thesis using gone False by (auto simp: guarded_def)
  next
    case True
    let ?es = "AList.update n (File b t) (AList.delete partial es')"
    have "rename_file partial n es' = Inr ?es"
      using True p n by (auto simp: rename_file_def split: option.splits fs_entry.splits)
    from in_directory_changed [of q e es' "rename_file partial n", OF q' this] obtain e' where
      e': "in_directory q (rename_file partial n) e = Inr e'" "directory_changed q es' ?es e e'" by blast
    then have q2: "lstat q e' = Inr (Directory ?es)" by (simp add: directory_changed_def)
    from lstat_child [OF q2, of n] have "lstat (q @ [n]) e' = Inr (File b t)" by (simp add: update_conv')
    then have stat: "regularFileStat (q @ [n]) e' = Inr (Some (storedObjectStat b t))"
      by (simp add: regularFileStat_def no_symlinks_lstat)
    have m2: "map_of ?es = (map_of es)(n \<mapsto> File b t)" using m fresh other by (auto simp: update_conv' delete_conv')
    have files: "file_at x e' = (if x = q @ [n] then Some (b, t) else file_at x e1)" for x
      by (rule directory_new_file [OF directory_changed_trans [OF e e'(2)] m2]) (use True in blast)
    have absent: "file_at (q @ [partial]) e1 = None" using directory_below [OF q, of partial "[]"] fresh by simp
    have kept: "\<exists>c'. abandon w q partial c e' = (Inl c' :: stored_object_stat storage_result, e')" for c
      by (rule abandon_after_rename [OF q2]) (use m2 fresh other in simp)
    have "publish_partial w (q @ [n]) partial e =
        (if wf_fails w Stat_result then abandon w q partial Call_failed e' else (Inr (storedObjectStat b t), e'))"
      using True e'(1) stat by (auto simp: publish_partial_def guarded_def split: if_splits)
    then show ?thesis using kept [of Call_failed] files absent other by (auto simp: outcome_def)
  qed
qed

lemma write_after_prepare:
  assumes q: "lstat q e1 = Inr (Directory es)" and fresh: "map_of es partial = None" and other: "partial \<noteq> n"
    and run: "(case guarded w Open_partial (in_directory q (create_file partial now) e1) of
        Inl e \<Rightarrow> abandon w q partial e e1
      | Inr tree2 \<Rightarrow> (case stream_partial w pipe of (bytes, r) \<Rightarrow>
          (case in_directory q (fill_file partial bytes now) tree2 of
            Inl e \<Rightarrow> abandon w q partial e tree2
          | Inr tree3 \<Rightarrow> (case r of
              Inl e \<Rightarrow> abandon w q partial e tree3
            | Inr _ \<Rightarrow> if wrong bytes then abandon w q partial Storage_integrity_error tree3
                else if wf_fails w Sync_partial \<or> wf_fails w Close_partial then abandon w q partial Call_failed tree3
                else publish_partial w (q @ [n]) partial tree3)))) = result"
  shows "if snd pipe = Inr () \<and> \<not> wrong (fst pipe)
    then outcome w q n partial (fst pipe, now) e1 result \<and>
      ((\<forall>call. \<not> wf_fails w call) \<and> (\<forall>ds. map_of es n \<noteq> Some (Directory ds)) \<and> map_of es n \<noteq> Some Symlink \<longrightarrow>
        (\<exists>s. fst result = Inr s))
    else nothing_stored w q n partial e1 result"
proof (cases "wf_fails w Open_partial")
  case True
  have absent: "file_at (q @ [partial]) e1 = None" using directory_below [OF q, of partial "[]"] fresh by simp
  have "result = abandon w q partial Call_failed e1" using run True by (simp add: guarded_def)
  then have "nothing_stored w q n partial e1 result"
    using abandon_after_rename [OF q fresh, of w Call_failed, where 'a = stored_object_stat] absent by (auto simp: nothing_stored_def)
  then show ?thesis using True nothing_outcome [OF _ other] by auto
next
  case False
  obtain bytes r where pipe: "stream_partial w pipe = (bytes, r)" by fastforce
  let ?es2 = "AList.update partial (File [] now) es" and ?es3 = "AList.update partial (File bytes now) (AList.update partial (File [] now) es)"
  have create: "create_file partial now es = Inr ?es2" using fresh by (simp add: create_file_def)
  obtain e2 where e2: "in_directory q (create_file partial now) e1 = Inr e2" "directory_changed q es ?es2 e1 e2"
    using in_directory_changed [of q e1 es "create_file partial now", OF q create] by blast
  have q2: "lstat q e2 = Inr (Directory ?es2)" using e2(2) by (simp add: directory_changed_def)
  have fill: "fill_file partial bytes now ?es2 = Inr ?es3" by (simp add: fill_file_def)
  obtain e3 where e3: "in_directory q (fill_file partial bytes now) e2 = Inr e3" "directory_changed q ?es2 ?es3 e2 e3"
    using in_directory_changed [of q e2 ?es2 "fill_file partial bytes now", OF q2 fill] by blast
  note changed = directory_changed_trans [OF e2(2) e3(2)]
  have m: "map_of ?es3 = (map_of es)(partial \<mapsto> File bytes now)" by (simp add: update_conv')
  have gone: "nothing_stored w q n partial e1 (abandon w q partial c e3 :: stored_object_stat storage_result \<times> fs_entry)" for c
    by (rule abandoned_files [OF q fresh changed m])
  note finished = published_files [OF q fresh other changed m, of w]
  have run3: "result = (case r of
      Inl e \<Rightarrow> abandon w q partial e e3
    | Inr _ \<Rightarrow> if wrong bytes then abandon w q partial Storage_integrity_error e3
        else if wf_fails w Sync_partial \<or> wf_fails w Close_partial then abandon w q partial Call_failed e3
        else publish_partial w (q @ [n]) partial e3)"
    using run False by (simp add: guarded_def pipe e2(1) e3(1))
  show ?thesis
  proof (cases "wf_fails w Stream_partial \<or> snd pipe \<noteq> Inr () \<or> wrong (fst pipe) \<or> wf_fails w Sync_partial \<or> wf_fails w Close_partial")
    case True
    then have "nothing_stored w q n partial e1 result"
      using run3 gone pipe by (auto simp: stream_partial_def split: if_splits sum.splits)
    then show ?thesis using True nothing_outcome [OF _ other] by auto
  next
    case False
    then have "result = publish_partial w (q @ [n]) partial e3" "bytes = fst pipe"
      using run3 pipe by (auto simp: stream_partial_def split: if_splits sum.splits)
    then show ?thesis using False finished by auto
  qed
qed

section \<open>All or nothing\<close>

lemma targetFor_segments: "targetFor [] key = Inr target \<Longrightarrow> target = segments key \<and> target \<noteq> []"
  by (auto simp: targetFor_eq segments_def split: sum.splits)

definition partial_path :: "string \<Rightarrow> string \<Rightarrow> string list" where
  "partial_path key uuid = butlast (segments key) @ [partial_name (last (segments key)) uuid]"

text \<open>
  C31. A write never leaves a part of its body in the file. Whatever happens on the way - refused options
  or key, a link on the path, a body that is too long, fails or has another length than promised, a
  directory in the way, or any call of the operating system that fails - the file afterwards is as it
  was, or holds exactly the bytes of a body that ended, within the limit and of the promised length.
  A success means the latter; an error means the former, unless it was looking at the file that failed,
  after the rename. No other file changes, and a partial file stays behind only when its removal was
  refused, which is reported as an error. A body that fits, for a destination that is neither a link
  nor a directory, is written when no call fails.
\<close>

theorem write_all_or_nothing:
  assumes run: "local_write w uuid now key chunks ends maxBytes expectedBytes tree = (r, tree')"
    and unused: "\<forall>x. lstat (partial_path key uuid) tree \<noteq> Inr x"
  shows "(\<forall>path. path \<noteq> segments key \<and> path \<noteq> partial_path key uuid \<longrightarrow> file_at path tree' = file_at path tree) \<and>
    (file_at (partial_path key uuid) tree' = None \<or> (wf_fails w Unlink_partial \<and> (\<exists>e. r = Inl e))) \<and>
    (case r of
       Inl e \<Rightarrow> file_at (segments key) tree' = file_at (segments key) tree \<or>
         (wf_fails w Stat_result \<and> file_at (segments key) tree' = Some (concat chunks, now) \<and>
          ends \<and> int (length (concat chunks)) \<le> maxBytes \<and>
          (expectedBytes = None \<or> expectedBytes = Some (int (length (concat chunks)))))
     | Inr s \<Rightarrow> file_at (segments key) tree' = Some (concat chunks, now) \<and>
         s = storedObjectStat (concat chunks) now \<and> ends \<and> int (length (concat chunks)) \<le> maxBytes \<and>
         (expectedBytes = None \<or> expectedBytes = Some (int (length (concat chunks))))) \<and>
    ((\<forall>call. \<not> wf_fails w call) \<and> write_options_ok maxBytes expectedBytes \<and> targetFor [] key = Inr (segments key) \<and>
       fst (prepareDestination w (segments key) tree) = Inr () \<and>
       (\<forall>ds. lstat (segments key) (snd (prepareDestination w (segments key) tree)) \<noteq> Inr (Directory ds)) \<and>
       ends \<and> int (length (concat chunks)) \<le> maxBytes \<and>
       (expectedBytes = None \<or> expectedBytes = Some (int (length (concat chunks))))
       \<longrightarrow> (\<exists>s. r = Inr s))"
proof -
  define q where "q = butlast (segments key)"
  define n where "n = last (segments key)"
  define partial where "partial = partial_name n uuid"
  have "segments key \<noteq> []" by (simp add: segments_def)
  then have key: "segments key = q @ [n]" by (simp add: q_def n_def)
  have path: "partial_path key uuid = q @ [partial]" by (simp add: partial_path_def q_def n_def partial_def)
  have other: "partial \<noteq> n" by (simp add: partial_def partial_name_other)
  have absent: "file_at (q @ [partial]) tree = None"
    using unused path by (auto simp: file_at_def split: sum.splits fs_entry.splits)
  show ?thesis
  proof (cases "write_options_ok maxBytes expectedBytes \<and> targetFor [] key = Inr (segments key)")
    case False
    then have "(\<exists>e. r = Inl e) \<and> tree' = tree"
      using run targetFor_segments [of key] by (auto simp: local_write_def split: sum.splits if_splits)
    then show ?thesis using False absent path by auto
  next
    case True
    obtain p e1 where p: "prepareDestination w (q @ [n]) tree = (p, e1)" by fastforce
    note prep = prepared_destination [OF p]
    have same: "file_at x e1 = file_at x tree" for x using prep by simp
    show ?thesis
    proof (cases p)
      case (Inl c)
      then have "r = Inl c \<and> tree' = e1" using run True p by (simp add: local_write_def key)
      then show ?thesis using same Inl p absent path by (simp add: key)
    next
      case (Inr u)
      obtain es where es: "lstat q e1 = Inr (Directory es)" "map_of es n \<noteq> Some Symlink"
        "\<And>m x. map_of es m = Some x \<Longrightarrow> lstat (q @ [m]) tree = Inr x" using prep Inr by auto
      have options_ok: "write_options_ok maxBytes expectedBytes" and target_ok: "targetFor [] key = Inr (q @ [n])"
        using True key by auto
      have fresh: "map_of es partial = None"
        using unused es(3) unfolding path by (metis not_None_eq)
      let ?pipe = "pipe_limited maxBytes 0 chunks ends"
      let ?wrong = "\<lambda>bytes. expectedBytes \<noteq> None \<and> expectedBytes \<noteq> Some (int (length bytes))"
      have step: "if snd ?pipe = Inr () \<and> \<not> ?wrong (fst ?pipe)
        then outcome w q n partial (fst ?pipe, now) e1 (r, tree') \<and>
          ((\<forall>call. \<not> wf_fails w call) \<and> (\<forall>ds. map_of es n \<noteq> Some (Directory ds)) \<and> map_of es n \<noteq> Some Symlink \<longrightarrow>
            (\<exists>s. fst (r, tree') = Inr s))
        else nothing_stored w q n partial e1 (r, tree')"
        by (rule write_after_prepare [where wrong = ?wrong and pipe = ?pipe and now = now, OF es(1) fresh other])
          (use run in \<open>simp add: local_write_def key target_ok options_ok p Inr Let_def flip: partial_def\<close>)
      have max: "0 \<le> maxBytes" using True by (simp add: write_options_ok_def)
      have complete: "fst ?pipe = concat chunks \<and> ends \<and> int (length (concat chunks)) \<le> maxBytes"
        if "snd ?pipe = Inr ()"
        using pipe_limited_complete [of maxBytes 0 chunks ends "fst ?pipe"] that max by (cases ?pipe) auto
      have child: "lstat (q @ [n]) e1 = (case map_of es n of None \<Rightarrow> Inl No_entry | Some d \<Rightarrow> Inr d)"
        by (rule lstat_child [OF es(1)])
      show ?thesis
      proof (cases "snd ?pipe = Inr () \<and> \<not> ?wrong (fst ?pipe)")
        case fine: True
        then have body: "fst ?pipe = concat chunks" "ends" "int (length (concat chunks)) \<le> maxBytes"
          using complete by auto
        have out: "outcome w q n partial (concat chunks, now) e1 (r, tree')" using step fine body(1) by simp
        have "(\<forall>call. \<not> wf_fails w call) \<and> (\<forall>ds. lstat (q @ [n]) e1 \<noteq> Inr (Directory ds)) \<longrightarrow> (\<exists>s. r = Inr s)"
          using step fine es(2) child by auto
        moreover have "expectedBytes = None \<or> expectedBytes = Some (int (length (concat chunks)))"
          using fine body(1) by auto
        moreover have "(\<forall>x. x \<noteq> q @ [n] \<and> x \<noteq> q @ [partial] \<longrightarrow> file_at x tree' = file_at x tree) \<and>
            (file_at (q @ [partial]) tree' = None \<or> wf_fails w Unlink_partial \<and> (\<exists>e. r = Inl e))"
          using out unfolding outcome_def same by auto
        moreover have "case r of
            Inl c \<Rightarrow> file_at (q @ [n]) tree' = file_at (q @ [n]) tree \<or>
              (wf_fails w Stat_result \<and> file_at (q @ [n]) tree' = Some (concat chunks, now))
          | Inr s \<Rightarrow> s = storedObjectStat (concat chunks) now \<and> file_at (q @ [n]) tree' = Some (concat chunks, now)"
          using out unfolding outcome_def same by (simp split: sum.splits)
        ultimately show ?thesis
          using body(2,3) p unfolding key path by (cases r) simp_all
      next
        case False
        then have failed: "nothing_stored w q n partial e1 (r, tree')" using step by auto
        then obtain c where c: "r = Inl c" "\<forall>x. x \<noteq> q @ [partial] \<longrightarrow> file_at x tree' = file_at x tree"
            "file_at (q @ [partial]) tree' = None \<or> wf_fails w Unlink_partial"
          unfolding nothing_stored_def prod.case same by (elim conjE exE) (rule that, assumption, assumption, blast)
        have unfit: "\<not> (ends \<and> int (length (concat chunks)) \<le> maxBytes \<and>
            (expectedBytes = None \<or> expectedBytes = Some (int (length (concat chunks)))))"
          using False pipe_limited_fits [of ends 0 chunks maxBytes] by auto
        show ?thesis
          unfolding key path c(1) sum.case
        proof (intro conjI)
          show "\<forall>path. path \<noteq> q @ [n] \<and> path \<noteq> q @ [partial] \<longrightarrow> file_at path tree' = file_at path tree"
            using c(2) by blast
          show "file_at (q @ [partial]) tree' = None \<or> wf_fails w Unlink_partial \<and> (\<exists>e. Inl c = Inl e)"
            using c(3) by blast
        qed (use c(2) other unfit in auto)
      qed
    qed
  qed
qed

text \<open>
  A cover that replaces an older one, one that is too long, which changes nothing, and one whose look at
  the file after the rename fails.
\<close>

definition no_faults :: write_faults where
  "no_faults = \<lparr>wf_fails = (\<lambda>_. False), wf_levels = 0, wf_bytes = 0\<rparr>"

definition sample_tree :: fs_entry where
  "sample_tree = Directory [(''staging'', Directory [(''uploads'', Directory [(''old'', File [1, 2, 3] 10)])])]"

definition sample_write :: "fs_call list \<Rightarrow> int \<Rightarrow> stored_object_stat storage_result \<times> fs_entry" where
  "sample_write refused limit = local_write (no_faults\<lparr>wf_fails := List.member refused\<rparr>) ''u'' 20 ''staging/uploads/old''
     [[7], [8, 9]] True limit None sample_tree"

theorem write_all_or_nothing_witness:
  "file_at [''staging'', ''uploads'', ''old''] (snd (sample_write [] 3)) = Some ([7, 8, 9], 20) \<and>
   file_at [''staging'', ''uploads'', ''old''] (snd (sample_write [] 2)) = Some ([1, 2, 3], 10) \<and>
   file_at [''staging'', ''uploads'', ''old''] (snd (sample_write [Sync_partial] 3)) = Some ([1, 2, 3], 10)"
proof -
  have segs: "segments ''staging/uploads/old'' = [''staging'', ''uploads'', ''old'']" by (simp add: segments_def)
  have unused: "\<forall>x. lstat (partial_path ''staging/uploads/old'' ''u'') sample_tree \<noteq> Inr x"
    by (simp add: segs sample_tree_def partial_path_def partial_name_def)
  have results: "fst (sample_write [] 3) = Inr (storedObjectStat [7, 8, 9] 20)" "fst (sample_write [] 2) = Inl Storage_limit_error"
      "fst (sample_write [Sync_partial] 3) = Inl Call_failed"
    by code_simp+
  have old: "file_at [''staging'', ''uploads'', ''old''] sample_tree = Some ([1, 2, 3], 10)" by (simp add: sample_tree_def)
  have written: "case r of
      Inl e \<Rightarrow> file_at [''staging'', ''uploads'', ''old''] t = Some ([1, 2, 3], 10) \<or> List.member refused Stat_result
    | Inr _ \<Rightarrow> file_at [''staging'', ''uploads'', ''old''] t = Some ([7, 8, 9], 20)"
    if "sample_write refused limit = (r, t)" for refused limit r t
    using write_all_or_nothing [OF that [unfolded sample_write_def] unused] old by (auto simp: segs split: sum.splits)
  show ?thesis
    using written [OF surjective_pairing, of "[]" 3] written [OF surjective_pairing, of "[]" 2]
      written [OF surjective_pairing, of "[Sync_partial]" 3] results
    by simp
qed

end
