(* ===== verification/RoutedStore.thy ===== *)
theory RoutedStore
  imports LocalWrites
begin

text \<open>
  \<^verbatim>\<open>storage/routed.ts\<close>: the three roots as one store. Every operation on a key goes to the one root the
  key belongs to.
\<close>

record storage =
  staging_root :: fs_entry
  publication_root :: fs_entry
  covers_root :: fs_entry

fun root_of :: "backend_name \<Rightarrow> storage \<Rightarrow> fs_entry" where
  "root_of Staging s = staging_root s"
| "root_of Publication s = publication_root s"
| "root_of Covers s = covers_root s"

fun set_root :: "backend_name \<Rightarrow> fs_entry \<Rightarrow> storage \<Rightarrow> storage" where
  "set_root Staging t s = s\<lparr>staging_root := t\<rparr>"
| "set_root Publication t s = s\<lparr>publication_root := t\<rparr>"
| "set_root Covers t s = s\<lparr>covers_root := t\<rparr>"

definition backendFor :: "string \<Rightarrow> backend_name storage_result" where
  "backendFor key = rbind (parseStorageKey key) operationBackend"

definition storage_read :: "string \<Rightarrow> storage \<Rightarrow> nat list storage_result" where
  "storage_read key s = rbind (backendFor key) (\<lambda>b. local_read key (root_of b s))"

definition storage_readRange :: "string \<Rightarrow> int \<Rightarrow> int \<Rightarrow> storage \<Rightarrow> nat list storage_result" where
  "storage_readRange key start endInclusive s =
     rbind (backendFor key) (\<lambda>b. local_readRange key start endInclusive (root_of b s))"

definition storage_prepareVerifiedRead ::
  "(nat list \<Rightarrow> string) \<Rightarrow> string \<Rightarrow> int \<Rightarrow> string \<Rightarrow> storage \<Rightarrow> prepared_read option storage_result" where
  "storage_prepareVerifiedRead sha256 key byteSize checksumSha256 s =
     rbind (backendFor key) (\<lambda>b. local_prepareVerifiedRead sha256 key byteSize checksumSha256 (root_of b s))"

definition storage_stat :: "string \<Rightarrow> storage \<Rightarrow> stored_object_stat option storage_result" where
  "storage_stat key s = rbind (backendFor key) (\<lambda>b. local_stat key (root_of b s))"

definition on_root :: "backend_name \<Rightarrow> (fs_entry \<Rightarrow> 'a storage_result \<times> fs_entry) \<Rightarrow> storage \<Rightarrow> 'a storage_result \<times> storage" where
  "on_root b f s = (case f (root_of b s) of (r, t) \<Rightarrow> (r, set_root b t s))"

definition storage_write ::
  "write_faults \<Rightarrow> string \<Rightarrow> int \<Rightarrow> string \<Rightarrow> nat list list \<Rightarrow> bool \<Rightarrow> int \<Rightarrow> int option \<Rightarrow> storage \<Rightarrow>
    stored_object_stat storage_result \<times> storage" where
  "storage_write w uuid now key chunks ends maxBytes expectedBytes s = (case backendFor key of
      Inl e \<Rightarrow> (Inl e, s)
    | Inr b \<Rightarrow> on_root b (local_write w uuid now key chunks ends maxBytes expectedBytes) s)"

definition storage_delete :: "string \<Rightarrow> storage \<Rightarrow> unit storage_result \<times> storage" where
  "storage_delete key s = (case backendFor key of
      Inl e \<Rightarrow> (Inl e, s)
    | Inr b \<Rightarrow> on_root b (local_delete key) s)"

text \<open>A copy between roots streams the source into a write that must have its length.\<close>

definition storage_copy ::
  "write_faults \<Rightarrow> string \<Rightarrow> int \<Rightarrow> string \<Rightarrow> string \<Rightarrow> storage \<Rightarrow> stored_object_stat storage_result \<times> storage" where
  "storage_copy w uuid now source destination s =
     (case rbind (operationBackend source) (\<lambda>b. rbind (operationBackend destination) (\<lambda>c. Inr (b, c))) of
       Inl e \<Rightarrow> (Inl e, s)
     | Inr (b, c) \<Rightarrow>
         if b = c then on_root b (local_copy w uuid now source destination) s
         else (case rbind (local_stat source (root_of b s)) (\<lambda>object. case object of
                 None \<Rightarrow> Inl No_entry
               | Some st \<Rightarrow> rbind (local_read source (root_of b s)) (\<lambda>bytes. Inr (st_byteSize st, bytes))) of
             Inl e \<Rightarrow> (Inl e, s)
           | Inr (n, bytes) \<Rightarrow>
               on_root c (local_write w uuid now destination [bytes] True n (Some n)) s))"

section \<open>Reading\<close>

definition stored_file :: "string \<Rightarrow> storage \<Rightarrow> (nat list \<times> int) option" where
  "stored_file key s = (case operationBackend key of
      Inl _ \<Rightarrow> None | Inr b \<Rightarrow> file_at (segments key) (root_of b s))"

lemma regularFileStat_file:
  "regularFileStat p t = Inr (Some st) \<Longrightarrow>
     \<exists>m. file_at p t = Some (file_bytes p t, m) \<and> st = storedObjectStat (file_bytes p t) m"
  by (auto simp: regularFileStat_def rbind_eq_Inr file_at_def file_bytes_def split: sum.splits fs_entry.splits if_splits)

lemma backendFor_routed: "backendFor key = Inr b \<Longrightarrow> parseStorageKey key = Inr key \<and> operationBackend key = Inr b"
  using parseStorageKey_same by (fastforce simp: backendFor_def rbind_eq_Inr)

lemma storage_read_file:
  "storage_read key s = Inr bytes \<Longrightarrow> \<exists>m. stored_file key s = Some (bytes, m)"
  by (auto simp: storage_read_def local_read_def rbind_eq_Inr stored_file_def
      dest!: backendFor_routed targetFor_segments regularFileStat_file split: option.splits)

lemma storage_readRange_file:
  assumes "storage_readRange key a b s = Inr bytes"
  shows "\<exists>all m. stored_file key s = Some (all, m) \<and> bytes = byte_slice a b all \<and> 0 \<le> a \<and> a \<le> b \<and> b < int (length all)"
proof -
  obtain c where c: "backendFor key = Inr c" "local_readRange key a b (root_of c s) = Inr bytes"
    using assms by (auto simp: storage_readRange_def rbind_eq_Inr)
  obtain st where st: "regularFileStat (segments key) (root_of c s) = Inr (Some st)"
    "bytes = byte_slice a b (file_bytes (segments key) (root_of c s))" "0 \<le> a" "a \<le> b" "b < st_byteSize st"
    using c(2) by (auto simp: local_readRange_def rbind_eq_Inr dest!: targetFor_segments split: if_splits option.splits)
  show ?thesis
    using regularFileStat_file [OF st(1)] st backendFor_routed [OF c(1)]
    by (auto simp: stored_file_def storedObjectStat_def)
qed

lemma storage_prepare_file:
  assumes "storage_prepareVerifiedRead sha256 key n digest s = Inr (Some p)"
  shows "\<exists>m. stored_file key s = Some (pr_snapshot p, m) \<and> pr_stat p = storedObjectStat (pr_snapshot p) m \<and>
    sha256 (pr_snapshot p) = digest \<and> int (length (pr_snapshot p)) = n"
proof -
  obtain c where c: "backendFor key = Inr c" "local_prepareVerifiedRead sha256 key n digest (root_of c s) = Inr (Some p)"
    using assms by (auto simp: storage_prepareVerifiedRead_def rbind_eq_Inr)
  obtain st where st: "regularFileStat (segments key) (root_of c s) = Inr (Some st)"
    "p = \<lparr>pr_stat = st, pr_snapshot = file_bytes (segments key) (root_of c s)\<rparr>"
    "sha256 (file_bytes (segments key) (root_of c s)) = digest" "int (length (file_bytes (segments key) (root_of c s))) = n"
    using c(2) by (auto simp: local_prepareVerifiedRead_def rbind_eq_Inr Let_def dest!: targetFor_segments
        split: if_splits option.splits)
  show ?thesis
    using regularFileStat_file [OF st(1)] st backendFor_routed [OF c(1)] by (auto simp: stored_file_def)
qed

end
