(* ===== verification/MediaResponse.thy ===== *)
theory MediaResponse
  imports RoutedStore
begin

text \<open>
  \<^verbatim>\<open>http/range.ts\<close> and \<^verbatim>\<open>http/media-response.ts\<close>: the part of a stored file a request asks for, and the
  response with its headers and its body. A body is the list of bytes its stream delivers. A response
  also says what became of the copy a verified read keeps: there was none, it is closed, or the stream
  of the body closes it at its end.
\<close>

section \<open>Ranges\<close>

datatype media_error = Object_size_invalid | Range_not_satisfiable int | Integrity_failed
  | Prepared_mismatch | Storage_failed storage_error

definition parseSingleRange :: "string option \<Rightarrow> int \<Rightarrow> media_error + (int \<times> int) option" where
  "parseSingleRange header byteCount =
     (if \<not> safe_integer byteCount \<or> byteCount < 0 then Inl Object_size_invalid
      else (case header of
        None \<Rightarrow> Inr None
      | Some h \<Rightarrow>
          if byteCount = 0 \<or> take 6 h \<noteq> ''bytes='' \<or> CHR '','' \<in> set h then Inl (Range_not_satisfiable byteCount)
          else (case split_char (CHR ''-'') (drop 6 h) of
            [a, b] \<Rightarrow>
              if \<not> list_all decimal_digit a \<or> \<not> list_all decimal_digit b \<or> (a = [] \<and> b = [])
              then Inl (Range_not_satisfiable byteCount)
              else if a = [] then
                (let suffixLength = int (parse_decimal b)
                 in if \<not> safe_integer suffixLength \<or> suffixLength \<le> 0 then Inl (Range_not_satisfiable byteCount)
                    else Inr (Some (max 0 (byteCount - suffixLength), byteCount - 1)))
              else
                (let start = int (parse_decimal a)
                 in if \<not> safe_integer start \<or> start \<ge> byteCount then Inl (Range_not_satisfiable byteCount)
                    else if b = [] then Inr (Some (start, byteCount - 1))
                    else (let requestedEnd = int (parse_decimal b)
                      in if \<not> safe_integer requestedEnd \<or> requestedEnd < start then Inl (Range_not_satisfiable byteCount)
                         else Inr (Some (start, min requestedEnd (byteCount - 1)))))
          | _ \<Rightarrow> Inl (Range_not_satisfiable byteCount))))"

lemma parsed_range_within:
  "parseSingleRange header byteCount = Inr (Some (a, b)) \<Longrightarrow>
     0 \<le> a \<and> a \<le> b \<and> b < byteCount \<and> safe_integer byteCount \<and> safe_integer a \<and> safe_integer b"
  by (auto simp: parseSingleRange_def Let_def safe_integer_def split: option.splits if_splits list.splits)

lemma parsed_whole: "parseSingleRange header byteCount = Inr None \<Longrightarrow> header = None \<and> 0 \<le> byteCount \<and> safe_integer byteCount"
  by (auto simp: parseSingleRange_def Let_def split: option.splits if_splits list.splits)

lemma parse_range_error:
  "parseSingleRange header byteCount = Inl e \<Longrightarrow>
     e = (if safe_integer byteCount \<and> 0 \<le> byteCount then Range_not_satisfiable byteCount else Object_size_invalid)"
  by (auto simp: parseSingleRange_def Let_def split: option.splits if_splits list.splits)

section \<open>Headers\<close>

record media_access =
  ma_key :: string
  ma_stat :: stored_object_stat
  ma_mediaType :: string
  ma_checksumSha256 :: string
  ma_filename :: "string option"
  ma_attachment :: bool
  ma_cacheControl :: string
  ma_verifyIntegrity :: bool

definition safeMediaTypes :: "string list" where
  "safeMediaTypes = [''image/webp'', ''image/jpeg'', ''image/png'', ''application/epub+zip'',
     ''application/zip'', ''application/vnd.comicbook+zip'', ''application/octet-stream'']"

text \<open>\<^verbatim>\<open>toLowerCase\<close> and \<^verbatim>\<open>trim\<close> on code units below 256.\<close>

definition lower_latin :: "char \<Rightarrow> char" where
  "lower_latin c = (let n = of_char c :: nat
     in if (65 \<le> n \<and> n \<le> 90) \<or> (192 \<le> n \<and> n \<le> 222 \<and> n \<noteq> 215) then char_of (n + 32) else c)"

definition media_space :: "char \<Rightarrow> bool" where
  "media_space c \<longleftrightarrow> of_char c \<in> {9, 10, 11, 12, 13, 32, 160 :: nat}"

definition media_trim :: "string \<Rightarrow> string" where
  "media_trim s = rev (dropWhile media_space (rev (dropWhile media_space s)))"

definition safeContentType :: "string \<Rightarrow> string" where
  "safeContentType value =
     (let normalized = media_trim (hd (split_char (CHR '';'') (map lower_latin value)))
      in if normalized \<in> set safeMediaTypes then normalized else ''application/octet-stream'')"

definition hex_upper :: "nat \<Rightarrow> char" where
  "hex_upper d = char_of (if d < 10 then 48 + d else 55 + d)"

definition percent :: "nat \<Rightarrow> string" where
  "percent b = [CHR ''%'', hex_upper (b div 16), hex_upper (b mod 16)]"

definition uri_unreserved :: "nat \<Rightarrow> bool" where
  "uri_unreserved n \<longleftrightarrow> (48 \<le> n \<and> n \<le> 57) \<or> (65 \<le> n \<and> n \<le> 90) \<or> (97 \<le> n \<and> n \<le> 122) \<or>
     n \<in> {45, 95, 46, 33, 126, 42, 39, 40, 41}"

definition encodeURIComponent :: "string \<Rightarrow> string" where
  "encodeURIComponent s = concat (map (\<lambda>c. let n = of_char c :: nat
     in if uri_unreserved n then [c]
        else if n < 128 then percent n
        else percent (192 + n div 64) @ percent (128 + n mod 64)) s)"

definition ascii_filename :: "string \<Rightarrow> string" where
  "ascii_filename s = map (\<lambda>c. let n = of_char c :: nat
     in if 32 \<le> n \<and> n \<le> 126 \<and> n \<noteq> 34 \<and> n \<noteq> 92 then c else CHR ''_'') s"

text \<open>\<open>CHR 0x22\<close> is the double quote and \<open>CHR 0x27\<close> the single one.\<close>

definition contentDisposition :: "media_access \<Rightarrow> string" where
  "contentDisposition access =
     (if \<not> ma_attachment access \<or> ma_filename access = None \<or> ma_filename access = Some [] then ''inline''
      else (let name = the (ma_filename access); ascii = ascii_filename name
        in ''attachment; filename='' @ [CHR 0x22] @ (if ascii = [] then ''publication-download'' else ascii) @ [CHR 0x22]
           @ ''; filename*=UTF-8'' @ [CHR 0x27, CHR 0x27] @ encodeURIComponent name))"

section \<open>The response\<close>

datatype copy_state = No_copy | Copy_closed | Copy_with_body

record media_response =
  mr_status :: int
  mr_headers :: "(string \<times> string) list"
  mr_body :: "nat list option"

definition range_headers :: "(int \<times> int) option \<Rightarrow> int \<Rightarrow> (string \<times> string) list" where
  "range_headers requested byteCount = (case requested of
      None \<Rightarrow> []
    | Some (start, endInclusive) \<Rightarrow>
        [(''content-range'', ''bytes '' @ int_text start @ ''-'' @ int_text endInclusive @ ''/'' @ int_text byteCount)])"

definition response_headers :: "media_access \<Rightarrow> (int \<times> int) option \<Rightarrow> (string \<times> string) list" where
  "response_headers access requested =
     (let byteCount = st_byteSize (ma_stat access);
          byteSize = (case requested of None \<Rightarrow> byteCount | Some (start, endInclusive) \<Rightarrow> endInclusive - start + 1)
      in [(''accept-ranges'', ''bytes''),
          (''cache-control'', ma_cacheControl access),
          (''content-disposition'', contentDisposition access),
          (''content-length'', int_text byteSize),
          (''content-type'', safeContentType (ma_mediaType access)),
          (''etag'', [CHR 0x22] @ ma_checksumSha256 access @ [CHR 0x22]),
          (''x-content-type-options'', ''nosniff'')] @ range_headers requested byteCount)"

definition response_status :: "(int \<times> int) option \<Rightarrow> int" where
  "response_status requested = (if requested = None then 200 else 206)"

definition unsatisfiable_response :: "int \<Rightarrow> media_response" where
  "unsatisfiable_response byteCount = \<lparr>mr_status = 416, mr_headers =
     [(''accept-ranges'', ''bytes''), (''cache-control'', ''no-store''),
      (''content-range'', ''bytes */'' @ int_text byteCount), (''x-content-type-options'', ''nosniff'')], mr_body = None\<rparr>"

text \<open>
  \<^verbatim>\<open>streamMediaResponse\<close>. A copy the caller brings is \<open>verifiedRead\<close>; otherwise one is made where the
  access asks for it.
\<close>

definition prepared_for ::
  "(nat list \<Rightarrow> string) \<Rightarrow> storage \<Rightarrow> media_access \<Rightarrow> prepared_read option \<Rightarrow> prepared_read option storage_result" where
  "prepared_for sha256 s access verifiedRead = (case verifiedRead of
      Some p \<Rightarrow> Inr (Some p)
    | None \<Rightarrow>
        if ma_verifyIntegrity access
        then storage_prepareVerifiedRead sha256 (ma_key access) (st_byteSize (ma_stat access)) (ma_checksumSha256 access) s
        else Inr None)"

definition source_bytes ::
  "storage \<Rightarrow> media_access \<Rightarrow> prepared_read option \<Rightarrow> (int \<times> int) option \<Rightarrow> nat list storage_result" where
  "source_bytes s access prepared requested = (case prepared of
      Some p \<Rightarrow> prepared_bytes p requested
    | None \<Rightarrow> (case requested of
        Some (start, endInclusive) \<Rightarrow> storage_readRange (ma_key access) start endInclusive s
      | None \<Rightarrow> storage_read (ma_key access) s))"

definition streamMediaResponse ::
  "(nat list \<Rightarrow> string) \<Rightarrow> storage \<Rightarrow> media_access \<Rightarrow> bool \<Rightarrow> string option \<Rightarrow> prepared_read option \<Rightarrow>
    (media_error + media_response) \<times> copy_state" where
  "streamMediaResponse sha256 s access head_only rangeHeader verifiedRead =
     (let closed = (\<lambda>p :: prepared_read option. if p = None then No_copy else Copy_closed)
      in case parseSingleRange rangeHeader (st_byteSize (ma_stat access)) of
        Inl e \<Rightarrow> ((case e of Range_not_satisfiable byteCount \<Rightarrow> Inr (unsatisfiable_response byteCount) | _ \<Rightarrow> Inl e), closed verifiedRead)
      | Inr requested \<Rightarrow>
          if head_only then
            (Inr \<lparr>mr_status = response_status requested, mr_headers = response_headers access requested,
               mr_body = None\<rparr>, closed verifiedRead)
          else (case prepared_for sha256 s access verifiedRead of
            Inl e \<Rightarrow> (Inl (Storage_failed e), No_copy)
          | Inr prepared \<Rightarrow>
              if ma_verifyIntegrity access \<and> prepared = None then (Inl Integrity_failed, No_copy)
              else if (case prepared of None \<Rightarrow> False | Some p \<Rightarrow> st_byteSize (pr_stat p) \<noteq> st_byteSize (ma_stat access))
              then (Inl Prepared_mismatch, Copy_closed)
              else (case source_bytes s access prepared requested of
                Inl e \<Rightarrow> (Inl (Storage_failed e), closed prepared)
              | Inr bytes \<Rightarrow>
                  (Inr \<lparr>mr_status = response_status requested, mr_headers = response_headers access requested,
                     mr_body = Some bytes\<rparr>, if prepared = None then No_copy else Copy_with_body))))"


lemma length_byte_slice:
  "0 \<le> a \<Longrightarrow> a \<le> b \<Longrightarrow> b < int (length bytes) \<Longrightarrow> int (length (byte_slice a b bytes)) = b - a + 1"
  by (simp add: byte_slice_def)

lemma source_bytes_slice:
  assumes "source_bytes s access prepared requested = Inr body"
    and "stored_file (ma_key access) s = Some (bytes, mtime)"
    and "\<And>p. prepared = Some p \<Longrightarrow> pr_snapshot p = bytes"
  shows "body = (case requested of None \<Rightarrow> bytes | Some (a, b) \<Rightarrow> byte_slice a b bytes)"
  using assms
  by (auto simp: source_bytes_def prepared_bytes_def split: option.splits if_splits
      dest!: storage_read_file storage_readRange_file)

lemma prepared_for_copy:
  assumes "prepared_for sha256 s access verifiedRead = Inr (Some p)"
    and "stored_file (ma_key access) s = Some (bytes, mtime)"
    and "\<And>p. verifiedRead = Some p \<Longrightarrow> storage_prepareVerifiedRead sha256 (ma_key access)
      (st_byteSize (ma_stat access)) (ma_checksumSha256 access) s = Inr (Some p)"
  shows "pr_snapshot p = bytes \<and> sha256 bytes = ma_checksumSha256 access"
proof -
  have "storage_prepareVerifiedRead sha256 (ma_key access) (st_byteSize (ma_stat access)) (ma_checksumSha256 access) s
      = Inr (Some p)"
    using assms(1,3) by (auto simp: prepared_for_def split: option.splits if_splits)
  from storage_prepare_file [OF this] assms(2) show ?thesis by auto
qed

lemma response_header_lookup:
  "map_of (response_headers access requested) ''content-length'' =
     Some (int_text (case requested of None \<Rightarrow> st_byteSize (ma_stat access) | Some (a, b) \<Rightarrow> b - a + 1))"
  "map_of (response_headers access requested) ''content-range'' =
     (case requested of None \<Rightarrow> None
      | Some (a, b) \<Rightarrow> Some (''bytes '' @ int_text a @ ''-'' @ int_text b @ ''/'' @ int_text (st_byteSize (ma_stat access))))"
  by (auto simp: response_headers_def range_headers_def Let_def split: option.splits)

text \<open>The branches of the response, for an access to a file that is stored as it says.\<close>

lemma response_cases:
  assumes "streamMediaResponse sha256 s access head_only header verifiedRead = (r, copy)"
    and "parseSingleRange header (st_byteSize (ma_stat access)) = Inr requested"
  obtains (empty) "head_only" "copy = (if verifiedRead = None then No_copy else Copy_closed)"
      "\<exists>response. r = Inr response \<and> mr_body response = None"
  | (failed) e where "r = Inl e" "copy \<noteq> Copy_with_body" "ma_verifyIntegrity access \<or> verifiedRead \<noteq> None \<or> copy = No_copy"
  | (body) prepared body where "prepared_for sha256 s access verifiedRead = Inr prepared"
      "ma_verifyIntegrity access \<Longrightarrow> prepared \<noteq> None" "source_bytes s access prepared requested = Inr body"
      "r = Inr \<lparr>mr_status = response_status requested, mr_headers = response_headers access requested, mr_body = Some body\<rparr>"
      "copy = (if prepared = None then No_copy else Copy_with_body)"
  using assms
  by (fastforce simp: streamMediaResponse_def prepared_for_def Let_def split: if_splits sum.splits option.splits)

text \<open>
  C34. A response delivers what its headers say. A body is always a part of the stored file the access
  names, unaltered between its first and its last byte: the whole file with status 200 where the
  request has no range, and otherwise with status 206 a non-empty part within the file, which the
  content range states; the content length is the length of the body. Where the access asks for
  integrity, the file had the digest of the access when the copy served was taken. A range that cannot
  be satisfied is answered 416 with the size and no body. A copy that was taken stays open only with
  the body that closes it.
\<close>

theorem response_delivers_what_it_declares:
  assumes run: "streamMediaResponse sha256 s access head_only header verifiedRead = (r, copy)"
    and stored: "stored_file (ma_key access) s = Some (bytes, mtime)"
    and stat: "ma_stat access = storedObjectStat bytes mtime"
    and brought: "\<And>p. verifiedRead = Some p \<Longrightarrow> storage_prepareVerifiedRead sha256 (ma_key access)
      (st_byteSize (ma_stat access)) (ma_checksumSha256 access) s = Inr (Some p)"
  shows "(\<forall>response body. r = Inr response \<and> mr_body response = Some body \<longrightarrow>
      map_of (mr_headers response) ''content-length'' = Some (int_text (int (length body))) \<and>
      (ma_verifyIntegrity access \<longrightarrow> sha256 bytes = ma_checksumSha256 access) \<and>
      (mr_status response = 200 \<and> header = None \<and> body = bytes \<and>
         map_of (mr_headers response) ''content-range'' = None \<or>
       (\<exists>a b. mr_status response = 206 \<and> parseSingleRange header (int (length bytes)) = Inr (Some (a, b)) \<and>
         0 \<le> a \<and> a \<le> b \<and> b < int (length bytes) \<and> body = byte_slice a b bytes \<and> body \<noteq> [] \<and>
         map_of (mr_headers response) ''content-range'' =
           Some (''bytes '' @ int_text a @ ''-'' @ int_text b @ ''/'' @ int_text (int (length bytes)))))) \<and>
    (\<forall>e. parseSingleRange header (int (length bytes)) = Inl e \<and> safe_integer (int (length bytes)) \<longrightarrow>
      r = Inr (unsatisfiable_response (int (length bytes)))) \<and>
    (copy = Copy_with_body \<longrightarrow> (\<exists>response. r = Inr response \<and> mr_body response \<noteq> None))"
proof (cases "parseSingleRange header (st_byteSize (ma_stat access))")
  case (Inl e)
  have size: "st_byteSize (ma_stat access) = int (length bytes)" by (simp add: stat storedObjectStat_def)
  have e: "e = (if safe_integer (int (length bytes)) then Range_not_satisfiable (int (length bytes)) else Object_size_invalid)"
    using parse_range_error [OF Inl] by (simp add: size)
  have "copy \<noteq> Copy_with_body \<and> r = (if safe_integer (int (length bytes))
      then Inr (unsatisfiable_response (int (length bytes))) else Inl Object_size_invalid)"
    using run Inl e by (auto simp: streamMediaResponse_def Let_def size split: if_splits)
  then show ?thesis by (auto simp: unsatisfiable_response_def)
next
  case (Inr requested)
  have size: "st_byteSize (ma_stat access) = int (length bytes)" by (simp add: stat storedObjectStat_def)
  from run Inr show ?thesis
  proof (cases rule: response_cases)
    case empty
    then show ?thesis using Inr size by auto
  next
    case (failed e)
    then show ?thesis using Inr size by auto
  next
    case (body prepared b)
    have copy: "pr_snapshot p = bytes \<and> sha256 bytes = ma_checksumSha256 access" if "prepared = Some p" for p
      using prepared_for_copy [OF _ stored brought] body(1) that by simp
    have slice: "b = (case requested of None \<Rightarrow> bytes | Some (a, c) \<Rightarrow> byte_slice a c bytes)"
      using source_bytes_slice [OF body(3) stored] copy by blast
    have digest: "sha256 bytes = ma_checksumSha256 access" if "ma_verifyIntegrity access"
      using body(2) [OF that] copy by auto
    show ?thesis
    proof (cases requested)
      case None
      then show ?thesis
        using body(4) slice parsed_whole [of header "int (length bytes)"] Inr digest
        by (auto simp: response_header_lookup response_status_def size)
    next
      case (Some ac)
      obtain a c where ac: "requested = Some (a, c)" using Some by (cases ac) auto
      have within: "0 \<le> a \<and> a \<le> c \<and> c < int (length bytes)"
        using parsed_range_within [of header "int (length bytes)"] Inr ac by (auto simp: size)
      have len: "int (length b) = c - a + 1" using length_byte_slice within slice ac by auto
      then have "b \<noteq> []" using within by auto
      then show ?thesis
        using body(4) slice within len Inr digest ac
        by (auto simp: response_header_lookup response_status_def size)
    qed
  qed
qed


text \<open>The last two bytes of a cover of three, with a check of its digest.\<close>

definition sample_cover_key :: string where
  "sample_cover_key = ''titles/'' @ sample_file_uuid @ ''/covers/'' @ sample_file_uuid @ ''.webp''"

definition sample_storage :: storage where
  "sample_storage = \<lparr>staging_root = Directory [], publication_root = Directory [],
     covers_root = Directory [(''titles'', Directory [(sample_file_uuid, Directory [(''covers'',
       Directory [(sample_file_uuid @ ''.webp'', File [7, 8, 9] 20)])])])]\<rparr>"

definition sample_cover_access :: media_access where
  "sample_cover_access = \<lparr>ma_key = sample_cover_key, ma_stat = storedObjectStat [7, 8, 9] 20, ma_mediaType = ''image/webp'',
     ma_checksumSha256 = ''24'', ma_filename = None, ma_attachment = False, ma_cacheControl = ''private, no-store'',
     ma_verifyIntegrity = True\<rparr>"

definition sample_digest :: "nat list \<Rightarrow> string" where
  "sample_digest bytes = decimal (sum_list bytes)"

theorem response_delivers_what_it_declares_witness:
  "\<exists>response. streamMediaResponse sample_digest sample_storage sample_cover_access False (Some ''bytes=-2'') None =
      (Inr response, Copy_with_body) \<and> mr_body response = Some [8, 9] \<and>
      map_of (mr_headers response) ''content-length'' = Some (int_text 2)"
proof -
  have run: "\<exists>response. streamMediaResponse sample_digest sample_storage sample_cover_access False (Some ''bytes=-2'') None =
      (Inr response, Copy_with_body) \<and> mr_body response = Some [8, 9]"
  proof -
    let ?run = "streamMediaResponse sample_digest sample_storage sample_cover_access False (Some ''bytes=-2'') None"
    have parts: "(case fst ?run of Inr x \<Rightarrow> mr_body x | Inl _ \<Rightarrow> None) = Some [8, 9] \<and> snd ?run = Copy_with_body"
      by code_simp
    then show ?thesis by (cases ?run) (auto split: sum.splits)
  qed
  then obtain response where response:
    "streamMediaResponse sample_digest sample_storage sample_cover_access False (Some ''bytes=-2'') None = (Inr response, Copy_with_body)"
    "mr_body response = Some [8, 9]" by blast
  have stored: "stored_file (ma_key sample_cover_access) sample_storage = Some ([7, 8, 9], 20)" by code_simp
  have stat: "ma_stat sample_cover_access = storedObjectStat [7, 8, 9] 20" by (simp add: sample_cover_access_def)
  show ?thesis
    using response_delivers_what_it_declares [OF response(1) stored stat] response by auto
qed

end
