(* ===== verification/Spec2Isabelle.thy ===== *)
theory Spec2Isabelle
  imports ChargePlan Exposure RefundPlan DisputePlan CorrectionPlan RefundComponents RefundAllocation
    ReaderHistory JobRuns SalesCsv SalesFigures ProgressSync OrderTracking MediaResponse
begin

text \<open>
  Verification of the bookstore: the commerce core of its server and what readers rely on.

  \<^bold>\<open>The program.\<close> A SvelteKit server on PostgreSQL sells digital books and comics. A reader
  collects titles in a cart, asks for a quote (\<^verbatim>\<open>commerce/quote.ts\<close>), confirms it, which creates an
  order (\<^verbatim>\<open>commerce/orders.ts\<close>) with a checkout session at the payment provider
  (\<^verbatim>\<open>commerce/stripe\<close>). The provider reports events (\<^verbatim>\<open>commerce/webhooks.ts\<close>); a job handles
  each one (\<^verbatim>\<open>commerce/handler.ts\<close>, \<^verbatim>\<open>commerce/fulfillment.ts\<close>), which pays the order and grants
  its titles (\<^verbatim>\<open>commerce/grants.ts\<close>). Refunds and disputes take titles and money back
  (\<^verbatim>\<open>commerce/refunds.ts\<close>, \<^verbatim>\<open>refund-access.ts\<close>, \<^verbatim>\<open>disputes.ts\<close>). Every movement of money is
  attributed to order items by the allocation code (\<^verbatim>\<open>commerce/financial/allocations\<close>,
  \<^verbatim>\<open>refund-review/correction-plan.ts\<close>) and reported (\<^verbatim>\<open>commerce/reporting\<close>). Work outside a
  request runs as jobs of a queue in the database (\<^verbatim>\<open>jobs/repository.ts\<close>). The catalog
  (\<^verbatim>\<open>catalog/publication.ts\<close>, \<^verbatim>\<open>presentations.ts\<close>) decides which revision of a title is public and
  what its preview is; the reader (\<^verbatim>\<open>library/access.ts\<close>, \<^verbatim>\<open>reader-state\<close>, \<^verbatim>\<open>lib/reader\<close>) decides
  who sees what, paginates it and keeps positions and bookmarks over devices and editions. All paths
  are those under \<^verbatim>\<open>src/src/lib\<close>, most of them under its \<^verbatim>\<open>server\<close>.

  \<^bold>\<open>How the model reads.\<close> An operation that runs in one transaction is a function from its input and
  the tables to a result and the new tables; a thrown error is the left of a sum, and a transaction
  that throws leaves the tables as they were, as a rollback does. Tables are lists of records with the
  columns the code uses, and a query is written out as the filter it is, with its order and its
  locks' effect on what is read. JavaScript numbers that the code checks with
  \<^verbatim>\<open>Number.isSafeInteger\<close> are integers with that check written out, also after an addition; strings
  are lists of characters with the order of UTF-16 code units. Randomness, clocks, digests and the
  answers of the provider are arguments. Concurrency is interleaving of whole transactions: the
  operations lock the rows they rely on, so histories are runs of a step relation whose steps are the
  modelled transactions, in any order, with any input.

  \<^bold>\<open>Theories, bottom up.\<close>
  \<^item> \<^verbatim>\<open>Prelude\<close>: results, stable sorting with a comparison function, insertion-ordered maps, decimal
    text, and the lemmas on lists and maps the components share.
  \<^item> \<^verbatim>\<open>FinancialTypes\<close>, \<^verbatim>\<open>LargestRemainder\<close>, \<^verbatim>\<open>AllocCommon\<close>, \<^verbatim>\<open>ChargePlan\<close>, \<^verbatim>\<open>Exposure\<close>,
    \<^verbatim>\<open>RefundPlan\<close>, \<^verbatim>\<open>DisputePlan\<close>: one theory for each file of \<^verbatim>\<open>financial/allocations\<close>. The
    allocator is exact and does not depend on the order of its input; replaying a history of refunds
    and disputes keeps every item between nothing and what was paid; refund and dispute plans stay
    within that and conserve the amount. The locale \<^verbatim>\<open>exact_allocator\<close> is what the plans need of the
    allocator.
  \<^item> \<^verbatim>\<open>CorrectionPlan\<close>: \<^verbatim>\<open>refund-review/correction-plan.ts\<close>, the correction of how a refund is
    reported: persistable rows that balance, within what was paid less other refunds.
  \<^item> \<^verbatim>\<open>CommerceTypes\<close>, \<^verbatim>\<open>RefundComponents\<close>, \<^verbatim>\<open>RefundAllocation\<close>: \<^verbatim>\<open>refund-allocation-components.ts\<close>
    and \<^verbatim>\<open>allocateDeterministicRefunds\<close> of \<^verbatim>\<open>refunds.ts\<close>.
  \<^item> \<^verbatim>\<open>Grants\<close>, \<^verbatim>\<open>DisputeAccess\<close>, \<^verbatim>\<open>AccessSystem\<close>: \<^verbatim>\<open>grants.ts\<close>, \<^verbatim>\<open>refund-access.ts\<close>, \<^verbatim>\<open>disputes.ts\<close>
    and the derivation of \<^verbatim>\<open>claims.ts\<close>; in every run of these transactions the entitlements are the
    projection of the active grants and a revoked purchase stays revoked.
  \<^item> \<^verbatim>\<open>RateLimit\<close>: \<^verbatim>\<open>security/rate-limit.ts\<close>, counted exactly against the history of requests.
  \<^item> \<^verbatim>\<open>ShopTables\<close>, \<^verbatim>\<open>Fingerprint\<close>, \<^verbatim>\<open>Quote\<close>, \<^verbatim>\<open>Orders\<close>, \<^verbatim>\<open>Fulfillment\<close>: the tables of the shop with
    their constraints, and the checkout from the quote to the fulfilled event. The fingerprint is
    the digest of a canonical text that determines the quote.
  \<^item> \<^verbatim>\<open>CheckoutFacts\<close>, \<^verbatim>\<open>FulfillmentFacts\<close>: what each of these operations does to each table.
    \<^verbatim>\<open>CheckoutRuns\<close>: the step relation of the shop and its invariant. \<^verbatim>\<open>CheckoutTerms\<close>,
    \<^verbatim>\<open>CheckoutSafety\<close>: the promises of the checkout over every run, with a sample run to a paid order.
  \<^item> \<^verbatim>\<open>JobTable\<close>, \<^verbatim>\<open>JobQueue\<close>, \<^verbatim>\<open>JobRuns\<close>: the queue, its operations, and the runs of any number of
    workers: the invariant of the table, exclusive leases, bounded attempts, reruns that are not lost.
  \<^item> \<^verbatim>\<open>SalesCsv\<close>: the sales export of \<^verbatim>\<open>reporting/csv.ts\<close>, read back by a reader of RFC 4180.
  \<^item> \<^verbatim>\<open>SalesMetrics\<close>, \<^verbatim>\<open>SalesFigures\<close>: the figures of a title and their summary by currencies
    (\<^verbatim>\<open>reporting/metrics.ts\<close>), against sums over the allocations they are made of.
  \<^item> \<^verbatim>\<open>Catalog\<close>, \<^verbatim>\<open>CatalogRuns\<close>: publication and settings of titles, and what every history of these
    operations keeps. \<^verbatim>\<open>ReaderPages\<close>: pagination and positions. \<^verbatim>\<open>ReaderAccess\<close>, \<^verbatim>\<open>Reading\<close>,
    \<^verbatim>\<open>Storefront\<close>: who is given which document, across the catalog, the grants and the pages.
  \<^item> \<^verbatim>\<open>ReaderState\<close>, \<^verbatim>\<open>ReaderRuns\<close>, \<^verbatim>\<open>ReaderHistory\<close>: positions, bookmarks and preferences under
    optimistic versions, and their migration to a new edition.
  \<^item> \<^verbatim>\<open>OrderStatus\<close>, \<^verbatim>\<open>OrderTracking\<close>: \<^verbatim>\<open>commerce/status-cookie.ts\<close> and \<^verbatim>\<open>commerce/status.ts\<close>, the token
    and the cookie of a guest, who may see an order with them, and what is then reported of it.
  \<^item> \<^verbatim>\<open>ProgressSync\<close>: \<^verbatim>\<open>lib/reader/progress-sync.ts\<close>, the client that keeps the position of an open book
    saved, as a state machine over its timers, answers and continuations.
  \<^item> \<^verbatim>\<open>StorageKeys\<close>, \<^verbatim>\<open>LocalStore\<close>, \<^verbatim>\<open>LocalWrites\<close>, \<^verbatim>\<open>RoutedStore\<close>: \<^verbatim>\<open>storage/keys.ts\<close>,
    \<^verbatim>\<open>storage/local.ts\<close> and \<^verbatim>\<open>storage/routed.ts\<close>. A key addresses one file below its root and no other;
    a root is a tree of directories, and a write changes one file in it or nothing.
  \<^item> \<^verbatim>\<open>MediaResponse\<close>: \<^verbatim>\<open>http/range.ts\<close> and \<^verbatim>\<open>http/media-response.ts\<close>, the response that serves a
    stored file or a part of it.

  \<^bold>\<open>Interfaces.\<close> Where one component relies on another the reliance is a locale: its parameters are
  the operations the client calls and its assumptions the laws the provider keeps; it is interpreted
  on the modelled operations in the theory that provides them. The step relations use inductive
  predicates with their inversion rules, and the invariants are proved by rule induction.

  \<^bold>\<open>Bounds and termination.\<close> Loops of the source that run over a list are recursion on the list; the
  loops that do not (pagination, the reader of the export, draining the queue) have measures or run
  on fuel, and their theorems state that the fuel suffices. Money is bounded by
  \<^verbatim>\<open>Number.MAX_SAFE_INTEGER\<close> where the code checks it and by the column types where the database does.

  \<^bold>\<open>Not modelled.\<close> The components without definitions are listed with their reasons beside this
  development: the transport to the provider and its test doubles, configuration, logs, mail, uploads
  and the clean-up of the store; the identity package; pages and endpoints, which decode a request and call one of
  the modelled operations; the ingestion of archives and images through packages outside the
  repository; routines and triggers in SQL (claims of guests, operator commands on jobs, the
  provider's ledger) with the TypeScript that only calls them; and the workflow transactions around
  the allocation planners, whose calculations are modelled but whose storage is not. Of the modelled
  transactions, audit events are left out, since no operation reads them.
\<close>

end
